(* ===== verification/Prelude.thy ===== *)
theory Prelude
  imports Main
    "HOL-Library.Word"
    "HOL-Library.Multiset"
    "HOL-Library.AList"
    "HOL-Library.Char_ord"
    "HOL-Library.List_Lexorder"
begin

text \<open>
  What the Go code takes from its language and standard library, and the generic lemmas the
  component theories share.

  \<^item> Integers. Go's \<open>int\<close>, \<open>int64\<close> and \<open>time.Duration\<close> are 64 bit two's complement numbers. They
    are modelled as \<^typ>\<open>int\<close>, and \<open>i64\<close> is written out at every addition and multiplication of
    values a client controls (skills, waits, slots, utilities). Counters bounded by the length of
    a list in memory are not wrapped. \<open>uint64\<close> values are 64 bit words.
  \<^item> Time. A \<open>time.Time\<close> is its instant, in nanoseconds from Go's zero time; \<open>Sub\<close> saturates at the
    range of a duration as the standard library documents. The location pointer and the monotonic
    reading, which only \<open>reflect.DeepEqual\<close> can see, are not part of the model.
  \<^item> Strings are byte strings, ordered bytewise (the linear order on lists and characters).
  \<^item> Maps are association lists with distinct keys. Their order stands for the order in which a
    \<open>range\<close> loop visits the entries, which Go leaves open: a result that depended on it would show
    as a result that depends on the list.
  \<^item> \<open>cmp.Compare\<close>, \<open>slices.SortFunc\<close> and \<open>sort.Slice\<close>. The sort is an insertion sort. Go's sort
    is not stable; the locale \<open>keyed_cmp\<close> shows that for a comparator whose ties have equal keys
    every sorted arrangement of a list with distinct keys is the one computed here.
\<close>

section \<open>Named collections\<close>

named_theorems go_simps \<open>unfolding rules for the library functions of the model\<close>

text \<open>\<open>if err := a; err != nil { return err }; return b\<close>\<close>

lemma error_chain_None [simp]:
  "(case a of Some e \<Rightarrow> Some e | None \<Rightarrow> b) = None \<longleftrightarrow> a = None \<and> b = None"
  by (simp split: option.splits)

section \<open>Integers\<close>

definition i64 :: "int \<Rightarrow> int" where
  "i64 x = (x + 2 ^ 63) mod 2 ^ 64 - 2 ^ 63"

definition in_i64 :: "int \<Rightarrow> bool" where
  "in_i64 x \<longleftrightarrow> - (2 ^ 63) \<le> x \<and> x < 2 ^ 63"

definition MaxInt :: int where
  "MaxInt = 2 ^ 63 - 1"

lemma i64_id [simp]: "in_i64 x \<Longrightarrow> i64 x = x"
  by (simp add: i64_def in_i64_def)

lemma in_i64_i64 [simp]: "in_i64 (i64 x)"
  by (simp add: i64_def in_i64_def)

lemma i64_small: "0 \<le> x \<Longrightarrow> x < 2 ^ 63 \<Longrightarrow> i64 x = x"
  by (simp add: in_i64_def)

lemma i64_0 [simp]: "i64 0 = 0"
  by (simp add: i64_def)

text \<open>Go's integer division truncates towards zero.\<close>

definition go_div :: "int \<Rightarrow> int \<Rightarrow> int" where
  "go_div a b = sgn a * sgn b * (\<bar>a\<bar> div \<bar>b\<bar>)"

lemma go_div_nonneg: "0 \<le> a \<Longrightarrow> 0 < b \<Longrightarrow> go_div a b = a div b"
  by (cases "a = 0") (simp_all add: go_div_def)

section \<open>Time\<close>

type_synonym Time = int
type_synonym Duration = int

definition time_IsZero :: "Time \<Rightarrow> bool" where
  "time_IsZero t \<longleftrightarrow> t = 0"

definition Millisecond :: Duration where
  "Millisecond = 1000000"

definition time_Sub :: "Time \<Rightarrow> Time \<Rightarrow> Duration" where
  "time_Sub t u = max (- (2 ^ 63)) (min (2 ^ 63 - 1) (t - u))"

definition Milliseconds :: "Duration \<Rightarrow> int" where
  "Milliseconds d = go_div d Millisecond"

definition time_Add :: "Time \<Rightarrow> Duration \<Rightarrow> Time" where
  "time_Add t d = t + d"

section \<open>Comparison and sorting\<close>

definition go_cmp :: "'a::linorder \<Rightarrow> 'a \<Rightarrow> int" where
  "go_cmp x y = (if x < y then -1 else if y < x then 1 else 0)"

lemma go_cmp_simps [simp]:
  "go_cmp x y < 0 \<longleftrightarrow> x < y" "0 < go_cmp x y \<longleftrightarrow> y < x" "go_cmp x y = 0 \<longleftrightarrow> x = y"
  "go_cmp x y \<le> 0 \<longleftrightarrow> x \<le> y" "0 \<le> go_cmp x y \<longleftrightarrow> y \<le> x" "go_cmp x x = 0"
  by (auto simp: go_cmp_def)

text \<open>\<open>if result := a; result != 0 { return result }; return b\<close>, the shape of every comparator.\<close>

definition cmp_then :: "int \<Rightarrow> int \<Rightarrow> int" where
  "cmp_then a b = (if a \<noteq> 0 then a else b)"

lemma cmp_then_simps [simp]:
  "cmp_then a b < 0 \<longleftrightarrow> a < 0 \<or> a = 0 \<and> b < 0"
  "0 < cmp_then a b \<longleftrightarrow> 0 < a \<or> a = 0 \<and> 0 < b"
  "cmp_then a b = 0 \<longleftrightarrow> a = 0 \<and> b = 0"
  "cmp_then a b \<le> 0 \<longleftrightarrow> a < 0 \<or> a = 0 \<and> b \<le> 0"
  by (auto simp: cmp_then_def)

fun insort_cmp :: "('a \<Rightarrow> 'a \<Rightarrow> int) \<Rightarrow> 'a \<Rightarrow> 'a list \<Rightarrow> 'a list" where
  "insort_cmp cmp x [] = [x]"
| "insort_cmp cmp x (y # ys) = (if cmp x y \<le> 0 then x # y # ys else y # insort_cmp cmp x ys)"

fun sort_cmp :: "('a \<Rightarrow> 'a \<Rightarrow> int) \<Rightarrow> 'a list \<Rightarrow> 'a list" where
  "sort_cmp cmp [] = []"
| "sort_cmp cmp (x # xs) = insort_cmp cmp x (sort_cmp cmp xs)"

abbreviation sorted_cmp :: "('a \<Rightarrow> 'a \<Rightarrow> int) \<Rightarrow> 'a list \<Rightarrow> bool" where
  "sorted_cmp cmp \<equiv> sorted_wrt (\<lambda>x y. cmp x y \<le> 0)"

lemma mset_insort_cmp [simp]: "mset (insort_cmp cmp x xs) = add_mset x (mset xs)"
  by (induction xs) auto

lemma mset_sort_cmp [simp]: "mset (sort_cmp cmp xs) = mset xs"
  by (induction xs) auto

lemma set_insort_cmp [simp]: "set (insort_cmp cmp x xs) = insert x (set xs)"
  by (induction xs) auto

lemma set_sort_cmp [simp]: "set (sort_cmp cmp xs) = set xs"
  by (induction xs) auto

lemma length_sort_cmp [simp]: "length (sort_cmp cmp xs) = length xs"
  by (metis mset_sort_cmp size_mset)

lemma distinct_sort_cmp [simp]: "distinct (sort_cmp cmp xs) = distinct xs"
  by (metis mset_sort_cmp mset_eq_imp_distinct_iff)

lemma sort_cmp_Nil_iff [simp]: "sort_cmp cmp xs = [] \<longleftrightarrow> xs = []"
  by (metis length_0_conv length_sort_cmp)

lemma mset_map_sort_cmp [simp]: "mset (map f (sort_cmp cmp xs)) = mset (map f xs)"
  by (metis mset_map mset_sort_cmp)

lemma distinct_map_sort_cmp [simp]: "distinct (map f (sort_cmp cmp xs)) = distinct (map f xs)"
  by (metis mset_eq_imp_distinct_iff mset_map_sort_cmp)

text \<open>A symmetric relation between all pairs of a list holds whatever the order of the list.\<close>

lemma sorted_wrt_insort_cmp:
  "\<forall>y\<in>set ys. R x y \<and> R y x \<Longrightarrow> sorted_wrt R ys \<Longrightarrow> sorted_wrt R (insort_cmp cmp x ys)"
  by (induction ys) auto

lemma sorted_wrt_sort_cmp:
  "(\<And>x y. R x y \<Longrightarrow> R y x) \<Longrightarrow> sorted_wrt R xs \<Longrightarrow> sorted_wrt R (sort_cmp cmp xs)"
  by (induction xs) (auto intro: sorted_wrt_insort_cmp)

text \<open>
  What \<open>slices.SortFunc\<close> asks of a comparator: it is antisymmetric in sign and its \<open>\<le> 0\<close> is
  transitive. The carrier restricts it to the values a caller really sorts.
\<close>

locale preorder_cmp =
  fixes carrier :: "'a \<Rightarrow> bool" and cmp :: "'a \<Rightarrow> 'a \<Rightarrow> int"
  assumes cmp_sym: "carrier x \<Longrightarrow> carrier y \<Longrightarrow> cmp x y < 0 \<longleftrightarrow> 0 < cmp y x"
    and cmp_trans: "carrier x \<Longrightarrow> carrier y \<Longrightarrow> carrier z \<Longrightarrow>
      cmp x y \<le> 0 \<Longrightarrow> cmp y z \<le> 0 \<Longrightarrow> cmp x z \<le> 0"
begin

lemma cmp_refl: "carrier x \<Longrightarrow> cmp x x = 0"
  using cmp_sym [of x x] by linarith

lemma cmp_total: "carrier x \<Longrightarrow> carrier y \<Longrightarrow> cmp x y \<le> 0 \<or> cmp y x \<le> 0"
  using cmp_sym [of x y] cmp_sym [of y x] by linarith

lemma cmp_not_less: "carrier x \<Longrightarrow> carrier y \<Longrightarrow> \<not> cmp x y < 0 \<Longrightarrow> cmp y x \<le> 0"
  using cmp_sym [of x y] by linarith

lemma cmp_le_trans_less:
  "carrier x \<Longrightarrow> carrier y \<Longrightarrow> carrier z \<Longrightarrow> cmp x y \<le> 0 \<Longrightarrow> cmp y z < 0 \<Longrightarrow> cmp x z < 0"
  using cmp_trans [of x y z] cmp_trans [of z x y] cmp_sym [of x z] cmp_sym [of z x]
    cmp_sym [of y z] by linarith

lemma cmp_less_trans_le:
  "carrier x \<Longrightarrow> carrier y \<Longrightarrow> carrier z \<Longrightarrow> cmp x y < 0 \<Longrightarrow> cmp y z \<le> 0 \<Longrightarrow> cmp x z < 0"
  using cmp_trans [of x y z] cmp_trans [of y z x] cmp_sym [of x z] cmp_sym [of z x]
    cmp_sym [of x y] by linarith

lemma sorted_insort:
  "carrier x \<Longrightarrow> \<forall>y\<in>set ys. carrier y \<Longrightarrow> sorted_cmp cmp ys \<Longrightarrow> sorted_cmp cmp (insort_cmp cmp x ys)"
proof (induction ys)
  case Nil
  then show ?case by simp
next
  case (Cons y ys)
  show ?case
  proof (cases "cmp x y \<le> 0")
    case True
    with Cons.prems show ?thesis by (auto intro: cmp_trans)
  next
    case False
    with Cons.prems cmp_total [of x y] have "cmp y x \<le> 0" by auto
    with Cons False show ?thesis by auto
  qed
qed

lemma sorted_sort: "\<forall>y\<in>set ys. carrier y \<Longrightarrow> sorted_cmp cmp (sort_cmp cmp ys)"
  by (induction ys) (auto intro: sorted_insort)

end

locale keyed_cmp = preorder_cmp carrier cmp
  for carrier :: "'a \<Rightarrow> bool" and cmp :: "'a \<Rightarrow> 'a \<Rightarrow> int" +
  fixes key :: "'a \<Rightarrow> 'k"
  assumes cmp_zero: "carrier x \<Longrightarrow> carrier y \<Longrightarrow> cmp x y = 0 \<Longrightarrow> key x = key y"
begin

lemma sorted_unique:
  "mset xs = mset ys \<Longrightarrow> distinct (map key xs) \<Longrightarrow> \<forall>x\<in>set xs. carrier x \<Longrightarrow>
   sorted_cmp cmp xs \<Longrightarrow> sorted_cmp cmp ys \<Longrightarrow> xs = ys"
proof (induction xs arbitrary: ys)
  case Nil
  then show ?case by simp
next
  case (Cons x xs)
  from Cons.prems(1) obtain y ys' where ys: "ys = y # ys'"
    by (cases ys) auto
  from Cons.prems(1) have same: "set (x # xs) = set (y # ys')"
    unfolding ys by (rule mset_eq_setD)
  have "x = y"
  proof (rule ccontr)
    assume ne: "x \<noteq> y"
    with same have "y \<in> set xs" "x \<in> set ys'" by auto
    with Cons.prems(4,5) ys have "cmp x y \<le> 0" "cmp y x \<le> 0" by auto
    moreover have "carrier x" "carrier y" using Cons.prems(3) \<open>y \<in> set xs\<close> by auto
    ultimately have "cmp x y = 0" using cmp_sym [of x y] cmp_sym [of y x] by linarith
    with \<open>carrier x\<close> \<open>carrier y\<close> have "key x = key y" by (rule cmp_zero)
    with \<open>y \<in> set xs\<close> Cons.prems(2) show False by auto
  qed
  with Cons.prems ys have "xs = ys'" by (intro Cons.IH) auto
  with \<open>x = y\<close> ys show ?case by simp
qed

text \<open>Whatever sorting algorithm is used, and whatever the order of its input, it returns this list.\<close>

lemma sort_unique:
  assumes "mset ys = mset xs" "distinct (map key xs)" "\<forall>x\<in>set xs. carrier x" "sorted_cmp cmp ys"
  shows "ys = sort_cmp cmp xs"
proof (rule sorted_unique)
  show "mset ys = mset (sort_cmp cmp xs)" using assms(1) by simp
  have same: "set ys = set xs" using assms(1) by (rule mset_eq_setD)
  show "distinct (map key ys)"
    using assms(1,2) by (metis mset_eq_imp_distinct_iff mset_map)
  show "\<forall>x\<in>set ys. carrier x" using assms(3) same by simp
  show "sorted_cmp cmp ys" by (rule assms(4))
  show "sorted_cmp cmp (sort_cmp cmp xs)" using assms(3) by (rule sorted_sort)
qed

lemma sort_permutation:
  assumes "mset ys = mset xs" "distinct (map key xs)" "\<forall>x\<in>set xs. carrier x"
  shows "sort_cmp cmp ys = sort_cmp cmp xs"
proof (rule sort_unique [OF _ assms(2,3)])
  show "mset (sort_cmp cmp ys) = mset xs" using assms(1) by simp
  have "set ys = set xs" using assms(1) by (rule mset_eq_setD)
  with assms(3) show "sorted_cmp cmp (sort_cmp cmp ys)" by (intro sorted_sort) simp
qed

lemma sort_id:
  "sorted_cmp cmp xs \<Longrightarrow> distinct (map key xs) \<Longrightarrow> \<forall>x\<in>set xs. carrier x \<Longrightarrow> sort_cmp cmp xs = xs"
  using sort_unique [of xs xs] by simp

end

text \<open>A comparator whose ties a linear order breaks, the usual last line of a Go comparator.\<close>

locale tie_break = preorder_cmp carrier cmp
  for carrier :: "'a \<Rightarrow> bool" and cmp :: "'a \<Rightarrow> 'a \<Rightarrow> int" +
  fixes key :: "'a \<Rightarrow> 'k :: linorder"
begin

definition refined :: "'a \<Rightarrow> 'a \<Rightarrow> int" where
  "refined x y = cmp_then (cmp x y) (go_cmp (key x) (key y))"

lemma refined_trans:
  assumes "carrier x" "carrier y" "carrier z" "refined x y \<le> 0" "refined y z \<le> 0"
  shows "refined x z \<le> 0"
proof -
  consider "cmp x y < 0" | "cmp y z < 0" | "cmp x y = 0" "cmp y z = 0" "key x \<le> key z"
    using assms(4,5) by (fastforce simp: refined_def)
  then show ?thesis
  proof cases
    case 1
    with assms have "cmp x z < 0" by (auto simp: refined_def intro: cmp_less_trans_le)
    then show ?thesis by (simp add: refined_def)
  next
    case 2
    with assms have "cmp x z < 0" by (auto simp: refined_def intro: cmp_le_trans_less)
    then show ?thesis by (simp add: refined_def)
  next
    case 3
    then have "cmp x z \<le> 0" using cmp_trans [of x y z] assms(1-3) by simp
    with 3(3) show ?thesis by (auto simp: refined_def)
  qed
qed

end

sublocale tie_break \<subseteq> refined: keyed_cmp carrier refined key
proof unfold_locales
  fix x y
  assume "carrier x" "carrier y"
  then show "refined x y < 0 \<longleftrightarrow> 0 < refined y x"
    using cmp_sym [of x y] cmp_sym [of y x] by (auto simp: refined_def)
qed (blast intro: refined_trans, simp add: refined_def)

text \<open>The comparator of any linear order is such a comparator.\<close>

interpretation go_cmp: keyed_cmp "\<lambda>_. True" go_cmp "\<lambda>x. x"
  by unfold_locales auto

end
