(* ===== verification/Domain.thy ===== *)
theory Domain
  imports Prelude
begin

text \<open>
  The data of the matchmaking domain, \<open>src/internal/domain/model.go\<close> and \<open>failure.go\<close>: one record
  per Go struct, one datatype per string enumeration.

  The Go enumerations are string types, so a value can be any string. Where the code receives such
  a value from a client (proposal kind, assignment outcome, failure code) the datatype has a last
  constructor for every other string; where only the code itself writes it (reservation status,
  unmatched reason) it has none. A struct's field \<open>F\<close> is the record field \<open>x_F\<close> with a prefix \<open>x\<close>
  for its struct, since Isabelle keeps the fields of all records in one name space. A pointer that
  may be nil is an option. A \<open>Failure\<close> is its code: the detail text is for diagnostics only.
\<close>

section \<open>Identities\<close>

type_synonym PlayerID = string
type_synonym TicketID = string
type_synonym SessionID = string
type_synonym SnapshotID = string
type_synonym ProposalID = string
type_synonym ReservationID = string
type_synonym AssignmentID = string
type_synonym OperationID = string
type_synonym PolicyFingerprint = string
type_synonym Revision = "64 word"

section \<open>Failures\<close>

datatype FailureCode =
    FailureInvalidInput
  | FailureInvalidRevision
  | FailureStaleSnapshot
  | FailureReservationConflict
  | FailureReservationExpired
  | FailureInvalidTransition
  | FailureIdempotencyConflict
  | FailurePolicyConflict
  | FailureOther string

text \<open>A Go function that returns \<open>error\<close> gives \<open>None\<close> for nil; one that returns a value and an error gives a sum.\<close>

type_synonym go_error = "FailureCode option"
type_synonym 'a result = "FailureCode + 'a"

fun ValidFailureCode :: "FailureCode \<Rightarrow> bool" where
  "ValidFailureCode FailureInvalidInput = True"
| "ValidFailureCode FailureInvalidRevision = True"
| "ValidFailureCode FailureStaleSnapshot = True"
| "ValidFailureCode FailureReservationConflict = True"
| "ValidFailureCode FailureReservationExpired = True"
| "ValidFailureCode FailureInvalidTransition = True"
| "ValidFailureCode FailureIdempotencyConflict = True"
| "ValidFailureCode FailurePolicyConflict = True"
| "ValidFailureCode (FailureOther s) = False"

text \<open>The empty code, Go's zero value of the type.\<close>

abbreviation no_failure_code :: FailureCode where
  "no_failure_code \<equiv> FailureOther ''''"

section \<open>Tickets\<close>

record Player =
  player_ID :: PlayerID
  player_Skill :: int
  player_Role :: string
  player_LatencyMillis :: int

record MatchTicket =
  mt_ID :: TicketID
  mt_Revision :: Revision
  mt_EnqueuedAt :: Time
  mt_Players :: "Player list"

record RoleCount =
  rc_Role :: string
  rc_Count :: int

record RosterTeamSummary =
  rts_PlayerCount :: int
  rts_SkillTotal :: int
  rts_RoleCounts :: "RoleCount list"
  rts_MaxLatencyMillis :: int

record BackfillTicket =
  bt_ID :: TicketID
  bt_Revision :: Revision
  bt_SessionID :: SessionID
  bt_RosterVersion :: Revision
  bt_OpenSlotsByTeam :: "int list"
  bt_ExistingTeams :: "RosterTeamSummary list"
  bt_EnqueuedAt :: Time

section \<open>Policy and snapshot\<close>

record RoleRequirement =
  rr_Role :: string
  rr_MinPerTeam :: int
  rr_Hard :: bool

record RelaxationStep =
  rs_AfterWait :: Duration
  rs_MaxTeamSkillGap :: int
  rs_MaxRolePenalty :: int
  rs_PrioritizeWait :: bool

record MatchmakingPolicy =
  pol_Version :: string
  pol_TeamCount :: int
  pol_TeamSize :: int
  pol_MaxLatencyMillis :: int
  pol_MaxProposals :: int
  pol_MaxSearchNodes :: int
  pol_MaxCandidateTickets :: int
  pol_MaxCandidatesPerProposal :: int
  pol_MaxBatchCandidates :: int
  pol_MaxBatchSearchNodes :: int
  pol_RoleRequirements :: "RoleRequirement list"
  pol_RelaxationSteps :: "RelaxationStep list"

record MatchmakingSnapshot =
  snap_ID :: SnapshotID
  snap_Now :: Time
  snap_MatchTickets :: "MatchTicket list"
  snap_BackfillTickets :: "BackfillTicket list"
  snap_Policy :: MatchmakingPolicy

section \<open>Proposals\<close>

record TicketRef =
  ref_ID :: TicketID
  ref_Revision :: Revision

record BackfillTarget =
  tgt_Ticket :: TicketRef
  tgt_SessionID :: SessionID
  tgt_RosterVersion :: Revision

datatype ProposalKind = ProposalNewMatch | ProposalBackfill | ProposalKindOther string

fun ProposalKind_string :: "ProposalKind \<Rightarrow> string" where
  "ProposalKind_string ProposalNewMatch = ''new_match''"
| "ProposalKind_string ProposalBackfill = ''backfill''"
| "ProposalKind_string (ProposalKindOther s) = s"

record TeamAssignment =
  ta_Team :: nat
  ta_Tickets :: "TicketRef list"

record ScoreEvidence =
  ev_RelaxationLevel :: nat
  ev_WaitPriority :: bool
  ev_RolePenalty :: int
  ev_TeamSkillGap :: int
  ev_OldestWaitMillis :: int
  ev_TotalWaitMillis :: int
  ev_MaxLatencyMillis :: int
  ev_CandidateTickets :: nat
  ev_CandidatesEvaluated :: nat
  ev_SearchNodes :: nat
  ev_CandidateWindowTruncated :: bool
  ev_SearchTruncated :: bool
  ev_SelectionUtility :: int

definition ScoreEvidence_zero :: ScoreEvidence where
  "ScoreEvidence_zero =
     \<lparr>ev_RelaxationLevel = 0, ev_WaitPriority = False, ev_RolePenalty = 0, ev_TeamSkillGap = 0,
      ev_OldestWaitMillis = 0, ev_TotalWaitMillis = 0, ev_MaxLatencyMillis = 0,
      ev_CandidateTickets = 0, ev_CandidatesEvaluated = 0, ev_SearchNodes = 0,
      ev_CandidateWindowTruncated = False, ev_SearchTruncated = False, ev_SelectionUtility = 0\<rparr>"

record BatchScoreEvidence =
  be_CandidateProposals :: nat
  be_SelectedProposals :: nat
  be_SelectedBackfills :: nat
  be_WaitPriorityEligibleDemands :: nat
  be_WaitPrioritySelectedDemands :: nat
  be_OldestWaitPriorityMillis :: int
  be_OldestSelectedPriorityMillis :: int
  be_TotalUtility :: int
  be_CandidateGenerationNodes :: nat
  be_CandidateGenerationTruncated :: bool
  be_SelectionNodes :: nat
  be_SelectionTruncated :: bool

record MatchProposal =
  prop_ID :: ProposalID
  prop_Kind :: ProposalKind
  prop_PolicyVersion :: string
  prop_PolicyFingerprint :: PolicyFingerprint
  prop_Teams :: "TeamAssignment list"
  prop_Tickets :: "TicketRef list"
  prop_Backfill :: "BackfillTarget option"
  prop_Evidence :: ScoreEvidence

datatype UnmatchedReason =
    UnmatchedHardConstraint
  | UnmatchedInsufficientCapacity
  | UnmatchedQualityThreshold
  | UnmatchedSearchBudget
  | UnmatchedProposalLimit
  | UnmatchedBatchObjective

record UnmatchedTicket =
  um_Ticket :: TicketRef
  um_Reason :: UnmatchedReason

record ProposalBatch =
  batch_SnapshotID :: SnapshotID
  batch_Proposals :: "MatchProposal list"
  batch_Unmatched :: "UnmatchedTicket list"
  batch_BudgetExhausted :: bool
  batch_Evidence :: BatchScoreEvidence

section \<open>Reservations and assignments\<close>

datatype ReservationStatus =
  ReservationActive | ReservationConfirmed | ReservationCancelled | ReservationExpired

record Reservation =
  res_ID :: ReservationID
  res_ProposalID :: ProposalID
  res_Tickets :: "TicketRef list"
  res_Backfill :: "BackfillTarget option"
  res_ExpiresAt :: Time
  res_Status :: ReservationStatus

datatype AssignmentStatus =
    AssignmentPending | AssignmentCompleted | AssignmentCancelled | AssignmentFailed
  | AssignmentStatusOther string

record AssignmentAcknowledgmentRequest =
  req_OperationID :: OperationID
  req_Outcome :: AssignmentStatus
  req_SessionID :: SessionID
  req_ExpectedRosterVersion :: Revision
  req_ResultingRosterVersion :: Revision
  req_FailureCode :: FailureCode
  req_Reason :: string

record AssignmentAcknowledgment =
  ack_Request :: AssignmentAcknowledgmentRequest
  ack_AcknowledgedAt :: Time

record Assignment =
  asg_ID :: AssignmentID
  asg_ReservationID :: ReservationID
  asg_ProposalID :: ProposalID
  asg_Kind :: ProposalKind
  asg_Teams :: "TeamAssignment list"
  asg_Backfill :: "BackfillTarget option"
  asg_ConfirmedAt :: Time
  asg_Status :: AssignmentStatus
  asg_Acknowledgment :: "AssignmentAcknowledgment option"

section \<open>Copies and references\<close>

text \<open>
  The \<open>Clone\<close> functions copy slices so that no two owners share one. In the value semantics of the
  model a copy is the value itself; \<open>clone_simps\<close> says so and removes the calls.
\<close>

definition CloneMatchTicket :: "MatchTicket \<Rightarrow> MatchTicket" where
  "CloneMatchTicket t = t\<lparr>mt_Players := mt_Players t\<rparr>"

definition CloneBackfillTicket :: "BackfillTicket \<Rightarrow> BackfillTicket" where
  "CloneBackfillTicket t =
     t\<lparr>bt_OpenSlotsByTeam := bt_OpenSlotsByTeam t,
       bt_ExistingTeams := map (\<lambda>e. e\<lparr>rts_RoleCounts := rts_RoleCounts e\<rparr>) (bt_ExistingTeams t)\<rparr>"

definition CloneBackfillTarget :: "BackfillTarget option \<Rightarrow> BackfillTarget option" where
  "CloneBackfillTarget target = (case target of None \<Rightarrow> None | Some t \<Rightarrow> Some t)"

definition CloneTeams :: "TeamAssignment list \<Rightarrow> TeamAssignment list" where
  "CloneTeams teams = map (\<lambda>team. \<lparr>ta_Team = ta_Team team, ta_Tickets = ta_Tickets team\<rparr>) teams"

definition CloneProposal :: "MatchProposal \<Rightarrow> MatchProposal" where
  "CloneProposal p =
     p\<lparr>prop_Teams := CloneTeams (prop_Teams p), prop_Tickets := prop_Tickets p,
       prop_Backfill := CloneBackfillTarget (prop_Backfill p)\<rparr>"

definition ClonePolicy :: "MatchmakingPolicy \<Rightarrow> MatchmakingPolicy" where
  "ClonePolicy p =
     p\<lparr>pol_RoleRequirements := pol_RoleRequirements p,
       pol_RelaxationSteps := pol_RelaxationSteps p\<rparr>"

lemma clone_simps [simp]:
  "CloneMatchTicket t = t" "CloneBackfillTicket b = b" "CloneBackfillTarget g = g"
  "CloneTeams ts = ts" "CloneProposal p = p" "ClonePolicy q = q"
  by (auto simp: CloneMatchTicket_def CloneBackfillTicket_def CloneBackfillTarget_def
      CloneTeams_def CloneProposal_def ClonePolicy_def map_idI split: option.splits)

definition TicketReference :: "MatchTicket \<Rightarrow> TicketRef" where
  "TicketReference t = \<lparr>ref_ID = mt_ID t, ref_Revision = mt_Revision t\<rparr>"

definition BackfillReference :: "BackfillTicket \<Rightarrow> BackfillTarget" where
  "BackfillReference t =
     \<lparr>tgt_Ticket = \<lparr>ref_ID = bt_ID t, ref_Revision = bt_Revision t\<rparr>,
      tgt_SessionID = bt_SessionID t, tgt_RosterVersion = bt_RosterVersion t\<rparr>"

lemma ref_TicketReference [simp]:
  "ref_ID (TicketReference t) = mt_ID t" "ref_Revision (TicketReference t) = mt_Revision t"
  by (simp_all add: TicketReference_def)

lemma tgt_BackfillReference [simp]:
  "ref_ID (tgt_Ticket (BackfillReference b)) = bt_ID b"
  "ref_Revision (tgt_Ticket (BackfillReference b)) = bt_Revision b"
  "tgt_SessionID (BackfillReference b) = bt_SessionID b"
  "tgt_RosterVersion (BackfillReference b) = bt_RosterVersion b"
  by (simp_all add: BackfillReference_def)

lemma ScoreEvidence_zero_sel [simp]:
  "ev_OldestWaitMillis ScoreEvidence_zero = 0" "ev_TotalWaitMillis ScoreEvidence_zero = 0"
  "ev_MaxLatencyMillis ScoreEvidence_zero = 0" "ev_RolePenalty ScoreEvidence_zero = 0"
  "ev_TeamSkillGap ScoreEvidence_zero = 0" "ev_WaitPriority ScoreEvidence_zero = False"
  by (simp_all add: ScoreEvidence_zero_def)

end
