(* ===== verification/Validate.thy ===== *)
theory Validate
  imports Domain
begin

text \<open>
  The input checks of \<open>src/internal/domain/validate.go\<close>. Each check is the Go function with its
  early returns in source order; a loop over a slice with a map of values already seen is a
  recursion over the list with the list of values seen. For each check a lemma \<open>\<dots>_None\<close> says
  exactly which inputs it accepts, and the later theories use only those.
\<close>

section \<open>Policies\<close>

fun validate_role_requirements :: "int \<Rightarrow> string list \<Rightarrow> RoleRequirement list \<Rightarrow> go_error" where
  "validate_role_requirements teamSize roles [] = None"
| "validate_role_requirements teamSize roles (r # rs) =
     (if rr_Role r = '''' \<or> rr_MinPerTeam r \<le> 0 \<or> rr_MinPerTeam r > teamSize
      then Some FailureInvalidInput
      else if rr_Role r \<in> set roles then Some FailureInvalidInput
      else validate_role_requirements teamSize (rr_Role r # roles) rs)"

fun validate_later_steps :: "RelaxationStep \<Rightarrow> RelaxationStep list \<Rightarrow> go_error" where
  "validate_later_steps previous [] = None"
| "validate_later_steps previous (current # rest) =
     (if rs_AfterWait current \<le> rs_AfterWait previous then Some FailureInvalidInput
      else if rs_MaxTeamSkillGap current < rs_MaxTeamSkillGap previous \<or>
              rs_MaxRolePenalty current < rs_MaxRolePenalty previous
      then Some FailureInvalidInput
      else if rs_PrioritizeWait previous \<and> \<not> rs_PrioritizeWait current
      then Some FailureInvalidInput
      else validate_later_steps current rest)"

fun validate_relaxation_steps :: "RelaxationStep list \<Rightarrow> go_error" where
  "validate_relaxation_steps [] = None"
| "validate_relaxation_steps (first # rest) =
     (if rs_AfterWait first \<noteq> 0 then Some FailureInvalidInput
      else if rs_MaxTeamSkillGap first < 0 \<or> rs_MaxRolePenalty first < 0
      then Some FailureInvalidInput
      else validate_later_steps first rest)"

definition ValidatePolicy :: "MatchmakingPolicy \<Rightarrow> go_error" where
  "ValidatePolicy policy =
     (if pol_Version policy = '''' then Some FailureInvalidInput
      else if pol_TeamCount policy \<le> 0 \<or> pol_TeamSize policy \<le> 0 then Some FailureInvalidInput
      else if pol_MaxLatencyMillis policy \<le> 0 then Some FailureInvalidInput
      else if pol_MaxProposals policy < 0 \<or> pol_MaxSearchNodes policy < 0 \<or>
              pol_MaxCandidateTickets policy < 0 \<or> pol_MaxCandidatesPerProposal policy < 0 \<or>
              pol_MaxBatchCandidates policy < 0 \<or> pol_MaxBatchSearchNodes policy < 0
      then Some FailureInvalidInput
      else (case validate_role_requirements (pol_TeamSize policy) [] (pol_RoleRequirements policy) of
              Some e \<Rightarrow> Some e
            | None \<Rightarrow> validate_relaxation_steps (pol_RelaxationSteps policy)))"

text \<open>A relaxation step may only loosen the one before it.\<close>

definition step_loosens :: "RelaxationStep \<Rightarrow> RelaxationStep \<Rightarrow> bool" where
  "step_loosens s t \<longleftrightarrow> rs_AfterWait s < rs_AfterWait t \<and>
     rs_MaxTeamSkillGap s \<le> rs_MaxTeamSkillGap t \<and> rs_MaxRolePenalty s \<le> rs_MaxRolePenalty t \<and>
     (rs_PrioritizeWait s \<longrightarrow> rs_PrioritizeWait t)"

lemma step_loosens_trans: "step_loosens s t \<Longrightarrow> step_loosens t u \<Longrightarrow> step_loosens s u"
  by (auto simp: step_loosens_def)

lemma validate_later_steps_None:
  "validate_later_steps s ss = None \<longleftrightarrow> sorted_wrt step_loosens (s # ss)"
proof (induction ss arbitrary: s)
  case Nil
  then show ?case by simp
next
  case (Cons t ss)
  have "validate_later_steps s (t # ss) = None \<longleftrightarrow> step_loosens s t \<and> validate_later_steps t ss = None"
    by (auto simp: step_loosens_def)
  also have "\<dots> \<longleftrightarrow> step_loosens s t \<and> sorted_wrt step_loosens (t # ss)"
    by (simp only: Cons.IH)
  finally show ?case by (auto intro: step_loosens_trans)
qed

lemma validate_role_requirements_None:
  "validate_role_requirements teamSize roles rs = None \<longleftrightarrow>
     (\<forall>r\<in>set rs. rr_Role r \<noteq> '''' \<and> 0 < rr_MinPerTeam r \<and> rr_MinPerTeam r \<le> teamSize) \<and>
     distinct (map rr_Role rs) \<and> set roles \<inter> rr_Role ` set rs = {}"
  by (induction rs arbitrary: roles) auto

definition valid_steps :: "RelaxationStep list \<Rightarrow> bool" where
  "valid_steps ss \<longleftrightarrow> sorted_wrt step_loosens ss \<and>
     (ss \<noteq> [] \<longrightarrow> rs_AfterWait (hd ss) = 0 \<and> 0 \<le> rs_MaxTeamSkillGap (hd ss) \<and>
        0 \<le> rs_MaxRolePenalty (hd ss))"

lemma validate_relaxation_steps_None: "validate_relaxation_steps ss = None \<longleftrightarrow> valid_steps ss"
  by (cases ss) (auto simp: valid_steps_def validate_later_steps_None simp del: sorted_wrt.simps(2))

lemma ValidatePolicy_None:
  "ValidatePolicy p = None \<longleftrightarrow>
     pol_Version p \<noteq> '''' \<and> 0 < pol_TeamCount p \<and> 0 < pol_TeamSize p \<and>
     0 < pol_MaxLatencyMillis p \<and> 0 \<le> pol_MaxProposals p \<and> 0 \<le> pol_MaxSearchNodes p \<and>
     0 \<le> pol_MaxCandidateTickets p \<and> 0 \<le> pol_MaxCandidatesPerProposal p \<and>
     0 \<le> pol_MaxBatchCandidates p \<and> 0 \<le> pol_MaxBatchSearchNodes p \<and>
     (\<forall>r\<in>set (pol_RoleRequirements p).
        rr_Role r \<noteq> '''' \<and> 0 < rr_MinPerTeam r \<and> rr_MinPerTeam r \<le> pol_TeamSize p) \<and>
     distinct (map rr_Role (pol_RoleRequirements p)) \<and> valid_steps (pol_RelaxationSteps p)"
  unfolding ValidatePolicy_def
  by (auto simp: validate_role_requirements_None validate_relaxation_steps_None)

text \<open>Every check fails with the same code, so a caller sees no other one.\<close>

lemma validate_role_requirements_Some:
  "validate_role_requirements n roles rs = Some e \<Longrightarrow> e = FailureInvalidInput"
  by (induction rs arbitrary: roles) (auto split: if_splits)

lemma validate_later_steps_Some: "validate_later_steps s ss = Some e \<Longrightarrow> e = FailureInvalidInput"
  by (induction ss arbitrary: s) (auto split: if_splits)

lemma ValidatePolicy_Some: "ValidatePolicy p = Some e \<Longrightarrow> e = FailureInvalidInput"
  unfolding ValidatePolicy_def
  by (cases "pol_RelaxationSteps p")
    (auto split: if_splits option.splits
      dest: validate_role_requirements_Some validate_later_steps_Some)

section \<open>Tickets\<close>

fun validate_players :: "PlayerID list \<Rightarrow> Player list \<Rightarrow> go_error" where
  "validate_players seen [] = None"
| "validate_players seen (p # ps) =
     (if player_ID p = '''' then Some FailureInvalidInput
      else if player_Skill p < 0 \<or> player_LatencyMillis p < 0 then Some FailureInvalidInput
      else if player_ID p \<in> set seen then Some FailureInvalidInput
      else validate_players (player_ID p # seen) ps)"

definition ValidateMatchTicket :: "MatchTicket \<Rightarrow> go_error" where
  "ValidateMatchTicket ticket =
     (if mt_ID ticket = '''' \<or> mt_Revision ticket = 0 then Some FailureInvalidInput
      else if time_IsZero (mt_EnqueuedAt ticket) then Some FailureInvalidInput
      else if mt_Players ticket = [] then Some FailureInvalidInput
      else validate_players [] (mt_Players ticket))"

lemma validate_players_None:
  "validate_players seen ps = None \<longleftrightarrow>
     (\<forall>p\<in>set ps. player_ID p \<noteq> '''' \<and> 0 \<le> player_Skill p \<and> 0 \<le> player_LatencyMillis p) \<and>
     distinct (map player_ID ps) \<and> set seen \<inter> player_ID ` set ps = {}"
  by (induction ps arbitrary: seen) auto

lemma ValidateMatchTicket_None:
  "ValidateMatchTicket t = None \<longleftrightarrow>
     mt_ID t \<noteq> '''' \<and> mt_Revision t \<noteq> 0 \<and> mt_EnqueuedAt t \<noteq> 0 \<and> mt_Players t \<noteq> [] \<and>
     (\<forall>p\<in>set (mt_Players t). player_ID p \<noteq> '''' \<and> 0 \<le> player_Skill p \<and> 0 \<le> player_LatencyMillis p) \<and>
     distinct (map player_ID (mt_Players t))"
  by (auto simp: ValidateMatchTicket_def validate_players_None time_IsZero_def)

fun sum_slots :: "int \<Rightarrow> int list \<Rightarrow> int result" where
  "sum_slots acc [] = Inr acc"
| "sum_slots acc (slots # rest) =
     (if slots < 0 then Inl FailureInvalidInput else sum_slots (i64 (acc + slots)) rest)"

fun validate_role_counts :: "string list \<Rightarrow> int \<Rightarrow> RoleCount list \<Rightarrow> int result" where
  "validate_role_counts roles rolePlayers [] = Inr rolePlayers"
| "validate_role_counts roles rolePlayers (r # rs) =
     (if rc_Role r = '''' \<or> rc_Count r < 0 then Inl FailureInvalidInput
      else if rc_Role r \<in> set roles then Inl FailureInvalidInput
      else validate_role_counts (rc_Role r # roles) (i64 (rolePlayers + rc_Count r)) rs)"

fun validate_existing_teams :: "RosterTeamSummary list \<Rightarrow> go_error" where
  "validate_existing_teams [] = None"
| "validate_existing_teams (team # rest) =
     (if rts_PlayerCount team < 0 \<or> rts_SkillTotal team < 0 \<or> rts_MaxLatencyMillis team < 0
      then Some FailureInvalidInput
      else (case validate_role_counts [] 0 (rts_RoleCounts team) of
              Inl e \<Rightarrow> Some e
            | Inr rolePlayers \<Rightarrow>
                if rolePlayers > rts_PlayerCount team then Some FailureInvalidInput
                else validate_existing_teams rest))"

definition ValidateBackfillTicket :: "BackfillTicket \<Rightarrow> go_error" where
  "ValidateBackfillTicket ticket =
     (if bt_ID ticket = '''' \<or> bt_Revision ticket = 0 then Some FailureInvalidInput
      else if bt_SessionID ticket = '''' \<or> bt_RosterVersion ticket = 0 then Some FailureInvalidInput
      else if time_IsZero (bt_EnqueuedAt ticket) then Some FailureInvalidInput
      else if bt_OpenSlotsByTeam ticket = [] then Some FailureInvalidInput
      else (case sum_slots 0 (bt_OpenSlotsByTeam ticket) of
              Inl e \<Rightarrow> Some e
            | Inr vacancy \<Rightarrow>
                if vacancy = 0 then Some FailureInvalidInput
                else if bt_ExistingTeams ticket \<noteq> [] \<and>
                        length (bt_ExistingTeams ticket) \<noteq> length (bt_OpenSlotsByTeam ticket)
                then Some FailureInvalidInput
                else validate_existing_teams (bt_ExistingTeams ticket)))"

lemma sum_slots_Inr: "sum_slots n xs = Inr m \<Longrightarrow> \<forall>x\<in>set xs. 0 \<le> x"
  by (induction xs arbitrary: n) (auto split: if_splits)

lemma ValidateBackfillTicket_NoneD:
  assumes "ValidateBackfillTicket b = None"
  shows "bt_ID b \<noteq> ''''" "bt_Revision b \<noteq> 0" "bt_SessionID b \<noteq> ''''" "bt_RosterVersion b \<noteq> 0"
    "bt_EnqueuedAt b \<noteq> 0" "bt_OpenSlotsByTeam b \<noteq> []" "\<forall>s\<in>set (bt_OpenSlotsByTeam b). 0 \<le> s"
    "bt_ExistingTeams b = [] \<or> length (bt_ExistingTeams b) = length (bt_OpenSlotsByTeam b)"
  using assms
  by (auto simp: ValidateBackfillTicket_def time_IsZero_def
      split: if_splits sum.splits dest: sum_slots_Inr)

lemma sum_slots_zero: "\<forall>x\<in>set xs. x = 0 \<Longrightarrow> sum_slots 0 xs = Inr 0"
  by (induction xs) auto

lemma ValidateBackfillTicket_vacancy:
  assumes "ValidateBackfillTicket b = None"
  shows "\<exists>s\<in>set (bt_OpenSlotsByTeam b). s \<noteq> 0"
  using assms sum_slots_zero [of "bt_OpenSlotsByTeam b"]
  by (auto simp: ValidateBackfillTicket_def split: if_splits sum.splits)

section \<open>Snapshots\<close>

fun register_players :: "PlayerID list \<Rightarrow> Player list \<Rightarrow> PlayerID list result" where
  "register_players players [] = Inr players"
| "register_players players (p # ps) =
     (if player_ID p \<in> set players then Inl FailureInvalidInput
      else register_players (player_ID p # players) ps)"

fun validate_snapshot_matches ::
  "Time \<Rightarrow> TicketID list \<Rightarrow> PlayerID list \<Rightarrow> MatchTicket list \<Rightarrow> TicketID list result" where
  "validate_snapshot_matches now tickets players [] = Inr tickets"
| "validate_snapshot_matches now tickets players (t # ts) =
     (case ValidateMatchTicket t of
        Some e \<Rightarrow> Inl e
      | None \<Rightarrow>
          if mt_EnqueuedAt t > now then Inl FailureInvalidInput
          else if mt_ID t \<in> set tickets then Inl FailureInvalidInput
          else (case register_players players (mt_Players t) of
                  Inl e \<Rightarrow> Inl e
                | Inr players' \<Rightarrow> validate_snapshot_matches now (mt_ID t # tickets) players' ts))"

fun validate_team_slots :: "int \<Rightarrow> RosterTeamSummary list \<Rightarrow> nat \<Rightarrow> int list \<Rightarrow> go_error" where
  "validate_team_slots teamSize existing teamIndex [] = None"
| "validate_team_slots teamSize existing teamIndex (slots # rest) =
     (if slots > teamSize then Some FailureInvalidInput
      else if existing \<noteq> [] \<and> i64 (rts_PlayerCount (existing ! teamIndex) + slots) \<noteq> teamSize
      then Some FailureInvalidInput
      else validate_team_slots teamSize existing (Suc teamIndex) rest)"

fun validate_snapshot_backfills ::
  "Time \<Rightarrow> MatchmakingPolicy \<Rightarrow> TicketID list \<Rightarrow> BackfillTicket list \<Rightarrow> go_error" where
  "validate_snapshot_backfills now policy tickets [] = None"
| "validate_snapshot_backfills now policy tickets (b # bs) =
     (case ValidateBackfillTicket b of
        Some e \<Rightarrow> Some e
      | None \<Rightarrow>
          if bt_EnqueuedAt b > now then Some FailureInvalidInput
          else if int (length (bt_OpenSlotsByTeam b)) \<noteq> pol_TeamCount policy
          then Some FailureInvalidInput
          else (case validate_team_slots (pol_TeamSize policy) (bt_ExistingTeams b) 0
                       (bt_OpenSlotsByTeam b) of
                  Some e \<Rightarrow> Some e
                | None \<Rightarrow>
                    if bt_ID b \<in> set tickets then Some FailureInvalidInput
                    else validate_snapshot_backfills now policy (bt_ID b # tickets) bs))"

definition ValidateSnapshot :: "MatchmakingSnapshot \<Rightarrow> go_error" where
  "ValidateSnapshot snapshot =
     (if snap_ID snapshot = '''' \<or> time_IsZero (snap_Now snapshot) then Some FailureInvalidInput
      else (case ValidatePolicy (snap_Policy snapshot) of
              Some e \<Rightarrow> Some e
            | None \<Rightarrow>
                (case validate_snapshot_matches (snap_Now snapshot) [] [] (snap_MatchTickets snapshot) of
                   Inl e \<Rightarrow> Some e
                 | Inr tickets \<Rightarrow>
                     validate_snapshot_backfills (snap_Now snapshot) (snap_Policy snapshot) tickets
                       (snap_BackfillTickets snapshot))))"

lemma register_players_Inr:
  "register_players players ps = Inr players' \<longleftrightarrow>
     distinct (map player_ID ps) \<and> set players \<inter> player_ID ` set ps = {} \<and>
     players' = rev (map player_ID ps) @ players"
  by (induction ps arbitrary: players) auto

abbreviation ticket_player_IDs :: "MatchTicket \<Rightarrow> PlayerID list" where
  "ticket_player_IDs t \<equiv> map player_ID (mt_Players t)"

lemma validate_snapshot_matches_Inr:
  "validate_snapshot_matches now tickets players ts = Inr tickets' \<longleftrightarrow>
     (\<forall>t\<in>set ts. ValidateMatchTicket t = None \<and> mt_EnqueuedAt t \<le> now) \<and>
     distinct (map mt_ID ts) \<and> set tickets \<inter> mt_ID ` set ts = {} \<and>
     distinct (concat (map ticket_player_IDs ts)) \<and>
     set players \<inter> set (concat (map ticket_player_IDs ts)) = {} \<and>
     tickets' = rev (map mt_ID ts) @ tickets"
proof (induction ts arbitrary: tickets players)
  case Nil
  then show ?case by auto
next
  case (Cons t ts)
  have "validate_snapshot_matches now tickets players (t # ts) = Inr tickets' \<longleftrightarrow>
      ValidateMatchTicket t = None \<and> mt_EnqueuedAt t \<le> now \<and> mt_ID t \<notin> set tickets \<and>
      register_players players (mt_Players t) = Inr (rev (ticket_player_IDs t) @ players) \<and>
      validate_snapshot_matches now (mt_ID t # tickets) (rev (ticket_player_IDs t) @ players) ts
        = Inr tickets'"
    by (auto split: option.splits sum.splits dest: register_players_Inr [THEN iffD1])
  then show ?case
    unfolding Cons.IH register_players_Inr
    by (auto simp del: set_concat simp: Int_Un_distrib Int_Un_distrib2)
qed

lemma validate_team_slots_None:
  "validate_team_slots teamSize existing i slots = None \<longleftrightarrow>
     (\<forall>s\<in>set slots. s \<le> teamSize) \<and>
     (existing \<noteq> [] \<longrightarrow> (\<forall>j<length slots. i64 (rts_PlayerCount (existing ! (i + j)) + slots ! j) = teamSize))"
  by (induction slots arbitrary: i) (auto simp: less_Suc_eq_0_disj)

definition backfill_fits :: "MatchmakingPolicy \<Rightarrow> BackfillTicket \<Rightarrow> bool" where
  "backfill_fits policy b \<longleftrightarrow>
     int (length (bt_OpenSlotsByTeam b)) = pol_TeamCount policy \<and>
     validate_team_slots (pol_TeamSize policy) (bt_ExistingTeams b) 0 (bt_OpenSlotsByTeam b) = None"

lemma validate_snapshot_backfills_None:
  "validate_snapshot_backfills now policy tickets bs = None \<longleftrightarrow>
     (\<forall>b\<in>set bs. ValidateBackfillTicket b = None \<and> bt_EnqueuedAt b \<le> now \<and> backfill_fits policy b) \<and>
     distinct (map bt_ID bs) \<and> set tickets \<inter> bt_ID ` set bs = {}"
proof (induction bs arbitrary: tickets)
  case Nil
  then show ?case by simp
next
  case (Cons b bs)
  have "validate_snapshot_backfills now policy tickets (b # bs) = None \<longleftrightarrow>
      ValidateBackfillTicket b = None \<and> bt_EnqueuedAt b \<le> now \<and> backfill_fits policy b \<and>
      bt_ID b \<notin> set tickets \<and> validate_snapshot_backfills now policy (bt_ID b # tickets) bs = None"
    by (auto simp: backfill_fits_def)
  then show ?case unfolding Cons.IH by auto
qed

lemma ValidateSnapshot_None:
  "ValidateSnapshot s = None \<longleftrightarrow>
     snap_ID s \<noteq> '''' \<and> snap_Now s \<noteq> 0 \<and> ValidatePolicy (snap_Policy s) = None \<and>
     (\<forall>t\<in>set (snap_MatchTickets s). ValidateMatchTicket t = None \<and> mt_EnqueuedAt t \<le> snap_Now s) \<and>
     (\<forall>b\<in>set (snap_BackfillTickets s). ValidateBackfillTicket b = None \<and>
        bt_EnqueuedAt b \<le> snap_Now s \<and> backfill_fits (snap_Policy s) b) \<and>
     distinct (map mt_ID (snap_MatchTickets s) @ map bt_ID (snap_BackfillTickets s)) \<and>
     distinct (concat (map ticket_player_IDs (snap_MatchTickets s)))"
proof -
  let ?m = "validate_snapshot_matches (snap_Now s) [] [] (snap_MatchTickets s)"
  have "(case ?m of Inl e \<Rightarrow> Some e | Inr tickets \<Rightarrow> validate_snapshot_backfills (snap_Now s)
          (snap_Policy s) tickets (snap_BackfillTickets s)) = None \<longleftrightarrow>
        ?m = Inr (rev (map mt_ID (snap_MatchTickets s))) \<and>
        validate_snapshot_backfills (snap_Now s) (snap_Policy s)
          (rev (map mt_ID (snap_MatchTickets s))) (snap_BackfillTickets s) = None"
    by (auto split: sum.splits dest: validate_snapshot_matches_Inr [THEN iffD1])
  then show ?thesis
    unfolding ValidateSnapshot_def
    by (auto simp: validate_snapshot_matches_Inr validate_snapshot_backfills_None time_IsZero_def)
qed

section \<open>Proposals\<close>

text \<open>The inner loop over a team's references, then the loop over the teams; both carry the
  identities seen and the references met so far.\<close>

fun flatten_refs :: "TicketID list \<Rightarrow> TicketRef list \<Rightarrow> TicketRef list \<Rightarrow> (TicketID list \<times> TicketRef list) result" where
  "flatten_refs seen flattened [] = Inr (seen, flattened)"
| "flatten_refs seen flattened (r # rs) =
     (if ref_ID r = '''' \<or> ref_Revision r = 0 then Inl FailureInvalidInput
      else if ref_ID r \<in> set seen then Inl FailureInvalidInput
      else flatten_refs (ref_ID r # seen) (flattened @ [r]) rs)"

fun flatten_teams ::
  "nat \<Rightarrow> TicketID list \<Rightarrow> TicketRef list \<Rightarrow> TeamAssignment list \<Rightarrow> (TicketID list \<times> TicketRef list) result" where
  "flatten_teams index seen flattened [] = Inr (seen, flattened)"
| "flatten_teams index seen flattened (team # rest) =
     (if ta_Team team \<noteq> index then Inl FailureInvalidInput
      else (case flatten_refs seen flattened (ta_Tickets team) of
              Inl e \<Rightarrow> Inl e
            | Inr (seen', flattened') \<Rightarrow> flatten_teams (Suc index) seen' flattened' rest))"

definition ValidateProposal :: "MatchProposal \<Rightarrow> go_error" where
  "ValidateProposal proposal =
     (if prop_ID proposal = '''' \<or> prop_PolicyVersion proposal = '''' \<or>
         prop_PolicyFingerprint proposal = ''''
      then Some FailureInvalidInput
      else if prop_Kind proposal \<noteq> ProposalNewMatch \<and> prop_Kind proposal \<noteq> ProposalBackfill
      then Some FailureInvalidInput
      else if prop_Teams proposal = [] \<or> prop_Tickets proposal = [] then Some FailureInvalidInput
      else if prop_Kind proposal = ProposalBackfill \<and> prop_Backfill proposal = None
      then Some FailureInvalidInput
      else if prop_Kind proposal = ProposalNewMatch \<and> prop_Backfill proposal \<noteq> None
      then Some FailureInvalidInput
      else (case flatten_teams 0 [] [] (prop_Teams proposal) of
              Inl e \<Rightarrow> Some e
            | Inr (seen, flattened) \<Rightarrow>
                if flattened \<noteq> prop_Tickets proposal then Some FailureInvalidInput
                else (case prop_Backfill proposal of
                        None \<Rightarrow> None
                      | Some target \<Rightarrow>
                          if ref_ID (tgt_Ticket target) = '''' \<or> ref_Revision (tgt_Ticket target) = 0 \<or>
                             tgt_SessionID target = '''' \<or> tgt_RosterVersion target = 0
                          then Some FailureInvalidInput
                          else if ref_ID (tgt_Ticket target) \<in> set seen then Some FailureInvalidInput
                          else None)))"

lemma flatten_refs_Inr:
  "flatten_refs seen flattened rs = Inr (seen', flattened') \<longleftrightarrow>
     (\<forall>r\<in>set rs. ref_ID r \<noteq> '''' \<and> ref_Revision r \<noteq> 0) \<and> distinct (map ref_ID rs) \<and>
     set seen \<inter> ref_ID ` set rs = {} \<and> seen' = rev (map ref_ID rs) @ seen \<and>
     flattened' = flattened @ rs"
  by (induction rs arbitrary: seen flattened) auto

lemma flatten_teams_Inr:
  "flatten_teams i seen flattened teams = Inr (seen', flattened') \<longleftrightarrow>
     map ta_Team teams = [i..<i + length teams] \<and>
     (\<forall>r\<in>set (concat (map ta_Tickets teams)). ref_ID r \<noteq> '''' \<and> ref_Revision r \<noteq> 0) \<and>
     distinct (map ref_ID (concat (map ta_Tickets teams))) \<and>
     set seen \<inter> ref_ID ` set (concat (map ta_Tickets teams)) = {} \<and>
     seen' = rev (map ref_ID (concat (map ta_Tickets teams))) @ seen \<and>
     flattened' = flattened @ concat (map ta_Tickets teams)"
proof (induction teams arbitrary: i seen flattened)
  case Nil
  then show ?case by auto
next
  case (Cons t ts)
  have upt: "[i..<i + length (t # ts)] = i # [Suc i..<Suc i + length ts]"
    by (simp add: upt_conv_Cons del: upt_Suc)
  have step: "flatten_teams i seen flattened (t # ts) = Inr (seen', flattened') \<longleftrightarrow>
      ta_Team t = i \<and>
      flatten_refs seen flattened (ta_Tickets t)
        = Inr (rev (map ref_ID (ta_Tickets t)) @ seen, flattened @ ta_Tickets t) \<and>
      flatten_teams (Suc i) (rev (map ref_ID (ta_Tickets t)) @ seen) (flattened @ ta_Tickets t) ts
        = Inr (seen', flattened')"
    by (auto split: sum.splits dest: flatten_refs_Inr [THEN iffD1])
  show ?case
    unfolding step Cons.IH flatten_refs_Inr upt
    by (auto simp del: set_concat upt_Suc simp: image_Un Int_Un_distrib Int_Un_distrib2)
qed

text \<open>What a valid proposal is, without the loop: the teams are numbered in order, their
  references make up the ticket list, no ticket occurs twice and the backfill ticket is not among
  them.\<close>

definition valid_target :: "BackfillTarget \<Rightarrow> bool" where
  "valid_target g \<longleftrightarrow> ref_ID (tgt_Ticket g) \<noteq> '''' \<and> ref_Revision (tgt_Ticket g) \<noteq> 0 \<and>
     tgt_SessionID g \<noteq> '''' \<and> tgt_RosterVersion g \<noteq> 0"

lemma ValidateProposal_None:
  "ValidateProposal p = None \<longleftrightarrow>
     prop_ID p \<noteq> '''' \<and> prop_PolicyVersion p \<noteq> '''' \<and> prop_PolicyFingerprint p \<noteq> '''' \<and>
     (prop_Kind p = ProposalNewMatch \<and> prop_Backfill p = None \<or>
      prop_Kind p = ProposalBackfill \<and> (\<exists>g. prop_Backfill p = Some g \<and> valid_target g \<and>
        ref_ID (tgt_Ticket g) \<notin> ref_ID ` set (prop_Tickets p))) \<and>
     prop_Teams p \<noteq> [] \<and> prop_Tickets p \<noteq> [] \<and>
     map ta_Team (prop_Teams p) = [0..<length (prop_Teams p)] \<and>
     concat (map ta_Tickets (prop_Teams p)) = prop_Tickets p \<and>
     (\<forall>r\<in>set (prop_Tickets p). ref_ID r \<noteq> '''' \<and> ref_Revision r \<noteq> 0) \<and>
     distinct (map ref_ID (prop_Tickets p))"
proof (cases "flatten_teams 0 [] [] (prop_Teams p)")
  case (Inl e)
  let ?refs = "concat (map ta_Tickets (prop_Teams p))"
  have "flatten_teams 0 [] [] (prop_Teams p) \<noteq> Inr (rev (map ref_ID ?refs), ?refs)"
    using Inl by simp
  then have "\<not> (map ta_Team (prop_Teams p) = [0..<length (prop_Teams p)] \<and> ?refs = prop_Tickets p \<and>
      (\<forall>r\<in>set (prop_Tickets p). ref_ID r \<noteq> [] \<and> ref_Revision r \<noteq> 0) \<and>
      distinct (map ref_ID (prop_Tickets p)))"
    unfolding flatten_teams_Inr by (auto simp del: set_concat)
  with Inl show ?thesis
    unfolding ValidateProposal_def by auto
next
  case (Inr x)
  obtain seen flattened where x: "x = (seen, flattened)" by (cases x)
  with Inr have f: "flatten_teams 0 [] [] (prop_Teams p) = Inr (seen, flattened)" by simp
  from f [unfolded flatten_teams_Inr]
  have seen: "set seen = ref_ID ` set flattened" and flat: "concat (map ta_Tickets (prop_Teams p)) = flattened"
    and ok:
    "map ta_Team (prop_Teams p) = [0..<length (prop_Teams p)]"
    "\<forall>r\<in>set flattened. ref_ID r \<noteq> '''' \<and> ref_Revision r \<noteq> 0" "distinct (map ref_ID flattened)"
    by auto
  show ?thesis
    unfolding ValidateProposal_def f flat valid_target_def using seen ok
    by (cases "prop_Kind p"; cases "prop_Backfill p") auto
qed

section \<open>Acknowledgments\<close>

definition hasAcknowledgedRosterDetail :: "AssignmentAcknowledgmentRequest \<Rightarrow> bool" where
  "hasAcknowledgedRosterDetail request \<longleftrightarrow> req_SessionID request \<noteq> '''' \<or>
     req_ExpectedRosterVersion request \<noteq> 0 \<or> req_ResultingRosterVersion request \<noteq> 0"

definition validateAcknowledgedBackfillVersions ::
  "Assignment \<Rightarrow> AssignmentAcknowledgmentRequest \<Rightarrow> go_error" where
  "validateAcknowledgedBackfillVersions assignment request =
     (case asg_Backfill assignment of
        None \<Rightarrow> Some FailureStaleSnapshot
      | Some target \<Rightarrow>
          if req_SessionID request \<noteq> tgt_SessionID target \<or>
             req_ExpectedRosterVersion request \<noteq> tgt_RosterVersion target
          then Some FailureStaleSnapshot
          else if req_ResultingRosterVersion request \<le> req_ExpectedRosterVersion request
          then Some FailureInvalidInput
          else None)"

definition ValidateAssignmentAcknowledgment ::
  "Assignment \<Rightarrow> AssignmentAcknowledgmentRequest \<Rightarrow> go_error" where
  "ValidateAssignmentAcknowledgment assignment request =
     (if req_OperationID request = '''' then Some FailureInvalidInput
      else (case req_Outcome request of
        AssignmentCompleted \<Rightarrow>
          if req_FailureCode request \<noteq> no_failure_code \<or> req_Reason request \<noteq> ''''
          then Some FailureInvalidInput
          else if asg_Kind assignment = ProposalBackfill
          then validateAcknowledgedBackfillVersions assignment request
          else if hasAcknowledgedRosterDetail request then Some FailureInvalidInput
          else None
      | AssignmentCancelled \<Rightarrow>
          if req_Reason request = '''' \<or> req_FailureCode request \<noteq> no_failure_code \<or>
             hasAcknowledgedRosterDetail request
          then Some FailureInvalidInput
          else None
      | AssignmentFailed \<Rightarrow>
          if \<not> ValidFailureCode (req_FailureCode request) \<or> req_Reason request = ''''
          then Some FailureInvalidInput
          else if asg_Kind assignment = ProposalBackfill \<and>
                  req_FailureCode request = FailureStaleSnapshot
          then validateAcknowledgedBackfillVersions assignment request
          else if hasAcknowledgedRosterDetail request then Some FailureInvalidInput
          else None
      | _ \<Rightarrow> Some FailureInvalidInput))"

lemma ValidateAssignmentAcknowledgment_terminal:
  "ValidateAssignmentAcknowledgment a r = None \<Longrightarrow>
     req_Outcome r \<in> {AssignmentCompleted, AssignmentCancelled, AssignmentFailed}"
  by (auto simp: ValidateAssignmentAcknowledgment_def split: if_splits AssignmentStatus.splits)

end
