(* ===== verification/Constraint.thy ===== *)
theory Constraint
  imports Validate
begin

text \<open>
  The rules no relaxation may waive, \<open>src/internal/constraint/constraint.go\<close>: party size and latency
  of one ticket, and latency and hard roles of a placement. A placement is a list of teams, each a
  list of tickets. A counter map \<open>map[string]int\<close> is a function that is 0 where nothing was counted.
\<close>

type_synonym placement = "MatchTicket list list"
type_synonym role_counts = "string \<Rightarrow> int"

definition TicketAllowed :: "MatchTicket \<Rightarrow> int \<Rightarrow> int \<Rightarrow> bool" where
  "TicketAllowed ticket maxPartySize maxLatencyMillis =
     (if int (length (mt_Players ticket)) > maxPartySize then False
      else \<not> list_ex (\<lambda>player. player_LatencyMillis player > maxLatencyMillis) (mt_Players ticket))"

text \<open>The loop over the players of one team; \<open>None\<close> is the early \<open>return true\<close>.\<close>

fun hard_scan_players :: "int \<Rightarrow> Player list \<Rightarrow> role_counts \<Rightarrow> role_counts option" where
  "hard_scan_players maxLatency [] counts = Some counts"
| "hard_scan_players maxLatency (player # rest) counts =
     (if player_LatencyMillis player > maxLatency then None
      else hard_scan_players maxLatency rest
             (counts(player_Role player := counts (player_Role player) + 1)))"

fun hard_scan_tickets :: "int \<Rightarrow> MatchTicket list \<Rightarrow> role_counts \<Rightarrow> role_counts option" where
  "hard_scan_tickets maxLatency [] counts = Some counts"
| "hard_scan_tickets maxLatency (ticket # rest) counts =
     (case hard_scan_players maxLatency (mt_Players ticket) counts of
        None \<Rightarrow> None
      | Some counts' \<Rightarrow> hard_scan_tickets maxLatency rest counts')"

fun hard_scan_teams :: "MatchmakingPolicy \<Rightarrow> bool \<Rightarrow> placement \<Rightarrow> bool" where
  "hard_scan_teams policy hasHardRole [] = False"
| "hard_scan_teams policy hasHardRole (tickets # rest) =
     (case hard_scan_tickets (pol_MaxLatencyMillis policy) tickets (\<lambda>_. 0) of
        None \<Rightarrow> True
      | Some counts \<Rightarrow>
          if hasHardRole \<and>
             list_ex (\<lambda>r. rr_Hard r \<and> counts (rr_Role r) < rr_MinPerTeam r) (pol_RoleRequirements policy)
          then True
          else hard_scan_teams policy hasHardRole rest)"

definition HardViolation :: "placement \<Rightarrow> MatchmakingPolicy \<Rightarrow> ProposalKind \<Rightarrow> bool" where
  "HardViolation teams policy kind =
     (let hasHardRole = kind = ProposalNewMatch \<and> list_ex rr_Hard (pol_RoleRequirements policy)
      in hard_scan_teams policy hasHardRole teams)"

section \<open>What the checks mean\<close>

definition team_players :: "MatchTicket list \<Rightarrow> Player list" where
  "team_players tickets = concat (map mt_Players tickets)"

definition role_count :: "string \<Rightarrow> MatchTicket list \<Rightarrow> int" where
  "role_count role tickets = int (length (filter (\<lambda>p. player_Role p = role) (team_players tickets)))"

lemma team_players_simps [simp]:
  "team_players [] = []" "team_players (t # ts) = mt_Players t @ team_players ts"
  "team_players (xs @ ys) = team_players xs @ team_players ys"
  by (simp_all add: team_players_def)

lemma TicketAllowed_iff:
  "TicketAllowed t n l \<longleftrightarrow> int (length (mt_Players t)) \<le> n \<and>
     (\<forall>p\<in>set (mt_Players t). player_LatencyMillis p \<le> l)"
  by (auto simp: TicketAllowed_def list_ex_iff not_less)

abbreviation add_roles :: "role_counts \<Rightarrow> Player list \<Rightarrow> role_counts" where
  "add_roles counts ps \<equiv> \<lambda>r. counts r + int (length (filter (\<lambda>p. player_Role p = r) ps))"

lemma hard_scan_players_conv:
  "hard_scan_players l ps counts =
     (if \<forall>p\<in>set ps. player_LatencyMillis p \<le> l then Some (add_roles counts ps) else None)"
  by (induction ps arbitrary: counts) (auto simp: fun_eq_iff)

lemma hard_scan_tickets_conv:
  "hard_scan_tickets l ts counts =
     (if \<forall>p\<in>set (team_players ts). player_LatencyMillis p \<le> l
      then Some (add_roles counts (team_players ts)) else None)"
  by (induction ts arbitrary: counts) (auto simp: hard_scan_players_conv fun_eq_iff add.assoc)

definition team_hard_ok :: "MatchmakingPolicy \<Rightarrow> ProposalKind \<Rightarrow> MatchTicket list \<Rightarrow> bool" where
  "team_hard_ok policy kind tickets \<longleftrightarrow>
     (\<forall>p\<in>set (team_players tickets). player_LatencyMillis p \<le> pol_MaxLatencyMillis policy) \<and>
     (kind = ProposalNewMatch \<longrightarrow> (\<forall>r\<in>set (pol_RoleRequirements policy).
        rr_Hard r \<longrightarrow> rr_MinPerTeam r \<le> role_count (rr_Role r) tickets))"

lemma hard_scan_teams_conv:
  "hard_scan_teams policy (kind = ProposalNewMatch \<and> list_ex rr_Hard (pol_RoleRequirements policy)) teams
     \<longleftrightarrow> \<not> (\<forall>tickets\<in>set teams. team_hard_ok policy kind tickets)"
  by (induction teams)
    (auto simp: hard_scan_tickets_conv team_hard_ok_def list_ex_iff role_count_def not_less not_le)

lemma HardViolation_iff:
  "HardViolation teams policy kind \<longleftrightarrow> \<not> (\<forall>tickets\<in>set teams. team_hard_ok policy kind tickets)"
  by (simp add: HardViolation_def hard_scan_teams_conv)

end
