(* ===== verification/Examples.thy ===== *)
theory Examples
  imports Domain
begin

text \<open>
  Concrete inputs on which the witnesses of the properties evaluate the model: solo tickets, a
  two-against-two policy with role requirements, a one-against-one policy, and a backfill of two
  teams whose rosters differ (the fixture of \<open>src/docs/workload-evaluation.md\<close>).
\<close>

definition ex_solo :: "string \<Rightarrow> Time \<Rightarrow> int \<Rightarrow> string \<Rightarrow> MatchTicket" where
  "ex_solo name enqueuedAt skill role =
     \<lparr>mt_ID = name, mt_Revision = 1, mt_EnqueuedAt = enqueuedAt,
      mt_Players = [\<lparr>player_ID = name, player_Skill = skill, player_Role = role, player_LatencyMillis = 60\<rparr>]\<rparr>"

definition ex_policy :: "int \<Rightarrow> RoleRequirement list \<Rightarrow> RelaxationStep list \<Rightarrow> MatchmakingPolicy" where
  "ex_policy teamSize requirements steps =
     \<lparr>pol_Version = ''v1'', pol_TeamCount = 2, pol_TeamSize = teamSize, pol_MaxLatencyMillis = 100,
      pol_MaxProposals = 0, pol_MaxSearchNodes = 0, pol_MaxCandidateTickets = 0,
      pol_MaxCandidatesPerProposal = 0, pol_MaxBatchCandidates = 0, pol_MaxBatchSearchNodes = 0,
      pol_RoleRequirements = requirements, pol_RelaxationSteps = steps\<rparr>"

definition ex_step :: "Duration \<Rightarrow> int \<Rightarrow> int \<Rightarrow> bool \<Rightarrow> RelaxationStep" where
  "ex_step afterWait gap penalty prioritize =
     \<lparr>rs_AfterWait = afterWait, rs_MaxTeamSkillGap = gap, rs_MaxRolePenalty = penalty, rs_PrioritizeWait = prioritize\<rparr>"

definition ex_duel_policy :: MatchmakingPolicy where
  "ex_duel_policy = ex_policy 1 [] [ex_step 0 100 0 False]"

definition ex_roster_policy :: MatchmakingPolicy where
  "ex_roster_policy = ex_policy 2
     [\<lparr>rr_Role = ''healer'', rr_MinPerTeam = 1, rr_Hard = False\<rparr>,
      \<lparr>rr_Role = ''dps'', rr_MinPerTeam = 1, rr_Hard = False\<rparr>]
     [ex_step 0 100 0 False]"

definition ex_rosters :: "RosterTeamSummary list" where
  "ex_rosters =
     [\<lparr>rts_PlayerCount = 1, rts_SkillTotal = 1000,
       rts_RoleCounts = [\<lparr>rc_Role = ''healer'', rc_Count = 1\<rparr>], rts_MaxLatencyMillis = 40\<rparr>,
      \<lparr>rts_PlayerCount = 1, rts_SkillTotal = 1500,
       rts_RoleCounts = [\<lparr>rc_Role = ''dps'', rc_Count = 1\<rparr>], rts_MaxLatencyMillis = 50\<rparr>]"

definition ex_healer :: MatchTicket where
  "ex_healer = ex_solo ''low-healer'' 1000 1000 ''healer''"

definition ex_dps :: MatchTicket where
  "ex_dps = ex_solo ''high-dps'' 2000 1500 ''dps''"

definition ex_backfill :: BackfillTicket where
  "ex_backfill = \<lparr>bt_ID = ''vacancy'', bt_Revision = 1, bt_SessionID = ''session'', bt_RosterVersion = 7,
     bt_OpenSlotsByTeam = [1, 1], bt_ExistingTeams = ex_rosters, bt_EnqueuedAt = 500\<rparr>"

definition ex_roster_snapshot :: MatchmakingSnapshot where
  "ex_roster_snapshot = \<lparr>snap_ID = ''s'', snap_Now = 3000, snap_MatchTickets = [ex_healer, ex_dps],
     snap_BackfillTickets = [ex_backfill], snap_Policy = ex_roster_policy\<rparr>"

definition ex_duel_snapshot :: MatchmakingSnapshot where
  "ex_duel_snapshot = \<lparr>snap_ID = ''s'', snap_Now = 3000,
     snap_MatchTickets = [ex_solo ''b'' 2000 10 '''', ex_solo ''a'' 1000 20 ''''],
     snap_BackfillTickets = [], snap_Policy = ex_duel_policy\<rparr>"

end
