(* ===== verification/Objective.thy ===== *)
theory Objective
  imports Constraint Examples "HOL-Library.Product_Lexorder"
begin

text \<open>
  Evaluation and comparison of placements, \<open>src/internal/objective/objective.go\<close>. The loop over the
  teams carries a record \<open>eval_acc\<close> with the variables the Go loop updates; the final fields of the
  evidence are computed from it as the code does after the loop.

  The main results: the active relaxation step only loosens with the wait (\<open>activeStep_mono\<close>), and
  \<open>Compare\<close> is a total preorder on the evaluations of one valid policy (the interpretation
  \<open>objective\<close>). It is not one on all evaluations: \<open>Compare_cycle\<close>.
\<close>

record Evaluation =
  eval_Admissible :: bool
  eval_HardViolation :: bool
  eval_PriorityWaitMillis :: "int list"
  eval_Evidence :: ScoreEvidence

section \<open>Relaxation steps\<close>

fun active_level :: "Duration \<Rightarrow> nat \<Rightarrow> nat \<Rightarrow> RelaxationStep list \<Rightarrow> nat" where
  "active_level waited level index [] = level"
| "active_level waited level index (step # rest) =
     (if waited < rs_AfterWait step then level else active_level waited index (Suc index) rest)"

definition activeStep :: "RelaxationStep list \<Rightarrow> Duration \<Rightarrow> nat \<times> RelaxationStep" where
  "activeStep steps waited =
     (if steps = [] then
        (0, \<lparr>rs_AfterWait = 0, rs_MaxTeamSkillGap = MaxInt, rs_MaxRolePenalty = MaxInt,
             rs_PrioritizeWait = False\<rparr>)
      else let level = active_level waited 0 1 (tl steps) in (level, steps ! level))"

definition wait_millis :: "Time \<Rightarrow> Time \<Rightarrow> int" where
  "wait_millis now enqueuedAt = max 0 (Milliseconds (time_Sub now enqueuedAt))"

definition TicketWaitPriority :: "Time \<Rightarrow> Time \<Rightarrow> MatchmakingPolicy \<Rightarrow> bool \<times> int" where
  "TicketWaitPriority now enqueuedAt policy =
     (let waitMillis = wait_millis now enqueuedAt;
          step = snd (activeStep (pol_RelaxationSteps policy) (i64 (waitMillis * Millisecond)))
      in (rs_PrioritizeWait step, waitMillis))"

section \<open>Evaluation\<close>

record eval_acc =
  acc_Priority :: "int list"
  acc_OldestWait :: int
  acc_TotalWait :: int
  acc_MaxLatency :: int
  acc_MinAverage :: int
  acc_MaxAverage :: int
  acc_HasAverage :: bool
  acc_RoleCounts :: "role_counts list"

text \<open>One team's loop variables: \<open>teamSkill\<close>, \<open>teamPlayers\<close>, \<open>roleCounts[team]\<close> and the maximal latency.\<close>

type_synonym team_acc = "int \<times> int \<times> role_counts \<times> int"

fun eval_players :: "Player list \<Rightarrow> team_acc \<Rightarrow> team_acc" where
  "eval_players [] acc = acc"
| "eval_players (player # rest) (skill, players, counts, latency) =
     eval_players rest
       (i64 (skill + player_Skill player), i64 (players + 1),
        counts(player_Role player := i64 (counts (player_Role player) + 1)),
        (if player_LatencyMillis player > latency then player_LatencyMillis player else latency))"

fun eval_tickets ::
  "Time \<Rightarrow> MatchmakingPolicy \<Rightarrow> bool \<Rightarrow> MatchTicket list \<Rightarrow> int list \<times> int \<times> int \<Rightarrow> team_acc
     \<Rightarrow> (int list \<times> int \<times> int) \<times> team_acc" where
  "eval_tickets now policy hasWaitPriority [] waits acc = (waits, acc)"
| "eval_tickets now policy hasWaitPriority (ticket # rest) (priority, oldest, waited) acc =
     (let waitMillis = wait_millis now (mt_EnqueuedAt ticket);
          priority = (if hasWaitPriority \<and> fst (TicketWaitPriority now (mt_EnqueuedAt ticket) policy)
                      then priority @ [waitMillis] else priority);
          oldest = (if waitMillis > oldest then waitMillis else oldest)
      in eval_tickets now policy hasWaitPriority rest (priority, oldest, i64 (waited + waitMillis))
           (eval_players (mt_Players ticket) acc))"

fun existing_counts :: "RoleCount list \<Rightarrow> role_counts \<Rightarrow> role_counts" where
  "existing_counts [] counts = counts"
| "existing_counts (role # rest) counts = existing_counts rest (counts(rc_Role role := rc_Count role))"

text \<open>The body of the loop over the teams. \<open>existing ! team\<close> is in range because validation makes the
  summaries as many as the vacancies.\<close>

definition eval_team ::
  "Time \<Rightarrow> MatchmakingPolicy \<Rightarrow> bool \<Rightarrow> RosterTeamSummary list \<Rightarrow> bool \<Rightarrow> nat \<Rightarrow> MatchTicket list
     \<Rightarrow> eval_acc \<Rightarrow> eval_acc" where
  "eval_team now policy qualityContext existing hasWaitPriority team tickets acc =
     (let start = (if existing \<noteq> []
                   then (rts_SkillTotal (existing ! team), rts_PlayerCount (existing ! team),
                         existing_counts (rts_RoleCounts (existing ! team)) (\<lambda>_. 0),
                         max (acc_MaxLatency acc) (rts_MaxLatencyMillis (existing ! team)))
                   else (0, 0, (\<lambda>_. 0), acc_MaxLatency acc));
          ((priority, oldest, waited), (skill, players, counts, latency)) =
            eval_tickets now policy hasWaitPriority tickets
              (acc_Priority acc, acc_OldestWait acc, acc_TotalWait acc) start;
          acc = acc\<lparr>acc_Priority := priority, acc_OldestWait := oldest, acc_TotalWait := waited,
                    acc_MaxLatency := latency, acc_RoleCounts := acc_RoleCounts acc @ [counts]\<rparr>
      in if \<not> qualityContext \<or> players = 0 then acc
         else let average = go_div skill players
              in acc\<lparr>acc_MinAverage := (if \<not> acc_HasAverage acc \<or> average < acc_MinAverage acc
                                        then average else acc_MinAverage acc),
                     acc_MaxAverage := (if \<not> acc_HasAverage acc \<or> average > acc_MaxAverage acc
                                        then average else acc_MaxAverage acc),
                     acc_HasAverage := True\<rparr>)"

fun eval_teams ::
  "Time \<Rightarrow> MatchmakingPolicy \<Rightarrow> bool \<Rightarrow> RosterTeamSummary list \<Rightarrow> bool \<Rightarrow> nat \<Rightarrow> placement
     \<Rightarrow> eval_acc \<Rightarrow> eval_acc" where
  "eval_teams now policy qualityContext existing hasWaitPriority team [] acc = acc"
| "eval_teams now policy qualityContext existing hasWaitPriority team (tickets # rest) acc =
     eval_teams now policy qualityContext existing hasWaitPriority (Suc team) rest
       (eval_team now policy qualityContext existing hasWaitPriority team tickets acc)"

text \<open>The nested loop over requirements and teams: (hard violation, role penalty).\<close>

fun eval_deficits :: "RoleRequirement \<Rightarrow> role_counts list \<Rightarrow> bool \<times> int \<Rightarrow> bool \<times> int" where
  "eval_deficits requirement [] acc = acc"
| "eval_deficits requirement (counts # rest) (hard, penalty) =
     (let deficit = i64 (rr_MinPerTeam requirement - counts (rr_Role requirement))
      in eval_deficits requirement rest
           (if deficit \<le> 0 then (hard, penalty)
            else if rr_Hard requirement then (True, penalty)
            else (hard, i64 (penalty + deficit))))"

fun eval_requirements :: "RoleRequirement list \<Rightarrow> role_counts list \<Rightarrow> bool \<times> int \<Rightarrow> bool \<times> int" where
  "eval_requirements [] counts acc = acc"
| "eval_requirements (requirement # rest) counts acc =
     eval_requirements rest counts (eval_deficits requirement counts acc)"

definition compare_desc :: "int \<Rightarrow> int \<Rightarrow> int" where
  "compare_desc left right = go_cmp right left"

definition evaluate ::
  "Time \<Rightarrow> placement \<Rightarrow> MatchmakingPolicy \<Rightarrow> ProposalKind \<Rightarrow> RosterTeamSummary list \<Rightarrow> Evaluation" where
  "evaluate now teams policy kind existing =
     (let qualityContext = (kind = ProposalNewMatch \<or> existing \<noteq> []);
          hasWaitPriority = list_ex rs_PrioritizeWait (pol_RelaxationSteps policy);
          acc = eval_teams now policy qualityContext existing hasWaitPriority 0 teams
                  \<lparr>acc_Priority = [], acc_OldestWait = 0, acc_TotalWait = 0, acc_MaxLatency = 0,
                   acc_MinAverage = 0, acc_MaxAverage = 0, acc_HasAverage = False,
                   acc_RoleCounts = []\<rparr>;
          hard = HardViolation teams policy kind;
          gap = (if qualityContext then i64 (acc_MaxAverage acc - acc_MinAverage acc) else 0);
          (hard, penalty) = (if qualityContext
                             then eval_requirements (pol_RoleRequirements policy) (acc_RoleCounts acc) (hard, 0)
                             else (hard, 0));
          (level, step) = activeStep (pol_RelaxationSteps policy) (i64 (acc_OldestWait acc * Millisecond))
      in \<lparr>eval_Admissible = \<not> (hard \<or> gap > rs_MaxTeamSkillGap step \<or> penalty > rs_MaxRolePenalty step),
          eval_HardViolation = hard,
          eval_PriorityWaitMillis = sort_cmp compare_desc (acc_Priority acc),
          eval_Evidence = ScoreEvidence_zero
            \<lparr>ev_RelaxationLevel := level, ev_WaitPriority := rs_PrioritizeWait step,
             ev_RolePenalty := penalty, ev_TeamSkillGap := gap,
             ev_OldestWaitMillis := acc_OldestWait acc, ev_TotalWaitMillis := acc_TotalWait acc,
             ev_MaxLatencyMillis := acc_MaxLatency acc\<rparr>\<rparr>)"

definition Evaluate :: "Time \<Rightarrow> placement \<Rightarrow> MatchmakingPolicy \<Rightarrow> ProposalKind \<Rightarrow> Evaluation" where
  "Evaluate now teams policy kind = evaluate now teams policy kind []"

definition EvaluateBackfill ::
  "Time \<Rightarrow> placement \<Rightarrow> MatchmakingPolicy \<Rightarrow> RosterTeamSummary list \<Rightarrow> Time \<Rightarrow> Evaluation" where
  "EvaluateBackfill now teams policy existing backfillEnqueuedAt =
     (let evaluation = evaluate now teams policy ProposalBackfill existing;
          (priority, waitMillis) = TicketWaitPriority now backfillEnqueuedAt policy;
          evidence = eval_Evidence evaluation;
          evidence = evidence\<lparr>ev_OldestWaitMillis := max (ev_OldestWaitMillis evidence) waitMillis,
                              ev_TotalWaitMillis := i64 (ev_TotalWaitMillis evidence + waitMillis)\<rparr>
      in if priority
         then evaluation\<lparr>eval_Evidence := evidence\<lparr>ev_WaitPriority := True\<rparr>,
                         eval_PriorityWaitMillis :=
                           sort_cmp compare_desc (eval_PriorityWaitMillis evaluation @ [waitMillis])\<rparr>
         else evaluation\<lparr>eval_Evidence := evidence\<rparr>)"

section \<open>Comparison\<close>

definition Compare :: "Evaluation \<Rightarrow> Evaluation \<Rightarrow> int" where
  "Compare left right =
     (let l = eval_Evidence left; r = eval_Evidence right;
          waitFirst = ev_WaitPriority l \<or> ev_WaitPriority r;
          waits = cmp_then (compare_desc (ev_OldestWaitMillis l) (ev_OldestWaitMillis r))
                    (compare_desc (ev_TotalWaitMillis l) (ev_TotalWaitMillis r));
          quality = cmp_then (go_cmp (ev_RolePenalty l) (ev_RolePenalty r))
                      (go_cmp (ev_TeamSkillGap l) (ev_TeamSkillGap r));
          latency = go_cmp (ev_MaxLatencyMillis l) (ev_MaxLatencyMillis r)
      in if waitFirst then cmp_then waits (cmp_then quality latency)
         else cmp_then quality (cmp_then waits latency))"

section \<open>The active step\<close>

lemma active_level_conv:
  "active_level w l (Suc l) ss = l + length (takeWhile (\<lambda>s. rs_AfterWait s \<le> w) ss)"
  by (induction ss arbitrary: l) auto

definition step_level :: "RelaxationStep list \<Rightarrow> Duration \<Rightarrow> nat" where
  "step_level steps waited = length (takeWhile (\<lambda>s. rs_AfterWait s \<le> waited) (tl steps))"

lemma activeStep_conv: "steps \<noteq> [] \<Longrightarrow> activeStep steps w = (step_level steps w, steps ! step_level steps w)"
  using active_level_conv [of w 0 "tl steps"]
  by (simp add: activeStep_def step_level_def Let_def)

lemma step_level_less: "steps \<noteq> [] \<Longrightarrow> step_level steps w < length steps"
  using length_takeWhile_le [of _ "tl steps"] by (cases steps) (auto simp: step_level_def le_imp_less_Suc)

lemma step_level_mono: "w \<le> w' \<Longrightarrow> step_level steps w \<le> step_level steps w'"
proof -
  assume "w \<le> w'"
  then have "length (takeWhile (\<lambda>s. rs_AfterWait s \<le> w) ss) \<le> length (takeWhile (\<lambda>s. rs_AfterWait s \<le> w') ss)"
    for ss :: "RelaxationStep list" by (induction ss) auto
  then show ?thesis by (simp add: step_level_def)
qed

text \<open>The active step is the last one whose threshold has passed.\<close>

lemma activeStep_spec:
  assumes "valid_steps steps" "steps \<noteq> []" "activeStep steps w = (level, step)" "0 \<le> w"
  shows "level < length steps" "step = steps ! level"
    "\<forall>i<length steps. rs_AfterWait (steps ! i) \<le> w \<longleftrightarrow> i \<le> level"
proof -
  from assms(2,3) have lv: "level = step_level steps w" and st: "step = steps ! level"
    by (auto simp: activeStep_conv)
  show less: "level < length steps" using lv assms(2) by (simp add: step_level_less)
  show "step = steps ! level" by (rule st)
  show "\<forall>i<length steps. rs_AfterWait (steps ! i) \<le> w \<longleftrightarrow> i \<le> level"
  proof (intro allI impI)
    fix i assume i: "i < length steps"
    from assms(1) have sorted: "\<And>i j. i < j \<Longrightarrow> j < length steps \<Longrightarrow> step_loosens (steps ! i) (steps ! j)"
      by (auto simp: valid_steps_def sorted_wrt_iff_nth_less)
    have nth: "steps ! Suc j = tl steps ! j" for j using assms(2) by (cases steps) auto
    show "rs_AfterWait (steps ! i) \<le> w \<longleftrightarrow> i \<le> level"
    proof
      assume le: "i \<le> level"
      show "rs_AfterWait (steps ! i) \<le> w"
      proof (cases i)
        case 0
        with assms(1,2,4) show ?thesis by (simp add: valid_steps_def hd_conv_nth)
      next
        case (Suc j)
        with le have "j < length (takeWhile (\<lambda>s. rs_AfterWait s \<le> w) (tl steps))"
          by (simp add: lv step_level_def)
        then have "tl steps ! j \<in> set (takeWhile (\<lambda>s. rs_AfterWait s \<le> w) (tl steps))"
          by (metis nth_mem takeWhile_nth)
        then show ?thesis using Suc nth by (auto dest: set_takeWhileD)
      qed
    next
      assume le: "rs_AfterWait (steps ! i) \<le> w"
      show "i \<le> level"
      proof (rule ccontr)
        assume "\<not> i \<le> level"
        then have gt: "level < i" by simp
        then have "length (takeWhile (\<lambda>s. rs_AfterWait s \<le> w) (tl steps)) < length (tl steps)"
          using i lv by (simp add: step_level_def)
        then have "\<not> rs_AfterWait (tl steps ! level) \<le> w"
          using lv unfolding step_level_def by (metis nth_length_takeWhile)
        then have "w < rs_AfterWait (steps ! Suc level)" by (simp add: nth)
        moreover have "rs_AfterWait (steps ! Suc level) \<le> rs_AfterWait (steps ! i)"
          using gt i sorted [of "Suc level" i] by (cases "i = Suc level") (auto simp: step_loosens_def)
        ultimately show False using le by simp
      qed
    qed
  qed
qed

text \<open>A longer wait never tightens a limit and never takes the wait priority away.\<close>

lemma activeStep_mono:
  assumes "valid_steps steps" "w \<le> w'"
  shows "rs_MaxTeamSkillGap (snd (activeStep steps w)) \<le> rs_MaxTeamSkillGap (snd (activeStep steps w'))"
    "rs_MaxRolePenalty (snd (activeStep steps w)) \<le> rs_MaxRolePenalty (snd (activeStep steps w'))"
    "rs_PrioritizeWait (snd (activeStep steps w)) \<Longrightarrow> rs_PrioritizeWait (snd (activeStep steps w'))"
proof -
  have "step_loosens (snd (activeStep steps w)) (snd (activeStep steps w')) \<or>
      snd (activeStep steps w) = snd (activeStep steps w')"
  proof (cases "steps = []")
    case False
    moreover have "step_level steps w' < length steps" using False by (rule step_level_less)
    moreover have "step_level steps w \<le> step_level steps w'" using assms(2) by (rule step_level_mono)
    ultimately show ?thesis using assms(1)
      by (cases "step_level steps w = step_level steps w'")
        (auto simp: activeStep_conv valid_steps_def sorted_wrt_iff_nth_less)
  qed (simp add: activeStep_def)
  then show "rs_MaxTeamSkillGap (snd (activeStep steps w)) \<le> rs_MaxTeamSkillGap (snd (activeStep steps w'))"
    "rs_MaxRolePenalty (snd (activeStep steps w)) \<le> rs_MaxRolePenalty (snd (activeStep steps w'))"
    "rs_PrioritizeWait (snd (activeStep steps w)) \<Longrightarrow> rs_PrioritizeWait (snd (activeStep steps w'))"
    by (auto simp: step_loosens_def)
qed

section \<open>Waits\<close>

definition wait_in_range :: "int \<Rightarrow> bool" where
  "wait_in_range w \<longleftrightarrow> 0 \<le> w \<and> w * Millisecond < 2 ^ 63"

lemma wait_millis_in_range: "wait_in_range (wait_millis now t)"
proof (cases "0 \<le> time_Sub now t")
  case True
  have "d div 1000000 * 1000000 \<le> d" for d :: int by presburger
  then have "time_Sub now t div 1000000 * 1000000 \<le> time_Sub now t" .
  also have "\<dots> < 2 ^ 63" by (simp add: time_Sub_def)
  finally have "time_Sub now t div 1000000 * 1000000 < 2 ^ 63" .
  moreover have "wait_millis now t = time_Sub now t div 1000000"
    using True by (simp add: wait_millis_def Milliseconds_def Millisecond_def go_div_nonneg)
  moreover have "0 \<le> time_Sub now t div 1000000" using True by simp
  ultimately show ?thesis by (simp only: wait_in_range_def Millisecond_def)
next
  case False
  then have "Milliseconds (time_Sub now t) \<le> 0"
    by (simp add: Milliseconds_def Millisecond_def go_div_def)
  then show ?thesis by (simp add: wait_in_range_def wait_millis_def)
qed

lemma wait_in_range_i64: "wait_in_range w \<Longrightarrow> i64 (w * Millisecond) = w * Millisecond"
  by (rule i64_small) (simp_all add: wait_in_range_def Millisecond_def)

lemma wait_in_range_max: "wait_in_range v \<Longrightarrow> wait_in_range w \<Longrightarrow> wait_in_range (max v w)"
  by (simp add: max_def)

lemma wait_in_range_0 [simp]: "wait_in_range 0"
  by (simp add: wait_in_range_def)

definition wait_priority :: "MatchmakingPolicy \<Rightarrow> int \<Rightarrow> bool" where
  "wait_priority policy w \<longleftrightarrow>
     rs_PrioritizeWait (snd (activeStep (pol_RelaxationSteps policy) (w * Millisecond)))"

lemma wait_priority_mono:
  "valid_steps (pol_RelaxationSteps p) \<Longrightarrow> wait_priority p v \<Longrightarrow> v \<le> w \<Longrightarrow> wait_priority p w"
  unfolding wait_priority_def
  by (erule activeStep_mono(3) [rotated 2]) (simp_all add: Millisecond_def)

lemma TicketWaitPriority_conv:
  "TicketWaitPriority now t p = (wait_priority p (wait_millis now t), wait_millis now t)"
  by (simp add: TicketWaitPriority_def wait_priority_def Let_def wait_in_range_i64 [OF wait_millis_in_range])

section \<open>The accumulated evidence\<close>

abbreviation ticket_wait :: "Time \<Rightarrow> MatchTicket \<Rightarrow> int" where
  "ticket_wait now t \<equiv> wait_millis now (mt_EnqueuedAt t)"

lemma eval_players_latency:
  "snd (snd (snd (eval_players ps (s, n, c, l)))) = fold max (map player_LatencyMillis ps) l"
  by (induction ps arbitrary: s n c l) (simp_all add: max_def)

lemma eval_players_latency':
  "snd (snd (snd (eval_players ps acc))) = fold max (map player_LatencyMillis ps) (snd (snd (snd acc)))"
  by (cases acc) (simp only: eval_players_latency snd_conv)

lemma eval_tickets_oldest:
  "fst (snd (fst (eval_tickets now p h ts (pr, old, tot) acc))) = fold max (map (ticket_wait now) ts) old"
  by (induction ts arbitrary: pr old tot acc) (simp_all add: max_def Let_def)

lemma eval_tickets_latency:
  "snd (snd (snd (snd (eval_tickets now p h ts (pr, old, tot) acc)))) =
     fold max (map player_LatencyMillis (team_players ts)) (snd (snd (snd acc)))"
  by (induction ts arbitrary: pr old tot acc) (simp_all add: eval_players_latency' Let_def)

lemma eval_team_oldest:
  "acc_OldestWait (eval_team now p q ex h i ts acc) = fold max (map (ticket_wait now) ts) (acc_OldestWait acc)"
  by (simp add: eval_team_def Let_def split_beta eval_tickets_oldest)

lemma eval_team_latency:
  "acc_MaxLatency (eval_team now p q [] h i ts acc) =
     fold max (map player_LatencyMillis (team_players ts)) (acc_MaxLatency acc)"
  by (simp add: eval_team_def Let_def split_beta eval_tickets_latency)

lemma eval_teams_oldest:
  "acc_OldestWait (eval_teams now p q ex h i teams acc) =
     fold max (map (ticket_wait now) (concat teams)) (acc_OldestWait acc)"
  by (induction teams arbitrary: i acc) (simp_all add: eval_team_oldest)

lemma eval_teams_latency:
  "acc_MaxLatency (eval_teams now p q [] h i teams acc) =
     fold max (map player_LatencyMillis (team_players (concat teams))) (acc_MaxLatency acc)"
  by (induction teams arbitrary: i acc) (simp_all add: eval_team_latency)

lemma fold_max_in_range: "\<forall>w\<in>set ws. wait_in_range w \<Longrightarrow> wait_in_range v \<Longrightarrow> wait_in_range (fold max ws v)"
  by (induction ws arbitrary: v) (auto intro: wait_in_range_max)

lemma fold_max_upper: "x \<in> set xs \<Longrightarrow> (x :: int) \<le> fold max xs v"
proof (induction xs arbitrary: v)
  case (Cons y ys)
  have "z \<le> fold max ys z" for z :: int by (induction ys arbitrary: z) (auto intro: max.coboundedI2 order_trans)
  from this [of "max y v"] Cons show ?case by auto
qed simp

definition oldest_wait :: "Time \<Rightarrow> placement \<Rightarrow> int" where
  "oldest_wait now teams = fold max (map (ticket_wait now) (concat teams)) 0"

lemma evaluate_oldest:
  "ev_OldestWaitMillis (eval_Evidence (evaluate now teams p kind ex)) = oldest_wait now teams"
  by (simp add: evaluate_def Let_def split_beta eval_teams_oldest oldest_wait_def)

lemma evaluate_latency:
  "ev_MaxLatencyMillis (eval_Evidence (evaluate now teams p kind [])) =
     fold max (map player_LatencyMillis (team_players (concat teams))) 0"
  by (simp add: evaluate_def Let_def split_beta eval_teams_latency)

lemma oldest_wait_in_range: "wait_in_range (oldest_wait now teams)"
  unfolding oldest_wait_def by (rule fold_max_in_range) (auto simp: wait_millis_in_range)

lemma evaluate_priority:
  "ev_WaitPriority (eval_Evidence (evaluate now teams p kind ex)) = wait_priority p (oldest_wait now teams)"
proof -
  have "i64 (oldest_wait now teams * Millisecond) = oldest_wait now teams * Millisecond"
    by (rule wait_in_range_i64 [OF oldest_wait_in_range])
  then show ?thesis
    by (simp add: evaluate_def Let_def split_beta eval_teams_oldest oldest_wait_def wait_priority_def)
qed

section \<open>Admissibility\<close>

lemma eval_deficits_hard: "fst acc \<Longrightarrow> fst (eval_deficits r cs acc)"
proof (induction cs arbitrary: acc)
  case Nil
  then show ?case by simp
next
  case (Cons c cs)
  then show ?case by (cases acc) (simp add: Let_def)
qed

lemma eval_requirements_hard: "fst acc \<Longrightarrow> fst (eval_requirements rs cs acc)"
  by (induction rs arbitrary: acc) (simp_all add: eval_deficits_hard)

lemma evaluate_hard:
  "\<not> eval_HardViolation (evaluate now teams p kind ex) \<Longrightarrow> \<not> HardViolation teams p kind"
  using eval_requirements_hard [of "(True, 0)"]
  by (fastforce simp: evaluate_def Let_def split_beta split: if_splits)

lemma evaluate_admissible_hard:
  "eval_Admissible (evaluate now teams p kind ex) \<Longrightarrow> \<not> eval_HardViolation (evaluate now teams p kind ex)"
  by (simp add: evaluate_def Let_def split_beta)

lemma EvaluateBackfill_sel [simp]:
  "eval_Admissible (EvaluateBackfill now teams p ex enq) = eval_Admissible (evaluate now teams p ProposalBackfill ex)"
  "eval_HardViolation (EvaluateBackfill now teams p ex enq) = eval_HardViolation (evaluate now teams p ProposalBackfill ex)"
  by (simp_all add: EvaluateBackfill_def Let_def split_beta)

section \<open>The comparison is a total preorder\<close>

definition wait_consistent :: "MatchmakingPolicy \<Rightarrow> Evaluation \<Rightarrow> bool" where
  "wait_consistent p e \<longleftrightarrow> valid_steps (pol_RelaxationSteps p) \<and>
     wait_in_range (ev_OldestWaitMillis (eval_Evidence e)) \<and>
     ev_WaitPriority (eval_Evidence e) = wait_priority p (ev_OldestWaitMillis (eval_Evidence e))"

lemma wait_consistent_mono:
  "wait_consistent p d \<Longrightarrow> wait_consistent p e \<Longrightarrow> ev_WaitPriority (eval_Evidence d) \<Longrightarrow>
   ev_OldestWaitMillis (eval_Evidence d) \<le> ev_OldestWaitMillis (eval_Evidence e) \<Longrightarrow>
   ev_WaitPriority (eval_Evidence e)"
  by (auto simp: wait_consistent_def intro: wait_priority_mono)

lemma evaluate_consistent:
  "valid_steps (pol_RelaxationSteps p) \<Longrightarrow> wait_consistent p (evaluate now teams p kind ex)"
  by (simp add: wait_consistent_def evaluate_oldest evaluate_priority oldest_wait_in_range)

lemma EvaluateBackfill_consistent:
  assumes "valid_steps (pol_RelaxationSteps p)"
  shows "wait_consistent p (EvaluateBackfill now teams p ex enq)"
proof -
  let ?w = "wait_millis now enq" and ?o = "oldest_wait now teams"
  have "wait_priority p (max ?o ?w) \<longleftrightarrow> wait_priority p ?o \<or> wait_priority p ?w"
    using assms by (auto simp: max_def intro: wait_priority_mono)
  moreover have "wait_in_range (max ?o ?w)"
    by (intro wait_in_range_max oldest_wait_in_range wait_millis_in_range)
  ultimately show ?thesis using assms
    by (simp add: wait_consistent_def EvaluateBackfill_def TicketWaitPriority_conv Let_def
        evaluate_oldest evaluate_priority)
qed

text \<open>The two lexicographic orders between which \<open>Compare\<close> chooses.\<close>

definition wait_key :: "Evaluation \<Rightarrow> int \<times> int \<times> int \<times> int \<times> int" where
  "wait_key e = (- ev_OldestWaitMillis (eval_Evidence e), - ev_TotalWaitMillis (eval_Evidence e),
     ev_RolePenalty (eval_Evidence e), ev_TeamSkillGap (eval_Evidence e), ev_MaxLatencyMillis (eval_Evidence e))"

definition quality_key :: "Evaluation \<Rightarrow> int \<times> int \<times> int \<times> int \<times> int" where
  "quality_key e = (ev_RolePenalty (eval_Evidence e), ev_TeamSkillGap (eval_Evidence e),
     - ev_OldestWaitMillis (eval_Evidence e), - ev_TotalWaitMillis (eval_Evidence e),
     ev_MaxLatencyMillis (eval_Evidence e))"

abbreviation wait_first :: "Evaluation \<Rightarrow> bool" where
  "wait_first e \<equiv> ev_WaitPriority (eval_Evidence e)"

lemma Compare_le_iff:
  "Compare x y \<le> 0 \<longleftrightarrow> (if wait_first x \<or> wait_first y then wait_key x \<le> wait_key y
     else quality_key x \<le> quality_key y)"
  by (auto simp: Compare_def Let_def compare_desc_def wait_key_def quality_key_def)

lemma Compare_sym: "Compare x y < 0 \<longleftrightarrow> 0 < Compare y x"
  by (auto simp: Compare_def Let_def compare_desc_def)

lemma wait_key_le: "wait_key x \<le> wait_key y \<Longrightarrow>
    ev_OldestWaitMillis (eval_Evidence y) \<le> ev_OldestWaitMillis (eval_Evidence x)"
  by (auto simp: wait_key_def)

lemma wait_key_strict: "ev_OldestWaitMillis (eval_Evidence y) < ev_OldestWaitMillis (eval_Evidence x) \<Longrightarrow>
    wait_key x \<le> wait_key y"
  by (simp add: wait_key_def)

lemma Compare_trans:
  assumes c: "wait_consistent p x" "wait_consistent p y" "wait_consistent p z"
    and le: "Compare x y \<le> 0" "Compare y z \<le> 0"
  shows "Compare x z \<le> 0"
proof (cases "wait_first y")
  case True
  with le have k: "wait_key x \<le> wait_key y" "wait_key y \<le> wait_key z" by (simp_all add: Compare_le_iff)
  from wait_consistent_mono [OF c(2,1) True wait_key_le [OF k(1)]] have "wait_first x" .
  with k show ?thesis by (auto simp: Compare_le_iff intro: order_trans)
next
  case y: False
  have z: "\<not> wait_first z"
  proof
    assume "wait_first z"
    with le have "wait_key y \<le> wait_key z" by (simp add: Compare_le_iff)
    from wait_consistent_mono [OF c(3,2) \<open>wait_first z\<close> wait_key_le [OF this]] y show False by simp
  qed
  show ?thesis
  proof (cases "wait_first x")
    case True
    with wait_consistent_mono [OF c(1,3)] z have
      "ev_OldestWaitMillis (eval_Evidence z) < ev_OldestWaitMillis (eval_Evidence x)" by (meson not_le)
    with True show ?thesis by (simp add: Compare_le_iff wait_key_strict)
  next
    case False
    with y z le show ?thesis by (auto simp: Compare_le_iff intro: order_trans)
  qed
qed

interpretation objective: preorder_cmp "wait_consistent p" Compare for p
proof unfold_locales
  fix x y
  show "Compare x y < 0 \<longleftrightarrow> 0 < Compare y x" by (rule Compare_sym)
next
  fix x y z
  assume "wait_consistent p x" "wait_consistent p y" "wait_consistent p z"
    "Compare x y \<le> 0" "Compare y z \<le> 0"
  then show "Compare x z \<le> 0" by (rule Compare_trans)
qed

section \<open>Waiting only relaxes\<close>

lemma eval_tickets_indep:
  "snd (eval_tickets now p h ts w acc) = snd (eval_tickets now' p h ts w' acc)"
proof (induction ts arbitrary: w w' acc)
  case (Cons t ts)
  then show ?case by (cases w; cases w') (simp add: Let_def)
qed simp

text \<open>The part of the accumulator that does not depend on the waits.\<close>

definition acc_quality :: "eval_acc \<Rightarrow> int \<times> int \<times> int \<times> bool \<times> role_counts list" where
  "acc_quality acc = (acc_MaxLatency acc, acc_MinAverage acc, acc_MaxAverage acc, acc_HasAverage acc, acc_RoleCounts acc)"

lemma eval_team_indep:
  assumes "acc_quality acc = acc_quality acc'"
  shows "acc_quality (eval_team now p q ex h i ts acc) = acc_quality (eval_team now' p q ex h i ts acc')"
proof -
  have eq: "acc_MaxLatency acc = acc_MaxLatency acc'" "acc_MinAverage acc = acc_MinAverage acc'"
    "acc_MaxAverage acc = acc_MaxAverage acc'" "acc_HasAverage acc = acc_HasAverage acc'"
    "acc_RoleCounts acc = acc_RoleCounts acc'" using assms by (simp_all add: acc_quality_def)
  define start where "start = (if ex \<noteq> []
      then (rts_SkillTotal (ex ! i), rts_PlayerCount (ex ! i), existing_counts (rts_RoleCounts (ex ! i)) (\<lambda>_. 0),
            max (acc_MaxLatency acc') (rts_MaxLatencyMillis (ex ! i)))
      else (0, 0, (\<lambda>_. 0), acc_MaxLatency acc'))"
  let ?w = "\<lambda>a. (acc_Priority a, acc_OldestWait a, acc_TotalWait a)"
  obtain pr old tot s n c l where 1: "eval_tickets now p h ts (?w acc) start = ((pr, old, tot), (s, n, c, l))"
    by (metis prod_cases3 prod_cases4 surj_pair)
  moreover obtain pr' old' tot' where "eval_tickets now' p h ts (?w acc') start = ((pr', old', tot'), (s, n, c, l))"
    using eval_tickets_indep [of now p h ts "?w acc" start now' "?w acc'"] 1 by (metis prod_cases3 snd_conv surj_pair)
  ultimately show ?thesis
    unfolding eval_team_def eq start_def [symmetric] by (simp add: Let_def acc_quality_def eq)
qed

lemma eval_teams_indep:
  "acc_quality acc = acc_quality acc' \<Longrightarrow>
   acc_quality (eval_teams now p q ex h i teams acc) = acc_quality (eval_teams now' p q ex h i teams acc')"
proof (induction teams arbitrary: i acc acc')
  case (Cons ts teams)
  show ?case unfolding eval_teams.simps by (intro Cons.IH eval_team_indep Cons.prems)
qed simp

lemma wait_millis_mono: "now \<le> now' \<Longrightarrow> wait_millis now t \<le> wait_millis now' t"
proof -
  assume "now \<le> now'"
  then have le: "time_Sub now t \<le> time_Sub now' t" by (simp add: time_Sub_def)
  show ?thesis
  proof (cases "0 \<le> time_Sub now t")
    case True
    with le show ?thesis
      by (simp add: wait_millis_def Milliseconds_def Millisecond_def go_div_nonneg zdiv_mono1)
  next
    case False
    then have "Milliseconds (time_Sub now t) \<le> 0"
      by (simp add: Milliseconds_def Millisecond_def go_div_def)
    then show ?thesis by (simp add: wait_millis_def)
  qed
qed

lemma fold_max_mono:
  "\<forall>x\<in>set xs. (f x :: int) \<le> g x \<Longrightarrow> v \<le> w \<Longrightarrow> fold max (map f xs) v \<le> fold max (map g xs) w"
  by (induction xs arbitrary: v w) (auto simp: max_def intro: order_trans)

lemma oldest_wait_mono: "now \<le> now' \<Longrightarrow> oldest_wait now teams \<le> oldest_wait now' teams"
  unfolding oldest_wait_def by (rule fold_max_mono) (auto intro: wait_millis_mono)

lemma evaluate_admissible_mono:
  assumes "valid_steps (pol_RelaxationSteps p)" "now \<le> now'" "eval_Admissible (evaluate now teams p kind ex)"
  shows "eval_Admissible (evaluate now' teams p kind ex)"
proof -
  let ?q = "kind = ProposalNewMatch \<or> ex \<noteq> []" and ?h = "list_ex rs_PrioritizeWait (pol_RelaxationSteps p)"
  let ?acc = "\<lparr>acc_Priority = [], acc_OldestWait = 0, acc_TotalWait = 0, acc_MaxLatency = 0,
    acc_MinAverage = 0, acc_MaxAverage = 0, acc_HasAverage = False, acc_RoleCounts = []\<rparr>"
  have q: "acc_MinAverage (eval_teams now p ?q ex ?h 0 teams ?acc) = acc_MinAverage (eval_teams now' p ?q ex ?h 0 teams ?acc)"
    "acc_MaxAverage (eval_teams now p ?q ex ?h 0 teams ?acc) = acc_MaxAverage (eval_teams now' p ?q ex ?h 0 teams ?acc)"
    "acc_RoleCounts (eval_teams now p ?q ex ?h 0 teams ?acc) = acc_RoleCounts (eval_teams now' p ?q ex ?h 0 teams ?acc)"
    using eval_teams_indep [of ?acc ?acc now p ?q ex ?h 0 teams now'] by (simp_all add: acc_quality_def)
  have old: "acc_OldestWait (eval_teams n p ?q ex ?h 0 teams ?acc) = oldest_wait n teams" for n
    by (simp add: eval_teams_oldest oldest_wait_def)
  have "oldest_wait now teams * Millisecond \<le> oldest_wait now' teams * Millisecond"
    using oldest_wait_mono [OF assms(2)] by (simp add: Millisecond_def)
  then have step: "rs_MaxTeamSkillGap (snd (activeStep (pol_RelaxationSteps p) (oldest_wait now teams * Millisecond)))
      \<le> rs_MaxTeamSkillGap (snd (activeStep (pol_RelaxationSteps p) (oldest_wait now' teams * Millisecond)))"
    "rs_MaxRolePenalty (snd (activeStep (pol_RelaxationSteps p) (oldest_wait now teams * Millisecond)))
      \<le> rs_MaxRolePenalty (snd (activeStep (pol_RelaxationSteps p) (oldest_wait now' teams * Millisecond)))"
    using activeStep_mono [OF assms(1)] by blast+
  show ?thesis using assms(3) step
    unfolding evaluate_def Let_def split_beta q old wait_in_range_i64 [OF oldest_wait_in_range]
    by (auto simp: not_less intro: order_trans)
qed


text \<open>Where the waits and the priority flags do not come from one policy, \<open>Compare\<close> has cycles.\<close>

definition ex_evaluation :: "int \<Rightarrow> int \<Rightarrow> bool \<Rightarrow> Evaluation" where
  "ex_evaluation penalty oldest priority =
     \<lparr>eval_Admissible = True, eval_HardViolation = False, eval_PriorityWaitMillis = [],
      eval_Evidence = ScoreEvidence_zero\<lparr>ev_WaitPriority := priority, ev_RolePenalty := penalty,
        ev_OldestWaitMillis := oldest\<rparr>\<rparr>"

lemma Compare_cycle:
  "Compare (ex_evaluation 0 1 False) (ex_evaluation 1 3 False) < 0 \<and>
   Compare (ex_evaluation 1 3 False) (ex_evaluation 0 2 True) < 0 \<and>
   Compare (ex_evaluation 0 2 True) (ex_evaluation 0 1 False) < 0"
  by (simp add: Compare_def ex_evaluation_def compare_desc_def)

section \<open>Properties\<close>

text \<open>What the planner compares: evaluations of new matches and of backfills under one policy.\<close>

inductive evaluation_of :: "MatchmakingPolicy \<Rightarrow> Evaluation \<Rightarrow> bool" for p where
  new_match: "evaluation_of p (Evaluate now teams p ProposalNewMatch)"
| backfill: "evaluation_of p (EvaluateBackfill now teams p existing enqueuedAt)"

lemma evaluation_of_consistent:
  "valid_steps (pol_RelaxationSteps p) \<Longrightarrow> evaluation_of p e \<Longrightarrow> wait_consistent p e"
  by (auto elim!: evaluation_of.cases simp: Evaluate_def evaluate_consistent EvaluateBackfill_consistent)

text \<open>
  On the evaluations of one valid policy, new matches and backfills mixed, \<open>Compare\<close> is a total
  preorder: it is antisymmetric in sign, and better-or-equal is transitive, although each pair is
  compared wait first or quality first according to its own priority flags.
\<close>
theorem Compare_preorder:
  assumes "ValidatePolicy p = None" "evaluation_of p x" "evaluation_of p y" "evaluation_of p z"
  shows "(Compare x y < 0 \<longleftrightarrow> 0 < Compare y x) \<and>
    (Compare x y \<le> 0 \<and> Compare y z \<le> 0 \<longrightarrow> Compare x z \<le> 0)"
proof -
  have "valid_steps (pol_RelaxationSteps p)" using assms(1) by (simp add: ValidatePolicy_None)
  then have "wait_consistent p x" "wait_consistent p y" "wait_consistent p z"
    using assms(2-4) by (auto intro: evaluation_of_consistent)
  then show ?thesis using Compare_sym Compare_trans by blast
qed

abbreviation second :: Duration where
  "second \<equiv> 1000 * Millisecond"

definition ex_wait_policy :: MatchmakingPolicy where
  "ex_wait_policy = ex_policy 1 [] [ex_step 0 100 0 False, ex_step second 200 0 True]"

definition ex_duel :: placement where
  "ex_duel = [[ex_solo ''a'' 0 10 ''''], [ex_solo ''b'' 0 150 '''']]"

lemma Compare_preorder_witness:
  "let x = Evaluate (2 * second) ex_duel ex_wait_policy ProposalNewMatch;
       y = Evaluate 0 ex_duel ex_wait_policy ProposalNewMatch;
       z = EvaluateBackfill 0 ex_duel ex_wait_policy ex_rosters 0
   in Compare x y < 0 \<and> (Compare x y < 0 \<longleftrightarrow> 0 < Compare y x) \<and> 
      (Compare x y \<le> 0 \<and> Compare y z \<le> 0 \<longrightarrow> Compare x z \<le> 0)"
proof -
  have "ValidatePolicy ex_wait_policy = None" by code_simp
  from Compare_preorder [OF this new_match new_match backfill, of "2 * second" ex_duel 0 ex_duel 0 ex_duel ex_rosters 0]
  show ?thesis unfolding Let_def by (intro conjI) (code_simp, blast+)
qed

text \<open>
  Waiting never takes an admissible placement away: under a valid policy a placement that is
  admissible at some time is admissible at every later time, because the time enters the evaluation
  only through the waits and a longer wait only activates looser steps.
\<close>
theorem evaluate_stays_admissible:
  assumes "ValidatePolicy policy = None" "now \<le> now'" "eval_Admissible (evaluate now teams policy kind existing)"
  shows "eval_Admissible (evaluate now' teams policy kind existing)"
  using assms by (intro evaluate_admissible_mono [of policy now now']) (simp_all add: ValidatePolicy_None)

lemma evaluate_stays_admissible_witness:
  "eval_Admissible (evaluate (2 * second) ex_duel ex_wait_policy ProposalNewMatch []) \<and>
   eval_Admissible (evaluate (3 * second) ex_duel ex_wait_policy ProposalNewMatch []) \<and>
   \<not> eval_Admissible (evaluate 0 ex_duel ex_wait_policy ProposalNewMatch [])"
proof -
  have "ValidatePolicy ex_wait_policy = None" "2 * second \<le> 3 * second"
    "eval_Admissible (evaluate (2 * second) ex_duel ex_wait_policy ProposalNewMatch [])" by code_simp+
  note evaluate_stays_admissible [OF this]
  moreover have "\<not> eval_Admissible (evaluate 0 ex_duel ex_wait_policy ProposalNewMatch [])"
    "eval_Admissible (evaluate (2 * second) ex_duel ex_wait_policy ProposalNewMatch [])" by code_simp+
  ultimately show ?thesis by blast
qed

end
