(* ===== verification/Queue_Order.thy ===== *)
theory Queue_Order
  imports Validate
begin

text \<open>
  The canonical order of the queue: enqueue time, then ticket identity. \<open>compareQueueOrder\<close> and
  \<open>sortTickets\<close> are the planner's (\<open>src/internal/planner/planner.go\<close>); the coordinator and the
  candidate index sort by the same key. Identities are unique in a valid snapshot, so the order is
  strict there and sorting does not depend on the order of the input.
\<close>

definition compareQueueOrder :: "Time \<Rightarrow> TicketID \<Rightarrow> Time \<Rightarrow> TicketID \<Rightarrow> int" where
  "compareQueueOrder leftTime leftID rightTime rightID =
     cmp_then (go_cmp leftTime rightTime) (go_cmp leftID rightID)"

definition compare_tickets :: "MatchTicket \<Rightarrow> MatchTicket \<Rightarrow> int" where
  "compare_tickets l r = compareQueueOrder (mt_EnqueuedAt l) (mt_ID l) (mt_EnqueuedAt r) (mt_ID r)"

definition compare_backfills :: "BackfillTicket \<Rightarrow> BackfillTicket \<Rightarrow> int" where
  "compare_backfills l r = compareQueueOrder (bt_EnqueuedAt l) (bt_ID l) (bt_EnqueuedAt r) (bt_ID r)"

definition sortTickets :: "MatchTicket list \<Rightarrow> MatchTicket list" where
  "sortTickets tickets = sort_cmp compare_tickets tickets"

definition sort_backfills :: "BackfillTicket list \<Rightarrow> BackfillTicket list" where
  "sort_backfills backfills = sort_cmp compare_backfills backfills"

interpretation ticket_order: keyed_cmp "\<lambda>_. True" compare_tickets mt_ID
  by unfold_locales (auto simp: compare_tickets_def compareQueueOrder_def)

interpretation backfill_order: keyed_cmp "\<lambda>_. True" compare_backfills bt_ID
  by unfold_locales (auto simp: compare_backfills_def compareQueueOrder_def)

abbreviation canonical_queue :: "MatchTicket list \<Rightarrow> bool" where
  "canonical_queue ts \<equiv> sorted_cmp compare_tickets ts \<and> distinct (map mt_ID ts)"

lemma set_sortTickets [simp]: "set (sortTickets ts) = set ts"
  by (simp add: sortTickets_def)

lemma mset_sortTickets [simp]: "mset (sortTickets ts) = mset ts"
  by (simp add: sortTickets_def)

lemma canonical_sortTickets: "distinct (map mt_ID ts) \<Longrightarrow> canonical_queue (sortTickets ts)"
  by (simp add: sortTickets_def ticket_order.sorted_sort)

lemma sortTickets_permutation:
  "mset ts = mset us \<Longrightarrow> distinct (map mt_ID us) \<Longrightarrow> sortTickets ts = sortTickets us"
  unfolding sortTickets_def by (rule ticket_order.sort_permutation) auto

lemma sort_backfills_permutation:
  "mset ts = mset us \<Longrightarrow> distinct (map bt_ID us) \<Longrightarrow> sort_backfills ts = sort_backfills us"
  unfolding sort_backfills_def by (rule backfill_order.sort_permutation) auto

end
