(* ===== verification/Bytes.thy ===== *)
theory Bytes
  imports Prelude
begin

text \<open>
  Bytes, as the code writes them: big endian 64 bit integers (\<open>binary.BigEndian.AppendUint64\<close>),
  length-prefixed strings, hexadecimal digests (\<open>encoding/hex\<close>, the verb \<open>%x\<close>) and decimal numbers
  (the verbs \<open>%d\<close> and \<open>%04d\<close>). SHA-256 is a parameter of the definitions that use it: the theorems
  hold for every function from bytes to bytes, and those that need it say that two particular
  inputs do not collide.

  The lemmas \<open>\<dots>_prefix\<close> say that an encoding can be read back from the front of a byte string; the
  encodings built from such pieces are then injective by rewriting.
\<close>

type_synonym byte = "8 word"
type_synonym hash = "byte list \<Rightarrow> byte list"

definition be64 :: "64 word \<Rightarrow> byte list" where
  "be64 v = map (\<lambda>i. ucast (drop_bit (8 * (7 - i)) v)) [0..<8]"

definition AppendUint64 :: "byte list \<Rightarrow> 64 word \<Rightarrow> byte list" where
  "AppendUint64 encoded v = encoded @ be64 v"

definition string_bytes :: "string \<Rightarrow> byte list" where
  "string_bytes s = map (\<lambda>c. of_nat (of_char c)) s"

text \<open>\<open>uint64(value)\<close> of a Go \<open>int\<close>, and of a length.\<close>

definition uint64 :: "int \<Rightarrow> 64 word" where
  "uint64 x = word_of_int x"

definition append_string :: "byte list \<Rightarrow> string \<Rightarrow> byte list" where
  "append_string encoded value = AppendUint64 encoded (uint64 (int (length value))) @ string_bytes value"

definition enc_string :: "string \<Rightarrow> byte list" where
  "enc_string s = be64 (uint64 (int (length s))) @ string_bytes s"

lemma append_string_conv: "append_string encoded s = encoded @ enc_string s"
  by (simp add: append_string_def enc_string_def AppendUint64_def)

lemma length_be64 [simp]: "length (be64 v) = 8"
  by (simp add: be64_def)

lemma be64_bit:
  assumes "n < 64"
  shows "bit (be64 v ! (7 - n div 8)) (n mod 8) = bit v n"
proof -
  have k: "7 - n div 8 < 8" "7 - (7 - n div 8) = n div 8" using assms by arith+
  then have "be64 v ! (7 - n div 8) = ucast (drop_bit (8 * (n div 8)) v)"
    unfolding be64_def by (subst nth_map) (simp_all only: length_upt nth_upt k diff_zero add_0)
  then show ?thesis by (simp add: bit_simps)
qed

lemma be64_inj: "be64 v = be64 w \<longleftrightarrow> v = w"
proof
  assume eq: "be64 v = be64 w"
  show "v = w"
  proof (rule bit_word_eqI)
    fix n assume "n < LENGTH(64)"
    then have "n < 64" by simp
    then show "bit v n = bit w n" using be64_bit [of n v] be64_bit [of n w] eq by simp
  qed
qed simp

lemma be64_prefix: "be64 v @ r = be64 w @ s \<longleftrightarrow> v = w \<and> r = s"
  using be64_inj [of v w] by (simp add: append_eq_append_conv)

lemma uint64_inj: "in_i64 x \<Longrightarrow> in_i64 y \<Longrightarrow> uint64 x = uint64 y \<longleftrightarrow> x = y"
proof
  assume r: "in_i64 x" "in_i64 y" and "uint64 x = uint64 y"
  then have "x mod 2 ^ 64 = y mod 2 ^ 64"
    by (simp add: uint64_def word_of_int_eq_iff take_bit_eq_mod)
  then have "(x + 2 ^ 63) mod 2 ^ 64 = (y + 2 ^ 63) mod 2 ^ 64"
    by (metis mod_add_left_eq)
  with r show "x = y" by (simp add: in_i64_def)
qed simp

lemma string_bytes_inj: "string_bytes s = string_bytes t \<longleftrightarrow> s = t"
proof -
  have "inj (\<lambda>c. of_nat (of_char c) :: byte)"
  proof (rule injI)
    fix c d :: char
    assume "(of_nat (of_char c) :: byte) = of_nat (of_char d)"
    then have "(of_char c :: nat) mod 256 = of_char d mod 256"
      by (simp add: word_of_nat_eq_iff take_bit_eq_mod)
    then show "c = d" by simp
  qed
  then show ?thesis by (simp add: string_bytes_def inj_map_eq_map)
qed

lemma length_string_bytes [simp]: "length (string_bytes s) = length s"
  by (simp add: string_bytes_def)

lemma enc_string_prefix:
  assumes "in_i64 (int (length s))" "in_i64 (int (length t))"
  shows "enc_string s @ r = enc_string t @ r' \<longleftrightarrow> s = t \<and> r = r'"
proof
  assume "enc_string s @ r = enc_string t @ r'"
  then have len: "length s = length t" and rest: "string_bytes s @ r = string_bytes t @ r'"
    using assms by (auto simp: enc_string_def be64_prefix uint64_inj)
  then show "s = t \<and> r = r'" by (simp add: append_eq_append_conv string_bytes_inj)
qed simp

text \<open>A list whose length is known is read back element by element.\<close>

lemma concat_prefix:
  assumes "length xs = length ys"
    and "\<And>x y r s. x \<in> set xs \<Longrightarrow> y \<in> set ys \<Longrightarrow> f x @ r = f y @ s \<longleftrightarrow> x = y \<and> r = s"
  shows "concat (map f xs) @ r = concat (map f ys) @ s \<longleftrightarrow> xs = ys \<and> r = s"
  using assms
proof (induction xs ys rule: list_induct2)
  case Nil
  then show ?case by simp
next
  case (Cons x xs y ys)
  have "f x @ (concat (map f xs) @ r) = f y @ (concat (map f ys) @ s) \<longleftrightarrow>
      x = y \<and> concat (map f xs) @ r = concat (map f ys) @ s"
    by (rule Cons.prems) simp_all
  moreover have "concat (map f xs) @ r = concat (map f ys) @ s \<longleftrightarrow> xs = ys \<and> r = s"
    by (rule Cons.IH) (simp add: Cons.prems)
  ultimately show ?case by simp
qed

section \<open>Text\<close>

definition digit_char :: "nat \<Rightarrow> char" where
  "digit_char d = ''0123456789abcdef'' ! d"

fun decimal :: "nat \<Rightarrow> string" where
  "decimal n = (if n < 10 then [digit_char n] else decimal (n div 10) @ [digit_char (n mod 10)])"

declare decimal.simps [simp del]

text \<open>The verb \<open>%04d\<close> of a natural number.\<close>

definition decimal4 :: "nat \<Rightarrow> string" where
  "decimal4 n = replicate (4 - length (decimal n)) (CHR ''0'') @ decimal n"

definition hex_byte :: "byte \<Rightarrow> string" where
  "hex_byte b = [digit_char (unat b div 16), digit_char (unat b mod 16)]"

definition hex_EncodeToString :: "byte list \<Rightarrow> string" where
  "hex_EncodeToString bs = concat (map hex_byte bs)"

lemma decimal_nonempty [simp]: "decimal n \<noteq> []"
  by (subst decimal.simps) simp

lemma digit_char_inj:
  assumes "d < 16" "e < 16" "digit_char d = digit_char e"
  shows "d = e"
proof -
  have "distinct ''0123456789abcdef''" by simp
  with assms show ?thesis by (simp add: digit_char_def nth_eq_iff_index_eq)
qed

lemma hex_byte_prefix: "hex_byte b @ r = hex_byte c @ s \<longleftrightarrow> b = c \<and> r = s"
proof
  assume eq: "hex_byte b @ r = hex_byte c @ s"
  have "unat b < 256" "unat c < 256" 
    using unsigned_less [of b, where 'a = nat] unsigned_less [of c, where 'a = nat] by simp_all
  then have "unat b div 16 < 16" "unat c div 16 < 16" by (simp_all add: less_mult_imp_div_less)
  moreover from eq have "digit_char (unat b div 16) = digit_char (unat c div 16)"
    "digit_char (unat b mod 16) = digit_char (unat c mod 16)" "r = s"
    by (simp_all add: hex_byte_def)
  ultimately have "unat b div 16 = unat c div 16" "unat b mod 16 = unat c mod 16"
    by (auto intro!: digit_char_inj)
  then have "unat b = unat c" by (metis div_mult_mod_eq)
  then show "b = c \<and> r = s" using \<open>r = s\<close> by (simp add: word_unat_eq_iff)
qed simp

lemma length_hex [simp]: "length (hex_EncodeToString bs) = 2 * length bs"
  by (induction bs) (simp_all add: hex_EncodeToString_def hex_byte_def)

lemma hex_inj: "hex_EncodeToString bs = hex_EncodeToString cs \<longleftrightarrow> bs = cs"
proof
  assume eq: "hex_EncodeToString bs = hex_EncodeToString cs"
  then have "length bs = length cs" using length_hex [of bs] length_hex [of cs] by simp
  then have "concat (map hex_byte bs) @ [] = concat (map hex_byte cs) @ [] \<longleftrightarrow> bs = cs \<and> [] = ([] :: string)"
    by (rule concat_prefix) (rule hex_byte_prefix)
  with eq show "bs = cs" by (simp add: hex_EncodeToString_def)
qed simp

section \<open>Reading decimal numbers back\<close>

definition digit_value :: "char \<Rightarrow> nat" where
  "digit_value c = of_char c - 48"

definition decimal_value :: "string \<Rightarrow> nat" where
  "decimal_value s = foldl (\<lambda>n c. 10 * n + digit_value c) 0 s"

lemma digit_value_char: "d < 10 \<Longrightarrow> digit_value (digit_char d) = d"
  by (auto simp: digit_value_def digit_char_def less_Suc_eq numeral_eq_Suc)

lemma decimal_value_decimal [simp]: "decimal_value (decimal n) = n"
proof (induction n rule: decimal.induct)
  case (1 n)
  show ?case
  proof (cases "n < 10")
    case True
    then show ?thesis by (simp add: decimal.simps [of n] decimal_value_def digit_value_char)
  next
    case False
    then have "decimal_value (decimal (n div 10)) = n div 10" by (rule 1)
    with False show ?thesis by (simp add: decimal.simps [of n] decimal_value_def digit_value_char)
  qed
qed

lemma decimal_value_decimal4 [simp]: "decimal_value (decimal4 n) = n"
proof -
  have "foldl (\<lambda>n c. 10 * n + digit_value c) 0 (replicate k (CHR ''0'')) = 0" for k
    by (induction k) (simp_all add: digit_value_def)
  then show ?thesis using decimal_value_decimal [of n] by (simp add: decimal_value_def decimal4_def)
qed

lemma digit_char_slash: "d < 10 \<Longrightarrow> digit_char d \<noteq> CHR ''/''"
  by (auto simp: digit_char_def less_Suc_eq numeral_eq_Suc)

lemma decimal_no_slash: "CHR ''/'' \<notin> set (decimal n)"
proof (induction n rule: decimal.induct)
  case (1 n)
  then show ?case using digit_char_slash [of n] digit_char_slash [of "n mod 10"]
    by (cases "n < 10") (auto simp: decimal.simps [of n])
qed

text \<open>A number followed by a slash can be read off the front.\<close>

lemma decimal4_slash_prefix: "decimal4 m @ ''/'' @ r = decimal4 n @ ''/'' @ s \<Longrightarrow> m = n"
proof -
  assume eq: "decimal4 m @ ''/'' @ r = decimal4 n @ ''/'' @ s"
  have no: "CHR ''/'' \<notin> set (decimal4 k)" for k by (auto simp: decimal4_def decimal_no_slash)
  have "takeWhile (\<lambda>c. c \<noteq> CHR ''/'') (decimal4 k @ ''/'' @ t) = decimal4 k" for k t
    using no [of k] by (subst takeWhile_append2) auto
  with eq have "decimal4 m = decimal4 n" by metis
  then show "m = n" by (metis decimal_value_decimal4)
qed

end
