(* ===== verification/Placement.thy ===== *)
theory Placement
  imports Objective Queue_Order Bytes Examples
begin

text \<open>
  The placement search of \<open>src/internal/planner/planner.go\<close>: \<open>findBestPlacement\<close> assigns the tickets
  of a window to the open slots of the teams by depth-first search, under a shared budget of nodes.

  The closure \<open>search\<close> becomes the recursive function \<open>search\<close> on the tickets that remain. The
  variables it undoes on the way back (\<open>remaining\<close>, \<open>teamSkills\<close>, \<open>assigned\<close>) are arguments; those
  it keeps (budget, result, index of the alternatives) are the state \<open>search_state\<close>. The captured
  constants are the record \<open>search_env\<close>. The loop over the candidate teams is \<open>team_loop\<close>.

  The results: a placement that is found fills every open slot exactly with distinct tickets of the
  window, contains the required ticket and is admissible (\<open>findBestPlacement_sound\<close>); it is the
  best of the placements the search visits (\<open>findBestPlacement_best\<close>); and the nodes used stay
  within the budget.
\<close>

section \<open>Data\<close>

record searchBudget =
  sb_max :: int
  sb_used :: nat
  sb_exhausted :: bool

definition visit :: "searchBudget \<Rightarrow> bool \<times> searchBudget" where
  "visit budget =
     (if int (sb_used budget) \<ge> sb_max budget then (False, budget\<lparr>sb_exhausted := True\<rparr>)
      else (True, budget\<lparr>sb_used := Suc (sb_used budget)\<rparr>))"

record placementAlternative =
  alt_placement :: placement
  alt_evaluation :: Evaluation

record placementSearch =
  ps_placement :: placement
  ps_evaluation :: Evaluation
  ps_found :: bool
  ps_exactCandidates :: nat
  ps_searchNodes :: nat
  ps_truncated :: bool
  ps_candidateWindowTruncated :: bool
  ps_sawHardFailure :: bool
  ps_sawQualityFailure :: bool
  ps_alternatives :: "placementAlternative list"

definition Evaluation_zero :: Evaluation where
  "Evaluation_zero = \<lparr>eval_Admissible = False, eval_HardViolation = False, eval_PriorityWaitMillis = [],
     eval_Evidence = ScoreEvidence_zero\<rparr>"

definition placementSearch_zero :: placementSearch where
  "placementSearch_zero =
     \<lparr>ps_placement = [], ps_evaluation = Evaluation_zero, ps_found = False, ps_exactCandidates = 0,
      ps_searchNodes = 0, ps_truncated = False, ps_candidateWindowTruncated = False,
      ps_sawHardFailure = False, ps_sawQualityFailure = False, ps_alternatives = []\<rparr>"

text \<open>What the closure captures and does not change.\<close>

record search_env =
  se_tickets :: "MatchTicket list"
  se_snapshot :: MatchmakingSnapshot
  se_kind :: ProposalKind
  se_existingTeams :: "RosterTeamSummary list"
  se_backfillEnqueuedAt :: Time
  se_requiredIndex :: "nat option"
  se_maxCandidates :: int
  se_maxAlternatives :: int

record search_state =
  st_budget :: searchBudget
  st_result :: placementSearch
  st_alternativeIndexes :: "(string \<times> nat) list"

section \<open>Teams a party fits into\<close>

record teamCandidate =
  tc_team :: nat
  tc_spread :: int

definition totalSkill :: "MatchTicket \<Rightarrow> int" where
  "totalSkill ticket = foldl (\<lambda>total player. i64 (total + player_Skill player)) 0 (mt_Players ticket)"

fun spread_loop :: "nat \<Rightarrow> int \<Rightarrow> nat \<Rightarrow> int list \<Rightarrow> int \<times> int \<Rightarrow> int \<times> int" where
  "spread_loop target added team [] bounds = bounds"
| "spread_loop target added team (skill # rest) (minimum, maximum) =
     (let skill = (if team = target then i64 (skill + added) else skill)
      in spread_loop target added (Suc team) rest
           (if team = 0 \<or> skill < minimum then skill else minimum,
            if team = 0 \<or> skill > maximum then skill else maximum))"

definition projectedSkillSpread :: "int list \<Rightarrow> nat \<Rightarrow> int \<Rightarrow> int" where
  "projectedSkillSpread teamSkills target added =
     (let (minimum, maximum) = spread_loop target added 0 teamSkills (0, 0) in i64 (maximum - minimum))"

definition compare_team_candidate :: "teamCandidate \<Rightarrow> teamCandidate \<Rightarrow> int" where
  "compare_team_candidate l r = cmp_then (go_cmp (tc_spread l) (tc_spread r)) (go_cmp (tc_team l) (tc_team r))"

definition candidateTeams :: "int list \<Rightarrow> int list \<Rightarrow> int \<Rightarrow> int \<Rightarrow> teamCandidate list" where
  "candidateTeams remaining teamSkills partySize partySkill =
     sort_cmp compare_team_candidate
       (map (\<lambda>(team, capacity). \<lparr>tc_team = team, tc_spread = projectedSkillSpread teamSkills team partySkill\<rparr>)
         (filter (\<lambda>(team, capacity). \<not> partySize > capacity) (enumerate 0 remaining)))"

definition materializePlacement :: "MatchTicket list \<Rightarrow> nat list list \<Rightarrow> placement" where
  "materializePlacement tickets assigned = map (map (\<lambda>index. tickets ! index)) assigned"

definition placementIncludesIndex :: "nat list list \<Rightarrow> nat \<Rightarrow> bool" where
  "placementIncludesIndex assigned required = list_ex (\<lambda>team. required \<in> set team) assigned"

section \<open>Comparing placements\<close>

fun compare_team :: "MatchTicket list \<Rightarrow> MatchTicket list \<Rightarrow> int" where
  "compare_team (l # ls) (r # rs) =
     cmp_then (go_cmp (mt_ID l) (mt_ID r))
       (cmp_then (go_cmp (mt_Revision l) (mt_Revision r)) (compare_team ls rs))"
| "compare_team ls rs = go_cmp (length ls) (length rs)"

fun comparePlacement :: "placement \<Rightarrow> placement \<Rightarrow> int" where
  "comparePlacement (l # ls) (r # rs) = cmp_then (compare_team l r) (comparePlacement ls rs)"
| "comparePlacement ls rs = go_cmp (length ls) (length rs)"

definition comparePlacementAlternative :: "placementAlternative \<Rightarrow> placementAlternative \<Rightarrow> int" where
  "comparePlacementAlternative left right =
     cmp_then (Compare (alt_evaluation left) (alt_evaluation right))
       (comparePlacement (alt_placement left) (alt_placement right))"

definition compare_ref :: "TicketRef \<Rightarrow> TicketRef \<Rightarrow> int" where
  "compare_ref l r = cmp_then (go_cmp (ref_ID l) (ref_ID r)) (go_cmp (ref_Revision l) (ref_Revision r))"

definition placementTicketKey :: "placement \<Rightarrow> string" where
  "placementTicketKey placement =
     concat (map (\<lambda>reference. ref_ID reference @ ''@'' @ decimal (unat (ref_Revision reference)) @ [CHR 0x00])
       (sort_cmp compare_ref (map TicketReference (concat placement))))"

definition recordPlacementAlternative ::
  "placementSearch \<times> (string \<times> nat) list \<Rightarrow> placement \<Rightarrow> Evaluation \<Rightarrow> placementSearch \<times> (string \<times> nat) list" where
  "recordPlacementAlternative = (\<lambda>(result, indexes) placement evaluation.
     let key = placementTicketKey placement;
         alternative = \<lparr>alt_placement = placement, alt_evaluation = evaluation\<rparr>
     in case map_of indexes key of
          Some index \<Rightarrow>
            let existing = ps_alternatives result ! index
            in if Compare evaluation (alt_evaluation existing) < 0 \<or>
                  Compare evaluation (alt_evaluation existing) = 0 \<and>
                  comparePlacement placement (alt_placement existing) < 0
               then (result\<lparr>ps_alternatives := (ps_alternatives result)[index := alternative]\<rparr>, indexes)
               else (result, indexes)
        | None \<Rightarrow>
            (result\<lparr>ps_alternatives := ps_alternatives result @ [alternative]\<rparr>,
             AList.update key (length (ps_alternatives result)) indexes))"

section \<open>The search\<close>

definition evaluate_placement :: "search_env \<Rightarrow> placement \<Rightarrow> Evaluation" where
  "evaluate_placement env placement =
     (if se_kind env = ProposalBackfill
      then EvaluateBackfill (snap_Now (se_snapshot env)) placement (snap_Policy (se_snapshot env))
             (se_existingTeams env) (se_backfillEnqueuedAt env)
      else Evaluate (snap_Now (se_snapshot env)) placement (snap_Policy (se_snapshot env)) (se_kind env))"

definition record_best :: "placementSearch \<Rightarrow> placement \<Rightarrow> Evaluation \<Rightarrow> placementSearch" where
  "record_best result placement evaluation =
     (if \<not> ps_found result \<or> Compare evaluation (ps_evaluation result) < 0 \<or>
         Compare evaluation (ps_evaluation result) = 0 \<and> comparePlacement placement (ps_placement result) < 0
      then result\<lparr>ps_placement := placement, ps_evaluation := evaluation, ps_found := True\<rparr>
      else result)"

text \<open>The branch \<open>needed == 0\<close>: one exact placement is evaluated and recorded.\<close>

definition record_exact :: "search_env \<Rightarrow> placement \<Rightarrow> search_state \<Rightarrow> search_state" where
  "record_exact env placement st =
     (let evaluation = evaluate_placement env placement;
          result = (st_result st)\<lparr>ps_exactCandidates := Suc (ps_exactCandidates (st_result st))\<rparr>
      in if eval_HardViolation evaluation then st\<lparr>st_result := result\<lparr>ps_sawHardFailure := True\<rparr>\<rparr>
         else if \<not> eval_Admissible evaluation then st\<lparr>st_result := result\<lparr>ps_sawQualityFailure := True\<rparr>\<rparr>
         else if se_maxAlternatives env = 1 then st\<lparr>st_result := record_best result placement evaluation\<rparr>
         else let (result', indexes') =
                    recordPlacementAlternative (result, st_alternativeIndexes st) placement evaluation
              in st\<lparr>st_result := result', st_alternativeIndexes := indexes'\<rparr>)"

definition search_leaf :: "search_env \<Rightarrow> nat list list \<Rightarrow> search_state \<Rightarrow> bool \<times> search_state" where
  "search_leaf env assigned st =
     (if \<not> (case se_requiredIndex env of None \<Rightarrow> True | Some r \<Rightarrow> placementIncludesIndex assigned r)
      then (False, st)
      else let st' = record_exact env (materializePlacement (se_tickets env) assigned) st
           in if int (ps_exactCandidates (st_result st')) \<ge> se_maxCandidates env
              then (True, st'\<lparr>st_result := (st_result st')\<lparr>ps_truncated := True\<rparr>\<rparr>)
              else (False, st'))"

text \<open>The loop over the candidate teams, which skips a team whose pair of open slots and skill was tried.\<close>

fun team_loop ::
  "(nat \<Rightarrow> 's \<Rightarrow> bool \<times> 's) \<Rightarrow> (nat \<Rightarrow> int \<times> int) \<Rightarrow> (int \<times> int) list \<Rightarrow> nat list \<Rightarrow> 's \<Rightarrow> bool \<times> 's" where
  "team_loop visit_team state_of seenStates [] st = (False, st)"
| "team_loop visit_team state_of seenStates (team # rest) st =
     (if state_of team \<in> set seenStates then team_loop visit_team state_of seenStates rest st
      else let (stop, st') = visit_team team st
           in if stop then (True, st') else team_loop visit_team state_of (state_of team # seenStates) rest st')"

text \<open>The players of the tickets from an index on, \<open>suffixPlayers[index]\<close>.\<close>

definition players_in :: "MatchTicket list \<Rightarrow> int" where
  "players_in tickets = (\<Sum>t\<leftarrow>tickets. int (length (mt_Players t)))"

fun search ::
  "search_env \<Rightarrow> nat \<Rightarrow> MatchTicket list \<Rightarrow> int \<Rightarrow> int list \<Rightarrow> int list \<Rightarrow> nat list list \<Rightarrow> search_state
     \<Rightarrow> bool \<times> search_state" where
  "search env index tickets needed remaining teamSkills assigned st =
     (let (ok, budget) = visit (st_budget st); st = st\<lparr>st_budget := budget\<rparr>
      in if \<not> ok then (True, st)
         else if needed = 0 then search_leaf env assigned st
         else if tickets = [] \<or> players_in tickets < needed then (False, st)
         else case tickets of [] \<Rightarrow> (False, st) | ticket # rest \<Rightarrow>
           let partySize = int (length (mt_Players ticket));
               partySkill = totalSkill ticket;
               (stop, st) =
                 team_loop
                   (\<lambda>team. search env (Suc index) rest (i64 (needed - partySize))
                      (remaining[team := remaining ! team - partySize])
                      (teamSkills[team := i64 (teamSkills ! team + partySkill)])
                      (assigned[team := assigned ! team @ [index]]))
                   (\<lambda>team. (remaining ! team, teamSkills ! team)) []
                   (map tc_team (candidateTeams remaining teamSkills partySize partySkill)) st
           in if stop then (True, st)
              else if se_requiredIndex env = Some index then (False, st)
              else search env (Suc index) rest needed remaining teamSkills assigned st)"

declare search.simps [simp del]

fun find_index :: "TicketID \<Rightarrow> nat \<Rightarrow> MatchTicket list \<Rightarrow> nat option" where
  "find_index required index [] = None"
| "find_index required index (ticket # rest) =
     (if mt_ID ticket = required then Some index else find_index required (Suc index) rest)"

text \<open>The statements after the search: the sorted alternatives and the evidence.\<close>

definition finish_alternatives :: "int \<Rightarrow> placementSearch \<Rightarrow> placementSearch" where
  "finish_alternatives maxAlternatives result =
     (if maxAlternatives > 1
      then let alternatives = take (nat maxAlternatives)
                 (sort_cmp comparePlacementAlternative (ps_alternatives result));
               result = result\<lparr>ps_alternatives := alternatives\<rparr>
           in if alternatives \<noteq> []
              then result\<lparr>ps_placement := alt_placement (hd alternatives),
                          ps_evaluation := alt_evaluation (hd alternatives), ps_found := True\<rparr>
              else result
      else result)"

definition search_evidence :: "nat \<Rightarrow> nat \<Rightarrow> bool \<Rightarrow> Evaluation \<Rightarrow> Evaluation" where
  "search_evidence evaluated nodes truncated evaluation =
     evaluation\<lparr>eval_Evidence := (eval_Evidence evaluation)
       \<lparr>ev_CandidatesEvaluated := evaluated, ev_SearchNodes := nodes, ev_SearchTruncated := truncated\<rparr>\<rparr>"

definition findBestPlacement ::
  "MatchTicket list \<Rightarrow> int list \<Rightarrow> MatchmakingSnapshot \<Rightarrow> ProposalKind \<Rightarrow> RosterTeamSummary list \<Rightarrow> Time
     \<Rightarrow> TicketID \<Rightarrow> int \<Rightarrow> int \<Rightarrow> searchBudget \<Rightarrow> placementSearch \<times> searchBudget" where
  "findBestPlacement tickets slots snapshot kind existingTeams backfillEnqueuedAt requiredTicket
     maxCandidates maxAlternatives budget =
     (let totalNeeded = foldl (\<lambda>needed count. i64 (needed + count)) 0 slots
      in if totalNeeded = 0 then (placementSearch_zero, budget)
         else if players_in tickets < totalNeeded then (placementSearch_zero, budget)
         else if requiredTicket \<noteq> '''' \<and> find_index requiredTicket 0 tickets = None
              then (placementSearch_zero, budget)
         else let env = \<lparr>se_tickets = tickets, se_snapshot = snapshot, se_kind = kind,
                          se_existingTeams = existingTeams, se_backfillEnqueuedAt = backfillEnqueuedAt,
                          se_requiredIndex = (if requiredTicket \<noteq> '''' then find_index requiredTicket 0 tickets else None),
                          se_maxCandidates = maxCandidates, se_maxAlternatives = maxAlternatives\<rparr>;
                  st = snd (search env 0 tickets totalNeeded slots (map (\<lambda>_. 0) slots) (map (\<lambda>_. []) slots)
                         \<lparr>st_budget = budget, st_result = placementSearch_zero, st_alternativeIndexes = []\<rparr>);
                  result = (st_result st)\<lparr>ps_searchNodes := sb_used (st_budget st) - sb_used budget\<rparr>;
                  result = finish_alternatives maxAlternatives result
              in (result\<lparr>ps_evaluation := search_evidence (ps_exactCandidates result) (ps_searchNodes result)
                           (ps_truncated result \<or> sb_exhausted (st_budget st)) (ps_evaluation result)\<rparr>,
                  st_budget st))"

definition expandPlacementAlternatives :: "placementSearch \<Rightarrow> placementSearch list" where
  "expandPlacementAlternatives found =
     map (\<lambda>alternative. found\<lparr>ps_placement := alt_placement alternative,
            ps_evaluation := search_evidence (ps_exactCandidates found) (ps_searchNodes found)
              (ev_SearchTruncated (eval_Evidence (ps_evaluation found))) (alt_evaluation alternative),
            ps_alternatives := []\<rparr>)
       (ps_alternatives found)"

definition removePlaced :: "MatchTicket list \<Rightarrow> placement \<Rightarrow> MatchTicket list" where
  "removePlaced tickets placement =
     filter (\<lambda>ticket. mt_ID ticket \<notin> set (map mt_ID (concat placement))) tickets"

section \<open>The order of placements\<close>

lemma go_cmp_Cons:
  "go_cmp (x # xs) (y # ys) = cmp_then (go_cmp x y) (go_cmp xs (ys :: 'a :: linorder list))"
  by (auto simp: go_cmp_def cmp_then_def)

lemma go_cmp_Pair: "go_cmp (a, b) (c, d) = cmp_then (go_cmp a c) (go_cmp b d)"
  by (auto simp: go_cmp_def cmp_then_def)

lemma cmp_then_assoc: "cmp_then (cmp_then a b) c = cmp_then a (cmp_then b c)"
  by (simp add: cmp_then_def)

lemma go_cmp_Nil: "go_cmp [] (ys :: 'a :: linorder list) = go_cmp 0 (length ys)"
  "go_cmp (ys :: 'a :: linorder list) [] = go_cmp (length ys) 0"
  by (cases ys; simp add: go_cmp_def)+

definition placement_key :: "placement \<Rightarrow> (TicketID \<times> Revision) list list" where
  "placement_key placement = map (map (\<lambda>t. (mt_ID t, mt_Revision t))) placement"

lemma compare_team_conv:
  "compare_team l r = go_cmp (map (\<lambda>t. (mt_ID t, mt_Revision t)) l) (map (\<lambda>t. (mt_ID t, mt_Revision t)) r)"
  by (induction l r rule: compare_team.induct)
     (simp_all add: go_cmp_Cons go_cmp_Pair cmp_then_assoc go_cmp_Nil del: go_cmp_simps)

text \<open>The comparison of placements is the lexicographic order of the references, team by team.\<close>

lemma comparePlacement_conv: "comparePlacement l r = go_cmp (placement_key l) (placement_key r)"
  by (induction l r rule: comparePlacement.induct)
     (simp_all add: placement_key_def go_cmp_Cons compare_team_conv go_cmp_Nil del: go_cmp_simps)

abbreviation consistent_alternative :: "MatchmakingPolicy \<Rightarrow> placementAlternative \<Rightarrow> bool" where
  "consistent_alternative p a \<equiv> wait_consistent p (alt_evaluation a)"

lemma alternative_le_iff:
  "comparePlacementAlternative x y \<le> 0 \<longleftrightarrow> Compare (alt_evaluation x) (alt_evaluation y) < 0 \<or>
     Compare (alt_evaluation x) (alt_evaluation y) = 0 \<and> placement_key (alt_placement x) \<le> placement_key (alt_placement y)"
  by (auto simp: comparePlacementAlternative_def comparePlacement_conv)

interpretation alternative_tie:
  tie_break "consistent_alternative p" "\<lambda>x y. Compare (alt_evaluation x) (alt_evaluation y)"
    "\<lambda>a. placement_key (alt_placement a)" for p
  by unfold_locales (auto intro: Compare_trans simp: Compare_sym)

lemma alternative_refined: "alternative_tie.refined = comparePlacementAlternative"
  by (intro ext) (simp add: alternative_tie.refined_def comparePlacementAlternative_def comparePlacement_conv)

interpretation alternative_order:
  keyed_cmp "consistent_alternative p" comparePlacementAlternative "\<lambda>a. placement_key (alt_placement a)" for p
  using alternative_tie.refined.keyed_cmp_axioms [of p] by (simp only: alternative_refined)

section \<open>Paths of the search\<close>

definition exact_placement :: "MatchTicket list \<Rightarrow> int list \<Rightarrow> placement \<Rightarrow> bool" where
  "exact_placement tickets slots placement \<longleftrightarrow>
     map players_in placement = slots \<and> mset (concat placement) \<subseteq># mset tickets"

definition path_ok ::
  "MatchTicket list \<Rightarrow> int list \<Rightarrow> nat \<Rightarrow> MatchTicket list \<Rightarrow> int \<Rightarrow> int list \<Rightarrow> nat list list \<Rightarrow> bool" where
  "path_ok window slots index tickets needed remaining assigned \<longleftrightarrow>
     tickets = drop index window \<and> index \<le> length window \<and>
     length remaining = length slots \<and> length assigned = length slots \<and>
     (\<forall>i<length slots. 0 \<le> remaining ! i \<and>
        remaining ! i + players_in (map ((!) window) (assigned ! i)) = slots ! i) \<and>
     distinct (concat assigned) \<and> (\<forall>j\<in>set (concat assigned). j < index) \<and>
     needed = sum_list remaining \<and> needed < 2 ^ 63"

lemma players_in_simps [simp]:
  "players_in [] = 0" "players_in (t # ts) = int (length (mt_Players t)) + players_in ts"
  "players_in (xs @ ys) = players_in xs + players_in ys"
  by (simp_all add: players_in_def)

lemma players_in_nonneg [simp]: "0 \<le> players_in ts"
  by (induction ts) auto

lemma mset_nths_subset:
  assumes "distinct js" "\<forall>j\<in>set js. j < length xs"
  shows "mset (map ((!) xs) js) \<subseteq># mset xs"
proof -
  have "mset js \<subseteq># mset [0..<length xs]"
    using assms by (metis atLeast0LessThan atLeastLessThan_upt distinct_upt lessThan_iff
        mset_set_set set_upt subsetI subset_imp_msubset_mset_set finite_set)
  from image_mset_subseteq_mono [OF this]
  have "image_mset ((!) xs) (mset js) \<subseteq># image_mset ((!) xs) (mset [0..<length xs])" .
  also have "image_mset ((!) xs) (mset [0..<length xs]) = mset xs" by (metis map_nth mset_map)
  finally show ?thesis by simp
qed

lemma path_leaf_exact:
  assumes "path_ok window slots index tickets 0 remaining assigned"
  shows "exact_placement window slots (materializePlacement window assigned)"
proof -
  from assms have "\<forall>i<length slots. remaining ! i = 0"
    by (metis (no_types, lifting) in_set_conv_nth path_ok_def sum_list_nonneg_eq_0_iff)
  with assms have "\<forall>i<length slots. players_in (map ((!) window) (assigned ! i)) = slots ! i"
    by (auto simp: path_ok_def)
  then have "map players_in (materializePlacement window assigned) = slots"
    using assms by (auto simp: path_ok_def materializePlacement_def intro: nth_equalityI)
  moreover have "mset (concat (materializePlacement window assigned)) \<subseteq># mset window"
    using assms mset_nths_subset [of "concat assigned" window]
    by (force simp: materializePlacement_def path_ok_def map_concat)
  ultimately show ?thesis by (simp add: exact_placement_def)
qed

lemma candidateTeams_set:
  "set (map tc_team (candidateTeams remaining skills party skill)) =
     {team. team < length remaining \<and> party \<le> remaining ! team}"
  by (auto simp: candidateTeams_def in_set_enumerate_eq image_iff)

lemma mset_concat_update:
  "i < length xs \<Longrightarrow> mset (concat (xs[i := xs ! i @ [a]])) = add_mset a (mset (concat xs))"
  by (induction xs arbitrary: i) (auto split: nat.splits)

lemma sum_list_update_int: "i < length xs \<Longrightarrow> sum_list (xs[i := v]) = sum_list xs - xs ! i + (v :: int)"
  by (induction xs arbitrary: i) (auto split: nat.splits)

lemma path_ok_cong_index:
  "path_ok window slots index (t # rest) needed remaining assigned \<Longrightarrow>
   index < length window \<and> t = window ! index \<and> rest = drop (Suc index) window"
  by (auto simp: path_ok_def) (metis drop_eq_Nil2 list.distinct(1) not_le_imp_less,
      metis drop_eq_Nil2 list.distinct(1) not_le_imp_less nth_via_drop, metis drop_Suc list.sel(3) tl_drop)

lemma path_skip:
  assumes "path_ok window slots index (t # rest) needed remaining assigned"
  shows "path_ok window slots (Suc index) rest needed remaining assigned"
  using assms path_ok_cong_index [OF assms] by (auto simp: path_ok_def intro: less_SucI)

lemma path_place:
  assumes path: "path_ok window slots index (t # rest) needed remaining assigned"
    and team: "team < length remaining" "int (length (mt_Players t)) \<le> remaining ! team"
  shows "path_ok window slots (Suc index) rest (i64 (needed - int (length (mt_Players t))))
    (remaining[team := remaining ! team - int (length (mt_Players t))])
    (assigned[team := assigned ! team @ [index]])"
proof -
  let ?p = "int (length (mt_Players t))"
  let ?remaining = "remaining[team := remaining ! team - ?p]"
  let ?assigned = "assigned[team := assigned ! team @ [index]]"
  note idx = path_ok_cong_index [OF path]
  have lens: "length remaining = length slots" "length assigned = length slots"
    and slot: "\<And>i. i < length slots \<Longrightarrow> 0 \<le> remaining ! i \<and>
        remaining ! i + players_in (map ((!) window) (assigned ! i)) = slots ! i"
    and needed: "needed = sum_list remaining" "needed < 2 ^ 63"
    and old: "distinct (concat assigned)" "\<forall>j\<in>set (concat assigned). j < index"
    using path by (auto simp: path_ok_def)
  have new: "0 \<le> ?remaining ! i \<and> ?remaining ! i + players_in (map ((!) window) (?assigned ! i)) = slots ! i"
    if "i < length slots" for i
    using slot [OF that] that team lens idx by (cases "i = team") auto
  have sum: "sum_list ?remaining = needed - ?p" 
    using team(1) needed(1) by (simp add: sum_list_update_int)
  moreover have "0 \<le> sum_list ?remaining"
    using new lens by (intro sum_list_nonneg) (auto simp: in_set_conv_nth)
  ultimately have i64: "i64 (needed - ?p) = sum_list ?remaining" "sum_list ?remaining < 2 ^ 63"
    using needed by (auto intro: i64_small)
  have placed: "mset (concat ?assigned) = mset (index # concat assigned)"
    using team lens by (simp add: mset_concat_update)
  then have "distinct (concat ?assigned)" using old
    by (metis distinct.simps(2) less_irrefl mset_eq_imp_distinct_iff)
  moreover have "\<forall>j\<in>set (concat ?assigned). j < Suc index"
    using mset_eq_setD [OF placed] old(2) by fastforce
  ultimately show ?thesis
    unfolding path_ok_def using idx lens new i64 by auto
qed

text \<open>Induction over the search: what every visit and every exact leaf preserve, the search preserves.\<close>

lemma team_loop_invariant:
  assumes "\<And>team st. team \<in> set teams \<Longrightarrow> P st \<Longrightarrow> P (snd (f team st))" "P st"
  shows "P (snd (team_loop f g seen teams st))"
  using assms
proof (induction teams arbitrary: seen st)
  case (Cons team teams)
  have "P (snd (f team st))" by (rule Cons.prems) (use Cons.prems(2) in simp_all)
  with Cons show ?case by (auto simp: split_beta)
qed simp

definition visited :: "search_state \<Rightarrow> search_state" where
  "visited st = st\<lparr>st_budget := snd (visit (st_budget st))\<rparr>"

definition place_search ::
  "search_env \<Rightarrow> nat \<Rightarrow> MatchTicket \<Rightarrow> MatchTicket list \<Rightarrow> int \<Rightarrow> int list \<Rightarrow> int list \<Rightarrow> nat list list \<Rightarrow> nat
     \<Rightarrow> search_state \<Rightarrow> bool \<times> search_state" where
  "place_search env index t rest needed remaining skills assigned team =
     search env (Suc index) rest (i64 (needed - int (length (mt_Players t))))
       (remaining[team := remaining ! team - int (length (mt_Players t))])
       (skills[team := i64 (skills ! team + totalSkill t)])
       (assigned[team := assigned ! team @ [index]])"

definition fitting_teams :: "MatchTicket \<Rightarrow> int list \<Rightarrow> int list \<Rightarrow> nat list" where
  "fitting_teams t remaining skills =
     map tc_team (candidateTeams remaining skills (int (length (mt_Players t))) (totalSkill t))"

lemma search_Nil:
  "search env index [] needed remaining skills assigned st =
     (if \<not> fst (visit (st_budget st)) then (True, visited st)
      else if needed = 0 then search_leaf env assigned (visited st) else (False, visited st))"
  by (subst search.simps) (simp add: split_beta Let_def visited_def)

lemma search_Cons:
  "search env index (t # rest) needed remaining skills assigned st =
     (if \<not> fst (visit (st_budget st)) then (True, visited st)
      else if needed = 0 then search_leaf env assigned (visited st)
      else if players_in (t # rest) < needed then (False, visited st)
      else let loop = team_loop (place_search env index t rest needed remaining skills assigned)
                 (\<lambda>team. (remaining ! team, skills ! team)) [] (fitting_teams t remaining skills) (visited st)
           in if fst loop then (True, snd loop)
              else if se_requiredIndex env = Some index then (False, snd loop)
              else search env (Suc index) rest needed remaining skills assigned (snd loop))"
  by (subst search.simps)
     (simp add: split_beta Let_def visited_def place_search_def [abs_def] fitting_teams_def)

lemma search_invariant:
  assumes leaf: "\<And>index tickets remaining assigned st.
      path_ok window slots index tickets 0 remaining assigned \<Longrightarrow> P st \<Longrightarrow> P (snd (search_leaf env assigned st))"
    and visit: "\<And>st. P st \<Longrightarrow> P (visited st)"
  shows "path_ok window slots index tickets needed remaining assigned \<Longrightarrow> P st \<Longrightarrow>
    P (snd (search env index tickets needed remaining skills assigned st))"
proof (induction tickets arbitrary: index needed remaining skills assigned st)
  case Nil
  then show ?case
    using visit [of st] leaf [of index "[]" remaining assigned] by (auto simp: search_Nil)
next
  case (Cons t rest)
  have P: "P (visited st)" by (rule visit) (rule Cons.prems)
  let ?loop = "team_loop (place_search env index t rest needed remaining skills assigned)
      (\<lambda>team. (remaining ! team, skills ! team)) [] (fitting_teams t remaining skills) (visited st)"
  have loop: "P (snd ?loop)"
  proof (rule team_loop_invariant [where P = P, OF _ P])
    fix team st
    assume "team \<in> set (fitting_teams t remaining skills)" and P: "P st"
    then have "team < length remaining" "int (length (mt_Players t)) \<le> remaining ! team"
      by (simp_all only: fitting_teams_def candidateTeams_set mem_Collect_eq)
    from path_place [OF Cons.prems(1) this] P
    show "P (snd (place_search env index t rest needed remaining skills assigned team st))"
      unfolding place_search_def by (rule Cons.IH)
  qed
  have "P (snd (search env (Suc index) rest needed remaining skills assigned (snd ?loop)))"
    by (rule Cons.IH [OF path_skip [OF Cons.prems(1)] loop])
  with P loop Cons.prems show ?case
    using leaf [of index "t # rest" remaining assigned]
    by (auto simp: search_Cons Let_def)
qed

section \<open>What the search finds\<close>

text \<open>The search uses at most one node per unit of budget, and reports exhaustion only when it is used up.\<close>

definition budget_ok :: "searchBudget \<Rightarrow> bool" where
  "budget_ok b \<longleftrightarrow> (0 \<le> sb_max b \<longrightarrow> int (sb_used b) \<le> sb_max b) \<and> (sb_exhausted b \<longrightarrow> sb_max b \<le> int (sb_used b))"

lemma visit_budget_ok: "budget_ok b \<Longrightarrow> budget_ok (snd (visit b))"
  by (auto simp: budget_ok_def visit_def)

lemma visit_max [simp]: "sb_max (snd (visit b)) = sb_max b"
  by (simp add: visit_def)

lemma visit_used: "sb_used b \<le> sb_used (snd (visit b))"
  by (simp add: visit_def)

lemma record_exact_budget [simp]: "st_budget (record_exact env pl st) = st_budget st"
  by (simp add: record_exact_def Let_def split_beta)

lemma search_leaf_budget [simp]: "st_budget (snd (search_leaf env assigned st)) = st_budget st"
  by (simp add: search_leaf_def Let_def)

definition found_ok :: "search_env \<Rightarrow> int list \<Rightarrow> placement \<Rightarrow> Evaluation \<Rightarrow> bool" where
  "found_ok env slots placement evaluation \<longleftrightarrow>
     exact_placement (se_tickets env) slots placement \<and>
     evaluation = evaluate_placement env placement \<and>
     eval_Admissible evaluation \<and> \<not> eval_HardViolation evaluation \<and>
     (\<forall>r. se_requiredIndex env = Some r \<longrightarrow> se_tickets env ! r \<in> set (concat placement))"

definition result_ok :: "search_env \<Rightarrow> int list \<Rightarrow> placementSearch \<Rightarrow> bool" where
  "result_ok env slots result \<longleftrightarrow>
     (ps_found result \<longrightarrow> found_ok env slots (ps_placement result) (ps_evaluation result)) \<and>
     (\<forall>a\<in>set (ps_alternatives result). found_ok env slots (alt_placement a) (alt_evaluation a))"

lemma record_exact_ok:
  assumes "result_ok env slots (st_result st)" "exact_placement (se_tickets env) slots placement"
    "\<forall>r. se_requiredIndex env = Some r \<longrightarrow> se_tickets env ! r \<in> set (concat placement)"
  shows "result_ok env slots (st_result (record_exact env placement st))"
proof -
  have new: "found_ok env slots placement (evaluate_placement env placement)"
    if "eval_Admissible (evaluate_placement env placement)" "\<not> eval_HardViolation (evaluate_placement env placement)"
    using assms(2,3) that by (simp add: found_ok_def)
  show ?thesis
  proof (cases "eval_HardViolation (evaluate_placement env placement) \<or>
      \<not> eval_Admissible (evaluate_placement env placement) \<or> se_maxAlternatives env = 1")
    case True
    with assms(1) new show ?thesis
      by (auto simp: record_exact_def Let_def result_ok_def record_best_def)
  next
    case False
    with assms(1) new show ?thesis
      by (auto simp: record_exact_def Let_def result_ok_def recordPlacementAlternative_def
          split: option.splits dest!: set_update_subset_insert [THEN subsetD])
  qed
qed

lemma materialize_includes:
  "placementIncludesIndex assigned r \<Longrightarrow> window ! r \<in> set (concat (materializePlacement window assigned))"
  by (auto simp: placementIncludesIndex_def materializePlacement_def list_ex_iff)

lemma search_leaf_ok:
  assumes "path_ok (se_tickets env) slots index tickets 0 remaining assigned" "result_ok env slots (st_result st)"
  shows "result_ok env slots (st_result (snd (search_leaf env assigned st)))"
proof -
  have "result_ok env slots (st_result (record_exact env (materializePlacement (se_tickets env) assigned) st))"
    if "case se_requiredIndex env of None \<Rightarrow> True | Some r \<Rightarrow> placementIncludesIndex assigned r"
    using assms that
    by (intro record_exact_ok path_leaf_exact)
       (auto split: option.splits dest: materialize_includes [of _ _ "se_tickets env"])
  with assms(2) show ?thesis by (auto simp: search_leaf_def Let_def result_ok_def)
qed

lemma find_index_nth:
  "find_index required index ts = Some r \<Longrightarrow> index \<le> r \<and> r < index + length ts \<and> mt_ID (ts ! (r - index)) = required"
proof (induction ts arbitrary: index)
  case (Cons t ts)
  show ?case
  proof (cases "mt_ID t = required")
    case False
    have "Suc index \<le> r \<and> r < Suc index + length ts \<and> mt_ID (ts ! (r - Suc index)) = required"
      using Cons.IH [of "Suc index"] Cons.prems False by simp
    then show ?thesis by (auto simp: nth_Cons' less_Suc_eq)
  qed (use Cons in auto)
qed simp

text \<open>The path at the root of the search, for slots that are not negative and do not overflow.\<close>

definition slots_in_range :: "int list \<Rightarrow> bool" where
  "slots_in_range slots \<longleftrightarrow> (\<forall>s\<in>set slots. 0 \<le> s) \<and> sum_list slots < 2 ^ 63"

lemma foldl_i64_sum:
  "\<forall>s\<in>set slots. 0 \<le> s \<Longrightarrow> 0 \<le> a \<Longrightarrow> a + sum_list slots < 2 ^ 63 \<Longrightarrow>
   foldl (\<lambda>needed count. i64 (needed + count)) a slots = a + sum_list slots"
proof (induction slots arbitrary: a)
  case (Cons s slots)
  then have "0 \<le> sum_list slots" by (intro sum_list_nonneg) auto
  with Cons.prems have "i64 (a + s) = a + s" by (intro i64_small) auto
  with Cons show ?case by (simp add: add.assoc)
qed simp

lemma total_needed: "slots_in_range slots \<Longrightarrow> foldl (\<lambda>needed count. i64 (needed + count)) 0 slots = sum_list slots"
  using foldl_i64_sum [of slots 0] by (simp add: slots_in_range_def)

lemma path_root:
  "slots_in_range slots \<Longrightarrow> path_ok window slots 0 window (sum_list slots) slots (map (\<lambda>_. []) slots)"
  by (auto simp: path_ok_def slots_in_range_def concat_eq_Nil_conv [THEN iffD2])

definition env_of ::
  "MatchTicket list \<Rightarrow> MatchmakingSnapshot \<Rightarrow> ProposalKind \<Rightarrow> RosterTeamSummary list \<Rightarrow> Time \<Rightarrow> TicketID
     \<Rightarrow> int \<Rightarrow> int \<Rightarrow> search_env" where
  "env_of tickets snapshot kind existing enqueued required maxCandidates maxAlternatives =
     \<lparr>se_tickets = tickets, se_snapshot = snapshot, se_kind = kind,
      se_existingTeams = existing, se_backfillEnqueuedAt = enqueued,
      se_requiredIndex = (if required \<noteq> '''' then find_index required 0 tickets else None),
      se_maxCandidates = maxCandidates, se_maxAlternatives = maxAlternatives\<rparr>"

definition start_state :: "searchBudget \<Rightarrow> search_state" where
  "start_state budget =
     \<lparr>st_budget = budget, st_result = placementSearch_zero, st_alternativeIndexes = []\<rparr>"

definition root_search :: "search_env \<Rightarrow> int list \<Rightarrow> searchBudget \<Rightarrow> bool \<times> search_state" where
  "root_search env slots budget =
     search env 0 (se_tickets env) (sum_list slots) slots (map (\<lambda>_. 0) slots) (map (\<lambda>_. []) slots) (start_state budget)"

definition finish_search :: "int \<Rightarrow> searchBudget \<Rightarrow> search_state \<Rightarrow> placementSearch" where
  "finish_search maxAlternatives budget st =
     (let result = finish_alternatives maxAlternatives
            ((st_result st)\<lparr>ps_searchNodes := sb_used (st_budget st) - sb_used budget\<rparr>)
      in result\<lparr>ps_evaluation := search_evidence (ps_exactCandidates result) (ps_searchNodes result)
           (ps_truncated result \<or> sb_exhausted (st_budget st)) (ps_evaluation result)\<rparr>)"

lemma findBestPlacement_conv:
  assumes "slots_in_range slots"
  shows "findBestPlacement tickets slots snapshot kind existing enqueued required mc ma budget =
    (if sum_list slots = 0 \<or> players_in tickets < sum_list slots \<or>
        required \<noteq> '''' \<and> find_index required 0 tickets = None then (placementSearch_zero, budget)
     else let st = snd (root_search (env_of tickets snapshot kind existing enqueued required mc ma) slots budget)
          in (finish_search ma budget st, st_budget st))"
proof -
  consider "sum_list slots = 0" | "players_in tickets < sum_list slots"
    | "required \<noteq> [] \<and> find_index required 0 tickets = None"
    | "sum_list slots \<noteq> 0" "\<not> players_in tickets < sum_list slots"
        "(required \<noteq> [] \<and> find_index required 0 tickets = None) = False" by blast
  then show ?thesis
    unfolding findBestPlacement_def total_needed [OF assms]
    by cases (simp_all add: env_of_def root_search_def start_state_def finish_search_def Let_def del: not_None_eq de_Morgan_conj)
qed

lemma root_search_ok:
  assumes "slots_in_range slots"
  shows "result_ok env slots (st_result (snd (root_search env slots budget)))"
  unfolding root_search_def
  by (rule search_invariant [where P = "\<lambda>st. result_ok env slots (st_result st)", OF search_leaf_ok _ path_root [OF assms]])
     (auto simp: visited_def start_state_def result_ok_def placementSearch_zero_def)

lemma root_search_budget:
  assumes "slots_in_range slots" "budget_ok budget"
  shows "budget_ok (st_budget (snd (root_search env slots budget)))"
    "sb_max (st_budget (snd (root_search env slots budget))) = sb_max budget"
    "sb_used budget \<le> sb_used (st_budget (snd (root_search env slots budget)))"
proof -
  have "budget_ok (st_budget (snd (root_search env slots budget))) \<and>
    sb_max (st_budget (snd (root_search env slots budget))) = sb_max budget \<and>
    sb_used budget \<le> sb_used (st_budget (snd (root_search env slots budget)))"
    unfolding root_search_def
    by (rule search_invariant [where P = "\<lambda>st. budget_ok (st_budget st) \<and> sb_max (st_budget st) = sb_max budget \<and>
          sb_used budget \<le> sb_used (st_budget st)", OF _ _ path_root [OF assms(1)]])
       (use assms(2) in \<open>auto simp: visited_def start_state_def visit_budget_ok intro: order_trans [OF _ visit_used]\<close>)
  then show "budget_ok (st_budget (snd (root_search env slots budget)))"
    "sb_max (st_budget (snd (root_search env slots budget))) = sb_max budget"
    "sb_used budget \<le> sb_used (st_budget (snd (root_search env slots budget)))" by auto
qed

text \<open>The evidence fields written at the end do not touch what was found.\<close>

definition same_score :: "Evaluation \<Rightarrow> Evaluation \<Rightarrow> bool" where
  "same_score d e \<longleftrightarrow> search_evidence 0 0 False d = search_evidence 0 0 False e"

lemma same_score_search_evidence [simp]: "same_score (search_evidence n m b e) e"
  by (simp add: same_score_def search_evidence_def)

lemma same_score_Compare: "same_score d e \<Longrightarrow> Compare d x = Compare e x \<and> Compare x d = Compare x e"
proof -
  assume "same_score d e"
  then have "eval_Evidence (search_evidence 0 0 False d) = eval_Evidence (search_evidence 0 0 False e)"
    by (simp add: same_score_def)
  then have "ev_WaitPriority (eval_Evidence d) = ev_WaitPriority (eval_Evidence e)"
    "ev_OldestWaitMillis (eval_Evidence d) = ev_OldestWaitMillis (eval_Evidence e)"
    "ev_TotalWaitMillis (eval_Evidence d) = ev_TotalWaitMillis (eval_Evidence e)"
    "ev_RolePenalty (eval_Evidence d) = ev_RolePenalty (eval_Evidence e)"
    "ev_TeamSkillGap (eval_Evidence d) = ev_TeamSkillGap (eval_Evidence e)"
    "ev_MaxLatencyMillis (eval_Evidence d) = ev_MaxLatencyMillis (eval_Evidence e)"
    by (cases "eval_Evidence d"; cases "eval_Evidence e"; simp add: search_evidence_def)+
  then show ?thesis by (simp add: Compare_def Let_def)
qed

lemma finish_alternatives_sel [simp]:
  "ps_exactCandidates (finish_alternatives n r) = ps_exactCandidates r"
  "ps_truncated (finish_alternatives n r) = ps_truncated r"
  "ps_searchNodes (finish_alternatives n r) = ps_searchNodes r"
  by (simp_all add: finish_alternatives_def Let_def)

lemma finish_alternatives_ok: "result_ok env slots r \<Longrightarrow> result_ok env slots (finish_alternatives n r)"
proof -
  assume ok: "result_ok env slots r"
  define as where "as = take (nat n) (sort_cmp comparePlacementAlternative (ps_alternatives r))"
  have "set as \<subseteq> set (ps_alternatives r)" unfolding as_def by (metis set_sort_cmp set_take_subset)
  with ok have "\<forall>a\<in>set as. found_ok env slots (alt_placement a) (alt_evaluation a)"
    by (auto simp: result_ok_def)
  moreover from this have "as \<noteq> [] \<Longrightarrow> found_ok env slots (alt_placement (hd as)) (alt_evaluation (hd as))"
    using hd_in_set by blast
  ultimately show ?thesis
    using ok unfolding result_ok_def finish_alternatives_def Let_def as_def [symmetric] by simp
qed

lemma finish_search_sel [simp]:
  "ps_found (finish_search n b st) = ps_found (finish_alternatives n (st_result st))"
  "ps_placement (finish_search n b st) = ps_placement (finish_alternatives n (st_result st))"
  "ps_alternatives (finish_search n b st) = ps_alternatives (finish_alternatives n (st_result st))"
  "same_score (ps_evaluation (finish_search n b st)) (ps_evaluation (finish_alternatives n (st_result st)))"
  by (simp_all add: finish_search_def finish_alternatives_def Let_def)

lemma ps_found_zero [simp]: "ps_found placementSearch_zero = False" "ps_alternatives placementSearch_zero = []"
  by (simp_all add: placementSearch_zero_def)

definition search_sound :: "search_env \<Rightarrow> int list \<Rightarrow> placementSearch \<Rightarrow> bool" where
  "search_sound env slots r \<longleftrightarrow>
     (ps_found r \<longrightarrow> (\<exists>e. same_score (ps_evaluation r) e \<and> found_ok env slots (ps_placement r) e)) \<and>
     (\<forall>a\<in>set (ps_alternatives r). found_ok env slots (alt_placement a) (alt_evaluation a))"

lemma findBestPlacement_search_sound:
  assumes "slots_in_range slots"
    "findBestPlacement tickets slots snapshot kind existing enqueued required mc ma budget = (r, b)"
  shows "search_sound (env_of tickets snapshot kind existing enqueued required mc ma) slots r"
proof -
  let ?env = "env_of tickets snapshot kind existing enqueued required mc ma"
  let ?st = "snd (root_search ?env slots budget)"
  have ok: "result_ok ?env slots (finish_alternatives ma (st_result ?st))"
    by (intro finish_alternatives_ok root_search_ok assms)
  from assms consider "r = placementSearch_zero" | "r = finish_search ma budget ?st"
    by (auto simp: findBestPlacement_conv Let_def split: if_splits)
  then show ?thesis
  proof cases
    case 2
    with ok show ?thesis unfolding search_sound_def result_ok_def
      by (auto intro!: exI [of _ "ps_evaluation (finish_alternatives ma (st_result ?st))"])
  qed (simp add: search_sound_def)
qed

lemma env_of_sel [simp]:
  "se_tickets (env_of tickets snapshot kind existing enqueued required mc ma) = tickets"
  "se_maxAlternatives (env_of tickets snapshot kind existing enqueued required mc ma) = ma"
  "se_snapshot (env_of tickets snapshot kind existing enqueued required mc ma) = snapshot"
  "se_kind (env_of tickets snapshot kind existing enqueued required mc ma) = kind"
  by (simp_all add: env_of_def)

lemma found_ok_required:
  assumes "found_ok (env_of tickets snapshot kind existing enqueued required mc ma) slots placement e"
    "required \<noteq> ''''" "find_index required 0 tickets \<noteq> None"
  shows "required \<in> mt_ID ` set (concat placement)"
proof -
  obtain r where r: "find_index required 0 tickets = Some r" using assms(3) by blast
  from find_index_nth [OF r] have "mt_ID (tickets ! r) = required" by simp
  moreover have "tickets ! r \<in> set (concat placement)"
    using assms(1,2) r unfolding found_ok_def by (auto simp: env_of_def)
  ultimately show ?thesis by blast
qed

lemma evaluate_placement_hard:
  assumes "eval_Admissible (evaluate_placement env placement)"
  shows "\<forall>team\<in>set placement. team_hard_ok (snap_Policy (se_snapshot env)) (se_kind env) team"
proof -
  have "\<not> HardViolation placement (snap_Policy (se_snapshot env)) (se_kind env)"
  proof (cases "se_kind env = ProposalBackfill")
    case True
    with assms have "eval_Admissible (evaluate (snap_Now (se_snapshot env)) placement (snap_Policy (se_snapshot env))
        ProposalBackfill (se_existingTeams env))" by (simp add: evaluate_placement_def)
    then show ?thesis unfolding True by (intro evaluate_hard evaluate_admissible_hard)
  next
    case False
    with assms have "eval_Admissible (evaluate (snap_Now (se_snapshot env)) placement (snap_Policy (se_snapshot env))
        (se_kind env) [])" by (simp add: evaluate_placement_def Evaluate_def)
    then show ?thesis by (intro evaluate_hard evaluate_admissible_hard)
  qed
  then show ?thesis by (simp add: HardViolation_iff)
qed

lemma evaluate_placement_consistent:
  "valid_steps (pol_RelaxationSteps (snap_Policy (se_snapshot env))) \<Longrightarrow>
   wait_consistent (snap_Policy (se_snapshot env)) (evaluate_placement env placement)"
  by (simp add: evaluate_placement_def Evaluate_def evaluate_consistent EvaluateBackfill_consistent)

section \<open>The best of the visited placements\<close>

text \<open>
  The reference for the search is the list of its leaves, without budget, counters or record of the
  best: the exact assignments in the order in which they are reached.
\<close>

fun fresh_teams :: "(nat \<Rightarrow> int \<times> int) \<Rightarrow> (int \<times> int) list \<Rightarrow> nat list \<Rightarrow> nat list" where
  "fresh_teams state_of seen [] = []"
| "fresh_teams state_of seen (team # rest) =
     (if state_of team \<in> set seen then fresh_teams state_of seen rest
      else team # fresh_teams state_of (state_of team # seen) rest)"

fun leaves ::
  "nat option \<Rightarrow> nat \<Rightarrow> MatchTicket list \<Rightarrow> int \<Rightarrow> int list \<Rightarrow> int list \<Rightarrow> nat list list \<Rightarrow> nat list list list" where
  "leaves required index tickets needed remaining skills assigned =
     (if needed = 0
      then if (case required of None \<Rightarrow> True | Some r \<Rightarrow> placementIncludesIndex assigned r) then [assigned] else []
      else case tickets of [] \<Rightarrow> [] | t # rest \<Rightarrow>
        if players_in (t # rest) < needed then []
        else concat (map (\<lambda>team. leaves required (Suc index) rest (i64 (needed - int (length (mt_Players t))))
                 (remaining[team := remaining ! team - int (length (mt_Players t))])
                 (skills[team := i64 (skills ! team + totalSkill t)])
                 (assigned[team := assigned ! team @ [index]]))
               (fresh_teams (\<lambda>team. (remaining ! team, skills ! team)) [] (fitting_teams t remaining skills)))
             @ (if required = Some index then []
                else leaves required (Suc index) rest needed remaining skills assigned))"

declare leaves.simps [simp del]

definition record_leaf :: "search_env \<Rightarrow> nat list list \<Rightarrow> search_state \<Rightarrow> search_state" where
  "record_leaf env assigned st = record_exact env (materializePlacement (se_tickets env) assigned) st"

definition same_record :: "search_state \<Rightarrow> search_state \<Rightarrow> bool" where
  "same_record s t \<longleftrightarrow> st_result s = st_result t \<and> st_alternativeIndexes s = st_alternativeIndexes t"

lemma same_record_refl [simp]: "same_record s s" "same_record (visited s) t = same_record s t"
  by (simp_all add: same_record_def visited_def)

lemma same_record_trans: "same_record s t \<Longrightarrow> same_record t u \<Longrightarrow> same_record s u"
  by (simp add: same_record_def)

lemma same_record_leaf: "same_record s t \<Longrightarrow> same_record (record_leaf env a s) (record_leaf env a t)"
  by (simp add: same_record_def record_leaf_def record_exact_def Let_def split_beta)

lemma same_record_fold: "same_record s t \<Longrightarrow> same_record (fold (record_leaf env) as s) (fold (record_leaf env) as t)"
  by (induction as arbitrary: s t) (simp_all add: same_record_leaf)

lemma team_loop_leaves:
  assumes "\<And>team s s'. team \<in> set teams \<Longrightarrow> f team s = (False, s') \<Longrightarrow> same_record s' (fold (record_leaf env) (ls team) s)"
    "team_loop f g seen teams s = (False, s')"
  shows "same_record s' (fold (record_leaf env) (concat (map ls (fresh_teams g seen teams))) s)"
  using assms
proof (induction teams arbitrary: seen s)
  case (Cons team teams)
  show ?case
  proof (cases "g team \<in> set seen")
    case True
    with Cons.prems(2) show ?thesis by (simp add: Cons.IH [OF Cons.prems(1)])
  next
    case False
    with Cons.prems(2) obtain t where t: "f team s = (False, t)"
      "team_loop f g (g team # seen) teams t = (False, s')"
      by (auto simp: split_beta split: if_splits) (metis prod.collapse)
    have "same_record s' (fold (record_leaf env) (concat (map ls (fresh_teams g (g team # seen) teams))) t)"
      using Cons.IH [OF Cons.prems(1) t(2)] by simp
    moreover have "same_record t (fold (record_leaf env) (ls team) s)" by (rule Cons.prems(1)) (use t in simp_all)
    ultimately show ?thesis using False by (auto intro: same_record_trans same_record_fold)
  qed
qed simp

lemma search_leaf_record:
  "search_leaf env assigned s = (False, s') \<Longrightarrow>
   s' = (if case se_requiredIndex env of None \<Rightarrow> True | Some r \<Rightarrow> placementIncludesIndex assigned r
         then record_leaf env assigned s else s)"
  by (auto simp: search_leaf_def record_leaf_def Let_def split: if_splits)

lemma search_leaves:
  "search env index tickets needed remaining skills assigned s = (False, s') \<Longrightarrow>
   same_record s' (fold (record_leaf env) (leaves (se_requiredIndex env) index tickets needed remaining skills assigned) s)"
proof (induction tickets arbitrary: index needed remaining skills assigned s s')
  case Nil
  show ?case
  proof (cases "needed = 0")
    case True
    with Nil have "search_leaf env assigned (visited s) = (False, s')"
      by (simp add: search_Nil split: if_splits)
    from search_leaf_record [OF this] True show ?thesis
      by (simp add: leaves.simps same_record_leaf)
  next
    case False
    with Nil show ?thesis by (auto simp: search_Nil leaves.simps split: if_splits)
  qed
next
  case (Cons t rest)
  show ?case
  proof (cases "needed = 0 \<or> players_in (t # rest) < needed")
    case True
    with Cons.prems show ?thesis
      using search_leaf_record [of env assigned "visited s" s']
      by (auto simp: search_Cons leaves.simps same_record_leaf split: if_splits)
  next
    case False
    let ?loop = "team_loop (place_search env index t rest needed remaining skills assigned)
      (\<lambda>team. (remaining ! team, skills ! team)) [] (fitting_teams t remaining skills) (visited s)"
    have eq: "search env index (t # rest) needed remaining skills assigned s =
      (if \<not> fst (visit (st_budget s)) then (True, visited s) else if fst ?loop then (True, snd ?loop)
       else if se_requiredIndex env = Some index then (False, snd ?loop)
       else search env (Suc index) rest needed remaining skills assigned (snd ?loop))"
      using False by (simp add: search_Cons Let_def)
    with Cons.prems obtain u where u: "?loop = (False, u)"
      and tail: "(if se_requiredIndex env = Some index then (False, u)
       else search env (Suc index) rest needed remaining skills assigned u) = (False, s')"
      by (cases ?loop) (auto split: if_splits)
    let ?ls = "\<lambda>team. leaves (se_requiredIndex env) (Suc index) rest (i64 (needed - int (length (mt_Players t))))
                 (remaining[team := remaining ! team - int (length (mt_Players t))])
                 (skills[team := i64 (skills ! team + totalSkill t)])
                 (assigned[team := assigned ! team @ [index]])"
    have "same_record u (fold (record_leaf env) (concat (map ?ls (fresh_teams (\<lambda>team. (remaining ! team, skills ! team)) []
        (fitting_teams t remaining skills)))) (visited s))"
      by (rule team_loop_leaves [OF Cons.IH u [unfolded place_search_def [abs_def]]])
    then have loop: "same_record u (fold (record_leaf env) (concat (map ?ls (fresh_teams (\<lambda>team. (remaining ! team, skills ! team)) []
        (fitting_teams t remaining skills)))) s)"
      by (rule same_record_trans) (intro same_record_fold, simp)
    show ?thesis
    proof (cases "se_requiredIndex env = Some index")
      case True
      with False tail loop show ?thesis by (simp add: leaves.simps [of _ _ "t # rest"] del: players_in_simps)
    next
      case skip: False
      with tail have "same_record s' (fold (record_leaf env)
          (leaves (se_requiredIndex env) (Suc index) rest needed remaining skills assigned) u)"
        by (intro Cons.IH) simp
      then show ?thesis using False skip same_record_trans [OF _ same_record_fold [OF loop]]
        by (simp add: leaves.simps [of _ _ "t # rest"] del: players_in_simps)
    qed
  qed
qed

abbreviation alternative_of :: "search_env \<Rightarrow> placement \<Rightarrow> placementAlternative" where
  "alternative_of env placement \<equiv> \<lparr>alt_placement = placement, alt_evaluation = evaluate_placement env placement\<rparr>"

abbreviation result_alternative :: "placementSearch \<Rightarrow> placementAlternative" where
  "result_alternative r \<equiv> \<lparr>alt_placement = ps_placement r, alt_evaluation = ps_evaluation r\<rparr>"

definition admissible :: "placementAlternative \<Rightarrow> bool" where
  "admissible a \<longleftrightarrow> eval_Admissible (alt_evaluation a) \<and> \<not> eval_HardViolation (alt_evaluation a)"

definition recorded :: "search_env \<Rightarrow> placementSearch \<Rightarrow> placementAlternative set" where
  "recorded env r = (if se_maxAlternatives env = 1
     then (if ps_found r then {result_alternative r} else {}) else set (ps_alternatives r))"

text \<open>Each admissible placement seen so far is matched by a recorded one that is at least as good.\<close>

definition best_inv :: "search_env \<Rightarrow> MatchmakingPolicy \<Rightarrow> placementAlternative set \<Rightarrow> search_state \<Rightarrow> bool" where
  "best_inv env p seen st \<longleftrightarrow>
     (\<forall>b\<in>recorded env (st_result st). consistent_alternative p b) \<and>
     (\<forall>k i. map_of (st_alternativeIndexes st) k = Some i \<longrightarrow> i < length (ps_alternatives (st_result st))) \<and>
     (\<forall>a\<in>seen. admissible a \<longrightarrow> (\<exists>b\<in>recorded env (st_result st). comparePlacementAlternative b a \<le> 0))"

lemma replace_condition:
  "Compare e (alt_evaluation y) < 0 \<or> Compare e (alt_evaluation y) = 0 \<and> comparePlacement pl (alt_placement y) < 0 \<longleftrightarrow>
   comparePlacementAlternative \<lparr>alt_placement = pl, alt_evaluation = e\<rparr> y < 0"
  by (auto simp: comparePlacementAlternative_def)

lemma record_best_conv:
  "record_best r pl e =
     (if \<not> ps_found r \<or> comparePlacementAlternative \<lparr>alt_placement = pl, alt_evaluation = e\<rparr> (result_alternative r) < 0
      then r\<lparr>ps_placement := pl, ps_evaluation := e, ps_found := True\<rparr> else r)"
  unfolding record_best_def replace_condition [symmetric] by simp

lemma recordPlacementAlternative_conv:
  "recordPlacementAlternative (r, idx) pl e =
     (let new = \<lparr>alt_placement = pl, alt_evaluation = e\<rparr>; key = placementTicketKey pl
      in case map_of idx key of
           Some i \<Rightarrow> (if comparePlacementAlternative new (ps_alternatives r ! i) < 0
                      then r\<lparr>ps_alternatives := (ps_alternatives r)[i := new]\<rparr> else r, idx)
         | None \<Rightarrow> (r\<lparr>ps_alternatives := ps_alternatives r @ [new]\<rparr>, AList.update key (length (ps_alternatives r)) idx))"
  by (simp add: recordPlacementAlternative_def Let_def replace_condition split: option.splits)

lemma replaced_covers:
  assumes "consistent_alternative p new" "\<forall>b\<in>set as. consistent_alternative p b" "i < length as"
    "comparePlacementAlternative new (as ! i) < 0" "b \<in> set as" "comparePlacementAlternative b a \<le> 0"
    "consistent_alternative p a"
  shows "\<exists>c\<in>set (as[i := new]). comparePlacementAlternative c a \<le> 0"
proof (cases "b = as ! i")
  case True
  then have "comparePlacementAlternative new a \<le> 0"
    using assms alternative_order.cmp_trans [of p new "as ! i" a] by auto
  then show ?thesis using assms(3) by (metis set_update_memI)
next
  case False
  then have "b \<in> set (as[i := new])" using assms(3,5)
    by (metis in_set_conv_nth length_list_update nth_list_update_neq)
  with assms(6) show ?thesis by blast
qed

lemma best_inv_best:
  assumes "best_inv env p seen st" "se_maxAlternatives env = 1" "consistent_alternative p new"
    "new = \<lparr>alt_placement = pl, alt_evaluation = e\<rparr>" "\<forall>a\<in>seen. consistent_alternative p a"
  shows "best_inv env p (insert new seen) (st\<lparr>st_result := record_best (st_result st) pl e\<rparr>)"
proof (cases "\<not> ps_found (st_result st) \<or> comparePlacementAlternative new (result_alternative (st_result st)) < 0")
  case True
  have covers: "comparePlacementAlternative new a \<le> 0" if a: "a \<in> seen" "admissible a" for a
  proof -
    have r: "ps_found (st_result st)" "comparePlacementAlternative (result_alternative (st_result st)) a \<le> 0"
      "consistent_alternative p (result_alternative (st_result st))"
      using assms(1,2) a by (auto simp: best_inv_def recorded_def split: if_splits)
    with True have "comparePlacementAlternative new (result_alternative (st_result st)) \<le> 0" by simp
    from alternative_order.cmp_trans [OF assms(3) r(3) _ this r(2)] a(1) assms(5) show ?thesis by blast
  qed
  with True assms show ?thesis
    by (auto simp: best_inv_def record_best_conv recorded_def alternative_order.cmp_refl [of p])
next
  case False
  then have "comparePlacementAlternative (result_alternative (st_result st)) new \<le> 0"
    using assms(1-3) by (intro alternative_order.cmp_not_less) (auto simp: best_inv_def recorded_def)
  with False assms show ?thesis
    by (auto simp: best_inv_def record_best_conv recorded_def)
qed

lemma best_inv_alternative:
  assumes "best_inv env p seen st" "se_maxAlternatives env \<noteq> 1" "consistent_alternative p new"
    "new = \<lparr>alt_placement = pl, alt_evaluation = e\<rparr>" "\<forall>a\<in>seen. consistent_alternative p a"
    "recordPlacementAlternative (st_result st, st_alternativeIndexes st) pl e = (r, idx)"
  shows "best_inv env p (insert new seen) (st\<lparr>st_result := r, st_alternativeIndexes := idx\<rparr>)"
proof (cases "map_of (st_alternativeIndexes st) (placementTicketKey pl)")
  case None
  then show ?thesis using assms
    by (auto simp: best_inv_def recorded_def recordPlacementAlternative_conv Let_def update_conv'
        alternative_order.cmp_refl [of p] less_Suc_eq split: if_splits)
next
  case (Some i)
  let ?as = "ps_alternatives (st_result st)"
  have i: "i < length ?as" and con: "\<forall>b\<in>set ?as. consistent_alternative p b"
    using assms(1,2) Some by (auto simp: best_inv_def recorded_def)
  show ?thesis
  proof (cases "comparePlacementAlternative new (?as ! i) < 0")
    case True
    have "\<exists>c\<in>set (?as[i := new]). comparePlacementAlternative c a \<le> 0" if "a \<in> insert new seen" "admissible a" for a
    proof (cases "a = new")
      case True
      moreover have "new \<in> set (?as[i := new])" using i by (rule set_update_memI)
      ultimately show ?thesis using alternative_order.cmp_refl [OF assms(3)]
        by (intro bexI [of _ new]) simp_all
    next
      case False
      with that assms obtain b where "b \<in> set ?as" "comparePlacementAlternative b a \<le> 0"
        by (auto simp: best_inv_def recorded_def)
      with assms(3,5) con i True that False show ?thesis by (intro replaced_covers [of p new ?as i b a]) auto
    qed
    moreover have "\<forall>b\<in>set (?as[i := new]). consistent_alternative p b"
      using con assms(3) set_update_subset_insert [of ?as i new] by blast
    ultimately show ?thesis using assms(1,2,4,6) True Some
      by (auto simp: best_inv_def recorded_def recordPlacementAlternative_conv Let_def)
  next
    case False
    with i con assms(3) have "comparePlacementAlternative (?as ! i) new \<le> 0"
      by (intro alternative_order.cmp_not_less) auto
    with False assms Some i show ?thesis
      by (auto simp: best_inv_def recorded_def recordPlacementAlternative_conv Let_def)
  qed
qed

lemma recorded_cong:
  "ps_found r = ps_found s \<Longrightarrow> ps_placement r = ps_placement s \<Longrightarrow> ps_evaluation r = ps_evaluation s \<Longrightarrow>
   ps_alternatives r = ps_alternatives s \<Longrightarrow> recorded env r = recorded env s"
  by (simp add: recorded_def)

lemma alternative_collapse [simp]: "\<lparr>alt_placement = alt_placement a, alt_evaluation = alt_evaluation a\<rparr> = a"
  by (cases a) simp

lemma best_inv_skip:
  "best_inv env p seen st \<Longrightarrow> \<not> admissible new \<Longrightarrow> best_inv env p (insert new seen) st"
  by (auto simp: best_inv_def)

lemma best_inv_cong:
  "best_inv env p seen st \<Longrightarrow> ps_found (st_result st') = ps_found (st_result st) \<Longrightarrow>
   ps_placement (st_result st') = ps_placement (st_result st) \<Longrightarrow>
   ps_evaluation (st_result st') = ps_evaluation (st_result st) \<Longrightarrow>
   ps_alternatives (st_result st') = ps_alternatives (st_result st) \<Longrightarrow>
   st_alternativeIndexes st' = st_alternativeIndexes st \<Longrightarrow> best_inv env p seen st'"
  using recorded_cong [of "st_result st'" "st_result st" env] by (simp add: best_inv_def)

lemma best_inv_exact:
  assumes inv: "best_inv env p seen st" and p: "p = snap_Policy (se_snapshot env)"
    "valid_steps (pol_RelaxationSteps p)" and seen: "\<forall>a\<in>seen. consistent_alternative p a"
  shows "best_inv env p (insert (alternative_of env pl) seen) (record_exact env pl st)"
proof -
  let ?e = "evaluate_placement env pl"
  define st1 where "st1 = st\<lparr>st_result := (st_result st)\<lparr>ps_exactCandidates := Suc (ps_exactCandidates (st_result st))\<rparr>\<rparr>"
  have inv1: "best_inv env p seen st1" by (rule best_inv_cong [OF inv]) (simp_all add: st1_def)
  have con: "consistent_alternative p (alternative_of env pl)"
    using evaluate_placement_consistent [of env pl] p by simp
  show ?thesis
  proof (cases "eval_HardViolation ?e \<or> \<not> eval_Admissible ?e")
    case True
    then have "best_inv env p (insert (alternative_of env pl) seen) st1"
      by (intro best_inv_skip inv1) (auto simp: admissible_def)
    then show ?thesis by (rule best_inv_cong) (use True in \<open>auto simp: record_exact_def Let_def st1_def\<close>)
  next
    case False
    show ?thesis
    proof (cases "se_maxAlternatives env = 1")
      case True
      from best_inv_best [OF inv1 True con refl seen] show ?thesis
        by (rule best_inv_cong) (use False True in \<open>auto simp: record_exact_def Let_def st1_def\<close>)
    next
      case many: False
      obtain r idx where r: "recordPlacementAlternative (st_result st1, st_alternativeIndexes st1) pl ?e = (r, idx)"
        by force
      from best_inv_alternative [OF inv1 many con refl seen r] show ?thesis
        by (rule best_inv_cong) (use False many r in \<open>auto simp: record_exact_def Let_def st1_def\<close>)
    qed
  qed
qed

lemma best_inv_fold:
  assumes "best_inv env p seen st" "p = snap_Policy (se_snapshot env)" "valid_steps (pol_RelaxationSteps p)"
    "\<forall>a\<in>seen. consistent_alternative p a"
  shows "best_inv env p (seen \<union> (\<lambda>a. alternative_of env (materializePlacement (se_tickets env) a)) ` set as)
    (fold (record_leaf env) as st)"
  using assms(1,4)
proof (induction as arbitrary: seen st)
  case (Cons a as)
  let ?new = "alternative_of env (materializePlacement (se_tickets env) a)"
  have "best_inv env p (insert ?new seen) (record_leaf env a st)"
    unfolding record_leaf_def by (rule best_inv_exact [OF Cons.prems(1) assms(2,3) Cons.prems(2)])
  moreover have "\<forall>b\<in>insert ?new seen. consistent_alternative p b"
    using Cons.prems(2) evaluate_placement_consistent [of env] assms(2,3) by simp
  ultimately show ?case using Cons.IH [of "insert ?new seen" "record_leaf env a st"] by simp
qed simp

lemma sort_hd_least:
  assumes "\<forall>a\<in>set as. consistent_alternative p a" "b \<in> set as"
  shows "comparePlacementAlternative (hd (sort_cmp comparePlacementAlternative as)) b \<le> 0"
proof -
  obtain x xs where xs: "sort_cmp comparePlacementAlternative as = x # xs"
    using assms(2) by (cases "sort_cmp comparePlacementAlternative as") auto
  have "sorted_cmp comparePlacementAlternative (x # xs)" "b \<in> set (x # xs)" "\<forall>a\<in>set (x # xs). consistent_alternative p a"
    using alternative_order.sorted_sort [OF assms(1)] assms xs by (metis set_sort_cmp)+
  then show ?thesis unfolding xs by (auto simp: alternative_order.cmp_refl [of p])
qed

text \<open>A search that was not cut off has found the best of its leaves.\<close>

definition window_leaves :: "search_env \<Rightarrow> int list \<Rightarrow> placement list" where
  "window_leaves env slots = map (materializePlacement (se_tickets env))
     (leaves (se_requiredIndex env) 0 (se_tickets env) (sum_list slots) slots (map (\<lambda>_. 0) slots) (map (\<lambda>_. []) slots))"

lemma root_search_best:
  assumes "\<not> fst (root_search env slots budget)" "p = snap_Policy (se_snapshot env)" "valid_steps (pol_RelaxationSteps p)"
  shows "best_inv env p (alternative_of env ` set (window_leaves env slots)) (snd (root_search env slots budget))"
proof -
  let ?ls = "leaves (se_requiredIndex env) 0 (se_tickets env) (sum_list slots) slots (map (\<lambda>_. 0) slots) (map (\<lambda>_. []) slots)"
  have "best_inv env p {} (start_state budget)"
    by (simp add: best_inv_def recorded_def start_state_def)
  from best_inv_fold [OF this assms(2,3), of ?ls]
  have "best_inv env p (alternative_of env ` set (window_leaves env slots)) (fold (record_leaf env) ?ls (start_state budget))"
    by (simp add: window_leaves_def image_image)
  moreover have "same_record (snd (root_search env slots budget)) (fold (record_leaf env) ?ls (start_state budget))"
    using assms(1) unfolding root_search_def by (intro search_leaves) (metis prod.collapse)
  ultimately show ?thesis by (auto elim!: best_inv_cong simp: same_record_def)
qed

lemma finish_best:
  assumes "best_inv env p seen st" "a \<in> seen" "admissible a" "consistent_alternative p a"
    "1 \<le> se_maxAlternatives env"
  shows "ps_found (finish_alternatives (se_maxAlternatives env) (st_result st)) \<and>
    comparePlacementAlternative (result_alternative (finish_alternatives (se_maxAlternatives env) (st_result st))) a \<le> 0"
proof (cases "se_maxAlternatives env = 1")
  case True
  with assms(1-3) show ?thesis by (auto simp: best_inv_def recorded_def finish_alternatives_def split: if_splits)
next
  case False
  let ?as = "ps_alternatives (st_result st)" and ?n = "nat (se_maxAlternatives env)"
  have n: "1 < se_maxAlternatives env" using False assms(5) by simp
  from assms(1-3) False obtain b where b: "b \<in> set ?as" "comparePlacementAlternative b a \<le> 0"
    "\<forall>b\<in>set ?as. consistent_alternative p b"
    by (auto simp: best_inv_def recorded_def)
  have hd: "comparePlacementAlternative (hd (sort_cmp comparePlacementAlternative ?as)) b \<le> 0"
    using b by (intro sort_hd_least) auto
  have ne: "?as \<noteq> []" using b(1) by auto
  then have "hd (sort_cmp comparePlacementAlternative ?as) \<in> set ?as"
    by (metis hd_in_set set_sort_cmp sort_cmp_Nil_iff)
  with hd b assms(4) have "comparePlacementAlternative (hd (sort_cmp comparePlacementAlternative ?as)) a \<le> 0"
    by (auto intro: alternative_order.cmp_trans [of p])
  with n ne show ?thesis by (simp add: finish_alternatives_def Let_def)
qed

lemma team_loop_stop:
  "fst (team_loop f g seen teams s) \<Longrightarrow> \<exists>team s'. team \<in> set teams \<and> fst (f team s') \<and> team_loop f g seen teams s = f team s'"
proof (induction teams arbitrary: seen s)
  case (Cons team teams)
  show ?case
  proof (cases "g team \<in> set seen \<or> \<not> fst (f team s)")
    case True
    with Cons.prems Cons.IH [of seen s] Cons.IH [of "g team # seen" "snd (f team s)"]
    show ?thesis by (fastforce simp: split_beta split: if_splits)
  next
    case False
    then show ?thesis by (intro exI [of _ team] exI [of _ s]) (simp add: split_beta prod_eq_iff)
  qed
qed simp

text \<open>The search is cut off only by the node budget or by the limit on evaluated candidates.\<close>

lemma search_stopped:
  "fst (search env index tickets needed remaining skills assigned s) \<Longrightarrow>
   sb_exhausted (st_budget (snd (search env index tickets needed remaining skills assigned s))) \<or>
   ps_truncated (st_result (snd (search env index tickets needed remaining skills assigned s)))"
proof (induction tickets arbitrary: index needed remaining skills assigned s)
  case Nil
  then show ?case
    by (auto simp: search_Nil search_leaf_def Let_def visited_def visit_def split: if_splits)
next
  case (Cons t rest)
  let ?loop = "team_loop (place_search env index t rest needed remaining skills assigned)
      (\<lambda>team. (remaining ! team, skills ! team)) [] (fitting_teams t remaining skills) (visited s)"
  have "sb_exhausted (st_budget (snd ?loop)) \<or> ps_truncated (st_result (snd ?loop))" if "fst ?loop"
    using team_loop_stop [OF that] Cons.IH unfolding place_search_def by fastforce
  then show ?case
    using Cons.IH [of "Suc index" needed remaining skills assigned "snd ?loop"] Cons.prems
    by (auto simp: search_Cons search_leaf_def Let_def visited_def visit_def split: if_splits)
qed

lemma find_index_None: "find_index required index ts = None \<longleftrightarrow> required \<notin> mt_ID ` set ts"
  by (induction ts arbitrary: index) auto

lemma leaves_few_players:
  "players_in tickets < needed \<Longrightarrow> leaves required index tickets needed remaining skills assigned = []"
proof -
  assume few: "players_in tickets < needed"
  then have "needed \<noteq> 0" using players_in_nonneg [of tickets] by linarith
  with few show ?thesis by (cases tickets) (simp_all add: leaves.simps [of _ _ "_ # _"] leaves.simps [of _ _ "[]"])
qed

section \<open>Properties\<close>

text \<open>
  C1. Soundness of the placement search. Whatever the budget, a placement that is reported found
  fills every open slot of every team exactly, uses each ticket of the window at most once, breaks
  no hard rule, is admissible, and contains the ticket the search was anchored on.
\<close>

theorem findBestPlacement_sound:
  assumes "slots_in_range slots"
    "findBestPlacement tickets slots snapshot kind existing enqueued required mc ma budget = (r, b)"
    "ps_found r"
  shows "map players_in (ps_placement r) = slots \<and> mset (concat (ps_placement r)) \<subseteq># mset tickets \<and>
    (\<forall>team\<in>set (ps_placement r). team_hard_ok (snap_Policy snapshot) kind team) \<and>
    eval_Admissible (ps_evaluation r) \<and>
    (required \<noteq> [] \<longrightarrow> required \<in> mt_ID ` set (concat (ps_placement r)))"
proof (intro conjI impI)
  let ?env = "env_of tickets snapshot kind existing enqueued required mc ma"
  from findBestPlacement_search_sound [OF assms(1,2)] assms(3) obtain e
    where e: "same_score (ps_evaluation r) e" "found_ok ?env slots (ps_placement r) e"
    by (auto simp: search_sound_def)
  then show "map players_in (ps_placement r) = slots" "mset (concat (ps_placement r)) \<subseteq># mset tickets"
    by (auto simp: found_ok_def exact_placement_def)
  show "\<forall>team\<in>set (ps_placement r). team_hard_ok (snap_Policy snapshot) kind team"
    using e(2) evaluate_placement_hard [of ?env "ps_placement r"] by (auto simp: found_ok_def)
  have "eval_Admissible (search_evidence 0 0 False (ps_evaluation r)) = eval_Admissible (search_evidence 0 0 False e)"
    using e(1) by (simp add: same_score_def)
  moreover have "eval_Admissible e" using e(2) unfolding found_ok_def by blast
  ultimately show "eval_Admissible (ps_evaluation r)" by (simp add: search_evidence_def)
  assume anchor: "required \<noteq> []"
  with assms have "find_index required 0 tickets \<noteq> None"
    by (auto simp: findBestPlacement_conv Let_def split: if_splits)
  with anchor show "required \<in> mt_ID ` set (concat (ps_placement r))"
    using e(2) by (intro found_ok_required)
qed

definition ex_duel_window :: "MatchTicket list" where
  "ex_duel_window = sortTickets (snap_MatchTickets ex_duel_snapshot)"

definition ex_budget :: searchBudget where
  "ex_budget = \<lparr>sb_max = 100000, sb_used = 0, sb_exhausted = False\<rparr>"

definition ex_duel_search :: "placementSearch \<times> searchBudget" where
  "ex_duel_search = findBestPlacement ex_duel_window [1, 1] ex_duel_snapshot ProposalNewMatch [] 0 ''a'' 64 1 ex_budget"

lemma ex_slots: "slots_in_range [1, 1]"
  by (simp add: slots_in_range_def)

theorem findBestPlacement_sound_witness:
  "slots_in_range [1, 1] \<and> ps_found (fst ex_duel_search) \<and>
   map players_in (ps_placement (fst ex_duel_search)) = [1, 1] \<and>
   ''a'' \<in> mt_ID ` set (concat (ps_placement (fst ex_duel_search)))"
proof -
  have found: "ps_found (fst ex_duel_search)" by code_simp
  have "findBestPlacement ex_duel_window [1, 1] ex_duel_snapshot ProposalNewMatch [] 0 ''a'' 64 1 ex_budget =
      (fst ex_duel_search, snd ex_duel_search)" by (simp add: ex_duel_search_def)
  from findBestPlacement_sound [OF ex_slots this found] found ex_slots show ?thesis by simp
qed

text \<open>
  C8. Optimality of the placement search. When neither the node budget nor the candidate limit cut
  the search off, the result is found and at least as good, in the objective's order with ties
  broken by the placement, as every admissible exact placement in the search tree.
\<close>

theorem findBestPlacement_best:
  assumes "slots_in_range slots" "0 < sum_list slots" "required = '''' \<or> required \<in> mt_ID ` set tickets"
    "1 \<le> ma" "valid_steps (pol_RelaxationSteps (snap_Policy snapshot))"
    "findBestPlacement tickets slots snapshot kind existing enqueued required mc ma budget = (r, b)"
    "\<not> ps_truncated r" "\<not> sb_exhausted b"
    "env = env_of tickets snapshot kind existing enqueued required mc ma"
    "placement \<in> set (window_leaves env slots)" "eval_Admissible (evaluate_placement env placement)"
    "\<not> eval_HardViolation (evaluate_placement env placement)"
  shows "ps_found r \<and> comparePlacementAlternative
    \<lparr>alt_placement = ps_placement r, alt_evaluation = ps_evaluation r\<rparr>
    \<lparr>alt_placement = placement, alt_evaluation = evaluate_placement env placement\<rparr> \<le> 0"
proof -
  let ?st = "snd (root_search env slots budget)"
  have "players_in tickets \<ge> sum_list slots"
    using assms(9,10) leaves_few_players [of tickets "sum_list slots"]
    by (force simp: window_leaves_def)
  then have rb: "r = finish_search ma budget ?st" "b = st_budget ?st"
    using assms(1,2,3,6,9) by (auto simp: findBestPlacement_conv find_index_None Let_def split: if_splits)
  have "\<not> fst (root_search env slots budget)"
    using assms(7,8) search_stopped rb unfolding root_search_def by (fastforce simp: finish_search_def Let_def)
  then have inv: "best_inv env (snap_Policy snapshot) (alternative_of env ` set (window_leaves env slots)) ?st"
    using assms(5,9) by (intro root_search_best) simp_all
  have "ps_found (finish_alternatives ma (st_result ?st)) \<and>
      comparePlacementAlternative (result_alternative (finish_alternatives ma (st_result ?st))) (alternative_of env placement) \<le> 0"
    using finish_best [OF inv, of "alternative_of env placement"] assms(4,5,9-12) evaluate_placement_consistent [of env placement]
    by (simp add: admissible_def)
  with rb(1) same_score_Compare [OF finish_search_sel(4) [of ma budget ?st]] show ?thesis
    by (simp add: comparePlacementAlternative_def)
qed

definition ex_duel_env :: search_env where
  "ex_duel_env = env_of ex_duel_window ex_duel_snapshot ProposalNewMatch [] 0 ''a'' 64 1"

theorem findBestPlacement_best_witness:
  "[[ex_duel_window ! 0], [ex_duel_window ! 1]] \<in> set (window_leaves ex_duel_env [1, 1]) \<and>
   ps_found (fst ex_duel_search) \<and>
   comparePlacementAlternative (result_alternative (fst ex_duel_search))
     (alternative_of ex_duel_env [[ex_duel_window ! 0], [ex_duel_window ! 1]]) \<le> 0"
proof -
  let ?pl = "[[ex_duel_window ! 0], [ex_duel_window ! 1]]"
  have leaf: "?pl \<in> set (window_leaves ex_duel_env [1, 1])" by code_simp
  have eq: "findBestPlacement ex_duel_window [1, 1] ex_duel_snapshot ProposalNewMatch [] 0 ''a'' 64 1 ex_budget =
      (fst ex_duel_search, snd ex_duel_search)" by (simp add: ex_duel_search_def)
  have anchor: "''a'' = '''' \<or> ''a'' \<in> mt_ID ` set ex_duel_window" by code_simp
  have steps: "valid_steps (pol_RelaxationSteps (snap_Policy ex_duel_snapshot))" by code_simp
  have "\<not> ps_truncated (fst ex_duel_search)" "\<not> sb_exhausted (snd ex_duel_search)"
    "eval_Admissible (evaluate_placement ex_duel_env ?pl)"
    "\<not> eval_HardViolation (evaluate_placement ex_duel_env ?pl)" by code_simp+
  from findBestPlacement_best [OF ex_slots _ anchor _ steps eq this(1,2) ex_duel_env_def leaf this(3,4)] leaf
  show ?thesis by simp
qed

text \<open>
  C10. The search tree leaves placements out. Teams with the same open slots and the same added
  skill are taken to be interchangeable, although their rosters differ: with the older healer ticket
  first, only the team that already has a healer is tried for it. The search ends within its budget
  and reports that nothing is admissible, while the exact placement with the two tickets exchanged
  has skill gap 0 and role penalty 0.
\<close>

theorem findBestPlacement_skips_admissible:
  "\<exists>r b placement.
     findBestPlacement [ex_healer, ex_dps] (bt_OpenSlotsByTeam ex_backfill) ex_roster_snapshot ProposalBackfill
       (bt_ExistingTeams ex_backfill) (bt_EnqueuedAt ex_backfill) [] 4096 1 ex_budget = (r, b) \<and>
     \<not> ps_found r \<and> \<not> ps_truncated r \<and> \<not> sb_exhausted b \<and>
     exact_placement [ex_healer, ex_dps] (bt_OpenSlotsByTeam ex_backfill) placement \<and>
     eval_Admissible (EvaluateBackfill (snap_Now ex_roster_snapshot) placement ex_roster_policy
       (bt_ExistingTeams ex_backfill) (bt_EnqueuedAt ex_backfill))"
proof -
  let ?search = "findBestPlacement [ex_healer, ex_dps] (bt_OpenSlotsByTeam ex_backfill) ex_roster_snapshot ProposalBackfill
       (bt_ExistingTeams ex_backfill) (bt_EnqueuedAt ex_backfill) [] 4096 1 ex_budget"
  have "\<not> ps_found (fst ?search)" "\<not> ps_truncated (fst ?search)" "\<not> sb_exhausted (snd ?search)"
    "exact_placement [ex_healer, ex_dps] (bt_OpenSlotsByTeam ex_backfill) [[ex_dps], [ex_healer]]"
    "eval_Admissible (EvaluateBackfill (snap_Now ex_roster_snapshot) [[ex_dps], [ex_healer]] ex_roster_policy
       (bt_ExistingTeams ex_backfill) (bt_EnqueuedAt ex_backfill))"
    by code_simp+
  then show ?thesis by (metis prod.collapse)
qed

end
