(* ===== verification/Batch.thy ===== *)
theory Batch
  imports Placement "HOL-Library.Sublist"
begin

text \<open>
  Selection of a disjoint set of proposal candidates, \<open>src/internal/planner/batch.go\<close>.

  \<open>batch_search\<close> is the branch-and-bound closure of \<open>selectProposalBatch\<close>, \<open>pareto_search\<close> and
  \<open>pareto_loop\<close> the enumeration of \<open>paretoSelection\<close>. As in the placement search, what a closure
  undoes on the way back is an argument (\<open>selected\<close>, the used identities), what it keeps is state
  (\<open>batch_state\<close>); \<open>markCandidate_undo\<close> is why this is the same. A suffix of the candidates stands
  for the index into them, so the suffix arrays are functions of that suffix.

  The results: every selection is disjoint, within the limit and made of candidates
  (\<open>selectProposalBatch_disjoint\<close>); without truncation the branch and bound is optimal
  (\<open>selectProposalBatch_optimal\<close>) and the Pareto enumeration maximises the coverage
  (\<open>selectProposalBatch_coverage\<close>).
\<close>

section \<open>Candidates\<close>

record priorityDemand =
  pd_key :: string
  pd_waitMillis :: int

record proposalCandidate =
  pc_placement :: placement
  pc_evaluation :: Evaluation
  pc_priorityDemands :: "priorityDemand list"
  pc_kind :: ProposalKind
  pc_backfill :: "BackfillTarget option"
  pc_key :: string
  pc_utility :: int
  pc_effectiveUtility :: int

record batchSelection =
  bs_candidates :: "proposalCandidate list"
  bs_totalUtility :: int
  bs_selectedBackfills :: nat
  bs_nodes :: nat
  bs_truncated :: bool

definition compareCandidateQuality :: "proposalCandidate \<Rightarrow> proposalCandidate \<Rightarrow> int" where
  "compareCandidateQuality left right =
     cmp_then (Compare (pc_evaluation left) (pc_evaluation right)) (go_cmp (pc_key left) (pc_key right))"

fun rank_loop ::
  "int \<Rightarrow> nat \<Rightarrow> nat \<Rightarrow> nat \<Rightarrow> Evaluation option \<Rightarrow> proposalCandidate list \<Rightarrow> proposalCandidate list" where
  "rank_loop admissionUtility candidateCount index groupStart previous [] = []"
| "rank_loop admissionUtility candidateCount index groupStart previous (candidate # rest) =
     (let groupStart = (case previous of
            Some evaluation \<Rightarrow> if Compare evaluation (pc_evaluation candidate) \<noteq> 0 then index else groupStart
          | None \<Rightarrow> groupStart)
      in candidate\<lparr>pc_utility := i64 (admissionUtility + (int candidateCount - int groupStart))\<rparr>
         # rank_loop admissionUtility candidateCount (Suc index) groupStart (Some (pc_evaluation candidate)) rest)"

definition rankCandidateUtilities :: "proposalCandidate list \<Rightarrow> int \<Rightarrow> proposalCandidate list" where
  "rankCandidateUtilities candidates maxProposals =
     (let candidates = sort_cmp compareCandidateQuality candidates;
          admissionUtility = i64 (i64 (maxProposals * int (length candidates)) + 1)
      in rank_loop admissionUtility (length candidates) 0 0 None candidates)"

section \<open>Priority demands\<close>

definition oldest_of :: "priorityDemand list \<Rightarrow> int" where
  "oldest_of demands = (case demands of [] \<Rightarrow> 0 | demand # _ \<Rightarrow> pd_waitMillis demand)"

definition comparePriorityDemands :: "priorityDemand list \<Rightarrow> priorityDemand list \<Rightarrow> int" where
  "comparePriorityDemands left right =
     cmp_then (go_cmp (oldest_of right) (oldest_of left)) (go_cmp (length right) (length left))"

definition oldestPriorityDemand :: "proposalCandidate \<Rightarrow> int" where
  "oldestPriorityDemand candidate = oldest_of (pc_priorityDemands candidate)"

definition comparePriorityDemand :: "priorityDemand \<Rightarrow> priorityDemand \<Rightarrow> int" where
  "comparePriorityDemand left right =
     cmp_then (go_cmp (pd_waitMillis right) (pd_waitMillis left)) (go_cmp (pd_key left) (pd_key right))"

definition priorityDemandEvidence :: "proposalCandidate list \<Rightarrow> nat \<times> int" where
  "priorityDemandEvidence candidates =
     (let (demands, oldest) = foldl (\<lambda>(demands, oldest) demand.
            (AList.update (pd_key demand)
               (max (case map_of demands (pd_key demand) of None \<Rightarrow> 0 | Some w \<Rightarrow> w) (pd_waitMillis demand)) demands,
             max oldest (pd_waitMillis demand)))
            ([], 0) (concat (map pc_priorityDemands candidates))
      in (length demands, oldest))"

section \<open>Availability\<close>

abbreviation candidate_tickets :: "proposalCandidate \<Rightarrow> TicketID list" where
  "candidate_tickets candidate \<equiv> map mt_ID (concat (pc_placement candidate))"

definition candidate_backfills :: "proposalCandidate \<Rightarrow> TicketID list" where
  "candidate_backfills candidate = (case pc_backfill candidate of None \<Rightarrow> [] | Some t \<Rightarrow> [ref_ID (tgt_Ticket t)])"

definition candidateAvailable :: "proposalCandidate \<Rightarrow> TicketID list \<Rightarrow> TicketID list \<Rightarrow> bool" where
  "candidateAvailable candidate usedTickets usedBackfills =
     (if list_ex (\<lambda>ticket. ticket \<in> set usedTickets) (candidate_tickets candidate) then False
      else if list_ex (\<lambda>ticket. ticket \<in> set usedBackfills) (candidate_backfills candidate) then False
      else True)"

definition markCandidate ::
  "proposalCandidate \<Rightarrow> TicketID list \<times> TicketID list \<Rightarrow> bool \<Rightarrow> TicketID list \<times> TicketID list" where
  "markCandidate candidate = (\<lambda>(usedTickets, usedBackfills) selected.
     if selected
     then (candidate_tickets candidate @ usedTickets, candidate_backfills candidate @ usedBackfills)
     else (filter (\<lambda>t. t \<notin> set (candidate_tickets candidate)) usedTickets,
           filter (\<lambda>t. t \<notin> set (candidate_backfills candidate)) usedBackfills))"

section \<open>Comparing selections\<close>

definition selectedBackfillCount :: "proposalCandidate list \<Rightarrow> nat list \<Rightarrow> nat" where
  "selectedBackfillCount candidates indexes =
     length (filter (\<lambda>index. pc_kind (candidates ! index) = ProposalBackfill) indexes)"

definition selectedPriorityQuality :: "proposalCandidate list \<Rightarrow> nat list \<Rightarrow> int \<times> nat" where
  "selectedPriorityQuality candidates indexes =
     foldl (\<lambda>(oldest, n) index.
        (max oldest (oldestPriorityDemand (candidates ! index)),
         n + length (pc_priorityDemands (candidates ! index)))) (0, 0) indexes"

record selectedQuality =
  sq_selectedBackfills :: nat
  sq_proposalCount :: nat
  sq_matchedPlayers :: nat
  sq_maxRolePenalty :: int
  sq_meanRolePenaltyMilli :: int
  sq_totalRolePenalty :: int
  sq_maxTeamSkillGap :: int
  sq_meanTeamSkillGapMilli :: int
  sq_totalTeamSkillGap :: int
  sq_maxLatencyMillis :: int
  sq_oldestWaitMillis :: int
  sq_meanWaitMillis :: int
  sq_totalWaitMillis :: int
  sq_matchedTickets :: nat

definition add_quality :: "selectedQuality \<Rightarrow> proposalCandidate \<Rightarrow> selectedQuality" where
  "add_quality q candidate =
     (let e = eval_Evidence (pc_evaluation candidate)
      in q\<lparr>sq_selectedBackfills := (if pc_kind candidate = ProposalBackfill
              then Suc (sq_selectedBackfills q) else sq_selectedBackfills q),
           sq_maxRolePenalty := max (sq_maxRolePenalty q) (ev_RolePenalty e),
           sq_totalRolePenalty := i64 (sq_totalRolePenalty q + ev_RolePenalty e),
           sq_maxTeamSkillGap := max (sq_maxTeamSkillGap q) (ev_TeamSkillGap e),
           sq_totalTeamSkillGap := i64 (sq_totalTeamSkillGap q + ev_TeamSkillGap e),
           sq_maxLatencyMillis := max (sq_maxLatencyMillis q) (ev_MaxLatencyMillis e),
           sq_oldestWaitMillis := max (sq_oldestWaitMillis q) (ev_OldestWaitMillis e),
           sq_totalWaitMillis := i64 (sq_totalWaitMillis q + ev_TotalWaitMillis e),
           sq_matchedTickets := sq_matchedTickets q + length (concat (pc_placement candidate)),
           sq_matchedPlayers := sq_matchedPlayers q +
             length (concat (map mt_Players (concat (pc_placement candidate))))\<rparr>)"

definition selectedBatchQuality :: "proposalCandidate list \<Rightarrow> nat list \<Rightarrow> selectedQuality" where
  "selectedBatchQuality candidates indexes =
     (let q = foldl (\<lambda>q index. add_quality q (candidates ! index))
            \<lparr>sq_selectedBackfills = 0, sq_proposalCount = length indexes, sq_matchedPlayers = 0,
             sq_maxRolePenalty = 0, sq_meanRolePenaltyMilli = 0, sq_totalRolePenalty = 0,
             sq_maxTeamSkillGap = 0, sq_meanTeamSkillGapMilli = 0, sq_totalTeamSkillGap = 0,
             sq_maxLatencyMillis = 0, sq_oldestWaitMillis = 0, sq_meanWaitMillis = 0,
             sq_totalWaitMillis = 0, sq_matchedTickets = 0\<rparr> indexes;
          q = (if sq_proposalCount q > 0
               then q\<lparr>sq_meanRolePenaltyMilli :=
                        go_div (i64 (sq_totalRolePenalty q * 1000)) (int (sq_proposalCount q)),
                      sq_meanTeamSkillGapMilli :=
                        go_div (i64 (sq_totalTeamSkillGap q * 1000)) (int (sq_proposalCount q))\<rparr>
               else q)
      in if sq_matchedTickets q > 0
         then q\<lparr>sq_meanWaitMillis := go_div (sq_totalWaitMillis q) (int (sq_matchedTickets q))\<rparr> else q)"

definition batchQualityDominates :: "selectedQuality \<Rightarrow> selectedQuality \<Rightarrow> bool" where
  "batchQualityDominates left right =
     (let noWorse = sq_oldestWaitMillis left \<ge> sq_oldestWaitMillis right \<and>
            sq_meanWaitMillis left \<ge> sq_meanWaitMillis right \<and>
            sq_maxRolePenalty left \<le> sq_maxRolePenalty right \<and>
            sq_meanRolePenaltyMilli left \<le> sq_meanRolePenaltyMilli right \<and>
            sq_maxTeamSkillGap left \<le> sq_maxTeamSkillGap right \<and>
            sq_meanTeamSkillGapMilli left \<le> sq_meanTeamSkillGapMilli right \<and>
            sq_maxLatencyMillis left \<le> sq_maxLatencyMillis right
      in if \<not> noWorse then False
         else sq_oldestWaitMillis left > sq_oldestWaitMillis right \<or>
              sq_meanWaitMillis left > sq_meanWaitMillis right \<or>
              sq_maxRolePenalty left < sq_maxRolePenalty right \<or>
              sq_meanRolePenaltyMilli left < sq_meanRolePenaltyMilli right \<or>
              sq_maxTeamSkillGap left < sq_maxTeamSkillGap right \<or>
              sq_meanTeamSkillGapMilli left < sq_meanTeamSkillGapMilli right \<or>
              sq_maxLatencyMillis left < sq_maxLatencyMillis right)"

fun strings_Join :: "string list \<Rightarrow> string \<Rightarrow> string" where
  "strings_Join [] separator = []"
| "strings_Join [s] separator = s"
| "strings_Join (s # rest) separator = s @ separator @ strings_Join rest separator"

definition selectionKey :: "proposalCandidate list \<Rightarrow> nat list \<Rightarrow> string" where
  "selectionKey candidates indexes =
     strings_Join (sort_cmp go_cmp (map (\<lambda>index. pc_key (candidates ! index)) indexes)) [CHR 0x00]"

definition betterSelection ::
  "proposalCandidate list \<Rightarrow> nat list \<Rightarrow> int \<Rightarrow> nat list \<Rightarrow> int \<Rightarrow> bool \<Rightarrow> bool" where
  "betterSelection candidates left leftScore right rightScore preferPareto =
     (let leftBackfills = selectedBackfillCount candidates left;
          rightBackfills = selectedBackfillCount candidates right;
          (leftOldest, leftPriorityCount) = selectedPriorityQuality candidates left;
          (rightOldest, rightPriorityCount) = selectedPriorityQuality candidates right;
          leftQuality = selectedBatchQuality candidates left;
          rightQuality = selectedBatchQuality candidates right;
          byScore = (if leftScore \<noteq> rightScore then leftScore > rightScore
                     else if length left \<noteq> length right then length left > length right
                     else selectionKey candidates left < selectionKey candidates right)
      in if leftBackfills \<noteq> rightBackfills then leftBackfills > rightBackfills
         else if leftOldest \<noteq> rightOldest then leftOldest > rightOldest
         else if leftPriorityCount \<noteq> rightPriorityCount then leftPriorityCount > rightPriorityCount
         else if preferPareto
         then if sq_proposalCount leftQuality \<noteq> sq_proposalCount rightQuality
              then sq_proposalCount leftQuality > sq_proposalCount rightQuality
              else if sq_matchedPlayers leftQuality \<noteq> sq_matchedPlayers rightQuality
              then sq_matchedPlayers leftQuality > sq_matchedPlayers rightQuality
              else if batchQualityDominates leftQuality rightQuality then True
              else if batchQualityDominates rightQuality leftQuality then False
              else byScore
         else byScore)"
section \<open>Greedy selection\<close>

fun greedy_loop ::
  "int \<Rightarrow> nat \<Rightarrow> proposalCandidate list \<Rightarrow> nat list \<Rightarrow> TicketID list \<times> TicketID list \<Rightarrow> int \<Rightarrow> nat list \<times> int" where
  "greedy_loop maxProposals index [] selected used score = (selected, score)"
| "greedy_loop maxProposals index (candidate # rest) selected used score =
     (if int (length selected) = maxProposals then (selected, score)
      else if pc_utility candidate \<le> 0 \<or> \<not> candidateAvailable candidate (fst used) (snd used)
      then greedy_loop maxProposals (Suc index) rest selected used score
      else greedy_loop maxProposals (Suc index) rest (selected @ [index])
             (markCandidate candidate used True) (i64 (score + pc_effectiveUtility candidate)))"

definition greedySelection :: "proposalCandidate list \<Rightarrow> int \<Rightarrow> nat list \<times> int" where
  "greedySelection candidates maxProposals = greedy_loop maxProposals 0 candidates [] ([], []) 0"

section \<open>Branch and bound\<close>

record batch_state =
  bst_bestIndexes :: "nat list"
  bst_bestScore :: int
  bst_nodes :: nat
  bst_truncated :: bool

definition record_selection ::
  "proposalCandidate list \<Rightarrow> bool \<Rightarrow> nat list \<Rightarrow> int \<Rightarrow> batch_state \<Rightarrow> batch_state" where
  "record_selection ordered preferPareto selected score st =
     (if betterSelection ordered selected score (bst_bestIndexes st) (bst_bestScore st) preferPareto
      then st\<lparr>bst_bestIndexes := selected, bst_bestScore := score\<rparr> else st)"

fun selectionUpperBound :: "proposalCandidate list \<Rightarrow> int \<Rightarrow> int \<Rightarrow> int" where
  "selectionUpperBound [] remainingSlots score = score"
| "selectionUpperBound (candidate # rest) remainingSlots score =
     (if remainingSlots > 0
      then if pc_utility candidate > 0
           then selectionUpperBound rest (remainingSlots - 1) (i64 (score + pc_effectiveUtility candidate))
           else selectionUpperBound rest remainingSlots score
      else score)"

definition suffixOldestPriority :: "proposalCandidate list \<Rightarrow> int" where
  "suffixOldestPriority rest = foldr (\<lambda>candidate oldest. max oldest (oldestPriorityDemand candidate)) rest 0"

definition suffixBackfills :: "proposalCandidate list \<Rightarrow> nat" where
  "suffixBackfills rest = foldr (\<lambda>candidate n.
     if pc_kind candidate = ProposalBackfill then Suc n else n) rest 0"

text \<open>The pruning tests; true means that the closure returns.\<close>

definition prune ::
  "proposalCandidate list \<Rightarrow> int \<Rightarrow> bool \<Rightarrow> proposalCandidate list \<Rightarrow> nat list \<Rightarrow> int \<Rightarrow> batch_state \<Rightarrow> bool" where
  "prune ordered maxProposals hasPriorityDemand rest selected score st =
     (if hasPriorityDemand
      then let selectedBackfills = selectedBackfillCount ordered selected;
               bestBackfills = selectedBackfillCount ordered (bst_bestIndexes st);
               possibleBackfills = int selectedBackfills +
                 min (maxProposals - int (length selected)) (int (suffixBackfills rest))
           in if possibleBackfills < int bestBackfills then True
              else if possibleBackfills = int bestBackfills
              then max (fst (selectedPriorityQuality ordered selected)) (suffixOldestPriority rest)
                     < fst (selectedPriorityQuality ordered (bst_bestIndexes st))
              else False
      else selectionUpperBound rest (maxProposals - int (length selected)) score < bst_bestScore st)"

fun batch_search ::
  "proposalCandidate list \<Rightarrow> int \<Rightarrow> int \<Rightarrow> bool \<Rightarrow> nat \<Rightarrow> proposalCandidate list \<Rightarrow> nat list
     \<Rightarrow> TicketID list \<times> TicketID list \<Rightarrow> int \<Rightarrow> batch_state \<Rightarrow> batch_state" where
  "batch_search ordered maxProposals maxNodes hasPriorityDemand index rest selected used score st =
     (if int (bst_nodes st) \<ge> maxNodes then st\<lparr>bst_truncated := True\<rparr>
      else let st = st\<lparr>bst_nodes := Suc (bst_nodes st)\<rparr>
      in if rest = [] \<or> int (length selected) = maxProposals
         then record_selection ordered False selected score st
         else if prune ordered maxProposals hasPriorityDemand rest selected score st then st
         else case rest of [] \<Rightarrow> st | candidate # rest' \<Rightarrow>
           let st = (if pc_utility candidate > 0 \<and> candidateAvailable candidate (fst used) (snd used)
                     then batch_search ordered maxProposals maxNodes hasPriorityDemand (Suc index) rest'
                            (selected @ [index]) (markCandidate candidate used True)
                            (i64 (score + pc_effectiveUtility candidate)) st
                     else st)
           in batch_search ordered maxProposals maxNodes hasPriorityDemand (Suc index) rest' selected used score st)"

declare batch_search.simps [simp del]

section \<open>Pareto enumeration\<close>

function (sequential) pareto_search ::
  "proposalCandidate list \<Rightarrow> int \<Rightarrow> int \<Rightarrow> nat \<Rightarrow> proposalCandidate list \<Rightarrow> nat list
     \<Rightarrow> TicketID list \<times> TicketID list \<Rightarrow> int \<Rightarrow> batch_state \<Rightarrow> batch_state"
  and pareto_loop ::
  "proposalCandidate list \<Rightarrow> int \<Rightarrow> int \<Rightarrow> nat \<Rightarrow> proposalCandidate list \<Rightarrow> nat list
     \<Rightarrow> TicketID list \<times> TicketID list \<Rightarrow> int \<Rightarrow> batch_state \<Rightarrow> batch_state" where
  "pareto_search candidates maxProposals maxNodes start rest selected used score st =
     (if int (bst_nodes st) \<ge> maxNodes then st\<lparr>bst_truncated := True\<rparr>
      else let st = record_selection candidates True selected score (st\<lparr>bst_nodes := Suc (bst_nodes st)\<rparr>)
      in if int (length selected) = maxProposals then st
         else pareto_loop candidates maxProposals maxNodes start rest selected used score st)"
| "pareto_loop candidates maxProposals maxNodes index [] selected used score st = st"
| "pareto_loop candidates maxProposals maxNodes index (candidate # rest) selected used score st =
     (if pc_utility candidate \<le> 0 \<or> \<not> candidateAvailable candidate (fst used) (snd used)
      then pareto_loop candidates maxProposals maxNodes (Suc index) rest selected used score st
      else let st = pareto_search candidates maxProposals maxNodes (Suc index) rest (selected @ [index])
                 (markCandidate candidate used True) (i64 (score + pc_effectiveUtility candidate)) st
           in if bst_truncated st then st
              else pareto_loop candidates maxProposals maxNodes (Suc index) rest selected used score st)"
  by pat_completeness auto
termination
  by (relation "measure (\<lambda>x. case x of
      Inl (_, _, _, _, rest, _) \<Rightarrow> 2 * length rest + 1 | Inr (_, _, _, _, rest, _) \<Rightarrow> 2 * length rest)") auto

declare pareto_search.simps [simp del]

definition start_selection :: "proposalCandidate list \<Rightarrow> int \<Rightarrow> batch_state" where
  "start_selection ordered maxProposals =
     (let (bestIndexes, bestScore) = greedySelection ordered maxProposals
      in \<lparr>bst_bestIndexes = bestIndexes, bst_bestScore = bestScore, bst_nodes = 0, bst_truncated = False\<rparr>)"

definition paretoSelection :: "proposalCandidate list \<Rightarrow> int \<Rightarrow> int \<Rightarrow> nat list \<times> nat \<times> bool" where
  "paretoSelection candidates maxProposals maxNodes =
     (let st = pareto_search candidates maxProposals maxNodes 0 candidates [] ([], []) 0
            (start_selection candidates maxProposals)
      in (bst_bestIndexes st, bst_nodes st, bst_truncated st))"

section \<open>The selection\<close>

definition compare_kind :: "ProposalKind \<Rightarrow> ProposalKind \<Rightarrow> int" where
  "compare_kind left right = (if left \<noteq> right then if left = ProposalBackfill then -1 else 1 else 0)"

definition compare_ordered :: "proposalCandidate \<Rightarrow> proposalCandidate \<Rightarrow> int" where
  "compare_ordered left right =
     cmp_then (compare_kind (pc_kind left) (pc_kind right))
       (cmp_then (comparePriorityDemands (pc_priorityDemands left) (pc_priorityDemands right))
         (cmp_then (go_cmp (pc_effectiveUtility right) (pc_effectiveUtility left))
           (go_cmp (pc_key left) (pc_key right))))"

definition compare_selected :: "proposalCandidate \<Rightarrow> proposalCandidate \<Rightarrow> int" where
  "compare_selected left right =
     cmp_then (compare_kind (pc_kind left) (pc_kind right)) (compareCandidateQuality left right)"

definition materializeBatchSelection ::
  "proposalCandidate list \<Rightarrow> nat list \<Rightarrow> nat \<Rightarrow> bool \<Rightarrow> batchSelection" where
  "materializeBatchSelection ordered bestIndexes nodes truncated =
     (let chosen = map (\<lambda>index. ordered ! index) bestIndexes
      in \<lparr>bs_candidates = sort_cmp compare_selected chosen,
          bs_totalUtility = foldl (\<lambda>sum candidate. i64 (sum + pc_utility candidate)) 0 chosen,
          bs_selectedBackfills = length (filter (\<lambda>c. pc_kind c = ProposalBackfill) chosen),
          bs_nodes = nodes, bs_truncated = truncated\<rparr>)"

definition maximum_utility :: "proposalCandidate list \<Rightarrow> int" where
  "maximum_utility candidates =
     foldl (\<lambda>maximum candidate. if pc_utility candidate > maximum then pc_utility candidate else maximum) 0 candidates"

definition order_candidates :: "proposalCandidate list \<Rightarrow> int \<Rightarrow> proposalCandidate list" where
  "order_candidates candidates maxProposals =
     (let backfillBonus = i64 (i64 (maxProposals * maximum_utility candidates) + 1)
      in sort_cmp compare_ordered
           (map (\<lambda>candidate. candidate\<lparr>pc_effectiveUtility :=
              if pc_kind candidate = ProposalBackfill then i64 (pc_utility candidate + backfillBonus)
              else pc_utility candidate\<rparr>) candidates))"

definition selectProposalBatch :: "proposalCandidate list \<Rightarrow> int \<Rightarrow> int \<Rightarrow> bool \<Rightarrow> batchSelection" where
  "selectProposalBatch candidates maxProposals maxNodes preferPareto =
     (if maxProposals \<le> 0 \<or> candidates = []
      then \<lparr>bs_candidates = [], bs_totalUtility = 0, bs_selectedBackfills = 0, bs_nodes = 0, bs_truncated = False\<rparr>
      else let ordered = order_candidates candidates maxProposals
      in if preferPareto
         then let (bestIndexes, nodes, truncated) = paretoSelection ordered maxProposals maxNodes
              in materializeBatchSelection ordered bestIndexes nodes truncated
         else let hasPriorityDemand = list_ex (\<lambda>candidate. pc_priorityDemands candidate \<noteq> []) ordered;
                  st = batch_search ordered maxProposals maxNodes hasPriorityDemand 0 ordered [] ([], []) 0
                         (start_selection ordered maxProposals)
              in materializeBatchSelection ordered (bst_bestIndexes st) (bst_nodes st) (bst_truncated st))"

section \<open>Feasible selections\<close>

definition compatible :: "proposalCandidate \<Rightarrow> proposalCandidate \<Rightarrow> bool" where
  "compatible c d \<longleftrightarrow> set (candidate_tickets c) \<inter> set (candidate_tickets d) = {} \<and>
     set (candidate_backfills c) \<inter> set (candidate_backfills d) = {}"

definition feasible :: "proposalCandidate list \<Rightarrow> int \<Rightarrow> nat list \<Rightarrow> bool" where
  "feasible cs maxProposals selected \<longleftrightarrow>
     sorted_wrt (<) selected \<and> (\<forall>i\<in>set selected. i < length cs \<and> 0 < pc_utility (cs ! i)) \<and>
     int (length selected) \<le> maxProposals \<and> sorted_wrt (\<lambda>i j. compatible (cs ! i) (cs ! j)) selected"

definition used_by :: "proposalCandidate list \<Rightarrow> nat list \<Rightarrow> TicketID set \<times> TicketID set" where
  "used_by cs selected = ((\<Union>i\<in>set selected. set (candidate_tickets (cs ! i))),
     (\<Union>i\<in>set selected. set (candidate_backfills (cs ! i))))"

definition selection_path ::
  "proposalCandidate list \<Rightarrow> int \<Rightarrow> nat \<Rightarrow> proposalCandidate list \<Rightarrow> nat list \<Rightarrow> TicketID list \<times> TicketID list \<Rightarrow> bool" where
  "selection_path cs maxProposals index rest selected used \<longleftrightarrow>
     rest = drop index cs \<and> index \<le> length cs \<and> feasible cs maxProposals selected \<and>
     (\<forall>i\<in>set selected. i < index) \<and> set (fst used) = fst (used_by cs selected) \<and> set (snd used) = snd (used_by cs selected)"

lemma candidateAvailable_iff:
  "candidateAvailable c ts bs \<longleftrightarrow> set (candidate_tickets c) \<inter> set ts = {} \<and> set (candidate_backfills c) \<inter> set bs = {}"
  by (auto simp: candidateAvailable_def list_ex_iff)

text \<open>Unmarking restores what marking an available candidate changed.\<close>

lemma markCandidate_undo:
  "candidateAvailable c (fst used) (snd used) \<Longrightarrow> markCandidate c (markCandidate c used True) False = used"
proof -
  assume "candidateAvailable c (fst used) (snd used)"
  then have "filter (\<lambda>t. t \<notin> set (candidate_tickets c)) (fst used) = fst used"
    "filter (\<lambda>t. t \<notin> set (candidate_backfills c)) (snd used) = snd used"
    by (auto simp: candidateAvailable_iff filter_id_conv)
  moreover have "filter (\<lambda>t. t \<notin> set (candidate_tickets c)) (candidate_tickets c) = []"
    "filter (\<lambda>t. t \<notin> set (candidate_backfills c)) (candidate_backfills c) = []"
    by (auto simp: filter_empty_conv)
  ultimately show ?thesis by (simp add: markCandidate_def split_beta prod_eq_iff)
qed

lemma selection_path_Cons:
  "selection_path cs m index (c # rest) selected used \<Longrightarrow> index < length cs \<and> c = cs ! index \<and> rest = drop (Suc index) cs"
  by (auto simp: selection_path_def) (metis drop_eq_Nil2 list.distinct(1) not_le_imp_less,
      metis drop_eq_Nil2 list.distinct(1) not_le_imp_less nth_via_drop, metis drop_Suc list.sel(3) tl_drop)

lemma selection_skip:
  "selection_path cs m index (c # rest) selected used \<Longrightarrow> selection_path cs m (Suc index) rest selected used"
  using selection_path_Cons [of cs m index c rest selected used] by (auto simp: selection_path_def less_SucI)

lemma available_compatible:
  assumes "selection_path cs m index (c # rest) selected used"
  shows "candidateAvailable c (fst used) (snd used) \<longleftrightarrow> (\<forall>i\<in>set selected. compatible (cs ! i) c)"
proof -
  have "set (fst used) = fst (used_by cs selected)" "set (snd used) = snd (used_by cs selected)"
    using assms by (auto simp: selection_path_def)
  then show ?thesis unfolding candidateAvailable_iff compatible_def used_by_def fst_conv snd_conv by blast
qed

lemma selection_take:
  assumes path: "selection_path cs m index (c # rest) selected used" and "0 < pc_utility c"
    "candidateAvailable c (fst used) (snd used)" "int (length selected) \<noteq> m"
  shows "selection_path cs m (Suc index) rest (selected @ [index]) (markCandidate c used True)"
proof -
  note idx = selection_path_Cons [OF path]
  have f: "feasible cs m selected" and below: "\<forall>i\<in>set selected. i < index"
    and used: "set (fst used) = fst (used_by cs selected)" "set (snd used) = snd (used_by cs selected)"
    using path by (auto simp: selection_path_def)
  have "feasible cs m (selected @ [index])"
    using f below assms available_compatible [OF path] idx
    by (auto simp: feasible_def sorted_wrt_append)
  moreover have "set (fst (markCandidate c used True)) = fst (used_by cs (selected @ [index]))"
    "set (snd (markCandidate c used True)) = snd (used_by cs (selected @ [index]))"
    using used idx by (auto simp: markCandidate_def used_by_def split_beta)
  moreover have "\<forall>i\<in>set (selected @ [index]). i < Suc index" using below by auto
  ultimately show ?thesis using idx by (simp add: selection_path_def)
qed

lemma selection_root: "0 \<le> m \<Longrightarrow> selection_path cs m 0 cs [] ([], [])"
  by (simp add: selection_path_def feasible_def used_by_def)

text \<open>The three searches only ever record feasible selections.\<close>

lemma greedy_feasible:
  "selection_path cs m index rest selected used \<Longrightarrow> feasible cs m (fst (greedy_loop m index rest selected used score))"
proof (induction rest arbitrary: index selected used score)
  case Nil
  then show ?case by (simp add: selection_path_def)
next
  case (Cons c rest)
  consider "int (length selected) = m" | "int (length selected) \<noteq> m" "pc_utility c \<le> 0 \<or> \<not> candidateAvailable c (fst used) (snd used)"
    | "int (length selected) \<noteq> m" "0 < pc_utility c" "candidateAvailable c (fst used) (snd used)" by force
  then show ?case
  proof cases
    case 1
    moreover have "feasible cs m selected" using Cons.prems by (simp add: selection_path_def)
    ultimately show ?thesis by simp
  next
    case 2
    with Cons.IH [OF selection_skip [OF Cons.prems]] show ?thesis by simp
  next
    case 3
    with Cons.IH [OF selection_take [OF Cons.prems 3(2,3,1)]] show ?thesis by simp
  qed
qed

lemma record_selection_feasible:
  "feasible cs m (bst_bestIndexes st) \<Longrightarrow> feasible cs m selected \<Longrightarrow>
   feasible cs m (bst_bestIndexes (record_selection cs b selected score st))"
  by (simp add: record_selection_def)

lemma batch_search_Nil:
  "batch_search cs m n h index [] selected used score st =
     (if int (bst_nodes st) \<ge> n then st\<lparr>bst_truncated := True\<rparr>
      else record_selection cs False selected score (st\<lparr>bst_nodes := Suc (bst_nodes st)\<rparr>))"
  by (subst batch_search.simps) (simp add: Let_def)

lemma batch_search_Cons:
  "batch_search cs m n h index (c # rest) selected used score st =
     (if int (bst_nodes st) \<ge> n then st\<lparr>bst_truncated := True\<rparr>
      else if int (length selected) = m
      then record_selection cs False selected score (st\<lparr>bst_nodes := Suc (bst_nodes st)\<rparr>)
      else if prune cs m h (c # rest) selected score (st\<lparr>bst_nodes := Suc (bst_nodes st)\<rparr>)
      then st\<lparr>bst_nodes := Suc (bst_nodes st)\<rparr>
      else batch_search cs m n h (Suc index) rest selected used score
        (if pc_utility c > 0 \<and> candidateAvailable c (fst used) (snd used)
         then batch_search cs m n h (Suc index) rest (selected @ [index]) (markCandidate c used True)
                (i64 (score + pc_effectiveUtility c)) (st\<lparr>bst_nodes := Suc (bst_nodes st)\<rparr>)
         else st\<lparr>bst_nodes := Suc (bst_nodes st)\<rparr>))"
  by (subst batch_search.simps) (simp add: Let_def)

lemma batch_search_feasible:
  "selection_path cs m index rest selected used \<Longrightarrow> feasible cs m (bst_bestIndexes st) \<Longrightarrow>
   feasible cs m (bst_bestIndexes (batch_search cs m n h index rest selected used score st))"
proof (induction rest arbitrary: index selected used score st)
  case Nil
  then have "feasible cs m selected" by (simp add: selection_path_def)
  with Nil show ?case by (simp add: batch_search_Nil record_selection_feasible)
next
  case (Cons c rest)
  have "feasible cs m selected" using Cons.prems by (simp add: selection_path_def)
  with Cons show ?case
    by (simp add: batch_search_Cons record_selection_feasible selection_skip selection_take)
qed

lemma pareto_search_feasible:
  "selection_path cs m index rest selected used \<Longrightarrow> feasible cs m (bst_bestIndexes st) \<Longrightarrow>
   feasible cs m (bst_bestIndexes (pareto_search cs m n index rest selected used score st))"
  "selection_path cs m index rest selected used \<Longrightarrow> feasible cs m (bst_bestIndexes st) \<Longrightarrow>
   int (length selected) \<noteq> m \<Longrightarrow>
   feasible cs m (bst_bestIndexes (pareto_loop cs m n index rest selected used score st))"
proof (induction cs m n index rest selected used score st and cs m n index rest selected used score st
    rule: pareto_search_pareto_loop.induct)
  case (1 cs m n start rest selected used score st)
  have "feasible cs m selected" using "1.prems" by (simp add: selection_path_def)
  with 1 show ?case
    by (subst pareto_search.simps) (simp add: Let_def record_selection_feasible)
next
  case 2
  then show ?case by simp
next
  case (3 cs m n index c rest selected used score st)
  then show ?case
    by (auto simp: Let_def selection_skip selection_take not_le)
qed

section \<open>Disjointness\<close>

lemma start_selection_sel [simp]:
  "bst_bestIndexes (start_selection cs m) = fst (greedySelection cs m)"
  "bst_bestScore (start_selection cs m) = snd (greedySelection cs m)"
  "bst_nodes (start_selection cs m) = 0" "bst_truncated (start_selection cs m) = False"
  by (simp_all add: start_selection_def split_beta)

lemma start_feasible: "0 \<le> m \<Longrightarrow> feasible cs m (bst_bestIndexes (start_selection cs m))"
  using greedy_feasible [OF selection_root] by (simp add: greedySelection_def)

text \<open>The selection as a state of the search that ran.\<close>

definition selection_state :: "proposalCandidate list \<Rightarrow> int \<Rightarrow> int \<Rightarrow> bool \<Rightarrow> batch_state" where
  "selection_state ordered maxProposals maxNodes preferPareto =
     (if preferPareto
      then pareto_search ordered maxProposals maxNodes 0 ordered [] ([], []) 0 (start_selection ordered maxProposals)
      else batch_search ordered maxProposals maxNodes (list_ex (\<lambda>c. pc_priorityDemands c \<noteq> []) ordered) 0 ordered
             [] ([], []) 0 (start_selection ordered maxProposals))"

lemma selectProposalBatch_conv:
  assumes "0 < m" "cs \<noteq> []"
  shows "selectProposalBatch cs m n b =
    (let ordered = order_candidates cs m; st = selection_state ordered m n b
     in materializeBatchSelection ordered (bst_bestIndexes st) (bst_nodes st) (bst_truncated st))"
  using assms by (simp add: selectProposalBatch_def selection_state_def paretoSelection_def Let_def)

lemma selection_state_feasible: "0 \<le> m \<Longrightarrow> feasible cs m (bst_bestIndexes (selection_state cs m n b))"
  by (simp add: selection_state_def batch_search_feasible pareto_search_feasible(1) selection_root start_feasible
      del: start_selection_sel)


definition candidate_core :: "proposalCandidate \<Rightarrow> proposalCandidate" where
  "candidate_core c = c\<lparr>pc_effectiveUtility := 0\<rparr>"

lemma compatible_sym: "compatible c d \<Longrightarrow> compatible d c"
  by (auto simp: compatible_def)

lemma feasible_compatible:
  "feasible cs m selected \<Longrightarrow> sorted_wrt compatible (map (\<lambda>i. cs ! i) selected)"
  by (simp add: feasible_def sorted_wrt_map)

lemma feasible_subset:
  "feasible cs m selected \<Longrightarrow> mset (map (\<lambda>i. cs ! i) selected) \<subseteq># mset cs"
  by (rule mset_nths_subset) (auto simp: feasible_def strict_sorted_iff)

lemma order_candidates_core: "image_mset candidate_core (mset (order_candidates cs m)) = image_mset candidate_core (mset cs)"
  by (simp add: order_candidates_def Let_def candidate_core_def [abs_def] image_mset.compositionality comp_def)

lemma selectProposalBatch_ok:
  "sorted_wrt compatible (bs_candidates (selectProposalBatch cs m n b)) \<and>
   int (length (bs_candidates (selectProposalBatch cs m n b))) \<le> max 0 m \<and>
   (\<forall>c\<in>set (bs_candidates (selectProposalBatch cs m n b)). 0 < pc_utility c) \<and>
   image_mset candidate_core (mset (bs_candidates (selectProposalBatch cs m n b))) \<subseteq># image_mset candidate_core (mset cs)"
proof (cases "0 < m \<and> cs \<noteq> []")
  case True
  define S where "S = bst_bestIndexes (selection_state (order_candidates cs m) m n b)"
  have f: "feasible (order_candidates cs m) m S" unfolding S_def using True by (intro selection_state_feasible) simp
  have sel: "bs_candidates (selectProposalBatch cs m n b) = sort_cmp compare_selected (map (\<lambda>i. order_candidates cs m ! i) S)"
    using True by (simp add: selectProposalBatch_conv Let_def materializeBatchSelection_def S_def)
  have "mset (map (\<lambda>i. order_candidates cs m ! i) S) \<subseteq># mset (order_candidates cs m)"
    by (rule feasible_subset [OF f])
  then have "image_mset candidate_core (mset (map (\<lambda>i. order_candidates cs m ! i) S)) \<subseteq># image_mset candidate_core (mset cs)"
    by (metis image_mset_subseteq_mono order_candidates_core)
  moreover have "sorted_wrt compatible (sort_cmp compare_selected (map (\<lambda>i. order_candidates cs m ! i) S))"
    by (rule sorted_wrt_sort_cmp [OF compatible_sym feasible_compatible [OF f]])
  ultimately show ?thesis using f True unfolding sel by (auto simp: feasible_def)
next
  case False
  then show ?thesis by (auto simp: selectProposalBatch_def)
qed

section \<open>Optimality of the branch and bound\<close>

text \<open>The order of \<open>betterSelection\<close> without the Pareto criterion is the order of this key.\<close>

definition selection_key :: "proposalCandidate list \<Rightarrow> nat list \<Rightarrow> int \<Rightarrow> int \<times> int \<times> int \<times> int \<times> int \<times> string" where
  "selection_key cs selected score =
     (- int (selectedBackfillCount cs selected), - fst (selectedPriorityQuality cs selected),
      - int (snd (selectedPriorityQuality cs selected)), - score, - int (length selected), selectionKey cs selected)"

lemma betterSelection_iff:
  "betterSelection cs l sl r sr False \<longleftrightarrow> selection_key cs l sl < selection_key cs r sr"
  by (auto simp: betterSelection_def selection_key_def Let_def split_beta)

abbreviation best_key :: "proposalCandidate list \<Rightarrow> batch_state \<Rightarrow> int \<times> int \<times> int \<times> int \<times> int \<times> string" where
  "best_key cs st \<equiv> selection_key cs (bst_bestIndexes st) (bst_bestScore st)"

lemma record_selection_key:
  "best_key cs (record_selection cs False selected score st) \<le> best_key cs st"
  "best_key cs (record_selection cs False selected score st) \<le> selection_key cs selected score"
  by (auto simp: record_selection_def betterSelection_iff not_less intro: less_imp_le)

definition selection_score :: "proposalCandidate list \<Rightarrow> nat list \<Rightarrow> int" where
  "selection_score cs selected = (\<Sum>i\<leftarrow>selected. pc_effectiveUtility (cs ! i))"

text \<open>
  The values the code computes: utilities between 0 and \<open>U\<close>, a bonus for backfills that outweighs
  any set of utilities, and no overflow in a sum of as many as may be selected.
\<close>

definition scores_ok :: "proposalCandidate list \<Rightarrow> int \<Rightarrow> int \<Rightarrow> bool" where
  "scores_ok cs m U \<longleftrightarrow> 0 \<le> m \<and> 0 \<le> U \<and> m * (U + (m * U + 1)) < 2 ^ 63 \<and>
     (\<forall>c\<in>set cs. 0 \<le> pc_utility c \<and> pc_utility c \<le> U \<and>
        pc_effectiveUtility c = pc_utility c + (if pc_kind c = ProposalBackfill then m * U + 1 else 0))"

lemma scores_ok_bounds:
  assumes "scores_ok cs m U" "c \<in> set cs"
  shows "0 \<le> pc_effectiveUtility c" "pc_effectiveUtility c \<le> U + (m * U + 1)"
proof -
  from assms have "0 \<le> m * U" "0 \<le> pc_utility c" "pc_utility c \<le> U"
    "pc_effectiveUtility c = pc_utility c + (if pc_kind c = ProposalBackfill then m * U + 1 else 0)"
    by (auto simp: scores_ok_def)
  then show "0 \<le> pc_effectiveUtility c" "pc_effectiveUtility c \<le> U + (m * U + 1)" by auto
qed

lemma sum_effective_bounds:
  assumes "scores_ok cs m U" "\<forall>c\<in>set xs. c \<in> set cs"
  shows "0 \<le> (\<Sum>c\<leftarrow>xs. pc_effectiveUtility c)" "(\<Sum>c\<leftarrow>xs. pc_effectiveUtility c) \<le> int (length xs) * (U + (m * U + 1))"
proof -
  define E where "E = U + (m * U + 1)"
  have "\<forall>c\<in>set xs. 0 \<le> pc_effectiveUtility c \<and> pc_effectiveUtility c \<le> E"
    using assms(2) scores_ok_bounds [OF assms(1)] by (auto simp: E_def)
  then have "0 \<le> (\<Sum>c\<leftarrow>xs. pc_effectiveUtility c) \<and> (\<Sum>c\<leftarrow>xs. pc_effectiveUtility c) \<le> int (length xs) * E"
    by (induction xs) (auto simp: distrib_right)
  then show "0 \<le> (\<Sum>c\<leftarrow>xs. pc_effectiveUtility c)" "(\<Sum>c\<leftarrow>xs. pc_effectiveUtility c) \<le> int (length xs) * (U + (m * U + 1))"
    by (simp_all add: E_def)
qed

lemma sum_effective_i64:
  assumes "scores_ok cs m U" "\<forall>c\<in>set xs. c \<in> set cs" "int (length xs) \<le> m"
  shows "i64 (\<Sum>c\<leftarrow>xs. pc_effectiveUtility c) = (\<Sum>c\<leftarrow>xs. pc_effectiveUtility c)"
proof (rule i64_small)
  show "0 \<le> (\<Sum>c\<leftarrow>xs. pc_effectiveUtility c)" by (rule sum_effective_bounds [OF assms(1,2)])
  have "(\<Sum>c\<leftarrow>xs. pc_effectiveUtility c) \<le> int (length xs) * (U + (m * U + 1))"
    by (rule sum_effective_bounds [OF assms(1,2)])
  also have "\<dots> \<le> m * (U + (m * U + 1))"
    using assms(1,3) by (intro mult_right_mono) (auto simp: scores_ok_def)
  also have "\<dots> < 2 ^ 63" using assms(1) by (simp add: scores_ok_def)
  finally show "(\<Sum>c\<leftarrow>xs. pc_effectiveUtility c) < 2 ^ 63" .
qed

text \<open>The upper bound: no choice from the suffix adds more than its first candidates.\<close>

abbreviation by_effective :: "proposalCandidate list \<Rightarrow> bool" where
  "by_effective cs \<equiv> sorted_wrt (\<lambda>c d. pc_effectiveUtility d \<le> pc_effectiveUtility c) cs"

lemma selectionUpperBound_bound:
  assumes ok: "scores_ok cs m U"
  shows "\<lbrakk>by_effective rest; set rest \<subseteq> set cs; subseq xs rest; \<forall>c\<in>set xs. 0 < pc_utility c;
     int (length xs) \<le> k; set ys \<subseteq> set cs; int (length ys) + k \<le> m; score = (\<Sum>c\<leftarrow>ys. pc_effectiveUtility c)\<rbrakk> \<Longrightarrow>
    score + (\<Sum>c\<leftarrow>xs. pc_effectiveUtility c) \<le> selectionUpperBound rest k score"
proof (induction rest arbitrary: xs k ys score)
  case Nil
  then have "xs = []" by simp
  then show ?case by simp
next
  case (Cons c rest)
  show ?case
  proof (cases "k > 0 \<and> pc_utility c > 0")
    case True
    let ?e = pc_effectiveUtility
    have fits: "i64 (score + ?e c) = (\<Sum>c\<leftarrow>ys @ [c]. ?e c)"
      using sum_effective_i64 [OF ok, of "ys @ [c]"] Cons.prems True by auto
    have step: "(\<Sum>c\<leftarrow>ys @ [c]. ?e c) + (\<Sum>c\<leftarrow>zs. ?e c) \<le> selectionUpperBound rest (k - 1) (i64 (score + ?e c))"
      if "subseq zs rest" "\<forall>c\<in>set zs. 0 < pc_utility c" "int (length zs) \<le> k - 1" for zs
      unfolding fits using Cons.prems True that by (intro Cons.IH [of zs "k - 1" "ys @ [c]"]) auto
    have "\<exists>zs. score + (\<Sum>c\<leftarrow>xs. ?e c) \<le> (\<Sum>c\<leftarrow>ys @ [c]. ?e c) + (\<Sum>c\<leftarrow>zs. ?e c) \<and> subseq zs rest \<and>
        (\<forall>c\<in>set zs. 0 < pc_utility c) \<and> int (length zs) \<le> k - 1"
    proof (cases xs)
      case Nil
      then show ?thesis using scores_ok_bounds [OF ok, of c] Cons.prems True by (intro exI [of _ "[]"]) auto
    next
      case (Cons x zs)
      have "subseq zs rest \<and> ?e x \<le> ?e c"
      proof (cases "x = c")
        case True
        with Cons Cons.prems(3) show ?thesis by simp
      next
        case False
        with \<open>xs = x # zs\<close> Cons.prems(3) have "subseq (x # zs) rest" by simp
        moreover from this have "x \<in> set rest" by (metis list.set_intros(1) subseq_order.trans subseq_singleton_left)
        ultimately show ?thesis using Cons.prems(1) by (auto dest: subseq_Cons')
      qed
      with Cons Cons.prems(4,5,8) show ?thesis by (intro exI [of _ zs]) auto
    qed
    then obtain zs where "score + (\<Sum>c\<leftarrow>xs. ?e c) \<le> (\<Sum>c\<leftarrow>ys @ [c]. ?e c) + (\<Sum>c\<leftarrow>zs. ?e c)" "subseq zs rest"
        "\<forall>c\<in>set zs. 0 < pc_utility c" "int (length zs) \<le> k - 1" by blast
    with step [of zs] have "score + (\<Sum>c\<leftarrow>xs. ?e c) \<le> selectionUpperBound rest (k - 1) (i64 (score + ?e c))" by linarith
    then show ?thesis using True by simp
  next
    case False
    show ?thesis
    proof (cases "k > 0")
      case True
      with False have "c \<notin> set xs" using Cons.prems(4) by auto
      then have "subseq xs rest" using Cons.prems(3) by (cases xs) auto
      with True False show ?thesis using Cons.prems by (auto intro!: Cons.IH [of xs k ys])
    next
      case k: False
      with Cons.prems(5) have "xs = []" by (cases xs) auto
      with k show ?thesis by simp
    qed
  qed
qed

text \<open>What a completion of a partial selection can add.\<close>

lemma indexes_subseq:
  "sorted_wrt (<) S \<Longrightarrow> \<forall>i\<in>set S. index \<le> i \<and> i < length cs \<Longrightarrow> subseq (map (\<lambda>i. cs ! i) S) (drop index cs)"
proof (induction S arbitrary: index)
  case (Cons i S)
  then have i: "index \<le> i" "i < length cs" by auto
  have "subseq (map (\<lambda>i. cs ! i) S) (drop (Suc i) cs)" using Cons by (intro Cons.IH) (auto simp: Suc_le_eq)
  then have "subseq (map (\<lambda>i. cs ! i) (i # S)) (drop i cs)" using i by (simp flip: Cons_nth_drop_Suc)
  moreover have "drop index cs = take (i - index) (drop index cs) @ drop i cs"
    using i(1) by (metis append_take_drop_id drop_drop le_add_diff_inverse2)
  ultimately show ?case by (metis list_emb_append2)
qed simp

lemma completion_subseq:
  assumes "feasible cs m (selected @ S)" "\<forall>i\<in>set S. index \<le> i"
  shows "subseq (map (\<lambda>i. cs ! i) S) (drop index cs)"
  using assms by (intro indexes_subseq) (auto simp: feasible_def sorted_wrt_append)

lemma subseq_filter_length: "subseq xs ys \<Longrightarrow> length (filter P xs) \<le> length (filter P ys)"
  by (induction rule: list_emb.induct) auto

lemma suffixBackfills_conv: "suffixBackfills rest = length (filter (\<lambda>c. pc_kind c = ProposalBackfill) rest)"
  by (induction rest) (simp_all add: suffixBackfills_def)

lemma selectedBackfillCount_conv:
  "selectedBackfillCount cs S = length (filter (\<lambda>c. pc_kind c = ProposalBackfill) (map (\<lambda>i. cs ! i) S))"
  by (simp add: selectedBackfillCount_def filter_map comp_def)

lemma completion_backfills:
  assumes "feasible cs m (selected @ S)" "\<forall>i\<in>set S. index \<le> i"
  shows "int (selectedBackfillCount cs (selected @ S)) \<le>
    int (selectedBackfillCount cs selected) + min (m - int (length selected)) (int (suffixBackfills (drop index cs)))"
proof -
  let ?B = "filter (\<lambda>c. pc_kind c = ProposalBackfill)"
  have "length (?B (map (\<lambda>i. cs ! i) S)) \<le> suffixBackfills (drop index cs)"
    unfolding suffixBackfills_conv by (intro subseq_filter_length completion_subseq [OF assms])
  moreover have "length (?B (map (\<lambda>i. cs ! i) S)) \<le> length S" by (metis length_filter_le length_map)
  then have "int (length (?B (map (\<lambda>i. cs ! i) S))) \<le> m - int (length selected)"
    using assms(1) unfolding feasible_def length_append by linarith
  ultimately show ?thesis by (simp add: selectedBackfillCount_conv)
qed

definition priority_oldest :: "proposalCandidate list \<Rightarrow> nat list \<Rightarrow> int" where
  "priority_oldest cs S = fold max (map (\<lambda>i. oldestPriorityDemand (cs ! i)) S) 0"

lemma selectedPriorityQuality_conv:
  "selectedPriorityQuality cs S = (priority_oldest cs S, \<Sum>i\<leftarrow>S. length (pc_priorityDemands (cs ! i)))"
proof -
  have "foldl (\<lambda>(oldest, n) index. (max oldest (oldestPriorityDemand (cs ! index)),
         n + length (pc_priorityDemands (cs ! index)))) (a, b) S =
    (fold max (map (\<lambda>i. oldestPriorityDemand (cs ! i)) S) a, b + (\<Sum>i\<leftarrow>S. length (pc_priorityDemands (cs ! i))))"
    for a b by (induction S arbitrary: a b) (simp_all add: max.commute)
  then show ?thesis by (simp add: selectedPriorityQuality_def priority_oldest_def)
qed

lemma fold_max_le: "(a :: int) \<le> b \<Longrightarrow> \<forall>x\<in>set xs. x \<le> b \<Longrightarrow> fold max xs a \<le> b"
  by (induction xs arbitrary: a) auto

lemma suffixOldestPriority_ge:
  "c \<in> set rest \<Longrightarrow> oldestPriorityDemand c \<le> suffixOldestPriority rest" "0 \<le> suffixOldestPriority rest"
  by (induction rest) (auto simp: suffixOldestPriority_def)

lemma completion_oldest:
  assumes "feasible cs m (selected @ S)" "\<forall>i\<in>set S. index \<le> i"
  shows "priority_oldest cs (selected @ S) \<le> max (priority_oldest cs selected) (suffixOldestPriority (drop index cs))"
proof -
  have "cs ! i \<in> set (drop index cs)" if "i \<in> set S" for i
  proof -
    have "i < length cs" "index \<le> i" using assms that by (auto simp: feasible_def)
    then have "i - index < length (drop index cs)" "drop index cs ! (i - index) = cs ! i" by auto
    then show ?thesis by (metis nth_mem)
  qed
  then have "\<forall>x\<in>set (map (\<lambda>i. oldestPriorityDemand (cs ! i)) S). x \<le> suffixOldestPriority (drop index cs)"
    by (auto intro: suffixOldestPriority_ge)
  then show ?thesis unfolding priority_oldest_def map_append fold_append comp_def
    by - (rule fold_max_le, auto)
qed

text \<open>With no priority demand the scores decide, and they put backfills first.\<close>

lemma score_conv: "selection_score cs S = (\<Sum>c\<leftarrow>map (\<lambda>i. cs ! i) S. pc_effectiveUtility c)"
  by (simp add: selection_score_def comp_def)

lemma score_backfills:
  assumes "scores_ok cs m U" "\<forall>i\<in>set S. i < length cs"
  shows "int (selectedBackfillCount cs S) * (m * U + 1) \<le> selection_score cs S"
    "selection_score cs S \<le> int (selectedBackfillCount cs S) * (m * U + 1) + int (length S) * U"
proof -
  define B where "B = m * U + 1"
  have "int (selectedBackfillCount cs S) * B \<le> selection_score cs S \<and>
    selection_score cs S \<le> int (selectedBackfillCount cs S) * B + int (length S) * U"
    using assms(2)
  proof (induction S)
    case (Cons i S)
    then have "cs ! i \<in> set cs" by simp
    with assms(1) have "0 \<le> pc_utility (cs ! i)" "pc_utility (cs ! i) \<le> U"
      "pc_effectiveUtility (cs ! i) = pc_utility (cs ! i) + (if pc_kind (cs ! i) = ProposalBackfill then B else 0)"
      by (auto simp: scores_ok_def B_def)
    with Cons show ?case by (auto simp: selection_score_def selectedBackfillCount_def distrib_right)
  qed (simp add: selection_score_def selectedBackfillCount_def)
  then show "int (selectedBackfillCount cs S) * (m * U + 1) \<le> selection_score cs S"
    "selection_score cs S \<le> int (selectedBackfillCount cs S) * (m * U + 1) + int (length S) * U"
    by (simp_all add: B_def)
qed

lemma score_less_backfills:
  assumes ok: "scores_ok cs m U" and S: "feasible cs m S" and T: "feasible cs m T"
    and less: "selection_score cs S < selection_score cs T"
  shows "selectedBackfillCount cs S \<le> selectedBackfillCount cs T"
proof (rule ccontr)
  assume "\<not> ?thesis"
  then have "int (selectedBackfillCount cs T) + 1 \<le> int (selectedBackfillCount cs S)" by simp
  define B where "B = m * U + 1"
  have "0 \<le> U" "int (length T) \<le> m" using ok T by (auto simp: scores_ok_def feasible_def)
  then have "int (length T) * U \<le> m * U" by (rule mult_right_mono [rotated])
  have "0 \<le> B" using ok by (simp add: B_def scores_ok_def)
  have "selection_score cs T \<le> int (selectedBackfillCount cs T) * B + int (length T) * U"
    unfolding B_def using ok T by (intro score_backfills) (auto simp: feasible_def)
  also have "\<dots> < (int (selectedBackfillCount cs T) + 1) * B"
    using \<open>int (length T) * U \<le> m * U\<close> by (simp add: distrib_right B_def)
  also have "\<dots> \<le> int (selectedBackfillCount cs S) * B"
    by (rule mult_right_mono) fact+
  also have "\<dots> \<le> selection_score cs S"
    unfolding B_def using ok S by (intro score_backfills) (auto simp: feasible_def)
  finally show False using less by simp
qed

lemma no_priority:
  assumes "\<not> list_ex (\<lambda>c. pc_priorityDemands c \<noteq> []) cs" "\<forall>i\<in>set S. i < length cs"
  shows "selectedPriorityQuality cs S = (0, 0)"
proof -
  have "\<forall>i\<in>set S. pc_priorityDemands (cs ! i) = []" using assms by (auto simp: list_ex_iff)
  then show ?thesis
    by (induction S) (auto simp: selectedPriorityQuality_conv priority_oldest_def oldestPriorityDemand_def oldest_of_def)
qed

definition best_ok :: "proposalCandidate list \<Rightarrow> int \<Rightarrow> batch_state \<Rightarrow> bool" where
  "best_ok cs m st \<longleftrightarrow> feasible cs m (bst_bestIndexes st) \<and> bst_bestScore st = selection_score cs (bst_bestIndexes st)"

text \<open>Pruning discards only completions that cannot beat the best selection so far.\<close>

lemma prune_sound:
  assumes ok: "scores_ok cs m U" and path: "selection_path cs m index rest selected used"
    and order: "h \<or> by_effective cs" "h \<longleftrightarrow> list_ex (\<lambda>c. pc_priorityDemands c \<noteq> []) cs"
    and best: "best_ok cs m st" and S: "feasible cs m (selected @ S)" "\<forall>i\<in>set S. index \<le> i"
    and pr: "prune cs m h rest selected (selection_score cs selected) st"
  shows "best_key cs st \<le> selection_key cs (selected @ S) (selection_score cs (selected @ S))"
proof (cases h)
  case True
  have rest: "rest = drop index cs" using path by (simp add: selection_path_def)
  note bounds = completion_backfills [OF S] completion_oldest [OF S]
  show ?thesis
    using pr True bounds unfolding rest
    by (auto simp: prune_def Let_def selection_key_def selectedPriorityQuality_conv split: if_splits)
next
  case False
  have rest: "rest = drop index cs" using path by (simp add: selection_path_def)
  have range: "\<forall>i\<in>set (selected @ S). i < length cs" "\<forall>i\<in>set (bst_bestIndexes st). i < length cs"
    using S(1) best by (auto simp: feasible_def best_ok_def)
  have "selection_score cs selected + (\<Sum>c\<leftarrow>map (\<lambda>i. cs ! i) S. pc_effectiveUtility c)
      \<le> selectionUpperBound rest (m - int (length selected)) (selection_score cs selected)"
    unfolding rest
  proof (rule selectionUpperBound_bound [OF ok _ _ completion_subseq [OF S], where ys = "map (\<lambda>i. cs ! i) selected"])
    show "by_effective (drop index cs)" using order False by (simp add: sorted_wrt_drop)
    show "set (drop index cs) \<subseteq> set cs" by (rule set_drop_subset)
    show "\<forall>c\<in>set (map (\<lambda>i. cs ! i) S). 0 < pc_utility c" using S(1) by (auto simp: feasible_def)
    show "int (length (map (\<lambda>i. cs ! i) S)) \<le> m - int (length selected)" using S(1) by (simp add: feasible_def)
    show "set (map (\<lambda>i. cs ! i) selected) \<subseteq> set cs" using range(1) by auto
  qed (simp_all add: score_conv)
  then have less: "selection_score cs (selected @ S) < bst_bestScore st"
    using pr False by (simp add: prune_def score_conv)
  then have "selectedBackfillCount cs (selected @ S) \<le> selectedBackfillCount cs (bst_bestIndexes st)"
    using ok S best by (intro score_less_backfills) (auto simp: best_ok_def)
  with less show ?thesis
    using no_priority [OF _ range(1)] no_priority [OF _ range(2)] False order(2)
    by (auto simp: selection_key_def)
qed

lemma selection_score_take:
  assumes ok: "scores_ok cs m U" and path: "selection_path cs m index (c # rest) selected used"
    and "int (length selected) \<noteq> m"
  shows "i64 (selection_score cs selected + pc_effectiveUtility c) = selection_score cs (selected @ [index])"
proof -
  have idx: "index < length cs" "c = cs ! index" using selection_path_Cons [OF path] by auto
  have "feasible cs m selected" using path by (simp add: selection_path_def)
  then have "int (length selected) < m" "\<forall>i\<in>set selected. i < length cs" using assms(3) by (auto simp: feasible_def)
  with idx have "i64 (\<Sum>c\<leftarrow>map (\<lambda>i. cs ! i) (selected @ [index]). pc_effectiveUtility c) =
      (\<Sum>c\<leftarrow>map (\<lambda>i. cs ! i) (selected @ [index]). pc_effectiveUtility c)"
    by (intro sum_effective_i64 [OF ok]) auto
  then show ?thesis using idx by (simp add: score_conv)
qed

lemma greedy_score:
  "scores_ok cs m U \<Longrightarrow> selection_path cs m index rest selected used \<Longrightarrow> score = selection_score cs selected \<Longrightarrow>
   snd (greedy_loop m index rest selected used score) =
     selection_score cs (fst (greedy_loop m index rest selected used score))"
proof (induction rest arbitrary: index selected used score)
  case (Cons c rest)
  consider "int (length selected) = m" | "int (length selected) \<noteq> m" "pc_utility c \<le> 0 \<or> \<not> candidateAvailable c (fst used) (snd used)"
    | "int (length selected) \<noteq> m" "0 < pc_utility c" "candidateAvailable c (fst used) (snd used)" by force
  then show ?case
  proof cases
    case 2
    with Cons.IH [OF Cons.prems(1) selection_skip [OF Cons.prems(2)] Cons.prems(3)] show ?thesis by simp
  next
    case 3
    with Cons.IH [OF Cons.prems(1) selection_take [OF Cons.prems(2) 3(2,3,1)]] Cons.prems(3)
      selection_score_take [OF Cons.prems(1,2) 3(1)] show ?thesis by simp
  qed (use Cons.prems in simp)
qed simp

lemma record_selection_ok:
  "best_ok cs m st \<Longrightarrow> feasible cs m selected \<Longrightarrow> score = selection_score cs selected \<Longrightarrow>
   best_ok cs m (record_selection cs b selected score st)"
  by (simp add: record_selection_def best_ok_def)

lemma best_ok_nodes [simp]:
  "best_ok cs m (st\<lparr>bst_nodes := n\<rparr>) = best_ok cs m st" "best_ok cs m (st\<lparr>bst_truncated := b\<rparr>) = best_ok cs m st"
  by (simp_all add: best_ok_def)

lemma batch_search_ok:
  "scores_ok cs m U \<Longrightarrow> selection_path cs m index rest selected used \<Longrightarrow> score = selection_score cs selected \<Longrightarrow>
   best_ok cs m st \<Longrightarrow> best_ok cs m (batch_search cs m n h index rest selected used score st)"
proof (induction rest arbitrary: index selected used score st)
  case Nil
  have "feasible cs m selected" using Nil.prems by (simp add: selection_path_def)
  with Nil show ?case by (simp add: batch_search_Nil record_selection_ok)
next
  case (Cons c rest)
  have f: "feasible cs m selected" using Cons.prems by (simp add: selection_path_def)
  show ?case
  proof (cases "int (length selected) = m")
    case True
    with f Cons.prems show ?thesis by (simp add: batch_search_Cons record_selection_ok)
  next
    case False
    note take = selection_take [OF Cons.prems(2) _ _ False] selection_score_take [OF Cons.prems(1,2) False]
    show ?thesis
      using Cons.IH [OF Cons.prems(1) selection_skip [OF Cons.prems(2)] Cons.prems(3)] Cons.IH [OF Cons.prems(1) take(1)]
        Cons.prems(3,4) take(2) False
      by (simp add: batch_search_Cons)
  qed
qed

text \<open>The best selection only improves, and truncation is never taken back.\<close>

lemma batch_search_mono:
  "best_key cs (batch_search cs m n h index rest selected used score st) \<le> best_key cs st \<and>
   (bst_truncated st \<longrightarrow> bst_truncated (batch_search cs m n h index rest selected used score st))"
proof (induction rest arbitrary: index selected used score st)
  case Nil
  then show ?case
    using record_selection_key(1) [of cs selected score "st\<lparr>bst_nodes := Suc (bst_nodes st)\<rparr>"]
    by (simp add: batch_search_Nil record_selection_def)
next
  case (Cons c rest)
  let ?st = "st\<lparr>bst_nodes := Suc (bst_nodes st)\<rparr>"
  let ?mid = "if pc_utility c > 0 \<and> candidateAvailable c (fst used) (snd used)
     then batch_search cs m n h (Suc index) rest (selected @ [index]) (markCandidate c used True)
            (i64 (score + pc_effectiveUtility c)) ?st else ?st"
  have "best_key cs ?mid \<le> best_key cs ?st \<and> (bst_truncated ?st \<longrightarrow> bst_truncated ?mid)"
    using Cons.IH [of "Suc index" "selected @ [index]" "markCandidate c used True" "i64 (score + pc_effectiveUtility c)" ?st]
    by simp
  moreover have "best_key cs (batch_search cs m n h (Suc index) rest selected used score ?mid) \<le> best_key cs ?mid \<and>
      (bst_truncated ?mid \<longrightarrow> bst_truncated (batch_search cs m n h (Suc index) rest selected used score ?mid))"
    by (rule Cons.IH)
  ultimately have "best_key cs (batch_search cs m n h (Suc index) rest selected used score ?mid) \<le> best_key cs st \<and>
      (bst_truncated st \<longrightarrow> bst_truncated (batch_search cs m n h (Suc index) rest selected used score ?mid))"
    using order_trans by fastforce
  then show ?case
    using record_selection_key(1) [of cs selected score ?st]
    unfolding batch_search_Cons by (auto simp: record_selection_def)
qed

text \<open>
  A completion either takes the candidate at the index, and then it was available, or skips it.
\<close>

lemma completion_cases:
  assumes path: "selection_path cs m index (c # rest) selected used"
    and S: "feasible cs m (selected @ S)" "\<forall>i\<in>set S. index \<le> i"
  obtains (Take) T where "S = index # T" "feasible cs m ((selected @ [index]) @ T)" "\<forall>i\<in>set T. Suc index \<le> i"
      "0 < pc_utility c" "candidateAvailable c (fst used) (snd used)" "int (length selected) \<noteq> m"
    | (Skip) "\<forall>i\<in>set S. Suc index \<le> i"
proof (cases "index \<in> set S")
  case True
  have c: "c = cs ! index" using selection_path_Cons [OF path] by simp
  have sorted: "sorted_wrt (<) S" using S(1) by (auto simp: feasible_def sorted_wrt_append)
  obtain i T where iT: "S = i # T" using True by (cases S) auto
  with True sorted S(2) have i: "i = index" by auto
  with iT sorted have "\<forall>j\<in>set T. Suc index \<le> j" by auto
  moreover have "\<forall>j\<in>set selected. compatible (cs ! j) c" "0 < pc_utility c" "int (length selected) \<noteq> m"
    using S(1) iT i c by (auto simp: feasible_def sorted_wrt_append)
  ultimately show thesis using Take [of T] S(1) iT i available_compatible [OF path] by simp
next
  case False
  with S(2) have "\<forall>i\<in>set S. Suc index \<le> i" by (metis le_neq_implies_less Suc_leI)
  then show thesis by (rule Skip)
qed

lemma batch_search_optimal:
  assumes ok: "scores_ok cs m U" and order: "h \<or> by_effective cs" "h \<longleftrightarrow> list_ex (\<lambda>c. pc_priorityDemands c \<noteq> []) cs"
  shows "\<lbrakk>selection_path cs m index rest selected used; score = selection_score cs selected; best_ok cs m st;
     \<not> bst_truncated (batch_search cs m n h index rest selected used score st);
     feasible cs m (selected @ S); \<forall>i\<in>set S. index \<le> i\<rbrakk> \<Longrightarrow>
    best_key cs (batch_search cs m n h index rest selected used score st)
      \<le> selection_key cs (selected @ S) (selection_score cs (selected @ S))"
proof (induction rest arbitrary: index selected used score st S)
  case Nil
  have "S = []" using Nil.prems(1,5,6) by (cases S) (auto simp: selection_path_def feasible_def)
  with Nil show ?case
    using record_selection_key(2) [of cs selected score "st\<lparr>bst_nodes := Suc (bst_nodes st)\<rparr>"]
    by (auto simp: batch_search_Nil split: if_splits)
next
  case (Cons c rest)
  let ?st = "st\<lparr>bst_nodes := Suc (bst_nodes st)\<rparr>"
  have go: "\<not> int (bst_nodes st) \<ge> n" using Cons.prems(4) by (auto simp: batch_search_Cons)
  show ?case
  proof (cases "int (length selected) = m")
    case True
    with Cons.prems(5) have "S = []" by (auto simp: feasible_def)
    with True go show ?thesis using record_selection_key(2) [of cs selected score ?st] Cons.prems(2)
      by (simp add: batch_search_Cons)
  next
    case room: False
    show ?thesis
    proof (cases "prune cs m h (c # rest) selected score ?st")
      case True
      have "best_key cs ?st \<le> selection_key cs (selected @ S) (selection_score cs (selected @ S))"
        using Cons.prems(2,3) True
        by (intro prune_sound [OF ok Cons.prems(1) order _ Cons.prems(5,6)]) simp_all
      with True go room show ?thesis by (simp add: batch_search_Cons)
    next
      case False
      define mid where "mid = (if pc_utility c > 0 \<and> candidateAvailable c (fst used) (snd used)
         then batch_search cs m n h (Suc index) rest (selected @ [index]) (markCandidate c used True)
                (i64 (score + pc_effectiveUtility c)) ?st else ?st)"
      have eq: "batch_search cs m n h index (c # rest) selected used score st =
          batch_search cs m n h (Suc index) rest selected used score mid"
        using go room False by (simp add: batch_search_Cons mid_def)
      note mono = batch_search_mono [of cs m n h "Suc index" rest selected used score mid]
      have score': "i64 (score + pc_effectiveUtility c) = selection_score cs (selected @ [index])"
        using selection_score_take [OF ok Cons.prems(1) room] Cons.prems(2) by simp
      have mid_ok: "best_ok cs m mid"
        using Cons.prems(3) batch_search_ok [OF ok selection_take [OF Cons.prems(1) _ _ room] score']
        by (simp add: mid_def)
      from Cons.prems(1,5,6) show ?thesis
      proof (cases rule: completion_cases)
        case (Take T)
        then have mid: "mid = batch_search cs m n h (Suc index) rest (selected @ [index]) (markCandidate c used True)
            (i64 (score + pc_effectiveUtility c)) ?st" by (simp add: mid_def)
        have "\<not> bst_truncated mid" using mono Cons.prems(4) eq by auto
        then have "best_key cs mid \<le> selection_key cs ((selected @ [index]) @ T) (selection_score cs ((selected @ [index]) @ T))"
          unfolding mid using Cons.prems(3) Take score'
          by (intro Cons.IH [OF selection_take [OF Cons.prems(1) _ _ room]]) simp_all
        with mono eq Take(1) show ?thesis by (auto intro: order_trans)
      next
        case Skip
        then show ?thesis unfolding eq
          using Cons.prems(2,4,5) mid_ok eq by (intro Cons.IH [OF selection_skip [OF Cons.prems(1)]]) simp_all
      qed
    qed
  qed
qed

section \<open>Coverage of the Pareto enumeration\<close>

text \<open>
  The Pareto criterion is not transitive, so no total order describes its result. Its leading
  components are: backfills, oldest priority demand, number of priority demands, proposals, players.
\<close>

definition coverage :: "proposalCandidate list \<Rightarrow> nat list \<Rightarrow> int \<times> int \<times> int \<times> int \<times> int" where
  "coverage cs selected =
     (int (selectedBackfillCount cs selected), fst (selectedPriorityQuality cs selected),
      int (snd (selectedPriorityQuality cs selected)), int (length selected),
      int (sq_matchedPlayers (selectedBatchQuality cs selected)))"

lemma sq_proposalCount_selected [simp]: "sq_proposalCount (selectedBatchQuality cs S) = length S"
proof -
  have "sq_proposalCount (foldl (\<lambda>q i. add_quality q (cs ! i)) q S) = sq_proposalCount q" for q
    by (induction S arbitrary: q) (simp_all add: add_quality_def Let_def)
  then show ?thesis by (simp add: selectedBatchQuality_def Let_def)
qed

lemma lexicographic_chain:
  fixes a a' c c' d d' e e' :: nat and b b' :: int
  defines "chain X \<equiv> (if a \<noteq> a' then a > a' else if b \<noteq> b' then b > b' else if c \<noteq> c' then c > c'
    else if d \<noteq> d' then d > d' else if e \<noteq> e' then e > e' else X)"
  shows "(int a', b', int c', int d', int e') < (int a, b, int c, int d, int e) \<Longrightarrow> chain X"
    "chain X \<Longrightarrow> (int a', b', int c', int d', int e') \<le> (int a, b, int c, int d, int e)"
  unfolding chain_def by (auto split: if_splits)

lemma betterSelection_coverage:
  "coverage cs r < coverage cs l \<Longrightarrow> betterSelection cs l sl r sr True"
  "betterSelection cs l sl r sr True \<Longrightarrow> coverage cs r \<le> coverage cs l"
  unfolding betterSelection_def coverage_def Let_def split_beta if_True sq_proposalCount_selected
  by (erule lexicographic_chain(1), erule lexicographic_chain(2))

lemma record_selection_coverage:
  "coverage cs (bst_bestIndexes st) \<le> coverage cs (bst_bestIndexes (record_selection cs True selected score st))"
  "coverage cs selected \<le> coverage cs (bst_bestIndexes (record_selection cs True selected score st))"
proof -
  let ?better = "betterSelection cs selected score (bst_bestIndexes st) (bst_bestScore st) True"
  have "?better \<Longrightarrow> coverage cs (bst_bestIndexes st) \<le> coverage cs selected"
    "\<not> ?better \<Longrightarrow> coverage cs selected \<le> coverage cs (bst_bestIndexes st)"
    using betterSelection_coverage(1) [of cs "bst_bestIndexes st" selected score "bst_bestScore st"]
      betterSelection_coverage(2) [of cs selected score "bst_bestIndexes st" "bst_bestScore st"] not_less by blast+
  then show "coverage cs (bst_bestIndexes st) \<le> coverage cs (bst_bestIndexes (record_selection cs True selected score st))"
    "coverage cs selected \<le> coverage cs (bst_bestIndexes (record_selection cs True selected score st))"
    by (auto simp: record_selection_def)
qed

lemma record_selection_truncated [simp]:
  "bst_truncated (record_selection cs b selected score st) = bst_truncated st"
  by (simp add: record_selection_def)

lemma pareto_mono:
  "coverage cs (bst_bestIndexes st) \<le> coverage cs (bst_bestIndexes (pareto_search cs m n index rest selected used score st)) \<and>
   (bst_truncated st \<longrightarrow> bst_truncated (pareto_search cs m n index rest selected used score st))"
  "coverage cs (bst_bestIndexes st) \<le> coverage cs (bst_bestIndexes (pareto_loop cs m n index rest selected used score st)) \<and>
   (bst_truncated st \<longrightarrow> bst_truncated (pareto_loop cs m n index rest selected used score st))"
proof (induction cs m n index rest selected used score st and cs m n index rest selected used score st
    rule: pareto_search_pareto_loop.induct)
  case (1 cs m n start rest selected used score st)
  let ?st = "record_selection cs True selected score (st\<lparr>bst_nodes := Suc (bst_nodes st)\<rparr>)"
  have "coverage cs (bst_bestIndexes st) \<le> coverage cs (bst_bestIndexes ?st)"
    using record_selection_coverage(1) [of cs "st\<lparr>bst_nodes := Suc (bst_nodes st)\<rparr>" selected score] by simp
  with 1 show ?case
    by (subst (1 2) pareto_search.simps) (auto simp: Let_def intro: order_trans)
next
  case 2
  then show ?case by simp
next
  case (3 cs m n index c rest selected used score st)
  show ?case
  proof (cases "pc_utility c \<le> 0 \<or> \<not> candidateAvailable c (fst used) (snd used)")
    case True
    with "3.IH"(1) show ?thesis by simp
  next
    case False
    define st' where "st' = pareto_search cs m n (Suc index) rest (selected @ [index])
      (markCandidate c used True) (i64 (score + pc_effectiveUtility c)) st"
    have "coverage cs (bst_bestIndexes st) \<le> coverage cs (bst_bestIndexes st') \<and> (bst_truncated st \<longrightarrow> bst_truncated st')"
      unfolding st'_def by (rule "3.IH"(2) [OF False])
    moreover have "coverage cs (bst_bestIndexes st') \<le> coverage cs (bst_bestIndexes (pareto_loop cs m n (Suc index) rest selected used score st'))"
      if "\<not> bst_truncated st'" using "3.IH"(3) [OF False st'_def that] by simp
    ultimately show ?thesis using False
      by (auto simp: Let_def st'_def [symmetric] intro: order_trans)
  qed
qed

lemma pareto_covers:
  "\<lbrakk>selection_path cs m index rest selected used; feasible cs m (selected @ S); \<forall>i\<in>set S. index \<le> i;
    \<not> bst_truncated (pareto_search cs m n index rest selected used score st)\<rbrakk> \<Longrightarrow>
   coverage cs (selected @ S) \<le> coverage cs (bst_bestIndexes (pareto_search cs m n index rest selected used score st))"
  "\<lbrakk>selection_path cs m index rest selected used; feasible cs m (selected @ S); \<forall>i\<in>set S. index \<le> i;
    \<not> bst_truncated (pareto_loop cs m n index rest selected used score st); int (length selected) \<noteq> m; S \<noteq> []\<rbrakk> \<Longrightarrow>
   coverage cs (selected @ S) \<le> coverage cs (bst_bestIndexes (pareto_loop cs m n index rest selected used score st))"
proof (induction cs m n index rest selected used score st and cs m n index rest selected used score st arbitrary: S and S
    rule: pareto_search_pareto_loop.induct)
  case (1 cs m n start rest selected used score st)
  let ?st = "record_selection cs True selected score (st\<lparr>bst_nodes := Suc (bst_nodes st)\<rparr>)"
  have go: "\<not> int (bst_nodes st) \<ge> n" using "1.prems"(4) by (auto simp: pareto_search.simps)
  then have eq: "pareto_search cs m n start rest selected used score st =
      (if int (length selected) = m then ?st else pareto_loop cs m n start rest selected used score ?st)"
    by (subst pareto_search.simps) (simp add: Let_def)
  show ?case
  proof (cases "S = []")
    case True
    have "coverage cs selected \<le> coverage cs (bst_bestIndexes ?st)" by (rule record_selection_coverage)
    with True show ?thesis unfolding eq
      using pareto_mono(2) [of cs ?st m n start rest selected used score] by (auto intro: order_trans)
  next
    case False
    then have "int (length selected) \<noteq> m" using "1.prems"(2) by (cases S) (auto simp: feasible_def)
    with False go eq show ?thesis using "1.IH" [OF go refl] "1.prems" by simp
  qed
next
  case (2 cs m n index selected used score st)
  then show ?case by (cases S) (auto simp: selection_path_def feasible_def)
next
  case (3 cs m n index c rest selected used score st)
  note skip = selection_skip [OF "3.prems"(1)]
  show ?case
  proof (cases "pc_utility c \<le> 0 \<or> \<not> candidateAvailable c (fst used) (snd used)")
    case True
    from "3.prems"(1-3) show ?thesis
    proof (cases rule: completion_cases)
      case Skip
      with True "3.IH"(1) [OF True skip "3.prems"(2) Skip] "3.prems"(4-6) show ?thesis by simp
    qed (use True in auto)
  next
    case False
    define st' where "st' = pareto_search cs m n (Suc index) rest (selected @ [index])
      (markCandidate c used True) (i64 (score + pc_effectiveUtility c)) st"
    have eq: "pareto_loop cs m n index (c # rest) selected used score st =
        (if bst_truncated st' then st' else pareto_loop cs m n (Suc index) rest selected used score st')"
      using False by (simp add: Let_def st'_def)
    have nt: "\<not> bst_truncated st'" "\<not> bst_truncated (pareto_loop cs m n (Suc index) rest selected used score st')"
      using "3.prems"(4) unfolding eq by (auto split: if_splits)
    from "3.prems"(1-3) show ?thesis
    proof (cases rule: completion_cases)
      case (Take T)
      have "coverage cs ((selected @ [index]) @ T) \<le> coverage cs (bst_bestIndexes st')"
        unfolding st'_def using False Take nt(1)
        by (intro "3.IH"(2) selection_take [OF "3.prems"(1)]) (auto simp: st'_def)
      also have "\<dots> \<le> coverage cs (bst_bestIndexes (pareto_loop cs m n (Suc index) rest selected used score st'))"
        using pareto_mono(2) [of cs st'] by blast
      finally show ?thesis unfolding eq using nt(1) Take(1) by simp
    next
      case Skip
      have "coverage cs (selected @ S) \<le> coverage cs (bst_bestIndexes (pareto_loop cs m n (Suc index) rest selected used score st'))"
        by (rule "3.IH"(3) [OF False st'_def nt(1) skip "3.prems"(2) Skip nt(2) "3.prems"(5,6)])
      then show ?thesis unfolding eq using nt(1) by simp
    qed
  qed
qed

section \<open>The candidates as the planner ranks them\<close>

text \<open>The order of the candidates is that of a key, so sorting does what the comparator says.\<close>

definition order_key :: "proposalCandidate \<Rightarrow> int \<times> int \<times> int \<times> int \<times> string" where
  "order_key c = (if pc_kind c = ProposalBackfill then 0 else 1, - oldest_of (pc_priorityDemands c),
     - int (length (pc_priorityDemands c)), - pc_effectiveUtility c, pc_key c)"

abbreviation known_kind :: "proposalCandidate \<Rightarrow> bool" where
  "known_kind c \<equiv> pc_kind c = ProposalNewMatch \<or> pc_kind c = ProposalBackfill"

lemma compare_ordered_le:
  "known_kind l \<Longrightarrow> known_kind r \<Longrightarrow> compare_ordered l r \<le> 0 \<longleftrightarrow> order_key l \<le> order_key r"
  by (auto simp: compare_ordered_def order_key_def compare_kind_def comparePriorityDemands_def)

lemma compare_ordered_less:
  "known_kind l \<Longrightarrow> known_kind r \<Longrightarrow> compare_ordered l r < 0 \<longleftrightarrow> order_key l < order_key r"
  "known_kind l \<Longrightarrow> known_kind r \<Longrightarrow> 0 < compare_ordered l r \<longleftrightarrow> order_key r < order_key l"
  by (auto simp: compare_ordered_def order_key_def compare_kind_def comparePriorityDemands_def)

interpretation candidate_order: keyed_cmp known_kind compare_ordered order_key
proof unfold_locales
  fix x y z
  assume "known_kind x" "known_kind y" "known_kind z" "compare_ordered x y \<le> 0" "compare_ordered y z \<le> 0"
  then show "compare_ordered x z \<le> 0" using order_trans by (auto simp: compare_ordered_le)
next
  fix x y
  assume "known_kind x" "known_kind y" "compare_ordered x y = 0"
  then show "order_key x = order_key y" using compare_ordered_le [of x y] compare_ordered_less(1) [of x y] by auto
qed (simp add: compare_ordered_less)

lemma maximum_utility_ge:
  "c \<in> set cs \<Longrightarrow> pc_utility c \<le> maximum_utility cs" "0 \<le> maximum_utility cs"
proof -
  have mono: "a \<le> foldl (\<lambda>maximum c. if pc_utility c > maximum then pc_utility c else maximum) a xs" for a xs
    by (induction xs arbitrary: a) (auto intro: order_trans [OF less_imp_le])
  have "c \<in> set xs \<Longrightarrow> pc_utility c \<le> foldl (\<lambda>maximum c. if pc_utility c > maximum then pc_utility c else maximum) a xs" for a xs
  proof (induction xs arbitrary: a)
    case (Cons x xs)
    have "pc_utility x \<le> foldl (\<lambda>maximum c. if pc_utility c > maximum then pc_utility c else maximum)
        (if pc_utility x > a then pc_utility x else a) xs"
      by (rule order_trans [OF _ mono]) simp
    with Cons show ?case by auto
  qed simp
  then show "c \<in> set cs \<Longrightarrow> pc_utility c \<le> maximum_utility cs" by (simp add: maximum_utility_def)
  show "0 \<le> maximum_utility cs" unfolding maximum_utility_def by (rule mono)
qed

text \<open>What the selector is given: known kinds, and utilities whose sums stay in range.\<close>

definition rankable :: "proposalCandidate list \<Rightarrow> int \<Rightarrow> bool" where
  "rankable cs m \<longleftrightarrow> 0 < m \<and> (\<forall>c\<in>set cs. known_kind c \<and> 0 \<le> pc_utility c) \<and>
     m * (maximum_utility cs + (m * maximum_utility cs + 1)) < 2 ^ 63"

lemma rankable_bonus:
  assumes "rankable cs m"
  shows "i64 (i64 (m * maximum_utility cs) + 1) = m * maximum_utility cs + 1"
    "c \<in> set cs \<Longrightarrow> i64 (pc_utility c + (m * maximum_utility cs + 1)) = pc_utility c + (m * maximum_utility cs + 1)"
proof -
  let ?U = "maximum_utility cs"
  have U: "0 \<le> ?U" by (rule maximum_utility_ge)
  have "1 * (?U + (m * ?U + 1)) \<le> m * (?U + (m * ?U + 1))"
    using assms U by (intro mult_right_mono) (auto simp: rankable_def)
  also have "\<dots> < 2 ^ 63" using assms by (simp add: rankable_def)
  finally have sum: "?U + (m * ?U + 1) < 2 ^ 63" by simp
  have mU: "0 \<le> m * ?U" using assms U by (simp add: rankable_def)
  then have "i64 (m * ?U) = m * ?U" "i64 (m * ?U + 1) = m * ?U + 1" using sum U by (auto intro!: i64_small)
  then show "i64 (i64 (m * ?U) + 1) = m * ?U + 1" by simp
  assume "c \<in> set cs"
  with assms have "0 \<le> pc_utility c" "pc_utility c \<le> ?U" by (auto simp: rankable_def maximum_utility_ge)
  with mU sum show "i64 (pc_utility c + (m * ?U + 1)) = pc_utility c + (m * ?U + 1)" by (intro i64_small) auto
qed

lemma order_candidates_ok:
  assumes "rankable cs m"
  shows "scores_ok (order_candidates cs m) m (maximum_utility cs)"
proof -
  have "\<forall>c\<in>set (order_candidates cs m). 0 \<le> pc_utility c \<and> pc_utility c \<le> maximum_utility cs \<and>
      pc_effectiveUtility c = pc_utility c + (if pc_kind c = ProposalBackfill then m * maximum_utility cs + 1 else 0)"
    using assms rankable_bonus [OF assms]
    by (auto simp: order_candidates_def Let_def rankable_def maximum_utility_ge)
  then show ?thesis using assms by (simp add: scores_ok_def rankable_def maximum_utility_ge)
qed

lemma order_candidates_sorted:
  assumes "rankable cs m"
  shows "sorted_cmp compare_ordered (order_candidates cs m)" "\<forall>c\<in>set (order_candidates cs m). known_kind c"
proof -
  show "sorted_cmp compare_ordered (order_candidates cs m)"
    unfolding order_candidates_def Let_def
    by (rule candidate_order.sorted_sort) (use assms in \<open>auto simp: rankable_def\<close>)
  show "\<forall>c\<in>set (order_candidates cs m). known_kind c"
    using assms by (auto simp: order_candidates_def Let_def rankable_def)
qed

lemma order_candidates_effective:
  assumes "rankable cs m" "\<not> list_ex (\<lambda>c. pc_priorityDemands c \<noteq> []) (order_candidates cs m)"
  shows "by_effective (order_candidates cs m)"
proof (rule sorted_wrt_mono_rel [OF _ order_candidates_sorted(1) [OF assms(1)]])
  fix c d
  assume cd: "c \<in> set (order_candidates cs m)" "d \<in> set (order_candidates cs m)" "compare_ordered c d \<le> 0"
  then have "order_key c \<le> order_key d"
    using order_candidates_sorted(2) [OF assms(1)] compare_ordered_le by blast
  moreover have "pc_priorityDemands c = []" "pc_priorityDemands d = []" using assms(2) cd by (auto simp: list_ex_iff)
  moreover have "0 \<le> pc_utility c" "pc_utility d \<le> maximum_utility cs" "0 \<le> m * maximum_utility cs"
    "pc_effectiveUtility c = pc_utility c + (if pc_kind c = ProposalBackfill then m * maximum_utility cs + 1 else 0)"
    "pc_effectiveUtility d = pc_utility d + (if pc_kind d = ProposalBackfill then m * maximum_utility cs + 1 else 0)"
    using order_candidates_ok [OF assms(1)] cd(1,2) by (auto simp: scores_ok_def)
  moreover have "maximum_utility cs \<le> m * maximum_utility cs"
    using assms(1) maximum_utility_ge(2) [of cs] by (simp add: rankable_def mult_le_cancel_right1)
  ultimately show "pc_effectiveUtility d \<le> pc_effectiveUtility c"
    by (auto simp: order_key_def oldest_of_def split: if_splits)
qed

lemma materializeBatchSelection_sel [simp]:
  "bs_candidates (materializeBatchSelection cs S n b) = sort_cmp compare_selected (map (\<lambda>i. cs ! i) S)"
  "bs_truncated (materializeBatchSelection cs S n b) = b"
  by (simp_all add: materializeBatchSelection_def Let_def)

lemma start_ok: "scores_ok cs m U \<Longrightarrow> best_ok cs m (start_selection cs m)"
  using greedy_score [of cs m U 0 cs "[]" "([], [])" 0] selection_root [of m cs] start_feasible [of m cs]
  by (simp add: best_ok_def greedySelection_def selection_score_def scores_ok_def)

section \<open>Properties\<close>

definition ex_candidate :: "string \<Rightarrow> MatchTicket list \<Rightarrow> int \<Rightarrow> proposalCandidate" where
  "ex_candidate key tickets utility = \<lparr>pc_placement = [tickets], pc_evaluation = Evaluation_zero, pc_priorityDemands = [],
     pc_kind = ProposalNewMatch, pc_backfill = None, pc_key = key, pc_utility = utility, pc_effectiveUtility = 0\<rparr>"

definition ex_candidates :: "proposalCandidate list" where
  "ex_candidates =
     [ex_candidate ''ab'' [ex_solo ''a'' 1 1 [], ex_solo ''b'' 1 1 []] 10,
      ex_candidate ''a'' [ex_solo ''a'' 1 1 []] 6, ex_candidate ''b'' [ex_solo ''b'' 1 1 []] 6]"

text \<open>
  C2. The selected candidates are pairwise disjoint: no two place the same ticket and no two fill the
  same backfill ticket. There are at most as many as the limit allows, each has a positive utility,
  and they are among the candidates, none taken twice. This holds for both selectors and for every
  node budget.
\<close>

theorem selectProposalBatch_disjoint:
  "sorted_wrt compatible (bs_candidates (selectProposalBatch candidates maxProposals maxNodes preferPareto)) \<and>
   int (length (bs_candidates (selectProposalBatch candidates maxProposals maxNodes preferPareto))) \<le> max 0 maxProposals \<and>
   (\<forall>c\<in>set (bs_candidates (selectProposalBatch candidates maxProposals maxNodes preferPareto)). 0 < pc_utility c) \<and>
   image_mset candidate_core (mset (bs_candidates (selectProposalBatch candidates maxProposals maxNodes preferPareto)))
     \<subseteq># image_mset candidate_core (mset candidates)"
  by (rule selectProposalBatch_ok)

theorem selectProposalBatch_disjoint_witness:
  "bs_candidates (selectProposalBatch ex_candidates 2 100 False) \<noteq> [] \<and>
   sorted_wrt compatible (bs_candidates (selectProposalBatch ex_candidates 2 100 False))"
proof -
  have "bs_candidates (selectProposalBatch ex_candidates 2 100 False) \<noteq> []" by code_simp
  with selectProposalBatch_disjoint [of ex_candidates 2 100 False] show ?thesis by simp
qed

text \<open>
  C3. Branch and bound is exact. When the node budget was not used up, no feasible selection of the
  ordered candidates is better than the one returned, in the order of \<open>betterSelection\<close>: backfills,
  oldest and number of priority demands, total effective utility, number of proposals, key. The
  hypothesis \<open>rankable\<close> asks that the sums of utilities fit in 64 bits.
\<close>

theorem selectProposalBatch_optimal:
  assumes "rankable candidates maxProposals" "candidates \<noteq> []"
    "\<not> bs_truncated (selectProposalBatch candidates maxProposals maxNodes False)"
    "ordered = order_candidates candidates maxProposals"
  shows "\<exists>best. feasible ordered maxProposals best \<and>
    bs_candidates (selectProposalBatch candidates maxProposals maxNodes False) =
      sort_cmp compare_selected (map (\<lambda>i. ordered ! i) best) \<and>
    (\<forall>S. feasible ordered maxProposals S \<longrightarrow>
       \<not> betterSelection ordered S (selection_score ordered S) best (selection_score ordered best) False)"
proof -
  let ?h = "list_ex (\<lambda>c. pc_priorityDemands c \<noteq> []) ordered"
  let ?st = "selection_state ordered maxProposals maxNodes False"
  have m: "0 < maxProposals" using assms(1) by (simp add: rankable_def)
  have ok: "scores_ok ordered maxProposals (maximum_utility candidates)"
    unfolding assms(4) by (rule order_candidates_ok [OF assms(1)])
  have root: "selection_path ordered maxProposals 0 ordered [] ([], [])" using m by (simp add: selection_root)
  have best: "best_ok ordered maxProposals ?st"
    unfolding selection_state_def using start_ok [OF ok]
    by (simp add: batch_search_ok [OF ok root] selection_score_def)
  have eff: "?h \<or> by_effective ordered"
    using order_candidates_effective [OF assms(1)] unfolding assms(4) by blast
  have sel: "selectProposalBatch candidates maxProposals maxNodes False =
      materializeBatchSelection ordered (bst_bestIndexes ?st) (bst_nodes ?st) (bst_truncated ?st)"
    using m assms(2,4) by (simp add: selectProposalBatch_conv Let_def)
  have "best_key ordered ?st \<le> selection_key ordered ([] @ S) (selection_score ordered ([] @ S))"
    if "feasible ordered maxProposals S" for S
    using assms(3) that unfolding sel selection_state_def if_False
    by (intro batch_search_optimal [OF ok eff refl root _ start_ok [OF ok]])
       (simp_all add: selection_score_def)
  then show ?thesis
    using best sel unfolding best_ok_def betterSelection_iff
    by (intro exI [of _ "bst_bestIndexes ?st"]) (auto simp: not_less)
qed

theorem selectProposalBatch_optimal_witness:
  "\<exists>best. feasible (order_candidates ex_candidates 2) 2 best \<and>
    bs_candidates (selectProposalBatch ex_candidates 2 100 False) =
      sort_cmp compare_selected (map (\<lambda>i. order_candidates ex_candidates 2 ! i) best) \<and>
    \<not> betterSelection (order_candidates ex_candidates 2) [0]
       (selection_score (order_candidates ex_candidates 2) [0]) best (selection_score (order_candidates ex_candidates 2) best) False"
proof -
  have r: "rankable ex_candidates 2" by code_simp
  have n: "ex_candidates \<noteq> []" by code_simp
  have t: "\<not> bs_truncated (selectProposalBatch ex_candidates 2 100 False)" by code_simp
  have f: "feasible (order_candidates ex_candidates 2) 2 [0]" by code_simp
  from selectProposalBatch_optimal [OF r n t refl] f show ?thesis by blast
qed

text \<open>
  The Pareto selector maximises coverage. When the node budget was not used up, no feasible
  selection serves more backfills, then an older priority demand, then more priority demands, then
  more proposals, then more players than the one returned.
\<close>

theorem selectProposalBatch_coverage:
  assumes "0 < maxProposals" "candidates \<noteq> []"
    "\<not> bs_truncated (selectProposalBatch candidates maxProposals maxNodes True)"
    "ordered = order_candidates candidates maxProposals"
  shows "\<exists>best. feasible ordered maxProposals best \<and>
    bs_candidates (selectProposalBatch candidates maxProposals maxNodes True) =
      sort_cmp compare_selected (map (\<lambda>i. ordered ! i) best) \<and>
    (\<forall>S. feasible ordered maxProposals S \<longrightarrow> coverage ordered S \<le> coverage ordered best)"
proof -
  let ?st = "selection_state ordered maxProposals maxNodes True"
  have root: "selection_path ordered maxProposals 0 ordered [] ([], [])" using assms(1) by (simp add: selection_root)
  have sel: "selectProposalBatch candidates maxProposals maxNodes True =
      materializeBatchSelection ordered (bst_bestIndexes ?st) (bst_nodes ?st) (bst_truncated ?st)"
    using assms(1,2,4) by (simp add: selectProposalBatch_conv Let_def)
  have "coverage ordered ([] @ S) \<le> coverage ordered (bst_bestIndexes ?st)" if "feasible ordered maxProposals S" for S
    using assms(3) that unfolding sel selection_state_def if_True
    by (intro pareto_covers(1) [OF root]) simp_all
  moreover have "feasible ordered maxProposals (bst_bestIndexes ?st)"
    using assms(1) by (intro selection_state_feasible) simp
  ultimately show ?thesis using sel
    by (intro exI [of _ "bst_bestIndexes ?st"]) auto
qed

theorem selectProposalBatch_coverage_witness:
  "\<exists>best. feasible (order_candidates ex_candidates 2) 2 best \<and>
    bs_candidates (selectProposalBatch ex_candidates 2 100 True) =
      sort_cmp compare_selected (map (\<lambda>i. order_candidates ex_candidates 2 ! i) best) \<and>
    coverage (order_candidates ex_candidates 2) [0] \<le> coverage (order_candidates ex_candidates 2) best"
proof -
  have n: "ex_candidates \<noteq> []" by code_simp
  have t: "\<not> bs_truncated (selectProposalBatch ex_candidates 2 100 True)" by code_simp
  have f: "feasible (order_candidates ex_candidates 2) 2 [0]" by code_simp
  from selectProposalBatch_coverage [OF _ n t refl] f show ?thesis by auto
qed

end
