(* ===== verification/Discovery.thy ===== *)
theory Discovery
  imports Queue_Order Examples "HOL-Library.Product_Lexorder"
begin

text \<open>
  Candidate windows, \<open>src/internal/discovery\<close>. \<open>SelectWindow\<close> scans the queue; the index of
  \<open>index.go\<close> answers the same question from cached positions, or, for queues with more than sixteen
  party sizes, by merging its partitions with a heap. \<open>Index_SelectWindow_eq\<close> is the equality of
  both on every canonical queue.

  \<open>sort.Search\<close> is the binary search of the standard library. \<open>heap.Pop\<close> is taken by its contract:
  it removes and returns a least element; the heap is the list of its elements.
\<close>

unbundle bit_operations_syntax

section \<open>The linear scan\<close>

record Window =
  win_Tickets :: "MatchTicket list"
  win_Truncated :: bool

abbreviation party_size :: "MatchTicket \<Rightarrow> int" where
  "party_size t \<equiv> int (length (mt_Players t))"

definition max_party_size :: "int list \<Rightarrow> int" where
  "max_party_size slots = foldl max 0 slots"

fun window_scan :: "int \<Rightarrow> int \<Rightarrow> MatchTicket list \<Rightarrow> MatchTicket list \<Rightarrow> Window" where
  "window_scan maxPartySize limit selected [] = \<lparr>win_Tickets = selected, win_Truncated = False\<rparr>"
| "window_scan maxPartySize limit selected (ticket # rest) =
     (if party_size ticket > maxPartySize then window_scan maxPartySize limit selected rest
      else if int (length selected) = limit then \<lparr>win_Tickets = selected, win_Truncated = True\<rparr>
      else window_scan maxPartySize limit (selected @ [ticket]) rest)"

definition SelectWindow :: "MatchTicket list \<Rightarrow> int list \<Rightarrow> int \<Rightarrow> Window" where
  "SelectWindow tickets slots limit =
     (if limit \<le> 0 then \<lparr>win_Tickets = tickets, win_Truncated = False\<rparr>
      else window_scan (max_party_size slots) limit [] tickets)"

definition fitting :: "int \<Rightarrow> MatchTicket list \<Rightarrow> MatchTicket list" where
  "fitting maxPartySize tickets = filter (\<lambda>t. party_size t \<le> maxPartySize) tickets"

text \<open>The window in one equation: the oldest fitting tickets, as many as the limit allows.\<close>

lemma window_scan_conv:
  assumes "int (length selected) \<le> limit"
  shows "window_scan n limit selected ts =
     \<lparr>win_Tickets = selected @ take (nat limit - length selected) (fitting n ts),
      win_Truncated = length selected + length (fitting n ts) > nat limit\<rparr>"
  using assms
proof (induction ts arbitrary: selected)
  case Nil
  then show ?case by (simp add: fitting_def)
next
  case (Cons t ts)
  show ?case
  proof (cases "party_size t > n")
    case True
    with Cons show ?thesis by (simp add: fitting_def)
  next
    case fits: False
    show ?thesis
    proof (cases "int (length selected) = limit")
      case True
      with fits show ?thesis by (auto simp: fitting_def)
    next
      case False
      with Cons.prems have "int (length (selected @ [t])) \<le> limit" by simp
      moreover have "nat limit - length selected = Suc (nat limit - length (selected @ [t]))"
        using False Cons.prems by simp
      ultimately show ?thesis using fits False Cons.IH [of "selected @ [t]"]
        by (simp add: fitting_def)
    qed
  qed
qed

lemma SelectWindow_conv:
  "SelectWindow ts slots limit =
     (if limit \<le> 0 then \<lparr>win_Tickets = ts, win_Truncated = False\<rparr>
      else \<lparr>win_Tickets = take (nat limit) (fitting (max_party_size slots) ts),
            win_Truncated = length (fitting (max_party_size slots) ts) > nat limit\<rparr>)"
  by (simp add: SelectWindow_def window_scan_conv)

section \<open>The index\<close>

datatype PartitionKey = PartitionKey
  (pk_PartySize: int) (pk_SkillBand: int) (pk_RoleProfile: "64 word") (pk_LatencyBand: int)

definition stableRoleHash :: "string \<Rightarrow> 64 word" where
  "stableRoleHash role =
     foldl (\<lambda>hash c. (hash XOR of_nat (of_char c)) * 1099511628211) 14695981039346656037 role"

definition skillBandWidth :: int where
  "skillBandWidth = 100"

definition latencyBandWidth :: int where
  "latencyBandWidth = 25"

definition partitionKey :: "MatchTicket \<Rightarrow> PartitionKey" where
  "partitionKey ticket =
     (let (skill, latency, profile) =
            foldl (\<lambda>(skill, latency, profile) player.
                (i64 (skill + player_Skill player), max latency (player_LatencyMillis player),
                 profile + stableRoleHash (player_Role player))) (0, 0, 0) (mt_Players ticket);
          averageSkill = (if mt_Players ticket \<noteq> [] then go_div skill (party_size ticket) else 0)
      in PartitionKey (party_size ticket) (go_div averageSkill skillBandWidth) profile
           (go_div latency latencyBandWidth))"

definition comparePartitionKey :: "PartitionKey \<Rightarrow> PartitionKey \<Rightarrow> int" where
  "comparePartitionKey l r =
     cmp_then (go_cmp (pk_PartySize l) (pk_PartySize r))
       (cmp_then (go_cmp (pk_SkillBand l) (pk_SkillBand r))
         (cmp_then (go_cmp (pk_RoleProfile l) (pk_RoleProfile r))
           (go_cmp (pk_LatencyBand l) (pk_LatencyBand r))))"

interpretation partition_order: keyed_cmp "\<lambda>_. True" comparePartitionKey "\<lambda>k. k"
  by unfold_locales (auto simp: comparePartitionKey_def intro: PartitionKey.expand)

record Index =
  idx_tickets :: "MatchTicket list"
  idx_partitions :: "(PartitionKey \<times> MatchTicket list) list"
  idx_partyThresholds :: "int list"
  idx_fittingByPartyMax :: "(int \<times> nat list) list"

definition group_append ::
  "(PartitionKey \<times> MatchTicket list) list \<Rightarrow> MatchTicket \<Rightarrow> (PartitionKey \<times> MatchTicket list) list" where
  "group_append grouped ticket =
     (let key = partitionKey ticket;
          old = (case map_of grouped key of None \<Rightarrow> [] | Some ts \<Rightarrow> ts)
      in AList.update key (old @ [ticket]) grouped)"

fun fitting_positions :: "int \<Rightarrow> nat \<Rightarrow> MatchTicket list \<Rightarrow> nat list" where
  "fitting_positions threshold index [] = []"
| "fitting_positions threshold index (ticket # rest) =
     (if party_size ticket \<le> threshold then index # fitting_positions threshold (Suc index) rest
      else fitting_positions threshold (Suc index) rest)"

definition BuildIndex :: "MatchTicket list \<Rightarrow> Index" where
  "BuildIndex tickets =
     (let grouped = foldl group_append [] tickets;
          partySizes = remdups (map (\<lambda>t. pk_PartySize (partitionKey t)) tickets);
          keys = sort_cmp comparePartitionKey (map fst grouped);
          partitions = map (\<lambda>key. (key, the (map_of grouped key))) keys;
          index = \<lparr>idx_tickets = tickets, idx_partitions = partitions, idx_partyThresholds = [],
                   idx_fittingByPartyMax = []\<rparr>
      in if length partySizes \<le> 16
         then index\<lparr>idx_partyThresholds := sort_cmp go_cmp partySizes,
                    idx_fittingByPartyMax :=
                      map (\<lambda>threshold. (threshold, fitting_positions threshold 0 tickets))
                        (sort_cmp go_cmp partySizes)\<rparr>
         else index)"

definition Index_Stats :: "Index \<Rightarrow> nat \<times> nat" where
  "Index_Stats index = (length (idx_tickets index), length (idx_partitions index))"

text \<open>\<open>sort.Search(n, f)\<close>: the loop halves \<open>[i, j)\<close> until it is empty.\<close>

function sort_Search_loop :: "(nat \<Rightarrow> bool) \<Rightarrow> nat \<Rightarrow> nat \<Rightarrow> nat" where
  "sort_Search_loop f i j =
     (if i < j
      then let h = (i + j) div 2
           in if \<not> f h then sort_Search_loop f (Suc h) j else sort_Search_loop f i h
      else i)"
  by pat_completeness auto
termination by (relation "measure (\<lambda>(f, i, j). j - i)") (auto simp: Let_def)

declare sort_Search_loop.simps [simp del]

definition sort_Search :: "nat \<Rightarrow> (nat \<Rightarrow> bool) \<Rightarrow> nat" where
  "sort_Search n f = sort_Search_loop f 0 n"

record partitionCursor =
  cur_partition :: nat
  cur_ticket :: nat
  cur_value :: MatchTicket

definition cursor_Less :: "partitionCursor \<Rightarrow> partitionCursor \<Rightarrow> bool" where
  "cursor_Less l r =
     (if mt_EnqueuedAt (cur_value l) \<noteq> mt_EnqueuedAt (cur_value r)
      then mt_EnqueuedAt (cur_value l) < mt_EnqueuedAt (cur_value r)
      else if mt_ID (cur_value l) \<noteq> mt_ID (cur_value r) then mt_ID (cur_value l) < mt_ID (cur_value r)
      else mt_Revision (cur_value l) < mt_Revision (cur_value r))"

fun heap_least :: "partitionCursor \<Rightarrow> partitionCursor list \<Rightarrow> partitionCursor" where
  "heap_least c [] = c"
| "heap_least c (d # ds) = heap_least (if cursor_Less d c then d else c) ds"

text \<open>The merge loop. Its counter is the room left below the limit.\<close>

fun merge_partitions ::
  "(PartitionKey \<times> MatchTicket list) list \<Rightarrow> nat \<Rightarrow> partitionCursor list \<Rightarrow> MatchTicket list \<Rightarrow> Window" where
  "merge_partitions partitions room [] selected = \<lparr>win_Tickets = selected, win_Truncated = False\<rparr>"
| "merge_partitions partitions 0 (c # cs) selected = \<lparr>win_Tickets = selected, win_Truncated = True\<rparr>"
| "merge_partitions partitions (Suc room) (c # cs) selected =
     (let cursor = heap_least c cs;
          rest = remove1 cursor (c # cs);
          tickets = snd (partitions ! cur_partition cursor);
          next = Suc (cur_ticket cursor)
      in merge_partitions partitions room
           (if next < length tickets
            then rest @ [cursor\<lparr>cur_ticket := next, cur_value := tickets ! next\<rparr>] else rest)
           (selected @ [cur_value cursor]))"

definition initial_cursors :: "int \<Rightarrow> (PartitionKey \<times> MatchTicket list) list \<Rightarrow> partitionCursor list" where
  "initial_cursors maxPartySize partitions =
     map (\<lambda>(i, p). \<lparr>cur_partition = i, cur_ticket = 0, cur_value = hd (snd p)\<rparr>)
       (filter (\<lambda>(i, p). pk_PartySize (fst p) \<le> maxPartySize \<and> snd p \<noteq> []) (enumerate 0 partitions))"

definition Index_SelectWindow :: "Index \<Rightarrow> int list \<Rightarrow> int \<Rightarrow> Window" where
  "Index_SelectWindow index slots limit =
     (if limit \<le> 0 then \<lparr>win_Tickets = idx_tickets index, win_Truncated = False\<rparr>
      else let maxPartySize = max_party_size slots; thresholds = idx_partyThresholds index
           in if thresholds \<noteq> []
              then let found = sort_Search (length thresholds) (\<lambda>position. thresholds ! position > maxPartySize)
                   in if found = 0 then \<lparr>win_Tickets = [], win_Truncated = False\<rparr>
                      else let positions = the (map_of (idx_fittingByPartyMax index) (thresholds ! (found - 1)));
                               count = min (nat limit) (length positions)
                           in \<lparr>win_Tickets = map (\<lambda>i. idx_tickets index ! i) (take count positions),
                               win_Truncated = int (length positions) > limit\<rparr>
              else merge_partitions (idx_partitions index) (nat limit)
                     (initial_cursors maxPartySize (idx_partitions index)) [])"

section \<open>The cached positions\<close>

lemma sort_Search_loop_spec:
  "\<lbrakk>\<forall>a b. a \<le> b \<and> b < n \<and> f a \<longrightarrow> f b; i \<le> j; j \<le> n; \<forall>k<i. \<not> f k; \<forall>k. j \<le> k \<and> k < n \<longrightarrow> f k\<rbrakk> \<Longrightarrow>
   sort_Search_loop f i j \<le> n \<and> (\<forall>k < sort_Search_loop f i j. \<not> f k) \<and>
   (\<forall>k. sort_Search_loop f i j \<le> k \<and> k < n \<longrightarrow> f k)"
proof (induction f i j rule: sort_Search_loop.induct)
  case (1 f i j)
  show ?case
  proof (cases "i < j")
    case False
    then have "sort_Search_loop f i j = i" by (subst sort_Search_loop.simps) simp
    with False "1.prems" show ?thesis by auto
  next
    case True
    define h where "h = (i + j) div 2"
    have h: "i \<le> h" "h < j" using True by (auto simp: h_def)
    show ?thesis
    proof (cases "f h")
      case up: True
      have "\<forall>k. h \<le> k \<and> k < n \<longrightarrow> f k" using up "1.prems"(1) by blast
      moreover have "sort_Search_loop f i j = sort_Search_loop f i h"
        using True up by (subst sort_Search_loop.simps) (simp add: Let_def flip: h_def)
      moreover have "i \<le> h" "h \<le> n" using h "1.prems"(3) by auto
      ultimately show ?thesis using "1.IH"(2) [OF True h_def _ "1.prems"(1)] up "1.prems"(4) by metis
    next
      case down: False
      have "h < n" using h "1.prems"(3) by simp
      with down "1.prems"(1) have "\<forall>k < Suc h. \<not> f k" unfolding less_Suc_eq_le by blast
      moreover have "sort_Search_loop f i j = sort_Search_loop f (Suc h) j"
        using True down by (subst sort_Search_loop.simps) (simp add: Let_def flip: h_def)
      moreover have "Suc h \<le> j" using h by simp
      ultimately show ?thesis using "1.IH"(1) [OF True h_def down "1.prems"(1)] "1.prems"(3,5) by metis
    qed
  qed
qed

lemma sort_Search_spec:
  assumes "\<forall>a b. a \<le> b \<and> b < n \<and> f a \<longrightarrow> f b"
  shows "sort_Search n f \<le> n" "k < sort_Search n f \<Longrightarrow> \<not> f k" "sort_Search n f \<le> k \<Longrightarrow> k < n \<Longrightarrow> f k"
proof -
  have "sort_Search n f \<le> n \<and> (\<forall>k < sort_Search n f. \<not> f k) \<and> (\<forall>k. sort_Search n f \<le> k \<and> k < n \<longrightarrow> f k)"
    unfolding sort_Search_def by (rule sort_Search_loop_spec [OF assms]) auto
  then show "sort_Search n f \<le> n" "k < sort_Search n f \<Longrightarrow> \<not> f k" "sort_Search n f \<le> k \<Longrightarrow> k < n \<Longrightarrow> f k"
    by blast+
qed

lemma fitting_positions_ge: "i \<in> set (fitting_positions T index ts) \<Longrightarrow> index \<le> i"
  by (induction ts arbitrary: index) (auto split: if_splits dest!: Suc_leD)

lemma fitting_positions_fitting:
  "map ((!) (pre @ ts)) (fitting_positions T (length pre) ts) = fitting T ts"
proof (induction ts arbitrary: pre)
  case Nil
  then show ?case by (simp add: fitting_def)
next
  case (Cons t ts)
  from Cons [of "pre @ [t]"] show ?case by (simp add: fitting_def)
qed

lemma length_fitting_positions: "length (fitting_positions T index ts) = length (fitting T ts)"
  by (induction ts arbitrary: index) (auto simp: fitting_def)

lemma pk_PartySize_partitionKey [simp]: "pk_PartySize (partitionKey t) = party_size t"
  by (simp add: partitionKey_def split: prod.splits)

text \<open>The cached list of the largest threshold within the bound holds exactly the fitting tickets.\<close>

lemma fitting_threshold:
  assumes "\<forall>t\<in>set ts. party_size t \<in> set thresholds" "sorted thresholds"
    "found = sort_Search (length thresholds) (\<lambda>p. thresholds ! p > n)"
  shows "found = 0 \<Longrightarrow> fitting n ts = []"
    "found \<noteq> 0 \<Longrightarrow> fitting n ts = fitting (thresholds ! (found - 1)) ts"
    "found \<noteq> 0 \<Longrightarrow> thresholds ! (found - 1) \<in> set thresholds"
proof -
  have mono: "\<forall>a b. a \<le> b \<and> b < length thresholds \<and> thresholds ! a > n \<longrightarrow> thresholds ! b > n"
    using assms(2) by (metis le_less_trans linorder_not_le order.trans sorted_nth_mono)
  note spec = sort_Search_spec [OF mono, folded assms(3)]
  show "fitting n ts = []" if "found = 0"
    using assms(1) spec(3) that by (force simp: fitting_def filter_empty_conv in_set_conv_nth)
  assume "found \<noteq> 0"
  then have below: "found - 1 < length thresholds" "thresholds ! (found - 1) \<le> n"
    using spec(1) spec(2) [of "found - 1"] by auto
  then show "thresholds ! (found - 1) \<in> set thresholds" by simp
  have "party_size t \<le> n \<longleftrightarrow> party_size t \<le> thresholds ! (found - 1)" if "t \<in> set ts" for t
  proof
    assume fits: "party_size t \<le> n"
    from assms(1) that obtain k where k: "k < length thresholds" "party_size t = thresholds ! k"
      by (metis in_set_conv_nth)
    with fits spec(3) [of k] have "k \<le> found - 1" by force
    with k below assms(2) show "party_size t \<le> thresholds ! (found - 1)"
      by (simp add: sorted_nth_mono)
  qed (use below in simp)
  then show "fitting n ts = fitting (thresholds ! (found - 1)) ts"
    by (simp add: fitting_def cong: filter_cong)
qed

section \<open>The merge of the partitions\<close>

lemma grouped_map_of:
  "map_of (foldl group_append [] ts) k =
     (if k \<in> partitionKey ` set ts then Some (filter (\<lambda>t. partitionKey t = k) ts) else None)"
proof (induction ts rule: rev_induct)
  case (snoc t ts)
  have "filter (\<lambda>u. partitionKey u = partitionKey t) ts = []" if "partitionKey t \<notin> partitionKey ` set ts"
    using that by (auto simp: filter_empty_conv) (metis imageI)
  with snoc show ?case by (auto simp: group_append_def Let_def update_conv')
qed simp

lemma grouped_distinct: "distinct (map fst (foldl group_append [] ts))"
  by (induction ts rule: rev_induct) (auto simp: group_append_def Let_def distinct_update)

lemma grouped_keys: "set (map fst (foldl group_append [] ts)) = partitionKey ` set ts"
proof -
  have "set (map fst (foldl group_append [] ts)) = dom (map_of (foldl group_append [] ts))"
    by (simp add: dom_map_of_conv_image_fst)
  also have "\<dots> = partitionKey ` set ts" by (auto simp: grouped_map_of dom_def split: if_splits)
  finally show ?thesis .
qed

lemma mset_filter_groups:
  "distinct ks \<Longrightarrow> mset (concat (map (\<lambda>k. filter (\<lambda>t. f t = k) ts) ks)) = mset (filter (\<lambda>t. f t \<in> set ks) ts)"
proof (induction ks)
  case Nil
  then show ?case by simp
next
  case (Cons k ks)
  have "mset (filter (\<lambda>t. f t = k \<or> f t \<in> set ks) ts) =
    mset (filter (\<lambda>t. f t = k) ts) + mset (filter (\<lambda>t. f t \<in> set ks) ts)"
    using Cons.prems by (induction ts) auto
  with Cons show ?case by simp
qed

lemma cursor_Less_compare:
  "cursor_Less d c \<Longrightarrow> compare_tickets (cur_value d) (cur_value c) \<le> 0"
  "\<not> cursor_Less d c \<Longrightarrow> compare_tickets (cur_value c) (cur_value d) \<le> 0"
  by (auto simp: cursor_Less_def compare_tickets_def compareQueueOrder_def split: if_splits)

lemma heap_least_in: "heap_least c cs \<in> set (c # cs)"
proof (induction cs arbitrary: c)
  case (Cons d ds)
  from Cons.IH [of d] Cons.IH [of c] show ?case by auto
qed simp

lemma heap_least_le:
  "d \<in> set (c # cs) \<Longrightarrow> compare_tickets (cur_value (heap_least c cs)) (cur_value d) \<le> 0"
proof (induction cs arbitrary: c d)
  case Nil
  then show ?case by (simp add: ticket_order.cmp_refl)
next
  case (Cons e cs)
  define m where "m = (if cursor_Less e c then e else c)"
  have "compare_tickets (cur_value m) (cur_value x) \<le> 0" if "x \<in> {c, e}" for x
    using that cursor_Less_compare [of e c] by (auto simp: m_def ticket_order.cmp_refl)
  moreover have "compare_tickets (cur_value (heap_least m cs)) (cur_value m) \<le> 0" by (rule Cons.IH) simp
  ultimately have near: "compare_tickets (cur_value (heap_least m cs)) (cur_value x) \<le> 0" if "x \<in> {c, e}" for x
    using that by (blast intro: ticket_order.cmp_trans)
  have "compare_tickets (cur_value (heap_least m cs)) (cur_value d) \<le> 0"
  proof (cases "d \<in> {c, e}")
    case True
    then show ?thesis by (rule near)
  next
    case False
    with Cons.prems show ?thesis by (intro Cons.IH) simp
  qed
  then show ?case unfolding heap_least.simps m_def .
qed

definition cursor_rest :: "(PartitionKey \<times> MatchTicket list) list \<Rightarrow> partitionCursor \<Rightarrow> MatchTicket list" where
  "cursor_rest P c = drop (cur_ticket c) (snd (P ! cur_partition c))"

definition cursor_ok :: "(PartitionKey \<times> MatchTicket list) list \<Rightarrow> partitionCursor \<Rightarrow> bool" where
  "cursor_ok P c \<longleftrightarrow> cursor_rest P c \<noteq> [] \<and> hd (cursor_rest P c) = cur_value c \<and>
     sorted_cmp compare_tickets (cursor_rest P c)"

text \<open>The merge emits the queue the open partitions hold, in canonical order.\<close>

lemma cursor_least_head:
  assumes "\<forall>d\<in>set (c # cs). cursor_ok P d" "canonical_queue (x # xs)"
    "mset (concat (map (cursor_rest P) (c # cs))) = mset (x # xs)"
  shows "cur_value (heap_least c cs) = x"
proof -
  let ?m = "heap_least c cs"
  have rests: "set (x # xs) = (\<Union>d\<in>set (c # cs). set (cursor_rest P d))"
    using mset_eq_setD [OF assms(3)] by auto
  have "cur_value ?m \<in> set (cursor_rest P ?m)"
    using assms(1) heap_least_in [of c cs] by (metis cursor_ok_def list.set_sel(1))
  then have mem: "cur_value ?m \<in> set (x # xs)" using rests heap_least_in [of c cs] by blast
  from rests obtain d where d: "d \<in> set (c # cs)" "x \<in> set (cursor_rest P d)" by auto
  then obtain r where "cursor_rest P d = cur_value d # r" "sorted_cmp compare_tickets (cur_value d # r)"
    using assms(1) by (metis cursor_ok_def list.collapse)
  with d(2) have "compare_tickets (cur_value d) x \<le> 0" by (auto simp: ticket_order.cmp_refl)
  with heap_least_le [OF d(1)] have "compare_tickets (cur_value ?m) x \<le> 0"
    using ticket_order.cmp_trans by blast
  moreover have "compare_tickets x (cur_value ?m) \<le> 0"
    using mem assms(2) by (auto simp: ticket_order.cmp_refl)
  ultimately have "compare_tickets x (cur_value ?m) = 0"
    using ticket_order.cmp_sym [of x "cur_value ?m"] by auto
  then have "mt_ID x = mt_ID (cur_value ?m)" by (intro ticket_order.cmp_zero) auto
  with mem assms(2) show ?thesis by (auto simp: image_iff)
qed

lemma merge_partitions_conv:
  "\<lbrakk>\<forall>d\<in>set cs. cursor_ok P d; canonical_queue xs; mset (concat (map (cursor_rest P) cs)) = mset xs\<rbrakk> \<Longrightarrow>
   merge_partitions P room cs sel = \<lparr>win_Tickets = sel @ take room xs, win_Truncated = length xs > room\<rparr>"
proof (induction room arbitrary: cs xs sel)
  case 0
  then show ?case
    by (cases cs; cases xs) (auto simp: cursor_ok_def)
next
  case (Suc room)
  show ?case
  proof (cases cs)
    case Nil
    with Suc.prems show ?thesis by simp
  next
    case (Cons c ds)
    let ?m = "heap_least c ds"
    have ok: "cursor_ok P ?m" using Suc.prems(1) heap_least_in [of c ds] Cons by blast
    from Suc.prems(1,3) Cons obtain x ys where xs: "xs = x # ys" by (cases xs) (auto simp: cursor_ok_def)
    have x: "cur_value ?m = x" using Suc.prems Cons xs by (intro cursor_least_head) auto
    let ?next = "?m\<lparr>cur_ticket := Suc (cur_ticket ?m), cur_value := snd (P ! cur_partition ?m) ! Suc (cur_ticket ?m)\<rparr>"
    define cs' where "cs' = (if Suc (cur_ticket ?m) < length (snd (P ! cur_partition ?m))
      then remove1 ?m (c # ds) @ [?next] else remove1 ?m (c # ds))"
    have rest: "cursor_rest P ?m = x # drop (Suc (cur_ticket ?m)) (snd (P ! cur_partition ?m))"
      using ok x unfolding cursor_ok_def cursor_rest_def
      by (metis drop_Suc list.collapse tl_drop)
    have next_ok: "cursor_ok P ?next" if "Suc (cur_ticket ?m) < length (snd (P ! cur_partition ?m))"
      using ok rest that unfolding cursor_ok_def by (simp add: cursor_rest_def hd_drop_conv_nth)
    have "mset (concat (map (cursor_rest P) (remove1 ?m (c # ds)))) + mset (cursor_rest P ?m) = mset xs"
      using Suc.prems(3) Cons sum_list_map_remove1 [OF heap_least_in, of "\<lambda>d. mset (cursor_rest P d)" c ds]
      by (simp add: mset_concat comp_def add.commute)
    then have "mset (concat (map (cursor_rest P) cs')) = mset ys"
      unfolding cs'_def rest xs by (auto simp: cursor_rest_def mset_concat)
    moreover have "\<forall>d\<in>set cs'. cursor_ok P d"
      using Suc.prems(1) next_ok Cons set_remove1_subset [of ?m "c # ds"]
      unfolding cs'_def by (auto simp del: remove1.simps)
    moreover have "canonical_queue ys" using Suc.prems(2) xs by simp
    ultimately have "merge_partitions P room cs' (sel @ [x]) =
      \<lparr>win_Tickets = (sel @ [x]) @ take room ys, win_Truncated = length ys > room\<rparr>"
      by (intro Suc.IH)
    then show ?thesis unfolding Cons xs by (simp add: Let_def x cs'_def del: remove1.simps)
  qed
qed

section \<open>The index answers as the scan does\<close>

lemma sorted_go_cmp: "sorted (sort_cmp go_cmp (xs :: int list))"
  using go_cmp.sorted_sort [of xs] by (simp add: sorted_wrt_iff_nth_less sorted_iff_nth_mono_less)

lemma canonical_fitting: "canonical_queue ts \<Longrightarrow> canonical_queue (fitting n ts)"
  by (auto simp: fitting_def sorted_wrt_filter distinct_map_filter)

lemma BuildIndex_partitions:
  "idx_partitions (BuildIndex ts) =
     map (\<lambda>k. (k, filter (\<lambda>t. partitionKey t = k) ts))
       (sort_cmp comparePartitionKey (map fst (foldl group_append [] ts)))"
proof -
  have "idx_partitions (BuildIndex ts) =
    map (\<lambda>k. (k, the (map_of (foldl group_append [] ts) k)))
       (sort_cmp comparePartitionKey (map fst (foldl group_append [] ts)))"
    by (simp add: BuildIndex_def Let_def)
  also have "\<dots> = map (\<lambda>k. (k, filter (\<lambda>t. partitionKey t = k) ts))
       (sort_cmp comparePartitionKey (map fst (foldl group_append [] ts)))"
    by (rule map_cong) (use grouped_keys [of ts] in \<open>auto simp: grouped_map_of\<close>)
  finally show ?thesis .
qed

lemma initial_cursors_ok:
  "\<forall>p\<in>set P. sorted_cmp compare_tickets (snd p) \<Longrightarrow> c \<in> set (initial_cursors n P) \<Longrightarrow> cursor_ok P c"
  by (auto simp: initial_cursors_def cursor_ok_def cursor_rest_def in_set_enumerate_eq hd_conv_nth)
     (metis nth_mem snd_conv)

lemma initial_cursors_rests:
  "concat (map (cursor_rest P) (initial_cursors n P)) =
     concat (map snd (filter (\<lambda>p. pk_PartySize (fst p) \<le> n) P))"
proof -
  have "concat (map (\<lambda>(i, p). snd ((pre @ Q) ! i))
      (filter (\<lambda>(i, p). pk_PartySize (fst p) \<le> n \<and> snd p \<noteq> []) (enumerate (length pre) Q))) =
    concat (map snd (filter (\<lambda>p. pk_PartySize (fst p) \<le> n) Q))" for pre Q :: "(PartitionKey \<times> MatchTicket list) list"
  proof (induction Q arbitrary: pre)
    case (Cons q Q)
    from Cons [of "pre @ [q]"] show ?case by auto
  qed simp
  from this [of "[]" P] show ?thesis
    by (simp add: initial_cursors_def cursor_rest_def comp_def case_prod_unfold)
qed

lemma partitions_fitting:
  "mset (concat (map snd (filter (\<lambda>p. pk_PartySize (fst p) \<le> n) (idx_partitions (BuildIndex ts))))) =
     mset (fitting n ts)"
proof -
  define keys where "keys = sort_cmp comparePartitionKey (map fst (foldl group_append [] ts))"
  have keys: "distinct keys" "set keys = partitionKey ` set ts"
    using grouped_distinct [of ts] grouped_keys [of ts] by (auto simp: keys_def)
  have "concat (map snd (filter (\<lambda>p. pk_PartySize (fst p) \<le> n) (idx_partitions (BuildIndex ts)))) =
    concat (map (\<lambda>k. filter (\<lambda>t. partitionKey t = k) ts) (filter (\<lambda>k. pk_PartySize k \<le> n) keys))"
    by (simp add: BuildIndex_partitions filter_map comp_def flip: keys_def)
  also have "mset \<dots> = mset (filter (\<lambda>t. partitionKey t \<in> set (filter (\<lambda>k. pk_PartySize k \<le> n) keys)) ts)"
    using keys(1) by (intro mset_filter_groups) simp
  also have "\<dots> = mset (fitting n ts)"
    using keys(2) unfolding fitting_def by (intro arg_cong [where f = mset] filter_cong) auto
  finally show ?thesis .
qed

lemma BuildIndex_sel:
  "idx_tickets (BuildIndex ts) = ts"
  "idx_partyThresholds (BuildIndex ts) =
     (let sizes = remdups (map party_size ts) in if length sizes \<le> 16 then sort_cmp go_cmp sizes else [])"
  "idx_fittingByPartyMax (BuildIndex ts) =
     map (\<lambda>threshold. (threshold, fitting_positions threshold 0 ts)) (idx_partyThresholds (BuildIndex ts))"
  by (simp_all add: BuildIndex_def Let_def)

lemma merged_window:
  assumes "canonical_queue ts" "0 < limit"
  shows "merge_partitions (idx_partitions (BuildIndex ts)) (nat limit)
    (initial_cursors n (idx_partitions (BuildIndex ts))) [] =
    \<lparr>win_Tickets = take (nat limit) (fitting n ts), win_Truncated = length (fitting n ts) > nat limit\<rparr>"
proof -
  let ?P = "idx_partitions (BuildIndex ts)"
  have "\<forall>p\<in>set ?P. sorted_cmp compare_tickets (snd p)"
    using assms(1) by (auto simp: BuildIndex_partitions sorted_wrt_filter)
  then have "\<forall>c\<in>set (initial_cursors n ?P). cursor_ok ?P c" using initial_cursors_ok by blast
  moreover have "mset (concat (map (cursor_rest ?P) (initial_cursors n ?P))) = mset (fitting n ts)"
    unfolding initial_cursors_rests by (rule partitions_fitting)
  ultimately show ?thesis
    using canonical_fitting [OF assms(1)] by (subst merge_partitions_conv) auto
qed

lemma cached_window:
  assumes "thresholds = idx_partyThresholds (BuildIndex ts)" "thresholds \<noteq> []" "0 < limit"
  shows "Index_SelectWindow (BuildIndex ts) slots limit = SelectWindow ts slots limit"
proof -
  define n where "n = max_party_size slots"
  define found where "found = sort_Search (length thresholds) (\<lambda>p. thresholds ! p > n)"
  have th: "thresholds = sort_cmp go_cmp (remdups (map party_size ts))"
    using assms(1,2) by (simp add: BuildIndex_sel Let_def split: if_splits)
  have "\<forall>t\<in>set ts. party_size t \<in> set thresholds" unfolding th by simp
  note fit = fitting_threshold [OF this _ found_def] sorted_go_cmp [of "remdups (map party_size ts)", folded th]
  have cached: "map_of (idx_fittingByPartyMax (BuildIndex ts)) k = Some (fitting_positions k 0 ts)"
    if "k \<in> set thresholds" for k
    using that by (simp add: BuildIndex_sel(3) map_of_map_restrict restrict_map_def flip: assms(1))
  show ?thesis
  proof (cases "found = 0")
    case True
    with fit assms show ?thesis
      by (simp add: Index_SelectWindow_def SelectWindow_conv Let_def n_def found_def)
  next
    case False
    define k where "k = thresholds ! (found - Suc 0)"
    have k: "k \<in> set thresholds" "fitting n ts = fitting k ts" using fit False by (auto simp: k_def)
    have "map (\<lambda>i. ts ! i) (take (min m (length (fitting k ts))) (fitting_positions k 0 ts)) =
        take m (fitting k ts)" for m
      using fitting_positions_fitting [of "[]" ts k] by (simp add: min_def flip: take_map)
    with assms False k cached [OF k(1)] show ?thesis
      unfolding Index_SelectWindow_def SelectWindow_conv
      by (simp add: Let_def BuildIndex_sel(1) length_fitting_positions flip: n_def assms(1) found_def k_def)
         (simp add: length_fitting_positions zless_nat_eq_int_zless nat_less_iff)
  qed
qed

lemma Index_SelectWindow_agrees:
  assumes "canonical_queue ts"
  shows "Index_SelectWindow (BuildIndex ts) slots limit = SelectWindow ts slots limit"
proof (cases "limit \<le> 0")
  case True
  then show ?thesis by (simp add: Index_SelectWindow_def SelectWindow_def BuildIndex_sel(1))
next
  case False
  show ?thesis
  proof (cases "idx_partyThresholds (BuildIndex ts) = []")
    case True
    with False show ?thesis using merged_window [OF assms, of limit "max_party_size slots"]
      by (simp add: Index_SelectWindow_def SelectWindow_conv Let_def)
  next
    case cached: False
    with False show ?thesis by (intro cached_window) auto
  qed
qed

section \<open>Property\<close>

text \<open>
  C7. The prefilter index changes nothing but the cost: on a queue in canonical order, the window
  that \<open>Index.SelectWindow\<close> reads from the cached positions, or merges from the partitions, is the
  list and the flag that \<open>SelectWindow\<close> computes by a scan of the queue.
\<close>
theorem Index_SelectWindow_eq:
  assumes "canonical_queue tickets"
  shows "Index_SelectWindow (BuildIndex tickets) slots limit = SelectWindow tickets slots limit"
  using assms by (rule Index_SelectWindow_agrees)

lemma Index_SelectWindow_eq_witness:
  "let tickets = [ex_solo ''a'' 1 10 '''', ex_solo ''b'' 2 10 '''', ex_solo ''c'' 3 10 '''']
   in canonical_queue tickets \<and>
      Index_SelectWindow (BuildIndex tickets) [1, 1] 2 = SelectWindow tickets [1, 1] 2"
proof -
  have c: "canonical_queue [ex_solo ''a'' 1 10 '''', ex_solo ''b'' 2 10 '''', ex_solo ''c'' 3 10 '''']"
    by code_simp
  from Index_SelectWindow_eq [OF c, of "[1, 1]" 2] c show ?thesis unfolding Let_def by blast
qed

end
