(* ===== verification/Fingerprint.thy ===== *)
theory Fingerprint
  imports Validate Bytes Examples
begin

text \<open>
  The canonical policy fingerprint, \<open>src/internal/domain/policy.go\<close>. The byte string that is hashed
  is built by appending, as the code does. The hash is a parameter.

  The encoding loses nothing but the order of the role requirements: \<open>policy_encoding_inj\<close>. So two
  policies with the same fingerprint are the same policy up to that order, unless the hash collides
  on their encodings.
\<close>

definition appendCanonicalString :: "byte list \<Rightarrow> string \<Rightarrow> byte list" where
  "appendCanonicalString encoded value = append_string encoded value"

definition appendCanonicalInt :: "byte list \<Rightarrow> int \<Rightarrow> byte list" where
  "appendCanonicalInt encoded value = AppendUint64 encoded (uint64 value)"

definition appendCanonicalBool :: "byte list \<Rightarrow> bool \<Rightarrow> byte list" where
  "appendCanonicalBool encoded value = (if value then encoded @ [1] else encoded @ [0])"

definition compare_requirement :: "RoleRequirement \<Rightarrow> RoleRequirement \<Rightarrow> int" where
  "compare_requirement left right =
     (if rr_Role left < rr_Role right then -1 else if rr_Role left > rr_Role right then 1 else 0)"

definition append_requirement :: "byte list \<Rightarrow> RoleRequirement \<Rightarrow> byte list" where
  "append_requirement encoded r =
     appendCanonicalBool (appendCanonicalInt (appendCanonicalString encoded (rr_Role r)) (rr_MinPerTeam r))
       (rr_Hard r)"

definition append_step :: "byte list \<Rightarrow> RelaxationStep \<Rightarrow> byte list" where
  "append_step encoded s =
     appendCanonicalBool
       (appendCanonicalInt
         (appendCanonicalInt (AppendUint64 encoded (uint64 (rs_AfterWait s))) (rs_MaxTeamSkillGap s))
         (rs_MaxRolePenalty s))
       (rs_PrioritizeWait s)"

definition policy_encoding :: "MatchmakingPolicy \<Rightarrow> byte list" where
  "policy_encoding policy =
     (let encoded = appendCanonicalString [] (pol_Version policy);
          encoded = foldl appendCanonicalInt encoded
            [pol_TeamCount policy, pol_TeamSize policy, pol_MaxLatencyMillis policy,
             pol_MaxProposals policy, pol_MaxSearchNodes policy, pol_MaxCandidateTickets policy,
             pol_MaxCandidatesPerProposal policy, pol_MaxBatchCandidates policy,
             pol_MaxBatchSearchNodes policy];
          requirements = sort_cmp compare_requirement (pol_RoleRequirements policy);
          encoded = appendCanonicalInt encoded (int (length requirements));
          encoded = foldl append_requirement encoded requirements;
          encoded = appendCanonicalInt encoded (int (length (pol_RelaxationSteps policy)))
      in foldl append_step encoded (pol_RelaxationSteps policy))"

definition FingerprintPolicy :: "hash \<Rightarrow> MatchmakingPolicy \<Rightarrow> PolicyFingerprint result" where
  "FingerprintPolicy sha256 policy =
     (case ValidatePolicy policy of
        Some e \<Rightarrow> Inl e
      | None \<Rightarrow> Inr (hex_EncodeToString (sha256 (policy_encoding policy))))"

section \<open>Injectivity\<close>

interpretation requirement_order: keyed_cmp "\<lambda>_. True" compare_requirement rr_Role
  by unfold_locales (auto simp: compare_requirement_def split: if_splits)

definition enc_int :: "int \<Rightarrow> byte list" where
  "enc_int x = be64 (uint64 x)"

definition enc_bool :: "bool \<Rightarrow> byte list" where
  "enc_bool b = [if b then 1 else 0]"

definition enc_requirement :: "RoleRequirement \<Rightarrow> byte list" where
  "enc_requirement r = enc_string (rr_Role r) @ enc_int (rr_MinPerTeam r) @ enc_bool (rr_Hard r)"

definition enc_step :: "RelaxationStep \<Rightarrow> byte list" where
  "enc_step s = enc_int (rs_AfterWait s) @ enc_int (rs_MaxTeamSkillGap s) @
     enc_int (rs_MaxRolePenalty s) @ enc_bool (rs_PrioritizeWait s)"

lemma append_conv:
  "appendCanonicalString e s = e @ enc_string s" "appendCanonicalInt e x = e @ enc_int x"
  "appendCanonicalBool e b = e @ enc_bool b" "append_requirement e r = e @ enc_requirement r"
  "append_step e t = e @ enc_step t"
  by (simp_all add: appendCanonicalString_def append_string_conv appendCanonicalInt_def
      AppendUint64_def appendCanonicalBool_def append_requirement_def append_step_def
      enc_int_def enc_bool_def enc_requirement_def enc_step_def)

lemma foldl_append_conv:
  assumes "\<And>e x. f e x = e @ g x"
  shows "foldl f e xs = e @ concat (map g xs)"
  by (induction xs arbitrary: e) (simp_all add: assms)

lemma policy_encoding_conv:
  "policy_encoding p = enc_string (pol_Version p) @ enc_int (pol_TeamCount p) @
     enc_int (pol_TeamSize p) @ enc_int (pol_MaxLatencyMillis p) @ enc_int (pol_MaxProposals p) @
     enc_int (pol_MaxSearchNodes p) @ enc_int (pol_MaxCandidateTickets p) @
     enc_int (pol_MaxCandidatesPerProposal p) @ enc_int (pol_MaxBatchCandidates p) @
     enc_int (pol_MaxBatchSearchNodes p) @ enc_int (int (length (pol_RoleRequirements p))) @
     concat (map enc_requirement (sort_cmp compare_requirement (pol_RoleRequirements p))) @
     enc_int (int (length (pol_RelaxationSteps p))) @
     concat (map enc_step (pol_RelaxationSteps p))"
  unfolding policy_encoding_def Let_def
  by (simp add: foldl_append_conv [OF append_conv(4)] foldl_append_conv [OF append_conv(5)] append_conv)

text \<open>The values a Go program can hold: its integers are 64 bits wide, its lengths too.\<close>

definition go_string :: "string \<Rightarrow> bool" where
  "go_string s \<longleftrightarrow> in_i64 (int (length s))"

definition go_policy :: "MatchmakingPolicy \<Rightarrow> bool" where
  "go_policy p \<longleftrightarrow> go_string (pol_Version p) \<and>
     (\<forall>x\<in>set [pol_TeamCount p, pol_TeamSize p, pol_MaxLatencyMillis p, pol_MaxProposals p,
        pol_MaxSearchNodes p, pol_MaxCandidateTickets p, pol_MaxCandidatesPerProposal p,
        pol_MaxBatchCandidates p, pol_MaxBatchSearchNodes p, int (length (pol_RoleRequirements p)),
        int (length (pol_RelaxationSteps p))]. in_i64 x) \<and>
     (\<forall>r\<in>set (pol_RoleRequirements p). go_string (rr_Role r) \<and> in_i64 (rr_MinPerTeam r)) \<and>
     (\<forall>s\<in>set (pol_RelaxationSteps p). in_i64 (rs_AfterWait s) \<and> in_i64 (rs_MaxTeamSkillGap s) \<and>
        in_i64 (rs_MaxRolePenalty s))"

lemma enc_int_prefix:
  "in_i64 x \<Longrightarrow> in_i64 y \<Longrightarrow> enc_int x @ r = enc_int y @ s \<longleftrightarrow> x = y \<and> r = s"
  by (simp add: enc_int_def be64_prefix uint64_inj)

lemma enc_bool_prefix: "enc_bool a @ r = enc_bool b @ s \<longleftrightarrow> a = b \<and> r = s"
  by (simp add: enc_bool_def)

lemma go_string_prefix:
  "go_string a \<Longrightarrow> go_string b \<Longrightarrow> enc_string a @ r = enc_string b @ s \<longleftrightarrow> a = b \<and> r = s"
  unfolding go_string_def by (rule enc_string_prefix)

lemmas enc_prefix = enc_int_prefix enc_bool_prefix go_string_prefix

lemma enc_requirement_prefix:
  assumes "go_string (rr_Role a)" "go_string (rr_Role b)" "in_i64 (rr_MinPerTeam a)" "in_i64 (rr_MinPerTeam b)"
  shows "enc_requirement a @ r = enc_requirement b @ s \<longleftrightarrow> a = b \<and> r = s"
proof -
  have "enc_requirement a @ r = enc_requirement b @ s \<longleftrightarrow>
      rr_Role a = rr_Role b \<and> rr_MinPerTeam a = rr_MinPerTeam b \<and> rr_Hard a = rr_Hard b \<and> r = s"
    using assms by (simp only: enc_requirement_def append_assoc enc_prefix)
  then show ?thesis by auto
qed

lemma enc_step_prefix:
  assumes "in_i64 (rs_AfterWait a)" "in_i64 (rs_AfterWait b)" "in_i64 (rs_MaxTeamSkillGap a)"
    "in_i64 (rs_MaxTeamSkillGap b)" "in_i64 (rs_MaxRolePenalty a)" "in_i64 (rs_MaxRolePenalty b)"
  shows "enc_step a @ r = enc_step b @ s \<longleftrightarrow> a = b \<and> r = s"
proof -
  have "enc_step a @ r = enc_step b @ s \<longleftrightarrow>
      rs_AfterWait a = rs_AfterWait b \<and> rs_MaxTeamSkillGap a = rs_MaxTeamSkillGap b \<and>
      rs_MaxRolePenalty a = rs_MaxRolePenalty b \<and> rs_PrioritizeWait a = rs_PrioritizeWait b \<and> r = s"
    using assms by (simp only: enc_step_def append_assoc enc_prefix)
  then show ?thesis by auto
qed

text \<open>The policy with its requirements in the order in which they are hashed.\<close>

definition canonical_policy :: "MatchmakingPolicy \<Rightarrow> MatchmakingPolicy" where
  "canonical_policy p = p\<lparr>pol_RoleRequirements := sort_cmp compare_requirement (pol_RoleRequirements p)\<rparr>"

lemma policy_encoding_inj:
  assumes p: "go_policy p" and q: "go_policy q" and eq: "policy_encoding p = policy_encoding q"
  shows "canonical_policy p = canonical_policy q"
proof -
  let ?reqs = "\<lambda>p. sort_cmp compare_requirement (pol_RoleRequirements p)"
  let ?rest = "\<lambda>p. enc_int (int (length (pol_RelaxationSteps p))) @
     concat (map enc_step (pol_RelaxationSteps p))"
  from p q have r: "go_string (pol_Version p)" "go_string (pol_Version q)"
    "in_i64 (pol_TeamCount p)" "in_i64 (pol_TeamCount q)" "in_i64 (pol_TeamSize p)" "in_i64 (pol_TeamSize q)"
    "in_i64 (pol_MaxLatencyMillis p)" "in_i64 (pol_MaxLatencyMillis q)"
    "in_i64 (pol_MaxProposals p)" "in_i64 (pol_MaxProposals q)"
    "in_i64 (pol_MaxSearchNodes p)" "in_i64 (pol_MaxSearchNodes q)"
    "in_i64 (pol_MaxCandidateTickets p)" "in_i64 (pol_MaxCandidateTickets q)"
    "in_i64 (pol_MaxCandidatesPerProposal p)" "in_i64 (pol_MaxCandidatesPerProposal q)"
    "in_i64 (pol_MaxBatchCandidates p)" "in_i64 (pol_MaxBatchCandidates q)"
    "in_i64 (pol_MaxBatchSearchNodes p)" "in_i64 (pol_MaxBatchSearchNodes q)"
    "in_i64 (int (length (pol_RoleRequirements p)))" "in_i64 (int (length (pol_RoleRequirements q)))"
    "in_i64 (int (length (pol_RelaxationSteps p)))" "in_i64 (int (length (pol_RelaxationSteps q)))"
    by (simp_all add: go_policy_def)
  from eq have head: "pol_Version p = pol_Version q" "pol_TeamCount p = pol_TeamCount q"
    "pol_TeamSize p = pol_TeamSize q" "pol_MaxLatencyMillis p = pol_MaxLatencyMillis q"
    "pol_MaxProposals p = pol_MaxProposals q" "pol_MaxSearchNodes p = pol_MaxSearchNodes q"
    "pol_MaxCandidateTickets p = pol_MaxCandidateTickets q"
    "pol_MaxCandidatesPerProposal p = pol_MaxCandidatesPerProposal q"
    "pol_MaxBatchCandidates p = pol_MaxBatchCandidates q"
    "pol_MaxBatchSearchNodes p = pol_MaxBatchSearchNodes q"
    and len: "length (pol_RoleRequirements p) = length (pol_RoleRequirements q)"
    and tail: "concat (map enc_requirement (?reqs p)) @ ?rest p =
      concat (map enc_requirement (?reqs q)) @ ?rest q"
    by (simp_all only: policy_encoding_conv enc_prefix r of_nat_eq_iff append_assoc)
  have "concat (map enc_requirement (?reqs p)) @ ?rest p =
      concat (map enc_requirement (?reqs q)) @ ?rest q \<longleftrightarrow> ?reqs p = ?reqs q \<and> ?rest p = ?rest q"
    by (rule concat_prefix) (use p q len in \<open>simp_all add: go_policy_def enc_requirement_prefix\<close>)
  with tail have reqs: "?reqs p = ?reqs q" and "?rest p = ?rest q" by blast+
  then have len': "length (pol_RelaxationSteps p) = length (pol_RelaxationSteps q)"
    and steps: "concat (map enc_step (pol_RelaxationSteps p)) @ [] =
      concat (map enc_step (pol_RelaxationSteps q)) @ []"
    by (simp_all only: enc_prefix r of_nat_eq_iff append_Nil2)
  have "concat (map enc_step (pol_RelaxationSteps p)) @ [] =
      concat (map enc_step (pol_RelaxationSteps q)) @ [] \<longleftrightarrow>
      pol_RelaxationSteps p = pol_RelaxationSteps q \<and> [] = ([] :: byte list)"
    using len' by (rule concat_prefix) (use p q in \<open>simp_all add: go_policy_def enc_step_prefix\<close>)
  with steps have "pol_RelaxationSteps p = pol_RelaxationSteps q" by blast
  with head reqs show ?thesis by (simp add: canonical_policy_def)
qed

lemma canonical_policy_encoding:
  assumes "canonical_policy p = canonical_policy q"
  shows "policy_encoding p = policy_encoding q"
proof -
  have "length (pol_RoleRequirements r) = length (pol_RoleRequirements (canonical_policy r))" for r
    by (simp add: canonical_policy_def)
  with assms have "length (pol_RoleRequirements p) = length (pol_RoleRequirements q)" by metis
  with assms show ?thesis
    by (cases p; cases q) (simp add: policy_encoding_conv canonical_policy_def)
qed

text \<open>
  C9. The fingerprint identifies a policy up to the order of its role requirements: two valid
  policies have the same fingerprint exactly when they agree after sorting the requirements by role,
  provided the hash does not collide on their two encodings.
\<close>
theorem FingerprintPolicy_eq_iff:
  assumes "ValidatePolicy p = None" "ValidatePolicy q = None" "go_policy p" "go_policy q"
    and no_collision: "sha256 (policy_encoding p) = sha256 (policy_encoding q) \<Longrightarrow> policy_encoding p = policy_encoding q"
  shows "FingerprintPolicy sha256 p = FingerprintPolicy sha256 q \<longleftrightarrow> canonical_policy p = canonical_policy q"
proof -
  have "FingerprintPolicy sha256 p = FingerprintPolicy sha256 q \<longleftrightarrow>
      sha256 (policy_encoding p) = sha256 (policy_encoding q)"
    unfolding FingerprintPolicy_def assms(1,2) by (simp add: hex_inj)
  also have "\<dots> \<longleftrightarrow> policy_encoding p = policy_encoding q" using no_collision by metis
  also have "\<dots> \<longleftrightarrow> canonical_policy p = canonical_policy q"
    using policy_encoding_inj [OF assms(3,4)] canonical_policy_encoding by blast
  finally show ?thesis .
qed

lemma FingerprintPolicy_eq_iff_witness:
  "let p = ex_roster_policy; q = p\<lparr>pol_RoleRequirements := rev (pol_RoleRequirements p)\<rparr>
   in p \<noteq> q \<and> FingerprintPolicy (\<lambda>bytes. bytes) p = FingerprintPolicy (\<lambda>bytes. bytes) q"
proof -
  let ?p = ex_roster_policy and ?q = "ex_roster_policy\<lparr>pol_RoleRequirements := rev (pol_RoleRequirements ex_roster_policy)\<rparr>"
  have "ValidatePolicy ?p = None" "ValidatePolicy ?q = None" "go_policy ?p" "go_policy ?q" by code_simp+
  from FingerprintPolicy_eq_iff [OF this, of "\<lambda>bytes. bytes"]
  have "FingerprintPolicy (\<lambda>bytes. bytes) ?p = FingerprintPolicy (\<lambda>bytes. bytes) ?q \<longleftrightarrow>
      canonical_policy ?p = canonical_policy ?q" by blast
  moreover have "canonical_policy ?p = canonical_policy ?q" "?p \<noteq> ?q" by code_simp+
  ultimately show ?thesis by simp
qed

end
