(* ===== verification/Planner.thy ===== *)
theory Planner
  imports Batch Discovery Fingerprint
begin

text \<open>
  The planner, \<open>src/internal/planner/planner.go\<close>: from a validated snapshot to a batch of proposals.
  Candidates come from three sources (one search per backfill ticket and anchor, a greedy cover of
  the queue, one search per anchor for new matches); the batch selection of theory \<open>Batch\<close> chooses
  among them; the rest of the queue is reported unmatched with a reason.

  The candidates, the map from canonical keys to positions and the search budget, which the Go code
  passes by pointer, are the state \<open>gen_state\<close>. SHA-256 is the parameter \<open>sha256\<close>.
\<close>

section \<open>Constants\<close>

definition defaultMaxProposals :: int where "defaultMaxProposals = 64"
definition defaultMaxSearchNodes :: int where "defaultMaxSearchNodes = 100000"
definition defaultMaxCandidatesPerProposal :: int where "defaultMaxCandidatesPerProposal = 64"
definition defaultMaxBatchCandidates :: int where "defaultMaxBatchCandidates = 256"
definition defaultMaxBatchSearchNodes :: int where "defaultMaxBatchSearchNodes = 100000"
definition smallQueueTicketLimit :: nat where "smallQueueTicketLimit = 12"
definition smallQueueBackfillLimit :: nat where "smallQueueBackfillLimit = 2"
definition smallQueueTeamLimit :: int where "smallQueueTeamLimit = 2"
definition smallQueueCandidateLimit :: int where "smallQueueCandidateLimit = 4096"

section \<open>Generated candidates\<close>

record candidateGeneration =
  cg_candidates :: "proposalCandidate list"
  cg_truncated :: bool
  cg_sawHardFailure :: bool
  cg_sawQualityFailure :: bool

record gen_state =
  gs_result :: candidateGeneration
  gs_indexes :: "(string \<times> nat) list"
  gs_budget :: searchBudget

abbreviation gs_candidates :: "gen_state \<Rightarrow> proposalCandidate list" where
  "gs_candidates st \<equiv> cg_candidates (gs_result st)"

definition set_truncated :: "bool \<Rightarrow> gen_state \<Rightarrow> gen_state" where
  "set_truncated b st = st\<lparr>gs_result := (gs_result st)\<lparr>cg_truncated := b\<rparr>\<rparr>"

definition matchSlots :: "MatchmakingPolicy \<Rightarrow> int list" where
  "matchSlots policy = replicate (nat (pol_TeamCount policy)) (pol_TeamSize policy)"

definition canFillMultipleProposals :: "MatchTicket list \<Rightarrow> int list \<Rightarrow> bool" where
  "canFillMultipleProposals tickets slots =
     (let needed = foldl (\<lambda>needed slot. i64 (needed + slot)) 0 slots
      in if needed = 0 then False else players_in tickets \<ge> i64 (2 * needed))"

definition prepareSearchEvidence :: "placementSearch \<Rightarrow> nat \<Rightarrow> bool \<Rightarrow> placementSearch" where
  "prepareSearchEvidence found candidateTickets windowTruncated =
     (let evaluation = ps_evaluation found; evidence = eval_Evidence evaluation
      in found\<lparr>ps_candidateWindowTruncated := windowTruncated,
               ps_evaluation := evaluation\<lparr>eval_Evidence := evidence
                 \<lparr>ev_CandidateTickets := candidateTickets, ev_CandidateWindowTruncated := windowTruncated,
                  ev_SearchTruncated := ev_SearchTruncated evidence \<or> windowTruncated\<rparr>\<rparr>\<rparr>)"

definition placementPriorityDemands :: "MatchmakingSnapshot \<Rightarrow> placement \<Rightarrow> priorityDemand list" where
  "placementPriorityDemands snapshot placement =
     concat (map (\<lambda>ticket.
       let (priority, waitMillis) = TicketWaitPriority (snap_Now snapshot) (mt_EnqueuedAt ticket) (snap_Policy snapshot)
       in if priority then [\<lparr>pd_key = ''match:'' @ mt_ID ticket, pd_waitMillis = waitMillis\<rparr>] else [])
       (concat placement))"

definition ref_key :: "TicketRef \<Rightarrow> string" where
  "ref_key reference = ''|'' @ ref_ID reference @ ''@'' @ decimal (unat (ref_Revision reference))"

definition canonicalCandidateKey :: "ProposalKind \<Rightarrow> BackfillTarget option \<Rightarrow> placement \<Rightarrow> string" where
  "canonicalCandidateKey kind backfill placement =
     ProposalKind_string kind
     @ (case backfill of None \<Rightarrow> [] | Some target \<Rightarrow>
          ref_key (tgt_Ticket target) @ ''|'' @ tgt_SessionID target @ ''@'' @ decimal (unat (tgt_RosterVersion target)))
     @ concat (map ref_key (sort_cmp compare_ref (map TicketReference (concat placement))))"

definition make_candidate ::
  "placementSearch \<Rightarrow> MatchmakingSnapshot \<Rightarrow> ProposalKind \<Rightarrow> BackfillTarget option \<Rightarrow> Time \<Rightarrow> proposalCandidate" where
  "make_candidate found snapshot kind backfill backfillEnqueuedAt =
     (let demands = (if eval_PriorityWaitMillis (ps_evaluation found) \<noteq> []
                     then placementPriorityDemands snapshot (ps_placement found) else []);
          demands = (case backfill of None \<Rightarrow> demands | Some target \<Rightarrow>
            let (priority, waitMillis) = TicketWaitPriority (snap_Now snapshot) backfillEnqueuedAt (snap_Policy snapshot)
            in if priority then demands @ [\<lparr>pd_key = ''backfill:'' @ ref_ID (tgt_Ticket target), pd_waitMillis = waitMillis\<rparr>]
               else demands)
      in \<lparr>pc_placement = ps_placement found, pc_evaluation = ps_evaluation found,
          pc_priorityDemands = sort_cmp comparePriorityDemand demands, pc_kind = kind,
          pc_backfill = CloneBackfillTarget backfill,
          pc_key = canonicalCandidateKey kind backfill (ps_placement found),
          pc_utility = 0, pc_effectiveUtility = 0\<rparr>)"

definition recordGeneratedCandidate ::
  "gen_state \<Rightarrow> placementSearch \<Rightarrow> MatchmakingSnapshot \<Rightarrow> ProposalKind \<Rightarrow> BackfillTarget option \<Rightarrow> Time \<Rightarrow> gen_state" where
  "recordGeneratedCandidate st found snapshot kind backfill backfillEnqueuedAt =
     (let result = gs_result st;
          result = result\<lparr>cg_truncated := cg_truncated result \<or> ps_truncated found \<or> ps_candidateWindowTruncated found,
                          cg_sawHardFailure := cg_sawHardFailure result \<or> ps_sawHardFailure found,
                          cg_sawQualityFailure := cg_sawQualityFailure result \<or> ps_sawQualityFailure found\<rparr>;
          st = st\<lparr>gs_result := result\<rparr>
      in if \<not> ps_found found then st
         else let candidate = make_candidate found snapshot kind backfill backfillEnqueuedAt
         in case map_of (gs_indexes st) (pc_key candidate) of
              Some existingIndex \<Rightarrow>
                let existing = cg_candidates result ! existingIndex
                in if Compare (pc_evaluation candidate) (pc_evaluation existing) < 0 \<or>
                      Compare (pc_evaluation candidate) (pc_evaluation existing) = 0 \<and>
                      comparePlacement (pc_placement candidate) (pc_placement existing) < 0
                   then st\<lparr>gs_result := result\<lparr>cg_candidates := (cg_candidates result)[existingIndex := candidate]\<rparr>\<rparr>
                   else st
            | None \<Rightarrow>
                st\<lparr>gs_indexes := AList.update (pc_key candidate) (length (cg_candidates result)) (gs_indexes st),
                   gs_result := result\<lparr>cg_candidates := cg_candidates result @ [candidate]\<rparr>\<rparr>)"

section \<open>The greedy cover\<close>

text \<open>The counter of the loop is the number of seeds left; its end is the statement after the loop.\<close>

definition generation_stopped :: "int \<Rightarrow> gen_state \<Rightarrow> bool" where
  "generation_stopped maxBatchCandidates st \<longleftrightarrow>
     sb_exhausted (gs_budget st) \<or> int (length (gs_candidates st)) \<ge> maxBatchCandidates"

fun greedy_cover ::
  "nat \<Rightarrow> MatchTicket list \<Rightarrow> int list \<Rightarrow> MatchmakingSnapshot \<Rightarrow> int \<Rightarrow> int \<Rightarrow> int \<Rightarrow> gen_state \<Rightarrow> gen_state" where
  "greedy_cover seeds remaining slots snapshot maxCandidatesPerSearch maxBatchCandidates maxCandidateTickets st =
     (if generation_stopped maxBatchCandidates st then set_truncated True st
      else case seeds of 0 \<Rightarrow> st | Suc seeds' \<Rightarrow>
        let window = SelectWindow remaining slots maxCandidateTickets;
            (found, budget) = findBestPlacement (win_Tickets window) slots snapshot ProposalNewMatch [] 0 ''''
               maxCandidatesPerSearch 1 (gs_budget st);
            found = prepareSearchEvidence found (length (win_Tickets window)) (win_Truncated window);
            st = recordGeneratedCandidate (st\<lparr>gs_budget := budget\<rparr>) found snapshot ProposalNewMatch None 0
        in if \<not> ps_found found then st
           else greedy_cover seeds' (removePlaced remaining (ps_placement found)) slots snapshot
                  maxCandidatesPerSearch maxBatchCandidates maxCandidateTickets st)"

declare greedy_cover.simps [simp del]

definition collectGreedyCoverCandidates ::
  "gen_state \<Rightarrow> MatchTicket list \<Rightarrow> int list \<Rightarrow> MatchmakingSnapshot \<Rightarrow> int \<Rightarrow> int \<Rightarrow> int \<Rightarrow> int \<Rightarrow> gen_state" where
  "collectGreedyCoverCandidates st available slots snapshot maxCandidatesPerSearch maxBatchCandidates
     maxSeedProposals maxCandidateTickets =
     greedy_cover (nat maxSeedProposals) available slots snapshot maxCandidatesPerSearch maxBatchCandidates
       maxCandidateTickets st"

section \<open>Anchored searches\<close>

fun record_alternatives ::
  "placementSearch list \<Rightarrow> nat \<Rightarrow> bool \<Rightarrow> MatchmakingSnapshot \<Rightarrow> ProposalKind \<Rightarrow> BackfillTarget option \<Rightarrow> Time \<Rightarrow> int
     \<Rightarrow> gen_state \<Rightarrow> gen_state" where
  "record_alternatives [] tickets windowTruncated snapshot kind backfill enqueuedAt maxBatchCandidates st = st"
| "record_alternatives (alternative # rest) tickets windowTruncated snapshot kind backfill enqueuedAt maxBatchCandidates st =
     (let st = recordGeneratedCandidate st (prepareSearchEvidence alternative tickets windowTruncated) snapshot kind
                 backfill enqueuedAt
      in if int (length (gs_candidates st)) \<ge> maxBatchCandidates then st
         else record_alternatives rest tickets windowTruncated snapshot kind backfill enqueuedAt maxBatchCandidates st)"

fun shape_anchors ::
  "TicketID list \<Rightarrow> MatchTicket list \<Rightarrow> int list \<Rightarrow> MatchmakingSnapshot \<Rightarrow> ProposalKind \<Rightarrow> BackfillTarget option
     \<Rightarrow> RosterTeamSummary list \<Rightarrow> Time \<Rightarrow> bool \<Rightarrow> int \<Rightarrow> int \<Rightarrow> int \<Rightarrow> gen_state \<Rightarrow> gen_state" where
  "shape_anchors [] tickets slots snapshot kind backfill existingTeams enqueuedAt windowTruncated
     maxCandidatesPerSearch maxAlternativesPerSearch maxBatchCandidates st = st"
| "shape_anchors (anchor # anchors) tickets slots snapshot kind backfill existingTeams enqueuedAt windowTruncated
     maxCandidatesPerSearch maxAlternativesPerSearch maxBatchCandidates st =
     (if generation_stopped maxBatchCandidates st then set_truncated True st
      else let (found, budget) = findBestPlacement tickets slots snapshot kind existingTeams enqueuedAt anchor
                 maxCandidatesPerSearch
                 (min maxAlternativesPerSearch (maxBatchCandidates - int (length (gs_candidates st)))) (gs_budget st);
               alternatives = expandPlacementAlternatives found;
               alternatives = (if alternatives = [] then [found] else alternatives);
               st = record_alternatives alternatives (length tickets) windowTruncated snapshot kind backfill enqueuedAt
                      maxBatchCandidates (st\<lparr>gs_budget := budget\<rparr>)
           in shape_anchors anchors tickets slots snapshot kind backfill existingTeams enqueuedAt windowTruncated
                maxCandidatesPerSearch maxAlternativesPerSearch maxBatchCandidates st)"

definition collectShapeCandidates ::
  "gen_state \<Rightarrow> MatchTicket list \<Rightarrow> int list \<Rightarrow> MatchmakingSnapshot \<Rightarrow> ProposalKind \<Rightarrow> BackfillTarget option
     \<Rightarrow> RosterTeamSummary list \<Rightarrow> Time \<Rightarrow> bool \<Rightarrow> bool \<Rightarrow> int \<Rightarrow> int \<Rightarrow> int \<Rightarrow> gen_state" where
  "collectShapeCandidates st tickets slots snapshot kind backfill existingTeams backfillEnqueuedAt windowTruncated
     includeAnchors maxCandidatesPerSearch maxAlternativesPerSearch maxBatchCandidates =
     shape_anchors ('''' # (if includeAnchors then map mt_ID tickets else [])) tickets slots snapshot kind backfill
       existingTeams backfillEnqueuedAt windowTruncated maxCandidatesPerSearch maxAlternativesPerSearch
       maxBatchCandidates st"
section \<open>Generation\<close>

fun backfill_candidates ::
  "BackfillTicket list \<Rightarrow> MatchTicket list \<Rightarrow> MatchmakingSnapshot \<Rightarrow> bool \<Rightarrow> int \<Rightarrow> int \<Rightarrow> int \<Rightarrow> int \<Rightarrow> gen_state \<Rightarrow> gen_state" where
  "backfill_candidates [] available snapshot includeAnchors maxCandidatesPerSearch shapeAlternatives
     maxBatchCandidates maxCandidateTickets st = st"
| "backfill_candidates (backfill # rest) available snapshot includeAnchors maxCandidatesPerSearch shapeAlternatives
     maxBatchCandidates maxCandidateTickets st =
     (if generation_stopped maxBatchCandidates st then set_truncated True st
      else let window = SelectWindow available (bt_OpenSlotsByTeam backfill) maxCandidateTickets;
               st = collectShapeCandidates st (win_Tickets window) (bt_OpenSlotsByTeam backfill) snapshot ProposalBackfill
                      (Some (BackfillReference backfill)) (bt_ExistingTeams backfill) (bt_EnqueuedAt backfill)
                      (win_Truncated window) includeAnchors maxCandidatesPerSearch shapeAlternatives maxBatchCandidates
           in backfill_candidates rest available snapshot includeAnchors maxCandidatesPerSearch shapeAlternatives
                maxBatchCandidates maxCandidateTickets st)"

definition gen_start :: "searchBudget \<Rightarrow> gen_state" where
  "gen_start budget =
     \<lparr>gs_result = \<lparr>cg_candidates = [], cg_truncated = False, cg_sawHardFailure = False, cg_sawQualityFailure = False\<rparr>,
      gs_indexes = [], gs_budget = budget\<rparr>"

definition singleSelectFastPath :: "MatchTicket list \<Rightarrow> BackfillTicket list \<Rightarrow> MatchmakingSnapshot \<Rightarrow> int \<Rightarrow> int \<Rightarrow> bool" where
  "singleSelectFastPath available backfills snapshot maxCandidatesPerSearch maxSeedProposals \<longleftrightarrow>
     maxCandidatesPerSearch \<ge> defaultMaxCandidatesPerProposal \<and>
     (maxSeedProposals = 1 \<or>
      backfills = [] \<and> \<not> canFillMultipleProposals available (matchSlots (snap_Policy snapshot)))"

text \<open>The last phase: anchored searches for new matches, unless one proposal is all that can be made.\<close>

definition new_match_alternatives ::
  "bool \<Rightarrow> MatchTicket list \<Rightarrow> MatchmakingSnapshot \<Rightarrow> int \<Rightarrow> int \<Rightarrow> int \<Rightarrow> int \<Rightarrow> gen_state \<Rightarrow> gen_state" where
  "new_match_alternatives needsBatchAlternatives available snapshot maxCandidatesPerSearch shapeAlternatives
     maxBatchCandidates maxCandidateTickets st =
     (if needsBatchAlternatives \<and> \<not> generation_stopped maxBatchCandidates st
      then let slots = matchSlots (snap_Policy snapshot); window = SelectWindow available slots maxCandidateTickets
           in collectShapeCandidates st (win_Tickets window) slots snapshot ProposalNewMatch None [] 0
                (win_Truncated window) True maxCandidatesPerSearch shapeAlternatives maxBatchCandidates
      else if needsBatchAlternatives \<and> available \<noteq> [] then set_truncated True st
      else st)"

definition generateProposalCandidates ::
  "MatchTicket list \<Rightarrow> BackfillTicket list \<Rightarrow> MatchmakingSnapshot \<Rightarrow> int \<Rightarrow> int \<Rightarrow> int \<Rightarrow> int \<Rightarrow> searchBudget \<Rightarrow> bool
     \<Rightarrow> candidateGeneration \<times> searchBudget" where
  "generateProposalCandidates available backfills snapshot maxCandidatesPerSearch maxBatchCandidates
     maxSeedProposals maxCandidateTickets budget expandShapeAlternatives =
     (let fastPath = singleSelectFastPath available backfills snapshot maxCandidatesPerSearch maxSeedProposals;
          shapeAlternatives = (if expandShapeAlternatives \<and> \<not> fastPath then maxCandidatesPerSearch else 1);
          st = backfill_candidates backfills available snapshot (\<not> fastPath) maxCandidatesPerSearch shapeAlternatives
                 maxBatchCandidates maxCandidateTickets (gen_start budget);
          st = (if \<not> generation_stopped maxBatchCandidates st
                then collectGreedyCoverCandidates st available (matchSlots (snap_Policy snapshot)) snapshot
                       maxCandidatesPerSearch maxBatchCandidates maxSeedProposals maxCandidateTickets
                else st);
          st = new_match_alternatives (\<not> fastPath) available snapshot maxCandidatesPerSearch shapeAlternatives
                 maxBatchCandidates maxCandidateTickets st;
          st = set_truncated (cg_truncated (gs_result st) \<or> sb_exhausted (gs_budget st)) st
      in (gs_result st, gs_budget st))"

section \<open>Proposals\<close>

definition appendProposalString :: "byte list \<Rightarrow> string \<Rightarrow> byte list" where
  "appendProposalString encoded value = append_string encoded value"

definition append_ref :: "byte list \<Rightarrow> TicketRef \<Rightarrow> byte list" where
  "append_ref encoded reference =
     AppendUint64 (appendProposalString encoded (ref_ID reference)) (ref_Revision reference)"

definition append_team :: "byte list \<Rightarrow> TeamAssignment \<Rightarrow> byte list" where
  "append_team encoded team =
     foldl append_ref
       (AppendUint64 (AppendUint64 encoded (uint64 (int (ta_Team team)))) (uint64 (int (length (ta_Tickets team)))))
       (ta_Tickets team)"

definition proposal_encoding :: "SnapshotID \<Rightarrow> nat \<Rightarrow> MatchProposal \<Rightarrow> byte list" where
  "proposal_encoding snapshotID sequence proposal =
     (let encoded = appendProposalString [] snapshotID;
          encoded = AppendUint64 encoded (uint64 (int sequence));
          encoded = appendProposalString encoded (prop_PolicyVersion proposal);
          encoded = appendProposalString encoded (prop_PolicyFingerprint proposal);
          encoded = appendProposalString encoded (ProposalKind_string (prop_Kind proposal));
          encoded = AppendUint64 encoded (uint64 (int (length (prop_Teams proposal))));
          encoded = foldl append_team encoded (prop_Teams proposal)
      in case prop_Backfill proposal of
           None \<Rightarrow> encoded @ [0]
         | Some target \<Rightarrow>
             AppendUint64 (appendProposalString (append_ref (encoded @ [1]) (tgt_Ticket target)) (tgt_SessionID target))
               (tgt_RosterVersion target))"

definition proposalIdentity :: "hash \<Rightarrow> SnapshotID \<Rightarrow> nat \<Rightarrow> MatchProposal \<Rightarrow> ProposalID" where
  "proposalIdentity sha256 snapshotID sequence proposal =
     snapshotID @ ''/p'' @ decimal4 sequence @ ''/'' @
     hex_EncodeToString (take 16 (sha256 (proposal_encoding snapshotID sequence proposal)))"

definition buildProposal ::
  "hash \<Rightarrow> MatchmakingSnapshot \<Rightarrow> placementSearch \<Rightarrow> nat \<Rightarrow> PolicyFingerprint \<Rightarrow> ProposalKind \<Rightarrow> BackfillTarget option \<Rightarrow> MatchProposal" where
  "buildProposal sha256 snapshot found sequence policyFingerprint kind backfill =
     (let proposal =
        \<lparr>prop_ID = '''', prop_Kind = kind, prop_PolicyVersion = pol_Version (snap_Policy snapshot),
         prop_PolicyFingerprint = policyFingerprint,
         prop_Teams = map (\<lambda>(team, tickets). \<lparr>ta_Team = team, ta_Tickets = map TicketReference tickets\<rparr>)
           (enumerate 0 (ps_placement found)),
         prop_Tickets = concat (map (map TicketReference) (ps_placement found)),
         prop_Backfill = CloneBackfillTarget backfill,
         prop_Evidence = eval_Evidence (ps_evaluation found)\<rparr>
      in proposal\<lparr>prop_ID := proposalIdentity sha256 (snap_ID snapshot) sequence proposal\<rparr>)"

definition batchUnmatchedReason :: "nat \<Rightarrow> int \<Rightarrow> candidateGeneration \<Rightarrow> batchSelection \<Rightarrow> UnmatchedReason" where
  "batchUnmatchedReason proposalCount maxProposals generation selection =
     (if cg_truncated generation \<or> bs_truncated selection then UnmatchedSearchBudget
      else if int proposalCount \<ge> maxProposals then UnmatchedProposalLimit
      else if length (cg_candidates generation) > length (bs_candidates selection) then UnmatchedBatchObjective
      else if cg_sawQualityFailure generation then UnmatchedQualityThreshold
      else if cg_sawHardFailure generation then UnmatchedHardConstraint
      else UnmatchedInsufficientCapacity)"

section \<open>Plan\<close>

text \<open>The limits after the zero values were replaced by the defaults.\<close>

record plan_limits =
  lim_maxProposals :: int
  lim_maxSearchNodes :: int
  lim_maxCandidates :: int
  lim_maxBatchCandidates :: int
  lim_maxBatchSearchNodes :: int
  lim_expanded :: bool

definition limits_of :: "MatchmakingPolicy \<Rightarrow> nat \<Rightarrow> nat \<Rightarrow> plan_limits" where
  "limits_of policy available backfills =
     (let expanded = pol_MaxCandidatesPerProposal policy = 0 \<and> pol_MaxBatchCandidates policy = 0 \<and>
            available \<le> smallQueueTicketLimit \<and> backfills \<le> smallQueueBackfillLimit \<and>
            pol_TeamCount policy \<le> smallQueueTeamLimit
      in \<lparr>lim_maxProposals = (if pol_MaxProposals policy = 0 then defaultMaxProposals else pol_MaxProposals policy),
          lim_maxSearchNodes = (if pol_MaxSearchNodes policy = 0 then defaultMaxSearchNodes else pol_MaxSearchNodes policy),
          lim_maxCandidates = (if pol_MaxCandidatesPerProposal policy = 0
             then if expanded then smallQueueCandidateLimit else defaultMaxCandidatesPerProposal
             else pol_MaxCandidatesPerProposal policy),
          lim_maxBatchCandidates = (if pol_MaxBatchCandidates policy = 0
             then if expanded then smallQueueCandidateLimit else defaultMaxBatchCandidates
             else pol_MaxBatchCandidates policy),
          lim_maxBatchSearchNodes = (if pol_MaxBatchSearchNodes policy = 0
             then defaultMaxBatchSearchNodes else pol_MaxBatchSearchNodes policy),
          lim_expanded = expanded\<rparr>)"

definition build_proposals :: "hash \<Rightarrow> MatchmakingSnapshot \<Rightarrow> PolicyFingerprint \<Rightarrow> proposalCandidate list \<Rightarrow> MatchProposal list" where
  "build_proposals sha256 snapshot fingerprint candidates =
     map (\<lambda>(index, candidate).
        let evaluation = pc_evaluation candidate;
            evaluation = evaluation\<lparr>eval_Evidence := (eval_Evidence evaluation)\<lparr>ev_SelectionUtility := pc_utility candidate\<rparr>\<rparr>
        in buildProposal sha256 snapshot
             (placementSearch_zero\<lparr>ps_placement := pc_placement candidate, ps_evaluation := evaluation, ps_found := True\<rparr>)
             (index + 1) fingerprint (pc_kind candidate) (pc_backfill candidate))
       (enumerate 0 candidates)"

text \<open>The tickets that no selected candidate placed, and those rejected at once, in canonical order.\<close>

definition unmatched_tickets ::
  "MatchTicket list \<Rightarrow> MatchTicket list \<Rightarrow> proposalCandidate list \<Rightarrow> UnmatchedReason \<Rightarrow> UnmatchedTicket list" where
  "unmatched_tickets available hardRejected selected reason =
     (let selectedTickets = concat (map candidate_tickets selected);
          remaining = filter (\<lambda>ticket. mt_ID ticket \<notin> set selectedTickets) available;
          reasons = foldl (\<lambda>reasons ticket. AList.update (mt_ID ticket) UnmatchedHardConstraint reasons)
            (foldl (\<lambda>reasons ticket. AList.update (mt_ID ticket) reason reasons) [] remaining) hardRejected
      in map (\<lambda>ticket. \<lparr>um_Ticket = TicketReference ticket, um_Reason = the (map_of reasons (mt_ID ticket))\<rparr>)
           (sortTickets (remaining @ hardRejected)))"

definition Plan :: "hash \<Rightarrow> MatchmakingSnapshot \<Rightarrow> ProposalBatch result" where
  "Plan sha256 snapshot =
     (case ValidateSnapshot snapshot of Some e \<Rightarrow> Inl e | None \<Rightarrow>
      case FingerprintPolicy sha256 (snap_Policy snapshot) of Inl e \<Rightarrow> Inl e | Inr policyFingerprint \<Rightarrow>
      let policy = snap_Policy snapshot;
          allowed = (\<lambda>ticket. TicketAllowed ticket (pol_TeamSize policy) (pol_MaxLatencyMillis policy));
          available = sortTickets (map CloneMatchTicket (filter allowed (snap_MatchTickets snapshot)));
          hardRejected = map CloneMatchTicket (filter (\<lambda>t. \<not> allowed t) (snap_MatchTickets snapshot));
          backfills = sort_backfills (map CloneBackfillTicket (snap_BackfillTickets snapshot));
          limits = limits_of policy (length available) (length backfills);
          (generation, generationBudget) =
            generateProposalCandidates available backfills snapshot (lim_maxCandidates limits)
              (lim_maxBatchCandidates limits) (lim_maxProposals limits) (pol_MaxCandidateTickets policy)
              \<lparr>sb_max = lim_maxSearchNodes limits, sb_used = 0, sb_exhausted = False\<rparr> (lim_expanded limits);
          generation = generation\<lparr>cg_candidates :=
            rankCandidateUtilities (cg_candidates generation) (lim_maxProposals limits)\<rparr>;
          selection = selectProposalBatch (cg_candidates generation) (lim_maxProposals limits)
            (lim_maxBatchSearchNodes limits) (lim_expanded limits);
          (priorityEligible, oldestPriority) = priorityDemandEvidence (cg_candidates generation);
          (prioritySelected, oldestSelectedPriority) = priorityDemandEvidence (bs_candidates selection);
          proposals = build_proposals sha256 snapshot policyFingerprint (bs_candidates selection);
          reason = batchUnmatchedReason (length proposals) (lim_maxProposals limits) generation selection
      in Inr \<lparr>batch_SnapshotID = snap_ID snapshot,
              batch_Proposals = proposals,
              batch_Unmatched = unmatched_tickets available hardRejected (bs_candidates selection) reason,
              batch_BudgetExhausted = cg_truncated generation \<or> bs_truncated selection,
              batch_Evidence =
                \<lparr>be_CandidateProposals = length (cg_candidates generation),
                 be_SelectedProposals = length (bs_candidates selection),
                 be_SelectedBackfills = bs_selectedBackfills selection,
                 be_WaitPriorityEligibleDemands = priorityEligible,
                 be_WaitPrioritySelectedDemands = prioritySelected,
                 be_OldestWaitPriorityMillis = oldestPriority,
                 be_OldestSelectedPriorityMillis = oldestSelectedPriority,
                 be_TotalUtility = bs_totalUtility selection,
                 be_CandidateGenerationNodes = sb_used generationBudget,
                 be_CandidateGenerationTruncated = cg_truncated generation,
                 be_SelectionNodes = bs_nodes selection,
                 be_SelectionTruncated = bs_truncated selection\<rparr>\<rparr>)"

section \<open>Every generated candidate is a sound placement\<close>

text \<open>What is being filled: the kind, the target, the open slots, and what an evaluation reads of the backfill.\<close>

definition shape_ok ::
  "MatchmakingSnapshot \<Rightarrow> BackfillTicket list \<Rightarrow> ProposalKind \<Rightarrow> BackfillTarget option \<Rightarrow> int list
     \<Rightarrow> RosterTeamSummary list \<Rightarrow> Time \<Rightarrow> bool" where
  "shape_ok snapshot backfills kind target slots existing enq \<longleftrightarrow>
     kind = ProposalNewMatch \<and> target = None \<and> slots = matchSlots (snap_Policy snapshot) \<or>
     (\<exists>b\<in>set backfills. kind = ProposalBackfill \<and> target = Some (BackfillReference b) \<and> slots = bt_OpenSlotsByTeam b \<and>
        existing = bt_ExistingTeams b \<and> enq = bt_EnqueuedAt b)"

text \<open>The fields of an evaluation that score the placement, without those that describe the search for it.\<close>

definition evidence_score :: "ScoreEvidence \<Rightarrow> ScoreEvidence" where
  "evidence_score e = e\<lparr>ev_CandidateTickets := 0, ev_CandidatesEvaluated := 0, ev_SearchNodes := 0,
     ev_CandidateWindowTruncated := False, ev_SearchTruncated := False, ev_SelectionUtility := 0\<rparr>"

definition rating :: "Evaluation \<Rightarrow> Evaluation" where
  "rating e = e\<lparr>eval_Evidence := evidence_score (eval_Evidence e)\<rparr>"

definition shape_evaluation ::
  "MatchmakingSnapshot \<Rightarrow> ProposalKind \<Rightarrow> RosterTeamSummary list \<Rightarrow> Time \<Rightarrow> placement \<Rightarrow> Evaluation" where
  "shape_evaluation snapshot kind existing enq placement =
     (if kind = ProposalBackfill
      then EvaluateBackfill (snap_Now snapshot) placement (snap_Policy snapshot) existing enq
      else Evaluate (snap_Now snapshot) placement (snap_Policy snapshot) kind)"

definition sound_placement ::
  "MatchmakingSnapshot \<Rightarrow> MatchTicket list \<Rightarrow> ProposalKind \<Rightarrow> int list \<Rightarrow> RosterTeamSummary list \<Rightarrow> Time \<Rightarrow> placement
     \<Rightarrow> Evaluation \<Rightarrow> bool" where
  "sound_placement snapshot available kind slots existing enq placement evaluation \<longleftrightarrow>
     mset (concat placement) \<subseteq># mset available \<and> map players_in placement = slots \<and>
     (\<forall>team\<in>set placement. team_hard_ok (snap_Policy snapshot) kind team) \<and> eval_Admissible evaluation \<and>
     rating evaluation = rating (shape_evaluation snapshot kind existing enq placement)"

definition candidate_ok :: "MatchmakingSnapshot \<Rightarrow> MatchTicket list \<Rightarrow> BackfillTicket list \<Rightarrow> proposalCandidate \<Rightarrow> bool" where
  "candidate_ok snapshot available backfills c \<longleftrightarrow>
     (\<exists>slots existing enq. shape_ok snapshot backfills (pc_kind c) (pc_backfill c) slots existing enq \<and>
        sound_placement snapshot available (pc_kind c) slots existing enq (pc_placement c) (pc_evaluation c))"

abbreviation candidates_ok :: "MatchmakingSnapshot \<Rightarrow> MatchTicket list \<Rightarrow> BackfillTicket list \<Rightarrow> gen_state \<Rightarrow> bool" where
  "candidates_ok snapshot available backfills st \<equiv> \<forall>c\<in>set (gs_candidates st). candidate_ok snapshot available backfills c"

lemma set_truncated_sel [simp]:
  "gs_candidates (set_truncated b st) = gs_candidates st" "gs_budget (set_truncated b st) = gs_budget st"
  by (simp_all add: set_truncated_def)

lemma make_candidate_sel [simp]:
  "pc_placement (make_candidate found snapshot kind target enq) = ps_placement found"
  "pc_evaluation (make_candidate found snapshot kind target enq) = ps_evaluation found"
  "pc_kind (make_candidate found snapshot kind target enq) = kind"
  "pc_backfill (make_candidate found snapshot kind target enq) = target"
  by (simp_all add: make_candidate_def Let_def)

lemma recordGeneratedCandidate_ok:
  assumes "candidates_ok snapshot available backfills st" "shape_ok snapshot backfills kind target slots existing enq"
    "ps_found found \<Longrightarrow> sound_placement snapshot available kind slots existing enq (ps_placement found) (ps_evaluation found)"
  shows "candidates_ok snapshot available backfills (recordGeneratedCandidate st found snapshot kind target enq')"
proof -
  let ?c = "make_candidate found snapshot kind target enq'"
  have new: "ps_found found \<Longrightarrow> candidate_ok snapshot available backfills ?c"
    using assms(2,3) by (auto simp: candidate_ok_def)
  show ?thesis
    using assms(1) new
    by (auto simp: recordGeneratedCandidate_def Let_def split: option.splits
        dest!: set_update_subset_insert [THEN subsetD])
qed

lemma prepareSearchEvidence_sel [simp]:
  "ps_found (prepareSearchEvidence found n b) = ps_found found"
  "ps_placement (prepareSearchEvidence found n b) = ps_placement found"
  "rating (ps_evaluation (prepareSearchEvidence found n b)) = rating (ps_evaluation found)"
  by (simp_all add: prepareSearchEvidence_def rating_def evidence_score_def Let_def)

lemma rating_admissible: "rating d = rating e \<Longrightarrow> eval_Admissible d = eval_Admissible e"
  by (cases d; cases e) (simp add: rating_def)

lemma rating_evidence: "rating d = rating e \<Longrightarrow> evidence_score (eval_Evidence d) = evidence_score (eval_Evidence e)"
  by (cases d; cases e) (simp add: rating_def)

lemma same_score_rating: "same_score d e \<Longrightarrow> rating d = rating e"
  by (cases d; cases e; cases "eval_Evidence d"; cases "eval_Evidence e")
    (simp add: same_score_def search_evidence_def rating_def evidence_score_def)

lemma found_ok_sound:
  assumes "found_ok (env_of window snapshot kind existing enq required mc ma) slots placement e"
    "mset window \<subseteq># mset available"
  shows "sound_placement snapshot available kind slots existing enq placement e"
proof -
  let ?env = "env_of window snapshot kind existing enq required mc ma"
  have "e = evaluate_placement ?env placement" "eval_Admissible e" "exact_placement window slots placement"
    using assms(1) unfolding found_ok_def env_of_sel by blast+
  moreover have "evaluate_placement ?env placement = shape_evaluation snapshot kind existing enq placement"
    by (simp add: evaluate_placement_def shape_evaluation_def env_of_def)
  ultimately show ?thesis
    using evaluate_placement_hard [of ?env placement] assms(2)
    by (auto simp: sound_placement_def exact_placement_def intro: subset_mset.order_trans)
qed

lemma sound_placement_cong:
  "sound_placement snapshot available kind slots existing enq placement e \<Longrightarrow> rating d = rating e \<Longrightarrow>
   sound_placement snapshot available kind slots existing enq placement d"
  using rating_admissible [of d e] by (simp add: sound_placement_def)

lemma findBestPlacement_sound':
  assumes "slots_in_range slots" "mset window \<subseteq># mset available"
    "findBestPlacement window slots snapshot kind existing enq required mc ma budget = (found, b)"
  shows "ps_found found \<Longrightarrow> sound_placement snapshot available kind slots existing enq (ps_placement found) (ps_evaluation found)"
    "alternative \<in> set (expandPlacementAlternatives found) \<Longrightarrow>
     sound_placement snapshot available kind slots existing enq (ps_placement alternative) (ps_evaluation alternative)"
proof -
  note sound = findBestPlacement_search_sound [OF assms(1,3)]
  show "sound_placement snapshot available kind slots existing enq (ps_placement found) (ps_evaluation found)" if "ps_found found"
    using sound that unfolding search_sound_def
    by (auto intro: sound_placement_cong [OF found_ok_sound [OF _ assms(2)] same_score_rating])
  assume "alternative \<in> set (expandPlacementAlternatives found)"
  then obtain a where "a \<in> set (ps_alternatives found)" "ps_placement alternative = alt_placement a"
    "same_score (ps_evaluation alternative) (alt_evaluation a)"
    by (auto simp: expandPlacementAlternatives_def)
  with sound show "sound_placement snapshot available kind slots existing enq (ps_placement alternative) (ps_evaluation alternative)"
    unfolding search_sound_def
    by (auto intro: sound_placement_cong [OF found_ok_sound [OF _ assms(2)] same_score_rating])
qed

lemma mset_window: "mset (win_Tickets (SelectWindow ts slots limit)) \<subseteq># mset ts"
proof -
  have "mset (take n (fitting k ts)) \<subseteq># mset (fitting k ts)" for n k
    by (metis append_take_drop_id mset_append mset_subset_eq_add_left)
  moreover have "mset (fitting k ts) \<subseteq># mset ts" for k by (simp add: fitting_def mset_filter)
  ultimately show ?thesis by (auto simp: SelectWindow_conv intro: subset_mset.order_trans)
qed

lemma record_alternatives_ok:
  assumes "shape_ok snapshot backfills kind target slots existing enq"
    "\<forall>a\<in>set alternatives. ps_found a \<longrightarrow> sound_placement snapshot available kind slots existing enq (ps_placement a) (ps_evaluation a)"
  shows "candidates_ok snapshot available backfills st \<Longrightarrow>
    candidates_ok snapshot available backfills (record_alternatives alternatives n b snapshot kind target enq mb st)"
  using assms(2)
proof (induction alternatives arbitrary: st)
  case (Cons a as)
  have "candidates_ok snapshot available backfills
      (recordGeneratedCandidate st (prepareSearchEvidence a n b) snapshot kind target enq)"
    by (rule recordGeneratedCandidate_ok [OF Cons.prems(1) assms(1)])
       (use Cons.prems(2) in \<open>auto intro: sound_placement_cong\<close>)
  with Cons show ?case by (simp add: Let_def)
qed simp

lemma shape_anchors_ok:
  assumes "shape_ok snapshot backfills kind target slots existing enq" "slots_in_range slots" "mset window \<subseteq># mset available"
  shows "candidates_ok snapshot available backfills st \<Longrightarrow>
    candidates_ok snapshot available backfills (shape_anchors anchors window slots snapshot kind target existing enq b mc ma mb st)"
proof (induction anchors arbitrary: st)
  case (Cons anchor anchors)
  let ?ma = "min ma (mb - int (length (gs_candidates st)))"
  obtain found budget where f: "findBestPlacement window slots snapshot kind existing enq anchor mc ?ma (gs_budget st) = (found, budget)"
    by force
  let ?as = "if expandPlacementAlternatives found = [] then [found] else expandPlacementAlternatives found"
  have "\<forall>a\<in>set ?as. ps_found a \<longrightarrow> sound_placement snapshot available kind slots existing enq (ps_placement a) (ps_evaluation a)"
    using findBestPlacement_sound' [OF assms(2,3) f] by auto
  from record_alternatives_ok [OF assms(1) this, of "st\<lparr>gs_budget := budget\<rparr>"] Cons.prems
  have "candidates_ok snapshot available backfills
      (record_alternatives ?as (length window) b snapshot kind target enq mb (st\<lparr>gs_budget := budget\<rparr>))" by simp
  from Cons.IH [OF this] Cons.prems show ?case by (simp add: f Let_def)
qed simp

lemma greedy_cover_ok:
  assumes "shape_ok snapshot backfills ProposalNewMatch None slots [] 0" "slots_in_range slots"
  shows "mset remaining \<subseteq># mset available \<Longrightarrow> candidates_ok snapshot available backfills st \<Longrightarrow>
    candidates_ok snapshot available backfills (greedy_cover seeds remaining slots snapshot mc mb mt st)"
proof (induction seeds arbitrary: remaining st)
  case 0
  then show ?case by (subst greedy_cover.simps) simp
next
  case (Suc seeds)
  let ?window = "SelectWindow remaining slots mt"
  obtain found budget where f: "findBestPlacement (win_Tickets ?window) slots snapshot ProposalNewMatch [] 0 [] mc 1 (gs_budget st) = (found, budget)"
    by force
  let ?found = "prepareSearchEvidence found (length (win_Tickets ?window)) (win_Truncated ?window)"
  let ?st = "recordGeneratedCandidate (st\<lparr>gs_budget := budget\<rparr>) ?found snapshot ProposalNewMatch None 0"
  have "mset (win_Tickets ?window) \<subseteq># mset available"
    using mset_window Suc.prems(1) by (rule subset_mset.order_trans)
  from findBestPlacement_sound'(1) [OF assms(2) this f]
  have ok: "candidates_ok snapshot available backfills ?st"
    by (intro recordGeneratedCandidate_ok [OF _ assms(1)]) (use Suc.prems(2) in \<open>auto intro: sound_placement_cong\<close>)
  have "mset (removePlaced remaining (ps_placement found)) \<subseteq># mset available"
    unfolding removePlaced_def mset_filter using Suc.prems(1) by (metis multiset_filter_subset subset_mset.order_trans)
  from Suc.IH [OF this ok] ok Suc.prems show ?case by (subst greedy_cover.simps) (simp add: f Let_def)
qed

text \<open>The capacities of a snapshot whose teams together hold fewer than \<open>2 ^ 63\<close> players.\<close>

definition capacity_in_range :: "MatchmakingPolicy \<Rightarrow> bool" where
  "capacity_in_range policy \<longleftrightarrow> pol_TeamCount policy * pol_TeamSize policy < 2 ^ 63"

lemma matchSlots_in_range:
  assumes "ValidatePolicy policy = None" "capacity_in_range policy"
  shows "slots_in_range (matchSlots policy)"
  using assms by (auto simp: slots_in_range_def matchSlots_def ValidatePolicy_None capacity_in_range_def sum_list_replicate)

lemma backfill_slots_in_range:
  assumes "ValidatePolicy policy = None" "capacity_in_range policy" "ValidateBackfillTicket b = None" "backfill_fits policy b"
  shows "slots_in_range (bt_OpenSlotsByTeam b)"
proof -
  have nonneg: "\<forall>s\<in>set (bt_OpenSlotsByTeam b). 0 \<le> s" using assms(3) ValidateBackfillTicket_NoneD by blast
  have le: "\<forall>s\<in>set (bt_OpenSlotsByTeam b). s \<le> pol_TeamSize policy"
    using assms(4) by (simp add: backfill_fits_def validate_team_slots_None)
  have "\<forall>s\<in>set xs. s \<le> k \<Longrightarrow> sum_list xs \<le> int (length xs) * k" for xs and k :: int
    by (induction xs) (auto simp: distrib_right)
  from this [OF le] have "sum_list (bt_OpenSlotsByTeam b) \<le> pol_TeamCount policy * pol_TeamSize policy"
    using assms(4) by (simp add: backfill_fits_def)
  with nonneg assms(2) show ?thesis by (simp add: slots_in_range_def capacity_in_range_def)
qed

lemma backfill_candidates_ok:
  assumes "\<forall>b\<in>set bs. b \<in> set backfills \<and> slots_in_range (bt_OpenSlotsByTeam b)"
  shows "candidates_ok snapshot available backfills st \<Longrightarrow>
    candidates_ok snapshot available backfills (backfill_candidates bs available snapshot anchors mc sa mb mt st)"
  using assms
proof (induction bs arbitrary: st)
  case (Cons b bs)
  let ?window = "SelectWindow available (bt_OpenSlotsByTeam b) mt"
  have "shape_ok snapshot backfills ProposalBackfill (Some (BackfillReference b)) (bt_OpenSlotsByTeam b)
      (bt_ExistingTeams b) (bt_EnqueuedAt b)"
    using Cons.prems(2) by (auto simp: shape_ok_def)
  then have "candidates_ok snapshot available backfills
      (collectShapeCandidates st (win_Tickets ?window) (bt_OpenSlotsByTeam b) snapshot ProposalBackfill
         (Some (BackfillReference b)) (bt_ExistingTeams b) (bt_EnqueuedAt b) (win_Truncated ?window) anchors mc sa mb)"
    unfolding collectShapeCandidates_def
    by (rule shape_anchors_ok [OF _ _ mset_window Cons.prems(1)]) (use Cons.prems(2) in simp)
  from Cons.IH [OF this] Cons.prems show ?case by (simp add: Let_def)
qed simp

lemma generateProposalCandidates_ok:
  assumes "slots_in_range (matchSlots (snap_Policy snapshot))" "\<forall>b\<in>set backfills. slots_in_range (bt_OpenSlotsByTeam b)"
    "generateProposalCandidates available backfills snapshot mc mb ms mt budget ex = (generation, budget')"
  shows "\<forall>c\<in>set (cg_candidates generation). candidate_ok snapshot available backfills c"
proof -
  let ?slots = "matchSlots (snap_Policy snapshot)"
  define fast where "fast = singleSelectFastPath available backfills snapshot mc ms"
  define sa where "sa = (if ex \<and> \<not> fast then mc else 1)"
  define st1 where "st1 = backfill_candidates backfills available snapshot (\<not> fast) mc sa mb mt (gen_start budget)"
  define st2 where "st2 = (if \<not> generation_stopped mb st1
    then collectGreedyCoverCandidates st1 available ?slots snapshot mc mb ms mt else st1)"
  define st3 where "st3 = new_match_alternatives (\<not> fast) available snapshot mc sa mb mt st2"
  have shape: "shape_ok snapshot backfills ProposalNewMatch None ?slots [] 0" by (simp add: shape_ok_def)
  have 1: "candidates_ok snapshot available backfills st1"
    unfolding st1_def by (rule backfill_candidates_ok) (use assms(2) in \<open>simp_all add: gen_start_def\<close>)
  have 2: "candidates_ok snapshot available backfills st2"
    unfolding st2_def collectGreedyCoverCandidates_def
    using 1 greedy_cover_ok [OF shape assms(1) subset_mset.order_refl 1] by simp
  have 3: "candidates_ok snapshot available backfills st3"
    unfolding st3_def new_match_alternatives_def collectShapeCandidates_def Let_def
    using 2 shape_anchors_ok [OF shape assms(1) mset_window 2]
    by (simp del: shape_anchors.simps)
  moreover have "cg_candidates generation = gs_candidates st3"
    using assms(3) unfolding generateProposalCandidates_def Let_def
    by (auto simp: st3_def st2_def st1_def sa_def fast_def set_truncated_def)
  ultimately show ?thesis by simp
qed

lemma rank_loop_core:
  "c \<in> set (rank_loop a n i g prev cs) \<Longrightarrow> \<exists>d\<in>set cs. \<exists>u. c = d\<lparr>pc_utility := u\<rparr>"
  by (induction cs arbitrary: i g prev) (auto simp: Let_def)

lemma rank_core:
  "c \<in> set (rankCandidateUtilities cs m) \<Longrightarrow> \<exists>d\<in>set cs. \<exists>u. c = d\<lparr>pc_utility := u\<rparr>"
  unfolding rankCandidateUtilities_def Let_def by (drule rank_loop_core) simp

lemma candidate_ok_cong:
  "pc_placement c = pc_placement d \<Longrightarrow> pc_evaluation c = pc_evaluation d \<Longrightarrow> pc_kind c = pc_kind d \<Longrightarrow>
   pc_backfill c = pc_backfill d \<Longrightarrow> candidate_ok snapshot available backfills d \<Longrightarrow> candidate_ok snapshot available backfills c"
  by (simp add: candidate_ok_def)

lemma candidate_core_eq:
  assumes "candidate_core c = candidate_core d"
  shows "pc_placement c = pc_placement d" "pc_evaluation c = pc_evaluation d" "pc_kind c = pc_kind d" "pc_backfill c = pc_backfill d"
  using assms by (cases c; cases d; simp add: candidate_core_def)+

lemma selection_ok:
  assumes "\<forall>c\<in>set cs. candidate_ok snapshot available backfills c"
    "c \<in> set (bs_candidates (selectProposalBatch (rankCandidateUtilities cs m) m' n b))"
  shows "candidate_ok snapshot available backfills c"
proof -
  have "candidate_core c \<in># image_mset candidate_core (mset (bs_candidates (selectProposalBatch (rankCandidateUtilities cs m) m' n b)))"
    using assms(2) by simp
  then have "candidate_core c \<in># image_mset candidate_core (mset (rankCandidateUtilities cs m))"
    using selectProposalBatch_ok [of "rankCandidateUtilities cs m" m' n b] by (meson mset_subset_eqD)
  then obtain d where d: "d \<in> set (rankCandidateUtilities cs m)" "candidate_core c = candidate_core d" by auto
  from rank_core [OF d(1)] obtain e u where e: "e \<in> set cs" "d = e\<lparr>pc_utility := u\<rparr>" by blast
  then have "candidate_ok snapshot available backfills e" using assms(1) by blast
  then show ?thesis
    by (rule candidate_ok_cong [rotated -1]) (use candidate_core_eq [OF d(2)] e(2) in simp_all)
qed

section \<open>The planned batch\<close>

definition plan_available :: "MatchmakingSnapshot \<Rightarrow> MatchTicket list" where
  "plan_available s = sortTickets (filter (\<lambda>t. TicketAllowed t (pol_TeamSize (snap_Policy s))
     (pol_MaxLatencyMillis (snap_Policy s))) (snap_MatchTickets s))"

definition plan_rejected :: "MatchmakingSnapshot \<Rightarrow> MatchTicket list" where
  "plan_rejected s = filter (\<lambda>t. \<not> TicketAllowed t (pol_TeamSize (snap_Policy s))
     (pol_MaxLatencyMillis (snap_Policy s))) (snap_MatchTickets s)"

lemma Plan_cases:
  assumes "Plan sha256 s = Inr batch"
  obtains fp generation budget m n b reason budget' mc mb mt where "ValidateSnapshot s = None"
    "FingerprintPolicy sha256 (snap_Policy s) = Inr fp"
    "m = lim_maxProposals (limits_of (snap_Policy s) (length (plan_available s)) (length (snap_BackfillTickets s)))"
    "generateProposalCandidates (plan_available s) (sort_backfills (snap_BackfillTickets s)) s mc mb m mt budget b = (generation, budget')"
    "batch_Proposals batch = build_proposals sha256 s fp
       (bs_candidates (selectProposalBatch (rankCandidateUtilities (cg_candidates generation) m) m n b))"
    "batch_Unmatched batch = unmatched_tickets (plan_available s) (plan_rejected s)
       (bs_candidates (selectProposalBatch (rankCandidateUtilities (cg_candidates generation) m) m n b)) reason"
proof -
  have len: "length (sort_backfills (snap_BackfillTickets s)) = length (snap_BackfillTickets s)"
    by (simp add: sort_backfills_def)
  show thesis
    using assms unfolding Plan_def Let_def
    by (auto split: option.splits sum.splits prod.splits intro!: that simp: len map_idI
        simp flip: plan_available_def plan_rejected_def)
qed

lemma plan_backfills_in_range:
  assumes "ValidateSnapshot s = None" "capacity_in_range (snap_Policy s)"
  shows "slots_in_range (matchSlots (snap_Policy s))"
    "\<forall>b\<in>set (sort_backfills (snap_BackfillTickets s)). slots_in_range (bt_OpenSlotsByTeam b)"
proof -
  have p: "ValidatePolicy (snap_Policy s) = None"
    and b: "\<forall>b\<in>set (snap_BackfillTickets s). ValidateBackfillTicket b = None \<and> backfill_fits (snap_Policy s) b"
    using assms(1) by (auto simp: ValidateSnapshot_None)
  show "slots_in_range (matchSlots (snap_Policy s))" by (rule matchSlots_in_range [OF p assms(2)])
  show "\<forall>b\<in>set (sort_backfills (snap_BackfillTickets s)). slots_in_range (bt_OpenSlotsByTeam b)"
    using backfill_slots_in_range [OF p assms(2)] b by (auto simp: sort_backfills_def)
qed

lemma mset_plan_tickets: "mset (plan_available s) + mset (plan_rejected s) = mset (snap_MatchTickets s)"
  by (simp add: plan_available_def plan_rejected_def mset_filter)

text \<open>The candidates a plan selects: sound, disjoint, within the limit.\<close>

definition plan_ok :: "MatchmakingSnapshot \<Rightarrow> proposalCandidate list \<Rightarrow> bool" where
  "plan_ok s cs \<longleftrightarrow> (\<forall>c\<in>set cs. candidate_ok s (plan_available s) (snap_BackfillTickets s) c) \<and> sorted_wrt compatible cs"

lemma candidate_ok_sort_backfills [simp]:
  "candidate_ok s available (sort_backfills bs) c = candidate_ok s available bs c"
  by (simp add: candidate_ok_def shape_ok_def sort_backfills_def)

lemma Plan_selection:
  assumes "Plan sha256 s = Inr batch" "capacity_in_range (snap_Policy s)"
  obtains fp cs reason where "ValidateSnapshot s = None" "FingerprintPolicy sha256 (snap_Policy s) = Inr fp"
    "plan_ok s cs" "batch_Proposals batch = build_proposals sha256 s fp cs"
    "batch_Unmatched batch = unmatched_tickets (plan_available s) (plan_rejected s) cs reason"
    "int (length cs) \<le> (if pol_MaxProposals (snap_Policy s) = 0 then 64 else pol_MaxProposals (snap_Policy s))"
proof -
  from assms(1) obtain fp generation budget m n b reason budget' mc mb mt where v: "ValidateSnapshot s = None"
    "FingerprintPolicy sha256 (snap_Policy s) = Inr fp"
    and m: "m = lim_maxProposals (limits_of (snap_Policy s) (length (plan_available s)) (length (snap_BackfillTickets s)))"
    and g: "generateProposalCandidates (plan_available s) (sort_backfills (snap_BackfillTickets s)) s mc mb m mt budget b = (generation, budget')"
    and batch: "batch_Proposals batch = build_proposals sha256 s fp
       (bs_candidates (selectProposalBatch (rankCandidateUtilities (cg_candidates generation) m) m n b))"
    "batch_Unmatched batch = unmatched_tickets (plan_available s) (plan_rejected s)
       (bs_candidates (selectProposalBatch (rankCandidateUtilities (cg_candidates generation) m) m n b)) reason"
    by (rule Plan_cases)
  let ?cs = "bs_candidates (selectProposalBatch (rankCandidateUtilities (cg_candidates generation) m) m n b)"
  note gen = generateProposalCandidates_ok [OF plan_backfills_in_range [OF v(1) assms(2)] g]
  have ok: "plan_ok s ?cs"
    unfolding plan_ok_def
    using selection_ok [of "cg_candidates generation" s "plan_available s" "snap_BackfillTickets s"] gen
      selectProposalBatch_ok [of "rankCandidateUtilities (cg_candidates generation) m" m n b] by auto
  have "0 \<le> pol_MaxProposals (snap_Policy s)" using v(1) by (simp add: ValidateSnapshot_None ValidatePolicy_None)
  then have "int (length ?cs) \<le> (if pol_MaxProposals (snap_Policy s) = 0 then 64 else pol_MaxProposals (snap_Policy s))"
    using selectProposalBatch_ok [of "rankCandidateUtilities (cg_candidates generation) m" m n b]
    by (auto simp: m limits_of_def Let_def defaultMaxProposals_def split: if_splits)
  with v ok batch show thesis by (rule that)
qed

text \<open>The references of a proposal are those of the candidate's placement.\<close>

lemma map_enumerate:
  "(\<And>i c. f (g i c) = h c) \<Longrightarrow> map f (map (\<lambda>(i, c). g i c) (enumerate n cs)) = map h cs"
  by (induction cs arbitrary: n) simp_all

lemma build_proposals_sel:
  "map prop_Tickets (build_proposals sha256 s fp cs) = map (\<lambda>c. map TicketReference (concat (pc_placement c))) cs"
  "map prop_Backfill (build_proposals sha256 s fp cs) = map pc_backfill cs"
  "length (build_proposals sha256 s fp cs) = length cs"
  unfolding build_proposals_def
  by (rule map_enumerate, simp add: buildProposal_def Let_def map_concat)+ simp

abbreviation placed :: "proposalCandidate list \<Rightarrow> MatchTicket list" where
  "placed cs \<equiv> concat (map (\<lambda>c. concat (pc_placement c)) cs)"

lemma distinct_submset: "mset xs \<subseteq># mset ys \<Longrightarrow> distinct (map f ys) \<Longrightarrow> distinct (map f xs)"
  by (metis distinct_append image_mset_subseteq_mono mset_append mset_eq_imp_distinct_iff mset_map
      subset_mset.add_diff_inverse ex_mset)

lemma plan_available_distinct:
  "ValidateSnapshot s = None \<Longrightarrow> distinct (map mt_ID (plan_available s))"
  by (auto simp: ValidateSnapshot_None plan_available_def sortTickets_def distinct_map_filter)

lemma placed_ids: "set (map mt_ID (placed cs)) = (\<Union>c\<in>set cs. set (candidate_tickets c))"
  by auto

lemma placed_ok:
  assumes "plan_ok s cs" "distinct (map mt_ID (plan_available s))"
  shows "distinct (map mt_ID (placed cs))" "set (placed cs) \<subseteq> set (plan_available s)"
proof -
  have sub: "mset (concat (pc_placement c)) \<subseteq># mset (plan_available s)" if "c \<in> set cs" for c
    using assms(1) that by (auto simp: plan_ok_def candidate_ok_def sound_placement_def)
  show "set (placed cs) \<subseteq> set (plan_available s)" using sub [THEN set_mset_mono] by auto
  have dist: "distinct (candidate_tickets c)" if "c \<in> set cs" for c
    using distinct_submset [OF sub [OF that] assms(2)] .
  have "sorted_wrt compatible cs" using assms(1) by (simp add: plan_ok_def)
  then show "distinct (map mt_ID (placed cs))"
    using dist
  proof (induction cs)
    case (Cons a cs)
    have "set (candidate_tickets a) \<inter> set (map mt_ID (placed cs)) = {}"
      using Cons.prems(1) unfolding placed_ids sorted_wrt.simps compatible_def by blast
    with Cons show ?case unfolding list.map concat.simps map_append distinct_append by simp
  qed simp
qed

lemma mset_partition_ids:
  assumes "distinct (map mt_ID available)" "distinct (map mt_ID xs)" "set xs \<subseteq> set available"
  shows "mset xs + mset (filter (\<lambda>t. mt_ID t \<notin> mt_ID ` set xs) available) = mset available"
proof -
  have "set (filter (\<lambda>t. mt_ID t \<in> mt_ID ` set xs) available) = set xs"
    using assms(1,3) by (auto simp: distinct_map inj_on_def)
  moreover have "distinct (filter (\<lambda>t. mt_ID t \<in> mt_ID ` set xs) available)" "distinct xs"
    using assms(1,2) by (auto simp: distinct_map)
  ultimately have "mset (filter (\<lambda>t. mt_ID t \<in> mt_ID ` set xs) available) = mset xs"
    using set_eq_iff_mset_eq_distinct by blast
  then show ?thesis by (metis mset_filter multiset_partition)
qed

lemma unmatched_refs:
  "mset (map um_Ticket (unmatched_tickets available rejected cs reason)) =
     image_mset TicketReference (mset (filter (\<lambda>t. mt_ID t \<notin> mt_ID ` set (placed cs)) available) + mset rejected)"
proof -
  have "set (concat (map candidate_tickets cs)) = mt_ID ` set (placed cs)" by auto
  then show ?thesis by (simp add: unmatched_tickets_def Let_def comp_def)
qed

lemma proposal_in_build:
  assumes "p \<in> set (build_proposals sha256 s fp cs)"
  obtains i c where "i < length cs" "c = cs ! i" "prop_Kind p = pc_kind c" "prop_Backfill p = pc_backfill c"
    "prop_Teams p = map (\<lambda>(team, tickets). \<lparr>ta_Team = team, ta_Tickets = map TicketReference tickets\<rparr>) (enumerate 0 (pc_placement c))"
    "prop_Tickets p = map TicketReference (concat (pc_placement c))"
    "prop_PolicyVersion p = pol_Version (snap_Policy s)" "prop_PolicyFingerprint p = fp" "prop_ID p \<noteq> ''''"
    "evidence_score (prop_Evidence p) = evidence_score (eval_Evidence (pc_evaluation c))"
  using assms
  by (auto simp: build_proposals_def buildProposal_def Let_def in_set_enumerate_eq map_concat proposalIdentity_def
      evidence_score_def)

lemma teams_of_placement:
  "map ta_Team (map (\<lambda>(team, tickets). \<lparr>ta_Team = team, ta_Tickets = map TicketReference tickets\<rparr>) (enumerate n pl)) = [n..<n + length pl]"
  "concat (map ta_Tickets (map (\<lambda>(team, tickets). \<lparr>ta_Team = team, ta_Tickets = map TicketReference tickets\<rparr>) (enumerate n pl))) =
     map TicketReference (concat pl)"
  by (induction pl arbitrary: n) (simp_all add: upt_conv_Cons del: upt_Suc)

lemma slots_placement_nonempty:
  assumes "map players_in placement = slots" "\<exists>s\<in>set slots. s \<noteq> 0"
  shows "concat placement \<noteq> []"
proof
  assume "concat placement = []"
  then have "\<forall>s\<in>set (map players_in placement). s = 0" by auto
  with assms show False by auto
qed

lemma candidate_slots_nonzero:
  assumes "ValidateSnapshot s = None" "candidate_ok s available (snap_BackfillTickets s) c"
  shows "concat (pc_placement c) \<noteq> []"
proof -
  from assms(2) obtain slots where slots: "map players_in (pc_placement c) = slots"
    "\<exists>existing enq. shape_ok s (snap_BackfillTickets s) (pc_kind c) (pc_backfill c) slots existing enq"
    by (auto simp: candidate_ok_def sound_placement_def)
  have "\<exists>x\<in>set slots. x \<noteq> 0"
    using slots(2) assms(1) ValidateBackfillTicket_vacancy
    by (auto simp: shape_ok_def matchSlots_def ValidateSnapshot_None ValidatePolicy_None)
  with slots(1) show ?thesis by (rule slots_placement_nonempty)
qed

lemma build_proposals_valid:
  assumes v: "ValidateSnapshot s = None" and fp: "fp \<noteq> ''''" and ok: "plan_ok s cs"
    and p: "p \<in> set (build_proposals sha256 s fp cs)"
  shows "ValidateProposal p = None"
proof -
  from p obtain i c where ic: "i < length cs" "c = cs ! i"
    and sel: "prop_Kind p = pc_kind c" "prop_Backfill p = pc_backfill c"
      "prop_Teams p = map (\<lambda>(team, tickets). \<lparr>ta_Team = team, ta_Tickets = map TicketReference tickets\<rparr>) (enumerate 0 (pc_placement c))"
      "prop_Tickets p = map TicketReference (concat (pc_placement c))"
      "prop_PolicyVersion p = pol_Version (snap_Policy s)" "prop_PolicyFingerprint p = fp" "prop_ID p \<noteq> ''''"
    by (rule proposal_in_build)
  have cok: "candidate_ok s (plan_available s) (snap_BackfillTickets s) c" using ok ic by (simp add: plan_ok_def)
  have sub: "mset (concat (pc_placement c)) \<subseteq># mset (plan_available s)"
    using cok by (auto simp: candidate_ok_def sound_placement_def)
  have mem: "set (concat (pc_placement c)) \<subseteq> set (snap_MatchTickets s)"
    using set_mset_mono [OF sub] by (auto simp: plan_available_def)
  have ids: "distinct (map mt_ID (concat (pc_placement c)))"
    using distinct_submset [OF sub plan_available_distinct [OF v]] .
  have ne: "concat (pc_placement c) \<noteq> []" using candidate_slots_nonzero [OF v cok] .
  have refs: "\<forall>r\<in>set (prop_Tickets p). ref_ID r \<noteq> '''' \<and> ref_Revision r \<noteq> 0"
    using mem v unfolding sel(4) by (auto simp: ValidateSnapshot_None ValidateMatchTicket_None)
  have kind: "prop_Kind p = ProposalNewMatch \<and> prop_Backfill p = None \<or>
      prop_Kind p = ProposalBackfill \<and> (\<exists>g. prop_Backfill p = Some g \<and> valid_target g \<and>
        ref_ID (tgt_Ticket g) \<notin> ref_ID ` set (prop_Tickets p))"
  proof -
    from cok consider "pc_kind c = ProposalNewMatch" "pc_backfill c = None"
      | b where "b \<in> set (snap_BackfillTickets s)" "pc_kind c = ProposalBackfill" "pc_backfill c = Some (BackfillReference b)"
      by (auto simp: candidate_ok_def shape_ok_def)
    then show ?thesis
    proof cases
      case 2
      have "valid_target (BackfillReference b)"
        using 2(1) v ValidateBackfillTicket_NoneD [of b] by (simp add: valid_target_def ValidateSnapshot_None)
      moreover have "bt_ID b \<notin> mt_ID ` set (snap_MatchTickets s)" using v 2(1) by (auto simp: ValidateSnapshot_None)
      ultimately show ?thesis using 2 sel(1,2,4) mem by (auto simp: image_image)
    qed (use sel in auto)
  qed
  have "prop_PolicyVersion p \<noteq> ''''" using v sel(5) by (simp add: ValidateSnapshot_None ValidatePolicy_None)
  moreover have "map ta_Team (prop_Teams p) = [0..<length (prop_Teams p)]"
    "concat (map ta_Tickets (prop_Teams p)) = prop_Tickets p"
    unfolding sel(3,4) teams_of_placement by simp_all
  moreover have "prop_Tickets p \<noteq> []" using ne unfolding sel(4) by blast
  moreover from calculation have "prop_Teams p \<noteq> []" by auto
  moreover have "distinct (map ref_ID (prop_Tickets p))" using ids unfolding sel(4) by (simp add: comp_def)
  ultimately show ?thesis unfolding ValidateProposal_None using kind refs sel(6,7) fp by blast
qed

text \<open>The evidence of a proposal scores its placement as the objective does.\<close>

definition scored_as :: "ScoreEvidence \<Rightarrow> Evaluation \<Rightarrow> bool" where
  "scored_as evidence evaluation \<longleftrightarrow>
     eval_Admissible evaluation \<and> evidence_score evidence = evidence_score (eval_Evidence evaluation)"

lemma plan_proposal_placement:
  assumes "Plan sha256 s = Inr batch" "capacity_in_range (snap_Policy s)" "p \<in> set (batch_Proposals batch)"
  obtains placement slots existing enq where
    "map ta_Tickets (prop_Teams p) = map (map TicketReference) placement"
    "set (concat placement) \<subseteq> set (snap_MatchTickets s)"
    "\<forall>team\<in>set placement. team_hard_ok (snap_Policy s) (prop_Kind p) team"
    "shape_ok s (snap_BackfillTickets s) (prop_Kind p) (prop_Backfill p) slots existing enq"
    "map players_in placement = slots"
    "scored_as (prop_Evidence p) (shape_evaluation s (prop_Kind p) existing enq placement)"
    "mset (concat placement) \<subseteq># mset (plan_available s)"
proof -
  from assms(1,2) obtain fp cs where ok: "plan_ok s cs" and batch: "batch_Proposals batch = build_proposals sha256 s fp cs"
    by (rule Plan_selection)
  from assms(3)[unfolded batch] obtain i c where ic: "i < length cs" "c = cs ! i"
    and sel: "prop_Kind p = pc_kind c" "prop_Backfill p = pc_backfill c"
      "prop_Teams p = map (\<lambda>(team, tickets). \<lparr>ta_Team = team, ta_Tickets = map TicketReference tickets\<rparr>) (enumerate 0 (pc_placement c))"
    and ev: "evidence_score (prop_Evidence p) = evidence_score (eval_Evidence (pc_evaluation c))"
    by (rule proposal_in_build)
  have "candidate_ok s (plan_available s) (snap_BackfillTickets s) c" using ok ic by (simp add: plan_ok_def)
  then obtain slots existing enq where shape: "shape_ok s (snap_BackfillTickets s) (pc_kind c) (pc_backfill c) slots existing enq"
    and sound: "sound_placement s (plan_available s) (pc_kind c) slots existing enq (pc_placement c) (pc_evaluation c)"
    unfolding candidate_ok_def by blast
  then have sub: "mset (concat (pc_placement c)) \<subseteq># mset (plan_available s)" by (simp add: sound_placement_def)
  from set_mset_mono [OF this] have "set (concat (pc_placement c)) \<subseteq> set (snap_MatchTickets s)"
    by (auto simp: plan_available_def)
  moreover have "map ta_Tickets (prop_Teams p) = map (map TicketReference) (pc_placement c)"
    unfolding sel(3) by (rule map_enumerate) simp
  moreover have "scored_as (prop_Evidence p) (shape_evaluation s (pc_kind c) existing enq (pc_placement c))"
  proof -
    have r: "rating (pc_evaluation c) = rating (shape_evaluation s (pc_kind c) existing enq (pc_placement c))"
      and "eval_Admissible (pc_evaluation c)" using sound unfolding sound_placement_def by blast+
    then show ?thesis unfolding scored_as_def ev using rating_admissible [OF r] rating_evidence [OF r] by simp
  qed
  ultimately show thesis
    using shape sound sub sel(1,2) by (intro that [of "pc_placement c" slots existing enq]) (simp_all add: sound_placement_def)
qed

text \<open>Sorting makes the plan a function of the set of tickets.\<close>

lemma filter_mset_cong: "mset xs = mset ys \<Longrightarrow> mset (filter P xs) = mset (filter P ys)"
  by (simp add: mset_filter)

lemma reasons_map:
  "map_of (foldl (\<lambda>reasons t. AList.update (mt_ID t) r reasons) m ts) =
     (\<lambda>k. if k \<in> mt_ID ` set ts then Some r else map_of m k)"
  by (induction ts arbitrary: m) (auto simp: update_conv' fun_eq_iff)

lemma unmatched_tickets_permutation:
  assumes "mset rejected = mset rejected'" "distinct (map mt_ID (available @ rejected'))"
  shows "unmatched_tickets available rejected cs reason = unmatched_tickets available rejected' cs reason"
proof -
  let ?remaining = "filter (\<lambda>t. mt_ID t \<notin> set (concat (map candidate_tickets cs))) available"
  have "distinct (map mt_ID (?remaining @ rejected'))"
    using assms(2) by (auto simp: distinct_map_filter)
  then have "sortTickets (?remaining @ rejected) = sortTickets (?remaining @ rejected')"
    using assms(1) by (intro sortTickets_permutation) auto
  moreover have "set rejected = set rejected'" using assms(1) by (rule mset_eq_setD)
  ultimately show ?thesis unfolding unmatched_tickets_def Let_def reasons_map by simp
qed

lemma ValidateSnapshot_permutation:
  assumes "snap_ID s = snap_ID s'" "snap_Now s = snap_Now s'" "snap_Policy s = snap_Policy s'"
    "mset (snap_MatchTickets s) = mset (snap_MatchTickets s')" "mset (snap_BackfillTickets s) = mset (snap_BackfillTickets s')"
    "ValidateSnapshot s' = None"
  shows "ValidateSnapshot s = None"
proof -
  have sets: "set (snap_MatchTickets s) = set (snap_MatchTickets s')" "set (snap_BackfillTickets s) = set (snap_BackfillTickets s')"
    using assms(4,5) by (auto dest: mset_eq_setD)
  have "mset (map mt_ID (snap_MatchTickets s) @ map bt_ID (snap_BackfillTickets s)) =
      mset (map mt_ID (snap_MatchTickets s') @ map bt_ID (snap_BackfillTickets s'))" using assms(4,5) by simp
  then have ids: "distinct (map mt_ID (snap_MatchTickets s) @ map bt_ID (snap_BackfillTickets s)) \<longleftrightarrow>
      distinct (map mt_ID (snap_MatchTickets s') @ map bt_ID (snap_BackfillTickets s'))"
    by (rule mset_eq_imp_distinct_iff)
  have "mset (concat (map ticket_player_IDs (snap_MatchTickets s))) = mset (concat (map ticket_player_IDs (snap_MatchTickets s')))"
  proof -
    have "mset (concat (map f xs)) = sum_mset (image_mset (\<lambda>x. mset (f x)) (mset xs))" for f :: "MatchTicket \<Rightarrow> PlayerID list" and xs
      by (induction xs) simp_all
    with assms(4) show ?thesis by simp
  qed
  then have "distinct (concat (map ticket_player_IDs (snap_MatchTickets s))) \<longleftrightarrow>
      distinct (concat (map ticket_player_IDs (snap_MatchTickets s')))" by (rule mset_eq_imp_distinct_iff)
  with assms ids sets show ?thesis unfolding ValidateSnapshot_None by simp
qed

text \<open>The searches read the snapshot only for its policy and its time.\<close>

abbreviation same_rules :: "MatchmakingSnapshot \<Rightarrow> MatchmakingSnapshot \<Rightarrow> bool" where
  "same_rules s s' \<equiv> snap_Now s = snap_Now s' \<and> snap_Policy s = snap_Policy s'"

lemma search_snapshot:
  assumes "same_rules s s'"
  shows "search (env\<lparr>se_snapshot := s\<rparr>) index tickets needed remaining skills assigned st =
    search (env\<lparr>se_snapshot := s'\<rparr>) index tickets needed remaining skills assigned st"
proof -
  have "evaluate_placement (env\<lparr>se_snapshot := s\<rparr>) = evaluate_placement (env\<lparr>se_snapshot := s'\<rparr>)"
    using assms by (intro ext) (simp add: evaluate_placement_def)
  then have "record_exact (env\<lparr>se_snapshot := s\<rparr>) = record_exact (env\<lparr>se_snapshot := s'\<rparr>)"
    by (intro ext) (simp add: record_exact_def Let_def)
  then have leaf: "search_leaf (env\<lparr>se_snapshot := s\<rparr>) a t = search_leaf (env\<lparr>se_snapshot := s'\<rparr>) a t" for a t
    by (simp add: search_leaf_def Let_def)
  show ?thesis
  proof (induction tickets arbitrary: index needed remaining skills assigned st)
    case Nil
    then show ?case by (simp add: search_Nil leaf)
  next
    case (Cons t rest)
    have "place_search (env\<lparr>se_snapshot := s\<rparr>) index t rest needed remaining skills assigned =
        place_search (env\<lparr>se_snapshot := s'\<rparr>) index t rest needed remaining skills assigned"
      by (intro ext) (simp add: place_search_def Cons.IH)
    then show ?case by (simp add: search_Cons leaf Cons.IH Let_def)
  qed
qed

lemma findBestPlacement_snapshot:
  assumes "same_rules s s'"
  shows "findBestPlacement ts slots s kind ex enq req mc ma b = findBestPlacement ts slots s' kind ex enq req mc ma b"
proof -
  define env where "env = (\<lambda>s required. \<lparr>se_tickets = ts, se_snapshot = s, se_kind = kind, se_existingTeams = ex,
      se_backfillEnqueuedAt = enq, se_requiredIndex = required, se_maxCandidates = mc, se_maxAlternatives = ma\<rparr>)"
  have "search (env s r) = search (env s' r)" for r
    using search_snapshot [OF assms, of "env s r"] by (intro ext) (simp add: env_def)
  then show ?thesis unfolding findBestPlacement_def Let_def env_def by (simp only:)
qed

lemma recordGeneratedCandidate_snapshot:
  "same_rules s s' \<Longrightarrow> recordGeneratedCandidate st f s kind target enq = recordGeneratedCandidate st f s' kind target enq"
proof -
  assume "same_rules s s'"
  then have "placementPriorityDemands s = placementPriorityDemands s'"
    by (intro ext) (simp add: placementPriorityDemands_def)
  then have "make_candidate f s kind target enq = make_candidate f s' kind target enq"
    using \<open>same_rules s s'\<close> unfolding make_candidate_def by (simp only:)
  then show ?thesis unfolding recordGeneratedCandidate_def by (simp only:)
qed

lemma record_alternatives_snapshot:
  "same_rules s s' \<Longrightarrow> record_alternatives as n b s kind target enq mb st = record_alternatives as n b s' kind target enq mb st"
  by (induction as arbitrary: st) (simp_all add: recordGeneratedCandidate_snapshot [of s s'] Let_def)

lemma shape_anchors_snapshot:
  "same_rules s s' \<Longrightarrow> shape_anchors as ts slots s kind target ex enq b mc ma mb st =
     shape_anchors as ts slots s' kind target ex enq b mc ma mb st"
  by (induction as arbitrary: st)
     (simp_all add: record_alternatives_snapshot [of s s'] findBestPlacement_snapshot [of s s'] Let_def)

lemma greedy_cover_snapshot:
  "same_rules s s' \<Longrightarrow> greedy_cover n ts slots s mc mb mt st = greedy_cover n ts slots s' mc mb mt st"
proof (induction n arbitrary: ts st)
  case 0
  then show ?case by (simp add: greedy_cover.simps [of 0])
next
  case (Suc n)
  then show ?case
    by (simp add: greedy_cover.simps [of "Suc n"] recordGeneratedCandidate_snapshot [of s s']
        findBestPlacement_snapshot [of s s'] Let_def split_beta)
qed

lemma backfill_candidates_snapshot:
  "same_rules s s' \<Longrightarrow> backfill_candidates bs ts s a mc sa mb mt st = backfill_candidates bs ts s' a mc sa mb mt st"
  by (induction bs arbitrary: st) (simp_all add: collectShapeCandidates_def shape_anchors_snapshot [of s s'] Let_def
      del: shape_anchors.simps)

lemma generateProposalCandidates_snapshot:
  "same_rules s s' \<Longrightarrow> generateProposalCandidates ts bs s mc mb ms mt b ex = generateProposalCandidates ts bs s' mc mb ms mt b ex"
  unfolding generateProposalCandidates_def new_match_alternatives_def collectGreedyCoverCandidates_def
    collectShapeCandidates_def singleSelectFastPath_def
  by (simp only: greedy_cover_snapshot [of s s'] shape_anchors_snapshot [of s s'] backfill_candidates_snapshot [of s s'])

lemma build_proposals_snapshot:
  "snap_ID s = snap_ID s' \<Longrightarrow> snap_Policy s = snap_Policy s' \<Longrightarrow> build_proposals sha256 s fp cs = build_proposals sha256 s' fp cs"
  by (simp add: build_proposals_def buildProposal_def)

section \<open>Properties\<close>

definition ex_hash :: hash where
  "ex_hash bytes = [7]"

definition ex_plan :: ProposalBatch where
  "ex_plan = projr (Plan ex_hash ex_duel_snapshot)"

lemma ex_plan: "Plan ex_hash ex_duel_snapshot = Inr ex_plan"
proof -
  have "isl (Plan ex_hash ex_duel_snapshot) = False" by code_simp
  then show ?thesis by (simp add: ex_plan_def)
qed

lemma Plan_valid_proposals:
  assumes "Plan sha256 snapshot = Inr batch" "capacity_in_range (snap_Policy snapshot)" "\<And>bytes. sha256 bytes \<noteq> []"
    "proposal \<in> set (batch_Proposals batch)"
  shows "ValidateProposal proposal = None"
proof -
  from assms(1,2) obtain fp cs where v: "ValidateSnapshot snapshot = None" "FingerprintPolicy sha256 (snap_Policy snapshot) = Inr fp"
    and ok: "plan_ok snapshot cs" and batch: "batch_Proposals batch = build_proposals sha256 snapshot fp cs"
    by (rule Plan_selection)
  have "fp = hex_EncodeToString (sha256 (policy_encoding (snap_Policy snapshot)))"
    using v(2) by (simp add: FingerprintPolicy_def split: option.splits)
  then have "length fp = 2 * length (sha256 (policy_encoding (snap_Policy snapshot)))" by simp
  then have "fp \<noteq> []" using assms(3) by auto
  with build_proposals_valid [OF v(1) _ ok] assms(4) show ?thesis unfolding batch by blast
qed

lemma Plan_ids_distinct:
  assumes "Plan sha256 snapshot = Inr batch" "capacity_in_range (snap_Policy snapshot)"
  shows "distinct (map prop_ID (batch_Proposals batch))"
proof -
  from assms obtain fp cs where batch: "batch_Proposals batch = build_proposals sha256 snapshot fp cs"
    by (rule Plan_selection)
  have ids: "\<exists>h. prop_ID (build_proposals sha256 snapshot fp cs ! i) = snap_ID snapshot @ ''/p'' @ decimal4 (Suc i) @ ''/'' @ h"
    if "i < length cs" for i
    using that by (auto simp: build_proposals_def nth_enumerate_eq buildProposal_def Let_def proposalIdentity_def)
  show ?thesis unfolding batch distinct_conv_nth
  proof (intro allI impI)
    fix i j
    assume "i < length (map prop_ID (build_proposals sha256 snapshot fp cs))"
      "j < length (map prop_ID (build_proposals sha256 snapshot fp cs))" "i \<noteq> j"
    then have ij: "i < length cs" "j < length cs" by (simp_all add: build_proposals_sel(3))
    show "map prop_ID (build_proposals sha256 snapshot fp cs) ! i \<noteq> map prop_ID (build_proposals sha256 snapshot fp cs) ! j"
    proof
      assume "map prop_ID (build_proposals sha256 snapshot fp cs) ! i = map prop_ID (build_proposals sha256 snapshot fp cs) ! j"
      with ids [OF ij(1)] ids [OF ij(2)] ij obtain h k where
        "decimal4 (Suc j) @ ''/'' @ h = decimal4 (Suc i) @ ''/'' @ k" by (auto simp: build_proposals_sel(3))
      then have "Suc j = Suc i" by (rule decimal4_slash_prefix)
      with \<open>i \<noteq> j\<close> show False by simp
    qed
  qed
qed

lemma Plan_accounts:
  assumes "Plan sha256 snapshot = Inr batch" "capacity_in_range (snap_Policy snapshot)"
  shows "mset (concat (map prop_Tickets (batch_Proposals batch))) + mset (map um_Ticket (batch_Unmatched batch)) =
    mset (map TicketReference (snap_MatchTickets snapshot))"
proof -
  from assms obtain fp cs reason where v: "ValidateSnapshot snapshot = None" and ok: "plan_ok snapshot cs"
    and batch: "batch_Proposals batch = build_proposals sha256 snapshot fp cs"
    "batch_Unmatched batch = unmatched_tickets (plan_available snapshot) (plan_rejected snapshot) cs reason"
    by (rule Plan_selection)
  note ids = plan_available_distinct [OF v]
  have "concat (map prop_Tickets (batch_Proposals batch)) = map TicketReference (placed cs)"
    unfolding batch build_proposals_sel by (simp add: map_concat comp_def)
  then have "mset (concat (map prop_Tickets (batch_Proposals batch))) + mset (map um_Ticket (batch_Unmatched batch)) =
      image_mset TicketReference (mset (placed cs) +
        mset (filter (\<lambda>t. mt_ID t \<notin> mt_ID ` set (placed cs)) (plan_available snapshot)) + mset (plan_rejected snapshot))"
    unfolding batch unmatched_refs by simp
  also have "\<dots> = image_mset TicketReference (mset (snap_MatchTickets snapshot))"
    unfolding mset_partition_ids [OF ids placed_ok [OF ok ids]] mset_plan_tickets ..
  finally show ?thesis by simp
qed

text \<open>
  C4. A plan accounts for every ticket exactly once: the references placed by the proposals together
  with the unmatched references are the match tickets of the snapshot. So no ticket is in two
  proposals, none is lost, and none is both placed and reported unmatched.
\<close>

theorem Plan_partition:
  assumes "Plan sha256 snapshot = Inr batch" "capacity_in_range (snap_Policy snapshot)"
  shows "mset (concat (map prop_Tickets (batch_Proposals batch))) + mset (map um_Ticket (batch_Unmatched batch)) =
    mset (map TicketReference (snap_MatchTickets snapshot))"
  using assms by (rule Plan_accounts)

theorem Plan_partition_witness:
  "batch_Proposals ex_plan \<noteq> [] \<and>
   mset (concat (map prop_Tickets (batch_Proposals ex_plan))) + mset (map um_Ticket (batch_Unmatched ex_plan)) =
     mset (map TicketReference (snap_MatchTickets ex_duel_snapshot))"
proof -
  have "batch_Proposals ex_plan \<noteq> []" "capacity_in_range (snap_Policy ex_duel_snapshot)" by code_simp+
  with Plan_partition [OF ex_plan] show ?thesis by blast
qed

text \<open>
  Every proposal of a plan passes \<open>ValidateProposal\<close>, the check the coordinator makes before it
  reserves, provided the hash never returns the empty string.
\<close>

theorem Plan_proposals_valid:
  assumes "Plan sha256 snapshot = Inr batch" "capacity_in_range (snap_Policy snapshot)" "\<And>bytes. sha256 bytes \<noteq> []"
    "proposal \<in> set (batch_Proposals batch)"
  shows "ValidateProposal proposal = None"
  using assms by (rule Plan_valid_proposals)

theorem Plan_proposals_valid_witness:
  "ValidateProposal (hd (batch_Proposals ex_plan)) = None \<and> hd (batch_Proposals ex_plan) \<in> set (batch_Proposals ex_plan)"
proof -
  have "batch_Proposals ex_plan \<noteq> []" by code_simp
  then have mem: "hd (batch_Proposals ex_plan) \<in> set (batch_Proposals ex_plan)" by simp
  have cap: "capacity_in_range (snap_Policy ex_duel_snapshot)" by code_simp
  from Plan_proposals_valid [OF ex_plan cap _ mem] mem show ?thesis by (simp add: ex_hash_def)
qed

text \<open>
  C5. Every proposal is a sound placement. Its teams are filled to the last slot: by the team size for
  a new match, by the open slots of a backfill ticket of the snapshot otherwise. Every placed party
  is a ticket of the snapshot, every team obeys the latency cap and, in a new match, the hard
  role requirements, and the evidence carried by the proposal is the score of exactly this placement,
  which is admissible.
\<close>

theorem Plan_proposals_sound:
  assumes "Plan sha256 snapshot = Inr batch" "capacity_in_range (snap_Policy snapshot)"
    "proposal \<in> set (batch_Proposals batch)"
  shows "\<exists>placement.
    map ta_Tickets (prop_Teams proposal) = map (map TicketReference) placement \<and>
    set (concat placement) \<subseteq> set (snap_MatchTickets snapshot) \<and>
    (\<forall>team\<in>set placement. team_hard_ok (snap_Policy snapshot) (prop_Kind proposal) team) \<and>
    (prop_Kind proposal = ProposalNewMatch \<and> prop_Backfill proposal = None \<and>
       map players_in placement = matchSlots (snap_Policy snapshot) \<and>
       scored_as (prop_Evidence proposal) (Evaluate (snap_Now snapshot) placement (snap_Policy snapshot) ProposalNewMatch) \<or>
     (\<exists>b\<in>set (snap_BackfillTickets snapshot). prop_Kind proposal = ProposalBackfill \<and>
        prop_Backfill proposal = Some (BackfillReference b) \<and> map players_in placement = bt_OpenSlotsByTeam b \<and>
        scored_as (prop_Evidence proposal) (EvaluateBackfill (snap_Now snapshot) placement (snap_Policy snapshot)
          (bt_ExistingTeams b) (bt_EnqueuedAt b))))"
proof -
  from assms obtain placement slots existing enq where p:
    "map ta_Tickets (prop_Teams proposal) = map (map TicketReference) placement"
    "set (concat placement) \<subseteq> set (snap_MatchTickets snapshot)"
    "\<forall>team\<in>set placement. team_hard_ok (snap_Policy snapshot) (prop_Kind proposal) team"
    "shape_ok snapshot (snap_BackfillTickets snapshot) (prop_Kind proposal) (prop_Backfill proposal) slots existing enq"
    "map players_in placement = slots"
    "scored_as (prop_Evidence proposal) (shape_evaluation snapshot (prop_Kind proposal) existing enq placement)"
    by (rule plan_proposal_placement)
  show ?thesis
    using p unfolding shape_ok_def shape_evaluation_def
    by (intro exI [of _ placement]) (elim disjE bexE conjE; simp; blast)
qed

theorem Plan_proposals_sound_witness:
  "\<exists>placement. map ta_Tickets (prop_Teams (hd (batch_Proposals ex_plan))) = map (map TicketReference) placement \<and>
     set (concat placement) \<subseteq> set (snap_MatchTickets ex_duel_snapshot)"
proof -
  have "batch_Proposals ex_plan \<noteq> []" by code_simp
  then have mem: "hd (batch_Proposals ex_plan) \<in> set (batch_Proposals ex_plan)" by simp
  have cap: "capacity_in_range (snap_Policy ex_duel_snapshot)" by code_simp
  from Plan_proposals_sound [OF ex_plan cap mem] show ?thesis by blast
qed

text \<open>
  C6. The plan does not depend on the order in which the snapshot lists its tickets: two valid
  snapshots with the same tickets in any order have the same batch, including the identities of the
  proposals and the order of the unmatched tickets.
\<close>

theorem Plan_permutation:
  assumes "ValidateSnapshot snapshot = None"
    "mset tickets = mset (snap_MatchTickets snapshot)" "mset backfills = mset (snap_BackfillTickets snapshot)"
  shows "Plan sha256 (snapshot\<lparr>snap_MatchTickets := tickets, snap_BackfillTickets := backfills\<rparr>) = Plan sha256 snapshot"
proof -
  let ?s = "snapshot\<lparr>snap_MatchTickets := tickets, snap_BackfillTickets := backfills\<rparr>"
  have ids: "distinct (map mt_ID (snap_MatchTickets snapshot))" "distinct (map bt_ID (snap_BackfillTickets snapshot))"
    using assms(1) by (auto simp: ValidateSnapshot_None)
  have v: "ValidateSnapshot ?s = None"
    using assms by (intro ValidateSnapshot_permutation [of ?s snapshot]) simp_all
  have av: "plan_available ?s = plan_available snapshot"
    unfolding plan_available_def using assms(2) ids(1)
    by (intro sortTickets_permutation) (auto simp: mset_filter distinct_map_filter)
  have rej: "mset (plan_rejected ?s) = mset (plan_rejected snapshot)"
    using assms(2) by (simp add: plan_rejected_def mset_filter)
  have bf: "sort_backfills backfills = sort_backfills (snap_BackfillTickets snapshot)"
    by (rule sort_backfills_permutation [OF assms(3) ids(2)])
  have "distinct (map mt_ID (plan_available snapshot @ plan_rejected snapshot))"
    using ids(1) mset_plan_tickets [of snapshot] by (metis mset_append mset_eq_imp_distinct_iff mset_map)
  note um = unmatched_tickets_permutation [OF rej this]
  have gen: "generateProposalCandidates ts bs ?s = generateProposalCandidates ts bs snapshot" for ts bs
    by (intro ext generateProposalCandidates_snapshot) simp
  have built: "build_proposals sha256 ?s = build_proposals sha256 snapshot"
    by (intro ext build_proposals_snapshot) simp_all
  have clone: "map CloneMatchTicket xs = xs" "map CloneBackfillTicket ys = ys" for xs ys by (simp_all add: map_idI)
  have sel: "snap_Policy ?s = snap_Policy snapshot" "snap_ID ?s = snap_ID snapshot" "snap_BackfillTickets ?s = backfills"
    by simp_all
  show ?thesis
    unfolding Plan_def Let_def clone plan_available_def [symmetric] plan_rejected_def [symmetric]
    by (simp only: assms(1) v av bf gen built um sel)
qed

theorem Plan_permutation_witness:
  "ValidateSnapshot ex_duel_snapshot = None \<and>
   Plan ex_hash (ex_duel_snapshot\<lparr>snap_MatchTickets := rev (snap_MatchTickets ex_duel_snapshot),
     snap_BackfillTickets := []\<rparr>) = Plan ex_hash ex_duel_snapshot"
proof -
  have v: "ValidateSnapshot ex_duel_snapshot = None" by code_simp
  have b: "snap_BackfillTickets ex_duel_snapshot = []" by code_simp
  from Plan_permutation [OF v, of "rev (snap_MatchTickets ex_duel_snapshot)" "[]" ex_hash] b v show ?thesis by simp
qed

text \<open>
  \<open>Plan\<close> is total and fails exactly as the validation of the snapshot fails; the fingerprint never
  adds a failure. A plan has at most as many proposals as the policy allows (64 when it does not say).
\<close>

theorem Plan_result:
  "(Plan sha256 snapshot = Inl e \<longleftrightarrow> ValidateSnapshot snapshot = Some e) \<and>
   (capacity_in_range (snap_Policy snapshot) \<longrightarrow> (\<forall>batch. Plan sha256 snapshot = Inr batch \<longrightarrow>
      int (length (batch_Proposals batch)) \<le>
        (if pol_MaxProposals (snap_Policy snapshot) = 0 then 64 else pol_MaxProposals (snap_Policy snapshot))))"
proof (intro conjI impI allI)
  have "ValidateSnapshot snapshot = None \<Longrightarrow> ValidatePolicy (snap_Policy snapshot) = None"
    by (simp add: ValidateSnapshot_None)
  then show "Plan sha256 snapshot = Inl e \<longleftrightarrow> ValidateSnapshot snapshot = Some e"
    by (auto simp: Plan_def FingerprintPolicy_def Let_def split_beta split: option.splits)
  fix batch
  assume "capacity_in_range (snap_Policy snapshot)" "Plan sha256 snapshot = Inr batch"
  from this(2,1) obtain fp cs where "batch_Proposals batch = build_proposals sha256 snapshot fp cs"
    "int (length cs) \<le> (if pol_MaxProposals (snap_Policy snapshot) = 0 then 64 else pol_MaxProposals (snap_Policy snapshot))"
    by (rule Plan_selection)
  then show "int (length (batch_Proposals batch)) \<le>
      (if pol_MaxProposals (snap_Policy snapshot) = 0 then 64 else pol_MaxProposals (snap_Policy snapshot))"
    by (simp add: build_proposals_sel(3))
qed

theorem Plan_result_witness:
  "int (length (batch_Proposals ex_plan)) \<le> 64 \<and> batch_Proposals ex_plan \<noteq> []"
proof -
  have "batch_Proposals ex_plan \<noteq> []" "capacity_in_range (snap_Policy ex_duel_snapshot)"
    "pol_MaxProposals (snap_Policy ex_duel_snapshot) = 0" by code_simp+
  with Plan_result [of ex_hash ex_duel_snapshot] ex_plan show ?thesis by auto
qed

text \<open>
  The proposals of one plan have distinct identities, whatever the hash function: the sequence
  number is part of the identity and can be read back from it.
\<close>

theorem Plan_identities_distinct:
  assumes "Plan sha256 snapshot = Inr batch" "capacity_in_range (snap_Policy snapshot)"
  shows "distinct (map prop_ID (batch_Proposals batch))"
  using assms by (rule Plan_ids_distinct)

theorem Plan_identities_distinct_witness:
  "batch_Proposals ex_plan \<noteq> [] \<and> distinct (map prop_ID (batch_Proposals ex_plan))"
proof -
  have "batch_Proposals ex_plan \<noteq> []" "capacity_in_range (snap_Policy ex_duel_snapshot)" by code_simp+
  with Plan_identities_distinct [OF ex_plan] show ?thesis by blast
qed

end
