(* ===== verification/Go_Map.thy ===== *)
theory Go_Map
  imports Prelude "HOL-Library.AList"
begin

text \<open>
  Go's built-in maps. A map is an association list whose keys are distinct: the list order stands for
  the order in which \<open>range\<close> happens to visit the entries, which Go leaves open. \<open>AList.update\<close> is
  the assignment \<open>m[k] = v\<close>, \<open>AList.delete\<close> is \<open>delete(m, k)\<close>, \<open>map_of\<close> the two-valued read and
  \<open>map_get\<close> the one-valued read, which gives the zero value where the key is absent.
\<close>

type_synonym ('k, 'v) go_map = "('k \<times> 'v) list"

definition map_get :: "'v \<Rightarrow> ('k, 'v) go_map \<Rightarrow> 'k \<Rightarrow> 'v" where
  "map_get zero m k = (case map_of m k of None \<Rightarrow> zero | Some v \<Rightarrow> v)"

abbreviation keys_distinct :: "('k, 'v) go_map \<Rightarrow> bool" where
  "keys_distinct m \<equiv> distinct (map fst m)"

lemma map_of_update [simp]: "map_of (AList.update k v m) = (map_of m)(k \<mapsto> v)"
  by (rule update_conv')

lemma map_of_delete [simp]: "map_of (AList.delete k m) = (map_of m)(k := None)"
  by (rule delete_conv')

lemma keys_distinct_update [simp]: "keys_distinct m \<Longrightarrow> keys_distinct (AList.update k v m)"
  by (rule distinct_update)

lemma keys_distinct_delete [simp]: "keys_distinct m \<Longrightarrow> keys_distinct (AList.delete k m)"
  by (rule distinct_delete)

lemma keys_distinct_foldl:
  assumes "\<And>m x. keys_distinct m \<Longrightarrow> keys_distinct (f m x)"
  shows "keys_distinct m \<Longrightarrow> keys_distinct (foldl f m xs)"
  using assms by (induction xs arbitrary: m) simp_all

section \<open>Loops over keys\<close>

text \<open>\<open>for _, x := range xs { m[key(x)] = v }\<close>\<close>

lemma map_of_assign_all:
  "map_of (foldl (\<lambda>m x. AList.update (key x) v m) m xs) k = (if k \<in> key ` set xs then Some v else map_of m k)"
  by (induction xs arbitrary: m) auto

text \<open>\<open>for _, x := range xs { delete(m, key(x)) }\<close>\<close>

lemma map_of_delete_all:
  "map_of (foldl (\<lambda>m x. AList.delete (key x) m) m xs) k = (if k \<in> key ` set xs then None else map_of m k)"
  by (induction xs arbitrary: m) auto

text \<open>\<open>for _, x := range xs { if m[key(x)] == v { delete(m, key(x)) } }\<close>: an absent key reads as the
  zero value, but then there is nothing to delete.\<close>

definition delete_if :: "'v \<Rightarrow> 'v \<Rightarrow> 'k \<Rightarrow> ('k, 'v) go_map \<Rightarrow> ('k, 'v) go_map" where
  "delete_if zero v k m = (if map_get zero m k = v then AList.delete k m else m)"

lemma map_of_delete_if:
  "map_of (delete_if zero v k m) = (if map_of m k = Some v then (map_of m)(k := None) else map_of m)"
  by (auto simp: delete_if_def map_get_def split: option.splits)

lemma keys_distinct_delete_if [simp]: "keys_distinct m \<Longrightarrow> keys_distinct (delete_if zero v k m)"
  by (simp add: delete_if_def)

lemma map_of_delete_if_all:
  "map_of (foldl (\<lambda>m x. delete_if zero v (key x) m) m xs) k =
     (if k \<in> key ` set xs \<and> map_of m k = Some v then None else map_of m k)"
  by (induction xs arbitrary: m) (auto simp: map_of_delete_if)

section \<open>Ranges\<close>

lemma mem_range_iff: "keys_distinct m \<Longrightarrow> (k, v) \<in> set m \<longleftrightarrow> map_of m k = Some v"
  by (rule map_of_eq_Some_iff [symmetric])

lemma distinct_range_key:
  assumes "keys_distinct m" "\<And>k v. map_of m k = Some v \<Longrightarrow> key v = k"
  shows "distinct (map key (map snd m))"
proof -
  have "map key (map snd m) = map fst m" using assms by auto
  with assms(1) show ?thesis by presburger
qed

lemma mset_eq_of_map_of:
  assumes "keys_distinct m" "keys_distinct n" "map_of m = map_of n"
  shows "mset m = mset n"
proof -
  have "distinct m" "distinct n" using assms by (auto simp: distinct_map)
  moreover have "set m = set n" using assms map_of_inject_set by blast
  ultimately show ?thesis by (simp add: set_eq_iff_mset_eq_distinct)
qed

end
