(* ===== verification/Machine.thy ===== *)
theory Machine
  imports Main
begin

text \<open>
  The contract between a stateful component and the proofs about its runs. A component offers the
  function \<open>act\<close> that performs one call, and the laws below: an invariant that each call keeps, and a
  preorder on states along which each call moves. The lemmas turn the laws about one call into laws
  about any sequence of calls. The coordinator, the policy catalog and the repository interpret it.
\<close>

locale machine_inv =
  fixes act :: "'call \<Rightarrow> 'state \<Rightarrow> 'state"
    and inv :: "'state \<Rightarrow> bool"
  assumes act_inv: "inv s \<Longrightarrow> inv (act x s)"
begin

lemma runs_inv: "inv s \<Longrightarrow> inv (fold act calls s)"
  by (induction calls arbitrary: s) (simp_all add: act_inv)

end

locale machine_evolves = machine_inv +
  fixes evolves :: "'state \<Rightarrow> 'state \<Rightarrow> bool"
  assumes evolves_refl: "evolves s s"
    and evolves_trans: "evolves s t \<Longrightarrow> evolves t u \<Longrightarrow> evolves s u"
    and act_evolves: "inv s \<Longrightarrow> evolves s (act x s)"
begin

lemma runs_evolve: "inv s \<Longrightarrow> evolves s (fold act calls s)"
proof (induction calls arbitrary: s)
  case Nil
  then show ?case by (simp add: evolves_refl)
next
  case (Cons x xs)
  then have "evolves (act x s) (fold act xs (act x s))" by (simp add: act_inv)
  with act_evolves [OF Cons.prems] have "evolves s (fold act xs (act x s))" by (rule evolves_trans)
  then show ?case by simp
qed

end

end
