(* ===== verification/Catalog.thy ===== *)
theory Catalog
  imports Fingerprint Go_Map Machine
begin

text \<open>
  The process-local policy catalog, \<open>src/internal/policy/catalog.go\<close>: a version names one content for
  ever. Content is compared by fingerprint. Both methods hold the lock for their whole body.
\<close>

record Entry =
  entry_Policy :: MatchmakingPolicy
  entry_Fingerprint :: PolicyFingerprint

record Catalog =
  cat_entries :: "(string, Entry) go_map"

definition NewCatalog :: Catalog where
  "NewCatalog = \<lparr>cat_entries = []\<rparr>"

definition cloneEntry :: "Entry \<Rightarrow> Entry" where
  "cloneEntry entry = entry\<lparr>entry_Policy := ClonePolicy (entry_Policy entry)\<rparr>"

definition Register :: "hash \<Rightarrow> MatchmakingPolicy \<Rightarrow> Catalog \<Rightarrow> Entry result \<times> Catalog" where
  "Register sha256 candidate catalog =
     (case FingerprintPolicy sha256 candidate of
        Inl e \<Rightarrow> (Inl e, catalog)
      | Inr fingerprint \<Rightarrow>
          let candidate = ClonePolicy candidate
          in (case map_of (cat_entries catalog) (pol_Version candidate) of
                Some existing \<Rightarrow>
                  if entry_Fingerprint existing \<noteq> fingerprint then (Inl FailurePolicyConflict, catalog)
                  else (Inr (cloneEntry existing), catalog)
              | None \<Rightarrow>
                  let entry = \<lparr>entry_Policy = candidate, entry_Fingerprint = fingerprint\<rparr>
                  in (Inr (cloneEntry entry),
                      catalog\<lparr>cat_entries := AList.update (pol_Version candidate) entry (cat_entries catalog)\<rparr>)))"

definition Catalog_Get :: "string \<Rightarrow> Catalog \<Rightarrow> Entry option" where
  "Catalog_Get version catalog = map_option cloneEntry (map_of (cat_entries catalog) version)"

lemma cloneEntry_id [simp]: "cloneEntry entry = entry"
  by (simp add: cloneEntry_def)

section \<open>A version names one content\<close>

text \<open>Every entry stands under its version, is valid, and carries the fingerprint of its content.\<close>

definition catalog_inv :: "hash \<Rightarrow> Catalog \<Rightarrow> bool" where
  "catalog_inv sha256 catalog \<longleftrightarrow> (\<forall>version entry. map_of (cat_entries catalog) version = Some entry \<longrightarrow>
     pol_Version (entry_Policy entry) = version \<and>
     FingerprintPolicy sha256 (entry_Policy entry) = Inr (entry_Fingerprint entry))"

definition catalog_extends :: "Catalog \<Rightarrow> Catalog \<Rightarrow> bool" where
  "catalog_extends c d \<longleftrightarrow> map_of (cat_entries c) \<subseteq>\<^sub>m map_of (cat_entries d)"

lemma NewCatalog_inv [simp]: "catalog_inv sha256 NewCatalog"
  by (simp add: catalog_inv_def NewCatalog_def)

lemma Register_inv: "catalog_inv sha256 c \<Longrightarrow> catalog_inv sha256 (snd (Register sha256 p c))"
  by (auto simp: Register_def Let_def catalog_inv_def split: sum.splits option.splits)

lemma Register_extends: "catalog_extends c (snd (Register sha256 p c))"
  by (auto simp: Register_def Let_def catalog_extends_def map_le_def split: sum.splits option.splits)

interpretation catalog: machine_evolves "\<lambda>p c. snd (Register sha256 p c)" "catalog_inv sha256" catalog_extends for sha256
proof unfold_locales
  fix c d e p
  show "catalog_extends c c" by (simp add: catalog_extends_def)
  show "catalog_extends c d \<Longrightarrow> catalog_extends d e \<Longrightarrow> catalog_extends c e"
    by (auto simp: catalog_extends_def intro: map_le_trans)
qed (auto simp: Register_inv Register_extends)

lemma Register_Inr:
  assumes "Register sha256 p c = (Inr entry, c')" "catalog_inv sha256 c"
  shows "map_of (cat_entries c') (pol_Version p) = Some entry" "FingerprintPolicy sha256 p = Inr (entry_Fingerprint entry)"
  using assms by (auto simp: Register_def Let_def split: sum.splits option.splits if_splits)

lemma Register_known:
  assumes "map_of (cat_entries c) (pol_Version p) = Some entry" "FingerprintPolicy sha256 p = Inr fp"
  shows "Register sha256 p c =
    (if fp = entry_Fingerprint entry then Inr entry else Inl FailurePolicyConflict, c)"
  using assms by (simp add: Register_def)

section \<open>Property\<close>

text \<open>
  A version never changes its content. After a policy was registered, whatever is registered next,
  looking its version up gives the same entry; registering the policy again gives the entry and
  registering a valid policy with another fingerprint under the version is refused, without a change.
\<close>
theorem Register_permanent:
  assumes "catalog_inv sha256 c" "Register sha256 p c = (Inr entry, c1)"
    "c2 = fold (\<lambda>q c. snd (Register sha256 q c)) policies c1"
  shows "Catalog_Get (pol_Version p) c2 = Some entry \<and> Register sha256 p c2 = (Inr entry, c2) \<and>
    (pol_Version q = pol_Version p \<longrightarrow> FingerprintPolicy sha256 q = Inr fp \<longrightarrow> fp \<noteq> entry_Fingerprint entry \<longrightarrow>
       Register sha256 q c2 = (Inl FailurePolicyConflict, c2))"
proof -
  have "catalog_inv sha256 c1" using Register_inv [OF assms(1), of p] assms(2) by simp
  then have "catalog_extends c1 c2" unfolding assms(3) by (rule catalog.runs_evolve)
  with Register_Inr(1) [OF assms(2,1)] have c2: "map_of (cat_entries c2) (pol_Version p) = Some entry"
    by (auto simp: catalog_extends_def map_le_def dom_def)
  with Register_Inr(2) [OF assms(2,1)] Register_known [of c2] show ?thesis by (simp add: Catalog_Get_def)
qed

definition ex_duel_entry :: Entry where
  "ex_duel_entry = \<lparr>entry_Policy = ex_duel_policy, entry_Fingerprint = ''07''\<rparr>"

theorem Register_permanent_witness:
  "let c1 = snd (Register (\<lambda>bytes. [7]) ex_duel_policy NewCatalog)
   in Catalog_Get ''v1'' c1 = Some ex_duel_entry"
proof -
  let ?h = "\<lambda>bytes. [7] :: byte list"
  have "fst (Register ?h ex_duel_policy NewCatalog) = Inr ex_duel_entry" "pol_Version ex_duel_policy = ''v1''" by code_simp+
  then have "Register ?h ex_duel_policy NewCatalog = (Inr ex_duel_entry, snd (Register ?h ex_duel_policy NewCatalog))"
    "pol_Version ex_duel_policy = ''v1''" by (metis prod.collapse)+
  with Register_permanent [OF NewCatalog_inv this(1), where policies = "[]"] show ?thesis by simp
qed

end
