(* ===== verification/Coordinator.thy ===== *)
theory Coordinator
  imports Validate Queue_Order Go_Map
begin

text \<open>
  The in-memory reservation authority, \<open>src/internal/coordinator/coordinator.go\<close>. The state is the
  record \<open>Coordinator\<close> with the Go struct's seven maps. Every exported method takes the mutex for its
  whole body, so a method is one atomic step: a function from the state to its answer and the next
  state. A record behind a pointer (\<open>reservations\<close>) is replaced in its map when a field is assigned.
  \<open>reflect.DeepEqual\<close> is equality of values.
\<close>

record reservationRecord =
  rec_reservation :: Reservation
  rec_proposal :: MatchProposal
  rec_assignment :: AssignmentID

record Coordinator =
  co_ttl :: Duration
  co_matchTickets :: "(TicketID, MatchTicket) go_map"
  co_backfillTickets :: "(TicketID, BackfillTicket) go_map"
  co_playerTickets :: "(PlayerID, TicketID) go_map"
  co_ticketReservations :: "(TicketID, ReservationID) go_map"
  co_backfillReservations :: "(TicketID, ReservationID) go_map"
  co_reservations :: "(ReservationID, reservationRecord) go_map"
  co_assignments :: "(AssignmentID, Assignment) go_map"

definition Coordinator_New :: "Duration \<Rightarrow> Coordinator result" where
  "Coordinator_New ttl =
     (if ttl \<le> 0 then Inl FailureInvalidInput
      else Inr \<lparr>co_ttl = ttl, co_matchTickets = [], co_backfillTickets = [], co_playerTickets = [],
                co_ticketReservations = [], co_backfillReservations = [], co_reservations = [],
                co_assignments = []\<rparr>)"

section \<open>Helpers under the lock\<close>

fun first_foreign_player :: "(PlayerID, TicketID) go_map \<Rightarrow> TicketID \<Rightarrow> Player list \<Rightarrow> PlayerID" where
  "first_foreign_player owners ticketID [] = ''''"
| "first_foreign_player owners ticketID (player # rest) =
     (case map_of owners (player_ID player) of
        Some owner \<Rightarrow> if owner \<noteq> ticketID then player_ID player
                      else first_foreign_player owners ticketID rest
      | None \<Rightarrow> first_foreign_player owners ticketID rest)"

definition duplicatedPlayerLocked :: "MatchTicket \<Rightarrow> Coordinator \<Rightarrow> PlayerID" where
  "duplicatedPlayerLocked ticket c = first_foreign_player (co_playerTickets c) (mt_ID ticket) (mt_Players ticket)"

definition acquirePlayerOwnershipLocked :: "MatchTicket \<Rightarrow> Coordinator \<Rightarrow> Coordinator" where
  "acquirePlayerOwnershipLocked ticket c =
     c\<lparr>co_playerTickets :=
         foldl (\<lambda>m player. AList.update (player_ID player) (mt_ID ticket) m) (co_playerTickets c) (mt_Players ticket)\<rparr>"

definition releasePlayerOwnershipLocked :: "MatchTicket \<Rightarrow> Coordinator \<Rightarrow> Coordinator" where
  "releasePlayerOwnershipLocked ticket c =
     c\<lparr>co_playerTickets :=
         foldl (\<lambda>m player. delete_if '''' (mt_ID ticket) (player_ID player) m) (co_playerTickets c) (mt_Players ticket)\<rparr>"

definition releaseLocked :: "Reservation \<Rightarrow> Coordinator \<Rightarrow> Coordinator" where
  "releaseLocked reservation c =
     c\<lparr>co_ticketReservations :=
         foldl (\<lambda>m ref. delete_if '''' (res_ID reservation) (ref_ID ref) m) (co_ticketReservations c) (res_Tickets reservation),
       co_backfillReservations :=
         (case res_Backfill reservation of
            None \<Rightarrow> co_backfillReservations c
          | Some target \<Rightarrow>
              delete_if '''' (res_ID reservation) (ref_ID (tgt_Ticket target)) (co_backfillReservations c))\<rparr>"

definition put_record :: "ReservationID \<Rightarrow> reservationRecord \<Rightarrow> Coordinator \<Rightarrow> Coordinator" where
  "put_record reservationID record c = c\<lparr>co_reservations := AList.update reservationID record (co_reservations c)\<rparr>"

definition with_status :: "ReservationStatus \<Rightarrow> reservationRecord \<Rightarrow> reservationRecord" where
  "with_status status record = record\<lparr>rec_reservation := (rec_reservation record)\<lparr>res_Status := status\<rparr>\<rparr>"

definition expire_record :: "Time \<Rightarrow> Coordinator \<Rightarrow> ReservationID \<times> reservationRecord \<Rightarrow> Coordinator" where
  "expire_record now c entry =
     (let record = snd entry
      in if res_Status (rec_reservation record) \<noteq> ReservationActive \<or> now < res_ExpiresAt (rec_reservation record)
         then c
         else put_record (fst entry) (with_status ReservationExpired record) (releaseLocked (rec_reservation record) c))"

definition expireLocked :: "Time \<Rightarrow> Coordinator \<Rightarrow> Coordinator" where
  "expireLocked now c = foldl (expire_record now) c (co_reservations c)"

definition fresh_ref :: "Coordinator \<Rightarrow> TicketRef \<Rightarrow> bool" where
  "fresh_ref c ref =
     (case map_of (co_matchTickets c) (ref_ID ref) of None \<Rightarrow> False | Some current \<Rightarrow> mt_Revision current = ref_Revision ref)"

definition fresh_target :: "Coordinator \<Rightarrow> BackfillTarget \<Rightarrow> bool" where
  "fresh_target c target =
     (case map_of (co_backfillTickets c) (ref_ID (tgt_Ticket target)) of
        None \<Rightarrow> False
      | Some current \<Rightarrow> bt_Revision current = ref_Revision (tgt_Ticket target) \<and>
          bt_SessionID current = tgt_SessionID target \<and> bt_RosterVersion current = tgt_RosterVersion target)"

definition validateFreshnessLocked :: "MatchProposal \<Rightarrow> Coordinator \<Rightarrow> go_error" where
  "validateFreshnessLocked proposal c =
     (if \<not> list_all (fresh_ref c) (prop_Tickets proposal) then Some FailureStaleSnapshot
      else (case prop_Backfill proposal of
              None \<Rightarrow> None
            | Some target \<Rightarrow> if fresh_target c target then None else Some FailureStaleSnapshot))"

definition validateAvailabilityLocked :: "MatchProposal \<Rightarrow> Coordinator \<Rightarrow> go_error" where
  "validateAvailabilityLocked proposal c =
     (if list_ex (\<lambda>ref. map_of (co_ticketReservations c) (ref_ID ref) \<noteq> None) (prop_Tickets proposal)
      then Some FailureReservationConflict
      else (case prop_Backfill proposal of
              None \<Rightarrow> None
            | Some target \<Rightarrow>
                if map_of (co_backfillReservations c) (ref_ID (tgt_Ticket target)) \<noteq> None
                then Some FailureReservationConflict else None))"

definition cloneReservation :: "Reservation \<Rightarrow> Reservation" where
  "cloneReservation r = r\<lparr>res_Tickets := res_Tickets r, res_Backfill := CloneBackfillTarget (res_Backfill r)\<rparr>"

definition cloneAssignment :: "Assignment \<Rightarrow> Assignment" where
  "cloneAssignment a =
     a\<lparr>asg_Teams := CloneTeams (asg_Teams a), asg_Backfill := CloneBackfillTarget (asg_Backfill a),
       asg_Acknowledgment := (case asg_Acknowledgment a of None \<Rightarrow> None | Some acknowledgment \<Rightarrow> Some acknowledgment)\<rparr>"

lemma clone_read_models [simp]: "cloneReservation r = r" "cloneAssignment a = a"
  by (simp_all add: cloneReservation_def cloneAssignment_def split: option.splits)

section \<open>Input\<close>

text \<open>The comparison with the current revision: \<open>None\<close> to go on, \<open>Some answer\<close> to return.\<close>

definition revision_check :: "Revision \<Rightarrow> Revision \<Rightarrow> bool \<Rightarrow> go_error option" where
  "revision_check current submitted same =
     (if submitted < current then Some (Some FailureInvalidRevision)
      else if submitted = current then Some (if same then None else Some FailureInvalidRevision)
      else None)"

definition store_match_ticket :: "MatchTicket \<Rightarrow> Coordinator \<Rightarrow> Coordinator" where
  "store_match_ticket ticket c =
     (let c = (case map_of (co_matchTickets c) (mt_ID ticket) of
                 None \<Rightarrow> c
               | Some current \<Rightarrow> releasePlayerOwnershipLocked current c);
          cloned = CloneMatchTicket ticket;
          c = c\<lparr>co_matchTickets := AList.update (mt_ID ticket) cloned (co_matchTickets c)\<rparr>
      in acquirePlayerOwnershipLocked cloned c)"

definition UpsertMatchTicket :: "MatchTicket \<Rightarrow> Coordinator \<Rightarrow> go_error \<times> Coordinator" where
  "UpsertMatchTicket ticket c =
     (case ValidateMatchTicket ticket of
        Some e \<Rightarrow> (Some e, c)
      | None \<Rightarrow>
          if map_of (co_backfillTickets c) (mt_ID ticket) \<noteq> None then (Some FailureInvalidInput, c)
          else (case Option.bind (map_of (co_matchTickets c) (mt_ID ticket))
                       (\<lambda>current. revision_check (mt_Revision current) (mt_Revision ticket) (current = ticket)) of
                  Some answer \<Rightarrow> (answer, c)
                | None \<Rightarrow>
                    if duplicatedPlayerLocked ticket c \<noteq> '''' then (Some FailureInvalidInput, c)
                    else (None, store_match_ticket ticket c)))"

definition UpsertBackfillTicket :: "BackfillTicket \<Rightarrow> Coordinator \<Rightarrow> go_error \<times> Coordinator" where
  "UpsertBackfillTicket ticket c =
     (case ValidateBackfillTicket ticket of
        Some e \<Rightarrow> (Some e, c)
      | None \<Rightarrow>
          if map_of (co_matchTickets c) (bt_ID ticket) \<noteq> None then (Some FailureInvalidInput, c)
          else if list_ex (\<lambda>(activeID, active). activeID \<noteq> bt_ID ticket \<and> bt_SessionID active = bt_SessionID ticket)
                 (co_backfillTickets c)
          then (Some FailureInvalidInput, c)
          else (case Option.bind (map_of (co_backfillTickets c) (bt_ID ticket))
                       (\<lambda>current. revision_check (bt_Revision current) (bt_Revision ticket) (current = ticket)) of
                  Some answer \<Rightarrow> (answer, c)
                | None \<Rightarrow>
                    (None, c\<lparr>co_backfillTickets :=
                               AList.update (bt_ID ticket) (CloneBackfillTicket ticket) (co_backfillTickets c)\<rparr>)))"

definition remove_match_ticket :: "TicketID \<Rightarrow> MatchTicket \<Rightarrow> Coordinator \<Rightarrow> Coordinator" where
  "remove_match_ticket ticketID current c =
     (let c = releasePlayerOwnershipLocked current c
      in c\<lparr>co_matchTickets := AList.delete ticketID (co_matchTickets c)\<rparr>)"

definition CancelMatchTicket :: "TicketID \<Rightarrow> Revision \<Rightarrow> Coordinator \<Rightarrow> go_error \<times> Coordinator" where
  "CancelMatchTicket ticketID revision c =
     (case map_of (co_matchTickets c) ticketID of
        None \<Rightarrow> (Some FailureStaleSnapshot, c)
      | Some current \<Rightarrow>
          if mt_Revision current \<noteq> revision then (Some FailureStaleSnapshot, c)
          else (None, remove_match_ticket ticketID current c))"

definition CancelBackfillTicket :: "TicketID \<Rightarrow> Revision \<Rightarrow> Revision \<Rightarrow> Coordinator \<Rightarrow> go_error \<times> Coordinator" where
  "CancelBackfillTicket ticketID revision rosterVersion c =
     (case map_of (co_backfillTickets c) ticketID of
        None \<Rightarrow> (Some FailureStaleSnapshot, c)
      | Some current \<Rightarrow>
          if bt_Revision current \<noteq> revision \<or> bt_RosterVersion current \<noteq> rosterVersion
          then (Some FailureStaleSnapshot, c)
          else (None, c\<lparr>co_backfillTickets := AList.delete ticketID (co_backfillTickets c)\<rparr>))"

section \<open>Snapshot\<close>

definition unreserved_tickets :: "Coordinator \<Rightarrow> MatchTicket list" where
  "unreserved_tickets c =
     map CloneMatchTicket
       (filter (\<lambda>t. map_of (co_ticketReservations c) (mt_ID t) = None) (map snd (co_matchTickets c)))"

definition unreserved_backfills :: "Coordinator \<Rightarrow> BackfillTicket list" where
  "unreserved_backfills c =
     map CloneBackfillTicket
       (filter (\<lambda>t. map_of (co_backfillReservations c) (bt_ID t) = None) (map snd (co_backfillTickets c)))"

definition Snapshot ::
  "SnapshotID \<Rightarrow> Time \<Rightarrow> MatchmakingPolicy \<Rightarrow> Coordinator \<Rightarrow> MatchmakingSnapshot result \<times> Coordinator" where
  "Snapshot snapshotID now policy c =
     (if snapshotID = '''' \<or> time_IsZero now then (Inl FailureInvalidInput, c)
      else (case ValidatePolicy policy of
              Some e \<Rightarrow> (Inl e, c)
            | None \<Rightarrow>
                let c = expireLocked now c;
                    snapshot = \<lparr>snap_ID = snapshotID, snap_Now = now,
                      snap_MatchTickets = sort_cmp compare_tickets (unreserved_tickets c),
                      snap_BackfillTickets = sort_cmp compare_backfills (unreserved_backfills c),
                      snap_Policy = policy\<rparr>
                in (case ValidateSnapshot snapshot of
                      Some e \<Rightarrow> (Inl e, c)
                    | None \<Rightarrow> (Inr snapshot, c))))"

section \<open>Reservations\<close>

definition replay_reserve :: "MatchProposal \<Rightarrow> reservationRecord \<Rightarrow> Reservation result" where
  "replay_reserve proposal existing =
     (if rec_proposal existing \<noteq> proposal then Inl FailureIdempotencyConflict
      else (case res_Status (rec_reservation existing) of
              ReservationActive \<Rightarrow> Inr (cloneReservation (rec_reservation existing))
            | ReservationConfirmed \<Rightarrow> Inr (cloneReservation (rec_reservation existing))
            | ReservationExpired \<Rightarrow> Inl FailureReservationExpired
            | ReservationCancelled \<Rightarrow> Inl FailureInvalidTransition))"

definition new_reservation :: "MatchProposal \<Rightarrow> ReservationID \<Rightarrow> Time \<Rightarrow> Duration \<Rightarrow> Reservation" where
  "new_reservation proposal reservationID now ttl =
     \<lparr>res_ID = reservationID, res_ProposalID = prop_ID proposal, res_Tickets = prop_Tickets proposal,
      res_Backfill = CloneBackfillTarget (prop_Backfill proposal), res_ExpiresAt = time_Add now ttl,
      res_Status = ReservationActive\<rparr>"

definition hold_resources :: "MatchProposal \<Rightarrow> ReservationID \<Rightarrow> Coordinator \<Rightarrow> Coordinator" where
  "hold_resources proposal reservationID c =
     c\<lparr>co_ticketReservations :=
         foldl (\<lambda>m ref. AList.update (ref_ID ref) reservationID m) (co_ticketReservations c) (prop_Tickets proposal),
       co_backfillReservations :=
         (case prop_Backfill proposal of
            None \<Rightarrow> co_backfillReservations c
          | Some target \<Rightarrow> AList.update (ref_ID (tgt_Ticket target)) reservationID (co_backfillReservations c))\<rparr>"

definition Reserve :: "MatchProposal \<Rightarrow> ReservationID \<Rightarrow> Time \<Rightarrow> Coordinator \<Rightarrow> Reservation result \<times> Coordinator" where
  "Reserve proposal reservationID now c =
     (if reservationID = '''' \<or> time_IsZero now then (Inl FailureInvalidInput, c)
      else (case ValidateProposal proposal of
              Some e \<Rightarrow> (Inl e, c)
            | None \<Rightarrow>
                let proposal = CloneProposal proposal;
                    c = expireLocked now c
                in (case map_of (co_reservations c) reservationID of
                      Some existing \<Rightarrow> (replay_reserve proposal existing, c)
                    | None \<Rightarrow>
                        (case validateFreshnessLocked proposal c of
                           Some e \<Rightarrow> (Inl e, c)
                         | None \<Rightarrow>
                             (case validateAvailabilityLocked proposal c of
                                Some e \<Rightarrow> (Inl e, c)
                              | None \<Rightarrow>
                                  let reservation = new_reservation proposal reservationID now (co_ttl c);
                                      c = put_record reservationID
                                        \<lparr>rec_reservation = reservation, rec_proposal = proposal, rec_assignment = ''''\<rparr> c;
                                      c = hold_resources proposal reservationID c
                                  in (Inr (cloneReservation reservation), c))))))"

definition new_assignment :: "AssignmentID \<Rightarrow> ReservationID \<Rightarrow> MatchProposal \<Rightarrow> Time \<Rightarrow> Assignment" where
  "new_assignment assignmentID reservationID proposal now =
     \<lparr>asg_ID = assignmentID, asg_ReservationID = reservationID, asg_ProposalID = prop_ID proposal,
      asg_Kind = prop_Kind proposal, asg_Teams = CloneTeams (prop_Teams proposal),
      asg_Backfill = CloneBackfillTarget (prop_Backfill proposal), asg_ConfirmedAt = now,
      asg_Status = AssignmentPending, asg_Acknowledgment = None\<rparr>"

definition consume_ticket :: "Coordinator \<Rightarrow> TicketRef \<Rightarrow> Coordinator" where
  "consume_ticket c ref =
     (let c = (case map_of (co_matchTickets c) (ref_ID ref) of
                 None \<Rightarrow> c
               | Some ticket \<Rightarrow> releasePlayerOwnershipLocked ticket c)
      in c\<lparr>co_matchTickets := AList.delete (ref_ID ref) (co_matchTickets c)\<rparr>)"

definition consume_backfill :: "BackfillTarget option \<Rightarrow> Coordinator \<Rightarrow> Coordinator" where
  "consume_backfill backfill c =
     (case backfill of
        None \<Rightarrow> c
      | Some target \<Rightarrow>
          c\<lparr>co_backfillTickets := AList.delete (ref_ID (tgt_Ticket target)) (co_backfillTickets c)\<rparr>)"

definition Assignment_zero :: Assignment where
  "Assignment_zero = \<lparr>asg_ID = '''', asg_ReservationID = '''', asg_ProposalID = '''',
     asg_Kind = ProposalKindOther '''', asg_Teams = [], asg_Backfill = None, asg_ConfirmedAt = 0,
     asg_Status = AssignmentStatusOther '''', asg_Acknowledgment = None\<rparr>"

definition confirm_active ::
  "ReservationID \<Rightarrow> reservationRecord \<Rightarrow> AssignmentID \<Rightarrow> Time \<Rightarrow> Coordinator \<Rightarrow> Assignment result \<times> Coordinator" where
  "confirm_active reservationID record assignmentID now c =
     (case validateFreshnessLocked (rec_proposal record) c of
        Some e \<Rightarrow>
          (let record = with_status ReservationCancelled record
           in (Inl e, releaseLocked (rec_reservation record) (put_record reservationID record c)))
      | None \<Rightarrow>
          (case map_of (co_assignments c) assignmentID of
             Some existing \<Rightarrow>
               if asg_ReservationID existing = reservationID then (Inr (cloneAssignment existing), c)
               else (Inl FailureIdempotencyConflict, c)
           | None \<Rightarrow>
               let assignment = new_assignment assignmentID reservationID (rec_proposal record) now;
                   c = foldl consume_ticket c (prop_Tickets (rec_proposal record));
                   c = consume_backfill (prop_Backfill (rec_proposal record)) c;
                   c = releaseLocked (rec_reservation record) c;
                   c = put_record reservationID
                         ((with_status ReservationConfirmed record)\<lparr>rec_assignment := assignmentID\<rparr>) c;
                   c = c\<lparr>co_assignments := AList.update assignmentID assignment (co_assignments c)\<rparr>
               in (Inr (cloneAssignment assignment), c)))"

definition Confirm ::
  "ReservationID \<Rightarrow> AssignmentID \<Rightarrow> Time \<Rightarrow> Coordinator \<Rightarrow> Assignment result \<times> Coordinator" where
  "Confirm reservationID assignmentID now c =
     (if reservationID = '''' \<or> assignmentID = '''' \<or> time_IsZero now then (Inl FailureInvalidInput, c)
      else let c = expireLocked now c
           in (case map_of (co_reservations c) reservationID of
                 None \<Rightarrow> (Inl FailureInvalidTransition, c)
               | Some record \<Rightarrow>
                   if res_Status (rec_reservation record) = ReservationConfirmed
                   then (if rec_assignment record \<noteq> assignmentID then (Inl FailureIdempotencyConflict, c)
                         else (Inr (cloneAssignment (map_get Assignment_zero (co_assignments c) assignmentID)), c))
                   else if res_Status (rec_reservation record) = ReservationExpired
                   then (Inl FailureReservationExpired, c)
                   else if res_Status (rec_reservation record) \<noteq> ReservationActive
                   then (Inl FailureInvalidTransition, c)
                   else confirm_active reservationID record assignmentID now c))"

definition Cancel :: "ReservationID \<Rightarrow> Time \<Rightarrow> Coordinator \<Rightarrow> Reservation result \<times> Coordinator" where
  "Cancel reservationID now c =
     (if reservationID = '''' \<or> time_IsZero now then (Inl FailureInvalidInput, c)
      else let c = expireLocked now c
           in (case map_of (co_reservations c) reservationID of
                 None \<Rightarrow> (Inl FailureInvalidTransition, c)
               | Some record \<Rightarrow>
                   (case res_Status (rec_reservation record) of
                      ReservationActive \<Rightarrow>
                        (let c = releaseLocked (rec_reservation record) c;
                             record = with_status ReservationCancelled record
                         in (Inr (cloneReservation (rec_reservation record)), put_record reservationID record c))
                    | ReservationCancelled \<Rightarrow> (Inr (cloneReservation (rec_reservation record)), c)
                    | ReservationExpired \<Rightarrow> (Inl FailureReservationExpired, c)
                    | ReservationConfirmed \<Rightarrow> (Inl FailureInvalidTransition, c))))"

section \<open>Assignments\<close>

definition replay_acknowledgment :: "Assignment \<Rightarrow> AssignmentAcknowledgmentRequest \<Rightarrow> Assignment result" where
  "replay_acknowledgment assignment request =
     (case asg_Acknowledgment assignment of
        None \<Rightarrow> Inl FailureInvalidTransition
      | Some acknowledgment \<Rightarrow>
          if req_OperationID (ack_Request acknowledgment) = req_OperationID request
          then (if ack_Request acknowledgment = request then Inr (cloneAssignment assignment)
                else Inl FailureIdempotencyConflict)
          else Inl FailureInvalidTransition)"

definition AcknowledgeAssignment ::
  "AssignmentID \<Rightarrow> AssignmentAcknowledgmentRequest \<Rightarrow> Time \<Rightarrow> Coordinator \<Rightarrow> Assignment result \<times> Coordinator" where
  "AcknowledgeAssignment assignmentID request now c =
     (if assignmentID = '''' \<or> req_OperationID request = '''' \<or> time_IsZero now
      then (Inl FailureInvalidInput, c)
      else (case map_of (co_assignments c) assignmentID of
              None \<Rightarrow> (Inl FailureInvalidTransition, c)
            | Some assignment \<Rightarrow>
                if asg_Status assignment \<noteq> AssignmentPending then (replay_acknowledgment assignment request, c)
                else (case ValidateAssignmentAcknowledgment assignment request of
                        Some e \<Rightarrow> (Inl e, c)
                      | None \<Rightarrow>
                          let assignment = assignment\<lparr>asg_Status := req_Outcome request,
                                asg_Acknowledgment := Some \<lparr>ack_Request = request, ack_AcknowledgedAt = now\<rparr>\<rparr>
                          in (Inr (cloneAssignment assignment),
                              c\<lparr>co_assignments := AList.update assignmentID assignment (co_assignments c)\<rparr>))))"

definition Coordinator_Assignment :: "AssignmentID \<Rightarrow> Coordinator \<Rightarrow> Assignment option" where
  "Coordinator_Assignment assignmentID c = map_option cloneAssignment (map_of (co_assignments c) assignmentID)"

end
