(* ===== verification/Coordinator_Inv.thy ===== *)
theory Coordinator_Inv
  imports Coordinator
begin

text \<open>
  The invariant of the coordinator. The maps \<open>playerTickets\<close>, \<open>ticketReservations\<close> and
  \<open>backfillReservations\<close> are indexes: they repeat what the tickets and the reservations say, so that
  a lookup need not scan them. The invariant says that they repeat it exactly, that the entries
  stand under their own identities, and that confirmed reservations and assignments point at each
  other. Each part is kept by each operation; \<open>Coordinator_Runs\<close> puts the parts together.
\<close>

section \<open>The parts of the invariant\<close>

abbreviation active :: "reservationRecord \<Rightarrow> bool" where
  "active record \<equiv> res_Status (rec_reservation record) = ReservationActive"

abbreviation confirmed :: "reservationRecord \<Rightarrow> bool" where
  "confirmed record \<equiv> res_Status (rec_reservation record) = ReservationConfirmed"

definition ticket_players :: "MatchTicket \<Rightarrow> PlayerID set" where
  "ticket_players ticket = player_ID ` set (mt_Players ticket)"

definition record_tickets :: "reservationRecord \<Rightarrow> TicketID set" where
  "record_tickets record = ref_ID ` set (res_Tickets (rec_reservation record))"

definition record_backfills :: "reservationRecord \<Rightarrow> TicketID set" where
  "record_backfills record = (\<lambda>target. ref_ID (tgt_Ticket target)) ` set_option (res_Backfill (rec_reservation record))"

definition keys_ok :: "Coordinator \<Rightarrow> bool" where
  "keys_ok c \<longleftrightarrow> keys_distinct (co_matchTickets c) \<and> keys_distinct (co_backfillTickets c) \<and>
     keys_distinct (co_playerTickets c) \<and> keys_distinct (co_ticketReservations c) \<and>
     keys_distinct (co_backfillReservations c) \<and> keys_distinct (co_reservations c) \<and> keys_distinct (co_assignments c)"

definition tickets_ok :: "Coordinator \<Rightarrow> bool" where
  "tickets_ok c \<longleftrightarrow> (\<forall>i t. map_of (co_matchTickets c) i = Some t \<longrightarrow>
     mt_ID t = i \<and> ValidateMatchTicket t = None \<and> map_of (co_backfillTickets c) i = None)"

definition backfills_ok :: "Coordinator \<Rightarrow> bool" where
  "backfills_ok c \<longleftrightarrow>
     (\<forall>i b. map_of (co_backfillTickets c) i = Some b \<longrightarrow> bt_ID b = i \<and> ValidateBackfillTicket b = None) \<and>
     (\<forall>i j a b. map_of (co_backfillTickets c) i = Some a \<longrightarrow> map_of (co_backfillTickets c) j = Some b \<longrightarrow>
        bt_SessionID a = bt_SessionID b \<longrightarrow> i = j)"

definition players_ok :: "Coordinator \<Rightarrow> bool" where
  "players_ok c \<longleftrightarrow> (\<forall>p i. map_of (co_playerTickets c) p = Some i \<longleftrightarrow>
     (\<exists>t. map_of (co_matchTickets c) i = Some t \<and> p \<in> ticket_players t))"

definition holds_ok :: "Coordinator \<Rightarrow> bool" where
  "holds_ok c \<longleftrightarrow>
     (\<forall>i r. map_of (co_ticketReservations c) i = Some r \<longleftrightarrow>
        (\<exists>record. map_of (co_reservations c) r = Some record \<and> active record \<and> i \<in> record_tickets record)) \<and>
     (\<forall>i r. map_of (co_backfillReservations c) i = Some r \<longleftrightarrow>
        (\<exists>record. map_of (co_reservations c) r = Some record \<and> active record \<and> i \<in> record_backfills record))"

definition record_ok :: "ReservationID \<Rightarrow> reservationRecord \<Rightarrow> bool" where
  "record_ok r record \<longleftrightarrow> r \<noteq> '''' \<and> res_ID (rec_reservation record) = r \<and>
     res_ProposalID (rec_reservation record) = prop_ID (rec_proposal record) \<and>
     res_Tickets (rec_reservation record) = prop_Tickets (rec_proposal record) \<and>
     res_Backfill (rec_reservation record) = prop_Backfill (rec_proposal record) \<and>
     ValidateProposal (rec_proposal record) = None"

definition records_ok :: "Coordinator \<Rightarrow> bool" where
  "records_ok c \<longleftrightarrow> (\<forall>r record. map_of (co_reservations c) r = Some record \<longrightarrow> record_ok r record)"

text \<open>What an assignment repeats of the proposal it confirmed, and the shape of its acknowledgment.\<close>

definition assignment_of :: "MatchProposal \<Rightarrow> Assignment \<Rightarrow> bool" where
  "assignment_of p a \<longleftrightarrow> asg_ProposalID a = prop_ID p \<and> asg_Kind a = prop_Kind p \<and>
     asg_Teams a = prop_Teams p \<and> asg_Backfill a = prop_Backfill p"

definition acknowledged_ok :: "Assignment \<Rightarrow> bool" where
  "acknowledged_ok a \<longleftrightarrow>
     (case asg_Acknowledgment a of
        None \<Rightarrow> asg_Status a = AssignmentPending
      | Some ack \<Rightarrow> asg_Status a = req_Outcome (ack_Request ack) \<and>
          asg_Status a \<in> {AssignmentCompleted, AssignmentCancelled, AssignmentFailed})"

definition assignments_ok :: "Coordinator \<Rightarrow> bool" where
  "assignments_ok c \<longleftrightarrow>
     (\<forall>i a. map_of (co_assignments c) i = Some a \<longrightarrow> asg_ID a = i \<and> acknowledged_ok a \<and>
        (\<exists>record. map_of (co_reservations c) (asg_ReservationID a) = Some record \<and> confirmed record \<and>
           rec_assignment record = i \<and> assignment_of (rec_proposal record) a)) \<and>
     (\<forall>r record. map_of (co_reservations c) r = Some record \<longrightarrow> confirmed record \<longrightarrow>
        (\<exists>a. map_of (co_assignments c) (rec_assignment record) = Some a \<and> asg_ReservationID a = r))"

definition coordinator_inv :: "Coordinator \<Rightarrow> bool" where
  "coordinator_inv c \<longleftrightarrow> keys_ok c \<and> tickets_ok c \<and> backfills_ok c \<and> players_ok c \<and> holds_ok c \<and>
     records_ok c \<and> assignments_ok c"

lemmas inv_parts = tickets_ok_def backfills_ok_def players_ok_def holds_ok_def records_ok_def assignments_ok_def

section \<open>What the helpers change\<close>

lemma releasePlayers_sel [simp]:
  "co_ttl (releasePlayerOwnershipLocked t c) = co_ttl c"
  "co_matchTickets (releasePlayerOwnershipLocked t c) = co_matchTickets c"
  "co_backfillTickets (releasePlayerOwnershipLocked t c) = co_backfillTickets c"
  "co_ticketReservations (releasePlayerOwnershipLocked t c) = co_ticketReservations c"
  "co_backfillReservations (releasePlayerOwnershipLocked t c) = co_backfillReservations c"
  "co_reservations (releasePlayerOwnershipLocked t c) = co_reservations c"
  "co_assignments (releasePlayerOwnershipLocked t c) = co_assignments c"
  by (simp_all add: releasePlayerOwnershipLocked_def)

lemma releasePlayers_owner [simp]:
  "map_of (co_playerTickets (releasePlayerOwnershipLocked t c)) p =
     (if p \<in> ticket_players t \<and> map_of (co_playerTickets c) p = Some (mt_ID t) then None
      else map_of (co_playerTickets c) p)"
  by (simp add: releasePlayerOwnershipLocked_def map_of_delete_if_all ticket_players_def)

lemma acquirePlayers_sel [simp]:
  "co_ttl (acquirePlayerOwnershipLocked t c) = co_ttl c"
  "co_matchTickets (acquirePlayerOwnershipLocked t c) = co_matchTickets c"
  "co_backfillTickets (acquirePlayerOwnershipLocked t c) = co_backfillTickets c"
  "co_ticketReservations (acquirePlayerOwnershipLocked t c) = co_ticketReservations c"
  "co_backfillReservations (acquirePlayerOwnershipLocked t c) = co_backfillReservations c"
  "co_reservations (acquirePlayerOwnershipLocked t c) = co_reservations c"
  "co_assignments (acquirePlayerOwnershipLocked t c) = co_assignments c"
  by (simp_all add: acquirePlayerOwnershipLocked_def)

lemma acquirePlayers_owner [simp]:
  "map_of (co_playerTickets (acquirePlayerOwnershipLocked t c)) p =
     (if p \<in> ticket_players t then Some (mt_ID t) else map_of (co_playerTickets c) p)"
  by (simp add: acquirePlayerOwnershipLocked_def map_of_assign_all ticket_players_def)

lemma releaseLocked_sel [simp]:
  "co_ttl (releaseLocked r c) = co_ttl c"
  "co_matchTickets (releaseLocked r c) = co_matchTickets c"
  "co_backfillTickets (releaseLocked r c) = co_backfillTickets c"
  "co_playerTickets (releaseLocked r c) = co_playerTickets c"
  "co_reservations (releaseLocked r c) = co_reservations c"
  "co_assignments (releaseLocked r c) = co_assignments c"
  by (simp_all add: releaseLocked_def)

lemma releaseLocked_holds [simp]:
  "map_of (co_ticketReservations (releaseLocked (rec_reservation record) c)) i =
     (if i \<in> record_tickets record \<and> map_of (co_ticketReservations c) i = Some (res_ID (rec_reservation record))
      then None else map_of (co_ticketReservations c) i)"
  "map_of (co_backfillReservations (releaseLocked (rec_reservation record) c)) i =
     (if i \<in> record_backfills record \<and> map_of (co_backfillReservations c) i = Some (res_ID (rec_reservation record))
      then None else map_of (co_backfillReservations c) i)"
  by (auto simp: releaseLocked_def map_of_delete_if_all map_of_delete_if record_tickets_def record_backfills_def
      split: option.splits)

lemma put_record_sel [simp]:
  "co_ttl (put_record r record c) = co_ttl c"
  "co_matchTickets (put_record r record c) = co_matchTickets c"
  "co_backfillTickets (put_record r record c) = co_backfillTickets c"
  "co_playerTickets (put_record r record c) = co_playerTickets c"
  "co_ticketReservations (put_record r record c) = co_ticketReservations c"
  "co_backfillReservations (put_record r record c) = co_backfillReservations c"
  "map_of (co_reservations (put_record r record c)) = (map_of (co_reservations c))(r \<mapsto> record)"
  "co_assignments (put_record r record c) = co_assignments c"
  by (simp_all add: put_record_def)

lemma with_status_sel [simp]:
  "rec_proposal (with_status s record) = rec_proposal record"
  "rec_assignment (with_status s record) = rec_assignment record"
  "res_Status (rec_reservation (with_status s record)) = s"
  "res_ID (rec_reservation (with_status s record)) = res_ID (rec_reservation record)"
  "res_ExpiresAt (rec_reservation (with_status s record)) = res_ExpiresAt (rec_reservation record)"
  "record_tickets (with_status s record) = record_tickets record"
  "record_backfills (with_status s record) = record_backfills record"
  "record_ok r (with_status s record) = record_ok r record"
  "releaseLocked (rec_reservation (with_status s record)) = releaseLocked (rec_reservation record)"
  by (simp_all add: with_status_def record_tickets_def record_backfills_def record_ok_def releaseLocked_def fun_eq_iff
      cong: option.case_cong)

lemma hold_resources_sel [simp]:
  "co_ttl (hold_resources p r c) = co_ttl c"
  "co_matchTickets (hold_resources p r c) = co_matchTickets c"
  "co_backfillTickets (hold_resources p r c) = co_backfillTickets c"
  "co_playerTickets (hold_resources p r c) = co_playerTickets c"
  "co_reservations (hold_resources p r c) = co_reservations c"
  "co_assignments (hold_resources p r c) = co_assignments c"
  by (simp_all add: hold_resources_def)

lemma hold_resources_holds [simp]:
  "map_of (co_ticketReservations (hold_resources p r c)) i =
     (if i \<in> ref_ID ` set (prop_Tickets p) then Some r else map_of (co_ticketReservations c) i)"
  "map_of (co_backfillReservations (hold_resources p r c)) i =
     (if i \<in> (\<lambda>g. ref_ID (tgt_Ticket g)) ` set_option (prop_Backfill p) then Some r
      else map_of (co_backfillReservations c) i)"
  by (auto simp: hold_resources_def map_of_assign_all split: option.splits)

section \<open>Distinct keys\<close>

lemma keys_ok_helpers [simp]:
  "keys_ok c \<Longrightarrow> keys_ok (releasePlayerOwnershipLocked t c)"
  "keys_ok c \<Longrightarrow> keys_ok (acquirePlayerOwnershipLocked t c)"
  "keys_ok c \<Longrightarrow> keys_ok (releaseLocked reservation c)"
  "keys_ok c \<Longrightarrow> keys_ok (put_record r record c)"
  "keys_ok c \<Longrightarrow> keys_ok (hold_resources p r c)"
  by (auto simp: keys_ok_def releasePlayerOwnershipLocked_def acquirePlayerOwnershipLocked_def
      releaseLocked_def put_record_def hold_resources_def intro!: keys_distinct_foldl split: option.splits)

lemma keys_ok_updates [simp]:
  "keys_ok c \<Longrightarrow> keys_ok (c\<lparr>co_matchTickets := AList.update i t (co_matchTickets c)\<rparr>)"
  "keys_ok c \<Longrightarrow> keys_ok (c\<lparr>co_matchTickets := AList.delete i (co_matchTickets c)\<rparr>)"
  "keys_ok c \<Longrightarrow> keys_ok (c\<lparr>co_backfillTickets := AList.update i b (co_backfillTickets c)\<rparr>)"
  "keys_ok c \<Longrightarrow> keys_ok (c\<lparr>co_backfillTickets := AList.delete i (co_backfillTickets c)\<rparr>)"
  "keys_ok c \<Longrightarrow> keys_ok (c\<lparr>co_assignments := AList.update k a (co_assignments c)\<rparr>)"
  by (simp_all add: keys_ok_def)

lemma keys_ok_after_release [simp]:
  "keys_ok c \<Longrightarrow> keys_ok (releasePlayerOwnershipLocked u c\<lparr>co_matchTickets := AList.update i t (co_matchTickets c)\<rparr>)"
  "keys_ok c \<Longrightarrow> keys_ok (releasePlayerOwnershipLocked u c\<lparr>co_matchTickets := AList.delete i (co_matchTickets c)\<rparr>)"
  using keys_ok_updates(1,2) [of "releasePlayerOwnershipLocked u c"] by simp_all

lemma keys_okD:
  "keys_ok c \<Longrightarrow> keys_distinct (co_matchTickets c)" "keys_ok c \<Longrightarrow> keys_distinct (co_backfillTickets c)"
  "keys_ok c \<Longrightarrow> keys_distinct (co_reservations c)" "keys_ok c \<Longrightarrow> keys_distinct (co_assignments c)"
  by (simp_all add: keys_ok_def)

section \<open>Storing and removing tickets\<close>

text \<open>An operation that leaves a part's maps alone keeps the part.\<close>

lemma holds_ok_cong:
  "map_of (co_ticketReservations c') = map_of (co_ticketReservations c) \<Longrightarrow>
   map_of (co_backfillReservations c') = map_of (co_backfillReservations c) \<Longrightarrow>
   map_of (co_reservations c') = map_of (co_reservations c) \<Longrightarrow> holds_ok c' = holds_ok c"
  by (simp add: holds_ok_def)

lemma records_ok_cong: "map_of (co_reservations c') = map_of (co_reservations c) \<Longrightarrow> records_ok c' = records_ok c"
  by (simp add: records_ok_def)

lemma assignments_ok_cong:
  "map_of (co_reservations c') = map_of (co_reservations c) \<Longrightarrow>
   map_of (co_assignments c') = map_of (co_assignments c) \<Longrightarrow> assignments_ok c' = assignments_ok c"
  by (simp add: assignments_ok_def)

lemma players_ok_cong:
  "map_of (co_playerTickets c') = map_of (co_playerTickets c) \<Longrightarrow>
   map_of (co_matchTickets c') = map_of (co_matchTickets c) \<Longrightarrow> players_ok c' = players_ok c"
  by (simp add: players_ok_def)

lemma tickets_ok_cong:
  "map_of (co_matchTickets c') = map_of (co_matchTickets c) \<Longrightarrow>
   map_of (co_backfillTickets c') = map_of (co_backfillTickets c) \<Longrightarrow> tickets_ok c' = tickets_ok c"
  by (simp add: tickets_ok_def)

lemma backfills_ok_cong:
  "map_of (co_backfillTickets c') = map_of (co_backfillTickets c) \<Longrightarrow> backfills_ok c' = backfills_ok c"
  by (simp add: backfills_ok_def)

lemma first_foreign_player_None:
  assumes "\<forall>p\<in>set ps. player_ID p \<noteq> ''''"
  shows "first_foreign_player owners i ps = '''' \<longleftrightarrow>
    (\<forall>p\<in>set ps. map_of owners (player_ID p) = None \<or> map_of owners (player_ID p) = Some i)"
  using assms by (induction ps) (auto split: option.splits)

lemma duplicatedPlayerLocked_None:
  assumes "ValidateMatchTicket t = None"
  shows "duplicatedPlayerLocked t c = '''' \<longleftrightarrow>
    (\<forall>p\<in>ticket_players t. map_of (co_playerTickets c) p = None \<or> map_of (co_playerTickets c) p = Some (mt_ID t))"
  using assms first_foreign_player_None [of "mt_Players t"]
  by (auto simp: duplicatedPlayerLocked_def ticket_players_def ValidateMatchTicket_None)

lemma store_match_ticket_sel [simp]:
  "co_ttl (store_match_ticket t c) = co_ttl c"
  "map_of (co_matchTickets (store_match_ticket t c)) = (map_of (co_matchTickets c))(mt_ID t \<mapsto> t)"
  "co_backfillTickets (store_match_ticket t c) = co_backfillTickets c"
  "co_ticketReservations (store_match_ticket t c) = co_ticketReservations c"
  "co_backfillReservations (store_match_ticket t c) = co_backfillReservations c"
  "co_reservations (store_match_ticket t c) = co_reservations c"
  "co_assignments (store_match_ticket t c) = co_assignments c"
  "keys_ok c \<Longrightarrow> keys_ok (store_match_ticket t c)"
  by (auto simp: store_match_ticket_def Let_def split: option.splits)

lemma store_match_ticket_owner:
  assumes "players_ok c" "tickets_ok c"
  shows "map_of (co_playerTickets (store_match_ticket t c)) p =
    (if p \<in> ticket_players t then Some (mt_ID t)
     else if map_of (co_playerTickets c) p = Some (mt_ID t) then None else map_of (co_playerTickets c) p)"
proof (cases "map_of (co_matchTickets c) (mt_ID t)")
  case None
  with assms have "map_of (co_playerTickets c) p \<noteq> Some (mt_ID t)" by (auto simp: players_ok_def)
  with None show ?thesis by (simp add: store_match_ticket_def)
next
  case (Some current)
  with assms have "mt_ID current = mt_ID t"
    "map_of (co_playerTickets c) p = Some (mt_ID t) \<longleftrightarrow> p \<in> ticket_players current"
    by (auto simp: players_ok_def tickets_ok_def)
  with Some show ?thesis by (simp add: store_match_ticket_def)
qed

lemma store_match_ticket_inv:
  assumes "coordinator_inv c" "ValidateMatchTicket t = None" "map_of (co_backfillTickets c) (mt_ID t) = None"
    "duplicatedPlayerLocked t c = ''''"
  shows "coordinator_inv (store_match_ticket t c)"
proof -
  let ?c = "store_match_ticket t c"
  from assms(1) have parts: "players_ok c" "tickets_ok c" by (simp_all add: coordinator_inv_def)
  have free: "\<forall>p\<in>ticket_players t. map_of (co_playerTickets c) p = None \<or> map_of (co_playerTickets c) p = Some (mt_ID t)"
    using assms(2,4) by (simp add: duplicatedPlayerLocked_None)
  have "players_ok ?c"
    unfolding players_ok_def
  proof (intro allI)
    fix p i
    have old: "map_of (co_playerTickets c) p = Some i \<longleftrightarrow>
        (\<exists>u. map_of (co_matchTickets c) i = Some u \<and> p \<in> ticket_players u)"
      using parts(1) by (simp add: players_ok_def)
    show "map_of (co_playerTickets ?c) p = Some i \<longleftrightarrow>
        (\<exists>u. map_of (co_matchTickets ?c) i = Some u \<and> p \<in> ticket_players u)"
    proof (cases "i = mt_ID t")
      case True
      then show ?thesis by (simp add: store_match_ticket_owner [OF parts])
    next
      case False
      with free have "p \<in> ticket_players t \<Longrightarrow> map_of (co_playerTickets c) p \<noteq> Some i" by auto
      with False old show ?thesis by (auto simp: store_match_ticket_owner [OF parts])
    qed
  qed
  moreover have "tickets_ok ?c" using parts(2) assms(2,3) by (auto simp: tickets_ok_def)
  ultimately show ?thesis using assms(1)
    by (simp add: coordinator_inv_def backfills_ok_def holds_ok_def records_ok_def assignments_ok_def)
qed

lemma remove_match_ticket_inv:
  assumes "coordinator_inv c" "map_of (co_matchTickets c) i = Some t"
  shows "coordinator_inv (remove_match_ticket i t c)"
proof -
  have "mt_ID t = i" using assms by (auto simp: coordinator_inv_def tickets_ok_def)
  have "players_ok (remove_match_ticket i t c)"
    unfolding players_ok_def
  proof (intro allI)
    fix p j
    have "map_of (co_playerTickets c) p = Some k \<longleftrightarrow>
        (\<exists>u. map_of (co_matchTickets c) k = Some u \<and> p \<in> ticket_players u)" for k
      using assms(1) by (simp add: coordinator_inv_def players_ok_def)
    from this [of i] this [of j]
    show "map_of (co_playerTickets (remove_match_ticket i t c)) p = Some j \<longleftrightarrow>
        (\<exists>u. map_of (co_matchTickets (remove_match_ticket i t c)) j = Some u \<and> p \<in> ticket_players u)"
      using assms(2) \<open>mt_ID t = i\<close> by (auto simp: remove_match_ticket_def Let_def)
  qed
  with assms(1) show ?thesis
    by (simp add: coordinator_inv_def remove_match_ticket_def Let_def tickets_ok_def backfills_ok_def
        holds_ok_def records_ok_def assignments_ok_def)
qed

lemma store_backfill_inv:
  assumes "coordinator_inv c" "ValidateBackfillTicket b = None" "map_of (co_matchTickets c) (bt_ID b) = None"
    "\<forall>i a. map_of (co_backfillTickets c) i = Some a \<longrightarrow> bt_SessionID a = bt_SessionID b \<longrightarrow> i = bt_ID b"
  shows "coordinator_inv (c\<lparr>co_backfillTickets := AList.update (bt_ID b) b (co_backfillTickets c)\<rparr>)"
proof -
  let ?c = "c\<lparr>co_backfillTickets := AList.update (bt_ID b) b (co_backfillTickets c)\<rparr>"
  from assms(1) have parts: "tickets_ok c" "backfills_ok c" by (simp_all add: coordinator_inv_def)
  have "backfills_ok ?c"
    unfolding backfills_ok_def
  proof (intro conjI allI impI)
    fix i j x y
    assume "map_of (co_backfillTickets ?c) i = Some x" "map_of (co_backfillTickets ?c) j = Some y"
      "bt_SessionID x = bt_SessionID y"
    with parts(2) assms(4) show "i = j"
      by (auto simp: backfills_ok_def split: if_splits)
  qed (use parts(2) assms(2) in \<open>auto simp: backfills_ok_def split: if_splits\<close>)
  moreover have "tickets_ok ?c" using parts(1) assms(3) by (auto simp: tickets_ok_def)
  ultimately show ?thesis using assms(1)
    by (simp add: coordinator_inv_def players_ok_def holds_ok_def records_ok_def assignments_ok_def)
qed

lemma remove_backfill_inv:
  "coordinator_inv c \<Longrightarrow> coordinator_inv (c\<lparr>co_backfillTickets := AList.delete i (co_backfillTickets c)\<rparr>)"
  by (auto simp: coordinator_inv_def inv_parts)

section \<open>Closing a reservation\<close>

definition close_record :: "ReservationID \<Rightarrow> reservationRecord \<Rightarrow> reservationRecord \<Rightarrow> Coordinator \<Rightarrow> Coordinator" where
  "close_record r record record' c = put_record r record' (releaseLocked (rec_reservation record) c)"

lemma releaseLocked_put_record:
  "releaseLocked (rec_reservation record) (put_record r record' c) = close_record r record record' c"
  by (simp add: close_record_def releaseLocked_def put_record_def cong: option.case_cong)

lemma close_record_sel [simp]:
  "co_ttl (close_record r record record' c) = co_ttl c"
  "co_matchTickets (close_record r record record' c) = co_matchTickets c"
  "co_backfillTickets (close_record r record record' c) = co_backfillTickets c"
  "co_playerTickets (close_record r record record' c) = co_playerTickets c"
  "map_of (co_reservations (close_record r record record' c)) = (map_of (co_reservations c))(r \<mapsto> record')"
  "co_assignments (close_record r record record' c) = co_assignments c"
  "keys_ok c \<Longrightarrow> keys_ok (close_record r record record' c)"
  by (simp_all add: close_record_def)

text \<open>Only the holder's entries are deleted, and all of them.\<close>

lemma close_record_holds:
  assumes "holds_ok c" "records_ok c" "map_of (co_reservations c) r = Some record" "\<not> active record'"
  shows "holds_ok (close_record r record record' c)"
proof -
  have rid: "res_ID (rec_reservation record) = r" using assms(2,3) by (auto simp: records_ok_def record_ok_def)
  have mine: "map_of (co_ticketReservations c) i = Some r \<Longrightarrow> i \<in> record_tickets record"
    "map_of (co_backfillReservations c) i = Some r \<Longrightarrow> i \<in> record_backfills record" for i
    using assms(1,3) by (auto simp: holds_ok_def)
  have "map_of (co_ticketReservations (close_record r record record' c)) i = Some s \<longleftrightarrow>
      s \<noteq> r \<and> map_of (co_ticketReservations c) i = Some s"
    "map_of (co_backfillReservations (close_record r record record' c)) i = Some s \<longleftrightarrow>
      s \<noteq> r \<and> map_of (co_backfillReservations c) i = Some s" for i s
    using mine [of i] by (auto simp: close_record_def rid)
  then show ?thesis using assms(1,4) unfolding holds_ok_def by simp
qed

lemma close_record_assignments:
  assumes "assignments_ok c" "map_of (co_reservations c) r = Some record" "active record" "\<not> confirmed record'"
  shows "assignments_ok (close_record r record record' c)"
  using assms by (fastforce simp: assignments_ok_def)

lemma close_record_inv:
  assumes "coordinator_inv c" "map_of (co_reservations c) r = Some record" "active record"
    "s \<noteq> ReservationActive" "s \<noteq> ReservationConfirmed"
  shows "coordinator_inv (close_record r record (with_status s record) c)"
proof -
  let ?c = "close_record r record (with_status s record) c"
  from assms(1) have parts: "holds_ok c" "records_ok c" "assignments_ok c" by (simp_all add: coordinator_inv_def)
  have "holds_ok ?c" using close_record_holds [OF parts(1,2) assms(2)] assms(4) by simp
  moreover have "assignments_ok ?c" using close_record_assignments [OF parts(3) assms(2,3)] assms(5) by simp
  moreover have "records_ok ?c" using parts(2) assms(2) by (auto simp: records_ok_def)
  ultimately show ?thesis using assms(1)
    by (simp add: coordinator_inv_def tickets_ok_def backfills_ok_def players_ok_def)
qed

section \<open>Expiry\<close>

definition due :: "Time \<Rightarrow> reservationRecord \<Rightarrow> bool" where
  "due now record \<longleftrightarrow> active record \<and> res_ExpiresAt (rec_reservation record) \<le> now"

abbreviation expired_now :: "reservationRecord \<Rightarrow> reservationRecord" where
  "expired_now record \<equiv> with_status ReservationExpired record"

lemma expire_record_conv:
  "expire_record now c (r, record) =
     (if due now record then close_record r record (expired_now record) c else c)"
  by (auto simp: expire_record_def due_def close_record_def Let_def)

text \<open>The loop visits each entry once, while it is still the current one.\<close>

lemma expire_loop_induct:
  assumes "keys_distinct entries" "\<forall>(r, record)\<in>set entries. map_of (co_reservations c) r = Some record" "P c"
    and step: "\<And>c r record. P c \<Longrightarrow> map_of (co_reservations c) r = Some record \<Longrightarrow> due now record \<Longrightarrow>
      P (close_record r record (expired_now record) c)"
  shows "P (foldl (expire_record now) c entries)"
  using assms(1-3)
proof (induction entries arbitrary: c)
  case (Cons entry entries)
  obtain r q where e: "entry = (r, q)" by (cases entry)
  with Cons.prems have cur: "map_of (co_reservations c) r = Some q" by simp
  have rest: "\<forall>(s, q)\<in>set entries. map_of (co_reservations (expire_record now c entry)) s = Some q"
    using Cons.prems(1,2) by (auto simp: e expire_record_conv image_iff split_beta)
  have "P (expire_record now c entry)" using Cons.prems(3) cur step by (simp add: e expire_record_conv)
  with Cons.IH [of "expire_record now c entry"] Cons.prems(1) rest show ?case by simp
qed simp

lemma expireLocked_induct:
  assumes "keys_ok c" "P c"
    and "\<And>c r record. P c \<Longrightarrow> map_of (co_reservations c) r = Some record \<Longrightarrow> due now record \<Longrightarrow>
      P (close_record r record (expired_now record) c)"
  shows "P (expireLocked now c)"
  unfolding expireLocked_def
  using keys_okD(3) [OF assms(1)] by (intro expire_loop_induct [of _ c P] assms(2,3)) auto

lemma expireLocked_inv: "coordinator_inv c \<Longrightarrow> coordinator_inv (expireLocked now c)"
proof (rule expireLocked_induct)
  assume inv: "coordinator_inv c"
  then show "keys_ok c" by (simp add: coordinator_inv_def)
  show "coordinator_inv c" by (rule inv)
qed (auto simp: due_def intro: close_record_inv)

lemma expireLocked_keys: "keys_ok c \<Longrightarrow> keys_ok (expireLocked now c)"
  by (rule expireLocked_induct) simp_all

lemma expireLocked_sel:
  assumes "keys_ok c"
  shows "co_ttl (expireLocked now c) = co_ttl c" "co_matchTickets (expireLocked now c) = co_matchTickets c"
    "co_backfillTickets (expireLocked now c) = co_backfillTickets c"
    "co_playerTickets (expireLocked now c) = co_playerTickets c"
    "co_assignments (expireLocked now c) = co_assignments c"
proof -
  have "co_ttl (expireLocked now c) = co_ttl c \<and> co_matchTickets (expireLocked now c) = co_matchTickets c \<and>
    co_backfillTickets (expireLocked now c) = co_backfillTickets c \<and>
    co_playerTickets (expireLocked now c) = co_playerTickets c \<and> co_assignments (expireLocked now c) = co_assignments c"
    using assms by (rule expireLocked_induct) simp_all
  then show "co_ttl (expireLocked now c) = co_ttl c" "co_matchTickets (expireLocked now c) = co_matchTickets c"
    "co_backfillTickets (expireLocked now c) = co_backfillTickets c"
    "co_playerTickets (expireLocked now c) = co_playerTickets c"
    "co_assignments (expireLocked now c) = co_assignments c" by simp_all
qed

text \<open>What it does to the reservations: exactly those that are due expire.\<close>

definition expire_due :: "Time \<Rightarrow> reservationRecord \<Rightarrow> reservationRecord" where
  "expire_due now record = (if due now record then expired_now record else record)"

lemma due_expired [simp]: "\<not> due now (expired_now record)"
  by (simp add: due_def)

lemma expire_loop_reservations:
  assumes "keys_distinct entries" "\<forall>(r, record)\<in>set entries. map_of (co_reservations c) r = Some record"
  shows "map_of (co_reservations (foldl (expire_record now) c entries)) r =
    (if r \<in> fst ` set entries then map_option (expire_due now) (map_of (co_reservations c) r)
     else map_of (co_reservations c) r)"
  using assms
proof (induction entries arbitrary: c)
  case (Cons entry entries)
  obtain s q where e: "entry = (s, q)" by (cases entry)
  with Cons.prems have cur: "map_of (co_reservations c) s = Some q" by simp
  have rest: "\<forall>(s, q)\<in>set entries. map_of (co_reservations (expire_record now c entry)) s = Some q"
    using Cons.prems by (auto simp: e expire_record_conv image_iff split_beta)
  have "s \<notin> fst ` set entries" using Cons.prems(1) by (simp add: e)
  moreover have "map_of (co_reservations (expire_record now c entry)) =
      (map_of (co_reservations c))(s \<mapsto> expire_due now q)"
    using cur by (auto simp: e expire_record_conv expire_due_def)
  ultimately show ?case
    using Cons.IH [of "expire_record now c entry"] Cons.prems(1) rest cur by (auto simp: e)
qed simp

lemma expireLocked_reservations:
  assumes "keys_ok c"
  shows "map_of (co_reservations (expireLocked now c)) r = map_option (expire_due now) (map_of (co_reservations c) r)"
proof (cases "r \<in> fst ` set (co_reservations c)")
  case True
  with keys_okD(3) [OF assms] show ?thesis
    unfolding expireLocked_def by (subst expire_loop_reservations) auto
next
  case False
  with keys_okD(3) [OF assms] have "map_of (co_reservations (expireLocked now c)) r = map_of (co_reservations c) r"
    unfolding expireLocked_def by (subst expire_loop_reservations) auto
  with False show ?thesis by (simp add: map_of_eq_None_iff [symmetric])
qed

lemma expireLocked_active:
  assumes "keys_ok c" "map_of (co_reservations (expireLocked now c)) r = Some q" "active q"
  shows "map_of (co_reservations c) r = Some q" "now < res_ExpiresAt (rec_reservation q)"
proof -
  obtain p where p: "map_of (co_reservations c) r = Some p" "q = expire_due now p"
    using assms(1,2) by (auto simp: expireLocked_reservations)
  with assms(3) have "\<not> due now p" "q = p" by (auto simp: expire_due_def split: if_splits)
  with p assms(3) show "map_of (co_reservations c) r = Some q" "now < res_ExpiresAt (rec_reservation q)"
    by (simp_all add: due_def)
qed

section \<open>The operations\<close>

lemma hold_resources_inv:
  assumes inv: "coordinator_inv c" and r: "r \<noteq> ''''" "map_of (co_reservations c) r = None"
    and p: "ValidateProposal p = None" "validateAvailabilityLocked p c = None"
    and rec_def: "record = \<lparr>rec_reservation = new_reservation p r now (co_ttl c), rec_proposal = p, rec_assignment = ''''\<rparr>"
  shows "coordinator_inv (hold_resources p r (put_record r record c))"
proof -
  let ?c = "hold_resources p r (put_record r record c)"
  have rec: "active record" "\<not> confirmed record" "record_ok r record" "record_tickets record = ref_ID ` set (prop_Tickets p)"
    "record_backfills record = (\<lambda>g. ref_ID (tgt_Ticket g)) ` set_option (prop_Backfill p)"
    using r p by (simp_all add: rec_def new_reservation_def record_ok_def record_tickets_def record_backfills_def)
  have free: "\<forall>i\<in>record_tickets record. map_of (co_ticketReservations c) i = None"
    "\<forall>i\<in>record_backfills record. map_of (co_backfillReservations c) i = None"
    using p(2) by (auto simp: rec validateAvailabilityLocked_def list_ex_iff split: if_splits option.splits)
  from inv have parts: "holds_ok c" "records_ok c" "assignments_ok c" by (simp_all add: coordinator_inv_def)
  have none: "map_of (co_ticketReservations c) i \<noteq> Some r" "map_of (co_backfillReservations c) i \<noteq> Some r" for i
    using parts(1) r(2) by (auto simp: holds_ok_def)
  have "map_of (co_ticketReservations ?c) i = Some s \<longleftrightarrow>
      i \<in> record_tickets record \<and> s = r \<or> s \<noteq> r \<and> map_of (co_ticketReservations c) i = Some s"
    "map_of (co_backfillReservations ?c) i = Some s \<longleftrightarrow>
      i \<in> record_backfills record \<and> s = r \<or> s \<noteq> r \<and> map_of (co_backfillReservations c) i = Some s" for i s
    using none [of i] free by (auto simp: rec)
  then have "holds_ok ?c" using parts(1) rec(1) unfolding holds_ok_def by simp
  moreover have "records_ok ?c" using parts(2) rec(3) by (simp add: records_ok_def)
  moreover have "assignments_ok ?c" using parts(3) r(2) rec(2) by (fastforce simp: assignments_ok_def)
  ultimately show ?thesis using inv
    by (simp add: coordinator_inv_def tickets_ok_def backfills_ok_def players_ok_def)
qed

lemma consume_ticket_conv:
  "consume_ticket c ref = (case map_of (co_matchTickets c) (ref_ID ref) of
     None \<Rightarrow> c\<lparr>co_matchTickets := AList.delete (ref_ID ref) (co_matchTickets c)\<rparr>
   | Some t \<Rightarrow> remove_match_ticket (ref_ID ref) t c)"
  by (simp add: consume_ticket_def remove_match_ticket_def Let_def split: option.splits)

lemma consume_ticket_inv: "coordinator_inv c \<Longrightarrow> coordinator_inv (consume_ticket c ref)"
proof (cases "map_of (co_matchTickets c) (ref_ID ref)")
  case None
  moreover assume "coordinator_inv c"
  moreover have "(map_of (co_matchTickets c))(ref_ID ref := None) = map_of (co_matchTickets c)"
    using None by auto
  ultimately show ?thesis by (simp add: consume_ticket_conv coordinator_inv_def inv_parts)
qed (simp add: consume_ticket_conv remove_match_ticket_inv)

lemma consume_ticket_sel [simp]:
  "co_ttl (consume_ticket c ref) = co_ttl c"
  "map_of (co_matchTickets (consume_ticket c ref)) = (map_of (co_matchTickets c))(ref_ID ref := None)"
  "co_backfillTickets (consume_ticket c ref) = co_backfillTickets c"
  "co_ticketReservations (consume_ticket c ref) = co_ticketReservations c"
  "co_backfillReservations (consume_ticket c ref) = co_backfillReservations c"
  "co_reservations (consume_ticket c ref) = co_reservations c"
  "co_assignments (consume_ticket c ref) = co_assignments c"
  by (simp_all add: consume_ticket_def Let_def split: option.splits)

lemma consume_tickets_sel [simp]:
  "co_ttl (foldl consume_ticket c refs) = co_ttl c"
  "co_backfillTickets (foldl consume_ticket c refs) = co_backfillTickets c"
  "co_ticketReservations (foldl consume_ticket c refs) = co_ticketReservations c"
  "co_backfillReservations (foldl consume_ticket c refs) = co_backfillReservations c"
  "co_reservations (foldl consume_ticket c refs) = co_reservations c"
  "co_assignments (foldl consume_ticket c refs) = co_assignments c"
  "map_of (co_matchTickets (foldl consume_ticket c refs)) i =
     (if i \<in> ref_ID ` set refs then None else map_of (co_matchTickets c) i)"
  "coordinator_inv c \<Longrightarrow> coordinator_inv (foldl consume_ticket c refs)"
  by (induction refs arbitrary: c) (auto simp: consume_ticket_inv)

lemma consume_backfill_sel [simp]:
  "co_ttl (consume_backfill b c) = co_ttl c"
  "co_matchTickets (consume_backfill b c) = co_matchTickets c"
  "co_playerTickets (consume_backfill b c) = co_playerTickets c"
  "co_ticketReservations (consume_backfill b c) = co_ticketReservations c"
  "co_backfillReservations (consume_backfill b c) = co_backfillReservations c"
  "co_reservations (consume_backfill b c) = co_reservations c"
  "co_assignments (consume_backfill b c) = co_assignments c"
  "map_of (co_backfillTickets (consume_backfill b c)) i =
     (if i \<in> (\<lambda>g. ref_ID (tgt_Ticket g)) ` set_option b then None else map_of (co_backfillTickets c) i)"
  "coordinator_inv c \<Longrightarrow> coordinator_inv (consume_backfill b c)"
  by (auto simp: consume_backfill_def remove_backfill_inv split: option.splits)

lemma assign_inv:
  assumes inv: "coordinator_inv c" and r: "map_of (co_reservations c) r = Some record" "active record"
    and a: "map_of (co_assignments c) i = None"
    and record': "record' = (with_status ReservationConfirmed record)\<lparr>rec_assignment := i\<rparr>"
  shows "coordinator_inv ((close_record r record record' c)
    \<lparr>co_assignments := AList.update i (new_assignment i r (rec_proposal record) now) (co_assignments c)\<rparr>)"
    (is "coordinator_inv ?c")
proof -
  from inv have parts: "holds_ok c" "records_ok c" "assignments_ok c" by (simp_all add: coordinator_inv_def)
  have "keys_ok ?c"
    using keys_ok_updates(5) [of "close_record r record record' c"] inv by (simp add: coordinator_inv_def)
  have rec: "confirmed record'" "rec_assignment record' = i" "rec_proposal record' = rec_proposal record"
    by (simp_all add: record' with_status_def)
  have "record_ok r record' = record_ok r record" by (simp add: record' record_ok_def with_status_def)
  then have "records_ok ?c" using parts(2) r(1) by (auto simp: records_ok_def)
  moreover note \<open>keys_ok ?c\<close>
  moreover have "holds_ok ?c"
    using close_record_holds [OF parts(1,2) r(1), of record'] rec(1) by (simp add: holds_ok_def)
  moreover have "assignments_ok ?c"
    unfolding assignments_ok_def
  proof (intro conjI allI impI)
    fix k x
    assume k: "map_of (co_assignments ?c) k = Some x"
    show "asg_ID x = k" "acknowledged_ok x"
      using k parts(3) by (auto simp: assignments_ok_def new_assignment_def acknowledged_ok_def split: if_splits)
    show "\<exists>q. map_of (co_reservations ?c) (asg_ReservationID x) = Some q \<and> confirmed q \<and> rec_assignment q = k \<and>
        assignment_of (rec_proposal q) x"
    proof (cases "k = i")
      case True
      then show ?thesis using k rec by (auto simp: new_assignment_def assignment_of_def)
    next
      case False
      with k have "map_of (co_assignments c) k = Some x" by simp
      with parts(3) obtain q where q: "map_of (co_reservations c) (asg_ReservationID x) = Some q" "confirmed q"
        "rec_assignment q = k" "assignment_of (rec_proposal q) x" by (auto simp: assignments_ok_def)
      moreover from q r have "asg_ReservationID x \<noteq> r" by auto
      ultimately show ?thesis by simp
    qed
  next
    fix s q
    assume "map_of (co_reservations ?c) s = Some q" "confirmed q"
    then show "\<exists>x. map_of (co_assignments ?c) (rec_assignment q) = Some x \<and> asg_ReservationID x = s"
      using parts(3) a rec by (cases "s = r") (fastforce simp: assignments_ok_def new_assignment_def)+
  qed
  ultimately show ?thesis using inv
    by (simp add: coordinator_inv_def tickets_ok_def backfills_ok_def players_ok_def)
qed

lemma replace_assignment_inv:
  assumes inv: "coordinator_inv c" and a: "map_of (co_assignments c) i = Some a"
    and same: "asg_ID a' = asg_ID a" "asg_ReservationID a' = asg_ReservationID a" "\<And>p. assignment_of p a' = assignment_of p a"
    and ok: "acknowledged_ok a'"
  shows "coordinator_inv (c\<lparr>co_assignments := AList.update i a' (co_assignments c)\<rparr>)"
proof -
  have "assignments_ok c" using inv by (simp add: coordinator_inv_def)
  then have "assignments_ok (c\<lparr>co_assignments := AList.update i a' (co_assignments c)\<rparr>)"
    using a same ok by (force simp: assignments_ok_def)
  with inv show ?thesis
    by (simp add: coordinator_inv_def tickets_ok_def backfills_ok_def players_ok_def holds_ok_def records_ok_def)
qed

end
