(* ===== verification/Coordinator_Runs.thy ===== *)
theory Coordinator_Runs
  imports Coordinator_Inv Machine Examples
begin

text \<open>
  Runs of the coordinator. Callers interleave their calls in any order and at any times; the mutex
  makes each call one step, so a run is a sequence of labelled steps from the empty state. The
  invariant holds in every reachable state. Across a run, reservations and assignments only move
  along the arrows of \<open>src/docs/lifecycle.md\<close>, which is what makes repeated requests safe.
\<close>

datatype coordinator_call =
    CallUpsertMatchTicket MatchTicket
  | CallUpsertBackfillTicket BackfillTicket
  | CallCancelMatchTicket TicketID Revision
  | CallCancelBackfillTicket TicketID Revision Revision
  | CallSnapshot SnapshotID Time MatchmakingPolicy
  | CallReserve MatchProposal ReservationID Time
  | CallConfirm ReservationID AssignmentID Time
  | CallAcknowledge AssignmentID AssignmentAcknowledgmentRequest Time
  | CallCancel ReservationID Time

inductive coordinator_step :: "Coordinator \<Rightarrow> coordinator_call \<Rightarrow> Coordinator \<Rightarrow> bool" where
  upsert_match: "UpsertMatchTicket t c = (answer, c') \<Longrightarrow> coordinator_step c (CallUpsertMatchTicket t) c'"
| upsert_backfill: "UpsertBackfillTicket b c = (answer, c') \<Longrightarrow> coordinator_step c (CallUpsertBackfillTicket b) c'"
| cancel_match: "CancelMatchTicket i v c = (answer, c') \<Longrightarrow> coordinator_step c (CallCancelMatchTicket i v) c'"
| cancel_backfill: "CancelBackfillTicket i v w c = (answer, c') \<Longrightarrow> coordinator_step c (CallCancelBackfillTicket i v w) c'"
| snapshot: "Snapshot i now p c = (view, c') \<Longrightarrow> coordinator_step c (CallSnapshot i now p) c'"
| reserve: "Reserve p r now c = (reply, c') \<Longrightarrow> coordinator_step c (CallReserve p r now) c'"
| confirm: "Confirm r a now c = (out, c') \<Longrightarrow> coordinator_step c (CallConfirm r a now) c'"
| acknowledge: "AcknowledgeAssignment a req now c = (out, c') \<Longrightarrow> coordinator_step c (CallAcknowledge a req now) c'"
| cancel: "Cancel r now c = (reply, c') \<Longrightarrow> coordinator_step c (CallCancel r now) c'"

inductive coordinator_run :: "Coordinator \<Rightarrow> coordinator_call list \<Rightarrow> Coordinator \<Rightarrow> bool" where
  stop: "coordinator_run c [] c"
| call: "coordinator_step c x c' \<Longrightarrow> coordinator_run c' xs c'' \<Longrightarrow> coordinator_run c (x # xs) c''"

inductive_cases coordinator_runE: "coordinator_run c (x # xs) c''"

definition reachable :: "Coordinator \<Rightarrow> bool" where
  "reachable c \<longleftrightarrow> (\<exists>ttl c0 calls. Coordinator_New ttl = Inr c0 \<and> coordinator_run c0 calls c)"

text \<open>A run can be computed.\<close>

fun run_call :: "coordinator_call \<Rightarrow> Coordinator \<Rightarrow> Coordinator" where
  "run_call (CallUpsertMatchTicket t) c = snd (UpsertMatchTicket t c)"
| "run_call (CallUpsertBackfillTicket b) c = snd (UpsertBackfillTicket b c)"
| "run_call (CallCancelMatchTicket i v) c = snd (CancelMatchTicket i v c)"
| "run_call (CallCancelBackfillTicket i v w) c = snd (CancelBackfillTicket i v w c)"
| "run_call (CallSnapshot i now p) c = snd (Snapshot i now p c)"
| "run_call (CallReserve p r now) c = snd (Reserve p r now c)"
| "run_call (CallConfirm r a now) c = snd (Confirm r a now c)"
| "run_call (CallAcknowledge a req now) c = snd (AcknowledgeAssignment a req now c)"
| "run_call (CallCancel r now) c = snd (Cancel r now c)"

definition run_calls :: "coordinator_call list \<Rightarrow> Coordinator \<Rightarrow> Coordinator" where
  "run_calls calls c = fold run_call calls c"

lemma coordinator_step_iff: "coordinator_step c x c' \<longleftrightarrow> run_call x c = c'"
proof
  assume "coordinator_step c x c'"
  then show "run_call x c = c'" by cases simp_all
next
  assume "run_call x c = c'"
  then show "coordinator_step c x c'"
    by (cases x) (auto simp: prod_eq_iff intro!: coordinator_step.intros)
qed

lemma coordinator_run_iff: "coordinator_run c calls c' \<longleftrightarrow> run_calls calls c = c'"
proof (induction calls arbitrary: c)
  case Nil
  then show ?case by (auto simp: run_calls_def intro: stop elim: coordinator_run.cases)
next
  case (Cons x xs)
  have "coordinator_run c (x # xs) c' \<longleftrightarrow> coordinator_run (run_call x c) xs c'"
    by (metis coordinator_runE call coordinator_step_iff)
  then show ?case using Cons by (simp add: run_calls_def)
qed

lemma reachable_run_calls: "Coordinator_New ttl = Inr c \<Longrightarrow> reachable (run_calls calls c)"
  using coordinator_run_iff by (auto simp: reachable_def)

lemma reachable_step:
  assumes "reachable c"
  shows "reachable (run_call x c)"
proof -
  from assms obtain ttl c0 calls where "Coordinator_New ttl = Inr c0" "c = run_calls calls c0"
    by (auto simp: reachable_def coordinator_run_iff)
  moreover have "run_call x (run_calls calls c0) = run_calls (calls @ [x]) c0" by (simp add: run_calls_def)
  ultimately show ?thesis by (metis reachable_run_calls)
qed

lemma reachable_run: "reachable c \<Longrightarrow> reachable (run_calls calls c)"
  unfolding run_calls_def by (induction calls arbitrary: c) (simp_all add: reachable_step)

section \<open>Every call keeps the invariant\<close>

lemma UpsertMatchTicket_inv: "coordinator_inv c \<Longrightarrow> coordinator_inv (snd (UpsertMatchTicket t c))"
  by (auto simp: UpsertMatchTicket_def split: option.splits intro: store_match_ticket_inv)

lemma UpsertBackfillTicket_inv:
  assumes "coordinator_inv c"
  shows "coordinator_inv (snd (UpsertBackfillTicket b c))"
proof -
  have "keys_distinct (co_backfillTickets c)" using assms by (simp add: coordinator_inv_def keys_okD)
  then have "\<not> list_ex (\<lambda>(i, a). i \<noteq> bt_ID b \<and> bt_SessionID a = bt_SessionID b) (co_backfillTickets c) \<Longrightarrow>
      \<forall>i a. map_of (co_backfillTickets c) i = Some a \<longrightarrow> bt_SessionID a = bt_SessionID b \<longrightarrow> i = bt_ID b"
    by (auto simp: list_ex_iff)
  with assms show ?thesis
    by (auto simp: UpsertBackfillTicket_def split: option.splits intro: store_backfill_inv)
qed

lemma CancelTickets_inv:
  "coordinator_inv c \<Longrightarrow> coordinator_inv (snd (CancelMatchTicket i v c))"
  "coordinator_inv c \<Longrightarrow> coordinator_inv (snd (CancelBackfillTicket i v w c))"
  by (auto simp: CancelMatchTicket_def CancelBackfillTicket_def remove_match_ticket_inv remove_backfill_inv
      split: option.splits)

lemma Snapshot_state:
  "snd (Snapshot i now p c) = (if i = '''' \<or> time_IsZero now \<or> ValidatePolicy p \<noteq> None then c else expireLocked now c)"
  by (auto simp: Snapshot_def Let_def split: option.splits)

lemma Snapshot_inv: "coordinator_inv c \<Longrightarrow> coordinator_inv (snd (Snapshot i now p c))"
  by (simp add: Snapshot_state expireLocked_inv)

lemma Reserve_inv: "coordinator_inv c \<Longrightarrow> coordinator_inv (snd (Reserve p r now c))"
  by (auto simp: Reserve_def Let_def expireLocked_inv split: option.splits intro!: hold_resources_inv)

lemma Cancel_inv: "coordinator_inv c \<Longrightarrow> coordinator_inv (snd (Cancel r now c))"
  using close_record_inv [OF expireLocked_inv]
  by (auto simp: Cancel_def Let_def expireLocked_inv close_record_def split: option.splits ReservationStatus.splits)

lemma confirm_active_inv:
  assumes "coordinator_inv c" "map_of (co_reservations c) r = Some record" "active record"
  shows "coordinator_inv (snd (confirm_active r record a now c))"
proof (cases "validateFreshnessLocked (rec_proposal record) c")
  case None
  show ?thesis
  proof (cases "map_of (co_assignments c) a")
    case None
    let ?c = "consume_backfill (prop_Backfill (rec_proposal record)) (foldl consume_ticket c (prop_Tickets (rec_proposal record)))"
    have "coordinator_inv ?c" using assms(1) by simp
    from assign_inv [OF this _ assms(3)] assms(2) None \<open>validateFreshnessLocked (rec_proposal record) c = None\<close>
    show ?thesis by (simp add: confirm_active_def Let_def close_record_def)
  qed (use assms(1) None in \<open>simp add: confirm_active_def\<close>)
next
  case (Some e)
  with close_record_inv [OF assms, of ReservationCancelled] releaseLocked_put_record [of "record"]
  show ?thesis by (simp add: confirm_active_def Let_def)
qed

lemma Confirm_inv: "coordinator_inv c \<Longrightarrow> coordinator_inv (snd (Confirm r a now c))"
  by (auto simp: Confirm_def Let_def expireLocked_inv confirm_active_inv split: option.splits ReservationStatus.splits)

lemma AcknowledgeAssignment_inv:
  assumes "coordinator_inv c"
  shows "coordinator_inv (snd (AcknowledgeAssignment i req now c))"
proof (cases "AcknowledgeAssignment i req now c = (fst (AcknowledgeAssignment i req now c), c)")
  case True
  with assms show ?thesis by (metis snd_conv)
next
  case False
  then obtain a where a: "map_of (co_assignments c) i = Some a" "ValidateAssignmentAcknowledgment a req = None"
    and c': "snd (AcknowledgeAssignment i req now c) = c\<lparr>co_assignments := AList.update i
      (a\<lparr>asg_Status := req_Outcome req, asg_Acknowledgment := Some \<lparr>ack_Request = req, ack_AcknowledgedAt = now\<rparr>\<rparr>)
      (co_assignments c)\<rparr>"
    by (auto simp: AcknowledgeAssignment_def Let_def split: if_splits option.splits)
  from ValidateAssignmentAcknowledgment_terminal [OF a(2)] have
    "req_Outcome req \<in> {AssignmentCompleted, AssignmentCancelled, AssignmentFailed}" .
  then show ?thesis
    unfolding c' by (intro replace_assignment_inv [OF assms a(1)]) (auto simp: acknowledged_ok_def assignment_of_def)
qed

lemmas call_inv = UpsertMatchTicket_inv UpsertBackfillTicket_inv CancelTickets_inv Snapshot_inv Reserve_inv
  Confirm_inv AcknowledgeAssignment_inv Cancel_inv

lemma run_call_inv: "coordinator_inv c \<Longrightarrow> coordinator_inv (run_call x c)"
  by (cases x) (simp_all add: call_inv)

lemma New_inv: "Coordinator_New ttl = Inr c \<Longrightarrow> coordinator_inv c"
  by (auto simp: Coordinator_New_def coordinator_inv_def keys_ok_def inv_parts split: if_splits)

section \<open>How records and assignments move\<close>

text \<open>A reservation keeps its identity, its proposal, its resources and its deadline; only an active
  one changes its status.\<close>

definition record_evolves :: "reservationRecord \<Rightarrow> reservationRecord \<Rightarrow> bool" where
  "record_evolves q q' \<longleftrightarrow> rec_proposal q' = rec_proposal q \<and>
     rec_reservation q' = (rec_reservation q)\<lparr>res_Status := res_Status (rec_reservation q')\<rparr> \<and>
     (\<not> active q \<longrightarrow> q' = q)"

text \<open>An assignment keeps everything but its status and acknowledgment; only a pending one changes them.\<close>

definition assignment_evolves :: "Assignment \<Rightarrow> Assignment \<Rightarrow> bool" where
  "assignment_evolves a a' \<longleftrightarrow>
     a' = a\<lparr>asg_Status := asg_Status a', asg_Acknowledgment := asg_Acknowledgment a'\<rparr> \<and>
     (asg_Status a \<noteq> AssignmentPending \<longrightarrow> a' = a)"

definition coordinator_evolves :: "Coordinator \<Rightarrow> Coordinator \<Rightarrow> bool" where
  "coordinator_evolves c c' \<longleftrightarrow> co_ttl c' = co_ttl c \<and>
     (\<forall>r q. map_of (co_reservations c) r = Some q \<longrightarrow>
        (\<exists>q'. map_of (co_reservations c') r = Some q' \<and> record_evolves q q')) \<and>
     (\<forall>i a. map_of (co_assignments c) i = Some a \<longrightarrow>
        (\<exists>a'. map_of (co_assignments c') i = Some a' \<and> assignment_evolves a a'))"

lemma record_evolves_refl [simp]: "record_evolves q q"
  by (simp add: record_evolves_def)

lemma record_evolves_status: "active q \<Longrightarrow> record_evolves q (with_status s q)"
  "active q \<Longrightarrow> record_evolves q ((with_status s q)\<lparr>rec_assignment := i\<rparr>)"
  by (simp_all add: record_evolves_def with_status_def)

lemma record_evolves_trans: "record_evolves p q \<Longrightarrow> record_evolves q r \<Longrightarrow> record_evolves p r"
proof (cases "active p")
  case True
  assume pq: "record_evolves p q" and qr: "record_evolves q r"
  obtain s t where "rec_reservation q = (rec_reservation p)\<lparr>res_Status := s\<rparr>"
    "rec_reservation r = (rec_reservation q)\<lparr>res_Status := t\<rparr>"
    using pq qr unfolding record_evolves_def by blast
  then have "rec_reservation r = (rec_reservation p)\<lparr>res_Status := res_Status (rec_reservation r)\<rparr>" by simp
  with True pq qr show ?thesis by (simp add: record_evolves_def)
next
  case False
  assume "record_evolves p q" "record_evolves q r"
  with False show ?thesis by (metis record_evolves_def)
qed

lemma assignment_evolves_refl [simp]: "assignment_evolves a a"
  by (simp add: assignment_evolves_def)

lemma assignment_evolves_trans: "assignment_evolves a b \<Longrightarrow> assignment_evolves b d \<Longrightarrow> assignment_evolves a d"
  by (cases a; cases b; cases d) (auto simp: assignment_evolves_def)

lemma coordinator_evolvesI:
  assumes "co_ttl c' = co_ttl c"
    "\<And>r q. map_of (co_reservations c) r = Some q \<Longrightarrow>
       \<exists>q'. map_of (co_reservations c') r = Some q' \<and> record_evolves q q'"
    "\<And>i a. map_of (co_assignments c) i = Some a \<Longrightarrow>
       \<exists>a'. map_of (co_assignments c') i = Some a' \<and> assignment_evolves a a'"
  shows "coordinator_evolves c c'"
  using assms by (simp add: coordinator_evolves_def)

lemma coordinator_evolves_refl [simp]: "coordinator_evolves c c"
  by (rule coordinator_evolvesI) auto

lemma coordinator_evolves_trans:
  assumes "coordinator_evolves c d" "coordinator_evolves d e"
  shows "coordinator_evolves c e"
proof (rule coordinator_evolvesI)
  show "co_ttl e = co_ttl c" using assms by (simp add: coordinator_evolves_def)
  show "\<exists>q'. map_of (co_reservations e) r = Some q' \<and> record_evolves q q'"
    if "map_of (co_reservations c) r = Some q" for r q
    using assms that by (meson coordinator_evolves_def record_evolves_trans)
  show "\<exists>a'. map_of (co_assignments e) i = Some a' \<and> assignment_evolves a a'"
    if "map_of (co_assignments c) i = Some a" for i a
    using assms that by (meson coordinator_evolves_def assignment_evolves_trans)
qed

lemma coordinator_evolves_same:
  "co_ttl c' = co_ttl c \<Longrightarrow> co_reservations c' = co_reservations c \<Longrightarrow> co_assignments c' = co_assignments c \<Longrightarrow>
   coordinator_evolves c c'"
  by (rule coordinator_evolvesI) auto

lemma close_record_evolves:
  "map_of (co_reservations c) r = Some q \<Longrightarrow> record_evolves q q' \<Longrightarrow> coordinator_evolves c (close_record r q q' c)"
  by (rule coordinator_evolvesI) auto

lemma expireLocked_evolves: "keys_ok c \<Longrightarrow> coordinator_evolves c (expireLocked now c)"
proof (rule expireLocked_induct)
  fix d r q
  assume "coordinator_evolves c d" "map_of (co_reservations d) r = Some q" "due now q"
  then show "coordinator_evolves c (close_record r q (expired_now q) d)"
    by (auto simp: due_def intro: coordinator_evolves_trans close_record_evolves record_evolves_status)
qed auto

lemma Reserve_evolves: "keys_ok c \<Longrightarrow> coordinator_evolves c (snd (Reserve p r now c))"
proof -
  assume "keys_ok c"
  then have e: "coordinator_evolves c (expireLocked now c)" by (rule expireLocked_evolves)
  have "coordinator_evolves (expireLocked now c) (hold_resources p r (put_record r q (expireLocked now c)))"
    if "map_of (co_reservations (expireLocked now c)) r = None" for q
    using that by (intro coordinator_evolvesI) auto
  with e show ?thesis
    by (auto simp: Reserve_def Let_def split: option.splits intro: coordinator_evolves_trans)
qed

lemma Cancel_evolves: "keys_ok c \<Longrightarrow> coordinator_evolves c (snd (Cancel r now c))"
  using expireLocked_evolves [of c now]
  by (auto simp: Cancel_def Let_def close_record_def [symmetric] split: option.splits ReservationStatus.splits
      intro: coordinator_evolves_trans close_record_evolves record_evolves_status)

lemma confirm_active_evolves:
  assumes "map_of (co_reservations c) r = Some q" "active q"
  shows "coordinator_evolves c (snd (confirm_active r q a now c))"
proof (cases "validateFreshnessLocked (rec_proposal q) c")
  case None
  show ?thesis
  proof (cases "map_of (co_assignments c) a")
    case None
    with \<open>validateFreshnessLocked (rec_proposal q) c = None\<close> assms show ?thesis
      by (intro coordinator_evolvesI)
        (auto simp: confirm_active_def Let_def intro: record_evolves_status)
  qed (use None in \<open>simp add: confirm_active_def\<close>)
next
  case (Some e)
  with assms releaseLocked_put_record [of q] show ?thesis
    by (simp add: confirm_active_def Let_def close_record_evolves record_evolves_status)
qed

lemma Confirm_evolves: "keys_ok c \<Longrightarrow> coordinator_evolves c (snd (Confirm r a now c))"
  using expireLocked_evolves [of c now] confirm_active_evolves [of "expireLocked now c" r]
  by (auto simp: Confirm_def Let_def split: option.splits ReservationStatus.splits intro: coordinator_evolves_trans)

lemma AcknowledgeAssignment_evolves: "coordinator_evolves c (snd (AcknowledgeAssignment i req now c))"
  by (auto simp: AcknowledgeAssignment_def Let_def assignment_evolves_def split: option.splits
      intro!: coordinator_evolvesI)

lemma ticket_calls_evolve:
  "coordinator_evolves c (snd (UpsertMatchTicket t c))" "coordinator_evolves c (snd (UpsertBackfillTicket b c))"
  "coordinator_evolves c (snd (CancelMatchTicket i v c))" "coordinator_evolves c (snd (CancelBackfillTicket i v w c))"
  by (auto simp: UpsertMatchTicket_def UpsertBackfillTicket_def CancelMatchTicket_def CancelBackfillTicket_def
      remove_match_ticket_def Let_def split: option.splits intro: coordinator_evolves_same)

lemmas call_evolves = ticket_calls_evolve Reserve_evolves Confirm_evolves AcknowledgeAssignment_evolves Cancel_evolves

lemma run_call_evolves: "keys_ok c \<Longrightarrow> coordinator_evolves c (run_call x c)"
  by (cases x) (simp_all add: call_evolves Snapshot_state expireLocked_evolves)

interpretation coordinator: machine_evolves run_call coordinator_inv coordinator_evolves
proof unfold_locales
  fix c x assume inv: "coordinator_inv c"
  then show "coordinator_inv (run_call x c)" by (rule run_call_inv)
  show "coordinator_evolves c (run_call x c)" using inv by (simp add: run_call_evolves coordinator_inv_def)
qed (auto intro: coordinator_evolves_trans)

lemma reachable_inv: "reachable c \<Longrightarrow> coordinator_inv c"
  by (auto simp: reachable_def coordinator_run_iff run_calls_def New_inv coordinator.runs_inv)

lemma run_evolves: "coordinator_inv c \<Longrightarrow> coordinator_run c calls c' \<Longrightarrow> coordinator_inv c' \<and> coordinator_evolves c c'"
  by (auto simp: coordinator_run_iff run_calls_def coordinator.runs_inv coordinator.runs_evolve)

end
