(* ===== verification/Coordinator_Props.thy ===== *)
theory Coordinator_Props
  imports Coordinator_Runs
begin

text \<open>
  What the coordinator promises to its callers: exclusive holds, reservations that are all or
  nothing, confirmation that consumes exactly the reserved revisions, and answers to repeated
  requests that do not depend on what other callers did in between.
\<close>

section \<open>Facts of reachable states\<close>

lemma reachable_parts:
  assumes "reachable c"
  shows "coordinator_inv c" "keys_ok c" "tickets_ok c" "backfills_ok c" "players_ok c" "holds_ok c" "records_ok c"
    "assignments_ok c"
  using reachable_inv [OF assms] by (simp_all add: coordinator_inv_def)

lemma exclusive_holds:
  assumes "holds_ok c" "map_of (co_reservations c) r = Some q" "map_of (co_reservations c) s = Some q'"
    "active q" "active q'" "r \<noteq> s"
  shows "record_tickets q \<inter> record_tickets q' = {}" "record_backfills q \<inter> record_backfills q' = {}"
proof -
  have "map_of (co_ticketReservations c) i = Some r" if "i \<in> record_tickets q" for i
    using assms(1,2,4) that by (auto simp: holds_ok_def)
  moreover have "map_of (co_ticketReservations c) i = Some s" if "i \<in> record_tickets q'" for i
    using assms(1,3,5) that by (auto simp: holds_ok_def)
  ultimately show "record_tickets q \<inter> record_tickets q' = {}" using assms(6) by fastforce
  have "map_of (co_backfillReservations c) i = Some r" if "i \<in> record_backfills q" for i
    using assms(1,2,4) that by (auto simp: holds_ok_def)
  moreover have "map_of (co_backfillReservations c) i = Some s" if "i \<in> record_backfills q'" for i
    using assms(1,3,5) that by (auto simp: holds_ok_def)
  ultimately show "record_backfills q \<inter> record_backfills q' = {}" using assms(6) by fastforce
qed

lemma exclusive_players:
  assumes "players_ok c" "map_of (co_matchTickets c) i = Some t" "map_of (co_matchTickets c) j = Some u" "i \<noteq> j"
  shows "ticket_players t \<inter> ticket_players u = {}"
proof -
  have "map_of (co_playerTickets c) p = Some i" if "p \<in> ticket_players t" for p
    using assms(1,2) that by (auto simp: players_ok_def)
  moreover have "map_of (co_playerTickets c) p = Some j" if "p \<in> ticket_players u" for p
    using assms(1,3) that by (auto simp: players_ok_def)
  ultimately show ?thesis using assms(4) by fastforce
qed

section \<open>What the calls answer\<close>

lemma Reserve_error:
  "Reserve p r now c = (Inl e, c') \<Longrightarrow> c' = c \<or> c' = expireLocked now c"
  by (auto simp: Reserve_def Let_def split: if_splits option.splits)

lemma Reserve_known:
  assumes "Reserve p r now c = (Inr res, c')" "map_of (co_reservations (expireLocked now c)) r = Some q"
  shows "c' = expireLocked now c" "rec_proposal q = p" "rec_reservation q = res" "active q \<or> confirmed q"
  using assms by (auto simp: Reserve_def replay_reserve_def Let_def split: if_splits option.splits ReservationStatus.splits)

lemma Reserve_new:
  assumes "Reserve p r now c = (Inr res, c')" "map_of (co_reservations (expireLocked now c)) r = None"
  shows "r \<noteq> ''''" "\<not> time_IsZero now" "ValidateProposal p = None"
    "validateFreshnessLocked p (expireLocked now c) = None" "validateAvailabilityLocked p (expireLocked now c) = None"
    "res = new_reservation p r now (co_ttl (expireLocked now c))"
    "c' = hold_resources p r (put_record r \<lparr>rec_reservation = res, rec_proposal = p, rec_assignment = ''''\<rparr> (expireLocked now c))"
  using assms by (auto simp: Reserve_def Let_def split: if_splits option.splits)

text \<open>After a successful answer the record is there, with the proposal and the reservation that were answered.\<close>

lemma Reserve_recorded:
  assumes "Reserve p r now c = (Inr res, c')"
  shows "\<exists>q. map_of (co_reservations c') r = Some q \<and> rec_proposal q = p \<and> rec_reservation q = res"
proof (cases "map_of (co_reservations (expireLocked now c)) r")
  case None
  from Reserve_new [OF assms this] show ?thesis by simp
next
  case (Some q)
  from Reserve_known [OF assms this] Some show ?thesis by auto
qed

lemma validateFreshnessLocked_None:
  "validateFreshnessLocked p c = None \<longleftrightarrow>
     (\<forall>ref\<in>set (prop_Tickets p). \<exists>t. map_of (co_matchTickets c) (ref_ID ref) = Some t \<and> mt_Revision t = ref_Revision ref) \<and>
     (\<forall>g\<in>set_option (prop_Backfill p). \<exists>b. map_of (co_backfillTickets c) (ref_ID (tgt_Ticket g)) = Some b \<and>
        bt_Revision b = ref_Revision (tgt_Ticket g) \<and> bt_SessionID b = tgt_SessionID g \<and>
        bt_RosterVersion b = tgt_RosterVersion g)"
  by (auto simp: validateFreshnessLocked_def fresh_ref_def fresh_target_def list_all_iff split: option.splits)

lemma validateFreshnessLocked_Some: "validateFreshnessLocked p c = Some e \<Longrightarrow> e = FailureStaleSnapshot"
  by (auto simp: validateFreshnessLocked_def split: if_splits option.splits)

lemma validateAvailabilityLocked_index:
  "validateAvailabilityLocked p c = None \<longleftrightarrow>
     (\<forall>ref\<in>set (prop_Tickets p). map_of (co_ticketReservations c) (ref_ID ref) = None) \<and>
     (\<forall>g\<in>set_option (prop_Backfill p). map_of (co_backfillReservations c) (ref_ID (tgt_Ticket g)) = None)"
  by (auto simp: validateAvailabilityLocked_def list_ex_iff split: option.splits)

text \<open>Under the invariant the indexes answer for the reservations.\<close>

lemma validateAvailabilityLocked_None:
  assumes "holds_ok c"
  shows "validateAvailabilityLocked p c = None \<longleftrightarrow>
    (\<forall>r q. map_of (co_reservations c) r = Some q \<longrightarrow> active q \<longrightarrow>
       record_tickets q \<inter> ref_ID ` set (prop_Tickets p) = {} \<and>
       record_backfills q \<inter> (\<lambda>g. ref_ID (tgt_Ticket g)) ` set_option (prop_Backfill p) = {})"
proof -
  have free: "map_of (co_ticketReservations c) i = None \<longleftrightarrow>
      (\<forall>r q. map_of (co_reservations c) r = Some q \<longrightarrow> active q \<longrightarrow> i \<notin> record_tickets q)"
    "map_of (co_backfillReservations c) i = None \<longleftrightarrow>
      (\<forall>r q. map_of (co_reservations c) r = Some q \<longrightarrow> active q \<longrightarrow> i \<notin> record_backfills q)" for i
    using assms unfolding holds_ok_def by (metis not_None_eq option.distinct(1))+
  show ?thesis unfolding validateAvailabilityLocked_index free by blast
qed

lemma Confirm_new:
  assumes "Confirm r a now c = (Inr x, c')" "map_of (co_assignments (expireLocked now c)) a = None"
    "assignments_ok (expireLocked now c)"
  obtains q where "map_of (co_reservations (expireLocked now c)) r = Some q" "active q"
    "validateFreshnessLocked (rec_proposal q) (expireLocked now c) = None"
    "confirm_active r q a now (expireLocked now c) = (Inr x, c')"
proof -
  obtain q where q: "map_of (co_reservations (expireLocked now c)) r = Some q"
    using assms(1) by (auto simp: Confirm_def Let_def split: if_splits option.splits)
  have "\<not> (confirmed q \<and> rec_assignment q = a)" using assms(2,3) q by (fastforce simp: assignments_ok_def)
  with assms(1) q have "active q" "confirm_active r q a now (expireLocked now c) = (Inr x, c')"
    by (auto simp: Confirm_def Let_def split: if_splits)
  moreover from this have "validateFreshnessLocked (rec_proposal q) (expireLocked now c) = None"
    by (auto simp: confirm_active_def Let_def split: option.splits)
  ultimately show ?thesis using q that by blast
qed

text \<open>Players of a removed ticket are free when no other ticket was added.\<close>

lemma removed_players:
  assumes "players_ok c" "players_ok c'" "map_of (co_matchTickets c) i = Some t" "map_of (co_matchTickets c') i = None"
    "\<And>j u. map_of (co_matchTickets c') j = Some u \<Longrightarrow> map_of (co_matchTickets c) j = Some u" "p \<in> ticket_players t"
  shows "map_of (co_playerTickets c') p = None"
proof (rule ccontr)
  assume "map_of (co_playerTickets c') p \<noteq> None"
  then obtain j u where u: "map_of (co_matchTickets c') j = Some u" "p \<in> ticket_players u"
    using assms(2) by (auto simp: players_ok_def)
  with assms(4) have "i \<noteq> j" by auto
  with exclusive_players [OF assms(1,3) assms(5) [OF u(1)]] u(2) assms(6) show False by blast
qed

abbreviation proposal_tickets :: "MatchProposal \<Rightarrow> TicketID set" where
  "proposal_tickets p \<equiv> ref_ID ` set (prop_Tickets p)"

abbreviation proposal_backfills :: "MatchProposal \<Rightarrow> TicketID set" where
  "proposal_backfills p \<equiv> (\<lambda>g. ref_ID (tgt_Ticket g)) ` set_option (prop_Backfill p)"

lemma confirm_active_effect:
  assumes "confirm_active r q a now c = (Inr x, c')" "map_of (co_assignments c) a = None"
  shows "map_of (co_matchTickets c') i =
      (if i \<in> ref_ID ` set (prop_Tickets (rec_proposal q)) then None else map_of (co_matchTickets c) i)"
    "map_of (co_reservations c') = (map_of (co_reservations c))(r \<mapsto> with_status ReservationConfirmed q\<lparr>rec_assignment := a\<rparr>)"
    "map_of (co_assignments c') a = Some x" "assignment_of (rec_proposal q) x" "asg_Status x = AssignmentPending"
    "map_of (co_backfillTickets c') i =
      (if i \<in> proposal_backfills (rec_proposal q) then None else map_of (co_backfillTickets c) i)"
    "map_of (co_ticketReservations c') i =
      (if i \<in> record_tickets q \<and> map_of (co_ticketReservations c) i = Some (res_ID (rec_reservation q))
       then None else map_of (co_ticketReservations c) i)"
    "map_of (co_backfillReservations c') i =
      (if i \<in> record_backfills q \<and> map_of (co_backfillReservations c) i = Some (res_ID (rec_reservation q))
       then None else map_of (co_backfillReservations c) i)"
    "i \<noteq> a \<Longrightarrow> map_of (co_assignments c') i = map_of (co_assignments c) i"
  using assms by (auto simp: confirm_active_def Let_def new_assignment_def assignment_of_def split: option.splits)

lemma confirm_active_releases:
  assumes "coordinator_inv c" "map_of (co_reservations c) r = Some q" "active q"
    "confirm_active r q a now c = (Inr x, c')" "map_of (co_assignments c) a = None"
  shows "map_of (co_ticketReservations c') i =
      (if i \<in> proposal_tickets (rec_proposal q) then None else map_of (co_ticketReservations c) i)"
    "map_of (co_backfillReservations c') i =
      (if i \<in> proposal_backfills (rec_proposal q) then None else map_of (co_backfillReservations c) i)"
proof -
  have ok: "res_ID (rec_reservation q) = r" "record_tickets q = proposal_tickets (rec_proposal q)"
    "record_backfills q = proposal_backfills (rec_proposal q)"
    using assms(1,2) by (auto simp: coordinator_inv_def records_ok_def record_ok_def record_tickets_def record_backfills_def)
  have held: "j \<in> record_tickets q \<Longrightarrow> map_of (co_ticketReservations c) j = Some r"
    "j \<in> record_backfills q \<Longrightarrow> map_of (co_backfillReservations c) j = Some r" for j
    using assms(1-3) by (auto simp: coordinator_inv_def holds_ok_def)
  show "map_of (co_ticketReservations c') i =
      (if i \<in> proposal_tickets (rec_proposal q) then None else map_of (co_ticketReservations c) i)"
    "map_of (co_backfillReservations c') i =
      (if i \<in> proposal_backfills (rec_proposal q) then None else map_of (co_backfillReservations c) i)"
    using confirm_active_effect(7,8) [OF assms(4,5), of i] held [of i] unfolding ok by auto
qed

lemma Confirm_effect:
  assumes "reachable c" "Confirm r a now c = (Inr x, c')" "map_of (co_assignments c) a = None"
  obtains q where "map_of (co_reservations c) r = Some q" "active q" "now < res_ExpiresAt (rec_reservation q)"
    "validateFreshnessLocked (rec_proposal q) c = None"
    "\<And>i. map_of (co_matchTickets c') i =
       (if i \<in> ref_ID ` set (prop_Tickets (rec_proposal q)) then None else map_of (co_matchTickets c) i)"
    "map_of (co_reservations c') r = Some (with_status ReservationConfirmed q\<lparr>rec_assignment := a\<rparr>)"
    "map_of (co_assignments c') a = Some x" "assignment_of (rec_proposal q) x" "asg_Status x = AssignmentPending"
    "\<And>i. map_of (co_ticketReservations c') i =
       (if i \<in> proposal_tickets (rec_proposal q) then None else map_of (co_ticketReservations (expireLocked now c)) i)"
    "\<And>i. map_of (co_backfillTickets c') i =
       (if i \<in> proposal_backfills (rec_proposal q) then None else map_of (co_backfillTickets c) i)"
    "\<And>i. map_of (co_backfillReservations c') i =
       (if i \<in> proposal_backfills (rec_proposal q) then None else map_of (co_backfillReservations (expireLocked now c)) i)"
    "\<And>i. i \<noteq> r \<Longrightarrow> map_of (co_reservations c') i = map_of (co_reservations (expireLocked now c)) i"
    "\<And>i. i \<noteq> a \<Longrightarrow> map_of (co_assignments c') i = map_of (co_assignments c) i"
proof -
  note keys = reachable_parts(2) [OF assms(1)]
  let ?e = "expireLocked now c"
  note e = expireLocked_sel [OF keys, of now]
  have inv: "coordinator_inv ?e" using reachable_inv [OF assms(1)] by (rule expireLocked_inv)
  have none: "map_of (co_assignments ?e) a = None" using assms(3) by (simp add: e)
  have "assignments_ok ?e" using inv by (simp add: coordinator_inv_def)
  from Confirm_new [OF assms(2) none this] obtain q where q: "map_of (co_reservations ?e) r = Some q" "active q"
    "validateFreshnessLocked (rec_proposal q) ?e = None" "confirm_active r q a now ?e = (Inr x, c')" by blast
  note effect = confirm_active_effect [OF q(4) none]
  show ?thesis
  proof (rule that [OF expireLocked_active(1) [OF keys q(1,2)] q(2) expireLocked_active(2) [OF keys q(1,2)]])
    show "validateFreshnessLocked (rec_proposal q) c = None" using q(3) by (simp add: validateFreshnessLocked_None e)
    show "map_of (co_reservations c') r = Some (with_status ReservationConfirmed q\<lparr>rec_assignment := a\<rparr>)"
      using effect(2) by simp
  qed (use effect confirm_active_releases [OF inv q(1,2,4) none] in \<open>auto simp: e\<close>)
qed

lemma close_record_free:
  assumes "coordinator_inv c" "map_of (co_reservations c) r = Some q" "active q" "\<not> active q'" "i \<in> record_tickets q"
  shows "map_of (co_ticketReservations (close_record r q q' c)) i = None"
proof -
  have "map_of (co_ticketReservations c) i = Some r" "res_ID (rec_reservation q) = r"
    using assms by (auto simp: coordinator_inv_def holds_ok_def records_ok_def record_ok_def)
  with assms(5) show ?thesis by (simp add: close_record_def)
qed

text \<open>A reservation that is active and not due is untouched by the expiry.\<close>

lemma expireLocked_live:
  assumes "keys_ok c" "map_of (co_reservations c) r = Some q" "\<not> due now q"
  shows "map_of (co_reservations (expireLocked now c)) r = Some q"
  using assms by (simp add: expireLocked_reservations expire_due_def)

lemma Confirm_active_conv:
  assumes "keys_ok c" "map_of (co_reservations c) r = Some q" "active q" "now < res_ExpiresAt (rec_reservation q)"
    "r \<noteq> ''''" "a \<noteq> ''''" "now \<noteq> 0"
  shows "Confirm r a now c = confirm_active r q a now (expireLocked now c)"
  using assms expireLocked_live [OF assms(1,2), of now]
  by (simp add: Confirm_def Let_def time_IsZero_def due_def)

text \<open>After a successful confirmation the reservation is confirmed under the assignment that was answered.\<close>

lemma Confirm_recorded:
  assumes "reachable c" "Confirm r a now c = (Inr x, c')"
  shows "\<exists>q. map_of (co_reservations c') r = Some q \<and> confirmed q \<and> rec_assignment q = a \<and>
    map_of (co_assignments c') a = Some x"
proof (cases "map_of (co_assignments c) a")
  case None
  show ?thesis by (rule Confirm_effect [OF assms None]) simp
next
  case (Some y)
  note keys = reachable_parts(2) [OF assms(1)]
  let ?e = "expireLocked now c"
  have y: "map_of (co_assignments ?e) a = Some y" using Some by (simp add: expireLocked_sel [OF keys])
  obtain q where q: "map_of (co_reservations ?e) r = Some q"
    using assms(2) by (auto simp: Confirm_def Let_def split: if_splits option.splits)
  have "\<not> active q"
  proof
    assume "active q"
    with assms(2) q y have "asg_ReservationID y = r"
      by (auto simp: Confirm_def Let_def confirm_active_def split: if_splits option.splits)
    moreover have "assignments_ok ?e" using expireLocked_inv [OF reachable_inv [OF assms(1)]] by (simp add: coordinator_inv_def)
    ultimately show False using y q \<open>active q\<close> by (fastforce simp: assignments_ok_def)
  qed
  with assms(2) q y show ?thesis
    by (auto simp: Confirm_def Let_def map_get_def split: if_splits)
qed

lemma AcknowledgeAssignment_recorded:
  assumes "reachable c" "AcknowledgeAssignment i req now c = (Inr x, c')"
  shows "map_of (co_assignments c') i = Some x \<and> asg_Status x \<noteq> AssignmentPending \<and> i \<noteq> '''' \<and>
    req_OperationID req \<noteq> '''' \<and> map_option ack_Request (asg_Acknowledgment x) = Some req"
  using assms(2)
  by (auto simp: AcknowledgeAssignment_def replay_acknowledgment_def Let_def split: if_splits option.splits
      dest: ValidateAssignmentAcknowledgment_terminal)

lemma run_record:
  assumes "coordinator_inv c" "coordinator_run c calls c'" "map_of (co_reservations c) r = Some q"
  obtains q' where "map_of (co_reservations c') r = Some q'" "record_evolves q q'"
  using run_evolves [OF assms(1,2)] assms(3) that unfolding coordinator_evolves_def by blast

lemma run_assignment:
  assumes "coordinator_inv c" "coordinator_run c calls c'" "map_of (co_assignments c) i = Some a"
  obtains a' where "map_of (co_assignments c') i = Some a'" "assignment_evolves a a'"
  using run_evolves [OF assms(1,2)] assms(3) that unfolding coordinator_evolves_def by blast

section \<open>Example run\<close>

definition ex_proposal :: "Revision \<Rightarrow> MatchProposal" where
  "ex_proposal revision = \<lparr>prop_ID = ''p'', prop_Kind = ProposalNewMatch, prop_PolicyVersion = ''v1'',
     prop_PolicyFingerprint = ''f'',
     prop_Teams = [\<lparr>ta_Team = 0, ta_Tickets = [\<lparr>ref_ID = ''a'', ref_Revision = revision\<rparr>]\<rparr>,
                   \<lparr>ta_Team = 1, ta_Tickets = [\<lparr>ref_ID = ''b'', ref_Revision = 1\<rparr>]\<rparr>],
     prop_Tickets = [\<lparr>ref_ID = ''a'', ref_Revision = revision\<rparr>, \<lparr>ref_ID = ''b'', ref_Revision = 1\<rparr>],
     prop_Backfill = None, prop_Evidence = ScoreEvidence_zero\<rparr>"

definition ex_start :: Coordinator where
  "ex_start = \<lparr>co_ttl = 50, co_matchTickets = [], co_backfillTickets = [], co_playerTickets = [],
     co_ticketReservations = [], co_backfillReservations = [], co_reservations = [], co_assignments = []\<rparr>"

definition ex_submitted :: Coordinator where
  "ex_submitted = run_calls [CallUpsertMatchTicket (ex_solo ''a'' 10 5 ''''),
     CallUpsertMatchTicket (ex_solo ''b'' 20 5 ''''), CallUpsertMatchTicket (ex_solo ''c'' 30 5 '''')] ex_start"

definition ex_reserved :: Coordinator where
  "ex_reserved = run_calls [CallReserve (ex_proposal 1) ''r'' 100] ex_submitted"

definition ex_confirmed :: Coordinator where
  "ex_confirmed = run_calls [CallConfirm ''r'' ''m'' 110] ex_reserved"

lemma ex_New: "Coordinator_New 50 = Inr ex_start"
  by (simp add: Coordinator_New_def ex_start_def)

lemma ex_reachable: "reachable ex_submitted" "reachable ex_reserved" "reachable ex_confirmed"
proof -
  have "reachable ex_start" using reachable_run_calls [OF ex_New, of "[]"] by (simp add: run_calls_def)
  then show 1: "reachable ex_submitted" unfolding ex_submitted_def by (rule reachable_run)
  show 2: "reachable ex_reserved" unfolding ex_reserved_def using 1 by (rule reachable_run)
  show "reachable ex_confirmed" unfolding ex_confirmed_def using 2 by (rule reachable_run)
qed

section \<open>Properties\<close>

text \<open>
  C12. No two active reservations hold the same ticket: in every state that calls can reach, the match
  tickets and the backfill tickets of two active reservations are disjoint.
\<close>
theorem reservations_exclusive:
  assumes "reachable c" "map_of (co_reservations c) r = Some q" "map_of (co_reservations c) s = Some q'"
    "active q" "active q'" "r \<noteq> s"
  shows "record_tickets q \<inter> record_tickets q' = {} \<and> record_backfills q \<inter> record_backfills q' = {}"
  using exclusive_holds [OF reachable_parts(6) [OF assms(1)] assms(2-6)] by blast

definition ex_two :: Coordinator where
  "ex_two = run_calls [CallReserve ((ex_proposal 1)\<lparr>
     prop_Teams := [\<lparr>ta_Team = 0, ta_Tickets = [\<lparr>ref_ID = ''c'', ref_Revision = 1\<rparr>]\<rparr>],
     prop_Tickets := [\<lparr>ref_ID = ''c'', ref_Revision = 1\<rparr>]\<rparr>) ''s'' 105] ex_reserved"

theorem reservations_exclusive_witness:
  "\<exists>q q'. map_of (co_reservations ex_two) ''r'' = Some q \<and> map_of (co_reservations ex_two) ''s'' = Some q' \<and>
     active q \<and> active q' \<and> record_tickets q \<inter> record_tickets q' = {}"
proof -
  let ?q = "the (map_of (co_reservations ex_two) ''r'')" and ?q' = "the (map_of (co_reservations ex_two) ''s'')"
  have "reachable ex_two" unfolding ex_two_def using ex_reachable(2) by (rule reachable_run)
  moreover have "map_of (co_reservations ex_two) ''r'' = Some ?q" "map_of (co_reservations ex_two) ''s'' = Some ?q'"
    "active ?q" "active ?q'" by code_simp+
  ultimately show ?thesis using reservations_exclusive [of ex_two "''r''" ?q "''s''" ?q'] by auto
qed

text \<open>
  C13. The indexes are exact in every reachable state: a player's entry names the one active ticket
  with that player, and a ticket's entry names the one active reservation that holds it. In
  particular no player is in two active tickets.
\<close>
theorem indexes_exact:
  assumes "reachable c"
  shows "(map_of (co_playerTickets c) p = Some i \<longleftrightarrow>
       (\<exists>t. map_of (co_matchTickets c) i = Some t \<and> p \<in> player_ID ` set (mt_Players t))) \<and>
    (map_of (co_ticketReservations c) i = Some r \<longleftrightarrow>
       (\<exists>q. map_of (co_reservations c) r = Some q \<and> active q \<and> i \<in> ref_ID ` set (prop_Tickets (rec_proposal q)))) \<and>
    (map_of (co_backfillReservations c) i = Some r \<longleftrightarrow>
       (\<exists>q g. map_of (co_reservations c) r = Some q \<and> active q \<and> prop_Backfill (rec_proposal q) = Some g \<and>
          i = ref_ID (tgt_Ticket g)))"
proof -
  note parts = reachable_parts [OF assms]
  have "record_tickets q = ref_ID ` set (prop_Tickets (rec_proposal q)) \<and>
      record_backfills q = (\<lambda>g. ref_ID (tgt_Ticket g)) ` set_option (prop_Backfill (rec_proposal q))"
    if "map_of (co_reservations c) r = Some q" for q
    using parts(7) that by (auto simp: records_ok_def record_ok_def record_tickets_def record_backfills_def)
  then show ?thesis using parts(5,6) unfolding players_ok_def holds_ok_def ticket_players_def
    by (auto simp: elem_set)
qed

theorem indexes_exact_witness:
  "map_of (co_ticketReservations ex_reserved) ''a'' = Some ''r'' \<and>
   (\<exists>q. map_of (co_reservations ex_reserved) ''r'' = Some q \<and> active q \<and>
      ''a'' \<in> ref_ID ` set (prop_Tickets (rec_proposal q)))"
proof -
  have "map_of (co_ticketReservations ex_reserved) ''a'' = Some ''r''" by code_simp
  with indexes_exact [OF ex_reachable(2), of p "''a''" "''r''"] show ?thesis by blast
qed

text \<open>
  C14. Reserving is all or nothing. A refused request changes nothing beyond expiring reservations
  that are due. A request that creates the reservation found every ticket at the revision it names
  and the backfill it fills, if any, at the revision, session and roster it names, all of them free of
  active holders; afterwards it holds exactly these in addition, under its identity and until the
  deadline, and it leaves the tickets, players and assignments alone.
\<close>
theorem Reserve_all_or_nothing:
  assumes "reachable c" "Reserve p r now c = (reply, c')"
  shows "case reply of
      Inl e \<Rightarrow> c' = c \<or> c' = expireLocked now c
    | Inr res \<Rightarrow>
        co_matchTickets c' = co_matchTickets c \<and> co_backfillTickets c' = co_backfillTickets c \<and>
        co_playerTickets c' = co_playerTickets c \<and> co_assignments c' = co_assignments c \<and>
        (map_of (co_reservations c) r = None \<longrightarrow>
           res_Status res = ReservationActive \<and> res_ExpiresAt res = now + co_ttl c \<and>
           (\<forall>ref\<in>set (prop_Tickets p).
              map_of (co_ticketReservations (expireLocked now c)) (ref_ID ref) = None \<and>
              map_of (co_ticketReservations c') (ref_ID ref) = Some r \<and>
              (\<exists>t. map_of (co_matchTickets c) (ref_ID ref) = Some t \<and> mt_Revision t = ref_Revision ref)) \<and>
           (\<forall>g\<in>set_option (prop_Backfill p).
              map_of (co_backfillReservations (expireLocked now c)) (ref_ID (tgt_Ticket g)) = None \<and>
              map_of (co_backfillReservations c') (ref_ID (tgt_Ticket g)) = Some r \<and>
              (\<exists>b. map_of (co_backfillTickets c) (ref_ID (tgt_Ticket g)) = Some b \<and> bt_Revision b = ref_Revision (tgt_Ticket g) \<and>
                 bt_SessionID b = tgt_SessionID g \<and> bt_RosterVersion b = tgt_RosterVersion g)) \<and>
           (\<forall>i. i \<notin> ref_ID ` set (prop_Tickets p) \<longrightarrow>
              map_of (co_ticketReservations c') i = map_of (co_ticketReservations (expireLocked now c)) i) \<and>
           (\<forall>i. i \<notin> (\<lambda>g. ref_ID (tgt_Ticket g)) ` set_option (prop_Backfill p) \<longrightarrow>
              map_of (co_backfillReservations c') i = map_of (co_backfillReservations (expireLocked now c)) i))"
proof (cases reply)
  case (Inl e)
  with assms(2) show ?thesis by (auto dest: Reserve_error)
next
  case (Inr res)
  note e = expireLocked_sel [OF reachable_parts(2) [OF assms(1)], of now]
  show ?thesis
  proof (cases "map_of (co_reservations (expireLocked now c)) r")
    case None
    note new = Reserve_new [OF assms(2) [unfolded Inr] None]
    have free: "(\<forall>ref\<in>set (prop_Tickets p). map_of (co_ticketReservations (expireLocked now c)) (ref_ID ref) = None) \<and>
        (\<forall>g\<in>set_option (prop_Backfill p). map_of (co_backfillReservations (expireLocked now c)) (ref_ID (tgt_Ticket g)) = None)"
      using new(5) by (simp only: validateAvailabilityLocked_index)
    from new(4) [unfolded validateFreshnessLocked_None] free
    show ?thesis unfolding Inr new(7) by (simp add: new(6) e new_reservation_def time_Add_def)
  next
    case (Some q)
    note known = Reserve_known [OF assms(2) [unfolded Inr] Some]
    from Some have "map_of (co_reservations c) r \<noteq> None"
      by (auto simp: expireLocked_reservations [OF reachable_parts(2) [OF assms(1)]])
    then show ?thesis unfolding Inr known(1) by (auto simp: e)
  qed
qed

theorem Reserve_all_or_nothing_witness:
  "(\<exists>res. fst (Reserve (ex_proposal 1) ''r'' 100 ex_submitted) = Inr res \<and> res_ExpiresAt res = 150) \<and>
   snd (Reserve (ex_proposal 2) ''r'' 100 ex_submitted) \<in> {ex_submitted, expireLocked 100 ex_submitted}"
proof -
  let ?ok = "Reserve (ex_proposal 1) ''r'' 100 ex_submitted" and ?bad = "Reserve (ex_proposal 2) ''r'' 100 ex_submitted"
  have "fst ?ok = Inr (projr (fst ?ok))" "map_of (co_reservations ex_submitted) ''r'' = None" "co_ttl ex_submitted = 50"
    by code_simp+
  with Reserve_all_or_nothing [OF ex_reachable(1), of "ex_proposal 1" "''r''" 100 "fst ?ok" "snd ?ok"]
  have "\<exists>res. fst ?ok = Inr res \<and> res_ExpiresAt res = 150" by (auto split: sum.splits)
  moreover have "fst ?bad = Inl FailureStaleSnapshot" by code_simp
  with Reserve_all_or_nothing [OF ex_reachable(1), of "ex_proposal 2" "''r''" 100 "fst ?bad" "snd ?bad"]
  have "snd ?bad \<in> {ex_submitted, expireLocked 100 ex_submitted}" by (simp add: prod_eq_iff)
  ultimately show ?thesis by blast
qed

text \<open>
  C15. Confirming consumes exactly what was reserved. When a call creates an assignment, its
  reservation was active and not yet due, every ticket of the proposal was still active at the
  revision the proposal names, and so was the backfill it fills, if any, with its session and roster.
  Afterwards these tickets, their players and the backfill are gone from the input and the holds on
  them are released, the reservation is confirmed and the assignment repeats the proposal and waits
  for its acknowledgment. Every other ticket, backfill, reservation and assignment, and every other
  hold, is what it was, up to reservations that were due and expired.
\<close>
theorem Confirm_consumes:
  assumes "reachable c" "Confirm r a now c = (Inr x, c')" "map_of (co_assignments c) a = None"
  shows "\<exists>q. map_of (co_reservations c) r = Some q \<and> active q \<and> now < res_ExpiresAt (rec_reservation q) \<and>
    (\<forall>ref\<in>set (prop_Tickets (rec_proposal q)). \<exists>t.
       map_of (co_matchTickets c) (ref_ID ref) = Some t \<and> mt_Revision t = ref_Revision ref \<and>
       map_of (co_matchTickets c') (ref_ID ref) = None \<and>
       (\<forall>p\<in>player_ID ` set (mt_Players t). map_of (co_playerTickets c') p = None) \<and>
       map_of (co_ticketReservations c') (ref_ID ref) = None) \<and>
    (\<forall>g\<in>set_option (prop_Backfill (rec_proposal q)). \<exists>b.
       map_of (co_backfillTickets c) (ref_ID (tgt_Ticket g)) = Some b \<and> bt_Revision b = ref_Revision (tgt_Ticket g) \<and>
       bt_SessionID b = tgt_SessionID g \<and> bt_RosterVersion b = tgt_RosterVersion g \<and>
       map_of (co_backfillTickets c') (ref_ID (tgt_Ticket g)) = None \<and>
       map_of (co_backfillReservations c') (ref_ID (tgt_Ticket g)) = None) \<and>
    (\<forall>i. i \<notin> ref_ID ` set (prop_Tickets (rec_proposal q)) \<longrightarrow>
       map_of (co_matchTickets c') i = map_of (co_matchTickets c) i \<and>
       map_of (co_ticketReservations c') i = map_of (co_ticketReservations (expireLocked now c)) i) \<and>
    (\<forall>i. i \<notin> (\<lambda>g. ref_ID (tgt_Ticket g)) ` set_option (prop_Backfill (rec_proposal q)) \<longrightarrow>
       map_of (co_backfillTickets c') i = map_of (co_backfillTickets c) i \<and>
       map_of (co_backfillReservations c') i = map_of (co_backfillReservations (expireLocked now c)) i) \<and>
    map_of (co_reservations c') r = Some (with_status ReservationConfirmed q\<lparr>rec_assignment := a\<rparr>) \<and>
    (\<forall>i. i \<noteq> r \<longrightarrow> map_of (co_reservations c') i = map_of (co_reservations (expireLocked now c)) i) \<and>
    map_of (co_assignments c') a = Some x \<and> assignment_of (rec_proposal q) x \<and> asg_Status x = AssignmentPending \<and>
    (\<forall>i. i \<noteq> a \<longrightarrow> map_of (co_assignments c') i = map_of (co_assignments c) i)"
proof -
  from assms obtain q where q: "map_of (co_reservations c) r = Some q" "active q"
    "now < res_ExpiresAt (rec_reservation q)" "validateFreshnessLocked (rec_proposal q) c = None"
    and tickets: "\<And>i. map_of (co_matchTickets c') i =
       (if i \<in> proposal_tickets (rec_proposal q) then None else map_of (co_matchTickets c) i)"
    and stored: "map_of (co_reservations c') r = Some (with_status ReservationConfirmed q\<lparr>rec_assignment := a\<rparr>)"
    "map_of (co_assignments c') a = Some x" "assignment_of (rec_proposal q) x" "asg_Status x = AssignmentPending"
    and held: "\<And>i. map_of (co_ticketReservations c') i =
       (if i \<in> proposal_tickets (rec_proposal q) then None else map_of (co_ticketReservations (expireLocked now c)) i)"
    and backfills: "\<And>i. map_of (co_backfillTickets c') i =
       (if i \<in> proposal_backfills (rec_proposal q) then None else map_of (co_backfillTickets c) i)"
    "\<And>i. map_of (co_backfillReservations c') i =
       (if i \<in> proposal_backfills (rec_proposal q) then None else map_of (co_backfillReservations (expireLocked now c)) i)"
    and others: "\<And>i. i \<noteq> r \<Longrightarrow> map_of (co_reservations c') i = map_of (co_reservations (expireLocked now c)) i"
    "\<And>i. i \<noteq> a \<Longrightarrow> map_of (co_assignments c') i = map_of (co_assignments c) i"
    by (rule Confirm_effect) blast
  note fresh = q(4) [unfolded validateFreshnessLocked_None]
  have inv': "players_ok c'" using Confirm_inv [OF reachable_inv [OF assms(1)], of r a now] assms(2)
    by (simp add: coordinator_inv_def)
  have gone: "map_of (co_matchTickets c') j = Some u \<Longrightarrow> map_of (co_matchTickets c) j = Some u" for j u
    unfolding tickets by (simp split: if_splits)
  have "\<forall>ref\<in>set (prop_Tickets (rec_proposal q)). \<exists>t. map_of (co_matchTickets c) (ref_ID ref) = Some t \<and>
      mt_Revision t = ref_Revision ref \<and> map_of (co_matchTickets c') (ref_ID ref) = None \<and>
      (\<forall>p\<in>player_ID ` set (mt_Players t). map_of (co_playerTickets c') p = None) \<and>
      map_of (co_ticketReservations c') (ref_ID ref) = None"
  proof
    fix ref assume ref: "ref \<in> set (prop_Tickets (rec_proposal q))"
    with fresh obtain t where t: "map_of (co_matchTickets c) (ref_ID ref) = Some t" "mt_Revision t = ref_Revision ref" by blast
    have none: "map_of (co_matchTickets c') (ref_ID ref) = None" "map_of (co_ticketReservations c') (ref_ID ref) = None"
      using ref unfolding tickets held by simp_all
    have "map_of (co_playerTickets c') p = None" if "p \<in> ticket_players t" for p
      by (rule removed_players [OF reachable_parts(5) [OF assms(1)] inv' t(1) none(1) gone that])
    with t none show "\<exists>t. map_of (co_matchTickets c) (ref_ID ref) = Some t \<and>
      mt_Revision t = ref_Revision ref \<and> map_of (co_matchTickets c') (ref_ID ref) = None \<and>
      (\<forall>p\<in>player_ID ` set (mt_Players t). map_of (co_playerTickets c') p = None) \<and>
      map_of (co_ticketReservations c') (ref_ID ref) = None"
      by (intro exI [of _ t]) (simp add: ticket_players_def)
  qed
  moreover have "\<forall>g\<in>set_option (prop_Backfill (rec_proposal q)). \<exists>b.
       map_of (co_backfillTickets c) (ref_ID (tgt_Ticket g)) = Some b \<and> bt_Revision b = ref_Revision (tgt_Ticket g) \<and>
       bt_SessionID b = tgt_SessionID g \<and> bt_RosterVersion b = tgt_RosterVersion g \<and>
       map_of (co_backfillTickets c') (ref_ID (tgt_Ticket g)) = None \<and>
       map_of (co_backfillReservations c') (ref_ID (tgt_Ticket g)) = None"
    using fresh unfolding backfills by (metis imageI)
  moreover have "\<forall>i. i \<notin> proposal_tickets (rec_proposal q) \<longrightarrow> map_of (co_matchTickets c') i = map_of (co_matchTickets c) i \<and>
       map_of (co_ticketReservations c') i = map_of (co_ticketReservations (expireLocked now c)) i"
    unfolding tickets held by simp
  moreover have "\<forall>i. i \<notin> proposal_backfills (rec_proposal q) \<longrightarrow>
       map_of (co_backfillTickets c') i = map_of (co_backfillTickets c) i \<and>
       map_of (co_backfillReservations c') i = map_of (co_backfillReservations (expireLocked now c)) i"
    unfolding backfills by simp
  moreover have "\<forall>i. i \<noteq> r \<longrightarrow> map_of (co_reservations c') i = map_of (co_reservations (expireLocked now c)) i"
    "\<forall>i. i \<noteq> a \<longrightarrow> map_of (co_assignments c') i = map_of (co_assignments c) i" using others by blast+
  ultimately show ?thesis using q(1-3) stored by (intro exI [of _ q] conjI)
qed

theorem Confirm_consumes_witness:
  "\<exists>x c'. Confirm ''r'' ''m'' 110 ex_reserved = (Inr x, c') \<and> map_of (co_assignments c') ''m'' = Some x \<and>
     asg_Status x = AssignmentPending"
proof -
  let ?o = "Confirm ''r'' ''m'' 110 ex_reserved"
  have "fst ?o = Inr (projr (fst ?o))" by code_simp
  then have o: "?o = (Inr (projr (fst ?o)), snd ?o)" by (metis prod.collapse)
  have "map_of (co_assignments ex_reserved) ''m'' = None" by code_simp
  from Confirm_consumes [OF ex_reachable(2) o this]
  have "map_of (co_assignments (snd ?o)) ''m'' = Some (projr (fst ?o)) \<and> asg_Status (projr (fst ?o)) = AssignmentPending"
    by (elim exE conjE) (intro conjI)
  with o show ?thesis by blast
qed

text \<open>
  A stale confirmation has no partial effect. When a ticket of an active reservation has changed
  its revision or is gone, the call fails with \<open>StaleSnapshot\<close>, cancels the reservation and releases
  its tickets, and leaves the input and the assignments as they are.
\<close>
theorem Confirm_stale:
  assumes "reachable c" "map_of (co_reservations c) r = Some q" "active q" "now < res_ExpiresAt (rec_reservation q)"
    "a \<noteq> ''''" "now \<noteq> 0" "validateFreshnessLocked (rec_proposal q) c \<noteq> None"
  shows "\<exists>c'. Confirm r a now c = (Inl FailureStaleSnapshot, c') \<and>
    co_matchTickets c' = co_matchTickets c \<and> co_backfillTickets c' = co_backfillTickets c \<and>
    co_playerTickets c' = co_playerTickets c \<and> co_assignments c' = co_assignments c \<and>
    map_of (co_reservations c') r = Some (with_status ReservationCancelled q) \<and>
    (\<forall>ref\<in>set (prop_Tickets (rec_proposal q)). map_of (co_ticketReservations c') (ref_ID ref) = None)"
proof -
  note parts = reachable_parts [OF assms(1)]
  let ?e = "expireLocked now c"
  note e = expireLocked_sel [OF parts(2), of now]
  have r: "r \<noteq> ''''" "res_Tickets (rec_reservation q) = prop_Tickets (rec_proposal q)"
    using parts(7) assms(2) by (auto simp: records_ok_def record_ok_def)
  have q: "map_of (co_reservations ?e) r = Some q" using assms by (intro expireLocked_live [OF parts(2)]) (simp_all add: due_def)
  have "validateFreshnessLocked (rec_proposal q) ?e \<noteq> None"
    using assms(7) by (simp add: validateFreshnessLocked_None e)
  then have stale: "validateFreshnessLocked (rec_proposal q) ?e = Some FailureStaleSnapshot"
    using validateFreshnessLocked_Some by fastforce
  let ?c = "close_record r q (with_status ReservationCancelled q) ?e"
  have "Confirm r a now c = (Inl FailureStaleSnapshot, ?c)"
    using Confirm_active_conv [OF parts(2) assms(2-4) r(1) assms(5,6)] stale releaseLocked_put_record [of q]
    by (simp add: confirm_active_def Let_def)
  moreover have "\<forall>ref\<in>set (prop_Tickets (rec_proposal q)). map_of (co_ticketReservations ?c) (ref_ID ref) = None"
    using close_record_free [OF expireLocked_inv [OF parts(1)] q assms(3), of "with_status ReservationCancelled q"] r(2)
    by (simp add: record_tickets_def)
  ultimately show ?thesis by (simp add: e)
qed

definition ex_stale :: Coordinator where
  "ex_stale = run_calls [CallUpsertMatchTicket ((ex_solo ''a'' 10 5 '''')\<lparr>mt_Revision := 2\<rparr>)] ex_reserved"

theorem Confirm_stale_witness:
  "\<exists>c'. Confirm ''r'' ''m'' 110 ex_stale = (Inl FailureStaleSnapshot, c') \<and> co_assignments c' = co_assignments ex_stale \<and>
     map_of (co_matchTickets c') ''a'' \<noteq> None"
proof -
  let ?q = "the (map_of (co_reservations ex_stale) ''r'')"
  have r: "reachable ex_stale" unfolding ex_stale_def using ex_reachable(2) by (rule reachable_run)
  have "map_of (co_reservations ex_stale) ''r'' = Some ?q" "active ?q" "110 < res_ExpiresAt (rec_reservation ?q)"
    "validateFreshnessLocked (rec_proposal ?q) ex_stale \<noteq> None" "map_of (co_matchTickets ex_stale) ''a'' \<noteq> None" by code_simp+
  then show ?thesis using Confirm_stale [OF r, of "''r''" ?q 110 "''m''"] by fastforce
qed

text \<open>
  C16. Reservations and assignments only move forward. Whatever calls are made, a reservation keeps its
  proposal, its tickets and its deadline and leaves its status only while it is active; an assignment
  keeps its content and leaves its status only while it is pending; none disappears.
\<close>
theorem lifecycle_forward:
  assumes "reachable c" "coordinator_run c calls c'"
  shows "(\<forall>r q. map_of (co_reservations c) r = Some q \<longrightarrow>
      (\<exists>q'. map_of (co_reservations c') r = Some q' \<and> record_evolves q q')) \<and>
    (\<forall>i a. map_of (co_assignments c) i = Some a \<longrightarrow>
      (\<exists>a'. map_of (co_assignments c') i = Some a' \<and> assignment_evolves a a'))"
  using run_evolves [OF reachable_inv [OF assms(1)] assms(2)] by (simp add: coordinator_evolves_def)

theorem lifecycle_forward_witness:
  "\<exists>q q'. map_of (co_reservations ex_reserved) ''r'' = Some q \<and> active q \<and>
     map_of (co_reservations ex_confirmed) ''r'' = Some q' \<and> record_evolves q q'"
proof -
  let ?q = "the (map_of (co_reservations ex_reserved) ''r'')"
  have "map_of (co_reservations ex_reserved) ''r'' = Some ?q" "active ?q" by code_simp+
  moreover have "coordinator_run ex_reserved [CallConfirm ''r'' ''m'' 110] ex_confirmed"
    by (simp add: coordinator_run_iff ex_confirmed_def)
  ultimately show ?thesis using lifecycle_forward [OF ex_reachable(2)] by blast
qed

text \<open>
  C17. A repeated reservation request is safe. After a successful \<open>Reserve\<close> and any further calls, the
  same request answers with the same reservation while it is active or confirmed and with a failure
  afterwards; it never takes the tickets a second time. The identity cannot be used for another proposal.
\<close>
theorem Reserve_repeated:
  assumes "reachable c" "Reserve p r now c = (Inr res, c1)" "coordinator_run c1 calls c2" "now' \<noteq> 0"
  shows "\<exists>status. Reserve p r now' c2 =
      (case status of
         ReservationActive \<Rightarrow> Inr (res\<lparr>res_Status := ReservationActive\<rparr>)
       | ReservationConfirmed \<Rightarrow> Inr (res\<lparr>res_Status := ReservationConfirmed\<rparr>)
       | ReservationExpired \<Rightarrow> Inl FailureReservationExpired
       | ReservationCancelled \<Rightarrow> Inl FailureInvalidTransition, expireLocked now' c2) \<and>
    (p' \<noteq> p \<longrightarrow> ValidateProposal p' = None \<longrightarrow>
       Reserve p' r now' c2 = (Inl FailureIdempotencyConflict, expireLocked now' c2))"
proof -
  have inv1: "coordinator_inv c1" using Reserve_inv [OF reachable_inv [OF assms(1)], of p r now] assms(2) by simp
  from Reserve_recorded [OF assms(2)] obtain q where q: "map_of (co_reservations c1) r = Some q" "rec_proposal q = p"
    "rec_reservation q = res" by blast
  from run_evolves [OF inv1 assms(3)] have inv2: "coordinator_inv c2" by blast
  from run_record [OF inv1 assms(3) q(1)] obtain q' where q': "map_of (co_reservations c2) r = Some q'" "record_evolves q q'" .
  let ?q = "expire_due now' q'"
  have now: "map_of (co_reservations (expireLocked now' c2)) r = Some ?q"
    using inv2 q'(1) by (simp add: expireLocked_reservations coordinator_inv_def)
  have "record_evolves q' ?q" by (simp add: expire_due_def due_def record_evolves_status)
  with q'(2) have "record_evolves q ?q" by (rule record_evolves_trans)
  then have same: "rec_proposal ?q = p" "rec_reservation ?q = res\<lparr>res_Status := res_Status (rec_reservation ?q)\<rparr>"
    using q(2,3) by (auto simp: record_evolves_def)
  have "r \<noteq> ''''" "ValidateProposal p = None"
    using inv1 q(1,2) by (auto simp: coordinator_inv_def records_ok_def record_ok_def)
  with now same assms(4) have
    "Reserve p r now' c2 = (replay_reserve p ?q, expireLocked now' c2)"
    "p' \<noteq> p \<Longrightarrow> ValidateProposal p' = None \<Longrightarrow>
       Reserve p' r now' c2 = (Inl FailureIdempotencyConflict, expireLocked now' c2)"
    by (auto simp: Reserve_def time_IsZero_def Let_def replay_reserve_def)
  moreover have "replay_reserve p ?q = (case res_Status (rec_reservation ?q) of
      ReservationActive \<Rightarrow> Inr (res\<lparr>res_Status := ReservationActive\<rparr>)
    | ReservationConfirmed \<Rightarrow> Inr (res\<lparr>res_Status := ReservationConfirmed\<rparr>)
    | ReservationExpired \<Rightarrow> Inl FailureReservationExpired | ReservationCancelled \<Rightarrow> Inl FailureInvalidTransition)"
    unfolding replay_reserve_def same(1) using same(2) by (auto split: ReservationStatus.splits)
  ultimately show ?thesis by (intro exI [of _ "res_Status (rec_reservation ?q)"]) simp
qed

theorem Reserve_repeated_witness:
  "\<exists>status. fst (Reserve (ex_proposal 1) ''r'' 120 ex_confirmed) =
     (case status of
        ReservationActive \<Rightarrow> Inr (new_reservation (ex_proposal 1) ''r'' 100 50)
      | ReservationConfirmed \<Rightarrow> Inr ((new_reservation (ex_proposal 1) ''r'' 100 50)\<lparr>res_Status := ReservationConfirmed\<rparr>)
      | ReservationExpired \<Rightarrow> Inl FailureReservationExpired
      | ReservationCancelled \<Rightarrow> Inl FailureInvalidTransition)"
proof -
  let ?res = "new_reservation (ex_proposal 1) ''r'' 100 50"
  have "fst (Reserve (ex_proposal 1) ''r'' 100 ex_submitted) = Inr ?res" by code_simp
  moreover have "snd (Reserve (ex_proposal 1) ''r'' 100 ex_submitted) = ex_reserved"
    by (simp add: ex_reserved_def run_calls_def)
  ultimately have "Reserve (ex_proposal 1) ''r'' 100 ex_submitted = (Inr ?res, ex_reserved)" by (metis prod.collapse)
  moreover have "coordinator_run ex_reserved [CallConfirm ''r'' ''m'' 110] ex_confirmed"
    by (simp add: coordinator_run_iff ex_confirmed_def)
  ultimately obtain status where "Reserve (ex_proposal 1) ''r'' 120 ex_confirmed = (case status of
         ReservationActive \<Rightarrow> Inr (?res\<lparr>res_Status := ReservationActive\<rparr>)
       | ReservationConfirmed \<Rightarrow> Inr (?res\<lparr>res_Status := ReservationConfirmed\<rparr>)
       | ReservationExpired \<Rightarrow> Inl FailureReservationExpired
       | ReservationCancelled \<Rightarrow> Inl FailureInvalidTransition, expireLocked 120 ex_confirmed)"
    using Reserve_repeated [OF ex_reachable(1), of "ex_proposal 1" "''r''" 100 ?res ex_reserved _ ex_confirmed 120] by auto
  then show ?thesis by (intro exI [of _ status]) (simp add: new_reservation_def split: ReservationStatus.splits)
qed

text \<open>
  A reservation is confirmed at most once. After a successful \<open>Confirm\<close> and any further calls, the
  same request answers with the same assignment, as far as it has been acknowledged by then, and
  creates nothing; a request for another assignment identity is a conflict.
\<close>
theorem Confirm_repeated:
  assumes "reachable c" "Confirm r a now c = (Inr x, c1)" "coordinator_run c1 calls c2" "now' \<noteq> 0"
  shows "\<exists>x'. Confirm r a now' c2 = (Inr x', expireLocked now' c2) \<and> assignment_evolves x x' \<and>
    (b \<noteq> a \<longrightarrow> b \<noteq> '''' \<longrightarrow> Confirm r b now' c2 = (Inl FailureIdempotencyConflict, expireLocked now' c2))"
proof -
  have inv1: "coordinator_inv c1" using Confirm_inv [OF reachable_inv [OF assms(1)], of r a now] assms(2) by simp
  from Confirm_recorded [OF assms(1,2)] obtain q where q: "map_of (co_reservations c1) r = Some q" "confirmed q"
    "rec_assignment q = a" "map_of (co_assignments c1) a = Some x" by blast
  from run_evolves [OF inv1 assms(3)] have inv2: "coordinator_inv c2" by blast
  then have keys2: "keys_ok c2" by (simp add: coordinator_inv_def)
  from run_record [OF inv1 assms(3) q(1)] obtain q' where "map_of (co_reservations c2) r = Some q'" "record_evolves q q'" .
  with q(2) have "map_of (co_reservations c2) r = Some q" by (simp add: record_evolves_def)
  then have now: "map_of (co_reservations (expireLocked now' c2)) r = Some q"
    using q(2) by (intro expireLocked_live [OF keys2]) (simp_all add: due_def)
  from run_assignment [OF inv1 assms(3) q(4)] obtain x' where x': "map_of (co_assignments c2) a = Some x'"
    "assignment_evolves x x'" .
  have "a \<noteq> ''''" "r \<noteq> ''''" using assms(2) by (auto simp: Confirm_def split: if_splits)
  with now q(2,3) x' assms(4) show ?thesis
    by (auto simp: Confirm_def Let_def time_IsZero_def map_get_def expireLocked_sel [OF keys2])
qed

lemma ex_confirm:
  "Confirm ''r'' ''m'' 110 ex_reserved = (Inr (new_assignment ''m'' ''r'' (ex_proposal 1) 110), ex_confirmed)"
proof -
  have "fst (Confirm ''r'' ''m'' 110 ex_reserved) = Inr (new_assignment ''m'' ''r'' (ex_proposal 1) 110)" by code_simp
  moreover have "snd (Confirm ''r'' ''m'' 110 ex_reserved) = ex_confirmed" by (simp add: ex_confirmed_def run_calls_def)
  ultimately show ?thesis by (metis prod.collapse)
qed

theorem Confirm_repeated_witness:
  "\<exists>x'. Confirm ''r'' ''m'' 500 ex_confirmed = (Inr x', expireLocked 500 ex_confirmed) \<and>
     assignment_evolves (new_assignment ''m'' ''r'' (ex_proposal 1) 110) x'"
  using Confirm_repeated [OF ex_reachable(2) ex_confirm, of "[]" ex_confirmed 500] by (auto intro: stop)

text \<open>
  An outcome is recorded exactly once. After a successful acknowledgment and any further calls, the
  same request answers the same assignment, with the time of the first acknowledgment, and changes
  nothing; the same operation with another payload is a conflict and another operation is refused.
\<close>
theorem AcknowledgeAssignment_repeated:
  assumes "reachable c" "AcknowledgeAssignment i req now c = (Inr x, c1)" "coordinator_run c1 calls c2" "now' \<noteq> 0"
  shows "AcknowledgeAssignment i req now' c2 = (Inr x, c2) \<and>
    (req' \<noteq> req \<longrightarrow> req_OperationID req' \<noteq> '''' \<longrightarrow> AcknowledgeAssignment i req' now' c2 =
       (Inl (if req_OperationID req' = req_OperationID req then FailureIdempotencyConflict else FailureInvalidTransition), c2))"
proof -
  have inv1: "coordinator_inv c1"
    using AcknowledgeAssignment_inv [OF reachable_inv [OF assms(1)], of i req now] assms(2) by simp
  note x = AcknowledgeAssignment_recorded [OF assms(1,2)]
  then obtain x' where "map_of (co_assignments c2) i = Some x'" "assignment_evolves x x'"
    using run_assignment [OF inv1 assms(3)] by blast
  with x have c2: "map_of (co_assignments c2) i = Some x" by (simp add: assignment_evolves_def)
  from x obtain ack where "asg_Acknowledgment x = Some ack" "ack_Request ack = req" by auto
  with x c2 assms(4) show ?thesis
    by (auto simp: AcknowledgeAssignment_def replay_acknowledgment_def time_IsZero_def)
qed

definition ex_ack :: AssignmentAcknowledgmentRequest where
  "ex_ack = \<lparr>req_OperationID = ''op'', req_Outcome = AssignmentCompleted, req_SessionID = '''', req_ExpectedRosterVersion = 0,
     req_ResultingRosterVersion = 0, req_FailureCode = no_failure_code, req_Reason = ''''\<rparr>"

theorem AcknowledgeAssignment_repeated_witness:
  "\<exists>x c1. AcknowledgeAssignment ''m'' ex_ack 120 ex_confirmed = (Inr x, c1) \<and>
     AcknowledgeAssignment ''m'' ex_ack 130 c1 = (Inr x, c1)"
proof -
  have "\<not> isl (fst (AcknowledgeAssignment ''m'' ex_ack 120 ex_confirmed))" by code_simp
  then obtain x c1 where o: "AcknowledgeAssignment ''m'' ex_ack 120 ex_confirmed = (Inr x, c1)"
    by (metis isl_def prod.collapse sum.exhaust)
  from AcknowledgeAssignment_repeated [OF ex_reachable(3) o stop, of 130] o show ?thesis by simp
qed

section \<open>Snapshots\<close>

definition held_ticket :: "Coordinator \<Rightarrow> TicketID \<Rightarrow> bool" where
  "held_ticket c i \<longleftrightarrow> (\<exists>r q. map_of (co_reservations c) r = Some q \<and> active q \<and> i \<in> record_tickets q)"

definition held_backfill :: "Coordinator \<Rightarrow> TicketID \<Rightarrow> bool" where
  "held_backfill c i \<longleftrightarrow> (\<exists>r q. map_of (co_reservations c) r = Some q \<and> active q \<and> i \<in> record_backfills q)"

lemma held_index:
  assumes "holds_ok c"
  shows "map_of (co_ticketReservations c) i = None \<longleftrightarrow> \<not> held_ticket c i"
    "map_of (co_backfillReservations c) i = None \<longleftrightarrow> \<not> held_backfill c i"
proof -
  have "(\<exists>r. map_of (co_ticketReservations c) i = Some r) \<longleftrightarrow> held_ticket c i"
    "(\<exists>r. map_of (co_backfillReservations c) i = Some r) \<longleftrightarrow> held_backfill c i"
    using assms unfolding holds_ok_def held_ticket_def held_backfill_def by simp_all
  then show "map_of (co_ticketReservations c) i = None \<longleftrightarrow> \<not> held_ticket c i"
    "map_of (co_backfillReservations c) i = None \<longleftrightarrow> \<not> held_backfill c i" by auto
qed

lemma set_range: "keys_distinct m \<Longrightarrow> v \<in> set (map snd m) \<longleftrightarrow> (\<exists>k. map_of m k = Some v)"
  by force

lemma unreserved_tickets_set:
  assumes "coordinator_inv c"
  shows "set (unreserved_tickets c) = {t. map_of (co_matchTickets c) (mt_ID t) = Some t \<and> \<not> held_ticket c (mt_ID t)}"
    "distinct (map mt_ID (unreserved_tickets c))"
proof -
  have parts: "keys_distinct (co_matchTickets c)" "tickets_ok c" "holds_ok c"
    using assms by (simp_all add: coordinator_inv_def keys_okD)
  have "t \<in> set (map snd (co_matchTickets c)) \<longleftrightarrow> map_of (co_matchTickets c) (mt_ID t) = Some t" for t
    unfolding set_range [OF parts(1)] using parts(2) by (auto simp: tickets_ok_def)
  then show "set (unreserved_tickets c) = {t. map_of (co_matchTickets c) (mt_ID t) = Some t \<and> \<not> held_ticket c (mt_ID t)}"
    using held_index(1) [OF parts(3)] by (auto simp: unreserved_tickets_def)
  have "distinct (map mt_ID (map snd (co_matchTickets c)))"
    using parts(1,2) by (intro distinct_range_key) (auto simp: tickets_ok_def)
  then show "distinct (map mt_ID (unreserved_tickets c))"
    by (simp add: unreserved_tickets_def map_idI distinct_map_filter)
qed

lemma unreserved_backfills_set:
  assumes "coordinator_inv c"
  shows "set (unreserved_backfills c) = {b. map_of (co_backfillTickets c) (bt_ID b) = Some b \<and> \<not> held_backfill c (bt_ID b)}"
    "distinct (map bt_ID (unreserved_backfills c))"
proof -
  have parts: "keys_distinct (co_backfillTickets c)" "backfills_ok c" "holds_ok c"
    using assms by (simp_all add: coordinator_inv_def keys_okD)
  have "b \<in> set (map snd (co_backfillTickets c)) \<longleftrightarrow> map_of (co_backfillTickets c) (bt_ID b) = Some b" for b
    unfolding set_range [OF parts(1)] using parts(2) by (auto simp: backfills_ok_def)
  then show "set (unreserved_backfills c) = {b. map_of (co_backfillTickets c) (bt_ID b) = Some b \<and> \<not> held_backfill c (bt_ID b)}"
    using held_index(2) [OF parts(3)] by (auto simp: unreserved_backfills_def)
  have "distinct (map bt_ID (map snd (co_backfillTickets c)))"
    using parts(1,2) by (intro distinct_range_key) (auto simp: backfills_ok_def)
  then show "distinct (map bt_ID (unreserved_backfills c))"
    by (simp add: unreserved_backfills_def map_idI distinct_map_filter)
qed

text \<open>What the snapshot shows: the active input that no active reservation holds.\<close>

lemma Snapshot_conv:
  assumes "Snapshot i now p c = (Inr s, c')"
  shows "c' = expireLocked now c" "ValidateSnapshot s = None"
    "s = \<lparr>snap_ID = i, snap_Now = now, snap_MatchTickets = sort_cmp compare_tickets (unreserved_tickets c'),
       snap_BackfillTickets = sort_cmp compare_backfills (unreserved_backfills c'), snap_Policy = p\<rparr>"
  using assms by (auto simp: Snapshot_def Let_def split: if_splits option.splits)

text \<open>The players of distinct active tickets are distinct, as the validation of a snapshot asks.\<close>

lemma distinct_players:
  assumes "distinct (map mt_ID ts)" "\<forall>t\<in>set ts. ValidateMatchTicket t = None"
    "\<And>t u. t \<in> set ts \<Longrightarrow> u \<in> set ts \<Longrightarrow> mt_ID t \<noteq> mt_ID u \<Longrightarrow> ticket_players t \<inter> ticket_players u = {}"
  shows "distinct (concat (map ticket_player_IDs ts))"
  using assms
proof (induction ts)
  case (Cons t ts)
  have "ticket_players t \<inter> ticket_players u = {}" if "u \<in> set ts" for u
    using Cons.prems(1) that by (intro Cons.prems(3)) auto
  moreover have "distinct (ticket_player_IDs t)" using Cons.prems(2) by (simp add: ValidateMatchTicket_None)
  ultimately show ?case using Cons by (auto simp: ticket_players_def)
qed simp

lemma Snapshot_valid_iff:
  assumes "coordinator_inv c" "i \<noteq> ''''" "now \<noteq> 0" "ValidatePolicy p = None"
  defines "d \<equiv> expireLocked now c"
  shows "(\<exists>s. fst (Snapshot i now p c) = Inr s) \<longleftrightarrow>
    (\<forall>t\<in>set (unreserved_tickets d). mt_EnqueuedAt t \<le> now) \<and>
    (\<forall>b\<in>set (unreserved_backfills d). bt_EnqueuedAt b \<le> now \<and> backfill_fits p b)"
proof -
  have inv: "coordinator_inv d" unfolding d_def using assms(1) by (rule expireLocked_inv)
  then have parts: "tickets_ok d" "backfills_ok d" "players_ok d" by (simp_all add: coordinator_inv_def)
  note ts = unreserved_tickets_set [OF inv] and bs = unreserved_backfills_set [OF inv]
  let ?ts = "sort_cmp compare_tickets (unreserved_tickets d)"
  have valid: "\<forall>t\<in>set ?ts. ValidateMatchTicket t = None" "\<forall>b\<in>set (unreserved_backfills d). ValidateBackfillTicket b = None"
    using parts(1,2) by (auto simp: ts(1) bs(1) tickets_ok_def backfills_ok_def)
  have "distinct (concat (map ticket_player_IDs ?ts))"
  proof (intro distinct_players valid(1))
    show "ticket_players t \<inter> ticket_players u = {}" if "t \<in> set ?ts" "u \<in> set ?ts" "mt_ID t \<noteq> mt_ID u" for t u
      using that by (intro exclusive_players [OF parts(3)]) (auto simp: ts(1))
  qed (simp add: ts(2))
  moreover have "mt_ID ` set (unreserved_tickets d) \<inter> bt_ID ` set (unreserved_backfills d) = {}"
  proof (rule ccontr)
    assume "\<not> ?thesis"
    then obtain t b where "t \<in> set (unreserved_tickets d)" "b \<in> set (unreserved_backfills d)" "mt_ID t = bt_ID b" by blast
    with parts(1) show False by (simp add: ts(1) bs(1) tickets_ok_def)
  qed
  ultimately have "ValidateSnapshot \<lparr>snap_ID = i, snap_Now = now, snap_MatchTickets = ?ts,
        snap_BackfillTickets = sort_cmp compare_backfills (unreserved_backfills d), snap_Policy = p\<rparr> = None \<longleftrightarrow>
      (\<forall>t\<in>set (unreserved_tickets d). mt_EnqueuedAt t \<le> now) \<and>
      (\<forall>b\<in>set (unreserved_backfills d). bt_EnqueuedAt b \<le> now \<and> backfill_fits p b)"
    using assms(2-4) valid ts(2) bs(2) by (simp add: ValidateSnapshot_None ball_conj_distrib)
  then show ?thesis using assms(2-4)
    by (auto simp: Snapshot_def Let_def time_IsZero_def d_def split: option.splits)
qed

text \<open>
  A snapshot shows exactly the free input. A successful \<open>Snapshot\<close> lists, in canonical order, the
  active match tickets and backfill tickets that no reservation still active at that time holds; the
  order in which the maps are visited does not show.
\<close>
theorem Snapshot_shows_free_input:
  assumes "reachable c" "Snapshot i now p c = (Inr s, c')"
  shows "canonical_queue (snap_MatchTickets s) \<and>
    set (snap_MatchTickets s) = {t. map_of (co_matchTickets c) (mt_ID t) = Some t \<and> \<not> held_ticket c' (mt_ID t)} \<and>
    sorted_cmp compare_backfills (snap_BackfillTickets s) \<and> distinct (map bt_ID (snap_BackfillTickets s)) \<and>
    set (snap_BackfillTickets s) = {b. map_of (co_backfillTickets c) (bt_ID b) = Some b \<and> \<not> held_backfill c' (bt_ID b)}"
proof -
  note c = Snapshot_conv [OF assms(2)]
  note e = expireLocked_sel [OF reachable_parts(2) [OF assms(1)], of now]
  have inv: "coordinator_inv c'" unfolding c(1) using reachable_inv [OF assms(1)] by (rule expireLocked_inv)
  note ts = unreserved_tickets_set [OF inv] and bs = unreserved_backfills_set [OF inv]
  show ?thesis
    unfolding c(3) using ts bs canonical_sortTickets [OF ts(2)] backfill_order.sorted_sort [of "unreserved_backfills c'"]
    by (simp add: sortTickets_def) (simp add: c(1) e)
qed

theorem Snapshot_shows_free_input_witness:
  "\<exists>s c'. Snapshot ''s'' 120 ex_duel_policy ex_reserved = (Inr s, c') \<and> canonical_queue (snap_MatchTickets s) \<and>
     map mt_ID (snap_MatchTickets s) = [''c'']"
proof -
  let ?o = "Snapshot ''s'' 120 ex_duel_policy ex_reserved"
  have o: "\<not> isl (fst ?o)" "map mt_ID (snap_MatchTickets (projr (fst ?o))) = [''c'']" by code_simp+
  then obtain s c' where s: "?o = (Inr s, c')" by (metis isl_def prod.collapse sum.exhaust)
  with o(2) have "map mt_ID (snap_MatchTickets s) = [''c'']" by simp
  with s Snapshot_shows_free_input [OF ex_reachable(2) s] show ?thesis by (intro exI [of _ s] exI [of _ c']) simp
qed

text \<open>
  When a snapshot can fail. In a reachable state, with an identity, a time and a valid policy, the
  only obstacles are free tickets from the future and free backfills whose teams do not fit the
  policy: the coordinator itself guarantees that identities and players are unique. One such ticket
  is enough to refuse the snapshot of everything else.
\<close>
theorem Snapshot_fails_only:
  assumes "reachable c" "i \<noteq> ''''" "now \<noteq> 0" "ValidatePolicy p = None"
  shows "(\<exists>s. fst (Snapshot i now p c) = Inr s) \<longleftrightarrow>
    (\<forall>t. map_of (co_matchTickets c) (mt_ID t) = Some t \<longrightarrow> \<not> held_ticket (expireLocked now c) (mt_ID t) \<longrightarrow>
       mt_EnqueuedAt t \<le> now) \<and>
    (\<forall>b. map_of (co_backfillTickets c) (bt_ID b) = Some b \<longrightarrow> \<not> held_backfill (expireLocked now c) (bt_ID b) \<longrightarrow>
       bt_EnqueuedAt b \<le> now \<and> backfill_fits p b)"
proof -
  note inv = reachable_inv [OF assms(1)]
  note e = expireLocked_sel [OF reachable_parts(2) [OF assms(1)], of now]
  show ?thesis
    unfolding Snapshot_valid_iff [OF inv assms(2-4)] unreserved_tickets_set(1) [OF expireLocked_inv [OF inv]]
      unreserved_backfills_set(1) [OF expireLocked_inv [OF inv]] e by blast
qed

theorem Snapshot_fails_only_witness:
  "\<not> (\<exists>s. fst (Snapshot ''s'' 25 ex_duel_policy ex_submitted) = Inr s) \<and>
   (\<exists>t. map_of (co_matchTickets ex_submitted) (mt_ID t) = Some t \<and> 25 < mt_EnqueuedAt t)"
proof -
  let ?t = "ex_solo ''c'' 30 5 ''''"
  have t: "map_of (co_matchTickets ex_submitted) (mt_ID ?t) = Some ?t" "25 < mt_EnqueuedAt ?t"
    "co_reservations (expireLocked 25 ex_submitted) = []" "ValidatePolicy ex_duel_policy = None" by code_simp+
  then have "\<not> held_ticket (expireLocked 25 ex_submitted) (mt_ID ?t)" by (simp add: held_ticket_def)
  then show ?thesis using Snapshot_fails_only [OF ex_reachable(1), of "''s''" 25 ex_duel_policy] t
    by (intro conjI exI [of _ ?t]) fastforce+
qed

section \<open>A resubmitted revision\<close>

definition ex_replacement :: MatchTicket where
  "ex_replacement = (ex_solo ''a'' 10 5 '''')\<lparr>mt_Players :=
     [\<lparr>player_ID = ''x'', player_Skill = 900, player_Role = '''', player_LatencyMillis = 60\<rparr>,
      \<lparr>player_ID = ''y'', player_Skill = 900, player_Role = '''', player_LatencyMillis = 60\<rparr>]\<rparr>"

definition ex_replaced :: Coordinator where
  "ex_replaced = run_calls [CallCancelMatchTicket ''a'' 1, CallUpsertMatchTicket ex_replacement] ex_reserved"

text \<open>
  C18. A reservation does not stay stale after its ticket was cancelled. When the ticket is cancelled and
  its identity submitted again with the reserved revision number but other players, the freshness
  check compares the numbers only, and \<open>Confirm\<close> assigns the new party, here two players into a team of
  one. The comment on \<open>CancelMatchTicket\<close> and the lifecycle document say that the reservation is stale.
\<close>
theorem Confirm_accepts_resubmitted_revision:
  "reachable ex_replaced \<and>
   map_option (length \<circ> mt_Players) (map_of (co_matchTickets ex_reserved) ''a'') = Some 1 \<and>
   map_option (length \<circ> mt_Players) (map_of (co_matchTickets ex_replaced) ''a'') = Some 2 \<and>
   (\<exists>x c'. Confirm ''r'' ''m'' 110 ex_replaced = (Inr x, c') \<and> map_of (co_matchTickets c') ''a'' = None)"
proof -
  have "reachable ex_replaced" unfolding ex_replaced_def using ex_reachable(2) by (rule reachable_run)
  moreover have "map_option (length \<circ> mt_Players) (map_of (co_matchTickets ex_reserved) ''a'') = Some 1"
    "map_option (length \<circ> mt_Players) (map_of (co_matchTickets ex_replaced) ''a'') = Some 2" by code_simp+
  moreover have "(case Confirm ''r'' ''m'' 110 ex_replaced of
      (Inr x, c') \<Rightarrow> map_of (co_matchTickets c') ''a'' = None | _ \<Rightarrow> False)" by code_simp
  then have "\<exists>x c'. Confirm ''r'' ''m'' 110 ex_replaced = (Inr x, c') \<and> map_of (co_matchTickets c') ''a'' = None"
    by (auto split: prod.splits sum.splits)
  ultimately show ?thesis by blast
qed

end
