(* ===== verification/Engine.thy ===== *)
theory Engine
  imports Planner Catalog Coordinator_Props
begin

text \<open>
  The single-process engine, \<open>src/internal/engine/engine.go\<close>: a coordinator and a policy catalog, with
  the planner between a snapshot and the reservations. The locale \<open>planning\<close> states what the engine
  needs of a planner; \<open>Plan\<close> provides it. What follows from it: the proposals of a plan can all be
  reserved, in any order of identities, as long as nobody else intervenes.
\<close>

section \<open>Operations\<close>

record Engine =
  eng_coordinator :: Coordinator
  eng_policies :: Catalog

definition Engine_New :: "Duration \<Rightarrow> Engine result" where
  "Engine_New reservationTTL =
     (case Coordinator_New reservationTTL of
        Inl e \<Rightarrow> Inl e
      | Inr owner \<Rightarrow> Inr \<lparr>eng_coordinator = owner, eng_policies = NewCatalog\<rparr>)"

definition RegisterPolicy :: "hash \<Rightarrow> MatchmakingPolicy \<Rightarrow> Engine \<Rightarrow> PolicyFingerprint result \<times> Engine" where
  "RegisterPolicy sha256 policy engine =
     (case Register sha256 policy (eng_policies engine) of
        (Inl e, catalog) \<Rightarrow> (Inl e, engine\<lparr>eng_policies := catalog\<rparr>)
      | (Inr entry, catalog) \<Rightarrow> (Inr (entry_Fingerprint entry), engine\<lparr>eng_policies := catalog\<rparr>))"

definition Engine_Policy :: "string \<Rightarrow> Engine \<Rightarrow> (MatchmakingPolicy \<times> PolicyFingerprint) option" where
  "Engine_Policy version engine =
     map_option (\<lambda>entry. (entry_Policy entry, entry_Fingerprint entry)) (Catalog_Get version (eng_policies engine))"

definition on_coordinator :: "(Coordinator \<Rightarrow> 'a \<times> Coordinator) \<Rightarrow> Engine \<Rightarrow> 'a \<times> Engine" where
  "on_coordinator method engine =
     (case method (eng_coordinator engine) of (answer, owner) \<Rightarrow> (answer, engine\<lparr>eng_coordinator := owner\<rparr>))"

definition SubmitMatchTicket :: "MatchTicket \<Rightarrow> Engine \<Rightarrow> go_error \<times> Engine" where
  "SubmitMatchTicket ticket = on_coordinator (UpsertMatchTicket ticket)"

definition SubmitBackfillTicket :: "BackfillTicket \<Rightarrow> Engine \<Rightarrow> go_error \<times> Engine" where
  "SubmitBackfillTicket ticket = on_coordinator (UpsertBackfillTicket ticket)"

definition Engine_CancelMatchTicket :: "TicketID \<Rightarrow> Revision \<Rightarrow> Engine \<Rightarrow> go_error \<times> Engine" where
  "Engine_CancelMatchTicket ticketID revision = on_coordinator (CancelMatchTicket ticketID revision)"

definition Engine_CancelBackfillTicket :: "TicketID \<Rightarrow> Revision \<Rightarrow> Revision \<Rightarrow> Engine \<Rightarrow> go_error \<times> Engine" where
  "Engine_CancelBackfillTicket ticketID revision rosterVersion =
     on_coordinator (CancelBackfillTicket ticketID revision rosterVersion)"

definition Engine_Snapshot :: "SnapshotID \<Rightarrow> Time \<Rightarrow> string \<Rightarrow> Engine \<Rightarrow> MatchmakingSnapshot result \<times> Engine" where
  "Engine_Snapshot snapshotID now policyVersion engine =
     (case Catalog_Get policyVersion (eng_policies engine) of
        None \<Rightarrow> (Inl FailureInvalidInput, engine)
      | Some entry \<Rightarrow> on_coordinator (Snapshot snapshotID now (entry_Policy entry)) engine)"

definition Engine_Plan ::
  "hash \<Rightarrow> SnapshotID \<Rightarrow> Time \<Rightarrow> string \<Rightarrow> Engine \<Rightarrow> ProposalBatch result \<times> Engine" where
  "Engine_Plan sha256 snapshotID now policyVersion engine =
     (case Engine_Snapshot snapshotID now policyVersion engine of
        (Inl e, engine) \<Rightarrow> (Inl e, engine)
      | (Inr snapshot, engine) \<Rightarrow> (Plan sha256 snapshot, engine))"

definition Engine_Reserve :: "MatchProposal \<Rightarrow> ReservationID \<Rightarrow> Time \<Rightarrow> Engine \<Rightarrow> Reservation result \<times> Engine" where
  "Engine_Reserve proposal reservationID now = on_coordinator (Reserve proposal reservationID now)"

definition Engine_Confirm :: "ReservationID \<Rightarrow> AssignmentID \<Rightarrow> Time \<Rightarrow> Engine \<Rightarrow> Assignment result \<times> Engine" where
  "Engine_Confirm reservationID assignmentID now = on_coordinator (Confirm reservationID assignmentID now)"

definition CancelReservation :: "ReservationID \<Rightarrow> Time \<Rightarrow> Engine \<Rightarrow> Reservation result \<times> Engine" where
  "CancelReservation reservationID now = on_coordinator (Cancel reservationID now)"

definition Engine_AcknowledgeAssignment ::
  "AssignmentID \<Rightarrow> AssignmentAcknowledgmentRequest \<Rightarrow> Time \<Rightarrow> Engine \<Rightarrow> Assignment result \<times> Engine" where
  "Engine_AcknowledgeAssignment assignmentID request now = on_coordinator (AcknowledgeAssignment assignmentID request now)"

definition Engine_Assignment :: "AssignmentID \<Rightarrow> Engine \<Rightarrow> Assignment option" where
  "Engine_Assignment assignmentID engine = Coordinator_Assignment assignmentID (eng_coordinator engine)"

section \<open>What the engine needs of a planner\<close>

definition proposals_apart :: "MatchProposal \<Rightarrow> MatchProposal \<Rightarrow> bool" where
  "proposals_apart p q \<longleftrightarrow> ref_ID ` set (prop_Tickets p) \<inter> ref_ID ` set (prop_Tickets q) = {} \<and>
     (\<lambda>g. ref_ID (tgt_Ticket g)) ` set_option (prop_Backfill p) \<inter> (\<lambda>g. ref_ID (tgt_Ticket g)) ` set_option (prop_Backfill q) = {}"

text \<open>Reserve the proposals one after the other at one time.\<close>

fun reserve_all :: "Time \<Rightarrow> (MatchProposal \<times> ReservationID) list \<Rightarrow> Engine \<Rightarrow> Reservation result list \<times> Engine" where
  "reserve_all now [] engine = ([], engine)"
| "reserve_all now ((proposal, reservationID) # rest) engine =
     (case Engine_Reserve proposal reservationID now engine of
        (answer, engine') \<Rightarrow> (case reserve_all now rest engine' of (answers, engine'') \<Rightarrow> (answer # answers, engine'')))"

lemma expireLocked_none_due:
  "\<forall>(r, q)\<in>set (co_reservations c). \<not> due now q \<Longrightarrow> expireLocked now c = c"
proof -
  have "foldl (expire_record now) c entries = c" if "\<forall>(r, q)\<in>set entries. \<not> due now q" for entries
    using that by (induction entries) (auto simp: expire_record_conv)
  then show "\<forall>(r, q)\<in>set (co_reservations c). \<not> due now q \<Longrightarrow> ?thesis" by (simp add: expireLocked_def)
qed

text \<open>Nothing is due, and a proposal is fresh and free.\<close>

definition no_due :: "Time \<Rightarrow> Coordinator \<Rightarrow> bool" where
  "no_due now c \<longleftrightarrow> (\<forall>r q. map_of (co_reservations c) r = Some q \<longrightarrow> \<not> due now q)"

definition reservable :: "Coordinator \<Rightarrow> MatchProposal \<Rightarrow> bool" where
  "reservable c p \<longleftrightarrow> ValidateProposal p = None \<and> validateFreshnessLocked p c = None \<and> validateAvailabilityLocked p c = None"

lemma no_due_expire: "keys_ok c \<Longrightarrow> no_due now c \<Longrightarrow> expireLocked now c = c"
  by (rule expireLocked_none_due) (auto simp: no_due_def dest: keys_okD(3))

lemma no_due_expireLocked: "keys_ok c \<Longrightarrow> no_due now (expireLocked now c)"
  by (auto simp: no_due_def due_def dest!: expireLocked_active(2))

lemma Reserve_reservable:
  assumes "keys_ok c" "no_due now c" "reservable c p" "r \<noteq> ''''" "now \<noteq> 0" "map_of (co_reservations c) r = None"
  shows "Reserve p r now c = (Inr (new_reservation p r now (co_ttl c)),
    hold_resources p r (put_record r
      \<lparr>rec_reservation = new_reservation p r now (co_ttl c), rec_proposal = p, rec_assignment = ''''\<rparr> c))"
  using assms by (simp add: Reserve_def no_due_expire reservable_def time_IsZero_def Let_def)

lemma reservable_after:
  assumes "reservable c p" "proposals_apart q p"
  shows "reservable (hold_resources q r (put_record r record c)) p"
  using assms unfolding reservable_def proposals_apart_def validateAvailabilityLocked_index validateFreshnessLocked_None
  by auto

lemma reserve_all_succeeds:
  assumes "coordinator_inv (eng_coordinator e)" "no_due now (eng_coordinator e)" "0 < co_ttl (eng_coordinator e)" "now \<noteq> 0"
    "\<forall>(p, r)\<in>set prs. reservable (eng_coordinator e) p \<and> r \<noteq> '''' \<and> map_of (co_reservations (eng_coordinator e)) r = None"
    "sorted_wrt proposals_apart (map fst prs)" "distinct (map snd prs)"
  shows "fst (reserve_all now prs e) = map (\<lambda>(p, r). Inr (new_reservation p r now (co_ttl (eng_coordinator e)))) prs"
  using assms
proof (induction prs arbitrary: e)
  case (Cons pr prs)
  obtain p r where pr: "pr = (p, r)" by (cases pr)
  let ?c = "eng_coordinator e"
  let ?q = "\<lparr>rec_reservation = new_reservation p r now (co_ttl ?c), rec_proposal = p, rec_assignment = ''''\<rparr>"
  let ?d = "hold_resources p r (put_record r ?q ?c)"
  have head: "reservable ?c p" "r \<noteq> ''''" "map_of (co_reservations ?c) r = None" using Cons.prems(5) by (simp_all add: pr)
  have keys: "keys_ok ?c" using Cons.prems(1) by (simp add: coordinator_inv_def)
  have step: "Engine_Reserve p r now e = (Inr (new_reservation p r now (co_ttl ?c)), e\<lparr>eng_coordinator := ?d\<rparr>)"
    using Reserve_reservable [OF keys Cons.prems(2) head(1,2) Cons.prems(4) head(3)]
    by (simp add: Engine_Reserve_def on_coordinator_def)
  have inv: "coordinator_inv ?d"
    using head by (intro hold_resources_inv [OF Cons.prems(1)]) (simp_all add: reservable_def)
  have "no_due now ?d"
    using Cons.prems(2,3) by (auto simp: no_due_def due_def new_reservation_def time_Add_def)
  moreover have "\<forall>(q, s)\<in>set prs. reservable ?d q \<and> s \<noteq> '''' \<and> map_of (co_reservations ?d) s = None"
  proof -
    have "reservable ?d q \<and> s \<noteq> '''' \<and> map_of (co_reservations ?d) s = None" if qs: "(q, s) \<in> set prs" for q s
    proof -
      have "proposals_apart p q" "r \<noteq> s" using Cons.prems(6,7) qs by (force simp: pr)+
      moreover have "reservable ?c q \<and> s \<noteq> '''' \<and> map_of (co_reservations ?c) s = None" using Cons.prems(5) qs by auto
      ultimately show ?thesis by (simp add: reservable_after)
    qed
    then show ?thesis by blast
  qed
  ultimately show ?case
    using Cons.IH [of "e\<lparr>eng_coordinator := ?d\<rparr>"] inv Cons.prems(3,4,6,7) by (simp add: pr step split_beta)
qed simp


locale planning =
  fixes plan :: "MatchmakingSnapshot \<Rightarrow> ProposalBatch result"
    and plannable :: "MatchmakingSnapshot \<Rightarrow> bool"
  assumes plan_valid: "plannable s \<Longrightarrow> plan s = Inr batch \<Longrightarrow> p \<in> set (batch_Proposals batch) \<Longrightarrow> ValidateProposal p = None"
    and plan_refs: "plannable s \<Longrightarrow> plan s = Inr batch \<Longrightarrow> p \<in> set (batch_Proposals batch) \<Longrightarrow>
      set (prop_Tickets p) \<subseteq> TicketReference ` set (snap_MatchTickets s)"
    and plan_targets: "plannable s \<Longrightarrow> plan s = Inr batch \<Longrightarrow> p \<in> set (batch_Proposals batch) \<Longrightarrow>
      set_option (prop_Backfill p) \<subseteq> BackfillReference ` set (snap_BackfillTickets s)"
    and plan_apart: "plannable s \<Longrightarrow> plan s = Inr batch \<Longrightarrow> sorted_wrt proposals_apart (batch_Proposals batch)"
begin

text \<open>What was planned from a snapshot is fresh and free in the state the snapshot was taken from.\<close>

lemma planned_reservable:
  assumes "coordinator_inv c" "Snapshot i now p c = (Inr s, d)" "plannable s" "plan s = Inr batch"
    "q \<in> set (batch_Proposals batch)"
  shows "reservable d q"
proof -
  note snap = Snapshot_conv [OF assms(2)]
  have inv: "coordinator_inv d" unfolding snap(1) using assms(1) by (rule expireLocked_inv)
  have holds: "holds_ok d" using inv by (simp add: coordinator_inv_def)
  have "set (snap_MatchTickets s) = set (unreserved_tickets d)" "set (snap_BackfillTickets s) = set (unreserved_backfills d)"
    unfolding snap(3) by simp_all
  note sets = this [unfolded unreserved_tickets_set(1) [OF inv] unreserved_backfills_set(1) [OF inv]]
  have "map_of (co_ticketReservations d) (ref_ID ref) = None \<and>
      (\<exists>t. map_of (co_matchTickets d) (ref_ID ref) = Some t \<and> mt_Revision t = ref_Revision ref)"
    if "ref \<in> set (prop_Tickets q)" for ref
    using plan_refs [OF assms(3-5)] that unfolding sets held_index(1) [OF holds] by (auto simp: image_iff)
  moreover have "map_of (co_backfillReservations d) (ref_ID (tgt_Ticket g)) = None \<and>
      (\<exists>b. map_of (co_backfillTickets d) (ref_ID (tgt_Ticket g)) = Some b \<and> bt_Revision b = ref_Revision (tgt_Ticket g) \<and>
         bt_SessionID b = tgt_SessionID g \<and> bt_RosterVersion b = tgt_RosterVersion g)"
    if "g \<in> set_option (prop_Backfill q)" for g
  proof -
    from plan_targets [OF assms(3-5)] that obtain b where "g = BackfillReference b" "b \<in> set (snap_BackfillTickets s)" by blast
    then show ?thesis unfolding sets held_index(2) [OF holds] by simp
  qed
  ultimately show ?thesis
    unfolding reservable_def validateFreshnessLocked_None validateAvailabilityLocked_index
    using plan_valid [OF assms(3-5)] by blast
qed

lemma plan_all_reservable:
  assumes "coordinator_inv (eng_coordinator e)" "0 < co_ttl (eng_coordinator e)"
    "Snapshot i now p (eng_coordinator e) = (Inr s, d)" "e' = e\<lparr>eng_coordinator := d\<rparr>" "plannable s" "plan s = Inr batch"
    "length ids = length (batch_Proposals batch)" "distinct ids" "'''' \<notin> set ids"
    "\<forall>r\<in>set ids. map_of (co_reservations (eng_coordinator e)) r = None"
  shows "fst (reserve_all now (zip (batch_Proposals batch) ids) e') =
    map (\<lambda>(p, r). Inr (new_reservation p r now (co_ttl (eng_coordinator e)))) (zip (batch_Proposals batch) ids)"
proof -
  note snap = Snapshot_conv [OF assms(3)]
  have keys: "keys_ok (eng_coordinator e)" using assms(1) by (simp add: coordinator_inv_def)
  have "now \<noteq> 0" using snap(2,3) by (simp add: ValidateSnapshot_None)
  moreover have "no_due now d" "coordinator_inv d" "co_ttl d = co_ttl (eng_coordinator e)"
    unfolding snap(1) using assms(1) keys by (simp_all add: no_due_expireLocked expireLocked_inv expireLocked_sel)
  moreover have "\<forall>(p, r)\<in>set (zip (batch_Proposals batch) ids). reservable d p \<and> r \<noteq> '''' \<and> map_of (co_reservations d) r = None"
    using planned_reservable [OF assms(1,3,5,6)] assms(9,10)
    by (auto simp: snap(1) expireLocked_reservations [OF keys] dest: set_zip_leftD set_zip_rightD)
  ultimately show ?thesis
    using reserve_all_succeeds [of e' now "zip (batch_Proposals batch) ids"] plan_apart [OF assms(5,6)] assms(2,4,7,8)
    by simp
qed

end

section \<open>The planner provides it\<close>

definition plan_ready :: "hash \<Rightarrow> MatchmakingSnapshot \<Rightarrow> bool" where
  "plan_ready sha256 s \<longleftrightarrow> capacity_in_range (snap_Policy s) \<and> (\<forall>bytes. sha256 bytes \<noteq> [])"

lemma build_proposals_apart:
  assumes "sorted_wrt compatible cs"
  shows "sorted_wrt proposals_apart (build_proposals sha256 s fp cs)"
proof -
  have "sorted_wrt proposals_apart ps"
    if "map prop_Tickets ps = map (\<lambda>c. map TicketReference (concat (pc_placement c))) cs" "map prop_Backfill ps = map pc_backfill cs"
    for ps
    using that assms
  proof (induction cs arbitrary: ps)
    case (Cons c cs)
    then obtain p qs where ps: "ps = p # qs" by (cases ps) auto
    have p: "prop_Tickets p = map TicketReference (concat (pc_placement c))" "prop_Backfill p = pc_backfill c"
      using Cons.prems by (simp_all add: ps)
    have "proposals_apart p q" if "q \<in> set qs" for q
    proof -
      from that obtain j where j: "j < length qs" "q = qs ! j" by (auto simp: in_set_conv_nth)
      have len: "length qs = length cs" using Cons.prems(1) by (auto simp: ps dest: map_eq_imp_length_eq)
      have "map prop_Tickets qs ! j = map (\<lambda>c. map TicketReference (concat (pc_placement c))) cs ! j"
        "map prop_Backfill qs ! j = map pc_backfill cs ! j" using Cons.prems(1,2) by (simp_all add: ps)
      then have "prop_Tickets q = map TicketReference (concat (pc_placement (cs ! j)))" "prop_Backfill q = pc_backfill (cs ! j)"
        using j len by simp_all
      moreover have "compatible c (cs ! j)" using Cons.prems(3) j len by simp
      ultimately show ?thesis
        by (auto simp: proposals_apart_def compatible_def candidate_backfills_def p image_image split: option.splits)
    qed
    with Cons show ?case by (simp add: ps)
  qed simp
  then show ?thesis by (simp add: build_proposals_sel)
qed

interpretation go_planner: planning "Plan sha256" "plan_ready sha256" for sha256
proof unfold_locales
  fix s batch
  assume r: "plan_ready sha256 s" and plan: "Plan sha256 s = Inr batch"
  from plan r obtain fp cs where v: "ValidateSnapshot s = None" "FingerprintPolicy sha256 (snap_Policy s) = Inr fp"
    and ok: "plan_ok s cs" and batch: "batch_Proposals batch = build_proposals sha256 s fp cs"
    unfolding plan_ready_def by (elim conjE) (rule Plan_selection)
  show "sorted_wrt proposals_apart (batch_Proposals batch)"
    unfolding batch using ok by (intro build_proposals_apart) (simp add: plan_ok_def)
  have fp: "fp = hex_EncodeToString (sha256 (policy_encoding (snap_Policy s)))"
    using v(2) by (simp add: FingerprintPolicy_def split: option.splits)
  then have "length fp = 2 * length (sha256 (policy_encoding (snap_Policy s)))" by simp
  then have "fp \<noteq> []" using r by (auto simp: plan_ready_def)
  fix p assume p: "p \<in> set (batch_Proposals batch)"
  with build_proposals_valid [OF v(1) \<open>fp \<noteq> []\<close> ok] show "ValidateProposal p = None" unfolding batch by blast
  from p [unfolded batch] obtain i c where c: "i < length cs" "c = cs ! i" "prop_Backfill p = pc_backfill c"
    "prop_Tickets p = map TicketReference (concat (pc_placement c))" by (rule proposal_in_build)
  then have cok: "candidate_ok s (plan_available s) (snap_BackfillTickets s) c" using ok by (simp add: plan_ok_def)
  then have "mset (concat (pc_placement c)) \<subseteq># mset (plan_available s)" by (auto simp: candidate_ok_def sound_placement_def)
  from set_mset_mono [OF this] show "set (prop_Tickets p) \<subseteq> TicketReference ` set (snap_MatchTickets s)"
    unfolding c(4) by (auto simp: plan_available_def)
  show "set_option (prop_Backfill p) \<subseteq> BackfillReference ` set (snap_BackfillTickets s)"
    using cok unfolding c(3) candidate_ok_def shape_ok_def by fastforce
qed

section \<open>Runs of the engine\<close>

datatype engine_call =
    EngineRegisterPolicy MatchmakingPolicy
  | EngineSubmitMatchTicket MatchTicket
  | EngineSubmitBackfillTicket BackfillTicket
  | EngineCancelMatchTicket TicketID Revision
  | EngineCancelBackfillTicket TicketID Revision Revision
  | EngineSnapshot SnapshotID Time string
  | EnginePlan SnapshotID Time string
  | EngineReserve MatchProposal ReservationID Time
  | EngineConfirm ReservationID AssignmentID Time
  | EngineCancelReservation ReservationID Time
  | EngineAcknowledge AssignmentID AssignmentAcknowledgmentRequest Time

fun run_engine :: "hash \<Rightarrow> engine_call \<Rightarrow> Engine \<Rightarrow> Engine" where
  "run_engine sha256 (EngineRegisterPolicy p) e = snd (RegisterPolicy sha256 p e)"
| "run_engine sha256 (EngineSubmitMatchTicket t) e = snd (SubmitMatchTicket t e)"
| "run_engine sha256 (EngineSubmitBackfillTicket b) e = snd (SubmitBackfillTicket b e)"
| "run_engine sha256 (EngineCancelMatchTicket i v) e = snd (Engine_CancelMatchTicket i v e)"
| "run_engine sha256 (EngineCancelBackfillTicket i v w) e = snd (Engine_CancelBackfillTicket i v w e)"
| "run_engine sha256 (EngineSnapshot i now v) e = snd (Engine_Snapshot i now v e)"
| "run_engine sha256 (EnginePlan i now v) e = snd (Engine_Plan sha256 i now v e)"
| "run_engine sha256 (EngineReserve p r now) e = snd (Engine_Reserve p r now e)"
| "run_engine sha256 (EngineConfirm r a now) e = snd (Engine_Confirm r a now e)"
| "run_engine sha256 (EngineCancelReservation r now) e = snd (CancelReservation r now e)"
| "run_engine sha256 (EngineAcknowledge a req now) e = snd (Engine_AcknowledgeAssignment a req now e)"

definition engine_inv :: "hash \<Rightarrow> Engine \<Rightarrow> bool" where
  "engine_inv sha256 e \<longleftrightarrow> coordinator_inv (eng_coordinator e) \<and> 0 < co_ttl (eng_coordinator e) \<and>
     catalog_inv sha256 (eng_policies e)"

definition engine_evolves :: "Engine \<Rightarrow> Engine \<Rightarrow> bool" where
  "engine_evolves e e' \<longleftrightarrow> coordinator_evolves (eng_coordinator e) (eng_coordinator e') \<and>
     catalog_extends (eng_policies e) (eng_policies e')"

text \<open>Every call is a call of the coordinator, a registration, or nothing.\<close>

lemma on_coordinator_sel [simp]:
  "fst (on_coordinator f e) = fst (f (eng_coordinator e))"
  "snd (on_coordinator f e) = e\<lparr>eng_coordinator := snd (f (eng_coordinator e))\<rparr>"
  by (simp_all add: on_coordinator_def split_beta)

lemma Engine_Plan_state: "snd (Engine_Plan sha256 i now v e) = snd (Engine_Snapshot i now v e)"
  by (simp add: Engine_Plan_def split: prod.splits sum.splits)

lemma Engine_Snapshot_cases:
  "snd (Engine_Snapshot i now v e) = e \<or>
   (\<exists>x. snd (Engine_Snapshot i now v e) = e\<lparr>eng_coordinator := run_call x (eng_coordinator e)\<rparr>)"
proof (cases "Catalog_Get v (eng_policies e)")
  case (Some entry)
  then have "snd (Engine_Snapshot i now v e) =
      e\<lparr>eng_coordinator := run_call (CallSnapshot i now (entry_Policy entry)) (eng_coordinator e)\<rparr>"
    by (simp add: Engine_Snapshot_def)
  then show ?thesis by blast
qed (simp add: Engine_Snapshot_def)

lemmas engine_methods = SubmitMatchTicket_def SubmitBackfillTicket_def Engine_CancelMatchTicket_def
  Engine_CancelBackfillTicket_def Engine_Reserve_def Engine_Confirm_def CancelReservation_def
  Engine_AcknowledgeAssignment_def on_coordinator_sel

lemma run_engine_forms:
  "run_engine sha256 y e = e \<or> (\<exists>x. run_engine sha256 y e = e\<lparr>eng_coordinator := run_call x (eng_coordinator e)\<rparr>) \<or>
   (\<exists>p. run_engine sha256 y e = e\<lparr>eng_policies := snd (Register sha256 p (eng_policies e))\<rparr>)"
proof (cases y)
  case (EngineRegisterPolicy p)
  then have "run_engine sha256 y e = e\<lparr>eng_policies := snd (Register sha256 p (eng_policies e))\<rparr>"
    by (simp add: RegisterPolicy_def split: prod.splits sum.splits)
  then show ?thesis by blast
next
  case (EngineSnapshot i now v)
  then show ?thesis using Engine_Snapshot_cases [of i now v e] by auto
next
  case (EnginePlan i now v)
  then show ?thesis using Engine_Snapshot_cases [of i now v e] by (auto simp: Engine_Plan_state)
qed (simp_all only: run_engine.simps engine_methods, (metis run_call.simps)+)

lemma run_engine_cases:
  obtains x where "run_engine sha256 y e = e\<lparr>eng_coordinator := run_call x (eng_coordinator e)\<rparr>"
  | p where "run_engine sha256 y e = e\<lparr>eng_policies := snd (Register sha256 p (eng_policies e))\<rparr>"
  | "run_engine sha256 y e = e"
  using run_engine_forms [of sha256 y e] by blast

lemma run_engine_evolves: "engine_inv sha256 e \<Longrightarrow> engine_evolves e (run_engine sha256 y e)"
  by (rule run_engine_cases [of sha256 y e])
    (simp_all add: engine_inv_def engine_evolves_def coordinator.act_evolves catalog.act_evolves catalog.evolves_refl)

lemma run_engine_inv: "engine_inv sha256 e \<Longrightarrow> engine_inv sha256 (run_engine sha256 y e)"
proof (rule run_engine_cases [of sha256 y e])
  fix x assume inv: "engine_inv sha256 e" and e': "run_engine sha256 y e = e\<lparr>eng_coordinator := run_call x (eng_coordinator e)\<rparr>"
  have "coordinator_evolves (eng_coordinator e) (run_call x (eng_coordinator e))"
    using inv by (intro coordinator.act_evolves) (simp add: engine_inv_def)
  with inv show ?thesis unfolding e' by (simp add: engine_inv_def coordinator.act_inv coordinator_evolves_def)
qed (simp_all add: engine_inv_def Register_inv)

interpretation engine: machine_evolves "run_engine sha256" "engine_inv sha256" engine_evolves for sha256
proof unfold_locales
  show "engine_evolves e e" for e by (simp add: engine_evolves_def catalog.evolves_refl)
  show "engine_evolves e f \<Longrightarrow> engine_evolves f g \<Longrightarrow> engine_evolves e g" for e f g
    unfolding engine_evolves_def using coordinator_evolves_trans catalog.evolves_trans by blast
qed (simp_all add: run_engine_inv run_engine_evolves)

lemma Engine_New_inv: "Engine_New ttl = Inr e \<Longrightarrow> engine_inv sha256 e"
  using New_inv [of ttl]
  by (auto simp: Engine_New_def engine_inv_def Coordinator_New_def split: sum.splits if_splits)

lemma Engine_Plan_Inr:
  assumes "Engine_Plan sha256 i now v e = (Inr batch, e')"
  obtains entry s d where "Catalog_Get v (eng_policies e) = Some entry"
    "Snapshot i now (entry_Policy entry) (eng_coordinator e) = (Inr s, d)" "e' = e\<lparr>eng_coordinator := d\<rparr>"
    "Plan sha256 s = Inr batch" "snap_Policy s = entry_Policy entry"
proof -
  from assms obtain entry s d where *: "Catalog_Get v (eng_policies e) = Some entry"
    "Snapshot i now (entry_Policy entry) (eng_coordinator e) = (Inr s, d)" "e' = e\<lparr>eng_coordinator := d\<rparr>"
    "Plan sha256 s = Inr batch"
    by (auto simp: Engine_Plan_def Engine_Snapshot_def on_coordinator_def split: prod.splits sum.splits option.splits)
  moreover have "snap_Policy s = entry_Policy entry" using Snapshot_conv(3) [OF *(2)] by simp
  ultimately show ?thesis by (rule that)
qed

section \<open>Properties\<close>

definition ex_engine :: Engine where
  "ex_engine = fold (run_engine ex_hash) [EngineRegisterPolicy ex_duel_policy,
     EngineSubmitMatchTicket (ex_solo ''a'' 10 5 ''''), EngineSubmitMatchTicket (ex_solo ''b'' 20 5 '''')]
     \<lparr>eng_coordinator = ex_start, eng_policies = NewCatalog\<rparr>"

lemma ex_engine_New: "Engine_New 50 = Inr \<lparr>eng_coordinator = ex_start, eng_policies = NewCatalog\<rparr>"
  by (simp add: Engine_New_def ex_New)

text \<open>
  C11. A plan can be carried out. In every state that calls can reach, the proposals of a plan can all
  be reserved, one after the other and under any fresh identities, when no other call comes between:
  they are valid, refer to input that is still current and free, and do not compete with each other.
\<close>
theorem Engine_Plan_all_reservable:
  assumes "Engine_New ttl = Inr e0" "e = fold (run_engine sha256) calls e0"
    "Engine_Plan sha256 i now v e = (Inr batch, e')"
    "\<And>bytes. sha256 bytes \<noteq> []" "\<And>p fp. Engine_Policy v e = Some (p, fp) \<Longrightarrow> capacity_in_range p"
    "length ids = length (batch_Proposals batch)" "distinct ids" "'''' \<notin> set ids"
    "\<forall>r\<in>set ids. map_of (co_reservations (eng_coordinator e)) r = None"
  shows "fst (reserve_all now (zip (batch_Proposals batch) ids) e') =
    map (\<lambda>(p, r). Inr (new_reservation p r now (co_ttl (eng_coordinator e)))) (zip (batch_Proposals batch) ids)"
proof -
  have inv: "engine_inv sha256 e"
    unfolding assms(2) using Engine_New_inv [OF assms(1)] by (rule engine.runs_inv)
  from assms(3) obtain entry s d where plan: "Catalog_Get v (eng_policies e) = Some entry"
    "Snapshot i now (entry_Policy entry) (eng_coordinator e) = (Inr s, d)" "e' = e\<lparr>eng_coordinator := d\<rparr>"
    "Plan sha256 s = Inr batch" "snap_Policy s = entry_Policy entry" by (rule Engine_Plan_Inr)
  have "plan_ready sha256 s" using assms(4,5) plan(1,5) by (simp add: plan_ready_def Engine_Policy_def)
  then show ?thesis using inv plan(2-4) assms(6-9)
    by (intro go_planner.plan_all_reservable) (simp_all add: engine_inv_def)
qed

theorem Engine_Plan_all_reservable_witness:
  "\<exists>batch e'. Engine_Plan ex_hash ''s'' 100 ''v1'' ex_engine = (Inr batch, e') \<and> length (batch_Proposals batch) = 1 \<and>
     fst (reserve_all 100 (zip (batch_Proposals batch) [''r'']) e') =
       [Inr (new_reservation (hd (batch_Proposals batch)) ''r'' 100 50)]"
proof -
  let ?o = "Engine_Plan ex_hash ''s'' 100 ''v1'' ex_engine"
  have o: "\<not> isl (fst ?o)" "length (batch_Proposals (projr (fst ?o))) = 1" by code_simp+
  then obtain batch e' where b: "?o = (Inr batch, e')" by (metis isl_def prod.collapse sum.exhaust)
  with o(2) have len: "length (batch_Proposals batch) = 1" by simp
  have "Engine_Policy ''v1'' ex_engine = Some (ex_duel_policy, ''07'')" "capacity_in_range ex_duel_policy"
    "co_reservations (eng_coordinator ex_engine) = []" "co_ttl (eng_coordinator ex_engine) = 50" by code_simp+
  with Engine_Plan_all_reservable [OF ex_engine_New ex_engine_def b, of "[''r'']"] b len show ?thesis
    by (cases "batch_Proposals batch") (simp_all add: ex_hash_def)
qed

text \<open>
  A plan names the registered content. The engine plans only under a registered version, and every
  proposal carries that version and the fingerprint the catalog stores for it.
\<close>
theorem Engine_Plan_policy:
  assumes "Engine_New ttl = Inr e0" "e = fold (run_engine sha256) calls e0"
    "Engine_Plan sha256 i now v e = (Inr batch, e')" "proposal \<in> set (batch_Proposals batch)"
    "\<And>p fp. Engine_Policy v e = Some (p, fp) \<Longrightarrow> capacity_in_range p"
  shows "\<exists>p fp. Engine_Policy v e = Some (p, fp) \<and> FingerprintPolicy sha256 p = Inr fp \<and>
    prop_PolicyVersion proposal = v \<and> prop_PolicyFingerprint proposal = fp"
proof -
  have inv: "engine_inv sha256 e"
    unfolding assms(2) using Engine_New_inv [OF assms(1)] by (rule engine.runs_inv)
  from assms(3) obtain entry s d where plan: "Catalog_Get v (eng_policies e) = Some entry"
    "Snapshot i now (entry_Policy entry) (eng_coordinator e) = (Inr s, d)" "e' = e\<lparr>eng_coordinator := d\<rparr>"
    "Plan sha256 s = Inr batch" "snap_Policy s = entry_Policy entry" by (rule Engine_Plan_Inr)
  then have entry: "pol_Version (entry_Policy entry) = v"
    "FingerprintPolicy sha256 (entry_Policy entry) = Inr (entry_Fingerprint entry)"
    using inv by (auto simp: engine_inv_def catalog_inv_def Catalog_Get_def)
  have "capacity_in_range (snap_Policy s)" using assms(5) plan(1,5) by (simp add: Engine_Policy_def)
  with plan(4) obtain fp cs where fp: "FingerprintPolicy sha256 (snap_Policy s) = Inr fp"
    "batch_Proposals batch = build_proposals sha256 s fp cs" by (rule Plan_selection)
  from assms(4) [unfolded fp(2)] have "prop_PolicyVersion proposal = pol_Version (snap_Policy s)" "prop_PolicyFingerprint proposal = fp"
    by (rule proposal_in_build, simp)+
  with fp(1) entry plan(1,5) show ?thesis by (simp add: Engine_Policy_def)
qed

theorem Engine_Plan_policy_witness:
  "\<exists>batch e'. Engine_Plan ex_hash ''s'' 100 ''v1'' ex_engine = (Inr batch, e') \<and> batch_Proposals batch \<noteq> [] \<and>
     prop_PolicyVersion (hd (batch_Proposals batch)) = ''v1''"
proof -
  let ?o = "Engine_Plan ex_hash ''s'' 100 ''v1'' ex_engine"
  have o: "\<not> isl (fst ?o)" "batch_Proposals (projr (fst ?o)) \<noteq> []" by code_simp+
  then obtain batch e' where b: "?o = (Inr batch, e')" by (metis isl_def prod.collapse sum.exhaust)
  with o(2) have ne: "batch_Proposals batch \<noteq> []" by simp
  then have mem: "hd (batch_Proposals batch) \<in> set (batch_Proposals batch)" by simp
  have "Engine_Policy ''v1'' ex_engine = Some (ex_duel_policy, ''07'')" "capacity_in_range ex_duel_policy" by code_simp+
  with Engine_Plan_policy [OF ex_engine_New ex_engine_def b mem] b ne show ?thesis by auto
qed

end
