(* ===== verification/Simulation.thy ===== *)
theory Simulation
  imports Planner Catalog
begin

text \<open>
  The policy simulation, \<open>src/internal/simulation/simulation.go\<close>: every registered policy plans every
  scenario of a corpus, and the batches are summarised. The report depends on the sets of policies
  and scenarios only, not on the order in which they are given. The summary of the unmatched reasons
  leaves one reason out: \<open>summarize_reasons\<close>.
\<close>

record Scenario =
  sc_ID :: SnapshotID
  sc_Now :: Time
  sc_MatchTickets :: "MatchTicket list"
  sc_BackfillTickets :: "BackfillTicket list"

record UnmatchedCount =
  uc_Reason :: UnmatchedReason
  uc_Count :: nat

record ScoreSummary =
  ss_CandidateTickets :: nat
  ss_TruncatedCandidateWindows :: nat
  ss_CandidatesEvaluated :: nat
  ss_SearchNodes :: nat
  ss_SearchTruncatedProposals :: nat
  ss_MaxRelaxationLevel :: nat
  ss_WaitPriorityProposals :: nat
  ss_TotalRolePenalty :: int
  ss_MaxTeamSkillGap :: int
  ss_OldestWaitMillis :: int
  ss_TotalWaitMillis :: int
  ss_MaxLatencyMillis :: int

record Summary =
  su_ProposalCount :: nat
  su_MatchedTicketCount :: nat
  su_UnmatchedTicketCount :: nat
  su_Unmatched :: "UnmatchedCount list"
  su_BudgetExhausted :: bool
  su_Scores :: ScoreSummary

record ScenarioResult =
  sr_ScenarioID :: SnapshotID
  sr_Batch :: ProposalBatch
  sr_Summary :: Summary

record PolicyResult =
  pr_Version :: string
  pr_Fingerprint :: PolicyFingerprint
  pr_Scenarios :: "ScenarioResult list"

record Report =
  rep_Policies :: "PolicyResult list"

section \<open>Summaries\<close>

definition reason_counts :: "UnmatchedTicket list \<Rightarrow> (UnmatchedReason, nat) go_map" where
  "reason_counts unmatched =
     foldl (\<lambda>counts u. AList.update (um_Reason u) (map_get 0 counts (um_Reason u) + 1) counts) [] unmatched"

definition add_scores :: "Summary \<Rightarrow> MatchProposal \<Rightarrow> Summary" where
  "add_scores summary proposal =
     (let evidence = prop_Evidence proposal; scores = su_Scores summary
      in summary\<lparr>su_MatchedTicketCount := su_MatchedTicketCount summary + length (prop_Tickets proposal),
           su_Scores := \<lparr>
             ss_CandidateTickets = ss_CandidateTickets scores + ev_CandidateTickets evidence,
             ss_TruncatedCandidateWindows = ss_TruncatedCandidateWindows scores +
               (if ev_CandidateWindowTruncated evidence then 1 else 0),
             ss_CandidatesEvaluated = ss_CandidatesEvaluated scores + ev_CandidatesEvaluated evidence,
             ss_SearchNodes = ss_SearchNodes scores + ev_SearchNodes evidence,
             ss_SearchTruncatedProposals = ss_SearchTruncatedProposals scores +
               (if ev_SearchTruncated evidence then 1 else 0),
             ss_MaxRelaxationLevel = max (ss_MaxRelaxationLevel scores) (ev_RelaxationLevel evidence),
             ss_WaitPriorityProposals = ss_WaitPriorityProposals scores + (if ev_WaitPriority evidence then 1 else 0),
             ss_TotalRolePenalty = i64 (ss_TotalRolePenalty scores + ev_RolePenalty evidence),
             ss_MaxTeamSkillGap = max (ss_MaxTeamSkillGap scores) (ev_TeamSkillGap evidence),
             ss_OldestWaitMillis = max (ss_OldestWaitMillis scores) (ev_OldestWaitMillis evidence),
             ss_TotalWaitMillis = i64 (ss_TotalWaitMillis scores + ev_TotalWaitMillis evidence),
             ss_MaxLatencyMillis = max (ss_MaxLatencyMillis scores) (ev_MaxLatencyMillis evidence)\<rparr>\<rparr>)"

definition listed_reasons :: "UnmatchedReason list" where
  "listed_reasons = [UnmatchedHardConstraint, UnmatchedInsufficientCapacity, UnmatchedQualityThreshold,
     UnmatchedSearchBudget, UnmatchedProposalLimit]"

definition summarize :: "ProposalBatch \<Rightarrow> Summary" where
  "summarize batch =
     (let counts = reason_counts (batch_Unmatched batch);
          unmatched = map (\<lambda>reason. \<lparr>uc_Reason = reason, uc_Count = map_get 0 counts reason\<rparr>)
                        (filter (\<lambda>reason. map_get 0 counts reason > 0) listed_reasons)
      in foldl add_scores
           \<lparr>su_ProposalCount = length (batch_Proposals batch), su_MatchedTicketCount = 0,
            su_UnmatchedTicketCount = length (batch_Unmatched batch), su_Unmatched = unmatched,
            su_BudgetExhausted = batch_BudgetExhausted batch,
            su_Scores = \<lparr>ss_CandidateTickets = 0, ss_TruncatedCandidateWindows = 0, ss_CandidatesEvaluated = 0,
              ss_SearchNodes = 0, ss_SearchTruncatedProposals = 0, ss_MaxRelaxationLevel = 0,
              ss_WaitPriorityProposals = 0, ss_TotalRolePenalty = 0, ss_MaxTeamSkillGap = 0,
              ss_OldestWaitMillis = 0, ss_TotalWaitMillis = 0, ss_MaxLatencyMillis = 0\<rparr>\<rparr>
           (batch_Proposals batch))"

section \<open>Runs\<close>

definition cloneMatchTickets :: "MatchTicket list \<Rightarrow> MatchTicket list" where
  "cloneMatchTickets tickets = map CloneMatchTicket tickets"

definition cloneBackfillTickets :: "BackfillTicket list \<Rightarrow> BackfillTicket list" where
  "cloneBackfillTickets tickets = map CloneBackfillTicket tickets"

definition cloneScenarios :: "Scenario list \<Rightarrow> Scenario list" where
  "cloneScenarios scenarios =
     map (\<lambda>scenario. \<lparr>sc_ID = sc_ID scenario, sc_Now = sc_Now scenario,
       sc_MatchTickets = cloneMatchTickets (sc_MatchTickets scenario),
       sc_BackfillTickets = cloneBackfillTickets (sc_BackfillTickets scenario)\<rparr>) scenarios"

text \<open>The loop over the candidates: the catalog and the map of the registered entries.\<close>

fun register_policies ::
  "hash \<Rightarrow> MatchmakingPolicy list \<Rightarrow> Catalog \<Rightarrow> (string, Entry) go_map \<Rightarrow> (string, Entry) go_map result" where
  "register_policies sha256 [] catalog entriesByVersion = Inr entriesByVersion"
| "register_policies sha256 (candidate # rest) catalog entriesByVersion =
     (case Register sha256 candidate catalog of
        (Inl e, catalog') \<Rightarrow> Inl e
      | (Inr entry, catalog') \<Rightarrow>
          register_policies sha256 rest catalog'
            (AList.update (pol_Version (entry_Policy entry)) entry entriesByVersion))"

definition compare_entries :: "Entry \<Rightarrow> Entry \<Rightarrow> int" where
  "compare_entries left right =
     cmp_then (go_cmp (pol_Version (entry_Policy left)) (pol_Version (entry_Policy right)))
       (go_cmp (entry_Fingerprint left) (entry_Fingerprint right))"

definition compare_scenarios :: "Scenario \<Rightarrow> Scenario \<Rightarrow> int" where
  "compare_scenarios left right = go_cmp (sc_ID left) (sc_ID right)"

fun check_scenarios :: "Scenario option \<Rightarrow> Scenario list \<Rightarrow> go_error" where
  "check_scenarios previous [] = None"
| "check_scenarios previous (scenario # rest) =
     (if sc_ID scenario = '''' \<or> time_IsZero (sc_Now scenario) then Some FailureInvalidInput
      else if map_option sc_ID previous = Some (sc_ID scenario) then Some FailureInvalidInput
      else check_scenarios (Some scenario) rest)"

definition scenario_snapshot :: "Entry \<Rightarrow> Scenario \<Rightarrow> MatchmakingSnapshot" where
  "scenario_snapshot entry scenario =
     \<lparr>snap_ID = sc_ID scenario, snap_Now = sc_Now scenario,
      snap_MatchTickets = cloneMatchTickets (sc_MatchTickets scenario),
      snap_BackfillTickets = cloneBackfillTickets (sc_BackfillTickets scenario),
      snap_Policy = ClonePolicy (entry_Policy entry)\<rparr>"

fun simulate_scenarios :: "hash \<Rightarrow> Entry \<Rightarrow> Scenario list \<Rightarrow> ScenarioResult list result" where
  "simulate_scenarios sha256 entry [] = Inr []"
| "simulate_scenarios sha256 entry (scenario # rest) =
     (case Plan sha256 (scenario_snapshot entry scenario) of
        Inl e \<Rightarrow> Inl e
      | Inr batch \<Rightarrow>
          (case simulate_scenarios sha256 entry rest of
             Inl e \<Rightarrow> Inl e
           | Inr results \<Rightarrow>
               Inr (\<lparr>sr_ScenarioID = sc_ID scenario, sr_Batch = batch, sr_Summary = summarize batch\<rparr> # results)))"

fun simulate_policies :: "hash \<Rightarrow> Entry list \<Rightarrow> Scenario list \<Rightarrow> PolicyResult list result" where
  "simulate_policies sha256 [] scenarios = Inr []"
| "simulate_policies sha256 (entry # rest) scenarios =
     (case simulate_scenarios sha256 entry scenarios of
        Inl e \<Rightarrow> Inl e
      | Inr results \<Rightarrow>
          (case simulate_policies sha256 rest scenarios of
             Inl e \<Rightarrow> Inl e
           | Inr policies \<Rightarrow>
               Inr (\<lparr>pr_Version = pol_Version (entry_Policy entry), pr_Fingerprint = entry_Fingerprint entry,
                     pr_Scenarios = results\<rparr> # policies)))"

definition Simulation_Run :: "hash \<Rightarrow> MatchmakingPolicy list \<Rightarrow> Scenario list \<Rightarrow> Report result" where
  "Simulation_Run sha256 candidates corpus =
     (if candidates = [] \<or> corpus = [] then Inl FailureInvalidInput
      else (case register_policies sha256 candidates NewCatalog [] of
              Inl e \<Rightarrow> Inl e
            | Inr entriesByVersion \<Rightarrow>
                let entries = sort_cmp compare_entries (map snd entriesByVersion);
                    scenarios = sort_cmp compare_scenarios (cloneScenarios corpus)
                in (case check_scenarios None scenarios of
                      Some e \<Rightarrow> Inl e
                    | None \<Rightarrow>
                        (case simulate_policies sha256 entries scenarios of
                           Inl e \<Rightarrow> Inl e
                         | Inr policies \<Rightarrow> Inr \<lparr>rep_Policies = policies\<rparr>))))"

section \<open>What a summary counts\<close>

lemma reason_counts_get:
  "map_get 0 (reason_counts us) r = length (filter (\<lambda>u. um_Reason u = r) us)"
proof -
  have "map_get 0 (foldl (\<lambda>counts u. AList.update (um_Reason u) (map_get 0 counts (um_Reason u) + 1) counts) m us) r =
      map_get 0 m r + length (filter (\<lambda>u. um_Reason u = r) us)" for m
    by (induction us arbitrary: m) (auto simp: map_get_def)
  from this [of "[]"] show ?thesis by (simp add: reason_counts_def map_get_def)
qed

lemma foldl_add_scores:
  "su_MatchedTicketCount (foldl add_scores s ps) = su_MatchedTicketCount s + sum_list (map (length \<circ> prop_Tickets) ps)"
  "su_UnmatchedTicketCount (foldl add_scores s ps) = su_UnmatchedTicketCount s"
  "su_Unmatched (foldl add_scores s ps) = su_Unmatched s" "su_ProposalCount (foldl add_scores s ps) = su_ProposalCount s"
  by (induction ps arbitrary: s) (simp_all add: add_scores_def Let_def)

lemma summarize_sel:
  "su_MatchedTicketCount (summarize batch) = length (concat (map prop_Tickets (batch_Proposals batch)))"
  "su_UnmatchedTicketCount (summarize batch) = length (batch_Unmatched batch)"
  "su_Unmatched (summarize batch) =
     map (\<lambda>r. \<lparr>uc_Reason = r, uc_Count = length (filter (\<lambda>u. um_Reason u = r) (batch_Unmatched batch))\<rparr>)
       (filter (\<lambda>r. \<exists>u\<in>set (batch_Unmatched batch). um_Reason u = r) listed_reasons)"
  by (auto simp: summarize_def Let_def foldl_add_scores reason_counts_get length_concat comp_def filter_empty_conv)

section \<open>The report and the order of its inputs\<close>

lemma clone_lists [simp]: "cloneMatchTickets ts = ts" "cloneBackfillTickets bs = bs" "cloneScenarios ss = ss"
  by (simp_all add: cloneMatchTickets_def cloneBackfillTickets_def cloneScenarios_def map_idI)

interpretation entry_order: keyed_cmp "\<lambda>_. True" compare_entries "\<lambda>entry. pol_Version (entry_Policy entry)"
  by unfold_locales (auto simp: compare_entries_def)

interpretation scenario_order: keyed_cmp "\<lambda>_. True" compare_scenarios sc_ID
  by unfold_locales (auto simp: compare_scenarios_def)

definition entry_of :: "hash \<Rightarrow> MatchmakingPolicy \<Rightarrow> Entry" where
  "entry_of sha256 p = \<lparr>entry_Policy = p, entry_Fingerprint = hex_EncodeToString (sha256 (policy_encoding p))\<rparr>"

lemma update_new: "k \<notin> fst ` set m \<Longrightarrow> AList.update k v m = m @ [(k, v)]"
  by (induction m) auto

lemma Register_new:
  assumes "map_of (cat_entries c) (pol_Version p) = None"
  shows "Register sha256 p c =
    (case ValidatePolicy p of
       Some e \<Rightarrow> (Inl e, c)
     | None \<Rightarrow> (Inr (entry_of sha256 p), c\<lparr>cat_entries := AList.update (pol_Version p) (entry_of sha256 p) (cat_entries c)\<rparr>))"
  using assms by (simp add: Register_def FingerprintPolicy_def entry_of_def Let_def split: option.splits)

lemma register_policies_conv:
  assumes "distinct (map pol_Version ps)" "\<forall>p\<in>set ps. map_of (cat_entries c) (pol_Version p) = None"
    "\<forall>p\<in>set ps. pol_Version p \<notin> fst ` set m"
  shows "register_policies sha256 ps c m =
    (if \<forall>p\<in>set ps. ValidatePolicy p = None then Inr (m @ map (\<lambda>p. (pol_Version p, entry_of sha256 p)) ps)
     else Inl FailureInvalidInput)"
  using assms
proof (induction ps arbitrary: c m)
  case (Cons p ps)
  let ?c = "c\<lparr>cat_entries := AList.update (pol_Version p) (entry_of sha256 p) (cat_entries c)\<rparr>"
  let ?m = "m @ [(pol_Version p, entry_of sha256 p)]"
  have ver: "pol_Version (entry_Policy (entry_of sha256 p)) = pol_Version p" by (simp add: entry_of_def)
  show ?case
  proof (cases "ValidatePolicy p")
    case None
    have "register_policies sha256 ps ?c ?m =
        (if \<forall>p\<in>set ps. ValidatePolicy p = None then Inr (?m @ map (\<lambda>p. (pol_Version p, entry_of sha256 p)) ps)
         else Inl FailureInvalidInput)"
      using Cons.prems by (intro Cons.IH) (auto simp: image_iff)
    with None Cons.prems show ?thesis by (simp add: Register_new ver update_new)
  next
    case (Some e)
    then show ?thesis using Cons.prems ValidatePolicy_Some [OF Some] by (simp add: Register_new)
  qed
qed simp

lemma compare_scenarios_le: "compare_scenarios l r \<le> 0 \<longleftrightarrow> sc_ID l \<le> sc_ID r"
  by (auto simp: compare_scenarios_def go_cmp_def)

lemma check_scenarios_Some:
  "sorted_cmp compare_scenarios (p # ss) \<Longrightarrow> check_scenarios (Some p) ss = None \<longleftrightarrow>
     (\<forall>s\<in>set ss. sc_ID s \<noteq> '''' \<and> sc_Now s \<noteq> 0) \<and> distinct (map sc_ID (p # ss))"
proof (induction ss arbitrary: p)
  case (Cons s ss)
  have le: "sc_ID p \<le> sc_ID s" "\<forall>x\<in>set ss. sc_ID s \<le> sc_ID x" using Cons.prems by (simp_all add: compare_scenarios_le)
  have "sc_ID p \<notin> sc_ID ` set ss" if "sc_ID p \<noteq> sc_ID s"
  proof
    assume "sc_ID p \<in> sc_ID ` set ss"
    with le(2) have "sc_ID s \<le> sc_ID p" by auto
    with le(1) that show False by simp
  qed
  then have "distinct (map sc_ID (p # s # ss)) \<longleftrightarrow> sc_ID p \<noteq> sc_ID s \<and> distinct (map sc_ID (s # ss))" by auto
  moreover have "check_scenarios (Some s) ss = None \<longleftrightarrow>
      (\<forall>s\<in>set ss. sc_ID s \<noteq> [] \<and> sc_Now s \<noteq> 0) \<and> distinct (map sc_ID (s # ss))"
    using Cons.prems by (intro Cons.IH) simp
  ultimately show ?case by (simp add: time_IsZero_def del: distinct.simps list.map)
qed simp

lemma check_scenarios_None:
  "sorted_cmp compare_scenarios ss \<Longrightarrow> check_scenarios None ss = None \<longleftrightarrow>
     (\<forall>s\<in>set ss. sc_ID s \<noteq> '''' \<and> sc_Now s \<noteq> 0) \<and> distinct (map sc_ID ss)"
  using check_scenarios_Some by (cases ss) (auto simp: time_IsZero_def)

lemma check_scenarios_error: "check_scenarios prev ss = Some e \<Longrightarrow> e = FailureInvalidInput"
  by (induction ss arbitrary: prev) (auto split: if_splits)

text \<open>The run without the loops: the entries in version order, the scenarios in identity order.\<close>

lemma Simulation_Run_conv:
  assumes "distinct (map pol_Version ps)" "ps \<noteq> []" "ss \<noteq> []"
  shows "Simulation_Run sha256 ps ss =
    (if (\<forall>p\<in>set ps. ValidatePolicy p = None) \<and> (\<forall>s\<in>set ss. sc_ID s \<noteq> '''' \<and> sc_Now s \<noteq> 0) \<and> distinct (map sc_ID ss)
     then map_sum id (\<lambda>policies. \<lparr>rep_Policies = policies\<rparr>)
       (simulate_policies sha256 (sort_cmp compare_entries (map (entry_of sha256) ps)) (sort_cmp compare_scenarios ss))
     else Inl FailureInvalidInput)"
proof -
  have "check_scenarios None (sort_cmp compare_scenarios ss) =
      (if (\<forall>s\<in>set ss. sc_ID s \<noteq> '''' \<and> sc_Now s \<noteq> 0) \<and> distinct (map sc_ID ss) then None else Some FailureInvalidInput)"
    using check_scenarios_None [of "sort_cmp compare_scenarios ss"] scenario_order.sorted_sort [of ss]
      check_scenarios_error [of None "sort_cmp compare_scenarios ss"]
    by (cases "check_scenarios None (sort_cmp compare_scenarios ss)") auto
  then show ?thesis
    using assms register_policies_conv [OF assms(1), of NewCatalog "[]" sha256]
    by (simp add: Simulation_Run_def NewCatalog_def comp_def split: sum.splits)
qed

lemma sum_list_filter_zero:
  fixes f :: "'a \<Rightarrow> nat"
  shows "(\<And>x. x \<in> set xs \<Longrightarrow> \<not> P x \<Longrightarrow> f x = 0) \<Longrightarrow> sum_list (map f (filter P xs)) = sum_list (map f xs)"
  by (induction xs) simp_all

section \<open>Properties\<close>

text \<open>
  C20. The report does not depend on the order of its inputs: for policies with distinct versions and
  any scenarios, permuting either list gives the same report, or the same failure.
\<close>
theorem Simulation_Run_permutation:
  assumes "distinct (map pol_Version candidates)" "mset candidates' = mset candidates" "mset corpus' = mset corpus"
  shows "Simulation_Run sha256 candidates' corpus' = Simulation_Run sha256 candidates corpus"
proof (cases "candidates = [] \<or> corpus = []")
  case True
  with assms show ?thesis by (auto simp: Simulation_Run_def)
next
  case False
  have sets: "set candidates' = set candidates" "set corpus' = set corpus" using assms(2,3) by (auto dest: mset_eq_setD)
  have ne: "candidates' \<noteq> []" "corpus' \<noteq> []" using False assms(2,3) by auto
  have vers: "distinct (map pol_Version candidates')" using assms(1,2) by (metis mset_map mset_eq_imp_distinct_iff)
  have ids: "distinct (map sc_ID corpus') = distinct (map sc_ID corpus)" using assms(3) by (metis mset_map mset_eq_imp_distinct_iff)
  have "distinct (map (\<lambda>entry. pol_Version (entry_Policy entry)) (map (entry_of sha256) candidates))"
    using assms(1) by (simp add: comp_def entry_of_def)
  then have "sort_cmp compare_entries (map (entry_of sha256) candidates') = sort_cmp compare_entries (map (entry_of sha256) candidates)"
    using assms(2) by (intro entry_order.sort_permutation) simp_all
  moreover have "sort_cmp compare_scenarios corpus' = sort_cmp compare_scenarios corpus" if "distinct (map sc_ID corpus)"
    using assms(3) that by (intro scenario_order.sort_permutation) simp_all
  ultimately show ?thesis
    using False ids by (simp add: Simulation_Run_conv [OF vers ne] Simulation_Run_conv [OF assms(1)] sets)
qed

definition ex_scenario :: Scenario where
  "ex_scenario = \<lparr>sc_ID = ''s'', sc_Now = 3000, sc_MatchTickets = snap_MatchTickets ex_duel_snapshot, sc_BackfillTickets = []\<rparr>"

definition ex_corpus :: "Scenario list" where
  "ex_corpus = [ex_scenario, ex_scenario\<lparr>sc_ID := ''q''\<rparr>]"

theorem Simulation_Run_permutation_witness:
  "Simulation_Run ex_hash [ex_duel_policy] (rev ex_corpus) = Simulation_Run ex_hash [ex_duel_policy] ex_corpus \<and>
   rev ex_corpus \<noteq> ex_corpus"
proof -
  have "rev ex_corpus \<noteq> ex_corpus" by code_simp
  with Simulation_Run_permutation [of "[ex_duel_policy]" "[ex_duel_policy]" "rev ex_corpus" ex_corpus ex_hash]
  show ?thesis by simp
qed

text \<open>
  A summary accounts for every ticket: in the summary of a plan, the matched and the unmatched
  tickets together are as many as the match tickets of the scenario.
\<close>
theorem summarize_accounts:
  assumes "Plan sha256 (scenario_snapshot entry scenario) = Inr batch" "capacity_in_range (entry_Policy entry)"
  shows "su_MatchedTicketCount (summarize batch) + su_UnmatchedTicketCount (summarize batch) =
    length (sc_MatchTickets scenario)"
proof -
  have "mset (concat (map prop_Tickets (batch_Proposals batch))) + mset (map um_Ticket (batch_Unmatched batch)) =
      mset (map TicketReference (snap_MatchTickets (scenario_snapshot entry scenario)))"
    using assms by (intro Plan_accounts) (simp_all add: scenario_snapshot_def)
  then have "size (mset (concat (map prop_Tickets (batch_Proposals batch))) + mset (map um_Ticket (batch_Unmatched batch))) =
      size (mset (map TicketReference (sc_MatchTickets scenario)))" by (simp add: scenario_snapshot_def)
  then show ?thesis by (simp only: size_union size_mset length_map summarize_sel)
qed

theorem summarize_accounts_witness:
  "\<exists>batch. Plan ex_hash (scenario_snapshot (entry_of ex_hash ex_duel_policy) ex_scenario) = Inr batch \<and>
     su_MatchedTicketCount (summarize batch) + su_UnmatchedTicketCount (summarize batch) = 2"
proof -
  let ?s = "scenario_snapshot (entry_of ex_hash ex_duel_policy) ex_scenario"
  have "\<not> isl (Plan ex_hash ?s)" by code_simp
  then obtain batch where b: "Plan ex_hash ?s = Inr batch" by (cases "Plan ex_hash ?s") auto
  have "capacity_in_range (entry_Policy (entry_of ex_hash ex_duel_policy))" "length (sc_MatchTickets ex_scenario) = 2" by code_simp+
  with summarize_accounts [OF b] b show ?thesis by simp
qed

text \<open>
  C21. The list of reasons in a summary does not account for every unmatched ticket: the reason
  \<open>UnmatchedBatchObjective\<close>, which the planner gives, is not among those \<open>summarize\<close> lists, so the
  listed counts add up to the unmatched tickets with any other reason.
\<close>
theorem summarize_reasons:
  "sum_list (map uc_Count (su_Unmatched (summarize batch))) +
     length (filter (\<lambda>u. um_Reason u = UnmatchedBatchObjective) (batch_Unmatched batch)) =
   su_UnmatchedTicketCount (summarize batch)"
proof -
  let ?us = "batch_Unmatched batch" and ?n = "\<lambda>us r. length (filter (\<lambda>u. um_Reason u = r) us)"
  have "sum_list (map uc_Count (su_Unmatched (summarize batch))) =
      sum_list (map (?n ?us) (filter (\<lambda>r. \<exists>u\<in>set ?us. um_Reason u = r) listed_reasons))"
    by (simp add: summarize_sel comp_def)
  also have "\<dots> = sum_list (map (?n ?us) listed_reasons)"
    by (rule sum_list_filter_zero) (auto simp: filter_empty_conv)
  finally have "sum_list (map uc_Count (su_Unmatched (summarize batch))) = sum_list (map (?n ?us) listed_reasons)" .
  moreover have "sum_list (map (?n us) listed_reasons) + ?n us UnmatchedBatchObjective = length us" for us
  proof (induction us)
    case (Cons u us)
    then show ?case by (cases "um_Reason u") (simp_all add: listed_reasons_def)
  qed (simp add: listed_reasons_def)
  ultimately show ?thesis by (simp add: summarize_sel)
qed

end
