(* ===== verification/Ledger.thy ===== *)
theory Ledger
  imports Coordinator_Props
begin

text \<open>
  An abstract specification of the coordinator and the proof that it is implemented. The ledger
  keeps only what the callers can tell apart: the active tickets, the reservations and the
  assignments, as plain maps. It has no index: whether a ticket is held or a player is taken is a
  question about all reservations or all tickets, and all reservations expire at once. The coordinator
  answers every call as the ledger does, and the ledger of its next state is the ledger's next state
  (\<open>coordinator_refines_ledger\<close>). So the three indexes, and the order in which Go visits a map, never
  show.
\<close>

record ledger =
  lg_ttl :: Duration
  lg_tickets :: "TicketID \<rightharpoonup> MatchTicket"
  lg_backfills :: "TicketID \<rightharpoonup> BackfillTicket"
  lg_reservations :: "ReservationID \<rightharpoonup> reservationRecord"
  lg_assignments :: "AssignmentID \<rightharpoonup> Assignment"

datatype ledger_answer =
    Done go_error
  | Viewed "MatchmakingSnapshot result"
  | Reserved "Reservation result"
  | Assigned "Assignment result"

section \<open>The specification\<close>

definition lg_held :: "ledger \<Rightarrow> TicketID \<Rightarrow> bool" where
  "lg_held l i \<longleftrightarrow> (\<exists>r q. lg_reservations l r = Some q \<and> active q \<and> i \<in> record_tickets q)"

definition lg_held_backfill :: "ledger \<Rightarrow> TicketID \<Rightarrow> bool" where
  "lg_held_backfill l i \<longleftrightarrow> (\<exists>r q. lg_reservations l r = Some q \<and> active q \<and> i \<in> record_backfills q)"

definition lg_expire :: "Time \<Rightarrow> ledger \<Rightarrow> ledger" where
  "lg_expire now l = l\<lparr>lg_reservations := (\<lambda>r. map_option (expire_due now) (lg_reservations l r))\<rparr>"

definition lg_fresh :: "ledger \<Rightarrow> MatchProposal \<Rightarrow> bool" where
  "lg_fresh l p \<longleftrightarrow>
     (\<forall>ref\<in>set (prop_Tickets p). \<exists>t. lg_tickets l (ref_ID ref) = Some t \<and> mt_Revision t = ref_Revision ref) \<and>
     (\<forall>g\<in>set_option (prop_Backfill p). \<exists>b. lg_backfills l (ref_ID (tgt_Ticket g)) = Some b \<and>
        bt_Revision b = ref_Revision (tgt_Ticket g) \<and> bt_SessionID b = tgt_SessionID g \<and>
        bt_RosterVersion b = tgt_RosterVersion g)"

definition lg_free :: "ledger \<Rightarrow> MatchProposal \<Rightarrow> bool" where
  "lg_free l p \<longleftrightarrow> (\<forall>ref\<in>set (prop_Tickets p). \<not> lg_held l (ref_ID ref)) \<and>
     (\<forall>g\<in>set_option (prop_Backfill p). \<not> lg_held_backfill l (ref_ID (tgt_Ticket g)))"

definition lg_submit :: "MatchTicket \<Rightarrow> ledger \<Rightarrow> ledger_answer \<times> ledger" where
  "lg_submit t l =
     (if ValidateMatchTicket t \<noteq> None then (Done (ValidateMatchTicket t), l)
      else if lg_backfills l (mt_ID t) \<noteq> None then (Done (Some FailureInvalidInput), l)
      else (case lg_tickets l (mt_ID t) of
              Some current \<Rightarrow>
                if mt_Revision t < mt_Revision current \<or> mt_Revision t = mt_Revision current \<and> t \<noteq> current
                then (Done (Some FailureInvalidRevision), l)
                else if t = current then (Done None, l)
                else if \<exists>i u. lg_tickets l i = Some u \<and> i \<noteq> mt_ID t \<and> ticket_players u \<inter> ticket_players t \<noteq> {}
                then (Done (Some FailureInvalidInput), l)
                else (Done None, l\<lparr>lg_tickets := (lg_tickets l)(mt_ID t \<mapsto> t)\<rparr>)
            | None \<Rightarrow>
                if \<exists>i u. lg_tickets l i = Some u \<and> i \<noteq> mt_ID t \<and> ticket_players u \<inter> ticket_players t \<noteq> {}
                then (Done (Some FailureInvalidInput), l)
                else (Done None, l\<lparr>lg_tickets := (lg_tickets l)(mt_ID t \<mapsto> t)\<rparr>)))"

definition lg_submit_backfill :: "BackfillTicket \<Rightarrow> ledger \<Rightarrow> ledger_answer \<times> ledger" where
  "lg_submit_backfill b l =
     (if ValidateBackfillTicket b \<noteq> None then (Done (ValidateBackfillTicket b), l)
      else if lg_tickets l (bt_ID b) \<noteq> None then (Done (Some FailureInvalidInput), l)
      else if \<exists>i a. lg_backfills l i = Some a \<and> i \<noteq> bt_ID b \<and> bt_SessionID a = bt_SessionID b
      then (Done (Some FailureInvalidInput), l)
      else (case lg_backfills l (bt_ID b) of
              Some current \<Rightarrow>
                if bt_Revision b < bt_Revision current \<or> bt_Revision b = bt_Revision current \<and> b \<noteq> current
                then (Done (Some FailureInvalidRevision), l)
                else (Done None, l\<lparr>lg_backfills := (lg_backfills l)(bt_ID b \<mapsto> b)\<rparr>)
            | None \<Rightarrow> (Done None, l\<lparr>lg_backfills := (lg_backfills l)(bt_ID b \<mapsto> b)\<rparr>)))"

definition lg_withdraw :: "TicketID \<Rightarrow> Revision \<Rightarrow> ledger \<Rightarrow> ledger_answer \<times> ledger" where
  "lg_withdraw i v l =
     (if map_option mt_Revision (lg_tickets l i) = Some v
      then (Done None, l\<lparr>lg_tickets := (lg_tickets l)(i := None)\<rparr>)
      else (Done (Some FailureStaleSnapshot), l))"

definition lg_withdraw_backfill :: "TicketID \<Rightarrow> Revision \<Rightarrow> Revision \<Rightarrow> ledger \<Rightarrow> ledger_answer \<times> ledger" where
  "lg_withdraw_backfill i v w l =
     (if map_option (\<lambda>b. (bt_Revision b, bt_RosterVersion b)) (lg_backfills l i) = Some (v, w)
      then (Done None, l\<lparr>lg_backfills := (lg_backfills l)(i := None)\<rparr>)
      else (Done (Some FailureStaleSnapshot), l))"

text \<open>The one list of a set of tickets in queue order.\<close>

definition queue_of :: "('a \<Rightarrow> 'a \<Rightarrow> int) \<Rightarrow> ('a \<Rightarrow> TicketID) \<Rightarrow> 'a set \<Rightarrow> 'a list" where
  "queue_of cmp key S = (THE xs. sorted_cmp cmp xs \<and> distinct (map key xs) \<and> set xs = S)"

definition lg_view :: "SnapshotID \<Rightarrow> Time \<Rightarrow> MatchmakingPolicy \<Rightarrow> ledger \<Rightarrow> MatchmakingSnapshot" where
  "lg_view i now p l =
     \<lparr>snap_ID = i, snap_Now = now,
      snap_MatchTickets = queue_of compare_tickets mt_ID {t. lg_tickets l (mt_ID t) = Some t \<and> \<not> lg_held l (mt_ID t)},
      snap_BackfillTickets = queue_of compare_backfills bt_ID
        {b. lg_backfills l (bt_ID b) = Some b \<and> \<not> lg_held_backfill l (bt_ID b)},
      snap_Policy = p\<rparr>"

definition lg_snapshot :: "SnapshotID \<Rightarrow> Time \<Rightarrow> MatchmakingPolicy \<Rightarrow> ledger \<Rightarrow> ledger_answer \<times> ledger" where
  "lg_snapshot i now p l =
     (if i = '''' \<or> now = 0 then (Viewed (Inl FailureInvalidInput), l)
      else if ValidatePolicy p \<noteq> None then (Viewed (Inl (the (ValidatePolicy p))), l)
      else let l = lg_expire now l; s = lg_view i now p l
           in (Viewed (case ValidateSnapshot s of None \<Rightarrow> Inr s | Some e \<Rightarrow> Inl e), l))"

definition lg_reserve :: "MatchProposal \<Rightarrow> ReservationID \<Rightarrow> Time \<Rightarrow> ledger \<Rightarrow> ledger_answer \<times> ledger" where
  "lg_reserve p r now l =
     (if r = '''' \<or> now = 0 then (Reserved (Inl FailureInvalidInput), l)
      else if ValidateProposal p \<noteq> None then (Reserved (Inl (the (ValidateProposal p))), l)
      else let l = lg_expire now l
           in (case lg_reservations l r of
                 Some q \<Rightarrow> (Reserved (replay_reserve p q), l)
               | None \<Rightarrow>
                   if \<not> lg_fresh l p then (Reserved (Inl FailureStaleSnapshot), l)
                   else if \<not> lg_free l p then (Reserved (Inl FailureReservationConflict), l)
                   else let reservation = new_reservation p r now (lg_ttl l)
                        in (Reserved (Inr reservation),
                            l\<lparr>lg_reservations := (lg_reservations l)
                               (r \<mapsto> \<lparr>rec_reservation = reservation, rec_proposal = p, rec_assignment = ''''\<rparr>)\<rparr>)))"

definition lg_confirm :: "ReservationID \<Rightarrow> AssignmentID \<Rightarrow> Time \<Rightarrow> ledger \<Rightarrow> ledger_answer \<times> ledger" where
  "lg_confirm r a now l =
     (if r = '''' \<or> a = '''' \<or> now = 0 then (Assigned (Inl FailureInvalidInput), l)
      else let l = lg_expire now l
           in (case lg_reservations l r of
                 None \<Rightarrow> (Assigned (Inl FailureInvalidTransition), l)
               | Some q \<Rightarrow>
                   (case res_Status (rec_reservation q) of
                      ReservationConfirmed \<Rightarrow>
                        (if rec_assignment q = a then (Assigned (Inr (the (lg_assignments l a))), l)
                         else (Assigned (Inl FailureIdempotencyConflict), l))
                    | ReservationExpired \<Rightarrow> (Assigned (Inl FailureReservationExpired), l)
                    | ReservationCancelled \<Rightarrow> (Assigned (Inl FailureInvalidTransition), l)
                    | ReservationActive \<Rightarrow>
                        if \<not> lg_fresh l (rec_proposal q)
                        then (Assigned (Inl FailureStaleSnapshot),
                              l\<lparr>lg_reservations := (lg_reservations l)(r \<mapsto> with_status ReservationCancelled q)\<rparr>)
                        else if lg_assignments l a \<noteq> None then (Assigned (Inl FailureIdempotencyConflict), l)
                        else let assignment = new_assignment a r (rec_proposal q) now
                             in (Assigned (Inr assignment),
                                 l\<lparr>lg_tickets := (\<lambda>i. if i \<in> record_tickets q then None else lg_tickets l i),
                                   lg_backfills := (\<lambda>i. if i \<in> record_backfills q then None else lg_backfills l i),
                                   lg_reservations := (lg_reservations l)
                                     (r \<mapsto> (with_status ReservationConfirmed q)\<lparr>rec_assignment := a\<rparr>),
                                   lg_assignments := (lg_assignments l)(a \<mapsto> assignment)\<rparr>))))"

definition lg_cancel :: "ReservationID \<Rightarrow> Time \<Rightarrow> ledger \<Rightarrow> ledger_answer \<times> ledger" where
  "lg_cancel r now l =
     (if r = '''' \<or> now = 0 then (Reserved (Inl FailureInvalidInput), l)
      else let l = lg_expire now l
           in (case lg_reservations l r of
                 None \<Rightarrow> (Reserved (Inl FailureInvalidTransition), l)
               | Some q \<Rightarrow>
                   (case res_Status (rec_reservation q) of
                      ReservationActive \<Rightarrow>
                        (Reserved (Inr (rec_reservation (with_status ReservationCancelled q))),
                         l\<lparr>lg_reservations := (lg_reservations l)(r \<mapsto> with_status ReservationCancelled q)\<rparr>)
                    | ReservationCancelled \<Rightarrow> (Reserved (Inr (rec_reservation q)), l)
                    | ReservationExpired \<Rightarrow> (Reserved (Inl FailureReservationExpired), l)
                    | ReservationConfirmed \<Rightarrow> (Reserved (Inl FailureInvalidTransition), l))))"

definition lg_acknowledge ::
  "AssignmentID \<Rightarrow> AssignmentAcknowledgmentRequest \<Rightarrow> Time \<Rightarrow> ledger \<Rightarrow> ledger_answer \<times> ledger" where
  "lg_acknowledge i req now l =
     (if i = '''' \<or> req_OperationID req = '''' \<or> now = 0 then (Assigned (Inl FailureInvalidInput), l)
      else (case lg_assignments l i of
              None \<Rightarrow> (Assigned (Inl FailureInvalidTransition), l)
            | Some a \<Rightarrow>
                if asg_Status a \<noteq> AssignmentPending then (Assigned (replay_acknowledgment a req), l)
                else (case ValidateAssignmentAcknowledgment a req of
                        Some e \<Rightarrow> (Assigned (Inl e), l)
                      | None \<Rightarrow>
                          let a' = a\<lparr>asg_Status := req_Outcome req,
                                asg_Acknowledgment := Some \<lparr>ack_Request = req, ack_AcknowledgedAt = now\<rparr>\<rparr>
                          in (Assigned (Inr a'), l\<lparr>lg_assignments := (lg_assignments l)(i \<mapsto> a')\<rparr>))))"

fun ledger_call :: "coordinator_call \<Rightarrow> ledger \<Rightarrow> ledger_answer \<times> ledger" where
  "ledger_call (CallUpsertMatchTicket t) = lg_submit t"
| "ledger_call (CallUpsertBackfillTicket b) = lg_submit_backfill b"
| "ledger_call (CallCancelMatchTicket i v) = lg_withdraw i v"
| "ledger_call (CallCancelBackfillTicket i v w) = lg_withdraw_backfill i v w"
| "ledger_call (CallSnapshot i now p) = lg_snapshot i now p"
| "ledger_call (CallReserve p r now) = lg_reserve p r now"
| "ledger_call (CallConfirm r a now) = lg_confirm r a now"
| "ledger_call (CallAcknowledge a req now) = lg_acknowledge a req now"
| "ledger_call (CallCancel r now) = lg_cancel r now"

section \<open>The abstraction\<close>

definition ledger_of :: "Coordinator \<Rightarrow> ledger" where
  "ledger_of c = \<lparr>lg_ttl = co_ttl c, lg_tickets = map_of (co_matchTickets c), lg_backfills = map_of (co_backfillTickets c),
     lg_reservations = map_of (co_reservations c), lg_assignments = map_of (co_assignments c)\<rparr>"

fun call_answer :: "coordinator_call \<Rightarrow> Coordinator \<Rightarrow> ledger_answer" where
  "call_answer (CallUpsertMatchTicket t) c = Done (fst (UpsertMatchTicket t c))"
| "call_answer (CallUpsertBackfillTicket b) c = Done (fst (UpsertBackfillTicket b c))"
| "call_answer (CallCancelMatchTicket i v) c = Done (fst (CancelMatchTicket i v c))"
| "call_answer (CallCancelBackfillTicket i v w) c = Done (fst (CancelBackfillTicket i v w c))"
| "call_answer (CallSnapshot i now p) c = Viewed (fst (Snapshot i now p c))"
| "call_answer (CallReserve p r now) c = Reserved (fst (Reserve p r now c))"
| "call_answer (CallConfirm r a now) c = Assigned (fst (Confirm r a now c))"
| "call_answer (CallAcknowledge a req now) c = Assigned (fst (AcknowledgeAssignment a req now c))"
| "call_answer (CallCancel r now) c = Reserved (fst (Cancel r now c))"

lemma ledger_of_sel [simp]:
  "lg_ttl (ledger_of c) = co_ttl c" "lg_tickets (ledger_of c) = map_of (co_matchTickets c)"
  "lg_backfills (ledger_of c) = map_of (co_backfillTickets c)" "lg_reservations (ledger_of c) = map_of (co_reservations c)"
  "lg_assignments (ledger_of c) = map_of (co_assignments c)"
  "lg_held (ledger_of c) = held_ticket c" "lg_held_backfill (ledger_of c) = held_backfill c"
  by (simp_all add: ledger_of_def lg_held_def lg_held_backfill_def held_ticket_def held_backfill_def fun_eq_iff)

lemma ledger_of_expire: "keys_ok c \<Longrightarrow> ledger_of (expireLocked now c) = lg_expire now (ledger_of c)"
  by (simp add: ledger_of_def lg_expire_def expireLocked_sel fun_eq_iff expireLocked_reservations)

lemma fresh_ledger: "validateFreshnessLocked p c = None \<longleftrightarrow> lg_fresh (ledger_of c) p"
  by (simp add: validateFreshnessLocked_None lg_fresh_def)

lemma stale_ledger: "validateFreshnessLocked p c = (if lg_fresh (ledger_of c) p then None else Some FailureStaleSnapshot)"
  using fresh_ledger [of p c] validateFreshnessLocked_Some [of p c] by (cases "validateFreshnessLocked p c") auto

lemma free_ledger:
  assumes "holds_ok c"
  shows "validateAvailabilityLocked p c = (if lg_free (ledger_of c) p then None else Some FailureReservationConflict)"
proof -
  have "validateAvailabilityLocked p c = None \<longleftrightarrow> lg_free (ledger_of c) p"
    using held_index [OF assms]
    by (auto simp: validateAvailabilityLocked_def lg_free_def list_ex_iff split: option.splits)
  moreover have "validateAvailabilityLocked p c = Some e \<Longrightarrow> e = FailureReservationConflict" for e
    by (auto simp: validateAvailabilityLocked_def split: if_splits option.splits)
  ultimately show ?thesis by (cases "validateAvailabilityLocked p c") auto
qed

section \<open>Queues\<close>

lemma queue_of_sort:
  assumes "keyed_cmp (\<lambda>_. True) cmp key" "distinct (map key xs)"
  shows "queue_of cmp key (set xs) = sort_cmp cmp xs"
  unfolding queue_of_def
proof (rule the_equality)
  show "sorted_cmp cmp (sort_cmp cmp xs) \<and> distinct (map key (sort_cmp cmp xs)) \<and> set (sort_cmp cmp xs) = set xs"
    using assms(2) preorder_cmp.sorted_sort [of "\<lambda>_. True" cmp xs] assms(1) by (simp add: keyed_cmp_def)
  fix ys assume ys: "sorted_cmp cmp ys \<and> distinct (map key ys) \<and> set ys = set xs"
  then have "mset ys = mset xs" using assms(2) by (metis distinct_map set_eq_iff_mset_eq_distinct)
  with ys assms(2) show "ys = sort_cmp cmp xs" by (intro keyed_cmp.sort_unique [OF assms(1)]) simp_all
qed

lemma view_ledger:
  assumes "coordinator_inv c"
  shows "lg_view i now p (ledger_of c) =
    \<lparr>snap_ID = i, snap_Now = now, snap_MatchTickets = sort_cmp compare_tickets (unreserved_tickets c),
     snap_BackfillTickets = sort_cmp compare_backfills (unreserved_backfills c), snap_Policy = p\<rparr>"
  using queue_of_sort [OF ticket_order.keyed_cmp_axioms unreserved_tickets_set(2) [OF assms]]
    queue_of_sort [OF backfill_order.keyed_cmp_axioms unreserved_backfills_set(2) [OF assms]]
  by (simp add: lg_view_def unreserved_tickets_set(1) [OF assms] unreserved_backfills_set(1) [OF assms])

section \<open>The calls one by one\<close>

lemma ledger_of_store: "ledger_of (store_match_ticket t c) = (ledger_of c)\<lparr>lg_tickets := (map_of (co_matchTickets c))(mt_ID t \<mapsto> t)\<rparr>"
  by (simp add: ledger_of_def)

lemma duplicated_ledger:
  assumes "players_ok c" "ValidateMatchTicket t = None"
  shows "duplicatedPlayerLocked t c \<noteq> '''' \<longleftrightarrow>
    (\<exists>i u. map_of (co_matchTickets c) i = Some u \<and> i \<noteq> mt_ID t \<and> ticket_players u \<inter> ticket_players t \<noteq> {})"
proof -
  have "duplicatedPlayerLocked t c \<noteq> '''' \<longleftrightarrow>
      (\<exists>p\<in>ticket_players t. \<exists>i. map_of (co_playerTickets c) p = Some i \<and> i \<noteq> mt_ID t)"
    using duplicatedPlayerLocked_None [OF assms(2)] by fastforce
  also have "\<dots> \<longleftrightarrow> (\<exists>p\<in>ticket_players t. \<exists>i u. map_of (co_matchTickets c) i = Some u \<and> p \<in> ticket_players u \<and> i \<noteq> mt_ID t)"
    using assms(1) by (auto simp: players_ok_def)
  finally show ?thesis by blast
qed

lemma refine_submit:
  assumes "players_ok c"
  shows "lg_submit t (ledger_of c) = (Done (fst (UpsertMatchTicket t c)), ledger_of (snd (UpsertMatchTicket t c)))"
proof (cases "ValidateMatchTicket t")
  case None
  note dup = duplicated_ledger [OF assms None]
  show ?thesis
    unfolding lg_submit_def UpsertMatchTicket_def revision_check_def ledger_of_sel dup [symmetric]
    using None by (auto simp: ledger_of_store split: option.splits)
qed (simp add: lg_submit_def UpsertMatchTicket_def)

lemma session_ledger:
  assumes "keys_ok c"
  shows "list_ex (\<lambda>(i, a). i \<noteq> bt_ID b \<and> bt_SessionID a = bt_SessionID b) (co_backfillTickets c) \<longleftrightarrow>
    (\<exists>i a. map_of (co_backfillTickets c) i = Some a \<and> i \<noteq> bt_ID b \<and> bt_SessionID a = bt_SessionID b)"
  using keys_okD(2) [OF assms] by (force simp: list_ex_iff)

lemma refine_submit_backfill:
  assumes "keys_ok c"
  shows "lg_submit_backfill b (ledger_of c) =
    (Done (fst (UpsertBackfillTicket b c)), ledger_of (snd (UpsertBackfillTicket b c)))"
proof (cases "ValidateBackfillTicket b")
  case None
  have "ledger_of c = (ledger_of c)\<lparr>lg_backfills := (map_of (co_backfillTickets c))(bt_ID b \<mapsto> b)\<rparr>"
    if "map_of (co_backfillTickets c) (bt_ID b) = Some b"
    using that by (simp add: ledger_of_def map_upd_triv)
  with None show ?thesis
    unfolding lg_submit_backfill_def UpsertBackfillTicket_def revision_check_def ledger_of_sel session_ledger [OF assms, symmetric]
    by (auto simp: ledger_of_def split: option.splits)
qed (simp add: lg_submit_backfill_def UpsertBackfillTicket_def)

lemma refine_withdraw:
  "lg_withdraw i v (ledger_of c) = (Done (fst (CancelMatchTicket i v c)), ledger_of (snd (CancelMatchTicket i v c)))"
  "lg_withdraw_backfill i v w (ledger_of c) =
     (Done (fst (CancelBackfillTicket i v w c)), ledger_of (snd (CancelBackfillTicket i v w c)))"
  by (auto simp: lg_withdraw_def lg_withdraw_backfill_def CancelMatchTicket_def CancelBackfillTicket_def
      remove_match_ticket_def Let_def ledger_of_def split: option.splits)

lemma refine_snapshot:
  assumes "coordinator_inv c"
  shows "lg_snapshot i now p (ledger_of c) = (Viewed (fst (Snapshot i now p c)), ledger_of (snd (Snapshot i now p c)))"
proof -
  have "keys_ok c" using assms by (simp add: coordinator_inv_def)
  then show ?thesis
    using view_ledger [OF expireLocked_inv [OF assms, of now], of i now p]
    by (auto simp: lg_snapshot_def Snapshot_def Let_def time_IsZero_def ledger_of_expire [symmetric] split: option.splits)
qed

lemma refine_reserve:
  assumes "coordinator_inv c"
  shows "lg_reserve p r now (ledger_of c) = (Reserved (fst (Reserve p r now c)), ledger_of (snd (Reserve p r now c)))"
proof -
  have keys: "keys_ok c" using assms by (simp add: coordinator_inv_def)
  have holds: "holds_ok (expireLocked now c)" using expireLocked_inv [OF assms] by (simp add: coordinator_inv_def)
  have "ledger_of (hold_resources p r (put_record r q d)) = (ledger_of d)\<lparr>lg_reservations := (map_of (co_reservations d))(r \<mapsto> q)\<rparr>" for q d
    by (simp add: ledger_of_def)
  then show ?thesis
    by (simp add: lg_reserve_def Reserve_def Let_def time_IsZero_def ledger_of_expire [OF keys, symmetric]
        stale_ledger free_ledger [OF holds] split: option.splits)
qed

lemma ledger_of_close:
  "ledger_of (close_record r q q' c) = (ledger_of c)\<lparr>lg_reservations := (map_of (co_reservations c))(r \<mapsto> q')\<rparr>"
  by (simp add: ledger_of_def)

lemma refine_cancel:
  assumes "coordinator_inv c"
  shows "lg_cancel r now (ledger_of c) = (Reserved (fst (Cancel r now c)), ledger_of (snd (Cancel r now c)))"
proof -
  have keys: "keys_ok c" using assms by (simp add: coordinator_inv_def)
  show ?thesis
    by (simp add: lg_cancel_def Cancel_def Let_def time_IsZero_def ledger_of_expire [OF keys, symmetric]
        close_record_def [symmetric] ledger_of_close split: option.splits ReservationStatus.splits)
qed

lemma refine_acknowledge:
  "lg_acknowledge i req now (ledger_of c) =
     (Assigned (fst (AcknowledgeAssignment i req now c)), ledger_of (snd (AcknowledgeAssignment i req now c)))"
  by (simp add: lg_acknowledge_def AcknowledgeAssignment_def Let_def time_IsZero_def ledger_of_def split: option.splits)

lemma refine_confirm_active:
  assumes "coordinator_inv c" "map_of (co_reservations c) r = Some q" "active q"
  shows "(fst (confirm_active r q a now c), ledger_of (snd (confirm_active r q a now c))) =
    (if \<not> lg_fresh (ledger_of c) (rec_proposal q)
     then (Inl FailureStaleSnapshot, (ledger_of c)\<lparr>lg_reservations := (map_of (co_reservations c))(r \<mapsto> with_status ReservationCancelled q)\<rparr>)
     else if map_of (co_assignments c) a \<noteq> None then (Inl FailureIdempotencyConflict, ledger_of c)
     else (Inr (new_assignment a r (rec_proposal q) now), (ledger_of c)
       \<lparr>lg_tickets := (\<lambda>i. if i \<in> record_tickets q then None else map_of (co_matchTickets c) i),
        lg_backfills := (\<lambda>i. if i \<in> record_backfills q then None else map_of (co_backfillTickets c) i),
        lg_reservations := (map_of (co_reservations c))(r \<mapsto> (with_status ReservationConfirmed q)\<lparr>rec_assignment := a\<rparr>),
        lg_assignments := (map_of (co_assignments c))(a \<mapsto> new_assignment a r (rec_proposal q) now)\<rparr>))"
proof -
  from assms have rec: "record_tickets q = ref_ID ` set (prop_Tickets (rec_proposal q))"
    "record_backfills q = (\<lambda>g. ref_ID (tgt_Ticket g)) ` set_option (prop_Backfill (rec_proposal q))"
    by (auto simp: coordinator_inv_def records_ok_def record_ok_def record_tickets_def record_backfills_def)
  have other: "asg_ReservationID x \<noteq> r" if "map_of (co_assignments c) a = Some x" for x
    using assms that by (force simp: coordinator_inv_def assignments_ok_def)
  consider (stale) "\<not> lg_fresh (ledger_of c) (rec_proposal q)"
    | (used) x where "lg_fresh (ledger_of c) (rec_proposal q)" "map_of (co_assignments c) a = Some x"
    | (fresh) "lg_fresh (ledger_of c) (rec_proposal q)" "map_of (co_assignments c) a = None"
    by (cases "map_of (co_assignments c) a") auto
  then show ?thesis
  proof cases
    case stale
    then show ?thesis
      using releaseLocked_put_record [of q] by (simp add: confirm_active_def stale_ledger Let_def ledger_of_close)
  next
    case used
    with other show ?thesis by (simp add: confirm_active_def stale_ledger)
  next
    case fresh
    then show ?thesis by (simp add: confirm_active_def stale_ledger Let_def ledger_of_def rec fun_eq_iff)
  qed
qed

lemma refine_confirm:
  assumes "coordinator_inv c"
  shows "lg_confirm r a now (ledger_of c) = (Assigned (fst (Confirm r a now c)), ledger_of (snd (Confirm r a now c)))"
proof -
  have keys: "keys_ok c" using assms by (simp add: coordinator_inv_def)
  let ?d = "expireLocked now c"
  have inv: "coordinator_inv ?d" using assms by (rule expireLocked_inv)
  have known: "map_get Assignment_zero (co_assignments ?d) a = the (map_of (co_assignments ?d) a)"
    if "map_of (co_reservations ?d) r = Some q" "confirmed q" "rec_assignment q = a" for q
    using inv that by (fastforce simp: coordinator_inv_def assignments_ok_def map_get_def)
  show ?thesis
  proof (cases "map_of (co_reservations ?d) r")
    case None
    then show ?thesis by (simp add: lg_confirm_def Confirm_def Let_def time_IsZero_def ledger_of_expire [OF keys, symmetric])
  next
    case (Some q)
    show ?thesis
    proof (cases "active q")
      case True
      from refine_confirm_active [OF inv Some this, of a now] True Some show ?thesis
        by (simp add: lg_confirm_def Confirm_def Let_def time_IsZero_def ledger_of_expire [OF keys, symmetric]
            cong: if_cong split: if_splits)
    next
      case False
      with Some known show ?thesis
        by (auto simp: lg_confirm_def Confirm_def Let_def time_IsZero_def ledger_of_expire [OF keys, symmetric]
            split: ReservationStatus.splits)
    qed
  qed
qed

section \<open>Property\<close>

text \<open>
  C19. The coordinator refines the ledger. In every reachable state, every call gives the answer that the
  specification gives, and the state it leads to abstracts to the specification's next state.
\<close>
theorem coordinator_refines_ledger:
  assumes "reachable c"
  shows "ledger_call x (ledger_of c) = (call_answer x c, ledger_of (run_call x c))"
proof -
  note inv = reachable_inv [OF assms]
  show ?thesis
    using reachable_parts(2,5) [OF assms]
    by (cases x) (simp_all add: refine_submit refine_submit_backfill refine_withdraw refine_snapshot [OF inv]
        refine_reserve [OF inv] refine_confirm [OF inv] refine_cancel [OF inv] refine_acknowledge)
qed

theorem coordinator_refines_ledger_witness:
  "ledger_call (CallConfirm ''r'' ''m'' 110) (ledger_of ex_reserved) =
     (Assigned (Inr (new_assignment ''m'' ''r'' (ex_proposal 1) 110)), ledger_of ex_confirmed)"
  using coordinator_refines_ledger [OF ex_reachable(2), of "CallConfirm ''r'' ''m'' 110"] ex_confirm by simp

end
