(* ===== verification/Json.thy ===== *)
theory Json
  imports Prelude
begin

text \<open>
  What the service takes from \<open>encoding/json\<close>. A document is written by \<open>json.Marshal\<close> of one of the
  program's structs and read back by a strict decoder into the same struct, so a document is
  represented by the struct's value. Two things happen to a value on the way, and both are modelled.

  \<^item> A string is written as UTF-8: each byte that does not begin a valid sequence becomes the
    replacement character U+FFFD. \<open>json_string\<close> is the string that the decoder gives back.
  \<^item> A time is written in RFC 3339 form, and \<open>Marshal\<close> fails for a year outside 0 to 9999.
    \<open>json_time\<close> tests this; a time in range is read back exactly, to the nanosecond.

  Integers are read back exactly. An omitted empty field is read back as the zero value, which it was.
\<close>

section \<open>Strings\<close>

definition byte_in :: "nat \<Rightarrow> nat \<Rightarrow> char \<Rightarrow> bool" where
  "byte_in lo hi c \<longleftrightarrow> lo \<le> of_char c \<and> of_char c \<le> hi"

text \<open>The length of the UTF-8 sequence at the front, 0 if there is none: \<open>utf8.DecodeRuneInString\<close>.\<close>

fun rune_length :: "string \<Rightarrow> nat" where
  "rune_length (a # b # c # d # s) =
     (if byte_in 0 0x7F a then 1
      else if byte_in 0xC2 0xDF a \<and> byte_in 0x80 0xBF b then 2
      else if (a = CHR 0xE0 \<and> byte_in 0xA0 0xBF b \<or> byte_in 0xE1 0xEC a \<and> byte_in 0x80 0xBF b \<or>
               a = CHR 0xED \<and> byte_in 0x80 0x9F b \<or> byte_in 0xEE 0xEF a \<and> byte_in 0x80 0xBF b) \<and>
              byte_in 0x80 0xBF c then 3
      else if (a = CHR 0xF0 \<and> byte_in 0x90 0xBF b \<or> byte_in 0xF1 0xF3 a \<and> byte_in 0x80 0xBF b \<or>
               a = CHR 0xF4 \<and> byte_in 0x80 0x8F b) \<and> byte_in 0x80 0xBF c \<and> byte_in 0x80 0xBF d then 4
      else 0)"
| "rune_length [a, b, c] =
     (if byte_in 0 0x7F a then 1
      else if byte_in 0xC2 0xDF a \<and> byte_in 0x80 0xBF b then 2
      else if (a = CHR 0xE0 \<and> byte_in 0xA0 0xBF b \<or> byte_in 0xE1 0xEC a \<and> byte_in 0x80 0xBF b \<or>
               a = CHR 0xED \<and> byte_in 0x80 0x9F b \<or> byte_in 0xEE 0xEF a \<and> byte_in 0x80 0xBF b) \<and>
              byte_in 0x80 0xBF c then 3
      else 0)"
| "rune_length [a, b] = (if byte_in 0 0x7F a then 1 else if byte_in 0xC2 0xDF a \<and> byte_in 0x80 0xBF b then 2 else 0)"
| "rune_length [a] = (if byte_in 0 0x7F a then 1 else 0)"
| "rune_length [] = 0"

definition replacement :: string where
  "replacement = [CHR 0xEF, CHR 0xBF, CHR 0xBD]"

function json_string :: "string \<Rightarrow> string" where
  "json_string [] = []"
| "json_string (c # s) =
     (case rune_length (c # s) of
        0 \<Rightarrow> replacement @ json_string s
      | Suc n \<Rightarrow> take (Suc n) (c # s) @ json_string (drop (Suc n) (c # s)))"
  by pat_completeness auto
termination
  by (relation "measure length") auto

declare json_string.simps(2) [simp del]

abbreviation valid_utf8 :: "string \<Rightarrow> bool" where
  "valid_utf8 s \<equiv> json_string s = s"

lemma rune_length_le: "rune_length s \<le> length s"
  by (induction s rule: rune_length.induct) simp_all

lemma rune_length_front:
  "rune_length s = Suc n \<Longrightarrow> rune_length (take (Suc n) s @ t) = Suc n"
  by (cases s rule: rune_length.cases; cases t rule: rune_length.cases) (auto split: if_splits)

lemma json_string_Nil [simp]: "json_string s = [] \<longleftrightarrow> s = []"
  by (cases s) (simp_all add: json_string.simps(2) replacement_def split: nat.splits)

lemma json_string_front:
  assumes "rune_length s = Suc n"
  shows "json_string (take (Suc n) s @ t) = take (Suc n) s @ json_string t"
proof -
  obtain c u where s: "s = c # u" using assms by (cases s) simp_all
  have len: "length (take n u) = n" using rune_length_le [of s] assms s by simp
  have rune: "rune_length (c # take n u @ t) = Suc n" using rune_length_front [OF assms, of t] by (simp add: s)
  have "json_string (c # take n u @ t) =
      take (Suc n) (c # take n u @ t) @ json_string (drop (Suc n) (c # take n u @ t))"
    by (simp only: json_string.simps(2) [of c "take n u @ t"] rune nat.case)
  moreover have "take (Suc n) (c # take n u @ t) = c # take n u" "drop (Suc n) (c # take n u @ t) = t"
    using len by simp_all
  ultimately show ?thesis by (simp add: s)
qed

text \<open>What was read back once is stable.\<close>

lemma json_string_idem [simp]: "json_string (json_string s) = json_string s"
proof (induction s rule: json_string.induct)
  case (2 c s)
  show ?case
  proof (cases "rune_length (c # s)")
    case 0
    have "rune_length replacement = Suc 2" "take (Suc 2) replacement = replacement"
      by (simp_all add: replacement_def byte_in_def)
    then have "json_string (replacement @ t) = replacement @ json_string t" for t
      using json_string_front [of replacement 2 t] by simp
    with 0 2(1) [OF 0] json_string.simps(2) [of c s] show ?thesis by simp
  next
    case (Suc n)
    then have "json_string (c # s) = take (Suc n) (c # s) @ json_string (drop (Suc n) (c # s))"
      using json_string.simps(2) [of c s] by simp
    with 2(2) [OF Suc] show ?thesis by (simp only: json_string_front [OF Suc])
  qed
qed simp

section \<open>Times\<close>

text \<open>Year 0 begins 366 days before Go's zero time, year 10000 begins 3652059 days after it.\<close>

definition json_time :: "Time \<Rightarrow> bool" where
  "json_time t \<longleftrightarrow> - (366 * 86400000000000) \<le> t \<and> t < 3652059 * 86400000000000"

end
