(* ===== verification/Repository.thy ===== *)
theory Repository
  imports Domain Bytes Go_Map Machine
begin

text \<open>
  The transactional store of the service, \<open>src/internal/repository\<close>: the contract of
  \<open>repository.go\<close> and its reference adapter \<open>memory.go\<close>.

  A payload is opaque to the store, which looks only at whether it is empty: it is an option of an
  arbitrary type, and \<open>None\<close> is the empty slice. A digest is the 32 byte array of the code. The
  version is incremented once per commit, and each commit appends to the audit log in memory, so it
  is the length of a list and does not wrap. Every method holds the lock of the backend for its whole
  body and is one step; a context that was cancelled makes a method return before it reads or writes
  anything and is left out.

  An error is what \<open>errors.As\<close> and \<open>errors.Is\<close> can see of it: a failure code (wrapped or not), a
  conflict, the sentinel of an unknown resource, or anything else.
\<close>

section \<open>The contract\<close>

type_synonym Version = nat
type_synonym digest = "byte list"

record Key =
  key_Scope :: string
  key_Kind :: string
  key_ID :: string

datatype go_err =
    ErrFailure FailureCode
  | Conflict (conflict_Key: Key) (conflict_Expected: Version) (conflict_Actual: Version)
  | ErrResourceNotFound
  | ErrOther

record 'p Resource =
  rsc_Key :: Key
  rsc_Version :: Version
  rsc_Payload :: "'p option"
  rsc_Deleted :: bool

record 'p RepositorySnapshot =
  rsn_Version :: Version
  rsn_Resources :: "'p Resource list"

record Operation =
  op_Scope :: string
  op_ID :: OperationID
  op_Kind :: string
  op_Digest :: digest
  op_At :: Time

record 'p Mutation =
  mut_Key :: Key
  mut_ExpectedVersion :: Version
  mut_Payload :: "'p option"
  mut_Delete :: bool

record CommitResult =
  cr_Version :: Version
  cr_Replayed :: bool

record AuditRecord =
  ar_Version :: Version
  ar_OperationKind :: string
  ar_At :: Time
  ar_ResourceCounts :: "(string, nat) go_map"

definition zero_digest :: digest where
  "zero_digest = replicate 32 0"

definition ValidateOperation :: "Operation \<Rightarrow> go_err option" where
  "ValidateOperation operation =
     (if op_Scope operation = '''' \<or> op_ID operation = '''' \<or> op_Kind operation = '''' \<or> time_IsZero (op_At operation)
      then Some (ErrFailure FailureInvalidInput)
      else if op_Digest operation = zero_digest then Some (ErrFailure FailureInvalidInput)
      else None)"

fun IsConflict :: "go_err \<Rightarrow> bool" where
  "IsConflict (Conflict key expected actual) = True"
| "IsConflict err = False"

definition cloneResource :: "'p Resource \<Rightarrow> 'p Resource" where
  "cloneResource resource = resource\<lparr>rsc_Payload := rsc_Payload resource\<rparr>"

definition CloneSnapshot :: "'p RepositorySnapshot \<Rightarrow> 'p RepositorySnapshot" where
  "CloneSnapshot snapshot =
     \<lparr>rsn_Version = rsn_Version snapshot, rsn_Resources = map cloneResource (rsn_Resources snapshot)\<rparr>"

definition CloneMutations :: "'p Mutation list \<Rightarrow> 'p Mutation list" where
  "CloneMutations mutations = map (\<lambda>mutation. mutation\<lparr>mut_Payload := mut_Payload mutation\<rparr>) mutations"

definition CloneAudit :: "AuditRecord list \<Rightarrow> AuditRecord list" where
  "CloneAudit records = map (\<lambda>q. q\<lparr>ar_ResourceCounts := ar_ResourceCounts q\<rparr>) records"

lemma repository_clones [simp]:
  "cloneResource r = r" "CloneSnapshot s = s" "CloneMutations ms = ms" "CloneAudit as = as"
  by (simp_all add: cloneResource_def [abs_def] CloneSnapshot_def CloneMutations_def CloneAudit_def map_idI)

definition compareKey :: "Key \<Rightarrow> Key \<Rightarrow> int" where
  "compareKey left right =
     cmp_then (go_cmp (key_Scope left) (key_Scope right))
       (cmp_then (go_cmp (key_Kind left) (key_Kind right)) (go_cmp (key_ID left) (key_ID right)))"

definition compare_mutations :: "'p Mutation \<Rightarrow> 'p Mutation \<Rightarrow> int" where
  "compare_mutations left right = compareKey (mut_Key left) (mut_Key right)"

text \<open>The loop over the sorted mutations; the first argument is the key of the mutation before.\<close>

fun check_mutations :: "string \<Rightarrow> Key option \<Rightarrow> 'p Mutation list \<Rightarrow> go_err option" where
  "check_mutations scope previous [] = None"
| "check_mutations scope previous (mutation # rest) =
     (let key = mut_Key mutation
      in if key_Scope key = '''' \<or> key_Kind key = '''' \<or> key_ID key = '''' then Some (ErrFailure FailureInvalidInput)
         else if key_Scope key \<noteq> scope then Some (ErrFailure FailureInvalidInput)
         else if previous = Some key then Some (ErrFailure FailureInvalidInput)
         else if mut_Delete mutation \<and> mut_Payload mutation \<noteq> None then Some (ErrFailure FailureInvalidInput)
         else if \<not> mut_Delete mutation \<and> mut_Payload mutation = None then Some (ErrFailure FailureInvalidInput)
         else check_mutations scope (Some key) rest)"

definition validateAndNormalize :: "Operation \<Rightarrow> 'p Mutation list \<Rightarrow> go_err + 'p Mutation list" where
  "validateAndNormalize operation mutations =
     (case ValidateOperation operation of
        Some e \<Rightarrow> Inl e
      | None \<Rightarrow>
          if mutations = [] then Inl (ErrFailure FailureInvalidInput)
          else let normalized = sort_cmp compare_mutations (CloneMutations mutations)
               in (case check_mutations (op_Scope operation) None normalized of
                     Some e \<Rightarrow> Inl e
                   | None \<Rightarrow> Inr normalized))"

definition ValidateTransaction :: "Operation \<Rightarrow> 'p Mutation list \<Rightarrow> go_err + 'p Mutation list" where
  "ValidateTransaction operation mutations = validateAndNormalize operation mutations"

section \<open>The reference adapter\<close>

record operationReceipt =
  rcp_digest :: digest
  rcp_result :: CommitResult

record scopedAuditRecord =
  sar_scope :: string
  sar_record :: AuditRecord

record 'p MemoryBackend =
  mem_version :: Version
  mem_scopeVersions :: "(string, Version) go_map"
  mem_resources :: "(Key, 'p Resource) go_map"
  mem_operations :: "(string \<times> OperationID, operationReceipt) go_map"
  mem_audit :: "scopedAuditRecord list"

definition NewMemoryBackend :: "'p MemoryBackend" where
  "NewMemoryBackend =
     \<lparr>mem_version = 0, mem_scopeVersions = [], mem_resources = [], mem_operations = [], mem_audit = []\<rparr>"

definition maxAuditLimit :: int where
  "maxAuditLimit = 1000"

text \<open>\<open>Replay\<close> answers a result and whether it exists; the second is the option here.\<close>

definition Memory_Replay :: "Operation \<Rightarrow> 'p MemoryBackend \<Rightarrow> go_err + CommitResult option" where
  "Memory_Replay operation backend =
     (case ValidateOperation operation of
        Some e \<Rightarrow> Inl e
      | None \<Rightarrow>
          (case map_of (mem_operations backend) (op_Scope operation, op_ID operation) of
             None \<Rightarrow> Inr None
           | Some receipt \<Rightarrow>
               if rcp_digest receipt \<noteq> op_Digest operation then Inl (ErrFailure FailureIdempotencyConflict)
               else Inr (Some ((rcp_result receipt)\<lparr>cr_Replayed := True\<rparr>))))"

definition Memory_Snapshot :: "string \<Rightarrow> 'p MemoryBackend \<Rightarrow> go_err + 'p RepositorySnapshot" where
  "Memory_Snapshot scope backend =
     (if scope = '''' then Inl (ErrFailure FailureInvalidInput)
      else let keys = sort_cmp compareKey (filter (\<lambda>key. key_Scope key = scope) (map fst (mem_resources backend)))
           in Inr \<lparr>rsn_Version = map_get 0 (mem_scopeVersions backend) scope,
                   rsn_Resources = map (\<lambda>key. cloneResource (the (map_of (mem_resources backend) key))) keys\<rparr>)"

definition actual_version :: "'p MemoryBackend \<Rightarrow> Key \<Rightarrow> Version" where
  "actual_version backend key =
     (case map_of (mem_resources backend) key of None \<Rightarrow> 0 | Some resource \<Rightarrow> rsc_Version resource)"

fun check_versions :: "'p MemoryBackend \<Rightarrow> 'p Mutation list \<Rightarrow> go_err option" where
  "check_versions backend [] = None"
| "check_versions backend (mutation # rest) =
     (let actual = actual_version backend (mut_Key mutation)
      in if actual \<noteq> mut_ExpectedVersion mutation
         then Some (Conflict (mut_Key mutation) (mut_ExpectedVersion mutation) actual)
         else check_versions backend rest)"

definition written :: "Version \<Rightarrow> 'p Mutation \<Rightarrow> 'p Resource" where
  "written version mutation =
     \<lparr>rsc_Key = mut_Key mutation, rsc_Version = version, rsc_Payload = mut_Payload mutation,
      rsc_Deleted = mut_Delete mutation\<rparr>"

definition apply_mutations ::
  "Version \<Rightarrow> 'p Mutation list \<Rightarrow> (Key, 'p Resource) go_map \<Rightarrow> (Key, 'p Resource) go_map" where
  "apply_mutations version mutations resources =
     foldl (\<lambda>m mutation. AList.update (mut_Key mutation) (written version mutation) m) resources mutations"

definition resource_counts :: "'p Mutation list \<Rightarrow> (string, nat) go_map" where
  "resource_counts mutations =
     foldl (\<lambda>counts mutation. let kind = key_Kind (mut_Key mutation)
              in AList.update kind (map_get 0 counts kind + 1) counts) [] mutations"

definition Memory_Commit ::
  "Operation \<Rightarrow> 'p Mutation list \<Rightarrow> 'p MemoryBackend \<Rightarrow> (go_err + CommitResult) \<times> 'p MemoryBackend" where
  "Memory_Commit operation mutations backend =
     (case ValidateTransaction operation mutations of
        Inl e \<Rightarrow> (Inl e, backend)
      | Inr normalized \<Rightarrow>
          let receiptKey = (op_Scope operation, op_ID operation)
          in (case map_of (mem_operations backend) receiptKey of
                Some receipt \<Rightarrow>
                  if rcp_digest receipt \<noteq> op_Digest operation
                  then (Inl (ErrFailure FailureIdempotencyConflict), backend)
                  else (Inr ((rcp_result receipt)\<lparr>cr_Replayed := True\<rparr>), backend)
              | None \<Rightarrow>
                  (case check_versions backend normalized of
                     Some e \<Rightarrow> (Inl e, backend)
                   | None \<Rightarrow>
                       let version = mem_version backend + 1;
                           q = \<lparr>ar_Version = version, ar_OperationKind = op_Kind operation, ar_At = op_At operation,
                                ar_ResourceCounts = resource_counts normalized\<rparr>;
                           result = \<lparr>cr_Version = version, cr_Replayed = False\<rparr>
                       in (Inr result,
                           \<lparr>mem_version = version,
                            mem_scopeVersions = AList.update (op_Scope operation) version (mem_scopeVersions backend),
                            mem_resources = apply_mutations version normalized (mem_resources backend),
                            mem_operations = AList.update receiptKey
                              \<lparr>rcp_digest = op_Digest operation, rcp_result = result\<rparr> (mem_operations backend),
                            mem_audit = mem_audit backend @ [\<lparr>sar_scope = op_Scope operation, sar_record = q\<rparr>]\<rparr>))))"

definition Memory_Audit :: "string \<Rightarrow> Version \<Rightarrow> int \<Rightarrow> 'p MemoryBackend \<Rightarrow> go_err + AuditRecord list" where
  "Memory_Audit scope after limit backend =
     (if limit \<le> 0 \<or> limit > maxAuditLimit then Inl (ErrFailure FailureInvalidInput)
      else if scope = '''' then Inl (ErrFailure FailureInvalidInput)
      else Inr (CloneAudit (take (nat limit)
             (map sar_record (filter (\<lambda>scoped. sar_scope scoped = scope \<and> \<not> ar_Version (sar_record scoped) \<le> after)
                (mem_audit backend))))))"

section \<open>Transactions without their loops\<close>

interpretation key_order: keyed_cmp "\<lambda>_. True" compareKey "\<lambda>k. k"
  by unfold_locales (auto simp: compareKey_def intro: Key.equality)

interpretation mutation_order: keyed_cmp "\<lambda>_. True" compare_mutations mut_Key
  by unfold_locales (auto simp: compare_mutations_def compareKey_def intro: Key.equality)

lemma key_le_antisym: "compareKey a b \<le> 0 \<Longrightarrow> compareKey b a \<le> 0 \<Longrightarrow> a = b"
  by (auto simp: compareKey_def intro: Key.equality)

definition valid_mutation :: "string \<Rightarrow> 'p Mutation \<Rightarrow> bool" where
  "valid_mutation scope mutation \<longleftrightarrow>
     scope \<noteq> '''' \<and> key_Scope (mut_Key mutation) = scope \<and> key_Kind (mut_Key mutation) \<noteq> '''' \<and>
     key_ID (mut_Key mutation) \<noteq> '''' \<and> (mut_Delete mutation \<longleftrightarrow> mut_Payload mutation = None)"

definition valid_transaction :: "Operation \<Rightarrow> 'p Mutation list \<Rightarrow> bool" where
  "valid_transaction operation mutations \<longleftrightarrow>
     ValidateOperation operation = None \<and> mutations \<noteq> [] \<and> distinct (map mut_Key mutations) \<and>
     (\<forall>mutation\<in>set mutations. valid_mutation (op_Scope operation) mutation)"

lemma check_mutations_Some:
  "sorted_cmp compareKey (k # map mut_Key ms) \<Longrightarrow>
   check_mutations scope (Some k) ms = None \<longleftrightarrow>
     distinct (k # map mut_Key ms) \<and> (\<forall>m\<in>set ms. valid_mutation scope m)"
proof (induction ms arbitrary: k)
  case (Cons m ms)
  have "k \<noteq> mut_Key m \<Longrightarrow> k \<notin> mut_Key ` set ms"
  proof
    assume "k \<noteq> mut_Key m" "k \<in> mut_Key ` set ms"
    with Cons.prems have "compareKey k (mut_Key m) \<le> 0" "compareKey (mut_Key m) k \<le> 0" by auto
    then have "k = mut_Key m" by (rule key_le_antisym)
    with \<open>k \<noteq> mut_Key m\<close> show False ..
  qed
  moreover have "check_mutations scope (Some (mut_Key m)) ms = None \<longleftrightarrow>
      distinct (mut_Key m # map mut_Key ms) \<and> (\<forall>m\<in>set ms. valid_mutation scope m)"
    using Cons.prems by (intro Cons.IH) simp
  ultimately show ?case by (auto simp: Let_def valid_mutation_def)
qed simp

lemma check_mutations_None:
  "sorted_cmp compareKey (map mut_Key ms) \<Longrightarrow>
   check_mutations scope None ms = None \<longleftrightarrow> distinct (map mut_Key ms) \<and> (\<forall>m\<in>set ms. valid_mutation scope m)"
  using check_mutations_Some by (cases ms) (auto simp: Let_def valid_mutation_def)

lemma check_mutations_error: "check_mutations scope p ms = Some e \<Longrightarrow> e = ErrFailure FailureInvalidInput"
  by (induction ms arbitrary: p) (auto simp: Let_def split: if_splits)

lemma ValidateOperation_error: "ValidateOperation op = Some e \<Longrightarrow> e = ErrFailure FailureInvalidInput"
  by (auto simp: ValidateOperation_def split: if_splits)

lemma ValidateTransaction_conv:
  "ValidateTransaction op ms =
     (if valid_transaction op ms then Inr (sort_cmp compare_mutations ms) else Inl (ErrFailure FailureInvalidInput))"
proof -
  let ?ns = "sort_cmp compare_mutations ms"
  have "sorted_cmp compareKey (map mut_Key ?ns)"
    using mutation_order.sorted_sort [of ms] by (simp add: sorted_wrt_map compare_mutations_def)
  then have "check_mutations (op_Scope op) None ?ns = None \<longleftrightarrow>
      distinct (map mut_Key ms) \<and> (\<forall>m\<in>set ms. valid_mutation (op_Scope op) m)"
    by (simp add: check_mutations_None)
  then show ?thesis
    by (auto simp: ValidateTransaction_def validateAndNormalize_def valid_transaction_def Let_def
        dest: ValidateOperation_error check_mutations_error split: option.splits)
qed

lemma check_versions_None:
  "check_versions b ms = None \<longleftrightarrow> (\<forall>m\<in>set ms. actual_version b (mut_Key m) = mut_ExpectedVersion m)"
  by (induction ms) (auto simp: Let_def)

lemma check_versions_error:
  "check_versions b ms = Some e \<Longrightarrow>
     \<exists>m\<in>set ms. e = Conflict (mut_Key m) (mut_ExpectedVersion m) (actual_version b (mut_Key m)) \<and>
       actual_version b (mut_Key m) \<noteq> mut_ExpectedVersion m"
  by (induction ms) (auto simp: Let_def split: if_splits)

text \<open>The resource a key names; the loop writes exactly the resources of the mutations.\<close>

abbreviation resource_at :: "'p MemoryBackend \<Rightarrow> Key \<Rightarrow> 'p Resource option" where
  "resource_at b k \<equiv> map_of (mem_resources b) k"

lemma apply_mutations_other: "k \<notin> mut_Key ` set ms \<Longrightarrow> map_of (apply_mutations v ms m) k = map_of m k"
  by (induction ms arbitrary: m) (auto simp: apply_mutations_def)

lemma apply_mutations_mem:
  "distinct (map mut_Key ms) \<Longrightarrow> x \<in> set ms \<Longrightarrow> map_of (apply_mutations v ms m) (mut_Key x) = Some (written v x)"
proof (induction ms arbitrary: m)
  case (Cons y ms)
  have step: "apply_mutations v (y # ms) m = apply_mutations v ms (AList.update (mut_Key y) (written v y) m)"
    by (simp add: apply_mutations_def)
  show ?case
  proof (cases "x = y")
    case True
    with Cons.prems have "mut_Key x \<notin> mut_Key ` set ms" by auto
    with True show ?thesis by (simp add: step apply_mutations_other)
  next
    case False
    with Cons show ?thesis by (simp add: step)
  qed
qed simp

lemma keys_distinct_apply [simp]: "keys_distinct m \<Longrightarrow> keys_distinct (apply_mutations v ms m)"
  unfolding apply_mutations_def by (rule keys_distinct_foldl) simp_all

lemma keys_apply: "fst ` set (apply_mutations v ms m) = mut_Key ` set ms \<union> fst ` set m"
  by (induction ms arbitrary: m) (auto simp: apply_mutations_def dom_update simp flip: dom_map_of_conv_image_fst)

section \<open>What a commit does\<close>

definition committed :: "Operation \<Rightarrow> 'p Mutation list \<Rightarrow> 'p MemoryBackend \<Rightarrow> 'p MemoryBackend" where
  "committed op ms b =
     (let version = mem_version b + 1; normalized = sort_cmp compare_mutations ms
      in \<lparr>mem_version = version,
          mem_scopeVersions = AList.update (op_Scope op) version (mem_scopeVersions b),
          mem_resources = apply_mutations version normalized (mem_resources b),
          mem_operations = AList.update (op_Scope op, op_ID op)
            \<lparr>rcp_digest = op_Digest op, rcp_result = \<lparr>cr_Version = version, cr_Replayed = False\<rparr>\<rparr> (mem_operations b),
          mem_audit = mem_audit b @ [\<lparr>sar_scope = op_Scope op,
            sar_record = \<lparr>ar_Version = version, ar_OperationKind = op_Kind op, ar_At = op_At op,
              ar_ResourceCounts = resource_counts normalized\<rparr>\<rparr>]\<rparr>)"

abbreviation receipt_of :: "'p MemoryBackend \<Rightarrow> Operation \<Rightarrow> operationReceipt option" where
  "receipt_of b op \<equiv> map_of (mem_operations b) (op_Scope op, op_ID op)"

text \<open>The commit takes effect: the transaction is valid, new, and every expected version is the actual one.\<close>

definition effective :: "Operation \<Rightarrow> 'p Mutation list \<Rightarrow> 'p MemoryBackend \<Rightarrow> bool" where
  "effective op ms b \<longleftrightarrow> valid_transaction op ms \<and> receipt_of b op = None \<and>
     (\<forall>m\<in>set ms. actual_version b (mut_Key m) = mut_ExpectedVersion m)"

lemma Memory_Commit_effective:
  "effective op ms b \<Longrightarrow>
   Memory_Commit op ms b = (Inr \<lparr>cr_Version = mem_version b + 1, cr_Replayed = False\<rparr>, committed op ms b)"
  by (simp add: Memory_Commit_def ValidateTransaction_conv effective_def check_versions_None committed_def Let_def
      split: option.splits)

lemma Memory_Commit_replay:
  "valid_transaction op ms \<Longrightarrow> receipt_of b op = Some rcp \<Longrightarrow>
   Memory_Commit op ms b = ((if rcp_digest rcp = op_Digest op then Inr ((rcp_result rcp)\<lparr>cr_Replayed := True\<rparr>)
     else Inl (ErrFailure FailureIdempotencyConflict)), b)"
  by (simp add: Memory_Commit_def ValidateTransaction_conv Let_def)

lemma Memory_Commit_invalid:
  "\<not> valid_transaction op ms \<Longrightarrow> Memory_Commit op ms b = (Inl (ErrFailure FailureInvalidInput), b)"
  by (simp add: Memory_Commit_def ValidateTransaction_conv)

lemma Memory_Commit_conflict:
  assumes "valid_transaction op ms" "receipt_of b op = None" "\<not> effective op ms b"
  shows "\<exists>m\<in>set ms. actual_version b (mut_Key m) \<noteq> mut_ExpectedVersion m \<and>
    Memory_Commit op ms b = (Inl (Conflict (mut_Key m) (mut_ExpectedVersion m) (actual_version b (mut_Key m))), b)"
proof -
  let ?ns = "sort_cmp compare_mutations ms"
  obtain e where e: "check_versions b ?ns = Some e"
    using assms by (cases "check_versions b ?ns") (auto simp: check_versions_None effective_def)
  with assms have "Memory_Commit op ms b = (Inl e, b)"
    by (simp add: Memory_Commit_def ValidateTransaction_conv Let_def)
  with check_versions_error [OF e] show ?thesis by auto
qed

lemma Memory_Commit_cases:
  obtains (effective) "effective op ms b"
      "Memory_Commit op ms b = (Inr \<lparr>cr_Version = mem_version b + 1, cr_Replayed = False\<rparr>, committed op ms b)"
    | (same) rcp where "\<not> effective op ms b" "valid_transaction op ms" "receipt_of b op = Some rcp"
      "rcp_digest rcp = op_Digest op" "Memory_Commit op ms b = (Inr ((rcp_result rcp)\<lparr>cr_Replayed := True\<rparr>), b)"
    | (error) e where "\<not> effective op ms b" "Memory_Commit op ms b = (Inl e, b)"
proof (cases "effective op ms b")
  case True
  with Memory_Commit_effective that(1) show ?thesis by blast
next
  case False
  show ?thesis
  proof (cases "valid_transaction op ms")
    case valid: True
    show ?thesis
    proof (cases "receipt_of b op")
      case None
      with Memory_Commit_conflict [OF valid None False] that(3) [OF False] show ?thesis by blast
    next
      case (Some rcp)
      with Memory_Commit_replay [OF valid Some] that(2) [OF False valid Some] that(3) [OF False] show ?thesis
        by (cases "rcp_digest rcp = op_Digest op") simp_all
    qed
  qed (use Memory_Commit_invalid that(3) False in blast)
qed

lemma committed_sel [simp]:
  "mem_version (committed op ms b) = mem_version b + 1"
  "map_of (mem_operations (committed op ms b)) = (map_of (mem_operations b))((op_Scope op, op_ID op) \<mapsto>
     \<lparr>rcp_digest = op_Digest op, rcp_result = \<lparr>cr_Version = mem_version b + 1, cr_Replayed = False\<rparr>\<rparr>)"
  "map_get 0 (mem_scopeVersions (committed op ms b)) scope =
     (if scope = op_Scope op then mem_version b + 1 else map_get 0 (mem_scopeVersions b) scope)"
  by (simp_all add: committed_def Let_def map_get_def)

lemma committed_resource_mem:
  "distinct (map mut_Key ms) \<Longrightarrow> m \<in> set ms \<Longrightarrow>
   resource_at (committed op ms b) (mut_Key m) = Some (written (mem_version b + 1) m)"
  by (simp add: committed_def Let_def apply_mutations_mem)

lemma committed_resource_other:
  "k \<notin> mut_Key ` set ms \<Longrightarrow> resource_at (committed op ms b) k = resource_at b k"
  by (simp add: committed_def Let_def apply_mutations_other)

section \<open>The invariant of the backend and its history\<close>

definition mem_inv :: "'p MemoryBackend \<Rightarrow> bool" where
  "mem_inv b \<longleftrightarrow>
     keys_distinct (mem_resources b) \<and> keys_distinct (mem_operations b) \<and>
     (\<forall>k r. resource_at b k = Some r \<longrightarrow> rsc_Key r = k \<and> 0 < rsc_Version r \<and> key_Scope k \<noteq> '''' \<and>
        rsc_Version r \<le> map_get 0 (mem_scopeVersions b) (key_Scope k) \<and> (rsc_Deleted r \<longleftrightarrow> rsc_Payload r = None)) \<and>
     (\<forall>scope. map_get 0 (mem_scopeVersions b) scope \<le> mem_version b) \<and>
     map (\<lambda>scoped. ar_Version (sar_record scoped)) (mem_audit b) = [1..<Suc (mem_version b)] \<and>
     (\<forall>k rcp. map_of (mem_operations b) k = Some rcp \<longrightarrow> \<not> cr_Replayed (rcp_result rcp))"

definition mem_evolves :: "'p MemoryBackend \<Rightarrow> 'p MemoryBackend \<Rightarrow> bool" where
  "mem_evolves b c \<longleftrightarrow> mem_version b \<le> mem_version c \<and> map_of (mem_operations b) \<subseteq>\<^sub>m map_of (mem_operations c) \<and>
     (\<forall>k. resource_at c k = resource_at b k \<or> (\<exists>r. resource_at c k = Some r \<and> mem_version b < rsc_Version r))"

lemma NewMemoryBackend_inv [simp]: "mem_inv NewMemoryBackend"
  by (simp add: mem_inv_def NewMemoryBackend_def map_get_def)

lemma mem_invD:
  assumes "mem_inv b" "resource_at b k = Some r"
  shows "rsc_Key r = k" "0 < rsc_Version r" "key_Scope k \<noteq> ''''" "rsc_Version r \<le> mem_version b"
    "rsc_Deleted r \<longleftrightarrow> rsc_Payload r = None"
proof -
  have "rsc_Version r \<le> map_get 0 (mem_scopeVersions b) (key_Scope k)"
    "map_get 0 (mem_scopeVersions b) (key_Scope k) \<le> mem_version b"
    using assms by (simp_all add: mem_inv_def)
  then show "rsc_Version r \<le> mem_version b" by linarith
qed (use assms in \<open>simp_all add: mem_inv_def\<close>)

lemma mem_evolves_refl: "mem_evolves b b"
  by (simp add: mem_evolves_def)

lemma mem_evolves_trans:
  assumes "mem_evolves b c" "mem_evolves c d"
  shows "mem_evolves b d"
proof -
  have "mem_version b \<le> mem_version c" using assms(1) by (simp add: mem_evolves_def)
  have "resource_at d k = resource_at b k \<or> (\<exists>r. resource_at d k = Some r \<and> mem_version b < rsc_Version r)" for k
  proof (cases "resource_at d k = resource_at c k")
    case True
    with assms(1) show ?thesis by (auto simp: mem_evolves_def)
  next
    case False
    with assms(2) obtain r where "resource_at d k = Some r" "mem_version c < rsc_Version r"
      by (auto simp: mem_evolves_def)
    with \<open>mem_version b \<le> mem_version c\<close> show ?thesis by simp
  qed
  moreover have "map_of (mem_operations b) \<subseteq>\<^sub>m map_of (mem_operations d)"
    using assms map_le_trans unfolding mem_evolves_def by blast
  moreover have "mem_version b \<le> mem_version d" using assms by (simp add: mem_evolves_def)
  ultimately show ?thesis by (simp add: mem_evolves_def)
qed

lemma committed_evolves: "effective op ms b \<Longrightarrow> mem_evolves b (committed op ms b)"
proof -
  assume eff: "effective op ms b"
  then have "distinct (map mut_Key ms)" by (simp add: effective_def valid_transaction_def)
  then have "resource_at (committed op ms b) k = resource_at b k \<or>
      (\<exists>r. resource_at (committed op ms b) k = Some r \<and> mem_version b < rsc_Version r)" for k
    by (cases "k \<in> mut_Key ` set ms") (auto simp: committed_resource_other committed_resource_mem written_def)
  moreover have "map_of (mem_operations b) \<subseteq>\<^sub>m map_of (mem_operations (committed op ms b))"
    using eff by (auto simp: effective_def map_le_def)
  ultimately show ?thesis by (simp add: mem_evolves_def)
qed

lemma committed_inv:
  assumes "mem_inv b" "effective op ms b"
  shows "mem_inv (committed op ms b)"
proof -
  have dis: "distinct (map mut_Key ms)" and val: "\<forall>m\<in>set ms. valid_mutation (op_Scope op) m"
    using assms(2) by (simp_all add: effective_def valid_transaction_def)
  have ver: "map_get 0 (mem_scopeVersions b) scope \<le> mem_version b" for scope using assms(1) by (simp add: mem_inv_def)
  have "rsc_Key r = k \<and> 0 < rsc_Version r \<and> key_Scope k \<noteq> '''' \<and>
      rsc_Version r \<le> map_get 0 (mem_scopeVersions (committed op ms b)) (key_Scope k) \<and> (rsc_Deleted r \<longleftrightarrow> rsc_Payload r = None)"
    if "resource_at (committed op ms b) k = Some r" for k r
  proof (cases "k \<in> mut_Key ` set ms")
    case True
    then obtain m where m: "m \<in> set ms" "k = mut_Key m" by auto
    with that dis have "r = written (mem_version b + 1) m" by (simp add: committed_resource_mem)
    with m val show ?thesis by (auto simp: written_def valid_mutation_def)
  next
    case False
    with that have "resource_at b k = Some r" by (simp add: committed_resource_other)
    with mem_invD [OF assms(1) this] assms(1) show ?thesis
      by (auto simp: mem_inv_def)
  qed
  moreover have "keys_distinct (mem_resources (committed op ms b))" "keys_distinct (mem_operations (committed op ms b))"
    "map (\<lambda>scoped. ar_Version (sar_record scoped)) (mem_audit (committed op ms b)) = [1..<Suc (mem_version b + 1)]"
    using assms(1) by (simp_all add: committed_def Let_def mem_inv_def)
  moreover have "map_get 0 (mem_scopeVersions (committed op ms b)) scope \<le> mem_version (committed op ms b)" for scope
    using ver [of scope] by simp
  ultimately show ?thesis using assms(1) unfolding mem_inv_def by auto
qed

lemma Memory_Commit_state:
  "snd (Memory_Commit op ms b) = (if effective op ms b then committed op ms b else b)"
  by (cases rule: Memory_Commit_cases [of op ms b]) simp_all

interpretation memory: machine_evolves "\<lambda>(op, ms) b. snd (Memory_Commit op ms b)" mem_inv mem_evolves
  by unfold_locales
    (auto simp: Memory_Commit_state committed_inv committed_evolves mem_evolves_refl intro: mem_evolves_trans)

section \<open>Snapshots\<close>

lemma snapshot_key_distinct: "mem_inv b \<Longrightarrow> distinct (filter P (map fst (mem_resources b)))"
  by (simp add: mem_inv_def)

lemma snapshot_keys:
  "k \<in> set (filter (\<lambda>key. key_Scope key = scope) (map fst (mem_resources b))) \<longleftrightarrow>
     key_Scope k = scope \<and> resource_at b k \<noteq> None"
  by (auto simp: map_of_eq_None_iff)

lemma the_image: "(\<lambda>k. the (f k)) ` {k. S k \<and> f k \<noteq> None} = {r. \<exists>k. f k = Some r \<and> S k}"
  by (auto intro: rev_image_eqI)

lemma Memory_Snapshot_resources:
  assumes "mem_inv b" "Memory_Snapshot scope b = Inr snap"
  shows "set (rsn_Resources snap) = {r. \<exists>k. resource_at b k = Some r \<and> key_Scope k = scope}"
    "distinct (map rsc_Key (rsn_Resources snap))"
    "sorted_cmp compareKey (map rsc_Key (rsn_Resources snap))"
proof -
  let ?ks = "filter (\<lambda>key. key_Scope key = scope) (map fst (mem_resources b))"
  have snap: "rsn_Resources snap = map (\<lambda>k. the (resource_at b k)) (sort_cmp compareKey ?ks)"
    using assms(2) by (auto simp: Memory_Snapshot_def Let_def split: if_splits)
  note mem = snapshot_keys [of _ scope b]
  then have ks: "set ?ks = {k. key_Scope k = scope \<and> resource_at b k \<noteq> None}" by blast
  show "set (rsn_Resources snap) = {r. \<exists>k. resource_at b k = Some r \<and> key_Scope k = scope}"
    unfolding snap set_map set_sort_cmp ks by (rule the_image)
  have "map rsc_Key (rsn_Resources snap) = sort_cmp compareKey ?ks"
    unfolding snap map_map
  proof (rule map_idI)
    fix k
    assume "k \<in> set (sort_cmp compareKey ?ks)"
    then have "k \<in> set ?ks" by simp
    then obtain r where "resource_at b k = Some r" unfolding mem by blast
    with mem_invD(1) [OF assms(1) this] show "(rsc_Key \<circ> (\<lambda>k. the (resource_at b k))) k = k" by simp
  qed
  then show "distinct (map rsc_Key (rsn_Resources snap))" "sorted_cmp compareKey (map rsc_Key (rsn_Resources snap))"
    using snapshot_key_distinct [OF assms(1)] key_order.sorted_sort [of ?ks] by simp_all
qed

lemma Memory_Snapshot_cong:
  assumes "mem_inv b" "mem_inv c" "\<And>k. key_Scope k = scope \<Longrightarrow> resource_at c k = resource_at b k"
    "map_get 0 (mem_scopeVersions c) scope = map_get 0 (mem_scopeVersions b) scope"
  shows "Memory_Snapshot scope c = Memory_Snapshot scope b"
proof -
  let ?ks = "\<lambda>b. filter (\<lambda>key. key_Scope key = scope) (map fst (mem_resources b))"
  have "k \<in> set (?ks c) \<longleftrightarrow> k \<in> set (?ks b)" for k
    using assms(3) [of k] by (simp only: snapshot_keys cong: conj_cong)
  then have "set (?ks c) = set (?ks b)" by (rule set_eqI)
  then have "mset (?ks c) = mset (?ks b)"
    using snapshot_key_distinct [OF assms(1)] snapshot_key_distinct [OF assms(2)]
    by (simp only: set_eq_iff_mset_eq_distinct)
  then have "sort_cmp compareKey (?ks c) = sort_cmp compareKey (?ks b)"
    using snapshot_key_distinct [OF assms(1)] by (intro key_order.sort_permutation) simp_all
  moreover have "map (\<lambda>k. the (resource_at c k)) (sort_cmp compareKey (?ks b)) =
      map (\<lambda>k. the (resource_at b k)) (sort_cmp compareKey (?ks b))"
    using assms(3) by (intro map_cong) auto
  ultimately show ?thesis using assms(4) by (simp add: Memory_Snapshot_def)
qed

section \<open>Properties\<close>

definition ex_key :: "string \<Rightarrow> Key" where
  "ex_key name = \<lparr>key_Scope = ''tenant'', key_Kind = ''kind'', key_ID = name\<rparr>"

definition ex_operation :: "string \<Rightarrow> Operation" where
  "ex_operation name = \<lparr>op_Scope = ''tenant'', op_ID = name, op_Kind = ''put'', op_Digest = replicate 32 1, op_At = 5\<rparr>"

definition ex_create :: "string \<Rightarrow> nat Mutation" where
  "ex_create name = \<lparr>mut_Key = ex_key name, mut_ExpectedVersion = 0, mut_Payload = Some 7, mut_Delete = False\<rparr>"

definition ex_store :: "nat MemoryBackend" where
  "ex_store = committed (ex_operation ''one'') [ex_create ''x''] NewMemoryBackend"

lemma ex_store:
  "effective (ex_operation ''one'') [ex_create ''x''] NewMemoryBackend" "mem_inv ex_store"
  "effective (ex_operation ''two'') [ex_create ''z'', ex_create ''y''] ex_store"
proof -
  show eff: "effective (ex_operation ''one'') [ex_create ''x''] NewMemoryBackend" by code_simp
  then show "mem_inv ex_store" unfolding ex_store_def by (intro committed_inv) simp_all
  show "effective (ex_operation ''two'') [ex_create ''z'', ex_create ''y''] ex_store" by code_simp
qed

text \<open>
  C22. A commit is atomic. When it is refused, or answers the receipt of an earlier commit, nothing
  changes. Otherwise every mutation found the version it expected, every mutated resource has the new
  content under the new version, and no other resource changed.
\<close>
theorem Memory_Commit_atomic:
  assumes "Memory_Commit op ms b = (answer, c)" "mem_inv b"
  shows "case answer of
      Inl e \<Rightarrow> c = b
    | Inr r \<Rightarrow> if cr_Replayed r then c = b
        else cr_Version r = mem_version b + 1 \<and>
          (\<forall>m\<in>set ms. actual_version b (mut_Key m) = mut_ExpectedVersion m \<and>
             resource_at c (mut_Key m) = Some (written (cr_Version r) m)) \<and>
          (\<forall>k. k \<notin> mut_Key ` set ms \<longrightarrow> resource_at c k = resource_at b k)"
proof (cases rule: Memory_Commit_cases [of op ms b])
  case effective
  moreover from effective(1) have "distinct (map mut_Key ms)" by (simp add: effective_def valid_transaction_def)
  ultimately show ?thesis
    using assms(1) by (auto simp: committed_resource_mem committed_resource_other effective_def)
qed (use assms in auto)

theorem Memory_Commit_atomic_witness:
  "\<exists>answer c. Memory_Commit (ex_operation ''two'') [ex_create ''z'', ex_create ''y''] ex_store = (Inr answer, c) \<and>
     \<not> cr_Replayed answer \<and> resource_at c (ex_key ''y'') = Some (written (cr_Version answer) (ex_create ''y'')) \<and>
     resource_at c (ex_key ''x'') = resource_at ex_store (ex_key ''x'')"
proof -
  let ?ms = "[ex_create ''z'', ex_create ''y'']" and ?c = "committed (ex_operation ''two'') [ex_create ''z'', ex_create ''y''] ex_store"
  note commit = Memory_Commit_effective [OF ex_store(3)]
  have "ex_key ''x'' \<notin> mut_Key ` set ?ms" "mut_Key (ex_create ''y'') = ex_key ''y''" by code_simp+
  with Memory_Commit_atomic [OF commit ex_store(2)] commit show ?thesis by auto
qed

text \<open>
  C23. Tenants are isolated: a commit under one scope changes neither the snapshot nor the audit log
  nor the receipts that another scope can see.
\<close>
theorem Memory_scope_isolation:
  assumes "mem_inv b" "op_Scope op \<noteq> scope"
  shows "Memory_Snapshot scope (snd (Memory_Commit op ms b)) = Memory_Snapshot scope b \<and>
    Memory_Audit scope after limit (snd (Memory_Commit op ms b)) = Memory_Audit scope after limit b \<and>
    Memory_Replay (op'\<lparr>op_Scope := scope\<rparr>) (snd (Memory_Commit op ms b)) = Memory_Replay (op'\<lparr>op_Scope := scope\<rparr>) b"
proof (cases "effective op ms b")
  case True
  then have "\<forall>m\<in>set ms. valid_mutation (op_Scope op) m" by (simp add: effective_def valid_transaction_def)
  then have "resource_at (committed op ms b) k = resource_at b k" if "key_Scope k = scope" for k
    using that assms(2) by (intro committed_resource_other) (auto simp: valid_mutation_def)
  then have "Memory_Snapshot scope (committed op ms b) = Memory_Snapshot scope b"
    using assms True by (intro Memory_Snapshot_cong) (simp_all add: committed_inv)
  moreover have "Memory_Audit scope after limit (committed op ms b) = Memory_Audit scope after limit b"
    using assms(2) by (simp add: Memory_Audit_def committed_def Let_def)
  moreover have "Memory_Replay (op'\<lparr>op_Scope := scope\<rparr>) (committed op ms b) = Memory_Replay (op'\<lparr>op_Scope := scope\<rparr>) b"
    using assms(2) by (simp add: Memory_Replay_def split: option.splits)
  ultimately show ?thesis using True by (simp add: Memory_Commit_state)
qed (simp add: Memory_Commit_state)

theorem Memory_scope_isolation_witness:
  "Memory_Snapshot ''other'' (snd (Memory_Commit (ex_operation ''two'') [ex_create ''y''] ex_store)) =
   Memory_Snapshot ''other'' ex_store"
  using Memory_scope_isolation [of ex_store "ex_operation ''two''" "''other''" "[ex_create ''y'']" 0 1 "ex_operation ''two''"]
    ex_store(2) by (simp add: ex_operation_def)

text \<open>
  A retry is answered from the receipt. After a commit took effect, and after any further
  commits, the same operation identity with the same digest answers the version of the original
  commit and changes nothing, whatever the resources are by then; with another digest it is refused.
\<close>
theorem Memory_retry:
  assumes "mem_inv b" "Memory_Commit op ms b = (Inr r, c)" "later = fold (\<lambda>(op, ms) b. snd (Memory_Commit op ms b)) calls c"
    and retry: "op_Scope retry = op_Scope op" "op_ID retry = op_ID op" "valid_transaction retry ms'"
  shows "(if op_Digest retry = op_Digest op
      then Memory_Replay retry later = Inr (Some (r\<lparr>cr_Replayed := True\<rparr>)) \<and>
        Memory_Commit retry ms' later = (Inr (r\<lparr>cr_Replayed := True\<rparr>), later)
      else Memory_Replay retry later = Inl (ErrFailure FailureIdempotencyConflict) \<and>
        Memory_Commit retry ms' later = (Inl (ErrFailure FailureIdempotencyConflict), later))"
proof -
  have "\<exists>rcp. receipt_of c op = Some rcp \<and> rcp_digest rcp = op_Digest op \<and>
      (rcp_result rcp)\<lparr>cr_Replayed := True\<rparr> = r\<lparr>cr_Replayed := True\<rparr> \<and> mem_inv c"
    using assms(1,2) by (cases rule: Memory_Commit_cases [of op ms b]) (auto simp: committed_inv)
  then obtain rcp where rcp: "receipt_of c op = Some rcp" "rcp_digest rcp = op_Digest op"
    "(rcp_result rcp)\<lparr>cr_Replayed := True\<rparr> = r\<lparr>cr_Replayed := True\<rparr>" "mem_inv c" by blast
  have "mem_evolves c later" unfolding assms(3) by (rule memory.runs_evolve [OF rcp(4)])
  with rcp(1) have "receipt_of later retry = Some rcp"
    using retry(1,2) by (auto simp: mem_evolves_def map_le_def dom_def)
  moreover have "ValidateOperation retry = None" using retry(3) by (simp add: valid_transaction_def)
  ultimately show ?thesis using rcp(2,3) by (simp add: Memory_Commit_replay [OF retry(3)] Memory_Replay_def)
qed

theorem Memory_retry_witness:
  "Memory_Replay (ex_operation ''one'') (snd (Memory_Commit (ex_operation ''two'') [ex_create ''y''] ex_store)) =
   Inr (Some \<lparr>cr_Version = 1, cr_Replayed = True\<rparr>)"
proof -
  have "valid_transaction (ex_operation ''one'') [ex_create ''x'']" using ex_store(1) by (simp add: effective_def)
  with Memory_retry [OF NewMemoryBackend_inv Memory_Commit_effective [OF ex_store(1)],
      where calls = "[(ex_operation ''two'', [ex_create ''y''])]" and retry = "ex_operation ''one''" and ms' = "[ex_create ''x'']"]
  show ?thesis by (simp add: ex_store_def NewMemoryBackend_def)
qed

definition audit_after :: "string \<Rightarrow> Version \<Rightarrow> 'p MemoryBackend \<Rightarrow> AuditRecord list" where
  "audit_after scope after b =
     map sar_record (filter (\<lambda>scoped. sar_scope scoped = scope \<and> after < ar_Version (sar_record scoped)) (mem_audit b))"

lemma filter_sorted_split:
  fixes f :: "'a \<Rightarrow> nat"
  assumes "sorted_wrt (<) (map f xs)" "n < length (filter P xs)"
  shows "drop (Suc n) (filter P xs) = filter (\<lambda>x. P x \<and> f (filter P xs ! n) < f x) xs"
proof -
  let ?ys = "filter P xs"
  have srt: "sorted_wrt (\<lambda>x y. f x < f y) ?ys" using assms(1) by (simp add: sorted_wrt_map sorted_wrt_filter)
  have "filter (\<lambda>x. f (?ys ! n) < f x) ?ys = filter (\<lambda>x. f (?ys ! n) < f x) (take (Suc n) ?ys @ drop (Suc n) ?ys)" by simp
  also have "\<dots> = drop (Suc n) ?ys"
  proof -
    have "\<not> f (?ys ! n) < f x" if "x \<in> set (take (Suc n) ?ys)" for x
    proof -
      from that obtain i where "i < Suc n" "i < length ?ys" "x = ?ys ! i" by (auto simp: in_set_conv_nth)
      then show ?thesis using sorted_wrt_nth_less [OF srt, of i n] assms(2)
        by (cases "i = n") (simp_all add: less_Suc_eq not_less)
    qed
    moreover have "f (?ys ! n) < f x" if "x \<in> set (drop (Suc n) ?ys)" for x
    proof -
      from that obtain i where "i < length ?ys - Suc n" "x = ?ys ! (Suc n + i)" by (auto simp: in_set_conv_nth)
      then show ?thesis using sorted_wrt_nth_less [OF srt, of n "Suc n + i"] by simp
    qed
    ultimately have "\<forall>x\<in>set (take (Suc n) ?ys). \<not> f (?ys ! n) < f x" "\<forall>x\<in>set (drop (Suc n) ?ys). f (?ys ! n) < f x"
      by blast+
    then show ?thesis by (simp only: filter_append filter_False filter_True append_Nil)
  qed
  finally show ?thesis by (simp add: conj_commute)
qed

text \<open>
  Paging through the audit log neither skips nor repeats a record: a page is a prefix of the
  records of the scope after the cursor, the records after its last version are exactly the rest, and
  an empty page means that none is left.
\<close>
theorem Memory_Audit_pages:
  assumes "mem_inv b" "Memory_Audit scope after limit b = Inr page"
  shows "if page = [] then audit_after scope after b = []
    else audit_after scope after b = page @ audit_after scope (ar_Version (last page)) b"
proof -
  let ?P = "\<lambda>scoped. sar_scope scoped = scope \<and> after < ar_Version (sar_record scoped)"
  let ?f = "\<lambda>scoped. ar_Version (sar_record scoped)" and ?n = "nat limit"
  let ?ys = "filter ?P (mem_audit b)"
  have page: "page = map sar_record (take ?n ?ys)" "0 < ?n"
    using assms(2) by (auto simp: Memory_Audit_def not_le take_map split: if_splits)
  show ?thesis
  proof (cases "?ys = []")
    case True
    then show ?thesis by (simp add: page audit_after_def)
  next
    case False
    define m where "m = min ?n (length ?ys) - 1"
    have m: "Suc m = min ?n (length ?ys)" "m < length ?ys"
    proof -
      have "0 < length ?ys" using False by blast
      with page(2) show "Suc m = min ?n (length ?ys)" "m < length ?ys" unfolding m_def by linarith+
    qed
    then have take: "take ?n ?ys = take (Suc m) ?ys" "drop ?n ?ys = drop (Suc m) ?ys" by (auto simp: min_def split: if_splits)
    have last: "last page = sar_record (?ys ! m)"
      by (simp add: page(1) take(1) take_Suc_conv_app_nth [OF m(2)])
    have "sorted_wrt (<) (map ?f (mem_audit b))" using assms(1) by (simp add: mem_inv_def del: upt_Suc)
    from filter_sorted_split [OF this m(2)]
    have "drop (Suc m) ?ys = filter (\<lambda>x. ?P x \<and> ?f (?ys ! m) < ?f x) (mem_audit b)" .
    also have "\<dots> = filter (\<lambda>x. sar_scope x = scope \<and> ?f (?ys ! m) < ?f x) (mem_audit b)"
      using nth_mem [OF m(2)] by (intro filter_cong) auto
    finally have "audit_after scope (ar_Version (last page)) b = map sar_record (drop ?n ?ys)"
      by (simp add: audit_after_def last take)
    then have "page @ audit_after scope (ar_Version (last page)) b = audit_after scope after b"
      by (simp add: page(1) audit_after_def flip: map_append)
    moreover have "page \<noteq> []" using False page by simp
    ultimately show ?thesis by simp
  qed
qed

theorem Memory_Audit_pages_witness:
  "\<exists>page. Memory_Audit ''tenant'' 0 1 ex_store = Inr page \<and> page \<noteq> [] \<and>
     audit_after ''tenant'' 0 ex_store = page @ audit_after ''tenant'' (ar_Version (last page)) ex_store"
proof -
  obtain page where page: "Memory_Audit ''tenant'' 0 1 ex_store = Inr page"
    by (auto simp: Memory_Audit_def maxAuditLimit_def)
  moreover have "\<not> isl (Memory_Audit ''tenant'' 0 1 ex_store)" "projr (Memory_Audit ''tenant'' 0 1 ex_store) \<noteq> []" by code_simp+
  ultimately have "page \<noteq> []" by simp
  with Memory_Audit_pages [OF ex_store(2) page] page show ?thesis by simp
qed

end
