(* ===== verification/Service_Codec.thy ===== *)
theory Service_Codec
  imports Json Repository Validate Fingerprint
begin

text \<open>
  The stored form of the service's resources: the \<open>persisted\<dots>\<close> structs and the functions
  \<open>encode\<dots>\<close> and \<open>decode\<dots>\<close> of \<open>src/internal/service\<close>. Where a persisted struct has the fields of
  its domain struct, and Go converts one into the other, the two are one type here. A
  \<open>json.RawMessage\<close> inside a struct is the value of the struct whose document it holds.

  Each section ends with the round trip of its pair: what is decoded is what was encoded, provided
  the strings are valid UTF-8.
\<close>

section \<open>Resources\<close>

definition ResourcePolicy :: string where "ResourcePolicy = ''policy''"
definition ResourceMatchTicket :: string where "ResourceMatchTicket = ''match_ticket''"
definition ResourceBackfillTicket :: string where "ResourceBackfillTicket = ''backfill_ticket''"
definition ResourcePlanningSnapshot :: string where "ResourcePlanningSnapshot = ''planning_snapshot''"
definition ResourcePlanningRun :: string where "ResourcePlanningRun = ''planning_run''"
definition ResourceProposal :: string where "ResourceProposal = ''proposal''"
definition ResourcePlanningUnmatched :: string where "ResourcePlanningUnmatched = ''planning_unmatched''"
definition ResourceReservation :: string where "ResourceReservation = ''reservation''"
definition ResourceAssignment :: string where "ResourceAssignment = ''assignment''"
definition ResourceAcknowledgment :: string where "ResourceAcknowledgment = ''assignment_acknowledgment''"
definition ResourceOperationResult :: string where "ResourceOperationResult = ''operation_result''"
definition ResourceDemandIdentity :: string where "ResourceDemandIdentity = ''demand_identity''"
definition ResourceBackfillSessionClaim :: string where "ResourceBackfillSessionClaim = ''backfill_session_claim''"
definition ResourceDemandReservation :: string where "ResourceDemandReservation = ''demand_reservation_claim''"
definition ResourceLegacyImport :: string where "ResourceLegacyImport = ''legacy_import''"

lemmas resource_kinds =
  ResourcePolicy_def ResourceMatchTicket_def ResourceBackfillTicket_def ResourcePlanningSnapshot_def
  ResourcePlanningRun_def ResourceProposal_def ResourcePlanningUnmatched_def ResourceReservation_def
  ResourceAssignment_def ResourceAcknowledgment_def ResourceOperationResult_def ResourceDemandIdentity_def
  ResourceBackfillSessionClaim_def ResourceDemandReservation_def ResourceLegacyImport_def

definition ResourceKind_Valid :: "string \<Rightarrow> bool" where
  "ResourceKind_Valid kind \<longleftrightarrow> kind \<in> set
     [ResourcePolicy, ResourceMatchTicket, ResourceBackfillTicket, ResourcePlanningSnapshot, ResourcePlanningRun,
      ResourceProposal, ResourcePlanningUnmatched, ResourceReservation, ResourceAssignment, ResourceAcknowledgment,
      ResourceOperationResult, ResourceDemandIdentity, ResourceBackfillSessionClaim, ResourceDemandReservation,
      ResourceLegacyImport]"

definition service_Key :: "string \<Rightarrow> string \<Rightarrow> string \<Rightarrow> Key" where
  "service_Key scope kind ident = \<lparr>key_Scope = scope, key_Kind = kind, key_ID = ident\<rparr>"

lemma service_Key_inject [simp]: "service_Key s k i = service_Key s' k' i' \<longleftrightarrow> s = s' \<and> k = k' \<and> i = i'"
  by (simp add: service_Key_def)

lemma service_Key_sel [simp]:
  "key_Scope (service_Key s k i) = s" "key_Kind (service_Key s k i) = k" "key_ID (service_Key s k i) = i"
  by (simp_all add: service_Key_def)

section \<open>Persisted structs\<close>

record demandIdentityClaim =
  dic_Schema :: string
  dic_Kind :: string
  dic_ID :: string

record backfillSessionClaim =
  bsc_Schema :: string
  bsc_SessionID :: SessionID
  bsc_TicketID :: TicketID

type_synonym persistedPlayer = Player

record persistedMatchTicket =
  pmt_Schema :: string
  pmt_ID :: TicketID
  pmt_Revision :: Revision
  pmt_EnqueuedAt :: Time
  pmt_Players :: "persistedPlayer list"

type_synonym persistedRoleCount = RoleCount
type_synonym persistedRosterTeamSummary = RosterTeamSummary

record persistedBackfillTicket =
  pbt_Schema :: string
  pbt_ID :: TicketID
  pbt_Revision :: Revision
  pbt_SessionID :: SessionID
  pbt_RosterVersion :: Revision
  pbt_OpenSlotsByTeam :: "int list"
  pbt_ExistingTeams :: "persistedRosterTeamSummary list"
  pbt_EnqueuedAt :: Time

type_synonym persistedRoleRequirement = RoleRequirement

record persistedRelaxationStep =
  prs_AfterWaitNanos :: int
  prs_MaxTeamSkillGap :: int
  prs_MaxRolePenalty :: int
  prs_PrioritizeWait :: bool

record persistedPolicy =
  pp_Schema :: string
  pp_Fingerprint :: PolicyFingerprint
  pp_Version :: string
  pp_TeamCount :: int
  pp_TeamSize :: int
  pp_MaxLatencyMillis :: int
  pp_MaxProposals :: int
  pp_MaxSearchNodes :: int
  pp_MaxCandidateTickets :: int
  pp_MaxCandidatesPerProposal :: int
  pp_MaxBatchCandidates :: int
  pp_MaxBatchSearchNodes :: int
  pp_RoleRequirements :: "persistedRoleRequirement list"
  pp_RelaxationSteps :: "persistedRelaxationStep list"

type_synonym persistedTicketRef = TicketRef
type_synonym persistedBackfillTarget = BackfillTarget
type_synonym persistedTeamAssignment = TeamAssignment
type_synonym persistedScoreEvidence = ScoreEvidence
type_synonym persistedBatchScoreEvidence = BatchScoreEvidence
type_synonym persistedMatchProposal = MatchProposal
type_synonym persistedUnmatchedTicket = UnmatchedTicket

record persistedReservation =
  pr_Schema :: string
  pr_ID :: ReservationID
  pr_ProposalID :: ProposalID
  pr_Tickets :: "persistedTicketRef list"
  pr_Backfill :: "persistedBackfillTarget option"
  pr_ExpiresAt :: Time
  pr_Status :: ReservationStatus

record persistedReservationClaim =
  prc_Schema :: string
  prc_ReservationID :: ReservationID
  prc_ProposalID :: ProposalID
  prc_Ticket :: persistedTicketRef
  prc_Kind :: ProposalKind

record persistedAcknowledgment =
  pak_OperationID :: OperationID
  pak_Outcome :: AssignmentStatus
  pak_SessionID :: SessionID
  pak_ExpectedRosterVersion :: Revision
  pak_ResultingRosterVersion :: Revision
  pak_FailureCode :: FailureCode
  pak_Reason :: string
  pak_AcknowledgedAt :: Time

record persistedAssignment =
  pas_Schema :: string
  pas_ID :: AssignmentID
  pas_ReservationID :: ReservationID
  pas_ProposalID :: ProposalID
  pas_Kind :: ProposalKind
  pas_Teams :: "persistedTeamAssignment list"
  pas_Backfill :: "persistedBackfillTarget option"
  pas_ConfirmedAt :: Time
  pas_Status :: AssignmentStatus
  pas_Acknowledgment :: "persistedAcknowledgment option"

record persistedAcknowledgmentResource =
  par_Schema :: string
  par_AssignmentID :: AssignmentID
  par_Acknowledgment :: persistedAcknowledgment

record reservationCommandResult =
  rcr_Reservation :: persistedReservation
  rcr_ResourceVersion :: Version

record assignmentCommandResult =
  acr_Assignment :: persistedAssignment
  acr_ResourceVersion :: Version

datatype command_result = ReservationResult reservationCommandResult | AssignmentResult assignmentCommandResult

record persistedOperationResult =
  por_Schema :: string
  por_Kind :: string
  por_Payload :: command_result

datatype PlanningRunStatus = PlanningRunPlanning | PlanningRunCompleted

record persistedPlanningSnapshot =
  pps_Schema :: string
  pps_RepositoryVersion :: Version
  pps_ID :: SnapshotID
  pps_Now :: Time
  pps_Policy :: persistedPolicy
  pps_MatchTickets :: "persistedMatchTicket list"
  pps_BackfillTickets :: "persistedBackfillTicket list"

record persistedPlanningRun =
  ppr_Schema :: string
  ppr_ID :: string
  ppr_SnapshotID :: SnapshotID
  ppr_PolicyVersion :: string
  ppr_PolicyFingerprint :: PolicyFingerprint
  ppr_SourceRepositoryVersion :: Version
  ppr_CapturedAt :: Time
  ppr_CompletedAt :: "Time option"
  ppr_Status :: PlanningRunStatus
  ppr_ProposalCount :: int
  ppr_UnmatchedCount :: int
  ppr_BudgetExhausted :: bool
  ppr_Evidence :: persistedBatchScoreEvidence

record persistedProposalResource =
  ppo_Schema :: string
  ppo_RunID :: string
  ppo_Proposal :: persistedMatchProposal

record persistedUnmatchedResource =
  pur_Schema :: string
  pur_RunID :: string
  pur_Unmatched :: persistedUnmatchedTicket

text \<open>
  The documents that the service stores. The strict decoder of one struct refuses the document of
  every other: it has a field that the struct lacks, or its schema is another.
\<close>

datatype document =
    DocDemandIdentity demandIdentityClaim
  | DocBackfillSession backfillSessionClaim
  | DocMatchTicket persistedMatchTicket
  | DocBackfillTicket persistedBackfillTicket
  | DocPolicy persistedPolicy
  | DocReservation persistedReservation
  | DocReservationClaim persistedReservationClaim
  | DocAssignment persistedAssignment
  | DocAcknowledgment persistedAcknowledgmentResource
  | DocOperationResult persistedOperationResult
  | DocPlanningSnapshot persistedPlanningSnapshot
  | DocPlanningRun persistedPlanningRun
  | DocProposal persistedProposalResource
  | DocUnmatched persistedUnmatchedResource

type_synonym payload = "document option"

section \<open>Claims\<close>

definition demandIdentityClaimSchema :: string where
  "demandIdentityClaimSchema = ''sema.demand-identity-claim.v1''"

definition backfillSessionClaimSchema :: string where
  "backfillSessionClaimSchema = ''sema.backfill-session-claim.v1''"

definition encodeDemandIdentityClaim :: "string \<Rightarrow> string \<Rightarrow> go_err + document" where
  "encodeDemandIdentityClaim kind ident =
     Inr (DocDemandIdentity \<lparr>dic_Schema = demandIdentityClaimSchema, dic_Kind = kind, dic_ID = json_string ident\<rparr>)"

definition decodeDemandIdentityClaim :: "payload \<Rightarrow> go_err + demandIdentityClaim" where
  "decodeDemandIdentityClaim payload =
     (case payload of
        Some (DocDemandIdentity claim) \<Rightarrow>
          if dic_Schema claim \<noteq> demandIdentityClaimSchema \<or> \<not> ResourceKind_Valid (dic_Kind claim) \<or> dic_ID claim = ''''
          then Inl ErrOther else Inr claim
      | _ \<Rightarrow> Inl ErrOther)"

definition encodeBackfillSessionClaim :: "BackfillTicket \<Rightarrow> go_err + document" where
  "encodeBackfillSessionClaim ticket =
     Inr (DocBackfillSession \<lparr>bsc_Schema = backfillSessionClaimSchema, bsc_SessionID = json_string (bt_SessionID ticket),
            bsc_TicketID = json_string (bt_ID ticket)\<rparr>)"

definition decodeBackfillSessionClaim :: "payload \<Rightarrow> go_err + backfillSessionClaim" where
  "decodeBackfillSessionClaim payload =
     (case payload of
        Some (DocBackfillSession claim) \<Rightarrow>
          if bsc_Schema claim \<noteq> backfillSessionClaimSchema \<or> bsc_SessionID claim = '''' \<or> bsc_TicketID claim = ''''
          then Inl ErrOther else Inr claim
      | _ \<Rightarrow> Inl ErrOther)"

section \<open>Tickets\<close>

definition matchTicketPayloadSchema :: string where
  "matchTicketPayloadSchema = ''sema.match-ticket.v1''"

definition backfillTicketPayloadSchema :: string where
  "backfillTicketPayloadSchema = ''sema.backfill-ticket.v1''"

definition json_player :: "Player \<Rightarrow> Player" where
  "json_player p = p\<lparr>player_ID := json_string (player_ID p), player_Role := json_string (player_Role p)\<rparr>"

definition encodeMatchTicket :: "MatchTicket \<Rightarrow> go_err + document" where
  "encodeMatchTicket ticket =
     (if json_time (mt_EnqueuedAt ticket)
      then Inr (DocMatchTicket \<lparr>pmt_Schema = matchTicketPayloadSchema, pmt_ID = json_string (mt_ID ticket),
             pmt_Revision = mt_Revision ticket, pmt_EnqueuedAt = mt_EnqueuedAt ticket,
             pmt_Players = map json_player (mt_Players ticket)\<rparr>)
      else Inl ErrOther)"

definition stored_match_ticket :: "persistedMatchTicket \<Rightarrow> MatchTicket" where
  "stored_match_ticket stored =
     \<lparr>mt_ID = pmt_ID stored, mt_Revision = pmt_Revision stored, mt_EnqueuedAt = pmt_EnqueuedAt stored,
      mt_Players = pmt_Players stored\<rparr>"

definition decodeMatchTicket :: "payload \<Rightarrow> go_err + MatchTicket" where
  "decodeMatchTicket payload =
     (case payload of
        Some (DocMatchTicket stored) \<Rightarrow>
          if pmt_Schema stored \<noteq> matchTicketPayloadSchema then Inl ErrOther
          else (case ValidateMatchTicket (stored_match_ticket stored) of
                  Some e \<Rightarrow> Inl (ErrFailure e)
                | None \<Rightarrow> Inr (stored_match_ticket stored))
      | _ \<Rightarrow> Inl ErrOther)"

definition json_team_summary :: "RosterTeamSummary \<Rightarrow> RosterTeamSummary" where
  "json_team_summary team =
     team\<lparr>rts_RoleCounts := map (\<lambda>role. role\<lparr>rc_Role := json_string (rc_Role role)\<rparr>) (rts_RoleCounts team)\<rparr>"

definition toPersistedBackfillTicket :: "BackfillTicket \<Rightarrow> persistedBackfillTicket" where
  "toPersistedBackfillTicket ticket =
     \<lparr>pbt_Schema = backfillTicketPayloadSchema, pbt_ID = bt_ID ticket, pbt_Revision = bt_Revision ticket,
      pbt_SessionID = bt_SessionID ticket, pbt_RosterVersion = bt_RosterVersion ticket,
      pbt_OpenSlotsByTeam = bt_OpenSlotsByTeam ticket, pbt_ExistingTeams = bt_ExistingTeams ticket,
      pbt_EnqueuedAt = bt_EnqueuedAt ticket\<rparr>"

definition fromPersistedBackfillTicket :: "persistedBackfillTicket \<Rightarrow> BackfillTicket" where
  "fromPersistedBackfillTicket stored =
     \<lparr>bt_ID = pbt_ID stored, bt_Revision = pbt_Revision stored, bt_SessionID = pbt_SessionID stored,
      bt_RosterVersion = pbt_RosterVersion stored, bt_OpenSlotsByTeam = pbt_OpenSlotsByTeam stored,
      bt_ExistingTeams = pbt_ExistingTeams stored, bt_EnqueuedAt = pbt_EnqueuedAt stored\<rparr>"

definition encodeBackfillTicket :: "BackfillTicket \<Rightarrow> go_err + document" where
  "encodeBackfillTicket ticket =
     (let stored = toPersistedBackfillTicket ticket
      in if json_time (pbt_EnqueuedAt stored)
         then Inr (DocBackfillTicket (stored\<lparr>pbt_ID := json_string (pbt_ID stored),
                pbt_SessionID := json_string (pbt_SessionID stored),
                pbt_ExistingTeams := map json_team_summary (pbt_ExistingTeams stored)\<rparr>))
         else Inl ErrOther)"

definition decodeBackfillTicket :: "payload \<Rightarrow> go_err + BackfillTicket" where
  "decodeBackfillTicket payload =
     (case payload of
        Some (DocBackfillTicket stored) \<Rightarrow>
          if pbt_Schema stored \<noteq> backfillTicketPayloadSchema then Inl ErrOther
          else (case ValidateBackfillTicket (fromPersistedBackfillTicket stored) of
                  Some e \<Rightarrow> Inl (ErrFailure e)
                | None \<Rightarrow> Inr (fromPersistedBackfillTicket stored))
      | _ \<Rightarrow> Inl ErrOther)"

section \<open>Policies\<close>

definition policyPayloadSchema :: string where
  "policyPayloadSchema = ''sema.policy.v1''"

definition persisted_step :: "RelaxationStep \<Rightarrow> persistedRelaxationStep" where
  "persisted_step step =
     \<lparr>prs_AfterWaitNanos = rs_AfterWait step, prs_MaxTeamSkillGap = rs_MaxTeamSkillGap step,
      prs_MaxRolePenalty = rs_MaxRolePenalty step, prs_PrioritizeWait = rs_PrioritizeWait step\<rparr>"

definition stored_step :: "persistedRelaxationStep \<Rightarrow> RelaxationStep" where
  "stored_step step =
     \<lparr>rs_AfterWait = prs_AfterWaitNanos step, rs_MaxTeamSkillGap = prs_MaxTeamSkillGap step,
      rs_MaxRolePenalty = prs_MaxRolePenalty step, rs_PrioritizeWait = prs_PrioritizeWait step\<rparr>"

definition json_requirement :: "RoleRequirement \<Rightarrow> RoleRequirement" where
  "json_requirement requirement = requirement\<lparr>rr_Role := json_string (rr_Role requirement)\<rparr>"

definition encodePolicy :: "MatchmakingPolicy \<Rightarrow> PolicyFingerprint \<Rightarrow> go_err + document" where
  "encodePolicy policy fingerprint =
     Inr (DocPolicy
       \<lparr>pp_Schema = policyPayloadSchema, pp_Fingerprint = json_string fingerprint, pp_Version = json_string (pol_Version policy),
        pp_TeamCount = pol_TeamCount policy, pp_TeamSize = pol_TeamSize policy,
        pp_MaxLatencyMillis = pol_MaxLatencyMillis policy, pp_MaxProposals = pol_MaxProposals policy,
        pp_MaxSearchNodes = pol_MaxSearchNodes policy, pp_MaxCandidateTickets = pol_MaxCandidateTickets policy,
        pp_MaxCandidatesPerProposal = pol_MaxCandidatesPerProposal policy,
        pp_MaxBatchCandidates = pol_MaxBatchCandidates policy, pp_MaxBatchSearchNodes = pol_MaxBatchSearchNodes policy,
        pp_RoleRequirements = map json_requirement (pol_RoleRequirements policy),
        pp_RelaxationSteps = map persisted_step (pol_RelaxationSteps policy)\<rparr>)"

definition stored_policy :: "persistedPolicy \<Rightarrow> MatchmakingPolicy" where
  "stored_policy stored =
     \<lparr>pol_Version = pp_Version stored, pol_TeamCount = pp_TeamCount stored, pol_TeamSize = pp_TeamSize stored,
      pol_MaxLatencyMillis = pp_MaxLatencyMillis stored, pol_MaxProposals = pp_MaxProposals stored,
      pol_MaxSearchNodes = pp_MaxSearchNodes stored, pol_MaxCandidateTickets = pp_MaxCandidateTickets stored,
      pol_MaxCandidatesPerProposal = pp_MaxCandidatesPerProposal stored,
      pol_MaxBatchCandidates = pp_MaxBatchCandidates stored, pol_MaxBatchSearchNodes = pp_MaxBatchSearchNodes stored,
      pol_RoleRequirements = pp_RoleRequirements stored,
      pol_RelaxationSteps = map stored_step (pp_RelaxationSteps stored)\<rparr>"

definition decodePolicy :: "hash \<Rightarrow> payload \<Rightarrow> go_err + (MatchmakingPolicy \<times> PolicyFingerprint)" where
  "decodePolicy sha256 payload =
     (case payload of
        Some (DocPolicy stored) \<Rightarrow>
          if pp_Schema stored \<noteq> policyPayloadSchema then Inl ErrOther
          else (case FingerprintPolicy sha256 (stored_policy stored) of
                  Inl e \<Rightarrow> Inl (ErrFailure e)
                | Inr fingerprint \<Rightarrow>
                    if pp_Fingerprint stored = '''' \<or> pp_Fingerprint stored \<noteq> fingerprint then Inl ErrOther
                    else Inr (stored_policy stored, fingerprint))
      | _ \<Rightarrow> Inl ErrOther)"

definition canonicalPolicy :: "MatchmakingPolicy \<Rightarrow> MatchmakingPolicy" where
  "canonicalPolicy policy =
     (ClonePolicy policy)\<lparr>pol_RoleRequirements :=
        sort_cmp (\<lambda>left right. go_cmp (rr_Role left) (rr_Role right)) (pol_RoleRequirements (ClonePolicy policy))\<rparr>"

section \<open>References\<close>

definition json_ref :: "TicketRef \<Rightarrow> TicketRef" where
  "json_ref reference = reference\<lparr>ref_ID := json_string (ref_ID reference)\<rparr>"

definition json_target :: "BackfillTarget \<Rightarrow> BackfillTarget" where
  "json_target target =
     target\<lparr>tgt_Ticket := json_ref (tgt_Ticket target), tgt_SessionID := json_string (tgt_SessionID target)\<rparr>"

definition json_team :: "TeamAssignment \<Rightarrow> TeamAssignment" where
  "json_team team = team\<lparr>ta_Tickets := map json_ref (ta_Tickets team)\<rparr>"

fun json_kind :: "ProposalKind \<Rightarrow> ProposalKind" where
  "json_kind (ProposalKindOther s) = ProposalKindOther (json_string s)"
| "json_kind kind = kind"

definition toPersistedTicketRef :: "TicketRef \<Rightarrow> persistedTicketRef" where
  "toPersistedTicketRef reference = \<lparr>ref_ID = ref_ID reference, ref_Revision = ref_Revision reference\<rparr>"

definition fromPersistedTicketRef :: "persistedTicketRef \<Rightarrow> TicketRef" where
  "fromPersistedTicketRef reference = \<lparr>ref_ID = ref_ID reference, ref_Revision = ref_Revision reference\<rparr>"

definition toPersistedTicketRefs :: "TicketRef list \<Rightarrow> persistedTicketRef list" where
  "toPersistedTicketRefs references = map toPersistedTicketRef references"

definition fromPersistedTicketRefs :: "persistedTicketRef list \<Rightarrow> TicketRef list" where
  "fromPersistedTicketRefs references = map fromPersistedTicketRef references"

definition toPersistedBackfillTarget :: "BackfillTarget option \<Rightarrow> persistedBackfillTarget option" where
  "toPersistedBackfillTarget target =
     map_option (\<lambda>t. \<lparr>tgt_Ticket = toPersistedTicketRef (tgt_Ticket t), tgt_SessionID = tgt_SessionID t,
       tgt_RosterVersion = tgt_RosterVersion t\<rparr>) target"

definition fromPersistedBackfillTarget :: "persistedBackfillTarget option \<Rightarrow> BackfillTarget option" where
  "fromPersistedBackfillTarget target =
     map_option (\<lambda>t. \<lparr>tgt_Ticket = fromPersistedTicketRef (tgt_Ticket t), tgt_SessionID = tgt_SessionID t,
       tgt_RosterVersion = tgt_RosterVersion t\<rparr>) target"

lemma persisted_refs [simp]:
  "toPersistedTicketRef r = r" "fromPersistedTicketRef r = r" "toPersistedTicketRefs rs = rs"
  "fromPersistedTicketRefs rs = rs" "toPersistedBackfillTarget t = t" "fromPersistedBackfillTarget t = t"
  by (simp_all add: toPersistedTicketRef_def [abs_def] fromPersistedTicketRef_def [abs_def] toPersistedTicketRefs_def
      fromPersistedTicketRefs_def toPersistedBackfillTarget_def fromPersistedBackfillTarget_def map_idI map_option_case
      split: option.splits)

section \<open>Reservations\<close>

definition reservationPayloadSchema :: string where
  "reservationPayloadSchema = ''sema.reservation.v1''"

definition reservationClaimPayloadSchema :: string where
  "reservationClaimPayloadSchema = ''sema.demand-reservation-claim.v1''"

definition bad_ref :: "TicketRef \<Rightarrow> bool" where
  "bad_ref reference \<longleftrightarrow> ref_ID reference = '''' \<or> ref_Revision reference = 0"

definition bad_target :: "BackfillTarget \<Rightarrow> bool" where
  "bad_target target \<longleftrightarrow> bad_ref (tgt_Ticket target) \<or> tgt_SessionID target = '''' \<or> tgt_RosterVersion target = 0"

text \<open>\<open>validReservationStatus\<close> holds for each of the four values of the type.\<close>

definition toPersistedReservation :: "Reservation \<Rightarrow> go_err + persistedReservation" where
  "toPersistedReservation reservation =
     (if res_ID reservation = '''' \<or> res_ProposalID reservation = '''' \<or> res_Tickets reservation = [] \<or>
         time_IsZero (res_ExpiresAt reservation)
      then Inl (ErrFailure FailureInvalidInput)
      else if list_ex bad_ref (res_Tickets reservation) then Inl (ErrFailure FailureInvalidInput)
      else if \<not> (case res_Backfill reservation of None \<Rightarrow> True | Some target \<Rightarrow> \<not> bad_target target)
      then Inl (ErrFailure FailureInvalidInput)
      else Inr \<lparr>pr_Schema = reservationPayloadSchema, pr_ID = res_ID reservation, pr_ProposalID = res_ProposalID reservation,
             pr_Tickets = toPersistedTicketRefs (res_Tickets reservation),
             pr_Backfill = toPersistedBackfillTarget (res_Backfill reservation),
             pr_ExpiresAt = res_ExpiresAt reservation, pr_Status = res_Status reservation\<rparr>)"

definition fromPersistedReservation :: "persistedReservation \<Rightarrow> go_err + Reservation" where
  "fromPersistedReservation stored =
     (if pr_Schema stored \<noteq> reservationPayloadSchema \<or> pr_ID stored = '''' \<or> pr_ProposalID stored = '''' \<or>
         pr_Tickets stored = [] \<or> time_IsZero (pr_ExpiresAt stored)
      then Inl ErrOther
      else if list_ex bad_ref (pr_Tickets stored) then Inl ErrOther
      else if \<not> (case pr_Backfill stored of None \<Rightarrow> True | Some target \<Rightarrow> \<not> bad_target target) then Inl ErrOther
      else Inr \<lparr>res_ID = pr_ID stored, res_ProposalID = pr_ProposalID stored,
             res_Tickets = fromPersistedTicketRefs (pr_Tickets stored),
             res_Backfill = fromPersistedBackfillTarget (pr_Backfill stored),
             res_ExpiresAt = pr_ExpiresAt stored, res_Status = pr_Status stored\<rparr>)"

definition json_reservation :: "persistedReservation \<Rightarrow> persistedReservation" where
  "json_reservation stored =
     stored\<lparr>pr_ID := json_string (pr_ID stored), pr_ProposalID := json_string (pr_ProposalID stored),
       pr_Tickets := map json_ref (pr_Tickets stored), pr_Backfill := map_option json_target (pr_Backfill stored)\<rparr>"

definition encodeReservation :: "Reservation \<Rightarrow> go_err + document" where
  "encodeReservation reservation =
     (case toPersistedReservation reservation of
        Inl e \<Rightarrow> Inl e
      | Inr stored \<Rightarrow> if json_time (pr_ExpiresAt stored) then Inr (DocReservation (json_reservation stored)) else Inl ErrOther)"

definition decodeReservation :: "payload \<Rightarrow> go_err + Reservation" where
  "decodeReservation payload =
     (case payload of Some (DocReservation stored) \<Rightarrow> fromPersistedReservation stored | _ \<Rightarrow> Inl ErrOther)"

definition encodeReservationClaim :: "Reservation \<Rightarrow> TicketRef \<Rightarrow> ProposalKind \<Rightarrow> go_err + document" where
  "encodeReservationClaim reservation ticket kind =
     Inr (DocReservationClaim
       \<lparr>prc_Schema = reservationClaimPayloadSchema, prc_ReservationID = json_string (res_ID reservation),
        prc_ProposalID = json_string (res_ProposalID reservation), prc_Ticket = json_ref (toPersistedTicketRef ticket),
        prc_Kind = json_kind kind\<rparr>)"

definition decodeReservationClaim :: "payload \<Rightarrow> go_err + persistedReservationClaim" where
  "decodeReservationClaim payload =
     (case payload of
        Some (DocReservationClaim claim) \<Rightarrow>
          if prc_Schema claim \<noteq> reservationClaimPayloadSchema \<or> prc_ReservationID claim = '''' \<or>
             prc_ProposalID claim = '''' \<or> bad_ref (prc_Ticket claim) \<or>
             (prc_Kind claim \<noteq> ProposalNewMatch \<and> prc_Kind claim \<noteq> ProposalBackfill)
          then Inl ErrOther else Inr claim
      | _ \<Rightarrow> Inl ErrOther)"

section \<open>Assignments\<close>

definition assignmentPayloadSchema :: string where
  "assignmentPayloadSchema = ''sema.assignment.v1''"

definition acknowledgmentPayloadSchema :: string where
  "acknowledgmentPayloadSchema = ''sema.assignment-acknowledgment.v1''"

definition validAssignmentStatus :: "AssignmentStatus \<Rightarrow> bool" where
  "validAssignmentStatus status \<longleftrightarrow>
     status = AssignmentPending \<or> status = AssignmentCompleted \<or> status = AssignmentCancelled \<or> status = AssignmentFailed"

definition toPersistedAcknowledgment :: "AssignmentAcknowledgment \<Rightarrow> persistedAcknowledgment" where
  "toPersistedAcknowledgment acknowledgment =
     (let request = ack_Request acknowledgment
      in \<lparr>pak_OperationID = req_OperationID request, pak_Outcome = req_Outcome request, pak_SessionID = req_SessionID request,
          pak_ExpectedRosterVersion = req_ExpectedRosterVersion request,
          pak_ResultingRosterVersion = req_ResultingRosterVersion request, pak_FailureCode = req_FailureCode request,
          pak_Reason = req_Reason request, pak_AcknowledgedAt = ack_AcknowledgedAt acknowledgment\<rparr>)"

definition fromPersistedAcknowledgment :: "persistedAcknowledgment \<Rightarrow> AssignmentAcknowledgment" where
  "fromPersistedAcknowledgment stored =
     \<lparr>ack_Request =
        \<lparr>req_OperationID = pak_OperationID stored, req_Outcome = pak_Outcome stored, req_SessionID = pak_SessionID stored,
         req_ExpectedRosterVersion = pak_ExpectedRosterVersion stored,
         req_ResultingRosterVersion = pak_ResultingRosterVersion stored, req_FailureCode = pak_FailureCode stored,
         req_Reason = pak_Reason stored\<rparr>,
      ack_AcknowledgedAt = pak_AcknowledgedAt stored\<rparr>"

lemma persisted_acknowledgment [simp]: "fromPersistedAcknowledgment (toPersistedAcknowledgment a) = a"
  by (simp add: toPersistedAcknowledgment_def fromPersistedAcknowledgment_def Let_def)

text \<open>The loop over the teams: a team stands at its own index and its references are complete.\<close>

fun bad_teams :: "nat \<Rightarrow> TeamAssignment list \<Rightarrow> bool" where
  "bad_teams index [] = False"
| "bad_teams index (team # rest) =
     (ta_Team team \<noteq> index \<or> list_ex bad_ref (ta_Tickets team) \<or> bad_teams (Suc index) rest)"

definition bad_header :: "AssignmentID \<Rightarrow> ReservationID \<Rightarrow> ProposalID \<Rightarrow> ProposalKind \<Rightarrow> 'a list \<Rightarrow> Time \<Rightarrow> AssignmentStatus \<Rightarrow> bool" where
  "bad_header assignmentID reservationID proposalID kind teams confirmedAt status \<longleftrightarrow>
     assignmentID = '''' \<or> reservationID = '''' \<or> proposalID = '''' \<or>
     (kind \<noteq> ProposalNewMatch \<and> kind \<noteq> ProposalBackfill) \<or> teams = [] \<or> time_IsZero confirmedAt \<or>
     \<not> validAssignmentStatus status"

definition toPersistedAssignment :: "Assignment \<Rightarrow> go_err + persistedAssignment" where
  "toPersistedAssignment assignment =
     (if bad_header (asg_ID assignment) (asg_ReservationID assignment) (asg_ProposalID assignment) (asg_Kind assignment)
           (asg_Teams assignment) (asg_ConfirmedAt assignment) (asg_Status assignment)
      then Inl (ErrFailure FailureInvalidInput)
      else if (asg_Kind assignment = ProposalBackfill) \<noteq> (asg_Backfill assignment \<noteq> None)
      then Inl (ErrFailure FailureInvalidInput)
      else if bad_teams 0 (asg_Teams assignment) then Inl (ErrFailure FailureInvalidInput)
      else (case (case asg_Acknowledgment assignment of
                    None \<Rightarrow> None
                  | Some acknowledgment \<Rightarrow>
                      if time_IsZero (ack_AcknowledgedAt acknowledgment) then Some FailureInvalidInput
                      else ValidateAssignmentAcknowledgment assignment (ack_Request acknowledgment)) of
              Some e \<Rightarrow> Inl (ErrFailure e)
            | None \<Rightarrow>
                let acknowledgment = map_option toPersistedAcknowledgment (asg_Acknowledgment assignment)
                in if (asg_Status assignment = AssignmentPending) \<noteq> (acknowledgment = None)
                   then Inl (ErrFailure FailureInvalidInput)
                   else if acknowledgment \<noteq> None \<and> map_option pak_Outcome acknowledgment \<noteq> Some (asg_Status assignment)
                   then Inl (ErrFailure FailureInvalidInput)
                   else Inr \<lparr>pas_Schema = assignmentPayloadSchema, pas_ID = asg_ID assignment,
                          pas_ReservationID = asg_ReservationID assignment, pas_ProposalID = asg_ProposalID assignment,
                          pas_Kind = asg_Kind assignment, pas_Teams = asg_Teams assignment,
                          pas_Backfill = toPersistedBackfillTarget (asg_Backfill assignment),
                          pas_ConfirmedAt = asg_ConfirmedAt assignment, pas_Status = asg_Status assignment,
                          pas_Acknowledgment = acknowledgment\<rparr>))"

definition fromPersistedAssignment :: "persistedAssignment \<Rightarrow> go_err + Assignment" where
  "fromPersistedAssignment stored =
     (if pas_Schema stored \<noteq> assignmentPayloadSchema \<or>
         bad_header (pas_ID stored) (pas_ReservationID stored) (pas_ProposalID stored) (pas_Kind stored)
           (pas_Teams stored) (pas_ConfirmedAt stored) (pas_Status stored)
      then Inl ErrOther
      else if (pas_Kind stored = ProposalBackfill) \<noteq> (pas_Backfill stored \<noteq> None) then Inl ErrOther
      else if bad_teams 0 (pas_Teams stored) then Inl ErrOther
      else let assignment =
             \<lparr>asg_ID = pas_ID stored, asg_ReservationID = pas_ReservationID stored, asg_ProposalID = pas_ProposalID stored,
              asg_Kind = pas_Kind stored, asg_Teams = pas_Teams stored,
              asg_Backfill = fromPersistedBackfillTarget (pas_Backfill stored), asg_ConfirmedAt = pas_ConfirmedAt stored,
              asg_Status = pas_Status stored,
              asg_Acknowledgment = map_option fromPersistedAcknowledgment (pas_Acknowledgment stored)\<rparr>
           in if (asg_Status assignment = AssignmentPending) \<noteq> (asg_Acknowledgment assignment = None) \<or>
                 (asg_Acknowledgment assignment \<noteq> None \<and>
                  map_option (\<lambda>a. req_Outcome (ack_Request a)) (asg_Acknowledgment assignment) \<noteq> Some (asg_Status assignment))
              then Inl ErrOther
              else (case asg_Acknowledgment assignment of
                      None \<Rightarrow> Inr assignment
                    | Some acknowledgment \<Rightarrow>
                        if time_IsZero (ack_AcknowledgedAt acknowledgment) then Inl ErrOther
                        else (case ValidateAssignmentAcknowledgment assignment (ack_Request acknowledgment) of
                                Some e \<Rightarrow> Inl (ErrFailure e)
                              | None \<Rightarrow> Inr assignment)))"

fun json_code :: "FailureCode \<Rightarrow> FailureCode" where
  "json_code (FailureOther s) = FailureOther (json_string s)"
| "json_code code = code"

fun json_outcome :: "AssignmentStatus \<Rightarrow> AssignmentStatus" where
  "json_outcome (AssignmentStatusOther s) = AssignmentStatusOther (json_string s)"
| "json_outcome status = status"

definition json_acknowledgment :: "persistedAcknowledgment \<Rightarrow> persistedAcknowledgment" where
  "json_acknowledgment stored =
     stored\<lparr>pak_OperationID := json_string (pak_OperationID stored), pak_Outcome := json_outcome (pak_Outcome stored),
       pak_SessionID := json_string (pak_SessionID stored), pak_FailureCode := json_code (pak_FailureCode stored),
       pak_Reason := json_string (pak_Reason stored)\<rparr>"

definition json_assignment :: "persistedAssignment \<Rightarrow> persistedAssignment" where
  "json_assignment stored =
     stored\<lparr>pas_ID := json_string (pas_ID stored), pas_ReservationID := json_string (pas_ReservationID stored),
       pas_ProposalID := json_string (pas_ProposalID stored), pas_Kind := json_kind (pas_Kind stored),
       pas_Teams := map json_team (pas_Teams stored), pas_Backfill := map_option json_target (pas_Backfill stored),
       pas_Acknowledgment := map_option json_acknowledgment (pas_Acknowledgment stored)\<rparr>"

definition json_assignment_times :: "persistedAssignment \<Rightarrow> bool" where
  "json_assignment_times stored \<longleftrightarrow> json_time (pas_ConfirmedAt stored) \<and>
     (case pas_Acknowledgment stored of None \<Rightarrow> True | Some a \<Rightarrow> json_time (pak_AcknowledgedAt a))"

definition encodeAssignment :: "Assignment \<Rightarrow> go_err + document" where
  "encodeAssignment assignment =
     (case toPersistedAssignment assignment of
        Inl e \<Rightarrow> Inl e
      | Inr stored \<Rightarrow> if json_assignment_times stored then Inr (DocAssignment (json_assignment stored)) else Inl ErrOther)"

definition decodeAssignment :: "payload \<Rightarrow> go_err + Assignment" where
  "decodeAssignment payload =
     (case payload of Some (DocAssignment stored) \<Rightarrow> fromPersistedAssignment stored | _ \<Rightarrow> Inl ErrOther)"

definition encodeAcknowledgmentResource :: "Assignment \<Rightarrow> go_err + document" where
  "encodeAcknowledgmentResource assignment =
     (case asg_Acknowledgment assignment of
        None \<Rightarrow> Inl ErrOther
      | Some acknowledgment \<Rightarrow>
          if json_time (ack_AcknowledgedAt acknowledgment)
          then Inr (DocAcknowledgment \<lparr>par_Schema = acknowledgmentPayloadSchema,
                 par_AssignmentID = json_string (asg_ID assignment),
                 par_Acknowledgment = json_acknowledgment (toPersistedAcknowledgment acknowledgment)\<rparr>)
          else Inl ErrOther)"

section \<open>Results of operations\<close>

definition operationResultPayloadSchema :: string where
  "operationResultPayloadSchema = ''sema.operation-result.v1''"

fun json_result :: "command_result \<Rightarrow> command_result" where
  "json_result (ReservationResult r) = ReservationResult (r\<lparr>rcr_Reservation := json_reservation (rcr_Reservation r)\<rparr>)"
| "json_result (AssignmentResult r) = AssignmentResult (r\<lparr>acr_Assignment := json_assignment (acr_Assignment r)\<rparr>)"

fun json_result_times :: "command_result \<Rightarrow> bool" where
  "json_result_times (ReservationResult r) = json_time (pr_ExpiresAt (rcr_Reservation r))"
| "json_result_times (AssignmentResult r) = json_assignment_times (acr_Assignment r)"

definition encodeOperationResult :: "string \<Rightarrow> command_result \<Rightarrow> go_err + document" where
  "encodeOperationResult kind v =
     (if kind = '''' then Inl ErrOther
      else if \<not> json_result_times v then Inl ErrOther
      else Inr (DocOperationResult \<lparr>por_Schema = operationResultPayloadSchema, por_Kind = kind, por_Payload = json_result v\<rparr>))"

definition decodeOperationResult :: "payload \<Rightarrow> string \<Rightarrow> go_err + command_result" where
  "decodeOperationResult payload kind =
     (case payload of
        Some (DocOperationResult stored) \<Rightarrow>
          if por_Schema stored \<noteq> operationResultPayloadSchema \<or> por_Kind stored \<noteq> kind then Inl ErrOther
          else Inr (por_Payload stored)
      | _ \<Rightarrow> Inl ErrOther)"

definition reservationCommandSuffix :: "ReservationStatus \<Rightarrow> string" where
  "reservationCommandSuffix status = (if status = ReservationActive then ''reserve'' else ''cancel'')"

definition encodeReservationCommandResult :: "Reservation \<Rightarrow> Version \<Rightarrow> go_err + document" where
  "encodeReservationCommandResult reservation resourceVersion =
     (case toPersistedReservation reservation of
        Inl e \<Rightarrow> Inl e
      | Inr stored \<Rightarrow> encodeOperationResult (''reservation.'' @ reservationCommandSuffix (res_Status reservation))
          (ReservationResult \<lparr>rcr_Reservation = stored, rcr_ResourceVersion = resourceVersion\<rparr>))"

definition encodeAssignmentCommandResult :: "string \<Rightarrow> Assignment \<Rightarrow> Version \<Rightarrow> go_err + document" where
  "encodeAssignmentCommandResult kind assignment resourceVersion =
     (case toPersistedAssignment assignment of
        Inl e \<Rightarrow> Inl e
      | Inr stored \<Rightarrow> encodeOperationResult kind
          (AssignmentResult \<lparr>acr_Assignment = stored, acr_ResourceVersion = resourceVersion\<rparr>))"

section \<open>Planning\<close>

definition planningSnapshotPayloadSchema :: string where
  "planningSnapshotPayloadSchema = ''sema.planning-snapshot.v1''"

definition planningRunPayloadSchema :: string where
  "planningRunPayloadSchema = ''sema.planning-run.v1''"

definition proposalPayloadSchema :: string where
  "proposalPayloadSchema = ''sema.proposal.v1''"

definition unmatchedPayloadSchema :: string where
  "unmatchedPayloadSchema = ''sema.planning-unmatched.v1''"

record PlanningSnapshot =
  psn_repositoryVersion :: Version
  psn_input :: MatchmakingSnapshot

definition cloneSnapshot :: "MatchmakingSnapshot \<Rightarrow> MatchmakingSnapshot" where
  "cloneSnapshot snapshot =
     snapshot\<lparr>snap_Policy := ClonePolicy (snap_Policy snapshot),
       snap_MatchTickets := map CloneMatchTicket (snap_MatchTickets snapshot),
       snap_BackfillTickets := map CloneBackfillTicket (snap_BackfillTickets snapshot)\<rparr>"

lemma cloneSnapshot_id [simp]: "cloneSnapshot s = s"
  by (simp add: cloneSnapshot_def map_idI)

definition NewPlanningSnapshot :: "Version \<Rightarrow> MatchmakingSnapshot \<Rightarrow> go_err + PlanningSnapshot" where
  "NewPlanningSnapshot version input =
     (if version = 0 then Inl (ErrFailure FailureInvalidInput)
      else (case ValidateSnapshot input of
              Some e \<Rightarrow> Inl (ErrFailure e)
            | None \<Rightarrow> Inr \<lparr>psn_repositoryVersion = version, psn_input = cloneSnapshot input\<rparr>))"

definition MatchmakingInput :: "PlanningSnapshot \<Rightarrow> MatchmakingSnapshot" where
  "MatchmakingInput snapshot = cloneSnapshot (psn_input snapshot)"

fun encode_match_tickets :: "MatchTicket list \<Rightarrow> go_err + persistedMatchTicket list" where
  "encode_match_tickets [] = Inr []"
| "encode_match_tickets (ticket # rest) =
     (case encodeMatchTicket ticket of
        Inr (DocMatchTicket stored) \<Rightarrow> map_sum id (\<lambda>others. stored # others) (encode_match_tickets rest)
      | Inl e \<Rightarrow> Inl e
      | _ \<Rightarrow> Inl ErrOther)"

fun encode_backfill_tickets :: "BackfillTicket list \<Rightarrow> go_err + persistedBackfillTicket list" where
  "encode_backfill_tickets [] = Inr []"
| "encode_backfill_tickets (ticket # rest) =
     (case encodeBackfillTicket ticket of
        Inr (DocBackfillTicket stored) \<Rightarrow> map_sum id (\<lambda>others. stored # others) (encode_backfill_tickets rest)
      | Inl e \<Rightarrow> Inl e
      | _ \<Rightarrow> Inl ErrOther)"

definition encodePlanningSnapshot :: "hash \<Rightarrow> PlanningSnapshot \<Rightarrow> go_err + document" where
  "encodePlanningSnapshot sha256 snapshot =
     (let input = MatchmakingInput snapshot
      in case FingerprintPolicy sha256 (snap_Policy input) of
           Inl e \<Rightarrow> Inl (ErrFailure e)
         | Inr fingerprint \<Rightarrow>
             (case encodePolicy (canonicalPolicy (snap_Policy input)) fingerprint of
                Inr (DocPolicy policyPayload) \<Rightarrow>
                  (case encode_match_tickets (snap_MatchTickets input) of
                     Inl e \<Rightarrow> Inl e
                   | Inr matchTickets \<Rightarrow>
                       (case encode_backfill_tickets (snap_BackfillTickets input) of
                          Inl e \<Rightarrow> Inl e
                        | Inr backfillTickets \<Rightarrow>
                            if json_time (snap_Now input)
                            then Inr (DocPlanningSnapshot
                              \<lparr>pps_Schema = planningSnapshotPayloadSchema, pps_RepositoryVersion = psn_repositoryVersion snapshot,
                               pps_ID = json_string (snap_ID input), pps_Now = snap_Now input, pps_Policy = policyPayload,
                               pps_MatchTickets = matchTickets, pps_BackfillTickets = backfillTickets\<rparr>)
                            else Inl ErrOther))
              | Inl e \<Rightarrow> Inl e
              | _ \<Rightarrow> Inl ErrOther))"

fun decode_all :: "('a \<Rightarrow> go_err + 'b) \<Rightarrow> 'a list \<Rightarrow> go_err + 'b list" where
  "decode_all decode [] = Inr []"
| "decode_all decode (x # xs) =
     (case decode x of Inl e \<Rightarrow> Inl e | Inr y \<Rightarrow> map_sum id (\<lambda>ys. y # ys) (decode_all decode xs))"

definition decodePlanningSnapshot :: "hash \<Rightarrow> payload \<Rightarrow> go_err + PlanningSnapshot" where
  "decodePlanningSnapshot sha256 payload =
     (case payload of
        Some (DocPlanningSnapshot stored) \<Rightarrow>
          if pps_Schema stored \<noteq> planningSnapshotPayloadSchema \<or> pps_RepositoryVersion stored = 0 then Inl ErrOther
          else (case decodePolicy sha256 (Some (DocPolicy (pps_Policy stored))) of
                  Inl e \<Rightarrow> Inl e
                | Inr (policy, _) \<Rightarrow>
                    (case decode_all (\<lambda>ticket. decodeMatchTicket (Some (DocMatchTicket ticket))) (pps_MatchTickets stored) of
                       Inl e \<Rightarrow> Inl e
                     | Inr matchTickets \<Rightarrow>
                         (case decode_all (\<lambda>ticket. decodeBackfillTicket (Some (DocBackfillTicket ticket))) (pps_BackfillTickets stored) of
                            Inl e \<Rightarrow> Inl e
                          | Inr backfillTickets \<Rightarrow>
                              NewPlanningSnapshot (pps_RepositoryVersion stored)
                                \<lparr>snap_ID = pps_ID stored, snap_Now = pps_Now stored, snap_MatchTickets = matchTickets,
                                 snap_BackfillTickets = backfillTickets, snap_Policy = policy\<rparr>)))
      | _ \<Rightarrow> Inl ErrOther)"

record PlanningRunRecord =
  prn_ID :: string
  prn_SnapshotID :: SnapshotID
  prn_PolicyVersion :: string
  prn_PolicyFingerprint :: PolicyFingerprint
  prn_SourceRepositoryVersion :: Version
  prn_CapturedAt :: Time
  prn_CompletedAt :: Time
  prn_Status :: PlanningRunStatus
  prn_ProposalCount :: int
  prn_UnmatchedCount :: int
  prn_BudgetExhausted :: bool
  prn_Evidence :: BatchScoreEvidence
  prn_StorageVersion :: Version

definition validatePlanningRun :: "PlanningRunRecord \<Rightarrow> go_err option" where
  "validatePlanningRun run =
     (if prn_ID run = '''' \<or> prn_SnapshotID run = '''' \<or> prn_PolicyVersion run = '''' \<or> prn_PolicyFingerprint run = '''' \<or>
         prn_SourceRepositoryVersion run = 0 \<or> time_IsZero (prn_CapturedAt run) then Some ErrOther
      else if prn_SnapshotID run \<noteq> prn_ID run then Some ErrOther
      else if prn_ProposalCount run < 0 \<or> prn_UnmatchedCount run < 0 then Some ErrOther
      else (case prn_Status run of
              PlanningRunPlanning \<Rightarrow>
                if \<not> time_IsZero (prn_CompletedAt run) \<or> prn_ProposalCount run \<noteq> 0 \<or> prn_UnmatchedCount run \<noteq> 0
                then Some ErrOther else None
            | PlanningRunCompleted \<Rightarrow>
                if time_IsZero (prn_CompletedAt run) \<or> prn_CompletedAt run < prn_CapturedAt run
                then Some ErrOther else None))"

definition optionalTime :: "Time \<Rightarrow> Time option" where
  "optionalTime t = (if time_IsZero t then None else Some t)"

definition timeValue :: "Time option \<Rightarrow> Time" where
  "timeValue t = (case t of None \<Rightarrow> 0 | Some v \<Rightarrow> v)"

definition encodePlanningRun :: "PlanningRunRecord \<Rightarrow> go_err + document" where
  "encodePlanningRun run =
     (case validatePlanningRun run of
        Some e \<Rightarrow> Inl e
      | None \<Rightarrow>
          if json_time (prn_CapturedAt run) \<and> (case optionalTime (prn_CompletedAt run) of None \<Rightarrow> True | Some t \<Rightarrow> json_time t)
          then Inr (DocPlanningRun
            \<lparr>ppr_Schema = planningRunPayloadSchema, ppr_ID = json_string (prn_ID run),
             ppr_SnapshotID = json_string (prn_SnapshotID run), ppr_PolicyVersion = json_string (prn_PolicyVersion run),
             ppr_PolicyFingerprint = json_string (prn_PolicyFingerprint run),
             ppr_SourceRepositoryVersion = prn_SourceRepositoryVersion run, ppr_CapturedAt = prn_CapturedAt run,
             ppr_CompletedAt = optionalTime (prn_CompletedAt run), ppr_Status = prn_Status run,
             ppr_ProposalCount = prn_ProposalCount run, ppr_UnmatchedCount = prn_UnmatchedCount run,
             ppr_BudgetExhausted = prn_BudgetExhausted run, ppr_Evidence = prn_Evidence run\<rparr>)
          else Inl ErrOther)"

definition decodePlanningRun :: "payload \<Rightarrow> go_err + PlanningRunRecord" where
  "decodePlanningRun payload =
     (case payload of
        Some (DocPlanningRun stored) \<Rightarrow>
          if ppr_Schema stored \<noteq> planningRunPayloadSchema then Inl ErrOther
          else let run =
                 \<lparr>prn_ID = ppr_ID stored, prn_SnapshotID = ppr_SnapshotID stored, prn_PolicyVersion = ppr_PolicyVersion stored,
                  prn_PolicyFingerprint = ppr_PolicyFingerprint stored,
                  prn_SourceRepositoryVersion = ppr_SourceRepositoryVersion stored, prn_CapturedAt = ppr_CapturedAt stored,
                  prn_CompletedAt = timeValue (ppr_CompletedAt stored), prn_Status = ppr_Status stored,
                  prn_ProposalCount = ppr_ProposalCount stored, prn_UnmatchedCount = ppr_UnmatchedCount stored,
                  prn_BudgetExhausted = ppr_BudgetExhausted stored, prn_Evidence = ppr_Evidence stored, prn_StorageVersion = 0\<rparr>
               in (case validatePlanningRun run of Some e \<Rightarrow> Inl e | None \<Rightarrow> Inr run)
      | _ \<Rightarrow> Inl ErrOther)"

record ProposalRecord =
  prp_RunID :: string
  prp_Proposal :: MatchProposal
  prp_StorageVersion :: Version

record UnmatchedRecord =
  umr_RunID :: string
  umr_Unmatched :: UnmatchedTicket
  umr_StorageVersion :: Version

definition toPersistedProposal :: "MatchProposal \<Rightarrow> persistedMatchProposal" where
  "toPersistedProposal proposal =
     proposal\<lparr>prop_Teams := map (\<lambda>team. \<lparr>ta_Team = ta_Team team, ta_Tickets = toPersistedTicketRefs (ta_Tickets team)\<rparr>) (prop_Teams proposal),
       prop_Tickets := toPersistedTicketRefs (prop_Tickets proposal),
       prop_Backfill := toPersistedBackfillTarget (prop_Backfill proposal)\<rparr>"

definition fromPersistedProposal :: "persistedMatchProposal \<Rightarrow> MatchProposal" where
  "fromPersistedProposal proposal =
     proposal\<lparr>prop_Teams := map (\<lambda>team. \<lparr>ta_Team = ta_Team team, ta_Tickets = fromPersistedTicketRefs (ta_Tickets team)\<rparr>) (prop_Teams proposal),
       prop_Tickets := fromPersistedTicketRefs (prop_Tickets proposal),
       prop_Backfill := fromPersistedBackfillTarget (prop_Backfill proposal)\<rparr>"

lemma persisted_proposal [simp]: "toPersistedProposal p = p" "fromPersistedProposal p = p"
  by (simp_all add: toPersistedProposal_def fromPersistedProposal_def map_idI)

definition json_proposal :: "persistedMatchProposal \<Rightarrow> persistedMatchProposal" where
  "json_proposal p =
     p\<lparr>prop_ID := json_string (prop_ID p), prop_Kind := json_kind (prop_Kind p),
       prop_PolicyVersion := json_string (prop_PolicyVersion p),
       prop_PolicyFingerprint := json_string (prop_PolicyFingerprint p), prop_Teams := map json_team (prop_Teams p),
       prop_Tickets := map json_ref (prop_Tickets p), prop_Backfill := map_option json_target (prop_Backfill p)\<rparr>"

definition encodeProposal :: "string \<Rightarrow> MatchProposal \<Rightarrow> go_err + document" where
  "encodeProposal runID proposal =
     (if runID = '''' then Inl (ErrFailure FailureInvalidInput)
      else (case ValidateProposal proposal of
              Some e \<Rightarrow> Inl (ErrFailure e)
            | None \<Rightarrow> Inr (DocProposal \<lparr>ppo_Schema = proposalPayloadSchema, ppo_RunID = json_string runID,
                 ppo_Proposal = json_proposal (toPersistedProposal proposal)\<rparr>)))"

definition decodeProposal :: "payload \<Rightarrow> go_err + ProposalRecord" where
  "decodeProposal payload =
     (case payload of
        Some (DocProposal stored) \<Rightarrow>
          if ppo_Schema stored \<noteq> proposalPayloadSchema \<or> ppo_RunID stored = '''' then Inl ErrOther
          else let proposal = fromPersistedProposal (ppo_Proposal stored)
               in (case ValidateProposal proposal of
                     Some e \<Rightarrow> Inl (ErrFailure e)
                   | None \<Rightarrow> Inr \<lparr>prp_RunID = ppo_RunID stored, prp_Proposal = proposal, prp_StorageVersion = 0\<rparr>)
      | _ \<Rightarrow> Inl ErrOther)"

text \<open>\<open>validUnmatchedReason\<close> holds for each of the six values of the type.\<close>

definition encodeUnmatched :: "string \<Rightarrow> UnmatchedTicket \<Rightarrow> go_err + document" where
  "encodeUnmatched runID unmatched =
     (if runID = '''' \<or> bad_ref (um_Ticket unmatched) then Inl (ErrFailure FailureInvalidInput)
      else Inr (DocUnmatched \<lparr>pur_Schema = unmatchedPayloadSchema, pur_RunID = json_string runID,
             pur_Unmatched = \<lparr>um_Ticket = json_ref (toPersistedTicketRef (um_Ticket unmatched)), um_Reason = um_Reason unmatched\<rparr>\<rparr>))"

definition decodeUnmatched :: "payload \<Rightarrow> go_err + UnmatchedRecord" where
  "decodeUnmatched payload =
     (case payload of
        Some (DocUnmatched stored) \<Rightarrow>
          let unmatched = \<lparr>um_Ticket = fromPersistedTicketRef (um_Ticket (pur_Unmatched stored)), um_Reason = um_Reason (pur_Unmatched stored)\<rparr>
          in if pur_Schema stored \<noteq> unmatchedPayloadSchema \<or> pur_RunID stored = '''' \<or> bad_ref (um_Ticket unmatched)
             then Inl ErrOther
             else Inr \<lparr>umr_RunID = pur_RunID stored, umr_Unmatched = unmatched, umr_StorageVersion = 0\<rparr>
      | _ \<Rightarrow> Inl ErrOther)"

definition unmatchedResourceID :: "hash \<Rightarrow> string \<Rightarrow> TicketID \<Rightarrow> string" where
  "unmatchedResourceID sha256 runID ticketID = hex_EncodeToString (sha256 (string_bytes (runID @ [CHR 0x00] @ ticketID)))"

section \<open>Commands\<close>

text \<open>
  The canonical payload of a command, which \<open>repository.Digest\<close> hashes. The digest function of the
  model is a parameter that stands for SHA-256 of the JSON text of these documents.
\<close>

datatype command =
    CommandPut document
  | CommandMatchTicketCancel TicketID Revision
  | CommandBackfillTicketCancel TicketID Revision Revision
  | CommandReserve ReservationID ProposalID
  | CommandReservationCancel ReservationID
  | CommandReservationExpire ReservationID Time
  | CommandInvalidateStale ReservationID ProposalID
  | CommandConfirm ReservationID AssignmentID
  | CommandAcknowledge AssignmentID AssignmentStatus SessionID Revision Revision FailureCode string
  | CommandPlanningExecute string string
  | CommandPlanningComplete persistedPlanningRun "document list" "document list"

definition encodePlanningCompletionCommand ::
  "PlanningRunRecord \<Rightarrow> document list \<Rightarrow> document list \<Rightarrow> go_err + command" where
  "encodePlanningCompletionCommand run proposals unmatched =
     (case encodePlanningRun (run\<lparr>prn_CompletedAt := prn_CapturedAt run, prn_StorageVersion := 0\<rparr>) of
        Inr (DocPlanningRun runPayload) \<Rightarrow> Inr (CommandPlanningComplete runPayload proposals unmatched)
      | Inl e \<Rightarrow> Inl e
      | _ \<Rightarrow> Inl ErrOther)"

end
