(* ===== verification/Service.thy ===== *)
theory Service
  imports Service_Codec
begin

text \<open>
  What the operations of \<open>src/internal/service\<close> share: the repository interface they are written
  against, the shape of an operation, and the lookups and checks of claims.

  An operation is an action: a function from a state to an error or a value, and the next state. The
  state belongs to the repository, which is an argument, as the Go code takes the interface
  \<open>repository.Repository\<close>: with \<open>memory_repository\<close> the state is the backend of the reference adapter;
  another instance lets other clients act between any two calls. The clock is an argument, one for
  each time an operation reads it.
\<close>

section \<open>Actions\<close>

type_synonym ('s, 'a) action = "'s \<Rightarrow> (go_err + 'a) \<times> 's"

definition act_ok :: "'a \<Rightarrow> ('s, 'a) action" where
  "act_ok x s = (Inr x, s)"

definition act_fail :: "go_err \<Rightarrow> ('s, 'a) action" where
  "act_fail e s = (Inl e, s)"

text \<open>\<open>x, err := m; if err != nil { return err }\<close>, for an action and for a pure step.\<close>

definition act_bind :: "('s, 'a) action \<Rightarrow> ('a \<Rightarrow> ('s, 'b) action) \<Rightarrow> ('s, 'b) action" where
  "act_bind m f s = (case m s of (Inl e, t) \<Rightarrow> (Inl e, t) | (Inr x, t) \<Rightarrow> f x t)"

definition act_let :: "go_err + 'a \<Rightarrow> ('a \<Rightarrow> ('s, 'b) action) \<Rightarrow> ('s, 'b) action" where
  "act_let r f = (case r of Inl e \<Rightarrow> act_fail e | Inr x \<Rightarrow> f x)"

definition act_check :: "go_err option \<Rightarrow> ('s, 'b) action \<Rightarrow> ('s, 'b) action" where
  "act_check r m = (case r of Some e \<Rightarrow> act_fail e | None \<Rightarrow> m)"

text \<open>\<open>x, err := m\<close> where the code goes on to look at the error.\<close>

definition act_try :: "('s, 'a) action \<Rightarrow> (go_err + 'a \<Rightarrow> ('s, 'b) action) \<Rightarrow> ('s, 'b) action" where
  "act_try m f s = (case m s of (r, t) \<Rightarrow> f r t)"

lemmas action_defs = act_ok_def act_fail_def act_bind_def act_let_def act_check_def act_try_def

section \<open>The repository interface\<close>

record 's RepositoryInterface =
  repo_Snapshot :: "string \<Rightarrow> ('s, document RepositorySnapshot) action"
  repo_Replay :: "Operation \<Rightarrow> ('s, CommitResult option) action"
  repo_Commit :: "Operation \<Rightarrow> document Mutation list \<Rightarrow> ('s, CommitResult) action"

type_synonym store = "document MemoryBackend"

definition memory_repository :: "store RepositoryInterface" where
  "memory_repository =
     \<lparr>repo_Snapshot = (\<lambda>scope b. (Memory_Snapshot scope b, b)),
      repo_Replay = (\<lambda>operation b. (Memory_Replay operation b, b)),
      repo_Commit = Memory_Commit\<rparr>"

type_synonym digester = "command \<Rightarrow> digest"

definition service_operation :: "string \<Rightarrow> OperationID \<Rightarrow> string \<Rightarrow> digest \<Rightarrow> Time \<Rightarrow> go_err + Operation" where
  "service_operation scope operationID kind d now =
     (let operation = \<lparr>op_Scope = scope, op_ID = operationID, op_Kind = kind, op_Digest = d, op_At = now\<rparr>
      in case ValidateOperation operation of Some e \<Rightarrow> Inl e | None \<Rightarrow> Inr operation)"

section \<open>Resources of a snapshot\<close>

definition findResource :: "document RepositorySnapshot \<Rightarrow> Key \<Rightarrow> document Resource option" where
  "findResource snapshot key = List.find (\<lambda>resource. rsc_Key resource = key) (rsn_Resources snapshot)"

text \<open>\<open>resource, exists := findResource(\<dots>); if !exists || resource.Deleted\<close>\<close>

definition live_resource :: "document RepositorySnapshot \<Rightarrow> Key \<Rightarrow> document Resource option" where
  "live_resource snapshot key =
     (case findResource snapshot key of
        None \<Rightarrow> None
      | Some resource \<Rightarrow> if rsc_Deleted resource then None else Some resource)"

definition create :: "Key \<Rightarrow> Version \<Rightarrow> document \<Rightarrow> document Mutation" where
  "create key expected payload =
     \<lparr>mut_Key = key, mut_ExpectedVersion = expected, mut_Payload = Some payload, mut_Delete = False\<rparr>"

definition remove :: "Key \<Rightarrow> Version \<Rightarrow> document Mutation" where
  "remove key expected =
     \<lparr>mut_Key = key, mut_ExpectedVersion = expected, mut_Payload = None, mut_Delete = True\<rparr>"

lemma mutation_sel [simp]:
  "mut_Key (create k v d) = k" "mut_ExpectedVersion (create k v d) = v" "mut_Payload (create k v d) = Some d"
  "\<not> mut_Delete (create k v d)" "mut_Key (remove k v) = k" "mut_ExpectedVersion (remove k v) = v"
  "mut_Payload (remove k v) = None" "mut_Delete (remove k v)"
  by (simp_all add: create_def remove_def)

section \<open>Claims\<close>

definition validateDemandIdentity ::
  "document RepositorySnapshot \<Rightarrow> string \<Rightarrow> string \<Rightarrow> string \<Rightarrow> go_err option" where
  "validateDemandIdentity snapshot scope kind ident =
     (case live_resource snapshot (service_Key scope ResourceDemandIdentity ident) of
        None \<Rightarrow> Some ErrOther
      | Some resource \<Rightarrow>
          (case decodeDemandIdentityClaim (rsc_Payload resource) of
             Inl e \<Rightarrow> Some e
           | Inr claim \<Rightarrow> if dic_Kind claim \<noteq> kind \<or> dic_ID claim \<noteq> ident then Some ErrOther else None))"

definition validateBackfillSessionClaim ::
  "document RepositorySnapshot \<Rightarrow> string \<Rightarrow> SessionID \<Rightarrow> TicketID \<Rightarrow> go_err option" where
  "validateBackfillSessionClaim snapshot scope sessionID ticketID =
     (case live_resource snapshot (service_Key scope ResourceBackfillSessionClaim sessionID) of
        None \<Rightarrow> Some ErrOther
      | Some resource \<Rightarrow>
          (case decodeBackfillSessionClaim (rsc_Payload resource) of
             Inl e \<Rightarrow> Some e
           | Inr claim \<Rightarrow>
               if bsc_SessionID claim \<noteq> sessionID \<or> bsc_TicketID claim \<noteq> ticketID then Some ErrOther else None))"

end
