(* ===== verification/Service_Tickets.thy ===== *)
theory Service_Tickets
  imports Service
begin

text \<open>
  The demand commands of the service, \<open>match_tickets.go\<close> and \<open>backfill_tickets.go\<close>. Each command
  reads a snapshot, prepares mutations from it by a pure function, and commits them; the commit
  succeeds only if none of the mutated resources changed since the snapshot.
\<close>

section \<open>Match tickets\<close>

record MatchTicketRecord =
  mtr_Ticket :: MatchTicket
  mtr_StorageVersion :: Version
  mtr_Deleted :: bool

record MatchTicketSnapshot =
  mts_RepositoryVersion :: Version
  mts_Records :: "MatchTicketRecord list"

record MatchTicketMutation =
  mtm_Ticket :: MatchTicket
  mtm_StorageVersion :: Version
  mtm_Replayed :: bool

record MatchTicketCancellation =
  mtc_ID :: TicketID
  mtc_Revision :: Revision
  mtc_StorageVersion :: Version
  mtc_Replayed :: bool

definition match_put_mutations ::
  "document RepositorySnapshot \<Rightarrow> string \<Rightarrow> MatchTicket \<Rightarrow> document \<Rightarrow> go_err + document Mutation list" where
  "match_put_mutations snapshot scope ticket payload =
     (let key = service_Key scope ResourceMatchTicket (mt_ID ticket)
      in case findResource snapshot key of
           Some current \<Rightarrow>
             if rsc_Deleted current then Inl (ErrFailure FailureInvalidRevision)
             else (case decodeMatchTicket (rsc_Payload current) of
                     Inl e \<Rightarrow> Inl e
                   | Inr stored \<Rightarrow>
                       if mt_Revision ticket \<le> mt_Revision stored then Inl (ErrFailure FailureInvalidRevision)
                       else (case validateDemandIdentity snapshot scope ResourceMatchTicket (mt_ID ticket) of
                               Some e \<Rightarrow> Inl e
                             | None \<Rightarrow> Inr [create key (rsc_Version current) payload]))
         | None \<Rightarrow>
             (case encodeDemandIdentityClaim ResourceMatchTicket (mt_ID ticket) of
                Inl e \<Rightarrow> Inl e
              | Inr claimPayload \<Rightarrow>
                  let claimKey = service_Key scope ResourceDemandIdentity (mt_ID ticket)
                  in if findResource snapshot claimKey \<noteq> None then Inl (ErrFailure FailureInvalidRevision)
                     else Inr [create claimKey 0 claimPayload, create key 0 payload]))"

definition MatchTickets_Put ::
  "'s RepositoryInterface \<Rightarrow> digester \<Rightarrow> Time \<Rightarrow> string \<Rightarrow> OperationID \<Rightarrow> MatchTicket \<Rightarrow> ('s, MatchTicketMutation) action" where
  "MatchTickets_Put repo digest now scope operationID ticket =
     act_check (map_option ErrFailure (ValidateMatchTicket ticket))
    (act_let (encodeMatchTicket ticket) (\<lambda>payload.
     act_let (service_operation scope operationID ''match_ticket.put'' (digest (CommandPut payload)) now) (\<lambda>operation.
     act_bind (repo_Replay repo operation) (\<lambda>replayed.
     case replayed of
       Some result \<Rightarrow> act_ok \<lparr>mtm_Ticket = ticket, mtm_StorageVersion = cr_Version result, mtm_Replayed = True\<rparr>
     | None \<Rightarrow>
         act_bind (repo_Snapshot repo scope) (\<lambda>snapshot.
         act_let (match_put_mutations snapshot scope ticket payload) (\<lambda>mutations.
         act_try (repo_Commit repo operation mutations) (\<lambda>committed.
         case committed of
           Inl e \<Rightarrow> act_fail (if IsConflict e then ErrFailure FailureInvalidRevision else e)
         | Inr result \<Rightarrow> act_ok \<lparr>mtm_Ticket = ticket, mtm_StorageVersion = cr_Version result,
                              mtm_Replayed = cr_Replayed result\<rparr>)))))))"

definition match_cancel_mutations ::
  "document RepositorySnapshot \<Rightarrow> string \<Rightarrow> TicketID \<Rightarrow> Revision \<Rightarrow> go_err + document Mutation list" where
  "match_cancel_mutations snapshot scope ident revision =
     (let key = service_Key scope ResourceMatchTicket ident
      in case live_resource snapshot key of
           None \<Rightarrow> Inl ErrResourceNotFound
         | Some current \<Rightarrow>
             (case decodeMatchTicket (rsc_Payload current) of
                Inl e \<Rightarrow> Inl e
              | Inr stored \<Rightarrow>
                  if mt_Revision stored \<noteq> revision then Inl (ErrFailure FailureInvalidRevision)
                  else Inr [remove key (rsc_Version current)]))"

definition MatchTickets_Cancel ::
  "'s RepositoryInterface \<Rightarrow> digester \<Rightarrow> Time \<Rightarrow> string \<Rightarrow> OperationID \<Rightarrow> TicketID \<Rightarrow> Revision \<Rightarrow>
     ('s, MatchTicketCancellation) action" where
  "MatchTickets_Cancel repo digest now scope operationID ident revision =
     act_let (service_operation scope operationID ''match_ticket.cancel''
                (digest (CommandMatchTicketCancel (json_string ident) revision)) now) (\<lambda>operation.
     if ident = '''' \<or> revision = 0 then act_fail (ErrFailure FailureInvalidInput)
     else act_bind (repo_Replay repo operation) (\<lambda>replayed.
     case replayed of
       Some result \<Rightarrow> act_ok \<lparr>mtc_ID = ident, mtc_Revision = revision, mtc_StorageVersion = cr_Version result, mtc_Replayed = True\<rparr>
     | None \<Rightarrow>
         act_bind (repo_Snapshot repo scope) (\<lambda>snapshot.
         act_let (match_cancel_mutations snapshot scope ident revision) (\<lambda>mutations.
         act_try (repo_Commit repo operation mutations) (\<lambda>committed.
         case committed of
           Inl e \<Rightarrow> act_fail (if IsConflict e then ErrFailure FailureInvalidRevision else e)
         | Inr result \<Rightarrow> act_ok \<lparr>mtc_ID = ident, mtc_Revision = revision, mtc_StorageVersion = cr_Version result,
                              mtc_Replayed = cr_Replayed result\<rparr>)))))"

definition MatchTickets_Get ::
  "'s RepositoryInterface \<Rightarrow> string \<Rightarrow> TicketID \<Rightarrow> ('s, MatchTicketRecord option) action" where
  "MatchTickets_Get repo scope ident =
     act_bind (repo_Snapshot repo scope) (\<lambda>snapshot.
     case live_resource snapshot (service_Key scope ResourceMatchTicket ident) of
       None \<Rightarrow> act_ok None
     | Some resource \<Rightarrow>
         act_let (decodeMatchTicket (rsc_Payload resource)) (\<lambda>ticket.
         act_ok (Some \<lparr>mtr_Ticket = ticket, mtr_StorageVersion = rsc_Version resource, mtr_Deleted = False\<rparr>)))"

definition match_record :: "document Resource \<Rightarrow> go_err + MatchTicketRecord" where
  "match_record resource =
     (if rsc_Deleted resource
      then Inr \<lparr>mtr_Ticket = \<lparr>mt_ID = key_ID (rsc_Key resource), mt_Revision = 0, mt_EnqueuedAt = 0, mt_Players = []\<rparr>,
             mtr_StorageVersion = rsc_Version resource, mtr_Deleted = True\<rparr>
      else map_sum id (\<lambda>ticket. \<lparr>mtr_Ticket = ticket, mtr_StorageVersion = rsc_Version resource, mtr_Deleted = False\<rparr>)
             (decodeMatchTicket (rsc_Payload resource)))"

definition MatchTickets_Snapshot :: "'s RepositoryInterface \<Rightarrow> string \<Rightarrow> ('s, MatchTicketSnapshot) action" where
  "MatchTickets_Snapshot repo scope =
     act_bind (repo_Snapshot repo scope) (\<lambda>snapshot.
     act_let (decode_all match_record
                (filter (\<lambda>resource. key_Kind (rsc_Key resource) = ResourceMatchTicket) (rsn_Resources snapshot))) (\<lambda>records.
     act_ok \<lparr>mts_RepositoryVersion = rsn_Version snapshot,
       mts_Records = sort_cmp (\<lambda>left right. go_cmp (mt_ID (mtr_Ticket left)) (mt_ID (mtr_Ticket right))) records\<rparr>))"

section \<open>Backfill tickets\<close>

record BackfillTicketRecord =
  btr_Ticket :: BackfillTicket
  btr_StorageVersion :: Version
  btr_Deleted :: bool

record BackfillTicketSnapshot =
  bts_RepositoryVersion :: Version
  bts_Records :: "BackfillTicketRecord list"

record BackfillTicketMutation =
  btm_Ticket :: BackfillTicket
  btm_StorageVersion :: Version
  btm_Replayed :: bool

record BackfillTicketCancellation =
  btc_ID :: TicketID
  btc_Revision :: Revision
  btc_RosterVersion :: Revision
  btc_StorageVersion :: Version
  btc_Replayed :: bool

definition sameBackfillRoster :: "BackfillTicket \<Rightarrow> BackfillTicket \<Rightarrow> bool" where
  "sameBackfillRoster left right \<longleftrightarrow>
     bt_SessionID left = bt_SessionID right \<and> bt_RosterVersion left = bt_RosterVersion right \<and>
     bt_OpenSlotsByTeam left = bt_OpenSlotsByTeam right \<and> bt_ExistingTeams left = bt_ExistingTeams right"

definition validateBackfillReplacement :: "BackfillTicket \<Rightarrow> BackfillTicket \<Rightarrow> go_err option" where
  "validateBackfillReplacement current next =
     (if bt_Revision next \<le> bt_Revision current then Some (ErrFailure FailureInvalidRevision)
      else if bt_SessionID next \<noteq> bt_SessionID current then Some (ErrFailure FailureInvalidRevision)
      else if bt_RosterVersion next < bt_RosterVersion current then Some (ErrFailure FailureInvalidRevision)
      else if bt_RosterVersion next = bt_RosterVersion current \<and> \<not> sameBackfillRoster current next
      then Some (ErrFailure FailureInvalidRevision)
      else None)"

definition mapBackfillConflict :: "go_err \<Rightarrow> go_err" where
  "mapBackfillConflict err =
     (if \<not> IsConflict err then err
      else if key_Kind (conflict_Key err) = ResourceBackfillSessionClaim then ErrFailure FailureInvalidInput
      else ErrFailure FailureInvalidRevision)"

definition backfill_put_mutations ::
  "document RepositorySnapshot \<Rightarrow> string \<Rightarrow> BackfillTicket \<Rightarrow> document \<Rightarrow> go_err + document Mutation list" where
  "backfill_put_mutations snapshot scope ticket payload =
     (let key = service_Key scope ResourceBackfillTicket (bt_ID ticket)
      in case findResource snapshot key of
           Some current \<Rightarrow>
             if rsc_Deleted current then Inl (ErrFailure FailureInvalidRevision)
             else (case decodeBackfillTicket (rsc_Payload current) of
                     Inl e \<Rightarrow> Inl e
                   | Inr stored \<Rightarrow>
                       (case validateBackfillReplacement stored ticket of Some e \<Rightarrow> Inl e | None \<Rightarrow>
                       (case validateDemandIdentity snapshot scope ResourceBackfillTicket (bt_ID ticket) of Some e \<Rightarrow> Inl e | None \<Rightarrow>
                       (case validateBackfillSessionClaim snapshot scope (bt_SessionID ticket) (bt_ID ticket) of Some e \<Rightarrow> Inl e | None \<Rightarrow>
                          Inr [create key (rsc_Version current) payload]))))
         | None \<Rightarrow>
             (case encodeDemandIdentityClaim ResourceBackfillTicket (bt_ID ticket) of
                Inl e \<Rightarrow> Inl e
              | Inr identityPayload \<Rightarrow>
                  let identityKey = service_Key scope ResourceDemandIdentity (bt_ID ticket)
                  in if findResource snapshot identityKey \<noteq> None then Inl (ErrFailure FailureInvalidRevision)
                     else (case encodeBackfillSessionClaim ticket of
                             Inl e \<Rightarrow> Inl e
                           | Inr sessionPayload \<Rightarrow>
                               let sessionKey = service_Key scope ResourceBackfillSessionClaim (bt_SessionID ticket)
                               in (case findResource snapshot sessionKey of
                                     Some currentSession \<Rightarrow>
                                       if \<not> rsc_Deleted currentSession then Inl (ErrFailure FailureInvalidInput)
                                       else Inr [create identityKey 0 identityPayload,
                                              create sessionKey (rsc_Version currentSession) sessionPayload, create key 0 payload]
                                   | None \<Rightarrow> Inr [create identityKey 0 identityPayload, create sessionKey 0 sessionPayload,
                                       create key 0 payload]))))"

definition BackfillTickets_Put ::
  "'s RepositoryInterface \<Rightarrow> digester \<Rightarrow> Time \<Rightarrow> string \<Rightarrow> OperationID \<Rightarrow> BackfillTicket \<Rightarrow> ('s, BackfillTicketMutation) action" where
  "BackfillTickets_Put repo digest now scope operationID ticket =
     act_check (map_option ErrFailure (ValidateBackfillTicket ticket))
    (act_let (encodeBackfillTicket ticket) (\<lambda>payload.
     act_let (service_operation scope operationID ''backfill_ticket.put'' (digest (CommandPut payload)) now) (\<lambda>operation.
     act_bind (repo_Replay repo operation) (\<lambda>replayed.
     case replayed of
       Some result \<Rightarrow> act_ok \<lparr>btm_Ticket = ticket, btm_StorageVersion = cr_Version result, btm_Replayed = True\<rparr>
     | None \<Rightarrow>
         act_bind (repo_Snapshot repo scope) (\<lambda>snapshot.
         act_let (backfill_put_mutations snapshot scope ticket payload) (\<lambda>mutations.
         act_try (repo_Commit repo operation mutations) (\<lambda>committed.
         case committed of
           Inl e \<Rightarrow> act_fail (mapBackfillConflict e)
         | Inr result \<Rightarrow> act_ok \<lparr>btm_Ticket = ticket, btm_StorageVersion = cr_Version result,
                              btm_Replayed = cr_Replayed result\<rparr>)))))))"

definition backfill_cancel_mutations ::
  "document RepositorySnapshot \<Rightarrow> string \<Rightarrow> TicketID \<Rightarrow> Revision \<Rightarrow> Revision \<Rightarrow> go_err + document Mutation list" where
  "backfill_cancel_mutations snapshot scope ident revision rosterVersion =
     (let key = service_Key scope ResourceBackfillTicket ident
      in case live_resource snapshot key of
           None \<Rightarrow> Inl ErrResourceNotFound
         | Some current \<Rightarrow>
             (case decodeBackfillTicket (rsc_Payload current) of
                Inl e \<Rightarrow> Inl e
              | Inr stored \<Rightarrow>
                  if bt_Revision stored \<noteq> revision \<or> bt_RosterVersion stored \<noteq> rosterVersion
                  then Inl (ErrFailure FailureStaleSnapshot)
                  else let sessionKey = service_Key scope ResourceBackfillSessionClaim (bt_SessionID stored)
                       in (case live_resource snapshot sessionKey of
                             None \<Rightarrow> Inl ErrOther
                           | Some sessionClaim \<Rightarrow>
                               (case decodeBackfillSessionClaim (rsc_Payload sessionClaim) of
                                  Inl e \<Rightarrow> Inl e
                                | Inr claim \<Rightarrow>
                                    if bsc_TicketID claim \<noteq> ident \<or> bsc_SessionID claim \<noteq> bt_SessionID stored then Inl ErrOther
                                    else Inr [remove key (rsc_Version current), remove sessionKey (rsc_Version sessionClaim)]))))"

definition BackfillTickets_Cancel ::
  "'s RepositoryInterface \<Rightarrow> digester \<Rightarrow> Time \<Rightarrow> string \<Rightarrow> OperationID \<Rightarrow> TicketID \<Rightarrow> Revision \<Rightarrow> Revision \<Rightarrow>
     ('s, BackfillTicketCancellation) action" where
  "BackfillTickets_Cancel repo digest now scope operationID ident revision rosterVersion =
     act_let (service_operation scope operationID ''backfill_ticket.cancel''
                (digest (CommandBackfillTicketCancel (json_string ident) revision rosterVersion)) now) (\<lambda>operation.
     if ident = '''' \<or> revision = 0 \<or> rosterVersion = 0 then act_fail (ErrFailure FailureInvalidInput)
     else act_bind (repo_Replay repo operation) (\<lambda>replayed.
     case replayed of
       Some result \<Rightarrow> act_ok \<lparr>btc_ID = ident, btc_Revision = revision, btc_RosterVersion = rosterVersion,
                            btc_StorageVersion = cr_Version result, btc_Replayed = True\<rparr>
     | None \<Rightarrow>
         act_bind (repo_Snapshot repo scope) (\<lambda>snapshot.
         act_let (backfill_cancel_mutations snapshot scope ident revision rosterVersion) (\<lambda>mutations.
         act_try (repo_Commit repo operation mutations) (\<lambda>committed.
         case committed of
           Inl e \<Rightarrow> act_fail (if IsConflict e then ErrFailure FailureStaleSnapshot else e)
         | Inr result \<Rightarrow> act_ok \<lparr>btc_ID = ident, btc_Revision = revision, btc_RosterVersion = rosterVersion,
                              btc_StorageVersion = cr_Version result, btc_Replayed = cr_Replayed result\<rparr>)))))"

definition BackfillTickets_Get ::
  "'s RepositoryInterface \<Rightarrow> string \<Rightarrow> TicketID \<Rightarrow> ('s, BackfillTicketRecord option) action" where
  "BackfillTickets_Get repo scope ident =
     act_bind (repo_Snapshot repo scope) (\<lambda>snapshot.
     case live_resource snapshot (service_Key scope ResourceBackfillTicket ident) of
       None \<Rightarrow> act_ok None
     | Some resource \<Rightarrow>
         act_let (decodeBackfillTicket (rsc_Payload resource)) (\<lambda>ticket.
         act_ok (Some \<lparr>btr_Ticket = ticket, btr_StorageVersion = rsc_Version resource, btr_Deleted = False\<rparr>)))"

definition backfill_record :: "document Resource \<Rightarrow> go_err + BackfillTicketRecord" where
  "backfill_record resource =
     (if rsc_Deleted resource
      then Inr \<lparr>btr_Ticket = \<lparr>bt_ID = key_ID (rsc_Key resource), bt_Revision = 0, bt_SessionID = '''', bt_RosterVersion = 0,
               bt_OpenSlotsByTeam = [], bt_ExistingTeams = [], bt_EnqueuedAt = 0\<rparr>,
             btr_StorageVersion = rsc_Version resource, btr_Deleted = True\<rparr>
      else map_sum id (\<lambda>ticket. \<lparr>btr_Ticket = ticket, btr_StorageVersion = rsc_Version resource, btr_Deleted = False\<rparr>)
             (decodeBackfillTicket (rsc_Payload resource)))"

definition BackfillTickets_Snapshot :: "'s RepositoryInterface \<Rightarrow> string \<Rightarrow> ('s, BackfillTicketSnapshot) action" where
  "BackfillTickets_Snapshot repo scope =
     act_bind (repo_Snapshot repo scope) (\<lambda>snapshot.
     act_let (decode_all backfill_record
                (filter (\<lambda>resource. key_Kind (rsc_Key resource) = ResourceBackfillTicket) (rsn_Resources snapshot))) (\<lambda>records.
     act_ok \<lparr>bts_RepositoryVersion = rsn_Version snapshot,
       bts_Records = sort_cmp (\<lambda>left right. go_cmp (bt_ID (btr_Ticket left)) (bt_ID (btr_Ticket right))) records\<rparr>))"

end
