(* ===== verification/Service_Policies.thy ===== *)
theory Service_Policies
  imports Service
begin

text \<open>
  Policies of a tenant, \<open>policies.go\<close>: a version names one content for ever. Registering the same
  content again writes the same document under a new storage version.
\<close>

record PolicyRecord =
  plr_Policy :: MatchmakingPolicy
  plr_Fingerprint :: PolicyFingerprint
  plr_StorageVersion :: Version

record PolicySnapshot =
  pls_RepositoryVersion :: Version
  pls_Records :: "PolicyRecord list"

record PolicyMutation =
  plm_Policy :: MatchmakingPolicy
  plm_Fingerprint :: PolicyFingerprint
  plm_StorageVersion :: Version
  plm_Replayed :: bool

definition maxPolicyCommitAttempts :: nat where
  "maxPolicyCommitAttempts = 8"

definition policy_put_mutations ::
  "hash \<Rightarrow> document RepositorySnapshot \<Rightarrow> string \<Rightarrow> string \<Rightarrow> PolicyFingerprint \<Rightarrow> document \<Rightarrow> go_err + document Mutation list" where
  "policy_put_mutations sha256 snapshot scope version fingerprint payload =
     (let key = service_Key scope ResourcePolicy version
      in case findResource snapshot key of
           Some current \<Rightarrow>
             if rsc_Deleted current then Inl ErrOther
             else (case decodePolicy sha256 (rsc_Payload current) of
                     Inl e \<Rightarrow> Inl e
                   | Inr (_, storedFingerprint) \<Rightarrow>
                       if storedFingerprint \<noteq> fingerprint then Inl (ErrFailure FailurePolicyConflict)
                       else Inr [create key (rsc_Version current) payload])
         | None \<Rightarrow> Inr [create key 0 payload])"

fun policy_attempts ::
  "hash \<Rightarrow> 's RepositoryInterface \<Rightarrow> nat \<Rightarrow> Operation \<Rightarrow> string \<Rightarrow> MatchmakingPolicy \<Rightarrow> PolicyFingerprint \<Rightarrow> document \<Rightarrow>
     ('s, PolicyMutation) action" where
  "policy_attempts sha256 repo 0 operation scope policy fingerprint payload = act_fail (ErrFailure FailureStaleSnapshot)"
| "policy_attempts sha256 repo (Suc attempts) operation scope policy fingerprint payload =
     act_bind (repo_Snapshot repo scope) (\<lambda>snapshot.
     act_let (policy_put_mutations sha256 snapshot scope (pol_Version policy) fingerprint payload) (\<lambda>mutations.
     act_try (repo_Commit repo operation mutations) (\<lambda>committed.
     case committed of
       Inr result \<Rightarrow> act_ok \<lparr>plm_Policy = policy, plm_Fingerprint = fingerprint, plm_StorageVersion = cr_Version result,
                          plm_Replayed = cr_Replayed result\<rparr>
     | Inl e \<Rightarrow>
         if \<not> IsConflict e then act_fail e
         else policy_attempts sha256 repo attempts operation scope policy fingerprint payload)))"

definition Policies_Put ::
  "hash \<Rightarrow> 's RepositoryInterface \<Rightarrow> digester \<Rightarrow> Time \<Rightarrow> string \<Rightarrow> OperationID \<Rightarrow> MatchmakingPolicy \<Rightarrow> ('s, PolicyMutation) action" where
  "Policies_Put sha256 repo digest now scope operationID policy =
     act_let (map_sum ErrFailure id (FingerprintPolicy sha256 policy)) (\<lambda>fingerprint.
     let policy = canonicalPolicy policy
     in act_let (encodePolicy policy fingerprint) (\<lambda>payload.
        act_let (service_operation scope operationID ''policy.put'' (digest (CommandPut payload)) now) (\<lambda>operation.
        act_bind (repo_Replay repo operation) (\<lambda>replayed.
        case replayed of
          Some result \<Rightarrow> act_ok \<lparr>plm_Policy = policy, plm_Fingerprint = fingerprint, plm_StorageVersion = cr_Version result,
                               plm_Replayed = True\<rparr>
        | None \<Rightarrow> policy_attempts sha256 repo maxPolicyCommitAttempts operation scope policy fingerprint payload))))"

definition Policies_Get ::
  "hash \<Rightarrow> 's RepositoryInterface \<Rightarrow> string \<Rightarrow> string \<Rightarrow> ('s, PolicyRecord option) action" where
  "Policies_Get sha256 repo scope version =
     act_bind (repo_Snapshot repo scope) (\<lambda>snapshot.
     case live_resource snapshot (service_Key scope ResourcePolicy version) of
       None \<Rightarrow> act_ok None
     | Some resource \<Rightarrow>
         act_let (decodePolicy sha256 (rsc_Payload resource)) (\<lambda>(policy, fingerprint).
         act_ok (Some \<lparr>plr_Policy = policy, plr_Fingerprint = fingerprint, plr_StorageVersion = rsc_Version resource\<rparr>)))"

definition policy_record :: "hash \<Rightarrow> document Resource \<Rightarrow> go_err + PolicyRecord" where
  "policy_record sha256 resource =
     map_sum id (\<lambda>(policy, fingerprint).
         \<lparr>plr_Policy = policy, plr_Fingerprint = fingerprint, plr_StorageVersion = rsc_Version resource\<rparr>)
       (decodePolicy sha256 (rsc_Payload resource))"

definition Policies_Snapshot :: "hash \<Rightarrow> 's RepositoryInterface \<Rightarrow> string \<Rightarrow> ('s, PolicySnapshot) action" where
  "Policies_Snapshot sha256 repo scope =
     act_bind (repo_Snapshot repo scope) (\<lambda>snapshot.
     act_let (decode_all (policy_record sha256)
                (filter (\<lambda>resource. key_Kind (rsc_Key resource) = ResourcePolicy \<and> \<not> rsc_Deleted resource) (rsn_Resources snapshot)))
       (\<lambda>records.
     act_ok \<lparr>pls_RepositoryVersion = rsn_Version snapshot,
       pls_Records = sort_cmp (\<lambda>left right. go_cmp (pol_Version (plr_Policy left)) (pol_Version (plr_Policy right))) records\<rparr>))"

end
