(* ===== verification/Service_Reservations.thy ===== *)
theory Service_Reservations
  imports Service
begin

text \<open>
  Reservations and assignments of the service, \<open>reservations.go\<close> and \<open>assignments.go\<close>. A
  reservation holds its tickets by claims, one resource per ticket, which are created with it and
  deleted with its end. The loops try a bounded number of times, as in the code.
\<close>

record ReservationRecord =
  rr_Reservation :: Reservation
  rr_StorageVersion :: Version

record ReservationSnapshot =
  rvs_RepositoryVersion :: Version
  rvs_Records :: "ReservationRecord list"

record ReservationMutation =
  rvm_Record :: ReservationRecord
  rvm_Replayed :: bool

definition maxReservationAttempts :: nat where
  "maxReservationAttempts = 8"

definition NewReservations :: "Duration \<Rightarrow> go_err + Duration" where
  "NewReservations ttl = (if ttl \<le> 0 then Inl (ErrFailure FailureInvalidInput) else Inr ttl)"

section \<open>Claims of a reservation\<close>

definition reservationClaimMutation ::
  "document RepositorySnapshot \<Rightarrow> string \<Rightarrow> Reservation \<Rightarrow> ProposalKind \<Rightarrow> TicketRef \<Rightarrow> go_err + document Mutation" where
  "reservationClaimMutation snapshot scope reservation kind ticket =
     (case encodeReservationClaim reservation ticket kind of
        Inl e \<Rightarrow> Inl e
      | Inr payload \<Rightarrow>
          let key = service_Key scope ResourceDemandReservation (ref_ID ticket)
          in (case findResource snapshot key of
                Some resource \<Rightarrow>
                  if \<not> rsc_Deleted resource
                  then (case decodeReservationClaim (rsc_Payload resource) of
                          Inl e \<Rightarrow> Inl e
                        | Inr claim \<Rightarrow> Inl (ErrFailure FailureReservationConflict))
                  else Inr (create key (rsc_Version resource) payload)
              | None \<Rightarrow> Inr (create key 0 payload)))"

text \<open>One step of the loop over the tickets of a proposal: freshness first, then the claim.\<close>

definition reserve_ticket ::
  "document RepositorySnapshot \<Rightarrow> string \<Rightarrow> Reservation \<Rightarrow> ProposalKind \<Rightarrow> TicketRef \<Rightarrow> go_err + document Mutation" where
  "reserve_ticket snapshot scope reservation kind reference =
     (case live_resource snapshot (service_Key scope ResourceMatchTicket (ref_ID reference)) of
        None \<Rightarrow> Inl (ErrFailure FailureStaleSnapshot)
      | Some resource \<Rightarrow>
          (case decodeMatchTicket (rsc_Payload resource) of
             Inl e \<Rightarrow> Inl e
           | Inr ticket \<Rightarrow>
               if mt_Revision ticket \<noteq> ref_Revision reference then Inl (ErrFailure FailureStaleSnapshot)
               else reservationClaimMutation snapshot scope reservation kind reference))"

definition fresh_backfill :: "BackfillTicket \<Rightarrow> BackfillTarget \<Rightarrow> bool" where
  "fresh_backfill ticket target \<longleftrightarrow>
     bt_Revision ticket = ref_Revision (tgt_Ticket target) \<and> bt_SessionID ticket = tgt_SessionID target \<and>
     bt_RosterVersion ticket = tgt_RosterVersion target"

definition reserve_backfill ::
  "document RepositorySnapshot \<Rightarrow> string \<Rightarrow> Reservation \<Rightarrow> ProposalKind \<Rightarrow> BackfillTarget \<Rightarrow> go_err + document Mutation" where
  "reserve_backfill snapshot scope reservation kind target =
     (case live_resource snapshot (service_Key scope ResourceBackfillTicket (ref_ID (tgt_Ticket target))) of
        None \<Rightarrow> Inl (ErrFailure FailureStaleSnapshot)
      | Some resource \<Rightarrow>
          (case decodeBackfillTicket (rsc_Payload resource) of
             Inl e \<Rightarrow> Inl e
           | Inr ticket \<Rightarrow>
               if \<not> fresh_backfill ticket target then Inl (ErrFailure FailureStaleSnapshot)
               else reservationClaimMutation snapshot scope reservation kind (tgt_Ticket target)))"

definition reserveMutations ::
  "document RepositorySnapshot \<Rightarrow> string \<Rightarrow> Reservation \<Rightarrow> MatchProposal \<Rightarrow> go_err + document Mutation list" where
  "reserveMutations snapshot scope reservation proposal =
     (case encodeReservation reservation of
        Inl e \<Rightarrow> Inl e
      | Inr payload \<Rightarrow>
          (case decode_all (reserve_ticket snapshot scope reservation (prop_Kind proposal)) (prop_Tickets proposal) of
             Inl e \<Rightarrow> Inl e
           | Inr claims \<Rightarrow>
               let mutations = create (service_Key scope ResourceReservation (res_ID reservation)) 0 payload # claims
               in (case prop_Backfill proposal of
                     None \<Rightarrow> Inr mutations
                   | Some target \<Rightarrow>
                       (case reserve_backfill snapshot scope reservation (prop_Kind proposal) target of
                          Inl e \<Rightarrow> Inl e
                        | Inr claim \<Rightarrow> Inr (mutations @ [claim])))))"

definition reservation_refs :: "Reservation \<Rightarrow> TicketRef list" where
  "reservation_refs reservation =
     res_Tickets reservation @ (case res_Backfill reservation of None \<Rightarrow> [] | Some target \<Rightarrow> [tgt_Ticket target])"

definition claim_deletion ::
  "document RepositorySnapshot \<Rightarrow> string \<Rightarrow> Reservation \<Rightarrow> TicketRef \<Rightarrow> go_err + document Mutation" where
  "claim_deletion snapshot scope reservation reference =
     (let key = service_Key scope ResourceDemandReservation (ref_ID reference)
      in case live_resource snapshot key of
           None \<Rightarrow> Inl ErrOther
         | Some resource \<Rightarrow>
             (case decodeReservationClaim (rsc_Payload resource) of
                Inl e \<Rightarrow> Inl e
              | Inr claim \<Rightarrow>
                  if prc_ReservationID claim \<noteq> res_ID reservation \<or> ref_ID (prc_Ticket claim) \<noteq> ref_ID reference \<or>
                     ref_Revision (prc_Ticket claim) \<noteq> ref_Revision reference
                  then Inl ErrOther else Inr (remove key (rsc_Version resource))))"

definition reservationClaimDeletions ::
  "document RepositorySnapshot \<Rightarrow> string \<Rightarrow> Reservation \<Rightarrow> go_err + document Mutation list" where
  "reservationClaimDeletions snapshot scope reservation =
     decode_all (claim_deletion snapshot scope reservation) (reservation_refs reservation)"

section \<open>The end of a reservation without a command\<close>

text \<open>The mutations that end an active reservation with a status and release its claims.\<close>

definition end_mutations ::
  "document RepositorySnapshot \<Rightarrow> string \<Rightarrow> document Resource \<Rightarrow> Reservation \<Rightarrow> ReservationStatus \<Rightarrow> go_err + document Mutation list" where
  "end_mutations snapshot scope resource current status =
     (let ended = current\<lparr>res_Status := status\<rparr>
      in case encodeReservation ended of
           Inl e \<Rightarrow> Inl e
         | Inr payload \<Rightarrow>
             map_sum id (\<lambda>claims. create (rsc_Key resource) (rsc_Version resource) payload # claims)
               (reservationClaimDeletions snapshot scope ended))"

definition expireOne ::
  "'s RepositoryInterface \<Rightarrow> digester \<Rightarrow> string \<Rightarrow> Reservation \<Rightarrow> ('s, unit) action" where
  "expireOne repo digest scope reservation =
     act_bind (repo_Snapshot repo scope) (\<lambda>snapshot.
     case live_resource snapshot (service_Key scope ResourceReservation (res_ID reservation)) of
       None \<Rightarrow> act_ok ()
     | Some resource \<Rightarrow>
         act_let (decodeReservation (rsc_Payload resource)) (\<lambda>current.
         if res_Status current \<noteq> ReservationActive then act_ok ()
         else act_let (end_mutations snapshot scope resource current ReservationExpired) (\<lambda>mutations.
           act_bind (repo_Commit repo
             \<lparr>op_Scope = scope, op_ID = ''/reservation.expire/'' @ res_ID current, op_Kind = ''reservation.expire'',
              op_Digest = digest (CommandReservationExpire (json_string (res_ID current)) (res_ExpiresAt current)),
              op_At = res_ExpiresAt current\<rparr> mutations) (\<lambda>_. act_ok ()))))"

definition invalidateStale ::
  "'s RepositoryInterface \<Rightarrow> digester \<Rightarrow> string \<Rightarrow> Reservation \<Rightarrow> Time \<Rightarrow> ('s, unit) action" where
  "invalidateStale repo digest scope reservation at =
     act_bind (repo_Snapshot repo scope) (\<lambda>snapshot.
     case live_resource snapshot (service_Key scope ResourceReservation (res_ID reservation)) of
       None \<Rightarrow> act_ok ()
     | Some resource \<Rightarrow>
         act_let (decodeReservation (rsc_Payload resource)) (\<lambda>current.
         if res_Status current \<noteq> ReservationActive then act_ok ()
         else act_let (end_mutations snapshot scope resource current ReservationCancelled) (\<lambda>mutations.
           act_bind (repo_Commit repo
             \<lparr>op_Scope = scope, op_ID = ''/reservation.invalidate-stale/'' @ res_ID current,
              op_Kind = ''reservation.invalidate_stale'',
              op_Digest = digest (CommandInvalidateStale (json_string (res_ID current)) (json_string (res_ProposalID current))),
              op_At = at\<rparr> mutations) (\<lambda>_. act_ok ()))))"

text \<open>The reservations of a snapshot that are due, and the loop that expires each; its value says whether one conflicted.\<close>

definition live_reservations :: "document RepositorySnapshot \<Rightarrow> document Resource list" where
  "live_reservations snapshot =
     filter (\<lambda>resource. key_Kind (rsc_Key resource) = ResourceReservation \<and> \<not> rsc_Deleted resource) (rsn_Resources snapshot)"

definition due_reservations :: "document RepositorySnapshot \<Rightarrow> Time \<Rightarrow> go_err + Reservation list" where
  "due_reservations snapshot now =
     map_sum id (filter (\<lambda>reservation. res_Status reservation = ReservationActive \<and> \<not> now < res_ExpiresAt reservation))
       (decode_all (\<lambda>resource. decodeReservation (rsc_Payload resource)) (live_reservations snapshot))"

fun expire_each ::
  "'s RepositoryInterface \<Rightarrow> digester \<Rightarrow> string \<Rightarrow> bool \<Rightarrow> Reservation list \<Rightarrow> ('s, bool) action" where
  "expire_each repo digest scope conflicted [] = act_ok conflicted"
| "expire_each repo digest scope conflicted (reservation # rest) =
     act_try (expireOne repo digest scope reservation) (\<lambda>r. case r of
       Inl e \<Rightarrow> if IsConflict e then expire_each repo digest scope True rest else act_fail e
     | Inr _ \<Rightarrow> expire_each repo digest scope conflicted rest)"

fun expire_attempts ::
  "'s RepositoryInterface \<Rightarrow> digester \<Rightarrow> nat \<Rightarrow> string \<Rightarrow> Time \<Rightarrow> ('s, unit) action" where
  "expire_attempts repo digest 0 scope now = act_fail (ErrFailure FailureStaleSnapshot)"
| "expire_attempts repo digest (Suc attempts) scope now =
     act_bind (repo_Snapshot repo scope) (\<lambda>snapshot.
     act_let (due_reservations snapshot now) (\<lambda>expired.
     if expired = [] then act_ok ()
     else act_bind (expire_each repo digest scope False expired) (\<lambda>conflicted.
     if \<not> conflicted then act_ok () else expire_attempts repo digest attempts scope now)))"

definition expireDue :: "'s RepositoryInterface \<Rightarrow> digester \<Rightarrow> string \<Rightarrow> Time \<Rightarrow> ('s, unit) action" where
  "expireDue repo digest scope now = expire_attempts repo digest maxReservationAttempts scope now"

section \<open>Reservation commands\<close>

definition replayedMutation ::
  "'s RepositoryInterface \<Rightarrow> string \<Rightarrow> OperationID \<Rightarrow> string \<Rightarrow> CommitResult \<Rightarrow> ('s, ReservationMutation) action" where
  "replayedMutation repo scope operationID kind replay =
     act_bind (repo_Snapshot repo scope) (\<lambda>snapshot.
     case live_resource snapshot (service_Key scope ResourceOperationResult operationID) of
       None \<Rightarrow> act_fail ErrOther
     | Some resource \<Rightarrow>
         act_let (decodeOperationResult (rsc_Payload resource) kind) (\<lambda>result.
         case result of
           AssignmentResult _ \<Rightarrow> act_fail ErrOther
         | ReservationResult result \<Rightarrow>
             act_let (fromPersistedReservation (rcr_Reservation result)) (\<lambda>reservation.
             act_ok \<lparr>rvm_Record = \<lparr>rr_Reservation = reservation,
                 rr_StorageVersion = (if rcr_ResourceVersion result = 0 then cr_Version replay else rcr_ResourceVersion result)\<rparr>,
               rvm_Replayed = True\<rparr>)))"

text \<open>What \<open>Reserve\<close> prepares from one snapshot: the reservation and all mutations of the commit.\<close>

definition reserve_prepare ::
  "document RepositorySnapshot \<Rightarrow> Duration \<Rightarrow> Operation \<Rightarrow> ReservationID \<Rightarrow> ProposalID \<Rightarrow> go_err + (Reservation \<times> document Mutation list)" where
  "reserve_prepare snapshot ttl operation reservationID proposalID =
     (let scope = op_Scope operation
      in if findResource snapshot (service_Key scope ResourceReservation reservationID) \<noteq> None
         then Inl (ErrFailure FailureInvalidRevision)
         else (case live_resource snapshot (service_Key scope ResourceProposal proposalID) of
           None \<Rightarrow> Inl ErrResourceNotFound
         | Some resource \<Rightarrow>
             (case decodeProposal (rsc_Payload resource) of Inl e \<Rightarrow> Inl e | Inr q \<Rightarrow>
              let proposal = prp_Proposal q
              in (case ValidateProposal proposal of Some e \<Rightarrow> Inl (ErrFailure e) | None \<Rightarrow>
                  if prop_ID proposal \<noteq> proposalID then Inl ErrOther
                  else let reservation =
                         \<lparr>res_ID = reservationID, res_ProposalID = proposalID, res_Tickets = prop_Tickets proposal,
                          res_Backfill = prop_Backfill proposal, res_ExpiresAt = time_Add (op_At operation) ttl,
                          res_Status = ReservationActive\<rparr>
                       in (case reserveMutations snapshot scope reservation proposal of Inl e \<Rightarrow> Inl e | Inr mutations \<Rightarrow>
                          (case encodeReservationCommandResult reservation 0 of Inl e \<Rightarrow> Inl e | Inr resultPayload \<Rightarrow>
                           Inr (reservation, mutations @
                             [create (service_Key scope ResourceOperationResult (op_ID operation)) 0 resultPayload])))))))"

fun reserve_attempts ::
  "'s RepositoryInterface \<Rightarrow> digester \<Rightarrow> nat \<Rightarrow> Duration \<Rightarrow> Operation \<Rightarrow> ReservationID \<Rightarrow> ProposalID \<Rightarrow> ('s, ReservationMutation) action" where
  "reserve_attempts repo digest 0 ttl operation reservationID proposalID = act_fail (ErrFailure FailureReservationConflict)"
| "reserve_attempts repo digest (Suc attempts) ttl operation reservationID proposalID =
     act_bind (repo_Snapshot repo (op_Scope operation)) (\<lambda>snapshot.
     act_let (reserve_prepare snapshot ttl operation reservationID proposalID) (\<lambda>(reservation, mutations).
     act_try (repo_Commit repo operation mutations) (\<lambda>committed.
     case committed of
       Inr result \<Rightarrow> act_ok \<lparr>rvm_Record = \<lparr>rr_Reservation = reservation, rr_StorageVersion = cr_Version result\<rparr>,
                          rvm_Replayed = cr_Replayed result\<rparr>
     | Inl e \<Rightarrow>
         if \<not> IsConflict e then act_fail e
         else act_bind (repo_Replay repo operation) (\<lambda>replayed.
           case replayed of
             Some replay \<Rightarrow> replayedMutation repo (op_Scope operation) (op_ID operation) ''reservation.reserve'' replay
           | None \<Rightarrow>
               act_bind (expireDue repo digest (op_Scope operation) (op_At operation)) (\<lambda>_.
               reserve_attempts repo digest attempts ttl operation reservationID proposalID)))))"

definition Reservations_Reserve ::
  "'s RepositoryInterface \<Rightarrow> digester \<Rightarrow> Time \<Rightarrow> Duration \<Rightarrow> string \<Rightarrow> OperationID \<Rightarrow> ReservationID \<Rightarrow> ProposalID \<Rightarrow>
     ('s, ReservationMutation) action" where
  "Reservations_Reserve repo digest now ttl scope operationID reservationID proposalID =
     act_let (service_operation scope operationID ''reservation.reserve''
                (digest (CommandReserve (json_string reservationID) (json_string proposalID))) now) (\<lambda>operation.
     if reservationID = '''' \<or> proposalID = '''' then act_fail (ErrFailure FailureInvalidInput)
     else act_bind (repo_Replay repo operation) (\<lambda>replayed.
     case replayed of
       Some replay \<Rightarrow> replayedMutation repo scope operationID ''reservation.reserve'' replay
     | None \<Rightarrow>
         act_bind (expireDue repo digest scope (op_At operation)) (\<lambda>_.
         reserve_attempts repo digest maxReservationAttempts ttl operation reservationID proposalID)))"

text \<open>What \<open>Cancel\<close> prepares: the reservation, the version of an unchanged resource (0 if it changes), the mutations.\<close>

definition reservation_cancel_prepare ::
  "document RepositorySnapshot \<Rightarrow> Operation \<Rightarrow> ReservationID \<Rightarrow> go_err + (Reservation \<times> Version \<times> document Mutation list)" where
  "reservation_cancel_prepare snapshot operation reservationID =
     (let scope = op_Scope operation
      in case live_resource snapshot (service_Key scope ResourceReservation reservationID) of
           None \<Rightarrow> Inl ErrResourceNotFound
         | Some resource \<Rightarrow>
             (case decodeReservation (rsc_Payload resource) of Inl e \<Rightarrow> Inl e | Inr reservation \<Rightarrow>
              (case (case res_Status reservation of
                       ReservationExpired \<Rightarrow> Inl (ErrFailure FailureReservationExpired)
                     | ReservationConfirmed \<Rightarrow> Inl (ErrFailure FailureInvalidTransition)
                     | ReservationActive \<Rightarrow>
                         map_sum id (\<lambda>mutations. (reservation\<lparr>res_Status := ReservationCancelled\<rparr>, 0, mutations))
                           (end_mutations snapshot scope resource reservation ReservationCancelled)
                     | ReservationCancelled \<Rightarrow> Inr (reservation, rsc_Version resource, [])) of
                 Inl e \<Rightarrow> Inl e
               | Inr (reservation, resourceVersion, mutations) \<Rightarrow>
                   (case encodeReservationCommandResult reservation resourceVersion of
                      Inl e \<Rightarrow> Inl e
                    | Inr resultPayload \<Rightarrow>
                        Inr (reservation, resourceVersion, mutations @
                          [create (service_Key scope ResourceOperationResult (op_ID operation)) 0 resultPayload])))))"

definition Reservations_Cancel ::
  "'s RepositoryInterface \<Rightarrow> digester \<Rightarrow> Time \<Rightarrow> string \<Rightarrow> OperationID \<Rightarrow> ReservationID \<Rightarrow> ('s, ReservationMutation) action" where
  "Reservations_Cancel repo digest now scope operationID reservationID =
     act_let (service_operation scope operationID ''reservation.cancel''
                (digest (CommandReservationCancel (json_string reservationID))) now) (\<lambda>operation.
     if reservationID = '''' then act_fail (ErrFailure FailureInvalidInput)
     else act_bind (repo_Replay repo operation) (\<lambda>replayed.
     case replayed of
       Some replay \<Rightarrow> replayedMutation repo scope operationID ''reservation.cancel'' replay
     | None \<Rightarrow>
         act_bind (expireDue repo digest scope (op_At operation)) (\<lambda>_.
         act_bind (repo_Snapshot repo scope) (\<lambda>snapshot.
         act_let (reservation_cancel_prepare snapshot operation reservationID) (\<lambda>(reservation, resourceVersion, mutations).
         act_try (repo_Commit repo operation mutations) (\<lambda>committed.
         case committed of
           Inl e \<Rightarrow> act_fail (if IsConflict e then ErrFailure FailureReservationConflict else e)
         | Inr result \<Rightarrow>
             act_ok \<lparr>rvm_Record = \<lparr>rr_Reservation = reservation,
                 rr_StorageVersion = (if resourceVersion = 0 then cr_Version result else resourceVersion)\<rparr>,
               rvm_Replayed = cr_Replayed result\<rparr>))))))"

definition Reservations_Get ::
  "'s RepositoryInterface \<Rightarrow> digester \<Rightarrow> Time \<Rightarrow> string \<Rightarrow> ReservationID \<Rightarrow> ('s, ReservationRecord option) action" where
  "Reservations_Get repo digest now scope reservationID =
     (if reservationID = '''' then act_fail (ErrFailure FailureInvalidInput)
      else act_bind (expireDue repo digest scope now) (\<lambda>_.
        act_bind (repo_Snapshot repo scope) (\<lambda>snapshot.
        case live_resource snapshot (service_Key scope ResourceReservation reservationID) of
          None \<Rightarrow> act_ok None
        | Some resource \<Rightarrow>
            act_let (decodeReservation (rsc_Payload resource)) (\<lambda>reservation.
            act_ok (Some \<lparr>rr_Reservation = reservation, rr_StorageVersion = rsc_Version resource\<rparr>)))))"

definition Reservations_Snapshot ::
  "'s RepositoryInterface \<Rightarrow> digester \<Rightarrow> Time \<Rightarrow> string \<Rightarrow> ('s, ReservationSnapshot) action" where
  "Reservations_Snapshot repo digest now scope =
     act_bind (expireDue repo digest scope now) (\<lambda>_.
     act_bind (repo_Snapshot repo scope) (\<lambda>snapshot.
     act_let (decode_all (\<lambda>resource. map_sum id (\<lambda>reservation. \<lparr>rr_Reservation = reservation, rr_StorageVersion = rsc_Version resource\<rparr>)
                (decodeReservation (rsc_Payload resource))) (live_reservations snapshot)) (\<lambda>records.
     act_ok \<lparr>rvs_RepositoryVersion = rsn_Version snapshot,
       rvs_Records = sort_cmp (\<lambda>left right. go_cmp (res_ID (rr_Reservation left)) (res_ID (rr_Reservation right))) records\<rparr>)))"

end
