(* ===== verification/Service_Assignments.thy ===== *)
theory Service_Assignments
  imports Service_Reservations
begin

text \<open>
  Confirmation of reservations and acknowledgment of assignments, \<open>assignments.go\<close>. A confirmation
  consumes the tickets, their claims and, for a backfill, the claim on the session in the commit that
  creates the assignment.
\<close>

record AssignmentRecord =
  asr_Assignment :: Assignment
  asr_StorageVersion :: Version

record AssignmentSnapshot =
  ass_RepositoryVersion :: Version
  ass_Records :: "AssignmentRecord list"

record AssignmentMutation =
  asm_Record :: AssignmentRecord
  asm_Replayed :: bool

definition sameBackfillTarget :: "BackfillTarget option \<Rightarrow> BackfillTarget option \<Rightarrow> bool" where
  "sameBackfillTarget left right =
     (case (left, right) of (Some l, Some r) \<Rightarrow> l = r | (None, None) \<Rightarrow> True | _ \<Rightarrow> False)"

definition sameReservationProposal :: "Reservation \<Rightarrow> MatchProposal \<Rightarrow> bool" where
  "sameReservationProposal reservation proposal \<longleftrightarrow>
     res_ProposalID reservation = prop_ID proposal \<and> res_Tickets reservation = prop_Tickets proposal \<and>
     sameBackfillTarget (res_Backfill reservation) (prop_Backfill proposal)"

text \<open>
  \<open>confirmDemandMutations\<close> answers mutations, or that the demand is stale, or an error; the second
  is the outer left side of the value here.
\<close>

definition confirm_ticket ::
  "document RepositorySnapshot \<Rightarrow> string \<Rightarrow> TicketRef \<Rightarrow> go_err + (FailureCode + document Mutation)" where
  "confirm_ticket snapshot scope reference =
     (case live_resource snapshot (service_Key scope ResourceMatchTicket (ref_ID reference)) of
        None \<Rightarrow> Inr (Inl FailureStaleSnapshot)
      | Some resource \<Rightarrow>
          (case decodeMatchTicket (rsc_Payload resource) of
             Inl e \<Rightarrow> Inl e
           | Inr ticket \<Rightarrow>
               if mt_Revision ticket \<noteq> ref_Revision reference then Inr (Inl FailureStaleSnapshot)
               else Inr (Inr (remove (rsc_Key resource) (rsc_Version resource)))))"

fun confirm_tickets ::
  "document RepositorySnapshot \<Rightarrow> string \<Rightarrow> TicketRef list \<Rightarrow> go_err + (FailureCode + document Mutation list)" where
  "confirm_tickets snapshot scope [] = Inr (Inr [])"
| "confirm_tickets snapshot scope (reference # rest) =
     (case confirm_ticket snapshot scope reference of
        Inl e \<Rightarrow> Inl e
      | Inr (Inl stale) \<Rightarrow> Inr (Inl stale)
      | Inr (Inr mutation) \<Rightarrow> map_sum id (map_sum id (\<lambda>mutations. mutation # mutations)) (confirm_tickets snapshot scope rest))"

definition confirm_backfill ::
  "document RepositorySnapshot \<Rightarrow> string \<Rightarrow> BackfillTarget option \<Rightarrow> go_err + (FailureCode + document Mutation list)" where
  "confirm_backfill snapshot scope backfill =
     (case backfill of
        None \<Rightarrow> Inr (Inr [])
      | Some target \<Rightarrow>
          (case live_resource snapshot (service_Key scope ResourceBackfillTicket (ref_ID (tgt_Ticket target))) of
             None \<Rightarrow> Inr (Inl FailureStaleSnapshot)
           | Some resource \<Rightarrow>
               (case decodeBackfillTicket (rsc_Payload resource) of
                  Inl e \<Rightarrow> Inl e
                | Inr ticket \<Rightarrow>
                    if \<not> fresh_backfill ticket target then Inr (Inl FailureStaleSnapshot)
                    else let sessionKey = service_Key scope ResourceBackfillSessionClaim (tgt_SessionID target)
                         in (case live_resource snapshot sessionKey of
                               None \<Rightarrow> Inl ErrOther
                             | Some sessionResource \<Rightarrow>
                                 (case decodeBackfillSessionClaim (rsc_Payload sessionResource) of
                                    Inl e \<Rightarrow> Inl e
                                  | Inr sessionClaim \<Rightarrow>
                                      if bsc_TicketID sessionClaim \<noteq> ref_ID (tgt_Ticket target) then Inl ErrOther
                                      else Inr (Inr [remove (rsc_Key resource) (rsc_Version resource),
                                             remove sessionKey (rsc_Version sessionResource)]))))))"

definition confirmDemandMutations ::
  "document RepositorySnapshot \<Rightarrow> string \<Rightarrow> Reservation \<Rightarrow> MatchProposal \<Rightarrow> go_err + (FailureCode + document Mutation list)" where
  "confirmDemandMutations snapshot scope reservation proposal =
     (case confirm_tickets snapshot scope (prop_Tickets proposal) of
        Inl e \<Rightarrow> Inl e
      | Inr (Inl stale) \<Rightarrow> Inr (Inl stale)
      | Inr (Inr tickets) \<Rightarrow>
          (case confirm_backfill snapshot scope (prop_Backfill proposal) of
             Inl e \<Rightarrow> Inl e
           | Inr (Inl stale) \<Rightarrow> Inr (Inl stale)
           | Inr (Inr backfill) \<Rightarrow>
               (case reservationClaimDeletions snapshot scope reservation of
                  Inl e \<Rightarrow> Inl e
                | Inr claims \<Rightarrow> Inr (Inr (tickets @ backfill @ claims)))))"

definition replayedAssignmentMutation ::
  "'s RepositoryInterface \<Rightarrow> string \<Rightarrow> OperationID \<Rightarrow> string \<Rightarrow> CommitResult \<Rightarrow> ('s, AssignmentMutation) action" where
  "replayedAssignmentMutation repo scope operationID kind replay =
     act_bind (repo_Snapshot repo scope) (\<lambda>snapshot.
     case live_resource snapshot (service_Key scope ResourceOperationResult operationID) of
       None \<Rightarrow> act_fail ErrOther
     | Some resource \<Rightarrow>
         act_let (decodeOperationResult (rsc_Payload resource) kind) (\<lambda>result.
         case result of
           ReservationResult _ \<Rightarrow> act_fail ErrOther
         | AssignmentResult result \<Rightarrow>
             act_let (fromPersistedAssignment (acr_Assignment result)) (\<lambda>assignment.
             act_ok \<lparr>asm_Record = \<lparr>asr_Assignment = assignment,
                 asr_StorageVersion = (if acr_ResourceVersion result = 0 then cr_Version replay else acr_ResourceVersion result)\<rparr>,
               asm_Replayed = True\<rparr>)))"

text \<open>
  What \<open>Confirm\<close> prepares: either the reservation whose demand is stale and the failure to answer,
  or the assignment and the mutations.
\<close>

definition confirm_prepare ::
  "document RepositorySnapshot \<Rightarrow> Operation \<Rightarrow> ReservationID \<Rightarrow> AssignmentID \<Rightarrow>
     go_err + ((Reservation \<times> FailureCode) + (Assignment \<times> document Mutation list))" where
  "confirm_prepare snapshot operation reservationID assignmentID =
     (let scope = op_Scope operation
      in case live_resource snapshot (service_Key scope ResourceReservation reservationID) of
           None \<Rightarrow> Inl ErrResourceNotFound
         | Some reservationResource \<Rightarrow>
             (case decodeReservation (rsc_Payload reservationResource) of Inl e \<Rightarrow> Inl e | Inr reservation \<Rightarrow>
              (case res_Status reservation of
                 ReservationExpired \<Rightarrow> Inl (ErrFailure FailureReservationExpired)
               | ReservationCancelled \<Rightarrow> Inl (ErrFailure FailureInvalidTransition)
               | ReservationConfirmed \<Rightarrow> Inl (ErrFailure FailureInvalidTransition)
               | ReservationActive \<Rightarrow>
                   if findResource snapshot (service_Key scope ResourceAssignment assignmentID) \<noteq> None
                   then Inl (ErrFailure FailureInvalidRevision)
                   else (case live_resource snapshot (service_Key scope ResourceProposal (res_ProposalID reservation)) of
                           None \<Rightarrow> Inl ErrOther
                         | Some proposalResource \<Rightarrow>
                             (case decodeProposal (rsc_Payload proposalResource) of Inl e \<Rightarrow> Inl e | Inr q \<Rightarrow>
                              let proposal = prp_Proposal q
                              in if \<not> sameReservationProposal reservation proposal then Inl ErrOther
                                 else let assignment =
                                        \<lparr>asg_ID = assignmentID, asg_ReservationID = reservationID, asg_ProposalID = prop_ID proposal,
                                         asg_Kind = prop_Kind proposal, asg_Teams = CloneTeams (prop_Teams proposal),
                                         asg_Backfill = CloneBackfillTarget (prop_Backfill proposal),
                                         asg_ConfirmedAt = op_At operation, asg_Status = AssignmentPending,
                                         asg_Acknowledgment = None\<rparr>
                                      in (case confirmDemandMutations snapshot scope reservation proposal of
                                            Inl e \<Rightarrow> Inl e
                                          | Inr (Inl stale) \<Rightarrow> Inr (Inl (reservation, stale))
                                          | Inr (Inr mutations) \<Rightarrow>
                                              (case encodeReservation (reservation\<lparr>res_Status := ReservationConfirmed\<rparr>) of Inl e \<Rightarrow> Inl e | Inr reservationPayload \<Rightarrow>
                                              (case encodeAssignment assignment of Inl e \<Rightarrow> Inl e | Inr assignmentPayload \<Rightarrow>
                                              (case encodeAssignmentCommandResult ''reservation.confirm'' assignment 0 of Inl e \<Rightarrow> Inl e | Inr resultPayload \<Rightarrow>
                                                 Inr (Inr (assignment, mutations @
                                                   [create (rsc_Key reservationResource) (rsc_Version reservationResource) reservationPayload,
                                                    create (service_Key scope ResourceAssignment assignmentID) 0 assignmentPayload,
                                                    create (service_Key scope ResourceOperationResult (op_ID operation)) 0 resultPayload])))))))))))"

definition Reservations_Confirm ::
  "'s RepositoryInterface \<Rightarrow> digester \<Rightarrow> Time \<Rightarrow> string \<Rightarrow> OperationID \<Rightarrow> ReservationID \<Rightarrow> AssignmentID \<Rightarrow>
     ('s, AssignmentMutation) action" where
  "Reservations_Confirm repo digest now scope operationID reservationID assignmentID =
     act_let (service_operation scope operationID ''reservation.confirm''
                (digest (CommandConfirm (json_string reservationID) (json_string assignmentID))) now) (\<lambda>operation.
     if reservationID = '''' \<or> assignmentID = '''' then act_fail (ErrFailure FailureInvalidInput)
     else act_bind (repo_Replay repo operation) (\<lambda>replayed.
     case replayed of
       Some replay \<Rightarrow> replayedAssignmentMutation repo scope operationID ''reservation.confirm'' replay
     | None \<Rightarrow>
         act_bind (expireDue repo digest scope (op_At operation)) (\<lambda>_.
         act_bind (repo_Snapshot repo scope) (\<lambda>snapshot.
         act_let (confirm_prepare snapshot operation reservationID assignmentID) (\<lambda>prepared.
         case prepared of
           Inl (reservation, stale) \<Rightarrow>
             act_try (invalidateStale repo digest scope reservation (op_At operation)) (\<lambda>r. case r of
               Inl e \<Rightarrow> act_fail (if IsConflict e then ErrFailure FailureReservationConflict else e)
             | Inr _ \<Rightarrow> act_fail (ErrFailure stale))
         | Inr (assignment, mutations) \<Rightarrow>
             act_try (repo_Commit repo operation mutations) (\<lambda>committed.
             case committed of
               Inr result \<Rightarrow> act_ok \<lparr>asm_Record = \<lparr>asr_Assignment = assignment, asr_StorageVersion = cr_Version result\<rparr>,
                                  asm_Replayed = cr_Replayed result\<rparr>
             | Inl e \<Rightarrow>
                 act_bind (repo_Replay repo operation) (\<lambda>again.
                 case again of
                   Some replay \<Rightarrow> replayedAssignmentMutation repo scope operationID ''reservation.confirm'' replay
                 | None \<Rightarrow> act_fail (if IsConflict e then ErrFailure FailureReservationConflict else e))))))))"

definition acknowledge_prepare ::
  "document RepositorySnapshot \<Rightarrow> Operation \<Rightarrow> AssignmentID \<Rightarrow> AssignmentAcknowledgmentRequest \<Rightarrow>
     go_err + (Assignment \<times> document Mutation list)" where
  "acknowledge_prepare snapshot operation assignmentID request =
     (let scope = op_Scope operation
      in case live_resource snapshot (service_Key scope ResourceAssignment assignmentID) of
           None \<Rightarrow> Inl ErrResourceNotFound
         | Some resource \<Rightarrow>
             (case decodeAssignment (rsc_Payload resource) of Inl e \<Rightarrow> Inl e | Inr assignment \<Rightarrow>
              if asg_Status assignment \<noteq> AssignmentPending then Inl (ErrFailure FailureInvalidTransition)
              else (case ValidateAssignmentAcknowledgment assignment request of Some e \<Rightarrow> Inl (ErrFailure e) | None \<Rightarrow>
                let assignment = assignment\<lparr>asg_Status := req_Outcome request,
                      asg_Acknowledgment := Some \<lparr>ack_Request = request, ack_AcknowledgedAt = op_At operation\<rparr>\<rparr>
                in (case encodeAssignment assignment of Inl e \<Rightarrow> Inl e | Inr payload \<Rightarrow>
                   (case encodeAcknowledgmentResource assignment of Inl e \<Rightarrow> Inl e | Inr acknowledgmentPayload \<Rightarrow>
                   (case encodeAssignmentCommandResult ''assignment.acknowledge'' assignment 0 of Inl e \<Rightarrow> Inl e | Inr resultPayload \<Rightarrow>
                      Inr (assignment,
                        [create (rsc_Key resource) (rsc_Version resource) payload,
                         create (service_Key scope ResourceAcknowledgment assignmentID) 0 acknowledgmentPayload,
                         create (service_Key scope ResourceOperationResult (req_OperationID request)) 0 resultPayload])))))))"

definition acknowledge_command :: "AssignmentID \<Rightarrow> AssignmentAcknowledgmentRequest \<Rightarrow> command" where
  "acknowledge_command assignmentID request =
     CommandAcknowledge (json_string assignmentID) (json_outcome (req_Outcome request)) (json_string (req_SessionID request))
       (req_ExpectedRosterVersion request) (req_ResultingRosterVersion request) (json_code (req_FailureCode request))
       (json_string (req_Reason request))"

definition Assignments_Acknowledge ::
  "'s RepositoryInterface \<Rightarrow> digester \<Rightarrow> Time \<Rightarrow> string \<Rightarrow> AssignmentID \<Rightarrow> AssignmentAcknowledgmentRequest \<Rightarrow>
     ('s, AssignmentMutation) action" where
  "Assignments_Acknowledge repo digest now scope assignmentID request =
     (if assignmentID = '''' then act_fail (ErrFailure FailureInvalidInput)
      else act_let (service_operation scope (req_OperationID request) ''assignment.acknowledge''
                (digest (acknowledge_command assignmentID request)) now) (\<lambda>operation.
      act_bind (repo_Replay repo operation) (\<lambda>replayed.
      case replayed of
        Some replay \<Rightarrow> replayedAssignmentMutation repo scope (req_OperationID request) ''assignment.acknowledge'' replay
      | None \<Rightarrow>
          act_bind (repo_Snapshot repo scope) (\<lambda>snapshot.
          act_let (acknowledge_prepare snapshot operation assignmentID request) (\<lambda>(assignment, mutations).
          act_try (repo_Commit repo operation mutations) (\<lambda>committed.
          case committed of
            Inr result \<Rightarrow> act_ok \<lparr>asm_Record = \<lparr>asr_Assignment = assignment, asr_StorageVersion = cr_Version result\<rparr>,
                               asm_Replayed = cr_Replayed result\<rparr>
          | Inl e \<Rightarrow>
              act_bind (repo_Replay repo operation) (\<lambda>again.
              case again of
                Some replay \<Rightarrow> replayedAssignmentMutation repo scope (req_OperationID request) ''assignment.acknowledge'' replay
              | None \<Rightarrow> act_fail (if IsConflict e then ErrFailure FailureInvalidTransition else e))))))))"

definition Assignments_Get ::
  "'s RepositoryInterface \<Rightarrow> string \<Rightarrow> AssignmentID \<Rightarrow> ('s, AssignmentRecord option) action" where
  "Assignments_Get repo scope assignmentID =
     (if assignmentID = '''' then act_fail (ErrFailure FailureInvalidInput)
      else act_bind (repo_Snapshot repo scope) (\<lambda>snapshot.
        case live_resource snapshot (service_Key scope ResourceAssignment assignmentID) of
          None \<Rightarrow> act_ok None
        | Some resource \<Rightarrow>
            act_let (decodeAssignment (rsc_Payload resource)) (\<lambda>assignment.
            act_ok (Some \<lparr>asr_Assignment = assignment, asr_StorageVersion = rsc_Version resource\<rparr>))))"

definition Assignments_Snapshot :: "'s RepositoryInterface \<Rightarrow> string \<Rightarrow> ('s, AssignmentSnapshot) action" where
  "Assignments_Snapshot repo scope =
     act_bind (repo_Snapshot repo scope) (\<lambda>snapshot.
     act_let (decode_all (\<lambda>resource. map_sum id (\<lambda>assignment. \<lparr>asr_Assignment = assignment, asr_StorageVersion = rsc_Version resource\<rparr>)
                (decodeAssignment (rsc_Payload resource)))
                (filter (\<lambda>resource. key_Kind (rsc_Key resource) = ResourceAssignment \<and> \<not> rsc_Deleted resource)
                  (rsn_Resources snapshot))) (\<lambda>records.
     act_ok \<lparr>ass_RepositoryVersion = rsn_Version snapshot,
       ass_Records = sort_cmp (\<lambda>left right. go_cmp (asg_ID (asr_Assignment left)) (asg_ID (asr_Assignment right))) records\<rparr>))"

end
