(* ===== verification/Service_Planning.thy ===== *)
theory Service_Planning
  imports Service Planner
begin

text \<open>
  Planning runs, \<open>planning_runs.go\<close>, and the candidate index, \<open>candidate_index.go\<close>. A run is
  captured by one commit (the run and the snapshot it plans), planned outside of any transaction, and
  completed by another (the run, its proposals and its unmatched tickets). Another client may resume
  a captured run, so both commits can find that the work is done.

  The planner is an argument, as in the code; \<open>planner.Plan\<close> is its default.
\<close>

type_synonym plan_func = "MatchmakingSnapshot \<Rightarrow> ProposalBatch result"

record PlanningRunMutation =
  pnm_Run :: PlanningRunRecord
  pnm_Replayed :: bool

record ProposalSnapshot =
  pos_RunStorageVersion :: Version
  pos_Records :: "ProposalRecord list"

record UnmatchedSnapshot =
  ums_RunStorageVersion :: Version
  ums_Records :: "UnmatchedRecord list"

definition maxPlanningCompletionAttempts :: nat where
  "maxPlanningCompletionAttempts = 8"

definition BatchScoreEvidence_zero :: BatchScoreEvidence where
  "BatchScoreEvidence_zero =
     \<lparr>be_CandidateProposals = 0, be_SelectedProposals = 0, be_SelectedBackfills = 0, be_WaitPriorityEligibleDemands = 0,
      be_WaitPrioritySelectedDemands = 0, be_OldestWaitPriorityMillis = 0, be_OldestSelectedPriorityMillis = 0,
      be_TotalUtility = 0, be_CandidateGenerationNodes = 0, be_CandidateGenerationTruncated = False,
      be_SelectionNodes = 0, be_SelectionTruncated = False\<rparr>"

section \<open>The input of a run\<close>

text \<open>The loop over the resources of the snapshot; the tickets are appended in its order.\<close>

fun planning_demand ::
  "document RepositorySnapshot \<Rightarrow> string \<Rightarrow> document Resource list \<Rightarrow> MatchTicket list \<Rightarrow> BackfillTicket list \<Rightarrow>
     go_err + (MatchTicket list \<times> BackfillTicket list)" where
  "planning_demand snapshot scope [] matches backfills = Inr (matches, backfills)"
| "planning_demand snapshot scope (resource # rest) matches backfills =
     (if rsc_Deleted resource then planning_demand snapshot scope rest matches backfills
      else if key_Kind (rsc_Key resource) = ResourceMatchTicket
      then (case decodeMatchTicket (rsc_Payload resource) of Inl e \<Rightarrow> Inl e | Inr ticket \<Rightarrow>
            (case validateDemandIdentity snapshot scope ResourceMatchTicket (mt_ID ticket) of Some e \<Rightarrow> Inl e | None \<Rightarrow>
              planning_demand snapshot scope rest (matches @ [ticket]) backfills))
      else if key_Kind (rsc_Key resource) = ResourceBackfillTicket
      then (case decodeBackfillTicket (rsc_Payload resource) of Inl e \<Rightarrow> Inl e | Inr ticket \<Rightarrow>
            (case validateDemandIdentity snapshot scope ResourceBackfillTicket (bt_ID ticket) of Some e \<Rightarrow> Inl e | None \<Rightarrow>
            (case validateBackfillSessionClaim snapshot scope (bt_SessionID ticket) (bt_ID ticket) of Some e \<Rightarrow> Inl e | None \<Rightarrow>
              planning_demand snapshot scope rest matches (backfills @ [ticket]))))
      else planning_demand snapshot scope rest matches backfills)"

definition planningInput ::
  "hash \<Rightarrow> document RepositorySnapshot \<Rightarrow> string \<Rightarrow> string \<Rightarrow> string \<Rightarrow> Time \<Rightarrow> go_err + (MatchmakingSnapshot \<times> PolicyFingerprint)" where
  "planningInput sha256 snapshot scope runID policyVersion now =
     (case live_resource snapshot (service_Key scope ResourcePolicy policyVersion) of
        None \<Rightarrow> Inl (ErrFailure FailureInvalidInput)
      | Some policyResource \<Rightarrow>
          (case decodePolicy sha256 (rsc_Payload policyResource) of Inl e \<Rightarrow> Inl e | Inr (policy, fingerprint) \<Rightarrow>
           (case planning_demand snapshot scope (rsn_Resources snapshot) [] [] of Inl e \<Rightarrow> Inl e | Inr (matches, backfills) \<Rightarrow>
            let input = \<lparr>snap_ID = runID, snap_Now = now, snap_MatchTickets = matches, snap_BackfillTickets = backfills, snap_Policy = policy\<rparr>
            in (case ValidateSnapshot input of Some e \<Rightarrow> Inl (ErrFailure e) | None \<Rightarrow> Inr (input, fingerprint)))))"

section \<open>The check of a batch\<close>

fun check_references ::
  "(TicketID, Revision) go_map \<Rightarrow> TicketID list \<Rightarrow> TicketRef list \<Rightarrow> go_err + TicketID list" where
  "check_references matchTickets selected [] = Inr selected"
| "check_references matchTickets selected (reference # rest) =
     (if map_of matchTickets (ref_ID reference) \<noteq> Some (ref_Revision reference) then Inl ErrOther
      else if ref_ID reference \<in> set selected then Inl ErrOther
      else check_references matchTickets (ref_ID reference # selected) rest)"

text \<open>The state of the loop over the proposals: their identities, the selected tickets, the selected backfills.\<close>

fun check_proposals ::
  "MatchmakingPolicy \<Rightarrow> PolicyFingerprint \<Rightarrow> (TicketID, Revision) go_map \<Rightarrow> (TicketID, BackfillTicket) go_map \<Rightarrow>
     ProposalID list \<Rightarrow> TicketID list \<Rightarrow> TicketID list \<Rightarrow> MatchProposal list \<Rightarrow> go_err + (TicketID list \<times> TicketID list)" where
  "check_proposals policy fingerprint matchTickets backfillTickets proposalIDs selected selectedBackfillIDs [] =
     Inr (selected, selectedBackfillIDs)"
| "check_proposals policy fingerprint matchTickets backfillTickets proposalIDs selected selectedBackfillIDs (proposal # rest) =
     (case ValidateProposal proposal of
        Some e \<Rightarrow> Inl (ErrFailure e)
      | None \<Rightarrow>
          if prop_PolicyVersion proposal \<noteq> pol_Version policy \<or> prop_PolicyFingerprint proposal \<noteq> fingerprint then Inl ErrOther
          else if prop_ID proposal \<in> set proposalIDs then Inl ErrOther
          else (case check_references matchTickets selected (prop_Tickets proposal) of
                  Inl e \<Rightarrow> Inl e
                | Inr selected \<Rightarrow>
                    (case prop_Backfill proposal of
                       None \<Rightarrow> check_proposals policy fingerprint matchTickets backfillTickets (prop_ID proposal # proposalIDs)
                                selected selectedBackfillIDs rest
                     | Some target \<Rightarrow>
                         (case map_of backfillTickets (ref_ID (tgt_Ticket target)) of
                            None \<Rightarrow> Inl ErrOther
                          | Some ticket \<Rightarrow>
                              if bt_Revision ticket \<noteq> ref_Revision (tgt_Ticket target) \<or>
                                 bt_SessionID ticket \<noteq> tgt_SessionID target \<or>
                                 bt_RosterVersion ticket \<noteq> tgt_RosterVersion target then Inl ErrOther
                              else if bt_ID ticket \<in> set selectedBackfillIDs then Inl ErrOther
                              else check_proposals policy fingerprint matchTickets backfillTickets (prop_ID proposal # proposalIDs)
                                     selected (bt_ID ticket # selectedBackfillIDs) rest))))"

fun check_unmatched ::
  "(TicketID, Revision) go_map \<Rightarrow> TicketID list \<Rightarrow> TicketID list \<Rightarrow> UnmatchedTicket list \<Rightarrow> go_err + TicketID list" where
  "check_unmatched matchTickets selected unmatched [] = Inr unmatched"
| "check_unmatched matchTickets selected unmatched (q # rest) =
     (let reference = um_Ticket q
      in if map_of matchTickets (ref_ID reference) \<noteq> Some (ref_Revision reference) then Inl ErrOther
         else if ref_ID reference \<in> set selected then Inl ErrOther
         else if ref_ID reference \<in> set unmatched then Inl ErrOther
         else check_unmatched matchTickets selected (ref_ID reference # unmatched) rest)"

definition match_index :: "MatchTicket list \<Rightarrow> (TicketID, Revision) go_map" where
  "match_index tickets = foldl (\<lambda>m ticket. AList.update (mt_ID ticket) (mt_Revision ticket) m) [] tickets"

definition backfill_index :: "BackfillTicket list \<Rightarrow> (TicketID, BackfillTicket) go_map" where
  "backfill_index tickets = foldl (\<lambda>m ticket. AList.update (bt_ID ticket) ticket m) [] tickets"

definition validatePlanningBatch ::
  "hash \<Rightarrow> MatchmakingSnapshot \<Rightarrow> PlanningRunRecord \<Rightarrow> ProposalBatch \<Rightarrow> go_err option" where
  "validatePlanningBatch sha256 input run batch =
     (if batch_SnapshotID batch \<noteq> prn_SnapshotID run \<or> batch_SnapshotID batch \<noteq> snap_ID input then Some ErrOther
      else (case FingerprintPolicy sha256 (snap_Policy input) of
        Inl e \<Rightarrow> Some (ErrFailure e)
      | Inr fingerprint \<Rightarrow>
          if prn_PolicyVersion run \<noteq> pol_Version (snap_Policy input) \<or> prn_PolicyFingerprint run \<noteq> fingerprint then Some ErrOther
          else let matchTickets = match_index (snap_MatchTickets input);
                   backfillTickets = backfill_index (snap_BackfillTickets input)
               in (case check_proposals (snap_Policy input) fingerprint matchTickets backfillTickets [] [] [] (batch_Proposals batch) of
                     Inl e \<Rightarrow> Some e
                   | Inr (selected, selectedBackfillIDs) \<Rightarrow>
                       (case check_unmatched matchTickets selected [] (batch_Unmatched batch) of
                          Inl e \<Rightarrow> Some e
                        | Inr unmatched \<Rightarrow>
                            if length selected + length unmatched \<noteq> length matchTickets then Some ErrOther
                            else if be_SelectedProposals (batch_Evidence batch) \<noteq> length (batch_Proposals batch) \<or>
                                    be_SelectedBackfills (batch_Evidence batch) \<noteq> length selectedBackfillIDs
                            then Some ErrOther else None))))"

section \<open>Reading runs\<close>

definition PlanningRuns_Get ::
  "'s RepositoryInterface \<Rightarrow> string \<Rightarrow> string \<Rightarrow> ('s, PlanningRunRecord option) action" where
  "PlanningRuns_Get repo scope runID =
     act_bind (repo_Snapshot repo scope) (\<lambda>snapshot.
     case live_resource snapshot (service_Key scope ResourcePlanningRun runID) of
       None \<Rightarrow> act_ok None
     | Some resource \<Rightarrow>
         act_let (decodePlanningRun (rsc_Payload resource)) (\<lambda>run.
         act_ok (Some (run\<lparr>prn_StorageVersion := rsc_Version resource\<rparr>))))"

definition completedRun :: "document RepositorySnapshot \<Rightarrow> string \<Rightarrow> string \<Rightarrow> go_err + PlanningRunRecord" where
  "completedRun snapshot scope runID =
     (case live_resource snapshot (service_Key scope ResourcePlanningRun runID) of
        None \<Rightarrow> Inl ErrResourceNotFound
      | Some resource \<Rightarrow>
          (case decodePlanningRun (rsc_Payload resource) of
             Inl e \<Rightarrow> Inl e
           | Inr run \<Rightarrow>
               if prn_Status run \<noteq> PlanningRunCompleted then Inl (ErrFailure FailureInvalidTransition)
               else Inr (run\<lparr>prn_StorageVersion := rsc_Version resource\<rparr>)))"

definition live_kind :: "string \<Rightarrow> document RepositorySnapshot \<Rightarrow> document Resource list" where
  "live_kind kind snapshot =
     filter (\<lambda>resource. key_Kind (rsc_Key resource) = kind \<and> \<not> rsc_Deleted resource) (rsn_Resources snapshot)"

definition PlanningRuns_Proposals ::
  "'s RepositoryInterface \<Rightarrow> string \<Rightarrow> string \<Rightarrow> ('s, ProposalSnapshot) action" where
  "PlanningRuns_Proposals repo scope runID =
     act_bind (repo_Snapshot repo scope) (\<lambda>snapshot.
     act_let (completedRun snapshot scope runID) (\<lambda>run.
     act_let (decode_all (\<lambda>resource. map_sum id (\<lambda>q. q\<lparr>prp_StorageVersion := rsc_Version resource\<rparr>) (decodeProposal (rsc_Payload resource)))
                (live_kind ResourceProposal snapshot)) (\<lambda>all.
     let records = sort_cmp (\<lambda>left right. go_cmp (prop_ID (prp_Proposal left)) (prop_ID (prp_Proposal right)))
                     (filter (\<lambda>q. prp_RunID q = runID) all)
     in if int (length records) \<noteq> prn_ProposalCount run then act_fail ErrOther
        else act_ok \<lparr>pos_RunStorageVersion = prn_StorageVersion run, pos_Records = records\<rparr>)))"

definition PlanningRuns_Unmatched ::
  "'s RepositoryInterface \<Rightarrow> string \<Rightarrow> string \<Rightarrow> ('s, UnmatchedSnapshot) action" where
  "PlanningRuns_Unmatched repo scope runID =
     act_bind (repo_Snapshot repo scope) (\<lambda>snapshot.
     act_let (completedRun snapshot scope runID) (\<lambda>run.
     act_let (decode_all (\<lambda>resource. map_sum id (\<lambda>q. q\<lparr>umr_StorageVersion := rsc_Version resource\<rparr>) (decodeUnmatched (rsc_Payload resource)))
                (live_kind ResourcePlanningUnmatched snapshot)) (\<lambda>all.
     let records = sort_cmp (\<lambda>left right. go_cmp (ref_ID (um_Ticket (umr_Unmatched left))) (ref_ID (um_Ticket (umr_Unmatched right))))
                     (filter (\<lambda>q. umr_RunID q = runID) all)
     in if int (length records) \<noteq> prn_UnmatchedCount run then act_fail ErrOther
        else act_ok \<lparr>ums_RunStorageVersion = prn_StorageVersion run, ums_Records = records\<rparr>)))"

definition PlanningRuns_Proposal ::
  "'s RepositoryInterface \<Rightarrow> string \<Rightarrow> ProposalID \<Rightarrow> ('s, ProposalRecord option) action" where
  "PlanningRuns_Proposal repo scope proposalID =
     act_bind (repo_Snapshot repo scope) (\<lambda>snapshot.
     case live_resource snapshot (service_Key scope ResourceProposal proposalID) of
       None \<Rightarrow> act_ok None
     | Some resource \<Rightarrow>
         act_let (decodeProposal (rsc_Payload resource)) (\<lambda>q.
         act_ok (Some (q\<lparr>prp_StorageVersion := rsc_Version resource\<rparr>))))"

definition load_run ::
  "hash \<Rightarrow> document RepositorySnapshot \<Rightarrow> string \<Rightarrow> string \<Rightarrow> go_err + (PlanningRunRecord \<times> PlanningSnapshot)" where
  "load_run sha256 snapshot scope runID =
     (case live_resource snapshot (service_Key scope ResourcePlanningRun runID) of
        None \<Rightarrow> Inl ErrResourceNotFound
      | Some runResource \<Rightarrow>
          (case decodePlanningRun (rsc_Payload runResource) of Inl e \<Rightarrow> Inl e | Inr stored \<Rightarrow>
           let run = stored\<lparr>prn_StorageVersion := rsc_Version runResource\<rparr>
           in (case live_resource snapshot (service_Key scope ResourcePlanningSnapshot runID) of
                 None \<Rightarrow> Inl ErrOther
               | Some snapshotResource \<Rightarrow>
                   (case decodePlanningSnapshot sha256 (rsc_Payload snapshotResource) of Inl e \<Rightarrow> Inl e | Inr planningSnapshot \<Rightarrow>
                    if psn_repositoryVersion planningSnapshot \<noteq> prn_SourceRepositoryVersion run \<or>
                       snap_ID (MatchmakingInput planningSnapshot) \<noteq> prn_SnapshotID run then Inl ErrOther
                    else let input = MatchmakingInput planningSnapshot
                         in (case FingerprintPolicy sha256 (snap_Policy input) of Inl e \<Rightarrow> Inl (ErrFailure e) | Inr fingerprint \<Rightarrow>
                             if pol_Version (snap_Policy input) \<noteq> prn_PolicyVersion run \<or> fingerprint \<noteq> prn_PolicyFingerprint run
                             then Inl ErrOther else Inr (run, planningSnapshot))))))"

section \<open>Executing runs\<close>

definition complete_mutations ::
  "hash \<Rightarrow> document Resource \<Rightarrow> string \<Rightarrow> string \<Rightarrow> document \<Rightarrow> MatchProposal list \<Rightarrow> document list \<Rightarrow> UnmatchedTicket list \<Rightarrow> document list \<Rightarrow>
     document Mutation list" where
  "complete_mutations sha256 resource scope runID runPayload proposals proposalPayloads unmatched unmatchedPayloads =
     create (service_Key scope ResourcePlanningRun runID) (rsc_Version resource) runPayload #
     map (\<lambda>(proposal, payload). create (service_Key scope ResourceProposal (prop_ID proposal)) 0 payload) (zip proposals proposalPayloads) @
     map (\<lambda>(q, payload). create (service_Key scope ResourcePlanningUnmatched (unmatchedResourceID sha256 runID (ref_ID (um_Ticket q)))) 0 payload)
       (zip unmatched unmatchedPayloads)"

fun complete_attempts ::
  "hash \<Rightarrow> 's RepositoryInterface \<Rightarrow> nat \<Rightarrow> string \<Rightarrow> string \<Rightarrow> bool \<Rightarrow> Operation \<Rightarrow> (document Resource \<Rightarrow> document Mutation list) \<Rightarrow>
     ('s, PlanningRunMutation) action" where
  "complete_attempts sha256 repo 0 scope runID replayed operation mutations_of = act_fail (ErrFailure FailureStaleSnapshot)"
| "complete_attempts sha256 repo (Suc attempts) scope runID replayed operation mutations_of =
     act_bind (repo_Snapshot repo scope) (\<lambda>snapshot.
     case live_resource snapshot (service_Key scope ResourcePlanningRun runID) of
       None \<Rightarrow> act_fail ErrOther
     | Some resource \<Rightarrow>
         act_let (decodePlanningRun (rsc_Payload resource)) (\<lambda>current.
         if prn_Status current = PlanningRunCompleted
         then act_ok \<lparr>pnm_Run = current\<lparr>prn_StorageVersion := rsc_Version resource\<rparr>, pnm_Replayed = replayed\<rparr>
         else act_try (repo_Commit repo operation (mutations_of resource)) (\<lambda>committed.
           case committed of
             Inr result \<Rightarrow>
               act_bind (PlanningRuns_Get repo scope runID) (\<lambda>final.
               case final of
                 Some run \<Rightarrow>
                   if prn_Status run \<noteq> PlanningRunCompleted then act_fail ErrOther
                   else act_ok \<lparr>pnm_Run = run, pnm_Replayed = replayed \<or> cr_Replayed result\<rparr>
               | None \<Rightarrow> act_fail ErrOther)
           | Inl e \<Rightarrow>
               if \<not> IsConflict e then act_fail e
               else complete_attempts sha256 repo attempts scope runID replayed operation mutations_of)))"

definition complete_run :: "PlanningRunRecord \<Rightarrow> ProposalBatch \<Rightarrow> Time \<Rightarrow> PlanningRunRecord" where
  "complete_run initial batch now =
     initial\<lparr>prn_Status := PlanningRunCompleted, prn_CompletedAt := now,
       prn_ProposalCount := int (length (batch_Proposals batch)), prn_UnmatchedCount := int (length (batch_Unmatched batch)),
       prn_BudgetExhausted := batch_BudgetExhausted batch, prn_Evidence := batch_Evidence batch\<rparr>"

definition PlanningRuns_complete ::
  "hash \<Rightarrow> 's RepositoryInterface \<Rightarrow> digester \<Rightarrow> Time \<Rightarrow> string \<Rightarrow> PlanningRunRecord \<Rightarrow> ProposalBatch \<Rightarrow> bool \<Rightarrow>
     ('s, PlanningRunMutation) action" where
  "PlanningRuns_complete sha256 repo digest now scope initial batch replayed =
     (let completed = complete_run initial batch now
      in act_let (encodePlanningRun completed) (\<lambda>runPayload.
         act_let (decode_all (encodeProposal (prn_ID initial)) (batch_Proposals batch)) (\<lambda>proposalPayloads.
         act_let (decode_all (encodeUnmatched (prn_ID initial)) (batch_Unmatched batch)) (\<lambda>unmatchedPayloads.
         act_let (encodePlanningCompletionCommand completed proposalPayloads unmatchedPayloads) (\<lambda>canonical.
         complete_attempts sha256 repo maxPlanningCompletionAttempts scope (prn_ID initial) replayed
           \<lparr>op_Scope = scope, op_ID = ''/planning.complete/'' @ prn_ID initial, op_Kind = ''planning_run.complete'',
            op_Digest = digest canonical, op_At = now\<rparr>
           (\<lambda>resource. complete_mutations sha256 resource scope (prn_ID initial) runPayload (batch_Proposals batch) proposalPayloads
              (batch_Unmatched batch) unmatchedPayloads))))))"

definition PlanningRuns_resume ::
  "hash \<Rightarrow> plan_func \<Rightarrow> 's RepositoryInterface \<Rightarrow> digester \<Rightarrow> Time \<Rightarrow> string \<Rightarrow> string \<Rightarrow> bool \<Rightarrow> ('s, PlanningRunMutation) action" where
  "PlanningRuns_resume sha256 plan repo digest now scope runID replayed =
     act_bind (repo_Snapshot repo scope) (\<lambda>snapshot.
     act_let (load_run sha256 snapshot scope runID) (\<lambda>(run, planningSnapshot).
     if prn_Status run = PlanningRunCompleted then act_ok \<lparr>pnm_Run = run, pnm_Replayed = replayed\<rparr>
     else act_let (map_sum ErrFailure id (plan (MatchmakingInput planningSnapshot))) (\<lambda>batch.
       act_check (validatePlanningBatch sha256 (MatchmakingInput planningSnapshot) run batch)
         (PlanningRuns_complete sha256 repo digest now scope run batch replayed))))"

definition resumeCapturedOperation ::
  "hash \<Rightarrow> plan_func \<Rightarrow> 's RepositoryInterface \<Rightarrow> digester \<Rightarrow> Time \<Rightarrow> Operation \<Rightarrow> string \<Rightarrow> string \<Rightarrow>
     ('s, PlanningRunMutation option) action" where
  "resumeCapturedOperation sha256 plan repo digest now operation scope runID =
     act_bind (repo_Replay repo operation) (\<lambda>replayed.
     case replayed of
       None \<Rightarrow> act_ok None
     | Some _ \<Rightarrow> act_bind (PlanningRuns_resume sha256 plan repo digest now scope runID True) (\<lambda>result. act_ok (Some result)))"

text \<open>What the capture prepares from a snapshot.\<close>

definition capture_mutations ::
  "hash \<Rightarrow> document RepositorySnapshot \<Rightarrow> string \<Rightarrow> string \<Rightarrow> string \<Rightarrow> Time \<Rightarrow> go_err + document Mutation list" where
  "capture_mutations sha256 snapshot scope runID policyVersion commandAt =
     (case planningInput sha256 snapshot scope runID policyVersion commandAt of Inl e \<Rightarrow> Inl e | Inr (input, fingerprint) \<Rightarrow>
     (case NewPlanningSnapshot (rsn_Version snapshot) input of Inl e \<Rightarrow> Inl e | Inr planningSnapshot \<Rightarrow>
     (case encodePlanningSnapshot sha256 planningSnapshot of Inl e \<Rightarrow> Inl e | Inr snapshotPayload \<Rightarrow>
     (case encodePlanningRun
             \<lparr>prn_ID = runID, prn_SnapshotID = snap_ID input, prn_PolicyVersion = policyVersion, prn_PolicyFingerprint = fingerprint,
              prn_SourceRepositoryVersion = rsn_Version snapshot, prn_CapturedAt = commandAt, prn_CompletedAt = 0,
              prn_Status = PlanningRunPlanning, prn_ProposalCount = 0, prn_UnmatchedCount = 0, prn_BudgetExhausted = False,
              prn_Evidence = BatchScoreEvidence_zero, prn_StorageVersion = 0\<rparr> of Inl e \<Rightarrow> Inl e | Inr runPayload \<Rightarrow>
      Inr [create (service_Key scope ResourcePlanningRun runID) 0 runPayload,
           create (service_Key scope ResourcePlanningSnapshot runID) 0 snapshotPayload]))))"

definition PlanningRuns_Execute ::
  "hash \<Rightarrow> plan_func \<Rightarrow> 's RepositoryInterface \<Rightarrow> digester \<Rightarrow> Time \<Rightarrow> Time \<Rightarrow> string \<Rightarrow> OperationID \<Rightarrow> string \<Rightarrow> string \<Rightarrow>
     ('s, PlanningRunMutation) action" where
  "PlanningRuns_Execute sha256 plan repo digest commandAt completedAt scope operationID runID policyVersion =
     (if runID = '''' \<or> policyVersion = '''' then act_fail (ErrFailure FailureInvalidInput)
      else act_let (service_operation scope operationID ''planning_run.capture''
                (digest (CommandPlanningExecute (json_string runID) (json_string policyVersion))) commandAt) (\<lambda>operation.
      act_bind (resumeCapturedOperation sha256 plan repo digest completedAt operation scope runID) (\<lambda>captured.
      case captured of Some result \<Rightarrow> act_ok result | None \<Rightarrow>
      act_bind (repo_Snapshot repo scope) (\<lambda>snapshot.
      if findResource snapshot (service_Key scope ResourcePlanningRun runID) \<noteq> None
      then act_bind (resumeCapturedOperation sha256 plan repo digest completedAt operation scope runID) (\<lambda>captured.
           case captured of Some result \<Rightarrow> act_ok result | None \<Rightarrow> act_fail (ErrFailure FailureInvalidRevision))
      else act_let (capture_mutations sha256 snapshot scope runID policyVersion commandAt) (\<lambda>mutations.
        act_try (repo_Commit repo operation mutations) (\<lambda>committed.
        case committed of
          Inl e \<Rightarrow>
            if IsConflict e
            then act_bind (resumeCapturedOperation sha256 plan repo digest completedAt operation scope runID) (\<lambda>captured.
                 case captured of Some result \<Rightarrow> act_ok result | None \<Rightarrow> act_fail (ErrFailure FailureInvalidRevision))
            else act_fail e
        | Inr result \<Rightarrow> PlanningRuns_resume sha256 plan repo digest completedAt scope runID (cr_Replayed result)))))))"

section \<open>The candidate index\<close>

record CandidateIndex =
  cix_repositoryVersion :: Version
  cix_index :: Index

definition cloneTickets :: "MatchTicket list \<Rightarrow> MatchTicket list" where
  "cloneTickets tickets = map CloneMatchTicket tickets"

definition BuildCandidateIndex :: "PlanningSnapshot \<Rightarrow> CandidateIndex" where
  "BuildCandidateIndex snapshot =
     \<lparr>cix_repositoryVersion = psn_repositoryVersion snapshot,
      cix_index = BuildIndex (cloneTickets (snap_MatchTickets (psn_input snapshot)))\<rparr>"

definition CandidateIndex_SelectWindow :: "CandidateIndex \<Rightarrow> PlanningSnapshot \<Rightarrow> int list \<Rightarrow> int \<Rightarrow> go_err + Window" where
  "CandidateIndex_SelectWindow index snapshot slots limit =
     (if psn_repositoryVersion snapshot \<noteq> cix_repositoryVersion index then Inl (ErrFailure FailureStaleSnapshot)
      else let window = Index_SelectWindow (cix_index index) slots limit
           in Inr (window\<lparr>win_Tickets := cloneTickets (win_Tickets window)\<rparr>))"

end
