(* ===== verification/Service_Inv.thy ===== *)
theory Service_Inv
  imports Service_Tickets Service_Policies Service_Assignments Service_Planning
begin

text \<open>
  What holds of the store in every interleaving of service commands. A command reads a snapshot of
  some moment and commits later, when other commands may have committed in between. The commit
  compares the versions of the resources it writes, and only of those. \<open>transaction b op ms\<close> says that
  some command, having read the store \<open>b\<close>, commits \<open>ms\<close>; a history is a sequence of stores where each
  arises by committing a transaction that was prepared from any earlier one.

  The invariant speaks about claims: a live reservation holds exactly the claims of its tickets, a
  live backfill holds its session, a live ticket holds its identity.
\<close>

section \<open>Reading a snapshot\<close>

lemma find_unique:
  assumes "distinct (map f xs)"
  shows "List.find (\<lambda>x. f x = k) xs = Some x \<longleftrightarrow> x \<in> set xs \<and> f x = k"
  using assms by (induction xs) auto

lemma find_absent: "List.find (\<lambda>x. f x = k) xs = None \<longleftrightarrow> (\<forall>x\<in>set xs. f x \<noteq> k)"
  by (auto simp: find_None_iff)

lemma findResource_snapshot:
  assumes "mem_inv b" "Memory_Snapshot scope b = Inr snap" "key_Scope k = scope"
  shows "findResource snap k = resource_at b k"
proof (rule option.expand)
  note snap = Memory_Snapshot_resources [OF assms(1,2)]
  have some: "findResource snap k = Some r \<longleftrightarrow> resource_at b k = Some r" for r
  proof -
    have "findResource snap k = Some r \<longleftrightarrow> r \<in> set (rsn_Resources snap) \<and> rsc_Key r = k"
      unfolding findResource_def by (rule find_unique [OF snap(2)])
    also have "\<dots> \<longleftrightarrow> (\<exists>k'. resource_at b k' = Some r \<and> key_Scope k' = scope) \<and> rsc_Key r = k"
      unfolding snap(1) by blast
    also have "\<dots> \<longleftrightarrow> resource_at b k = Some r"
      using mem_invD(1) [OF assms(1)] assms(3) by blast
    finally show ?thesis .
  qed
  show "(findResource snap k = None) = (resource_at b k = None)"
    using some by (metis not_None_eq)
  show "findResource snap k \<noteq> None \<Longrightarrow> resource_at b k \<noteq> None \<Longrightarrow> the (findResource snap k) = the (resource_at b k)"
    using some by (metis option.collapse option.sel)
qed

text \<open>The document of a live resource.\<close>

definition live :: "store \<Rightarrow> string \<Rightarrow> string \<Rightarrow> string \<Rightarrow> document option" where
  "live b scope kind ident =
     (case resource_at b (service_Key scope kind ident) of None \<Rightarrow> None | Some r \<Rightarrow> if rsc_Deleted r then None else rsc_Payload r)"

lemma live_resource_snapshot:
  assumes "mem_inv b" "Memory_Snapshot scope b = Inr snap"
  shows "live_resource snap (service_Key scope kind ident) = Some r \<longleftrightarrow>
      resource_at b (service_Key scope kind ident) = Some r \<and> \<not> rsc_Deleted r"
    "live_resource snap (service_Key scope kind ident) = None \<longleftrightarrow> live b scope kind ident = None"
proof -
  have "live_resource snap (service_Key scope kind ident) =
      (case resource_at b (service_Key scope kind ident) of None \<Rightarrow> None | Some r \<Rightarrow> if rsc_Deleted r then None else Some r)"
    by (simp add: live_resource_def findResource_snapshot [OF assms])
  then show "live_resource snap (service_Key scope kind ident) = Some r \<longleftrightarrow>
      resource_at b (service_Key scope kind ident) = Some r \<and> \<not> rsc_Deleted r"
    "live_resource snap (service_Key scope kind ident) = None \<longleftrightarrow> live b scope kind ident = None"
    using mem_invD(5) [OF assms(1)] by (auto simp: live_def split: option.splits)
qed

section \<open>Compare and swap\<close>

text \<open>A resource whose version is still the one that was read is the one that was read.\<close>

lemma unchanged:
  assumes "mem_inv b0" "mem_evolves b0 b" "actual_version b k = actual_version b0 k"
  shows "resource_at b k = resource_at b0 k"
proof (rule ccontr)
  assume "resource_at b k \<noteq> resource_at b0 k"
  with assms(2) obtain r where r: "resource_at b k = Some r" "mem_version b0 < rsc_Version r"
    by (auto simp: mem_evolves_def)
  then have "rsc_Version r = actual_version b0 k" using assms(3) by (simp add: actual_version_def)
  moreover have "actual_version b0 k \<le> mem_version b0"
    using mem_invD(4) [OF assms(1)] by (auto simp: actual_version_def split: option.splits)
  ultimately show False using r(2) by simp
qed

text \<open>The store after a commit took effect, read at one kind of resource.\<close>

lemma live_committed_mem:
  assumes "effective op ms b" "m \<in> set ms" "mut_Key m = service_Key scope kind ident"
  shows "live (committed op ms b) scope kind ident = mut_Payload m"
proof -
  have dis: "distinct (map mut_Key ms)" and val: "valid_mutation (op_Scope op) m"
    using assms by (simp_all add: effective_def valid_transaction_def)
  show ?thesis
    using committed_resource_mem [OF dis assms(2), of op b] assms(3) val by (simp add: live_def written_def valid_mutation_def)
qed

lemma live_committed_other:
  assumes "\<forall>m\<in>set ms. mut_Key m \<noteq> service_Key scope kind ident"
  shows "live (committed op ms b) scope kind ident = live b scope kind ident"
proof -
  have "service_Key scope kind ident \<notin> mut_Key ` set ms" using assms by force
  then show ?thesis by (simp add: live_def committed_resource_other)
qed

text \<open>What a command read of a resource that it writes still holds when its commit takes effect.\<close>

lemma live_at_commit:
  assumes "mem_inv b0" "mem_evolves b0 b" "effective op ms b" "m \<in> set ms"
    "mut_Key m = service_Key scope kind ident" "mut_ExpectedVersion m = actual_version b0 (mut_Key m)"
  shows "live b scope kind ident = live b0 scope kind ident"
    "resource_at b (service_Key scope kind ident) = resource_at b0 (service_Key scope kind ident)"
proof -
  have "actual_version b (mut_Key m) = actual_version b0 (mut_Key m)"
    using assms(3,4,6) by (simp add: effective_def)
  with unchanged [OF assms(1,2)] assms(5)
  show "resource_at b (service_Key scope kind ident) = resource_at b0 (service_Key scope kind ident)" by metis
  then show "live b scope kind ident = live b0 scope kind ident" by (simp add: live_def)
qed

section \<open>Transactions\<close>

text \<open>
  Strings of a request arrive as valid UTF-8: bodies are decoded from JSON, identities in paths and
  headers match an ASCII pattern.
\<close>

definition wire_match_ticket :: "MatchTicket \<Rightarrow> bool" where
  "wire_match_ticket t \<longleftrightarrow> valid_utf8 (mt_ID t) \<and> map json_player (mt_Players t) = mt_Players t"

definition wire_backfill_ticket :: "BackfillTicket \<Rightarrow> bool" where
  "wire_backfill_ticket t \<longleftrightarrow> valid_utf8 (bt_ID t) \<and> valid_utf8 (bt_SessionID t) \<and>
     map json_team_summary (bt_ExistingTeams t) = bt_ExistingTeams t"

text \<open>
  The commits of the service commands: \<open>transaction sha256 b op ms\<close> when a command that read the
  store \<open>b\<close> commits \<open>ms\<close> as \<open>op\<close>.
\<close>

inductive transaction :: "hash \<Rightarrow> store \<Rightarrow> Operation \<Rightarrow> document Mutation list \<Rightarrow> bool"
  for sha256 :: hash and b :: store and op :: Operation where
  match_put: "transaction sha256 b op ms"
    if "Memory_Snapshot (op_Scope op) b = Inr snap" "ValidateMatchTicket ticket = None" "wire_match_ticket ticket"
      "encodeMatchTicket ticket = Inr payload" "match_put_mutations snap (op_Scope op) ticket payload = Inr ms"
| match_cancel: "transaction sha256 b op ms"
    if "Memory_Snapshot (op_Scope op) b = Inr snap" "match_cancel_mutations snap (op_Scope op) ident revision = Inr ms"
| backfill_put: "transaction sha256 b op ms"
    if "Memory_Snapshot (op_Scope op) b = Inr snap" "ValidateBackfillTicket backfill = None" "wire_backfill_ticket backfill"
      "encodeBackfillTicket backfill = Inr payload" "backfill_put_mutations snap (op_Scope op) backfill payload = Inr ms"
| backfill_cancel: "transaction sha256 b op ms"
    if "Memory_Snapshot (op_Scope op) b = Inr snap"
      "backfill_cancel_mutations snap (op_Scope op) ident revision roster = Inr ms"
| policy_put: "transaction sha256 b op ms"
    if "Memory_Snapshot (op_Scope op) b = Inr snap" "FingerprintPolicy sha256 policy = Inr fingerprint"
      "encodePolicy (canonicalPolicy policy) fingerprint = Inr payload"
      "policy_put_mutations sha256 snap (op_Scope op) (pol_Version policy) fingerprint payload = Inr ms"
| reserve: "transaction sha256 b op ms"
    if "Memory_Snapshot (op_Scope op) b = Inr snap" "valid_utf8 reservationID"
      "reserve_prepare snap ttl op reservationID proposalID = Inr (reservation, ms)"
| cancel: "transaction sha256 b op ms"
    if "Memory_Snapshot (op_Scope op) b = Inr snap" "reservation_cancel_prepare snap op reservationID = Inr (reservation, v, ms)"
| release: "transaction sha256 b op ms"
    if "Memory_Snapshot (op_Scope op) b = Inr snap"
      "live_resource snap (service_Key (op_Scope op) ResourceReservation reservationID) = Some resource"
      "decodeReservation (rsc_Payload resource) = Inr current" "res_Status current = ReservationActive"
      "status \<noteq> ReservationActive" "end_mutations snap (op_Scope op) resource current status = Inr ms"
| confirm: "transaction sha256 b op ms"
    if "Memory_Snapshot (op_Scope op) b = Inr snap"
      "confirm_prepare snap op reservationID assignmentID = Inr (Inr (assignment, ms))"
| acknowledge: "transaction sha256 b op ms"
    if "Memory_Snapshot (op_Scope op) b = Inr snap" "acknowledge_prepare snap op assignmentID request = Inr (assignment, ms)"
| capture: "transaction sha256 b op ms"
    if "Memory_Snapshot (op_Scope op) b = Inr snap" "capture_mutations sha256 snap (op_Scope op) runID version at = Inr ms"
| complete: "transaction sha256 b op ms"
    if "decode_all (encodeProposal runID) proposals = Inr proposalPayloads"
      "ms = complete_mutations sha256 resource (op_Scope op) runID runPayload proposals proposalPayloads unmatched unmatchedPayloads"

section \<open>The invariant\<close>

definition identity_doc :: "string \<Rightarrow> string \<Rightarrow> document" where
  "identity_doc kind ident =
     DocDemandIdentity \<lparr>dic_Schema = demandIdentityClaimSchema, dic_Kind = kind, dic_ID = ident\<rparr>"

definition session_doc :: "SessionID \<Rightarrow> TicketID \<Rightarrow> document" where
  "session_doc sessionID ident =
     DocBackfillSession \<lparr>bsc_Schema = backfillSessionClaimSchema, bsc_SessionID = sessionID, bsc_TicketID = ident\<rparr>"

text \<open>Every live ticket is readable, stands under its identity and owns it.\<close>

definition inv_identity :: "store \<Rightarrow> bool" where
  "inv_identity b \<longleftrightarrow> (\<forall>scope ident d.
     (live b scope ResourceMatchTicket ident = Some d \<longrightarrow>
        (\<exists>t. decodeMatchTicket (Some d) = Inr t \<and> mt_ID t = ident) \<and>
        live b scope ResourceDemandIdentity ident = Some (identity_doc ResourceMatchTicket ident)) \<and>
     (live b scope ResourceBackfillTicket ident = Some d \<longrightarrow>
        (\<exists>t. decodeBackfillTicket (Some d) = Inr t \<and> bt_ID t = ident) \<and>
        live b scope ResourceDemandIdentity ident = Some (identity_doc ResourceBackfillTicket ident)))"

text \<open>Live backfills and live claims on sessions correspond.\<close>

definition inv_session :: "store \<Rightarrow> bool" where
  "inv_session b \<longleftrightarrow> (\<forall>scope.
     (\<forall>ident d t. live b scope ResourceBackfillTicket ident = Some d \<longrightarrow> decodeBackfillTicket (Some d) = Inr t \<longrightarrow>
        live b scope ResourceBackfillSessionClaim (bt_SessionID t) = Some (session_doc (bt_SessionID t) ident)) \<and>
     (\<forall>sessionID d. live b scope ResourceBackfillSessionClaim sessionID = Some d \<longrightarrow>
        (\<exists>ident d' t. d = session_doc sessionID ident \<and> live b scope ResourceBackfillTicket ident = Some d' \<and>
           decodeBackfillTicket (Some d') = Inr t \<and> bt_SessionID t = sessionID)))"

text \<open>Active reservations and live claims on demand correspond.\<close>

definition claims :: "store \<Rightarrow> string \<Rightarrow> ReservationID \<Rightarrow> TicketRef \<Rightarrow> bool" where
  "claims b scope reservationID reference \<longleftrightarrow>
     (\<exists>d claim. live b scope ResourceDemandReservation (ref_ID reference) = Some d \<and>
        decodeReservationClaim (Some d) = Inr claim \<and> prc_ReservationID claim = reservationID \<and> prc_Ticket claim = reference)"

definition active :: "store \<Rightarrow> string \<Rightarrow> ReservationID \<Rightarrow> Reservation \<Rightarrow> bool" where
  "active b scope reservationID r \<longleftrightarrow>
     (\<exists>d. live b scope ResourceReservation reservationID = Some d \<and> decodeReservation (Some d) = Inr r) \<and>
     res_Status r = ReservationActive"

definition inv_claims :: "store \<Rightarrow> bool" where
  "inv_claims b \<longleftrightarrow> (\<forall>scope.
     (\<forall>reservationID d. live b scope ResourceReservation reservationID = Some d \<longrightarrow>
        valid_utf8 reservationID \<and> (\<exists>r. decodeReservation (Some d) = Inr r \<and> res_ID r = reservationID)) \<and>
     (\<forall>reservationID r. active b scope reservationID r \<longrightarrow>
        (\<forall>reference\<in>set (reservation_refs r). claims b scope reservationID reference)) \<and>
     (\<forall>ident d. live b scope ResourceDemandReservation ident = Some d \<longrightarrow>
        (\<exists>reservationID r reference. active b scope reservationID r \<and> reference \<in> set (reservation_refs r) \<and>
           ref_ID reference = ident \<and> claims b scope reservationID reference)))"

lemma inv_claimsD:
  assumes "inv_claims b"
  shows "live b scope ResourceReservation reservationID = Some d \<Longrightarrow>
      valid_utf8 reservationID \<and> (\<exists>r. decodeReservation (Some d) = Inr r \<and> res_ID r = reservationID)"
    "active b scope reservationID r \<Longrightarrow> reference \<in> set (reservation_refs r) \<Longrightarrow> claims b scope reservationID reference"
    "live b scope ResourceDemandReservation ident = Some e \<Longrightarrow>
      \<exists>reservationID r reference. active b scope reservationID r \<and> reference \<in> set (reservation_refs r) \<and>
        ref_ID reference = ident \<and> claims b scope reservationID reference"
  using assms unfolding inv_claims_def by blast+

text \<open>The strings of stored proposals are valid.\<close>

definition inv_proposals :: "store \<Rightarrow> bool" where
  "inv_proposals b \<longleftrightarrow> (\<forall>scope ident d q. live b scope ResourceProposal ident = Some d \<longrightarrow>
     decodeProposal (Some d) = Inr q \<longrightarrow> json_proposal (prp_Proposal q) = prp_Proposal q)"

definition service_inv :: "store \<Rightarrow> bool" where
  "service_inv b \<longleftrightarrow> mem_inv b \<and> inv_identity b \<and> inv_session b \<and> inv_claims b \<and> inv_proposals b"

lemma live_New [simp]: "live NewMemoryBackend scope kind ident = None"
  by (simp add: live_def NewMemoryBackend_def)

lemma service_inv_New: "service_inv NewMemoryBackend"
  by (simp add: service_inv_def inv_identity_def inv_session_def inv_claims_def inv_proposals_def active_def)

lemma kinds_differ:
  "distinct [
    ResourcePolicy, ResourceMatchTicket, ResourceBackfillTicket, ResourcePlanningSnapshot,
    ResourcePlanningRun, ResourceProposal, ResourcePlanningUnmatched, ResourceReservation,
    ResourceAssignment, ResourceAcknowledgment, ResourceOperationResult, ResourceDemandIdentity,
    ResourceBackfillSessionClaim, ResourceDemandReservation]"
  "distinct [
    ResourceDemandReservation, ResourceBackfillSessionClaim, ResourceDemandIdentity, ResourceOperationResult,
    ResourceAcknowledgment, ResourceAssignment, ResourceReservation, ResourcePlanningUnmatched,
    ResourceProposal, ResourcePlanningRun, ResourcePlanningSnapshot, ResourceBackfillTicket,
    ResourceMatchTicket, ResourcePolicy]"
  by (simp_all add: resource_kinds)

lemmas kinds_distinct [simp] = kinds_differ [simplified]

section \<open>Frames\<close>

text \<open>A part of the invariant is kept by a commit that writes none of the kinds it speaks about.\<close>

definition avoids :: "document Mutation list \<Rightarrow> string list \<Rightarrow> bool" where
  "avoids ms kinds \<longleftrightarrow> (\<forall>m\<in>set ms. key_Kind (mut_Key m) \<notin> set kinds)"

lemma live_avoids:
  assumes "avoids ms kinds" "kind \<in> set kinds"
  shows "live (committed op ms b) scope kind ident = live b scope kind ident"
  using assms by (intro live_committed_other) (auto simp: avoids_def)

lemma frame_identity:
  "avoids ms [ResourceMatchTicket, ResourceBackfillTicket, ResourceDemandIdentity] \<Longrightarrow>
   inv_identity b \<Longrightarrow> inv_identity (committed op ms b)"
  by (simp add: inv_identity_def live_avoids)

lemma frame_session:
  "avoids ms [ResourceBackfillTicket, ResourceBackfillSessionClaim] \<Longrightarrow> inv_session b \<Longrightarrow> inv_session (committed op ms b)"
  by (simp add: inv_session_def live_avoids)

lemma frame_claims:
  "avoids ms [ResourceReservation, ResourceDemandReservation] \<Longrightarrow> inv_claims b \<Longrightarrow> inv_claims (committed op ms b)"
  by (simp add: inv_claims_def active_def claims_def live_avoids)

lemma frame_proposals: "avoids ms [ResourceProposal] \<Longrightarrow> inv_proposals b \<Longrightarrow> inv_proposals (committed op ms b)"
  by (simp add: inv_proposals_def live_avoids)

section \<open>What is written can be read\<close>

lemma decode_all_Inr: "decode_all f xs = Inr ys \<longleftrightarrow> list_all2 (\<lambda>x y. f x = Inr y) xs ys"
proof (induction xs arbitrary: ys)
  case (Cons x xs)
  have "decode_all f (x # xs) = Inr ys \<longleftrightarrow> (\<exists>y ys'. f x = Inr y \<and> decode_all f xs = Inr ys' \<and> ys = y # ys')"
    by (cases "f x"; cases "decode_all f xs") auto
  then show ?case by (simp only: Cons.IH list_all2_Cons1) blast
qed auto

lemma decode_encodeMatchTicket:
  assumes "encodeMatchTicket t = Inr d" "ValidateMatchTicket t = None" "wire_match_ticket t"
  shows "decodeMatchTicket (Some d) = Inr t"
proof -
  have d: "d = DocMatchTicket \<lparr>pmt_Schema = matchTicketPayloadSchema, pmt_ID = mt_ID t, pmt_Revision = mt_Revision t,
      pmt_EnqueuedAt = mt_EnqueuedAt t, pmt_Players = mt_Players t\<rparr>"
    using assms(1,3) by (simp add: encodeMatchTicket_def wire_match_ticket_def split: if_splits)
  have "stored_match_ticket \<lparr>pmt_Schema = matchTicketPayloadSchema, pmt_ID = mt_ID t, pmt_Revision = mt_Revision t,
      pmt_EnqueuedAt = mt_EnqueuedAt t, pmt_Players = mt_Players t\<rparr> = t"
    by (simp add: stored_match_ticket_def)
  with assms(2) show ?thesis by (simp add: d decodeMatchTicket_def)
qed

lemma decode_encodeBackfillTicket:
  assumes "encodeBackfillTicket t = Inr d" "ValidateBackfillTicket t = None" "wire_backfill_ticket t"
  shows "decodeBackfillTicket (Some d) = Inr t"
proof -
  have d: "d = DocBackfillTicket (toPersistedBackfillTicket t)"
    using assms(1,3)
    by (auto simp: encodeBackfillTicket_def wire_backfill_ticket_def toPersistedBackfillTicket_def Let_def split: if_splits)
  have "fromPersistedBackfillTicket (toPersistedBackfillTicket t) = t"
    by (simp add: fromPersistedBackfillTicket_def toPersistedBackfillTicket_def)
  with assms(2) show ?thesis by (simp add: d decodeBackfillTicket_def) (simp add: toPersistedBackfillTicket_def)
qed

definition read_reservation :: "Reservation \<Rightarrow> Reservation" where
  "read_reservation r = r\<lparr>res_ID := json_string (res_ID r), res_ProposalID := json_string (res_ProposalID r),
     res_Tickets := map json_ref (res_Tickets r), res_Backfill := map_option json_target (res_Backfill r)\<rparr>"

lemma bad_json [simp]: "bad_ref (json_ref r) = bad_ref r" "bad_target (json_target t) = bad_target t"
  by (simp_all add: bad_ref_def json_ref_def bad_target_def json_target_def)

lemma list_ex_bad_json [simp]: "list_ex bad_ref (map json_ref rs) = list_ex bad_ref rs"
  by (simp add: list_ex_iff)

lemma decode_encodeReservation:
  "encodeReservation r = Inr d \<Longrightarrow> decodeReservation (Some d) = Inr (read_reservation r)"
  by (auto simp: encodeReservation_def toPersistedReservation_def decodeReservation_def json_reservation_def
      fromPersistedReservation_def read_reservation_def split: if_splits option.splits)

lemma reservation_refs_read:
  "reservation_refs (read_reservation r) = map json_ref (reservation_refs r)"
  by (simp add: reservation_refs_def read_reservation_def json_target_def split: option.splits)

lemma read_reservation_sel [simp]:
  "res_ID (read_reservation r) = json_string (res_ID r)" "res_Status (read_reservation r) = res_Status r"
  by (simp_all add: read_reservation_def)

lemma json_ref_idem [simp]: "json_ref (json_ref r) = json_ref r"
  by (simp add: json_ref_def)

lemma json_target_idem [simp]: "json_target (json_target t) = json_target t"
  by (simp add: json_target_def)

lemma json_kind_idem [simp]: "json_kind (json_kind k) = json_kind k"
  by (cases k) simp_all

lemma json_proposal_idem [simp]: "json_proposal (json_proposal p) = json_proposal p"
  by (simp add: json_proposal_def json_team_def comp_def option.map_comp)

lemma json_proposal_refs:
  assumes "json_proposal p = p"
  shows "\<forall>r\<in>set (prop_Tickets p). json_ref r = r"
    "\<And>t. prop_Backfill p = Some t \<Longrightarrow> json_ref (tgt_Ticket t) = tgt_Ticket t"
proof -
  have "map json_ref (prop_Tickets p) = prop_Tickets p"
    using arg_cong [OF assms, of prop_Tickets] by (simp add: json_proposal_def)
  then show "\<forall>r\<in>set (prop_Tickets p). json_ref r = r" by (metis map_eq_conv list.map_ident)
  have "map_option json_target (prop_Backfill p) = prop_Backfill p"
    using arg_cong [OF assms, of prop_Backfill] by (simp add: json_proposal_def)
  then show "json_ref (tgt_Ticket t) = tgt_Ticket t" if "prop_Backfill p = Some t" for t
  proof -
    have "json_target t = t" using that \<open>map_option json_target (prop_Backfill p) = prop_Backfill p\<close> by simp
    from arg_cong [OF this, of tgt_Ticket] show ?thesis by (simp add: json_target_def)
  qed
qed

section \<open>What a reservation writes\<close>

text \<open>The claim that a command creates for a reference, and the state of the claim it read.\<close>

definition claim_created :: "store \<Rightarrow> string \<Rightarrow> Reservation \<Rightarrow> ProposalKind \<Rightarrow> TicketRef \<Rightarrow> document Mutation \<Rightarrow> bool" where
  "claim_created b scope r kind reference m \<longleftrightarrow>
     live b scope ResourceDemandReservation (ref_ID reference) = None \<and>
     (\<exists>d. encodeReservationClaim r reference kind = Inr d \<and>
        m = create (service_Key scope ResourceDemandReservation (ref_ID reference))
              (actual_version b (service_Key scope ResourceDemandReservation (ref_ID reference))) d)"

lemma reservationClaimMutation_Inr:
  assumes "mem_inv b" "Memory_Snapshot scope b = Inr snap" "reservationClaimMutation snap scope r kind reference = Inr m"
  shows "claim_created b scope r kind reference m"
  using assms(3)
  by (auto simp: reservationClaimMutation_def claim_created_def findResource_snapshot [OF assms(1,2)] live_def
      actual_version_def encodeReservationClaim_def Let_def split: option.splits if_splits sum.splits)

lemma reserve_ticket_Inr:
  assumes "mem_inv b" "Memory_Snapshot scope b = Inr snap" "reserve_ticket snap scope r kind reference = Inr m"
  shows "claim_created b scope r kind reference m"
  using assms(3) reservationClaimMutation_Inr [OF assms(1,2)]
  by (auto simp: reserve_ticket_def split: option.splits sum.splits if_splits)

lemma reserve_backfill_Inr:
  assumes "mem_inv b" "Memory_Snapshot scope b = Inr snap" "reserve_backfill snap scope r kind target = Inr m"
  shows "claim_created b scope r kind (tgt_Ticket target) m"
  using assms(3) reservationClaimMutation_Inr [OF assms(1,2)]
  by (auto simp: reserve_backfill_def split: option.splits sum.splits if_splits)

lemma reserveMutations_Inr:
  assumes "mem_inv b" "Memory_Snapshot scope b = Inr snap" "reserveMutations snap scope r p = Inr ms"
    "res_Tickets r = prop_Tickets p" "res_Backfill r = prop_Backfill p"
  obtains d cs where "encodeReservation r = Inr d"
    "ms = create (service_Key scope ResourceReservation (res_ID r)) 0 d # cs"
    "list_all2 (claim_created b scope r (prop_Kind p)) (reservation_refs r) cs"
proof -
  obtain d where d: "encodeReservation r = Inr d"
    using assms(3) by (auto simp: reserveMutations_def split: sum.splits)
  obtain cs where cs: "decode_all (reserve_ticket snap scope r (prop_Kind p)) (prop_Tickets p) = Inr cs"
    using assms(3) d by (auto simp: reserveMutations_def split: sum.splits)
  then have tickets: "list_all2 (claim_created b scope r (prop_Kind p)) (res_Tickets r) cs"
    unfolding decode_all_Inr assms(4) by (rule list_all2_mono) (rule reserve_ticket_Inr [OF assms(1,2)])
  show ?thesis
  proof (cases "prop_Backfill p")
    case None
    with assms(3) d cs tickets that [OF d, of cs] show ?thesis
      by (simp add: reserveMutations_def reservation_refs_def assms(5))
  next
    case (Some target)
    with assms(3) d cs obtain c where c: "reserve_backfill snap scope r (prop_Kind p) target = Inr c"
      "ms = create (service_Key scope ResourceReservation (res_ID r)) 0 d # cs @ [c]"
      by (auto simp: reserveMutations_def Let_def split: sum.splits)
    have "list_all2 (claim_created b scope r (prop_Kind p)) (reservation_refs r) (cs @ [c])"
      using tickets reserve_backfill_Inr [OF assms(1,2) c(1)] Some
      by (simp add: reservation_refs_def assms(5) list_all2_appendI)
    with that [OF d c(2)] show ?thesis by simp
  qed
qed

lemma reserve_prepare_Inr:
  assumes "mem_inv b" "inv_proposals b" "Memory_Snapshot (op_Scope op) b = Inr snap"
    "reserve_prepare snap ttl op reservationID proposalID = Inr (r, ms)"
  obtains d cs kind e where "res_ID r = reservationID" "res_Status r = ReservationActive" "encodeReservation r = Inr d"
    "resource_at b (service_Key (op_Scope op) ResourceReservation reservationID) = None"
    "\<forall>reference\<in>set (reservation_refs r). json_ref reference = reference"
    "kind = ProposalNewMatch \<or> kind = ProposalBackfill"
    "ms = create (service_Key (op_Scope op) ResourceReservation reservationID) 0 d # cs @
       [create (service_Key (op_Scope op) ResourceOperationResult (op_ID op)) 0 e]"
    "list_all2 (claim_created b (op_Scope op) r kind) (reservation_refs r) cs"
proof -
  let ?s = "op_Scope op"
  obtain resource q ms' e where q: "live_resource snap (service_Key ?s ResourceProposal proposalID) = Some resource"
    "decodeProposal (rsc_Payload resource) = Inr q" "ValidateProposal (prp_Proposal q) = None"
    and new: "findResource snap (service_Key ?s ResourceReservation reservationID) = None"
    and r: "r = \<lparr>res_ID = reservationID, res_ProposalID = proposalID, res_Tickets = prop_Tickets (prp_Proposal q),
        res_Backfill = prop_Backfill (prp_Proposal q), res_ExpiresAt = time_Add (op_At op) ttl, res_Status = ReservationActive\<rparr>"
    and ms: "reserveMutations snap ?s r (prp_Proposal q) = Inr ms'"
      "ms = ms' @ [create (service_Key ?s ResourceOperationResult (op_ID op)) 0 e]"
    using assms(4) by (auto simp: reserve_prepare_def Let_def split: if_splits option.splits sum.splits)
  obtain d cs where cs: "encodeReservation r = Inr d" "ms' = create (service_Key ?s ResourceReservation (res_ID r)) 0 d # cs"
    "list_all2 (claim_created b ?s r (prop_Kind (prp_Proposal q))) (reservation_refs r) cs"
    using reserveMutations_Inr [OF assms(1,3) ms(1)] r by (metis Reservation.select_convs(3,4))
  have live: "live b ?s ResourceProposal proposalID = rsc_Payload resource" "\<not> rsc_Deleted resource"
    "resource_at b (service_Key ?s ResourceProposal proposalID) = Some resource"
    using q(1) live_resource_snapshot(1) [OF assms(1,3)] by (auto simp: live_def)
  then obtain doc where doc: "rsc_Payload resource = Some doc" using mem_invD(5) [OF assms(1) live(3)] by auto
  with live(1) have "live b ?s ResourceProposal proposalID = Some doc" by simp
  with assms(2) q(2) doc have "json_proposal (prp_Proposal q) = prp_Proposal q"
    unfolding inv_proposals_def by fastforce
  note refs = json_proposal_refs [OF this]
  have "\<forall>reference\<in>set (reservation_refs r). json_ref reference = reference"
    using refs by (auto simp: reservation_refs_def r split: option.splits)
  moreover have "prop_Kind (prp_Proposal q) = ProposalNewMatch \<or> prop_Kind (prp_Proposal q) = ProposalBackfill"
    using q(3) by (auto simp: ValidateProposal_def split: if_splits)
  moreover have "resource_at b (service_Key ?s ResourceReservation reservationID) = None"
    using new by (simp add: findResource_snapshot [OF assms(1,3)])
  ultimately show ?thesis using cs ms(2) by (intro that [of d "prop_Kind (prp_Proposal q)" cs e]) (simp_all add: r)
qed

lemma list_all2_left: "list_all2 P xs ys \<Longrightarrow> x \<in> set xs \<Longrightarrow> \<exists>y\<in>set ys. P x y"
  by (induction rule: list_all2_induct) auto

lemma list_all2_right: "list_all2 P xs ys \<Longrightarrow> y \<in> set ys \<Longrightarrow> \<exists>x\<in>set xs. P x y"
  by (induction rule: list_all2_induct) auto

lemma encodeReservation_refs:
  assumes "encodeReservation r = Inr d"
  shows "res_ID r \<noteq> ''''" "res_ProposalID r \<noteq> ''''" "\<forall>reference\<in>set (reservation_refs r). \<not> bad_ref reference"
  using assms
  by (auto simp: encodeReservation_def toPersistedReservation_def reservation_refs_def list_ex_iff bad_target_def
      split: if_splits option.splits)

lemma created_claims:
  assumes "effective op ms b" "m \<in> set ms" "claim_created b0 (op_Scope op) r kind reference m"
    "encodeReservation r = Inr d" "valid_utf8 (res_ID r)" "reference \<in> set (reservation_refs r)" "json_ref reference = reference"
    "kind = ProposalNewMatch \<or> kind = ProposalBackfill"
  shows "claims (committed op ms b) (op_Scope op) (res_ID r) reference"
proof -
  obtain e where e: "encodeReservationClaim r reference kind = Inr e"
    "mut_Key m = service_Key (op_Scope op) ResourceDemandReservation (ref_ID reference)" "mut_Payload m = Some e"
    using assms(3) by (auto simp: claim_created_def)
  have "live (committed op ms b) (op_Scope op) ResourceDemandReservation (ref_ID reference) = Some e"
    using live_committed_mem [OF assms(1,2) e(2)] e(3) by simp
  moreover note encodeReservation_refs [OF assms(4)]
  ultimately show ?thesis
    using e(1) assms(5-8)
    by (auto simp: claims_def encodeReservationClaim_def decodeReservationClaim_def)
qed

lemma absent_at_commit:
  assumes "mem_inv b" "effective op ms b" "m \<in> set ms" "mut_ExpectedVersion m = 0"
  shows "resource_at b (mut_Key m) = None"
proof (rule ccontr)
  assume "resource_at b (mut_Key m) \<noteq> None"
  then obtain r where r: "resource_at b (mut_Key m) = Some r" by blast
  have "actual_version b (mut_Key m) = 0" using assms(2-4) by (simp add: effective_def)
  with r mem_invD(2) [OF assms(1) r] show False by (simp add: actual_version_def)
qed

text \<open>
  One reservation and the claims of its tickets change, nothing else: the invariant needs to be seen
  for them only.
\<close>

lemma active_unique: "active b scope rid r \<Longrightarrow> active b scope rid r' \<Longrightarrow> r = r'"
  by (auto simp: active_def)

lemma claims_owner:
  "claims b scope rid reference \<Longrightarrow> claims b scope rid' reference' \<Longrightarrow> ref_ID reference = ref_ID reference' \<Longrightarrow> rid = rid'"
  by (auto simp: claims_def)

lemma inv_claims_change:
  assumes b: "inv_claims b"
    and other_reservation: "\<And>scope ident. scope \<noteq> s \<or> ident \<noteq> rid \<Longrightarrow>
      live c scope ResourceReservation ident = live b scope ResourceReservation ident"
    and other_claim: "\<And>scope ident. scope \<noteq> s \<or> ident \<notin> ref_ID ` set refs \<Longrightarrow>
      live c scope ResourceDemandReservation ident = live b scope ResourceDemandReservation ident"
    and r: "live c s ResourceReservation rid = Some d" "decodeReservation (Some d) = Inr r" "res_ID r = rid" "valid_utf8 rid"
    and refs: "res_Status r = ReservationActive \<Longrightarrow> reservation_refs r = refs"
    and mine: "\<And>x. active b s rid x \<Longrightarrow> reservation_refs x = refs"
    and foreign: "\<And>rid' reference. claims b s rid' reference \<Longrightarrow> ref_ID reference \<in> ref_ID ` set refs \<Longrightarrow> rid' = rid"
    and held: "\<And>reference. res_Status r = ReservationActive \<Longrightarrow> reference \<in> set refs \<Longrightarrow> claims c s rid reference"
    and released: "\<And>reference. res_Status r \<noteq> ReservationActive \<Longrightarrow> reference \<in> set refs \<Longrightarrow>
      live c s ResourceDemandReservation (ref_ID reference) = None"
  shows "inv_claims c"
proof -
  have active_c: "active c scope ident x \<longleftrightarrow>
      (if scope = s \<and> ident = rid then x = r \<and> res_Status r = ReservationActive else active b scope ident x)" for scope ident x
  proof (cases "scope = s \<and> ident = rid")
    case True
    then show ?thesis using r(1,2) by (auto simp: active_def)
  next
    case False
    then have "live c scope ResourceReservation ident = live b scope ResourceReservation ident" by (intro other_reservation) auto
    with False show ?thesis by (auto simp: active_def)
  qed
  have claims_c: "claims c scope ident reference"
    if "claims b scope ident reference" "scope \<noteq> s \<or> ident \<noteq> rid" for scope ident reference
  proof -
    have "scope \<noteq> s \<or> ref_ID reference \<notin> ref_ID ` set refs" using foreign [of ident reference] that by blast
    with that(1) other_claim show ?thesis by (simp add: claims_def)
  qed
  show ?thesis
    unfolding inv_claims_def
  proof (intro allI conjI impI)
    fix scope ident doc
    assume doc: "live c scope ResourceReservation ident = Some doc"
    have "valid_utf8 ident \<and> (\<exists>r. decodeReservation (Some doc) = Inr r \<and> res_ID r = ident)"
    proof (cases "scope = s \<and> ident = rid")
      case True
      with doc r show ?thesis by simp
    next
      case False
      then have "live b scope ResourceReservation ident = Some doc" using doc other_reservation by (metis (full_types))
      then show ?thesis by (rule inv_claimsD(1) [OF b])
    qed
    then show "valid_utf8 ident" "\<exists>r. decodeReservation (Some doc) = Inr r \<and> res_ID r = ident" by auto
  next
    fix scope ident x
    assume "active c scope ident x"
    then show "\<forall>reference\<in>set (reservation_refs x). claims c scope ident reference"
      using refs held claims_c inv_claimsD(2) [OF b] by (auto simp: active_c split: if_splits)
  next
    fix scope ident doc
    assume doc: "live c scope ResourceDemandReservation ident = Some doc"
    show "\<exists>rid r reference. active c scope rid r \<and> reference \<in> set (reservation_refs r) \<and>
        ref_ID reference = ident \<and> claims c scope rid reference"
    proof (cases "scope = s \<and> ident \<in> ref_ID ` set refs")
      case True
      then obtain reference where reference: "reference \<in> set refs" "ref_ID reference = ident" by auto
      with doc True released have "res_Status r = ReservationActive" by fastforce
      then have "active c s rid r" by (simp add: active_c)
      with reference True held [OF \<open>res_Status r = ReservationActive\<close>] refs [OF \<open>res_Status r = ReservationActive\<close>]
      show ?thesis by blast
    next
      case False
      with doc other_claim [of scope ident] have "live b scope ResourceDemandReservation ident = Some doc" by auto
      from inv_claimsD(3) [OF b this] obtain rid' x reference where x: "active b scope rid' x"
        "reference \<in> set (reservation_refs x)" "ref_ID reference = ident" "claims b scope rid' reference" by blast
      have apart: "scope \<noteq> s \<or> rid' \<noteq> rid" using False x mine [of x] by auto
      then have "active c scope rid' x" using x(1) by (auto simp: active_c)
      with x claims_c [OF x(4) apart] show ?thesis by blast
    qed
  qed
qed

lemma reserve_keeps_claims:
  assumes b0: "mem_inv b0" "inv_proposals b0" "mem_evolves b0 b" and b: "mem_inv b" "inv_claims b"
    and tx: "Memory_Snapshot (op_Scope op) b0 = Inr snap" "valid_utf8 reservationID"
      "reserve_prepare snap ttl op reservationID proposalID = Inr (r, ms)"
    and eff: "effective op ms b"
  shows "inv_claims (committed op ms b)"
proof -
  let ?c = "committed op ms b" and ?s = "op_Scope op"
  obtain d cs kind e where r: "res_ID r = reservationID" "res_Status r = ReservationActive" "encodeReservation r = Inr d"
    "\<forall>reference\<in>set (reservation_refs r). json_ref reference = reference" "kind = ProposalNewMatch \<or> kind = ProposalBackfill"
    and ms: "ms = create (service_Key ?s ResourceReservation reservationID) 0 d # cs @
       [create (service_Key ?s ResourceOperationResult (op_ID op)) 0 e]"
    and cs: "list_all2 (claim_created b0 ?s r kind) (reservation_refs r) cs"
    by (rule reserve_prepare_Inr [OF b0(1,2) tx(1,3)]) blast
  let ?ids = "ref_ID ` set (reservation_refs r)"
  have fresh: "live b ?s ResourceReservation reservationID = None"
    using absent_at_commit [OF b(1) eff, of "create (service_Key ?s ResourceReservation reservationID) 0 d"]
    by (simp add: ms live_def)
  have free: "live b ?s ResourceDemandReservation ident = None" if ident: "ident \<in> ?ids" for ident
  proof -
    from ident obtain reference where reference: "reference \<in> set (reservation_refs r)" "ident = ref_ID reference" by auto
    from list_all2_left [OF cs reference(1)] obtain m where m: "m \<in> set cs" "claim_created b0 ?s r kind reference m" by blast
    then have "m \<in> set ms" "mut_Key m = service_Key ?s ResourceDemandReservation ident"
      "mut_ExpectedVersion m = actual_version b0 (mut_Key m)" "live b0 ?s ResourceDemandReservation ident = None"
      using reference(2) by (auto simp: ms claim_created_def)
    with live_at_commit(1) [OF b0(1,3) eff] show ?thesis by metis
  qed
  have keys: "\<exists>ident\<in>?ids. mut_Key m = service_Key ?s ResourceDemandReservation ident" if "m \<in> set cs" for m
    using list_all2_right [OF cs that] by (auto simp: claim_created_def)
  have other_reservation: "live ?c scope ResourceReservation ident = live b scope ResourceReservation ident"
    if "scope \<noteq> ?s \<or> ident \<noteq> reservationID" for scope ident
    using that by (intro live_committed_other) (auto simp: ms dest: keys)
  have other_claim: "live ?c scope ResourceDemandReservation ident = live b scope ResourceDemandReservation ident"
    if "scope \<noteq> ?s \<or> ident \<notin> ?ids" for scope ident
  proof (rule live_committed_other, rule ballI, rule notI)
    fix m
    assume "m \<in> set ms" and m: "mut_Key m = service_Key scope ResourceDemandReservation ident"
    then have "m \<in> set cs" by (auto simp: ms)
    from keys [OF this] m that show False by auto
  qed
  have this_claim: "claims ?c ?s reservationID reference" if "reference \<in> set (reservation_refs r)" for reference
    using list_all2_left [OF cs that] created_claims [OF eff _ _ r(3) _ that _ r(5)] r(1,4) tx(2) that ms by auto
  have this_reservation: "live ?c ?s ResourceReservation reservationID = Some d"
    using live_committed_mem [OF eff, of "create (service_Key ?s ResourceReservation reservationID) 0 d"] by (simp add: ms)
  have read: "decodeReservation (Some d) = Inr (read_reservation r)" by (rule decode_encodeReservation [OF r(3)])
  have refs: "reservation_refs (read_reservation r) = reservation_refs r"
    using r(4) by (simp add: reservation_refs_read map_idI)
  show ?thesis
    by (rule inv_claims_change [OF b(2) other_reservation other_claim this_reservation read])
      (use r(1,2) tx(2) fresh free this_claim in \<open>auto simp: refs active_def claims_def\<close>)
qed

section \<open>What the end of a reservation writes\<close>

definition claim_deleted :: "store \<Rightarrow> string \<Rightarrow> ReservationID \<Rightarrow> TicketRef \<Rightarrow> document Mutation \<Rightarrow> bool" where
  "claim_deleted b scope reservationID reference m \<longleftrightarrow>
     (\<exists>d claim. live b scope ResourceDemandReservation (ref_ID reference) = Some d \<and>
        decodeReservationClaim (Some d) = Inr claim \<and> prc_ReservationID claim = reservationID) \<and>
     m = remove (service_Key scope ResourceDemandReservation (ref_ID reference))
           (actual_version b (service_Key scope ResourceDemandReservation (ref_ID reference)))"

text \<open>The mutations end an active reservation and release its claims; they write no other reservation and no other claim.\<close>

definition ends :: "store \<Rightarrow> string \<Rightarrow> ReservationID \<Rightarrow> document Mutation list \<Rightarrow> bool" where
  "ends b scope reservationID ms \<longleftrightarrow>
     (\<exists>r status payload cs. active b scope reservationID r \<and> res_ID r = reservationID \<and> status \<noteq> ReservationActive \<and>
        encodeReservation (r\<lparr>res_Status := status\<rparr>) = Inr payload \<and>
        create (service_Key scope ResourceReservation reservationID)
          (actual_version b (service_Key scope ResourceReservation reservationID)) payload \<in> set ms \<and>
        list_all2 (claim_deleted b scope reservationID) (reservation_refs r) cs \<and> set cs \<subseteq> set ms \<and>
        (\<forall>m\<in>set ms. key_Kind (mut_Key m) = ResourceReservation \<longrightarrow> mut_Key m = service_Key scope ResourceReservation reservationID) \<and>
        (\<forall>m\<in>set ms. key_Kind (mut_Key m) = ResourceDemandReservation \<longrightarrow> m \<in> set cs))"

lemma read_live:
  assumes "mem_inv b" "Memory_Snapshot scope b = Inr snap" "live_resource snap (service_Key scope kind ident) = Some resource"
  obtains d where "live b scope kind ident = Some d" "rsc_Payload resource = Some d"
    "rsc_Key resource = service_Key scope kind ident" "rsc_Version resource = actual_version b (service_Key scope kind ident)"
proof -
  have r: "resource_at b (service_Key scope kind ident) = Some resource" "\<not> rsc_Deleted resource"
    using assms(3) live_resource_snapshot(1) [OF assms(1,2)] by auto
  then obtain d where "rsc_Payload resource = Some d" using mem_invD(5) [OF assms(1) r(1)] by auto
  with r mem_invD(1) [OF assms(1) r(1)] show ?thesis
    by (intro that [of d]) (simp_all add: live_def actual_version_def)
qed

lemma claim_deletion_Inr:
  assumes "mem_inv b" "Memory_Snapshot scope b = Inr snap" "claim_deletion snap scope r reference = Inr m"
  shows "claim_deleted b scope (res_ID r) reference m"
proof -
  let ?k = "service_Key scope ResourceDemandReservation (ref_ID reference)"
  obtain resource claim where m: "live_resource snap ?k = Some resource" "decodeReservationClaim (rsc_Payload resource) = Inr claim"
    "prc_ReservationID claim = res_ID r" "m = remove ?k (rsc_Version resource)"
    using assms(3) by (auto simp: claim_deletion_def Let_def split: option.splits sum.splits if_splits)
  obtain d where d: "live b scope ResourceDemandReservation (ref_ID reference) = Some d" "rsc_Payload resource = Some d"
    "rsc_Version resource = actual_version b ?k"
    by (rule read_live [OF assms(1,2) m(1)])
  show ?thesis
    unfolding claim_deleted_def by (intro conjI exI [of _ d] exI [of _ claim]) (use d m in simp_all)
qed

lemma reservationClaimDeletions_Inr:
  assumes "mem_inv b" "Memory_Snapshot scope b = Inr snap" "reservationClaimDeletions snap scope r = Inr cs"
  shows "list_all2 (claim_deleted b scope (res_ID r)) (reservation_refs r) cs"
  using assms(3) unfolding reservationClaimDeletions_def decode_all_Inr
  by (rule list_all2_mono) (rule claim_deletion_Inr [OF assms(1,2)])

lemma reservation_refs_status [simp]: "reservation_refs (r\<lparr>res_Status := x\<rparr>) = reservation_refs r"
  by (simp add: reservation_refs_def)

lemma deleted_kinds:
  assumes "list_all2 (claim_deleted b scope rid) refs cs" "m \<in> set cs"
  shows "\<exists>reference\<in>set refs. claim_deleted b scope rid reference m \<and>
    mut_Key m = service_Key scope ResourceDemandReservation (ref_ID reference)"
proof -
  from list_all2_right [OF assms] obtain reference where reference: "reference \<in> set refs" "claim_deleted b scope rid reference m"
    by blast
  then have "mut_Key m = service_Key scope ResourceDemandReservation (ref_ID reference)"
    unfolding claim_deleted_def by simp
  with reference show ?thesis by blast
qed

lemma end_mutations_Inr:
  assumes "mem_inv b" "inv_claims b" "Memory_Snapshot scope b = Inr snap"
    "live_resource snap (service_Key scope ResourceReservation rid) = Some resource"
    "decodeReservation (rsc_Payload resource) = Inr r" "res_Status r = ReservationActive" "status \<noteq> ReservationActive"
    "end_mutations snap scope resource r status = Inr ms"
  shows "ends b scope rid ms"
    "\<forall>m\<in>set ms. key_Kind (mut_Key m) = ResourceReservation \<or> key_Kind (mut_Key m) = ResourceDemandReservation"
proof -
  let ?k = "service_Key scope ResourceReservation rid"
  obtain d where d: "live b scope ResourceReservation rid = Some d" "rsc_Payload resource = Some d"
    "rsc_Key resource = ?k" "rsc_Version resource = actual_version b ?k"
    by (rule read_live [OF assms(1,3,4)])
  have act: "active b scope rid r" "res_ID r = rid"
    using inv_claimsD(1) [OF assms(2) d(1)] d assms(5,6) by (auto simp: active_def)
  obtain payload cs where ms: "encodeReservation (r\<lparr>res_Status := status\<rparr>) = Inr payload"
    "reservationClaimDeletions snap scope (r\<lparr>res_Status := status\<rparr>) = Inr cs" "ms = create ?k (actual_version b ?k) payload # cs"
    using assms(8) d(3,4) by (auto simp: end_mutations_def Let_def split: sum.splits)
      (cases "reservationClaimDeletions snap scope (r\<lparr>res_Status := status\<rparr>)"; auto)
  have cs: "list_all2 (claim_deleted b scope rid) (reservation_refs r) cs"
    using reservationClaimDeletions_Inr [OF assms(1,3) ms(2)] act(2) by simp
  have kinds: "key_Kind (mut_Key m) = ResourceDemandReservation" if "m \<in> set cs" for m
    using deleted_kinds [OF cs that] by auto
  show "ends b scope rid ms"
    unfolding ends_def
    by (rule exI [of _ r], rule exI [of _ status], rule exI [of _ payload], rule exI [of _ cs])
      (use act assms(7) ms(1) cs kinds in \<open>auto simp: ms(3)\<close>)
  show "\<forall>m\<in>set ms. key_Kind (mut_Key m) = ResourceReservation \<or> key_Kind (mut_Key m) = ResourceDemandReservation"
    using kinds by (auto simp: ms(3))
qed

lemma ends_releases:
  assumes "ends b0 (op_Scope op) rid ms" "effective op ms b" "active b0 (op_Scope op) rid r" "reference \<in> set (reservation_refs r)"
  shows "live (committed op ms b) (op_Scope op) ResourceDemandReservation (ref_ID reference) = None"
proof -
  obtain x cs where x: "active b0 (op_Scope op) rid x" "list_all2 (claim_deleted b0 (op_Scope op) rid) (reservation_refs x) cs"
    "set cs \<subseteq> set ms"
    using assms(1) unfolding ends_def by blast
  have "reference \<in> set (reservation_refs x)" using active_unique [OF assms(3) x(1)] assms(4) by simp
  from list_all2_left [OF x(2) this] obtain m where m: "m \<in> set cs" "claim_deleted b0 (op_Scope op) rid reference m" by blast
  then have "mut_Key m = service_Key (op_Scope op) ResourceDemandReservation (ref_ID reference)" "mut_Payload m = None"
    unfolding claim_deleted_def by simp_all
  with live_committed_mem [OF assms(2)] m(1) x(3) show ?thesis by auto
qed

lemma ends_keeps_claims:
  assumes b0: "mem_inv b0" "mem_evolves b0 b" and b: "inv_claims b"
    and tx: "ends b0 (op_Scope op) rid ms" and eff: "effective op ms b"
  shows "inv_claims (committed op ms b)"
proof -
  let ?c = "committed op ms b" and ?s = "op_Scope op"
  let ?k = "service_Key ?s ResourceReservation rid"
  obtain r status payload cs where r: "active b0 ?s rid r" "res_ID r = rid" "status \<noteq> ReservationActive"
      "encodeReservation (r\<lparr>res_Status := status\<rparr>) = Inr payload"
    and written: "create ?k (actual_version b0 ?k) payload \<in> set ms"
    and cs: "list_all2 (claim_deleted b0 ?s rid) (reservation_refs r) cs" "set cs \<subseteq> set ms"
    and only_r: "\<And>m. m \<in> set ms \<Longrightarrow> key_Kind (mut_Key m) = ResourceReservation \<Longrightarrow> mut_Key m = ?k"
    and only_c: "\<And>m. m \<in> set ms \<Longrightarrow> key_Kind (mut_Key m) = ResourceDemandReservation \<Longrightarrow> m \<in> set cs"
    using tx unfolding ends_def by blast
  let ?ids = "ref_ID ` set (reservation_refs r)"
  have same: "live b ?s ResourceReservation rid = live b0 ?s ResourceReservation rid"
    by (rule live_at_commit(1) [OF b0 eff written]) simp_all
  have now: "active b ?s rid r" using r(1) by (simp add: active_def same)
  have after: "live ?c ?s ResourceReservation rid = Some payload"
    using live_committed_mem [OF eff written] by simp
  have read: "decodeReservation (Some payload) = Inr (read_reservation (r\<lparr>res_Status := status\<rparr>))"
    by (rule decode_encodeReservation [OF r(4)])
  have utf8: "valid_utf8 rid" using now inv_claimsD(1) [OF b] by (auto simp: active_def)
  have other_reservation: "live ?c scope ResourceReservation ident = live b scope ResourceReservation ident"
    if "scope \<noteq> ?s \<or> ident \<noteq> rid" for scope ident
    using that only_r by (intro live_committed_other) fastforce
  have other_claim: "live ?c scope ResourceDemandReservation ident = live b scope ResourceDemandReservation ident"
    if "scope \<noteq> ?s \<or> ident \<notin> ?ids" for scope ident
  proof (rule live_committed_other, rule ballI, rule notI)
    fix m
    assume m: "m \<in> set ms" "mut_Key m = service_Key scope ResourceDemandReservation ident"
    then have "m \<in> set cs" by (intro only_c) simp_all
    from deleted_kinds [OF cs(1) this] m(2) that show False by auto
  qed
  have released: "live ?c ?s ResourceDemandReservation (ref_ID reference) = None" if "reference \<in> set (reservation_refs r)" for reference
    by (rule ends_releases [OF tx eff r(1) that])
  have foreign: "rid' = rid" if claim: "claims b ?s rid' reference" "ref_ID reference \<in> ?ids" for rid' reference
  proof -
    from claim(2) obtain x where x: "x \<in> set (reservation_refs r)" "ref_ID x = ref_ID reference" by auto
    from claims_owner [OF inv_claimsD(2) [OF b now x(1)] claim(1) x(2)] show ?thesis by simp
  qed
  show ?thesis
  proof (rule inv_claims_change [OF b other_reservation other_claim after read])
    show "reservation_refs x = reservation_refs r" if "active b ?s rid x" for x
      using active_unique [OF now that] by simp
  qed (use r(2,3) utf8 foreign released in auto)
qed

lemma ends_append:
  assumes "ends b scope rid ms" "avoids ms' [ResourceReservation, ResourceDemandReservation]"
  shows "ends b scope rid (ms @ ms')"
proof -
  obtain r status payload cs where *: "active b scope rid r \<and> res_ID r = rid \<and> status \<noteq> ReservationActive \<and>
        encodeReservation (r\<lparr>res_Status := status\<rparr>) = Inr payload \<and>
        create (service_Key scope ResourceReservation rid) (actual_version b (service_Key scope ResourceReservation rid)) payload \<in> set ms \<and>
        list_all2 (claim_deleted b scope rid) (reservation_refs r) cs \<and> set cs \<subseteq> set ms \<and>
        (\<forall>m\<in>set ms. key_Kind (mut_Key m) = ResourceReservation \<longrightarrow> mut_Key m = service_Key scope ResourceReservation rid) \<and>
        (\<forall>m\<in>set ms. key_Kind (mut_Key m) = ResourceDemandReservation \<longrightarrow> m \<in> set cs)"
    using assms(1) unfolding ends_def by blast
  show ?thesis
    unfolding ends_def
    by (rule exI [of _ r], rule exI [of _ status], rule exI [of _ payload], rule exI [of _ cs])
      (use * assms(2) in \<open>auto simp: avoids_def\<close>)
qed

lemma cancel_prepare_Inr:
  assumes "mem_inv b" "inv_claims b" "Memory_Snapshot (op_Scope op) b = Inr snap"
    "reservation_cancel_prepare snap op rid = Inr (r, v, ms)"
  shows "ends b (op_Scope op) rid ms \<or> avoids ms [ResourceReservation, ResourceDemandReservation]"
    "\<forall>m\<in>set ms. key_Kind (mut_Key m) \<in> {ResourceReservation, ResourceDemandReservation, ResourceOperationResult}"
proof -
  let ?s = "op_Scope op"
  obtain resource q e ms' where q: "live_resource snap (service_Key ?s ResourceReservation rid) = Some resource"
    "decodeReservation (rsc_Payload resource) = Inr q"
    "ms = ms' @ [create (service_Key ?s ResourceOperationResult (op_ID op)) 0 e]"
    "res_Status q = ReservationActive \<and> end_mutations snap ?s resource q ReservationCancelled = Inr ms' \<or> ms' = []"
    using assms(4)
    by (auto simp: reservation_cancel_prepare_def Let_def split: option.splits sum.splits ReservationStatus.splits prod.splits)
      (auto simp: map_sum_def split: sum.splits)
  consider "ms' = []" | "res_Status q = ReservationActive" "end_mutations snap ?s resource q ReservationCancelled = Inr ms'"
    using q(4) by blast
  then have "(ends b ?s rid ms \<or> avoids ms [ResourceReservation, ResourceDemandReservation]) \<and>
    (\<forall>m\<in>set ms. key_Kind (mut_Key m) \<in> {ResourceReservation, ResourceDemandReservation, ResourceOperationResult})"
  proof cases
    case 1
    then show ?thesis by (simp add: q(3) avoids_def)
  next
    case 2
    note ended = end_mutations_Inr [OF assms(1-3) q(1,2) 2(1) _ 2(2)]
    have "ends b ?s rid ms"
      unfolding q(3) by (rule ends_append) (use ended(1) in \<open>simp_all add: avoids_def\<close>)
    with ended(2) show ?thesis by (auto simp: q(3))
  qed
  then show "ends b ?s rid ms \<or> avoids ms [ResourceReservation, ResourceDemandReservation]"
    "\<forall>m\<in>set ms. key_Kind (mut_Key m) \<in> {ResourceReservation, ResourceDemandReservation, ResourceOperationResult}" by simp_all
qed

section \<open>What the confirmation of a reservation writes\<close>

lemma confirm_tickets_Inr:
  assumes "mem_inv b" "Memory_Snapshot scope b = Inr snap" "confirm_tickets snap scope refs = Inr (Inr ms)"
  shows "list_all2 (\<lambda>reference m. m = remove (service_Key scope ResourceMatchTicket (ref_ID reference))
      (actual_version b (service_Key scope ResourceMatchTicket (ref_ID reference)))) refs ms"
  using assms(3)
proof (induction refs arbitrary: ms)
  case (Cons reference refs)
  let ?k = "service_Key scope ResourceMatchTicket (ref_ID reference)"
  obtain m ms' where m: "confirm_ticket snap scope reference = Inr (Inr m)" "confirm_tickets snap scope refs = Inr (Inr ms')" "ms = m # ms'"
    using Cons.prems by (auto simp: map_sum_def split: sum.splits)
  then obtain resource where r: "live_resource snap ?k = Some resource" "m = remove (rsc_Key resource) (rsc_Version resource)"
    by (auto simp: confirm_ticket_def split: option.splits sum.splits if_splits)
  have "m = remove ?k (actual_version b ?k)"
    using read_live [OF assms(1,2) r(1)] r(2) by metis
  with Cons.IH [OF m(2)] m(3) show ?case by simp
qed simp

text \<open>The mutations delete one live backfill and the claim on its session, and write no other backfill or session.\<close>

definition frees_session :: "store \<Rightarrow> string \<Rightarrow> TicketID \<Rightarrow> document Mutation list \<Rightarrow> bool" where
  "frees_session b scope ident ms \<longleftrightarrow>
     (\<exists>d t v. live b scope ResourceBackfillTicket ident = Some d \<and> decodeBackfillTicket (Some d) = Inr t \<and>
        remove (service_Key scope ResourceBackfillTicket ident) (actual_version b (service_Key scope ResourceBackfillTicket ident)) \<in> set ms \<and>
        remove (service_Key scope ResourceBackfillSessionClaim (bt_SessionID t)) v \<in> set ms \<and>
        (\<forall>m\<in>set ms. key_Kind (mut_Key m) = ResourceBackfillTicket \<longrightarrow> mut_Key m = service_Key scope ResourceBackfillTicket ident) \<and>
        (\<forall>m\<in>set ms. key_Kind (mut_Key m) = ResourceBackfillSessionClaim \<longrightarrow>
           mut_Key m = service_Key scope ResourceBackfillSessionClaim (bt_SessionID t)))"

lemma confirm_backfill_Inr:
  assumes "mem_inv b" "Memory_Snapshot scope b = Inr snap" "confirm_backfill snap scope backfill = Inr (Inr ms)"
  shows "(\<exists>ident. frees_session b scope ident ms) \<or> ms = []"
    "\<forall>m\<in>set ms. key_Kind (mut_Key m) \<in> {ResourceBackfillTicket, ResourceBackfillSessionClaim} \<and> mut_Payload m = None"
proof -
  have "((\<exists>ident. frees_session b scope ident ms) \<or> ms = []) \<and>
      (\<forall>m\<in>set ms. key_Kind (mut_Key m) \<in> {ResourceBackfillTicket, ResourceBackfillSessionClaim} \<and> mut_Payload m = None)"
  proof (cases backfill)
    case (Some target)
    then obtain resource t v where target:
      "live_resource snap (service_Key scope ResourceBackfillTicket (ref_ID (tgt_Ticket target))) = Some resource"
      "decodeBackfillTicket (rsc_Payload resource) = Inr t" "bt_SessionID t = tgt_SessionID target"
      "ms = [remove (rsc_Key resource) (rsc_Version resource), remove (service_Key scope ResourceBackfillSessionClaim (tgt_SessionID target)) v]"
      using assms(3) by (auto simp: confirm_backfill_def fresh_backfill_def Let_def split: option.splits sum.splits if_splits)
    obtain d where d: "live b scope ResourceBackfillTicket (ref_ID (tgt_Ticket target)) = Some d" "rsc_Payload resource = Some d"
      "rsc_Key resource = service_Key scope ResourceBackfillTicket (ref_ID (tgt_Ticket target))"
      "rsc_Version resource = actual_version b (service_Key scope ResourceBackfillTicket (ref_ID (tgt_Ticket target)))"
      by (rule read_live [OF assms(1,2) target(1)])
    have "frees_session b scope (ref_ID (tgt_Ticket target)) ms"
      unfolding frees_session_def
      by (rule exI [of _ d], rule exI [of _ t], rule exI [of _ v]) (use d target in simp)
    with d(3) show ?thesis by (auto simp: target(4))
  qed (use assms(3) in \<open>simp add: confirm_backfill_def\<close>)
  then show "(\<exists>ident. frees_session b scope ident ms) \<or> ms = []"
    "\<forall>m\<in>set ms. key_Kind (mut_Key m) \<in> {ResourceBackfillTicket, ResourceBackfillSessionClaim} \<and> mut_Payload m = None" by blast+
qed

lemma frees_session_embed:
  assumes "frees_session b scope ident bf" "set bf \<subseteq> set ms"
    "\<forall>m\<in>set ms. key_Kind (mut_Key m) \<in> {ResourceBackfillTicket, ResourceBackfillSessionClaim} \<longrightarrow> m \<in> set bf"
  shows "frees_session b scope ident ms"
  using assms unfolding frees_session_def by (elim exE, intro exI) blast

text \<open>Of the demand, a confirmation only deletes.\<close>

definition only_deletes :: "document Mutation list \<Rightarrow> bool" where
  "only_deletes ms \<longleftrightarrow> avoids ms [ResourceDemandIdentity] \<and>
     (\<forall>m\<in>set ms. key_Kind (mut_Key m) \<in> {ResourceMatchTicket, ResourceBackfillTicket} \<longrightarrow> mut_Payload m = None)"

lemma confirm_prepare_Inr:
  assumes "mem_inv b" "inv_claims b" "Memory_Snapshot (op_Scope op) b = Inr snap"
    "confirm_prepare snap op rid aid = Inr (Inr (assignment, ms))"
  shows "ends b (op_Scope op) rid ms"
    "(\<exists>ident. frees_session b (op_Scope op) ident ms) \<or> avoids ms [ResourceBackfillTicket, ResourceBackfillSessionClaim]"
    "only_deletes ms" "avoids ms [ResourceProposal]"
proof -
  let ?s = "op_Scope op" and ?k = "service_Key (op_Scope op) ResourceReservation rid"
  obtain resource r refs backfill ts bf cs payload a e where
    read: "live_resource snap ?k = Some resource" "decodeReservation (rsc_Payload resource) = Inr r" "res_Status r = ReservationActive"
    and ts: "confirm_tickets snap ?s refs = Inr (Inr ts)" and bf: "confirm_backfill snap ?s backfill = Inr (Inr bf)"
    and cs: "reservationClaimDeletions snap ?s r = Inr cs"
    and payload: "encodeReservation (r\<lparr>res_Status := ReservationConfirmed\<rparr>) = Inr payload"
    and ms: "ms = (ts @ bf @ cs) @ [create (rsc_Key resource) (rsc_Version resource) payload,
        create (service_Key ?s ResourceAssignment aid) 0 a, create (service_Key ?s ResourceOperationResult (op_ID op)) 0 e]"
    using assms(4)
    by (auto simp: confirm_prepare_def confirmDemandMutations_def Let_def
        split: option.splits sum.splits ReservationStatus.splits if_splits)
  obtain d where d: "live b ?s ResourceReservation rid = Some d" "rsc_Payload resource = Some d" "rsc_Key resource = ?k"
    "rsc_Version resource = actual_version b ?k"
    by (rule read_live [OF assms(1,3) read(1)])
  have act: "active b ?s rid r" "res_ID r = rid"
    using inv_claimsD(1) [OF assms(2) d(1)] d(1,2) read by (auto simp: active_def)
  have cs': "list_all2 (claim_deleted b ?s rid) (reservation_refs r) cs"
    using reservationClaimDeletions_Inr [OF assms(1,3) cs] act(2) by simp
  have kinds_cs: "key_Kind (mut_Key m) = ResourceDemandReservation" if "m \<in> set cs" for m
    using deleted_kinds [OF cs' that] by auto
  have kinds_ts: "key_Kind (mut_Key m) = ResourceMatchTicket" "mut_Payload m = None" if "m \<in> set ts" for m
    using list_all2_right [OF confirm_tickets_Inr [OF assms(1,3) ts] that] by auto
  note bf' = confirm_backfill_Inr [OF assms(1,3) bf]
  have kinds_bf: "key_Kind (mut_Key m) = ResourceBackfillTicket \<or> key_Kind (mut_Key m) = ResourceBackfillSessionClaim"
    "mut_Payload m = None" if "m \<in> set bf" for m
    using bf'(2) that by auto
  show "ends b ?s rid ms"
    unfolding ends_def
    by (rule exI [of _ r], rule exI [of _ ReservationConfirmed], rule exI [of _ payload], rule exI [of _ cs])
      (use act payload cs' d(3,4) in \<open>auto simp: ms dest: kinds_cs kinds_ts(1) kinds_bf(1)\<close>)
  show "(\<exists>ident. frees_session b ?s ident ms) \<or> avoids ms [ResourceBackfillTicket, ResourceBackfillSessionClaim]"
  proof (cases "bf = []")
    case True
    then show ?thesis by (auto simp: ms avoids_def d(3) dest!: kinds_cs kinds_ts(1))
  next
    case False
    with bf'(1) obtain ident where "frees_session b ?s ident bf" by blast
    then have "frees_session b ?s ident ms"
      by (rule frees_session_embed) (auto simp: ms d(3) dest!: kinds_cs kinds_ts(1))
    then show ?thesis by blast
  qed
  show "only_deletes ms" "avoids ms [ResourceProposal]"
    using kinds_cs kinds_ts kinds_bf by (fastforce simp: ms only_deletes_def avoids_def d(3))+
qed

section \<open>Identities\<close>

lemma inv_identityD:
  assumes "inv_identity b"
  shows "live b scope ResourceMatchTicket ident = Some d \<Longrightarrow> \<exists>t. decodeMatchTicket (Some d) = Inr t \<and> mt_ID t = ident"
    "live b scope ResourceMatchTicket ident = Some d \<Longrightarrow>
      live b scope ResourceDemandIdentity ident = Some (identity_doc ResourceMatchTicket ident)"
    "live b scope ResourceBackfillTicket ident = Some d \<Longrightarrow> \<exists>t. decodeBackfillTicket (Some d) = Inr t \<and> bt_ID t = ident"
    "live b scope ResourceBackfillTicket ident = Some d \<Longrightarrow>
      live b scope ResourceDemandIdentity ident = Some (identity_doc ResourceBackfillTicket ident)"
  using assms unfolding inv_identity_def by blast+

lemma live_committed_cases:
  assumes "effective op ms b"
  obtains "live (committed op ms b) scope kind ident = live b scope kind ident"
      "\<forall>m\<in>set ms. mut_Key m \<noteq> service_Key scope kind ident"
  | m where "m \<in> set ms" "mut_Key m = service_Key scope kind ident" "live (committed op ms b) scope kind ident = mut_Payload m"
proof (cases "\<exists>m\<in>set ms. mut_Key m = service_Key scope kind ident")
  case True
  then show ?thesis using live_committed_mem [OF assms] that(2) by blast
next
  case False
  then show ?thesis using live_committed_other [of ms] that(1) by blast
qed

lemma only_deletes_keeps_identity:
  assumes "inv_identity b" "effective op ms b" "only_deletes ms"
  shows "inv_identity (committed op ms b)"
proof -
  let ?c = "committed op ms b"
  have keeps: "live b scope kind ident = Some d"
    if "live ?c scope kind ident = Some d" "kind \<in> {ResourceMatchTicket, ResourceBackfillTicket}" for scope kind ident d
    using that assms(3) by (cases rule: live_committed_cases [OF assms(2), of scope kind ident]) (auto simp: only_deletes_def)
  have identity: "live ?c scope ResourceDemandIdentity ident = live b scope ResourceDemandIdentity ident" for scope ident
    using assms(3) by (auto simp: only_deletes_def intro: live_avoids)
  show ?thesis
    unfolding inv_identity_def identity
    using inv_identityD [OF assms(1)] keeps by (intro allI conjI impI) blast+
qed

text \<open>A ticket is written under its identity: the identity is claimed by the same commit, or the ticket was live already.\<close>

definition puts :: "store \<Rightarrow> string \<Rightarrow> string \<Rightarrow> string \<Rightarrow> document \<Rightarrow> document Mutation list \<Rightarrow> bool" where
  "puts b scope kind ident doc ms \<longleftrightarrow>
     (\<forall>m\<in>set ms. key_Kind (mut_Key m) \<in> {ResourceMatchTicket, ResourceBackfillTicket} \<longrightarrow> mut_Key m = service_Key scope kind ident) \<and>
     (avoids ms [ResourceDemandIdentity] \<and> live b scope kind ident \<noteq> None \<and>
        create (service_Key scope kind ident) (actual_version b (service_Key scope kind ident)) doc \<in> set ms \<or>
      create (service_Key scope kind ident) 0 doc \<in> set ms \<and>
        create (service_Key scope ResourceDemandIdentity ident) 0 (identity_doc kind ident) \<in> set ms \<and>
        (\<forall>m\<in>set ms. key_Kind (mut_Key m) = ResourceDemandIdentity \<longrightarrow> mut_Key m = service_Key scope ResourceDemandIdentity ident))"

lemma identity_doc_eq [simp]: "identity_doc kind ident = identity_doc kind' ident' \<longleftrightarrow> kind = kind' \<and> ident = ident'"
  by (simp add: identity_doc_def)

lemma puts_owner:
  assumes b0: "mem_inv b0" "mem_evolves b0 b" and b: "mem_inv b" "inv_identity b"
    and tx: "puts b0 (op_Scope op) kind ident doc ms" "kind = ResourceMatchTicket \<or> kind = ResourceBackfillTicket"
    and eff: "effective op ms b"
  shows "live (committed op ms b) (op_Scope op) ResourceDemandIdentity ident = Some (identity_doc kind ident)"
    "kind' = ResourceMatchTicket \<or> kind' = ResourceBackfillTicket \<Longrightarrow> kind' \<noteq> kind \<Longrightarrow> live b (op_Scope op) kind' ident = None"
    "scope \<noteq> op_Scope op \<or> ident' \<noteq> ident \<Longrightarrow>
      live (committed op ms b) scope ResourceDemandIdentity ident' = live b scope ResourceDemandIdentity ident'"
proof -
  let ?s = "op_Scope op" and ?c = "committed op ms b"
  consider (replaced) "avoids ms [ResourceDemandIdentity]" "live b0 ?s kind ident \<noteq> None"
      "create (service_Key ?s kind ident) (actual_version b0 (service_Key ?s kind ident)) doc \<in> set ms"
    | (new) "create (service_Key ?s ResourceDemandIdentity ident) 0 (identity_doc kind ident) \<in> set ms"
      "\<forall>m\<in>set ms. key_Kind (mut_Key m) = ResourceDemandIdentity \<longrightarrow> mut_Key m = service_Key ?s ResourceDemandIdentity ident"
    using tx(1) unfolding puts_def by blast
  then have "live ?c ?s ResourceDemandIdentity ident = Some (identity_doc kind ident) \<and>
      ((kind' = ResourceMatchTicket \<or> kind' = ResourceBackfillTicket) \<and> kind' \<noteq> kind \<longrightarrow> live b ?s kind' ident = None) \<and>
      (scope \<noteq> ?s \<or> ident' \<noteq> ident \<longrightarrow> live ?c scope ResourceDemandIdentity ident' = live b scope ResourceDemandIdentity ident')"
  proof cases
    case replaced
    have "live b ?s kind ident = live b0 ?s kind ident"
      by (rule live_at_commit(1) [OF b0 eff replaced(3)]) simp_all
    then obtain d where "live b ?s kind ident = Some d" using replaced(2) by auto
    then have own: "live b ?s ResourceDemandIdentity ident = Some (identity_doc kind ident)"
      using tx(2) inv_identityD(2,4) [OF b(2)] by blast
    have "live b ?s kind' ident = None" if "kind' = ResourceMatchTicket \<or> kind' = ResourceBackfillTicket" "kind' \<noteq> kind"
    proof (rule ccontr)
      assume "live b ?s kind' ident \<noteq> None"
      with that(1) inv_identityD(2,4) [OF b(2)] have "live b ?s ResourceDemandIdentity ident = Some (identity_doc kind' ident)"
        by blast
      with own that(2) show False by simp
    qed
    with own live_avoids [OF replaced(1)] show ?thesis by auto
  next
    case new
    have absent: "live b ?s ResourceDemandIdentity ident = None"
      using absent_at_commit [OF b(1) eff new(1)] by (simp add: live_def)
    have "live ?c ?s ResourceDemandIdentity ident = Some (identity_doc kind ident)"
      using live_committed_mem [OF eff new(1)] by simp
    moreover have "live b ?s kind' ident = None" if "kind' = ResourceMatchTicket \<or> kind' = ResourceBackfillTicket"
      using that absent inv_identityD(2,4) [OF b(2)] by (metis not_None_eq)
    moreover have "live ?c scope ResourceDemandIdentity ident' = live b scope ResourceDemandIdentity ident'"
      if "scope \<noteq> ?s \<or> ident' \<noteq> ident"
      using that new(2) by (intro live_committed_other) fastforce
    ultimately show ?thesis by (intro conjI impI) simp_all
  qed
  then show "live ?c ?s ResourceDemandIdentity ident = Some (identity_doc kind ident)"
    "kind' = ResourceMatchTicket \<or> kind' = ResourceBackfillTicket \<Longrightarrow> kind' \<noteq> kind \<Longrightarrow> live b ?s kind' ident = None"
    "scope \<noteq> ?s \<or> ident' \<noteq> ident \<Longrightarrow> live ?c scope ResourceDemandIdentity ident' = live b scope ResourceDemandIdentity ident'"
    by simp_all
qed

lemma puts_keeps_identity:
  assumes b0: "mem_inv b0" "mem_evolves b0 b" and b: "mem_inv b" "inv_identity b"
    and tx: "puts b0 (op_Scope op) kind ident doc ms"
    and readable: "kind = ResourceMatchTicket \<and> (\<exists>t. decodeMatchTicket (Some doc) = Inr t \<and> mt_ID t = ident) \<or>
      kind = ResourceBackfillTicket \<and> (\<exists>t. decodeBackfillTicket (Some doc) = Inr t \<and> bt_ID t = ident)"
    and eff: "effective op ms b"
  shows "inv_identity (committed op ms b)"
proof -
  let ?s = "op_Scope op" and ?c = "committed op ms b"
  have kind: "kind = ResourceMatchTicket \<or> kind = ResourceBackfillTicket" using readable by blast
  note owner = puts_owner [OF b0 b tx kind eff]
  have written: "live ?c ?s kind ident = Some doc"
    using tx live_committed_mem [OF eff] unfolding puts_def by (metis mutation_sel(1,3))
  have other: "live ?c scope k i = live b scope k i"
    if "scope \<noteq> ?s \<or> k \<noteq> kind \<or> i \<noteq> ident" "k = ResourceMatchTicket \<or> k = ResourceBackfillTicket" for scope k i
    using that tx unfolding puts_def by (intro live_committed_other) fastforce
  have before: "live b scope k i = Some d \<and> (scope \<noteq> ?s \<or> i \<noteq> ident)"
    if k: "live ?c scope k i = Some d" "k = ResourceMatchTicket \<or> k = ResourceBackfillTicket"
      and apart: "scope \<noteq> ?s \<or> k \<noteq> kind \<or> i \<noteq> ident" for scope k i d
  proof -
    have "live b scope k i = Some d" using k other [OF apart k(2)] by simp
    with owner(2) [OF k(2)] apart show ?thesis by fastforce
  qed
  have claimed: "live ?c scope ResourceDemandIdentity i = Some (identity_doc k i)"
    if k: "live ?c scope k i = Some d" "k = ResourceMatchTicket \<or> k = ResourceBackfillTicket" for scope k i d
  proof (cases "scope = ?s \<and> k = kind \<and> i = ident")
    case True
    with owner(1) show ?thesis by simp
  next
    case False
    with before [OF k] have "live b scope k i = Some d" "scope \<noteq> ?s \<or> i \<noteq> ident" by blast+
    with k(2) inv_identityD(2,4) [OF b(2)] owner(3) show ?thesis by metis
  qed
  have read_m: "\<exists>t. decodeMatchTicket (Some d) = Inr t \<and> mt_ID t = i" if "live ?c scope ResourceMatchTicket i = Some d" for scope i d
  proof (cases "scope = ?s \<and> ResourceMatchTicket = kind \<and> i = ident")
    case True
    with that written readable show ?thesis by auto
  next
    case False
    with before [OF that] inv_identityD(1) [OF b(2)] show ?thesis by blast
  qed
  have read_b: "\<exists>t. decodeBackfillTicket (Some d) = Inr t \<and> bt_ID t = i" if "live ?c scope ResourceBackfillTicket i = Some d" for scope i d
  proof (cases "scope = ?s \<and> ResourceBackfillTicket = kind \<and> i = ident")
    case True
    with that written readable show ?thesis by auto
  next
    case False
    with before [OF that] inv_identityD(3) [OF b(2)] show ?thesis by blast
  qed
  show ?thesis
    unfolding inv_identity_def using claimed read_m read_b by blast
qed

section \<open>Sessions\<close>

lemma inv_sessionD:
  assumes "inv_session b"
  shows "live b scope ResourceBackfillTicket ident = Some d \<Longrightarrow> decodeBackfillTicket (Some d) = Inr t \<Longrightarrow>
      live b scope ResourceBackfillSessionClaim (bt_SessionID t) = Some (session_doc (bt_SessionID t) ident)"
    "live b scope ResourceBackfillSessionClaim sessionID = Some e \<Longrightarrow>
      \<exists>ident d t. e = session_doc sessionID ident \<and> live b scope ResourceBackfillTicket ident = Some d \<and>
         decodeBackfillTicket (Some d) = Inr t \<and> bt_SessionID t = sessionID"
  using assms unfolding inv_session_def by blast+

lemma session_doc_eq [simp]: "session_doc s i = session_doc s' i' \<longleftrightarrow> s = s' \<and> i = i'"
  by (simp add: session_doc_def)

text \<open>One backfill and the claim on its session change, nothing else.\<close>

lemma inv_session_change:
  assumes b: "inv_session b"
    and other_ticket: "\<And>scope i. scope \<noteq> s \<or> i \<noteq> ident \<Longrightarrow>
      live c scope ResourceBackfillTicket i = live b scope ResourceBackfillTicket i"
    and other_session: "\<And>scope i. scope \<noteq> s \<or> i \<noteq> sessionID \<Longrightarrow>
      live c scope ResourceBackfillSessionClaim i = live b scope ResourceBackfillSessionClaim i"
    and mine: "\<And>d t. live b s ResourceBackfillTicket ident = Some d \<Longrightarrow> decodeBackfillTicket (Some d) = Inr t \<Longrightarrow> bt_SessionID t = sessionID"
    and foreign: "live b s ResourceBackfillSessionClaim sessionID \<in> {None, Some (session_doc sessionID ident)}"
    and after: "live c s ResourceBackfillTicket ident = None \<and> live c s ResourceBackfillSessionClaim sessionID = None \<or>
      (\<exists>d t. live c s ResourceBackfillTicket ident = Some d \<and> decodeBackfillTicket (Some d) = Inr t \<and> bt_SessionID t = sessionID \<and>
         live c s ResourceBackfillSessionClaim sessionID = Some (session_doc sessionID ident))"
  shows "inv_session c"
proof -
  have claimed: "live c scope ResourceBackfillSessionClaim (bt_SessionID t) = Some (session_doc (bt_SessionID t) i)"
    if t: "live c scope ResourceBackfillTicket i = Some d" "decodeBackfillTicket (Some d) = Inr t" for scope i d t
  proof (cases "scope = s \<and> i = ident")
    case True
    with t after show ?thesis by auto
  next
    case False
    then have "live b scope ResourceBackfillTicket i = Some d" using t(1) other_ticket by (metis (full_types))
    then have claim: "live b scope ResourceBackfillSessionClaim (bt_SessionID t) = Some (session_doc (bt_SessionID t) i)"
      by (rule inv_sessionD(1) [OF b _ t(2)])
    with foreign False have "scope \<noteq> s \<or> bt_SessionID t \<noteq> sessionID" by auto
    with claim other_session show ?thesis by simp
  qed
  have backed: "\<exists>i d t. e = session_doc sid i \<and> live c scope ResourceBackfillTicket i = Some d \<and>
      decodeBackfillTicket (Some d) = Inr t \<and> bt_SessionID t = sid"
    if e: "live c scope ResourceBackfillSessionClaim sid = Some e" for scope sid e
  proof (cases "scope = s \<and> sid = sessionID")
    case True
    with e after show ?thesis by auto
  next
    case False
    then have "live b scope ResourceBackfillSessionClaim sid = Some e" using e other_session by (metis (full_types))
    from inv_sessionD(2) [OF b this] obtain i d t where t: "e = session_doc sid i" "live b scope ResourceBackfillTicket i = Some d"
      "decodeBackfillTicket (Some d) = Inr t" "bt_SessionID t = sid" by blast
    with mine False have "scope \<noteq> s \<or> i \<noteq> ident" by blast
    with t other_ticket show ?thesis by auto
  qed
  show ?thesis unfolding inv_session_def using claimed backed by blast
qed

lemma frees_keeps_session:
  assumes b0: "mem_inv b0" "mem_evolves b0 b" and b: "inv_session b"
    and tx: "frees_session b0 (op_Scope op) ident ms" and eff: "effective op ms b"
  shows "inv_session (committed op ms b)"
proof -
  let ?s = "op_Scope op" and ?c = "committed op ms b"
  let ?k = "service_Key ?s ResourceBackfillTicket ident"
  obtain d t v where t: "live b0 ?s ResourceBackfillTicket ident = Some d" "decodeBackfillTicket (Some d) = Inr t"
    and ms: "remove ?k (actual_version b0 ?k) \<in> set ms" "remove (service_Key ?s ResourceBackfillSessionClaim (bt_SessionID t)) v \<in> set ms"
    and only: "\<forall>m\<in>set ms. key_Kind (mut_Key m) = ResourceBackfillTicket \<longrightarrow> mut_Key m = ?k"
      "\<forall>m\<in>set ms. key_Kind (mut_Key m) = ResourceBackfillSessionClaim \<longrightarrow>
         mut_Key m = service_Key ?s ResourceBackfillSessionClaim (bt_SessionID t)"
    using tx unfolding frees_session_def by blast
  have now: "live b ?s ResourceBackfillTicket ident = Some d"
    using live_at_commit(1) [OF b0 eff ms(1)] t(1) by simp
  show ?thesis
  proof (rule inv_session_change [OF b, where s = ?s and ident = ident and sessionID = "bt_SessionID t"])
    show "live ?c scope ResourceBackfillTicket i = live b scope ResourceBackfillTicket i" if "scope \<noteq> ?s \<or> i \<noteq> ident" for scope i
      using that only(1) by (intro live_committed_other) fastforce
    show "live ?c scope ResourceBackfillSessionClaim i = live b scope ResourceBackfillSessionClaim i"
      if "scope \<noteq> ?s \<or> i \<noteq> bt_SessionID t" for scope i
      using that only(2) by (intro live_committed_other) fastforce
    show "live b ?s ResourceBackfillSessionClaim (bt_SessionID t) \<in> {None, Some (session_doc (bt_SessionID t) ident)}"
      using inv_sessionD(1) [OF b now t(2)] by simp
    show "live ?c ?s ResourceBackfillTicket ident = None \<and> live ?c ?s ResourceBackfillSessionClaim (bt_SessionID t) = None \<or>
      (\<exists>d t'. live ?c ?s ResourceBackfillTicket ident = Some d \<and> decodeBackfillTicket (Some d) = Inr t' \<and> bt_SessionID t' = bt_SessionID t \<and>
         live ?c ?s ResourceBackfillSessionClaim (bt_SessionID t) = Some (session_doc (bt_SessionID t) ident))"
      using live_committed_mem [OF eff ms(1)] live_committed_mem [OF eff ms(2)] by simp
  qed (use now t(2) in simp)
qed

text \<open>A backfill is written: the session is claimed by the same commit, or the live backfill it replaces has the session.\<close>

definition opens_session :: "store \<Rightarrow> string \<Rightarrow> BackfillTicket \<Rightarrow> document \<Rightarrow> document Mutation list \<Rightarrow> bool" where
  "opens_session b scope t doc ms \<longleftrightarrow>
     (\<forall>m\<in>set ms. key_Kind (mut_Key m) = ResourceBackfillTicket \<longrightarrow> mut_Key m = service_Key scope ResourceBackfillTicket (bt_ID t)) \<and>
     (avoids ms [ResourceBackfillSessionClaim] \<and>
        (\<exists>d t'. live b scope ResourceBackfillTicket (bt_ID t) = Some d \<and> decodeBackfillTicket (Some d) = Inr t' \<and> bt_SessionID t' = bt_SessionID t) \<and>
        create (service_Key scope ResourceBackfillTicket (bt_ID t)) (actual_version b (service_Key scope ResourceBackfillTicket (bt_ID t))) doc \<in> set ms \<or>
      live b scope ResourceBackfillSessionClaim (bt_SessionID t) = None \<and>
        create (service_Key scope ResourceBackfillTicket (bt_ID t)) 0 doc \<in> set ms \<and>
        create (service_Key scope ResourceBackfillSessionClaim (bt_SessionID t))
          (actual_version b (service_Key scope ResourceBackfillSessionClaim (bt_SessionID t))) (session_doc (bt_SessionID t) (bt_ID t)) \<in> set ms \<and>
        (\<forall>m\<in>set ms. key_Kind (mut_Key m) = ResourceBackfillSessionClaim \<longrightarrow>
           mut_Key m = service_Key scope ResourceBackfillSessionClaim (bt_SessionID t)))"

lemma opens_keeps_session:
  assumes b0: "mem_inv b0" "mem_evolves b0 b" and b: "mem_inv b" "inv_session b"
    and tx: "opens_session b0 (op_Scope op) t doc ms" "decodeBackfillTicket (Some doc) = Inr t" and eff: "effective op ms b"
  shows "inv_session (committed op ms b)"
proof -
  let ?s = "op_Scope op" and ?c = "committed op ms b"
  let ?k = "service_Key ?s ResourceBackfillTicket (bt_ID t)" and ?sk = "service_Key ?s ResourceBackfillSessionClaim (bt_SessionID t)"
  have other: "live ?c scope ResourceBackfillTicket i = live b scope ResourceBackfillTicket i"
    if "scope \<noteq> ?s \<or> i \<noteq> bt_ID t" for scope i
    using that tx(1) unfolding opens_session_def by (intro live_committed_other) fastforce
  have written: "live ?c ?s ResourceBackfillTicket (bt_ID t) = Some doc"
    using tx(1) live_committed_mem [OF eff] unfolding opens_session_def by (metis mutation_sel(1,3))
  note change = inv_session_change [OF b(2), where s = ?s and ident = "bt_ID t" and sessionID = "bt_SessionID t" and c = ?c, OF other]
  consider (replaced) d t' where "avoids ms [ResourceBackfillSessionClaim]" "live b0 ?s ResourceBackfillTicket (bt_ID t) = Some d"
      "decodeBackfillTicket (Some d) = Inr t'" "bt_SessionID t' = bt_SessionID t" "create ?k (actual_version b0 ?k) doc \<in> set ms"
    | (new) "live b0 ?s ResourceBackfillSessionClaim (bt_SessionID t) = None" "create ?k 0 doc \<in> set ms"
      "create ?sk (actual_version b0 ?sk) (session_doc (bt_SessionID t) (bt_ID t)) \<in> set ms"
      "\<forall>m\<in>set ms. key_Kind (mut_Key m) = ResourceBackfillSessionClaim \<longrightarrow> mut_Key m = ?sk"
    using tx(1) unfolding opens_session_def by (elim conjE disjE exE) metis+
  then show ?thesis
  proof cases
    case replaced
    have now: "live b ?s ResourceBackfillTicket (bt_ID t) = Some d"
      using live_at_commit(1) [OF b0 eff replaced(5)] replaced(2) by simp
    have session: "live b ?s ResourceBackfillSessionClaim (bt_SessionID t) = Some (session_doc (bt_SessionID t) (bt_ID t))"
      using inv_sessionD(1) [OF b(2) now replaced(3)] replaced(4) by simp
    have same: "live ?c scope ResourceBackfillSessionClaim i = live b scope ResourceBackfillSessionClaim i" for scope i
      by (rule live_avoids [OF replaced(1)]) simp
    show ?thesis by (rule change) (use now replaced(3,4) session same written tx(2) in simp_all)
  next
    case new
    have free: "live b ?s ResourceBackfillSessionClaim (bt_SessionID t) = None"
      using live_at_commit(1) [OF b0 eff new(3)] new(1) by simp
    have absent: "live b ?s ResourceBackfillTicket (bt_ID t) = None"
      using absent_at_commit [OF b(1) eff new(2)] by (simp add: live_def)
    have claim: "live ?c ?s ResourceBackfillSessionClaim (bt_SessionID t) = Some (session_doc (bt_SessionID t) (bt_ID t))"
      using live_committed_mem [OF eff new(3)] by simp
    have same: "live ?c scope ResourceBackfillSessionClaim i = live b scope ResourceBackfillSessionClaim i"
      if "scope \<noteq> ?s \<or> i \<noteq> bt_SessionID t" for scope i
      using that new(4) by (intro live_committed_other) fastforce
    show ?thesis by (rule change) (use free absent claim same written tx(2) in simp_all)
  qed
qed

section \<open>Each transaction keeps the invariant\<close>

definition kinds_written :: "document Mutation list \<Rightarrow> string set" where
  "kinds_written ms = (\<lambda>m. key_Kind (mut_Key m)) ` set ms"

lemma avoidsI: "kinds_written ms \<subseteq> kinds \<Longrightarrow> kinds \<inter> set ks = {} \<Longrightarrow> avoids ms ks"
  by (auto simp: avoids_def kinds_written_def)

lemma match_put_Inr:
  assumes "mem_inv b" "Memory_Snapshot scope b = Inr snap" "wire_match_ticket t" "match_put_mutations snap scope t payload = Inr ms"
  shows "puts b scope ResourceMatchTicket (mt_ID t) payload ms" "kinds_written ms \<subseteq> {ResourceMatchTicket, ResourceDemandIdentity}"
proof -
  let ?k = "service_Key scope ResourceMatchTicket (mt_ID t)"
  have identity: "encodeDemandIdentityClaim ResourceMatchTicket (mt_ID t) = Inr d \<Longrightarrow> d = identity_doc ResourceMatchTicket (mt_ID t)" for d
    using assms(3) by (auto simp: encodeDemandIdentityClaim_def identity_doc_def wire_match_ticket_def split: if_splits)
  have "(\<exists>r. resource_at b ?k = Some r \<and> \<not> rsc_Deleted r \<and> ms = [create ?k (rsc_Version r) payload]) \<or>
      ms = [create (service_Key scope ResourceDemandIdentity (mt_ID t)) 0 (identity_doc ResourceMatchTicket (mt_ID t)), create ?k 0 payload]"
    using assms(4) identity
    by (auto simp: match_put_mutations_def Let_def findResource_snapshot [OF assms(1,2)] split: option.splits sum.splits if_splits)
  then have "puts b scope ResourceMatchTicket (mt_ID t) payload ms \<and> kinds_written ms \<subseteq> {ResourceMatchTicket, ResourceDemandIdentity}"
    using mem_invD(5) [OF assms(1)] by (auto simp: puts_def avoids_def live_def actual_version_def kinds_written_def)
  then show "puts b scope ResourceMatchTicket (mt_ID t) payload ms" "kinds_written ms \<subseteq> {ResourceMatchTicket, ResourceDemandIdentity}"
    by blast+
qed

lemma match_cancel_Inr:
  assumes "mem_inv b" "Memory_Snapshot scope b = Inr snap" "match_cancel_mutations snap scope ident revision = Inr ms"
  shows "only_deletes ms" "kinds_written ms \<subseteq> {ResourceMatchTicket}"
  using assms(3)
  by (auto simp: match_cancel_mutations_def Let_def only_deletes_def avoids_def kinds_written_def split: option.splits sum.splits if_splits)

lemma backfill_put_Inr:
  assumes "mem_inv b" "Memory_Snapshot scope b = Inr snap" "wire_backfill_ticket t" "backfill_put_mutations snap scope t payload = Inr ms"
  shows "puts b scope ResourceBackfillTicket (bt_ID t) payload ms" "opens_session b scope t payload ms"
    "kinds_written ms \<subseteq> {ResourceBackfillTicket, ResourceDemandIdentity, ResourceBackfillSessionClaim}"
proof -
  let ?k = "service_Key scope ResourceBackfillTicket (bt_ID t)" and ?sk = "service_Key scope ResourceBackfillSessionClaim (bt_SessionID t)"
  have docs: "encodeDemandIdentityClaim ResourceBackfillTicket (bt_ID t) = Inr d \<Longrightarrow> d = identity_doc ResourceBackfillTicket (bt_ID t)"
    "encodeBackfillSessionClaim t = Inr d \<Longrightarrow> d = session_doc (bt_SessionID t) (bt_ID t)" for d
    using assms(3)
    by (auto simp: encodeDemandIdentityClaim_def encodeBackfillSessionClaim_def identity_doc_def session_doc_def wire_backfill_ticket_def
        split: if_splits)
  have "(\<exists>r t'. resource_at b ?k = Some r \<and> \<not> rsc_Deleted r \<and> decodeBackfillTicket (rsc_Payload r) = Inr t' \<and>
        bt_SessionID t' = bt_SessionID t \<and> ms = [create ?k (rsc_Version r) payload]) \<or>
      live b scope ResourceBackfillSessionClaim (bt_SessionID t) = None \<and>
      ms = [create (service_Key scope ResourceDemandIdentity (bt_ID t)) 0 (identity_doc ResourceBackfillTicket (bt_ID t)),
        create ?sk (actual_version b ?sk) (session_doc (bt_SessionID t) (bt_ID t)), create ?k 0 payload]"
    using assms(4) docs
    by (auto simp: backfill_put_mutations_def validateBackfillReplacement_def live_def actual_version_def Let_def
        findResource_snapshot [OF assms(1,2)] split: option.splits sum.splits if_splits)
  then consider (replaced) r t' d where "resource_at b ?k = Some r" "\<not> rsc_Deleted r" "rsc_Payload r = Some d"
      "decodeBackfillTicket (Some d) = Inr t'" "bt_SessionID t' = bt_SessionID t" "ms = [create ?k (rsc_Version r) payload]"
    | (new) "live b scope ResourceBackfillSessionClaim (bt_SessionID t) = None"
      "ms = [create (service_Key scope ResourceDemandIdentity (bt_ID t)) 0 (identity_doc ResourceBackfillTicket (bt_ID t)),
        create ?sk (actual_version b ?sk) (session_doc (bt_SessionID t) (bt_ID t)), create ?k 0 payload]"
    using mem_invD(5) [OF assms(1)] by (metis option.exhaust)
  then have "puts b scope ResourceBackfillTicket (bt_ID t) payload ms \<and> opens_session b scope t payload ms \<and>
      kinds_written ms \<subseteq> {ResourceBackfillTicket, ResourceDemandIdentity, ResourceBackfillSessionClaim}"
  proof cases
    case replaced
    then have "live b scope ResourceBackfillTicket (bt_ID t) = Some d" "actual_version b ?k = rsc_Version r"
      by (simp_all add: live_def actual_version_def)
    with replaced(4-6) show ?thesis by (auto simp: puts_def opens_session_def avoids_def kinds_written_def)
  next
    case new
    then show ?thesis by (simp add: puts_def opens_session_def kinds_written_def)
  qed
  then show "puts b scope ResourceBackfillTicket (bt_ID t) payload ms" "opens_session b scope t payload ms"
    "kinds_written ms \<subseteq> {ResourceBackfillTicket, ResourceDemandIdentity, ResourceBackfillSessionClaim}" by blast+
qed

lemma backfill_cancel_Inr:
  assumes "mem_inv b" "Memory_Snapshot scope b = Inr snap" "backfill_cancel_mutations snap scope ident revision roster = Inr ms"
  shows "frees_session b scope ident ms" "only_deletes ms" "kinds_written ms \<subseteq> {ResourceBackfillTicket, ResourceBackfillSessionClaim}"
proof -
  let ?k = "service_Key scope ResourceBackfillTicket ident"
  obtain resource t v where r: "live_resource snap ?k = Some resource" "decodeBackfillTicket (rsc_Payload resource) = Inr t"
    and ms: "ms = [remove ?k (rsc_Version resource), remove (service_Key scope ResourceBackfillSessionClaim (bt_SessionID t)) v]"
    using assms(3) by (auto simp: backfill_cancel_mutations_def Let_def split: option.splits sum.splits if_splits)
  obtain d where d: "live b scope ResourceBackfillTicket ident = Some d" "rsc_Payload resource = Some d"
    "rsc_Version resource = actual_version b ?k"
    by (rule read_live [OF assms(1,2) r(1)])
  show "frees_session b scope ident ms"
    unfolding frees_session_def by (rule exI [of _ d], rule exI [of _ t], rule exI [of _ v]) (use d r(2) ms in simp)
  show "only_deletes ms" "kinds_written ms \<subseteq> {ResourceBackfillTicket, ResourceBackfillSessionClaim}"
    by (simp_all add: ms only_deletes_def avoids_def kinds_written_def)
qed

lemma reserve_kinds:
  assumes "mem_inv b" "inv_proposals b" "Memory_Snapshot (op_Scope op) b = Inr snap"
    "reserve_prepare snap ttl op rid pid = Inr (r, ms)"
  shows "kinds_written ms \<subseteq> {ResourceReservation, ResourceDemandReservation, ResourceOperationResult}"
proof -
  obtain d cs kind e where ms: "ms = create (service_Key (op_Scope op) ResourceReservation rid) 0 d # cs @
       [create (service_Key (op_Scope op) ResourceOperationResult (op_ID op)) 0 e]"
    "list_all2 (claim_created b (op_Scope op) r kind) (reservation_refs r) cs"
    by (rule reserve_prepare_Inr [OF assms]) blast
  have "key_Kind (mut_Key m) = ResourceDemandReservation" if "m \<in> set cs" for m
    using list_all2_right [OF ms(2) that] by (auto simp: claim_created_def)
  then show ?thesis by (auto simp: ms(1) kinds_written_def)
qed

lemma other_kinds:
  "policy_put_mutations sha256 snap scope version fingerprint payload = Inr ms \<Longrightarrow> kinds_written ms \<subseteq> {ResourcePolicy}"
  "capture_mutations sha256 snap scope runID version at = Inr ms \<Longrightarrow> kinds_written ms \<subseteq> {ResourcePlanningRun, ResourcePlanningSnapshot}"
  "kinds_written (complete_mutations sha256 resource scope runID runPayload proposals proposalPayloads unmatched unmatchedPayloads)
     \<subseteq> {ResourcePlanningRun, ResourceProposal, ResourcePlanningUnmatched}"
  by (auto simp: policy_put_mutations_def capture_mutations_def complete_mutations_def kinds_written_def Let_def
      split: option.splits sum.splits if_splits)

lemma acknowledge_kinds:
  assumes "mem_inv b" "Memory_Snapshot (op_Scope op) b = Inr snap" "acknowledge_prepare snap op aid request = Inr (a, ms)"
  shows "kinds_written ms \<subseteq> {ResourceAssignment, ResourceAcknowledgment, ResourceOperationResult}"
proof -
  obtain resource d e f where ms: "live_resource snap (service_Key (op_Scope op) ResourceAssignment aid) = Some resource"
    "ms = [create (rsc_Key resource) (rsc_Version resource) d, create (service_Key (op_Scope op) ResourceAcknowledgment aid) 0 e,
       create (service_Key (op_Scope op) ResourceOperationResult (req_OperationID request)) 0 f]"
    using assms(3) by (auto simp: acknowledge_prepare_def Let_def split: option.splits sum.splits if_splits)
  have "rsc_Key resource = service_Key (op_Scope op) ResourceAssignment aid"
    by (rule read_live [OF assms(1,2) ms(1)])
  then show ?thesis by (simp add: ms(2) kinds_written_def)
qed

lemma decode_encodeProposal:
  assumes "encodeProposal runID p = Inr d" "decodeProposal (Some d) = Inr q"
  shows "prp_Proposal q = json_proposal p"
  using assms by (auto simp: encodeProposal_def decodeProposal_def Let_def split: if_splits option.splits)

lemma complete_keeps_proposals:
  assumes "inv_proposals b" "decode_all (encodeProposal runID) proposals = Inr payloads" "effective op ms b"
    "ms = complete_mutations sha256 resource (op_Scope op) runID runPayload proposals payloads unmatched unmatchedPayloads"
  shows "inv_proposals (committed op ms b)"
  unfolding inv_proposals_def
proof (intro allI impI)
  fix scope ident d q
  assume d: "live (committed op ms b) scope ResourceProposal ident = Some d" and q: "decodeProposal (Some d) = Inr q"
  show "json_proposal (prp_Proposal q) = prp_Proposal q"
  proof (cases rule: live_committed_cases [OF assms(3), of scope ResourceProposal ident])
    case 1
    with d q assms(1) show ?thesis unfolding inv_proposals_def by metis
  next
    case (2 m)
    then have "m \<in> (\<lambda>(p, payload). create (service_Key (op_Scope op) ResourceProposal (prop_ID p)) 0 payload) ` set (zip proposals payloads)"
      by (auto simp: assms(4) complete_mutations_def)
    then obtain p where p: "(p, the (mut_Payload m)) \<in> set (zip proposals payloads)" "mut_Payload m = Some d"
      using 2(3) d by auto
    then have "encodeProposal runID p = Inr d"
      using assms(2) unfolding decode_all_Inr list_all2_iff by force
    from decode_encodeProposal [OF this q] show ?thesis by simp
  qed
qed

theorem transaction_keeps_inv:
  assumes tx: "transaction sha256 b0 op ms" and b0: "service_inv b0" "mem_evolves b0 b"
    and b: "service_inv b" and eff: "effective op ms b"
  shows "service_inv (committed op ms b)"
proof -
  note b0' = b0(1) [unfolded service_inv_def] and b' = b [unfolded service_inv_def]
  have inv0: "mem_inv b0" "inv_proposals b0" "inv_claims b0" and inv: "mem_inv b" "inv_identity b" "inv_session b" "inv_claims b" "inv_proposals b"
    using b0' b' by blast+
  have mem: "mem_inv (committed op ms b)" by (rule committed_inv [OF inv(1) eff])
  note I = service_inv_def [THEN iffD2, OF conjI [OF mem conjI [OF _ conjI [OF _ conjI]]]]
  note F = frame_identity [OF avoidsI inv(2)] frame_session [OF avoidsI inv(3)] frame_claims [OF avoidsI inv(4)] frame_proposals [OF avoidsI inv(5)]
  from tx show ?thesis
  proof cases
    case (match_put snap ticket payload)
    note w = match_put_Inr [OF inv0(1) match_put(1,3,5)]
    have "decodeMatchTicket (Some payload) = Inr ticket" by (rule decode_encodeMatchTicket [OF match_put(4,2,3)])
    then have "inv_identity (committed op ms b)"
      by (intro puts_keeps_identity [OF inv0(1) b0(2) inv(1,2) w(1) _ eff]) simp
    then show ?thesis by (rule I) (rule F(2-4) [OF w(2)]; simp)+
  next
    case (match_cancel snap ident revision)
    note w = match_cancel_Inr [OF inv0(1) match_cancel]
    show ?thesis
      by (rule I, rule only_deletes_keeps_identity [OF inv(2) eff w(1)]) (rule F(2-4) [OF w(2)]; simp)+
  next
    case (backfill_put snap ticket payload)
    note w = backfill_put_Inr [OF inv0(1) backfill_put(1,3,5)]
    have d: "decodeBackfillTicket (Some payload) = Inr ticket" by (rule decode_encodeBackfillTicket [OF backfill_put(4,2,3)])
    have "inv_identity (committed op ms b)"
      using d by (intro puts_keeps_identity [OF inv0(1) b0(2) inv(1,2) w(1) _ eff]) simp
    then show ?thesis
      by (rule I) (rule opens_keeps_session [OF inv0(1) b0(2) inv(1,3) w(2) d eff] F(3,4) [OF w(3)]; simp)+
  next
    case (backfill_cancel snap ident revision roster)
    note w = backfill_cancel_Inr [OF inv0(1) backfill_cancel]
    show ?thesis
      by (rule I, rule only_deletes_keeps_identity [OF inv(2) eff w(2)], rule frees_keeps_session [OF inv0(1) b0(2) inv(3) w(1) eff])
        (rule F(3,4) [OF w(3)]; simp)+
  next
    case (policy_put snap policy fingerprint payload)
    show ?thesis by (rule I) (rule F [OF other_kinds(1) [OF policy_put(4)]]; simp)+
  next
    case (reserve snap rid ttl pid r)
    note w = reserve_kinds [OF inv0(1,2) reserve(1,3)]
    have "inv_claims (committed op ms b)"
      by (rule reserve_keeps_claims [OF inv0(1,2) b0(2) inv(1,4) reserve eff])
    then show ?thesis by (intro I) (simp | rule F [OF w]; simp)+
  next
    case (cancel snap rid r v)
    note w = cancel_prepare_Inr [OF inv0(1,3) cancel]
    then have k: "kinds_written ms \<subseteq> {ResourceReservation, ResourceDemandReservation, ResourceOperationResult}"
      by (auto simp: kinds_written_def)
    have "inv_claims (committed op ms b)"
      using w(1) ends_keeps_claims [OF inv0(1) b0(2) inv(4) _ eff] frame_claims [OF _ inv(4)] by blast
    then show ?thesis by (intro I) (simp | rule F [OF k]; simp)+
  next
    case (release snap rid resource current status)
    note w = end_mutations_Inr [OF inv0(1,3) release]
    then have k: "kinds_written ms \<subseteq> {ResourceReservation, ResourceDemandReservation}"
      by (auto simp: kinds_written_def)
    have "inv_claims (committed op ms b)" by (rule ends_keeps_claims [OF inv0(1) b0(2) inv(4) w(1) eff])
    then show ?thesis by (intro I) (simp | rule F [OF k]; simp)+
  next
    case (confirm snap rid aid assignment)
    note w = confirm_prepare_Inr [OF inv0(1,3) confirm]
    have "inv_session (committed op ms b)"
      using w(2) frees_keeps_session [OF inv0(1) b0(2) inv(3) _ eff] frame_session [OF _ inv(3)] by blast
    then show ?thesis
      using only_deletes_keeps_identity [OF inv(2) eff w(3)] ends_keeps_claims [OF inv0(1) b0(2) inv(4) w(1) eff]
        frame_proposals [OF w(4) inv(5)] by (intro I)
  next
    case (acknowledge snap aid request assignment)
    show ?thesis by (rule I) (rule F [OF acknowledge_kinds [OF inv0(1) acknowledge]]; simp)+
  next
    case (capture snap runID version at)
    show ?thesis by (rule I) (rule F [OF other_kinds(2) [OF capture(2)]]; simp)+
  next
    case (complete runID proposals payloads resource runPayload unmatched unmatchedPayloads)
    have "inv_proposals (committed op ms b)" by (rule complete_keeps_proposals [OF inv(5) complete(1) eff complete(2)])
    moreover have k: "kinds_written ms \<subseteq> {ResourcePlanningRun, ResourceProposal, ResourcePlanningUnmatched}"
      unfolding complete(2) by (rule other_kinds(3))
    ultimately show ?thesis by (intro I) (simp | rule F [OF k]; simp)+
  qed
qed

end
