(* ===== verification/Service_Runs.thy ===== *)
theory Service_Runs
  imports Service_Inv
begin

text \<open>
  The service under concurrent clients. Its stores form a history; a repository shared with other
  clients may extend the history before each call of an operation. The locale \<open>shared_store\<close> states
  what an operation may rely on and what each of its calls guarantees; inside it every operation of
  the service is shown to extend histories only. The interpretation is a repository that lets an
  arbitrary script of other clients act before every call, so the invariant of the store holds in
  every interleaving.
\<close>

section \<open>Histories\<close>

text \<open>The stores of a history, newest first: each commit was prepared from some earlier store.\<close>

inductive history :: "hash \<Rightarrow> store list \<Rightarrow> bool" for sha256 :: hash where
  start: "history sha256 [NewMemoryBackend]"
| commit: "history sha256 (committed op ms b # b # h)"
    if "history sha256 (b # h)" "b0 \<in> set (b # h)" "transaction sha256 b0 op ms" "effective op ms b"

inductive_cases history_ConsE: "history sha256 (b # h)"

lemma history_nonempty: "history sha256 h \<Longrightarrow> h \<noteq> []"
  by (induction rule: history.induct) simp_all

theorem history_inv:
  assumes "history sha256 h"
  shows "\<forall>b\<in>set h. service_inv b \<and> mem_evolves b (hd h)"
  using assms
proof induction
  case start
  then show ?case by (simp add: service_inv_New mem_evolves_refl)
next
  case (commit b h b0 op ms)
  have "service_inv (committed op ms b)"
    by (rule transaction_keeps_inv [OF commit.hyps(3)]) (use commit in auto)
  moreover have "mem_evolves x (committed op ms b)" if "x \<in> set (b # h)" for x
    using that commit.IH committed_evolves [OF commit.hyps(4)] mem_evolves_trans by (metis list.sel(1))
  ultimately show ?case using commit.IH by (auto simp: mem_evolves_refl)
qed

lemma history_suffix:
  assumes "history sha256 h" "suffix h' h" "h' \<noteq> []"
  shows "history sha256 h'"
  using assms
proof (induction arbitrary: h' rule: history.induct)
  case start
  then show ?case by (auto simp: suffix_Cons intro: history.start)
next
  case (commit b h b0 op ms)
  then show ?case by (auto simp: suffix_Cons intro: history.commit)
qed

section \<open>The contract of a shared repository\<close>

locale shared_store =
  fixes sha256 :: hash and repo :: "'s RepositoryInterface" and log :: "'s \<Rightarrow> store list" and valid :: "'s \<Rightarrow> bool"
  assumes valid_history: "valid s \<Longrightarrow> history sha256 (log s)"
    and snapshot_law: "valid s \<Longrightarrow> repo_Snapshot repo scope s = (r, t) \<Longrightarrow>
      valid t \<and> suffix (log s) (log t) \<and> r = Memory_Snapshot scope (hd (log t))"
    and replay_law: "valid s \<Longrightarrow> repo_Replay repo op s = (q, t) \<Longrightarrow>
      valid t \<and> suffix (log s) (log t) \<and> q = Memory_Replay op (hd (log t))"
    and commit_law: "valid s \<Longrightarrow> b0 \<in> set (log s) \<Longrightarrow> transaction sha256 b0 op ms \<Longrightarrow> repo_Commit repo op ms s = (c, t) \<Longrightarrow>
      valid t \<and> suffix (log s) (log t) \<and>
      (\<exists>b h. history sha256 (b # h) \<and> suffix (log s) (b # h) \<and> suffix (b # h) (log t) \<and> Memory_Commit op ms b = (c, hd (log t)))"
begin

text \<open>
  \<open>guarantee S m Q\<close>: started when the stores of \<open>S\<close> are in the history, the operation only extends
  the history, and if it answers \<open>x\<close> then \<open>Q x\<close> holds of the stores of the history it ends with.
\<close>

definition guarantee :: "store set \<Rightarrow> ('s, 'a) action \<Rightarrow> ('a \<Rightarrow> store set \<Rightarrow> bool) \<Rightarrow> bool" where
  "guarantee S m Q \<longleftrightarrow> (\<forall>s. valid s \<longrightarrow> S \<subseteq> set (log s) \<longrightarrow>
     (case m s of (r, t) \<Rightarrow> valid t \<and> suffix (log s) (log t) \<and> (\<forall>x. r = Inr x \<longrightarrow> Q x (set (log t)))))"

lemma guaranteeI:
  assumes "\<And>s r t. valid s \<Longrightarrow> S \<subseteq> set (log s) \<Longrightarrow> m s = (r, t) \<Longrightarrow>
    valid t \<and> suffix (log s) (log t) \<and> (\<forall>x. r = Inr x \<longrightarrow> Q x (set (log t)))"
  shows "guarantee S m Q"
  using assms by (auto simp: guarantee_def split: prod.splits)

lemma guaranteeD:
  assumes "guarantee S m Q" "valid s" "S \<subseteq> set (log s)" "m s = (r, t)"
  shows "valid t" "suffix (log s) (log t)" "r = Inr x \<Longrightarrow> Q x (set (log t))"
  using assms by (auto simp: guarantee_def split: prod.splits)

lemma suffix_set: "suffix xs ys \<Longrightarrow> set xs \<subseteq> set ys"
  by (auto simp: suffix_def)

lemma guarantee_ok: "(\<And>H. S \<subseteq> H \<Longrightarrow> Q x H) \<Longrightarrow> guarantee S (act_ok x) Q"
  by (rule guaranteeI) (auto simp: act_ok_def)

lemma guarantee_fail: "guarantee S (act_fail e) Q"
  by (rule guaranteeI) (auto simp: act_fail_def)

lemma guarantee_let: "(\<And>x. r = Inr x \<Longrightarrow> guarantee S (f x) Q) \<Longrightarrow> guarantee S (act_let r f) Q"
  by (cases r) (simp_all add: act_let_def guarantee_fail)

lemma guarantee_check: "(r = None \<Longrightarrow> guarantee S m Q) \<Longrightarrow> guarantee S (act_check r m) Q"
  by (cases r) (simp_all add: act_check_def guarantee_fail)

lemma guarantee_try:
  assumes "guarantee S m (\<lambda>_ _. True)" "\<And>r. guarantee S (f r) Q"
  shows "guarantee S (act_try m f) Q"
proof (rule guaranteeI)
  fix s r t
  assume s: "valid s" "S \<subseteq> set (log s)" "act_try m f s = (r, t)"
  obtain r' u where u: "m s = (r', u)" by fastforce
  note m = guaranteeD [OF assms(1) s(1,2) u]
  have "S \<subseteq> set (log u)" using s(2) suffix_set [OF m(2)] by blast
  from guaranteeD [OF assms(2) m(1) this] s(3) u m(2)
  show "valid t \<and> suffix (log s) (log t) \<and> (\<forall>x. r = Inr x \<longrightarrow> Q x (set (log t)))"
    by (auto simp: act_try_def intro: suffix_order.trans)
qed

lemma act_bind_try: "act_bind m f = act_try m (\<lambda>r. case r of Inl e \<Rightarrow> act_fail e | Inr x \<Rightarrow> f x)"
  by (rule ext) (auto simp: act_bind_def act_try_def act_fail_def split: prod.splits sum.splits)

lemma guarantee_bind:
  assumes "guarantee S m (\<lambda>_ _. True)" "\<And>x. guarantee S (f x) Q"
  shows "guarantee S (act_bind m f) Q"
  unfolding act_bind_try by (rule guarantee_try [OF assms(1)]) (auto simp: guarantee_fail assms(2) split: sum.splits)

text \<open>What a call of the repository answered was true of a store of the history.\<close>

lemma guarantee_read:
  assumes "\<And>s r t. valid s \<Longrightarrow> m s = (r, t) \<Longrightarrow> valid t \<and> suffix (log s) (log t) \<and> r = answer (hd (log t))"
    "\<And>b x. service_inv b \<Longrightarrow> answer b = Inr x \<Longrightarrow> guarantee (insert b S) (f x) Q"
  shows "guarantee S (act_bind m f) Q"
proof (rule guaranteeI)
  fix s r t
  assume s: "valid s" "S \<subseteq> set (log s)" "act_bind m f s = (r, t)"
  obtain r' u where u: "m s = (r', u)" by fastforce
  note m = assms(1) [OF s(1) u]
  have S: "insert (hd (log u)) S \<subseteq> set (log u)"
    using m s(2) suffix_set history_nonempty [OF valid_history, of u] by (metis hd_in_set insert_subset order_trans)
  show "valid t \<and> suffix (log s) (log t) \<and> (\<forall>x. r = Inr x \<longrightarrow> Q x (set (log t)))"
  proof (cases r')
    case (Inl e)
    with s(3) u have "r = Inl e" "t = u" by (simp_all add: act_bind_def)
    with m show ?thesis by simp
  next
    case (Inr x)
    with m have "answer (hd (log u)) = Inr x" by simp
    moreover have "service_inv (hd (log u))" using history_inv [OF valid_history] m S by blast
    ultimately have f: "guarantee (insert (hd (log u)) S) (f x) Q" by (intro assms(2))
    have "f x u = (r, t)" using s(3) u Inr by (simp add: act_bind_def)
    with guaranteeD [OF f _ S, of r t] m show ?thesis by (auto intro: suffix_order.trans)
  qed
qed

lemma guarantee_snapshot:
  assumes "\<And>b snap. service_inv b \<Longrightarrow> Memory_Snapshot scope b = Inr snap \<Longrightarrow> guarantee (insert b S) (f snap) Q"
  shows "guarantee S (act_bind (repo_Snapshot repo scope) f) Q"
  by (rule guarantee_read [OF snapshot_law assms])

lemma guarantee_replay:
  assumes "\<And>b r. service_inv b \<Longrightarrow> Memory_Replay op b = Inr r \<Longrightarrow> guarantee (insert b S) (f r) Q"
  shows "guarantee S (act_bind (repo_Replay repo op) f) Q"
  by (rule guarantee_read [OF replay_law assms])

lemma guarantee_commit:
  assumes "b0 \<in> S" "transaction sha256 b0 op ms"
    "\<And>b r c. service_inv b \<Longrightarrow> mem_evolves b0 b \<Longrightarrow> Memory_Commit op ms b = (r, c) \<Longrightarrow> guarantee (insert c (insert b S)) (f r) Q"
  shows "guarantee S (act_try (repo_Commit repo op ms) f) Q"
proof (rule guaranteeI)
  fix s r t
  assume s: "valid s" "S \<subseteq> set (log s)" "act_try (repo_Commit repo op ms) f s = (r, t)"
  obtain r' u where u: "repo_Commit repo op ms s = (r', u)" by fastforce
  from assms(1) s(2) have "b0 \<in> set (log s)" by blast
  note m = commit_law [OF s(1) this assms(2) u]
  then obtain b h where h: "history sha256 (b # h)" "suffix (log s) (b # h)" "suffix (b # h) (log u)"
    and b: "Memory_Commit op ms b = (r', hd (log u))" by blast
  have inv: "service_inv b" "mem_evolves b0 b"
    using history_inv [OF h(1)] suffix_set [OF h(2)] \<open>b0 \<in> set (log s)\<close> by auto
  have "hd (log u) \<in> set (log u)" using m history_nonempty [OF valid_history, of u] by simp
  moreover have "b \<in> set (log u)" using suffix_set [OF h(3)] by simp
  moreover have "S \<subseteq> set (log u)" using m s(2) suffix_set [of "log s" "log u"] by blast
  ultimately have "insert (hd (log u)) (insert b S) \<subseteq> set (log u)" by simp
  from guaranteeD [OF assms(3) [OF inv b] _ this, of r t] m s(3) u
  show "valid t \<and> suffix (log s) (log t) \<and> (\<forall>x. r = Inr x \<longrightarrow> Q x (set (log t)))"
    by (auto simp: act_try_def intro: suffix_order.trans)
qed

lemma guarantee_commit_bind:
  assumes "b0 \<in> S" "transaction sha256 b0 op ms" 
    "\<And>b r c. service_inv b \<Longrightarrow> mem_evolves b0 b \<Longrightarrow> Memory_Commit op ms b = (Inr r, c) \<Longrightarrow> guarantee (insert c (insert b S)) (f r) Q"
  shows "guarantee S (act_bind (repo_Commit repo op ms) f) Q"
  unfolding act_bind_try
  by (rule guarantee_commit [OF assms(1,2)]) (auto simp: guarantee_fail assms(3) split: sum.splits)

lemma guarantee_subset:
  assumes "guarantee S m Q" "S \<subseteq> S'" "\<And>x H. Q x H \<Longrightarrow> Q' x H"
  shows "guarantee S' m Q'"
  using assms by (fastforce simp: guarantee_def split: prod.splits)

end

section \<open>Every operation extends the history\<close>

lemma service_operation_Inr:
  "service_operation scope operationID kind d now = Inr op \<Longrightarrow>
   op_Scope op = scope \<and> op_ID op = operationID \<and> op_Kind op = kind \<and> op_Digest op = d \<and> op_At op = now"
  by (auto simp: service_operation_def Let_def split: option.splits)

context shared_store
begin

abbreviation safe :: "store set \<Rightarrow> ('s, 'a) action \<Rightarrow> bool" where
  "safe S m \<equiv> guarantee S m (\<lambda>_ _. True)"

lemma guarantee_option:
  "(r = None \<Longrightarrow> guarantee S m Q) \<Longrightarrow> (\<And>x. r = Some x \<Longrightarrow> guarantee S (f x) Q) \<Longrightarrow>
   guarantee S (case r of None \<Rightarrow> m | Some x \<Rightarrow> f x) Q"
  by (cases r) simp_all

lemma guarantee_sum:
  "(\<And>e. r = Inl e \<Longrightarrow> guarantee S (g e) Q) \<Longrightarrow> (\<And>x. r = Inr x \<Longrightarrow> guarantee S (f x) Q) \<Longrightarrow>
   guarantee S (case r of Inl e \<Rightarrow> g e | Inr x \<Rightarrow> f x) Q"
  by (cases r) simp_all

lemma guarantee_prod: "(\<And>x y. p = (x, y) \<Longrightarrow> guarantee S (f x y) Q) \<Longrightarrow> guarantee S (case p of (x, y) \<Rightarrow> f x y) Q"
  by (cases p) simp

lemma guarantee_if: "(c \<Longrightarrow> guarantee S m Q) \<Longrightarrow> (\<not> c \<Longrightarrow> guarantee S m' Q) \<Longrightarrow> guarantee S (if c then m else m') Q"
  by simp

lemmas guarantee_steps = guarantee_ok guarantee_fail guarantee_let guarantee_check guarantee_snapshot guarantee_replay
  guarantee_commit [OF insertI1] guarantee_commit_bind [OF insertI1] guarantee_option guarantee_sum guarantee_prod guarantee_if

lemma safe_MatchTickets_Put:
  assumes "wire_match_ticket ticket"
  shows "safe S (MatchTickets_Put repo digest now scope operationID ticket)"
  unfolding MatchTickets_Put_def
  by (intro guarantee_steps) (auto dest!: service_operation_Inr intro: assms transaction.match_put)

lemma safe_MatchTickets_Cancel: "safe S (MatchTickets_Cancel repo digest now scope operationID ident revision)"
  unfolding MatchTickets_Cancel_def
  by (intro guarantee_steps) (auto dest!: service_operation_Inr intro: transaction.match_cancel)

lemma safe_BackfillTickets_Put:
  assumes "wire_backfill_ticket ticket"
  shows "safe S (BackfillTickets_Put repo digest now scope operationID ticket)"
  unfolding BackfillTickets_Put_def
  by (intro guarantee_steps) (auto dest!: service_operation_Inr intro: assms transaction.backfill_put)

lemma safe_BackfillTickets_Cancel: "safe S (BackfillTickets_Cancel repo digest now scope operationID ident revision roster)"
  unfolding BackfillTickets_Cancel_def
  by (intro guarantee_steps) (auto dest!: service_operation_Inr intro: transaction.backfill_cancel)

lemma canonicalPolicy_Version [simp]: "pol_Version (canonicalPolicy policy) = pol_Version policy"
  by (simp add: canonicalPolicy_def)

lemma safe_policy_attempts:
  assumes "FingerprintPolicy sha256 policy = Inr fingerprint" "encodePolicy (canonicalPolicy policy) fingerprint = Inr payload"
    "op_Scope op = scope"
  shows "safe S (policy_attempts sha256 repo n op scope (canonicalPolicy policy) fingerprint payload)"
proof (induction n arbitrary: S)
  case (Suc n)
  show ?case
    unfolding policy_attempts.simps
    by (intro guarantee_steps Suc.IH) (auto simp: assms(3) [symmetric] intro: assms(1,2) transaction.policy_put)
qed (simp add: guarantee_fail)

lemma safe_Policies_Put: "safe S (Policies_Put sha256 repo digest now scope operationID policy)"
  unfolding Policies_Put_def Let_def
  by (intro guarantee_steps safe_policy_attempts)
    (auto dest!: service_operation_Inr simp: map_sum_def split: sum.splits)

lemma safe_expireOne: "safe S (expireOne repo digest scope reservation)"
  unfolding expireOne_def
  by (intro guarantee_steps) (auto intro!: transaction.release [where status = ReservationExpired])

lemma safe_invalidateStale: "safe S (invalidateStale repo digest scope reservation at)"
  unfolding invalidateStale_def
  by (intro guarantee_steps) (auto intro!: transaction.release [where status = ReservationCancelled])

lemma safe_expire_each: "safe S (expire_each repo digest scope conflicted rs)"
  by (induction rs arbitrary: S conflicted) (auto intro!: guarantee_steps guarantee_try [OF safe_expireOne])

lemma safe_expireDue: "safe S (expireDue repo digest scope now)"
proof -
  have "safe S (expire_attempts repo digest n scope now)" for n S
  proof (induction n arbitrary: S)
    case (Suc n)
    show ?case
      unfolding expire_attempts.simps
      by (intro guarantee_steps guarantee_bind [OF safe_expire_each] Suc.IH) simp_all
  qed (simp add: guarantee_fail)
  then show ?thesis by (simp add: expireDue_def)
qed

lemma safe_replayedMutation:
  "safe S (replayedMutation repo scope operationID kind replay)"
  "safe S (replayedAssignmentMutation repo scope operationID kind replay)"
  unfolding replayedMutation_def replayedAssignmentMutation_def
  by (auto intro!: guarantee_steps split: command_result.splits)

lemma safe_reserve_attempts:
  assumes "valid_utf8 rid"
  shows "safe S (reserve_attempts repo digest n ttl op rid pid)"
proof (induction n arbitrary: S)
  case (Suc n)
  show ?case
    unfolding reserve_attempts.simps
    by (intro guarantee_steps safe_replayedMutation guarantee_bind [OF safe_expireDue] Suc.IH)
      (auto intro: assms transaction.reserve)
qed (simp add: guarantee_fail)

lemma safe_Reservations_Reserve:
  assumes "valid_utf8 rid"
  shows "safe S (Reservations_Reserve repo digest now ttl scope operationID rid pid)"
  unfolding Reservations_Reserve_def
  by (intro guarantee_steps safe_replayedMutation guarantee_bind [OF safe_expireDue] safe_reserve_attempts assms)

lemma safe_Reservations_Cancel: "safe S (Reservations_Cancel repo digest now scope operationID rid)"
  unfolding Reservations_Cancel_def
  by (intro guarantee_steps safe_replayedMutation guarantee_bind [OF safe_expireDue])
    (auto dest!: service_operation_Inr intro: transaction.cancel)

lemma safe_Reservations_Confirm: "safe S (Reservations_Confirm repo digest now scope operationID rid aid)"
  unfolding Reservations_Confirm_def
  by (intro guarantee_steps safe_replayedMutation guarantee_bind [OF safe_expireDue] guarantee_try [OF safe_invalidateStale])
    (auto dest!: service_operation_Inr intro: transaction.confirm)

lemma safe_Assignments_Acknowledge: "safe S (Assignments_Acknowledge repo digest now scope aid request)"
  unfolding Assignments_Acknowledge_def
  by (intro guarantee_steps safe_replayedMutation) (auto dest!: service_operation_Inr intro: transaction.acknowledge)

lemma safe_PlanningRuns_Get: "safe S (PlanningRuns_Get repo scope runID)"
  unfolding PlanningRuns_Get_def by (intro guarantee_steps) simp_all

lemma safe_complete_attempts:
  assumes "\<And>resource b. transaction sha256 b op (mutations_of resource)"
  shows "safe S (complete_attempts sha256 repo n scope runID replayed op mutations_of)"
proof (induction n arbitrary: S)
  case (Suc n)
  show ?case
    unfolding complete_attempts.simps
    by (intro guarantee_steps guarantee_bind [OF safe_PlanningRuns_Get] Suc.IH assms) simp_all
qed (simp add: guarantee_fail)

lemma safe_PlanningRuns_complete: "safe S (PlanningRuns_complete sha256 repo digest now scope initial batch replayed)"
  unfolding PlanningRuns_complete_def Let_def
  by (intro guarantee_steps safe_complete_attempts) (auto intro: transaction.complete)

lemma safe_PlanningRuns_resume: "safe S (PlanningRuns_resume sha256 plan repo digest now scope runID replayed)"
  unfolding PlanningRuns_resume_def by (intro guarantee_steps safe_PlanningRuns_complete) simp_all

lemma safe_resumeCapturedOperation: "safe S (resumeCapturedOperation sha256 plan repo digest now op scope runID)"
  unfolding resumeCapturedOperation_def
  by (intro guarantee_steps guarantee_bind [OF safe_PlanningRuns_resume]) simp_all

lemma safe_PlanningRuns_Execute:
  "safe S (PlanningRuns_Execute sha256 plan repo digest commandAt completedAt scope operationID runID version)"
  unfolding PlanningRuns_Execute_def
  by (intro guarantee_steps guarantee_bind [OF safe_resumeCapturedOperation] safe_PlanningRuns_resume)
    (auto dest!: service_operation_Inr intro: transaction.capture)

end

section \<open>A repository shared with other clients\<close>

text \<open>
  The state holds the history and a script: what other clients do before each call. Here any function
  that extends histories may stand in the script.
\<close>

type_synonym script = "(store list \<Rightarrow> store list) list"

fun interfere :: "store list \<times> script \<Rightarrow> store list \<times> script" where
  "interfere (h, []) = (h, [])"
| "interfere (h, f # fs) = (f h, fs)"

definition shared_repository :: "(store list \<times> script) RepositoryInterface" where
  "shared_repository =
     \<lparr>repo_Snapshot = (\<lambda>scope s. let (h, fs) = interfere s in (Memory_Snapshot scope (hd h), h, fs)),
      repo_Replay = (\<lambda>operation s. let (h, fs) = interfere s in (Memory_Replay operation (hd h), h, fs)),
      repo_Commit = (\<lambda>operation mutations s.
        let (h, fs) = interfere s; (r, b) = Memory_Commit operation mutations (hd h)
        in (r, if b = hd h then h else b # h, fs))\<rparr>"

definition other_clients :: "hash \<Rightarrow> (store list \<Rightarrow> store list) \<Rightarrow> bool" where
  "other_clients sha256 f \<longleftrightarrow> (\<forall>h. history sha256 h \<longrightarrow> history sha256 (f h) \<and> suffix h (f h))"

definition shared_valid :: "hash \<Rightarrow> store list \<times> script \<Rightarrow> bool" where
  "shared_valid sha256 s \<longleftrightarrow> history sha256 (fst s) \<and> (\<forall>f\<in>set (snd s). other_clients sha256 f)"

lemma interfere_valid:
  assumes "shared_valid sha256 s" "interfere s = (h, fs)"
  shows "shared_valid sha256 (h, fs)" "suffix (fst s) h" "history sha256 h" "h \<noteq> []"
proof -
  show valid: "shared_valid sha256 (h, fs)" and "suffix (fst s) h"
    using assms by (cases s rule: interfere.cases; auto simp: shared_valid_def other_clients_def)+
  then show "history sha256 h" by (simp add: shared_valid_def)
  then show "h \<noteq> []" by (rule history_nonempty)
qed

interpretation shared: shared_store sha256 shared_repository fst "shared_valid sha256" for sha256
proof
  fix s :: "store list \<times> script"
  assume "shared_valid sha256 s"
  then show "history sha256 (fst s)" by (simp add: shared_valid_def)
next
  fix s :: "store list \<times> script" and scope r t
  assume "shared_valid sha256 s" "repo_Snapshot shared_repository scope s = (r, t)"
  then show "shared_valid sha256 t \<and> suffix (fst s) (fst t) \<and> r = Memory_Snapshot scope (hd (fst t))"
    using interfere_valid [of sha256 s "fst (interfere s)" "snd (interfere s)"]
    by (auto simp: shared_repository_def case_prod_unfold Let_def)
next
  fix s :: "store list \<times> script" and op q t
  assume "shared_valid sha256 s" "repo_Replay shared_repository op s = (q, t)"
  then show "shared_valid sha256 t \<and> suffix (fst s) (fst t) \<and> q = Memory_Replay op (hd (fst t))"
    using interfere_valid [of sha256 s "fst (interfere s)" "snd (interfere s)"]
    by (auto simp: shared_repository_def case_prod_unfold Let_def)
next
  fix s t :: "store list \<times> script" and b0 op ms c
  assume s: "shared_valid sha256 s" "b0 \<in> set (fst s)" "transaction sha256 b0 op ms" "repo_Commit shared_repository op ms s = (c, t)"
  obtain h fs where i: "interfere s = (h, fs)" by fastforce
  note h = interfere_valid [OF s(1) i]
  then obtain b h' where bh: "h = b # h'" by (cases h) simp_all
  have t: "t = (if snd (Memory_Commit op ms b) = b then h else snd (Memory_Commit op ms b) # h, fs)" "c = fst (Memory_Commit op ms b)"
    using s(4) i bh by (auto simp: shared_repository_def split: prod.splits)
  have "b0 \<in> set h" using s(2) h(2) set_mono_suffix by blast
  then have log: "history sha256 (fst t) \<and> suffix h (fst t) \<and> Memory_Commit op ms b = (c, hd (fst t))"
    using history.commit [of sha256 b h' b0 op ms] h(3) s(3)
    by (cases rule: Memory_Commit_cases [of op ms b]) (auto simp: t bh suffix_Cons)
  then have "shared_valid sha256 t" using h(1) by (simp add: shared_valid_def t(1))
  moreover have "suffix (fst s) (fst t)" using h(2) log suffix_order.trans by blast
  ultimately show "shared_valid sha256 t \<and> suffix (fst s) (fst t) \<and>
      (\<exists>b h. history sha256 (b # h) \<and> suffix (fst s) (b # h) \<and> suffix (b # h) (fst t) \<and> Memory_Commit op ms b = (c, hd (fst t)))"
    using h(2,3) log bh by blast
qed

section \<open>The commands of the service\<close>

datatype service_call =
    PutMatchTicket Time string OperationID MatchTicket
  | CancelMatchTicketCall Time string OperationID TicketID Revision
  | PutBackfillTicket Time string OperationID BackfillTicket
  | CancelBackfillTicketCall Time string OperationID TicketID Revision Revision
  | PutPolicy Time string OperationID MatchmakingPolicy
  | ReserveCall Time Duration string OperationID ReservationID ProposalID
  | CancelReservationCall Time string OperationID ReservationID
  | ConfirmCall Time string OperationID ReservationID AssignmentID
  | AcknowledgeCall Time string AssignmentID AssignmentAcknowledgmentRequest
  | ExecuteCall Time Time string OperationID string string
  | GetReservation Time string ReservationID
  | ListReservations Time string

definition discard :: "('s, 'a) action \<Rightarrow> ('s, unit) action" where
  "discard m = act_bind m (\<lambda>_. act_ok ())"

fun serve :: "hash \<Rightarrow> plan_func \<Rightarrow> digester \<Rightarrow> 's RepositoryInterface \<Rightarrow> service_call \<Rightarrow> ('s, unit) action" where
  "serve sha256 plan digest repo (PutMatchTicket now scope operationID ticket) =
     discard (MatchTickets_Put repo digest now scope operationID ticket)"
| "serve sha256 plan digest repo (CancelMatchTicketCall now scope operationID ident revision) =
     discard (MatchTickets_Cancel repo digest now scope operationID ident revision)"
| "serve sha256 plan digest repo (PutBackfillTicket now scope operationID ticket) =
     discard (BackfillTickets_Put repo digest now scope operationID ticket)"
| "serve sha256 plan digest repo (CancelBackfillTicketCall now scope operationID ident revision roster) =
     discard (BackfillTickets_Cancel repo digest now scope operationID ident revision roster)"
| "serve sha256 plan digest repo (PutPolicy now scope operationID policy) =
     discard (Policies_Put sha256 repo digest now scope operationID policy)"
| "serve sha256 plan digest repo (ReserveCall now ttl scope operationID reservationID proposalID) =
     discard (Reservations_Reserve repo digest now ttl scope operationID reservationID proposalID)"
| "serve sha256 plan digest repo (CancelReservationCall now scope operationID reservationID) =
     discard (Reservations_Cancel repo digest now scope operationID reservationID)"
| "serve sha256 plan digest repo (ConfirmCall now scope operationID reservationID assignmentID) =
     discard (Reservations_Confirm repo digest now scope operationID reservationID assignmentID)"
| "serve sha256 plan digest repo (AcknowledgeCall now scope assignmentID request) =
     discard (Assignments_Acknowledge repo digest now scope assignmentID request)"
| "serve sha256 plan digest repo (ExecuteCall commandAt completedAt scope operationID runID version) =
     discard (PlanningRuns_Execute sha256 plan repo digest commandAt completedAt scope operationID runID version)"
| "serve sha256 plan digest repo (GetReservation now scope reservationID) =
     discard (Reservations_Get repo digest now scope reservationID)"
| "serve sha256 plan digest repo (ListReservations now scope) =
     discard (Reservations_Snapshot repo digest now scope)"

text \<open>The calls of one client in order.\<close>

fun serve_all :: "hash \<Rightarrow> plan_func \<Rightarrow> digester \<Rightarrow> 's RepositoryInterface \<Rightarrow> service_call list \<Rightarrow> 's \<Rightarrow> 's" where
  "serve_all sha256 plan digest repo [] s = s"
| "serve_all sha256 plan digest repo (call # calls) s =
     serve_all sha256 plan digest repo calls (snd (serve sha256 plan digest repo call s))"

text \<open>What the wire guarantees of the strings of a call.\<close>

fun wire_call :: "service_call \<Rightarrow> bool" where
  "wire_call (PutMatchTicket now scope operationID ticket) \<longleftrightarrow> wire_match_ticket ticket"
| "wire_call (PutBackfillTicket now scope operationID ticket) \<longleftrightarrow> wire_backfill_ticket ticket"
| "wire_call (ReserveCall now ttl scope operationID reservationID proposalID) \<longleftrightarrow> valid_utf8 reservationID"
| "wire_call _ \<longleftrightarrow> True"

context shared_store
begin

lemma safe_Reservations_Get:
  "safe S (Reservations_Get repo digest now scope rid)" "safe S (Reservations_Snapshot repo digest now scope)"
  unfolding Reservations_Get_def Reservations_Snapshot_def
  by (intro guarantee_steps guarantee_bind [OF safe_expireDue]; simp)+

lemma safe_discard: "safe S m \<Longrightarrow> safe S (discard m)"
  unfolding discard_def by (rule guarantee_bind) (auto intro: guarantee_ok)

lemma safe_serve: "wire_call call \<Longrightarrow> safe S (serve sha256 plan digest repo call)"
  by (cases call) (auto intro!: safe_discard safe_MatchTickets_Put safe_MatchTickets_Cancel safe_BackfillTickets_Put
      safe_BackfillTickets_Cancel safe_Policies_Put safe_Reservations_Reserve safe_Reservations_Cancel safe_Reservations_Confirm
      safe_Assignments_Acknowledge safe_PlanningRuns_Execute safe_Reservations_Get)

lemma serve_all_valid:
  assumes "\<forall>call\<in>set calls. wire_call call" "valid s"
  shows "valid (serve_all sha256 plan digest repo calls s) \<and> suffix (log s) (log (serve_all sha256 plan digest repo calls s))"
  using assms
proof (induction calls arbitrary: s)
  case (Cons call calls)
  let ?t = "snd (serve sha256 plan digest repo call s)"
  have "safe {} (serve sha256 plan digest repo call)" using Cons.prems(1) by (intro safe_serve) simp
  from guaranteeD(1,2) [OF this Cons.prems(2), of "fst (serve sha256 plan digest repo call s)" ?t]
  have "valid ?t" "suffix (log s) (log ?t)" by simp_all
  with Cons.IH [of ?t] Cons.prems(1) show ?case by (auto intro: suffix_order.trans)
qed simp

end

end
