(* ===== verification/Service_Examples.thy ===== *)
theory Service_Examples
  imports Service_Runs
begin

text \<open>
  Runs of the service on concrete calls, evaluated by the simplifier; the witnesses of the properties
  of the service share them.
\<close>

section \<open>A run of the service\<close>

text \<open>
  The planner is a parameter of the service, so the run below uses a small one: it pairs the tickets
  in order. Its batch passes the check of the service as any other.
\<close>

definition ex_digest :: digester where
  "ex_digest command = [1]"

definition ex_pair :: "string \<Rightarrow> TicketRef \<Rightarrow> TicketRef \<Rightarrow> MatchProposal" where
  "ex_pair name x y = \<lparr>prop_ID = name, prop_Kind = ProposalNewMatch, prop_PolicyVersion = ''v1'', prop_PolicyFingerprint = ''07'',
     prop_Teams = [\<lparr>ta_Team = 0, ta_Tickets = [x]\<rparr>, \<lparr>ta_Team = 1, ta_Tickets = [y]\<rparr>], prop_Tickets = [x, y],
     prop_Backfill = None, prop_Evidence = ScoreEvidence_zero\<rparr>"

fun ex_pairs :: "string \<Rightarrow> TicketRef list \<Rightarrow> MatchProposal list" where
  "ex_pairs name (x # y # refs) = ex_pair name x y # ex_pairs (CHR ''p'' # name) refs"
| "ex_pairs name _ = []"

definition ex_pair_plan :: plan_func where
  "ex_pair_plan snapshot =
     (let proposals = ex_pairs ''p'' (map TicketReference (snap_MatchTickets snapshot))
      in Inr \<lparr>batch_SnapshotID = snap_ID snapshot, batch_Proposals = proposals, batch_Unmatched = [], batch_BudgetExhausted = False,
         batch_Evidence = BatchScoreEvidence_zero\<lparr>be_SelectedProposals := length proposals\<rparr>\<rparr>)"

definition ex_calls :: "service_call list" where
  "ex_calls = [PutPolicy 1 ''s'' ''o1'' ex_duel_policy,
     PutMatchTicket 2 ''s'' ''o2'' (ex_solo ''a'' 2 10 ''''), PutMatchTicket 2 ''s'' ''o3'' (ex_solo ''b'' 2 10 ''''),
     PutMatchTicket 2 ''s'' ''o4'' (ex_solo ''c'' 2 10 ''''), PutMatchTicket 2 ''s'' ''o5'' (ex_solo ''d'' 2 10 ''''),
     ExecuteCall 10 11 ''s'' ''o6'' ''run'' ''v1'']"

definition ex_planned :: "store list \<times> script" where
  "ex_planned = serve_all ex_hash ex_pair_plan ex_digest shared_repository ex_calls ([NewMemoryBackend], [])"

definition ex_first :: "(go_err + ReservationMutation) \<times> store list \<times> script" where
  "ex_first = Reservations_Reserve shared_repository ex_digest 12 100 ''s'' ''o7'' ''r1'' ''p'' ex_planned"

definition ex_second :: "(go_err + ReservationMutation) \<times> store list \<times> script" where
  "ex_second = Reservations_Reserve shared_repository ex_digest 12 100 ''s'' ''o8'' ''r2'' ''pp'' (snd ex_first)"

definition ex_confirmed :: "(go_err + AssignmentMutation) \<times> store list \<times> script" where
  "ex_confirmed = Reservations_Confirm shared_repository ex_digest 13 ''s'' ''o9'' ''r1'' ''m1'' (snd ex_second)"

definition reads_active :: "store \<Rightarrow> ReservationID \<Rightarrow> string list \<Rightarrow> bool" where
  "reads_active b rid ids =
     (case live b ''s'' ResourceReservation rid of None \<Rightarrow> False
      | Some d \<Rightarrow> (case decodeReservation (Some d) of Inl _ \<Rightarrow> False
           | Inr r \<Rightarrow> res_Status r = ReservationActive \<and> map ref_ID (reservation_refs r) = ids))"

definition replayed_answer :: "(go_err + 'a) \<Rightarrow> ('a \<Rightarrow> bool) \<Rightarrow> bool option" where
  "replayed_answer r f = (case r of Inl _ \<Rightarrow> None | Inr m \<Rightarrow> Some (f m))"

lemma ex_run:
  "replayed_answer (fst ex_first) rvm_Replayed = Some False"
  "replayed_answer (fst ex_second) rvm_Replayed = Some False"
  "replayed_answer (fst ex_confirmed) asm_Replayed = Some False"
  "reads_active (hd (fst (snd ex_second))) ''r1'' [''a'', ''b'']"
  "reads_active (hd (fst (snd ex_second))) ''r2'' [''c'', ''d'']"
proof -
  have "let s = serve_all ex_hash ex_pair_plan ex_digest shared_repository ex_calls ([NewMemoryBackend], []);
      first = Reservations_Reserve shared_repository ex_digest 12 100 ''s'' ''o7'' ''r1'' ''p'' s;
      second = Reservations_Reserve shared_repository ex_digest 12 100 ''s'' ''o8'' ''r2'' ''pp'' (snd first);
      third = Reservations_Confirm shared_repository ex_digest 13 ''s'' ''o9'' ''r1'' ''m1'' (snd second)
    in replayed_answer (fst first) rvm_Replayed = Some False \<and> replayed_answer (fst second) rvm_Replayed = Some False \<and>
      replayed_answer (fst third) asm_Replayed = Some False \<and>
      reads_active (hd (fst (snd second))) ''r1'' [''a'', ''b''] \<and> reads_active (hd (fst (snd second))) ''r2'' [''c'', ''d'']"
    by code_simp
  then show "replayed_answer (fst ex_first) rvm_Replayed = Some False"
    "replayed_answer (fst ex_second) rvm_Replayed = Some False" "replayed_answer (fst ex_confirmed) asm_Replayed = Some False"
    "reads_active (hd (fst (snd ex_second))) ''r1'' [''a'', ''b'']" "reads_active (hd (fst (snd ex_second))) ''r2'' [''c'', ''d'']"
    by (simp_all only: Let_def ex_planned_def ex_first_def ex_second_def ex_confirmed_def)
qed

lemma start_valid: "\<forall>f\<in>set fs. other_clients sha256 f \<Longrightarrow> shared_valid sha256 ([NewMemoryBackend], fs)"
  by (simp add: shared_valid_def history.start)

lemma ex_calls_wire: "\<forall>call\<in>set ex_calls. wire_call call"
proof -
  have "list_all wire_call ex_calls" by code_simp
  then show ?thesis by (simp add: list_all_iff)
qed

lemma ex_valid:
  "shared_valid ex_hash ex_planned" "shared_valid ex_hash (snd ex_first)" "shared_valid ex_hash (snd ex_second)" "valid_utf8 ''r1''"
proof -
  show planned: "shared_valid ex_hash ex_planned"
    unfolding ex_planned_def using shared.serve_all_valid [OF ex_calls_wire start_valid [of "[]"]] by simp
  show r1: "valid_utf8 ''r1''" by code_simp
  have r2: "valid_utf8 ''r2''" by code_simp
  show first: "shared_valid ex_hash (snd ex_first)"
    unfolding ex_first_def
    using shared.guaranteeD(1) [OF shared.safe_Reservations_Reserve [OF r1, of ex_hash "{}"] planned] by (metis empty_subsetI prod.collapse)
  show "shared_valid ex_hash (snd ex_second)"
    unfolding ex_second_def
    using shared.guaranteeD(1) [OF shared.safe_Reservations_Reserve [OF r2, of ex_hash "{}"] first] by (metis empty_subsetI prod.collapse)
qed

lemma reads_active_active:
  "reads_active b rid ids \<Longrightarrow> \<exists>r. active b ''s'' rid r \<and> map ref_ID (reservation_refs r) = ids"
  by (auto simp: reads_active_def active_def split: option.splits sum.splits)

definition ex_session_calls :: "service_call list" where
  "ex_session_calls = [PutBackfillTicket 2 ''s'' ''o1'' ex_backfill,
     PutBackfillTicket 2 ''s'' ''o2'' (ex_backfill\<lparr>bt_ID := ''other''\<rparr>), PutMatchTicket 2 ''s'' ''o3'' (ex_solo ''vacancy'' 2 10 ''''),
     PutMatchTicket 2 ''s'' ''o4'' (ex_solo ''a'' 2 10 '''')]"

definition ex_session_store :: store where
  "ex_session_store = hd (fst (serve_all ex_hash ex_pair_plan ex_digest shared_repository ex_session_calls ([NewMemoryBackend], [])))"

lemma ex_session_facts:
  "live ex_session_store ''s'' ResourceBackfillTicket ''vacancy'' = Some (DocBackfillTicket (toPersistedBackfillTicket ex_backfill))"
  "decodeBackfillTicket (Some (DocBackfillTicket (toPersistedBackfillTicket ex_backfill))) = Inr ex_backfill"
  "live ex_session_store ''s'' ResourceMatchTicket ''a'' \<noteq> None"
  "list_all wire_call ex_session_calls"
  by code_simp+

end
