(* ===== verification/Service_Props.thy ===== *)
theory Service_Props
  imports Service_Examples
begin

text \<open>
  What the service promises its clients, whatever other clients do between its calls of the
  repository.
\<close>

section \<open>Successful answers\<close>

lemma reserve_took_effect:
  assumes b0: "service_inv b0" "mem_evolves b0 b" and b: "service_inv b"
    and tx: "Memory_Snapshot (op_Scope op) b0 = Inr snap" "valid_utf8 rid" "reserve_prepare snap ttl op rid pid = Inr (r, ms)"
    and c: "Memory_Commit op ms b = (Inr result, c)" "\<not> cr_Replayed result"
  shows "\<exists>x. active c (op_Scope op) rid x \<and> reservation_refs x = reservation_refs r \<and>
    (\<forall>reference\<in>set (reservation_refs x). claims c (op_Scope op) rid reference)"
proof -
  let ?s = "op_Scope op"
  have eff: "effective op ms b" and c': "c = committed op ms b"
    using c by (cases rule: Memory_Commit_cases [of op ms b]; auto)+
  have inv0: "mem_inv b0" "inv_proposals b0" using b0(1) by (simp_all add: service_inv_def)
  obtain d cs kind e where r: "res_Status r = ReservationActive" "encodeReservation r = Inr d"
      "\<forall>reference\<in>set (reservation_refs r). json_ref reference = reference"
    and ms: "ms = create (service_Key ?s ResourceReservation rid) 0 d # cs @ [create (service_Key ?s ResourceOperationResult (op_ID op)) 0 e]"
    by (rule reserve_prepare_Inr [OF inv0 tx(1,3)]) blast
  have "live c ?s ResourceReservation rid = Some d"
    using live_committed_mem [OF eff, of "create (service_Key ?s ResourceReservation rid) 0 d"] by (simp add: ms c')
  then have act: "active c ?s rid (read_reservation r)"
    using decode_encodeReservation [OF r(2)] r(1) by (simp add: active_def)
  have "service_inv c"
    unfolding c' by (rule transaction_keeps_inv [OF transaction.reserve [OF tx] b0 b eff])
  then have "inv_claims c" by (simp add: service_inv_def)
  from inv_claimsD(2) [OF this act] act reservation_refs_read [of r] r(3) show ?thesis
    by (metis map_idI)
qed

text \<open>
  A mutation deletes a resource that was live, at the version that was read.
\<close>

definition deletes :: "store \<Rightarrow> string \<Rightarrow> string \<Rightarrow> string \<Rightarrow> document Mutation list \<Rightarrow> bool" where
  "deletes b scope kind ident ms \<longleftrightarrow>
     remove (service_Key scope kind ident) (actual_version b (service_Key scope kind ident)) \<in> set ms"

lemma deletes_mono: "deletes b scope kind ident ts \<Longrightarrow> set ts \<subseteq> set ms \<Longrightarrow> deletes b scope kind ident ms"
  by (auto simp: deletes_def)

lemma deletes_effect:
  assumes "mem_inv b0" "mem_evolves b0 b" "effective op ms b" "deletes b0 scope kind ident ms"
  shows "live b scope kind ident = live b0 scope kind ident" "live (committed op ms b) scope kind ident = None"
  using live_at_commit(1) [OF assms(1-3) assms(4) [unfolded deletes_def]] live_committed_mem [OF assms(3) assms(4) [unfolded deletes_def]]
  by simp_all

definition current_ticket :: "store \<Rightarrow> string \<Rightarrow> TicketRef \<Rightarrow> bool" where
  "current_ticket b scope reference \<longleftrightarrow>
     (\<exists>d t. live b scope ResourceMatchTicket (ref_ID reference) = Some d \<and> decodeMatchTicket (Some d) = Inr t \<and>
        mt_Revision t = ref_Revision reference)"

definition current_backfill :: "store \<Rightarrow> string \<Rightarrow> BackfillTarget \<Rightarrow> bool" where
  "current_backfill b scope target \<longleftrightarrow>
     (\<exists>d t. live b scope ResourceBackfillTicket (ref_ID (tgt_Ticket target)) = Some d \<and> decodeBackfillTicket (Some d) = Inr t \<and>
        bt_Revision t = ref_Revision (tgt_Ticket target) \<and> bt_SessionID t = tgt_SessionID target \<and>
        bt_RosterVersion t = tgt_RosterVersion target)"

lemma confirm_tickets_consume:
  assumes "mem_inv b" "Memory_Snapshot scope b = Inr snap" "confirm_tickets snap scope refs = Inr (Inr ts)" "reference \<in> set refs"
  shows "current_ticket b scope reference \<and> deletes b scope ResourceMatchTicket (ref_ID reference) ts"
  using assms(3,4)
proof (induction refs arbitrary: ts)
  case (Cons x refs)
  obtain m ts' where m: "confirm_ticket snap scope x = Inr (Inr m)" "confirm_tickets snap scope refs = Inr (Inr ts')" "ts = m # ts'"
    using Cons.prems(1) by (auto simp: map_sum_def split: sum.splits)
  show ?case
  proof (cases "reference = x")
    case True
    let ?k = "service_Key scope ResourceMatchTicket (ref_ID x)"
    obtain resource t where r: "live_resource snap ?k = Some resource" "decodeMatchTicket (rsc_Payload resource) = Inr t"
      "mt_Revision t = ref_Revision x" "m = remove (rsc_Key resource) (rsc_Version resource)"
      using m(1) by (auto simp: confirm_ticket_def split: option.splits sum.splits if_splits)
    obtain d where "live b scope ResourceMatchTicket (ref_ID x) = Some d" "rsc_Payload resource = Some d"
      "rsc_Key resource = ?k" "rsc_Version resource = actual_version b ?k"
      by (rule read_live [OF assms(1,2) r(1)])
    with r True m(3) show ?thesis by (simp add: current_ticket_def deletes_def)
  next
    case False
    with Cons m show ?thesis by (auto intro: deletes_mono)
  qed
qed simp

lemma confirm_backfill_consume:
  assumes "mem_inv b" "Memory_Snapshot scope b = Inr snap" "confirm_backfill snap scope backfill = Inr (Inr bf)"
    "target \<in> set_option backfill"
  shows "current_backfill b scope target \<and> deletes b scope ResourceBackfillTicket (ref_ID (tgt_Ticket target)) bf \<and>
    deletes b scope ResourceBackfillSessionClaim (tgt_SessionID target) bf \<and>
    mut_Key ` set bf = {service_Key scope ResourceBackfillTicket (ref_ID (tgt_Ticket target)),
      service_Key scope ResourceBackfillSessionClaim (tgt_SessionID target)}"
proof -
  let ?k = "service_Key scope ResourceBackfillTicket (ref_ID (tgt_Ticket target))"
    and ?s = "service_Key scope ResourceBackfillSessionClaim (tgt_SessionID target)"
  have "backfill = Some target" using assms(4) by (cases backfill) simp_all
  then obtain resource session t where r: "live_resource snap ?k = Some resource" "live_resource snap ?s = Some session"
    "decodeBackfillTicket (rsc_Payload resource) = Inr t" "fresh_backfill t target"
    and bf: "bf = [remove (rsc_Key resource) (rsc_Version resource), remove ?s (rsc_Version session)]"
    using assms(3) by (auto simp: confirm_backfill_def Let_def split: option.splits sum.splits if_splits)
  obtain d where "live b scope ResourceBackfillTicket (ref_ID (tgt_Ticket target)) = Some d" "rsc_Payload resource = Some d"
    "rsc_Key resource = ?k" "rsc_Version resource = actual_version b ?k"
    by (rule read_live [OF assms(1,2) r(1)])
  moreover obtain e where "rsc_Version session = actual_version b ?s" by (rule read_live [OF assms(1,2) r(2)])
  ultimately show ?thesis
    using r(3,4) unfolding current_backfill_def deletes_def fresh_backfill_def bf by simp
qed

text \<open>The keys a confirmation writes.\<close>

definition confirmed_keys :: "string \<Rightarrow> OperationID \<Rightarrow> ReservationID \<Rightarrow> AssignmentID \<Rightarrow> Reservation \<Rightarrow> Key set" where
  "confirmed_keys scope operationID rid aid r =
     {service_Key scope ResourceReservation rid, service_Key scope ResourceAssignment aid,
      service_Key scope ResourceOperationResult operationID} \<union>
     (\<lambda>reference. service_Key scope ResourceMatchTicket (ref_ID reference)) ` set (res_Tickets r) \<union>
     (\<lambda>target. service_Key scope ResourceBackfillTicket (ref_ID (tgt_Ticket target))) ` set_option (res_Backfill r) \<union>
     (\<lambda>target. service_Key scope ResourceBackfillSessionClaim (tgt_SessionID target)) ` set_option (res_Backfill r) \<union>
     (\<lambda>reference. service_Key scope ResourceDemandReservation (ref_ID reference)) ` set (reservation_refs r)"

lemma confirm_prepare_writes:
  assumes "mem_inv b" "inv_claims b" "Memory_Snapshot (op_Scope op) b = Inr snap"
    "confirm_prepare snap op rid aid = Inr (Inr (assignment, ms))"
  obtains r payload a where "active b (op_Scope op) rid r"
    "create (service_Key (op_Scope op) ResourceReservation rid) (actual_version b (service_Key (op_Scope op) ResourceReservation rid)) payload \<in> set ms"
    "encodeReservation (r\<lparr>res_Status := ReservationConfirmed\<rparr>) = Inr payload"
    "encodeAssignment assignment = Inr a" "create (service_Key (op_Scope op) ResourceAssignment aid) 0 a \<in> set ms"
    "\<forall>reference\<in>set (res_Tickets r). current_ticket b (op_Scope op) reference \<and>
       deletes b (op_Scope op) ResourceMatchTicket (ref_ID reference) ms"
    "\<forall>target\<in>set_option (res_Backfill r). current_backfill b (op_Scope op) target \<and>
       deletes b (op_Scope op) ResourceBackfillTicket (ref_ID (tgt_Ticket target)) ms \<and>
       deletes b (op_Scope op) ResourceBackfillSessionClaim (tgt_SessionID target) ms"
    "mut_Key ` set ms \<subseteq> confirmed_keys (op_Scope op) (op_ID op) rid aid r"
    "asg_ReservationID assignment = rid" "asg_ProposalID assignment = res_ProposalID r" "asg_Backfill assignment = res_Backfill r"
proof -
  let ?s = "op_Scope op" and ?k = "service_Key (op_Scope op) ResourceReservation rid"
  obtain resource r where
    read: "live_resource snap ?k = Some resource" "decodeReservation (rsc_Payload resource) = Inr r" "res_Status r = ReservationActive"
    using assms(4) by (auto simp: confirm_prepare_def Let_def split: option.splits sum.splits ReservationStatus.splits)
  then obtain p q where q: "live_resource snap (service_Key ?s ResourceProposal (res_ProposalID r)) = Some p"
      "decodeProposal (rsc_Payload p) = Inr q"
    and same: "sameReservationProposal r (prp_Proposal q)"
    using assms(4) by (auto simp: confirm_prepare_def Let_def split: option.splits sum.splits if_splits)
  with read obtain payload a e dm where
    demand: "confirmDemandMutations snap ?s r (prp_Proposal q) = Inr (Inr dm)"
    and w: "encodeReservation (r\<lparr>res_Status := ReservationConfirmed\<rparr>) = Inr payload" "encodeAssignment assignment = Inr a"
      "ms = dm @ [create (rsc_Key resource) (rsc_Version resource) payload,
        create (service_Key ?s ResourceAssignment aid) 0 a, create (service_Key ?s ResourceOperationResult (op_ID op)) 0 e]"
    and asg: "asg_ReservationID assignment = rid" "asg_ProposalID assignment = prop_ID (prp_Proposal q)"
      "asg_Backfill assignment = prop_Backfill (prp_Proposal q)"
    using assms(4) by (auto simp: confirm_prepare_def Let_def split: sum.splits if_splits)
  have reserved: "prop_Tickets (prp_Proposal q) = res_Tickets r" "prop_Backfill (prp_Proposal q) = res_Backfill r"
    "prop_ID (prp_Proposal q) = res_ProposalID r"
    using same by (auto simp: sameReservationProposal_def sameBackfillTarget_def split: option.splits)
  obtain ts bf cs where ts: "confirm_tickets snap ?s (res_Tickets r) = Inr (Inr ts)"
    and bf: "confirm_backfill snap ?s (res_Backfill r) = Inr (Inr bf)"
    and cs: "reservationClaimDeletions snap ?s r = Inr cs" and dm: "dm = ts @ bf @ cs"
    using demand by (auto simp: confirmDemandMutations_def reserved split: sum.splits)
  obtain d where d: "live b ?s ResourceReservation rid = Some d" "rsc_Payload resource = Some d" "rsc_Key resource = ?k"
    "rsc_Version resource = actual_version b ?k"
    by (rule read_live [OF assms(1,3) read(1)])
  have act: "active b ?s rid r" using d read by (simp add: active_def)
  have sub: "set ts \<subseteq> set ms" "set bf \<subseteq> set ms" by (auto simp: w(3) dm)
  have tickets: "\<forall>reference\<in>set (res_Tickets r). current_ticket b ?s reference \<and> deletes b ?s ResourceMatchTicket (ref_ID reference) ms"
    using confirm_tickets_consume [OF assms(1,3) ts] deletes_mono [OF _ sub(1)] by blast
  have backfills: "\<forall>target\<in>set_option (res_Backfill r). current_backfill b ?s target \<and>
      deletes b ?s ResourceBackfillTicket (ref_ID (tgt_Ticket target)) ms \<and> deletes b ?s ResourceBackfillSessionClaim (tgt_SessionID target) ms"
    using confirm_backfill_consume [OF assms(1,3) bf] deletes_mono [OF _ sub(2)] by blast
  have "mut_Key m \<in> confirmed_keys ?s (op_ID op) rid aid r" if "m \<in> set ts" for m
    using list_all2_right [OF confirm_tickets_Inr [OF assms(1,3) ts] that] by (auto simp: confirmed_keys_def)
  moreover have "mut_Key m \<in> confirmed_keys ?s (op_ID op) rid aid r" if "m \<in> set bf" for m
  proof (cases "res_Backfill r")
    case (Some target)
    with confirm_backfill_consume [OF assms(1,3) bf, of target] that show ?thesis by (auto simp: confirmed_keys_def)
  qed (use bf that in \<open>simp add: confirm_backfill_def\<close>)
  moreover have "mut_Key m \<in> confirmed_keys ?s (op_ID op) rid aid r" if "m \<in> set cs" for m
    using deleted_kinds [OF reservationClaimDeletions_Inr [OF assms(1,3) cs] that] by (auto simp: confirmed_keys_def)
  ultimately have keys: "mut_Key ` set ms \<subseteq> confirmed_keys ?s (op_ID op) rid aid r"
    by (auto simp: w(3) dm d(3) confirmed_keys_def)
  show ?thesis
    by (rule that [OF act _ w(1,2) _ tickets backfills keys asg [unfolded reserved]]) (auto simp: w(3) d(3,4))
qed

text \<open>
  What a confirmation that took effect found in the store \<open>b\<close> and left in the store \<open>c\<close>: an active
  reservation that is confirmed now; its tickets and the backfill it fills, each live in exactly the
  reserved revision and claimed for it, and the claim on the session, none of which is live any more;
  the assignment, which is new; and every other resource as it was.
\<close>

definition confirmed ::
  "store \<Rightarrow> store \<Rightarrow> string \<Rightarrow> OperationID \<Rightarrow> ReservationID \<Rightarrow> AssignmentID \<Rightarrow> Assignment \<Rightarrow> bool" where
  "confirmed b c scope operationID rid aid assignment \<longleftrightarrow>
     (\<exists>r. active b scope rid r \<and>
        (\<exists>d. encodeReservation (r\<lparr>res_Status := ReservationConfirmed\<rparr>) = Inr d \<and> live c scope ResourceReservation rid = Some d) \<and>
        (\<forall>reference\<in>set (res_Tickets r).
           current_ticket b scope reference \<and> live c scope ResourceMatchTicket (ref_ID reference) = None) \<and>
        (\<forall>target\<in>set_option (res_Backfill r).
           current_backfill b scope target \<and> live c scope ResourceBackfillTicket (ref_ID (tgt_Ticket target)) = None \<and>
           live b scope ResourceBackfillSessionClaim (tgt_SessionID target) =
             Some (session_doc (tgt_SessionID target) (ref_ID (tgt_Ticket target))) \<and>
           live c scope ResourceBackfillSessionClaim (tgt_SessionID target) = None) \<and>
        (\<forall>reference\<in>set (reservation_refs r).
           claims b scope rid reference \<and> live c scope ResourceDemandReservation (ref_ID reference) = None) \<and>
        asg_ReservationID assignment = rid \<and> asg_ProposalID assignment = res_ProposalID r \<and>
        asg_Backfill assignment = res_Backfill r \<and>
        (\<forall>k. k \<notin> confirmed_keys scope operationID rid aid r \<longrightarrow> resource_at c k = resource_at b k)) \<and>
     live b scope ResourceAssignment aid = None \<and>
     (\<exists>d. encodeAssignment assignment = Inr d \<and> live c scope ResourceAssignment aid = Some d)"

lemma confirm_took_effect:
  assumes b0: "service_inv b0" "mem_evolves b0 b" and b: "service_inv b"
    and tx: "Memory_Snapshot (op_Scope op) b0 = Inr snap" "confirm_prepare snap op rid aid = Inr (Inr (assignment, ms))"
    and c: "Memory_Commit op ms b = (Inr result, c)" "\<not> cr_Replayed result"
  shows "confirmed b c (op_Scope op) (op_ID op) rid aid assignment" "mem_version c = Suc (mem_version b)"
proof -
  let ?s = "op_Scope op" and ?k = "service_Key (op_Scope op) ResourceReservation rid"
  have eff: "effective op ms b" and c': "c = committed op ms b"
    using c by (cases rule: Memory_Commit_cases [of op ms b]; auto)+
  show "mem_version c = Suc (mem_version b)" by (simp add: c' committed_def Let_def)
  have inv0: "mem_inv b0" "inv_claims b0" using b0(1) by (simp_all add: service_inv_def)
  have inv: "mem_inv b" "inv_claims b" "inv_session b" using b by (simp_all add: service_inv_def)
  obtain r payload a where r: "active b0 ?s rid r" "create ?k (actual_version b0 ?k) payload \<in> set ms"
    "encodeReservation (r\<lparr>res_Status := ReservationConfirmed\<rparr>) = Inr payload"
    and a: "encodeAssignment assignment = Inr a" "create (service_Key ?s ResourceAssignment aid) 0 a \<in> set ms"
    and tickets: "\<forall>reference\<in>set (res_Tickets r). current_ticket b0 ?s reference \<and> deletes b0 ?s ResourceMatchTicket (ref_ID reference) ms"
    and backfills: "\<forall>target\<in>set_option (res_Backfill r). current_backfill b0 ?s target \<and>
      deletes b0 ?s ResourceBackfillTicket (ref_ID (tgt_Ticket target)) ms \<and> deletes b0 ?s ResourceBackfillSessionClaim (tgt_SessionID target) ms"
    and keys: "mut_Key ` set ms \<subseteq> confirmed_keys ?s (op_ID op) rid aid r"
    and asg: "asg_ReservationID assignment = rid" "asg_ProposalID assignment = res_ProposalID r" "asg_Backfill assignment = res_Backfill r"
    by (rule confirm_prepare_writes [OF inv0 tx])
  note del = deletes_effect [OF inv0(1) b0(2) eff]
  have now: "active b ?s rid r"
    using live_at_commit(1) [OF inv0(1) b0(2) eff r(2)] r(1) by (simp add: active_def)
  have "live c ?s ResourceReservation rid = Some payload" using live_committed_mem [OF eff r(2)] by (simp add: c')
  moreover have "current_ticket b ?s reference \<and> live c ?s ResourceMatchTicket (ref_ID reference) = None"
    if "reference \<in> set (res_Tickets r)" for reference
    using tickets that del [of ?s ResourceMatchTicket "ref_ID reference"] by (auto simp: c' current_ticket_def)
  moreover have "current_backfill b ?s target \<and> live c ?s ResourceBackfillTicket (ref_ID (tgt_Ticket target)) = None \<and>
      live b ?s ResourceBackfillSessionClaim (tgt_SessionID target) =
        Some (session_doc (tgt_SessionID target) (ref_ID (tgt_Ticket target))) \<and>
      live c ?s ResourceBackfillSessionClaim (tgt_SessionID target) = None"
    if "target \<in> set_option (res_Backfill r)" for target
  proof -
    from backfills that have t: "current_backfill b0 ?s target" "deletes b0 ?s ResourceBackfillTicket (ref_ID (tgt_Ticket target)) ms"
      "deletes b0 ?s ResourceBackfillSessionClaim (tgt_SessionID target) ms" by blast+
    then have "current_backfill b ?s target" unfolding current_backfill_def del(1) [OF t(2)] by blast
    moreover from this have "live b ?s ResourceBackfillSessionClaim (tgt_SessionID target) =
        Some (session_doc (tgt_SessionID target) (ref_ID (tgt_Ticket target)))"
      using inv_sessionD(1) [OF inv(3)] unfolding current_backfill_def by metis
    ultimately show ?thesis using del(2) [OF t(2)] del(2) [OF t(3)] by (simp add: c')
  qed
  moreover have "claims b ?s rid reference \<and> live c ?s ResourceDemandReservation (ref_ID reference) = None"
    if "reference \<in> set (reservation_refs r)" for reference
    using inv_claimsD(2) [OF inv(2) now that] ends_releases [OF confirm_prepare_Inr(1) [OF inv0 tx] eff r(1) that] by (simp add: c')
  moreover have "live b ?s ResourceAssignment aid = None"
    using absent_at_commit [OF inv(1) eff a(2)] by (simp add: live_def)
  moreover have "live c ?s ResourceAssignment aid = Some a"
    using live_committed_mem [OF eff a(2)] by (simp add: c')
  moreover have "resource_at c k = resource_at b k" if "k \<notin> confirmed_keys ?s (op_ID op) rid aid r" for k
    unfolding c' by (rule committed_resource_other) (use keys that in blast)
  ultimately show "confirmed b c ?s (op_ID op) rid aid assignment"
    unfolding confirmed_def using now r(3) a(1) asg by blast
qed

text \<open>The stores of a history are numbered by their versions, so two stores one version apart are neighbours.\<close>

lemma history_version:
  assumes "history sha256 h" "i < length h"
  shows "mem_version (h ! i) = length h - Suc i"
  using assms
proof (induction arbitrary: i rule: history.induct)
  case start
  then show ?case by (simp add: NewMemoryBackend_def)
next
  case (commit b h b0 op ms)
  have "mem_version (committed op ms b) = Suc (length h)"
    using commit.IH [of 0] by (simp add: committed_def Let_def)
  with commit.IH commit.prems show ?case by (cases i) simp_all
qed

lemma history_neighbours:
  assumes h: "history sha256 h" and b: "b \<in> set h" and c: "c \<in> set h" "mem_version c = Suc (mem_version b)"
  shows "\<exists>newer older. h = newer @ c # b # older"
proof -
  from b c obtain i j where i: "i < length h" "h ! i = b" and j: "j < length h" "h ! j = c" by (metis in_set_conv_nth)
  then have "i = Suc j" using history_version [OF h i(1)] history_version [OF h j(1)] c(2) by simp
  with i j have "h = take j h @ c # b # drop (Suc i) h"
    by (metis id_take_nth_drop Cons_nth_drop_Suc)
  then show ?thesis by blast
qed

context shared_store
begin

text \<open>An answer that is not a replay tells what the history shows.\<close>

lemma reserve_effect:
  assumes "valid_utf8 rid"
  shows "guarantee S (Reservations_Reserve repo digest now ttl scope operationID rid pid) (\<lambda>m H. \<not> rvm_Replayed m \<longrightarrow>
    (\<exists>b\<in>H. \<exists>x. active b scope rid x \<and> reservation_refs x = reservation_refs (rr_Reservation (rvm_Record m)) \<and>
       (\<forall>reference\<in>set (reservation_refs x). claims b scope rid reference)))"
    (is "guarantee S _ ?Q")
proof -
  have replay: "guarantee S (replayedMutation repo scope operationID kind replay) ?Q" for S kind replay
    unfolding replayedMutation_def by (auto intro!: guarantee_steps split: command_result.splits)
  have attempts: "guarantee S (reserve_attempts repo digest n ttl op rid pid) ?Q" if "op_Scope op = scope" "op_ID op = operationID" for n S op
  proof (induction n arbitrary: S)
    case (Suc n)
    show ?case
      unfolding reserve_attempts.simps that
    proof (intro guarantee_steps guarantee_bind [OF safe_expireDue] replay Suc.IH, goal_cases)
      case (1 b0 snap p r ms)
      then show ?case using assms that by (auto intro: transaction.reserve)
    next
      case (2 b0 snap p r ms b answer c result H)
      from 2 have "\<not> cr_Replayed result \<longrightarrow> (\<exists>x. active c (op_Scope op) rid x \<and> reservation_refs x = reservation_refs r \<and>
          (\<forall>reference\<in>set (reservation_refs x). claims c (op_Scope op) rid reference))"
        using reserve_took_effect [of b0 b op snap rid ttl pid r ms result c] assms that by simp
      with 2 that show ?case by auto
    qed
  qed (simp add: guarantee_fail)
  show ?thesis
    unfolding Reservations_Reserve_def
    by (intro guarantee_steps replay guarantee_bind [OF safe_expireDue] attempts) (auto dest: service_operation_Inr)
qed

lemma confirm_effect:
  "guarantee S (Reservations_Confirm repo digest now scope operationID rid aid) (\<lambda>m H. \<not> asm_Replayed m \<longrightarrow>
    (\<exists>b\<in>H. \<exists>c\<in>H. confirmed b c scope operationID rid aid (asr_Assignment (asm_Record m)) \<and> mem_version c = Suc (mem_version b)))"
    (is "guarantee S _ ?Q")
proof -
  have replay: "guarantee S (replayedAssignmentMutation repo scope operationID kind replay) ?Q" for S kind replay
    unfolding replayedAssignmentMutation_def by (auto intro!: guarantee_steps split: command_result.splits)
  show ?thesis
    unfolding Reservations_Confirm_def
    by (intro guarantee_steps replay guarantee_bind [OF safe_expireDue] guarantee_try [OF safe_invalidateStale],
        auto dest!: service_operation_Inr intro: transaction.confirm, blast intro: confirm_took_effect)
qed

end

section \<open>Properties\<close>

text \<open>
  C24. Active reservations exclude each other in every interleaving. A client makes any calls of the
  service; before each call of the repository other clients extend the history in any way that
  service commands can. In every store of the history that results, two different active reservations of one scope have no
  ticket and no backfill in common.
\<close>

theorem service_reservations_exclusive:
  assumes "history sha256 h" "\<forall>f\<in>set fs. other_clients sha256 f" "\<forall>call\<in>set calls. wire_call call"
    and "b \<in> set (fst (serve_all sha256 plan digest shared_repository calls (h, fs)))"
    and "active b scope r1 x" "active b scope r2 y" "r1 \<noteq> r2"
  shows "ref_ID ` set (reservation_refs x) \<inter> ref_ID ` set (reservation_refs y) = {}"
proof -
  let ?t = "serve_all sha256 plan digest shared_repository calls (h, fs)"
  have "shared_valid sha256 (h, fs)" using assms(1,2) by (simp add: shared_valid_def)
  from shared.serve_all_valid [OF assms(3) this] have "history sha256 (fst ?t)" by (simp add: shared_valid_def)
  with history_inv assms(4) have inv: "inv_claims b" by (fastforce simp: service_inv_def)
  show ?thesis
  proof (rule ccontr)
    assume "\<not> ?thesis"
    then obtain s t where st: "s \<in> set (reservation_refs x)" "t \<in> set (reservation_refs y)" "ref_ID s = ref_ID t" by auto
    from claims_owner [OF inv_claimsD(2) [OF inv assms(5) st(1)] inv_claimsD(2) [OF inv assms(6) st(2)] st(3)] assms(7)
    show False by simp
  qed
qed

theorem service_reservations_exclusive_witness:
  "\<exists>x y. active (hd (fst (snd ex_second))) ''s'' ''r1'' x \<and> active (hd (fst (snd ex_second))) ''s'' ''r2'' y \<and>
     map ref_ID (reservation_refs x) = [''a'', ''b''] \<and>
     ref_ID ` set (reservation_refs x) \<inter> ref_ID ` set (reservation_refs y) = {}"
proof -
  let ?b = "hd (fst (snd ex_second))"
  obtain x y where xy: "active ?b ''s'' ''r1'' x" "active ?b ''s'' ''r2'' y" "map ref_ID (reservation_refs x) = [''a'', ''b'']"
    using ex_run(4,5) [THEN reads_active_active] by metis
  have h: "history ex_hash (fst (snd ex_second))" using ex_valid(3) by (simp add: shared_valid_def)
  then have "?b \<in> set (fst (serve_all ex_hash ex_pair_plan ex_digest shared_repository [] (fst (snd ex_second), [])))"
    using history_nonempty [OF h] by simp
  from service_reservations_exclusive [OF h _ _ this xy(1,2)]
  have "ref_ID ` set (reservation_refs x) \<inter> ref_ID ` set (reservation_refs y) = {}" using xy by simp
  with xy show ?thesis by (intro exI conjI)
qed

text \<open>
  C25. In every store of every such history a live match ticket and a live backfill never share an
  identity, and no two live backfills of a scope have the same session.
\<close>

theorem service_demand_exclusive:
  assumes "history sha256 h" "\<forall>f\<in>set fs. other_clients sha256 f" "\<forall>call\<in>set calls. wire_call call"
    and "b \<in> set (fst (serve_all sha256 plan digest shared_repository calls (h, fs)))"
    and "live b scope ResourceBackfillTicket i = Some d" "decodeBackfillTicket (Some d) = Inr t"
  shows "live b scope ResourceMatchTicket i = None \<and>
    (\<forall>j e u. live b scope ResourceBackfillTicket j = Some e \<and> decodeBackfillTicket (Some e) = Inr u \<and> bt_SessionID u = bt_SessionID t \<longrightarrow> j = i)"
proof -
  let ?t = "serve_all sha256 plan digest shared_repository calls (h, fs)"
  have "shared_valid sha256 (h, fs)" using assms(1,2) by (simp add: shared_valid_def)
  from shared.serve_all_valid [OF assms(3) this] have "history sha256 (fst ?t)" by (simp add: shared_valid_def)
  with history_inv assms(4) have inv: "inv_identity b" "inv_session b" by (fastforce simp: service_inv_def)+
  have "live b scope ResourceMatchTicket i = None"
    using inv_identityD(2,4) [OF inv(1), of scope i] assms(5) by (cases "live b scope ResourceMatchTicket i") auto
  moreover have "j = i" if "live b scope ResourceBackfillTicket j = Some e" "decodeBackfillTicket (Some e) = Inr u"
    "bt_SessionID u = bt_SessionID t" for j e u
    using inv_sessionD(1) [OF inv(2) assms(5,6)] inv_sessionD(1) [OF inv(2) that(1,2)] that(3) by simp
  ultimately show ?thesis by blast
qed

theorem service_demand_exclusive_witness:
  "live ex_session_store ''s'' ResourceBackfillTicket ''vacancy'' \<noteq> None \<and> live ex_session_store ''s'' ResourceMatchTicket ''a'' \<noteq> None \<and>
   live ex_session_store ''s'' ResourceMatchTicket ''vacancy'' = None"
proof -
  let ?h = "fst (serve_all ex_hash ex_pair_plan ex_digest shared_repository ex_session_calls ([NewMemoryBackend], []))"
  have wire: "\<forall>call\<in>set ex_session_calls. wire_call call" using ex_session_facts(4) by (simp add: list_all_iff)
  have "history ex_hash ?h"
    using shared.serve_all_valid [OF wire start_valid [of "[]"]] by (simp add: shared_valid_def)
  from history_nonempty [OF this] have "ex_session_store \<in> set ?h" by (simp add: ex_session_store_def)
  from service_demand_exclusive [OF history.start _ wire this ex_session_facts(1,2)] ex_session_facts(1,3) show ?thesis by simp
qed

text \<open>
  C26. What a client relies on is what it guarantees: the calls of a client, with other clients acting
  between its calls of the repository, extend every history to a history. So clients of the service
  may stand in each other's scripts, and the theorems about histories hold for every interleaving of
  their commits.
\<close>

theorem service_guarantee:
  assumes "\<forall>f\<in>set fs. other_clients sha256 f" "\<forall>call\<in>set calls. wire_call call"
  shows "other_clients sha256 (\<lambda>h. fst (serve_all sha256 plan digest shared_repository calls (h, fs)))"
  unfolding other_clients_def
proof (intro allI impI)
  fix h
  assume "history sha256 h"
  with assms(1) have "shared_valid sha256 (h, fs)" by (simp add: shared_valid_def)
  from shared.serve_all_valid [OF assms(2) this]
  show "history sha256 (fst (serve_all sha256 plan digest shared_repository calls (h, fs))) \<and>
      suffix h (fst (serve_all sha256 plan digest shared_repository calls (h, fs)))" by (simp add: shared_valid_def)
qed

theorem service_guarantee_witness:
  "other_clients ex_hash (\<lambda>h. fst (serve_all ex_hash ex_pair_plan ex_digest shared_repository ex_calls
     (h, [\<lambda>h. fst (serve_all ex_hash ex_pair_plan ex_digest shared_repository ex_session_calls (h, []))])))"
proof -
  have "\<forall>call\<in>set ex_session_calls. wire_call call" using ex_session_facts(4) by (simp add: list_all_iff)
  from service_guarantee [of "[]", OF _ this] service_guarantee [OF _ ex_calls_wire] show ?thesis by simp
qed

text \<open>
  A reservation that \<open>Reserve\<close> answers as new took effect: some store of the history shows it
  active with the tickets of the answer, and holding the claim on each of them, whatever other clients
  did before, between and after the steps of the call.
\<close>

theorem Reserve_took_effect:
  assumes "history sha256 h" "\<forall>f\<in>set fs. other_clients sha256 f" "valid_utf8 reservationID"
    and "Reservations_Reserve shared_repository digest now ttl scope operationID reservationID proposalID (h, fs) = (Inr m, h', fs')"
    and "\<not> rvm_Replayed m"
  shows "\<exists>b\<in>set h'. \<exists>x. active b scope reservationID x \<and>
    reservation_refs x = reservation_refs (rr_Reservation (rvm_Record m)) \<and>
    (\<forall>reference\<in>set (reservation_refs x). claims b scope reservationID reference)"
proof -
  have "shared_valid sha256 (h, fs)" using assms(1,2) by (simp add: shared_valid_def)
  from shared.guaranteeD(3) [OF shared.reserve_effect [OF assms(3), of sha256 "{}"] this _ assms(4)] assms(5) show ?thesis by simp
qed

theorem Reserve_took_effect_witness:
  "\<exists>m. fst ex_first = Inr m \<and> \<not> rvm_Replayed m \<and> (\<exists>b\<in>set (fst (snd ex_first)). \<exists>x. active b ''s'' ''r1'' x \<and>
    reservation_refs x = reservation_refs (rr_Reservation (rvm_Record m)))"
proof -
  obtain m where m: "fst ex_first = Inr m" "\<not> rvm_Replayed m"
    using ex_run(1) by (auto simp: replayed_answer_def split: sum.splits)
  have run: "Reservations_Reserve shared_repository ex_digest 12 100 ''s'' ''o7'' ''r1'' ''p'' (fst ex_planned, snd ex_planned) =
      (Inr m, fst (snd ex_first), snd (snd ex_first))"
    using m(1) by (simp add: ex_first_def prod_eq_iff)
  have "history ex_hash (fst ex_planned)" "\<forall>f\<in>set (snd ex_planned). other_clients ex_hash f"
    using ex_valid(1) by (simp_all add: shared_valid_def)
  from Reserve_took_effect [OF this ex_valid(4) run m(2)] m show ?thesis by blast
qed

text \<open>
  C27. An assignment that \<open>Confirm\<close> answers as new took effect in one commit, whatever other clients
  did before, between and after the steps of the call: two neighbouring stores of the history show
  that the reservation, active until then, was confirmed; that each of its match tickets and the
  backfill it fills, live until then in exactly the reserved revision, were consumed together with
  the claims on them and the claim on the session; that the assignment, unknown until then, was stored;
  and that no other resource of any scope changed.
\<close>

theorem Confirm_took_effect:
  assumes "history sha256 h" "\<forall>f\<in>set fs. other_clients sha256 f"
    and "Reservations_Confirm shared_repository digest now scope operationID reservationID assignmentID (h, fs) = (Inr m, h', fs')"
    and "\<not> asm_Replayed m"
  shows "\<exists>newer c b older. h' = newer @ c # b # older \<and>
    confirmed b c scope operationID reservationID assignmentID (asr_Assignment (asm_Record m))"
proof -
  have valid: "shared_valid sha256 (h, fs)" using assms(1,2) by (simp add: shared_valid_def)
  note effect = shared.guaranteeD [OF shared.confirm_effect [of sha256 "{}"] valid _ assms(3)]
  have "history sha256 h'" using effect(1) by (simp add: shared_valid_def)
  moreover from effect(3) assms(4) obtain b c where "b \<in> set h'" "c \<in> set h'" "mem_version c = Suc (mem_version b)"
    "confirmed b c scope operationID reservationID assignmentID (asr_Assignment (asm_Record m))" by auto
  ultimately show ?thesis using history_neighbours by blast
qed

theorem Confirm_took_effect_witness:
  "\<exists>m. fst ex_confirmed = Inr m \<and> \<not> asm_Replayed m \<and> (\<exists>newer c b older. fst (snd ex_confirmed) = newer @ c # b # older \<and>
    confirmed b c ''s'' ''o9'' ''r1'' ''m1'' (asr_Assignment (asm_Record m)))"
proof -
  obtain m where m: "fst ex_confirmed = Inr m" "\<not> asm_Replayed m"
    using ex_run(3) by (auto simp: replayed_answer_def split: sum.splits)
  have run: "Reservations_Confirm shared_repository ex_digest 13 ''s'' ''o9'' ''r1'' ''m1'' (fst (snd ex_second), snd (snd ex_second)) =
      (Inr m, fst (snd ex_confirmed), snd (snd ex_confirmed))"
    using m(1) by (simp add: ex_confirmed_def prod_eq_iff)
  have "history ex_hash (fst (snd ex_second))" "\<forall>f\<in>set (snd (snd ex_second)). other_clients ex_hash f"
    using ex_valid(3) by (simp_all add: shared_valid_def)
  from Confirm_took_effect [OF this run m(2)] m show ?thesis by blast
qed

end
