(* ===== verification/Service_Plan.thy ===== *)
theory Service_Plan
  imports Service_Planning Service_Tickets Service_Policies
begin

text \<open>
  The planner behind the service. The service checks every batch before it stores it; a batch of
  \<open>Plan\<close> always passes.
\<close>

section \<open>The indexes of the check\<close>

lemma foldl_update_absent:
  "k \<notin> f ` set ts \<Longrightarrow> map_of (foldl (\<lambda>m t. AList.update (f t) (g t) m) m0 ts) k = map_of m0 k"
  by (induction ts arbitrary: m0) (simp_all add: update_conv')

lemma foldl_update_present:
  assumes "distinct (map f ts)" "t \<in> set ts"
  shows "map_of (foldl (\<lambda>m t. AList.update (f t) (g t) m) m0 ts) (f t) = Some (g t)"
  using assms
proof (induction ts arbitrary: m0)
  case (Cons a ts)
  show ?case
  proof (cases "t = a")
    case True
    with Cons.prems(1) have "f t \<notin> f ` set ts" by simp
    with True show ?thesis by (simp add: foldl_update_absent update_conv')
  qed (use Cons in simp)
qed simp

lemma length_update_new: "k \<notin> fst ` set m \<Longrightarrow> length (AList.update k v m) = Suc (length m)"
  by (induction m) auto

lemma foldl_update_length:
  assumes "distinct (map f ts)" "f ` set ts \<inter> fst ` set m0 = {}"
  shows "length (foldl (\<lambda>m t. AList.update (f t) (g t) m) m0 ts) = length m0 + length ts"
  using assms
proof (induction ts arbitrary: m0)
  case (Cons a ts)
  have new: "f a \<notin> fst ` set m0" using Cons.prems(2) by auto
  have "f ` set ts \<inter> fst ` set (AList.update (f a) (g a) m0) = {}"
    using Cons.prems by (auto simp: dom_update [unfolded dom_map_of_conv_image_fst])
  with Cons.IH [of "AList.update (f a) (g a) m0"] Cons.prems(1) length_update_new [OF new] show ?case by simp
qed simp

lemma match_index:
  assumes "distinct (map mt_ID ts)"
  shows "t \<in> set ts \<Longrightarrow> map_of (match_index ts) (mt_ID t) = Some (mt_Revision t)" "length (match_index ts) = length ts"
  using foldl_update_present [OF assms, of t mt_Revision "[]"] foldl_update_length [OF assms, of "[]" mt_Revision]
  by (simp_all add: match_index_def)

lemma backfill_index:
  assumes "distinct (map bt_ID ts)" "t \<in> set ts"
  shows "map_of (backfill_index ts) (bt_ID t) = Some t"
  using foldl_update_present [OF assms, of "\<lambda>t. t" "[]"] by (simp add: backfill_index_def)

section \<open>The loops of the check\<close>

lemma check_references_ok:
  assumes "\<forall>r\<in>set refs. map_of m (ref_ID r) = Some (ref_Revision r)" "distinct (map ref_ID refs)"
    "ref_ID ` set refs \<inter> set selected = {}"
  shows "check_references m selected refs = Inr (rev (map ref_ID refs) @ selected)"
  using assms by (induction refs arbitrary: selected) auto

definition target_fresh :: "(TicketID, BackfillTicket) go_map \<Rightarrow> MatchProposal \<Rightarrow> bool" where
  "target_fresh m p \<longleftrightarrow> (case prop_Backfill p of None \<Rightarrow> True
     | Some t \<Rightarrow> (\<exists>b. map_of m (ref_ID (tgt_Ticket t)) = Some b \<and> t = BackfillReference b))"

definition target_ids :: "MatchProposal \<Rightarrow> TicketID list" where
  "target_ids p = (case prop_Backfill p of None \<Rightarrow> [] | Some t \<Rightarrow> [ref_ID (tgt_Ticket t)])"

lemma check_proposals_ok:
  assumes "\<forall>p\<in>set ps. ValidateProposal p = None \<and> prop_PolicyVersion p = pol_Version policy \<and> prop_PolicyFingerprint p = fp \<and>
      (\<forall>r\<in>set (prop_Tickets p). map_of m (ref_ID r) = Some (ref_Revision r)) \<and> target_fresh bm p"
    "distinct (map prop_ID ps)" "prop_ID ` set ps \<inter> set ids = {}"
    "distinct (map ref_ID (concat (map prop_Tickets ps)))" "ref_ID ` set (concat (map prop_Tickets ps)) \<inter> set selected = {}"
    "distinct (concat (map target_ids ps))" "set (concat (map target_ids ps)) \<inter> set bsel = {}"
  shows "check_proposals policy fp m bm ids selected bsel ps =
    Inr (rev (map ref_ID (concat (map prop_Tickets ps))) @ selected, rev (concat (map target_ids ps)) @ bsel)"
  using assms
proof (induction ps arbitrary: ids selected bsel)
  case (Cons p ps)
  let ?sel = "rev (map ref_ID (prop_Tickets p)) @ selected"
  have refs: "check_references m selected (prop_Tickets p) = Inr ?sel"
    using Cons.prems(1,4,5) by (intro check_references_ok) auto
  have head: "ValidateProposal p = None" "prop_PolicyVersion p = pol_Version policy" "prop_PolicyFingerprint p = fp"
    "prop_ID p \<notin> set ids" "target_fresh bm p"
    using Cons.prems(1,3) by auto
  have step: "check_proposals policy fp m bm ids selected bsel (p # ps) =
      check_proposals policy fp m bm (prop_ID p # ids) ?sel (rev (target_ids p) @ bsel) ps"
    using head refs Cons.prems(7)
    by (cases "prop_Backfill p") (auto simp: target_fresh_def target_ids_def BackfillReference_def)
  have "check_proposals policy fp m bm (prop_ID p # ids) ?sel (rev (target_ids p) @ bsel) ps =
      Inr (rev (map ref_ID (concat (map prop_Tickets ps))) @ ?sel, rev (concat (map target_ids ps)) @ rev (target_ids p) @ bsel)"
  proof (rule Cons.IH)
    show "prop_ID ` set ps \<inter> set (prop_ID p # ids) = {}" using Cons.prems(2,3) by auto
    show "ref_ID ` set (concat (map prop_Tickets ps)) \<inter> set ?sel = {}" using Cons.prems(4,5) by auto
    show "set (concat (map target_ids ps)) \<inter> set (rev (target_ids p) @ bsel) = {}" using Cons.prems(6,7) by auto
  qed (use Cons.prems in auto)
  with step show ?case by simp
qed simp

lemma check_unmatched_ok:
  assumes "\<forall>q\<in>set us. map_of m (ref_ID (um_Ticket q)) = Some (ref_Revision (um_Ticket q))"
    "distinct (map (\<lambda>q. ref_ID (um_Ticket q)) us)" "(\<lambda>q. ref_ID (um_Ticket q)) ` set us \<inter> (set selected \<union> set unmatched) = {}"
  shows "check_unmatched m selected unmatched us = Inr (rev (map (\<lambda>q. ref_ID (um_Ticket q)) us) @ unmatched)"
  using assms by (induction us arbitrary: unmatched) (auto simp: Let_def)

section \<open>Batches of the planner\<close>

lemma Plan_evidence:
  assumes "Plan sha256 s = Inr batch"
  shows "batch_SnapshotID batch = snap_ID s" "be_SelectedProposals (batch_Evidence batch) = length (batch_Proposals batch)"
    "be_SelectedBackfills (batch_Evidence batch) = length (filter (\<lambda>p. prop_Kind p = ProposalBackfill) (batch_Proposals batch))"
proof -
  have kinds: "map prop_Kind (build_proposals sha256 s fp cs) = map pc_kind cs" for fp cs
    unfolding build_proposals_def by (rule map_enumerate) (simp add: buildProposal_def Let_def)
  have count: "length (filter (\<lambda>p. prop_Kind p = ProposalBackfill) (build_proposals sha256 s fp cs)) =
      length (filter (\<lambda>c. pc_kind c = ProposalBackfill) cs)" for fp cs
    using arg_cong [OF kinds [of fp cs], of "\<lambda>ks. length (filter (\<lambda>k. k = ProposalBackfill) ks)"]
    by (simp add: filter_map comp_def)
  have sorted: "length (filter P (sort_cmp c xs)) = length (filter P xs)" for P c and xs :: "proposalCandidate list"
    by (metis mset_filter mset_sort_cmp size_mset)
  have "bs_selectedBackfills (materializeBatchSelection ordered is k t) =
      length (filter (\<lambda>c. pc_kind c = ProposalBackfill) (bs_candidates (materializeBatchSelection ordered is k t)))" for ordered "is" k t
    by (simp add: materializeBatchSelection_def Let_def sorted)
  then have bf: "bs_selectedBackfills (selectProposalBatch cs m n b) =
      length (filter (\<lambda>c. pc_kind c = ProposalBackfill) (bs_candidates (selectProposalBatch cs m n b)))" for cs m n b
    by (cases "m \<le> 0 \<or> cs = []") (simp add: selectProposalBatch_def, simp add: selectProposalBatch_conv Let_def)
  show "batch_SnapshotID batch = snap_ID s" "be_SelectedProposals (batch_Evidence batch) = length (batch_Proposals batch)"
    "be_SelectedBackfills (batch_Evidence batch) = length (filter (\<lambda>p. prop_Kind p = ProposalBackfill) (batch_Proposals batch))"
    using assms unfolding Plan_def Let_def
    by (auto split: option.splits sum.splits prod.splits simp: count bf build_proposals_sel(3))
qed

lemma Plan_references:
  assumes "Plan sha256 s = Inr batch" "capacity_in_range (snap_Policy s)"
  defines "R \<equiv> concat (map prop_Tickets (batch_Proposals batch)) @ map um_Ticket (batch_Unmatched batch)"
  shows "ValidateSnapshot s = None" "distinct (map ref_ID R)" "length R = length (snap_MatchTickets s)"
    "\<forall>r\<in>set R. map_of (match_index (snap_MatchTickets s)) (ref_ID r) = Some (ref_Revision r)"
proof -
  show v: "ValidateSnapshot s = None" using assms(1) by (rule Plan_cases)
  have R: "mset R = mset (map TicketReference (snap_MatchTickets s))"
    unfolding R_def using Plan_accounts [OF assms(1,2)] by simp
  have ids: "distinct (map mt_ID (snap_MatchTickets s))" using v by (simp add: ValidateSnapshot_None)
  have "mset (map ref_ID R) = mset (map mt_ID (snap_MatchTickets s))"
    using arg_cong [OF R, of "image_mset ref_ID"] by (simp add: comp_def image_mset.compositionality)
  with ids show "distinct (map ref_ID R)" by (metis mset_eq_imp_distinct_iff)
  show "length R = length (snap_MatchTickets s)" using arg_cong [OF R, of size] by simp
  have "set R = TicketReference ` set (snap_MatchTickets s)" using arg_cong [OF R, of set_mset] by simp
  then show "\<forall>r\<in>set R. map_of (match_index (snap_MatchTickets s)) (ref_ID r) = Some (ref_Revision r)"
    using match_index(1) [OF ids] by auto
qed

lemma Plan_targets:
  assumes "Plan sha256 s = Inr batch" "capacity_in_range (snap_Policy s)"
  shows "\<forall>p\<in>set (batch_Proposals batch). target_fresh (backfill_index (snap_BackfillTickets s)) p"
    "distinct (concat (map target_ids (batch_Proposals batch)))"
    "length (concat (map target_ids (batch_Proposals batch))) =
      length (filter (\<lambda>p. prop_Kind p = ProposalBackfill) (batch_Proposals batch))"
proof -
  from assms obtain fp cs where v: "ValidateSnapshot s = None" and ok: "plan_ok s cs"
    and batch: "batch_Proposals batch = build_proposals sha256 s fp cs"
    by (rule Plan_selection)
  have ids: "distinct (map bt_ID (snap_BackfillTickets s))" using v by (simp add: ValidateSnapshot_None)
  have shape: "pc_kind c = ProposalNewMatch \<and> pc_backfill c = None \<or>
      (\<exists>b\<in>set (snap_BackfillTickets s). pc_kind c = ProposalBackfill \<and> pc_backfill c = Some (BackfillReference b))" if "c \<in> set cs" for c
    using ok that by (auto simp: plan_ok_def candidate_ok_def shape_ok_def)
  show "\<forall>p\<in>set (batch_Proposals batch). target_fresh (backfill_index (snap_BackfillTickets s)) p"
  proof
    fix p
    assume "p \<in> set (batch_Proposals batch)"
    then have "p \<in> set (build_proposals sha256 s fp cs)" by (simp add: batch)
    then obtain i c where "i < length cs" "c = cs ! i" "prop_Backfill p = pc_backfill c"
      by (rule proposal_in_build)
    with shape [of c] show "target_fresh (backfill_index (snap_BackfillTickets s)) p"
      using backfill_index [OF ids] by (auto simp: target_fresh_def BackfillReference_def)
  qed
  have targets: "map target_ids (batch_Proposals batch) = map candidate_backfills cs"
    using arg_cong [OF build_proposals_sel(2) [of sha256 s fp cs],
        of "map (\<lambda>t. case t of None \<Rightarrow> [] | Some t \<Rightarrow> [ref_ID (tgt_Ticket t)])"]
    by (simp add: batch target_ids_def [abs_def] candidate_backfills_def [abs_def] comp_def)
  have kinds: "map prop_Kind (batch_Proposals batch) = map pc_kind cs"
    unfolding batch build_proposals_def by (rule map_enumerate) (simp add: buildProposal_def Let_def)
  have "sorted_wrt compatible cs" using ok by (simp add: plan_ok_def)
  then have "distinct (concat (map candidate_backfills cs))"
  proof (induction cs)
    case (Cons c cs)
    have "distinct (candidate_backfills c)" by (simp add: candidate_backfills_def split: option.splits)
    moreover have "set (candidate_backfills c) \<inter> set (concat (map candidate_backfills cs)) = {}"
      using Cons.prems unfolding sorted_wrt.simps compatible_def by (simp add: Int_UN_distrib)
    ultimately show ?case using Cons by simp
  qed simp
  then show "distinct (concat (map target_ids (batch_Proposals batch)))" by (simp add: targets)
  have "length (concat (map candidate_backfills cs)) = length (filter (\<lambda>c. pc_kind c = ProposalBackfill) cs)"
    using shape
  proof (induction cs)
    case (Cons c cs)
    have "length (candidate_backfills c) = (if pc_kind c = ProposalBackfill then 1 else 0)"
      using Cons.prems [of c] by (auto simp: candidate_backfills_def)
    with Cons show ?case by simp
  qed simp
  also have "\<dots> = length (filter (\<lambda>p. prop_Kind p = ProposalBackfill) (batch_Proposals batch))"
    using arg_cong [OF kinds, of "\<lambda>ks. length (filter (\<lambda>k. k = ProposalBackfill) ks)"] by (simp add: filter_map comp_def)
  finally show "length (concat (map target_ids (batch_Proposals batch))) =
      length (filter (\<lambda>p. prop_Kind p = ProposalBackfill) (batch_Proposals batch))" by (simp add: targets)
qed

lemma Plan_policy:
  assumes "Plan sha256 s = Inr batch" "FingerprintPolicy sha256 (snap_Policy s) = Inr fp" "p \<in> set (batch_Proposals batch)"
  shows "prop_PolicyVersion p = pol_Version (snap_Policy s) \<and> prop_PolicyFingerprint p = fp"
  using assms by (elim Plan_cases) (auto simp: build_proposals_def buildProposal_def Let_def)

lemma load_run_Inr:
  assumes "load_run sha256 snapshot scope runID = Inr (run, captured)"
  shows "prn_SnapshotID run = snap_ID (MatchmakingInput captured)" "prn_PolicyVersion run = pol_Version (snap_Policy (MatchmakingInput captured))"
    "FingerprintPolicy sha256 (snap_Policy (MatchmakingInput captured)) = Inr (prn_PolicyFingerprint run)"
  using assms by (auto simp: load_run_def Let_def split: option.splits sum.splits if_splits)

text \<open>
  C28. What the planner answers for a captured run passes every check that the service makes before it
  stores the batch: all proposals are valid, fresh and disjoint, all tickets are accounted for, the
  evidence counts are right. So a planning run never fails because of the planner's batch.
\<close>

theorem Plan_batch_accepted:
  assumes "load_run sha256 snapshot scope runID = Inr (run, captured)"
    and "Plan sha256 (MatchmakingInput captured) = Inr batch" "capacity_in_range (snap_Policy (MatchmakingInput captured))"
    and "\<And>bytes. sha256 bytes \<noteq> []"
  shows "validatePlanningBatch sha256 (MatchmakingInput captured) run batch = None"
proof -
  let ?s = "MatchmakingInput captured" and ?ps = "batch_Proposals batch" and ?us = "batch_Unmatched batch"
  let ?m = "match_index (snap_MatchTickets ?s)"
  note run = load_run_Inr [OF assms(1)]
  note refs = Plan_references [OF assms(2,3)] and targets = Plan_targets [OF assms(2,3)] and evidence = Plan_evidence [OF assms(2)]
  have "check_proposals (snap_Policy ?s) (prn_PolicyFingerprint run) ?m (backfill_index (snap_BackfillTickets ?s)) [] [] [] ?ps =
      Inr (rev (map ref_ID (concat (map prop_Tickets ?ps))) @ [], rev (concat (map target_ids ?ps)) @ [])"
  proof (rule check_proposals_ok)
    show "\<forall>p\<in>set ?ps. ValidateProposal p = None \<and> prop_PolicyVersion p = pol_Version (snap_Policy ?s) \<and>
        prop_PolicyFingerprint p = prn_PolicyFingerprint run \<and> (\<forall>r\<in>set (prop_Tickets p). map_of ?m (ref_ID r) = Some (ref_Revision r)) \<and>
        target_fresh (backfill_index (snap_BackfillTickets ?s)) p"
      using Plan_valid_proposals [OF assms(2,3,4)] Plan_policy [OF assms(2) run(3)] refs(4) targets(1) by auto
    show "distinct (map prop_ID ?ps)" by (rule Plan_ids_distinct [OF assms(2,3)])
  qed (use refs(2) targets(2) in auto)
  moreover have "check_unmatched ?m (rev (map ref_ID (concat (map prop_Tickets ?ps)))) [] ?us = Inr (rev (map (\<lambda>q. ref_ID (um_Ticket q)) ?us) @ [])"
    using refs(2,4) by (intro check_unmatched_ok) (auto simp: comp_def)
  moreover have "length (map ref_ID (concat (map prop_Tickets ?ps))) + length ?us = length ?m"
    using refs(1,3) match_index(2) [of "snap_MatchTickets ?s"] by (simp add: ValidateSnapshot_None length_concat comp_def)
  ultimately show ?thesis
    using evidence run targets(3) by (simp add: validatePlanningBatch_def Let_def)
qed

text \<open>A store with a captured run whose planner failed.\<close>

definition ex_captured :: store where
  "ex_captured =
     (let digest = (\<lambda>_. [1]);
          b = snd (Policies_Put ex_hash memory_repository digest 1 ''s'' ''o1'' ex_duel_policy NewMemoryBackend);
          b = snd (MatchTickets_Put memory_repository digest 2 ''s'' ''o2'' (ex_solo ''a'' 2 10 '''') b);
          b = snd (MatchTickets_Put memory_repository digest 2 ''s'' ''o3'' (ex_solo ''b'' 2 10 '''') b)
      in snd (PlanningRuns_Execute ex_hash (\<lambda>_. Inl FailureInvalidInput) memory_repository digest 10 11 ''s'' ''o4'' ''run'' ''v1'' b))"

definition ex_loaded :: "go_err + (PlanningRunRecord \<times> PlanningSnapshot)" where
  "ex_loaded = (case Memory_Snapshot ''s'' ex_captured of Inl e \<Rightarrow> Inl e | Inr snapshot \<Rightarrow> load_run ex_hash snapshot ''s'' ''run'')"

lemma ex_loaded:
  "case ex_loaded of Inl _ \<Rightarrow> False
   | Inr (run, captured) \<Rightarrow> capacity_in_range (snap_Policy (MatchmakingInput captured)) \<and>
       (case Plan ex_hash (MatchmakingInput captured) of Inl _ \<Rightarrow> False | Inr batch \<Rightarrow> batch_Proposals batch \<noteq> [])"
  by code_simp

theorem Plan_batch_accepted_witness:
  "\<exists>run captured batch. ex_loaded = Inr (run, captured) \<and> Plan ex_hash (MatchmakingInput captured) = Inr batch \<and>
     batch_Proposals batch \<noteq> [] \<and> validatePlanningBatch ex_hash (MatchmakingInput captured) run batch = None"
proof -
  obtain run captured where loaded: "ex_loaded = Inr (run, captured)" using ex_loaded by (auto split: sum.splits)
  note facts = ex_loaded [unfolded loaded sum.case prod.case]
  obtain batch where ex: "capacity_in_range (snap_Policy (MatchmakingInput captured))"
    "Plan ex_hash (MatchmakingInput captured) = Inr batch" "batch_Proposals batch \<noteq> []"
    using facts by (cases "Plan ex_hash (MatchmakingInput captured)") auto
  from loaded obtain snapshot where "load_run ex_hash snapshot ''s'' ''run'' = Inr (run, captured)"
    by (auto simp: ex_loaded_def split: sum.splits)
  from Plan_batch_accepted [OF this ex(2,1)]
  have "validatePlanningBatch ex_hash (MatchmakingInput captured) run batch = None" by (simp add: ex_hash_def)
  with loaded ex show ?thesis by blast
qed

end
