(* ===== verification/Service_Bounds.thy ===== *)
theory Service_Bounds
  imports Service_Examples
begin

text \<open>
  The retry loops of the service are bounded. The operations are run over a repository that counts its
  calls, whatever it is and whatever it answers, an adapter that always reports a conflict included.
  \<open>Policies.Put\<close> and \<open>PlanningRuns.Execute\<close> give up after a fixed number of calls. The commands on
  reservations expire what is due first, one reservation after the other, so their bound is linear in
  the number of resources a snapshot lists.
\<close>

definition counted :: "('s \<Rightarrow> 'r \<times> 's) \<Rightarrow> 's \<times> nat \<Rightarrow> 'r \<times> 's \<times> nat" where
  "counted m s = (case m (fst s) of (r, t) \<Rightarrow> (r, t, Suc (snd s)))"

definition counting :: "'s RepositoryInterface \<Rightarrow> ('s \<times> nat) RepositoryInterface" where
  "counting repo =
     \<lparr>repo_Snapshot = (\<lambda>scope. counted (repo_Snapshot repo scope)),
      repo_Replay = (\<lambda>operation. counted (repo_Replay repo operation)),
      repo_Commit = (\<lambda>operation mutations. counted (repo_Commit repo operation mutations))\<rparr>"

definition calls_at_most :: "nat \<Rightarrow> ('s \<times> nat, 'a) action \<Rightarrow> bool" where
  "calls_at_most n m \<longleftrightarrow> (\<forall>s k. snd (snd (m (s, k))) \<le> k + n)"

lemma calls_prim:
  "calls_at_most 1 (repo_Snapshot (counting repo) scope)" "calls_at_most 1 (repo_Replay (counting repo) op)"
  "calls_at_most 1 (repo_Commit (counting repo) op ms)"
  by (simp_all add: calls_at_most_def counting_def counted_def split: prod.splits)

lemma calls_bound: "calls_at_most n m \<Longrightarrow> snd (snd (m (s, 0))) \<le> n"
  by (metis calls_at_most_def add_0)

lemma calls_ok: "calls_at_most n (act_ok x)"
  by (simp add: calls_at_most_def act_ok_def)

lemma calls_fail: "calls_at_most n (act_fail e)"
  by (simp add: calls_at_most_def act_fail_def)

lemma calls_mono: "calls_at_most n m \<Longrightarrow> n \<le> k \<Longrightarrow> calls_at_most k m"
  by (meson calls_at_most_def add_left_mono order_trans)

lemma calls_let: "(\<And>x. r = Inr x \<Longrightarrow> calls_at_most n (f x)) \<Longrightarrow> calls_at_most n (act_let r f)"
  by (cases r) (simp_all add: act_let_def calls_fail)

lemma calls_check: "calls_at_most n m \<Longrightarrow> calls_at_most n (act_check r m)"
  by (cases r) (simp_all add: act_check_def calls_fail)

lemma calls_try:
  assumes "calls_at_most n m" "\<And>r. calls_at_most k (f r)"
  shows "calls_at_most (n + k) (act_try m f)"
  unfolding calls_at_most_def
proof (intro allI)
  fix s i
  obtain r t j where m: "m (s, i) = (r, t, j)" by (metis prod.collapse)
  with assms(1) have "j \<le> i + n" by (metis calls_at_most_def snd_conv)
  moreover have "snd (snd (f r (t, j))) \<le> j + k" using assms(2) by (simp add: calls_at_most_def)
  ultimately show "snd (snd (act_try m f (s, i))) \<le> i + (n + k)" by (simp add: act_try_def m)
qed

lemma calls_bind:
  assumes "calls_at_most n m" "\<And>x. calls_at_most k (f x)"
  shows "calls_at_most (n + k) (act_bind m f)"
proof -
  have "act_bind m f = act_try m (\<lambda>r. case r of Inl e \<Rightarrow> act_fail e | Inr x \<Rightarrow> f x)"
    by (rule ext) (auto simp: act_bind_def act_try_def act_fail_def split: prod.splits sum.splits)
  with calls_try [OF assms(1), of k "\<lambda>r. case r of Inl e \<Rightarrow> act_fail e | Inr x \<Rightarrow> f x"] assms(2) show ?thesis
    by (simp add: calls_fail split: sum.splits)
qed

lemma calls_option:
  "calls_at_most n m \<Longrightarrow> (\<And>x. r = Some x \<Longrightarrow> calls_at_most n (f x)) \<Longrightarrow> calls_at_most n (case r of None \<Rightarrow> m | Some x \<Rightarrow> f x)"
  by (cases r) simp_all

lemma calls_sum:
  "(\<And>e. calls_at_most n (g e)) \<Longrightarrow> (\<And>x. calls_at_most n (f x)) \<Longrightarrow> calls_at_most n (case r of Inl e \<Rightarrow> g e | Inr x \<Rightarrow> f x)"
  by (cases r) simp_all

lemma calls_prod: "(\<And>x y. calls_at_most n (f x y)) \<Longrightarrow> calls_at_most n (case p of (x, y) \<Rightarrow> f x y)"
  by (cases p) simp

lemma calls_if: "calls_at_most n m \<Longrightarrow> calls_at_most n m' \<Longrightarrow> calls_at_most n (if c then m else m')"
  by simp

text \<open>The same rules for goals with a fixed bound.\<close>

lemma calls_bind':
  assumes "calls_at_most n m" "n \<le> k" "\<And>x. calls_at_most (k - n) (f x)"
  shows "calls_at_most k (act_bind m f)"
  using calls_bind [OF assms(1,3)] assms(2) by simp

lemma calls_try':
  assumes "calls_at_most n m" "n \<le> k" "\<And>r. calls_at_most (k - n) (f r)"
  shows "calls_at_most k (act_try m f)"
  using calls_try [OF assms(1,3)] assms(2) by simp

lemmas calls_steps = calls_ok calls_fail calls_let calls_check calls_option calls_sum calls_prod calls_if
  calls_bind' [OF calls_prim(1)] calls_bind' [OF calls_prim(2)] calls_try' [OF calls_prim(3)] calls_bind' [OF calls_prim(3)]

lemma calls_MatchTickets: "calls_at_most 3 (MatchTickets_Put (counting repo) digest now scope operationID ticket)"
  "calls_at_most 3 (MatchTickets_Cancel (counting repo) digest now scope operationID ident revision)"
  unfolding MatchTickets_Put_def MatchTickets_Cancel_def by (intro calls_steps; simp)+

lemma calls_policy_attempts:
  "calls_at_most (2 * n) (policy_attempts sha256 (counting repo) n op scope policy fingerprint payload)"
proof (induction n)
  case (Suc n)
  have "calls_at_most (2 * Suc n - 1 - 1) (policy_attempts sha256 (counting repo) n op scope policy fingerprint payload)"
    using Suc by simp
  then show ?case
    unfolding policy_attempts.simps by (intro calls_steps) simp_all
qed (simp add: calls_fail)

lemma calls_Policies_Put: "calls_at_most 17 (Policies_Put sha256 (counting repo) digest now scope operationID policy)"
proof -
  have "calls_at_most (17 - 1) (policy_attempts sha256 (counting repo) maxPolicyCommitAttempts op scope p fingerprint payload)"
    for op p fingerprint payload
    using calls_policy_attempts [of maxPolicyCommitAttempts sha256 repo] by (simp add: maxPolicyCommitAttempts_def)
  then show ?thesis
    unfolding Policies_Put_def Let_def by (intro calls_steps) simp_all
qed

lemma calls_PlanningRuns_Get: "calls_at_most 1 (PlanningRuns_Get (counting repo) scope runID)"
  unfolding PlanningRuns_Get_def by (intro calls_steps) simp_all

lemma calls_complete_attempts:
  "calls_at_most (Suc (2 * n)) (complete_attempts sha256 (counting repo) n scope runID replayed op mutations_of)"
proof (induction n)
  case (Suc n)
  have "calls_at_most (Suc (2 * Suc n) - 1 - 1) (complete_attempts sha256 (counting repo) n scope runID replayed op mutations_of)"
    using Suc by simp
  then show ?case
    unfolding complete_attempts.simps by (intro calls_steps calls_bind' [OF calls_PlanningRuns_Get]) simp_all
qed (simp add: calls_fail)

lemma calls_PlanningRuns_resume: "calls_at_most 18 (PlanningRuns_resume sha256 plan (counting repo) digest now scope runID replayed)"
proof -
  have "calls_at_most (18 - 1) (PlanningRuns_complete sha256 (counting repo) digest now scope run batch replayed)" for run batch
    using calls_complete_attempts [of maxPlanningCompletionAttempts sha256 repo]
    unfolding PlanningRuns_complete_def Let_def by (intro calls_let) (simp add: maxPlanningCompletionAttempts_def)
  then show ?thesis unfolding PlanningRuns_resume_def by (intro calls_steps) simp_all
qed

text \<open>The first look for a captured operation costs one call if there is none; the answer decides how it goes on.\<close>

lemma calls_captured:
  assumes "calls_at_most n (f None)" "\<And>x. calls_at_most 0 (f (Some x))" "18 \<le> n"
  shows "calls_at_most (Suc n) (act_bind (resumeCapturedOperation sha256 plan (counting repo) digest now op scope runID) f)"
proof -
  have assoc: "act_bind (act_bind m g) h = act_bind m (\<lambda>x. act_bind (g x) h)" for m g h
    by (rule ext) (auto simp: act_bind_def split: prod.splits sum.splits)
  have step: "act_bind (case r of None \<Rightarrow> act_ok None
        | Some _ \<Rightarrow> act_bind (PlanningRuns_resume sha256 plan (counting repo) digest now scope runID True) (\<lambda>x. act_ok (Some x))) f =
      (case r of None \<Rightarrow> f None
        | Some _ \<Rightarrow> act_bind (PlanningRuns_resume sha256 plan (counting repo) digest now scope runID True) (\<lambda>x. f (Some x)))" for r
    by (rule ext, cases r) (auto simp: act_bind_def act_ok_def split: prod.splits sum.splits)
  show ?thesis
    unfolding resumeCapturedOperation_def assoc step
    by (rule calls_bind' [OF calls_prim(2)], simp, rule calls_option)
      (use assms in \<open>auto intro!: calls_bind' [OF calls_PlanningRuns_resume] intro: calls_mono [OF assms(2)]\<close>)
qed

section \<open>Commands that expire reservations\<close>

text \<open>No snapshot of the repository lists more than \<open>d\<close> resources.\<close>

definition small_snapshots :: "nat \<Rightarrow> 's RepositoryInterface \<Rightarrow> bool" where
  "small_snapshots d repo \<longleftrightarrow>
     (\<forall>scope s snapshot t. repo_Snapshot repo scope s = (Inr snapshot, t) \<longrightarrow> length (rsn_Resources snapshot) \<le> d)"

lemma calls_small_snapshot:
  assumes "small_snapshots d repo" "1 \<le> k"
    "\<And>snapshot. length (rsn_Resources snapshot) \<le> d \<Longrightarrow> calls_at_most (k - 1) (f snapshot)"
  shows "calls_at_most k (act_bind (repo_Snapshot (counting repo) scope) f)"
  unfolding calls_at_most_def
proof (intro allI)
  fix s i
  obtain r t where m: "repo_Snapshot repo scope s = (r, t)" by fastforce
  show "snd (snd (act_bind (repo_Snapshot (counting repo) scope) f (s, i))) \<le> i + k"
  proof (cases r)
    case (Inl e)
    with m assms(2) show ?thesis by (simp add: act_bind_def counting_def counted_def)
  next
    case (Inr snapshot)
    with m assms(1) have "length (rsn_Resources snapshot) \<le> d" unfolding small_snapshots_def by blast
    from assms(3) [OF this] have "snd (snd (f snapshot (t, Suc i))) \<le> Suc i + (k - 1)" unfolding calls_at_most_def by blast
    with m Inr assms(2) show ?thesis by (simp add: act_bind_def counting_def counted_def)
  qed
qed

lemma calls_expireOne: "calls_at_most 2 (expireOne (counting repo) digest scope reservation)"
  unfolding expireOne_def by (intro calls_steps) simp_all

lemma calls_invalidateStale: "calls_at_most 2 (invalidateStale (counting repo) digest scope reservation at)"
  unfolding invalidateStale_def by (intro calls_steps) simp_all

lemma calls_expire_each: "calls_at_most (2 * length rs) (expire_each (counting repo) digest scope conflicted rs)"
proof (induction rs arbitrary: conflicted)
  case (Cons r rs)
  have "2 * length (r # rs) - 2 = 2 * length rs" by simp
  with Cons show ?case
    unfolding expire_each.simps by (intro calls_try' [OF calls_expireOne]) (auto intro!: calls_sum calls_if calls_fail)
qed (simp add: calls_ok)

lemma due_reservations_length:
  assumes "due_reservations snapshot now = Inr rs"
  shows "length rs \<le> length (rsn_Resources snapshot)"
proof -
  obtain all where all: "decode_all (\<lambda>resource. decodeReservation (rsc_Payload resource)) (live_reservations snapshot) = Inr all"
    "rs = filter (\<lambda>reservation. res_Status reservation = ReservationActive \<and> \<not> now < res_ExpiresAt reservation) all"
    using assms by (auto simp: due_reservations_def map_sum_def split: sum.splits)
  have "decode_all f xs = Inr ys \<Longrightarrow> length ys = length xs" for f :: "document Resource \<Rightarrow> go_err + Reservation" and xs ys
    by (induction xs arbitrary: ys) (auto simp: map_sum_def split: sum.splits)
  from this [OF all(1)] have "length all \<le> length (rsn_Resources snapshot)" by (simp add: live_reservations_def)
  moreover have "length rs \<le> length all" by (simp add: all(2))
  ultimately show ?thesis by simp
qed

lemma calls_expire_attempts:
  assumes "small_snapshots d repo"
  shows "calls_at_most (n * (1 + 2 * d)) (expire_attempts (counting repo) digest n scope now)"
proof (induction n)
  case (Suc n)
  let ?k = "Suc n * (1 + 2 * d)"
  show ?case
    unfolding expire_attempts.simps
  proof (intro calls_small_snapshot [OF assms] calls_let calls_if calls_ok)
    fix snapshot expired
    assume "length (rsn_Resources snapshot :: document Resource list) \<le> d" "due_reservations snapshot now = Inr expired"
    then have le: "length expired \<le> d" using due_reservations_length order_trans by blast
    have each: "calls_at_most (2 * d) (expire_each (counting repo) digest scope False expired)"
      by (rule calls_mono [OF calls_expire_each]) (use le in simp)
    have left: "?k - 1 - 2 * d = n * (1 + 2 * d)" by simp
    show "calls_at_most (?k - 1) (act_bind (expire_each (counting repo) digest scope False expired)
        (\<lambda>conflicted. if \<not> conflicted then act_ok () else expire_attempts (counting repo) digest n scope now))"
    proof (rule calls_bind' [OF each])
      show "calls_at_most (?k - 1 - 2 * d) (if \<not> conflicted then act_ok () else expire_attempts (counting repo) digest n scope now)" for conflicted
        unfolding left by (intro calls_if calls_ok Suc)
    qed simp
  qed simp
qed (simp add: calls_fail)

lemma calls_expireDue:
  assumes "small_snapshots d repo"
  shows "calls_at_most (8 + 16 * d) (expireDue (counting repo) digest scope now)"
  using calls_expire_attempts [OF assms, of 8] by (simp add: expireDue_def maxReservationAttempts_def)

lemma calls_replayed:
  "calls_at_most 1 (replayedMutation (counting repo) scope operationID kind replay)"
  "calls_at_most 1 (replayedAssignmentMutation (counting repo) scope operationID kind replay)"
  unfolding replayedMutation_def replayedAssignmentMutation_def
  by (intro calls_steps; simp split: command_result.splits; intro allI impI conjI calls_steps)+

lemma calls_reserve_attempts:
  assumes "small_snapshots d repo"
  shows "calls_at_most (n * (11 + 16 * d)) (reserve_attempts (counting repo) digest n ttl op rid pid)"
proof (induction n)
  case (Suc n)
  let ?k = "Suc n * (11 + 16 * d)"
  have "?k - 1 - 1 - 1 - (8 + 16 * d) = n * (11 + 16 * d)" by simp
  with Suc show ?case
    unfolding reserve_attempts.simps
    by (intro calls_steps calls_mono [OF calls_replayed(1)] calls_bind' [OF calls_expireDue [OF assms]]) simp_all
qed (simp add: calls_fail)

lemma calls_reservations:
  assumes "small_snapshots d repo"
  shows "calls_at_most (97 + 144 * d) (Reservations_Reserve (counting repo) digest now ttl scope operationID rid pid)"
    "calls_at_most (11 + 16 * d) (Reservations_Cancel (counting repo) digest now scope operationID rid)"
    "calls_at_most (13 + 16 * d) (Reservations_Confirm (counting repo) digest now scope operationID rid aid)"
    "calls_at_most (9 + 16 * d) (Reservations_Get (counting repo) digest now scope rid)"
    "calls_at_most (9 + 16 * d) (Reservations_Snapshot (counting repo) digest now scope)"
proof -
  note expire = calls_bind' [OF calls_expireDue [OF assms]]
  have attempts: "calls_at_most (97 + 144 * d - 1 - (8 + 16 * d)) (reserve_attempts (counting repo) digest maxReservationAttempts ttl op rid pid)" for op
    by (rule calls_mono [OF calls_reserve_attempts [OF assms]]) (simp add: maxReservationAttempts_def)
  show "calls_at_most (97 + 144 * d) (Reservations_Reserve (counting repo) digest now ttl scope operationID rid pid)"
    unfolding Reservations_Reserve_def
    by (intro calls_steps calls_mono [OF calls_replayed(1)] expire attempts) simp_all
  show "calls_at_most (11 + 16 * d) (Reservations_Cancel (counting repo) digest now scope operationID rid)"
    unfolding Reservations_Cancel_def
    by (intro calls_steps calls_mono [OF calls_replayed(1)] expire) simp_all
  show "calls_at_most (13 + 16 * d) (Reservations_Confirm (counting repo) digest now scope operationID rid aid)"
    unfolding Reservations_Confirm_def
    by (intro calls_steps calls_mono [OF calls_replayed(2)] expire calls_try' [OF calls_invalidateStale]) simp_all
  show "calls_at_most (9 + 16 * d) (Reservations_Get (counting repo) digest now scope rid)"
    unfolding Reservations_Get_def by (intro calls_steps expire) simp_all
  show "calls_at_most (9 + 16 * d) (Reservations_Snapshot (counting repo) digest now scope)"
    unfolding Reservations_Snapshot_def by (intro calls_steps expire) simp_all
qed

lemma calls_Execute:
  "calls_at_most 22 (PlanningRuns_Execute sha256 plan (counting repo) digest now later scope operationID runID version)"
proof -
  have again: "calls_at_most n (act_bind (resumeCapturedOperation sha256 plan (counting repo) digest later op scope runID)
      (\<lambda>captured. case captured of None \<Rightarrow> act_fail (ErrFailure FailureInvalidRevision) | Some result \<Rightarrow> act_ok result))" if "19 \<le> n" for op n
    by (rule calls_mono [OF calls_captured [of 18]]) (use that in \<open>simp_all add: calls_ok calls_fail\<close>)
  have "calls_at_most (Suc 21) (PlanningRuns_Execute sha256 plan (counting repo) digest now later scope operationID runID version)"
    unfolding PlanningRuns_Execute_def
    by (intro calls_if calls_fail calls_let calls_captured)
      (simp_all add: calls_ok, intro calls_steps again calls_mono [OF calls_PlanningRuns_resume], simp_all)
  then show ?thesis by simp
qed

text \<open>
  C30. Every command that retries ends, whatever the repository answers and even if every commit
  conflicts. \<open>Policies.Put\<close> calls the repository at most 17 times and \<open>PlanningRuns.Execute\<close>, with its
  capture, its resumption and eight attempts to complete, at most 22 times. The commands on reservations
  first expire what is due, in up to eight passes over the due reservations; over a repository whose
  snapshots list at most \<open>d\<close> resources \<open>Reserve\<close>, which repeats this before each of its eight
  attempts, makes at most 97 + 144 d calls, \<open>Cancel\<close> 11 + 16 d, \<open>Confirm\<close> 13 + 16 d, and \<open>Get\<close> and
  \<open>Snapshot\<close> 9 + 16 d.
\<close>

theorem service_calls_bounded:
  "snd (snd (Policies_Put sha256 (counting repo) digest now scope operationID policy (s, 0))) \<le> 17 \<and>
   snd (snd (PlanningRuns_Execute sha256 plan (counting repo) digest now later scope operationID runID version (s, 0))) \<le> 22 \<and>
   (small_snapshots d repo \<longrightarrow>
      snd (snd (Reservations_Reserve (counting repo) digest now ttl scope operationID rid pid (s, 0))) \<le> 97 + 144 * d \<and>
      snd (snd (Reservations_Cancel (counting repo) digest now scope operationID rid (s, 0))) \<le> 11 + 16 * d \<and>
      snd (snd (Reservations_Confirm (counting repo) digest now scope operationID rid aid (s, 0))) \<le> 13 + 16 * d \<and>
      snd (snd (Reservations_Get (counting repo) digest now scope rid (s, 0))) \<le> 9 + 16 * d \<and>
      snd (snd (Reservations_Snapshot (counting repo) digest now scope (s, 0))) \<le> 9 + 16 * d)"
  by (intro conjI impI calls_bound calls_Policies_Put calls_Execute calls_reservations)

text \<open>An adapter that answers reads from one store and every commit with a conflict.\<close>

definition conflicting :: "store \<Rightarrow> unit RepositoryInterface" where
  "conflicting b =
     \<lparr>repo_Snapshot = (\<lambda>scope s. (Memory_Snapshot scope b, s)), repo_Replay = (\<lambda>operation s. (Memory_Replay operation b, s)),
      repo_Commit = (\<lambda>operation mutations s. (Inl (Conflict (service_Key (op_Scope operation) ResourceProposal []) 0 1), s))\<rparr>"

lemma conflicting_small: "small_snapshots (length (mem_resources b)) (conflicting b)"
  unfolding small_snapshots_def conflicting_def
  by (auto simp: Memory_Snapshot_def intro: order_trans [OF length_filter_le] split: if_splits)

lemma service_calls_bounded_witness:
  "length (mem_resources (hd (fst ex_planned))) = 13 \<and>
   snd (snd (Reservations_Reserve (counting (conflicting (hd (fst ex_planned)))) ex_digest 12 100 ''s'' ''o7'' ''r1'' ''p'' ((), 0))) = 34 \<and>
   snd (snd (Reservations_Reserve (counting (conflicting (hd (fst ex_planned)))) ex_digest 12 100 ''s'' ''o7'' ''r1'' ''p'' ((), 0))) \<le> 1969"
proof -
  let ?b = "hd (fst ex_planned)"
  have "length (mem_resources ?b) = 13 \<and>
    snd (snd (Reservations_Reserve (counting (conflicting ?b)) ex_digest 12 100 ''s'' ''o7'' ''r1'' ''p'' ((), 0))) = 34"
    by code_simp
  moreover have "small_snapshots (length (mem_resources ?b)) (conflicting ?b)" by (rule conflicting_small)
  ultimately show ?thesis
    using service_calls_bounded [where d = 13 and repo = "conflicting ?b" and digest = ex_digest and now = 12 and ttl = 100 and
        scope = "''s''" and operationID = "''o7''" and rid = "''r1''" and pid = "''p''" and s = "()"] by simp
qed

end
