(* ===== verification/Service_Roundtrip.thy ===== *)
theory Service_Roundtrip
  imports Service_Examples
begin

text \<open>
  Documents of planning runs can be read back. A run that was captured resumes later, perhaps in
  another process, from what was stored; it must see the input it was captured with.
\<close>

section \<open>ASCII text\<close>

definition ascii :: "string \<Rightarrow> bool" where
  "ascii s \<longleftrightarrow> list_all (byte_in 0 0x7F) s"

lemma ascii_valid: "ascii s \<Longrightarrow> valid_utf8 s"
proof (induction s)
  case (Cons c s)
  then have "byte_in 0 0x7F c" "valid_utf8 s" by (simp_all add: ascii_def)
  moreover from this(1) have "rune_length (c # s) = Suc 0"
    by (cases "c # s" rule: rune_length.cases) simp_all
  ultimately show ?case by (simp add: json_string.simps(2))
qed simp

lemma digit_ascii:
  assumes "n < 16"
  shows "byte_in 0 0x7F (digit_char n)"
proof -
  have "list_all (byte_in 0 0x7F) ''0123456789abcdef''" by code_simp
  with assms show ?thesis by (simp add: digit_char_def list_all_length)
qed

lemma hex_ascii: "ascii (hex_EncodeToString bs)"
proof (induction bs)
  case (Cons a bs)
  have "unat a < 256" using unsigned_less [of a, where 'a = nat] by simp
  then have "unat a div 16 < 16" by (simp add: less_mult_imp_div_less)
  with Cons show ?case by (simp add: ascii_def hex_EncodeToString_def hex_byte_def digit_ascii)
qed (simp add: ascii_def hex_EncodeToString_def)

lemma fingerprint_text:
  assumes "FingerprintPolicy sha256 p = Inr fp"
  shows "valid_utf8 fp" "(\<And>bytes. sha256 bytes \<noteq> []) \<Longrightarrow> fp \<noteq> ''''"
proof -
  have fp: "fp = hex_EncodeToString (sha256 (policy_encoding p))"
    using assms by (simp add: FingerprintPolicy_def split: option.splits)
  then show "valid_utf8 fp" by (simp add: ascii_valid hex_ascii)
  have "length fp = 2 * length (sha256 (policy_encoding p))" by (simp add: fp)
  then show "(\<And>bytes. sha256 bytes \<noteq> []) \<Longrightarrow> fp \<noteq> ''''" by auto
qed

section \<open>Policies\<close>

text \<open>Strings that came over the wire or from the store, role requirements in canonical order.\<close>

definition wire_policy :: "MatchmakingPolicy \<Rightarrow> bool" where
  "wire_policy p \<longleftrightarrow> valid_utf8 (pol_Version p) \<and> map json_requirement (pol_RoleRequirements p) = pol_RoleRequirements p \<and>
     canonicalPolicy p = p"

lemma decode_encodePolicy:
  assumes "encodePolicy p fp = Inr d" "FingerprintPolicy sha256 p = Inr fp" "wire_policy p" "\<And>bytes. sha256 bytes \<noteq> []"
  shows "decodePolicy sha256 (Some d) = Inr (p, fp)"
proof -
  obtain q where d: "d = DocPolicy q" and q: "stored_policy q = p" "pp_Schema q = policyPayloadSchema" "pp_Fingerprint q = fp"
  proof
    have "stored_step (persisted_step x) = x" for x by (simp add: stored_step_def persisted_step_def)
    then have steps: "map stored_step (map persisted_step xs) = xs" for xs by (simp add: comp_def)
    show "d = DocPolicy (case d of DocPolicy q \<Rightarrow> q)" "stored_policy (case d of DocPolicy q \<Rightarrow> q) = p"
      "pp_Schema (case d of DocPolicy q \<Rightarrow> q) = policyPayloadSchema" "pp_Fingerprint (case d of DocPolicy q \<Rightarrow> q) = fp"
      using assms(1,3) fingerprint_text(1) [OF assms(2)] steps
      by (auto simp: encodePolicy_def wire_policy_def stored_policy_def)
  qed
  show ?thesis using assms(2) fingerprint_text(2) [OF assms(2,4)] by (simp add: d decodePolicy_def q)
qed

section \<open>Planning snapshots and runs\<close>

lemma encode_match_tickets_Inr:
  assumes "encode_match_tickets ts = Inr ds" "\<forall>t\<in>set ts. ValidateMatchTicket t = None \<and> wire_match_ticket t"
  shows "decode_all (\<lambda>d. decodeMatchTicket (Some (DocMatchTicket d))) ds = Inr ts"
  using assms
proof (induction ts arbitrary: ds)
  case (Cons t ts)
  obtain d where d: "encodeMatchTicket t = Inr (DocMatchTicket d)" "encode_match_tickets ts = Inr (tl ds)" "ds = d # tl ds"
    using Cons.prems(1) by (auto simp: map_sum_def split: sum.splits document.splits)
  have "decodeMatchTicket (Some (DocMatchTicket d)) = Inr t"
    using decode_encodeMatchTicket [OF d(1)] Cons.prems(2) by simp
  moreover have "decode_all (\<lambda>d. decodeMatchTicket (Some (DocMatchTicket d))) (tl ds) = Inr ts"
    using Cons.IH [OF d(2)] Cons.prems(2) by simp
  ultimately show ?case by (subst d(3)) simp
qed simp

lemma encode_backfill_tickets_Inr:
  assumes "encode_backfill_tickets ts = Inr ds" "\<forall>t\<in>set ts. ValidateBackfillTicket t = None \<and> wire_backfill_ticket t"
  shows "decode_all (\<lambda>d. decodeBackfillTicket (Some (DocBackfillTicket d))) ds = Inr ts"
  using assms
proof (induction ts arbitrary: ds)
  case (Cons t ts)
  obtain d where d: "encodeBackfillTicket t = Inr (DocBackfillTicket d)" "encode_backfill_tickets ts = Inr (tl ds)" "ds = d # tl ds"
    using Cons.prems(1) by (auto simp: map_sum_def split: sum.splits document.splits)
  have "decodeBackfillTicket (Some (DocBackfillTicket d)) = Inr t"
    using decode_encodeBackfillTicket [OF d(1)] Cons.prems(2) by simp
  moreover have "decode_all (\<lambda>d. decodeBackfillTicket (Some (DocBackfillTicket d))) (tl ds) = Inr ts"
    using Cons.IH [OF d(2)] Cons.prems(2) by simp
  ultimately show ?case by (subst d(3)) simp
qed simp

definition wire_snapshot :: "MatchmakingSnapshot \<Rightarrow> bool" where
  "wire_snapshot s \<longleftrightarrow> valid_utf8 (snap_ID s) \<and> (\<forall>t\<in>set (snap_MatchTickets s). wire_match_ticket t) \<and>
     (\<forall>t\<in>set (snap_BackfillTickets s). wire_backfill_ticket t) \<and> wire_policy (snap_Policy s)"

lemma decode_encodePlanningSnapshot:
  assumes "NewPlanningSnapshot version input = Inr captured" "encodePlanningSnapshot sha256 captured = Inr d" "wire_snapshot input"
    "\<And>bytes. sha256 bytes \<noteq> []"
  shows "decodePlanningSnapshot sha256 (Some d) = Inr captured"
proof -
  have new: "version \<noteq> 0" "ValidateSnapshot input = None" "captured = \<lparr>psn_repositoryVersion = version, psn_input = input\<rparr>"
    using assms(1) by (auto simp: NewPlanningSnapshot_def split: if_splits option.splits)
  have valid: "\<forall>t\<in>set (snap_MatchTickets input). ValidateMatchTicket t = None \<and> wire_match_ticket t"
    "\<forall>t\<in>set (snap_BackfillTickets input). ValidateBackfillTicket t = None \<and> wire_backfill_ticket t"
    using new(2) assms(3) by (simp_all add: ValidateSnapshot_None wire_snapshot_def)
  have policy: "canonicalPolicy (snap_Policy input) = snap_Policy input" "wire_policy (snap_Policy input)" "valid_utf8 (snap_ID input)"
    using assms(3) by (simp_all add: wire_snapshot_def wire_policy_def)
  obtain fp p ms bs where fp: "FingerprintPolicy sha256 (snap_Policy input) = Inr fp"
    and p: "encodePolicy (snap_Policy input) fp = Inr (DocPolicy p)"
    and ms: "encode_match_tickets (snap_MatchTickets input) = Inr ms" and bs: "encode_backfill_tickets (snap_BackfillTickets input) = Inr bs"
    and d: "d = DocPlanningSnapshot \<lparr>pps_Schema = planningSnapshotPayloadSchema, pps_RepositoryVersion = version,
        pps_ID = snap_ID input, pps_Now = snap_Now input, pps_Policy = p, pps_MatchTickets = ms, pps_BackfillTickets = bs\<rparr>"
    using assms(2) policy(1,3)
    by (auto simp: encodePlanningSnapshot_def MatchmakingInput_def new(3) split: sum.splits document.splits if_splits)
  have "decodePolicy sha256 (Some (DocPolicy p)) = Inr (snap_Policy input, fp)"
    by (rule decode_encodePolicy [OF p fp policy(2) assms(4)])
  moreover note encode_match_tickets_Inr [OF ms valid(1)] encode_backfill_tickets_Inr [OF bs valid(2)]
  ultimately have "decodePlanningSnapshot sha256 (Some d) = NewPlanningSnapshot version
      \<lparr>snap_ID = snap_ID input, snap_Now = snap_Now input, snap_MatchTickets = snap_MatchTickets input,
       snap_BackfillTickets = snap_BackfillTickets input, snap_Policy = snap_Policy input\<rparr>"
    using new(1) by (simp add: d decodePlanningSnapshot_def)
  moreover have "\<lparr>snap_ID = snap_ID input, snap_Now = snap_Now input, snap_MatchTickets = snap_MatchTickets input,
      snap_BackfillTickets = snap_BackfillTickets input, snap_Policy = snap_Policy input\<rparr> = input" by simp
  ultimately show ?thesis using assms(1) by metis
qed

lemma decode_encodePlanningRun:
  assumes "encodePlanningRun run = Inr d" "valid_utf8 (prn_ID run)" "valid_utf8 (prn_PolicyVersion run)" "valid_utf8 (prn_PolicyFingerprint run)"
  shows "decodePlanningRun (Some d) = Inr (run\<lparr>prn_StorageVersion := 0\<rparr>)"
proof -
  have v: "validatePlanningRun run = None"
    and d: "d = DocPlanningRun \<lparr>ppr_Schema = planningRunPayloadSchema, ppr_ID = prn_ID run, ppr_SnapshotID = json_string (prn_SnapshotID run),
       ppr_PolicyVersion = prn_PolicyVersion run, ppr_PolicyFingerprint = prn_PolicyFingerprint run,
       ppr_SourceRepositoryVersion = prn_SourceRepositoryVersion run, ppr_CapturedAt = prn_CapturedAt run,
       ppr_CompletedAt = optionalTime (prn_CompletedAt run), ppr_Status = prn_Status run,
       ppr_ProposalCount = prn_ProposalCount run, ppr_UnmatchedCount = prn_UnmatchedCount run,
       ppr_BudgetExhausted = prn_BudgetExhausted run, ppr_Evidence = prn_Evidence run\<rparr>"
    using assms by (auto simp: encodePlanningRun_def split: option.splits if_splits)
  have id: "json_string (prn_SnapshotID run) = prn_SnapshotID run"
    using v assms(2) by (auto simp: validatePlanningRun_def split: if_splits)
  have t: "timeValue (optionalTime t) = t" for t by (simp add: timeValue_def optionalTime_def time_IsZero_def)
  have "validatePlanningRun (run\<lparr>prn_StorageVersion := 0\<rparr>) = validatePlanningRun run"
    by (cases "prn_Status run") (simp_all add: validatePlanningRun_def)
  then have "validatePlanningRun (run\<lparr>prn_StorageVersion := 0\<rparr>) = None" using v by simp
  then show ?thesis using id by (cases run) (simp add: d decodePlanningRun_def t Let_def)
qed

lemma capture_Inr:
  assumes "capture_mutations sha256 snapshot scope runID version at = Inr ms"
  obtains input fp captured run d e where "planningInput sha256 snapshot scope runID version at = Inr (input, fp)"
    "NewPlanningSnapshot (rsn_Version snapshot) input = Inr captured" "encodePlanningSnapshot sha256 captured = Inr d"
    "encodePlanningRun run = Inr e" "prn_ID run = runID" "prn_SnapshotID run = snap_ID input" "prn_PolicyVersion run = version"
    "prn_PolicyFingerprint run = fp" "prn_SourceRepositoryVersion run = rsn_Version snapshot" "prn_Status run = PlanningRunPlanning"
    "ms = [create (service_Key scope ResourcePlanningRun runID) 0 e, create (service_Key scope ResourcePlanningSnapshot runID) 0 d]"
  using assms by (auto simp: capture_mutations_def split: sum.splits)

text \<open>
  C29. A planning run that was captured can be resumed from the store alone: once the capture is
  committed, loading the run yields the open run and exactly the input that was read for it, with the
  policy and its fingerprint, in any later store that still has the two documents.
\<close>

theorem captured_run_resumes:
  assumes "capture_mutations sha256 snapshot (op_Scope op) runID version at = Inr ms"
    and "planningInput sha256 snapshot (op_Scope op) runID version at = Inr (input, fp)"
    and "wire_snapshot input" "valid_utf8 runID" "\<And>bytes. sha256 bytes \<noteq> []" "pol_Version (snap_Policy input) = version"
    and "effective op ms b" "mem_inv b" "Memory_Snapshot (op_Scope op) (committed op ms b) = Inr later"
  shows "\<exists>run. load_run sha256 later (op_Scope op) runID =
      Inr (run, \<lparr>psn_repositoryVersion = rsn_Version snapshot, psn_input = input\<rparr>) \<and>
    prn_Status run = PlanningRunPlanning \<and> prn_PolicyFingerprint run = fp"
proof -
  let ?s = "op_Scope op" and ?c = "committed op ms b"
  obtain captured run d e where captured: "NewPlanningSnapshot (rsn_Version snapshot) input = Inr captured"
      "encodePlanningSnapshot sha256 captured = Inr d"
    and run: "encodePlanningRun run = Inr e" "prn_ID run = runID" "prn_SnapshotID run = snap_ID input" "prn_PolicyVersion run = version"
      "prn_PolicyFingerprint run = fp" "prn_SourceRepositoryVersion run = rsn_Version snapshot" "prn_Status run = PlanningRunPlanning"
    and ms: "ms = [create (service_Key ?s ResourcePlanningRun runID) 0 e, create (service_Key ?s ResourcePlanningSnapshot runID) 0 d]"
    using capture_Inr [OF assms(1)] assms(2) by (metis Inr_inject prod.inject)
  have input: "ValidateSnapshot input = None" "FingerprintPolicy sha256 (snap_Policy input) = Inr fp"
    using assms(2) by (auto simp: planningInput_def decodePolicy_def Let_def split: option.splits sum.splits document.splits if_splits)
  have cap: "captured = \<lparr>psn_repositoryVersion = rsn_Version snapshot, psn_input = input\<rparr>"
    using captured(1) by (auto simp: NewPlanningSnapshot_def split: if_splits option.splits)
  have inv: "mem_inv ?c" by (rule committed_inv [OF assms(8,7)])
  have docs: "live ?c ?s ResourcePlanningRun runID = Some e" "live ?c ?s ResourcePlanningSnapshot runID = Some d"
    using live_committed_mem [OF assms(7), of "create (service_Key ?s ResourcePlanningRun runID) 0 e"]
      live_committed_mem [OF assms(7), of "create (service_Key ?s ResourcePlanningSnapshot runID) 0 d"] by (simp_all add: ms)
  obtain r1 r2 where r: "live_resource later (service_Key ?s ResourcePlanningRun runID) = Some r1" "rsc_Payload r1 = Some e"
    "live_resource later (service_Key ?s ResourcePlanningSnapshot runID) = Some r2" "rsc_Payload r2 = Some d"
    using docs live_resource_snapshot [OF inv assms(9)] by (auto simp: live_def split: option.splits if_splits)
  have "decodePlanningRun (Some e) = Inr (run\<lparr>prn_StorageVersion := 0\<rparr>)"
    by (rule decode_encodePlanningRun [OF run(1)])
      (use assms(3,4,6) run(2,4,5) fingerprint_text(1) [OF input(2)] in \<open>auto simp: wire_snapshot_def wire_policy_def\<close>)
  moreover have "decodePlanningSnapshot sha256 (Some d) = Inr captured"
    by (rule decode_encodePlanningSnapshot [OF captured assms(3,5)])
  ultimately have "load_run sha256 later ?s runID = Inr (run\<lparr>prn_StorageVersion := rsc_Version r1\<rparr>, captured)"
    using r run input(2) assms(6) by (simp add: load_run_def cap MatchmakingInput_def)
  with run cap show ?thesis by auto
qed

text \<open>A capture on a concrete store.\<close>

definition ex_demand_store :: store where
  "ex_demand_store = hd (fst (serve_all ex_hash ex_pair_plan ex_digest shared_repository (take 3 ex_calls) ([NewMemoryBackend], [])))"

definition ex_capture_op :: Operation where
  "ex_capture_op = \<lparr>op_Scope = ''s'', op_ID = ''o9'', op_Kind = ''planning_run.capture'', op_Digest = [1], op_At = 10\<rparr>"

definition ex_snapshot_of :: "store \<Rightarrow> document RepositorySnapshot" where
  "ex_snapshot_of b = projr (Memory_Snapshot ''s'' b)"

definition ex_capture :: "store \<Rightarrow> document Mutation list" where
  "ex_capture b = projr (capture_mutations ex_hash (ex_snapshot_of b) ''s'' ''run'' ''v1'' 10)"

definition ex_input :: "store \<Rightarrow> MatchmakingSnapshot \<times> PolicyFingerprint" where
  "ex_input b = projr (planningInput ex_hash (ex_snapshot_of b) ''s'' ''run'' ''v1'' 10)"

lemma ex_capture_facts:
  "capture_mutations ex_hash (ex_snapshot_of ex_demand_store) ''s'' ''run'' ''v1'' 10 = Inr (ex_capture ex_demand_store)"
  "planningInput ex_hash (ex_snapshot_of ex_demand_store) ''s'' ''run'' ''v1'' 10 = Inr (ex_input ex_demand_store)"
  "wire_snapshot (fst (ex_input ex_demand_store))" "pol_Version (snap_Policy (fst (ex_input ex_demand_store))) = ''v1''"
  "map mt_ID (snap_MatchTickets (fst (ex_input ex_demand_store))) = [''a'', ''b'']"
  "effective ex_capture_op (ex_capture ex_demand_store) ex_demand_store"
  "Memory_Snapshot ''s'' (committed ex_capture_op (ex_capture ex_demand_store) ex_demand_store) =
     Inr (ex_snapshot_of (committed ex_capture_op (ex_capture ex_demand_store) ex_demand_store))"
proof -
  have "let b = ex_demand_store in \<not> isl (capture_mutations ex_hash (ex_snapshot_of b) ''s'' ''run'' ''v1'' 10) \<and>
      \<not> isl (planningInput ex_hash (ex_snapshot_of b) ''s'' ''run'' ''v1'' 10) \<and> wire_snapshot (fst (ex_input b)) \<and>
      pol_Version (snap_Policy (fst (ex_input b))) = ''v1'' \<and> map mt_ID (snap_MatchTickets (fst (ex_input b))) = [''a'', ''b''] \<and>
      effective ex_capture_op (ex_capture b) b \<and> \<not> isl (Memory_Snapshot ''s'' (committed ex_capture_op (ex_capture b) b))"
    by code_simp
  then show "capture_mutations ex_hash (ex_snapshot_of ex_demand_store) ''s'' ''run'' ''v1'' 10 = Inr (ex_capture ex_demand_store)"
    "planningInput ex_hash (ex_snapshot_of ex_demand_store) ''s'' ''run'' ''v1'' 10 = Inr (ex_input ex_demand_store)"
    "wire_snapshot (fst (ex_input ex_demand_store))" "pol_Version (snap_Policy (fst (ex_input ex_demand_store))) = ''v1''"
    "map mt_ID (snap_MatchTickets (fst (ex_input ex_demand_store))) = [''a'', ''b'']"
    "effective ex_capture_op (ex_capture ex_demand_store) ex_demand_store"
    "Memory_Snapshot ''s'' (committed ex_capture_op (ex_capture ex_demand_store) ex_demand_store) =
       Inr (ex_snapshot_of (committed ex_capture_op (ex_capture ex_demand_store) ex_demand_store))"
    by (simp_all add: Let_def ex_capture_def ex_input_def ex_snapshot_of_def sum.exhaust_sel)
qed

theorem captured_run_resumes_witness:
  "\<exists>run. load_run ex_hash (ex_snapshot_of (committed ex_capture_op (ex_capture ex_demand_store) ex_demand_store)) ''s'' ''run'' =
      Inr (run, \<lparr>psn_repositoryVersion = rsn_Version (ex_snapshot_of ex_demand_store), psn_input = fst (ex_input ex_demand_store)\<rparr>) \<and>
    map mt_ID (snap_MatchTickets (fst (ex_input ex_demand_store))) = [''a'', ''b'']"
proof -
  have wire: "\<forall>call\<in>set (take 3 ex_calls). wire_call call" using ex_calls_wire by (meson in_set_takeD)
  have h: "history ex_hash (fst (serve_all ex_hash ex_pair_plan ex_digest shared_repository (take 3 ex_calls) ([NewMemoryBackend], [])))"
    using shared.serve_all_valid [OF wire start_valid [of "[]"]] by (simp add: shared_valid_def)
  with history_inv [OF h] history_nonempty [OF h] have inv: "mem_inv ex_demand_store"
    by (simp add: ex_demand_store_def service_inv_def)
  have op: "op_Scope ex_capture_op = ''s''" by (simp add: ex_capture_op_def)
  have utf8: "valid_utf8 ''run''" by code_simp
  obtain input fp where input: "ex_input ex_demand_store = (input, fp)" by fastforce
  note facts = ex_capture_facts [unfolded input fst_conv, folded op]
  from captured_run_resumes [OF facts(1-3) utf8 _ facts(4,6) inv facts(7)] facts(5) input op show ?thesis
    by (auto simp: ex_hash_def)
qed

end
