(* ===== verification/Durable_Journal.thy ===== *)
theory Durable_Journal
  imports Engine Service_Codec
begin

text \<open>
  The journal of the durable runtime, \<open>src/internal/durable/event.go\<close>, \<open>journal.go\<close> and \<open>audit.go\<close>:
  the events, the checksummed records, the file they are appended to, recovery of the records from the
  file, and replay of the records into an engine.

  The file. Its bytes are seen as complete lines and a tail: the bytes after the last newline, of which
  only the number matters. A complete line is blank, or the text of a record, or something the decoder
  refuses; \<open>Loose\<close> is a record with fields the strict decoder of the read-only import refuses. Each
  system call may fail; the \<open>io\<close> record that an operation takes says which of its calls do, and how
  many bytes each \<open>Write\<close> takes. Reading back sees what was written, synced or not.

  The text. A payload is the value of the event it encodes, as in \<open>Service_Codec\<close>; a record whose payload
  does not decode into the struct of its kind has a \<open>Foreign\<close> body. The checksum is the hexadecimal
  SHA-256 of a JSON text. The function \<open>env_digest\<close> stands for it, applied to the document instead
  of its text, and \<open>env_line_size\<close> for the number of bytes of a record's line.
\<close>

section \<open>Events\<close>

record planCompletedEvent =
  pce_SnapshotID :: SnapshotID
  pce_Now :: Time
  pce_PolicyVersion :: string
  pce_Proposals :: "MatchProposal list"
  pce_Unmatched :: "UnmatchedTicket list"
  pce_UnmatchedTickets :: nat
  pce_UnmatchedDigest :: string
  pce_BudgetExhausted :: bool
  pce_Evidence :: BatchScoreEvidence

datatype event =
    RuntimeConfigured Duration
  | PolicyRegistered MatchmakingPolicy
  | MatchTicketSubmitted MatchTicket
  | BackfillSubmitted BackfillTicket
  | MatchTicketCancelled TicketID Revision
  | BackfillCancelled TicketID Revision Revision
  | PlanCompleted planCompletedEvent
  | ProposalReserved MatchProposal ReservationID Time
  | ReservationConfirmedEvent ReservationID AssignmentID Time
  | ReservationCancelledEvent ReservationID Time
  | AssignmentAcknowledged AssignmentID AssignmentAcknowledgmentRequest Time

fun event_kind :: "event \<Rightarrow> string" where
  "event_kind (RuntimeConfigured ttl) = ''runtime_configured''"
| "event_kind (PolicyRegistered policy) = ''policy_registered''"
| "event_kind (MatchTicketSubmitted ticket) = ''match_ticket_submitted''"
| "event_kind (BackfillSubmitted ticket) = ''backfill_ticket_submitted''"
| "event_kind (MatchTicketCancelled ticketID revision) = ''match_ticket_cancelled''"
| "event_kind (BackfillCancelled ticketID revision rosterVersion) = ''backfill_ticket_cancelled''"
| "event_kind (PlanCompleted plan) = ''plan_completed''"
| "event_kind (ProposalReserved proposal reservationID now) = ''proposal_reserved''"
| "event_kind (ReservationConfirmedEvent reservationID assignmentID now) = ''reservation_confirmed''"
| "event_kind (ReservationCancelledEvent reservationID now) = ''reservation_cancelled''"
| "event_kind (AssignmentAcknowledged assignmentID request now) = ''assignment_acknowledged''"

lemma event_kind_nonempty [simp]: "event_kind event \<noteq> []"
  by (cases event) simp_all

text \<open>What \<open>json.Marshal\<close> and \<open>json.Unmarshal\<close> make of an event: nothing when a time has no text.\<close>

definition json_policy :: "MatchmakingPolicy \<Rightarrow> MatchmakingPolicy" where
  "json_policy policy =
     policy\<lparr>pol_Version := json_string (pol_Version policy),
       pol_RoleRequirements := map json_requirement (pol_RoleRequirements policy)\<rparr>"

definition json_match_ticket :: "MatchTicket \<Rightarrow> MatchTicket" where
  "json_match_ticket ticket =
     ticket\<lparr>mt_ID := json_string (mt_ID ticket), mt_Players := map json_player (mt_Players ticket)\<rparr>"

definition json_backfill_ticket :: "BackfillTicket \<Rightarrow> BackfillTicket" where
  "json_backfill_ticket ticket =
     ticket\<lparr>bt_ID := json_string (bt_ID ticket), bt_SessionID := json_string (bt_SessionID ticket),
       bt_ExistingTeams := map json_team_summary (bt_ExistingTeams ticket)\<rparr>"

definition json_unmatched :: "UnmatchedTicket \<Rightarrow> UnmatchedTicket" where
  "json_unmatched unmatched = unmatched\<lparr>um_Ticket := json_ref (um_Ticket unmatched)\<rparr>"

definition json_plan :: "planCompletedEvent \<Rightarrow> planCompletedEvent" where
  "json_plan plan =
     plan\<lparr>pce_SnapshotID := json_string (pce_SnapshotID plan), pce_PolicyVersion := json_string (pce_PolicyVersion plan),
       pce_Proposals := map json_proposal (pce_Proposals plan), pce_Unmatched := map json_unmatched (pce_Unmatched plan),
       pce_UnmatchedDigest := json_string (pce_UnmatchedDigest plan)\<rparr>"

definition json_request :: "AssignmentAcknowledgmentRequest \<Rightarrow> AssignmentAcknowledgmentRequest" where
  "json_request request =
     request\<lparr>req_OperationID := json_string (req_OperationID request), req_Outcome := json_outcome (req_Outcome request),
       req_SessionID := json_string (req_SessionID request), req_FailureCode := json_code (req_FailureCode request),
       req_Reason := json_string (req_Reason request)\<rparr>"

fun json_event :: "event \<Rightarrow> event option" where
  "json_event (RuntimeConfigured ttl) = Some (RuntimeConfigured ttl)"
| "json_event (PolicyRegistered policy) = Some (PolicyRegistered (json_policy policy))"
| "json_event (MatchTicketSubmitted ticket) =
     (if json_time (mt_EnqueuedAt ticket) then Some (MatchTicketSubmitted (json_match_ticket ticket)) else None)"
| "json_event (BackfillSubmitted ticket) =
     (if json_time (bt_EnqueuedAt ticket) then Some (BackfillSubmitted (json_backfill_ticket ticket)) else None)"
| "json_event (MatchTicketCancelled ticketID revision) = Some (MatchTicketCancelled (json_string ticketID) revision)"
| "json_event (BackfillCancelled ticketID revision rosterVersion) =
     Some (BackfillCancelled (json_string ticketID) revision rosterVersion)"
| "json_event (PlanCompleted plan) = (if json_time (pce_Now plan) then Some (PlanCompleted (json_plan plan)) else None)"
| "json_event (ProposalReserved proposal reservationID now) =
     (if json_time now then Some (ProposalReserved (json_proposal proposal) (json_string reservationID) now) else None)"
| "json_event (ReservationConfirmedEvent reservationID assignmentID now) =
     (if json_time now then Some (ReservationConfirmedEvent (json_string reservationID) (json_string assignmentID) now) else None)"
| "json_event (ReservationCancelledEvent reservationID now) =
     (if json_time now then Some (ReservationCancelledEvent (json_string reservationID) now) else None)"
| "json_event (AssignmentAcknowledged assignmentID request now) =
     (if json_time now then Some (AssignmentAcknowledged (json_string assignmentID) (json_request request) now) else None)"

section \<open>Records\<close>

datatype body = Body event | Foreign string bool

text \<open>\<open>Foreign kind present\<close>: the payload is absent when \<open>present\<close> is false.\<close>

record unsignedRecord =
  jr_Schema :: string
  jr_Sequence :: "64 word"
  jr_Body :: body

record Record = unsignedRecord +
  jr_Checksum :: string

datatype line = Blank | Line Record | Loose Record | Undecodable

datatype journal_text =
    UnsignedText unsignedRecord
  | UnmatchedText "UnmatchedTicket list"
  | FileText "line list"

record journal_env =
  env_sha256 :: hash
  env_digest :: "journal_text \<Rightarrow> string"
  env_line_size :: "Record \<Rightarrow> nat"

fun body_kind :: "body \<Rightarrow> string" where
  "body_kind (Body event) = event_kind event"
| "body_kind (Foreign kind present) = kind"

fun body_present :: "body \<Rightarrow> bool" where
  "body_present (Body event) = True"
| "body_present (Foreign kind present) = present"

definition jr_Kind :: "Record \<Rightarrow> string" where
  "jr_Kind r = body_kind (jr_Body r)"

datatype durable_error =
    DomainFailure FailureCode
  | PathRequired
  | IOFailed
  | JournalClosed
  | EncodeFailed
  | RecordUndecodable
  | SchemaUnsupported
  | SequenceMismatch
  | KindOrPayloadMissing
  | ChecksumMismatch
  | PayloadUndecodable
  | ConfigurationMissing
  | ConfigurationRepeated
  | TTLMismatch
  | KindUnsupported
  | PlanIncomplete
  | UnmatchedDigestMismatch
  | PlanConflict
  | ProposalConflict
  | RuntimeClosed
  | NeedsOperatorRecovery durable_error
  | Joined durable_error durable_error
  | AuditLimitInvalid
  | LegacyInvalid

type_synonym 'a durable = "durable_error + 'a"

definition journalSchema :: string where
  "journalSchema = ''sema-journal-v1''"

definition encodeRecord :: "journal_env \<Rightarrow> 64 word \<Rightarrow> event \<Rightarrow> Record" where
  "encodeRecord env sequence payload =
     (let plain = \<lparr>jr_Schema = journalSchema, jr_Sequence = sequence, jr_Body = Body payload\<rparr>
      in \<lparr>jr_Schema = jr_Schema plain, jr_Sequence = jr_Sequence plain, jr_Body = jr_Body plain,
          jr_Checksum = env_digest env (UnsignedText plain)\<rparr>)"

definition unsigned_part :: "Record \<Rightarrow> unsignedRecord" where
  "unsigned_part r = \<lparr>jr_Schema = jr_Schema r, jr_Sequence = jr_Sequence r, jr_Body = jr_Body r\<rparr>"

definition validateRecord :: "journal_env \<Rightarrow> Record \<Rightarrow> 64 word \<Rightarrow> durable_error option" where
  "validateRecord env r expectedSequence =
     (if jr_Schema r \<noteq> journalSchema then Some SchemaUnsupported
      else if jr_Sequence r \<noteq> expectedSequence then Some SequenceMismatch
      else if jr_Kind r = '''' \<or> \<not> body_present (jr_Body r) then Some KindOrPayloadMissing
      else if jr_Checksum r \<noteq> env_digest env (UnsignedText (unsigned_part r)) then Some ChecksumMismatch
      else None)"

section \<open>The file\<close>

record journalFile =
  file_lines :: "line list"
  file_tail :: nat

record io =
  io_open :: bool
  io_stat :: bool
  io_seek :: bool
  io_writes :: "(nat \<times> bool) list"
  io_sync :: bool
  io_rollback_truncate :: bool
  io_rollback_seek :: bool
  io_rollback_sync :: bool
  io_reload_seek :: bool
  io_reload_read :: bool
  io_reload_truncate :: bool
  io_reload_sync :: bool
  io_reload_seek_end :: bool
  io_close :: bool

text \<open>
  \<open>writeFull\<close>: how many bytes reach the file and whether the loop ends without an error. Each \<open>Write\<close>
  reports how many bytes it took and whether it failed; when the script is used up, a \<open>Write\<close> takes the rest.
\<close>

fun writeFull :: "(nat \<times> bool) list \<Rightarrow> nat \<Rightarrow> nat \<times> bool" where
  "writeFull writes 0 = (0, True)"
| "writeFull [] (Suc rest) = (Suc rest, True)"
| "writeFull ((taken, fails) # writes) (Suc rest) =
     (let nbytes = min taken (Suc rest)
      in if fails then (nbytes, False)
         else if nbytes = 0 then (0, False)
         else (case writeFull writes (Suc rest - nbytes) of (further, fine) \<Rightarrow> (nbytes + further, fine)))"

text \<open>The bytes of a record's line and its newline, put at the end of the file.\<close>

definition put_bytes :: "journal_env \<Rightarrow> Record \<Rightarrow> nat \<Rightarrow> journalFile \<Rightarrow> journalFile" where
  "put_bytes env r nbytes file =
     (if nbytes = Suc (env_line_size env r)
      then file\<lparr>file_lines := file_lines file @ [if file_tail file = 0 then Line r else Undecodable], file_tail := 0\<rparr>
      else file\<lparr>file_tail := file_tail file + nbytes\<rparr>)"

record journal =
  jn_file :: journalFile
  jn_records :: "Record list"
  jn_closed :: bool

definition rollbackAppend :: "io \<Rightarrow> journalFile \<Rightarrow> durable_error \<Rightarrow> journalFile \<Rightarrow> durable_error \<times> journalFile" where
  "rollbackAppend io before appendErr nbytes =
     (if \<not> io_rollback_truncate io then (Joined appendErr IOFailed, nbytes)
      else if \<not> io_rollback_seek io then (Joined appendErr IOFailed, before)
      else if \<not> io_rollback_sync io then (Joined appendErr IOFailed, before)
      else (appendErr, before))"

definition journal_append :: "journal_env \<Rightarrow> io \<Rightarrow> event \<Rightarrow> journal \<Rightarrow> durable_error option \<times> journal" where
  "journal_append env io payload journal =
     (if jn_closed journal then (Some JournalClosed, journal)
      else (case json_event payload of
              None \<Rightarrow> (Some EncodeFailed, journal)
            | Some payloadJSON \<Rightarrow>
                let r = encodeRecord env (of_nat (length (jn_records journal) + 1)) payloadJSON
                in if \<not> io_stat io \<or> \<not> io_seek io then (Some IOFailed, journal)
                   else (case writeFull (io_writes io) (Suc (env_line_size env r)) of
                           (nbytes, fine) \<Rightarrow>
                             let file = put_bytes env r nbytes (jn_file journal)
                             in if \<not> fine \<or> \<not> io_sync io
                                then (case rollbackAppend io (jn_file journal) IOFailed file of
                                        (e, file) \<Rightarrow> (Some e, journal\<lparr>jn_file := file\<rparr>))
                                else (None, journal\<lparr>jn_file := file, jn_records := jn_records journal @ [r]\<rparr>))))"

text \<open>
  \<open>recoverRecords\<close>: drop the tail, decode and check the lines. A failing call may leave the file
  with or without its tail.
\<close>

fun decode_line :: "line \<Rightarrow> Record durable option" where
  "decode_line Blank = None"
| "decode_line (Line r) = Some (Inr r)"
| "decode_line (Loose r) = Some (Inr r)"
| "decode_line Undecodable = Some (Inl RecordUndecodable)"

fun recover_lines :: "journal_env \<Rightarrow> (line \<Rightarrow> Record durable option) \<Rightarrow> Record list \<Rightarrow> line list \<Rightarrow> Record list durable" where
  "recover_lines env decode records [] = Inr records"
| "recover_lines env decode records (line # rest) =
     (case decode line of
        None \<Rightarrow> recover_lines env decode records rest
      | Some (Inl e) \<Rightarrow> Inl e
      | Some (Inr r) \<Rightarrow>
          (case validateRecord env r (of_nat (length records + 1)) of
             Some e \<Rightarrow> Inl e
           | None \<Rightarrow> recover_lines env decode (records @ [r]) rest))"

definition recoverRecords :: "journal_env \<Rightarrow> io \<Rightarrow> journalFile \<Rightarrow> Record list durable \<times> journalFile" where
  "recoverRecords env io file =
     (if \<not> io_reload_seek io \<or> \<not> io_reload_read io then (Inl IOFailed, file)
      else if file_tail file > 0 \<and> \<not> io_reload_truncate io then (Inl IOFailed, file)
      else let complete = file\<lparr>file_tail := 0\<rparr>
           in if file_tail file > 0 \<and> \<not> io_reload_sync io then (Inl IOFailed, complete)
              else (recover_lines env decode_line [] (file_lines complete), complete))"

text \<open>
  \<open>openJournal\<close>: \<open>io_open\<close> says that the directory and the file were there or created, its mode set,
  and the lock taken. The path matters only by being given.
\<close>

definition openJournal :: "journal_env \<Rightarrow> io \<Rightarrow> string \<Rightarrow> journalFile \<Rightarrow> journal durable \<times> journalFile" where
  "openJournal env io path file =
     (if path = '''' then (Inl PathRequired, file)
      else if \<not> io_open io then (Inl IOFailed, file)
      else (case recoverRecords env io file of
              (Inl e, file) \<Rightarrow> (Inl e, file)
            | (Inr records, file) \<Rightarrow>
                if \<not> io_reload_seek_end io then (Inl IOFailed, file)
                else (Inr \<lparr>jn_file = file, jn_records = records, jn_closed = False\<rparr>, file)))"

definition journal_reload :: "journal_env \<Rightarrow> io \<Rightarrow> journal \<Rightarrow> Record list durable \<times> journal" where
  "journal_reload env io journal =
     (if jn_closed journal then (Inl JournalClosed, journal)
      else (case recoverRecords env io (jn_file journal) of
              (Inl e, file) \<Rightarrow> (Inl e, journal\<lparr>jn_file := file\<rparr>)
            | (Inr records, file) \<Rightarrow>
                if \<not> io_reload_seek_end io then (Inl IOFailed, journal\<lparr>jn_file := file\<rparr>)
                else (Inr records, journal\<lparr>jn_file := file, jn_records := records\<rparr>)))"

definition journal_Close :: "io \<Rightarrow> journal \<Rightarrow> durable_error option \<times> journal" where
  "journal_Close io journal =
     (if jn_closed journal then (None, journal)
      else (if io_close io then None else Some IOFailed, journal\<lparr>jn_closed := True\<rparr>))"

section \<open>Replay\<close>

definition decodePayload :: "Record \<Rightarrow> event durable" where
  "decodePayload r = (case jr_Body r of Body event \<Rightarrow> Inr event | Foreign kind present \<Rightarrow> Inl PayloadUndecodable)"

definition drop_answer :: "'a result \<times> Engine \<Rightarrow> Engine durable" where
  "drop_answer step = (case step of (Inl e, engine) \<Rightarrow> Inl (DomainFailure e) | (Inr answer, engine) \<Rightarrow> Inr engine)"

definition error_answer :: "go_error \<times> Engine \<Rightarrow> Engine durable" where
  "error_answer step = (case step of (Some e, engine) \<Rightarrow> Inl (DomainFailure e) | (None, engine) \<Rightarrow> Inr engine)"

fun replay_event :: "hash \<Rightarrow> Engine \<Rightarrow> event \<Rightarrow> Engine durable" where
  "replay_event sha256 engine (RuntimeConfigured ttl) = Inl KindUnsupported"
| "replay_event sha256 engine (PolicyRegistered policy) = drop_answer (RegisterPolicy sha256 policy engine)"
| "replay_event sha256 engine (MatchTicketSubmitted ticket) = error_answer (SubmitMatchTicket ticket engine)"
| "replay_event sha256 engine (BackfillSubmitted ticket) = error_answer (SubmitBackfillTicket ticket engine)"
| "replay_event sha256 engine (MatchTicketCancelled ticketID revision) =
     error_answer (Engine_CancelMatchTicket ticketID revision engine)"
| "replay_event sha256 engine (BackfillCancelled ticketID revision rosterVersion) =
     error_answer (Engine_CancelBackfillTicket ticketID revision rosterVersion engine)"
| "replay_event sha256 engine (PlanCompleted plan) = Inr engine"
| "replay_event sha256 engine (ProposalReserved proposal reservationID now) =
     drop_answer (Engine_Reserve proposal reservationID now engine)"
| "replay_event sha256 engine (ReservationConfirmedEvent reservationID assignmentID now) =
     drop_answer (Engine_Confirm reservationID assignmentID now engine)"
| "replay_event sha256 engine (ReservationCancelledEvent reservationID now) =
     drop_answer (CancelReservation reservationID now engine)"
| "replay_event sha256 engine (AssignmentAcknowledged assignmentID request now) =
     drop_answer (Engine_AcknowledgeAssignment assignmentID request now engine)"

definition known_kinds :: "string list" where
  "known_kinds = [''policy_registered'', ''match_ticket_submitted'', ''backfill_ticket_submitted'',
     ''match_ticket_cancelled'', ''backfill_ticket_cancelled'', ''plan_completed'', ''proposal_reserved'',
     ''reservation_confirmed'', ''reservation_cancelled'', ''assignment_acknowledged'']"

definition replayRecord :: "hash \<Rightarrow> Engine \<Rightarrow> Record \<Rightarrow> Engine durable" where
  "replayRecord sha256 engine r =
     (if jr_Kind r \<notin> set known_kinds then Inl KindUnsupported
      else (case decodePayload r of Inl e \<Rightarrow> Inl e | Inr event \<Rightarrow> replay_event sha256 engine event))"

fun replay_records :: "hash \<Rightarrow> Duration \<Rightarrow> nat \<Rightarrow> Engine \<Rightarrow> Record list \<Rightarrow> Engine durable" where
  "replay_records sha256 reservationTTL index engine [] = Inr engine"
| "replay_records sha256 reservationTTL index engine (r # rest) =
     (if jr_Kind r = ''runtime_configured''
      then if index \<noteq> 0 then Inl ConfigurationRepeated
           else (case decodePayload r of
                   Inr (RuntimeConfigured reservationTTLNanos) \<Rightarrow>
                     if reservationTTLNanos \<noteq> reservationTTL then Inl TTLMismatch
                     else replay_records sha256 reservationTTL (Suc index) engine rest
                 | _ \<Rightarrow> Inl PayloadUndecodable)
      else (case replayRecord sha256 engine r of
              Inl e \<Rightarrow> Inl e
            | Inr engine \<Rightarrow> replay_records sha256 reservationTTL (Suc index) engine rest))"

definition replay :: "hash \<Rightarrow> Duration \<Rightarrow> Record list \<Rightarrow> Engine durable" where
  "replay sha256 reservationTTL records =
     (if records = [] \<or> jr_Kind (hd records) \<noteq> ''runtime_configured'' then Inl ConfigurationMissing
      else (case Engine_New reservationTTL of
              Inl e \<Rightarrow> Inl (DomainFailure e)
            | Inr engine \<Rightarrow> replay_records sha256 reservationTTL 0 engine records))"

section \<open>Plans\<close>

definition digestUnmatched :: "journal_env \<Rightarrow> UnmatchedTicket list \<Rightarrow> string" where
  "digestUnmatched env unmatched = env_digest env (UnmatchedText (map json_unmatched unmatched))"

definition newPlanCompletedEvent ::
  "journal_env \<Rightarrow> SnapshotID \<Rightarrow> Time \<Rightarrow> string \<Rightarrow> ProposalBatch \<Rightarrow> planCompletedEvent" where
  "newPlanCompletedEvent env snapshotID now policyVersion batch =
     \<lparr>pce_SnapshotID = snapshotID, pce_Now = now, pce_PolicyVersion = policyVersion,
      pce_Proposals = map CloneProposal (batch_Proposals batch), pce_Unmatched = batch_Unmatched batch,
      pce_UnmatchedTickets = length (batch_Unmatched batch),
      pce_UnmatchedDigest = digestUnmatched env (batch_Unmatched batch),
      pce_BudgetExhausted = batch_BudgetExhausted batch, pce_Evidence = batch_Evidence batch\<rparr>"

definition clonePlanEvent :: "planCompletedEvent \<Rightarrow> planCompletedEvent" where
  "clonePlanEvent event = event\<lparr>pce_Proposals := map CloneProposal (pce_Proposals event), pce_Unmatched := pce_Unmatched event\<rparr>"

definition batchFromPlanEvent :: "planCompletedEvent \<Rightarrow> ProposalBatch" where
  "batchFromPlanEvent event =
     (let cloned = clonePlanEvent event
      in \<lparr>batch_SnapshotID = pce_SnapshotID cloned, batch_Proposals = pce_Proposals cloned,
          batch_Unmatched = pce_Unmatched cloned, batch_BudgetExhausted = pce_BudgetExhausted cloned,
          batch_Evidence = pce_Evidence cloned\<rparr>)"

definition check_plan ::
  "journal_env \<Rightarrow> (SnapshotID, planCompletedEvent) go_map \<Rightarrow> planCompletedEvent \<Rightarrow> durable_error option" where
  "check_plan env plans event =
     (if pce_SnapshotID event = '''' \<or> length (pce_Unmatched event) \<noteq> pce_UnmatchedTickets event then Some PlanIncomplete
      else if digestUnmatched env (pce_Unmatched event) \<noteq> pce_UnmatchedDigest event then Some UnmatchedDigestMismatch
      else (case map_of plans (pce_SnapshotID event) of
              None \<Rightarrow> None
            | Some existing \<Rightarrow> if existing \<noteq> event then Some PlanConflict else None))"

fun plans_from_records ::
  "journal_env \<Rightarrow> (SnapshotID, planCompletedEvent) go_map \<Rightarrow> Record list \<Rightarrow> (SnapshotID, planCompletedEvent) go_map durable" where
  "plans_from_records env plans [] = Inr plans"
| "plans_from_records env plans (r # rest) =
     (if jr_Kind r \<noteq> ''plan_completed'' then plans_from_records env plans rest
      else (case decodePayload r of
              Inr (PlanCompleted event) \<Rightarrow>
                (case check_plan env plans event of
                   Some e \<Rightarrow> Inl e
                 | None \<Rightarrow> plans_from_records env (AList.update (pce_SnapshotID event) (clonePlanEvent event) plans) rest)
            | _ \<Rightarrow> Inl PayloadUndecodable))"

definition plansFromRecords :: "journal_env \<Rightarrow> Record list \<Rightarrow> (SnapshotID, planCompletedEvent) go_map durable" where
  "plansFromRecords env records = plans_from_records env [] records"

fun index_proposals ::
  "(ProposalID, MatchProposal) go_map \<Rightarrow> MatchProposal list \<Rightarrow> (ProposalID, MatchProposal) go_map durable" where
  "index_proposals proposals [] = Inr proposals"
| "index_proposals proposals (proposal # rest) =
     (if \<exists>existing\<in>set_option (map_of proposals (prop_ID proposal)). existing \<noteq> proposal then Inl ProposalConflict
      else index_proposals (AList.update (prop_ID proposal) (CloneProposal proposal) proposals) rest)"

fun proposals_from_plans ::
  "(ProposalID, MatchProposal) go_map \<Rightarrow> (SnapshotID \<times> planCompletedEvent) list \<Rightarrow> (ProposalID, MatchProposal) go_map durable" where
  "proposals_from_plans proposals [] = Inr proposals"
| "proposals_from_plans proposals ((snapshotID, event) # rest) =
     (case index_proposals proposals (pce_Proposals event) of
        Inl e \<Rightarrow> Inl e
      | Inr proposals \<Rightarrow> proposals_from_plans proposals rest)"

definition proposalsFromPlans ::
  "(SnapshotID, planCompletedEvent) go_map \<Rightarrow> (ProposalID, MatchProposal) go_map durable" where
  "proposalsFromPlans plans = proposals_from_plans [] plans"

end
