(* ===== verification/Durable.thy ===== *)
theory Durable
  imports Durable_Journal
begin

text \<open>
  The durable runtime, \<open>src/internal/durable/runtime.go\<close> and \<open>audit.go\<close>: the engine behind a journal.
  Each method runs the engine first and then appends the event; when the append fails, the engine and
  the plan indexes are rebuilt from what the file holds, and when that fails too the runtime is
  poisoned. The mutex makes each method one step. A method takes the outcomes of the system calls it
  makes, \<open>io\<close>, and the journal functions' parameters, \<open>env\<close>.
\<close>

section \<open>Opening\<close>

record Runtime =
  rt_reservationTTL :: Duration
  rt_journal :: journal
  rt_engine :: Engine
  rt_plans :: "(SnapshotID, planCompletedEvent) go_map"
  rt_proposals :: "(ProposalID, MatchProposal) go_map"
  rt_closed :: bool
  rt_poisoned :: "durable_error option"

definition defaultAuditLimit :: int where "defaultAuditLimit = 100"
definition maxAuditLimit :: int where "maxAuditLimit = 1000"

text \<open>What \<open>Open\<close> and a failed append rebuild from the records.\<close>

definition rebuild ::
  "journal_env \<Rightarrow> Duration \<Rightarrow> Record list \<Rightarrow>
   (Engine \<times> (SnapshotID, planCompletedEvent) go_map \<times> (ProposalID, MatchProposal) go_map) durable" where
  "rebuild env reservationTTL records =
     (case replay (env_sha256 env) reservationTTL records of
        Inl e \<Rightarrow> Inl e
      | Inr engine \<Rightarrow>
          (case plansFromRecords env records of
             Inl e \<Rightarrow> Inl e
           | Inr plans \<Rightarrow>
               (case proposalsFromPlans plans of Inl e \<Rightarrow> Inl e | Inr proposals \<Rightarrow> Inr (engine, plans, proposals))))"

definition open_runtime :: "journal_env \<Rightarrow> Duration \<Rightarrow> journal \<Rightarrow> Runtime durable" where
  "open_runtime env reservationTTL journal =
     (case rebuild env reservationTTL (jn_records journal) of
        Inl e \<Rightarrow> Inl e
      | Inr (engine, plans, proposals) \<Rightarrow>
          Inr \<lparr>rt_reservationTTL = reservationTTL, rt_journal = journal, rt_engine = engine, rt_plans = plans,
               rt_proposals = proposals, rt_closed = False, rt_poisoned = None\<rparr>)"

text \<open>\<open>Open\<close> gives the runtime, and the file as it leaves it when it fails.\<close>

definition Open :: "journal_env \<Rightarrow> io \<Rightarrow> string \<Rightarrow> Duration \<Rightarrow> journalFile \<Rightarrow> Runtime durable \<times> journalFile" where
  "Open env io path reservationTTL file =
     (if reservationTTL \<le> 0 then (Inl (DomainFailure FailureInvalidInput), file)
      else (case openJournal env io path file of
              (Inl e, file) \<Rightarrow> (Inl e, file)
            | (Inr journal, file) \<Rightarrow>
                (case (if jn_records journal = [] then journal_append env io (RuntimeConfigured reservationTTL) journal
                       else (None, journal)) of
                   (Some e, journal) \<Rightarrow> (Inl e, jn_file journal)
                 | (None, journal) \<Rightarrow> (open_runtime env reservationTTL journal, jn_file journal))))"

section \<open>Persisting\<close>

definition readyLocked :: "Runtime \<Rightarrow> durable_error option" where
  "readyLocked rt =
     (if rt_closed rt then Some RuntimeClosed
      else (case rt_poisoned rt of None \<Rightarrow> None | Some e \<Rightarrow> Some (NeedsOperatorRecovery e)))"

definition persistLocked :: "journal_env \<Rightarrow> io \<Rightarrow> event \<Rightarrow> Runtime \<Rightarrow> durable_error option \<times> Runtime" where
  "persistLocked env io event rt =
     (case journal_append env io event (rt_journal rt) of
        (None, journal) \<Rightarrow> (None, rt\<lparr>rt_journal := journal\<rparr>)
      | (Some e, journal) \<Rightarrow>
          (case journal_reload env io journal of
             (Inl reloadErr, journal) \<Rightarrow>
               (Some (Joined e reloadErr), rt\<lparr>rt_journal := journal, rt_poisoned := Some (Joined e reloadErr)\<rparr>)
           | (Inr records, journal) \<Rightarrow>
               (case rebuild env (rt_reservationTTL rt) records of
                  Inl rebuildErr \<Rightarrow>
                    (Some (Joined e rebuildErr), rt\<lparr>rt_journal := journal, rt_poisoned := Some (Joined e rebuildErr)\<rparr>)
                | Inr (engine, plans, proposals) \<Rightarrow>
                    (Some e, rt\<lparr>rt_journal := journal, rt_engine := engine, rt_plans := plans, rt_proposals := proposals\<rparr>))))"

text \<open>The shape the mutations share: ready, run the engine, persist the event, answer.\<close>

definition mutation ::
  "journal_env \<Rightarrow> io \<Rightarrow> event \<Rightarrow> (Engine \<Rightarrow> 'a result \<times> Engine) \<Rightarrow> Runtime \<Rightarrow> 'a durable \<times> Runtime" where
  "mutation env io event method rt =
     (case readyLocked rt of
        Some e \<Rightarrow> (Inl e, rt)
      | None \<Rightarrow>
          (case method (rt_engine rt) of
             (Inl e, engine) \<Rightarrow> (Inl (DomainFailure e), rt\<lparr>rt_engine := engine\<rparr>)
           | (Inr answer, engine) \<Rightarrow>
               (case persistLocked env io event (rt\<lparr>rt_engine := engine\<rparr>) of
                  (Some e, rt) \<Rightarrow> (Inl e, rt)
                | (None, rt) \<Rightarrow> (Inr answer, rt))))"

text \<open>A Go method that returns only an error.\<close>

definition as_result :: "(Engine \<Rightarrow> go_error \<times> Engine) \<Rightarrow> Engine \<Rightarrow> unit result \<times> Engine" where
  "as_result method engine = (case method engine of (Some e, engine) \<Rightarrow> (Inl e, engine) | (None, engine) \<Rightarrow> (Inr (), engine))"

section \<open>Methods\<close>

definition Runtime_RegisterPolicy :: "journal_env \<Rightarrow> io \<Rightarrow> MatchmakingPolicy \<Rightarrow> Runtime \<Rightarrow> PolicyFingerprint durable \<times> Runtime" where
  "Runtime_RegisterPolicy env io policy =
     (let policy = ClonePolicy policy in mutation env io (PolicyRegistered policy) (RegisterPolicy (env_sha256 env) policy))"

definition Runtime_Policy :: "string \<Rightarrow> Runtime \<Rightarrow> (MatchmakingPolicy \<times> PolicyFingerprint) option durable" where
  "Runtime_Policy version rt = (case readyLocked rt of Some e \<Rightarrow> Inl e | None \<Rightarrow> Inr (Engine_Policy version (rt_engine rt)))"

definition Runtime_SubmitMatchTicket :: "journal_env \<Rightarrow> io \<Rightarrow> MatchTicket \<Rightarrow> Runtime \<Rightarrow> unit durable \<times> Runtime" where
  "Runtime_SubmitMatchTicket env io ticket =
     (let ticket = CloneMatchTicket ticket in mutation env io (MatchTicketSubmitted ticket) (as_result (SubmitMatchTicket ticket)))"

definition Runtime_SubmitBackfillTicket :: "journal_env \<Rightarrow> io \<Rightarrow> BackfillTicket \<Rightarrow> Runtime \<Rightarrow> unit durable \<times> Runtime" where
  "Runtime_SubmitBackfillTicket env io ticket =
     (let ticket = CloneBackfillTicket ticket
      in mutation env io (BackfillSubmitted ticket) (as_result (SubmitBackfillTicket ticket)))"

definition Runtime_CancelMatchTicket :: "journal_env \<Rightarrow> io \<Rightarrow> TicketID \<Rightarrow> Revision \<Rightarrow> Runtime \<Rightarrow> unit durable \<times> Runtime" where
  "Runtime_CancelMatchTicket env io ticketID revision =
     mutation env io (MatchTicketCancelled ticketID revision) (as_result (Engine_CancelMatchTicket ticketID revision))"

definition Runtime_CancelBackfillTicket ::
  "journal_env \<Rightarrow> io \<Rightarrow> TicketID \<Rightarrow> Revision \<Rightarrow> Revision \<Rightarrow> Runtime \<Rightarrow> unit durable \<times> Runtime" where
  "Runtime_CancelBackfillTicket env io ticketID revision rosterVersion =
     mutation env io (BackfillCancelled ticketID revision rosterVersion)
       (as_result (Engine_CancelBackfillTicket ticketID revision rosterVersion))"

definition record_plan :: "planCompletedEvent \<Rightarrow> ProposalBatch \<Rightarrow> Runtime \<Rightarrow> Runtime" where
  "record_plan event batch rt =
     rt\<lparr>rt_plans := AList.update (pce_SnapshotID event) (clonePlanEvent event) (rt_plans rt),
        rt_proposals := foldl (\<lambda>proposals proposal. AList.update (prop_ID proposal) (CloneProposal proposal) proposals)
          (rt_proposals rt) (batch_Proposals batch)\<rparr>"

definition Runtime_Plan ::
  "journal_env \<Rightarrow> io \<Rightarrow> SnapshotID \<Rightarrow> Time \<Rightarrow> string \<Rightarrow> Runtime \<Rightarrow> ProposalBatch durable \<times> Runtime" where
  "Runtime_Plan env io snapshotID now policyVersion rt =
     (case readyLocked rt of
        Some e \<Rightarrow> (Inl e, rt)
      | None \<Rightarrow>
          (case map_of (rt_plans rt) snapshotID of
             Some existing \<Rightarrow>
               if pce_PolicyVersion existing \<noteq> policyVersion then (Inl (DomainFailure FailureIdempotencyConflict), rt)
               else (Inr (batchFromPlanEvent existing), rt)
           | None \<Rightarrow>
               (case Engine_Plan (env_sha256 env) snapshotID now policyVersion (rt_engine rt) of
                  (Inl e, engine) \<Rightarrow> (Inl (DomainFailure e), rt\<lparr>rt_engine := engine\<rparr>)
                | (Inr batch, engine) \<Rightarrow>
                    let event = newPlanCompletedEvent env snapshotID now policyVersion batch
                    in (case persistLocked env io (PlanCompleted event) (rt\<lparr>rt_engine := engine\<rparr>) of
                          (Some e, rt) \<Rightarrow> (Inl e, rt)
                        | (None, rt) \<Rightarrow> (Inr batch, record_plan event batch rt)))))"

definition Runtime_Proposal :: "ProposalID \<Rightarrow> Runtime \<Rightarrow> MatchProposal option durable" where
  "Runtime_Proposal proposalID rt =
     (case readyLocked rt of
        Some e \<Rightarrow> Inl e
      | None \<Rightarrow> Inr (map_option CloneProposal (map_of (rt_proposals rt) proposalID)))"

definition Runtime_Reserve ::
  "journal_env \<Rightarrow> io \<Rightarrow> MatchProposal \<Rightarrow> ReservationID \<Rightarrow> Time \<Rightarrow> Runtime \<Rightarrow> Reservation durable \<times> Runtime" where
  "Runtime_Reserve env io proposal reservationID now =
     (let proposal = CloneProposal proposal
      in mutation env io (ProposalReserved proposal reservationID now) (Engine_Reserve proposal reservationID now))"

definition Runtime_Confirm ::
  "journal_env \<Rightarrow> io \<Rightarrow> ReservationID \<Rightarrow> AssignmentID \<Rightarrow> Time \<Rightarrow> Runtime \<Rightarrow> Assignment durable \<times> Runtime" where
  "Runtime_Confirm env io reservationID assignmentID now =
     mutation env io (ReservationConfirmedEvent reservationID assignmentID now) (Engine_Confirm reservationID assignmentID now)"

definition Runtime_CancelReservation ::
  "journal_env \<Rightarrow> io \<Rightarrow> ReservationID \<Rightarrow> Time \<Rightarrow> Runtime \<Rightarrow> Reservation durable \<times> Runtime" where
  "Runtime_CancelReservation env io reservationID now =
     mutation env io (ReservationCancelledEvent reservationID now) (CancelReservation reservationID now)"

definition Runtime_AcknowledgeAssignment ::
  "journal_env \<Rightarrow> io \<Rightarrow> AssignmentID \<Rightarrow> AssignmentAcknowledgmentRequest \<Rightarrow> Time \<Rightarrow> Runtime \<Rightarrow> Assignment durable \<times> Runtime" where
  "Runtime_AcknowledgeAssignment env io assignmentID request now =
     mutation env io (AssignmentAcknowledged assignmentID request now) (Engine_AcknowledgeAssignment assignmentID request now)"

definition Runtime_Assignment :: "AssignmentID \<Rightarrow> Runtime \<Rightarrow> Assignment option durable" where
  "Runtime_Assignment assignmentID rt =
     (case readyLocked rt of Some e \<Rightarrow> Inl e | None \<Rightarrow> Inr (Engine_Assignment assignmentID (rt_engine rt)))"

definition Runtime_Ready :: "Runtime \<Rightarrow> durable_error option" where
  "Runtime_Ready rt = readyLocked rt"

definition Runtime_Close :: "io \<Rightarrow> Runtime \<Rightarrow> durable_error option \<times> Runtime" where
  "Runtime_Close io rt =
     (if rt_closed rt then (None, rt)
      else (case journal_Close io (rt_journal rt) of
              (e, journal) \<Rightarrow> (e, rt\<lparr>rt_closed := True, rt_journal := journal\<rparr>)))"

section \<open>Audit\<close>

fun audit_page :: "64 word \<Rightarrow> nat \<Rightarrow> Record list \<Rightarrow> Record list \<Rightarrow> Record list" where
  "audit_page after limit page [] = page"
| "audit_page after limit page (r # rest) =
     (if jr_Sequence r \<le> after then audit_page after limit page rest
      else if length (page @ [r]) = limit then page @ [r]
      else audit_page after limit (page @ [r]) rest)"

definition Runtime_Audit :: "64 word \<Rightarrow> int \<Rightarrow> Runtime \<Rightarrow> Record list durable" where
  "Runtime_Audit after limit rt =
     (case readyLocked rt of
        Some e \<Rightarrow> Inl e
      | None \<Rightarrow>
          let limit = (if limit = 0 then defaultAuditLimit else limit)
          in if limit < 0 \<or> limit > maxAuditLimit then Inl AuditLimitInvalid
             else Inr (audit_page after (nat limit) [] (jn_records (rt_journal rt))))"

record AuditSummary =
  as_Sequence :: "64 word"
  as_Kind :: string
  as_Checksum :: string
  as_Counts :: "(string, int) go_map"
  as_Flags :: "(string, bool) go_map"
  as_Outcome :: string

fun AssignmentStatus_string :: "AssignmentStatus \<Rightarrow> string" where
  "AssignmentStatus_string AssignmentPending = ''pending''"
| "AssignmentStatus_string AssignmentCompleted = ''completed''"
| "AssignmentStatus_string AssignmentCancelled = ''cancelled''"
| "AssignmentStatus_string AssignmentFailed = ''failed''"
| "AssignmentStatus_string (AssignmentStatusOther s) = s"

text \<open>The counts, flags and outcome of an event. Go replaces an empty map by nil, which reads the same.\<close>

fun summarize_event :: "event \<Rightarrow> (string, int) go_map \<times> (string, bool) go_map \<times> string" where
  "summarize_event (RuntimeConfigured ttl) = ([], [], '''')"
| "summarize_event (PolicyRegistered policy) =
     ([(''role_requirements'', int (length (pol_RoleRequirements policy))),
       (''relaxation_steps'', int (length (pol_RelaxationSteps policy)))], [], '''')"
| "summarize_event (MatchTicketSubmitted ticket) = ([(''players'', int (length (mt_Players ticket)))], [], '''')"
| "summarize_event (BackfillSubmitted ticket) =
     (AList.update ''teams'' (int (length (bt_OpenSlotsByTeam ticket)))
        (foldl (\<lambda>counts slots. AList.update ''open_slots'' (i64 (map_get 0 counts ''open_slots'' + slots)) counts) []
           (bt_OpenSlotsByTeam ticket)), [], '''')"
| "summarize_event (MatchTicketCancelled ticketID revision) = ([], [], '''')"
| "summarize_event (BackfillCancelled ticketID revision rosterVersion) = ([], [], '''')"
| "summarize_event (PlanCompleted plan) =
     ([(''proposals'', int (length (pce_Proposals plan))), (''unmatched_tickets'', int (pce_UnmatchedTickets plan))],
      [(''budget_exhausted'', pce_BudgetExhausted plan)], '''')"
| "summarize_event (ProposalReserved proposal reservationID now) =
     ([(''tickets'', int (length (prop_Tickets proposal)))], [(''backfill'', prop_Backfill proposal \<noteq> None)], '''')"
| "summarize_event (ReservationConfirmedEvent reservationID assignmentID now) =
     ([], [], AssignmentStatus_string AssignmentPending)"
| "summarize_event (ReservationCancelledEvent reservationID now) = ([], [], ''cancelled'')"
| "summarize_event (AssignmentAcknowledged assignmentID request now) =
     ([], [], AssignmentStatus_string (req_Outcome request))"

definition summarizeRecord :: "Record \<Rightarrow> AuditSummary durable" where
  "summarizeRecord r =
     (if jr_Kind r \<notin> set (''runtime_configured'' # known_kinds) then Inl KindUnsupported
      else (case decodePayload r of
              Inl e \<Rightarrow> Inl e
            | Inr event \<Rightarrow>
                (case summarize_event event of
                   (counts, flags, outcome) \<Rightarrow>
                     Inr \<lparr>as_Sequence = jr_Sequence r, as_Kind = jr_Kind r, as_Checksum = jr_Checksum r,
                          as_Counts = counts, as_Flags = flags, as_Outcome = outcome\<rparr>)))"

fun summarize_all :: "Record list \<Rightarrow> AuditSummary list durable" where
  "summarize_all [] = Inr []"
| "summarize_all (r # rest) =
     (case summarizeRecord r of
        Inl e \<Rightarrow> Inl e
      | Inr summary \<Rightarrow> (case summarize_all rest of Inl e \<Rightarrow> Inl e | Inr summaries \<Rightarrow> Inr (summary # summaries)))"

definition AuditSummaries :: "64 word \<Rightarrow> int \<Rightarrow> Runtime \<Rightarrow> AuditSummary list durable" where
  "AuditSummaries after limit rt =
     (case Runtime_Audit after limit rt of Inl e \<Rightarrow> Inl e | Inr records \<Rightarrow> summarize_all records)"

end
