(* ===== verification/Expiry.thy ===== *)
theory Expiry
  imports Coordinator_Props
begin

text \<open>
  Expiry is lazy: \<open>expireLocked\<close> runs at the start of the timed calls only. This theory shows that it
  does not matter when it runs: expiring at one time and later at another is expiring at the later
  time, and expiry commutes with the calls that have no clock. A journal need not record it.
\<close>

section \<open>A closed form\<close>

lemma delete_filter: "AList.delete k m = filter (\<lambda>e. fst e \<noteq> k) m"
  by (induction m) (auto simp: AList.delete_eq)

lemma delete_if_filter:
  assumes "keys_distinct m"
  shows "delete_if zero v k m = filter (\<lambda>e. \<not> (fst e = k \<and> snd e = v)) m"
proof (cases "map_get zero m k = v")
  case True
  have "snd e = v" if "e \<in> set m" "fst e = k" for e
  proof -
    have "map_of m k = Some (snd e)" using assms that by (cases e) (simp add: mem_range_iff [symmetric])
    with True show ?thesis by (simp add: map_get_def)
  qed
  then show ?thesis using True by (simp add: delete_if_def delete_filter cong: filter_cong)
next
  case False
  have "\<not> (fst e = k \<and> snd e = v)" if "e \<in> set m" for e
  proof
    assume "fst e = k \<and> snd e = v"
    with assms that have "map_of m k = Some v" by (cases e) (simp add: mem_range_iff [symmetric])
    with False show False by (simp add: map_get_def)
  qed
  then show ?thesis using False by (simp add: delete_if_def filter_id_conv)
qed

lemma keys_distinct_filter: "keys_distinct m \<Longrightarrow> keys_distinct (filter P m)"
  by (simp add: distinct_map_filter)

lemma delete_if_all_filter:
  "keys_distinct m \<Longrightarrow> foldl (\<lambda>m x. delete_if zero v (key x) m) m xs =
     filter (\<lambda>e. \<not> (fst e \<in> key ` set xs \<and> snd e = v)) m"
proof (induction xs arbitrary: m)
  case (Cons x xs)
  then show ?case
    by (simp add: delete_if_filter keys_distinct_filter conj_commute) (rule filter_cong, auto)
qed simp

text \<open>The entries of the two indexes that the records in a list hold.\<close>

definition ticket_entry :: "reservationRecord \<Rightarrow> TicketID \<times> ReservationID \<Rightarrow> bool" where
  "ticket_entry q e \<longleftrightarrow> fst e \<in> record_tickets q \<and> snd e = res_ID (rec_reservation q)"

definition backfill_entry :: "reservationRecord \<Rightarrow> TicketID \<times> ReservationID \<Rightarrow> bool" where
  "backfill_entry q e \<longleftrightarrow> fst e \<in> record_backfills q \<and> snd e = res_ID (rec_reservation q)"

lemma releaseLocked_filter:
  assumes "keys_distinct (co_ticketReservations c)" "keys_distinct (co_backfillReservations c)"
  shows "co_ticketReservations (releaseLocked (rec_reservation q) c) = filter (\<lambda>e. \<not> ticket_entry q e) (co_ticketReservations c)"
    "co_backfillReservations (releaseLocked (rec_reservation q) c) = filter (\<lambda>e. \<not> backfill_entry q e) (co_backfillReservations c)"
  using assms
  by (simp_all add: releaseLocked_def delete_if_all_filter delete_if_filter ticket_entry_def backfill_entry_def
      record_tickets_def record_backfills_def split: option.splits)

lemma releaseLocked_conv:
  assumes "keys_distinct (co_ticketReservations c)" "keys_distinct (co_backfillReservations c)"
  shows "releaseLocked (rec_reservation q) c =
    c\<lparr>co_ticketReservations := filter (\<lambda>e. \<not> ticket_entry q e) (co_ticketReservations c),
      co_backfillReservations := filter (\<lambda>e. \<not> backfill_entry q e) (co_backfillReservations c)\<rparr>"
  using releaseLocked_filter [OF assms, of q] by (simp add: releaseLocked_def)

lemma update_known:
  "keys_distinct m \<Longrightarrow> k \<in> fst ` set m \<Longrightarrow> AList.update k v m = map (\<lambda>e. if fst e = k then (k, v) else e) m"
proof (induction m)
  case (Cons e m)
  obtain k' v' where e: "e = (k', v')" by (cases e)
  show ?case
  proof (cases "k' = k")
    case True
    then have "map (\<lambda>e. if fst e = k then (k, v) else e) m = m" using Cons.prems by (intro map_idI) (auto simp: e)
    with True show ?thesis by (simp add: e)
  next
    case False
    with Cons show ?thesis by (simp add: e)
  qed
qed simp

definition expire_entry :: "Time \<Rightarrow> ReservationID \<times> reservationRecord \<Rightarrow> ReservationID \<times> reservationRecord" where
  "expire_entry now e = (fst e, expire_due now (snd e))"

definition expire_form :: "Time \<Rightarrow> (ReservationID \<times> reservationRecord) list \<Rightarrow> Coordinator \<Rightarrow> Coordinator" where
  "expire_form now entries c =
     c\<lparr>co_reservations := map (\<lambda>e. if e \<in> set entries then expire_entry now e else e) (co_reservations c),
       co_ticketReservations := filter (\<lambda>e. \<not> (\<exists>q\<in>snd ` set entries. due now q \<and> ticket_entry q e)) (co_ticketReservations c),
       co_backfillReservations := filter (\<lambda>e. \<not> (\<exists>q\<in>snd ` set entries. due now q \<and> backfill_entry q e)) (co_backfillReservations c)\<rparr>"

lemma expire_form_sel:
  "co_reservations (expire_form now entries c) = map (\<lambda>e. if e \<in> set entries then expire_entry now e else e) (co_reservations c)"
  "co_ticketReservations (expire_form now entries c) =
     filter (\<lambda>e. \<not> (\<exists>q\<in>snd ` set entries. due now q \<and> ticket_entry q e)) (co_ticketReservations c)"
  "co_backfillReservations (expire_form now entries c) =
     filter (\<lambda>e. \<not> (\<exists>q\<in>snd ` set entries. due now q \<and> backfill_entry q e)) (co_backfillReservations c)"
  by (simp_all add: expire_form_def)

lemma expire_form_other [simp]:
  "co_ttl (expire_form now entries c) = co_ttl c" "co_matchTickets (expire_form now entries c) = co_matchTickets c"
  "co_backfillTickets (expire_form now entries c) = co_backfillTickets c"
  "co_playerTickets (expire_form now entries c) = co_playerTickets c"
  "co_assignments (expire_form now entries c) = co_assignments c"
  by (simp_all add: expire_form_def)

lemma coordinator_eqI:
  assumes "co_ttl c = co_ttl d" "co_matchTickets c = co_matchTickets d" "co_backfillTickets c = co_backfillTickets d"
    "co_playerTickets c = co_playerTickets d" "co_assignments c = co_assignments d"
    "co_reservations c = co_reservations d" "co_ticketReservations c = co_ticketReservations d"
    "co_backfillReservations c = co_backfillReservations d"
  shows "c = (d :: Coordinator)"
  using assms by simp

lemma expire_record_form:
  assumes "keys_ok c" "e \<in> set (co_reservations c)"
  shows "expire_record now c e = expire_form now [e] c"
proof -
  obtain r q where e: "e = (r, q)" by (cases e)
  have keys: "keys_distinct (co_reservations c)" "keys_distinct (co_ticketReservations c)" "keys_distinct (co_backfillReservations c)"
    using assms(1) by (simp_all add: keys_ok_def)
  have same: "fst e' = r \<longleftrightarrow> e' = e" if "e' \<in> set (co_reservations c)" for e'
  proof
    assume "fst e' = r"
    then have "(r, snd e') \<in> set (co_reservations c)" using that by (metis prod.collapse)
    from eq_key_imp_eq_value [OF keys(1) this] assms(2) \<open>fst e' = r\<close> show "e' = e" by (simp add: e prod_eq_iff)
  qed (simp add: e)
  have up: "AList.update r (expired_now q) (co_reservations c) = map (\<lambda>e'. if e' = e then (r, expired_now q) else e') (co_reservations c)"
  proof -
    have "r \<in> fst ` set (co_reservations c)" using assms(2) unfolding e by force
    from update_known [OF keys(1) this] show ?thesis by (simp add: same cong: map_cong)
  qed
  show ?thesis
  proof (cases "due now q")
    case True
    then have "expire_record now c e = put_record r (expired_now q) (releaseLocked (rec_reservation q) c)"
      by (simp add: e expire_record_conv close_record_def)
    moreover have "map (\<lambda>e'. if e' \<in> set [e] then expire_entry now e' else e') (co_reservations c) =
        map (\<lambda>e'. if e' = e then (r, expired_now q) else e') (co_reservations c)"
      using True by (intro map_cong refl) (simp add: e expire_entry_def expire_due_def)
    ultimately show ?thesis
      using True by (simp add: expire_form_def put_record_def up releaseLocked_conv [OF keys(2,3)] e)
  next
    case False
    have "map (\<lambda>e'. if e' \<in> set [e] then expire_entry now e' else e') (co_reservations c) = co_reservations c"
      using False by (intro map_idI) (simp add: e expire_entry_def expire_due_def)
    with False show ?thesis by (simp add: e expire_record_conv expire_form_def)
  qed
qed

lemma expire_form_keys: "keys_ok c \<Longrightarrow> keys_ok (expire_form now entries c)"
proof -
  have "map fst (map (\<lambda>e. if e \<in> set entries then expire_entry now e else e) xs) = map fst xs" for xs
    by (induction xs) (simp_all add: expire_entry_def)
  then show "keys_ok c \<Longrightarrow> ?thesis" by (simp add: keys_ok_def expire_form_def keys_distinct_filter del: map_map)
qed

lemma expire_form_snoc:
  assumes "keys_distinct (xs @ [x])"
  shows "expire_form now [x] (expire_form now xs c) = expire_form now (xs @ [x]) c"
proof -
  have new: "x \<notin> set xs" "\<And>e. e \<in> set xs \<Longrightarrow> fst e \<noteq> fst x" using assms by (auto simp: image_iff)
  have "(if (if e \<in> set xs then expire_entry now e else e) \<in> set [x]
      then expire_entry now (if e \<in> set xs then expire_entry now e else e)
      else (if e \<in> set xs then expire_entry now e else e)) = (if e \<in> set (xs @ [x]) then expire_entry now e else e)" for e
  proof (cases "e \<in> set xs")
    case True
    have "fst (expire_entry now e) \<noteq> fst x" using new(2) [OF True] by (simp add: expire_entry_def)
    then have "expire_entry now e \<noteq> x" by blast
    with True show ?thesis by simp
  qed (use new(1) in auto)
  then have maps: "map (\<lambda>e. if e \<in> set [x] then expire_entry now e else e)
      (map (\<lambda>e. if e \<in> set xs then expire_entry now e else e) es) =
    map (\<lambda>e. if e \<in> set (xs @ [x]) then expire_entry now e else e) es" for es
    by (simp only: map_map o_def)
  have filters: "filter (\<lambda>e. \<not> (\<exists>q\<in>snd ` set [x]. due now q \<and> P q e)) (filter (\<lambda>e. \<not> (\<exists>q\<in>snd ` set xs. due now q \<and> P q e)) es) =
    filter (\<lambda>e. \<not> (\<exists>q\<in>snd ` set (xs @ [x]). due now q \<and> P q e)) es" for P es
    unfolding filter_filter by (rule filter_cong) auto
  show ?thesis
    by (rule coordinator_eqI) (simp_all only: expire_form_other expire_form_sel maps filters)
qed

lemma expire_loop_form:
  assumes "keys_ok c"
  shows "keys_distinct entries \<Longrightarrow> set entries \<subseteq> set (co_reservations c) \<Longrightarrow>
    foldl (expire_record now) c entries = expire_form now entries c"
proof (induction entries rule: rev_induct)
  case Nil
  show ?case by (simp add: expire_form_def)
next
  case (snoc x xs)
  have IH: "foldl (expire_record now) c xs = expire_form now xs c" using snoc by simp
  have "x \<notin> set xs" using snoc.prems(1) by auto
  then have "x \<in> set (co_reservations (expire_form now xs c))"
    using snoc.prems(2) by (auto simp: expire_form_def image_iff intro!: bexI [of _ x])
  from expire_record_form [OF expire_form_keys [OF assms] this]
  show ?case using expire_form_snoc [OF snoc.prems(1)] IH by simp
qed

theorem expireLocked_form: "keys_ok c \<Longrightarrow> expireLocked now c = expire_form now (co_reservations c) c"
  unfolding expireLocked_def by (rule expire_loop_form) (simp_all add: keys_ok_def)

section \<open>Expiring twice\<close>

lemma due_mono: "due t q \<Longrightarrow> t \<le> now \<Longrightarrow> due now q"
  by (simp add: due_def)

lemma expire_due_twice: "t \<le> now \<Longrightarrow> expire_due now (expire_due t q) = expire_due now q"
  using due_mono [of t q now] by (auto simp: expire_due_def)

lemma expireLocked_twice:
  assumes "keys_ok c" "t \<le> now"
  shows "expireLocked now (expireLocked t c) = expireLocked now c"
proof -
  let ?rs = "co_reservations c"
  have all: "map (\<lambda>e. if e \<in> set xs then expire_entry now e else e) xs = map (expire_entry now) xs" for now xs
    by (rule map_cong) simp_all
  have twice: "map (expire_entry now) (map (expire_entry t) ?rs) = map (expire_entry now) ?rs"
    using assms(2) by (simp add: expire_entry_def expire_due_twice)
  have later: "(\<exists>q\<in>snd ` set (map (expire_entry t) ?rs). due now q \<and> P q e) \<or> (\<exists>q\<in>snd ` set ?rs. due t q \<and> P q e) \<longleftrightarrow>
      (\<exists>q\<in>snd ` set ?rs. due now q \<and> P q e)" for P :: "reservationRecord \<Rightarrow> TicketID \<times> ReservationID \<Rightarrow> bool" and e
  proof -
    have "due now (expire_due t q) \<and> P (expire_due t q) e \<or> due t q \<and> P q e \<longleftrightarrow> due now q \<and> P q e" for q
      using due_mono [OF _ assms(2), of q] by (auto simp: expire_due_def)
    then show ?thesis by (simp add: expire_entry_def bex_disj_distrib [symmetric])
  qed
  have filters: "filter (\<lambda>e. \<not> (\<exists>q\<in>snd ` set (map (expire_entry t) ?rs). due now q \<and> P q e))
      (filter (\<lambda>e. \<not> (\<exists>q\<in>snd ` set ?rs. due t q \<and> P q e)) es) = filter (\<lambda>e. \<not> (\<exists>q\<in>snd ` set ?rs. due now q \<and> P q e)) es"
    for P :: "reservationRecord \<Rightarrow> TicketID \<times> ReservationID \<Rightarrow> bool" and es
  proof -
    have "(\<not> (\<exists>q\<in>snd ` set ?rs. due t q \<and> P q e)) \<and> \<not> (\<exists>q\<in>snd ` set (map (expire_entry t) ?rs). due now q \<and> P q e) \<longleftrightarrow>
        \<not> (\<exists>q\<in>snd ` set ?rs. due now q \<and> P q e)" for e
      using later [of P e] by argo
    then show ?thesis unfolding filter_filter by presburger
  qed
  show ?thesis
    unfolding expireLocked_form [OF expireLocked_keys [OF assms(1)]]
    unfolding expireLocked_form [OF assms(1)]
    by (rule coordinator_eqI) (simp_all only: expire_form_other expire_form_sel all twice filters)
qed

section \<open>Calls without a clock\<close>

text \<open>The part of the state that expiry changes, taken from another state.\<close>

definition with_holds :: "Coordinator \<Rightarrow> Coordinator \<Rightarrow> Coordinator" where
  "with_holds src c = c\<lparr>co_ticketReservations := co_ticketReservations src,
     co_backfillReservations := co_backfillReservations src, co_reservations := co_reservations src\<rparr>"

lemma with_holds_sel [simp]:
  "co_ttl (with_holds src c) = co_ttl c" "co_matchTickets (with_holds src c) = co_matchTickets c"
  "co_backfillTickets (with_holds src c) = co_backfillTickets c" "co_playerTickets (with_holds src c) = co_playerTickets c"
  "co_assignments (with_holds src c) = co_assignments c" "co_reservations (with_holds src c) = co_reservations src"
  "co_ticketReservations (with_holds src c) = co_ticketReservations src"
  "co_backfillReservations (with_holds src c) = co_backfillReservations src"
  by (simp_all add: with_holds_def)

lemma with_holds_self [simp]: "with_holds c c = c"
  by (simp add: with_holds_def)

lemma expireLocked_with_holds: "keys_ok c \<Longrightarrow> with_holds (expireLocked now c) c = expireLocked now c"
  by (rule coordinator_eqI) (simp_all add: expireLocked_sel)

lemma expireLocked_cong:
  assumes "keys_ok c" "keys_ok d" "co_reservations d = co_reservations c"
    "co_ticketReservations d = co_ticketReservations c" "co_backfillReservations d = co_backfillReservations c"
  shows "expireLocked now d = with_holds (expireLocked now c) d"
  using assms by (intro coordinator_eqI) (simp_all add: expireLocked_form expire_form_sel)

definition clockless :: "(Coordinator \<Rightarrow> 'a \<times> Coordinator) \<Rightarrow> bool" where
  "clockless f \<longleftrightarrow> (\<forall>src c. f (with_holds src c) = (fst (f c), with_holds src (snd (f c))))"

lemma clockless_commutes:
  assumes "clockless f" "keys_ok c" "keys_ok (snd (f c))"
  shows "f (expireLocked now c) = (fst (f c), expireLocked now (snd (f c)))"
proof -
  have frame: "f c = (fst (f c), with_holds c (snd (f c)))"
    using assms(1) unfolding clockless_def by (metis with_holds_self)
  then have "snd (f c) = with_holds c (snd (f c))" by (metis snd_conv)
  then have "co_reservations (snd (f c)) = co_reservations c" "co_ticketReservations (snd (f c)) = co_ticketReservations c"
    "co_backfillReservations (snd (f c)) = co_backfillReservations c" by (metis with_holds_sel)+
  from expireLocked_cong [OF assms(2,3) this, of now] show ?thesis
    using assms(1) expireLocked_with_holds [OF assms(2), of now] unfolding clockless_def by metis
qed

lemma with_holds_players [simp]:
  "acquirePlayerOwnershipLocked t (with_holds src c) = with_holds src (acquirePlayerOwnershipLocked t c)"
  "releasePlayerOwnershipLocked t (with_holds src c) = with_holds src (releasePlayerOwnershipLocked t c)"
  by (simp_all add: acquirePlayerOwnershipLocked_def releasePlayerOwnershipLocked_def with_holds_def)

lemma with_holds_update [simp]:
  "(with_holds src c)\<lparr>co_matchTickets := m\<rparr> = with_holds src (c\<lparr>co_matchTickets := m\<rparr>)"
  "(with_holds src c)\<lparr>co_backfillTickets := b\<rparr> = with_holds src (c\<lparr>co_backfillTickets := b\<rparr>)"
  "(with_holds src c)\<lparr>co_assignments := a\<rparr> = with_holds src (c\<lparr>co_assignments := a\<rparr>)"
  by (simp_all add: with_holds_def)

lemma clockless_ticket_calls:
  "clockless (UpsertMatchTicket t)" "clockless (UpsertBackfillTicket b)" "clockless (CancelMatchTicket i v)"
  "clockless (CancelBackfillTicket i v w)" "clockless (AcknowledgeAssignment i req now)"
proof -
  have "duplicatedPlayerLocked t (with_holds src c) = duplicatedPlayerLocked t c" for t src c
    by (simp add: duplicatedPlayerLocked_def)
  moreover have "store_match_ticket t (with_holds src c) = with_holds src (store_match_ticket t c)" for t src c
    by (simp add: store_match_ticket_def Let_def split: option.splits)
  ultimately show "clockless (UpsertMatchTicket t)"
    by (auto simp: clockless_def UpsertMatchTicket_def split: option.splits)
  show "clockless (UpsertBackfillTicket b)"
    by (auto simp: clockless_def UpsertBackfillTicket_def split: option.splits)
  show "clockless (CancelMatchTicket i v)" "clockless (CancelBackfillTicket i v w)"
    by (simp_all add: clockless_def CancelMatchTicket_def CancelBackfillTicket_def remove_match_ticket_def split: option.splits)
  show "clockless (AcknowledgeAssignment i req now)"
    by (simp add: clockless_def AcknowledgeAssignment_def Let_def split: option.splits)
qed

section \<open>Calls with a clock\<close>

text \<open>A timed call refuses its arguments, or sees only the expired state.\<close>

definition timed :: "Time \<Rightarrow> (Coordinator \<Rightarrow> 'a result \<times> Coordinator) \<Rightarrow> bool" where
  "timed now f \<longleftrightarrow> (\<exists>e. \<forall>c. f c = (Inl e, c)) \<or> (\<forall>c d. expireLocked now c = expireLocked now d \<longrightarrow> f c = f d)"

lemma timed_calls:
  "timed now (Reserve p r now)" "timed now (Confirm r a now)" "timed now (Cancel r now)" "timed now (Snapshot i now pol)"
  by (auto simp: timed_def Reserve_def Confirm_def Cancel_def Snapshot_def Let_def split: option.splits)

lemma timed_late:
  assumes "timed now f" "keys_ok c" "t \<le> now"
  obtains "f (expireLocked t c) = f c"
  | e where "f c = (Inl e, c)" "f (expireLocked t c) = (Inl e, expireLocked t c)"
  using assms(1) expireLocked_twice [OF assms(2,3)] unfolding timed_def by metis

text \<open>A refusal leaves the state, expired or not, with one exception: a stale reservation is cancelled.\<close>

definition stale_confirm :: "ReservationID \<Rightarrow> Time \<Rightarrow> Coordinator \<Rightarrow> bool" where
  "stale_confirm r now c \<longleftrightarrow>
     (case map_of (co_reservations (expireLocked now c)) r of
        None \<Rightarrow> False
      | Some q \<Rightarrow> active q \<and> validateFreshnessLocked (rec_proposal q) (expireLocked now c) \<noteq> None)"

lemma refusal_state:
  "Reserve p r now c = (Inl e, d) \<Longrightarrow> d \<in> {c, expireLocked now c}"
  "Cancel r now c = (Inl e, d) \<Longrightarrow> d \<in> {c, expireLocked now c}"
  "Confirm r a now c = (Inl e, d) \<Longrightarrow> \<not> stale_confirm r now c \<Longrightarrow> d \<in> {c, expireLocked now c}"
proof -
  show "Reserve p r now c = (Inl e, d) \<Longrightarrow> d \<in> {c, expireLocked now c}"
    by (auto simp: Reserve_def Let_def split: if_splits option.splits)
  show "Cancel r now c = (Inl e, d) \<Longrightarrow> d \<in> {c, expireLocked now c}"
    by (auto simp: Cancel_def Let_def split: if_splits option.splits ReservationStatus.splits)
  show "Confirm r a now c = (Inl e, d) \<Longrightarrow> \<not> stale_confirm r now c \<Longrightarrow> d \<in> {c, expireLocked now c}"
    by (auto simp: Confirm_def confirm_active_def stale_confirm_def Let_def split: if_splits option.splits)
qed

end
