(* ===== verification/Durable_Recovery.thy ===== *)
theory Durable_Recovery
  imports Durable Expiry
begin

text \<open>
  What the journal promises. The live engine and the engine replayed from the journal differ only in
  reservations that expired meanwhile, since expiry is not journaled: \<open>lags\<close>. The invariant
  \<open>consistent\<close> says that the file holds the records, that they rebuild the plan indexes exactly and
  the engine up to this difference; every call keeps it, whatever its system calls do, unless the
  call is a confirmation refused as stale, which changes the engine and is not journaled.
\<close>

section \<open>Lagging engines\<close>

definition advance :: "Time \<Rightarrow> Engine \<Rightarrow> Engine" where
  "advance t e = e\<lparr>eng_coordinator := expireLocked t (eng_coordinator e)\<rparr>"

definition lags :: "Time \<Rightarrow> Engine \<Rightarrow> Engine \<Rightarrow> bool" where
  "lags now e live \<longleftrightarrow> live = e \<or> (\<exists>t\<le>now. live = advance t e)"

lemma lags_refl [simp]: "lags now e e"
  by (simp add: lags_def)

lemma lags_advance: "t \<le> now \<Longrightarrow> lags now e (advance t e)"
  by (auto simp: lags_def)

lemma lags_mono: "lags t e live \<Longrightarrow> t \<le> now \<Longrightarrow> lags now e live"
  unfolding lags_def using order_trans by blast

lemma advance_sel [simp]:
  "eng_policies (advance t e) = eng_policies e"
  "eng_coordinator (advance t e) = expireLocked t (eng_coordinator e)"
  by (simp_all add: advance_def)

lemma engine_inv_keys: "engine_inv sha256 e \<Longrightarrow> keys_ok (eng_coordinator e)"
  by (simp add: engine_inv_def coordinator_inv_def)

lemma advance_inv: "engine_inv sha256 e \<Longrightarrow> engine_inv sha256 (advance t e)"
  using engine_inv_keys [of sha256 e] by (simp add: engine_inv_def expireLocked_inv expireLocked_sel)

lemma lags_inv: "engine_inv sha256 e \<Longrightarrow> lags now e live \<Longrightarrow> engine_inv sha256 live"
  by (auto simp: lags_def advance_inv)

lemma advance_earlier:
  assumes "engine_inv sha256 e" "t \<le> now"
  shows "advance t (advance now e) = advance now e"
proof -
  have keys: "keys_ok (eng_coordinator e)" using assms(1) by (rule engine_inv_keys)
  have "no_due t (expireLocked now (eng_coordinator e))"
    using no_due_expireLocked [OF keys, of now] due_mono [OF _ assms(2)] unfolding no_due_def by blast
  then have "expireLocked t (expireLocked now (eng_coordinator e)) = expireLocked now (eng_coordinator e)"
    by (rule no_due_expire [OF expireLocked_keys [OF keys]])
  then show ?thesis by (simp add: advance_def)
qed

lemma advance_later:
  "engine_inv sha256 e \<Longrightarrow> t \<le> now \<Longrightarrow> advance now (advance t e) = advance now e"
  by (simp add: advance_def expireLocked_twice engine_inv_keys)

text \<open>A method that cannot tell whether an expiry has been carried out yet.\<close>

definition expiry_blind :: "hash \<Rightarrow> Time \<Rightarrow> (Engine \<Rightarrow> 'a \<times> Engine) \<Rightarrow> bool" where
  "expiry_blind sha256 now method \<longleftrightarrow>
     (\<forall>e. engine_inv sha256 e \<longrightarrow> engine_inv sha256 (snd (method e)) \<and>
        (\<forall>t\<le>now. method (advance t e) = (fst (method e), advance t (snd (method e))) \<or> method (advance t e) = method e))"

lemma expiry_blindD:
  assumes "expiry_blind sha256 now method" "engine_inv sha256 e" "lags now e live"
  shows "engine_inv sha256 (snd (method e))" "fst (method live) = fst (method e)" "lags now (snd (method e)) (snd (method live))"
proof -
  show inv: "engine_inv sha256 (snd (method e))" using assms(1,2) by (simp add: expiry_blind_def)
  have "fst (method live) = fst (method e) \<and> lags now (snd (method e)) (snd (method live))"
  proof (cases "live = e")
    case False
    then obtain t where t: "t \<le> now" "live = advance t e" using assms(3) by (auto simp: lags_def)
    then consider "method live = (fst (method e), advance t (snd (method e)))" | "method live = method e"
      using assms(1,2) unfolding expiry_blind_def by blast
    then show ?thesis using t(1) by cases (auto simp: lags_advance)
  qed simp
  then show "fst (method live) = fst (method e)" "lags now (snd (method e)) (snd (method live))" by simp_all
qed

lemma blind_on_coordinator_clockless:
  assumes "clockless f" "\<And>c. coordinator_inv c \<Longrightarrow> coordinator_inv (snd (f c)) \<and> co_ttl (snd (f c)) = co_ttl c"
  shows "expiry_blind sha256 now (on_coordinator f)"
  unfolding expiry_blind_def
proof (intro allI impI conjI)
  fix e assume inv: "engine_inv sha256 e"
  then have c: "coordinator_inv (eng_coordinator e)" "0 < co_ttl (eng_coordinator e)" by (simp_all add: engine_inv_def)
  show "engine_inv sha256 (snd (on_coordinator f e))" using inv assms(2) [OF c(1)] by (simp add: engine_inv_def)
  fix t assume "t \<le> now"
  have "f (expireLocked t (eng_coordinator e)) = (fst (f (eng_coordinator e)), expireLocked t (snd (f (eng_coordinator e))))"
    using assms(2) [OF c(1)] c(1) by (intro clockless_commutes [OF assms(1)]) (simp_all add: coordinator_inv_def)
  then show "on_coordinator f (advance t e) = (fst (on_coordinator f e), advance t (snd (on_coordinator f e))) \<or>
      on_coordinator f (advance t e) = on_coordinator f e"
    by (simp add: on_coordinator_def advance_def split_beta)
qed

lemma blind_on_coordinator_timed:
  assumes "timed now f" "\<And>c. coordinator_inv c \<Longrightarrow> coordinator_inv (snd (f c)) \<and> co_ttl (snd (f c)) = co_ttl c"
  shows "expiry_blind sha256 now (on_coordinator f)"
  unfolding expiry_blind_def
proof (intro allI impI conjI)
  fix e assume inv: "engine_inv sha256 e"
  then have c: "coordinator_inv (eng_coordinator e)" by (simp_all add: engine_inv_def)
  show "engine_inv sha256 (snd (on_coordinator f e))" using inv assms(2) [OF c] by (simp add: engine_inv_def)
  fix t assume t: "t \<le> now"
  have "on_coordinator f (advance t e) = (fst (on_coordinator f e), advance t (snd (on_coordinator f e))) \<or>
      on_coordinator f (advance t e) = on_coordinator f e"
    using engine_inv_keys [OF inv]
    by (rule timed_late [OF assms(1) _ t]) (simp_all add: on_coordinator_def advance_def split_beta)
  then show "on_coordinator f (advance t e) = (fst (on_coordinator f e), advance t (snd (on_coordinator f e))) \<or>
      on_coordinator f (advance t e) = on_coordinator f e" .
qed

lemma call_ttl: "coordinator_inv c \<Longrightarrow> coordinator_inv (run_call x c) \<and> co_ttl (run_call x c) = co_ttl c"
  using coordinator.act_inv [of c x] coordinator.act_evolves [of c x] by (simp add: coordinator_evolves_def)

lemma blind_methods:
  "expiry_blind sha256 now (SubmitMatchTicket t)" "expiry_blind sha256 now (SubmitBackfillTicket b)"
  "expiry_blind sha256 now (Engine_CancelMatchTicket i v)" "expiry_blind sha256 now (Engine_CancelBackfillTicket i v w)"
  "expiry_blind sha256 now (Engine_AcknowledgeAssignment a req at_time)"
  "expiry_blind sha256 now (Engine_Reserve p r now)" "expiry_blind sha256 now (Engine_Confirm r a now)"
  "expiry_blind sha256 now (CancelReservation r now)"
  unfolding SubmitMatchTicket_def SubmitBackfillTicket_def Engine_CancelMatchTicket_def Engine_CancelBackfillTicket_def
    Engine_AcknowledgeAssignment_def Engine_Reserve_def Engine_Confirm_def CancelReservation_def
  using call_ttl [of _ "CallUpsertMatchTicket t"] call_ttl [of _ "CallUpsertBackfillTicket b"]
    call_ttl [of _ "CallCancelMatchTicket i v"] call_ttl [of _ "CallCancelBackfillTicket i v w"]
    call_ttl [of _ "CallAcknowledge a req at_time"] call_ttl [of _ "CallReserve p r now"] call_ttl [of _ "CallConfirm r a now"]
    call_ttl [of _ "CallCancel r now"]
  by (simp_all add: blind_on_coordinator_clockless blind_on_coordinator_timed clockless_ticket_calls timed_calls)


lemma blind_RegisterPolicy: "expiry_blind sha256 now (RegisterPolicy sha256 policy)"
  by (auto simp: expiry_blind_def RegisterPolicy_def advance_def engine_inv_def Register_inv split: prod.splits sum.splits
      dest: Register_inv [of sha256 _ policy])

lemma blind_Engine_Snapshot: "expiry_blind sha256 now (Engine_Snapshot i now v)"
  unfolding expiry_blind_def
proof (intro allI impI)
  fix e assume inv: "engine_inv sha256 e"
  show "engine_inv sha256 (snd (Engine_Snapshot i now v e)) \<and>
    (\<forall>t\<le>now. Engine_Snapshot i now v (advance t e) = (fst (Engine_Snapshot i now v e), advance t (snd (Engine_Snapshot i now v e))) \<or>
       Engine_Snapshot i now v (advance t e) = Engine_Snapshot i now v e)"
  proof (cases "Catalog_Get v (eng_policies e)")
    case None
    with inv show ?thesis by (simp add: Engine_Snapshot_def)
  next
    case (Some entry)
    have "expiry_blind sha256 now (on_coordinator (Snapshot i now (entry_Policy entry)))"
      using call_ttl [of _ "CallSnapshot i now (entry_Policy entry)"]
      by (intro blind_on_coordinator_timed timed_calls) simp
    with inv Some show ?thesis by (simp add: Engine_Snapshot_def expiry_blind_def)
  qed
qed

text \<open>Only the answer is looked at further.\<close>

lemma blind_answer:
  assumes "expiry_blind sha256 now method"
  shows "expiry_blind sha256 now (\<lambda>e. (g (fst (method e)), snd (method e)))"
  unfolding expiry_blind_def
proof (intro allI impI conjI)
  fix e assume inv: "engine_inv sha256 e"
  show "engine_inv sha256 (snd (g (fst (method e)), snd (method e)))" using assms inv by (simp add: expiry_blind_def)
  fix t assume "t \<le> now"
  with assms inv have "method (advance t e) = (fst (method e), advance t (snd (method e))) \<or> method (advance t e) = method e"
    by (simp add: expiry_blind_def)
  then show "(g (fst (method (advance t e))), snd (method (advance t e))) =
      (fst (g (fst (method e)), snd (method e)), advance t (snd (g (fst (method e)), snd (method e)))) \<or>
    (g (fst (method (advance t e))), snd (method (advance t e))) = (g (fst (method e)), snd (method e))" by auto
qed

lemma blind_Engine_Plan: "expiry_blind sha256 now (Engine_Plan sha256 i now v)"
proof -
  have "Engine_Plan sha256 i now v =
      (\<lambda>e. (case fst (Engine_Snapshot i now v e) of Inl x \<Rightarrow> Inl x | Inr s \<Rightarrow> Plan sha256 s, snd (Engine_Snapshot i now v e)))"
    by (simp add: fun_eq_iff Engine_Plan_def split: prod.splits sum.splits)
  with blind_answer [OF blind_Engine_Snapshot] show ?thesis by simp
qed

lemma as_result_conv:
  "as_result method = (\<lambda>e. (case fst (method e) of Some x \<Rightarrow> Inl x | None \<Rightarrow> Inr (), snd (method e)))"
  by (simp add: fun_eq_iff as_result_def split: prod.splits option.splits)

lemma blind_as_result: "expiry_blind sha256 now method \<Longrightarrow> expiry_blind sha256 now (as_result method)"
  unfolding as_result_conv by (rule blind_answer)

section \<open>Refusals\<close>

definition refuses_quietly :: "Time \<Rightarrow> (Engine \<Rightarrow> 'a result \<times> Engine) \<Rightarrow> Engine \<Rightarrow> bool" where
  "refuses_quietly now method e \<longleftrightarrow> (\<forall>x e'. method e = (Inl x, e') \<longrightarrow> e' \<in> {e, advance now e})"

lemma quiet_clockless:
  "refuses_quietly now (RegisterPolicy sha256 policy) e"
  "refuses_quietly now (as_result (SubmitMatchTicket t)) e"
  "refuses_quietly now (as_result (SubmitBackfillTicket b)) e"
  "refuses_quietly now (as_result (Engine_CancelMatchTicket i v)) e"
  "refuses_quietly now (as_result (Engine_CancelBackfillTicket i v w)) e"
  "refuses_quietly now (Engine_AcknowledgeAssignment a req at_time) e"
proof -
  show "refuses_quietly now (RegisterPolicy sha256 policy) e"
    by (auto simp: refuses_quietly_def RegisterPolicy_def Register_def Let_def split: prod.splits sum.splits option.splits if_splits)
  show "refuses_quietly now (as_result (SubmitMatchTicket t)) e"
    by (auto simp: refuses_quietly_def as_result_def SubmitMatchTicket_def on_coordinator_def UpsertMatchTicket_def
        split: prod.splits option.splits if_splits)
  show "refuses_quietly now (as_result (SubmitBackfillTicket b)) e"
    by (auto simp: refuses_quietly_def as_result_def SubmitBackfillTicket_def on_coordinator_def UpsertBackfillTicket_def
        split: prod.splits option.splits if_splits)
  show "refuses_quietly now (as_result (Engine_CancelMatchTicket i v)) e"
    by (auto simp: refuses_quietly_def as_result_def Engine_CancelMatchTicket_def on_coordinator_def CancelMatchTicket_def
        split: prod.splits option.splits if_splits)
  show "refuses_quietly now (as_result (Engine_CancelBackfillTicket i v w)) e"
    by (auto simp: refuses_quietly_def as_result_def Engine_CancelBackfillTicket_def on_coordinator_def CancelBackfillTicket_def
        split: prod.splits option.splits if_splits)
  show "refuses_quietly now (Engine_AcknowledgeAssignment a req at_time) e"
    by (auto simp: refuses_quietly_def Engine_AcknowledgeAssignment_def on_coordinator_def AcknowledgeAssignment_def Let_def
        split: prod.splits option.splits if_splits)
qed

lemma quiet_timed:
  "refuses_quietly now (Engine_Reserve p r now) e"
  "refuses_quietly now (CancelReservation r now) e"
  "\<not> stale_confirm r now (eng_coordinator e) \<Longrightarrow> refuses_quietly now (Engine_Confirm r a now) e"
proof -
  have quiet: "refuses_quietly now (on_coordinator f) e"
    if "\<And>x d. f (eng_coordinator e) = (Inl x, d) \<Longrightarrow> d \<in> {eng_coordinator e, expireLocked now (eng_coordinator e)}"
    for f :: "Coordinator \<Rightarrow> 'z result \<times> Coordinator"
    unfolding refuses_quietly_def
  proof (intro allI impI)
    fix x e' assume "on_coordinator f e = (Inl x, e')"
    then obtain d where "f (eng_coordinator e) = (Inl x, d)" "e' = e\<lparr>eng_coordinator := d\<rparr>"
      by (auto simp: on_coordinator_def split: prod.splits)
    with that [of x d] show "e' \<in> {e, advance now e}" by (auto simp: advance_def)
  qed
  show "refuses_quietly now (Engine_Reserve p r now) e" "refuses_quietly now (CancelReservation r now) e"
    unfolding Engine_Reserve_def CancelReservation_def by (rule quiet, erule refusal_state)+
  show "\<not> stale_confirm r now (eng_coordinator e) \<Longrightarrow> refuses_quietly now (Engine_Confirm r a now) e"
    unfolding Engine_Confirm_def by (rule quiet, erule refusal_state)
qed

lemma Engine_Plan_quiet: "snd (Engine_Plan sha256 i now v e) \<in> {e, advance now e}"
proof (cases "Catalog_Get v (eng_policies e)")
  case (Some entry)
  have "snd (Snapshot i now (entry_Policy entry) c) \<in> {c, expireLocked now c}" for c
    by (auto simp: Snapshot_def Let_def split: option.splits)
  then have "snd (Snapshot i now (entry_Policy entry) (eng_coordinator e)) \<in> {eng_coordinator e, expireLocked now (eng_coordinator e)}" .
  with Some show ?thesis by (auto simp: Engine_Plan_state Engine_Snapshot_def advance_def)
qed (simp add: Engine_Plan_state Engine_Snapshot_def)

text \<open>A refused call leaves a lagging engine lagging behind the same one.\<close>

lemma refusal_lags:
  assumes "expiry_blind sha256 now method" "engine_inv sha256 e" "lags now e live" "snd (method e) \<in> {e, advance now e}"
  shows "lags now e (snd (method live))"
proof -
  have "lags now (snd (method e)) (snd (method live))" using assms(1-3) by (rule expiry_blindD)
  with assms(4) show ?thesis
    using advance_earlier [OF assms(2)] by (auto simp: lags_def)
qed

section \<open>The journal\<close>

text \<open>The loop ends without an error only after all bytes.\<close>

lemma writeFull_bounds:
  "fst (writeFull writes n) \<le> n" "snd (writeFull writes n) \<Longrightarrow> fst (writeFull writes n) = n"
proof -
  have "fst (writeFull writes n) \<le> n \<and> (snd (writeFull writes n) \<longrightarrow> fst (writeFull writes n) = n)"
  proof (induction writes n rule: writeFull.induct)
    case (3 taken fails writes rest)
    then show ?case
      by (cases fails; cases "taken = 0")
        (auto simp: Let_def min_def split: prod.splits if_splits)
  qed simp_all
  then show "fst (writeFull writes n) \<le> n" "snd (writeFull writes n) \<Longrightarrow> fst (writeFull writes n) = n" by simp_all
qed

text \<open>The file holds the records, and nothing after them.\<close>

definition holds_records :: "journal_env \<Rightarrow> journalFile \<Rightarrow> Record list \<Rightarrow> bool" where
  "holds_records env file records \<longleftrightarrow>
     file_tail file = 0 \<and> recover_lines env decode_line [] (file_lines file) = Inr records"

lemma recover_lines_append:
  "recover_lines env decode records (xs @ ys) =
     (case recover_lines env decode records xs of Inl e \<Rightarrow> Inl e | Inr records \<Rightarrow> recover_lines env decode records ys)"
  by (induction env decode records xs rule: recover_lines.induct) (simp_all split: option.splits sum.splits)

definition next_record :: "journal_env \<Rightarrow> Record list \<Rightarrow> event \<Rightarrow> Record" where
  "next_record env records event = encodeRecord env (of_nat (length records + 1)) event"

lemma next_record_sel [simp]: "jr_Body (next_record env records event) = Body event"
  "jr_Kind (next_record env records event) = event_kind event"
  "decodePayload (next_record env records event) = Inr event"
  by (simp_all add: next_record_def encodeRecord_def jr_Kind_def decodePayload_def)

lemma encoded_validates: "validateRecord env (encodeRecord env sequence event) sequence = None"
  by (simp add: validateRecord_def encodeRecord_def unsigned_part_def jr_Kind_def)

lemma holds_records_snoc:
  assumes "holds_records env file records"
  shows "holds_records env (file\<lparr>file_lines := file_lines file @ [Line (next_record env records event)]\<rparr>)
    (records @ [next_record env records event])"
  using assms encoded_validates [of env "of_nat (length records + 1)" event]
  by (simp add: holds_records_def recover_lines_append next_record_def)

lemma recoverRecords_holds:
  assumes "holds_records env file records" "recoverRecords env io (file\<lparr>file_tail := k\<rparr>) = (Inr found, file')"
  shows "found = records" "holds_records env file' records"
  using assms by (auto simp: holds_records_def recoverRecords_def Let_def split: if_splits)

text \<open>The outcomes of an append: the record and the memory of it, or neither, or only the bytes.\<close>

lemma journal_append_cases:
  assumes "\<not> jn_closed j" "holds_records env (jn_file j) (jn_records j)" "json_event event \<in> {None, Some event}"
  obtains (appended) "journal_append env io event j = (None,
      j\<lparr>jn_file := (jn_file j)\<lparr>file_lines := file_lines (jn_file j) @ [Line (next_record env (jn_records j) event)]\<rparr>,
        jn_records := jn_records j @ [next_record env (jn_records j) event]\<rparr>)"
  | (failed) e k where "journal_append env io event j = (Some e, j\<lparr>jn_file := (jn_file j)\<lparr>file_tail := k\<rparr>\<rparr>)"
  | (unanswered) e where "journal_append env io event j = (Some e,
      j\<lparr>jn_file := (jn_file j)\<lparr>file_lines := file_lines (jn_file j) @ [Line (next_record env (jn_records j) event)]\<rparr>\<rparr>)"
proof -
  let ?r = "next_record env (jn_records j) event"
  let ?full = "(jn_file j)\<lparr>file_lines := file_lines (jn_file j) @ [Line ?r]\<rparr>"
  have tail: "file_tail (jn_file j) = 0" using assms(2) by (simp add: holds_records_def)
  have same: "j = j\<lparr>jn_file := (jn_file j)\<lparr>file_tail := 0\<rparr>\<rparr>" using tail by simp
  have put: "put_bytes env ?r n (jn_file j) = (if n = Suc (env_line_size env ?r) then ?full else (jn_file j)\<lparr>file_tail := n\<rparr>)" for n
    using tail by (simp add: put_bytes_def)
  show thesis
  proof (cases "json_event event = None \<or> \<not> io_stat io \<or> \<not> io_seek io")
    case True
    then have "\<exists>e. journal_append env io event j = (Some e, j)"
      using assms(1) by (auto simp: journal_append_def split: option.splits)
    with failed same show thesis by metis
  next
    case False
    then have event: "json_event event = Some event" "io_stat io" "io_seek io" using assms(3) by auto
    obtain n fine where w: "writeFull (io_writes io) (Suc (env_line_size env ?r)) = (n, fine)" by fastforce
    have step: "journal_append env io event j =
        (if \<not> fine \<or> \<not> io_sync io
         then (case rollbackAppend io (jn_file j) IOFailed (put_bytes env ?r n (jn_file j)) of
                 (e, file) \<Rightarrow> (Some e, j\<lparr>jn_file := file\<rparr>))
         else (None, j\<lparr>jn_file := put_bytes env ?r n (jn_file j), jn_records := jn_records j @ [?r]\<rparr>))"
      using event assms(1) w by (simp add: journal_append_def next_record_def Let_def)
    show thesis
    proof (cases "fine \<and> io_sync io")
      case True
      then have "n = Suc (env_line_size env ?r)"
        using writeFull_bounds(2) [of "io_writes io" "Suc (env_line_size env ?r)"] w by simp
      with True appended step put show thesis by simp
    next
      case False
      obtain e f where rb: "rollbackAppend io (jn_file j) IOFailed (put_bytes env ?r n (jn_file j)) = (e, f)" by fastforce
      then have "f = jn_file j \<or> f = put_bytes env ?r n (jn_file j)"
        by (auto simp: rollbackAppend_def split: if_splits)
      moreover have "journal_append env io event j = (Some e, j\<lparr>jn_file := f\<rparr>)"
        using False step rb by (simp only: split) auto
      ultimately consider "journal_append env io event j = (Some e, j)"
        | "journal_append env io event j = (Some e, j\<lparr>jn_file := ?full\<rparr>)"
        | "journal_append env io event j = (Some e, j\<lparr>jn_file := (jn_file j)\<lparr>file_tail := n\<rparr>\<rparr>)"
        using put [of n] by (auto split: if_splits)
      then show thesis using failed unanswered same by cases metis+
    qed
  qed
qed

section \<open>Replay\<close>

lemma replay_records_append:
  "replay_records sha256 ttl i e (xs @ ys) =
     (case replay_records sha256 ttl i e xs of Inl x \<Rightarrow> Inl x | Inr e \<Rightarrow> replay_records sha256 ttl (i + length xs) e ys)"
  by (induction sha256 ttl i e xs rule: replay_records.induct)
    (auto split: sum.splits event.splits)

lemma event_kinds:
  "event_kind event = ''runtime_configured'' \<longleftrightarrow> (\<exists>ttl. event = RuntimeConfigured ttl)"
  "event_kind event = ''plan_completed'' \<longleftrightarrow> (\<exists>plan. event = PlanCompleted plan)"
  "(\<forall>ttl. event \<noteq> RuntimeConfigured ttl) \<Longrightarrow> event_kind event \<in> set known_kinds"
  by (cases event; simp add: known_kinds_def)+

lemma replay_snoc:
  assumes "replay sha256 ttl records = Inr e" "\<forall>ttl. event \<noteq> RuntimeConfigured ttl"
  shows "replay sha256 ttl (records @ [next_record env records' event]) = replay_event sha256 e event"
proof -
  have r: "records \<noteq> []" using assms(1) by (auto simp: replay_def)
  have kind: "event_kind event \<noteq> ''runtime_configured''" "event_kind event \<in> set known_kinds"
    using assms(2) event_kinds by blast+
  have "replayRecord sha256 e (next_record env records' event) = replay_event sha256 e event"
    using kind by (simp add: replayRecord_def)
  with assms(1) r kind show ?thesis
    by (auto simp: replay_def replay_records_append split: if_splits sum.splits)
qed

text \<open>The method of an event, without its answer.\<close>

fun method_of :: "hash \<Rightarrow> event \<Rightarrow> Engine \<Rightarrow> unit result \<times> Engine" where
  "method_of sha256 (PolicyRegistered policy) e = map_prod (map_sum id (\<lambda>_. ())) id (RegisterPolicy sha256 policy e)"
| "method_of sha256 (MatchTicketSubmitted ticket) e = as_result (SubmitMatchTicket ticket) e"
| "method_of sha256 (BackfillSubmitted ticket) e = as_result (SubmitBackfillTicket ticket) e"
| "method_of sha256 (MatchTicketCancelled i v) e = as_result (Engine_CancelMatchTicket i v) e"
| "method_of sha256 (BackfillCancelled i v w) e = as_result (Engine_CancelBackfillTicket i v w) e"
| "method_of sha256 (ProposalReserved p r now) e = map_prod (map_sum id (\<lambda>_. ())) id (Engine_Reserve p r now e)"
| "method_of sha256 (ReservationConfirmedEvent r a now) e = map_prod (map_sum id (\<lambda>_. ())) id (Engine_Confirm r a now e)"
| "method_of sha256 (ReservationCancelledEvent r now) e = map_prod (map_sum id (\<lambda>_. ())) id (CancelReservation r now e)"
| "method_of sha256 (AssignmentAcknowledged a req now) e =
     map_prod (map_sum id (\<lambda>_. ())) id (Engine_AcknowledgeAssignment a req now e)"
| "method_of sha256 event e = (Inr (), e)"

lemma drop_answer_method: "drop_answer step = drop_answer (map_prod (map_sum id (\<lambda>_. ())) id step)"
  by (simp add: drop_answer_def split: prod.splits sum.splits)

lemma error_answer_method: "error_answer (method e) = drop_answer (as_result method e)"
  by (simp add: drop_answer_def error_answer_def as_result_def split: prod.splits option.splits)

lemma replay_event_method:
  "\<forall>ttl. event \<noteq> RuntimeConfigured ttl \<Longrightarrow> replay_event sha256 e event = drop_answer (method_of sha256 event e)"
proof (cases event)
qed (simp_all add: error_answer_method drop_answer_def split: prod.splits sum.splits)

lemma plans_from_records_append:
  "plans_from_records env plans (xs @ ys) =
     (case plans_from_records env plans xs of Inl e \<Rightarrow> Inl e | Inr plans \<Rightarrow> plans_from_records env plans ys)"
  by (induction env plans xs rule: plans_from_records.induct) (auto split: sum.splits event.splits option.splits)

lemma rebuild_parts:
  "rebuild env ttl records = Inr (e, plans, proposals) \<longleftrightarrow>
     replay (env_sha256 env) ttl records = Inr e \<and> plansFromRecords env records = Inr plans \<and> proposalsFromPlans plans = Inr proposals"
  by (auto simp: rebuild_def split: sum.splits)

text \<open>One more event: the engine replays it, the plans stay.\<close>

lemma rebuild_mutation:
  assumes "rebuild env ttl records = Inr (e, plans, proposals)" "method_of (env_sha256 env) event e = (Inr (), e')"
    "\<forall>ttl. event \<noteq> RuntimeConfigured ttl" "\<forall>plan. event \<noteq> PlanCompleted plan"
  shows "rebuild env ttl (records @ [next_record env records event]) = Inr (e', plans, proposals)"
proof -
  have "event_kind event \<noteq> ''plan_completed''" using assms(4) event_kinds(2) by blast
  then have "plansFromRecords env (records @ [next_record env records event]) = plansFromRecords env records"
    by (simp add: plansFromRecords_def plans_from_records_append split: sum.splits)
  with assms show ?thesis
    by (simp add: rebuild_parts replay_snoc replay_event_method drop_answer_def)
qed

text \<open>One more plan: the engine stays, the plan and its proposals are added.\<close>

lemma index_new_proposals:
  assumes "distinct (map prop_ID ps)" "\<forall>p\<in>set ps. map_of m (prop_ID p) = None"
  shows "index_proposals m ps = Inr (foldl (\<lambda>m p. AList.update (prop_ID p) (CloneProposal p) m) m ps)"
  using assms
proof (induction ps arbitrary: m)
  case (Cons p ps)
  have "index_proposals (AList.update (prop_ID p) (CloneProposal p) m) ps =
      Inr (foldl (\<lambda>m p. AList.update (prop_ID p) (CloneProposal p) m) (AList.update (prop_ID p) (CloneProposal p) m) ps)"
    using Cons.prems by (intro Cons.IH) (auto simp: image_iff)
  with Cons.prems show ?case by simp
qed simp

lemma proposals_from_plans_append:
  "proposals_from_plans m (xs @ ys) =
     (case proposals_from_plans m xs of Inl e \<Rightarrow> Inl e | Inr m \<Rightarrow> proposals_from_plans m ys)"
  by (induction m xs rule: proposals_from_plans.induct) (auto split: sum.splits)

lemma update_absent: "map_of m k = None \<Longrightarrow> AList.update k v m = m @ [(k, v)]"
  by (induction m) (auto split: if_splits)

lemma clonePlanEvent_id [simp]: "clonePlanEvent event = event"
  by (simp add: clonePlanEvent_def map_idI)

lemma rebuild_plan:
  fixes batch
  assumes "rebuild env ttl records = Inr (e, plans, proposals)" "event = newPlanCompletedEvent env i now v batch"
    "i \<noteq> ''''" "map_of plans i = None" "distinct (map prop_ID (batch_Proposals batch))"
    "\<forall>p\<in>set (batch_Proposals batch). map_of proposals (prop_ID p) = None"
  shows "rebuild env ttl (records @ [next_record env records (PlanCompleted event)]) =
    Inr (e, AList.update i event plans,
      foldl (\<lambda>m p. AList.update (prop_ID p) (CloneProposal p) m) proposals (batch_Proposals batch))"
proof -
  note parts = assms(1) [unfolded rebuild_parts]
  have event: "pce_SnapshotID event = i" "pce_Proposals event = batch_Proposals batch"
    by (simp_all add: assms(2) newPlanCompletedEvent_def map_idI)
  have "check_plan env plans event = None"
    using assms(3,4) by (simp add: check_plan_def assms(2) newPlanCompletedEvent_def)
  then have "plansFromRecords env (records @ [next_record env records (PlanCompleted event)]) = Inr (AList.update i event plans)"
    using parts by (simp add: plansFromRecords_def plans_from_records_append event)
  moreover have "proposalsFromPlans (AList.update i event plans) =
      Inr (foldl (\<lambda>m p. AList.update (prop_ID p) (CloneProposal p) m) proposals (batch_Proposals batch))"
    using parts index_new_proposals [OF assms(5,6)]
    by (simp add: proposalsFromPlans_def update_absent [OF assms(4)] proposals_from_plans_append event)
  moreover have "replay (env_sha256 env) ttl (records @ [next_record env records (PlanCompleted event)]) = Inr e"
    using parts by (simp add: replay_snoc)
  ultimately show ?thesis by (simp add: rebuild_parts)
qed

end
