(* ===== verification/Durable_Runs.thy ===== *)
theory Durable_Runs
  imports Durable_Recovery
begin

text \<open>
  Runs of the durable runtime: any sequence of its methods, with any outcomes of the system calls, and
  with crashes after which the file is opened again. The invariant \<open>runtime_inv\<close> holds in each of them.
\<close>

section \<open>The interface\<close>

datatype runtime_call =
    RtRegisterPolicy MatchmakingPolicy
  | RtPolicy string
  | RtSubmitMatchTicket MatchTicket
  | RtSubmitBackfillTicket BackfillTicket
  | RtCancelMatchTicket TicketID Revision
  | RtCancelBackfillTicket TicketID Revision Revision
  | RtPlan SnapshotID Time string
  | RtProposal ProposalID
  | RtReserve MatchProposal ReservationID Time
  | RtConfirm ReservationID AssignmentID Time
  | RtCancelReservation ReservationID Time
  | RtAcknowledge AssignmentID AssignmentAcknowledgmentRequest Time
  | RtAssignment AssignmentID
  | RtReady
  | RtAudit "64 word" int
  | RtAuditSummaries "64 word" int
  | RtClose

datatype runtime_answer =
    AnsFingerprint "PolicyFingerprint durable"
  | AnsPolicy "(MatchmakingPolicy \<times> PolicyFingerprint) option durable"
  | AnsDone "unit durable"
  | AnsBatch "ProposalBatch durable"
  | AnsProposal "MatchProposal option durable"
  | AnsReservation "Reservation durable"
  | AnsAssigned "Assignment durable"
  | AnsAssignment "Assignment option durable"
  | AnsError "durable_error option"
  | AnsRecords "Record list durable"
  | AnsSummaries "AuditSummary list durable"

fun serve_runtime :: "journal_env \<Rightarrow> io \<Rightarrow> runtime_call \<Rightarrow> Runtime \<Rightarrow> runtime_answer \<times> Runtime" where
  "serve_runtime env io (RtRegisterPolicy policy) rt = map_prod AnsFingerprint id (Runtime_RegisterPolicy env io policy rt)"
| "serve_runtime env io (RtPolicy version) rt = (AnsPolicy (Runtime_Policy version rt), rt)"
| "serve_runtime env io (RtSubmitMatchTicket ticket) rt = map_prod AnsDone id (Runtime_SubmitMatchTicket env io ticket rt)"
| "serve_runtime env io (RtSubmitBackfillTicket ticket) rt = map_prod AnsDone id (Runtime_SubmitBackfillTicket env io ticket rt)"
| "serve_runtime env io (RtCancelMatchTicket i v) rt = map_prod AnsDone id (Runtime_CancelMatchTicket env io i v rt)"
| "serve_runtime env io (RtCancelBackfillTicket i v w) rt = map_prod AnsDone id (Runtime_CancelBackfillTicket env io i v w rt)"
| "serve_runtime env io (RtPlan i now v) rt = map_prod AnsBatch id (Runtime_Plan env io i now v rt)"
| "serve_runtime env io (RtProposal i) rt = (AnsProposal (Runtime_Proposal i rt), rt)"
| "serve_runtime env io (RtReserve p r now) rt = map_prod AnsReservation id (Runtime_Reserve env io p r now rt)"
| "serve_runtime env io (RtConfirm r a now) rt = map_prod AnsAssigned id (Runtime_Confirm env io r a now rt)"
| "serve_runtime env io (RtCancelReservation r now) rt = map_prod AnsReservation id (Runtime_CancelReservation env io r now rt)"
| "serve_runtime env io (RtAcknowledge a req now) rt =
     map_prod AnsAssigned id (Runtime_AcknowledgeAssignment env io a req now rt)"
| "serve_runtime env io (RtAssignment a) rt = (AnsAssignment (Runtime_Assignment a rt), rt)"
| "serve_runtime env io RtReady rt = (AnsError (Runtime_Ready rt), rt)"
| "serve_runtime env io (RtAudit after limit) rt = (AnsRecords (Runtime_Audit after limit rt), rt)"
| "serve_runtime env io (RtAuditSummaries after limit) rt = (AnsSummaries (AuditSummaries after limit rt), rt)"
| "serve_runtime env io RtClose rt = map_prod AnsError id (Runtime_Close io rt)"

text \<open>The calls whose time the engine compares with expiry times.\<close>

fun clock_after :: "Time \<Rightarrow> runtime_call \<Rightarrow> Time" where
  "clock_after now (RtPlan i t v) = t"
| "clock_after now (RtReserve p r t) = t"
| "clock_after now (RtConfirm r a t) = t"
| "clock_after now (RtCancelReservation r t) = t"
| "clock_after now call = now"

section \<open>The invariant\<close>

text \<open>Proposal identities name their snapshot, so plans of different snapshots share none.\<close>

definition proposal_id_of :: "SnapshotID \<Rightarrow> ProposalID \<Rightarrow> bool" where
  "proposal_id_of i p \<longleftrightarrow> (\<exists>n h. p = i @ ''/p'' @ decimal4 n @ ''/'' @ h \<and> CHR ''/'' \<notin> set h)"

definition planned_ids :: "(SnapshotID, planCompletedEvent) go_map \<Rightarrow> (ProposalID, MatchProposal) go_map \<Rightarrow> bool" where
  "planned_ids plans proposals \<longleftrightarrow>
     (\<forall>p\<in>dom (map_of proposals). \<exists>i\<in>dom (map_of plans). proposal_id_of i p)"

definition file_ok :: "journal_env \<Rightarrow> Duration \<Rightarrow> journalFile \<Rightarrow> bool" where
  "file_ok env ttl f \<longleftrightarrow> (\<exists>records e plans proposals.
     recover_lines env decode_line [] (file_lines f) = Inr records \<and>
     rebuild env ttl records = Inr (e, plans, proposals) \<and> engine_inv (env_sha256 env) e \<and> planned_ids plans proposals)"

definition mirrors :: "journal_env \<Rightarrow> Engine \<Rightarrow> Runtime \<Rightarrow> bool" where
  "mirrors env e rt \<longleftrightarrow>
     holds_records env (jn_file (rt_journal rt)) (jn_records (rt_journal rt)) \<and>
     rebuild env (rt_reservationTTL rt) (jn_records (rt_journal rt)) = Inr (e, rt_plans rt, rt_proposals rt) \<and>
     engine_inv (env_sha256 env) e \<and> planned_ids (rt_plans rt) (rt_proposals rt)"

definition runtime_inv :: "journal_env \<Rightarrow> Time \<Rightarrow> Runtime \<Rightarrow> bool" where
  "runtime_inv env now rt \<longleftrightarrow>
     0 < rt_reservationTTL rt \<and> file_ok env (rt_reservationTTL rt) (jn_file (rt_journal rt)) \<and>
     jn_closed (rt_journal rt) = rt_closed rt \<and>
     (rt_poisoned rt = None \<longrightarrow> (\<exists>e. mirrors env e rt \<and> lags now e (rt_engine rt)))"

lemma runtime_inv_mono: "runtime_inv env t rt \<Longrightarrow> t \<le> now \<Longrightarrow> runtime_inv env now rt"
  unfolding runtime_inv_def using lags_mono by blast

lemma mirrors_file_ok: "mirrors env e rt \<Longrightarrow> file_ok env (rt_reservationTTL rt) (jn_file (rt_journal rt))"
  unfolding mirrors_def file_ok_def holds_records_def by blast

lemma file_ok_lines: "file_lines f = file_lines g \<Longrightarrow> file_ok env ttl f = file_ok env ttl g"
  by (simp add: file_ok_def)

lemma proposal_id_of_unique:
  assumes "proposal_id_of i p" "proposal_id_of j p"
  shows "i = j"
proof -
  have last: "xs = ys" if eq: "xs @ ''/'' @ h = ys @ ''/'' @ k" and no: "CHR ''/'' \<notin> set h" "CHR ''/'' \<notin> set k" for xs ys h k :: string
  proof -
    have "dropWhile (\<lambda>c. c \<noteq> CHR ''/'') (rev h @ CHR ''/'' # r) = CHR ''/'' # r" if "CHR ''/'' \<notin> set h" for h r
      using that by (subst dropWhile_append2) auto
    note drop = this [OF no(1), of "rev xs"] this [OF no(2), of "rev ys"]
    have "rev h @ CHR ''/'' # rev xs = rev k @ CHR ''/'' # rev ys" using arg_cong [OF eq, of rev] by simp
    with drop show ?thesis by simp
  qed
  have no: "CHR ''/'' \<notin> set (''p'' @ decimal4 n)" for n by (auto simp: decimal4_def decimal_no_slash)
  from assms(1) obtain m h where p: "p = i @ ''/p'' @ decimal4 m @ ''/'' @ h" "CHR ''/'' \<notin> set h"
    unfolding proposal_id_of_def by blast
  from assms(2) obtain n k where q: "p = j @ ''/p'' @ decimal4 n @ ''/'' @ k" "CHR ''/'' \<notin> set k"
    unfolding proposal_id_of_def by blast
  have "(i @ ''/'' @ (''p'' @ decimal4 m)) @ ''/'' @ h = (j @ ''/'' @ (''p'' @ decimal4 n)) @ ''/'' @ k"
    using p(1) q(1) by simp
  from last [OF this p(2) q(2)] show ?thesis by (rule last) (rule no)+
qed

lemma hex_no_slash: "CHR ''/'' \<notin> set (hex_EncodeToString bs)"
proof -
  have "digit_char d \<noteq> CHR ''/''" if "d < 16" for d
  proof -
    have "digit_char d \<in> set ''0123456789abcdef''" using that unfolding digit_char_def by (intro nth_mem) simp
    then show ?thesis by auto
  qed
  moreover have "unat b div 16 < 16" "unat b mod 16 < 16" for b :: byte
    using unsigned_less [of b, where ?'a = nat] by (simp_all add: less_mult_imp_div_less)
  ultimately have "CHR ''/'' \<notin> set (hex_byte b)" for b unfolding hex_byte_def by (metis list.set_cases set_ConsD empty_iff list.set(1))
  then show ?thesis by (simp add: hex_EncodeToString_def)
qed

lemma Plan_proposal_ids:
  assumes "Plan sha256 snapshot = Inr batch"
  shows "distinct (map prop_ID (batch_Proposals batch))"
    "p \<in> set (batch_Proposals batch) \<Longrightarrow> proposal_id_of (snap_ID snapshot) (prop_ID p)"
proof -
  obtain fp cs where batch: "batch_Proposals batch = build_proposals sha256 snapshot fp cs"
    using assms by (auto simp: Plan_def Let_def split: option.splits sum.splits prod.splits if_splits)
  have ids: "\<exists>h. prop_ID (build_proposals sha256 snapshot fp cs ! i) = snap_ID snapshot @ ''/p'' @ decimal4 (Suc i) @ ''/'' @ h \<and>
      CHR ''/'' \<notin> set h"
    if "i < length cs" for i
    using that by (auto simp: build_proposals_def nth_enumerate_eq buildProposal_def Let_def proposalIdentity_def hex_no_slash)
  show "p \<in> set (batch_Proposals batch) \<Longrightarrow> proposal_id_of (snap_ID snapshot) (prop_ID p)"
  proof -
    assume "p \<in> set (batch_Proposals batch)"
    then obtain i where i: "i < length cs" "p = build_proposals sha256 snapshot fp cs ! i"
      unfolding batch in_set_conv_nth build_proposals_sel(3) by blast
    show ?thesis unfolding proposal_id_of_def i(2) using ids [OF i(1)] by blast
  qed
  have "map prop_ID (build_proposals sha256 snapshot fp cs) ! i \<noteq> map prop_ID (build_proposals sha256 snapshot fp cs) ! j"
    if ij: "i < length cs" "j < length cs" "i \<noteq> j" for i j
  proof
    assume "map prop_ID (build_proposals sha256 snapshot fp cs) ! i = map prop_ID (build_proposals sha256 snapshot fp cs) ! j"
    with ids [OF ij(1)] ids [OF ij(2)] ij obtain h k where
      "decimal4 (Suc j) @ ''/'' @ h = decimal4 (Suc i) @ ''/'' @ k" by (auto simp: build_proposals_sel(3))
    then have "Suc j = Suc i" by (rule decimal4_slash_prefix)
    with ij show False by simp
  qed
  then show "distinct (map prop_ID (batch_Proposals batch))"
    by (simp add: batch distinct_conv_nth build_proposals_sel(3))
qed

section \<open>Persisting keeps it\<close>

lemma journal_reload_cases:
  assumes "\<not> jn_closed j" "journal_reload env io (j\<lparr>jn_file := f\<lparr>file_tail := k\<rparr>\<rparr>) = (answer, j')" "holds_records env f records"
  shows "jn_closed j' = jn_closed j" "file_lines (jn_file j') = file_lines f"
    "answer = Inr found \<Longrightarrow> found = records \<and> jn_records j' = records \<and> holds_records env (jn_file j') records"
proof -
  obtain out g where rec: "recoverRecords env io (f\<lparr>file_tail := k\<rparr>) = (out, g)" by fastforce
  then have lines: "file_lines g = file_lines f" by (auto simp: recoverRecords_def Let_def split: if_splits)
  show "jn_closed j' = jn_closed j" "file_lines (jn_file j') = file_lines f"
    using assms(1,2) rec lines by (auto simp: journal_reload_def split: sum.splits if_splits)
  show "answer = Inr found \<Longrightarrow> found = records \<and> jn_records j' = records \<and> holds_records env (jn_file j') records"
  proof -
    assume "answer = Inr found"
    with assms(1,2) rec obtain fs where fs: "out = Inr fs" "found = fs" "jn_records j' = fs" "jn_file j' = g"
      by (auto simp: journal_reload_def split: sum.splits if_splits)
    with recoverRecords_holds [OF assms(3), of io k fs g] rec show ?thesis by simp
  qed
qed

lemma mirrors_engine [simp]: "mirrors env e (rt\<lparr>rt_engine := e'\<rparr>) = mirrors env e rt"
  by (simp add: mirrors_def)

lemma persist_unwritten:
  assumes step: "persistLocked env io event rt = (answer, rt')" and ttl: "0 < rt_reservationTTL rt"
    and closed: "\<not> jn_closed (rt_journal rt)" "\<not> rt_closed rt"
    and app: "journal_append env io event (rt_journal rt) = (Some x, (rt_journal rt)\<lparr>jn_file := f\<lparr>file_tail := k\<rparr>\<rparr>)"
    and f: "holds_records env f records"
    and good: "rebuild env (rt_reservationTTL rt) records = Inr (g, ps, qs)" "engine_inv (env_sha256 env) g" "planned_ids ps qs"
  shows "answer \<noteq> None" "runtime_inv env now rt'"
proof -
  obtain out j' where reload: "journal_reload env io ((rt_journal rt)\<lparr>jn_file := f\<lparr>file_tail := k\<rparr>\<rparr>) = (out, j')" by fastforce
  note cases = journal_reload_cases [OF closed(1) reload f]
  have "file_ok env (rt_reservationTTL rt) f" using f good unfolding file_ok_def holds_records_def by blast
  then have ok: "file_ok env (rt_reservationTTL rt) (jn_file j')" using file_ok_lines [OF cases(2)] by simp
  have "answer \<noteq> None \<and> runtime_inv env now rt'"
  proof (cases out)
    case (Inl y)
    have "(answer, rt') = (Some (Joined x y), rt\<lparr>rt_journal := j', rt_poisoned := Some (Joined x y)\<rparr>)"
      unfolding step [symmetric] persistLocked_def app by (simp add: reload Inl)
    with ok ttl closed cases(1) show ?thesis by (simp add: runtime_inv_def)
  next
    case (Inr found)
    note found = cases(3) [OF this]
    have rt': "(answer, rt') = (Some x, rt\<lparr>rt_journal := j', rt_engine := g, rt_plans := ps, rt_proposals := qs\<rparr>)"
      unfolding step [symmetric] persistLocked_def app by (simp add: reload Inr found good(1))
    then have "mirrors env (rt_engine rt') rt'" using found good by (simp add: mirrors_def)
    moreover have "0 < rt_reservationTTL rt'" "jn_closed (rt_journal rt') = rt_closed rt'" "rt_reservationTTL rt' = rt_reservationTTL rt"
      using rt' ttl closed cases(1) by simp_all
    ultimately have "runtime_inv env now rt'" using mirrors_file_ok [of env "rt_engine rt'" rt'] unfolding runtime_inv_def
      by (metis lags_refl)
    with rt' show ?thesis by simp
  qed
  then show "answer \<noteq> None" "runtime_inv env now rt'" by simp_all
qed

text \<open>
  Persisting an event that the records' rebuild accepts: success adds the record; failure leaves a file that
  opens, and, when the file could be read back, a runtime that is exactly what it would open as.
\<close>

lemma persistLocked_keeps:
  assumes m: "mirrors env e rt" and ttl: "0 < rt_reservationTTL rt" and clean: "json_event event \<in> {None, Some event}"
    and closed: "\<not> jn_closed (rt_journal rt)" "\<not> rt_closed rt"
    and new: "rebuild env (rt_reservationTTL rt) (jn_records (rt_journal rt) @ [next_record env (jn_records (rt_journal rt)) event]) =
      Inr (e', plans, proposals)" "engine_inv (env_sha256 env) e'" "planned_ids plans proposals"
    and step: "persistLocked env io event rt = (answer, rt')"
  obtains (persisted) j' where "answer = None" "rt' = rt\<lparr>rt_journal := j'\<rparr>" "\<not> jn_closed j'"
      "mirrors env e' (rt'\<lparr>rt_plans := plans, rt_proposals := proposals\<rparr>)"
  | (rolled_back) x where "answer = Some x" "\<And>now. runtime_inv env now rt'"
proof -
  let ?j = "rt_journal rt" and ?r = "next_record env (jn_records (rt_journal rt)) event"
  have holds: "holds_records env (jn_file ?j) (jn_records ?j)"
    and old: "rebuild env (rt_reservationTTL rt) (jn_records ?j) = Inr (e, rt_plans rt, rt_proposals rt)"
      "engine_inv (env_sha256 env) e" "planned_ids (rt_plans rt) (rt_proposals rt)"
    using m by (simp_all add: mirrors_def)
  let ?full = "(jn_file ?j)\<lparr>file_lines := file_lines (jn_file ?j) @ [Line ?r]\<rparr>"
  note full = holds_records_snoc [OF holds, of event]
  note failure = persist_unwritten [OF step ttl closed]
  from closed(1) holds clean show thesis
  proof (cases rule: journal_append_cases [of ?j env event io])
    case appended
    then have "(answer, rt') = (None, rt\<lparr>rt_journal := ?j\<lparr>jn_file := ?full, jn_records := jn_records ?j @ [?r]\<rparr>\<rparr>)"
      unfolding step [symmetric] persistLocked_def by simp
    then show thesis
      using full new closed(1)
      by (intro persisted [of "?j\<lparr>jn_file := ?full, jn_records := jn_records ?j @ [?r]\<rparr>"]) (simp_all add: mirrors_def)
  next
    case (failed x k)
    from failure [OF failed holds old] show thesis using rolled_back by blast
  next
    case (unanswered x)
    have "?full\<lparr>file_tail := 0\<rparr> = ?full" using holds by (simp add: holds_records_def)
    then have "journal_append env io event ?j = (Some x, ?j\<lparr>jn_file := ?full\<lparr>file_tail := 0\<rparr>\<rparr>)" using unanswered by simp
    from failure [OF this full new] show thesis using rolled_back by blast
  qed
qed

lemma runtime_invI:
  assumes "mirrors env e rt" "lags now e (rt_engine rt)" "0 < rt_reservationTTL rt" "jn_closed (rt_journal rt) = rt_closed rt"
  shows "runtime_inv env now rt"
  using assms mirrors_file_ok [OF assms(1)] unfolding runtime_inv_def by blast

section \<open>Every method keeps it\<close>

lemma runtime_inv_ready:
  assumes "runtime_inv env t rt" "readyLocked rt = None" "t \<le> now"
  obtains e where "mirrors env e rt" "lags now e (rt_engine rt)" "engine_inv (env_sha256 env) e"
    "0 < rt_reservationTTL rt" "\<not> rt_closed rt" "\<not> jn_closed (rt_journal rt)" "rt_poisoned rt = None"
proof -
  have "\<not> rt_closed rt" "rt_poisoned rt = None" using assms(2) by (simp_all add: readyLocked_def split: if_splits option.splits)
  moreover from this assms(1) obtain e where e: "mirrors env e rt" "lags t e (rt_engine rt)" by (auto simp: runtime_inv_def)
  moreover have "lags now e (rt_engine rt)" using e(2) assms(3) by (rule lags_mono)
  moreover have "engine_inv (env_sha256 env) e" using e(1) by (simp add: mirrors_def)
  ultimately show thesis using assms(1) that unfolding runtime_inv_def by blast
qed

text \<open>A mutation whose method is the method of its event.\<close>

lemma mutation_keeps:
  assumes inv: "runtime_inv env t rt" "t \<le> now"
    and blind: "expiry_blind (env_sha256 env) now method"
    and quiet: "\<And>e. lags now e (rt_engine rt) \<Longrightarrow> engine_inv (env_sha256 env) e \<Longrightarrow> refuses_quietly now method e"
    and same: "\<And>e. method_of (env_sha256 env) event e = (map_sum id (\<lambda>_. ()) (fst (method e)), snd (method e))"
    and kind: "\<forall>ttl. event \<noteq> RuntimeConfigured ttl" "\<forall>plan. event \<noteq> PlanCompleted plan"
    and clean: "json_event event \<in> {None, Some event}"
  shows "runtime_inv env now (snd (mutation env io event method rt))"
proof (cases "readyLocked rt")
  case (Some x)
  then show ?thesis using inv runtime_inv_mono by (simp add: mutation_def)
next
  case ready: None
  from inv(1) ready inv(2) obtain e where e: "mirrors env e rt" "lags now e (rt_engine rt)" "engine_inv (env_sha256 env) e"
    and rt: "0 < rt_reservationTTL rt" "\<not> rt_closed rt" "\<not> jn_closed (rt_journal rt)" "rt_poisoned rt = None"
    by (rule runtime_inv_ready)
  note step = expiry_blindD [OF blind e(3,2)]
  obtain answer engine where live: "method (rt_engine rt) = (answer, engine)" by fastforce
  show ?thesis
  proof (cases answer)
    case (Inl x)
    have "fst (method e) = Inl x" using step(2) live Inl by simp
    then have "snd (method e) \<in> {e, advance now e}"
      using quiet [OF e(2,3)] unfolding refuses_quietly_def by (metis prod.collapse)
    then have "lags now e engine" using refusal_lags [OF blind e(3,2)] live by simp
    with e(1) rt have "runtime_inv env now (rt\<lparr>rt_engine := engine\<rparr>)" by (intro runtime_invI [of env e]) simp_all
    then show ?thesis using ready live Inl by (simp add: mutation_def)
  next
    case (Inr a)
    let ?rt = "rt\<lparr>rt_engine := engine\<rparr>"
    have "fst (method e) = Inr a" using step(2) live Inr by simp
    then have "method_of (env_sha256 env) event e = (Inr (), snd (method e))" using same [of e] by simp
    moreover have "rebuild env (rt_reservationTTL rt) (jn_records (rt_journal rt)) = Inr (e, rt_plans rt, rt_proposals rt)"
      using e(1) by (simp add: mirrors_def)
    ultimately have new: "rebuild env (rt_reservationTTL ?rt) (jn_records (rt_journal ?rt) @ [next_record env (jn_records (rt_journal ?rt)) event]) =
        Inr (snd (method e), rt_plans rt, rt_proposals rt)"
      using rebuild_mutation [OF _ _ kind] by simp
    have ids: "planned_ids (rt_plans rt) (rt_proposals rt)" and m: "mirrors env e ?rt" using e(1) by (simp_all add: mirrors_def)
    obtain out rt' where p: "persistLocked env io event ?rt = (out, rt')" by fastforce
    have res: "snd (mutation env io event method rt) = rt'"
      using ready live Inr p by (simp add: mutation_def split: option.splits)
    have t: "0 < rt_reservationTTL ?rt" "\<not> jn_closed (rt_journal ?rt)" "\<not> rt_closed ?rt" using rt by simp_all
    show ?thesis
    proof (cases rule: persistLocked_keeps [OF m t(1) clean t(2,3) new step(1) ids p, case_names persisted rolled_back])
      case (persisted j')
      then have "mirrors env (snd (method e)) rt'" by (simp add: mirrors_def)
      moreover have "lags now (snd (method e)) (rt_engine rt')" using step(3) live persisted(2) by simp
      ultimately show ?thesis unfolding res using rt persisted(2,3) by (intro runtime_invI) simp_all
    next
      case (rolled_back x)
      then show ?thesis unfolding res by blast
    qed
  qed
qed

lemma Runtime_Plan_keeps:
  assumes inv: "runtime_inv env t rt" "t \<le> now"
    and clean: "\<And>batch. fst (Engine_Plan (env_sha256 env) i now v (rt_engine rt)) = Inr batch \<Longrightarrow>
      json_event (PlanCompleted (newPlanCompletedEvent env i now v batch)) \<in>
        {None, Some (PlanCompleted (newPlanCompletedEvent env i now v batch))}"
  shows "runtime_inv env now (snd (Runtime_Plan env io i now v rt))"
proof (cases "readyLocked rt = None \<and> map_of (rt_plans rt) i = None")
  case False
  then have "snd (Runtime_Plan env io i now v rt) = rt"
    by (cases "readyLocked rt"; cases "map_of (rt_plans rt) i") (simp_all add: Runtime_Plan_def)
  then show ?thesis using runtime_inv_mono [OF inv] by simp
next
  case True
  then have ready: "readyLocked rt = None" and fresh: "map_of (rt_plans rt) i = None" by simp_all
  from inv(1) ready inv(2) obtain e where e: "mirrors env e rt" "lags now e (rt_engine rt)" "engine_inv (env_sha256 env) e"
    and rt: "0 < rt_reservationTTL rt" "\<not> rt_closed rt" "\<not> jn_closed (rt_journal rt)" "rt_poisoned rt = None"
    by (rule runtime_inv_ready)
  obtain answer engine where live: "Engine_Plan (env_sha256 env) i now v (rt_engine rt) = (answer, engine)" by fastforce
  have lag: "lags now e engine"
    using refusal_lags [OF blind_Engine_Plan e(3,2) Engine_Plan_quiet, of i v] live by simp
  let ?rt = "rt\<lparr>rt_engine := engine\<rparr>"
  show ?thesis
  proof (cases answer)
    case (Inl x)
    from e(1) lag rt have "runtime_inv env now ?rt" by (intro runtime_invI [of env e]) simp_all
    then show ?thesis using ready fresh live Inl by (simp add: Runtime_Plan_def)
  next
    case (Inr batch)
    let ?event = "newPlanCompletedEvent env i now v batch"
    let ?plans = "AList.update i ?event (rt_plans rt)"
    let ?props = "foldl (\<lambda>m p. AList.update (prop_ID p) (CloneProposal p) m) (rt_proposals rt) (batch_Proposals batch)"
    obtain entry s d where "Catalog_Get v (eng_policies (rt_engine rt)) = Some entry"
      and s: "Snapshot i now (entry_Policy entry) (eng_coordinator (rt_engine rt)) = (Inr s, d)"
      and "engine = (rt_engine rt)\<lparr>eng_coordinator := d\<rparr>" and plan: "Plan (env_sha256 env) s = Inr batch"
      and "snap_Policy s = entry_Policy entry" by (rule Engine_Plan_Inr [OF live [unfolded Inr]])
    have sid: "snap_ID s = i" "i \<noteq> ''''"
      using Snapshot_conv(2,3) [OF s] by (simp_all add: ValidateSnapshot_None)
    note ids = Plan_proposal_ids [OF plan, unfolded sid(1)]
    have planned: "planned_ids (rt_plans rt) (rt_proposals rt)" and m: "mirrors env e ?rt"
      and old: "rebuild env (rt_reservationTTL rt) (jn_records (rt_journal rt)) = Inr (e, rt_plans rt, rt_proposals rt)"
      using e(1) by (simp_all add: mirrors_def)
    have free: "\<forall>p\<in>set (batch_Proposals batch). map_of (rt_proposals rt) (prop_ID p) = None"
    proof
      fix p assume p: "p \<in> set (batch_Proposals batch)"
      show "map_of (rt_proposals rt) (prop_ID p) = None"
      proof (rule ccontr)
        assume "map_of (rt_proposals rt) (prop_ID p) \<noteq> None"
        then obtain k where "k \<in> dom (map_of (rt_plans rt))" "proposal_id_of k (prop_ID p)"
          using planned unfolding planned_ids_def by blast
        moreover from this have "k = i" using proposal_id_of_unique ids(2) [OF p] by blast
        ultimately show False using fresh by (simp add: domIff)
      qed
    qed
    have new: "rebuild env (rt_reservationTTL ?rt)
        (jn_records (rt_journal ?rt) @ [next_record env (jn_records (rt_journal ?rt)) (PlanCompleted ?event)]) = Inr (e, ?plans, ?props)"
      using rebuild_plan [OF old refl sid(2) fresh ids(1) free] by simp
    have planned': "planned_ids ?plans ?props"
    proof -
      have dom: "dom (map_of (foldl (\<lambda>m p. AList.update (prop_ID p) (CloneProposal p) m) m ps)) = dom (map_of m) \<union> prop_ID ` set ps"
        for m and ps :: "MatchProposal list" by (induction ps arbitrary: m) auto
      show ?thesis unfolding planned_ids_def dom
      proof
        fix k assume "k \<in> dom (map_of (rt_proposals rt)) \<union> prop_ID ` set (batch_Proposals batch)"
        then consider j where "j \<in> dom (map_of (rt_plans rt))" "proposal_id_of j k" | "proposal_id_of i k"
          using planned ids(2) unfolding planned_ids_def by blast
        then show "\<exists>j\<in>dom (map_of ?plans). proposal_id_of j k" by cases (simp_all, blast)
      qed
    qed
    obtain out rt' where p: "persistLocked env io (PlanCompleted ?event) ?rt = (out, rt')" by fastforce
    have event_id: "pce_SnapshotID ?event = i" by (simp add: newPlanCompletedEvent_def)
    have res: "snd (Runtime_Plan env io i now v rt) = (if out = None then record_plan ?event batch rt' else rt')"
      using ready fresh live Inr p by (simp add: Runtime_Plan_def Let_def split: option.splits)
    have t: "0 < rt_reservationTTL ?rt" "\<not> jn_closed (rt_journal ?rt)" "\<not> rt_closed ?rt" using rt by simp_all
    have clean': "json_event (PlanCompleted ?event) \<in> {None, Some (PlanCompleted ?event)}" using clean live Inr by simp
    show ?thesis
    proof (cases rule: persistLocked_keeps [OF m t(1) clean' t(2,3) new e(3) planned' p, case_names persisted rolled_back])
      case (persisted j')
      have rec: "record_plan ?event batch rt' = rt'\<lparr>rt_plans := ?plans, rt_proposals := ?props\<rparr>"
        using persisted(2) by (simp add: record_plan_def event_id)
      have "mirrors env e (record_plan ?event batch rt')" unfolding rec by (rule persisted(4))
      then have "runtime_inv env now (record_plan ?event batch rt')"
        using lag rt persisted(2,3) by (intro runtime_invI [of env e]) (simp_all add: record_plan_def)
      then show ?thesis using persisted(1) by (simp add: res)
    next
      case (rolled_back x)
      then show ?thesis by (simp add: res)
    qed
  qed
qed

section \<open>Runs\<close>

text \<open>The event a call journals when it succeeds; a plan's depends on the batch.\<close>

fun event_of :: "runtime_call \<Rightarrow> event option" where
  "event_of (RtRegisterPolicy policy) = Some (PolicyRegistered policy)"
| "event_of (RtSubmitMatchTicket ticket) = Some (MatchTicketSubmitted ticket)"
| "event_of (RtSubmitBackfillTicket ticket) = Some (BackfillSubmitted ticket)"
| "event_of (RtCancelMatchTicket i v) = Some (MatchTicketCancelled i v)"
| "event_of (RtCancelBackfillTicket i v w) = Some (BackfillCancelled i v w)"
| "event_of (RtReserve p r now) = Some (ProposalReserved p r now)"
| "event_of (RtConfirm r a now) = Some (ReservationConfirmedEvent r a now)"
| "event_of (RtCancelReservation r now) = Some (ReservationCancelledEvent r now)"
| "event_of (RtAcknowledge a req now) = Some (AssignmentAcknowledged a req now)"
| "event_of call = None"

text \<open>The event, if it can be written at all, is read back as it was: its strings are valid UTF-8.\<close>

definition readable :: "event \<Rightarrow> bool" where
  "readable event \<longleftrightarrow> json_event event \<in> {None, Some event}"

fun readable_call :: "journal_env \<Rightarrow> runtime_call \<Rightarrow> Runtime \<Rightarrow> bool" where
  "readable_call env (RtPlan i now v) rt =
     (case fst (Engine_Plan (env_sha256 env) i now v (rt_engine rt)) of
        Inl e \<Rightarrow> True
      | Inr batch \<Rightarrow> readable (PlanCompleted (newPlanCompletedEvent env i now v batch)))"
| "readable_call env call rt = (case event_of call of None \<Rightarrow> True | Some event \<Rightarrow> readable event)"

fun stale_call :: "runtime_call \<Rightarrow> Runtime \<Rightarrow> bool" where
  "stale_call (RtConfirm r a now) rt = stale_confirm r now (eng_coordinator (rt_engine rt))"
| "stale_call call rt = False"

text \<open>The clock does not run backwards, strings are text, and no confirmation is refused as stale.\<close>

definition orderly :: "journal_env \<Rightarrow> Time \<Rightarrow> runtime_call \<Rightarrow> Runtime \<Rightarrow> bool" where
  "orderly env now call rt \<longleftrightarrow> now \<le> clock_after now call \<and> readable_call env call rt \<and> \<not> stale_call call rt"

lemma stale_confirm_lags:
  assumes "engine_inv sha256 e" "lags now e live"
  shows "stale_confirm r now (eng_coordinator live) = stale_confirm r now (eng_coordinator e)"
proof -
  have "expireLocked now (eng_coordinator live) = expireLocked now (eng_coordinator e)"
    using assms(2) expireLocked_twice [OF engine_inv_keys [OF assms(1)]] by (auto simp: lags_def)
  then show ?thesis unfolding stale_confirm_def by (simp only:)
qed

lemma Runtime_Close_keeps: "runtime_inv env now rt \<Longrightarrow> runtime_inv env now (snd (Runtime_Close io rt))"
  by (auto simp: Runtime_Close_def journal_Close_def runtime_inv_def mirrors_def)

lemma forget_answer: "map_prod (map_sum id (\<lambda>_. ())) id p = (map_sum id (\<lambda>_. ()) (fst p), snd p)"
  by (cases p) simp

lemma map_sum_unit [simp]: "map_sum id (\<lambda>_. ()) (s :: 'a + unit) = s"
  by (cases s) simp_all

lemmas runtime_mutations = Runtime_RegisterPolicy_def Runtime_SubmitMatchTicket_def Runtime_SubmitBackfillTicket_def
  Runtime_CancelMatchTicket_def Runtime_CancelBackfillTicket_def Runtime_Reserve_def Runtime_Confirm_def
  Runtime_CancelReservation_def Runtime_AcknowledgeAssignment_def

lemmas keeps = runtime_mutations readable_def blind_methods blind_RegisterPolicy blind_as_result quiet_clockless quiet_timed
  forget_answer

lemma serve_keeps:
  assumes inv: "runtime_inv env t rt" and ok: "orderly env t call rt"
  shows "runtime_inv env (clock_after t call) (snd (serve_runtime env io call rt))"
proof -
  have clock: "t \<le> clock_after t call" and stale: "\<not> stale_call call rt" and readable: "readable_call env call rt"
    using ok by (simp_all add: orderly_def)
  note keep = mutation_keeps [OF inv clock]
  show ?thesis
  proof (cases call)
    case (RtPlan i now v)
    have "runtime_inv env now (snd (Runtime_Plan env io i now v rt))"
      using readable clock by (intro Runtime_Plan_keeps [OF inv]) (simp_all add: RtPlan readable_def)
    with RtPlan show ?thesis by simp
  next
    case (RtConfirm r a now)
    have "refuses_quietly now (Engine_Confirm r a now) e"
      if "lags now e (rt_engine rt)" "engine_inv (env_sha256 env) e" for e
      using stale stale_confirm_lags [OF that(2,1), of r] by (intro quiet_timed(3)) (simp add: RtConfirm)
    with RtConfirm readable show ?thesis
      using keep [of "Engine_Confirm r a now" "ReservationConfirmedEvent r a now"]
      by (simp add: keeps del: json_event.simps)
  next
    case (RtRegisterPolicy policy)
    with readable show ?thesis
      using keep [of "RegisterPolicy (env_sha256 env) policy" "PolicyRegistered policy" io] by (simp add: keeps del: json_event.simps)
  next
    case (RtSubmitMatchTicket ticket)
    with readable show ?thesis
      using keep [of "as_result (SubmitMatchTicket ticket)" "MatchTicketSubmitted ticket" io] by (simp add: keeps del: json_event.simps)
  next
    case (RtSubmitBackfillTicket ticket)
    with readable show ?thesis
      using keep [of "as_result (SubmitBackfillTicket ticket)" "BackfillSubmitted ticket" io] by (simp add: keeps del: json_event.simps)
  next
    case (RtCancelMatchTicket i v)
    with readable show ?thesis
      using keep [of "as_result (Engine_CancelMatchTicket i v)" "MatchTicketCancelled i v" io] by (simp add: keeps del: json_event.simps)
  next
    case (RtCancelBackfillTicket i v w)
    with readable show ?thesis
      using keep [of "as_result (Engine_CancelBackfillTicket i v w)" "BackfillCancelled i v w" io] by (simp add: keeps del: json_event.simps)
  next
    case (RtReserve p r now)
    with readable show ?thesis
      using keep [of "Engine_Reserve p r now" "ProposalReserved p r now" io] by (simp add: keeps del: json_event.simps)
  next
    case (RtCancelReservation r now)
    with readable show ?thesis
      using keep [of "CancelReservation r now" "ReservationCancelledEvent r now" io] by (simp add: keeps del: json_event.simps)
  next
    case (RtAcknowledge a req now)
    with readable show ?thesis
      using keep [of "Engine_AcknowledgeAssignment a req now" "AssignmentAcknowledged a req now" io] by (simp add: keeps del: json_event.simps)
  qed (use inv in \<open>simp_all add: Runtime_Close_keeps\<close>)
qed

section \<open>Opening\<close>

text \<open>The calls \<open>Open\<close> makes on a file that holds records already.\<close>

definition opens :: "io \<Rightarrow> bool" where
  "opens io \<longleftrightarrow> io_open io \<and> io_reload_seek io \<and> io_reload_read io \<and> io_reload_truncate io \<and> io_reload_sync io \<and>
     io_reload_seek_end io"

lemma openJournal_records:
  assumes "recover_lines env decode_line [] (file_lines f) = Inr records" "openJournal env io path f = (Inr j, g)"
  shows "j = \<lparr>jn_file = f\<lparr>file_tail := 0\<rparr>, jn_records = records, jn_closed = False\<rparr>"
  using assms by (auto simp: openJournal_def recoverRecords_def Let_def split: if_splits sum.splits prod.splits)

lemma openJournal_opens:
  assumes "recover_lines env decode_line [] (file_lines f) = Inr records" "opens io" "path \<noteq> ''''"
  shows "openJournal env io path f = (Inr \<lparr>jn_file = f\<lparr>file_tail := 0\<rparr>, jn_records = records, jn_closed = False\<rparr>, f\<lparr>file_tail := 0\<rparr>)"
  using assms by (simp add: openJournal_def recoverRecords_def opens_def Let_def)

lemma rebuild_nonempty: "rebuild env ttl records = Inr x \<Longrightarrow> records \<noteq> []"
  by (auto simp: rebuild_def replay_def)

definition opened :: "Duration \<Rightarrow> journalFile \<Rightarrow> Record list \<Rightarrow> Engine \<Rightarrow> (SnapshotID, planCompletedEvent) go_map \<Rightarrow>
    (ProposalID, MatchProposal) go_map \<Rightarrow> Runtime" where
  "opened ttl f records e plans proposals =
     \<lparr>rt_reservationTTL = ttl, rt_journal = \<lparr>jn_file = f\<lparr>file_tail := 0\<rparr>, jn_records = records, jn_closed = False\<rparr>,
      rt_engine = e, rt_plans = plans, rt_proposals = proposals, rt_closed = False, rt_poisoned = None\<rparr>"

lemma Open_records:
  assumes "recover_lines env decode_line [] (file_lines f) = Inr records" "rebuild env ttl records = Inr (e, plans, proposals)"
  shows "Open env io path ttl f = (Inr rt, g) \<Longrightarrow> rt = opened ttl f records e plans proposals"
    "0 < ttl \<Longrightarrow> opens io \<Longrightarrow> path \<noteq> '''' \<Longrightarrow> fst (Open env io path ttl f) = Inr (opened ttl f records e plans proposals)"
proof -
  have r: "records \<noteq> []" using assms(2) by (rule rebuild_nonempty)
  {
    assume o: "Open env io path ttl f = (Inr rt, g)"
    obtain out h where "openJournal env io path f = (out, h)" by fastforce
    with o obtain j where j: "openJournal env io path f = (Inr j, h)" by (cases out) (auto simp: Open_def split: if_splits)
    from openJournal_records [OF assms(1) j] o j r assms(2) show "rt = opened ttl f records e plans proposals"
      by (auto simp: Open_def open_runtime_def opened_def split: if_splits)
  }
  assume "0 < ttl" "opens io" "path \<noteq> ''''"
  with openJournal_opens [OF assms(1)] r assms(2) show "fst (Open env io path ttl f) = Inr (opened ttl f records e plans proposals)"
    by (simp add: Open_def open_runtime_def opened_def)
qed

lemma Open_positive: "Open env io path ttl f = (Inr rt, g) \<Longrightarrow> 0 < ttl"
  by (auto simp: Open_def split: if_splits)

lemma opened_mirrors:
  assumes "recover_lines env decode_line [] (file_lines f) = Inr records" "rebuild env ttl records = Inr (e, plans, proposals)"
    "engine_inv (env_sha256 env) e" "planned_ids plans proposals"
  shows "mirrors env e (opened ttl f records e plans proposals)"
  using assms by (simp add: mirrors_def opened_def holds_records_def)

text \<open>Opening a file that can be replayed.\<close>

lemma Open_keeps:
  assumes "file_ok env ttl f" "Open env io path ttl f = (Inr rt, g)"
  shows "runtime_inv env now rt" "rt_reservationTTL rt = ttl" "file_lines (jn_file (rt_journal rt)) = file_lines f"
proof -
  obtain records e plans proposals where f: "recover_lines env decode_line [] (file_lines f) = Inr records"
    "rebuild env ttl records = Inr (e, plans, proposals)" "engine_inv (env_sha256 env) e" "planned_ids plans proposals"
    using assms(1) unfolding file_ok_def by blast
  have rt: "rt = opened ttl f records e plans proposals" using f(1,2) assms(2) by (rule Open_records)
  have "mirrors env e rt" unfolding rt using f by (rule opened_mirrors)
  moreover have sel: "rt_engine rt = e" "rt_reservationTTL rt = ttl" "jn_closed (rt_journal rt) = rt_closed rt"
    "file_lines (jn_file (rt_journal rt)) = file_lines f"
    by (simp_all add: rt opened_def)
  ultimately show "runtime_inv env now rt" using Open_positive [OF assms(2)] by (intro runtime_invI [of env e]) simp_all
  show "rt_reservationTTL rt = ttl" "file_lines (jn_file (rt_journal rt)) = file_lines f" by (rule sel)+
qed

text \<open>Opening an empty file writes the configuration first.\<close>

lemma rebuild_configuration:
  assumes "0 < ttl" "Engine_New ttl = Inr e"
  shows "rebuild env ttl [next_record env [] (RuntimeConfigured ttl)] = Inr (e, [], [])"
  using assms by (simp add: rebuild_parts replay_def plansFromRecords_def proposalsFromPlans_def)

lemma Open_new_keeps:
  assumes "file_lines f = []" "Open env io path ttl f = (Inr rt, g)"
  shows "runtime_inv env now rt" "rt_reservationTTL rt = ttl"
proof -
  have ttl: "0 < ttl" using assms(2) by (rule Open_positive)
  obtain e where e: "Engine_New ttl = Inr e" using ttl by (simp add: Engine_New_def Coordinator_New_def)
  note built = rebuild_configuration [OF ttl e, of env]
  have inv: "engine_inv (env_sha256 env) e" using e by (rule Engine_New_inv)
  have none: "recover_lines env decode_line [] (file_lines f) = Inr []" by (simp add: assms(1))
  obtain out h where oj: "openJournal env io path f = (out, h)" by fastforce
  with assms(2) ttl obtain j where j: "openJournal env io path f = (Inr j, h)" by (cases out) (auto simp: Open_def)
  note jeq = openJournal_records [OF none j]
  have holds: "holds_records env (jn_file j) (jn_records j)" "\<not> jn_closed j" "jn_records j = []"
    by (simp_all add: jeq holds_records_def assms(1))
  have "\<exists>j'. journal_append env io (RuntimeConfigured ttl) j = (None, j') \<and> open_runtime env ttl j' = Inr rt"
    using assms(2) ttl j holds(3) by (auto simp: Open_def split: prod.splits option.splits)
  then obtain j' where j': "journal_append env io (RuntimeConfigured ttl) j = (None, j')" "open_runtime env ttl j' = Inr rt" by blast
  have clean: "json_event (RuntimeConfigured ttl) \<in> {None, Some (RuntimeConfigured ttl)}" by simp
  note full = holds_records_snoc [OF holds(1), of "RuntimeConfigured ttl"]
  have "holds_records env (jn_file j') [next_record env [] (RuntimeConfigured ttl)] \<and>
      jn_records j' = [next_record env [] (RuntimeConfigured ttl)] \<and> \<not> jn_closed j'"
  proof (cases rule: journal_append_cases [OF holds(2,1) clean, of io, case_names appended failed unanswered])
    case appended
    with full holds(2,3) j'(1) show ?thesis by auto
  qed (use j'(1) in simp_all)
  moreover from this have "rt = \<lparr>rt_reservationTTL = ttl, rt_journal = j', rt_engine = e, rt_plans = [], rt_proposals = [],
      rt_closed = False, rt_poisoned = None\<rparr>"
    using j'(2) built by (simp add: open_runtime_def)
  ultimately have "mirrors env e rt \<and> jn_closed (rt_journal rt) = rt_closed rt \<and> rt_engine rt = e \<and> rt_reservationTTL rt = ttl"
    using built inv by (simp add: mirrors_def planned_ids_def)
  then show "runtime_inv env now rt" "rt_reservationTTL rt = ttl" using ttl runtime_invI [of env e rt now] by simp_all
qed

section \<open>Runs with crashes\<close>

text \<open>
  A crash loses the process and may leave some bytes of a line behind; the next process opens the file.
  A crash after the bytes of a complete line are in the file, and before the call returns, is a call whose
  sync, rollback and reload fail, followed by a crash.
\<close>

inductive durable_step :: "journal_env \<Rightarrow> Duration \<Rightarrow> Time \<times> Runtime \<Rightarrow> Time \<times> Runtime \<Rightarrow> bool" for env ttl where
  served: "orderly env now call rt \<Longrightarrow>
    durable_step env ttl (now, rt) (clock_after now call, snd (serve_runtime env io call rt))"
| crashed: "file_lines f = file_lines (jn_file (rt_journal rt)) \<Longrightarrow> Open env io path ttl f = (Inr rt', g) \<Longrightarrow>
    durable_step env ttl (now, rt) (now, rt')"

inductive_cases durable_stepE: "durable_step env ttl s s'"

inductive durable_start :: "journal_env \<Rightarrow> Duration \<Rightarrow> Time \<times> Runtime \<Rightarrow> bool" for env ttl where
  created: "file_lines f = [] \<Longrightarrow> Open env io path ttl f = (Inr rt, g) \<Longrightarrow> durable_start env ttl (now, rt)"

definition durable_run :: "journal_env \<Rightarrow> Duration \<Rightarrow> Time \<Rightarrow> Runtime \<Rightarrow> bool" where
  "durable_run env ttl now rt \<longleftrightarrow> (\<exists>s. durable_start env ttl s \<and> (durable_step env ttl)\<^sup>*\<^sup>* s (now, rt))"

text \<open>What a call can do to the runtime: nothing, or the steps its method is made of.\<close>

lemma mutation_conv:
  "mutation env io event method rt =
     (case readyLocked rt of
        Some x \<Rightarrow> (Inl x, rt)
      | None \<Rightarrow>
          (case fst (method (rt_engine rt)) of
             Inl x \<Rightarrow> (Inl (DomainFailure x), rt\<lparr>rt_engine := snd (method (rt_engine rt))\<rparr>)
           | Inr a \<Rightarrow>
               (let p = persistLocked env io event (rt\<lparr>rt_engine := snd (method (rt_engine rt))\<rparr>)
                in (case fst p of Some x \<Rightarrow> Inl x | None \<Rightarrow> Inr a, snd p))))"
  by (simp add: mutation_def Let_def split: prod.splits option.splits sum.splits)

lemma Runtime_Plan_conv:
  "Runtime_Plan env io i now v rt =
     (case readyLocked rt of
        Some x \<Rightarrow> (Inl x, rt)
      | None \<Rightarrow>
          (case map_of (rt_plans rt) i of
             Some existing \<Rightarrow>
               (if pce_PolicyVersion existing \<noteq> v then Inl (DomainFailure FailureIdempotencyConflict)
                else Inr (batchFromPlanEvent existing), rt)
           | None \<Rightarrow>
               (let m = Engine_Plan (env_sha256 env) i now v (rt_engine rt)
                in case fst m of
                     Inl x \<Rightarrow> (Inl (DomainFailure x), rt\<lparr>rt_engine := snd m\<rparr>)
                   | Inr batch \<Rightarrow>
                       (let p = persistLocked env io (PlanCompleted (newPlanCompletedEvent env i now v batch)) (rt\<lparr>rt_engine := snd m\<rparr>)
                        in case fst p of
                             Some x \<Rightarrow> (Inl x, snd p)
                           | None \<Rightarrow> (Inr batch, record_plan (newPlanCompletedEvent env i now v batch) batch (snd p))))))"
  by (simp add: Runtime_Plan_def Let_def split: prod.splits option.splits sum.splits)

lemma mutation_parts:
  assumes "P rt" "\<And>e. P (rt\<lparr>rt_engine := e\<rparr>)" "\<And>event e. P (snd (persistLocked env io event (rt\<lparr>rt_engine := e\<rparr>)))"
  shows "P (snd (mutation env io event method rt))"
  using assms by (simp add: mutation_conv Let_def split: option.splits sum.splits)

lemma serve_parts:
  assumes "P rt" "\<And>e. P (rt\<lparr>rt_engine := e\<rparr>)" "\<And>event e. P (snd (persistLocked env io event (rt\<lparr>rt_engine := e\<rparr>)))"
    "\<And>rt' plan batch. P rt' \<Longrightarrow> P (record_plan plan batch rt')" "P (snd (Runtime_Close io rt))"
  shows "P (snd (serve_runtime env io call rt))"
proof -
  note mutation = mutation_parts [of P, OF assms(1-3)]
  have "P (snd (Runtime_Plan env io i now v rt))" for i now v
    using assms(1-4) by (simp add: Runtime_Plan_conv Let_def split: option.splits sum.splits)
  then show ?thesis using assms(1,5) by (cases call) (simp_all add: runtime_mutations mutation)
qed

lemma serve_ttl: "rt_reservationTTL (snd (serve_runtime env io call rt)) = rt_reservationTTL rt"
  by (rule serve_parts [of "\<lambda>rt'. rt_reservationTTL rt' = rt_reservationTTL rt"])
    (simp_all add: persistLocked_def record_plan_def Runtime_Close_def split: prod.splits option.splits sum.splits)

text \<open>Lines are only ever added.\<close>

lemma append_lines: "\<exists>ls. file_lines (jn_file (snd (journal_append env io event j))) = file_lines (jn_file j) @ ls"
proof -
  have put: "\<exists>ls. file_lines (put_bytes env r n f) = file_lines f @ ls" for r n f by (simp add: put_bytes_def)
  have roll: "snd (rollbackAppend io f x g) \<in> {f, g}" for f x g by (simp add: rollbackAppend_def)
  show ?thesis
  proof (cases "jn_closed j \<or> json_event event = None \<or> \<not> io_stat io \<or> \<not> io_seek io")
    case True
    then show ?thesis by (auto simp: journal_append_def Let_def split: option.splits)
  next
    case False
    then obtain ev where ev: "json_event event = Some ev" "\<not> jn_closed j" "io_stat io" "io_seek io" by auto
    let ?r = "encodeRecord env (of_nat (length (jn_records j) + 1)) ev"
    obtain n fine where w: "writeFull (io_writes io) (Suc (env_line_size env ?r)) = (n, fine)" by fastforce
    have "jn_file (snd (journal_append env io event j)) \<in> {jn_file j, put_bytes env ?r n (jn_file j)}"
      using roll [of "jn_file j" IOFailed "put_bytes env ?r n (jn_file j)"] ev w
      by (auto simp: journal_append_def Let_def split: prod.splits)
    then show ?thesis using put [of ?r n "jn_file j"] by auto
  qed
qed

lemma reload_lines: "file_lines (jn_file (snd (journal_reload env io j))) = file_lines (jn_file j)"
  by (auto simp: journal_reload_def recoverRecords_def Let_def split: sum.splits prod.splits if_splits)

lemma serve_lines:
  "\<exists>ls. file_lines (jn_file (rt_journal (snd (serve_runtime env io call rt)))) = file_lines (jn_file (rt_journal rt)) @ ls"
proof (rule serve_parts)
  fix event e
  let ?rt = "rt\<lparr>rt_engine := e\<rparr>"
  have "rt_journal (snd (persistLocked env io event ?rt)) =
      (if fst (journal_append env io event (rt_journal rt)) = None then snd (journal_append env io event (rt_journal rt))
       else snd (journal_reload env io (snd (journal_append env io event (rt_journal rt)))))"
    by (simp add: persistLocked_def split: prod.splits option.splits sum.splits)
  then show "\<exists>ls. file_lines (jn_file (rt_journal (snd (persistLocked env io event ?rt)))) = file_lines (jn_file (rt_journal rt)) @ ls"
    using append_lines [of env io event "rt_journal rt"] by (simp add: reload_lines)
qed (simp_all add: record_plan_def Runtime_Close_def journal_Close_def)

lemma durable_step_keeps:
  assumes "durable_step env ttl (t, rt) (t', rt')" "runtime_inv env t rt" "rt_reservationTTL rt = ttl"
  shows "runtime_inv env t' rt' \<and> rt_reservationTTL rt' = ttl \<and>
    (\<exists>ls. file_lines (jn_file (rt_journal rt')) = file_lines (jn_file (rt_journal rt)) @ ls)"
  using assms(1)
proof (cases rule: durable_step.cases)
  case (served call io)
  then show ?thesis using serve_keeps [OF assms(2)] assms(3) serve_ttl serve_lines by simp
next
  case (crashed f io path g)
  have "file_ok env ttl f"
    using assms(2,3) file_ok_lines [OF crashed(2)] by (simp add: runtime_inv_def)
  from Open_keeps [OF this crashed(3)] show ?thesis using crashed(1,2) by simp
qed

lemma durable_steps_keep:
  assumes "(durable_step env ttl)\<^sup>*\<^sup>* s s'" "runtime_inv env (fst s) (snd s)" "rt_reservationTTL (snd s) = ttl"
  shows "runtime_inv env (fst s') (snd s') \<and> rt_reservationTTL (snd s') = ttl \<and>
    (\<exists>ls. file_lines (jn_file (rt_journal (snd s'))) = file_lines (jn_file (rt_journal (snd s))) @ ls)"
  using assms(1)
proof (induction rule: rtranclp_induct)
  case (step s' s'')
  have "durable_step env ttl (fst s', snd s') (fst s'', snd s'')" using step.hyps(2) by simp
  from durable_step_keeps [OF this] step.IH show ?case by fastforce
qed (simp add: assms)

lemma durable_run_inv: "durable_run env ttl now rt \<Longrightarrow> runtime_inv env now rt \<and> rt_reservationTTL rt = ttl"
  unfolding durable_run_def
proof (elim exE conjE)
  fix s assume "durable_start env ttl s" "(durable_step env ttl)\<^sup>*\<^sup>* s (now, rt)"
  then show ?thesis
    using durable_steps_keep [of env ttl s "(now, rt)"] Open_new_keeps by (cases rule: durable_start.cases) auto
qed

end
