(* ===== verification/Durable_Props.thy ===== *)
theory Durable_Props
  imports Durable_Runs
begin

text \<open>
  The properties of the durable runtime: what a crash loses and what it does not, and the one call after
  which the journal no longer opens.
\<close>

section \<open>Runtimes that differ only in expiry\<close>









lemma ready_engine [simp]: "readyLocked (rt\<lparr>rt_engine := e\<rparr>) = readyLocked rt"
  by (simp add: readyLocked_def)












section \<open>Plans in the journal\<close>

lemma recover_lines_extends: "recover_lines env decode records ls = Inr records' \<Longrightarrow> \<exists>ys. records' = records @ ys"
proof (induction env decode records ls rule: recover_lines.induct)
  case (2 env decode records line rest)
  then show ?case by (fastforce split: option.splits sum.splits)
qed simp

lemma plans_grow:
  "plans_from_records env plans records = Inr plans' \<Longrightarrow> map_of plans i = Some plan \<Longrightarrow> map_of plans' i = Some plan"
proof (induction env plans records rule: plans_from_records.induct)
  case (2 env plans r rest)
  show ?case
  proof (cases "jr_Kind r = ''plan_completed''")
    case True
    with 2(3) obtain event where e: "decodePayload r = Inr (PlanCompleted event)" "check_plan env plans event = None"
      "plans_from_records env (AList.update (pce_SnapshotID event) (clonePlanEvent event) plans) rest = Inr plans'"
      by (auto split: sum.splits event.splits option.splits)
    have "map_of (AList.update (pce_SnapshotID event) (clonePlanEvent event) plans) i = Some plan"
      using e(2) 2(4) by (auto simp: check_plan_def split: if_splits option.splits)
    with 2(2) [OF _ e(1) refl e(2)] True e(3) show ?thesis by simp
  qed (use 2 in simp)
qed simp

lemma mirrors_plans_grow:
  assumes "mirrors env e rt" "mirrors env e' rt'" "map_of (rt_plans rt) i = Some plan"
    "file_lines (jn_file (rt_journal rt')) = file_lines (jn_file (rt_journal rt)) @ ls"
  shows "map_of (rt_plans rt') i = Some plan"
proof -
  note m = assms(1,2) [unfolded mirrors_def holds_records_def rebuild_parts]
  have "recover_lines env decode_line (jn_records (rt_journal rt)) ls = Inr (jn_records (rt_journal rt'))"
    using m assms(4) by (simp add: recover_lines_append)
  then obtain ys where ys: "jn_records (rt_journal rt') = jn_records (rt_journal rt) @ ys" using recover_lines_extends by blast
  have "plans_from_records env (rt_plans rt) ys = Inr (rt_plans rt')"
    using m by (simp add: plansFromRecords_def ys plans_from_records_append)
  then show ?thesis using assms(3) by (rule plans_grow)
qed

lemma Runtime_Plan_recorded:
  assumes "Runtime_Plan env io i now v rt = (Inr batch, rt')" "rt_poisoned rt = None"
  obtains plan where "map_of (rt_plans rt') i = Some plan" "pce_PolicyVersion plan = v" "batchFromPlanEvent plan = batch"
    "rt_poisoned rt' = None"
proof (cases "map_of (rt_plans rt) i")
  case (Some plan)
  with assms that show thesis by (auto simp: Runtime_Plan_conv split: option.splits if_splits)
next
  case None
  let ?m = "Engine_Plan (env_sha256 env) i now v (rt_engine rt)"
  let ?event = "newPlanCompletedEvent env i now v batch"
  let ?p = "persistLocked env io (PlanCompleted ?event) (rt\<lparr>rt_engine := snd ?m\<rparr>)"
  from assms(1) None have m: "fst ?m = Inr batch" "fst ?p = None" "rt' = record_plan ?event batch (snd ?p)"
    by (auto simp: Runtime_Plan_conv Let_def split: option.splits sum.splits)
  have "Engine_Plan (env_sha256 env) i now v (rt_engine rt) = (Inr batch, snd ?m)" using m(1) by (simp add: prod_eq_iff)
  then obtain entry s d where "Catalog_Get v (eng_policies (rt_engine rt)) = Some entry"
    and s: "Snapshot i now (entry_Policy entry) (eng_coordinator (rt_engine rt)) = (Inr s, d)"
    and "snd ?m = (rt_engine rt)\<lparr>eng_coordinator := d\<rparr>" and plan: "Plan (env_sha256 env) s = Inr batch"
    and "snap_Policy s = entry_Policy entry" by (rule Engine_Plan_Inr)
  have "batch_SnapshotID batch = snap_ID s"
    using plan by (auto simp: Plan_def Let_def split: option.splits sum.splits prod.splits if_splits)
  moreover have "snap_ID s = i" using Snapshot_conv(3) [OF s] by simp
  ultimately have "batchFromPlanEvent ?event = batch"
    by (simp add: batchFromPlanEvent_def newPlanCompletedEvent_def map_idI Let_def)
  moreover have "rt_poisoned (snd ?p) = None"
    using m(2) assms(2) by (auto simp: persistLocked_def split: prod.splits option.splits sum.splits)
  ultimately show thesis
    using that [of ?event] m(3) by (simp add: record_plan_def newPlanCompletedEvent_def)
qed

section \<open>Example run\<close>

text \<open>A script of orderly calls is a run.\<close>

fun run_script :: "journal_env \<Rightarrow> (runtime_call \<times> io) list \<Rightarrow> Time \<times> Runtime \<Rightarrow> Time \<times> Runtime" where
  "run_script env [] s = s"
| "run_script env ((call, io) # rest) s =
     run_script env rest (clock_after (fst s) call, snd (serve_runtime env io call (snd s)))"

fun orderly_script :: "journal_env \<Rightarrow> (runtime_call \<times> io) list \<Rightarrow> Time \<times> Runtime \<Rightarrow> bool" where
  "orderly_script env [] s = True"
| "orderly_script env ((call, io) # rest) s =
     (orderly env (fst s) call (snd s) \<and>
      orderly_script env rest (clock_after (fst s) call, snd (serve_runtime env io call (snd s))))"

lemma orderly_script_steps: "orderly_script env script s \<Longrightarrow> (durable_step env ttl)\<^sup>*\<^sup>* s (run_script env script s)"
proof (induction env script s rule: orderly_script.induct)
  case (2 env call io rest s)
  then have "durable_step env ttl (fst s, snd s) (clock_after (fst s) call, snd (serve_runtime env io call (snd s)))"
    by (intro durable_step.served) simp
  with 2 show ?case by (simp add: converse_rtranclp_into_rtranclp)
qed simp

definition ex_io :: io where
  "ex_io = \<lparr>io_open = True, io_stat = True, io_seek = True, io_writes = [(3, False)], io_sync = True,
     io_rollback_truncate = True, io_rollback_seek = True, io_rollback_sync = True, io_reload_seek = True,
     io_reload_read = True, io_reload_truncate = True, io_reload_sync = True, io_reload_seek_end = True, io_close = True\<rparr>"

text \<open>A write that stops after three bytes, which cannot be taken back at once.\<close>

definition ex_torn_io :: io where
  "ex_torn_io = ex_io\<lparr>io_writes := [(3, True)], io_rollback_truncate := False\<rparr>"

definition ex_env :: journal_env where
  "ex_env = \<lparr>env_sha256 = ex_hash, env_digest = (\<lambda>text. case text of UnsignedText r \<Rightarrow> body_kind (jr_Body r) | _ \<Rightarrow> ''d''),
     env_line_size = (\<lambda>r. 80 + length (jr_Kind r))\<rparr>"

definition ex_empty :: journalFile where
  "ex_empty = \<lparr>file_lines = [], file_tail = 0\<rparr>"

definition ex_opened :: Runtime where
  "ex_opened = projr (fst (Open ex_env ex_io ''journal'' 50 ex_empty))"

definition ex_script :: "(runtime_call \<times> io) list" where
  "ex_script = [(RtRegisterPolicy ex_duel_policy, ex_io), (RtSubmitMatchTicket (ex_solo ''a'' 10 5 ''''), ex_io),
     (RtSubmitMatchTicket (ex_solo ''b'' 20 5 ''''), ex_torn_io), (RtSubmitMatchTicket (ex_solo ''b'' 20 5 ''''), ex_io),
     (RtReserve (ex_proposal 1) ''r'' 100, ex_io)]"

text \<open>The planning call finds the reservation expired, and does not journal that.\<close>

definition ex_plan_call :: runtime_call where
  "ex_plan_call = RtPlan ''s'' 160 ''v1''"

definition ex_before :: "Time \<times> Runtime" where
  "ex_before = run_script ex_env ex_script (0, ex_opened)"

definition ex_after :: "Time \<times> Runtime" where
  "ex_after = (160, snd (serve_runtime ex_env ex_io ex_plan_call (snd ex_before)))"

lemma ex_opened: "Open ex_env ex_io ''journal'' 50 ex_empty = (Inr ex_opened, jn_file (rt_journal ex_opened))"
  by code_simp

lemma ex_before_run: "durable_run ex_env 50 (fst ex_before) (snd ex_before)"
proof -
  have "orderly_script ex_env ex_script (0, ex_opened)" by code_simp
  then have "(durable_step ex_env 50)\<^sup>*\<^sup>* (0, ex_opened) ex_before" unfolding ex_before_def by (rule orderly_script_steps)
  moreover have "durable_start ex_env 50 (0, ex_opened)"
    using ex_opened by (intro durable_start.created) (simp_all add: ex_empty_def)
  ultimately show ?thesis unfolding durable_run_def by (metis prod.collapse)
qed

lemma ex_after_run: "durable_run ex_env 50 160 (snd ex_after)"
proof -
  obtain s where s: "durable_start ex_env 50 s" "(durable_step ex_env 50)\<^sup>*\<^sup>* s (fst ex_before, snd ex_before)"
    using ex_before_run unfolding durable_run_def by blast
  have "orderly ex_env (fst ex_before) ex_plan_call (snd ex_before)" by code_simp
  then have "durable_step ex_env 50 (fst ex_before, snd ex_before) (clock_after (fst ex_before) ex_plan_call, snd ex_after)"
    using durable_step.served [of ex_env "fst ex_before" ex_plan_call "snd ex_before" 50 ex_io] by (simp add: ex_after_def)
  moreover have "clock_after (fst ex_before) ex_plan_call = 160" by (simp add: ex_plan_call_def)
  ultimately show ?thesis using s unfolding durable_run_def by (metis rtranclp.rtrancl_into_rtrancl)
qed

section \<open>Properties\<close>

text \<open>
  C31. The journal recovers the runtime. Take any run of the durable runtime: any sequence of calls with a
  clock that does not go back, with text for strings and no confirmation refused as stale, any
  failures of the system calls, any number of crashes. Then its file, whatever fragment of a line a crash
  leaves at the end, opens again; and unless a failed append could not be read back, the opened runtime
  has the records, the plans and the proposals of the one that was lost, and its engine, up to
  reservations whose time had passed and that the next timed call will expire.
\<close>
theorem journal_recovers:
  assumes "durable_run env ttl now rt" "file_lines f = file_lines (jn_file (rt_journal rt))" "opens io" "path \<noteq> ''''"
  shows "\<exists>rt'. fst (Open env io path ttl f) = Inr rt' \<and>
    (rt_poisoned rt = None \<longrightarrow> jn_records (rt_journal rt') = jn_records (rt_journal rt) \<and> rt_plans rt' = rt_plans rt \<and>
       rt_proposals rt' = rt_proposals rt \<and>
       (rt_engine rt = rt_engine rt' \<or> (\<exists>t\<le>now. rt_engine rt = advance t (rt_engine rt'))))"
proof -
  have inv: "runtime_inv env now rt" "rt_reservationTTL rt = ttl" using durable_run_inv [OF assms(1)] by simp_all
  then have "file_ok env ttl f" using file_ok_lines [OF assms(2)] by (simp add: runtime_inv_def)
  then obtain records e plans proposals where f: "recover_lines env decode_line [] (file_lines f) = Inr records"
    "rebuild env ttl records = Inr (e, plans, proposals)" unfolding file_ok_def by blast
  let ?rt = "opened ttl f records e plans proposals"
  have "0 < ttl" using inv by (simp add: runtime_inv_def)
  then have "fst (Open env io path ttl f) = Inr ?rt" by (rule Open_records(2) [OF f]) (rule assms)+
  moreover have "jn_records (rt_journal ?rt) = jn_records (rt_journal rt) \<and> rt_plans ?rt = rt_plans rt \<and>
      rt_proposals ?rt = rt_proposals rt \<and> lags now (rt_engine ?rt) (rt_engine rt)" if live: "rt_poisoned rt = None"
  proof -
    obtain g where g: "mirrors env g rt" "lags now g (rt_engine rt)" using inv(1) live by (auto simp: runtime_inv_def)
    then have "records = jn_records (rt_journal rt)" using f(1) assms(2) by (simp add: mirrors_def holds_records_def)
    with g f(2) inv(2) show ?thesis by (simp add: mirrors_def opened_def)
  qed
  ultimately show ?thesis unfolding lags_def by (intro exI [of _ ?rt] conjI impI) simp_all
qed

theorem journal_recovers_witness:
  "\<exists>rt'. fst (Open ex_env ex_io ''journal'' 50 ((jn_file (rt_journal (snd ex_after)))\<lparr>file_tail := 7\<rparr>)) = Inr rt' \<and>
     rt_plans rt' = rt_plans (snd ex_after) \<and> rt_plans rt' \<noteq> [] \<and> rt_engine rt' \<noteq> rt_engine (snd ex_after) \<and>
     (\<exists>t\<le>160. rt_engine (snd ex_after) = advance t (rt_engine rt'))"
proof -
  let ?f = "(jn_file (rt_journal (snd ex_after)))\<lparr>file_tail := 7\<rparr>"
  have facts: "opens ex_io" "rt_poisoned (snd ex_after) = None" "rt_plans (snd ex_after) \<noteq> []"
    "rt_engine (projr (fst (Open ex_env ex_io ''journal'' 50 ?f))) \<noteq> rt_engine (snd ex_after)" by code_simp+
  from journal_recovers [OF ex_after_run, of ?f ex_io "''journal''"] facts(1) obtain rt' where
    "fst (Open ex_env ex_io ''journal'' 50 ?f) = Inr rt'" "rt_plans rt' = rt_plans (snd ex_after)"
    "rt_engine (snd ex_after) = rt_engine rt' \<or> (\<exists>t\<le>160. rt_engine (snd ex_after) = advance t (rt_engine rt'))"
    using facts(2) by auto
  with facts(3,4) show ?thesis by fastforce
qed




text \<open>
  C33. A snapshot identity names one plan for good. When, after an orderly run, a planning call has
  answered with a batch, then after any further orderly calls (none of them a confirmation refused as
  stale), system call failures and crashes, as long as the runtime is ready, planning the same
  snapshot identity under the same policy version answers with that batch again and changes nothing.
\<close>
theorem plan_survives:
  assumes "durable_run env ttl now rt" "orderly env now (RtPlan i t v) rt" "Runtime_Plan env io i t v rt = (Inr batch, rt1)"
    "(durable_step env ttl)\<^sup>*\<^sup>* (t, rt1) (now', rt2)" "readyLocked rt2 = None"
  shows "Runtime_Plan env io' i t' v rt2 = (Inr batch, rt2)"
proof -
  have inv: "runtime_inv env now rt" "rt_reservationTTL rt = ttl" using durable_run_inv [OF assms(1)] by simp_all
  have "readyLocked rt = None" using assms(3) by (auto simp: Runtime_Plan_conv split: option.splits)
  then have "rt_poisoned rt = None" by (auto simp: readyLocked_def split: if_splits option.splits)
  with assms(3) obtain plan where plan: "map_of (rt_plans rt1) i = Some plan" "pce_PolicyVersion plan = v"
    "batchFromPlanEvent plan = batch" "rt_poisoned rt1 = None" by (rule Runtime_Plan_recorded)
  have rt1: "runtime_inv env t rt1" "rt_reservationTTL rt1 = ttl"
    using serve_keeps [OF inv(1) assms(2), of io] serve_ttl [of env io "RtPlan i t v" rt] inv(2) assms(3) by simp_all
  then obtain e1 where e1: "mirrors env e1 rt1" using plan(4) by (auto simp: runtime_inv_def)
  from durable_steps_keep [OF assms(4)] rt1 obtain ls where inv2: "runtime_inv env now' rt2"
    and ls: "file_lines (jn_file (rt_journal rt2)) = file_lines (jn_file (rt_journal rt1)) @ ls" by auto
  obtain e2 where e2: "mirrors env e2 rt2" using runtime_inv_ready [OF inv2 assms(5) order_refl] by blast
  have "map_of (rt_plans rt2) i = Some plan" using e1 e2 plan(1) ls by (rule mirrors_plans_grow)
  with plan assms(5) show ?thesis by (simp add: Runtime_Plan_def)
qed

theorem plan_survives_witness:
  "\<exists>batch rt2. fst (serve_runtime ex_env ex_io ex_plan_call (snd ex_before)) = AnsBatch (Inr batch) \<and>
     (\<exists>g. Open ex_env ex_io ''journal'' 50 ((jn_file (rt_journal (snd ex_after)))\<lparr>file_tail := 5\<rparr>) = (Inr rt2, g)) \<and>
     batch_Proposals batch \<noteq> [] \<and> Runtime_Plan ex_env ex_torn_io ''s'' 500 ''v1'' rt2 = (Inr batch, rt2)"
proof -
  let ?p = "Runtime_Plan ex_env ex_io ''s'' 160 ''v1'' (snd ex_before)"
  let ?f = "(jn_file (rt_journal (snd ex_after)))\<lparr>file_tail := 5\<rparr>"
  let ?o = "Open ex_env ex_io ''journal'' 50 ?f"
  have facts: "\<not> isl (fst ?p)" "batch_Proposals (projr (fst ?p)) \<noteq> []" "\<not> isl (fst ?o)" "readyLocked (projr (fst ?o)) = None"
    "orderly ex_env (fst ex_before) (RtPlan ''s'' 160 ''v1'') (snd ex_before)" by code_simp+
  then obtain batch rt1 where p: "?p = (Inr batch, rt1)" by (metis isl_def prod.collapse sum.exhaust)
  from facts obtain rt2 g where o: "?o = (Inr rt2, g)" by (metis isl_def prod.collapse sum.exhaust)
  have rt1: "snd ex_after = rt1" using p by (simp add: ex_after_def ex_plan_call_def)
  have "durable_step ex_env 50 (160, rt1) (160, rt2)" using o unfolding rt1 by (rule durable_step.crashed [rotated]) simp
  then have "(durable_step ex_env 50)\<^sup>*\<^sup>* (160, rt1) (160, rt2)" by blast
  from plan_survives [OF ex_before_run facts(5) p this] facts(2,4) p o show ?thesis
    by (auto simp: ex_plan_call_def)
qed

section \<open>The call that is not journaled\<close>

definition proposal_of :: "SnapshotID \<Rightarrow> Runtime \<Rightarrow> MatchProposal" where
  "proposal_of i rt = hd (concat (map (\<lambda>(k, plan). if k = i then pce_Proposals plan else []) (rt_plans rt)))"

definition ex_planned :: "Time \<times> Runtime" where
  "ex_planned = run_script ex_env
     [(RtRegisterPolicy ex_duel_policy, ex_io), (RtSubmitMatchTicket (ex_solo ''a'' 10 5 ''''), ex_io),
      (RtSubmitMatchTicket (ex_solo ''b'' 20 5 ''''), ex_io), (RtPlan ''s1'' 100 ''v1'', ex_io)] (0, ex_opened)"

text \<open>
  Reserve the proposal, withdraw one of its tickets, and confirm: the confirmation is refused as stale.
  Submit the ticket again and plan.
\<close>

definition ex_stale :: "Time \<times> Runtime" where
  "ex_stale = run_script ex_env
     [(RtReserve (proposal_of ''s1'' (snd ex_planned)) ''r1'' 101, ex_io), (RtCancelMatchTicket ''a'' 1, ex_io),
      (RtConfirm ''r1'' ''m1'' 102, ex_io), (RtSubmitMatchTicket ((ex_solo ''a'' 10 5 '''')\<lparr>mt_Revision := 2\<rparr>), ex_io),
      (RtPlan ''s2'' 103 ''v1'', ex_io)] ex_planned"

definition ex_reserved_again :: "runtime_answer \<times> Runtime" where
  "ex_reserved_again = serve_runtime ex_env ex_io (RtReserve (proposal_of ''s2'' (snd ex_stale)) ''r2'' 104) (snd ex_stale)"

text \<open>
  C34. A confirmation that is refused as stale cancels the reservation and frees its tickets, but writes no
  record. Here every system call succeeds and the clock runs forward: a planned proposal is reserved, one of
  its tickets is withdrawn, the confirmation is refused, the tickets are planned again and the new proposal is
  reserved. That last call succeeds and is journaled, and the runtime goes on; but the file does not open
  any more, since in the replay the first reservation still holds the other ticket.
\<close>
theorem stale_confirmation_breaks_journal:
  "(\<exists>r. fst ex_reserved_again = AnsReservation (Inr r)) \<and> readyLocked (snd ex_reserved_again) = None \<and>
   fst (Open ex_env ex_io ''journal'' 50 (jn_file (rt_journal (snd ex_reserved_again)))) =
     Inl (DomainFailure FailureReservationConflict)"
proof (intro conjI)
  have "(case fst ex_reserved_again of AnsReservation (Inr r) \<Rightarrow> True | _ \<Rightarrow> False)" by code_simp
  then show "\<exists>r. fst ex_reserved_again = AnsReservation (Inr r)" by (simp split: runtime_answer.splits sum.splits)
  show "readyLocked (snd ex_reserved_again) = None" by code_simp
  show "fst (Open ex_env ex_io ''journal'' 50 (jn_file (rt_journal (snd ex_reserved_again)))) =
     Inl (DomainFailure FailureReservationConflict)" by code_simp
qed

end
