(* ===== verification/Exhaustive.thy ===== *)
theory Exhaustive
  imports Planner
begin

text \<open>
  What the exhaustive references of \<open>src/internal/evaluation\<close> rest on. Both the oracle and the
  frontier enumerate every way of filling the slots of the teams with tickets of a list, without the
  budget and the pruning of the planner.

  \<^item> The score of a placement, its evidence and whether it is admissible, does not depend on the order
    of the tickets inside a team (\<open>evaluate_order\<close>), although the sums wrap around.
  \<^item> \<open>exact_leaves\<close> is the reference of the enumeration: every leaf is an exact placement, and every
    exact placement is, up to the order inside the teams, a leaf (\<open>exact_leaves_covers\<close>).
\<close>

section \<open>The order inside a team\<close>

lemma i64_add_left: "i64 (i64 a + b) = i64 (a + b)"
proof -
  have "(((a + 2 ^ 63) mod 2 ^ 64 - 2 ^ 63) + b + 2 ^ 63) mod 2 ^ 64 = ((a + 2 ^ 63) mod 2 ^ 64 + b) mod (2 ^ 64 :: int)"
    by simp
  also have "\<dots> = (a + 2 ^ 63 + b) mod 2 ^ 64" by (rule mod_add_left_eq)
  finally show ?thesis by (simp add: i64_def ac_simps)
qed

lemma i64_add_swap: "i64 (i64 (a + b) + c) = i64 (i64 (a + c) + b)"
  unfolding i64_add_left by (simp only: add.assoc add.commute [of b c])

fun player_step :: "Player \<Rightarrow> team_acc \<Rightarrow> team_acc" where
  "player_step player (skill, players, counts, latency) =
     (i64 (skill + player_Skill player), i64 (players + 1),
      counts(player_Role player := i64 (counts (player_Role player) + 1)),
      (if player_LatencyMillis player > latency then player_LatencyMillis player else latency))"

lemma eval_players_fold: "eval_players ps acc = fold player_step ps acc"
  by (induction ps acc rule: eval_players.induct) auto

lemma player_step_commute: "player_step p \<circ> player_step q = player_step q \<circ> player_step p"
proof
  fix acc :: team_acc
  obtain s n c l where acc: "acc = (s, n, c, l)" by (cases acc)
  show "(player_step p \<circ> player_step q) acc = (player_step q \<circ> player_step p) acc"
    by (auto simp: acc i64_add_swap fun_upd_twist)
qed

lemma fold_player_step_commute:
  "fold player_step ps \<circ> fold player_step qs = fold player_step qs \<circ> fold player_step ps"
  by (intro fold_commute ballI) (metis fold_commute player_step_commute)

fun ticket_step :: "Time \<Rightarrow> MatchTicket \<Rightarrow> (int \<times> int) \<times> team_acc \<Rightarrow> (int \<times> int) \<times> team_acc" where
  "ticket_step now t ((oldest, waited), acc) =
     ((max oldest (wait_millis now (mt_EnqueuedAt t)), i64 (waited + wait_millis now (mt_EnqueuedAt t))),
      fold player_step (mt_Players t) acc)"

lemma ticket_step_commute: "ticket_step now t \<circ> ticket_step now u = ticket_step now u \<circ> ticket_step now t"
proof
  fix acc :: "(int \<times> int) \<times> team_acc"
  obtain s n a where acc: "acc = ((s, n), a)" by (metis prod.collapse)
  show "(ticket_step now t \<circ> ticket_step now u) acc = (ticket_step now u \<circ> ticket_step now t) acc"
    using fun_cong [OF fold_player_step_commute, of "mt_Players t" "mt_Players u" a]
    by (simp add: acc i64_add_swap max.left_commute max.commute)
qed

definition drop_priority :: "(int list \<times> int \<times> int) \<times> team_acc \<Rightarrow> (int \<times> int) \<times> team_acc" where
  "drop_priority = (\<lambda>(waits, acc). (snd waits, acc))"

lemma eval_tickets_fold:
  "drop_priority (eval_tickets now p h ts waits acc) = fold (ticket_step now) ts (snd waits, acc)"
proof (induction ts arbitrary: waits acc)
  case (Cons t ts)
  obtain pr old tot where "waits = (pr, old, tot)" by (cases waits)
  with Cons show ?case by (simp add: Let_def eval_players_fold max_def)
qed (simp add: drop_priority_def)

lemma eval_tickets_order:
  assumes "mset ts = mset us" "snd waits = snd waits'"
  shows "drop_priority (eval_tickets now p h ts waits acc) = drop_priority (eval_tickets now p h us waits' acc)"
proof -
  have "fold (ticket_step now) ts = fold (ticket_step now) us"
    by (rule fold_multiset_equiv [OF ticket_step_commute assms(1)])
  then show ?thesis by (simp add: eval_tickets_fold assms(2))
qed

definition acc_core :: "eval_acc \<Rightarrow> eval_acc" where
  "acc_core acc = acc\<lparr>acc_Priority := []\<rparr>"

lemma acc_core_eqD:
  "acc_core a = acc_core b \<Longrightarrow> acc_OldestWait a = acc_OldestWait b \<and> acc_TotalWait a = acc_TotalWait b \<and>
     acc_MaxLatency a = acc_MaxLatency b \<and> acc_MinAverage a = acc_MinAverage b \<and>
     acc_MaxAverage a = acc_MaxAverage b \<and> acc_HasAverage a = acc_HasAverage b \<and> acc_RoleCounts a = acc_RoleCounts b"
  by (cases a; cases b) (simp add: acc_core_def)

lemma acc_core_cases:
  assumes "acc_core a = acc_core b"
  obtains pr where "b = a\<lparr>acc_Priority := pr\<rparr>"
  using assms by (intro that [of "acc_Priority b"]) (cases a; cases b; simp add: acc_core_def)

definition team_start :: "RosterTeamSummary list \<Rightarrow> nat \<Rightarrow> int \<Rightarrow> team_acc" where
  "team_start ex i latency =
     (if ex \<noteq> [] then (rts_SkillTotal (ex ! i), rts_PlayerCount (ex ! i),
        existing_counts (rts_RoleCounts (ex ! i)) (\<lambda>_. 0), max latency (rts_MaxLatencyMillis (ex ! i)))
      else (0, 0, (\<lambda>_. 0), latency))"

lemma eval_team_conv:
  assumes "eval_tickets now p h ts (acc_Priority acc, acc_OldestWait acc, acc_TotalWait acc)
      (team_start ex i (acc_MaxLatency acc)) = ((pr, old, tot), (s, n, c, l))"
  shows "eval_team now p q ex h i ts acc =
    (let acc' = acc\<lparr>acc_Priority := pr, acc_OldestWait := old, acc_TotalWait := tot,
                    acc_MaxLatency := l, acc_RoleCounts := acc_RoleCounts acc @ [c]\<rparr>
     in if \<not> q \<or> n = 0 then acc'
        else acc'\<lparr>acc_MinAverage := (if \<not> acc_HasAverage acc \<or> go_div s n < acc_MinAverage acc
                                      then go_div s n else acc_MinAverage acc),
                   acc_MaxAverage := (if \<not> acc_HasAverage acc \<or> go_div s n > acc_MaxAverage acc
                                      then go_div s n else acc_MaxAverage acc),
                   acc_HasAverage := True\<rparr>)"
  unfolding eval_team_def team_start_def [symmetric] assms Let_def by simp

lemma eval_team_order:
  assumes "mset ts = mset us" "acc_core acc = acc_core acc'"
  shows "acc_core (eval_team now p q ex h i ts acc) = acc_core (eval_team now p q ex h i us acc')"
proof -
  from assms(2) obtain pr0 where acc': "acc' = acc\<lparr>acc_Priority := pr0\<rparr>" by (rule acc_core_cases)
  let ?w = "\<lambda>pr. (pr, acc_OldestWait acc, acc_TotalWait acc)" and ?start = "team_start ex i (acc_MaxLatency acc)"
  obtain pr old tot s n c l where 1: "eval_tickets now p h ts (?w (acc_Priority acc)) ?start = ((pr, old, tot), (s, n, c, l))"
    by (metis prod_cases3 prod_cases4 surj_pair)
  obtain pr' old' tot' s' n' c' l' where 2: "eval_tickets now p h us (?w pr0) ?start = ((pr', old', tot'), (s', n', c', l'))"
    by (metis prod_cases3 prod_cases4 surj_pair)
  have same: "old' = old" "tot' = tot" "s' = s" "n' = n" "c' = c" "l' = l"
    using eval_tickets_order [OF assms(1), of "?w (acc_Priority acc)" "?w pr0" now p h ?start] 1 2
    by (simp_all add: drop_priority_def)
  have 2: "eval_tickets now p h us (acc_Priority acc', acc_OldestWait acc', acc_TotalWait acc')
      (team_start ex i (acc_MaxLatency acc')) = ((pr', old, tot), (s, n, c, l))"
    using 2 same by (simp add: acc')
  show ?thesis
    unfolding eval_team_conv [OF 1] eval_team_conv [OF 2] by (simp add: Let_def acc_core_def acc')
qed

abbreviation same_teams :: "placement \<Rightarrow> placement \<Rightarrow> bool" where
  "same_teams \<equiv> list_all2 (\<lambda>ts us. mset ts = mset us)"

lemma eval_teams_order:
  "same_teams pl pl' \<Longrightarrow> acc_core acc = acc_core acc' \<Longrightarrow>
   acc_core (eval_teams now p q ex h i pl acc) = acc_core (eval_teams now p q ex h i pl' acc')"
proof (induction pl pl' arbitrary: i acc acc' rule: list_all2_induct)
  case (Cons t ts u us)
  show ?case unfolding eval_teams.simps by (intro Cons.IH eval_team_order Cons.hyps Cons.prems)
qed simp

lemma team_hard_ok_order:
  assumes "mset ts = mset us"
  shows "team_hard_ok p k ts = team_hard_ok p k us"
proof -
  have m: "mset (team_players ts) = mset (team_players us)"
    using arg_cong [OF assms, of "\<lambda>M. \<Sum>\<^sub># (image_mset (mset \<circ> mt_Players) M)"]
    by (simp add: team_players_def mset_concat flip: sum_mset_sum_list)
  have "role_count r ts = role_count r us" for r
    unfolding role_count_def using mset_eq_length [OF filter_mset_cong [OF m]] by simp
  with mset_eq_setD [OF m] show ?thesis by (simp add: team_hard_ok_def)
qed

lemma HardViolation_order: "same_teams pl pl' \<Longrightarrow> HardViolation pl p k = HardViolation pl' p k"
  unfolding HardViolation_iff
proof (induction pl pl' rule: list_all2_induct)
  case (Cons t ts u us)
  with team_hard_ok_order [OF Cons.hyps(1), of p k] show ?case by simp
qed simp

text \<open>What the references read of an evaluation.\<close>

definition score :: "Evaluation \<Rightarrow> bool \<times> ScoreEvidence" where
  "score e = (eval_Admissible e, eval_Evidence e)"

lemma evaluate_order:
  assumes "same_teams pl pl'"
  shows "score (evaluate now pl p kind ex) = score (evaluate now pl' p kind ex)"
proof -
  let ?q = "kind = ProposalNewMatch \<or> ex \<noteq> []" and ?h = "list_ex rs_PrioritizeWait (pol_RelaxationSteps p)"
  let ?acc = "\<lparr>acc_Priority = [], acc_OldestWait = 0, acc_TotalWait = 0, acc_MaxLatency = 0,
    acc_MinAverage = 0, acc_MaxAverage = 0, acc_HasAverage = False, acc_RoleCounts = []\<rparr>"
  define A where "A = eval_teams now p ?q ex ?h 0 pl ?acc"
  define B where "B = eval_teams now p ?q ex ?h 0 pl' ?acc"
  have "acc_core A = acc_core B" unfolding A_def B_def by (rule eval_teams_order [OF assms refl])
  from acc_core_eqD [OF this]
  show ?thesis
    unfolding score_def evaluate_def Let_def split_beta HardViolation_order [OF assms]
      A_def [symmetric] B_def [symmetric] by simp
qed

lemma EvaluateBackfill_order:
  assumes "same_teams pl pl'"
  shows "score (EvaluateBackfill now pl p ex enq) = score (EvaluateBackfill now pl' p ex enq)"
  using evaluate_order [OF assms, of now p ProposalBackfill ex]
  by (simp add: score_def EvaluateBackfill_def Let_def split_beta)

section \<open>Every exact placement\<close>

text \<open>
  The enumeration with nothing but its result: the tickets are taken in order, each is put into every
  team it fits into and then left out, and a leaf is reached when no player is missing. An assignment
  is a list of ticket indexes per team.
\<close>

fun exact_leaves :: "nat \<Rightarrow> MatchTicket list \<Rightarrow> int \<Rightarrow> int list \<Rightarrow> nat list list \<Rightarrow> nat list list list" where
  "exact_leaves index tickets needed remaining assigned =
     (if needed = 0 then [assigned]
      else case tickets of [] \<Rightarrow> []
      | ticket # rest \<Rightarrow>
          if players_in tickets < needed then []
          else concat (map (\<lambda>team.
                 if party_size ticket > remaining ! team then []
                 else exact_leaves (Suc index) rest (i64 (needed - party_size ticket))
                   (remaining[team := remaining ! team - party_size ticket])
                   (assigned[team := assigned ! team @ [index]])) [0..<length remaining]) @
               exact_leaves (Suc index) rest needed remaining assigned)"

declare exact_leaves.simps [simp del]

lemma exact_leaves_zero: "exact_leaves index tickets 0 remaining assigned = [assigned]"
  by (simp add: exact_leaves.simps)

lemma exact_leaves_Nil: "needed \<noteq> 0 \<Longrightarrow> exact_leaves index [] needed remaining assigned = []"
  by (simp add: exact_leaves.simps)

text \<open>The teams a party fits into, in the order of the loop.\<close>

definition teams_for :: "MatchTicket \<Rightarrow> int list \<Rightarrow> nat list" where
  "teams_for ticket remaining = filter (\<lambda>team. party_size ticket \<le> remaining ! team) [0..<length remaining]"

lemma concat_map_if:
  "concat (map (\<lambda>x. if P x then [] else f x) xs) = concat (map f (filter (\<lambda>x. \<not> P x) xs))"
  by (induction xs) auto

lemma exact_leaves_Cons:
  "needed \<noteq> 0 \<Longrightarrow> exact_leaves index (t # rest) needed remaining assigned =
     (if players_in (t # rest) < needed then []
      else concat (map (\<lambda>team. exact_leaves (Suc index) rest (i64 (needed - party_size t))
             (remaining[team := remaining ! team - party_size t])
             (assigned[team := assigned ! team @ [index]])) (teams_for t remaining)) @
           exact_leaves (Suc index) rest needed remaining assigned)"
  by (subst exact_leaves.simps) (simp add: concat_map_if teams_for_def not_less del: players_in_simps)

text \<open>Soundness: a leaf below a good path is an exact placement.\<close>

lemma exact_leaves_sound:
  "path_ok window slots index tickets needed remaining assigned \<Longrightarrow>
   leaf \<in> set (exact_leaves index tickets needed remaining assigned) \<Longrightarrow>
   \<exists>index' remaining'. path_ok window slots index' (drop index' window) 0 remaining' leaf"
proof (induction tickets arbitrary: index needed remaining assigned)
  case Nil
  show ?case
  proof (cases "needed = 0")
    case True
    then show ?thesis using Nil by (auto simp: exact_leaves_zero path_ok_def)
  qed (use Nil in \<open>simp add: exact_leaves_Nil\<close>)
next
  case (Cons t rest)
  show ?case
  proof (cases "needed = 0")
    case True
    then have "leaf = assigned" "t # rest = drop index window" using Cons.prems by (auto simp: exact_leaves_zero path_ok_def)
    with Cons.prems(1) True show ?thesis by metis
  next
    case False
    with Cons.prems(2) consider
        team where "team \<in> set (teams_for t remaining)"
          "leaf \<in> set (exact_leaves (Suc index) rest (i64 (needed - party_size t))
             (remaining[team := remaining ! team - party_size t]) (assigned[team := assigned ! team @ [index]]))"
      | "leaf \<in> set (exact_leaves (Suc index) rest needed remaining assigned)"
      by (auto simp: exact_leaves_Cons split: if_splits)
    then show ?thesis
    proof cases
      case 1
      then have "team < length remaining" "party_size t \<le> remaining ! team" by (auto simp: teams_for_def)
      from Cons.IH [OF path_place [OF Cons.prems(1) this] 1(2)] show ?thesis .
    next
      case 2
      from Cons.IH [OF path_skip [OF Cons.prems(1)] 2] show ?thesis .
    qed
  qed
qed

text \<open>Completeness: every exact assignment in ascending order is a leaf.\<close>

definition exact_assignment :: "MatchTicket list \<Rightarrow> int list \<Rightarrow> nat list list \<Rightarrow> bool" where
  "exact_assignment window slots target \<longleftrightarrow>
     map (\<lambda>js. players_in (map ((!) window) js)) target = slots \<and>
     (\<forall>js\<in>set target. sorted_wrt (<) js) \<and> distinct (concat target) \<and> (\<forall>j\<in>set (concat target). j < length window)"

lemma distinct_concat_nth:
  "distinct (concat xs) \<Longrightarrow> i < length xs \<Longrightarrow> k < length xs \<Longrightarrow> a \<in> set (xs ! i) \<Longrightarrow> a \<in> set (xs ! k) \<Longrightarrow> i = k"
proof (induction xs arbitrary: i k)
  case (Cons x xs)
  have "set x \<inter> \<Union> (set ` set xs) = {}" using Cons.prems(1) by simp
  then have "a \<notin> set (xs ! j)" if "a \<in> set x" "j < length xs" for j
    using that nth_mem [of j xs] by blast
  with Cons show ?case by (cases i; cases k) auto
qed simp

lemma filter_less_Suc:
  "sorted_wrt (<) js \<Longrightarrow> n \<in> set js \<Longrightarrow> filter (\<lambda>j. j < Suc n) js = filter (\<lambda>j. j < n) js @ [n :: nat]"
proof (induction js)
  case (Cons j js)
  show ?case
  proof (cases "j = n")
    case True
    with Cons.prems(1) have "\<forall>k\<in>set js. \<not> k < Suc n" "\<forall>k\<in>set js. \<not> k < n" by auto
    with True show ?thesis by (simp add: filter_empty_conv)
  next
    case False
    with Cons.prems have "n \<in> set js" "j < n" "j < Suc n" by auto
    with Cons.IH Cons.prems(1) show ?thesis by simp
  qed
qed simp

lemma filter_less_Suc_absent: "n \<notin> set js \<Longrightarrow> filter (\<lambda>j. j < Suc n) js = filter (\<lambda>j. j < (n :: nat)) js"
  by (rule filter_cong) (auto simp: less_Suc_eq)

lemma players_in_filter:
  "players_in (map f js) = players_in (map f (filter P js)) + players_in (map f (filter (\<lambda>j. \<not> P j) js))"
  by (induction js) auto

lemma players_in_concat: "players_in (concat tss) = sum_list (map players_in tss)"
  by (induction tss) auto

lemma players_in_mset: "players_in ts = (\<Sum>t\<in>#mset ts. party_size t)"
  by (simp add: players_in_def flip: sum_mset_sum_list)

lemma players_in_cong: "mset xs = mset ys \<Longrightarrow> players_in xs = players_in ys"
  by (simp add: players_in_mset)

lemma players_in_mono: "mset xs \<subseteq># mset ys \<Longrightarrow> players_in xs \<le> players_in ys"
proof -
  assume "mset xs \<subseteq># mset ys"
  then obtain M where M: "mset ys = mset xs + M" by (metis subset_mset.le_iff_add)
  have "0 \<le> (\<Sum>t\<in>#M. party_size t)" by (induction M) auto
  with M show ?thesis by (simp add: players_in_mset)
qed

text \<open>What a path still has to place, when its assignment is the target up to the index.\<close>

definition to_place :: "nat \<Rightarrow> nat list list \<Rightarrow> nat list" where
  "to_place index target = filter (\<lambda>j. \<not> j < index) (concat target)"

lemma path_to_place:
  assumes path: "path_ok window slots index tickets needed remaining assigned"
    and target: "exact_assignment window slots target"
    and prefix: "assigned = map (filter (\<lambda>j. j < index)) target"
  shows "remaining = map (\<lambda>js. players_in (map ((!) window) (filter (\<lambda>j. \<not> j < index) js))) target"
    "needed = players_in (map ((!) window) (to_place index target))"
proof -
  let ?left = "\<lambda>js. players_in (map ((!) window) (filter (\<lambda>j. \<not> j < index) js))"
  have m: "slots = map (\<lambda>js. players_in (map ((!) window) js)) target"
    using target unfolding exact_assignment_def by (elim conjE) (rule sym)
  then have len: "length target = length slots" by simp
  have lens: "length remaining = length slots" using path unfolding path_ok_def by (elim conjE)
  have needed: "needed = sum_list remaining" using path unfolding path_ok_def by (elim conjE)
  have slot: "remaining ! i + players_in (map ((!) window) (assigned ! i)) = slots ! i" if "i < length slots" for i
    using path that unfolding path_ok_def by blast
  have full: "slots ! i = players_in (map ((!) window) (target ! i))" if "i < length slots" for i
  proof -
    have "i < length target" using that len by simp
    then show ?thesis unfolding m by (rule nth_map)
  qed
  show r: "remaining = map ?left target"
  proof (rule nth_equalityI)
    show "length remaining = length (map ?left target)" using lens len by simp
    fix i assume "i < length remaining"
    then have i: "i < length slots" using lens by simp
    have "remaining ! i + players_in (map ((!) window) (filter (\<lambda>j. j < index) (target ! i))) =
        players_in (map ((!) window) (target ! i))"
      using slot [OF i] full [OF i] i len unfolding prefix by simp
    moreover have "map ?left target ! i = ?left (target ! i)" using i len by simp
    ultimately show "remaining ! i = map ?left target ! i"
      using players_in_filter [of "(!) window" "target ! i" "\<lambda>j. j < index"] by linarith
  qed
  have "needed = sum_list (map ?left target)" unfolding needed r ..
  also have "\<dots> = players_in (concat (map (map ((!) window)) (map (filter (\<lambda>j. \<not> j < index)) target)))"
    unfolding players_in_concat map_map comp_def ..
  also have "\<dots> = players_in (map ((!) window) (to_place index target))"
    unfolding to_place_def filter_concat map_concat ..
  finally show "needed = players_in (map ((!) window) (to_place index target))" .
qed

lemma to_place_fits:
  assumes "exact_assignment window slots target"
  shows "players_in (map ((!) window) (to_place index target)) \<le> players_in (drop index window)"
proof -
  have "mset (to_place index target) \<subseteq># mset [index..<length window]"
  proof -
    have d: "distinct (to_place index target)" using assms by (simp add: exact_assignment_def to_place_def)
    have "set (to_place index target) \<subseteq> set [index..<length window]"
      using assms by (auto simp: exact_assignment_def to_place_def)
    from subset_imp_msubset_mset_set [OF this] d show ?thesis
      by (simp only: finite_set mset_set_set distinct_upt)
  qed
  from image_mset_subseteq_mono [OF this, of "(!) window"]
  have "mset (map ((!) window) (to_place index target)) \<subseteq># mset (map ((!) window) [index..<length window])" by simp
  moreover have "map ((!) window) [index..<length window] = drop index window"
    by (rule nth_equalityI) simp_all
  ultimately show ?thesis using players_in_mono by metis
qed

abbreviation parties_filled :: "MatchTicket list \<Rightarrow> bool" where
  "parties_filled window \<equiv> \<forall>t\<in>set window. mt_Players t \<noteq> []"

lemma players_in_zero: "parties_filled ts \<Longrightarrow> players_in ts = 0 \<longleftrightarrow> ts = []"
  by (cases ts) (auto simp: add_nonneg_eq_0_iff)

text \<open>Nothing is left to place exactly when the target is reached.\<close>

lemma to_place_done:
  assumes "exact_assignment window slots target" "parties_filled window"
    "players_in (map ((!) window) (to_place index target)) = 0"
  shows "map (filter (\<lambda>j. j < index)) target = target"
proof -
  have "\<forall>j\<in>set (to_place index target). j < length window"
    using assms(1) unfolding exact_assignment_def to_place_def by (elim conjE) (metis filter_is_subset subsetD)
  then have "parties_filled (map ((!) window) (to_place index target))" using assms(2) by simp
  then have "to_place index target = []" using players_in_zero [of "map ((!) window) (to_place index target)"] assms(3) by simp
  then have "\<forall>js\<in>set target. \<forall>j\<in>set js. j < index" by (auto simp: to_place_def filter_empty_conv)
  then show ?thesis by (simp add: map_idI filter_id_conv)
qed

lemma target_place:
  assumes target: "exact_assignment window slots target" and i: "i < length target" "index \<in> set (target ! i)"
  shows "map (filter (\<lambda>j. j < Suc index)) target =
    (map (filter (\<lambda>j. j < index)) target)[i := map (filter (\<lambda>j. j < index)) target ! i @ [index]]"
proof (rule nth_equalityI)
  fix k assume "k < length (map (filter (\<lambda>j. j < Suc index)) target)"
  then have k: "k < length target" by simp
  have d: "distinct (concat target)" and sorted: "sorted_wrt (<) (target ! k)"
    using target k unfolding exact_assignment_def by auto
  show "map (filter (\<lambda>j. j < Suc index)) target ! k =
    (map (filter (\<lambda>j. j < index)) target)[i := map (filter (\<lambda>j. j < index)) target ! i @ [index]] ! k"
  proof (cases "k = i")
    case True
    with i sorted show ?thesis by (simp add: filter_less_Suc)
  next
    case False
    with distinct_concat_nth [OF d i(1) k i(2)] have "index \<notin> set (target ! k)" by blast
    with False k show ?thesis by (simp add: filter_less_Suc_absent)
  qed
qed simp

lemma exact_leaves_complete:
  assumes target: "exact_assignment window slots target" and filled: "parties_filled window"
  shows "path_ok window slots index tickets needed remaining assigned \<Longrightarrow>
    assigned = map (filter (\<lambda>j. j < index)) target \<Longrightarrow>
    target \<in> set (exact_leaves index tickets needed remaining assigned)"
proof (induction tickets arbitrary: index needed remaining assigned)
  case Nil
  note left = path_to_place [OF Nil.prems(1) target Nil.prems(2)]
  have "drop index window = []" using Nil.prems(1) by (simp add: path_ok_def)
  with to_place_fits [OF target, of index] have zero: "players_in (map ((!) window) (to_place index target)) = 0"
    using players_in_nonneg [of "map ((!) window) (to_place index target)"] by simp
  then have "needed = 0" "assigned = target"
    using left(2) Nil.prems(2) to_place_done [OF target filled zero] by simp_all
  then show ?case by (simp add: exact_leaves_zero)
next
  case (Cons t rest)
  note left = path_to_place [OF Cons.prems(1) target Cons.prems(2)]
  note idx = path_ok_cong_index [OF Cons.prems(1)]
  have tickets: "t # rest = drop index window" using Cons.prems(1) unfolding path_ok_def by (elim conjE)
  show ?case
  proof (cases "needed = 0")
    case True
    with left(2) have zero: "players_in (map ((!) window) (to_place index target)) = 0" by (rule subst)
    from to_place_done [OF target filled zero] Cons.prems(2) True show ?thesis by (simp add: exact_leaves_zero)
  next
    case False
    have enough: "\<not> players_in (t # rest) < needed"
      using to_place_fits [OF target, of index] left(2) unfolding tickets by linarith
    show ?thesis
    proof (cases "index \<in> set (concat target)")
      case True
      then obtain i where i: "i < length target" "index \<in> set (target ! i)"
        by (metis (no_types, lifting) UN_iff in_set_conv_nth set_concat)
      have ri: "remaining ! i = players_in (map ((!) window) (filter (\<lambda>j. \<not> j < index) (target ! i)))"
        unfolding left(1) by (rule nth_map [OF i(1)])
      have len: "i < length remaining" unfolding left(1) using i(1) by simp
      have "mset [index] \<subseteq># mset (filter (\<lambda>j. \<not> j < index) (target ! i))" using i(2) by simp
      from image_mset_subseteq_mono [OF this, of "(!) window"]
      have "mset [t] \<subseteq># mset (map ((!) window) (filter (\<lambda>j. \<not> j < index) (target ! i)))" using idx by simp
      from players_in_mono [OF this] have fits: "party_size t \<le> remaining ! i" unfolding ri by simp
      have "target \<in> set (exact_leaves (Suc index) rest (i64 (needed - party_size t))
          (remaining[i := remaining ! i - party_size t]) (assigned[i := assigned ! i @ [index]]))"
        by (rule Cons.IH [OF path_place [OF Cons.prems(1) len fits]])
          (simp only: Cons.prems(2) target_place [OF target i])
      moreover have "i \<in> set (teams_for t remaining)" using len fits by (simp add: teams_for_def)
      ultimately show ?thesis using enough unfolding exact_leaves_Cons [OF False] by auto
    next
      case absent: False
      then have "map (filter (\<lambda>j. j < Suc index)) target = map (filter (\<lambda>j. j < index)) target"
        by (intro map_cong refl filter_less_Suc_absent) auto
      then have "target \<in> set (exact_leaves (Suc index) rest needed remaining assigned)"
        using Cons.prems(2) by (intro Cons.IH path_skip [OF Cons.prems(1)]) simp
      then show ?thesis using enough unfolding exact_leaves_Cons [OF False] by simp
    qed
  qed
qed

text \<open>The assignment of a placement: the indexes of its tickets, ascending in each team.\<close>

definition indexes_of :: "MatchTicket list \<Rightarrow> MatchTicket list \<Rightarrow> nat list" where
  "indexes_of window ts = filter (\<lambda>j. window ! j \<in> set ts) [0..<length window]"

lemma indexes_of_mset:
  assumes "distinct window" "distinct ts" "set ts \<subseteq> set window"
  shows "mset (map ((!) window) (indexes_of window ts)) = mset ts"
proof -
  have "map ((!) window) (indexes_of window ts) = filter (\<lambda>t. t \<in> set ts) (map ((!) window) [0..<length window])"
    by (simp add: indexes_of_def filter_map comp_def)
  also have "\<dots> = filter (\<lambda>t. t \<in> set ts) window" by (simp only: map_nth)
  finally have "set (map ((!) window) (indexes_of window ts)) = set ts"
    "distinct (map ((!) window) (indexes_of window ts))" using assms by auto
  with assms(2) show ?thesis by (simp only: set_eq_iff_mset_eq_distinct)
qed

lemma exact_placement_team:
  assumes "exact_placement window slots pl" "distinct window" "ts \<in> set pl"
  shows "mset (map ((!) window) (indexes_of window ts)) = mset ts"
proof (rule indexes_of_mset [OF assms(2)])
  have sub: "mset (concat pl) \<subseteq># mset window" using assms(1) unfolding exact_placement_def by (elim conjE)
  from set_mset_mono [OF this] assms(3) show "set ts \<subseteq> set window" by auto
  have "distinct (concat pl)" using distinct_submset [OF sub, of "\<lambda>x. x"] assms(2) by simp
  then show "distinct ts" using assms(3) by (simp add: distinct_concat_iff)
qed

lemma exact_placement_assignment:
  assumes exact: "exact_placement window slots pl" and d: "distinct window"
  shows "exact_assignment window slots (map (indexes_of window) pl)"
    and "same_teams pl (materializePlacement window (map (indexes_of window) pl))"
proof -
  note team = exact_placement_team [OF exact d]
  have sub: "mset (concat pl) \<subseteq># mset window" and slots: "map players_in pl = slots"
    using exact unfolding exact_placement_def by blast+
  show "same_teams pl (materializePlacement window (map (indexes_of window) pl))"
    unfolding materializePlacement_def map_map list_all2_map2 list_all2_same comp_def using team by simp
  have "map (\<lambda>js. players_in (map ((!) window) js)) (map (indexes_of window) pl) = map players_in pl"
    unfolding map_map comp_def by (rule map_cong [OF refl]) (rule players_in_cong [OF team])
  moreover have "distinct (concat (map (indexes_of window) pl))"
  proof -
    have "mset (map ((!) window) (concat (map (indexes_of window) pl))) = mset (concat pl)"
      unfolding map_concat map_map mset_concat
      by (rule arg_cong [of _ _ sum_list], rule map_cong [OF refl]) (simp add: team flip: mset_map)
    moreover have "distinct (concat pl)" using distinct_submset [OF sub, of "\<lambda>x. x"] d by simp
    ultimately have "distinct (map ((!) window) (concat (map (indexes_of window) pl)))"
      using mset_eq_imp_distinct_iff by blast
    then show ?thesis by (simp only: distinct_map)
  qed
  moreover have "sorted_wrt (<) js" if "js \<in> set (map (indexes_of window) pl)" for js
    using that by (auto simp: indexes_of_def sorted_wrt_filter)
  moreover have "j < length window" if "j \<in> set (concat (map (indexes_of window) pl))" for j
    using that by (auto simp: indexes_of_def)
  ultimately show "exact_assignment window slots (map (indexes_of window) pl)"
    unfolding exact_assignment_def slots by blast
qed

text \<open>The leaves of the whole enumeration, as placements.\<close>

definition exact_placements :: "MatchTicket list \<Rightarrow> int list \<Rightarrow> nat list list list" where
  "exact_placements window slots = exact_leaves 0 window (sum_list slots) slots (map (\<lambda>_. []) slots)"

theorem exact_placements_covers:
  assumes "exact_placement window slots pl" "distinct window" "parties_filled window" "slots_in_range slots"
  shows "map (indexes_of window) pl \<in> set (exact_placements window slots)"
    and "same_teams pl (materializePlacement window (map (indexes_of window) pl))"
proof -
  note a = exact_placement_assignment [OF assms(1,2)]
  have len: "length pl = length slots" using assms(1) unfolding exact_placement_def by (elim conjE) (metis length_map)
  show "map (indexes_of window) pl \<in> set (exact_placements window slots)"
    unfolding exact_placements_def
  proof (rule exact_leaves_complete [OF a(1) assms(3) path_root [OF assms(4)]])
    show "map (\<lambda>_. []) slots = map (filter (\<lambda>j. j < 0)) (map (indexes_of window) pl)"
      by (simp add: map_replicate_const comp_def len)
  qed
  show "same_teams pl (materializePlacement window (map (indexes_of window) pl))" by (rule a(2))
qed

lemma exact_placements_sound:
  assumes "leaf \<in> set (exact_placements window slots)" "slots_in_range slots"
  shows "exact_placement window slots (materializePlacement window leaf)"
  using exact_leaves_sound [OF path_root [OF assms(2)], of leaf window] assms(1) path_leaf_exact
  unfolding exact_placements_def by metis

end
