(* ===== verification/Oracle.thy ===== *)
theory Oracle
  imports Exhaustive Engine
begin

text \<open>
  The exhaustive oracle for a single new match, \<open>src/internal/evaluation/oracle.go\<close>, against which the
  planner is measured. The closure \<open>enumerate\<close> is the function \<open>oracle_enumerate\<close>: what it undoes on
  the way back (\<open>remaining\<close>, \<open>assigned\<close>) are arguments, what it keeps is the result.

  The oracle finds a match exactly when an admissible one exists, and what it finds is best
  (\<open>ExhaustiveNewMatch_optimal\<close>); measured against it the planner is never preferred
  (\<open>CompareBatch_plan\<close>).
\<close>

section \<open>Data\<close>

definition MaxOracleTickets :: nat where "MaxOracleTickets = 12"
definition MaxOracleTeams :: int where "MaxOracleTeams = 2"

record OracleResult =
  or_Found :: bool
  or_CandidatesEvaluated :: nat
  or_AdmissibleCandidates :: nat
  or_BestEvidence :: ScoreEvidence

datatype QualityRelation = QualityEquivalent | QualityOraclePreferred | QualityPlannerPreferred

record OracleComparison =
  oc_Relation :: QualityRelation
  oc_PlannerFound :: bool
  oc_Oracle :: OracleResult
  oc_PlannerEvidence :: ScoreEvidence

definition OracleResult_zero :: OracleResult where
  "OracleResult_zero = \<lparr>or_Found = False, or_CandidatesEvaluated = 0, or_AdmissibleCandidates = 0,
     or_BestEvidence = ScoreEvidence_zero\<rparr>"

text \<open>The literal \<open>objective.Evaluation{Admissible: true, Evidence: evidence}\<close>.\<close>

definition evaluation_with :: "ScoreEvidence \<Rightarrow> Evaluation" where
  "evaluation_with evidence = \<lparr>eval_Admissible = True, eval_HardViolation = False,
     eval_PriorityWaitMillis = [], eval_Evidence = evidence\<rparr>"

section \<open>Enumeration\<close>

definition OracleEligible :: "MatchmakingSnapshot \<Rightarrow> bool" where
  "OracleEligible snapshot \<longleftrightarrow> snap_BackfillTickets snapshot = [] \<and>
     pol_TeamCount (snap_Policy snapshot) \<le> MaxOracleTeams \<and>
     length (snap_MatchTickets snapshot) \<le> MaxOracleTickets"

text \<open>The branch \<open>needed == 0\<close>.\<close>

definition oracle_leaf :: "MatchmakingSnapshot \<Rightarrow> placement \<Rightarrow> OracleResult \<Rightarrow> OracleResult" where
  "oracle_leaf snapshot assigned result =
     (let evaluation = Evaluate (snap_Now snapshot) assigned (snap_Policy snapshot) ProposalNewMatch;
          result = result\<lparr>or_CandidatesEvaluated := Suc (or_CandidatesEvaluated result)\<rparr>
      in if \<not> eval_Admissible evaluation then result
         else let result = result\<lparr>or_AdmissibleCandidates := Suc (or_AdmissibleCandidates result)\<rparr>
              in if \<not> or_Found result \<or> Compare evaluation (evaluation_with (or_BestEvidence result)) < 0
                 then result\<lparr>or_Found := True, or_BestEvidence := eval_Evidence evaluation\<rparr>
                 else result)"

fun oracle_enumerate ::
  "MatchmakingSnapshot \<Rightarrow> MatchTicket list \<Rightarrow> int \<Rightarrow> int list \<Rightarrow> placement \<Rightarrow> OracleResult \<Rightarrow> OracleResult" where
  "oracle_enumerate snapshot tickets needed remaining assigned result =
     (if needed = 0 then oracle_leaf snapshot assigned result
      else case tickets of [] \<Rightarrow> result
      | ticket # rest \<Rightarrow>
          if players_in tickets < needed then result
          else let partySize = int (length (mt_Players ticket));
                   result = foldl (\<lambda>result team.
                     if partySize > remaining ! team then result
                     else oracle_enumerate snapshot rest (i64 (needed - partySize))
                            (remaining[team := remaining ! team - partySize])
                            (assigned[team := assigned ! team @ [ticket]]) result)
                     result [0..<length remaining]
               in oracle_enumerate snapshot rest needed remaining assigned result)"

declare oracle_enumerate.simps [simp del]

definition ExhaustiveNewMatch :: "MatchmakingSnapshot \<Rightarrow> OracleResult result" where
  "ExhaustiveNewMatch snapshot =
     (case ValidateSnapshot snapshot of Some e \<Rightarrow> Inl e | None \<Rightarrow>
      if length (snap_BackfillTickets snapshot) > 0 then Inl FailureInvalidInput
      else if pol_TeamCount (snap_Policy snapshot) > MaxOracleTeams then Inl FailureInvalidInput
      else if length (snap_MatchTickets snapshot) > MaxOracleTickets then Inl FailureInvalidInput
      else let policy = snap_Policy snapshot;
               remaining = replicate (nat (pol_TeamCount policy)) (pol_TeamSize policy);
               assigned = replicate (nat (pol_TeamCount policy)) []
           in Inr (oracle_enumerate snapshot (snap_MatchTickets snapshot)
                     (i64 (pol_TeamCount policy * pol_TeamSize policy)) remaining assigned OracleResult_zero))"

section \<open>Comparison with a batch\<close>

fun check_oracle_proposals :: "MatchmakingSnapshot \<Rightarrow> MatchProposal list \<Rightarrow> go_error" where
  "check_oracle_proposals snapshot [] = None"
| "check_oracle_proposals snapshot (proposal # rest) =
     (case ValidateProposal proposal of Some e \<Rightarrow> Some e | None \<Rightarrow>
      if prop_Kind proposal \<noteq> ProposalNewMatch \<or> prop_PolicyVersion proposal \<noteq> pol_Version (snap_Policy snapshot)
      then Some FailureInvalidInput
      else check_oracle_proposals snapshot rest)"

definition CompareBatch :: "MatchmakingSnapshot \<Rightarrow> ProposalBatch \<Rightarrow> OracleComparison result" where
  "CompareBatch snapshot batch =
     (if batch_SnapshotID batch \<noteq> snap_ID snapshot then Inl FailureInvalidInput
      else case check_oracle_proposals snapshot (batch_Proposals batch) of Some e \<Rightarrow> Inl e | None \<Rightarrow>
      case ExhaustiveNewMatch snapshot of Inl e \<Rightarrow> Inl e | Inr oracle \<Rightarrow>
      let plannerFound = batch_Proposals batch \<noteq> [];
          plannerEvidence = (if plannerFound then prop_Evidence (hd (batch_Proposals batch)) else ScoreEvidence_zero);
          relation =
            (if \<not> plannerFound \<and> \<not> or_Found oracle then QualityEquivalent
             else if \<not> plannerFound \<and> or_Found oracle then QualityOraclePreferred
             else if plannerFound \<and> \<not> or_Found oracle then QualityPlannerPreferred
             else let result = Compare (evaluation_with plannerEvidence) (evaluation_with (or_BestEvidence oracle))
                  in if result < 0 then QualityPlannerPreferred
                     else if result > 0 then QualityOraclePreferred
                     else QualityEquivalent)
      in Inr \<lparr>oc_Relation = relation, oc_PlannerFound = plannerFound, oc_Oracle = oracle,
              oc_PlannerEvidence = plannerEvidence\<rparr>)"

section \<open>The enumeration visits the exact placements\<close>

lemma foldl_if:
  "foldl (\<lambda>r x. if P x then r else f r x) r xs = foldl f r (filter (\<lambda>x. \<not> P x) xs)"
  by (induction xs arbitrary: r) auto

lemma oracle_enumerate_zero [simp]: "oracle_enumerate s ts 0 remaining assigned r = oracle_leaf s assigned r"
  by (simp add: oracle_enumerate.simps)

lemma oracle_enumerate_Nil: "needed \<noteq> 0 \<Longrightarrow> oracle_enumerate s [] needed remaining assigned r = r"
  by (simp add: oracle_enumerate.simps)

lemma oracle_enumerate_Cons:
  "needed \<noteq> 0 \<Longrightarrow> oracle_enumerate s (t # rest) needed remaining assigned r =
     (if players_in (t # rest) < needed then r
      else oracle_enumerate s rest needed remaining assigned
        (foldl (\<lambda>r team. oracle_enumerate s rest (i64 (needed - party_size t))
             (remaining[team := remaining ! team - party_size t])
             (assigned[team := assigned ! team @ [t]]) r) r (teams_for t remaining)))"
  by (subst oracle_enumerate.simps) (simp add: foldl_if teams_for_def not_less Let_def del: players_in_simps)

lemma foldl_concat_map: "foldl (\<lambda>r x. foldl g r (f x)) r xs = foldl g r (concat (map f xs))"
  by (induction xs arbitrary: r) auto

lemma foldl_cong_mem: "(\<And>r x. x \<in> set xs \<Longrightarrow> f r x = g r x) \<Longrightarrow> foldl f r xs = foldl g r xs"
  by (rule foldl_cong) auto

lemma oracle_enumerate_leaves:
  "path_ok window slots index tickets needed remaining assigned \<Longrightarrow>
   oracle_enumerate s tickets needed remaining (materializePlacement window assigned) r =
     foldl (\<lambda>r leaf. oracle_leaf s (materializePlacement window leaf) r) r
       (exact_leaves index tickets needed remaining assigned)"
proof (induction tickets arbitrary: index needed remaining assigned r)
  case Nil
  show ?case by (cases "needed = 0") (simp_all add: exact_leaves_zero exact_leaves_Nil oracle_enumerate_Nil)
next
  case (Cons t rest)
  let ?leaf = "\<lambda>r leaf. oracle_leaf s (materializePlacement window leaf) r"
  note idx = path_ok_cong_index [OF Cons.prems]
  show ?case
  proof (cases "needed = 0")
    case False
    let ?sub = "\<lambda>team. exact_leaves (Suc index) rest (i64 (needed - party_size t))
        (remaining[team := remaining ! team - party_size t]) (assigned[team := assigned ! team @ [index]])"
    have place: "oracle_enumerate s rest (i64 (needed - party_size t)) (remaining[team := remaining ! team - party_size t])
        ((materializePlacement window assigned)[team := materializePlacement window assigned ! team @ [t]]) r =
      foldl ?leaf r (?sub team)" if "team \<in> set (teams_for t remaining)" for team r
    proof -
      from that have team: "team < length remaining" "party_size t \<le> remaining ! team" by (auto simp: teams_for_def)
      then have len: "team < length assigned" using Cons.prems by (simp add: path_ok_def)
      have "(materializePlacement window assigned)[team := materializePlacement window assigned ! team @ [t]] =
          materializePlacement window (assigned[team := assigned ! team @ [index]])"
        using len idx by (simp add: materializePlacement_def map_update)
      with Cons.IH [OF path_place [OF Cons.prems team], of r] show ?thesis by simp
    qed
    have "foldl (\<lambda>r team. oracle_enumerate s rest (i64 (needed - party_size t))
        (remaining[team := remaining ! team - party_size t])
        ((materializePlacement window assigned)[team := materializePlacement window assigned ! team @ [t]]) r)
        r (teams_for t remaining) = foldl (\<lambda>r team. foldl ?leaf r (?sub team)) r (teams_for t remaining)"
      by (rule foldl_cong_mem) (rule place)
    also have "\<dots> = foldl ?leaf r (concat (map ?sub (teams_for t remaining)))" by (rule foldl_concat_map)
    finally show ?thesis
      using Cons.IH [OF path_skip [OF Cons.prems]]
      unfolding oracle_enumerate_Cons [OF False] exact_leaves_Cons [OF False] by simp
  qed (simp add: exact_leaves_zero)
qed

section \<open>The best evidence\<close>

abbreviation oracle_evaluation :: "MatchmakingSnapshot \<Rightarrow> placement \<Rightarrow> Evaluation" where
  "oracle_evaluation s pl \<equiv> Evaluate (snap_Now s) pl (snap_Policy s) ProposalNewMatch"

lemma Compare_evidence:
  "eval_Evidence d = eval_Evidence d' \<Longrightarrow> eval_Evidence e = eval_Evidence e' \<Longrightarrow> Compare d e = Compare d' e'"
  by (simp add: Compare_def Let_def)

lemma evaluation_with_sel [simp]: "eval_Evidence (evaluation_with v) = v" "eval_Admissible (evaluation_with v)"
  by (simp_all add: evaluation_with_def)

lemma wait_consistent_evidence:
  "eval_Evidence d = eval_Evidence e \<Longrightarrow> wait_consistent p d = wait_consistent p e"
  by (simp add: wait_consistent_def)

text \<open>What the result says of the placements visited so far.\<close>

definition oracle_ok :: "MatchmakingSnapshot \<Rightarrow> placement set \<Rightarrow> OracleResult \<Rightarrow> bool" where
  "oracle_ok s V r \<longleftrightarrow>
     (or_Found r \<longleftrightarrow> (\<exists>pl\<in>V. eval_Admissible (oracle_evaluation s pl))) \<and>
     (or_Found r \<longrightarrow>
        (\<exists>pl\<in>V. eval_Admissible (oracle_evaluation s pl) \<and> or_BestEvidence r = eval_Evidence (oracle_evaluation s pl)) \<and>
        (\<forall>pl\<in>V. eval_Admissible (oracle_evaluation s pl) \<longrightarrow>
           Compare (evaluation_with (or_BestEvidence r)) (oracle_evaluation s pl) \<le> 0))"

lemma oracle_leaf_better:
  assumes "eval_Admissible (oracle_evaluation s pl)"
    "\<not> or_Found r \<or> Compare (oracle_evaluation s pl) (evaluation_with (or_BestEvidence r)) < 0"
  shows "or_Found (oracle_leaf s pl r)" "or_BestEvidence (oracle_leaf s pl r) = eval_Evidence (oracle_evaluation s pl)"
  using assms by (simp_all add: oracle_leaf_def Let_def)

lemma oracle_leaf_other:
  assumes "\<not> (eval_Admissible (oracle_evaluation s pl) \<and>
    (\<not> or_Found r \<or> Compare (oracle_evaluation s pl) (evaluation_with (or_BestEvidence r)) < 0))"
  shows "or_Found (oracle_leaf s pl r) = or_Found r" "or_BestEvidence (oracle_leaf s pl r) = or_BestEvidence r"
  using assms by (auto simp: oracle_leaf_def Let_def)

lemma oracle_leaf_ok:
  assumes steps: "valid_steps (pol_RelaxationSteps (snap_Policy s))" and ok: "oracle_ok s V r"
  shows "oracle_ok s (insert pl V) (oracle_leaf s pl r)"
proof -
  let ?e = "oracle_evaluation s" and ?p = "snap_Policy s"
  have con: "wait_consistent ?p (?e q)" for q by (simp add: Evaluate_def evaluate_consistent [OF steps])
  show ?thesis
  proof (cases "eval_Admissible (?e pl) \<and> (\<not> or_Found r \<or> Compare (?e pl) (evaluation_with (or_BestEvidence r)) < 0)")
    case True
    then have new: "or_Found (oracle_leaf s pl r)" "or_BestEvidence (oracle_leaf s pl r) = eval_Evidence (?e pl)"
      by (blast intro: oracle_leaf_better)+
    have "Compare (?e pl) (?e q) \<le> 0" if q: "q \<in> insert pl V" "eval_Admissible (?e q)" for q
    proof (cases "q = pl")
      case False
      with q ok obtain q' where "or_Found r" and best: "or_BestEvidence r = eval_Evidence (?e q')"
        and le: "Compare (evaluation_with (or_BestEvidence r)) (?e q) \<le> 0"
        unfolding oracle_ok_def by blast
      then have less: "Compare (?e pl) (evaluation_with (or_BestEvidence r)) < 0" using True by blast
      have "wait_consistent ?p (evaluation_with (or_BestEvidence r))"
        using con [of q'] wait_consistent_evidence [of "evaluation_with (or_BestEvidence r)" "?e q'" ?p] best by simp
      from objective.cmp_less_trans_le [OF con this con less le] show ?thesis by simp
    qed (simp add: objective.cmp_refl [OF con])
    then have "Compare (evaluation_with (eval_Evidence (?e pl))) (?e q) \<le> 0"
      if "q \<in> insert pl V" "eval_Admissible (?e q)" for q
      using that Compare_evidence [of "evaluation_with (eval_Evidence (?e pl))" "?e pl" "?e q" "?e q"] by simp
    with new True show ?thesis unfolding oracle_ok_def by auto
  next
    case False
    note same = oracle_leaf_other [OF False]
    show ?thesis
    proof (cases "eval_Admissible (?e pl)")
      case True
      with False have f: "or_Found r" and ge: "\<not> Compare (?e pl) (evaluation_with (or_BestEvidence r)) < 0" by blast+
      then have "Compare (evaluation_with (or_BestEvidence r)) (?e pl) \<le> 0"
        using Compare_sym [of "?e pl" "evaluation_with (or_BestEvidence r)"]
          Compare_sym [of "evaluation_with (or_BestEvidence r)" "?e pl"] by linarith
      with f ok True show ?thesis unfolding oracle_ok_def same by blast
    next
      case no: False
      with ok show ?thesis unfolding oracle_ok_def same by blast
    qed
  qed
qed

lemma oracle_fold_ok:
  assumes "valid_steps (pol_RelaxationSteps (snap_Policy s))"
  shows "oracle_ok s V r \<Longrightarrow> oracle_ok s (V \<union> f ` set xs) (foldl (\<lambda>r x. oracle_leaf s (f x) r) r xs)"
proof (induction xs arbitrary: V r)
  case (Cons x xs)
  from Cons.IH [OF oracle_leaf_ok [OF assms Cons.prems, of "f x"]] show ?case by simp
qed simp

section \<open>Optimality\<close>

text \<open>A new match the policy admits: exact teams of the snapshot's tickets with an admissible evaluation.\<close>

definition admissible_match :: "MatchmakingSnapshot \<Rightarrow> placement \<Rightarrow> bool" where
  "admissible_match s pl \<longleftrightarrow> exact_placement (snap_MatchTickets s) (matchSlots (snap_Policy s)) pl \<and>
     eval_Admissible (oracle_evaluation s pl)"

lemma snapshot_window:
  assumes "ValidateSnapshot s = None"
  shows "distinct (snap_MatchTickets s)" "parties_filled (snap_MatchTickets s)"
  using assms by (auto simp: ValidateSnapshot_None ValidateMatchTicket_None distinct_map)

lemma oracle_covers:
  assumes v: "ValidateSnapshot s = None" and cap: "capacity_in_range (snap_Policy s)" and m: "admissible_match s pl"
  obtains leaf where "leaf \<in> set (exact_placements (snap_MatchTickets s) (matchSlots (snap_Policy s)))"
    "score (oracle_evaluation s (materializePlacement (snap_MatchTickets s) leaf)) = score (oracle_evaluation s pl)"
proof -
  have range: "slots_in_range (matchSlots (snap_Policy s))"
    using v cap by (intro matchSlots_in_range) (simp_all add: ValidateSnapshot_None)
  have exact: "exact_placement (snap_MatchTickets s) (matchSlots (snap_Policy s)) pl"
    using m by (simp add: admissible_match_def)
  note cover = exact_placements_covers [OF exact snapshot_window [OF v] range]
  from evaluate_order [OF cover(2), of "snap_Now s" "snap_Policy s" ProposalNewMatch "[]"]
  show thesis by (intro that [OF cover(1)]) (simp add: Evaluate_def)
qed

lemma ExhaustiveNewMatch_conv:
  assumes r: "ExhaustiveNewMatch s = Inr r" and cap: "capacity_in_range (snap_Policy s)"
  shows "ValidateSnapshot s = None" "oracle_ok s {pl. exact_placement (snap_MatchTickets s) (matchSlots (snap_Policy s)) pl} r"
proof -
  let ?w = "snap_MatchTickets s" and ?slots = "matchSlots (snap_Policy s)"
  show v: "ValidateSnapshot s = None" using r by (auto simp: ExhaustiveNewMatch_def split: option.splits)
  then have p: "ValidatePolicy (snap_Policy s) = None" by (simp add: ValidateSnapshot_None)
  then have steps: "valid_steps (pol_RelaxationSteps (snap_Policy s))" by (simp add: ValidatePolicy_None)
  have range: "slots_in_range ?slots" by (rule matchSlots_in_range [OF p cap])
  have sum: "sum_list ?slots = pol_TeamCount (snap_Policy s) * pol_TeamSize (snap_Policy s)"
    "0 \<le> sum_list ?slots"
    using p by (simp_all add: matchSlots_def sum_list_replicate ValidatePolicy_None)
  have empty: "materializePlacement ?w (map (\<lambda>_. []) ?slots) = replicate (nat (pol_TeamCount (snap_Policy s))) []"
    by (simp add: materializePlacement_def matchSlots_def comp_def map_replicate)
  have "i64 (pol_TeamCount (snap_Policy s) * pol_TeamSize (snap_Policy s)) = sum_list ?slots"
    unfolding sum(1) [symmetric] using sum(2) range by (intro i64_small) (simp_all add: slots_in_range_def)
  then have "r = oracle_enumerate s ?w (sum_list ?slots) ?slots (materializePlacement ?w (map (\<lambda>_. []) ?slots)) OracleResult_zero"
    using r v unfolding ExhaustiveNewMatch_def empty by (simp add: Let_def matchSlots_def split: if_splits)
  also have "\<dots> = foldl (\<lambda>r leaf. oracle_leaf s (materializePlacement ?w leaf) r) OracleResult_zero (exact_placements ?w ?slots)"
    unfolding exact_placements_def by (rule oracle_enumerate_leaves [OF path_root [OF range]])
  finally have fold: "r = \<dots>" .
  have "oracle_ok s {} OracleResult_zero" by (simp add: oracle_ok_def OracleResult_zero_def)
  from oracle_fold_ok [OF steps this, of "materializePlacement ?w" "exact_placements ?w ?slots"]
  have ok: "oracle_ok s (materializePlacement ?w ` set (exact_placements ?w ?slots)) r" unfolding fold by simp
  have sound: "exact_placement ?w ?slots pl" if "pl \<in> materializePlacement ?w ` set (exact_placements ?w ?slots)" for pl
    using that exact_placements_sound [OF _ range] by blast
  have covers: "\<exists>q\<in>materializePlacement ?w ` set (exact_placements ?w ?slots).
      score (oracle_evaluation s q) = score (oracle_evaluation s pl)"
    if "exact_placement ?w ?slots pl" "eval_Admissible (oracle_evaluation s pl)" for pl
    using that oracle_covers [OF v cap, of pl] unfolding admissible_match_def by blast
  have "Compare (evaluation_with (or_BestEvidence r)) (oracle_evaluation s pl) \<le> 0"
    if "exact_placement ?w ?slots pl" "eval_Admissible (oracle_evaluation s pl)" "or_Found r" for pl
  proof -
    note adm = that(2)
    from covers [OF that(1,2)] obtain q where q: "q \<in> materializePlacement ?w ` set (exact_placements ?w ?slots)"
      "eval_Admissible (oracle_evaluation s q)" "eval_Evidence (oracle_evaluation s q) = eval_Evidence (oracle_evaluation s pl)"
      using adm by (auto simp: score_def)
    with ok that(3) have "Compare (evaluation_with (or_BestEvidence r)) (oracle_evaluation s q) \<le> 0"
      unfolding oracle_ok_def by blast
    with Compare_evidence [OF refl q(3)] show ?thesis by metis
  qed
  moreover have "or_Found r \<longleftrightarrow> (\<exists>pl. exact_placement ?w ?slots pl \<and> eval_Admissible (oracle_evaluation s pl))"
    using ok covers sound unfolding oracle_ok_def score_def by (metis (no_types, lifting) prod.inject)
  moreover have "\<exists>pl. exact_placement ?w ?slots pl \<and> eval_Admissible (oracle_evaluation s pl) \<and>
      or_BestEvidence r = eval_Evidence (oracle_evaluation s pl)" if "or_Found r"
    using ok that sound unfolding oracle_ok_def by metis
  ultimately show "oracle_ok s {pl. exact_placement ?w ?slots pl} r" unfolding oracle_ok_def by blast
qed

section \<open>Properties\<close>

text \<open>
  C35. The oracle is exact. On every snapshot it accepts it finds a match precisely when some way of
  filling the teams exactly is admissible; the evidence it then reports is that of an admissible
  match, and no admissible match compares better. The enumeration thus loses nothing: neither
  stopping at a branch whose tickets hold too few players nor taking the tickets of a team in queue
  order hides a match.
\<close>

theorem ExhaustiveNewMatch_optimal:
  assumes "ExhaustiveNewMatch snapshot = Inr result" "capacity_in_range (snap_Policy snapshot)"
  shows "(or_Found result \<longleftrightarrow> (\<exists>pl. admissible_match snapshot pl)) \<and>
    (or_Found result \<longrightarrow>
       (\<exists>pl. admissible_match snapshot pl \<and> or_BestEvidence result = eval_Evidence (oracle_evaluation snapshot pl)) \<and>
       (\<forall>pl. admissible_match snapshot pl \<longrightarrow>
          Compare (evaluation_with (or_BestEvidence result)) (oracle_evaluation snapshot pl) \<le> 0))"
  using ExhaustiveNewMatch_conv(2) [OF assms] unfolding oracle_ok_def admissible_match_def by blast

lemma ExhaustiveNewMatch_optimal_witness:
  "\<exists>result pl. ExhaustiveNewMatch ex_duel_snapshot = Inr result \<and> or_Found result \<and> admissible_match ex_duel_snapshot pl"
proof -
  obtain result where r: "ExhaustiveNewMatch ex_duel_snapshot = Inr result" "or_Found result"
  proof -
    have "isl (ExhaustiveNewMatch ex_duel_snapshot) = False" "or_Found (projr (ExhaustiveNewMatch ex_duel_snapshot))"
      by code_simp+
    then show thesis using that by (cases "ExhaustiveNewMatch ex_duel_snapshot") auto
  qed
  have cap: "capacity_in_range (snap_Policy ex_duel_snapshot)" by code_simp
  from ExhaustiveNewMatch_optimal [OF r(1) cap] r show ?thesis by blast
qed

text \<open>The checks of the comparison accept what the planner proposes.\<close>

lemma check_oracle_proposals_None:
  "check_oracle_proposals s ps = None \<longleftrightarrow> (\<forall>p\<in>set ps. ValidateProposal p = None \<and> prop_Kind p = ProposalNewMatch \<and>
     prop_PolicyVersion p = pol_Version (snap_Policy s))"
  by (induction ps) (auto split: option.splits)

lemma evidence_score_Compare:
  "evidence_score v = evidence_score w \<Longrightarrow> Compare (evaluation_with v) e = Compare (evaluation_with w) e \<and>
     Compare e (evaluation_with v) = Compare e (evaluation_with w)"
  by (cases v; cases w) (simp add: evidence_score_def Compare_def Let_def)

lemma plan_summary:
  assumes "Plan sha256 s = Inr batch"
  shows "ValidateSnapshot s = None" "batch_SnapshotID batch = snap_ID s"
    "p \<in> set (batch_Proposals batch) \<Longrightarrow> prop_PolicyVersion p = pol_Version (snap_Policy s)"
    "p \<in> set (batch_Proposals batch) \<Longrightarrow> FingerprintPolicy sha256 (snap_Policy s) = Inr (prop_PolicyFingerprint p)"
proof -
  from assms obtain fp cs where v: "ValidateSnapshot s = None" and fp: "FingerprintPolicy sha256 (snap_Policy s) = Inr fp"
    and batch: "batch_Proposals batch = build_proposals sha256 s fp cs" by (rule Plan_cases)
  show "ValidateSnapshot s = None" by (rule v)
  show "batch_SnapshotID batch = snap_ID s"
    using assms by (auto simp: Plan_def Let_def split: option.splits sum.splits prod.splits if_splits)
  assume p: "p \<in> set (batch_Proposals batch)"
  then have "prop_PolicyVersion p = pol_Version (snap_Policy s) \<and> prop_PolicyFingerprint p = fp"
    unfolding batch by (rule proposal_in_build) blast
  with fp show "prop_PolicyVersion p = pol_Version (snap_Policy s)"
    "FingerprintPolicy sha256 (snap_Policy s) = Inr (prop_PolicyFingerprint p)" by simp_all
qed

lemma Plan_new_matches:
  assumes plan: "Plan sha256 s = Inr batch" and cap: "capacity_in_range (snap_Policy s)"
    and none: "snap_BackfillTickets s = []" and p: "p \<in> set (batch_Proposals batch)"
  obtains pl where "prop_Kind p = ProposalNewMatch" "admissible_match s pl"
    "evidence_score (prop_Evidence p) = evidence_score (eval_Evidence (oracle_evaluation s pl))"
proof -
  from plan cap p obtain placement slots existing enq where pl:
    "shape_ok s (snap_BackfillTickets s) (prop_Kind p) (prop_Backfill p) slots existing enq"
    "map players_in placement = slots"
    "scored_as (prop_Evidence p) (shape_evaluation s (prop_Kind p) existing enq placement)"
    "mset (concat placement) \<subseteq># mset (plan_available s)"
    by (rule plan_proposal_placement)
  then have kind: "prop_Kind p = ProposalNewMatch" "slots = matchSlots (snap_Policy s)" by (auto simp: shape_ok_def none)
  have "mset (concat placement) \<subseteq># mset (snap_MatchTickets s)"
    using pl(4) mset_plan_tickets [of s] by (metis mset_subset_eq_add_left subset_mset.order_trans)
  with pl kind have "admissible_match s placement"
    "evidence_score (prop_Evidence p) = evidence_score (eval_Evidence (oracle_evaluation s placement))"
    by (simp_all add: admissible_match_def exact_placement_def scored_as_def shape_evaluation_def)
  with kind(1) show thesis by (intro that)
qed

text \<open>
  C36. Measured against the oracle the planner is never the preferred one. For every snapshot inside
  the oracle's bound the comparison of the planned batch succeeds, and its relation is that the two
  are equivalent or that the oracle is preferred: the evidence of the first proposal is the score of
  a match the oracle has also seen, whatever budgets, windows and shortcuts led to it.
\<close>

theorem CompareBatch_plan:
  assumes "Plan sha256 snapshot = Inr batch" "OracleEligible snapshot" "plan_ready sha256 snapshot"
  shows "\<exists>comparison. CompareBatch snapshot batch = Inr comparison \<and> oc_Relation comparison \<noteq> QualityPlannerPreferred"
proof -
  let ?e = "oracle_evaluation snapshot"
  have cap: "capacity_in_range (snap_Policy snapshot)" using assms(3) by (simp add: plan_ready_def)
  note plan = plan_summary [OF assms(1)]
  have none: "snap_BackfillTickets snapshot = []" using assms(2) by (simp add: OracleEligible_def)
  have checks: "check_oracle_proposals snapshot (batch_Proposals batch) = None"
    unfolding check_oracle_proposals_None
  proof (intro ballI conjI)
    fix p assume p: "p \<in> set (batch_Proposals batch)"
    show "ValidateProposal p = None" by (rule go_planner.plan_valid [OF assms(3,1) p])
    show "prop_Kind p = ProposalNewMatch" using assms(1) cap none p by (rule Plan_new_matches)
    show "prop_PolicyVersion p = pol_Version (snap_Policy snapshot)" by (rule plan(3) [OF p])
  qed
  obtain r where r: "ExhaustiveNewMatch snapshot = Inr r"
    using plan(1) assms(2) by (auto simp: ExhaustiveNewMatch_def OracleEligible_def Let_def)
  note ok = ExhaustiveNewMatch_conv(2) [OF r cap]
  have "oc_Relation (projr (CompareBatch snapshot batch)) \<noteq> QualityPlannerPreferred"
  proof (cases "batch_Proposals batch")
    case Nil
    then show ?thesis using checks r by (simp add: CompareBatch_def plan(2) Let_def)
  next
    case (Cons p ps)
    then have "p \<in> set (batch_Proposals batch)" by simp
    from assms(1) cap none this obtain pl where pl: "admissible_match snapshot pl"
      "evidence_score (prop_Evidence p) = evidence_score (eval_Evidence (?e pl))" by (rule Plan_new_matches)
    then have f: "or_Found r" and le: "Compare (evaluation_with (or_BestEvidence r)) (?e pl) \<le> 0"
      using ok unfolding oracle_ok_def admissible_match_def by blast+
    have "Compare (evaluation_with (or_BestEvidence r)) (evaluation_with (prop_Evidence p)) \<le> 0"
      using le evidence_score_Compare [OF pl(2)] Compare_evidence [OF refl, of "?e pl" "evaluation_with (eval_Evidence (?e pl))"]
      by simp
    then have "\<not> Compare (evaluation_with (prop_Evidence p)) (evaluation_with (or_BestEvidence r)) < 0"
      using Compare_sym [of "evaluation_with (prop_Evidence p)" "evaluation_with (or_BestEvidence r)"] by linarith
    then show ?thesis using checks r f Cons by (simp add: CompareBatch_def plan(2) Let_def)
  qed
  moreover have "\<exists>c. CompareBatch snapshot batch = Inr c" using checks r by (simp add: CompareBatch_def plan(2) Let_def)
  ultimately show ?thesis by auto
qed

lemma CompareBatch_plan_witness:
  "\<exists>comparison. CompareBatch ex_duel_snapshot ex_plan = Inr comparison \<and> oc_PlannerFound comparison \<and>
     oc_Relation comparison \<noteq> QualityPlannerPreferred"
proof -
  have "OracleEligible ex_duel_snapshot" "capacity_in_range (snap_Policy ex_duel_snapshot)" by code_simp+
  then have "OracleEligible ex_duel_snapshot" "plan_ready ex_hash ex_duel_snapshot"
    by (simp_all add: plan_ready_def ex_hash_def)
  from CompareBatch_plan [OF ex_plan this] obtain c where "CompareBatch ex_duel_snapshot ex_plan = Inr c"
    "oc_Relation c \<noteq> QualityPlannerPreferred" by blast
  moreover have "oc_PlannerFound (projr (CompareBatch ex_duel_snapshot ex_plan))" by code_simp
  ultimately show ?thesis by auto
qed

end
