(* ===== verification/Frontier.thy ===== *)
theory Frontier
  imports Oracle
begin

text \<open>
  The exhaustive batch frontier, \<open>src/internal/evaluation/frontier.go\<close>: every admissible proposal of a
  small snapshot is enumerated, every batch of disjoint proposals is visited, and the qualities that
  no other one dominates are kept. A planned batch is then located relative to them.

  Tickets are numbered by their canonical order, a set of tickets is a \<open>uint16\<close> mask and a set of
  backfills a \<open>uint8\<close> mask. The closure \<open>enumerate\<close> of \<open>enumerateExactPlacements\<close> is
  \<open>enumerate_exact\<close>; the closure \<open>search\<close> of \<open>enumerateBatchFrontier\<close> is \<open>frontier_search\<close>, which
  carries fuel: \<open>None\<close> stands for a recursion deeper than the fuel allows.
\<close>

unbundle bit_operations_syntax

section \<open>Data\<close>

definition MaxBatchFrontierTickets :: nat where "MaxBatchFrontierTickets = 12"
definition MaxBatchFrontierBackfills :: nat where "MaxBatchFrontierBackfills = 2"
definition MaxBatchFrontierTeams :: int where "MaxBatchFrontierTeams = 2"
definition qualityScale :: int where "qualityScale = 1000"

record BatchQuality =
  bq_SelectedBackfills :: int
  bq_ProposalCount :: int
  bq_MatchedTickets :: int
  bq_MatchedPlayers :: int
  bq_MaxRolePenalty :: int
  bq_MeanRolePenaltyMilli :: int
  bq_TotalRolePenalty :: int
  bq_MaxTeamSkillGap :: int
  bq_MeanTeamSkillGapMilli :: int
  bq_TotalTeamSkillGap :: int
  bq_MaxLatencyMillis :: int
  bq_OldestWaitMillis :: int
  bq_MeanWaitMillis :: int
  bq_TotalWaitMillis :: int

definition BatchQuality_zero :: BatchQuality where
  "BatchQuality_zero = \<lparr>bq_SelectedBackfills = 0, bq_ProposalCount = 0, bq_MatchedTickets = 0,
     bq_MatchedPlayers = 0, bq_MaxRolePenalty = 0, bq_MeanRolePenaltyMilli = 0, bq_TotalRolePenalty = 0,
     bq_MaxTeamSkillGap = 0, bq_MeanTeamSkillGapMilli = 0, bq_TotalTeamSkillGap = 0,
     bq_MaxLatencyMillis = 0, bq_OldestWaitMillis = 0, bq_MeanWaitMillis = 0, bq_TotalWaitMillis = 0\<rparr>"

datatype BatchFrontierRelation = BatchFrontierEquivalent | BatchFrontierDominated | BatchFrontierIncomparable

record BatchFrontierResult =
  bf_PlacementsEvaluated :: nat
  bf_AdmissibleCandidates :: nat
  bf_BatchesEvaluated :: nat
  bf_Points :: "BatchQuality list"

record BatchFrontierComparison =
  bfc_Relation :: BatchFrontierRelation
  bfc_Planner :: BatchQuality
  bfc_Dominating :: "BatchQuality option"
  bfc_Frontier :: BatchFrontierResult

text \<open>The index of the backfill is \<open>-1\<close> for a new match.\<close>

record frontierCandidate =
  fc_ticketMask :: "16 word"
  fc_backfillIndex :: int
  fc_matchedPlayers :: int
  fc_evidence :: ScoreEvidence
  fc_key :: string

record frontierCandidateIdentity =
  fci_ticketMask :: "16 word"
  fci_backfillIndex :: int
  fci_rolePenalty :: int
  fci_teamSkillGap :: int
  fci_maxLatency :: int
  fci_oldestWait :: int
  fci_totalWait :: int

definition BatchFrontierEligible :: "MatchmakingSnapshot \<Rightarrow> bool" where
  "BatchFrontierEligible snapshot \<longleftrightarrow>
     length (snap_MatchTickets snapshot) \<le> MaxBatchFrontierTickets \<and>
     length (snap_BackfillTickets snapshot) \<le> MaxBatchFrontierBackfills \<and>
     pol_TeamCount (snap_Policy snapshot) \<le> MaxBatchFrontierTeams"

section \<open>Canonical order\<close>

definition compare_ticket_ids :: "MatchTicket \<Rightarrow> MatchTicket \<Rightarrow> int" where
  "compare_ticket_ids left right =
     cmp_then (go_cmp (mt_ID left) (mt_ID right)) (go_cmp (mt_Revision left) (mt_Revision right))"

definition canonicalMatchTickets :: "MatchTicket list \<Rightarrow> MatchTicket list" where
  "canonicalMatchTickets input = sort_cmp compare_ticket_ids (map CloneMatchTicket input)"

definition compare_backfill_ids :: "BackfillTicket \<Rightarrow> BackfillTicket \<Rightarrow> int" where
  "compare_backfill_ids left right =
     cmp_then (go_cmp (bt_ID left) (bt_ID right)) (go_cmp (bt_Revision left) (bt_Revision right))"

definition canonicalBackfillTickets :: "BackfillTicket list \<Rightarrow> BackfillTicket list" where
  "canonicalBackfillTickets input = sort_cmp compare_backfill_ids (map CloneBackfillTicket input)"

section \<open>Candidates\<close>

text \<open>The verbs \<open>%d\<close>, \<open>%03d\<close> and \<open>%04x\<close> of the key.\<close>

definition verb_d :: "int \<Rightarrow> string" where
  "verb_d i = (if i < 0 then CHR ''-'' # decimal (nat (- i)) else decimal (nat i))"

definition verb_03d :: "int \<Rightarrow> string" where
  "verb_03d i = replicate (3 - length (verb_d i)) (CHR ''0'') @ verb_d i"

definition verb_04x :: "16 word \<Rightarrow> string" where
  "verb_04x ticketMask = hex_byte (ucast (drop_bit 8 ticketMask)) @ hex_byte (ucast ticketMask)"

definition frontierCandidateKey :: "frontierCandidateIdentity \<Rightarrow> string" where
  "frontierCandidateKey identity = strings_Join
     [verb_04x (fci_ticketMask identity), verb_03d (fci_backfillIndex identity + 1),
      verb_d (fci_rolePenalty identity), verb_d (fci_teamSkillGap identity), verb_d (fci_maxLatency identity),
      verb_d (fci_oldestWait identity), verb_d (fci_totalWait identity)] ''/''"

text \<open>The variables the closure \<open>record\<close> updates.\<close>

record candidate_state =
  cs_candidates :: "frontierCandidate list"
  cs_seen :: "frontierCandidateIdentity list"
  cs_placementsEvaluated :: nat
  cs_admissibleCandidates :: nat

definition identity_of :: "16 word \<Rightarrow> int \<Rightarrow> ScoreEvidence \<Rightarrow> frontierCandidateIdentity" where
  "identity_of ticketMask backfillIndex evidence =
     \<lparr>fci_ticketMask = ticketMask, fci_backfillIndex = backfillIndex, fci_rolePenalty = ev_RolePenalty evidence,
      fci_teamSkillGap = ev_TeamSkillGap evidence, fci_maxLatency = ev_MaxLatencyMillis evidence,
      fci_oldestWait = ev_OldestWaitMillis evidence, fci_totalWait = ev_TotalWaitMillis evidence\<rparr>"

definition frontier_record ::
  "MatchmakingSnapshot \<Rightarrow> BackfillTicket list \<Rightarrow> ProposalKind \<Rightarrow> int \<Rightarrow> placement \<Rightarrow> 16 word \<Rightarrow> int
     \<Rightarrow> candidate_state \<Rightarrow> candidate_state" where
  "frontier_record snapshot backfills kind backfillIndex placement ticketMask players st =
     (let st = st\<lparr>cs_placementsEvaluated := Suc (cs_placementsEvaluated st)\<rparr>;
          evaluation =
            (if backfillIndex \<ge> 0
             then let backfill = backfills ! nat backfillIndex
                  in EvaluateBackfill (snap_Now snapshot) placement (snap_Policy snapshot)
                       (bt_ExistingTeams backfill) (bt_EnqueuedAt backfill)
             else Evaluate (snap_Now snapshot) placement (snap_Policy snapshot) kind)
      in if \<not> eval_Admissible evaluation then st
         else let identity = identity_of ticketMask backfillIndex (eval_Evidence evaluation)
              in if identity \<in> set (cs_seen st) then st
                 else st\<lparr>cs_seen := identity # cs_seen st,
                         cs_admissibleCandidates := Suc (cs_admissibleCandidates st),
                         cs_candidates := cs_candidates st @
                           [\<lparr>fc_ticketMask = ticketMask, fc_backfillIndex = backfillIndex, fc_matchedPlayers = players,
                             fc_evidence = eval_Evidence evaluation, fc_key = frontierCandidateKey identity\<rparr>]\<rparr>)"

fun enumerate_exact ::
  "MatchTicket list \<Rightarrow> (placement \<Rightarrow> 16 word \<Rightarrow> int \<Rightarrow> 's \<Rightarrow> 's) \<Rightarrow> int \<Rightarrow> nat \<Rightarrow> MatchTicket list \<Rightarrow> int \<Rightarrow> 16 word
     \<Rightarrow> int list \<Rightarrow> nat list list \<Rightarrow> 's \<Rightarrow> 's" where
  "enumerate_exact window visit_placement needed index tickets playersNeeded ticketMask remaining assigned st =
     (if playersNeeded = 0 then visit_placement (materializePlacement window assigned) ticketMask needed st
      else case tickets of [] \<Rightarrow> st
      | ticket # rest \<Rightarrow>
          if players_in tickets < playersNeeded then st
          else let partySize = int (length (mt_Players ticket));
                   st = foldl (\<lambda>st team.
                     if partySize > remaining ! team then st
                     else enumerate_exact window visit_placement needed (Suc index) rest (i64 (playersNeeded - partySize))
                            (ticketMask OR push_bit index 1)
                            (remaining[team := remaining ! team - partySize])
                            (assigned[team := assigned ! team @ [index]]) st)
                     st [0..<length remaining]
               in enumerate_exact window visit_placement needed (Suc index) rest playersNeeded ticketMask remaining assigned st)"

declare enumerate_exact.simps [simp del]

definition enumerateExactPlacements ::
  "MatchTicket list \<Rightarrow> int list \<Rightarrow> (placement \<Rightarrow> 16 word \<Rightarrow> int \<Rightarrow> 's \<Rightarrow> 's) \<Rightarrow> 's \<Rightarrow> 's" where
  "enumerateExactPlacements tickets slots visit_placement st =
     (let needed = foldl (\<lambda>needed capacity. i64 (needed + capacity)) 0 slots
      in enumerate_exact tickets visit_placement needed 0 tickets needed 0 slots (map (\<lambda>_. []) slots) st)"

definition enumerateFrontierCandidates ::
  "MatchmakingSnapshot \<Rightarrow> MatchTicket list \<Rightarrow> BackfillTicket list \<Rightarrow> frontierCandidate list \<times> nat \<times> nat" where
  "enumerateFrontierCandidates snapshot tickets backfills =
     (let policy = snap_Policy snapshot;
          newMatchSlots = replicate (nat (pol_TeamCount policy)) (pol_TeamSize policy);
          st = enumerateExactPlacements tickets newMatchSlots (frontier_record snapshot backfills ProposalNewMatch (- 1))
                 \<lparr>cs_candidates = [], cs_seen = [], cs_placementsEvaluated = 0, cs_admissibleCandidates = 0\<rparr>;
          st = foldl (\<lambda>st (index, backfill).
                 enumerateExactPlacements tickets (bt_OpenSlotsByTeam backfill)
                   (frontier_record snapshot backfills ProposalBackfill (int index)) st)
               st (enumerate 0 backfills)
      in (sort_cmp (\<lambda>left right. go_cmp (fc_key left) (fc_key right)) (cs_candidates st),
          cs_placementsEvaluated st, cs_admissibleCandidates st))"

section \<open>Qualities\<close>

definition bits_TrailingZeros16 :: "16 word \<Rightarrow> nat" where
  "bits_TrailingZeros16 w = length (takeWhile (\<lambda>i. \<not> bit w i) [0..<16])"

definition bits_OnesCount16 :: "16 word \<Rightarrow> nat" where
  "bits_OnesCount16 w = length (filter (bit w) [0..<16])"

definition addCandidateQuality :: "BatchQuality \<Rightarrow> frontierCandidate \<Rightarrow> BatchQuality" where
  "addCandidateQuality quality candidate =
     (let evidence = fc_evidence candidate
      in quality\<lparr>
        bq_ProposalCount := bq_ProposalCount quality + 1,
        bq_MatchedTickets := bq_MatchedTickets quality + int (bits_OnesCount16 (fc_ticketMask candidate)),
        bq_MatchedPlayers := i64 (bq_MatchedPlayers quality + fc_matchedPlayers candidate),
        bq_SelectedBackfills := (if fc_backfillIndex candidate \<ge> 0
          then bq_SelectedBackfills quality + 1 else bq_SelectedBackfills quality),
        bq_MaxRolePenalty := max (bq_MaxRolePenalty quality) (ev_RolePenalty evidence),
        bq_TotalRolePenalty := i64 (bq_TotalRolePenalty quality + ev_RolePenalty evidence),
        bq_MaxTeamSkillGap := max (bq_MaxTeamSkillGap quality) (ev_TeamSkillGap evidence),
        bq_TotalTeamSkillGap := i64 (bq_TotalTeamSkillGap quality + ev_TeamSkillGap evidence),
        bq_MaxLatencyMillis := max (bq_MaxLatencyMillis quality) (ev_MaxLatencyMillis evidence),
        bq_OldestWaitMillis := max (bq_OldestWaitMillis quality) (ev_OldestWaitMillis evidence),
        bq_TotalWaitMillis := i64 (bq_TotalWaitMillis quality + ev_TotalWaitMillis evidence)\<rparr>)"

definition finalizeBatchQuality :: "BatchQuality \<Rightarrow> BatchQuality" where
  "finalizeBatchQuality quality =
     (if bq_ProposalCount quality = 0 then quality
      else let quality = quality\<lparr>
             bq_MeanRolePenaltyMilli := go_div (i64 (bq_TotalRolePenalty quality * qualityScale)) (bq_ProposalCount quality),
             bq_MeanTeamSkillGapMilli := go_div (i64 (bq_TotalTeamSkillGap quality * qualityScale)) (bq_ProposalCount quality)\<rparr>
           in if bq_MatchedTickets quality > 0
              then quality\<lparr>bq_MeanWaitMillis := go_div (bq_TotalWaitMillis quality) (bq_MatchedTickets quality)\<rparr>
              else quality)"

definition batchQualityEquivalent :: "BatchQuality \<Rightarrow> BatchQuality \<Rightarrow> bool" where
  "batchQualityEquivalent left right \<longleftrightarrow>
     bq_SelectedBackfills left = bq_SelectedBackfills right \<and>
     bq_ProposalCount left = bq_ProposalCount right \<and>
     bq_MatchedPlayers left = bq_MatchedPlayers right \<and>
     bq_OldestWaitMillis left = bq_OldestWaitMillis right \<and>
     bq_MeanWaitMillis left = bq_MeanWaitMillis right \<and>
     bq_MaxRolePenalty left = bq_MaxRolePenalty right \<and>
     bq_MeanRolePenaltyMilli left = bq_MeanRolePenaltyMilli right \<and>
     bq_MaxTeamSkillGap left = bq_MaxTeamSkillGap right \<and>
     bq_MeanTeamSkillGapMilli left = bq_MeanTeamSkillGapMilli right \<and>
     bq_MaxLatencyMillis left = bq_MaxLatencyMillis right"

definition frontier_noWorse :: "BatchQuality \<Rightarrow> BatchQuality \<Rightarrow> bool" where
  "frontier_noWorse left right \<longleftrightarrow>
     bq_SelectedBackfills left \<ge> bq_SelectedBackfills right \<and>
     bq_ProposalCount left \<ge> bq_ProposalCount right \<and>
     bq_MatchedPlayers left \<ge> bq_MatchedPlayers right \<and>
     bq_OldestWaitMillis left \<ge> bq_OldestWaitMillis right \<and>
     bq_MeanWaitMillis left \<ge> bq_MeanWaitMillis right \<and>
     bq_MaxRolePenalty left \<le> bq_MaxRolePenalty right \<and>
     bq_MeanRolePenaltyMilli left \<le> bq_MeanRolePenaltyMilli right \<and>
     bq_MaxTeamSkillGap left \<le> bq_MaxTeamSkillGap right \<and>
     bq_MeanTeamSkillGapMilli left \<le> bq_MeanTeamSkillGapMilli right \<and>
     bq_MaxLatencyMillis left \<le> bq_MaxLatencyMillis right"

definition frontierQualityDominates :: "BatchQuality \<Rightarrow> BatchQuality \<Rightarrow> bool" where
  "frontierQualityDominates left right =
     (if bq_ProposalCount left = 0 then False
      else if bq_ProposalCount right = 0 then True
      else if \<not> frontier_noWorse left right then False
      else bq_SelectedBackfills left > bq_SelectedBackfills right \<or>
           bq_ProposalCount left > bq_ProposalCount right \<or>
           bq_MatchedPlayers left > bq_MatchedPlayers right \<or>
           bq_OldestWaitMillis left > bq_OldestWaitMillis right \<or>
           bq_MeanWaitMillis left > bq_MeanWaitMillis right \<or>
           bq_MaxRolePenalty left < bq_MaxRolePenalty right \<or>
           bq_MeanRolePenaltyMilli left < bq_MeanRolePenaltyMilli right \<or>
           bq_MaxTeamSkillGap left < bq_MaxTeamSkillGap right \<or>
           bq_MeanTeamSkillGapMilli left < bq_MeanTeamSkillGapMilli right \<or>
           bq_MaxLatencyMillis left < bq_MaxLatencyMillis right)"

definition addFrontierPoint :: "BatchQuality list \<Rightarrow> BatchQuality \<Rightarrow> BatchQuality list" where
  "addFrontierPoint frontier candidate =
     (if list_ex (\<lambda>point. batchQualityEquivalent point candidate \<or> frontierQualityDominates point candidate) frontier
      then frontier
      else filter (\<lambda>point. \<not> frontierQualityDominates candidate point) frontier @ [candidate])"

definition compare_qualities :: "BatchQuality \<Rightarrow> BatchQuality \<Rightarrow> int" where
  "compare_qualities left right =
     cmp_then (go_cmp (bq_SelectedBackfills right) (bq_SelectedBackfills left))
    (cmp_then (go_cmp (bq_ProposalCount right) (bq_ProposalCount left))
    (cmp_then (go_cmp (bq_MatchedPlayers right) (bq_MatchedPlayers left))
    (cmp_then (go_cmp (bq_MaxRolePenalty left) (bq_MaxRolePenalty right))
    (cmp_then (go_cmp (bq_MeanRolePenaltyMilli left) (bq_MeanRolePenaltyMilli right))
    (cmp_then (go_cmp (bq_MaxTeamSkillGap left) (bq_MaxTeamSkillGap right))
    (cmp_then (go_cmp (bq_MeanTeamSkillGapMilli left) (bq_MeanTeamSkillGapMilli right))
    (cmp_then (go_cmp (bq_MaxLatencyMillis left) (bq_MaxLatencyMillis right))
    (cmp_then (go_cmp (bq_OldestWaitMillis right) (bq_OldestWaitMillis left))
    (cmp_then (go_cmp (bq_MeanWaitMillis right) (bq_MeanWaitMillis left))
       (go_cmp (bq_MatchedTickets right) (bq_MatchedTickets left)))))))))))"

definition sortBatchQuality :: "BatchQuality list \<Rightarrow> BatchQuality list" where
  "sortBatchQuality points = sort_cmp compare_qualities points"

section \<open>Batches\<close>

definition frontierProposalLimit :: "MatchmakingPolicy \<Rightarrow> int" where
  "frontierProposalLimit policy =
     (if pol_MaxProposals policy > 0 then pol_MaxProposals policy
      else int MaxBatchFrontierTickets + int MaxBatchFrontierBackfills)"

definition frontierBatchKey :: "nat list \<Rightarrow> string" where
  "frontierBatchKey selected =
     (if selected = [] then []
      else strings_Join (map decimal (sort_cmp go_cmp selected)) '','')"

text \<open>The candidates that hold a ticket, ascending.\<close>

definition byTicket :: "frontierCandidate list \<Rightarrow> nat \<Rightarrow> nat list list" where
  "byTicket candidates ticketCount =
     map (\<lambda>ticket. filter (\<lambda>candidateIndex. fc_ticketMask (candidates ! candidateIndex) AND push_bit ticket 1 \<noteq> 0)
            [0..<length candidates]) [0..<ticketCount]"

text \<open>The variables the closure \<open>search\<close> keeps.\<close>

record frontier_state =
  fs_seenBatches :: "string list"
  fs_batchesEvaluated :: nat
  fs_frontier :: "BatchQuality list"

definition visit_batch :: "nat list \<Rightarrow> BatchQuality \<Rightarrow> frontier_state \<Rightarrow> frontier_state" where
  "visit_batch selected quality st =
     (let key = frontierBatchKey selected
      in if key \<in> set (fs_seenBatches st) then st
         else st\<lparr>fs_seenBatches := key # fs_seenBatches st,
                 fs_batchesEvaluated := Suc (fs_batchesEvaluated st),
                 fs_frontier := addFrontierPoint (fs_frontier st) (finalizeBatchQuality quality)\<rparr>)"

text \<open>The two \<open>continue\<close> conditions of the loop over the candidates, and the mask of the backfills afterwards.\<close>

definition backfill_mask :: "frontierCandidate \<Rightarrow> 8 word" where
  "backfill_mask candidate =
     (if fc_backfillIndex candidate \<ge> 0 then push_bit (nat (fc_backfillIndex candidate)) 1 else 0)"

definition candidate_skipped :: "frontierCandidate \<Rightarrow> 16 word \<Rightarrow> 8 word \<Rightarrow> bool" where
  "candidate_skipped candidate remaining usedBackfills \<longleftrightarrow>
     fc_ticketMask candidate AND remaining \<noteq> fc_ticketMask candidate \<or>
     fc_backfillIndex candidate \<ge> 0 \<and> usedBackfills AND backfill_mask candidate \<noteq> 0"

fun candidate_loop :: "('a \<Rightarrow> 's \<Rightarrow> 's option) \<Rightarrow> 'a list \<Rightarrow> 's \<Rightarrow> 's option" where
  "candidate_loop f [] st = Some st"
| "candidate_loop f (x # xs) st = (case f x st of None \<Rightarrow> None | Some st' \<Rightarrow> candidate_loop f xs st')"

fun frontier_search ::
  "nat \<Rightarrow> frontierCandidate list \<Rightarrow> nat list list \<Rightarrow> int \<Rightarrow> 16 word \<Rightarrow> 8 word \<Rightarrow> BatchQuality \<Rightarrow> nat list
     \<Rightarrow> frontier_state \<Rightarrow> frontier_state option" where
  "frontier_search 0 candidates ticketCandidates maxProposals remaining usedBackfills quality selected st = None"
| "frontier_search (Suc fuel) candidates ticketCandidates maxProposals remaining usedBackfills quality selected st =
     (let st = visit_batch selected quality st
      in if int (length selected) \<ge> maxProposals \<or> remaining = 0 then Some st
         else let anchor = bits_TrailingZeros16 remaining; anchorMask = push_bit anchor 1
              in case frontier_search fuel candidates ticketCandidates maxProposals (remaining AND NOT anchorMask)
                        usedBackfills quality selected st of
                   None \<Rightarrow> None
                 | Some st \<Rightarrow>
                     candidate_loop (\<lambda>candidateIndex st.
                       let candidate = candidates ! candidateIndex
                       in if candidate_skipped candidate remaining usedBackfills then Some st
                          else frontier_search fuel candidates ticketCandidates maxProposals
                                 (remaining AND NOT (fc_ticketMask candidate)) (usedBackfills OR backfill_mask candidate)
                                 (addCandidateQuality quality candidate) (selected @ [candidateIndex]) st)
                       (ticketCandidates ! anchor) st)"

text \<open>
  The mask of all tickets has \<open>ticketCount\<close> bits and every nested call clears one of them, so fuel
  for one more call is enough (\<open>frontier_search_visits\<close>).

  \<open>make([]int, 0, maxProposals)\<close> panics when the capacity is beyond what the runtime can address. Where
  that is depends on the platform, so the largest capacity it grants is the parameter \<open>maxCap\<close>; on 64 bit
  Linux it is \<open>2 ^ 45\<close>.
\<close>

datatype 'a go_call = Returned 'a | Panicked

definition enumerateBatchFrontier :: "int \<Rightarrow> frontierCandidate list \<Rightarrow> nat \<Rightarrow> int \<Rightarrow> BatchFrontierResult go_call option" where
  "enumerateBatchFrontier maxCap candidates ticketCount maxProposals =
     (let result = \<lparr>bf_PlacementsEvaluated = 0, bf_AdmissibleCandidates = 0, bf_BatchesEvaluated = 0, bf_Points = []\<rparr>
      in if ticketCount = 0
         then Some (Returned (result\<lparr>bf_BatchesEvaluated := 1, bf_Points := [finalizeBatchQuality BatchQuality_zero]\<rparr>))
         else if maxProposals > maxCap then Some Panicked
         else case frontier_search (Suc ticketCount) candidates (byTicket candidates ticketCount) maxProposals
                     (push_bit ticketCount 1 - 1) 0 BatchQuality_zero []
                     \<lparr>fs_seenBatches = [], fs_batchesEvaluated = 0, fs_frontier = []\<rparr> of
                None \<Rightarrow> None
              | Some st \<Rightarrow> Some (Returned (result\<lparr>bf_BatchesEvaluated := fs_batchesEvaluated st,
                                                  bf_Points := sortBatchQuality (fs_frontier st)\<rparr>)))"

definition ExhaustiveBatchFrontier :: "int \<Rightarrow> MatchmakingSnapshot \<Rightarrow> BatchFrontierResult result go_call option" where
  "ExhaustiveBatchFrontier maxCap snapshot =
     (case ValidateSnapshot snapshot of Some e \<Rightarrow> Some (Returned (Inl e)) | None \<Rightarrow>
      if length (snap_MatchTickets snapshot) > MaxBatchFrontierTickets then Some (Returned (Inl FailureInvalidInput))
      else if length (snap_BackfillTickets snapshot) > MaxBatchFrontierBackfills then Some (Returned (Inl FailureInvalidInput))
      else if pol_TeamCount (snap_Policy snapshot) > MaxBatchFrontierTeams then Some (Returned (Inl FailureInvalidInput))
      else let tickets = canonicalMatchTickets (snap_MatchTickets snapshot);
               backfills = canonicalBackfillTickets (snap_BackfillTickets snapshot);
               (candidates, placements, admissible) = enumerateFrontierCandidates snapshot tickets backfills
           in case enumerateBatchFrontier maxCap candidates (length tickets) (frontierProposalLimit (snap_Policy snapshot)) of
                None \<Rightarrow> None
              | Some Panicked \<Rightarrow> Some Panicked
              | Some (Returned result) \<Rightarrow>
                  Some (Returned (Inr (result\<lparr>bf_PlacementsEvaluated := placements, bf_AdmissibleCandidates := admissible\<rparr>))))"

section \<open>The quality of a planned batch\<close>

text \<open>The loop over the references of one team: the tickets used so far in the batch, the team placed so
  far, its players and the players of the proposal.\<close>

fun quality_refs ::
  "(TicketID, MatchTicket) go_map \<Rightarrow> TicketRef list \<Rightarrow> TicketID list \<times> MatchTicket list \<times> int \<times> int
     \<Rightarrow> (TicketID list \<times> MatchTicket list \<times> int \<times> int) result" where
  "quality_refs tickets [] acc = Inr acc"
| "quality_refs tickets (reference # rest) (usedTickets, placedTeam, teamPlayers, matchedPlayers) =
     (case map_of tickets (ref_ID reference) of
        None \<Rightarrow> Inl FailureInvalidInput
      | Some ticket \<Rightarrow>
          if mt_Revision ticket \<noteq> ref_Revision reference then Inl FailureInvalidInput
          else if ref_ID reference \<in> set usedTickets then Inl FailureInvalidInput
          else quality_refs tickets rest
                 (ref_ID reference # usedTickets, placedTeam @ [ticket],
                  teamPlayers + int (length (mt_Players ticket)), matchedPlayers + int (length (mt_Players ticket))))"

fun quality_teams ::
  "(TicketID, MatchTicket) go_map \<Rightarrow> MatchmakingPolicy \<Rightarrow> BackfillTicket option \<Rightarrow> nat \<Rightarrow> TeamAssignment list
     \<Rightarrow> TicketID list \<times> placement \<times> int \<Rightarrow> (TicketID list \<times> placement \<times> int) result" where
  "quality_teams tickets policy targetBackfill teamIndex [] acc = Inr acc"
| "quality_teams tickets policy targetBackfill teamIndex (team # rest) (usedTickets, placement, matchedPlayers) =
     (case quality_refs tickets (ta_Tickets team) (usedTickets, [], 0, matchedPlayers) of
        Inl e \<Rightarrow> Inl e
      | Inr (usedTickets, placedTeam, teamPlayers, matchedPlayers) \<Rightarrow>
          if teamPlayers \<noteq> (case targetBackfill of None \<Rightarrow> pol_TeamSize policy
                              | Some backfill \<Rightarrow> bt_OpenSlotsByTeam backfill ! teamIndex)
          then Inl FailureInvalidInput
          else quality_teams tickets policy targetBackfill (Suc teamIndex) rest
                 (usedTickets, placement @ [placedTeam], matchedPlayers))"

text \<open>The target of a backfill proposal and the backfills used afterwards. Validation has excluded a
  backfill proposal without a target.\<close>

definition quality_target ::
  "(TicketID, BackfillTicket) go_map \<Rightarrow> MatchProposal \<Rightarrow> TicketID list \<Rightarrow> (BackfillTicket option \<times> TicketID list) result" where
  "quality_target backfills proposal usedBackfills =
     (if prop_Kind proposal \<noteq> ProposalBackfill then Inr (None, usedBackfills)
      else case prop_Backfill proposal of
        None \<Rightarrow> Inl FailureInvalidInput
      | Some target \<Rightarrow>
          (case map_of backfills (ref_ID (tgt_Ticket target)) of
             None \<Rightarrow> Inl FailureInvalidInput
           | Some backfill \<Rightarrow>
               if bt_Revision backfill \<noteq> ref_Revision (tgt_Ticket target) \<or> bt_SessionID backfill \<noteq> tgt_SessionID target \<or>
                  bt_RosterVersion backfill \<noteq> tgt_RosterVersion target
               then Inl FailureInvalidInput
               else if ref_ID (tgt_Ticket target) \<in> set usedBackfills then Inl FailureInvalidInput
               else Inr (Some backfill, ref_ID (tgt_Ticket target) # usedBackfills)))"

record quality_env =
  qe_snapshot :: MatchmakingSnapshot
  qe_tickets :: "(TicketID, MatchTicket) go_map"
  qe_ticketIndexes :: "(TicketID, nat) go_map"
  qe_backfills :: "(TicketID, BackfillTicket) go_map"
  qe_policyFingerprint :: PolicyFingerprint

definition quality_proposal ::
  "quality_env \<Rightarrow> MatchProposal \<Rightarrow> TicketID list \<times> TicketID list \<times> BatchQuality
     \<Rightarrow> (TicketID list \<times> TicketID list \<times> BatchQuality) result" where
  "quality_proposal env proposal = (\<lambda>(usedTickets, usedBackfills, quality).
     let snapshot = qe_snapshot env; policy = snap_Policy snapshot
     in case ValidateProposal proposal of Some e \<Rightarrow> Inl e | None \<Rightarrow>
        if prop_PolicyVersion proposal \<noteq> pol_Version policy \<or> prop_PolicyFingerprint proposal \<noteq> qe_policyFingerprint env \<or>
           int (length (prop_Teams proposal)) \<noteq> pol_TeamCount policy
        then Inl FailureInvalidInput
        else case quality_target (qe_backfills env) proposal usedBackfills of Inl e \<Rightarrow> Inl e
        | Inr (targetBackfill, usedBackfills) \<Rightarrow>
        case quality_teams (qe_tickets env) policy targetBackfill 0 (prop_Teams proposal) (usedTickets, [], 0) of Inl e \<Rightarrow> Inl e
        | Inr (usedTickets, placement, matchedPlayers) \<Rightarrow>
        let evaluation =
              (case targetBackfill of
                 None \<Rightarrow> Evaluate (snap_Now snapshot) placement policy (prop_Kind proposal)
               | Some backfill \<Rightarrow> EvaluateBackfill (snap_Now snapshot) placement policy
                                   (bt_ExistingTeams backfill) (bt_EnqueuedAt backfill))
        in if \<not> eval_Admissible evaluation then Inl FailureInvalidInput
           else let ticketMask = foldl (\<lambda>ticketMask reference.
                      ticketMask OR push_bit (map_get 0 (qe_ticketIndexes env) (ref_ID reference)) 1) 0 (prop_Tickets proposal)
                in Inr (usedTickets, usedBackfills, addCandidateQuality quality
                     \<lparr>fc_ticketMask = ticketMask, fc_backfillIndex = (if targetBackfill = None then - 1 else 0),
                      fc_matchedPlayers = matchedPlayers, fc_evidence = eval_Evidence evaluation, fc_key = ''''\<rparr>))"

fun quality_proposals ::
  "quality_env \<Rightarrow> MatchProposal list \<Rightarrow> TicketID list \<times> TicketID list \<times> BatchQuality
     \<Rightarrow> (TicketID list \<times> TicketID list \<times> BatchQuality) result" where
  "quality_proposals env [] acc = Inr acc"
| "quality_proposals env (proposal # rest) acc =
     (case quality_proposal env proposal acc of Inl e \<Rightarrow> Inl e | Inr acc \<Rightarrow> quality_proposals env rest acc)"

definition quality_maps :: "MatchmakingSnapshot \<Rightarrow> PolicyFingerprint \<Rightarrow> quality_env" where
  "quality_maps snapshot policyFingerprint =
     (let canonicalTickets = canonicalMatchTickets (snap_MatchTickets snapshot)
      in \<lparr>qe_snapshot = snapshot,
          qe_tickets = foldl (\<lambda>m ticket. AList.update (mt_ID ticket) ticket m) [] canonicalTickets,
          qe_ticketIndexes = foldl (\<lambda>m (index, ticket). AList.update (mt_ID ticket) index m) [] (enumerate 0 canonicalTickets),
          qe_backfills = foldl (\<lambda>m ticket. AList.update (bt_ID ticket) ticket m) [] (snap_BackfillTickets snapshot),
          qe_policyFingerprint = policyFingerprint\<rparr>)"

definition plannerBatchQuality :: "hash \<Rightarrow> MatchmakingSnapshot \<Rightarrow> ProposalBatch \<Rightarrow> BatchQuality result" where
  "plannerBatchQuality sha256 snapshot batch =
     (case ValidateSnapshot snapshot of Some e \<Rightarrow> Inl e | None \<Rightarrow>
      if batch_SnapshotID batch \<noteq> snap_ID snapshot then Inl FailureInvalidInput
      else if int (length (batch_Proposals batch)) > frontierProposalLimit (snap_Policy snapshot) then Inl FailureInvalidInput
      else case FingerprintPolicy sha256 (snap_Policy snapshot) of Inl e \<Rightarrow> Inl e | Inr policyFingerprint \<Rightarrow>
      case quality_proposals (quality_maps snapshot policyFingerprint) (batch_Proposals batch) ([], [], BatchQuality_zero) of
        Inl e \<Rightarrow> Inl e
      | Inr (usedTickets, usedBackfills, quality) \<Rightarrow> Inr (finalizeBatchQuality quality))"

definition CompareBatchFrontier ::
  "int \<Rightarrow> hash \<Rightarrow> MatchmakingSnapshot \<Rightarrow> ProposalBatch \<Rightarrow> BatchFrontierComparison result go_call option" where
  "CompareBatchFrontier maxCap sha256 snapshot batch =
     (case plannerBatchQuality sha256 snapshot batch of Inl e \<Rightarrow> Some (Returned (Inl e)) | Inr plannerQuality \<Rightarrow>
      case ExhaustiveBatchFrontier maxCap snapshot of None \<Rightarrow> None
      | Some Panicked \<Rightarrow> Some Panicked
      | Some (Returned (Inl e)) \<Rightarrow> Some (Returned (Inl e))
      | Some (Returned (Inr frontier)) \<Rightarrow>
          let comparison = \<lparr>bfc_Relation = BatchFrontierIncomparable, bfc_Planner = plannerQuality,
                            bfc_Dominating = None, bfc_Frontier = frontier\<rparr>
          in if list_ex (\<lambda>point. batchQualityEquivalent point plannerQuality) (bf_Points frontier)
             then Some (Returned (Inr (comparison\<lparr>bfc_Relation := BatchFrontierEquivalent\<rparr>)))
             else case find (\<lambda>point. frontierQualityDominates point plannerQuality) (bf_Points frontier) of
                    Some point \<Rightarrow> Some (Returned (Inr (comparison\<lparr>bfc_Relation := BatchFrontierDominated, bfc_Dominating := Some point\<rparr>)))
                  | None \<Rightarrow> Some (Returned (Inr comparison)))"

end
