(* ===== verification/Frontier_Search.thy ===== *)
theory Frontier_Search
  imports Frontier
begin

text \<open>
  The search over the batches of the frontier. The locale \<open>pareto\<close> is what a list of non-dominated
  points promises: it stays an antichain and never loses the cover of a point. The search ends within
  its fuel and visits the batches \<open>visits\<close> (\<open>frontier_search_visits\<close>), among which is, up to order,
  every batch of candidates that share no ticket and no backfill (\<open>visits_complete\<close>).
\<close>

section \<open>Sets of non-dominated points\<close>

locale pareto =
  fixes equiv :: "'a \<Rightarrow> 'a \<Rightarrow> bool" and dominates :: "'a \<Rightarrow> 'a \<Rightarrow> bool"
  assumes equiv_refl: "equiv x x"
    and equiv_sym: "equiv x y \<Longrightarrow> equiv y x"
    and dominates_trans: "dominates x y \<Longrightarrow> dominates y z \<Longrightarrow> dominates x z"
    and dominates_equiv: "dominates x y \<Longrightarrow> equiv y z \<Longrightarrow> dominates x z"
begin

definition covers :: "'a list \<Rightarrow> 'a \<Rightarrow> bool" where
  "covers points x \<longleftrightarrow> (\<exists>p\<in>set points. equiv p x \<or> dominates p x)"

definition antichain :: "'a list \<Rightarrow> bool" where
  "antichain points \<longleftrightarrow> sorted_wrt (\<lambda>p q. \<not> equiv p q \<and> \<not> dominates p q \<and> \<not> dominates q p) points"

definition add_point :: "'a list \<Rightarrow> 'a \<Rightarrow> 'a list" where
  "add_point points x =
     (if \<exists>p\<in>set points. equiv p x \<or> dominates p x then points
      else filter (\<lambda>p. \<not> dominates x p) points @ [x])"

lemma add_point_covers: "covers (add_point points x) x"
  by (auto simp: covers_def add_point_def equiv_refl)

lemma add_point_keeps:
  assumes "covers points y"
  shows "covers (add_point points x) y"
proof -
  from assms obtain p where p: "p \<in> set points" "equiv p y \<or> dominates p y" by (auto simp: covers_def)
  show ?thesis
  proof (cases "dominates x p")
    case True
    with p(2) have "dominates x y" by (blast intro: dominates_trans dominates_equiv)
    with p show ?thesis by (auto simp: covers_def add_point_def)
  qed (use p in \<open>auto simp: covers_def add_point_def\<close>)
qed

lemma add_point_antichain: "antichain points \<Longrightarrow> antichain (add_point points x)"
  by (auto simp: antichain_def add_point_def sorted_wrt_append sorted_wrt_filter)

lemma add_point_set: "set (add_point points x) \<subseteq> insert x (set points)"
  by (auto simp: add_point_def)

lemma antichain_order:
  assumes "antichain points"
  shows "antichain (sort_cmp cmp points)"
  using assms unfolding antichain_def by (intro sorted_wrt_sort_cmp) (auto dest: equiv_sym)

lemma covers_order: "covers (sort_cmp cmp points) x = covers points x"
  by (simp add: covers_def)

end

lemma frontier_noWorse_trans: "frontier_noWorse x y \<Longrightarrow> frontier_noWorse y z \<Longrightarrow> frontier_noWorse x z"
  unfolding frontier_noWorse_def by (meson order_trans)

lemma equivalent_noWorse: "batchQualityEquivalent x y \<longleftrightarrow> frontier_noWorse x y \<and> frontier_noWorse y x"
  unfolding frontier_noWorse_def batchQualityEquivalent_def by (auto intro: order_antisym)

text \<open>Strictly better in one coordinate and not worse in any: not worse, and not the other way round.\<close>

lemma frontierQualityDominates_iff:
  "frontierQualityDominates x y \<longleftrightarrow> bq_ProposalCount x \<noteq> 0 \<and>
     (bq_ProposalCount y = 0 \<or> frontier_noWorse x y \<and> \<not> frontier_noWorse y x)"
  unfolding frontierQualityDominates_def by (auto simp: frontier_noWorse_def)

interpretation quality: pareto batchQualityEquivalent frontierQualityDominates
proof unfold_locales
  fix x y z
  show "batchQualityEquivalent x x" by (simp add: batchQualityEquivalent_def)
  show "batchQualityEquivalent x y \<Longrightarrow> batchQualityEquivalent y x" by (simp add: equivalent_noWorse)
  assume xy: "frontierQualityDominates x y"
  show "frontierQualityDominates x z" if "frontierQualityDominates y z"
    using xy that unfolding frontierQualityDominates_iff by (blast intro: frontier_noWorse_trans)
  show "frontierQualityDominates x z" if "batchQualityEquivalent y z"
  proof -
    from that have "bq_ProposalCount y = bq_ProposalCount z" by (simp add: batchQualityEquivalent_def)
    with xy that show ?thesis
      unfolding frontierQualityDominates_iff equivalent_noWorse using frontier_noWorse_trans by metis
  qed
qed

lemma addFrontierPoint_conv: "addFrontierPoint = quality.add_point"
  by (intro ext) (simp add: addFrontierPoint_def quality.add_point_def list_ex_iff)

section \<open>Masks as sets\<close>

definition members :: "'a :: len word \<Rightarrow> nat set" where
  "members w = {i. bit w i}"

lemma members_simps [simp]:
  "members (v AND w) = members v \<inter> members w" "members (v OR w) = members v \<union> members w"
  "members (0 :: 'a word) = {}" "members (NOT w) = {..<LENGTH('a)} - members (w :: 'a :: len word)"
  by (auto simp: members_def bit_simps dest: bit_imp_le_length)

lemma members_bounded: "members (w :: 'a :: len word) \<subseteq> {..<LENGTH('a)}"
  by (auto simp: members_def dest: bit_imp_le_length)

lemma members_finite [simp]: "finite (members w)"
  using members_bounded finite_subset by blast

lemma members_push_bit: "members (push_bit n 1 :: 'a :: len word) = (if n < LENGTH('a) then {n} else {})"
  by (auto simp: members_def bit_simps)

lemma members_exp [simp]: "members (2 ^ n :: 'a :: len word) = (if n < LENGTH('a) then {n} else {})"
  using members_push_bit [of n] by simp

lemma members_eq_iff: "members v = members w \<longleftrightarrow> v = w"
  by (auto simp: members_def set_eq_iff intro!: bit_word_eqI)

lemma members_empty_iff [simp]: "members w = {} \<longleftrightarrow> w = 0"
  using members_eq_iff [of w 0] by simp

lemma and_eq_iff: "v AND w = v \<longleftrightarrow> members v \<subseteq> members (w :: 'a :: len word)"
  unfolding members_eq_iff [symmetric] by auto

lemma and_zero_iff: "v AND w = 0 \<longleftrightarrow> members v \<inter> members (w :: 'a :: len word) = {}"
  unfolding members_empty_iff [symmetric] by simp

lemma members_all: "n \<le> 16 \<Longrightarrow> members (push_bit n 1 - 1 :: 16 word) = {..<n}"
proof -
  assume "n \<le> 16"
  have "push_bit n 1 - 1 = (mask n :: 16 word)" by (simp add: mask_eq_exp_minus_1 push_bit_eq_mult)
  with \<open>n \<le> 16\<close> show ?thesis by (auto simp: members_def bit_simps)
qed

lemma trailing_zeros_member:
  assumes "w \<noteq> 0"
  shows "bits_TrailingZeros16 w \<in> members w"
proof -
  from assms obtain i where i: "bit w i" by (auto simp: bit_eq_iff)
  then have "i \<in> set [0..<16]" by (auto dest: bit_imp_le_length)
  with i have "takeWhile (\<lambda>i. \<not> bit w i) [0..<16] \<noteq> [0..<16]" by (auto simp: takeWhile_eq_all_conv)
  then have "length (takeWhile (\<lambda>i. \<not> bit w i) [0..<16]) < length [0..<16]"
    by (metis leI take_all takeWhile_eq_take)
  then show ?thesis
    using nth_length_takeWhile [of "\<lambda>i. \<not> bit w i" "[0..<16]"]
    by (simp add: bits_TrailingZeros16_def members_def)
qed

lemma ones_count_members: "bits_OnesCount16 w = card (members w)"
proof -
  have "members w = set (filter (bit w) [0..<16])" by (auto simp: members_def dest: bit_imp_le_length)
  then show ?thesis by (simp only: bits_OnesCount16_def distinct_card distinct_filter distinct_upt)
qed

section \<open>The batches the search visits\<close>

definition quality_of :: "frontierCandidate list \<Rightarrow> nat list \<Rightarrow> BatchQuality" where
  "quality_of cs S = foldl addCandidateQuality BatchQuality_zero (map ((!) cs) S)"

lemma quality_of_append: "quality_of cs (S @ [i]) = addCandidateQuality (quality_of cs S) (cs ! i)"
  by (simp add: quality_of_def)

lemma addCandidateQuality_commute:
  "addCandidateQuality (addCandidateQuality q c) d = addCandidateQuality (addCandidateQuality q d) c"
  by (simp add: addCandidateQuality_def Let_def i64_add_swap max.commute max.left_commute)

lemma foldl_order:
  assumes "\<And>a x y. f (f a x) y = f (f a y) x" "mset xs = mset ys"
  shows "foldl f a xs = foldl f a ys"
proof -
  have "fold (\<lambda>x a. f a x) xs = fold (\<lambda>x a. f a x) ys"
    by (rule fold_multiset_equiv [OF _ assms(2)]) (simp add: fun_eq_iff assms(1))
  then show ?thesis by (simp add: foldl_conv_fold)
qed

lemma quality_of_order: "mset S = mset T \<Longrightarrow> quality_of cs S = quality_of cs T"
  unfolding quality_of_def by (rule foldl_order) (rule addCandidateQuality_commute, simp)

fun visits ::
  "nat \<Rightarrow> frontierCandidate list \<Rightarrow> nat list list \<Rightarrow> int \<Rightarrow> 16 word \<Rightarrow> 8 word \<Rightarrow> nat list \<Rightarrow> nat list list" where
  "visits 0 cs holders m remaining used selected = []"
| "visits (Suc fuel) cs holders m remaining used selected =
     selected #
     (if int (length selected) \<ge> m \<or> remaining = 0 then []
      else visits fuel cs holders m (remaining AND NOT (push_bit (bits_TrailingZeros16 remaining) 1)) used selected @
           concat (map (\<lambda>i. visits fuel cs holders m (remaining AND NOT (fc_ticketMask (cs ! i)))
                      (used OR backfill_mask (cs ! i)) (selected @ [i]))
             (filter (\<lambda>i. \<not> candidate_skipped (cs ! i) remaining used) (holders ! bits_TrailingZeros16 remaining))))"

lemma candidate_loop_total:
  "(\<And>x st. x \<in> set xs \<Longrightarrow> f x st = Some (g st x)) \<Longrightarrow> candidate_loop f xs st = Some (foldl g st xs)"
  by (induction xs arbitrary: st) auto

lemma anchor_removed:
  assumes "remaining \<noteq> 0" "bits_TrailingZeros16 remaining \<in> members m"
  shows "card (members (remaining AND NOT m)) < card (members remaining)"
  using assms trailing_zeros_member [OF assms(1)] by (intro psubset_card_mono) auto

lemma byTicket_member:
  assumes "i \<in> set (byTicket cs n ! t)" "t < n"
  shows "i < length cs" "t \<in> members (fc_ticketMask (cs ! i))"
proof -
  from assms have *: "i < length cs" "fc_ticketMask (cs ! i) AND push_bit t 1 \<noteq> 0" by (auto simp: byTicket_def)
  then show "i < length cs" by simp
  from *(2) show "t \<in> members (fc_ticketMask (cs ! i))"
    by (auto simp: and_zero_iff split: if_splits)
qed

abbreviation visit_all :: "frontierCandidate list \<Rightarrow> frontier_state \<Rightarrow> nat list list \<Rightarrow> frontier_state" where
  "visit_all cs \<equiv> foldl (\<lambda>st S. visit_batch S (quality_of cs S) st)"

lemma foldl_concat: "foldl f a (concat xss) = foldl (foldl f) a xss"
  by (induction xss arbitrary: a) auto

text \<open>Every nested call clears the anchor, so the recursion ends within the fuel.\<close>

lemma frontier_search_visits:
  assumes "n \<le> 16"
  shows "card (members remaining) < fuel \<Longrightarrow> members remaining \<subseteq> {..<n} \<Longrightarrow>
    frontier_search fuel cs (byTicket cs n) m remaining used (quality_of cs selected) selected st =
      Some (visit_all cs st (visits fuel cs (byTicket cs n) m remaining used selected))"
proof (induction fuel arbitrary: remaining used selected st)
  case (Suc fuel)
  let ?st = "visit_batch selected (quality_of cs selected) st"
  show ?case
  proof (cases "int (length selected) \<ge> m \<or> remaining = 0")
    case False
    let ?a = "bits_TrailingZeros16 remaining"
    have a: "?a \<in> members remaining" "?a < n" using trailing_zeros_member [of remaining] False Suc.prems(2) by auto
    then have "?a < 16" using assms by simp
    have less: "card (members (remaining AND NOT w)) < fuel" if "?a \<in> members w" for w
      using anchor_removed [OF _ that] False Suc.prems(1) by simp
    have sub: "members (remaining AND NOT w) \<subseteq> {..<n}" for w using Suc.prems(2) by auto
    have skip: "frontier_search fuel cs (byTicket cs n) m (remaining AND NOT (push_bit ?a 1)) used (quality_of cs selected) selected ?st =
      Some (visit_all cs ?st (visits fuel cs (byTicket cs n) m (remaining AND NOT (push_bit ?a 1)) used selected))"
      by (rule Suc.IH [OF less sub]) (simp add: members_push_bit \<open>?a < 16\<close>)
    let ?v = "\<lambda>i. visits fuel cs (byTicket cs n) m (remaining AND NOT (fc_ticketMask (cs ! i)))
        (used OR backfill_mask (cs ! i)) (selected @ [i])"
    have loop: "candidate_loop (\<lambda>i st. let candidate = cs ! i in
          if candidate_skipped candidate remaining used then Some st
          else frontier_search fuel cs (byTicket cs n) m (remaining AND NOT (fc_ticketMask candidate))
                 (used OR backfill_mask candidate) (addCandidateQuality (quality_of cs selected) candidate) (selected @ [i]) st)
        (byTicket cs n ! ?a) st' =
      Some (foldl (\<lambda>st i. if candidate_skipped (cs ! i) remaining used then st else visit_all cs st (?v i)) st' (byTicket cs n ! ?a))" for st'
    proof (rule candidate_loop_total)
      fix i st assume "i \<in> set (byTicket cs n ! ?a)"
      from byTicket_member [OF this a(2)] have "?a \<in> members (fc_ticketMask (cs ! i))" by blast
      from Suc.IH [OF less [OF this] sub, where selected = "selected @ [i]"]
      show "(let candidate = cs ! i in
          if candidate_skipped candidate remaining used then Some st
          else frontier_search fuel cs (byTicket cs n) m (remaining AND NOT (fc_ticketMask candidate))
                 (used OR backfill_mask candidate) (addCandidateQuality (quality_of cs selected) candidate) (selected @ [i]) st) =
        Some (if candidate_skipped (cs ! i) remaining used then st else visit_all cs st (?v i))"
        by (simp add: Let_def quality_of_append)
    qed
    show ?thesis
      unfolding frontier_search.simps visits.simps Let_def [of "visit_batch selected (quality_of cs selected) st"]
      using False skip loop by (simp add: Let_def foldl_if foldl_concat foldl_map)
  qed (auto simp: Let_def)
qed simp

section \<open>Keys\<close>

lemma separator_split:
  "c \<notin> set a \<Longrightarrow> c \<notin> set b \<Longrightarrow> a @ c # r = b @ c # s \<Longrightarrow> a = b \<and> r = s"
proof (induction a arbitrary: b)
  case Nil
  then show ?case by (cases b) auto
next
  case (Cons x a)
  then show ?case by (cases b) auto
qed

lemma decimal_no_comma: "CHR '','' \<notin> set (decimal n)"
proof (induction n rule: decimal.induct)
  case (1 n)
  have digit: "digit_char d \<noteq> CHR '',''" if "d < 10" for d
    using that by (auto simp: digit_char_def numeral_eq_Suc less_Suc_eq)
  show ?case using 1 digit [of n] digit [of "n mod 10"] by (subst decimal.simps) auto
qed

lemma decimal_inj: "decimal m = decimal n \<longleftrightarrow> m = n"
  by (metis decimal_value_decimal)

lemma join_inj: "strings_Join (map decimal xs) '','' = strings_Join (map decimal ys) '','' \<Longrightarrow> xs = ys"
proof (induction xs arbitrary: ys)
  case Nil
  show ?case
  proof (cases ys)
    case (Cons y ys')
    with Nil show ?thesis using decimal_nonempty [of y] by (cases ys') (auto simp del: decimal_nonempty)
  qed simp
next
  case (Cons x xs)
  have no: "decimal a \<noteq> decimal b @ CHR '','' # r" for a b r
    using decimal_no_comma [of a] by auto
  have no': "decimal b @ CHR '','' # r \<noteq> decimal a" for a b r using no [of a b r] by simp
  obtain y ys' where ys: "ys = y # ys'"
    using Cons.prems by (cases ys; cases xs) auto
  show ?case
  proof (cases xs)
    case Nil
    with Cons.prems ys no show ?thesis by (cases ys') (auto simp: decimal_inj)
  next
    case (Cons x' xs')
    with \<open>strings_Join (map decimal (x # xs)) '','' = strings_Join (map decimal ys) '',''\<close> ys no' [of x _ y]
    obtain y' ys'' where ys': "ys' = y' # ys''" by (cases ys') auto
    have "decimal x @ CHR '','' # strings_Join (map decimal xs) '','' = decimal y @ CHR '','' # strings_Join (map decimal ys') '',''"
      using Cons.prems unfolding ys ys' \<open>xs = x' # xs'\<close> by simp
    from separator_split [OF decimal_no_comma decimal_no_comma this]
    show ?thesis using Cons.IH ys by (simp add: decimal_inj)
  qed
qed

lemma frontierBatchKey_inj:
  assumes "frontierBatchKey S = frontierBatchKey T"
  shows "mset S = mset T"
proof -
  have key: "frontierBatchKey S = strings_Join (map decimal (sort_cmp go_cmp S)) '',''" for S
    by (simp add: frontierBatchKey_def)
  from assms have "sort_cmp go_cmp S = sort_cmp go_cmp T" unfolding key by (rule join_inj)
  then show ?thesis by (metis mset_sort_cmp)
qed

section \<open>The frontier covers what was visited\<close>

definition frontier_ok :: "frontierCandidate list \<Rightarrow> nat list set \<Rightarrow> frontier_state \<Rightarrow> bool" where
  "frontier_ok cs V st \<longleftrightarrow> quality.antichain (fs_frontier st) \<and>
     (\<forall>S\<in>V. quality.covers (fs_frontier st) (finalizeBatchQuality (quality_of cs S))) \<and>
     set (fs_seenBatches st) \<subseteq> frontierBatchKey ` V \<and>
     set (fs_frontier st) \<subseteq> (\<lambda>S. finalizeBatchQuality (quality_of cs S)) ` V"

lemma visit_batch_ok:
  assumes ok: "frontier_ok cs V st"
  shows "frontier_ok cs (insert S V) (visit_batch S (quality_of cs S) st)"
proof (cases "frontierBatchKey S \<in> set (fs_seenBatches st)")
  case True
  with ok obtain T where T: "T \<in> V" "frontierBatchKey S = frontierBatchKey T" unfolding frontier_ok_def by blast
  then have "quality_of cs S = quality_of cs T" by (intro quality_of_order frontierBatchKey_inj)
  with ok T(1) have "quality.covers (fs_frontier st) (finalizeBatchQuality (quality_of cs S))"
    unfolding frontier_ok_def by simp
  with ok True show ?thesis unfolding frontier_ok_def visit_batch_def by auto
next
  case False
  with ok show ?thesis
    unfolding frontier_ok_def visit_batch_def addFrontierPoint_conv
    by (auto simp: Let_def quality.add_point_antichain quality.add_point_covers quality.add_point_keeps
        dest!: subsetD [OF quality.add_point_set])
qed

lemma visit_all_ok: "frontier_ok cs V st \<Longrightarrow> frontier_ok cs (V \<union> set Ss) (visit_all cs st Ss)"
proof (induction Ss arbitrary: V st)
  case (Cons S Ss)
  from Cons.IH [OF visit_batch_ok [OF Cons.prems, of S]] show ?case by simp
qed simp

section \<open>Every batch of disjoint candidates is visited\<close>

definition apart :: "frontierCandidate \<Rightarrow> frontierCandidate \<Rightarrow> bool" where
  "apart c d \<longleftrightarrow> members (fc_ticketMask c) \<inter> members (fc_ticketMask d) = {} \<and>
     members (backfill_mask c) \<inter> members (backfill_mask d) = {}"

lemma apart_sym: "apart c d \<Longrightarrow> apart d c"
  by (auto simp: apart_def)

text \<open>A batch that can still be added: its candidates fit into the free tickets and backfills.\<close>

definition batch_fits :: "frontierCandidate list \<Rightarrow> 16 word \<Rightarrow> 8 word \<Rightarrow> nat list \<Rightarrow> bool" where
  "batch_fits cs remaining used S \<longleftrightarrow>
     (\<forall>i\<in>set S. i < length cs \<and> fc_ticketMask (cs ! i) \<noteq> 0 \<and> members (fc_ticketMask (cs ! i)) \<subseteq> members remaining \<and>
        members (backfill_mask (cs ! i)) \<inter> members used = {}) \<and>
     sorted_wrt (\<lambda>i j. apart (cs ! i) (cs ! j)) S"

lemma not_skipped:
  "members (fc_ticketMask c) \<subseteq> members remaining \<Longrightarrow> members (backfill_mask c) \<inter> members used = {} \<Longrightarrow>
   \<not> candidate_skipped c remaining used"
  unfolding candidate_skipped_def and_eq_iff and_zero_iff by (auto simp: inf_commute)

lemma sorted_wrt_remove1: "sorted_wrt R xs \<Longrightarrow> sorted_wrt R (remove1 x xs)"
  by (induction xs) (auto dest: in_set_remove1 [THEN iffD1] notin_set_remove1 intro: set_remove1_subset [THEN subsetD])

lemma sorted_wrt_others:
  assumes "sorted_wrt R xs" "\<And>x y. R x y \<Longrightarrow> R y x" "\<And>x. x \<in> set xs \<Longrightarrow> \<not> R x x" "x \<in> set xs" "y \<in> set (remove1 x xs)"
  shows "R x y"
  using assms
proof (induction xs)
  case (Cons z zs)
  show ?case
  proof (cases "x = z")
    case True
    with Cons.prems show ?thesis by auto
  next
    case False
    with Cons.prems have x: "x \<in> set zs" and y: "y = z \<or> y \<in> set (remove1 x zs)" by auto
    show ?thesis
    proof (cases "y = z")
      case True
      with Cons.prems(1,2) x show ?thesis by auto
    next
      case no: False
      with y have "y \<in> set (remove1 x zs)" by simp
      with Cons x show ?thesis by simp
    qed
  qed
qed simp

lemma batch_fits_take:
  assumes fits: "batch_fits cs remaining used S" and i: "i \<in> set S"
  shows "batch_fits cs (remaining AND NOT (fc_ticketMask (cs ! i))) (used OR backfill_mask (cs ! i)) (remove1 i S)"
proof -
  have mem: "j \<in> set S" if "j \<in> set (remove1 i S)" for j using that set_remove1_subset by (rule rev_subsetD)
  have irrefl: "\<not> apart (cs ! j) (cs ! j)" if "j \<in> set S" for j
    using fits that unfolding batch_fits_def apart_def by auto
  have sorted: "sorted_wrt (\<lambda>i j. apart (cs ! i) (cs ! j)) S" using fits by (simp add: batch_fits_def)
  have "apart (cs ! i) (cs ! j)" if "j \<in> set (remove1 i S)" for j
    by (rule sorted_wrt_others [OF sorted _ _ i that]) (auto intro: apart_sym dest: irrefl)
  with fits mem members_bounded [of remaining] show ?thesis
    unfolding batch_fits_def apart_def by (auto simp: sorted_wrt_remove1) blast+
qed

lemma visits_complete:
  assumes "n \<le> 16"
  shows "card (members remaining) < fuel \<Longrightarrow> members remaining \<subseteq> {..<n} \<Longrightarrow> batch_fits cs remaining used S \<Longrightarrow>
    int (length selected + length S) \<le> m \<Longrightarrow>
    \<exists>S'. mset S' = mset S \<and> selected @ S' \<in> set (visits fuel cs (byTicket cs n) m remaining used selected)"
proof (induction fuel arbitrary: remaining used selected S)
  case (Suc fuel)
  show ?case
  proof (cases "S = []")
    case False
    then obtain k where k: "k \<in> set S" by (cases S) auto
    then have "members (fc_ticketMask (cs ! k)) \<noteq> {}" "members (fc_ticketMask (cs ! k)) \<subseteq> members remaining"
      using Suc.prems(3) by (simp_all add: batch_fits_def)
    then have nz: "remaining \<noteq> 0" by auto
    have room: "int (length selected) < m" using False Suc.prems(4) by (cases S) auto
    let ?a = "bits_TrailingZeros16 remaining"
    have a: "?a \<in> members remaining" "?a < n" using trailing_zeros_member [OF nz] Suc.prems(2) by auto
    have less: "card (members (remaining AND NOT w)) < fuel" if "?a \<in> members w" for w
      using anchor_removed [OF nz that] Suc.prems(1) by simp
    have sub: "members (remaining AND NOT w) \<subseteq> {..<n}" for w using Suc.prems(2) by auto
    show ?thesis
    proof (cases "\<exists>i\<in>set S. ?a \<in> members (fc_ticketMask (cs ! i))")
      case True
      then obtain i where i: "i \<in> set S" "?a \<in> members (fc_ticketMask (cs ! i))" by blast
      have len: "length S = Suc (length (remove1 i S))" using i(1) by (simp add: length_remove1) (metis False Suc_pred length_greater_0_conv)
      then have "int (length (selected @ [i]) + length (remove1 i S)) \<le> m" using Suc.prems(4) by simp
      from Suc.IH [OF less [OF i(2)] sub batch_fits_take [OF Suc.prems(3) i(1)] this]
      obtain T where T: "mset T = mset (remove1 i S)"
        "(selected @ [i]) @ T \<in> set (visits fuel cs (byTicket cs n) m (remaining AND NOT (fc_ticketMask (cs ! i)))
           (used OR backfill_mask (cs ! i)) (selected @ [i]))" by blast
      have holder: "i \<in> set (byTicket cs n ! ?a)"
        using i Suc.prems(3) a assms by (auto simp: byTicket_def batch_fits_def and_zero_iff)
      have "\<not> candidate_skipped (cs ! i) remaining used"
        using Suc.prems(3) i(1) by (intro not_skipped) (simp_all add: batch_fits_def)
      with holder T(2) nz room have "selected @ (i # T) \<in> set (visits (Suc fuel) cs (byTicket cs n) m remaining used selected)"
        by auto
      moreover have "mset (i # T) = mset S" using T(1) i(1) by simp
      ultimately show ?thesis by blast
    next
      case no: False
      have fits: "batch_fits cs (remaining AND NOT (push_bit ?a 1)) used S"
        using Suc.prems(3) no members_bounded [of remaining] unfolding batch_fits_def by (auto split: if_splits)
      have "?a \<in> members (push_bit ?a 1 :: 16 word)" using a(2) assms by simp
      from Suc.IH [OF less [OF this] sub fits Suc.prems(4)] nz room show ?thesis by auto
    qed
  qed simp
qed simp


section \<open>Every visited batch is disjoint\<close>

definition chosen_ok :: "frontierCandidate list \<Rightarrow> int \<Rightarrow> 16 word \<Rightarrow> 8 word \<Rightarrow> nat list \<Rightarrow> bool" where
  "chosen_ok cs m remaining used S \<longleftrightarrow> int (length S) \<le> m \<and>
     (\<forall>i\<in>set S. i < length cs \<and> members (fc_ticketMask (cs ! i)) \<inter> members remaining = {} \<and>
        members (backfill_mask (cs ! i)) \<subseteq> members used) \<and>
     sorted_wrt (\<lambda>i j. apart (cs ! i) (cs ! j)) S"

lemma skipped_iff:
  "\<not> candidate_skipped c remaining used \<longleftrightarrow> members (fc_ticketMask c) \<subseteq> members remaining \<and>
     members (backfill_mask c) \<inter> members used = {}"
  unfolding candidate_skipped_def and_eq_iff and_zero_iff by (auto simp: inf_commute backfill_mask_def)

lemma chosen_take:
  assumes ok: "chosen_ok cs m remaining used S" and i: "i < length cs" "\<not> candidate_skipped (cs ! i) remaining used"
    and room: "int (length S) < m"
  shows "chosen_ok cs m (remaining AND NOT (fc_ticketMask (cs ! i))) (used OR backfill_mask (cs ! i)) (S @ [i])"
  using ok i(1) room i(2)[unfolded skipped_iff]
  unfolding chosen_ok_def sorted_wrt_append apart_def by auto blast

lemma visits_sound:
  assumes "n \<le> 16"
  shows "members remaining \<subseteq> {..<n} \<Longrightarrow> chosen_ok cs m remaining used selected \<Longrightarrow>
    S \<in> set (visits fuel cs (byTicket cs n) m remaining used selected) \<Longrightarrow>
    int (length S) \<le> m \<and> (\<forall>i\<in>set S. i < length cs) \<and> sorted_wrt (\<lambda>i j. apart (cs ! i) (cs ! j)) S"
proof (induction fuel arbitrary: remaining used selected)
  case (Suc fuel)
  let ?a = "bits_TrailingZeros16 remaining"
  have sub: "members (remaining AND NOT w) \<subseteq> {..<n}" for w using Suc.prems(1) by auto
  from Suc.prems(3) consider "S = selected"
    | "remaining \<noteq> 0" "S \<in> set (visits fuel cs (byTicket cs n) m (remaining AND NOT (push_bit ?a 1)) used selected)"
    | i where "remaining \<noteq> 0" "int (length selected) < m" "i \<in> set (byTicket cs n ! ?a)" "\<not> candidate_skipped (cs ! i) remaining used"
        "S \<in> set (visits fuel cs (byTicket cs n) m (remaining AND NOT (fc_ticketMask (cs ! i))) (used OR backfill_mask (cs ! i)) (selected @ [i]))"
    by (auto split: if_splits)
  then show ?case
  proof cases
    case 1
    with Suc.prems(2) show ?thesis by (auto simp: chosen_ok_def)
  next
    case 2
    have "chosen_ok cs m (remaining AND NOT (push_bit ?a 1)) used selected"
      using Suc.prems(2) by (auto simp: chosen_ok_def)
    from Suc.IH [OF sub this 2(2)] show ?thesis .
  next
    case 3
    have "?a < n" using trailing_zeros_member [OF 3(1)] Suc.prems(1) by auto
    from byTicket_member(1) [OF 3(3) this] have "i < length cs" .
    from Suc.IH [OF sub chosen_take [OF Suc.prems(2) this 3(4,2)] 3(5)] show ?thesis .
  qed
qed simp

end
