(* ===== verification/Frontier_Candidates.thy ===== *)
theory Frontier_Candidates
  imports Frontier_Search
begin

text \<open>
  The candidates of the frontier are complete: for every admissible exact placement of a new match or
  of a backfill there is a candidate with its tickets, its players and its scores
  (\<open>frontier_candidates_cover\<close>). Two placements of the same tickets with the same scores share one.
\<close>

section \<open>Masks of assignments\<close>

definition mask_of :: "nat list \<Rightarrow> 16 word" where
  "mask_of js = foldl (\<lambda>w j. w OR push_bit j 1) 0 js"

lemma members_mask_fold: "members (foldl (\<lambda>w j. w OR push_bit j 1) (v :: 16 word) js) = members v \<union> (set js \<inter> {..<16})"
  by (induction js arbitrary: v) (auto split: if_splits)

lemma members_mask_of: "members (mask_of js) = set js \<inter> {..<16}"
  unfolding mask_of_def members_mask_fold by simp

lemma mask_of_cong: "set js = set ks \<Longrightarrow> mask_of js = mask_of ks"
  unfolding members_eq_iff [symmetric] members_mask_of by simp

lemma enumerate_exact_zero: "enumerate_exact window f needed index ts 0 w remaining assigned st = f (materializePlacement window assigned) w needed st"
  by (simp add: enumerate_exact.simps)

lemma enumerate_exact_Nil: "k \<noteq> 0 \<Longrightarrow> enumerate_exact window f needed index [] k w remaining assigned st = st"
  by (simp add: enumerate_exact.simps)

lemma enumerate_exact_Cons:
  "k \<noteq> 0 \<Longrightarrow> enumerate_exact window f needed index (t # rest) k w remaining assigned st =
     (if players_in (t # rest) < k then st
      else enumerate_exact window f needed (Suc index) rest k w remaining assigned
        (foldl (\<lambda>st team. enumerate_exact window f needed (Suc index) rest (i64 (k - party_size t)) (w OR push_bit index 1)
             (remaining[team := remaining ! team - party_size t])
             (assigned[team := assigned ! team @ [index]]) st) st (teams_for t remaining)))"
  by (subst enumerate_exact.simps) (simp add: foldl_if teams_for_def not_less Let_def del: players_in_simps)

lemma mask_of_place:
  assumes "team < length assigned"
  shows "mask_of (concat (assigned[team := assigned ! team @ [index]])) = mask_of (concat assigned) OR push_bit index 1"
proof -
  have "set (concat (assigned[team := assigned ! team @ [index]])) = insert index (set (concat assigned))"
    using mset_eq_setD [of "concat (assigned[team := assigned ! team @ [index]])" "index # concat assigned"]
      mset_concat_update [OF assms, of index] by simp
  then show ?thesis unfolding members_eq_iff [symmetric] by (auto simp: members_mask_of split: if_splits)
qed

text \<open>The enumeration is a loop over the leaves of \<open>exact_leaves\<close>, each with the mask of its tickets.\<close>

lemma enumerate_exact_leaves:
  "path_ok window slots index tickets k remaining assigned \<Longrightarrow>
   enumerate_exact window f needed index tickets k (mask_of (concat assigned)) remaining assigned st =
     foldl (\<lambda>st leaf. f (materializePlacement window leaf) (mask_of (concat leaf)) needed st) st
       (exact_leaves index tickets k remaining assigned)"
proof (induction tickets arbitrary: index k remaining assigned st)
  case Nil
  show ?case by (cases "k = 0") (simp_all add: exact_leaves_zero exact_leaves_Nil enumerate_exact_zero enumerate_exact_Nil)
next
  case (Cons t rest)
  let ?leaf = "\<lambda>st leaf. f (materializePlacement window leaf) (mask_of (concat leaf)) needed st"
  show ?case
  proof (cases "k = 0")
    case False
    let ?sub = "\<lambda>team. exact_leaves (Suc index) rest (i64 (k - party_size t))
        (remaining[team := remaining ! team - party_size t]) (assigned[team := assigned ! team @ [index]])"
    have "foldl (\<lambda>st team. enumerate_exact window f needed (Suc index) rest (i64 (k - party_size t))
        (mask_of (concat assigned) OR push_bit index 1) (remaining[team := remaining ! team - party_size t])
        (assigned[team := assigned ! team @ [index]]) st) st (teams_for t remaining) =
      foldl (\<lambda>st team. foldl ?leaf st (?sub team)) st (teams_for t remaining)"
    proof (rule foldl_cong_mem)
      fix st team assume "team \<in> set (teams_for t remaining)"
      then have team: "team < length remaining" "party_size t \<le> remaining ! team" by (auto simp: teams_for_def)
      then have len: "team < length assigned" using Cons.prems by (simp add: path_ok_def)
      from Cons.IH [OF path_place [OF Cons.prems team], of st]
      show "enumerate_exact window f needed (Suc index) rest (i64 (k - party_size t))
        (mask_of (concat assigned) OR push_bit index 1) (remaining[team := remaining ! team - party_size t])
        (assigned[team := assigned ! team @ [index]]) st = foldl ?leaf st (?sub team)"
        unfolding mask_of_place [OF len] .
    qed
    also have "\<dots> = foldl ?leaf st (concat (map ?sub (teams_for t remaining)))" by (rule foldl_concat_map)
    finally show ?thesis
      using Cons.IH [OF path_skip [OF Cons.prems]]
      unfolding enumerate_exact_Cons [OF False] exact_leaves_Cons [OF False] by simp
  qed (simp add: exact_leaves_zero enumerate_exact_zero)
qed

lemma enumerateExactPlacements_leaves:
  assumes "slots_in_range slots"
  shows "enumerateExactPlacements window slots f st =
    foldl (\<lambda>st leaf. f (materializePlacement window leaf) (mask_of (concat leaf)) (sum_list slots) st) st
      (exact_placements window slots)"
proof -
  have "mask_of (concat (map (\<lambda>_. []) slots)) = 0" unfolding members_empty_iff [symmetric] members_mask_of by simp
  with enumerate_exact_leaves [OF path_root [OF assms], of window f "sum_list slots" st] show ?thesis
    by (simp add: enumerateExactPlacements_def total_needed [OF assms] exact_placements_def Let_def)
qed

section \<open>Recorded candidates\<close>

definition candidate_identity :: "frontierCandidate \<Rightarrow> frontierCandidateIdentity" where
  "candidate_identity c = identity_of (fc_ticketMask c) (fc_backfillIndex c) (fc_evidence c)"

text \<open>What is filled for an index: the slots and the evaluation of a placement.\<close>

definition index_slots :: "MatchmakingSnapshot \<Rightarrow> BackfillTicket list \<Rightarrow> int \<Rightarrow> int list" where
  "index_slots s backfills index =
     (if index < 0 then matchSlots (snap_Policy s) else bt_OpenSlotsByTeam (backfills ! nat index))"

definition index_evaluation :: "MatchmakingSnapshot \<Rightarrow> BackfillTicket list \<Rightarrow> int \<Rightarrow> placement \<Rightarrow> Evaluation" where
  "index_evaluation s backfills index pl =
     (if index \<ge> 0
      then EvaluateBackfill (snap_Now s) pl (snap_Policy s) (bt_ExistingTeams (backfills ! nat index))
             (bt_EnqueuedAt (backfills ! nat index))
      else Evaluate (snap_Now s) pl (snap_Policy s) ProposalNewMatch)"

definition recorded_ok :: "MatchmakingSnapshot \<Rightarrow> BackfillTicket list \<Rightarrow> candidate_state \<Rightarrow> bool" where
  "recorded_ok s backfills st \<longleftrightarrow>
     set (cs_seen st) = candidate_identity ` set (cs_candidates st) \<and>
     (\<forall>c\<in>set (cs_candidates st). fc_matchedPlayers c = sum_list (index_slots s backfills (fc_backfillIndex c)))"

text \<open>What a candidate stands for: a leaf of the enumeration of its index.\<close>

definition drawn_from :: "MatchmakingSnapshot \<Rightarrow> BackfillTicket list \<Rightarrow> MatchTicket list \<Rightarrow> frontierCandidate \<Rightarrow> bool" where
  "drawn_from s backfills window c \<longleftrightarrow> (\<exists>leaf\<in>set (exact_placements window (index_slots s backfills (fc_backfillIndex c))).
     fc_ticketMask c = mask_of (concat leaf) \<and>
     fc_evidence c = eval_Evidence (index_evaluation s backfills (fc_backfillIndex c) (materializePlacement window leaf)) \<and>
     eval_Admissible (index_evaluation s backfills (fc_backfillIndex c) (materializePlacement window leaf)))"

lemma frontier_record_conv:
  assumes "index < 0 \<longrightarrow> kind = ProposalNewMatch"
  shows "frontier_record s backfills kind index pl w players st =
    (let st = st\<lparr>cs_placementsEvaluated := Suc (cs_placementsEvaluated st)\<rparr>;
         evaluation = index_evaluation s backfills index pl;
         identity = identity_of w index (eval_Evidence evaluation)
     in if \<not> eval_Admissible evaluation \<or> identity \<in> set (cs_seen st) then st
        else st\<lparr>cs_seen := identity # cs_seen st, cs_admissibleCandidates := Suc (cs_admissibleCandidates st),
                cs_candidates := cs_candidates st @
                  [\<lparr>fc_ticketMask = w, fc_backfillIndex = index, fc_matchedPlayers = players,
                    fc_evidence = eval_Evidence evaluation, fc_key = frontierCandidateKey identity\<rparr>]\<rparr>)"
  using assms by (auto simp: frontier_record_def index_evaluation_def Let_def)

lemma frontier_record_ok:
  assumes "index < 0 \<longrightarrow> kind = ProposalNewMatch" "recorded_ok s backfills st"
  shows "recorded_ok s backfills (frontier_record s backfills kind index pl w (sum_list (index_slots s backfills index)) st)"
    "set (cs_candidates st) \<subseteq> set (cs_candidates (frontier_record s backfills kind index pl w players st))"
    "eval_Admissible (index_evaluation s backfills index pl) \<Longrightarrow>
     identity_of w index (eval_Evidence (index_evaluation s backfills index pl)) \<in>
       candidate_identity ` set (cs_candidates (frontier_record s backfills kind index pl w players st))"
  using assms(2) unfolding frontier_record_conv [OF assms(1)]
  by (auto simp: recorded_ok_def Let_def candidate_identity_def)

text \<open>A loop that records the placements of one index.\<close>

abbreviation record_all ::
  "MatchmakingSnapshot \<Rightarrow> BackfillTicket list \<Rightarrow> ProposalKind \<Rightarrow> int \<Rightarrow> MatchTicket list \<Rightarrow> nat list list list
     \<Rightarrow> candidate_state \<Rightarrow> candidate_state" where
  "record_all s backfills kind index window ls st \<equiv>
     foldl (\<lambda>st leaf. frontier_record s backfills kind index (materializePlacement window leaf) (mask_of (concat leaf))
       (sum_list (index_slots s backfills index)) st) st ls"

lemma record_all_ok:
  assumes "index < 0 \<longrightarrow> kind = ProposalNewMatch"
  shows "recorded_ok s backfills st \<Longrightarrow> recorded_ok s backfills (record_all s backfills kind index window ls st) \<and>
    set (cs_candidates st) \<subseteq> set (cs_candidates (record_all s backfills kind index window ls st))"
proof (induction ls arbitrary: st)
  case (Cons leaf ls)
  from Cons.IH [OF frontier_record_ok(1) [OF assms Cons.prems]] frontier_record_ok(2) [OF assms Cons.prems]
  show ?case by fastforce
qed simp

lemma record_all_covers:
  assumes idx: "index < 0 \<longrightarrow> kind = ProposalNewMatch" and ok: "recorded_ok s backfills st" and leaf: "leaf \<in> set ls"
    and adm: "eval_Admissible (index_evaluation s backfills index (materializePlacement window leaf))"
  shows "identity_of (mask_of (concat leaf)) index
      (eval_Evidence (index_evaluation s backfills index (materializePlacement window leaf))) \<in>
    candidate_identity ` set (cs_candidates (record_all s backfills kind index window ls st))"
  using leaf ok
proof (induction ls arbitrary: st)
  case (Cons x ls)
  let ?st = "frontier_record s backfills kind index (materializePlacement window x) (mask_of (concat x))
      (sum_list (index_slots s backfills index)) st"
  have ok': "recorded_ok s backfills ?st" by (rule frontier_record_ok(1) [OF idx Cons.prems(2)])
  show ?case
  proof (cases "leaf \<in> set ls")
    case True
    from Cons.IH [OF True ok'] show ?thesis by simp
  next
    case False
    with Cons.prems(1) have "x = leaf" by simp
    with frontier_record_ok(3) [OF idx Cons.prems(2)] adm
    have "identity_of (mask_of (concat leaf)) index
      (eval_Evidence (index_evaluation s backfills index (materializePlacement window leaf))) \<in> candidate_identity ` set (cs_candidates ?st)"
      by simp
    with record_all_ok [OF idx ok', where window = window and ls = ls] show ?thesis by auto
  qed
qed simp

section \<open>All indexes\<close>

abbreviation record_index ::
  "MatchmakingSnapshot \<Rightarrow> BackfillTicket list \<Rightarrow> MatchTicket list \<Rightarrow> candidate_state \<Rightarrow> nat \<Rightarrow> candidate_state" where
  "record_index s backfills window st j \<equiv>
     record_all s backfills ProposalBackfill (int j) window (exact_placements window (index_slots s backfills (int j))) st"

lemma foldl_enumerate:
  "(\<And>st j. j < length xs \<Longrightarrow> f st (j, xs ! j) = g st j) \<Longrightarrow>
   foldl f st (enumerate 0 xs) = foldl g st [0..<length xs]"
proof (induction xs rule: rev_induct)
  case (snoc x xs)
  have "foldl f st (enumerate 0 xs) = foldl g st [0..<length xs]"
    using snoc.prems by (intro snoc.IH) (metis butlast_snoc length_append_singleton less_SucI nth_butlast)
  moreover have "f st' (length xs, x) = g st' (length xs)" for st' using snoc.prems [of "length xs" st'] by simp
  ultimately show ?case by (simp add: enumerate_append_eq)
qed simp

lemma record_indexes_ok:
  "recorded_ok s backfills st \<Longrightarrow> recorded_ok s backfills (foldl (record_index s backfills window) st js) \<and>
     set (cs_candidates st) \<subseteq> set (cs_candidates (foldl (record_index s backfills window) st js))"
proof (induction js arbitrary: st)
  case (Cons j js)
  have idx: "int j < 0 \<longrightarrow> ProposalBackfill = ProposalNewMatch" by simp
  from record_all_ok [OF idx Cons.prems, where window = window and ls = "exact_placements window (index_slots s backfills (int j))"]
    Cons.IH show ?case by fastforce
qed simp

lemma record_indexes_covers:
  assumes "recorded_ok s backfills st" "j \<in> set js" "leaf \<in> set (exact_placements window (index_slots s backfills (int j)))"
    "eval_Admissible (index_evaluation s backfills (int j) (materializePlacement window leaf))"
  shows "identity_of (mask_of (concat leaf)) (int j)
      (eval_Evidence (index_evaluation s backfills (int j) (materializePlacement window leaf))) \<in>
    candidate_identity ` set (cs_candidates (foldl (record_index s backfills window) st js))"
  using assms(1,2)
proof (induction js arbitrary: st)
  case (Cons k js)
  have idx: "int i < 0 \<longrightarrow> ProposalBackfill = ProposalNewMatch" for i by simp
  let ?st = "record_index s backfills window st k"
  have ok: "recorded_ok s backfills ?st" using record_all_ok [OF idx Cons.prems(1)] by blast
  show ?case
  proof (cases "j \<in> set js")
    case True
    from Cons.IH [OF ok True] show ?thesis by simp
  next
    case False
    then have "k = j" using Cons.prems(2) by simp
    with record_all_covers [OF idx Cons.prems(1) assms(3,4)]
    have "identity_of (mask_of (concat leaf)) (int j)
        (eval_Evidence (index_evaluation s backfills (int j) (materializePlacement window leaf))) \<in> candidate_identity ` set (cs_candidates ?st)"
      by simp
    with record_indexes_ok [OF ok, where window = window and js = js] show ?thesis by auto
  qed
qed simp

definition frontier_start :: candidate_state where
  "frontier_start = \<lparr>cs_candidates = [], cs_seen = [], cs_placementsEvaluated = 0, cs_admissibleCandidates = 0\<rparr>"

lemma frontier_start_ok: "recorded_ok s backfills frontier_start"
  by (simp add: recorded_ok_def frontier_start_def)

text \<open>The indexes that stand for something to fill, with slots in range.\<close>

definition frontier_index :: "MatchmakingSnapshot \<Rightarrow> BackfillTicket list \<Rightarrow> int \<Rightarrow> bool" where
  "frontier_index s backfills index \<longleftrightarrow> (index = - 1 \<or> 0 \<le> index \<and> nat index < length backfills)"

definition indexes_in_range :: "MatchmakingSnapshot \<Rightarrow> BackfillTicket list \<Rightarrow> bool" where
  "indexes_in_range s backfills \<longleftrightarrow>
     (\<forall>index. frontier_index s backfills index \<longrightarrow> slots_in_range (index_slots s backfills index))"

lemma index_in_range:
  "indexes_in_range s backfills \<Longrightarrow> frontier_index s backfills index \<Longrightarrow> slots_in_range (index_slots s backfills index)"
  by (simp add: indexes_in_range_def)

lemma enumerateFrontierCandidates_set:
  assumes range: "indexes_in_range s backfills"
  shows "set (fst (enumerateFrontierCandidates s window backfills)) = set (cs_candidates
    (foldl (record_index s backfills window)
       (record_all s backfills ProposalNewMatch (- 1) window (exact_placements window (index_slots s backfills (- 1))) frontier_start)
       [0..<length backfills]))"
proof -
  have new: "enumerateExactPlacements window (replicate (nat (pol_TeamCount (snap_Policy s))) (pol_TeamSize (snap_Policy s)))
      (frontier_record s backfills ProposalNewMatch (- 1)) frontier_start =
    record_all s backfills ProposalNewMatch (- 1) window (exact_placements window (index_slots s backfills (- 1))) frontier_start"
    using enumerateExactPlacements_leaves [OF index_in_range [OF range, of "- 1"]]
    by (simp add: frontier_index_def index_slots_def matchSlots_def)
  have step: "(\<lambda>st (index, backfill). enumerateExactPlacements window (bt_OpenSlotsByTeam backfill)
      (frontier_record s backfills ProposalBackfill (int index)) st) st (j, backfills ! j) = record_index s backfills window st j"
    if "j < length backfills" for st j
    using enumerateExactPlacements_leaves [OF index_in_range [OF range, of "int j"]] that by (simp add: frontier_index_def index_slots_def)
  show ?thesis
    unfolding enumerateFrontierCandidates_def Let_def fst_conv set_sort_cmp frontier_start_def [symmetric] new
    by (subst foldl_enumerate [where g = "record_index s backfills window"]) (rule step, assumption, rule refl)
qed

text \<open>What of a candidate enters a quality.\<close>

definition same_quality :: "frontierCandidate \<Rightarrow> frontierCandidate \<Rightarrow> bool" where
  "same_quality c d \<longleftrightarrow> fc_ticketMask c = fc_ticketMask d \<and> fc_matchedPlayers c = fc_matchedPlayers d \<and>
     (fc_backfillIndex c \<ge> 0 \<longleftrightarrow> fc_backfillIndex d \<ge> 0) \<and>
     ev_RolePenalty (fc_evidence c) = ev_RolePenalty (fc_evidence d) \<and>
     ev_TeamSkillGap (fc_evidence c) = ev_TeamSkillGap (fc_evidence d) \<and>
     ev_MaxLatencyMillis (fc_evidence c) = ev_MaxLatencyMillis (fc_evidence d) \<and>
     ev_OldestWaitMillis (fc_evidence c) = ev_OldestWaitMillis (fc_evidence d) \<and>
     ev_TotalWaitMillis (fc_evidence c) = ev_TotalWaitMillis (fc_evidence d)"

lemma same_quality_add: "same_quality c d \<Longrightarrow> addCandidateQuality q c = addCandidateQuality q d"
  by (simp add: same_quality_def addCandidateQuality_def Let_def)

theorem frontier_candidates_cover:
  assumes range: "indexes_in_range s backfills"
    and window: "distinct window" "parties_filled window" and index: "frontier_index s backfills index"
    and exact: "exact_placement window (index_slots s backfills index) pl"
    and adm: "eval_Admissible (index_evaluation s backfills index pl)"
  shows "\<exists>c\<in>set (fst (enumerateFrontierCandidates s window backfills)). fc_backfillIndex c = index \<and>
    same_quality c \<lparr>fc_ticketMask = mask_of (concat (map (indexes_of window) pl)), fc_backfillIndex = index,
      fc_matchedPlayers = sum_list (index_slots s backfills index),
      fc_evidence = eval_Evidence (index_evaluation s backfills index pl), fc_key = k\<rparr>"
proof -
  let ?leaf = "map (indexes_of window) pl" and ?first = "record_all s backfills ProposalNewMatch (- 1) window
    (exact_placements window (index_slots s backfills (- 1))) frontier_start"
  let ?st = "foldl (record_index s backfills window) ?first [0..<length backfills]"
  note leaf = exact_placements_covers [OF exact window index_in_range [OF range index]]
  have score: "score (index_evaluation s backfills index (materializePlacement window ?leaf)) =
      score (index_evaluation s backfills index pl)"
    using evaluate_order [OF leaf(2), of "snap_Now s" "snap_Policy s" ProposalNewMatch "[]"]
      EvaluateBackfill_order [OF leaf(2), of "snap_Now s" "snap_Policy s"]
    by (simp add: index_evaluation_def Evaluate_def)
  have idx: "(- 1 :: int) < 0 \<longrightarrow> ProposalNewMatch = ProposalNewMatch" by simp
  have ok0: "recorded_ok s backfills ?first" using record_all_ok [OF idx frontier_start_ok] by blast
  have "identity_of (mask_of (concat ?leaf)) index (eval_Evidence (index_evaluation s backfills index (materializePlacement window ?leaf))) \<in>
      candidate_identity ` set (cs_candidates ?st)"
  proof (cases "index = - 1")
    case True
    have "identity_of (mask_of (concat ?leaf)) (- 1) (eval_Evidence (index_evaluation s backfills (- 1) (materializePlacement window ?leaf))) \<in>
        candidate_identity ` set (cs_candidates ?first)"
      by (rule record_all_covers [OF idx frontier_start_ok]) (use leaf(1) adm score True in \<open>simp_all add: score_def\<close>)
    with record_indexes_ok [OF ok0, where window = window and js = "[0..<length backfills]"] True show ?thesis by auto
  next
    case False
    with index obtain j where j: "index = int j" "j < length backfills"
      by (metis frontier_index_def int_nat_eq)
    show ?thesis unfolding j(1)
      by (rule record_indexes_covers [OF ok0]) (use j leaf(1) adm score in \<open>simp_all add: score_def\<close>)
  qed
  then obtain c where c: "c \<in> set (cs_candidates ?st)" and id: "candidate_identity c =
      identity_of (mask_of (concat ?leaf)) index (eval_Evidence (index_evaluation s backfills index pl))"
    using score by (auto simp: score_def)
  have "recorded_ok s backfills ?st" using record_indexes_ok [OF ok0] by blast
  with c have "fc_matchedPlayers c = sum_list (index_slots s backfills (fc_backfillIndex c))" by (simp add: recorded_ok_def)
  with c id show ?thesis
    unfolding enumerateFrontierCandidates_set [OF range] candidate_identity_def identity_of_def same_quality_def by auto
qed


section \<open>Every candidate is a placement\<close>

lemma record_all_drawn:
  assumes "index < 0 \<longrightarrow> kind = ProposalNewMatch" "set ls \<subseteq> set (exact_placements window (index_slots s backfills index))"
  shows "\<forall>c\<in>set (cs_candidates st). drawn_from s backfills window c \<and> P (fc_backfillIndex c) \<Longrightarrow> P index \<Longrightarrow>
    \<forall>c\<in>set (cs_candidates (record_all s backfills kind index window ls st)). drawn_from s backfills window c \<and> P (fc_backfillIndex c)"
  using assms(2)
proof (induction ls arbitrary: st)
  case (Cons leaf ls)
  let ?st = "frontier_record s backfills kind index (materializePlacement window leaf) (mask_of (concat leaf))
      (sum_list (index_slots s backfills index)) st"
  have "\<forall>c\<in>set (cs_candidates ?st). drawn_from s backfills window c \<and> P (fc_backfillIndex c)"
    using Cons.prems unfolding frontier_record_conv [OF assms(1)] by (auto simp: Let_def drawn_from_def)
  from Cons.IH [OF this Cons.prems(2)] Cons.prems(3) show ?case by simp
qed simp

lemma record_indexes_drawn:
  "\<forall>c\<in>set (cs_candidates st). drawn_from s backfills window c \<and> P (fc_backfillIndex c) \<Longrightarrow> \<forall>j\<in>set js. P (int j) \<Longrightarrow>
   \<forall>c\<in>set (cs_candidates (foldl (record_index s backfills window) st js)). drawn_from s backfills window c \<and> P (fc_backfillIndex c)"
proof (induction js arbitrary: st)
  case (Cons j js)
  have idx: "int j < 0 \<longrightarrow> ProposalBackfill = ProposalNewMatch" by simp
  have "P (int j)" using Cons.prems(2) by simp
  from Cons.IH [OF record_all_drawn [OF idx order_refl Cons.prems(1) this]] Cons.prems(2) show ?case by simp
qed simp

lemma frontier_candidates_drawn:
  assumes range: "indexes_in_range s backfills" and c: "c \<in> set (fst (enumerateFrontierCandidates s window backfills))"
  shows "drawn_from s backfills window c" "frontier_index s backfills (fc_backfillIndex c)"
    "fc_matchedPlayers c = sum_list (index_slots s backfills (fc_backfillIndex c))"
proof -
  let ?first = "record_all s backfills ProposalNewMatch (- 1) window (exact_placements window (index_slots s backfills (- 1))) frontier_start"
  let ?P = "frontier_index s backfills"
  have idx: "(- 1 :: int) < 0 \<longrightarrow> ProposalNewMatch = ProposalNewMatch" by simp
  have "\<forall>c\<in>set (cs_candidates frontier_start). drawn_from s backfills window c \<and> ?P (fc_backfillIndex c)"
    by (simp add: frontier_start_def)
  from record_all_drawn [OF idx order_refl this]
  have "\<forall>c\<in>set (cs_candidates ?first). drawn_from s backfills window c \<and> ?P (fc_backfillIndex c)"
    by (simp add: frontier_index_def)
  from record_indexes_drawn [OF this, of "[0..<length backfills]"] c
  show "drawn_from s backfills window c" "?P (fc_backfillIndex c)"
    unfolding enumerateFrontierCandidates_set [OF range] by (simp_all add: frontier_index_def)
  have "recorded_ok s backfills ?first" using record_all_ok [OF idx frontier_start_ok] by blast
  from record_indexes_ok [OF this, where window = window and js = "[0..<length backfills]"] c
  show "fc_matchedPlayers c = sum_list (index_slots s backfills (fc_backfillIndex c))"
    unfolding enumerateFrontierCandidates_set [OF range] recorded_ok_def by blast
qed

lemma exact_placements_bounded:
  assumes "leaf \<in> set (exact_placements window slots)" "slots_in_range slots"
  shows "set (concat leaf) \<subseteq> {..<length window}"
proof -
  from exact_leaves_sound [OF path_root [OF assms(2)], of leaf window] assms(1)
  obtain index remaining where "path_ok window slots index (drop index window) 0 remaining leaf"
    unfolding exact_placements_def by blast
  then have "\<forall>j\<in>set (concat leaf). j < index" "index \<le> length window" unfolding path_ok_def by blast+
  then show ?thesis by (meson lessThan_iff order_less_le_trans subsetI)
qed

lemma materialize_indexes:
  assumes "distinct window" "set (concat leaf) \<subseteq> {..<length window}"
  shows "set (concat (map (indexes_of window) (materializePlacement window leaf))) = set (concat leaf)"
proof -
  have image: "set (concat (materializePlacement window leaf)) = (!) window ` set (concat leaf)"
    by (auto simp: materializePlacement_def)
  have inj: "inj_on ((!) window) {..<length window}" using assms(1) by (simp add: inj_on_nth)
  have "set (concat (map (indexes_of window) pl)) = {j. j < length window \<and> window ! j \<in> set (concat pl)}" for pl
    by (auto simp: indexes_of_def)
  then have "set (concat (map (indexes_of window) (materializePlacement window leaf))) =
      {j. j < length window \<and> window ! j \<in> (!) window ` set (concat leaf)}"
    by (simp only: image)
  also have "\<dots> = {j. j < length window \<and> j \<in> set (concat leaf)}"
    using inj_on_image_mem_iff [OF inj _ assms(2)] by blast
  also have "\<dots> = set (concat leaf)" using assms(2) by blast
  finally show ?thesis .
qed

end
