(* ===== verification/Frontier_Batch.thy ===== *)
theory Frontier_Batch
  imports Frontier_Candidates
begin

text \<open>
  What \<open>plannerBatchQuality\<close> accepts: a batch whose proposals are exact admissible placements of fresh
  tickets, with no ticket and no backfill used twice. The lemmas are equivalences, so they serve both
  to read off the placements of an accepted batch and to show that a planned batch is accepted.
\<close>

section \<open>Lookup tables\<close>

lemma map_of_keyed:
  "distinct (map key xs) \<Longrightarrow>
   map_of (foldl (\<lambda>m x. AList.update (key x) x m) [] xs) k = Some x \<longleftrightarrow> x \<in> set xs \<and> key x = k"
  by (induction xs rule: rev_induct) (auto, metis image_eqI)

lemma map_of_positions:
  assumes "distinct (map key xs)"
  shows "map_of (foldl (\<lambda>m (index, x). AList.update (key x) index m) [] (enumerate 0 xs)) k = Some j \<longleftrightarrow>
    j < length xs \<and> key (xs ! j) = k"
proof -
  have "foldl (\<lambda>m (index, x). AList.update (key x) index m) [] (enumerate 0 xs) =
      foldl (\<lambda>m j. AList.update (key (xs ! j)) j m) [] [0..<length xs]"
    by (rule foldl_enumerate) simp
  moreover have "n \<le> length xs \<Longrightarrow> map_of (foldl (\<lambda>m j. AList.update (key (xs ! j)) j m) [] [0..<n]) k = Some j \<longleftrightarrow>
      j < n \<and> key (xs ! j) = k" for n
  proof (induction n)
    case (Suc n)
    then have n: "n < length xs" "n < length (map key xs)" by simp_all
    have "key (xs ! j) \<noteq> key (xs ! n)" if "j < n" for j
      using nth_eq_iff_index_eq [OF assms, of j n] that n by simp
    with Suc show ?case by (auto simp: less_Suc_eq)
  qed simp
  ultimately show ?thesis by simp
qed

section \<open>Teams\<close>

abbreviation ids_of :: "MatchTicket list \<Rightarrow> TicketID list" where
  "ids_of ts \<equiv> map mt_ID ts"

text \<open>The tickets a loop adds: known to the table, new to the batch, each once.\<close>

definition fresh_tickets :: "(TicketID, MatchTicket) go_map \<Rightarrow> TicketID list \<Rightarrow> MatchTicket list \<Rightarrow> bool" where
  "fresh_tickets table used ts \<longleftrightarrow> (\<forall>t\<in>set ts. map_of table (mt_ID t) = Some t) \<and>
     distinct (ids_of ts) \<and> set (ids_of ts) \<inter> set used = {}"

lemma fresh_tickets_append:
  "fresh_tickets table used (ts @ us) \<longleftrightarrow>
     fresh_tickets table used ts \<and> fresh_tickets table (rev (ids_of ts) @ used) us"
  by (auto simp: fresh_tickets_def)

lemma fresh_tickets_Cons:
  "fresh_tickets table used (t # ts) \<longleftrightarrow> map_of table (mt_ID t) = Some t \<and> mt_ID t \<notin> set used \<and>
     fresh_tickets table (mt_ID t # used) ts"
  using fresh_tickets_append [of table used "[t]" ts] by (simp add: fresh_tickets_def)

definition keyed_table :: "(TicketID, MatchTicket) go_map \<Rightarrow> bool" where
  "keyed_table table \<longleftrightarrow> (\<forall>k t. map_of table k = Some t \<longrightarrow> mt_ID t = k)"

lemma TicketReference_eq: "TicketReference t = r \<longleftrightarrow> mt_ID t = ref_ID r \<and> mt_Revision t = ref_Revision r"
  by (cases r) (auto simp: TicketReference_def)

lemma quality_refs_Inr:
  assumes keyed: "keyed_table table"
  shows "quality_refs table refs (used, placedTeam, tp, mp) = Inr acc \<longleftrightarrow>
    (\<exists>ts. refs = map TicketReference ts \<and> fresh_tickets table used ts \<and>
       acc = (rev (ids_of ts) @ used, placedTeam @ ts, tp + players_in ts, mp + players_in ts))"
proof (induction refs arbitrary: used placedTeam tp mp)
  case Nil
  then show ?case by (auto simp: fresh_tickets_def)
next
  case (Cons r refs)
  show ?case (is "?l \<longleftrightarrow> ?r")
  proof
    assume ?l
    then obtain t where t: "map_of table (ref_ID r) = Some t" "mt_Revision t = ref_Revision r" "ref_ID r \<notin> set used"
      and rest: "quality_refs table refs (ref_ID r # used, placedTeam @ [t], tp + party_size t, mp + party_size t) = Inr acc"
      by (auto split: option.splits if_splits)
    from rest [unfolded Cons.IH] obtain ts where ts: "refs = map TicketReference ts" "fresh_tickets table (ref_ID r # used) ts"
      "acc = (rev (ids_of ts) @ ref_ID r # used, (placedTeam @ [t]) @ ts, tp + party_size t + players_in ts, mp + party_size t + players_in ts)"
      by blast
    have id: "mt_ID t = ref_ID r" using keyed t(1) by (simp add: keyed_table_def)
    with t(2) have "TicketReference t = r" by (simp add: TicketReference_eq)
    with t ts id show ?r
      by (intro exI [of _ "t # ts"]) (auto simp: fresh_tickets_Cons)
  next
    assume ?r
    then obtain t ts where "r # refs = map TicketReference (t # ts)" and fresh: "fresh_tickets table used (t # ts)"
      and acc: "acc = (rev (ids_of (t # ts)) @ used, placedTeam @ t # ts, tp + players_in (t # ts), mp + players_in (t # ts))"
      by (auto simp: Cons_eq_map_conv)
    then have r: "r = TicketReference t" "refs = map TicketReference ts" by simp_all
    have "quality_refs table refs (mt_ID t # used, placedTeam @ [t], tp + party_size t, mp + party_size t) = Inr acc"
      unfolding Cons.IH using fresh acc r(2) by (intro exI [of _ ts]) (simp add: fresh_tickets_Cons add.assoc)
    with fresh r(1) show ?l by (simp add: fresh_tickets_Cons)
  qed
qed

definition expected_players :: "MatchmakingPolicy \<Rightarrow> BackfillTicket option \<Rightarrow> nat \<Rightarrow> int" where
  "expected_players policy target team =
     (case target of None \<Rightarrow> pol_TeamSize policy | Some b \<Rightarrow> bt_OpenSlotsByTeam b ! team)"

lemma quality_teams_Inr:
  assumes keyed: "keyed_table table"
  shows "quality_teams table policy target i teams (used, pl, mp) = Inr acc \<longleftrightarrow>
    (\<exists>pl'. map ta_Tickets teams = map (map TicketReference) pl' \<and> fresh_tickets table used (concat pl') \<and>
       map players_in pl' = map (expected_players policy target) [i..<i + length teams] \<and>
       acc = (rev (ids_of (concat pl')) @ used, pl @ pl', mp + players_in (concat pl')))"
proof (induction teams arbitrary: i used pl mp)
  case Nil
  then show ?case by (auto simp: fresh_tickets_def)
next
  case (Cons team teams)
  have upt: "[i..<i + length (team # teams)] = i # [Suc i..<Suc i + length teams]"
    by (simp add: upt_conv_Cons del: upt_Suc)
  have step: "quality_teams table policy target i (team # teams) (used, pl, mp) = Inr acc \<longleftrightarrow>
    (\<exists>ts. ta_Tickets team = map TicketReference ts \<and> fresh_tickets table used ts \<and> players_in ts = expected_players policy target i \<and>
       quality_teams table policy target (Suc i) teams (rev (ids_of ts) @ used, pl @ [ts], mp + players_in ts) = Inr acc)"
    (is "?l \<longleftrightarrow> ?r")
  proof
    assume ?l
    then obtain used' placedTeam tp mp' where q: "quality_refs table (ta_Tickets team) (used, [], 0, mp) = Inr (used', placedTeam, tp, mp')"
      and tp: "tp = expected_players policy target i"
      and rest: "quality_teams table policy target (Suc i) teams (used', pl @ [placedTeam], mp') = Inr acc"
      by (auto simp: expected_players_def split: sum.splits if_splits prod.splits)
    from q [unfolded quality_refs_Inr [OF keyed]] tp rest show ?r by auto
  next
    assume ?r
    then obtain ts where ts: "ta_Tickets team = map TicketReference ts" "fresh_tickets table used ts"
        "players_in ts = expected_players policy target i"
        "quality_teams table policy target (Suc i) teams (rev (ids_of ts) @ used, pl @ [ts], mp + players_in ts) = Inr acc" by blast
    have "quality_refs table (ta_Tickets team) (used, [], 0, mp) = Inr (rev (ids_of ts) @ used, ts, players_in ts, mp + players_in ts)"
      unfolding quality_refs_Inr [OF keyed] using ts(1,2) by (intro exI [of _ ts]) simp
    with ts(3,4) show ?l by (simp add: expected_players_def)
  qed
  show ?case (is "_ = ?rhs")
  proof
    assume "quality_teams table policy target i (team # teams) (used, pl, mp) = Inr acc"
    then obtain ts where ts: "ta_Tickets team = map TicketReference ts" "fresh_tickets table used ts"
        "players_in ts = expected_players policy target i"
        "quality_teams table policy target (Suc i) teams (rev (ids_of ts) @ used, pl @ [ts], mp + players_in ts) = Inr acc"
      unfolding step by blast
    from ts(4) [unfolded Cons.IH] obtain pl' where pl': "map ta_Tickets teams = map (map TicketReference) pl'"
      "fresh_tickets table (rev (ids_of ts) @ used) (concat pl')"
      "map players_in pl' = map (expected_players policy target) [Suc i..<Suc i + length teams]"
      "acc = (rev (ids_of (concat pl')) @ rev (ids_of ts) @ used, (pl @ [ts]) @ pl', mp + players_in ts + players_in (concat pl'))"
      by blast
    show ?rhs unfolding upt
      by (rule exI [of _ "ts # pl'"]) (use ts pl' in \<open>simp add: fresh_tickets_append\<close>)
  next
    assume ?rhs
    then obtain ts pl' where pl': "map ta_Tickets (team # teams) = map (map TicketReference) (ts # pl')"
      "fresh_tickets table used (concat (ts # pl'))"
      "map players_in (ts # pl') = map (expected_players policy target) [i..<i + length (team # teams)]"
      "acc = (rev (ids_of (concat (ts # pl'))) @ used, pl @ ts # pl', mp + players_in (concat (ts # pl')))"
      by (auto simp: Cons_eq_map_conv simp del: upt_Suc)
    have "quality_teams table policy target (Suc i) teams (rev (ids_of ts) @ used, pl @ [ts], mp + players_in ts) = Inr acc"
      unfolding Cons.IH using pl' unfolding upt by (intro exI [of _ pl']) (simp add: fresh_tickets_append add.assoc)
    with pl' show "quality_teams table policy target i (team # teams) (used, pl, mp) = Inr acc"
      unfolding step upt by (intro exI [of _ ts]) (simp add: fresh_tickets_append)
  qed
qed


section \<open>The tables of a snapshot\<close>

abbreviation frontier_tickets :: "MatchmakingSnapshot \<Rightarrow> MatchTicket list" where
  "frontier_tickets s \<equiv> canonicalMatchTickets (snap_MatchTickets s)"

abbreviation frontier_backfills :: "MatchmakingSnapshot \<Rightarrow> BackfillTicket list" where
  "frontier_backfills s \<equiv> canonicalBackfillTickets (snap_BackfillTickets s)"

lemma canonical_sel [simp]:
  "mset (canonicalMatchTickets ts) = mset ts" "mset (canonicalBackfillTickets bs) = mset bs"
  "length (canonicalMatchTickets ts) = length ts" "length (canonicalBackfillTickets bs) = length bs"
  "set (canonicalMatchTickets ts) = set ts" "set (canonicalBackfillTickets bs) = set bs"
  by (simp_all add: canonicalMatchTickets_def canonicalBackfillTickets_def map_idI)

lemma canonical_distinct [simp]:
  "distinct (map mt_ID (canonicalMatchTickets ts)) = distinct (map mt_ID ts)"
  "distinct (map bt_ID (canonicalBackfillTickets bs)) = distinct (map bt_ID bs)"
  by (simp_all add: canonicalMatchTickets_def canonicalBackfillTickets_def map_idI)

lemma valid_ids:
  assumes "ValidateSnapshot s = None"
  shows "distinct (map mt_ID (snap_MatchTickets s))" "distinct (map bt_ID (snap_BackfillTickets s))"
  using assms by (simp_all add: ValidateSnapshot_None)

lemma qe_tickets_Some:
  assumes "ValidateSnapshot s = None"
  shows "map_of (qe_tickets (quality_maps s fp)) k = Some t \<longleftrightarrow> t \<in> set (snap_MatchTickets s) \<and> mt_ID t = k"
  using map_of_keyed [of mt_ID "frontier_tickets s"] valid_ids [OF assms] by (simp add: quality_maps_def Let_def)

lemma qe_tickets_keyed: "ValidateSnapshot s = None \<Longrightarrow> keyed_table (qe_tickets (quality_maps s fp))"
  by (simp add: keyed_table_def qe_tickets_Some)

lemma qe_backfills_Some:
  assumes "ValidateSnapshot s = None"
  shows "map_of (qe_backfills (quality_maps s fp)) k = Some b \<longleftrightarrow> b \<in> set (snap_BackfillTickets s) \<and> bt_ID b = k"
  using map_of_keyed [of bt_ID "snap_BackfillTickets s"] valid_ids [OF assms] by (simp add: quality_maps_def Let_def)

lemma qe_indexes_Some:
  assumes "ValidateSnapshot s = None"
  shows "map_of (qe_ticketIndexes (quality_maps s fp)) k = Some j \<longleftrightarrow>
    j < length (snap_MatchTickets s) \<and> mt_ID (frontier_tickets s ! j) = k"
  using map_of_positions [of mt_ID "frontier_tickets s"] valid_ids [OF assms] by (simp add: quality_maps_def Let_def)

lemma quality_maps_sel [simp]:
  "qe_snapshot (quality_maps s fp) = s" "qe_policyFingerprint (quality_maps s fp) = fp"
  by (simp_all add: quality_maps_def Let_def)

text \<open>The tickets a proposal adds, seen from the snapshot.\<close>

lemma fresh_tickets_snapshot:
  assumes "ValidateSnapshot s = None"
  shows "fresh_tickets (qe_tickets (quality_maps s fp)) used ts \<longleftrightarrow>
    mset ts \<subseteq># mset (snap_MatchTickets s) \<and> set (ids_of ts) \<inter> set used = {}"
proof -
  have d: "distinct (snap_MatchTickets s)" using valid_ids [OF assms] by (simp add: distinct_map)
  have "mset ts \<subseteq># mset (snap_MatchTickets s) \<longleftrightarrow> set ts \<subseteq> set (snap_MatchTickets s) \<and> distinct (ids_of ts)"
  proof
    assume sub: "mset ts \<subseteq># mset (snap_MatchTickets s)"
    then show "set ts \<subseteq> set (snap_MatchTickets s) \<and> distinct (ids_of ts)"
      using set_mset_mono [OF sub] distinct_submset [OF sub valid_ids(1) [OF assms]] by simp
  next
    assume *: "set ts \<subseteq> set (snap_MatchTickets s) \<and> distinct (ids_of ts)"
    then have "distinct ts" by (simp add: distinct_map)
    with * d subset_imp_msubset_mset_set [of "set ts" "set (snap_MatchTickets s)"]
    show "mset ts \<subseteq># mset (snap_MatchTickets s)" by (simp add: mset_set_set)
  qed
  then show ?thesis by (auto simp: fresh_tickets_def qe_tickets_Some [OF assms])
qed

lemma indexes_of_set: "set (concat (map (indexes_of window) pl)) = {j. j < length window \<and> window ! j \<in> set (concat pl)}"
  by (auto simp: indexes_of_def)

lemma proposal_mask:
  assumes v: "ValidateSnapshot s = None" and sub: "set (concat pl) \<subseteq> set (snap_MatchTickets s)"
  shows "foldl (\<lambda>w r. w OR push_bit (map_get 0 (qe_ticketIndexes (quality_maps s fp)) (ref_ID r)) 1) 0
      (map TicketReference (concat pl)) = mask_of (concat (map (indexes_of (frontier_tickets s)) pl))"
proof -
  let ?w = "frontier_tickets s" and ?get = "\<lambda>t. map_get 0 (qe_ticketIndexes (quality_maps s fp)) (mt_ID t)"
  have ids: "distinct (map mt_ID ?w)" using valid_ids(1) [OF v] by simp
  have get: "?get (?w ! j) = j" if "j < length ?w" for j
    using qe_indexes_Some [OF v, of fp "mt_ID (?w ! j)" j] that by (simp add: map_get_def)
  have "set (map ?get (concat pl)) = {j. j < length ?w \<and> ?w ! j \<in> set (concat pl)}"
  proof (intro set_eqI iffI)
    fix j assume "j \<in> set (map ?get (concat pl))"
    then obtain t where t: "t \<in> set (concat pl)" "j = ?get t" by auto
    with sub have "t \<in> set ?w" by auto
    then obtain i where "i < length ?w" "t = ?w ! i" by (metis in_set_conv_nth)
    with t get show "j \<in> {j. j < length ?w \<and> ?w ! j \<in> set (concat pl)}" by simp
  next
    fix j assume "j \<in> {j. j < length ?w \<and> ?w ! j \<in> set (concat pl)}"
    then have j: "j < length ?w" "?w ! j \<in> set (concat pl)" by simp_all
    from j(2) have "?get (?w ! j) \<in> set (map ?get (concat pl))" unfolding set_map by (rule imageI)
    then show "j \<in> set (map ?get (concat pl))" by (simp only: get [OF j(1)])
  qed
  then have "mask_of (map ?get (concat pl)) = mask_of (concat (map (indexes_of ?w) pl))"
    unfolding indexes_of_set [symmetric] by (rule mask_of_cong)
  then show ?thesis unfolding mask_of_def foldl_map ref_TicketReference .
qed

section \<open>Proposals\<close>

text \<open>The index of what a proposal fills, as the candidates number it.\<close>

definition target_index :: "MatchmakingSnapshot \<Rightarrow> MatchProposal \<Rightarrow> int \<Rightarrow> bool" where
  "target_index s p index \<longleftrightarrow>
     prop_Kind p = ProposalNewMatch \<and> index = - 1 \<or>
     prop_Kind p = ProposalBackfill \<and> 0 \<le> index \<and> nat index < length (snap_BackfillTickets s) \<and>
       prop_Backfill p = Some (BackfillReference (frontier_backfills s ! nat index))"

definition accepted_proposal :: "MatchmakingSnapshot \<Rightarrow> PolicyFingerprint \<Rightarrow> MatchProposal \<Rightarrow> int \<Rightarrow> placement \<Rightarrow> bool" where
  "accepted_proposal s fp p index pl \<longleftrightarrow>
     ValidateProposal p = None \<and> prop_PolicyVersion p = pol_Version (snap_Policy s) \<and> prop_PolicyFingerprint p = fp \<and>
     int (length (prop_Teams p)) = pol_TeamCount (snap_Policy s) \<and> target_index s p index \<and>
     map ta_Tickets (prop_Teams p) = map (map TicketReference) pl \<and>
     exact_placement (frontier_tickets s) (index_slots s (frontier_backfills s) index) pl \<and>
     eval_Admissible (index_evaluation s (frontier_backfills s) index pl)"

definition placed_candidate :: "MatchmakingSnapshot \<Rightarrow> int \<Rightarrow> placement \<Rightarrow> frontierCandidate" where
  "placed_candidate s index pl =
     \<lparr>fc_ticketMask = mask_of (concat (map (indexes_of (frontier_tickets s)) pl)), fc_backfillIndex = index,
      fc_matchedPlayers = sum_list (index_slots s (frontier_backfills s) index),
      fc_evidence = eval_Evidence (index_evaluation s (frontier_backfills s) index pl), fc_key = ''''\<rparr>"

definition index_target :: "MatchmakingSnapshot \<Rightarrow> int \<Rightarrow> BackfillTicket option" where
  "index_target s index = (if 0 \<le> index then Some (frontier_backfills s ! nat index) else None)"

definition index_backfills :: "MatchmakingSnapshot \<Rightarrow> int \<Rightarrow> TicketID list" where
  "index_backfills s index = (if 0 \<le> index then [bt_ID (frontier_backfills s ! nat index)] else [])"

lemma BackfillReference_eq:
  "BackfillReference b = g \<longleftrightarrow> bt_ID b = ref_ID (tgt_Ticket g) \<and> bt_Revision b = ref_Revision (tgt_Ticket g) \<and>
     bt_SessionID b = tgt_SessionID g \<and> bt_RosterVersion b = tgt_RosterVersion g"
  by (cases g; cases "tgt_Ticket g") (auto simp: BackfillReference_def)

lemma quality_target_Inr:
  assumes v: "ValidateSnapshot s = None" and p: "ValidateProposal p = None"
  shows "quality_target (qe_backfills (quality_maps s fp)) p ub = Inr (target, ub') \<longleftrightarrow>
    (\<exists>index. target_index s p index \<and> set (index_backfills s index) \<inter> set ub = {} \<and>
       target = index_target s index \<and> ub' = index_backfills s index @ ub)"
proof (cases "prop_Kind p = ProposalBackfill")
  case False
  with p have "prop_Kind p = ProposalNewMatch" by (auto simp: ValidateProposal_None)
  then show ?thesis by (auto simp: quality_target_def target_index_def index_target_def index_backfills_def)
next
  case True
  with p obtain g where g: "prop_Backfill p = Some g" by (auto simp: ValidateProposal_None)
  let ?bs = "frontier_backfills s"
  have "quality_target (qe_backfills (quality_maps s fp)) p ub = Inr (target, ub') \<longleftrightarrow>
    (\<exists>b. b \<in> set ?bs \<and> BackfillReference b = g \<and> bt_ID b \<notin> set ub \<and> target = Some b \<and> ub' = bt_ID b # ub)"
  proof (cases "map_of (qe_backfills (quality_maps s fp)) (ref_ID (tgt_Ticket g))")
    case None
    then have "\<not> (\<exists>b\<in>set ?bs. bt_ID b = ref_ID (tgt_Ticket g))"
      using qe_backfills_Some [OF v, of fp "ref_ID (tgt_Ticket g)"] by auto
    with None True g show ?thesis by (auto simp: quality_target_def BackfillReference_eq)
  next
    case (Some b)
    then have b: "b \<in> set ?bs" "bt_ID b = ref_ID (tgt_Ticket g)" using qe_backfills_Some [OF v] by auto
    have "b' = b" if "b' \<in> set ?bs" "bt_ID b' = ref_ID (tgt_Ticket g)" for b'
      using qe_backfills_Some [OF v, of fp "ref_ID (tgt_Ticket g)" b'] that Some by simp
    then have uniq: "b' \<in> set ?bs \<and> BackfillReference b' = g \<longleftrightarrow> b' = b \<and> BackfillReference b = g" for b'
      using b unfolding BackfillReference_eq by blast
    have "quality_target (qe_backfills (quality_maps s fp)) p ub = Inr (target, ub') \<longleftrightarrow>
        BackfillReference b = g \<and> bt_ID b \<notin> set ub \<and> target = Some b \<and> ub' = bt_ID b # ub"
      unfolding BackfillReference_eq using b(2) Some True g by (auto simp: quality_target_def)
    then show ?thesis using uniq by metis
  qed
  also have "\<dots> \<longleftrightarrow> (\<exists>j<length ?bs. BackfillReference (?bs ! j) = g \<and> bt_ID (?bs ! j) \<notin> set ub \<and>
      target = Some (?bs ! j) \<and> ub' = bt_ID (?bs ! j) # ub)"
    unfolding in_set_conv_nth by blast
  also have "\<dots> \<longleftrightarrow> (\<exists>index. target_index s p index \<and> set (index_backfills s index) \<inter> set ub = {} \<and>
       target = index_target s index \<and> ub' = index_backfills s index @ ub)"
    using True g unfolding target_index_def index_target_def index_backfills_def
    by (auto intro: exI [of _ "int _"])
  finally show ?thesis .
qed


lemma expected_slots:
  assumes v: "ValidateSnapshot s = None" and t: "target_index s p index" and len: "int n = pol_TeamCount (snap_Policy s)"
  shows "map (expected_players (snap_Policy s) (index_target s index)) [0..<0 + n] = index_slots s (frontier_backfills s) index"
proof (cases "0 \<le> index")
  case True
  with t have "frontier_backfills s ! nat index \<in> set (frontier_backfills s)"
    by (intro nth_mem) (auto simp: target_index_def)
  then have "backfill_fits (snap_Policy s) (frontier_backfills s ! nat index)" using v by (simp add: ValidateSnapshot_None)
  then have "length (bt_OpenSlotsByTeam (frontier_backfills s ! nat index)) = n" using len by (simp add: backfill_fits_def)
  with True show ?thesis
    by (intro nth_equalityI) (simp_all add: expected_players_def index_target_def index_slots_def)
next
  case False
  have "n = nat (pol_TeamCount (snap_Policy s))" using len by simp
  with False show ?thesis
    by (intro nth_equalityI) (simp_all add: expected_players_def index_target_def index_slots_def matchSlots_def)
qed

lemma index_evaluation_target:
  assumes "target_index s p index"
  shows "(case index_target s index of
      None \<Rightarrow> Evaluate (snap_Now s) pl (snap_Policy s) (prop_Kind p)
    | Some b \<Rightarrow> EvaluateBackfill (snap_Now s) pl (snap_Policy s) (bt_ExistingTeams b) (bt_EnqueuedAt b)) =
    index_evaluation s (frontier_backfills s) index pl"
  using assms by (auto simp: index_target_def index_evaluation_def target_index_def)

lemma quality_proposal_Inr:
  assumes v: "ValidateSnapshot s = None"
  shows "quality_proposal (quality_maps s fp) p (ut, ub, q) = Inr acc \<longleftrightarrow>
    (\<exists>index pl. accepted_proposal s fp p index pl \<and> set (ids_of (concat pl)) \<inter> set ut = {} \<and>
       set (index_backfills s index) \<inter> set ub = {} \<and>
       acc = (rev (ids_of (concat pl)) @ ut, index_backfills s index @ ub, addCandidateQuality q (placed_candidate s index pl)))"
    (is "?l \<longleftrightarrow> (\<exists>index pl. ?r index pl)")
proof
  let ?env = "quality_maps s fp" and ?bs = "frontier_backfills s"
  assume ?l
  then obtain target ub' ut' pl mp where p: "ValidateProposal p = None"
    and same: "prop_PolicyVersion p = pol_Version (snap_Policy s)" "prop_PolicyFingerprint p = fp"
      "int (length (prop_Teams p)) = pol_TeamCount (snap_Policy s)"
    and target: "quality_target (qe_backfills ?env) p ub = Inr (target, ub')"
    and teams: "quality_teams (qe_tickets ?env) (snap_Policy s) target 0 (prop_Teams p) (ut, [], 0) = Inr (ut', pl, mp)"
    and rest: "(let evaluation = (case target of
          None \<Rightarrow> Evaluate (snap_Now s) pl (snap_Policy s) (prop_Kind p)
        | Some b \<Rightarrow> EvaluateBackfill (snap_Now s) pl (snap_Policy s) (bt_ExistingTeams b) (bt_EnqueuedAt b))
      in if \<not> eval_Admissible evaluation then Inl FailureInvalidInput
         else Inr (ut', ub', addCandidateQuality q
           \<lparr>fc_ticketMask = foldl (\<lambda>w r. w OR push_bit (map_get 0 (qe_ticketIndexes ?env) (ref_ID r)) 1) 0 (prop_Tickets p),
            fc_backfillIndex = (if target = None then - 1 else 0), fc_matchedPlayers = mp,
            fc_evidence = eval_Evidence evaluation, fc_key = ''''\<rparr>)) = Inr acc"
    unfolding quality_proposal_def Let_def split_conv quality_maps_sel
    by (auto split: option.splits sum.splits prod.splits if_splits)
  from target [unfolded quality_target_Inr [OF v p]] obtain index where index: "target_index s p index"
    "set (index_backfills s index) \<inter> set ub = {}" "target = index_target s index" "ub' = index_backfills s index @ ub" by blast
  from teams [unfolded quality_teams_Inr [OF qe_tickets_keyed [OF v]]]
  have pl: "map ta_Tickets (prop_Teams p) = map (map TicketReference) pl"
    and fresh: "fresh_tickets (qe_tickets ?env) ut (concat pl)"
    and slots: "map players_in pl = index_slots s ?bs index" and ut': "ut' = rev (ids_of (concat pl)) @ ut" and mp: "mp = players_in (concat pl)"
    unfolding index(3) expected_slots [OF v index(1) same(3)] by auto
  have sub: "mset (concat pl) \<subseteq># mset (snap_MatchTickets s)" and new: "set (ids_of (concat pl)) \<inter> set ut = {}"
    using fresh unfolding fresh_tickets_snapshot [OF v] by blast+
  have tickets: "prop_Tickets p = map TicketReference (concat pl)"
    using p pl by (simp add: ValidateProposal_None map_concat)
  have mask: "foldl (\<lambda>w r. w OR push_bit (map_get 0 (qe_ticketIndexes ?env) (ref_ID r)) 1) 0 (prop_Tickets p) =
      mask_of (concat (map (indexes_of (frontier_tickets s)) pl))"
    unfolding tickets by (rule proposal_mask [OF v]) (use set_mset_mono [OF sub] in simp)
  let ?e = "index_evaluation s ?bs index pl"
  from rest have adm: "eval_Admissible ?e" and acc: "acc = (ut', ub', addCandidateQuality q
      \<lparr>fc_ticketMask = mask_of (concat (map (indexes_of (frontier_tickets s)) pl)),
       fc_backfillIndex = (if target = None then - 1 else 0), fc_matchedPlayers = mp, fc_evidence = eval_Evidence ?e, fc_key = ''''\<rparr>)"
    unfolding index(3) index_evaluation_target [OF index(1)] mask Let_def by (auto split: if_splits)
  have exact: "exact_placement (frontier_tickets s) (index_slots s ?bs index) pl"
    using sub slots by (simp add: exact_placement_def)
  have "mp = sum_list (index_slots s ?bs index)" unfolding mp players_in_concat slots ..
  then have "addCandidateQuality q \<lparr>fc_ticketMask = mask_of (concat (map (indexes_of (frontier_tickets s)) pl)),
       fc_backfillIndex = (if target = None then - 1 else 0), fc_matchedPlayers = mp, fc_evidence = eval_Evidence ?e, fc_key = ''''\<rparr> =
      addCandidateQuality q (placed_candidate s index pl)"
    using index(1) by (intro same_quality_add) (auto simp: same_quality_def placed_candidate_def index(3) index_target_def target_index_def)
  with p same index pl exact adm new acc ut' show "\<exists>index pl. ?r index pl"
    unfolding accepted_proposal_def by metis
next
  let ?env = "quality_maps s fp" and ?bs = "frontier_backfills s"
  assume "\<exists>index pl. ?r index pl"
  then obtain index pl where a: "accepted_proposal s fp p index pl" and new: "set (ids_of (concat pl)) \<inter> set ut = {}"
    and ub: "set (index_backfills s index) \<inter> set ub = {}"
    and acc: "acc = (rev (ids_of (concat pl)) @ ut, index_backfills s index @ ub, addCandidateQuality q (placed_candidate s index pl))"
    by blast
  from a have p: "ValidateProposal p = None" and same: "prop_PolicyVersion p = pol_Version (snap_Policy s)" "prop_PolicyFingerprint p = fp"
      "int (length (prop_Teams p)) = pol_TeamCount (snap_Policy s)" and index: "target_index s p index"
    and pl: "map ta_Tickets (prop_Teams p) = map (map TicketReference) pl"
    and exact: "exact_placement (frontier_tickets s) (index_slots s ?bs index) pl"
    and adm: "eval_Admissible (index_evaluation s ?bs index pl)" unfolding accepted_proposal_def by blast+
  from exact have slots: "map players_in pl = index_slots s ?bs index" and sub: "mset (concat pl) \<subseteq># mset (snap_MatchTickets s)"
    by (simp_all add: exact_placement_def)
  have target: "quality_target (qe_backfills ?env) p ub = Inr (index_target s index, index_backfills s index @ ub)"
    unfolding quality_target_Inr [OF v p] using index ub by blast
  have teams: "quality_teams (qe_tickets ?env) (snap_Policy s) (index_target s index) 0 (prop_Teams p) (ut, [], 0) =
      Inr (rev (ids_of (concat pl)) @ ut, pl, players_in (concat pl))"
    unfolding quality_teams_Inr [OF qe_tickets_keyed [OF v]] expected_slots [OF v index same(3)] fresh_tickets_snapshot [OF v]
    using pl sub new slots by (intro exI [of _ pl]) simp
  have tickets: "prop_Tickets p = map TicketReference (concat pl)"
    using p pl by (simp add: ValidateProposal_None map_concat)
  have mask: "foldl (\<lambda>w r. w OR push_bit (map_get 0 (qe_ticketIndexes ?env) (ref_ID r)) 1) 0 (prop_Tickets p) =
      mask_of (concat (map (indexes_of (frontier_tickets s)) pl))"
    unfolding tickets by (rule proposal_mask [OF v]) (use set_mset_mono [OF sub] in simp)
  have "players_in (concat pl) = sum_list (index_slots s ?bs index)" unfolding players_in_concat slots ..
  then have "addCandidateQuality q \<lparr>fc_ticketMask = mask_of (concat (map (indexes_of (frontier_tickets s)) pl)),
       fc_backfillIndex = (if index_target s index = None then - 1 else 0), fc_matchedPlayers = players_in (concat pl),
       fc_evidence = eval_Evidence (index_evaluation s ?bs index pl), fc_key = ''''\<rparr> =
      addCandidateQuality q (placed_candidate s index pl)"
    using index by (intro same_quality_add) (auto simp: same_quality_def placed_candidate_def index_target_def target_index_def)
  then show ?l
    unfolding quality_proposal_def split_conv quality_maps_sel acc
    using p same target teams adm mask index_evaluation_target [OF index, of pl] by (simp add: Let_def)
qed


section \<open>Batches\<close>

type_synonym draw = "int \<times> placement"

abbreviation draw_ids :: "draw \<Rightarrow> TicketID set" where
  "draw_ids d \<equiv> set (ids_of (concat (snd d)))"

abbreviation draw_backfills :: "MatchmakingSnapshot \<Rightarrow> draw \<Rightarrow> TicketID set" where
  "draw_backfills s d \<equiv> set (index_backfills s (fst d))"

definition draws_apart :: "MatchmakingSnapshot \<Rightarrow> draw \<Rightarrow> draw \<Rightarrow> bool" where
  "draws_apart s d e \<longleftrightarrow> draw_ids d \<inter> draw_ids e = {} \<and> draw_backfills s d \<inter> draw_backfills s e = {}"

definition draws_fresh :: "MatchmakingSnapshot \<Rightarrow> TicketID list \<Rightarrow> TicketID list \<Rightarrow> draw list \<Rightarrow> bool" where
  "draws_fresh s ut ub ds \<longleftrightarrow> sorted_wrt (draws_apart s) ds \<and>
     (\<forall>d\<in>set ds. draw_ids d \<inter> set ut = {} \<and> draw_backfills s d \<inter> set ub = {})"

lemma draws_fresh_Cons:
  "draws_fresh s ut ub (d # ds) \<longleftrightarrow> draw_ids d \<inter> set ut = {} \<and> draw_backfills s d \<inter> set ub = {} \<and>
     draws_fresh s (rev (ids_of (concat (snd d))) @ ut) (index_backfills s (fst d) @ ub) ds"
  unfolding draws_fresh_def draws_apart_def sorted_wrt.simps list.set set_append set_rev by blast

abbreviation draws_quality :: "MatchmakingSnapshot \<Rightarrow> BatchQuality \<Rightarrow> draw list \<Rightarrow> BatchQuality" where
  "draws_quality s \<equiv> foldl (\<lambda>q d. addCandidateQuality q (placed_candidate s (fst d) (snd d)))"

lemma quality_proposals_Inr:
  assumes v: "ValidateSnapshot s = None"
  shows "(\<exists>ut' ub'. quality_proposals (quality_maps s fp) ps (ut, ub, q) = Inr (ut', ub', q')) \<longleftrightarrow>
    (\<exists>ds. list_all2 (\<lambda>p d. accepted_proposal s fp p (fst d) (snd d)) ps ds \<and> draws_fresh s ut ub ds \<and> q' = draws_quality s q ds)"
proof (induction ps arbitrary: ut ub q)
  case Nil
  then show ?case by (auto simp: draws_fresh_def)
next
  case (Cons p ps)
  have "(\<exists>ut' ub'. quality_proposals (quality_maps s fp) (p # ps) (ut, ub, q) = Inr (ut', ub', q')) \<longleftrightarrow>
    (\<exists>acc. quality_proposal (quality_maps s fp) p (ut, ub, q) = Inr acc \<and>
       (\<exists>ut' ub'. quality_proposals (quality_maps s fp) ps acc = Inr (ut', ub', q')))"
    by (auto split: sum.splits)
  also have "\<dots> \<longleftrightarrow> (\<exists>d. accepted_proposal s fp p (fst d) (snd d) \<and> draw_ids d \<inter> set ut = {} \<and> draw_backfills s d \<inter> set ub = {} \<and>
      (\<exists>ut' ub'. quality_proposals (quality_maps s fp) ps (rev (ids_of (concat (snd d))) @ ut, index_backfills s (fst d) @ ub,
         addCandidateQuality q (placed_candidate s (fst d) (snd d))) = Inr (ut', ub', q')))"
    unfolding quality_proposal_Inr [OF v]
  proof (intro iffI; elim exE conjE)
    fix acc index pl ut' ub'
    assume "accepted_proposal s fp p index pl" "set (ids_of (concat pl)) \<inter> set ut = {}" "set (index_backfills s index) \<inter> set ub = {}"
      "acc = (rev (ids_of (concat pl)) @ ut, index_backfills s index @ ub, addCandidateQuality q (placed_candidate s index pl))"
      "quality_proposals (quality_maps s fp) ps acc = Inr (ut', ub', q')"
    then show "\<exists>d. accepted_proposal s fp p (fst d) (snd d) \<and> draw_ids d \<inter> set ut = {} \<and> draw_backfills s d \<inter> set ub = {} \<and>
      (\<exists>ut' ub'. quality_proposals (quality_maps s fp) ps (rev (ids_of (concat (snd d))) @ ut, index_backfills s (fst d) @ ub,
         addCandidateQuality q (placed_candidate s (fst d) (snd d))) = Inr (ut', ub', q'))"
      by (intro exI [of _ "(index, pl)"]) simp
  qed blast
  also have "\<dots> \<longleftrightarrow> (\<exists>d ds. accepted_proposal s fp p (fst d) (snd d) \<and> draws_fresh s ut ub (d # ds) \<and>
      list_all2 (\<lambda>p d. accepted_proposal s fp p (fst d) (snd d)) ps ds \<and> q' = draws_quality s q (d # ds))"
    unfolding Cons.IH draws_fresh_Cons by auto
  also have "\<dots> \<longleftrightarrow> (\<exists>ds. list_all2 (\<lambda>p d. accepted_proposal s fp p (fst d) (snd d)) (p # ps) ds \<and> draws_fresh s ut ub ds \<and>
      q' = draws_quality s q ds)"
    unfolding list_all2_Cons1 by blast
  finally show ?case .
qed

lemma plannerBatchQuality_Inr:
  assumes v: "ValidateSnapshot s = None" and fp: "FingerprintPolicy sha256 (snap_Policy s) = Inr fp"
  shows "plannerBatchQuality sha256 s batch = Inr q \<longleftrightarrow>
    batch_SnapshotID batch = snap_ID s \<and> int (length (batch_Proposals batch)) \<le> frontierProposalLimit (snap_Policy s) \<and>
    (\<exists>ds. list_all2 (\<lambda>p d. accepted_proposal s fp p (fst d) (snd d)) (batch_Proposals batch) ds \<and>
       sorted_wrt (draws_apart s) ds \<and> q = finalizeBatchQuality (draws_quality s BatchQuality_zero ds))"
proof -
  have "plannerBatchQuality sha256 s batch = Inr q \<longleftrightarrow>
    batch_SnapshotID batch = snap_ID s \<and> int (length (batch_Proposals batch)) \<le> frontierProposalLimit (snap_Policy s) \<and>
    (\<exists>q'. (\<exists>ut' ub'. quality_proposals (quality_maps s fp) (batch_Proposals batch) ([], [], BatchQuality_zero) = Inr (ut', ub', q')) \<and>
       q = finalizeBatchQuality q')"
    using v fp by (auto simp: plannerBatchQuality_def split: sum.splits)
  then show ?thesis unfolding quality_proposals_Inr [OF v] by (auto simp: draws_fresh_def)
qed

section \<open>Candidates of an accepted batch\<close>

lemma snapshot_indexes_in_range:
  assumes v: "ValidateSnapshot s = None" and cap: "capacity_in_range (snap_Policy s)"
  shows "indexes_in_range s (frontier_backfills s)"
  unfolding indexes_in_range_def
proof (intro allI impI)
  fix index assume i: "frontier_index s (frontier_backfills s) index"
  have p: "ValidatePolicy (snap_Policy s) = None" using v by (simp add: ValidateSnapshot_None)
  show "slots_in_range (index_slots s (frontier_backfills s) index)"
  proof (cases "index < 0")
    case True
    then show ?thesis using matchSlots_in_range [OF p cap] by (simp add: index_slots_def)
  next
    case False
    with i have "frontier_backfills s ! nat index \<in> set (frontier_backfills s)"
      by (intro nth_mem) (auto simp: frontier_index_def)
    then have "ValidateBackfillTicket (frontier_backfills s ! nat index) = None" "backfill_fits (snap_Policy s) (frontier_backfills s ! nat index)"
      using v by (simp_all add: ValidateSnapshot_None)
    from backfill_slots_in_range [OF p cap this] False show ?thesis by (simp add: index_slots_def)
  qed
qed

definition frontier_draw :: "MatchmakingSnapshot \<Rightarrow> draw \<Rightarrow> bool" where
  "frontier_draw s d \<longleftrightarrow> frontier_index s (frontier_backfills s) (fst d) \<and> concat (snd d) \<noteq> [] \<and>
     exact_placement (frontier_tickets s) (index_slots s (frontier_backfills s) (fst d)) (snd d) \<and>
     eval_Admissible (index_evaluation s (frontier_backfills s) (fst d) (snd d))"

lemma accepted_draw:
  assumes "accepted_proposal s fp p (fst d) (snd d)"
  shows "frontier_draw s d"
proof -
  have p: "ValidateProposal p = None" and pl: "map ta_Tickets (prop_Teams p) = map (map TicketReference) (snd d)"
    and t: "target_index s p (fst d)" using assms unfolding accepted_proposal_def by blast+
  have "concat (map ta_Tickets (prop_Teams p)) \<noteq> []" using p by (simp add: ValidateProposal_None)
  then have "concat (snd d) \<noteq> []" unfolding pl by auto
  moreover have "frontier_index s (frontier_backfills s) (fst d)" using t by (auto simp: target_index_def frontier_index_def)
  ultimately show ?thesis using assms unfolding frontier_draw_def accepted_proposal_def by blast
qed

abbreviation frontier_candidates :: "MatchmakingSnapshot \<Rightarrow> frontierCandidate list" where
  "frontier_candidates s \<equiv> fst (enumerateFrontierCandidates s (frontier_tickets s) (frontier_backfills s))"

text \<open>The candidate that stands for a placement.\<close>

definition stands_for :: "MatchmakingSnapshot \<Rightarrow> frontierCandidate \<Rightarrow> draw \<Rightarrow> bool" where
  "stands_for s c d \<longleftrightarrow> fc_backfillIndex c = fst d \<and> same_quality c (placed_candidate s (fst d) (snd d))"

lemma frontier_window:
  assumes "ValidateSnapshot s = None"
  shows "distinct (frontier_tickets s)" "parties_filled (frontier_tickets s)"
  using valid_ids(1) [OF assms] assms
  by (simp_all add: ValidateSnapshot_None ValidateMatchTicket_None canonicalMatchTickets_def map_idI distinct_map)

lemma draw_candidate:
  assumes v: "ValidateSnapshot s = None" and cap: "capacity_in_range (snap_Policy s)" and d: "frontier_draw s d"
  shows "\<exists>i<length (frontier_candidates s). stands_for s (frontier_candidates s ! i) d"
proof -
  have d': "frontier_index s (frontier_backfills s) (fst d)"
    "exact_placement (frontier_tickets s) (index_slots s (frontier_backfills s) (fst d)) (snd d)"
    "eval_Admissible (index_evaluation s (frontier_backfills s) (fst d) (snd d))"
    using d unfolding frontier_draw_def by blast+
  from frontier_candidates_cover [OF snapshot_indexes_in_range [OF v cap] frontier_window [OF v] d', of "''''"]
  obtain c where "c \<in> set (frontier_candidates s)" "stands_for s c d" unfolding stands_for_def placed_candidate_def by blast
  then show ?thesis by (metis in_set_conv_nth)
qed

lemma placed_members:
  assumes n: "length (snap_MatchTickets s) \<le> 16"
  shows "members (fc_ticketMask (placed_candidate s index pl)) =
    {j. j < length (snap_MatchTickets s) \<and> frontier_tickets s ! j \<in> set (concat pl)}"
  unfolding placed_candidate_def frontierCandidate.select_convs members_mask_of indexes_of_set canonical_sel
  using n by auto

lemma placed_nonempty:
  assumes n: "length (snap_MatchTickets s) \<le> 16" and d: "frontier_draw s d"
  shows "members (fc_ticketMask (placed_candidate s (fst d) (snd d))) \<noteq> {}"
proof -
  have "concat (snd d) \<noteq> []" using d by (simp add: frontier_draw_def)
  then have t: "hd (concat (snd d)) \<in> set (concat (snd d))" by (rule hd_in_set)
  have "mset (concat (snd d)) \<subseteq># mset (frontier_tickets s)" using d by (simp add: frontier_draw_def exact_placement_def)
  from set_mset_mono [OF this] t have "hd (concat (snd d)) \<in> set (frontier_tickets s)" unfolding set_mset_mset by blast
  then obtain j where "j < length (snap_MatchTickets s)" "hd (concat (snd d)) = frontier_tickets s ! j"
    by (metis canonical_sel(3) in_set_conv_nth)
  with t have "j \<in> members (fc_ticketMask (placed_candidate s (fst d) (snd d)))" unfolding placed_members [OF n] by simp
  then show ?thesis by blast
qed

lemma backfill_mask_members:
  "members (backfill_mask c) = (if 0 \<le> fc_backfillIndex c \<and> nat (fc_backfillIndex c) < 8 then {nat (fc_backfillIndex c)} else {})"
  by (simp add: backfill_mask_def)

lemma stands_for_apart:
  assumes n: "length (snap_MatchTickets s) \<le> 16" and c: "stands_for s c d" and e: "stands_for s f e"
    and apart: "draws_apart s d e"
  shows "apart c f"
proof -
  have "members (fc_ticketMask c) = members (fc_ticketMask (placed_candidate s (fst d) (snd d)))"
    "members (fc_ticketMask f) = members (fc_ticketMask (placed_candidate s (fst e) (snd e)))"
    using c e by (simp_all add: stands_for_def same_quality_def)
  moreover have "\<not> (t \<in> set (concat (snd d)) \<and> t \<in> set (concat (snd e)))" for t
    using apart unfolding draws_apart_def set_map by blast
  ultimately have "members (fc_ticketMask c) \<inter> members (fc_ticketMask f) = {}"
    unfolding placed_members [OF n] by blast
  moreover have "members (backfill_mask c) \<inter> members (backfill_mask f) = {}"
    using c e apart by (auto simp: backfill_mask_members stands_for_def draws_apart_def index_backfills_def)
  ultimately show ?thesis by (simp add: apart_def)
qed

lemma draws_batch:
  assumes v: "ValidateSnapshot s = None" and cap: "capacity_in_range (snap_Policy s)"
    and n: "length (snap_MatchTickets s) \<le> 16"
    and ds: "\<forall>d\<in>set ds. frontier_draw s d" "sorted_wrt (draws_apart s) ds"
  obtains S where "batch_fits (frontier_candidates s) (push_bit (length (snap_MatchTickets s)) 1 - 1) 0 S"
    "length S = length ds" "quality_of (frontier_candidates s) S = draws_quality s BatchQuality_zero ds"
proof -
  let ?cs = "frontier_candidates s"
  have "\<forall>d\<in>set ds. \<exists>i. i < length ?cs \<and> stands_for s (?cs ! i) d" using draw_candidate [OF v cap] ds(1) by blast
  from bchoice [OF this] obtain f where f: "\<forall>d\<in>set ds. f d < length ?cs \<and> stands_for s (?cs ! f d) d" by blast
  have mask: "members (fc_ticketMask (?cs ! f d)) = members (fc_ticketMask (placed_candidate s (fst d) (snd d)))" if "d \<in> set ds" for d
    using f that by (simp add: stands_for_def same_quality_def)
  have "sorted_wrt (\<lambda>i j. apart (?cs ! i) (?cs ! j)) (map f ds)"
    unfolding sorted_wrt_map using ds(2)
    by (rule sorted_wrt_mono_rel [rotated]) (use f stands_for_apart [OF n] in blast)
  moreover have "fc_ticketMask (?cs ! f d) \<noteq> 0" if "d \<in> set ds" for d
    using mask [OF that] placed_nonempty [OF n, of d] ds(1) that members_empty_iff by metis
  moreover have "members (fc_ticketMask (?cs ! f d)) \<subseteq> members (push_bit (length (snap_MatchTickets s)) 1 - 1 :: 16 word)" if "d \<in> set ds" for d
    unfolding mask [OF that] members_all [OF n] placed_members [OF n] by blast
  ultimately have fits: "batch_fits ?cs (push_bit (length (snap_MatchTickets s)) 1 - 1) 0 (map f ds)"
    unfolding batch_fits_def using f by simp
  have "foldl addCandidateQuality q (map ((!) ?cs) (map f xs)) = draws_quality s q xs" if "set xs \<subseteq> set ds" for q xs
    using that
  proof (induction xs arbitrary: q)
    case (Cons d xs)
    then have "same_quality (?cs ! f d) (placed_candidate s (fst d) (snd d))" using f by (simp add: stands_for_def)
    from same_quality_add [OF this] Cons show ?case by simp
  qed simp
  then have "quality_of ?cs (map f ds) = draws_quality s BatchQuality_zero ds" unfolding quality_of_def by blast
  with fits show thesis by (intro that) simp_all
qed

end
