(* ===== verification/Frontier_Props.thy ===== *)
theory Frontier_Props
  imports Frontier_Batch
begin

text \<open>
  What the exact batch frontier promises. Its search ends for every snapshot, unless the slice for the
  selection cannot be allocated; its points are exactly
  the best batches of disjoint admissible placements, in the Pareto order of the qualities; a batch it
  accepts is on the frontier or below it; and the planner's batches are always accepted.
\<close>

section \<open>The points of the frontier\<close>

lemma returned_cases:
  "(case r of Some (Returned (Inr x)) \<Rightarrow> P x | _ \<Rightarrow> False) \<longleftrightarrow> (\<exists>x. r = Some (Returned (Inr x)) \<and> P x)"
proof (cases r)
  case (Some c)
  then show ?thesis by (cases c) (auto split: sum.split)
qed simp

lemma enumerateBatchFrontier_total:
  assumes "n \<le> 16"
  shows "if n \<noteq> 0 \<and> maxCap < m then enumerateBatchFrontier maxCap cs n m = Some Panicked
    else \<exists>r. enumerateBatchFrontier maxCap cs n m = Some (Returned r)"
proof -
  have "card (members (push_bit n 1 - 1 :: 16 word)) < Suc n" unfolding members_all [OF assms] by simp
  moreover have "quality_of cs [] = BatchQuality_zero" by (simp add: quality_of_def)
  ultimately show ?thesis
    using frontier_search_visits [OF assms, of "push_bit n 1 - 1" "Suc n" cs m 0 "[]"] members_all [OF assms]
    by (simp add: enumerateBatchFrontier_def Let_def)
qed

lemma enumerateBatchFrontier_ok:
  assumes n: "n \<le> 16" and r: "enumerateBatchFrontier maxCap cs n m = Some (Returned r)" and m: "0 \<le> m"
  shows "quality.antichain (bf_Points r)"
    and "batch_fits cs (push_bit n 1 - 1) 0 S \<Longrightarrow> int (length S) \<le> m \<Longrightarrow>
      quality.covers (bf_Points r) (finalizeBatchQuality (quality_of cs S))"
    and "p \<in> set (bf_Points r) \<Longrightarrow> \<exists>S. int (length S) \<le> m \<and> (\<forall>i\<in>set S. i < length cs) \<and>
      sorted_wrt (\<lambda>i j. apart (cs ! i) (cs ! j)) S \<and> p = finalizeBatchQuality (quality_of cs S)"
proof -
  have zero: "quality_of cs [] = BatchQuality_zero" by (simp add: quality_of_def)
  let ?all = "push_bit n 1 - 1 :: 16 word"
  let ?V = "if n = 0 then {[]} else set (visits (Suc n) cs (byTicket cs n) m ?all 0 [])"
  have all: "members ?all = {..<n}" by (rule members_all [OF n])
  have card: "card (members ?all) < Suc n" unfolding all by simp
  have ok: "quality.antichain (bf_Points r) \<and>
      (\<forall>S\<in>?V. quality.covers (bf_Points r) (finalizeBatchQuality (quality_of cs S))) \<and>
      set (bf_Points r) \<subseteq> (\<lambda>S. finalizeBatchQuality (quality_of cs S)) ` ?V"
  proof (cases "n = 0")
    case True
    then show ?thesis using r by (auto simp: enumerateBatchFrontier_def zero quality.antichain_def quality.covers_def quality.equiv_refl)
  next
    case False
    let ?st = "\<lparr>fs_seenBatches = [], fs_batchesEvaluated = 0, fs_frontier = []\<rparr>"
    have "frontier_ok cs {} ?st" by (simp add: frontier_ok_def quality.antichain_def)
    from visit_all_ok [OF this, of "visits (Suc n) cs (byTicket cs n) m ?all 0 []"]
    obtain st where st: "frontier_search (Suc n) cs (byTicket cs n) m ?all 0 BatchQuality_zero [] ?st = Some st" "frontier_ok cs ?V st"
      using frontier_search_visits [OF n card eq_refl [OF all], of cs m 0 "[]" ?st] False unfolding zero
      by (simp del: visits.simps frontier_search.simps)
    have "bf_Points r = sort_cmp compare_qualities (fs_frontier st)"
      using r False unfolding enumerateBatchFrontier_def st(1) Let_def by (auto simp: sortBatchQuality_def split: if_splits)
    with st(2) show ?thesis
      unfolding frontier_ok_def by (simp add: quality.antichain_order quality.covers_order del: visits.simps)
  qed
  then show "quality.antichain (bf_Points r)" by blast
  have start: "chosen_ok cs m ?all 0 []" using m by (simp add: chosen_ok_def)
  show "\<exists>S. int (length S) \<le> m \<and> (\<forall>i\<in>set S. i < length cs) \<and>
      sorted_wrt (\<lambda>i j. apart (cs ! i) (cs ! j)) S \<and> p = finalizeBatchQuality (quality_of cs S)" if "p \<in> set (bf_Points r)"
  proof -
    from ok that obtain S where S: "S \<in> ?V" "p = finalizeBatchQuality (quality_of cs S)" by blast
    have "int (length S) \<le> m \<and> (\<forall>i\<in>set S. i < length cs) \<and> sorted_wrt (\<lambda>i j. apart (cs ! i) (cs ! j)) S"
    proof (cases "n = 0")
      case False
      then show ?thesis using visits_sound [OF n eq_refl [OF all] start] S(1) by (simp del: visits.simps)
    qed (use S(1) m in simp)
    with S(2) show ?thesis by blast
  qed
  show "quality.covers (bf_Points r) (finalizeBatchQuality (quality_of cs S))"
    if fits: "batch_fits cs ?all 0 S" "int (length S) \<le> m"
  proof -
    have "\<exists>T\<in>?V. mset T = mset S"
    proof (cases "n = 0")
      case True
      with fits(1) have "S = []" unfolding batch_fits_def by (cases S) auto
      with True show ?thesis by simp
    next
      case False
      with visits_complete [OF n card _ fits(1), of "[]" m] all fits(2) show ?thesis by (auto simp del: visits.simps)
    qed
    then obtain T where T: "T \<in> ?V" "mset T = mset S" by blast
    then have "quality.covers (bf_Points r) (finalizeBatchQuality (quality_of cs T))" using ok by blast
    then show ?thesis unfolding quality_of_order [OF T(2)] .
  qed
qed

section \<open>The placement behind a candidate\<close>

lemma index_slots_positive:
  assumes v: "ValidateSnapshot s = None" and cap: "capacity_in_range (snap_Policy s)"
    and i: "frontier_index s (frontier_backfills s) index"
  shows "0 < sum_list (index_slots s (frontier_backfills s) index)"
proof -
  have "slots_in_range (index_slots s (frontier_backfills s) index)"
    using snapshot_indexes_in_range [OF v cap] i by (simp add: indexes_in_range_def)
  then have nonneg: "\<forall>x\<in>set (index_slots s (frontier_backfills s) index). 0 \<le> x" by (simp add: slots_in_range_def)
  moreover have "\<exists>x\<in>set (index_slots s (frontier_backfills s) index). x \<noteq> 0"
  proof (cases "index < 0")
    case True
    have "0 < pol_TeamCount (snap_Policy s)" "0 < pol_TeamSize (snap_Policy s)"
      using v by (simp_all add: ValidateSnapshot_None ValidatePolicy_None)
    with True show ?thesis by (simp add: index_slots_def matchSlots_def)
  next
    case False
    with i have "frontier_backfills s ! nat index \<in> set (frontier_backfills s)"
      by (intro nth_mem) (auto simp: frontier_index_def)
    then have "ValidateBackfillTicket (frontier_backfills s ! nat index) = None" using v by (simp add: ValidateSnapshot_None)
    from ValidateBackfillTicket_vacancy [OF this] False show ?thesis by (simp add: index_slots_def)
  qed
  ultimately show ?thesis by (metis order_le_less sum_list_nonneg sum_list_nonneg_eq_0_iff)
qed

lemma candidate_draw:
  assumes v: "ValidateSnapshot s = None" and cap: "capacity_in_range (snap_Policy s)"
    and c: "c \<in> set (frontier_candidates s)"
  shows "\<exists>d. frontier_draw s d \<and> stands_for s c d"
proof -
  let ?w = "frontier_tickets s" and ?i = "fc_backfillIndex c" and ?bs = "frontier_backfills s"
  note range = snapshot_indexes_in_range [OF v cap]
  note drawn = frontier_candidates_drawn [OF range c]
  from drawn(1) obtain leaf where leaf: "leaf \<in> set (exact_placements ?w (index_slots s ?bs ?i))"
    "fc_ticketMask c = mask_of (concat leaf)"
    "fc_evidence c = eval_Evidence (index_evaluation s ?bs ?i (materializePlacement ?w leaf))"
    "eval_Admissible (index_evaluation s ?bs ?i (materializePlacement ?w leaf))" unfolding drawn_from_def by blast
  have slots: "slots_in_range (index_slots s ?bs ?i)" using range drawn(2) by (simp add: indexes_in_range_def)
  let ?pl = "materializePlacement ?w leaf"
  note exact = exact_placements_sound [OF leaf(1) slots]
  have "players_in (concat ?pl) = sum_list (index_slots s ?bs ?i)"
    using exact unfolding exact_placement_def players_in_concat by simp
  with index_slots_positive [OF v cap drawn(2)] have "concat ?pl \<noteq> []" by (auto simp del: concat_eq_Nil_conv)
  with exact drawn(2) leaf(4) have "frontier_draw s (?i, ?pl)" by (simp add: frontier_draw_def del: concat_eq_Nil_conv)
  moreover have "mask_of (concat leaf) = mask_of (concat (map (indexes_of ?w) ?pl))"
    using materialize_indexes [OF frontier_window(1) [OF v] exact_placements_bounded [OF leaf(1) slots]]
    by (intro mask_of_cong) simp
  then have "stands_for s c (?i, ?pl)"
    using leaf drawn(3) by (simp add: stands_for_def same_quality_def placed_candidate_def)
  ultimately show ?thesis by blast
qed

lemma apart_draws:
  assumes v: "ValidateSnapshot s = None" and e: "BatchFrontierEligible s"
    and c: "frontier_draw s d" "stands_for s c d" and f: "frontier_draw s e" "stands_for s f e"
    and apart: "apart c f"
  shows "draws_apart s d e"
proof -
  have n: "length (snap_MatchTickets s) \<le> 16" and b: "length (snap_BackfillTickets s) \<le> 8"
    using e by (simp_all add: BatchFrontierEligible_def MaxBatchFrontierTickets_def MaxBatchFrontierBackfills_def)
  have tickets: "set (concat (snd d)) \<subseteq> set (frontier_tickets s)" if "frontier_draw s d" for d
    using that set_mset_mono [of "mset (concat (snd d))" "mset (frontier_tickets s)"]
    unfolding frontier_draw_def exact_placement_def set_mset_mset by blast
  have masks: "members (fc_ticketMask c) = {j. j < length (snap_MatchTickets s) \<and> frontier_tickets s ! j \<in> set (concat (snd d))}"
    if "stands_for s c d" for c d
    using that placed_members [OF n] by (simp add: stands_for_def same_quality_def)
  have "\<not> (t \<in> set (concat (snd d)) \<and> t \<in> set (concat (snd e)))" for t
  proof
    assume t: "t \<in> set (concat (snd d)) \<and> t \<in> set (concat (snd e))"
    with tickets [OF c(1)] have "t \<in> set (frontier_tickets s)" by blast
    then obtain j where "j < length (snap_MatchTickets s)" "t = frontier_tickets s ! j" by (metis canonical_sel(3) in_set_conv_nth)
    with t masks [OF c(2)] masks [OF f(2)] apart show False unfolding apart_def by blast
  qed
  moreover have "inj_on mt_ID (set (frontier_tickets s))" using valid_ids(1) [OF v] by (simp add: distinct_map)
  ultimately have ids: "draw_ids d \<inter> draw_ids e = {}"
    using tickets [OF c(1)] tickets [OF f(1)] unfolding set_map by (blast dest: inj_onD)
  have index: "frontier_index s (frontier_backfills s) (fst d)" "frontier_index s (frontier_backfills s) (fst e)"
    using c(1) f(1) by (simp_all add: frontier_draw_def)
  have "draw_backfills s d \<inter> draw_backfills s e = {}"
  proof (cases "0 \<le> fst d \<and> 0 \<le> fst e")
    case True
    with index have len: "nat (fst d) < length (frontier_backfills s)" "nat (fst e) < length (frontier_backfills s)"
      by (auto simp: frontier_index_def)
    have "members (backfill_mask c) = {nat (fst d)}" "members (backfill_mask f) = {nat (fst e)}"
      using c(2) f(2) True len b by (simp_all add: backfill_mask_members stands_for_def)
    with apart have "nat (fst d) \<noteq> nat (fst e)" unfolding apart_def by blast
    moreover have "distinct (map bt_ID (frontier_backfills s))" using valid_ids(2) [OF v] by simp
    ultimately have "bt_ID (frontier_backfills s ! nat (fst d)) \<noteq> bt_ID (frontier_backfills s ! nat (fst e))"
      using len by (simp add: distinct_map distinct_conv_nth inj_on_def) 
    with True show ?thesis by (simp add: index_backfills_def)
  qed (auto simp: index_backfills_def)
  with ids show ?thesis unfolding draws_apart_def ..
qed

section \<open>The frontier of a snapshot\<close>

text \<open>A batch the frontier ranges over: placements that share no ticket and no backfill, at most as
  many as the policy allows.\<close>

definition frontier_batch :: "MatchmakingSnapshot \<Rightarrow> draw list \<Rightarrow> bool" where
  "frontier_batch s ds \<longleftrightarrow> (\<forall>d\<in>set ds. frontier_draw s d) \<and> sorted_wrt (draws_apart s) ds \<and>
     int (length ds) \<le> frontierProposalLimit (snap_Policy s)"

definition batch_quality :: "MatchmakingSnapshot \<Rightarrow> draw list \<Rightarrow> BatchQuality" where
  "batch_quality s ds = finalizeBatchQuality (draws_quality s BatchQuality_zero ds)"

lemma frontierProposalLimit_positive: "0 < frontierProposalLimit policy"
  by (simp add: frontierProposalLimit_def MaxBatchFrontierTickets_def)

lemma eligible_tickets: "BatchFrontierEligible s \<Longrightarrow> length (snap_MatchTickets s) \<le> 16"
  by (simp add: BatchFrontierEligible_def MaxBatchFrontierTickets_def)

text \<open>The slice for the selection is allocated with the limit of proposals as its capacity, unless there is no ticket.\<close>

definition frontier_panics :: "int \<Rightarrow> MatchmakingSnapshot \<Rightarrow> bool" where
  "frontier_panics maxCap s \<longleftrightarrow> snap_MatchTickets s \<noteq> [] \<and> maxCap < frontierProposalLimit (snap_Policy s)"

lemma ExhaustiveBatchFrontier_invalid:
  "ValidateSnapshot s = Some e \<Longrightarrow> ExhaustiveBatchFrontier maxCap s = Some (Returned (Inl e))"
  "ValidateSnapshot s = None \<Longrightarrow> \<not> BatchFrontierEligible s \<Longrightarrow> ExhaustiveBatchFrontier maxCap s = Some (Returned (Inl FailureInvalidInput))"
  by (auto simp: ExhaustiveBatchFrontier_def BatchFrontierEligible_def)

lemma ExhaustiveBatchFrontier_eligible:
  assumes "ValidateSnapshot s = None" "BatchFrontierEligible s"
  shows "frontier_panics maxCap s \<Longrightarrow> ExhaustiveBatchFrontier maxCap s = Some Panicked"
    and "\<not> frontier_panics maxCap s \<Longrightarrow> \<exists>r r'. ExhaustiveBatchFrontier maxCap s = Some (Returned (Inr r)) \<and> bf_Points r = bf_Points r' \<and>
      enumerateBatchFrontier maxCap (frontier_candidates s) (length (snap_MatchTickets s)) (frontierProposalLimit (snap_Policy s)) =
        Some (Returned r')"
  using enumerateBatchFrontier_total [OF eligible_tickets [OF assms(2)], of maxCap "frontierProposalLimit (snap_Policy s)" "frontier_candidates s"] assms
  by (auto simp: ExhaustiveBatchFrontier_def BatchFrontierEligible_def frontier_panics_def Let_def split: prod.splits)

lemma ExhaustiveBatchFrontier_Inr:
  assumes "ExhaustiveBatchFrontier maxCap s = Some (Returned (Inr r))"
  obtains r' where "ValidateSnapshot s = None" "BatchFrontierEligible s" "bf_Points r = bf_Points r'"
    "enumerateBatchFrontier maxCap (frontier_candidates s) (length (snap_MatchTickets s)) (frontierProposalLimit (snap_Policy s)) =
      Some (Returned r')"
proof (cases "ValidateSnapshot s = None \<and> BatchFrontierEligible s")
  case True
  then have v: "ValidateSnapshot s = None" "BatchFrontierEligible s" by simp_all
  from ExhaustiveBatchFrontier_eligible [OF v, of maxCap] assms v that show thesis by (cases "frontier_panics maxCap s") auto
next
  case False
  with ExhaustiveBatchFrontier_invalid [of s] assms show thesis by (cases "ValidateSnapshot s") fastforce+
qed

lemma frontier_points_cover:
  assumes r: "ExhaustiveBatchFrontier maxCap s = Some (Returned (Inr r))" and cap: "capacity_in_range (snap_Policy s)" and ds: "frontier_batch s ds"
  shows "quality.covers (bf_Points r) (batch_quality s ds)"
proof -
  from r obtain r' where v: "ValidateSnapshot s = None" and e: "BatchFrontierEligible s" and points: "bf_Points r = bf_Points r'"
    and r': "enumerateBatchFrontier maxCap (frontier_candidates s) (length (snap_MatchTickets s)) (frontierProposalLimit (snap_Policy s)) = Some (Returned r')"
    by (rule ExhaustiveBatchFrontier_Inr)
  note n = eligible_tickets [OF e]
  have "\<forall>d\<in>set ds. frontier_draw s d" "sorted_wrt (draws_apart s) ds" using ds by (simp_all add: frontier_batch_def)
  with v cap n obtain S where "batch_fits (frontier_candidates s) (push_bit (length (snap_MatchTickets s)) 1 - 1) 0 S"
    "length S = length ds" "quality_of (frontier_candidates s) S = draws_quality s BatchQuality_zero ds"
    by (rule draws_batch)
  with enumerateBatchFrontier_ok(2) [OF n r' less_imp_le [OF frontierProposalLimit_positive], of S] ds show ?thesis
    unfolding points by (simp add: batch_quality_def frontier_batch_def del: push_bit_of_1)
qed

lemma frontier_points_sound:
  assumes r: "ExhaustiveBatchFrontier maxCap s = Some (Returned (Inr r))" and cap: "capacity_in_range (snap_Policy s)" and p: "p \<in> set (bf_Points r)"
  shows "\<exists>ds. frontier_batch s ds \<and> p = batch_quality s ds"
proof -
  let ?cs = "frontier_candidates s"
  from r obtain r' where v: "ValidateSnapshot s = None" and e: "BatchFrontierEligible s" and points: "bf_Points r = bf_Points r'"
    and r': "enumerateBatchFrontier maxCap ?cs (length (snap_MatchTickets s)) (frontierProposalLimit (snap_Policy s)) = Some (Returned r')"
    by (rule ExhaustiveBatchFrontier_Inr)
  from enumerateBatchFrontier_ok(3) [OF eligible_tickets [OF e] r' less_imp_le [OF frontierProposalLimit_positive] p [unfolded points]]
  obtain S where S: "int (length S) \<le> frontierProposalLimit (snap_Policy s)" "\<forall>i\<in>set S. i < length ?cs"
    "sorted_wrt (\<lambda>i j. apart (?cs ! i) (?cs ! j)) S" "p = finalizeBatchQuality (quality_of ?cs S)" by blast
  have "\<forall>i\<in>set S. \<exists>d. frontier_draw s d \<and> stands_for s (?cs ! i) d" using candidate_draw [OF v cap] S(2) by simp
  from bchoice [OF this] obtain f where f: "\<forall>i\<in>set S. frontier_draw s (f i) \<and> stands_for s (?cs ! i) (f i)" by blast
  have "sorted_wrt (draws_apart s) (map f S)"
    unfolding sorted_wrt_map using S(3)
    by (rule sorted_wrt_mono_rel [rotated]) (use f apart_draws [OF v e] in blast)
  moreover have "foldl addCandidateQuality q (map ((!) ?cs) T) = draws_quality s q (map f T)" if "set T \<subseteq> set S" for q T
    using that
  proof (induction T arbitrary: q)
    case (Cons i T)
    then have "same_quality (?cs ! i) (placed_candidate s (fst (f i)) (snd (f i)))" using f by (simp add: stands_for_def)
    from same_quality_add [OF this] Cons show ?case by simp
  qed simp
  then have "p = batch_quality s (map f S)" unfolding S(4) batch_quality_def quality_of_def by simp
  ultimately show ?thesis using f S(1) unfolding frontier_batch_def by (intro exI [of _ "map f S"]) simp
qed

text \<open>
  C37. The search for the frontier always ends. For every snapshot \<open>ExhaustiveBatchFrontier\<close> returns a
  result or an error, or it panics, and it panics exactly when the snapshot is valid, within the bounds
  and not empty and its policy allows more proposals than the runtime can allocate a slice for. The
  recursive closure clears the lowest free ticket in every nested call, and the size check admits no
  more tickets than the mask has bits, so fuel of one more than the number of tickets is never used up.
\<close>

theorem ExhaustiveBatchFrontier_terminates:
  "\<exists>outcome. ExhaustiveBatchFrontier maxCap snapshot = Some outcome \<and>
     (outcome = Panicked \<longleftrightarrow> ValidateSnapshot snapshot = None \<and> BatchFrontierEligible snapshot \<and>
        snap_MatchTickets snapshot \<noteq> [] \<and> maxCap < frontierProposalLimit (snap_Policy snapshot))"
proof (cases "ValidateSnapshot snapshot = None \<and> BatchFrontierEligible snapshot")
  case True
  then have v: "ValidateSnapshot snapshot = None" "BatchFrontierEligible snapshot" by simp_all
  from ExhaustiveBatchFrontier_eligible [OF v, of maxCap] v show ?thesis
    by (cases "frontier_panics maxCap snapshot") (auto simp: frontier_panics_def)
next
  case False
  with ExhaustiveBatchFrontier_invalid [of snapshot] show ?thesis by (cases "ValidateSnapshot snapshot") fastforce+
qed

text \<open>Validation bounds the number of proposals from below only, so a snapshot with one ticket is enough for the panic.\<close>

definition ex_huge_snapshot :: MatchmakingSnapshot where
  "ex_huge_snapshot = ex_duel_snapshot\<lparr>snap_Policy := ex_duel_policy\<lparr>pol_MaxProposals := 2 ^ 62\<rparr>\<rparr>"

lemma ExhaustiveBatchFrontier_panics:
  assumes "maxCap < 2 ^ 62"
  shows "ExhaustiveBatchFrontier maxCap ex_huge_snapshot = Some Panicked"
proof -
  have "ValidateSnapshot ex_huge_snapshot = None" "BatchFrontierEligible ex_huge_snapshot"
    "snap_MatchTickets ex_huge_snapshot \<noteq> []" "frontierProposalLimit (snap_Policy ex_huge_snapshot) = 2 ^ 62" by code_simp+
  with ExhaustiveBatchFrontier_eligible(1) [of ex_huge_snapshot maxCap] assms show ?thesis by (simp add: frontier_panics_def)
qed

text \<open>
  C38. The frontier is exact. No two of its points are equivalent and none dominates another; every
  batch of admissible exact placements that share no ticket and no backfill, up to the limit of
  proposals, is equivalent to a point or dominated by one; and every point is the quality of such a
  batch. The enumeration by masks, the deduplication of the candidates by their scores and of the
  batches by their keys, and the choice by anchor lose nothing of it.
\<close>

theorem ExhaustiveBatchFrontier_exact:
  assumes "ExhaustiveBatchFrontier maxCap snapshot = Some (Returned (Inr frontier))" "capacity_in_range (snap_Policy snapshot)"
  shows "sorted_wrt (\<lambda>p q. \<not> batchQualityEquivalent p q \<and> \<not> frontierQualityDominates p q \<and> \<not> frontierQualityDominates q p)
      (bf_Points frontier) \<and>
    (\<forall>batch. frontier_batch snapshot batch \<longrightarrow>
       (\<exists>p\<in>set (bf_Points frontier). batchQualityEquivalent p (batch_quality snapshot batch) \<or>
          frontierQualityDominates p (batch_quality snapshot batch))) \<and>
    (\<forall>p\<in>set (bf_Points frontier). \<exists>batch. frontier_batch snapshot batch \<and> p = batch_quality snapshot batch)"
proof -
  from assms(1) obtain r where "BatchFrontierEligible snapshot" and points: "bf_Points frontier = bf_Points r"
    and r: "enumerateBatchFrontier maxCap (frontier_candidates snapshot) (length (snap_MatchTickets snapshot))
      (frontierProposalLimit (snap_Policy snapshot)) = Some (Returned r)"
    by (rule ExhaustiveBatchFrontier_Inr)
  then have "quality.antichain (bf_Points r)"
    using enumerateBatchFrontier_ok(1) [OF eligible_tickets r less_imp_le [OF frontierProposalLimit_positive]] by blast
  then show ?thesis
    using frontier_points_cover [OF assms] frontier_points_sound [OF assms]
    unfolding points quality.antichain_def quality.covers_def by blast
qed

lemma ExhaustiveBatchFrontier_exact_witness:
  "\<exists>frontier p. ExhaustiveBatchFrontier (2 ^ 45) ex_duel_snapshot = Some (Returned (Inr frontier)) \<and> p \<in> set (bf_Points frontier) \<and>
     bq_ProposalCount p = 1 \<and> (\<exists>batch. frontier_batch ex_duel_snapshot batch \<and> p = batch_quality ex_duel_snapshot batch)"
proof -
  have cap: "capacity_in_range (snap_Policy ex_duel_snapshot)" by code_simp
  have "(case ExhaustiveBatchFrontier (2 ^ 45) ex_duel_snapshot of Some (Returned (Inr r)) \<Rightarrow> map bq_ProposalCount (bf_Points r) = [1] | _ \<Rightarrow> False)"
    by code_simp
  from this [unfolded returned_cases] obtain r
    where r: "ExhaustiveBatchFrontier (2 ^ 45) ex_duel_snapshot = Some (Returned (Inr r))" "map bq_ProposalCount (bf_Points r) = [1]"
    by (elim exE conjE)
  then obtain p where p: "bf_Points r = [p]" "bq_ProposalCount p = 1" by auto
  with ExhaustiveBatchFrontier_exact [OF r(1) cap] have "\<exists>batch. frontier_batch ex_duel_snapshot batch \<and> p = batch_quality ex_duel_snapshot batch" by simp
  with r(1) p show ?thesis by auto
qed

section \<open>Batches on and below the frontier\<close>

lemma CompareBatchFrontier_conv:
  assumes "plannerBatchQuality sha256 s batch = Inr q" "ExhaustiveBatchFrontier maxCap s = Some (Returned (Inr r))" "quality.covers (bf_Points r) q"
  shows "\<exists>c. CompareBatchFrontier maxCap sha256 s batch = Some (Returned (Inr c)) \<and> bfc_Planner c = q \<and> bfc_Frontier c = r \<and>
    bfc_Relation c \<in> {BatchFrontierEquivalent, BatchFrontierDominated}"
proof (cases "find (\<lambda>point. frontierQualityDominates point q) (bf_Points r)")
  case None
  with assms(3) have "list_ex (\<lambda>point. batchQualityEquivalent point q) (bf_Points r)"
    unfolding quality.covers_def find_None_iff list_ex_iff by blast
  with assms(1,2) show ?thesis by (simp add: CompareBatchFrontier_def)
qed (use assms(1,2) in \<open>simp add: CompareBatchFrontier_def Let_def\<close>)

lemma plannerBatchQuality_fingerprint:
  assumes "plannerBatchQuality sha256 s batch = Inr q"
  obtains fp where "ValidateSnapshot s = None" "FingerprintPolicy sha256 (snap_Policy s) = Inr fp"
  using assms by (auto simp: plannerBatchQuality_def split: option.splits if_splits sum.splits)

lemma accepted_batch_covered:
  assumes q: "plannerBatchQuality sha256 s batch = Inr q" and r: "ExhaustiveBatchFrontier maxCap s = Some (Returned (Inr r))"
    and cap: "capacity_in_range (snap_Policy s)"
  shows "quality.covers (bf_Points r) q"
proof -
  from q obtain fp where v: "ValidateSnapshot s = None" and fp: "FingerprintPolicy sha256 (snap_Policy s) = Inr fp"
    by (rule plannerBatchQuality_fingerprint)
  from q [unfolded plannerBatchQuality_Inr [OF v fp]]
  obtain ds where len: "int (length (batch_Proposals batch)) \<le> frontierProposalLimit (snap_Policy s)"
    and ds: "list_all2 (\<lambda>p d. accepted_proposal s fp p (fst d) (snd d)) (batch_Proposals batch) ds"
      "sorted_wrt (draws_apart s) ds" and q': "q = batch_quality s ds" unfolding batch_quality_def by blast
  have "frontier_draw s d" if "d \<in> set ds" for d
    using ds(1) that by (induction rule: list_all2_induct) (auto dest: accepted_draw)
  then have "frontier_batch s ds"
    using len ds list_all2_lengthD [OF ds(1)] by (simp add: frontier_batch_def)
  from frontier_points_cover [OF r cap this] show ?thesis unfolding q' .
qed

text \<open>
  C39. No batch can beat the frontier: when \<open>CompareBatchFrontier\<close> accepts a batch, whoever built it,
  its quality is that of a point of the frontier or is dominated by one; the relation
  \<open>BatchFrontierIncomparable\<close>, which the result type provides for, never occurs.
\<close>

theorem CompareBatchFrontier_comparable:
  assumes "CompareBatchFrontier maxCap sha256 snapshot batch = Some (Returned (Inr comparison))" "capacity_in_range (snap_Policy snapshot)"
  shows "bfc_Relation comparison \<noteq> BatchFrontierIncomparable"
proof -
  from assms(1) obtain q r where q: "plannerBatchQuality sha256 snapshot batch = Inr q" and r: "ExhaustiveBatchFrontier maxCap snapshot = Some (Returned (Inr r))"
    by (auto simp: CompareBatchFrontier_def split: sum.splits option.splits go_call.splits)
  from CompareBatchFrontier_conv [OF q r accepted_batch_covered [OF q r assms(2)]] assms(1) show ?thesis by auto
qed

lemma CompareBatchFrontier_comparable_witness:
  "\<exists>comparison. CompareBatchFrontier (2 ^ 45) ex_hash ex_duel_snapshot ex_plan = Some (Returned (Inr comparison)) \<and>
     bq_ProposalCount (bfc_Planner comparison) = 1 \<and> bfc_Relation comparison \<noteq> BatchFrontierIncomparable"
proof -
  have cap: "capacity_in_range (snap_Policy ex_duel_snapshot)" by code_simp
  have "(case CompareBatchFrontier (2 ^ 45) ex_hash ex_duel_snapshot ex_plan of
      Some (Returned (Inr c)) \<Rightarrow> bq_ProposalCount (bfc_Planner c) = 1 | _ \<Rightarrow> False)" by code_simp
  then obtain c where c: "CompareBatchFrontier (2 ^ 45) ex_hash ex_duel_snapshot ex_plan = Some (Returned (Inr c))" "bq_ProposalCount (bfc_Planner c) = 1"
    unfolding returned_cases by blast
  with CompareBatchFrontier_comparable [OF c(1) cap] show ?thesis by blast
qed

section \<open>The batches of the planner\<close>

lemma planned_accepted:
  assumes plan: "Plan sha256 s = Inr batch" and ready: "plan_ready sha256 s" and p: "p \<in> set (batch_Proposals batch)"
  shows "\<exists>d. accepted_proposal s (prop_PolicyFingerprint p) p (fst d) (snd d)"
proof -
  have cap: "capacity_in_range (snap_Policy s)" using ready by (simp add: plan_ready_def)
  note summary = plan_summary [OF plan]
  have valid: "ValidateProposal p = None" by (rule go_planner.plan_valid [OF ready plan p])
  from plan cap p obtain pl slots existing enq where
    pl: "map ta_Tickets (prop_Teams p) = map (map TicketReference) pl"
    "shape_ok s (snap_BackfillTickets s) (prop_Kind p) (prop_Backfill p) slots existing enq" "map players_in pl = slots"
    "scored_as (prop_Evidence p) (shape_evaluation s (prop_Kind p) existing enq pl)" "mset (concat pl) \<subseteq># mset (plan_available s)"
    by (rule plan_proposal_placement)
  have "mset (concat pl) \<subseteq># mset (frontier_tickets s)"
    using pl(5) mset_plan_tickets [of s] by (metis canonical_sel(1) mset_subset_eq_add_left subset_mset.order_trans)
  moreover have len: "length (prop_Teams p) = length slots" using pl(1,3) by (metis length_map)
  moreover have "\<exists>index. target_index s p index \<and> slots = index_slots s (frontier_backfills s) index \<and>
      shape_evaluation s (prop_Kind p) existing enq pl = index_evaluation s (frontier_backfills s) index pl"
    using pl(2) unfolding shape_ok_def
  proof (elim disjE bexE conjE)
    assume "prop_Kind p = ProposalNewMatch" "slots = matchSlots (snap_Policy s)"
    then show ?thesis
      by (intro exI [of _ "- 1"]) (simp add: target_index_def index_slots_def shape_evaluation_def index_evaluation_def)
  next
    fix b assume b: "b \<in> set (snap_BackfillTickets s)" "prop_Kind p = ProposalBackfill" "prop_Backfill p = Some (BackfillReference b)"
      "slots = bt_OpenSlotsByTeam b" "existing = bt_ExistingTeams b" "enq = bt_EnqueuedAt b"
    then obtain j where "j < length (snap_BackfillTickets s)" "b = frontier_backfills s ! j"
      by (metis canonical_sel(4,6) in_set_conv_nth)
    with b show ?thesis
      by (intro exI [of _ "int j"]) (simp add: target_index_def index_slots_def shape_evaluation_def index_evaluation_def)
  qed
  then obtain index where index: "target_index s p index" "slots = index_slots s (frontier_backfills s) index"
    "shape_evaluation s (prop_Kind p) existing enq pl = index_evaluation s (frontier_backfills s) index pl" by blast
  moreover have "int (length slots) = pol_TeamCount (snap_Policy s)"
    using pl(2) summary(1)
    by (auto simp: shape_ok_def matchSlots_def ValidateSnapshot_None ValidatePolicy_None backfill_fits_def)
  ultimately have "accepted_proposal s (prop_PolicyFingerprint p) p index pl"
    using valid summary(3) [OF p] pl(1,3,4) index unfolding accepted_proposal_def exact_placement_def scored_as_def by simp
  then show ?thesis by (intro exI [of _ "(index, pl)"]) simp
qed

lemma accepted_tickets:
  assumes "accepted_proposal s fp p (fst d) (snd d)"
  shows "prop_Tickets p = map TicketReference (concat (snd d))"
    "set (index_backfills s (fst d)) = (\<lambda>g. ref_ID (tgt_Ticket g)) ` set_option (prop_Backfill p)"
proof -
  have v: "ValidateProposal p = None" "map ta_Tickets (prop_Teams p) = map (map TicketReference) (snd d)" "target_index s p (fst d)"
    using assms unfolding accepted_proposal_def by blast+
  have "prop_Tickets p = concat (map ta_Tickets (prop_Teams p))" using v(1) by (simp add: ValidateProposal_None)
  then show "prop_Tickets p = map TicketReference (concat (snd d))" unfolding v(2) map_concat .
  show "set (index_backfills s (fst d)) = (\<lambda>g. ref_ID (tgt_Ticket g)) ` set_option (prop_Backfill p)"
    using v(1,3) by (auto simp: target_index_def index_backfills_def ValidateProposal_None)
qed

lemma planned_apart:
  assumes "accepted_proposal s fp p (fst d) (snd d)" "accepted_proposal s fp q (fst e) (snd e)" "proposals_apart p q"
  shows "draws_apart s d e"
  using assms(3) unfolding proposals_apart_def draws_apart_def accepted_tickets [OF assms(1)] accepted_tickets [OF assms(2)]
  by (simp add: image_image)

lemma planned_count:
  assumes plan: "Plan sha256 s = Inr batch" and ready: "plan_ready sha256 s"
  shows "length (batch_Proposals batch) \<le> length (snap_MatchTickets s)"
proof -
  have cap: "capacity_in_range (snap_Policy s)" using ready by (simp add: plan_ready_def)
  have pos: "\<forall>p\<in>set (batch_Proposals batch). 1 \<le> length (prop_Tickets p)"
    using go_planner.plan_valid [OF ready plan] by (auto simp: ValidateProposal_None Suc_le_eq)
  have "length ps \<le> length (concat (map prop_Tickets ps))" if "\<forall>p\<in>set ps. 1 \<le> length (prop_Tickets p)" for ps
    using that by (induction ps) auto
  then have "length (batch_Proposals batch) \<le> length (concat (map prop_Tickets (batch_Proposals batch)))" using pos by blast
  also have "\<dots> \<le> size (mset (map TicketReference (snap_MatchTickets s)))"
    unfolding Plan_accounts [OF plan cap, symmetric] by simp
  finally show ?thesis by simp
qed

lemma planned_quality:
  assumes plan: "Plan sha256 s = Inr batch" and ready: "plan_ready sha256 s" and e: "BatchFrontierEligible s"
  shows "\<exists>q. plannerBatchQuality sha256 s batch = Inr q"
proof -
  have cap: "capacity_in_range (snap_Policy s)" using ready by (simp add: plan_ready_def)
  note summary = plan_summary [OF plan]
  from plan cap obtain fp cs where fp: "FingerprintPolicy sha256 (snap_Policy s) = Inr fp"
    and cs: "batch_Proposals batch = build_proposals sha256 s fp cs"
    "int (length cs) \<le> (if pol_MaxProposals (snap_Policy s) = 0 then 64 else pol_MaxProposals (snap_Policy s))"
    by (rule Plan_selection)
  have "0 \<le> pol_MaxProposals (snap_Policy s)" using summary(1) by (simp add: ValidateSnapshot_None ValidatePolicy_None)
  with cs planned_count [OF plan ready] e have len: "int (length (batch_Proposals batch)) \<le> frontierProposalLimit (snap_Policy s)"
    by (auto simp: frontierProposalLimit_def BatchFrontierEligible_def build_proposals_sel(3) split: if_splits)
  have "\<forall>p\<in>set (batch_Proposals batch). \<exists>d. accepted_proposal s fp p (fst d) (snd d)"
    using planned_accepted [OF plan ready] summary(4) fp by fastforce
  from bchoice [OF this] obtain f where
    f: "\<forall>p\<in>set (batch_Proposals batch). accepted_proposal s fp p (fst (f p)) (snd (f p))" by blast
  have "sorted_wrt (draws_apart s) (map f (batch_Proposals batch))"
    unfolding sorted_wrt_map using go_planner.plan_apart [OF ready plan]
    by (rule sorted_wrt_mono_rel [rotated]) (use f planned_apart in blast)
  moreover have "list_all2 (\<lambda>p d. accepted_proposal s fp p (fst d) (snd d)) (batch_Proposals batch) (map f (batch_Proposals batch))"
    using f by (simp add: list_all2_conv_all_nth)
  ultimately show ?thesis
    unfolding plannerBatchQuality_Inr [OF summary(1) fp] using len summary(2) by blast
qed

text \<open>
  C40. The planner's batches are always valid and never above the frontier. For every snapshot inside
  the frontier's bound the comparison of the batch \<open>Plan\<close> returns succeeds: every reference resolves,
  every team is exactly filled, no ticket and no backfill is used twice, every placement is admissible
  under the evaluation that is recomputed for it, the number of proposals is within the limit even when
  the two sides default it differently, and the relation is that the batch is on the frontier or
  dominated by one of its points. The only exception is the panic of C37: a snapshot with tickets and a
  limit of proposals beyond the largest slice.
\<close>

theorem CompareBatchFrontier_plan:
  assumes "Plan sha256 snapshot = Inr batch" "BatchFrontierEligible snapshot" "plan_ready sha256 snapshot"
  shows "if snap_MatchTickets snapshot \<noteq> [] \<and> maxCap < frontierProposalLimit (snap_Policy snapshot)
    then CompareBatchFrontier maxCap sha256 snapshot batch = Some Panicked
    else \<exists>comparison. CompareBatchFrontier maxCap sha256 snapshot batch = Some (Returned (Inr comparison)) \<and>
      bfc_Relation comparison \<in> {BatchFrontierEquivalent, BatchFrontierDominated}"
proof -
  have cap: "capacity_in_range (snap_Policy snapshot)" using assms(3) by (simp add: plan_ready_def)
  from planned_quality [OF assms(1,3,2)] obtain q where q: "plannerBatchQuality sha256 snapshot batch = Inr q" by blast
  note frontier = ExhaustiveBatchFrontier_eligible [OF plan_summary(1) [OF assms(1)] assms(2), of maxCap]
  show ?thesis
  proof (cases "frontier_panics maxCap snapshot")
    case True
    with frontier(1) q show ?thesis by (simp add: frontier_panics_def CompareBatchFrontier_def)
  next
    case False
    with frontier(2) obtain r where r: "ExhaustiveBatchFrontier maxCap snapshot = Some (Returned (Inr r))" by blast
    from CompareBatchFrontier_conv [OF q r accepted_batch_covered [OF q r cap]] False show ?thesis
      unfolding frontier_panics_def by auto
  qed
qed

lemma CompareBatchFrontier_plan_witness:
  "batch_Proposals ex_plan \<noteq> [] \<and> (\<exists>comparison. CompareBatchFrontier (2 ^ 45) ex_hash ex_duel_snapshot ex_plan = Some (Returned (Inr comparison)) \<and>
     bfc_Relation comparison \<in> {BatchFrontierEquivalent, BatchFrontierDominated})"
proof -
  have "BatchFrontierEligible ex_duel_snapshot" "capacity_in_range (snap_Policy ex_duel_snapshot)" by code_simp+
  then have "BatchFrontierEligible ex_duel_snapshot" "plan_ready ex_hash ex_duel_snapshot"
    by (simp_all add: plan_ready_def ex_hash_def)
  moreover have "\<not> (2 ^ 45 :: int) < frontierProposalLimit (snap_Policy ex_duel_snapshot)" by code_simp
  ultimately have "\<exists>comparison. CompareBatchFrontier (2 ^ 45) ex_hash ex_duel_snapshot ex_plan = Some (Returned (Inr comparison)) \<and>
     bfc_Relation comparison \<in> {BatchFrontierEquivalent, BatchFrontierDominated}"
    using CompareBatchFrontier_plan [OF ex_plan, of "2 ^ 45"] by simp
  moreover have "batch_Proposals ex_plan \<noteq> []" by code_simp
  ultimately show ?thesis by blast
qed

end
