(* ===== verification/Spec2Isabelle.thy ===== *)
theory Spec2Isabelle
  imports Engine Simulation Ledger Service_Props Service_Plan Service_Bounds Service_Roundtrip Durable_Props Frontier_Props
begin

text \<open>
  Sema is a matchmaking service written in Go. Clients submit match tickets (parties of players) and
  backfill tickets (running sessions with open slots); a planner forms proposals from a snapshot of
  that demand; a coordinator reserves the tickets of a proposal, confirms the reservation as an
  assignment and records the outcome.

  \<^bold>\<open>Theories.\<close>

  \<^item> \<open>Prelude\<close>, \<open>Go_Map\<close>, \<open>Bytes\<close>: what the code takes from Go and its standard library (64 bit
    integers, times, comparators and sorting, maps, byte strings, hexadecimal and decimal text).
  \<^item> \<open>Domain\<close>, \<open>Validate\<close>: \<open>src/internal/domain\<close>, the data of the program and its validators.
  \<^item> \<open>Fingerprint\<close>: \<open>domain/policy.go\<close>; a policy fingerprint identifies the content of a policy.
  \<^item> \<open>Constraint\<close>, \<open>Objective\<close>: \<open>src/internal/constraint\<close> and \<open>objective\<close>; hard rules and the
    lexicographic quality of a placement, a total preorder.
  \<^item> \<open>Queue_Order\<close>, \<open>Discovery\<close>: \<open>src/internal/discovery\<close>; the oldest-first candidate window, by
    scan and by index, and their equivalence.
  \<^item> \<open>Placement\<close>, \<open>Batch\<close>, \<open>Planner\<close>: \<open>src/internal/planner\<close>; the bounded search for one
    placement, the branch and bound over disjoint candidates, and \<open>Plan\<close>.
  \<^item> \<open>Catalog\<close>, \<open>Coordinator\<close>, \<open>Coordinator_Inv\<close>, \<open>Coordinator_Runs\<close>, \<open>Coordinator_Props\<close>,
    \<open>Engine\<close>: \<open>src/internal/policy\<close>, \<open>coordinator\<close> and \<open>engine\<close>; the single-process runtime, its
    invariant, and what holds along every sequence of calls. \<open>Ledger\<close> specifies the coordinator
    without its indexes and shows that the code refines it.
  \<^item> \<open>Simulation\<close>: \<open>src/internal/simulation\<close>; policies compared over scenarios.
  \<^item> \<open>Repository\<close>: \<open>src/internal/repository\<close>; the transactional store and its in-memory adapter.
  \<^item> \<open>Json\<close>, \<open>Service_Codec\<close>, \<open>Service\<close>, \<open>Service_Tickets\<close>, \<open>Service_Policies\<close>,
    \<open>Service_Reservations\<close>, \<open>Service_Assignments\<close>, \<open>Service_Planning\<close>: \<open>src/internal/service\<close>; the
    persisted documents and the commands of the service over the repository interface.
  \<^item> \<open>Service_Inv\<close>, \<open>Service_Runs\<close>, \<open>Service_Examples\<close>, \<open>Service_Props\<close>: the invariant of the store
    under concurrent commands, the contract of a repository shared with other clients as a locale,
    and what the service promises under any interference.
  \<^item> \<open>Service_Plan\<close>, \<open>Service_Roundtrip\<close>, \<open>Service_Bounds\<close>: the planner's batches pass the checks of
    the service, captured runs can be read back, retry loops end.
  \<^item> \<open>Durable_Journal\<close>, \<open>Durable\<close>: \<open>src/internal/durable\<close>; the engine behind a checksummed journal, with
    the outcome of every system call as a parameter of the method that makes it.
  \<^item> \<open>Expiry\<close>, \<open>Durable_Recovery\<close>, \<open>Durable_Runs\<close>, \<open>Durable_Props\<close>: expiry can be carried out at any time;
    the journal rebuilds what a crash loses; runs with failures and crashes; a restart is invisible.
  \<^item> \<open>Exhaustive\<close>, \<open>Oracle\<close>, \<open>Frontier\<close>: \<open>src/internal/evaluation\<close>; the oracles the planner is measured
    against, which enumerate every match and every batch of a small snapshot.
  \<^item> \<open>Frontier_Search\<close>, \<open>Frontier_Candidates\<close>, \<open>Frontier_Batch\<close>, \<open>Frontier_Props\<close>: the search over sets of
    tickets held as bits visits every disjoint batch, its candidates are the admissible placements,
    a batch that is accepted consists of them, and so the frontier is exact.
  \<^item> \<open>Machine\<close> holds the locales that turn laws about one call into laws about runs; \<open>Examples\<close> the
    concrete inputs that several witnesses share.

  \<^bold>\<open>State and operations.\<close> A Go struct is a record, an enumeration a datatype, a nil pointer
  \<open>None\<close>, a returned error the left side of a sum. A method that changes state takes the state last
  and returns it next to its answer. Methods of the coordinator, the catalog and the memory adapter
  hold a lock for their whole body, so one call is one step, and a concurrent execution is a sequence
  of calls. Nil and empty slices are the same list and a time is its instant, without location and
  monotonic reading, so \<open>reflect.DeepEqual\<close> is equality: where the code tells them apart (the rosters of
  a replaced backfill, resubmitted tickets) the model accepts a superset.

  \<^bold>\<open>Parameters.\<close> SHA-256 is a function parameter. Theorems that need it say which two inputs must
  not collide. The durable runtime also takes the outcomes of its system calls, and the batch frontier
  the largest capacity for which the Go runtime allocates a slice.

  \<^bold>\<open>Bounds.\<close> Integers a client controls are wrapped at 64 bits. Some planner theorems ask that the
  slots of a policy and of a backfill fit in the machine range (\<open>capacity_in_range\<close>,
  \<open>slots_in_range\<close>) and that ranks fit the utilities (\<open>rankable\<close>). The searches are bounded by the
  budgets of the code, and every loop is structural or has a measure, with one exception: the closure
  that searches the batch frontier takes fuel, one more than there are tickets, and
  \<open>ExhaustiveBatchFrontier_terminates\<close> shows that it is never used up. The commands of the service that
  retry make a bounded number of calls of the repository (\<open>service_calls_bounded\<close>).

  \<^bold>\<open>What the theorems show.\<close> The planner: found placements are legal and, when no budget cut the
  search, best; selections are disjoint and, when no budget cut the search, optimal; a plan
  partitions the tickets of its snapshot and does not depend on their order. The coordinator: active
  reservations exclude each other, reserving and confirming are all or nothing, statuses only move
  forward, repeated requests answer the same. The engine: all proposals of a fresh plan can be
  reserved. The repository: commits are atomic, tenants are isolated, retries are answered from
  receipts. The service: in every interleaving of its commands, as fine as its calls of the repository,
  active reservations exclude each other, sessions and identities have one owner, and what a command
  answers took effect, in one commit that changed nothing else. The durable runtime: whatever system calls fail and whenever it crashes, its
  journal opens again and gives back what was answered, unless a confirmation was refused as stale,
  which is not journaled. The oracles: they find the best match and exactly the best batches, they accept
  every batch the planner returns, and none of them beats what they found. Findings are theorems too: \<open>findBestPlacement_skips_admissible\<close>,
  \<open>Confirm_accepts_resubmitted_revision\<close>, \<open>summarize_reasons\<close>,
  \<open>stale_confirmation_breaks_journal\<close>, \<open>ExhaustiveBatchFrontier_panics\<close>.

  \<^bold>\<open>Not modelled.\<close> Failing allocations, but for the one of the batch frontier: the planner also allocates
  its selection with the limit of proposals of the policy as capacity, and panics when a valid policy
  asks for more than the runtime can address, so its theorems are about plans that are returned. The search
  for a placement is modelled for a positive number of alternatives, which is what its callers pass. A
  crash is one of the process: what was written stays, so the theorems on recovery do not depend on
  the \<open>Sync\<close> after an append. Texts of failures and log lines; contexts that are cancelled; the HTTP and JSON
  interfaces, authentication, PostgreSQL and file adapters (I/O around the modelled operations);
  simulators of arrivals, reports and the terminal interface (pseudo-random numbers and rendering);
  load generators, recovery tools and commands.
\<close>

end
